(* ===== verification/Batadv_Prelude.thy ===== *)
theory Batadv_Prelude
  imports Main "HOL-Library.Word"
begin

text \<open>
  Shared vocabulary of the development: the machine integer types of the kernel
  sources, Ethernet addresses, network byte order, jiffies and timeouts, and the
  wrap-around sequence number comparison of \<^verbatim>\<open>src/net/batman-adv/main.h\<close>.
  The collections \<open>layout_simps\<close> (byte layouts) and \<open>seqno_simps\<close> (sequence
  numbers) carry the component proofs.
\<close>

unbundle bit_operations_syntax

named_theorems layout_simps \<open>lengths and round trips of wire encodings\<close>
named_theorems seqno_simps \<open>signed and unsigned sequence number arithmetic\<close>

section \<open>Machine integers\<close>

type_synonym u8 = "8 word"
type_synonym u16 = "16 word"
type_synonym u32 = "32 word"
type_synonym u64 = "64 word"
type_synonym bytes = "8 word list"

text \<open>The C casts \<^verbatim>\<open>(s32)\<close> and \<^verbatim>\<open>(int)\<close> of a 32 bit value read it as two's complement.\<close>

abbreviation s32 :: "u32 \<Rightarrow> int" where
  "s32 w \<equiv> sint w"

text \<open>\<^verbatim>\<open>U32_MAX\<close>, as the 64 bit value it is compared with.\<close>

definition U32_MAX :: u64 where
  "U32_MAX = 4294967295"

section \<open>Ethernet addresses\<close>

datatype mac = Mac u8 u8 u8 u8 u8 u8

fun mac_bytes :: "mac \<Rightarrow> bytes" where
  "mac_bytes (Mac a b c d e f) = [a, b, c, d, e, f]"

fun get_mac :: "bytes \<Rightarrow> mac" where
  "get_mac bs = Mac (bs ! 0) (bs ! 1) (bs ! 2) (bs ! 3) (bs ! 4) (bs ! 5)"

fun is_multicast_ether_addr :: "mac \<Rightarrow> bool" where
  "is_multicast_ether_addr (Mac a b c d e f) = bit a 0"

definition is_broadcast_ether_addr :: "mac \<Rightarrow> bool" where
  "is_broadcast_ether_addr m = (m = Mac 255 255 255 255 255 255)"

definition is_zero_ether_addr :: "mac \<Rightarrow> bool" where
  "is_zero_ether_addr m = (m = Mac 0 0 0 0 0 0)"

definition is_valid_ether_addr :: "mac \<Rightarrow> bool" where
  "is_valid_ether_addr m = (\<not> is_multicast_ether_addr m \<and> \<not> is_zero_ether_addr m)"

definition batadv_compare_eth :: "mac \<Rightarrow> mac \<Rightarrow> bool" where
  "batadv_compare_eth data1 data2 = (data1 = data2)"

lemma length_mac_bytes [simp, layout_simps]: "length (mac_bytes m) = 6"
  by (cases m) simp

lemma get_mac_bytes [simp, layout_simps]: "get_mac (mac_bytes m @ bs) = m"
  by (cases m) simp

declare get_mac.simps [simp del]

lemma batadv_compare_eth_iff [simp]: "batadv_compare_eth a b \<longleftrightarrow> a = b"
  by (simp add: batadv_compare_eth_def)

lemma broadcast_not_valid: "is_broadcast_ether_addr m \<Longrightarrow> \<not> is_valid_ether_addr m"
  by (simp add: is_broadcast_ether_addr_def is_valid_ether_addr_def)

section \<open>Network byte order\<close>

definition be16 :: "u16 \<Rightarrow> bytes" where
  "be16 x = [ucast (drop_bit 8 x), ucast x]"

definition get_be16 :: "bytes \<Rightarrow> u16" where
  "get_be16 bs = push_bit 8 (ucast (bs ! 0)) OR ucast (bs ! 1)"

definition be32 :: "u32 \<Rightarrow> bytes" where
  "be32 x = [ucast (drop_bit 24 x), ucast (drop_bit 16 x), ucast (drop_bit 8 x), ucast x]"

definition get_be32 :: "bytes \<Rightarrow> u32" where
  "get_be32 bs = push_bit 24 (ucast (bs ! 0)) OR push_bit 16 (ucast (bs ! 1))
     OR push_bit 8 (ucast (bs ! 2)) OR ucast (bs ! 3)"

lemma unat_less_u16: "unat (x :: u16) < 65536"
  using unsigned_less [of x] by simp

lemma unat_of_nat_u32: "n < 2 ^ 32 \<Longrightarrow> unat (of_nat n :: u32) = n"
  by (simp add: unsigned_of_nat take_bit_nat_eq_self)

lemma unat_less_u32: "unat (x :: u32) < 4294967296"
  using unsigned_less [of x] by simp

lemma unat_uminus_u32: "unat (- w :: u32) = (if w = 0 then 0 else 2 ^ 32 - unat w)"
proof (cases "w = 0")
  case False
  have "(unat w + unat (- w)) mod 2 ^ 32 = 0"
    using unat_word_ariths(1) [of w "- w"] by simp
  then obtain q where q: "unat w + unat (- w) = 2 ^ 32 * q" by (auto simp: mod_0_imp_dvd dvd_def)
  have "0 < unat w" "unat w < 2 ^ 32" "unat (- w) < 2 ^ 32"
    using False unat_less_u32 [of w] unat_less_u32 [of "- w"] by (simp_all add: unat_gt_0)
  then have "q = 1" using q by (cases q rule: nat.exhaust [of _ "q = 1"]) auto
  then show ?thesis using q False by simp
qed simp

lemma unat_ucast_u64: "unat (ucast (x :: u32) :: u64) = unat x"
  using unat_less_u32 [of x] by (simp add: unsigned_ucast_eq take_bit_nat_eq_self)

lemma unat_ucast_u8_u32: "unat (ucast (y :: u8) :: u32) = unat y"
proof -
  have "unat y < 256" using unsigned_less [of y] by simp
  then show ?thesis by (simp add: unsigned_ucast_eq take_bit_nat_eq_self)
qed

lemma unat_mult3_u64:
  "unat x * unat y * unat z < 2 ^ 64 \<Longrightarrow>
     unat ((ucast (x :: u32) :: u64) * ucast (y :: u32) * ucast (z :: u32)) = unat x * unat y * unat z"
  by (simp add: unat_word_ariths unat_ucast_u64 mod_mult_left_eq)

lemma length_be16 [simp, layout_simps]: "length (be16 x) = 2"
  by (simp add: be16_def)

lemma length_be32 [simp, layout_simps]: "length (be32 x) = 4"
  by (simp add: be32_def)

lemma get_be16_be16 [simp, layout_simps]: "get_be16 (be16 x @ bs) = x"
  by (rule bit_word_eqI) (auto simp: get_be16_def be16_def bit_simps)

lemma get_be32_be32 [simp, layout_simps]: "get_be32 (be32 x @ bs) = x"
proof (rule bit_word_eqI)
  fix n assume "n < LENGTH(32)"
  then consider "n < 8" | "8 \<le> n \<and> n < 16" | "16 \<le> n \<and> n < 24" | "24 \<le> n \<and> n < 32"
    by fastforce
  then show "bit (get_be32 (be32 x @ bs)) n = bit x n"
    by cases (auto simp: get_be32_def be32_def bit_simps)
qed

section \<open>Results, memory and lists\<close>

text \<open>
  Code that can crash the kernel (a panicking \<^verbatim>\<open>skb_put\<close>, a division by zero, a write
  behind the end of an allocation) returns \<open>Kernel_bug\<close> there and \<open>Kret\<close> otherwise.
\<close>

datatype 'a kresult = Kret 'a | Kernel_bug

text \<open>The code returns, with a result that satisfies \<open>P\<close>.\<close>

fun kret_all :: "('a \<Rightarrow> bool) \<Rightarrow> 'a kresult \<Rightarrow> bool" where
  "kret_all P (Kret x) = P x"
| "kret_all P Kernel_bug = False"

lemma kret_all_iff: "kret_all P r \<longleftrightarrow> (\<exists>x. r = Kret x \<and> P x)"
  by (cases r) simp_all

lemma kret_all_bind:
  assumes "kret_all P r" and "\<And>x. P x \<Longrightarrow> kret_all Q (f x)"
  shows "kret_all Q (case r of Kret x \<Rightarrow> f x | Kernel_bug \<Rightarrow> Kernel_bug)"
  using assms by (cases r) simp_all

text \<open>Sequencing, and reads of one or two bytes that must lie inside the buffer.\<close>

fun kbind :: "'a kresult \<Rightarrow> ('a \<Rightarrow> 'b kresult) \<Rightarrow> 'b kresult" where
  "kbind (Kret x) f = f x"
| "kbind Kernel_bug f = Kernel_bug"

definition read8 :: "bytes \<Rightarrow> nat \<Rightarrow> u8 kresult" where
  "read8 d i = (if i < length d then Kret (d ! i) else Kernel_bug)"

definition read16 :: "bytes \<Rightarrow> nat \<Rightarrow> u16 kresult" where
  "read16 d i = (if i + 2 \<le> length d then Kret (get_be16 (drop i d)) else Kernel_bug)"

text \<open>\<^verbatim>\<open>memcpy\<close> of \<open>bs\<close> to offset \<open>off\<close> of an allocated buffer.\<close>

definition mem_write :: "bytes \<Rightarrow> nat \<Rightarrow> bytes \<Rightarrow> bytes kresult" where
  "mem_write buf off bs =
     (if off + length bs \<le> length buf
      then Kret (take off buf @ bs @ drop (off + length bs) buf)
      else Kernel_bug)"

text \<open>
  Kernel lists (\<^verbatim>\<open>hlist\<close>) are lists of their entries. The code searches the first entry
  that matches a key (\<^const>\<open>List.find\<close>) and then changes or unlinks that entry.
\<close>

fun hlist_del_first :: "('a \<Rightarrow> bool) \<Rightarrow> 'a list \<Rightarrow> 'a list" where
  "hlist_del_first P [] = []"
| "hlist_del_first P (x # xs) = (if P x then xs else x # hlist_del_first P xs)"

fun hlist_upd_first :: "('a \<Rightarrow> bool) \<Rightarrow> ('a \<Rightarrow> 'a) \<Rightarrow> 'a list \<Rightarrow> 'a list" where
  "hlist_upd_first P f [] = []"
| "hlist_upd_first P f (x # xs) = (if P x then f x # xs else x # hlist_upd_first P f xs)"

lemma find_key_SomeD: "find P xs = Some x \<Longrightarrow> x \<in> set xs \<and> P x"
  by (auto simp: find_Some_iff)

lemma set_hlist_del_first: "set (hlist_del_first P xs) \<subseteq> set xs"
  by (induction xs) auto

lemma hlist_del_first_none: "find P xs = None \<Longrightarrow> hlist_del_first P xs = xs"
  by (induction xs) (auto split: if_splits)

lemma hlist_upd_first_none: "find P xs = None \<Longrightarrow> hlist_upd_first P f xs = xs"
  by (induction xs) (auto split: if_splits)

lemma hlist_upd_first_fix: "find P xs = Some x \<Longrightarrow> f x = x \<Longrightarrow> hlist_upd_first P f xs = xs"
  by (induction xs) (auto split: if_splits)

lemma map_hlist_upd_first: "(\<And>x. g (f x) = g x) \<Longrightarrow> map g (hlist_upd_first P f xs) = map g xs"
  by (induction xs) auto

lemma length_hlist_upd_first [simp]: "length (hlist_upd_first P f xs) = length xs"
  by (induction xs) auto

lemma list_all_hlist_upd_first:
  "list_all Q xs \<Longrightarrow> (\<And>x. Q x \<Longrightarrow> P x \<Longrightarrow> Q (f x)) \<Longrightarrow> list_all Q (hlist_upd_first P f xs)"
  by (induction xs) auto

lemma list_all_upd_found:
  "list_all Q xs \<Longrightarrow> find P xs = Some x \<Longrightarrow> Q (f x) \<Longrightarrow> list_all Q (hlist_upd_first P f xs)"
  by (induction xs) (auto split: if_splits)

lemma hlist_upd_first_append:
  "hlist_upd_first P f (xs @ ys) =
     (if \<exists>x \<in> set xs. P x then hlist_upd_first P f xs @ ys else xs @ hlist_upd_first P f ys)"
  by (induction xs) auto

lemma find_upd_found: "find P xs \<noteq> None \<Longrightarrow> (\<And>x. P x \<Longrightarrow> P (f x)) \<Longrightarrow>
    find P (hlist_upd_first P f xs) = Some (f (the (find P xs)))"
  by (induction xs) auto

lemma hlist_upd_first_cong:
  "(\<And>x. P x \<Longrightarrow> f x = g x) \<Longrightarrow> hlist_upd_first P f xs = hlist_upd_first P g xs"
  by (induction xs) auto

lemma find_map_key: "(\<And>x. key (f x) = key x) \<Longrightarrow>
    find (\<lambda>x. key x = k) (map f xs) = map_option f (find (\<lambda>x. key x = k) xs)"
  by (induction xs) auto

lemma foldl_keep: "(\<And>s x. x \<in> set xs \<Longrightarrow> I s \<Longrightarrow> I (g s x)) \<Longrightarrow> I s \<Longrightarrow> I (foldl g s xs)"
  by (induction xs arbitrary: s) auto

lemma list_all_hlist_del_first: "list_all Q xs \<Longrightarrow> list_all Q (hlist_del_first P xs)"
  by (induction xs) auto

text \<open>Entries with distinct keys.\<close>

lemma distinct_keys_del: "distinct (map key xs) \<Longrightarrow> distinct (map key (hlist_del_first P xs))"
  using set_hlist_del_first [of P] by (induction xs) auto

lemma find_key_notin: "find (\<lambda>x. key x = k) xs = None \<longleftrightarrow> k \<notin> key ` set xs"
  by (induction xs) auto

lemma find_key_distinct:
  "distinct (map key xs) \<Longrightarrow> x \<in> set xs \<Longrightarrow> find (\<lambda>y. key y = key x) xs = Some x"
  by (induction xs) force+

lemma del_first_keys:
  "distinct (map key xs) \<Longrightarrow> k \<notin> key ` set (hlist_del_first (\<lambda>x. key x = k) xs)"
  by (induction xs) (auto split: if_splits)

lemma find_key_del_first:
  assumes "distinct (map key xs)"
  shows "find (\<lambda>x. key x = k') (hlist_del_first (\<lambda>x. key x = k) xs) =
           (if k' = k then None else find (\<lambda>x. key x = k') xs)"
  using assms
proof (induction xs)
  case (Cons x xs)
  then show ?case by (auto simp: find_key_notin)
qed simp

lemma find_key_upd_first:
  assumes "\<And>x. key (f x) = key x"
  shows "find (\<lambda>x. key x = k') (hlist_upd_first (\<lambda>x. key x = k) f xs) =
           (if k' = k then map_option f (find (\<lambda>x. key x = k) xs) else find (\<lambda>x. key x = k') xs)"
  using assms by (induction xs) auto

lemma del_first_found:
  assumes "find P xs = Some x" and "distinct (map key xs)"
  shows "key ` set xs = insert (key x) (key ` set (hlist_del_first P xs))"
    and "key x \<notin> key ` set (hlist_del_first P xs)"
  using assms by (induction xs) (auto split: if_splits)

lemma del_upd_first:
  "(\<And>x. P x \<Longrightarrow> P (f x)) \<Longrightarrow> hlist_del_first P (hlist_upd_first P f xs) = hlist_del_first P xs"
  by (induction xs) auto

lemma find_key_put:
  "find (\<lambda>x. key x = a) xs = Some n \<Longrightarrow> key n' = a \<Longrightarrow>
     find (\<lambda>x. key x = b) (hlist_upd_first (\<lambda>x. key x = a) (\<lambda>_. n') xs) =
       (if b = a then Some n' else find (\<lambda>x. key x = b) xs)"
  by (induction xs) (auto split: if_splits)

lemma map_upd_found: "find P xs = Some x \<Longrightarrow> g (f x) = g x \<Longrightarrow> map g (hlist_upd_first P f xs) = map g xs"
  by (induction xs) (auto split: if_splits)

lemma length_del_found: "find P xs = Some x \<Longrightarrow> length xs = Suc (length (hlist_del_first P xs))"
  by (induction xs) (auto split: if_splits)

text \<open>
  The contract of the keyed registries of the module: what a lookup returns after an entry
  is stored or removed, and that both keep the registry's invariant. A sequence of updates
  then behaves as the same sequence on a finite map.
\<close>

locale registry =
  fixes inv :: "'s \<Rightarrow> bool" and lookup :: "'s \<Rightarrow> 'k \<Rightarrow> 'v option"
    and store :: "'k \<Rightarrow> 'v \<Rightarrow> 's \<Rightarrow> 's" and erase :: "'k \<Rightarrow> 's \<Rightarrow> 's"
    and admits :: "('k \<rightharpoonup> 'v) \<Rightarrow> 'k \<Rightarrow> 'v \<Rightarrow> bool"
  assumes inv_store: "inv s \<Longrightarrow> inv (store k v s)"
    and inv_erase: "inv s \<Longrightarrow> inv (erase k s)"
    and lookup_store: "inv s \<Longrightarrow> lookup (store k v s) = (if admits (lookup s) k v then (lookup s)(k \<mapsto> v) else lookup s)"
    and lookup_erase: "inv s \<Longrightarrow> lookup (erase k s) = (lookup s)(k := None)"
begin

definition run :: "('k \<times> 'v option) list \<Rightarrow> 's \<Rightarrow> 's" where
  "run ops s = foldl (\<lambda>s (k, v). case v of Some x \<Rightarrow> store k x s | None \<Rightarrow> erase k s) s ops"

definition run_map :: "('k \<times> 'v option) list \<Rightarrow> ('k \<rightharpoonup> 'v) \<Rightarrow> ('k \<rightharpoonup> 'v)" where
  "run_map ops m = foldl (\<lambda>m (k, v). case v of
       Some x \<Rightarrow> if admits m k x then m(k \<mapsto> x) else m | None \<Rightarrow> m(k := None)) m ops"

lemma run_refines: "inv s \<Longrightarrow> inv (run ops s) \<and> lookup (run ops s) = run_map ops (lookup s)"
  by (induction ops arbitrary: s)
    (auto simp: run_def run_map_def inv_store inv_erase lookup_store lookup_erase
      split: option.splits)

lemma store_other: "inv s \<Longrightarrow> k' \<noteq> k \<Longrightarrow> lookup (store k v s) k' = lookup s k'"
  by (simp add: lookup_store)

lemma erase_store: "inv s \<Longrightarrow> lookup (erase k (store k v s)) = lookup (erase k s)"
  by (simp add: inv_store lookup_store lookup_erase)

end

section \<open>Time\<close>

text \<open>
  The kernel supplies the current time and the conversion of milliseconds to its
  tick; both are parameters of every operation that reads the clock.
\<close>

record kclock =
  jiffies :: u64
  msecs_to_jiffies :: "nat \<Rightarrow> u64"

definition time_is_before_jiffies :: "kclock \<Rightarrow> u64 \<Rightarrow> bool" where
  "time_is_before_jiffies k a = (sint (a - jiffies k) < 0)"

definition batadv_has_timed_out :: "kclock \<Rightarrow> u64 \<Rightarrow> nat \<Rightarrow> bool" where
  "batadv_has_timed_out k timestamp timeout =
     time_is_before_jiffies k (timestamp + msecs_to_jiffies k timeout)"

section \<open>Sequence numbers\<close>

definition batadv_seq_before :: "'a::len word \<Rightarrow> 'a word \<Rightarrow> bool" where
  "batadv_seq_before x y = (let dummy = x - y in 2 ^ (LENGTH('a) - 1) < dummy)"

definition batadv_seq_after :: "'a::len word \<Rightarrow> 'a word \<Rightarrow> bool" where
  "batadv_seq_after x y = batadv_seq_before y x"

text \<open>A difference of two differences, when it does not leave the signed range.\<close>

lemma sint_diff_split [seqno_simps]:
  fixes a b c :: u32
  assumes "- (2 ^ 31) \<le> sint (c - b) - sint (c - a)" and "sint (c - b) - sint (c - a) < 2 ^ 31"
  shows "sint (a - b) = sint (c - b) - sint (c - a)"
proof -
  have "sint (a - b) = sint ((c - b) - (c - a))" by simp
  also have "\<dots> = signed_take_bit 31 (sint (c - b) - sint (c - a))"
    using sint_word_ariths(2) [of "c - b" "c - a"] by simp
  also have "\<dots> = sint (c - b) - sint (c - a)"
    using assms by (simp add: signed_take_bit_int_eq_self)
  finally show ?thesis .
qed

lemma s32_diff_zero_iff [seqno_simps]: "s32 (a - b) = 0 \<longleftrightarrow> a = b"
proof -
  have "s32 (a - b) = 0 \<longleftrightarrow> a - b = 0"
    by (metis sint_0 signed_word_eqI)
  then show ?thesis by simp
qed

lemma s32_minus_swap [seqno_simps]: "s32 (a - b) \<noteq> - (2 ^ 31) \<Longrightarrow> s32 (b - a) = - s32 (a - b)"
  using sint_diff_split [of a a b] sint_range_size [of "a - b"]
  by (simp add: word_size)

end
