(* ===== verification/Packets.thy ===== *)
theory Packets
  imports Batadv_Prelude
begin

text \<open>
  Wire formats of the packets the modelled code builds and parses
  (\<^verbatim>\<open>src/include/uapi/linux/batadv_packet.h\<close> and the node weight container of
  \<^verbatim>\<open>src/net/batman-adv/types.h\<close>). A packed C struct is a record with host order
  fields; \<open>\<dots>_bytes\<close> lays it out on the wire and \<open>get_\<dots>\<close> is the cast of a data
  pointer to the struct. The locale \<open>wire_format\<close> is what the code relies on when it
  writes a header in front of a payload and reads it back at the other end.
\<close>

section \<open>The interface of a wire format\<close>

locale wire_format =
  fixes enc :: "'a \<Rightarrow> bytes" and dec :: "bytes \<Rightarrow> 'a" and hlen :: nat
  assumes length_enc: "length (enc x) = hlen"
    and dec_enc: "dec (enc x @ rest) = x"
begin

lemma dec_enc_only: "dec (enc x) = x"
  using dec_enc [of x "[]"] by simp

lemma enc_inject: "enc x = enc y \<longleftrightarrow> x = y"
  by (metis dec_enc_only)

lemma payload: "drop hlen (enc x @ rest) = rest"
  by (simp add: length_enc)

lemma header: "take hlen (enc x @ rest) = enc x"
  by (simp add: length_enc)

lemma frame_inject: "enc x @ r = enc y @ s \<longleftrightarrow> x = y \<and> r = s"
  by (metis dec_enc payload)

end

section \<open>Packet types\<close>

definition BATADV_COMPAT_VERSION :: u8 where "BATADV_COMPAT_VERSION = 15"
definition BATADV_TTL :: u8 where "BATADV_TTL = 50"
definition BATADV_NO_FLAGS :: u8 where "BATADV_NO_FLAGS = 0"
definition ETH_HLEN :: nat where "ETH_HLEN = 14"

definition BATADV_IV_OGM :: u8 where "BATADV_IV_OGM = 0x00"
definition BATADV_BCAST :: u8 where "BATADV_BCAST = 0x01"
definition BATADV_CODED :: u8 where "BATADV_CODED = 0x02"
definition BATADV_ELP :: u8 where "BATADV_ELP = 0x03"
definition BATADV_OGM2 :: u8 where "BATADV_OGM2 = 0x04"
definition BATADV_MCAST :: u8 where "BATADV_MCAST = 0x05"
definition BATADV_UNICAST :: u8 where "BATADV_UNICAST = 0x40"
definition BATADV_UNICAST_FRAG :: u8 where "BATADV_UNICAST_FRAG = 0x41"
definition BATADV_UNICAST_4ADDR :: u8 where "BATADV_UNICAST_4ADDR = 0x42"
definition BATADV_ICMP :: u8 where "BATADV_ICMP = 0x43"
definition BATADV_UNICAST_TVLV :: u8 where "BATADV_UNICAST_TVLV = 0x44"

lemmas packettype_defs = BATADV_IV_OGM_def BATADV_BCAST_def BATADV_CODED_def BATADV_ELP_def
  BATADV_OGM2_def BATADV_MCAST_def BATADV_UNICAST_def BATADV_UNICAST_FRAG_def
  BATADV_UNICAST_4ADDR_def BATADV_ICMP_def BATADV_UNICAST_TVLV_def

section \<open>Fragment header\<close>

text \<open>
  The bit field byte holds \<open>no\<close> in its upper four bits, \<open>priority\<close> in the next three
  and \<open>reserved\<close> in the lowest, on both bit field orders the header supports.
\<close>

record batadv_frag_packet =
  frag_packet_type :: u8
  frag_version :: u8
  frag_ttl :: u8
  frag_no :: "4 word"
  frag_priority :: "3 word"
  frag_reserved :: "1 word"
  frag_dest :: mac
  frag_orig :: mac
  frag_seqno :: u16
  frag_total_size :: u16

definition frag_bitfield :: "4 word \<Rightarrow> 3 word \<Rightarrow> 1 word \<Rightarrow> u8" where
  "frag_bitfield a b c = push_bit 4 (ucast a) OR push_bit 1 (ucast b) OR ucast c"

lemma bit_frag_bitfield:
  "bit (frag_bitfield a b c) n \<longleftrightarrow>
     (4 \<le> n \<and> n < 8 \<and> bit a (n - 4)) \<or> (1 \<le> n \<and> bit b (n - 1)) \<or> bit c n"
  using bit_imp_le_length [of a "n - 4"] bit_imp_le_length [of b "n - 1"] bit_imp_le_length [of c n]
  unfolding frag_bitfield_def bit_or_iff bit_push_bit_iff bit_ucast_iff possible_bit_word
  by auto

lemma frag_bitfield_sel [simp]:
  "ucast (drop_bit 4 (frag_bitfield a b c)) = a"
  "ucast (drop_bit (Suc 0) (frag_bitfield a b c)) = b"
  "ucast (frag_bitfield a b c) = c"
  by (rule bit_word_eqI, auto simp: bit_simps bit_frag_bitfield dest: bit_imp_le_length)+

definition frag_packet_bytes :: "batadv_frag_packet \<Rightarrow> bytes" where
  "frag_packet_bytes p =
     [frag_packet_type p, frag_version p, frag_ttl p,
      frag_bitfield (frag_no p) (frag_priority p) (frag_reserved p)]
     @ mac_bytes (frag_dest p) @ mac_bytes (frag_orig p)
     @ be16 (frag_seqno p) @ be16 (frag_total_size p)"

definition get_frag_packet :: "bytes \<Rightarrow> batadv_frag_packet" where
  "get_frag_packet bs =
     \<lparr>frag_packet_type = bs ! 0, frag_version = bs ! 1, frag_ttl = bs ! 2,
      frag_no = ucast (drop_bit 4 (bs ! 3)), frag_priority = ucast (drop_bit (Suc 0) (bs ! 3)),
      frag_reserved = ucast (bs ! 3),
      frag_dest = get_mac (drop 4 bs), frag_orig = get_mac (drop 10 bs),
      frag_seqno = get_be16 (drop 16 bs), frag_total_size = get_be16 (drop 18 bs)\<rparr>"

interpretation frag_fmt: wire_format frag_packet_bytes get_frag_packet 20
proof
  show "length (frag_packet_bytes x) = 20" for x
    by (simp add: frag_packet_bytes_def)
  show "get_frag_packet (frag_packet_bytes x @ rest) = x" for x rest
    by (simp add: frag_packet_bytes_def get_frag_packet_def drop_Cons'
        nth_Cons')
qed

section \<open>OGM2 and ELP\<close>

record batadv_ogm2_packet =
  ogm2_packet_type :: u8
  ogm2_version :: u8
  ogm2_ttl :: u8
  ogm2_flags :: u8
  ogm2_seqno :: u32
  ogm2_orig :: mac
  ogm2_tvlv_len :: u16
  ogm2_throughput :: u32

definition BATADV_OGM2_HLEN :: nat where "BATADV_OGM2_HLEN = 20"

definition ogm2_packet_bytes :: "batadv_ogm2_packet \<Rightarrow> bytes" where
  "ogm2_packet_bytes p =
     [ogm2_packet_type p, ogm2_version p, ogm2_ttl p, ogm2_flags p]
     @ be32 (ogm2_seqno p) @ mac_bytes (ogm2_orig p)
     @ be16 (ogm2_tvlv_len p) @ be32 (ogm2_throughput p)"

definition get_ogm2_packet :: "bytes \<Rightarrow> batadv_ogm2_packet" where
  "get_ogm2_packet bs =
     \<lparr>ogm2_packet_type = bs ! 0, ogm2_version = bs ! 1, ogm2_ttl = bs ! 2, ogm2_flags = bs ! 3,
      ogm2_seqno = get_be32 (drop 4 bs), ogm2_orig = get_mac (drop 8 bs),
      ogm2_tvlv_len = get_be16 (drop 14 bs), ogm2_throughput = get_be32 (drop 16 bs)\<rparr>"

interpretation ogm2_fmt: wire_format ogm2_packet_bytes get_ogm2_packet 20
  by unfold_locales (simp_all add: ogm2_packet_bytes_def get_ogm2_packet_def drop_Cons' nth_Cons')

record batadv_elp_packet =
  elp_packet_type :: u8
  elp_version :: u8
  elp_orig :: mac
  elp_seqno :: u32
  elp_interval :: u32

definition BATADV_ELP_HLEN :: nat where "BATADV_ELP_HLEN = 16"

definition elp_packet_bytes :: "batadv_elp_packet \<Rightarrow> bytes" where
  "elp_packet_bytes p =
     [elp_packet_type p, elp_version p] @ mac_bytes (elp_orig p)
     @ be32 (elp_seqno p) @ be32 (elp_interval p)"

definition get_elp_packet :: "bytes \<Rightarrow> batadv_elp_packet" where
  "get_elp_packet bs =
     \<lparr>elp_packet_type = bs ! 0, elp_version = bs ! 1, elp_orig = get_mac (drop 2 bs),
      elp_seqno = get_be32 (drop 8 bs), elp_interval = get_be32 (drop 12 bs)\<rparr>"

interpretation elp_fmt: wire_format elp_packet_bytes get_elp_packet 16
  by unfold_locales (simp_all add: elp_packet_bytes_def get_elp_packet_def drop_Cons' nth_Cons')

section \<open>TVLV headers and containers\<close>

record batadv_tvlv_hdr =
  tvlv_type :: u8
  tvlv_version :: u8
  tvlv_len :: u16

definition tvlv_hdr_bytes :: "batadv_tvlv_hdr \<Rightarrow> bytes" where
  "tvlv_hdr_bytes h = [tvlv_type h, tvlv_version h] @ be16 (tvlv_len h)"

definition get_tvlv_hdr :: "bytes \<Rightarrow> batadv_tvlv_hdr" where
  "get_tvlv_hdr bs =
     \<lparr>tvlv_type = bs ! 0, tvlv_version = bs ! 1, tvlv_len = get_be16 (drop 2 bs)\<rparr>"

interpretation tvlv_fmt: wire_format tvlv_hdr_bytes get_tvlv_hdr 4
  by unfold_locales (simp_all add: tvlv_hdr_bytes_def get_tvlv_hdr_def drop_Cons' nth_Cons')

record batadv_unicast_tvlv_packet =
  utvlv_packet_type :: u8
  utvlv_version :: u8
  utvlv_ttl :: u8
  utvlv_reserved :: u8
  utvlv_dst :: mac
  utvlv_src :: mac
  utvlv_tvlv_len :: u16
  utvlv_align :: u16

definition unicast_tvlv_packet_bytes :: "batadv_unicast_tvlv_packet \<Rightarrow> bytes" where
  "unicast_tvlv_packet_bytes p =
     [utvlv_packet_type p, utvlv_version p, utvlv_ttl p, utvlv_reserved p]
     @ mac_bytes (utvlv_dst p) @ mac_bytes (utvlv_src p)
     @ be16 (utvlv_tvlv_len p) @ be16 (utvlv_align p)"

definition get_unicast_tvlv_packet :: "bytes \<Rightarrow> batadv_unicast_tvlv_packet" where
  "get_unicast_tvlv_packet bs =
     \<lparr>utvlv_packet_type = bs ! 0, utvlv_version = bs ! 1, utvlv_ttl = bs ! 2,
      utvlv_reserved = bs ! 3, utvlv_dst = get_mac (drop 4 bs), utvlv_src = get_mac (drop 10 bs),
      utvlv_tvlv_len = get_be16 (drop 16 bs), utvlv_align = get_be16 (drop 18 bs)\<rparr>"

interpretation utvlv_fmt: wire_format unicast_tvlv_packet_bytes get_unicast_tvlv_packet 20
  by unfold_locales
    (simp_all add: unicast_tvlv_packet_bytes_def get_unicast_tvlv_packet_def drop_Cons' nth_Cons')

record batadv_tvlv_gateway_data =
  gwd_bandwidth_down :: u32
  gwd_bandwidth_up :: u32

definition gateway_data_bytes :: "batadv_tvlv_gateway_data \<Rightarrow> bytes" where
  "gateway_data_bytes g = be32 (gwd_bandwidth_down g) @ be32 (gwd_bandwidth_up g)"

definition get_gateway_data :: "bytes \<Rightarrow> batadv_tvlv_gateway_data" where
  "get_gateway_data bs =
     \<lparr>gwd_bandwidth_down = get_be32 bs, gwd_bandwidth_up = get_be32 (drop 4 bs)\<rparr>"

interpretation gwd_fmt: wire_format gateway_data_bytes get_gateway_data 8
  by unfold_locales (simp_all add: gateway_data_bytes_def get_gateway_data_def)

record batadv_tvlv_node_weight =
  nw_priority :: u8
  nw_duty_cycle :: u8
  nw_power_class :: u8

definition node_weight_bytes :: "batadv_tvlv_node_weight \<Rightarrow> bytes" where
  "node_weight_bytes w = [nw_priority w, nw_duty_cycle w, nw_power_class w]"

definition get_node_weight :: "bytes \<Rightarrow> batadv_tvlv_node_weight" where
  "get_node_weight bs =
     \<lparr>nw_priority = bs ! 0, nw_duty_cycle = bs ! 1, nw_power_class = bs ! 2\<rparr>"

interpretation nw_fmt: wire_format node_weight_bytes get_node_weight 3
  by unfold_locales (simp_all add: node_weight_bytes_def get_node_weight_def)

section \<open>Payload headers\<close>

record batadv_bcast_packet =
  bcast_packet_type :: u8
  bcast_version :: u8
  bcast_ttl :: u8
  bcast_reserved :: u8
  bcast_seqno :: u32
  bcast_orig :: mac

definition bcast_packet_bytes :: "batadv_bcast_packet \<Rightarrow> bytes" where
  "bcast_packet_bytes p =
     [bcast_packet_type p, bcast_version p, bcast_ttl p, bcast_reserved p]
     @ be32 (bcast_seqno p) @ mac_bytes (bcast_orig p)"

definition get_bcast_packet :: "bytes \<Rightarrow> batadv_bcast_packet" where
  "get_bcast_packet bs =
     \<lparr>bcast_packet_type = bs ! 0, bcast_version = bs ! 1, bcast_ttl = bs ! 2,
      bcast_reserved = bs ! 3, bcast_seqno = get_be32 (drop 4 bs),
      bcast_orig = get_mac (drop 8 bs)\<rparr>"

interpretation bcast_fmt: wire_format bcast_packet_bytes get_bcast_packet 14
  by unfold_locales (simp_all add: bcast_packet_bytes_def get_bcast_packet_def drop_Cons' nth_Cons')

record batadv_unicast_packet =
  uc_packet_type :: u8
  uc_version :: u8
  uc_ttl :: u8
  uc_ttvn :: u8
  uc_dest :: mac

definition unicast_packet_bytes :: "batadv_unicast_packet \<Rightarrow> bytes" where
  "unicast_packet_bytes p =
     [uc_packet_type p, uc_version p, uc_ttl p, uc_ttvn p] @ mac_bytes (uc_dest p)"

definition get_unicast_packet :: "bytes \<Rightarrow> batadv_unicast_packet" where
  "get_unicast_packet bs =
     \<lparr>uc_packet_type = bs ! 0, uc_version = bs ! 1, uc_ttl = bs ! 2, uc_ttvn = bs ! 3,
      uc_dest = get_mac (drop 4 bs)\<rparr>"

interpretation uc_fmt: wire_format unicast_packet_bytes get_unicast_packet 10
  by unfold_locales
    (use get_mac_bytes [of _ "[]"] in
      \<open>simp_all add: unicast_packet_bytes_def get_unicast_packet_def drop_Cons' nth_Cons'\<close>)

section \<open>ICMP\<close>

definition BATADV_ECHO_REPLY :: u8 where "BATADV_ECHO_REPLY = 0"
definition BATADV_DESTINATION_UNREACHABLE :: u8 where "BATADV_DESTINATION_UNREACHABLE = 3"
definition BATADV_ECHO_REQUEST :: u8 where "BATADV_ECHO_REQUEST = 8"
definition BATADV_TTL_EXCEEDED :: u8 where "BATADV_TTL_EXCEEDED = 11"
definition BATADV_PARAMETER_PROBLEM :: u8 where "BATADV_PARAMETER_PROBLEM = 12"
definition BATADV_TP :: u8 where "BATADV_TP = 15"
definition BATADV_TP_MSG :: u8 where "BATADV_TP_MSG = 0"
definition BATADV_TP_ACK :: u8 where "BATADV_TP_ACK = 1"

record batadv_icmp_tp_packet =
  tpp_packet_type :: u8
  tpp_version :: u8
  tpp_ttl :: u8
  tpp_msg_type :: u8
  tpp_dst :: mac
  tpp_orig :: mac
  tpp_uid :: u8
  tpp_subtype :: u8
  tpp_session :: "u8 \<times> u8"
  tpp_seqno :: u32
  tpp_timestamp :: u32

definition icmp_tp_packet_bytes :: "batadv_icmp_tp_packet \<Rightarrow> bytes" where
  "icmp_tp_packet_bytes p =
     [tpp_packet_type p, tpp_version p, tpp_ttl p, tpp_msg_type p]
     @ mac_bytes (tpp_dst p) @ mac_bytes (tpp_orig p)
     @ [tpp_uid p, tpp_subtype p, fst (tpp_session p), snd (tpp_session p)]
     @ be32 (tpp_seqno p) @ be32 (tpp_timestamp p)"

definition get_icmp_tp_packet :: "bytes \<Rightarrow> batadv_icmp_tp_packet" where
  "get_icmp_tp_packet bs =
     \<lparr>tpp_packet_type = bs ! 0, tpp_version = bs ! 1, tpp_ttl = bs ! 2, tpp_msg_type = bs ! 3,
      tpp_dst = get_mac (drop 4 bs), tpp_orig = get_mac (drop 10 bs), tpp_uid = bs ! 16,
      tpp_subtype = bs ! 17, tpp_session = (bs ! 18, bs ! 19), tpp_seqno = get_be32 (drop 20 bs),
      tpp_timestamp = get_be32 (drop 24 bs)\<rparr>"

interpretation tpp_fmt: wire_format icmp_tp_packet_bytes get_icmp_tp_packet 28
  by unfold_locales
    (simp_all add: icmp_tp_packet_bytes_def get_icmp_tp_packet_def drop_Cons' nth_Cons' nth_append)

section \<open>Socket buffers\<close>

text \<open>
  The part of \<^verbatim>\<open>struct sk_buff\<close> the code uses: the addresses of the MAC header, the
  packet data behind it, and the queueing priority. \<open>skb_len\<close> is the 32 bit field
  \<^verbatim>\<open>skb->len\<close>.
\<close>

record sk_buff =
  h_dest :: mac
  h_source :: mac
  skb_data :: bytes
  skb_priority :: u32

definition skb_len :: "sk_buff \<Rightarrow> u32" where
  "skb_len skb = of_nat (length (skb_data skb))"

text \<open>Kernel return values: \<^verbatim>\<open>errno\<close> codes are negative.\<close>

definition EINVAL :: int where "EINVAL = 22"
definition ENOMEM :: int where "ENOMEM = 12"
definition EAGAIN :: int where "EAGAIN = 11"
definition NET_XMIT_SUCCESS :: int where "NET_XMIT_SUCCESS = 0"
definition NET_XMIT_DROP :: int where "NET_XMIT_DROP = 1"
definition NET_RX_SUCCESS :: int where "NET_RX_SUCCESS = 0"
definition NET_RX_DROP :: int where "NET_RX_DROP = 1"

lemmas ret_defs = EINVAL_def ENOMEM_def EAGAIN_def NET_XMIT_SUCCESS_def NET_XMIT_DROP_def
  NET_RX_SUCCESS_def NET_RX_DROP_def

end
