(* ===== verification/Hashtable.thy ===== *)
theory Hashtable
  imports Batadv_Prelude
begin

text \<open>
  The hash table of \<^verbatim>\<open>src/net/batman-adv/hash.h\<close> and \<^verbatim>\<open>hash.c\<close>: an array of
  buckets, each a list with the newest entry first. The compare and choose callbacks are
  arguments, as in the code; a table pointer that may be \<^verbatim>\<open>NULL\<close> is an option. The
  locale \<open>hash_client\<close> states what a client's callbacks owe the table, and what the table
  is to the client then: a finite map in which the first entry of a key stays.
\<close>

section \<open>The table\<close>

record 'a batadv_hashtable =
  table :: "'a list list"
  hash_size :: u32
  generation :: u32

definition batadv_hash_init :: "u32 \<Rightarrow> 'a batadv_hashtable" where
  "batadv_hash_init n =
     \<lparr>table = map (\<lambda>i. []) [0..<unat n], hash_size = n, generation = 0\<rparr>"

text \<open>The three allocations of \<^verbatim>\<open>batadv_hash_new\<close>: the object, the buckets, the locks.\<close>

definition batadv_hash_new :: "bool \<Rightarrow> bool \<Rightarrow> bool \<Rightarrow> u32 \<Rightarrow> 'a batadv_hashtable option" where
  "batadv_hash_new hash_ok table_ok locks_ok n =
     (if \<not> hash_ok then None
      else if \<not> table_ok then None
      else if \<not> locks_ok then None
      else Some (batadv_hash_init n))"

definition hash_bucket :: "'a batadv_hashtable \<Rightarrow> u32 \<Rightarrow> 'a list" where
  "hash_bucket hash index = table hash ! unat index"

definition set_hash_bucket ::
    "'a batadv_hashtable \<Rightarrow> u32 \<Rightarrow> 'a list \<Rightarrow> 'a batadv_hashtable" where
  "set_hash_bucket hash index head = hash\<lparr>table := (table hash)[unat index := head]\<rparr>"

definition batadv_hash_add ::
    "'a batadv_hashtable option \<Rightarrow> ('a \<Rightarrow> 'd \<Rightarrow> bool) \<Rightarrow> ('d \<Rightarrow> u32 \<Rightarrow> u32) \<Rightarrow> 'd \<Rightarrow> 'a
      \<Rightarrow> int \<times> 'a batadv_hashtable option" where
  "batadv_hash_add hash compare choose_cb data data_node =
     (case hash of
        None \<Rightarrow> (- 1, None)
      | Some h \<Rightarrow>
          let index = choose_cb data (hash_size h);
              head = hash_bucket h index in
          if \<exists>node \<in> set head. compare node data then (1, Some h)
          else (0, Some ((set_hash_bucket h index (data_node # head))
                          \<lparr>generation := generation h + 1\<rparr>)))"

definition batadv_hash_remove ::
    "'a batadv_hashtable \<Rightarrow> ('a \<Rightarrow> 'd \<Rightarrow> bool) \<Rightarrow> ('d \<Rightarrow> u32 \<Rightarrow> u32) \<Rightarrow> 'd
      \<Rightarrow> 'a option \<times> 'a batadv_hashtable" where
  "batadv_hash_remove hash compare choose_cb data =
     (let index = choose_cb data (hash_size hash);
          head = hash_bucket hash index in
      case find (\<lambda>node. compare node data) head of
        None \<Rightarrow> (None, hash)
      | Some node \<Rightarrow>
          (Some node,
           (set_hash_bucket hash index (hlist_del_first (\<lambda>node. compare node data) head))
             \<lparr>generation := generation hash + 1\<rparr>))"

lemma hash_update_simps [simp]:
  "hash_size (set_hash_bucket h i b) = hash_size h"
  "table (set_hash_bucket h i b) = (table h)[unat i := b]"
  "generation (set_hash_bucket h i b) = generation h"
  by (simp_all add: set_hash_bucket_def)

section \<open>Clients\<close>

locale hash_client =
  fixes key :: "'a \<Rightarrow> 'k" and compare :: "'a \<Rightarrow> 'k \<Rightarrow> bool" and choose_cb :: "'k \<Rightarrow> u32 \<Rightarrow> u32"
  assumes compare_key: "compare node k \<longleftrightarrow> key node = k"
    and choose_bound: "0 < n \<Longrightarrow> choose_cb k n < n"
begin

definition hash_ok :: "'a batadv_hashtable \<Rightarrow> bool" where
  "hash_ok h \<longleftrightarrow> 0 < hash_size h \<and> length (table h) = unat (hash_size h)
     \<and> (\<forall>i < length (table h). distinct (map key (table h ! i))
          \<and> (\<forall>x \<in> set (table h ! i). unat (choose_cb (key x) (hash_size h)) = i))"

definition hash_find :: "'a batadv_hashtable \<Rightarrow> 'k \<Rightarrow> 'a option" where
  "hash_find h k = find (\<lambda>x. compare x k) (hash_bucket h (choose_cb k (hash_size h)))"

definition add :: "'k \<Rightarrow> 'a \<Rightarrow> 'a batadv_hashtable \<Rightarrow> 'a batadv_hashtable" where
  "add k x h = (if key x = k then the (snd (batadv_hash_add (Some h) compare choose_cb k x)) else h)"

definition remove :: "'k \<Rightarrow> 'a batadv_hashtable \<Rightarrow> 'a batadv_hashtable" where
  "remove k h = snd (batadv_hash_remove h compare choose_cb k)"

lemma compare_fun: "(\<lambda>x. compare x k) = (\<lambda>x. key x = k)"
  by (simp add: compare_key)

lemma index_bound: "hash_ok h \<Longrightarrow> unat (choose_cb k (hash_size h)) < length (table h)"
  by (simp add: hash_ok_def choose_bound word_less_nat_alt [symmetric])

lemma hash_ok_bucket:
  assumes "hash_ok h" and "distinct (map key b)"
    and "\<And>x. x \<in> set b \<Longrightarrow> choose_cb (key x) (hash_size h) = i"
  shows "hash_ok (set_hash_bucket h i b)"
proof -
  have "(table h)[unat i := b] ! j = (if unat i = j then b else table h ! j)"
    if "j < length (table h)" for j
    using that by (cases "unat i = j") simp_all
  then show ?thesis
    using assms by (simp add: hash_ok_def)
qed

lemma hash_ok_generation [simp]: "hash_ok (h\<lparr>generation := g\<rparr>) = hash_ok h"
  by (simp add: hash_ok_def)

lemma hash_find_generation [simp]: "hash_find (h\<lparr>generation := g\<rparr>) k = hash_find h k"
  by (simp add: hash_find_def hash_bucket_def)

lemma bucket_of:
  assumes "hash_ok h"
  shows "distinct (map key (hash_bucket h (choose_cb k (hash_size h))))"
    and "x \<in> set (hash_bucket h (choose_cb k (hash_size h))) \<Longrightarrow>
           choose_cb (key x) (hash_size h) = choose_cb k (hash_size h)"
  using assms index_bound [OF assms, of k]
  by (auto simp: hash_ok_def hash_bucket_def word_unat_eq_iff)

lemma find_in_set_bucket:
  assumes "hash_ok h"
  shows "hash_find (set_hash_bucket h (choose_cb k (hash_size h)) b) k' =
           (if choose_cb k' (hash_size h) = choose_cb k (hash_size h) then find (\<lambda>x. key x = k') b
            else hash_find h k')"
  using index_bound [OF assms, of k]
  by (auto simp: hash_find_def hash_bucket_def compare_fun nth_list_update word_unat_eq_iff)

lemma add_find:
  assumes "hash_ok h"
  shows "hash_find (add k x h) =
           (if key x = k \<and> hash_find h k = None then (hash_find h)(k \<mapsto> x) else hash_find h)"
proof -
  let ?b = "hash_bucket h (choose_cb k (hash_size h))"
  have none: "(\<exists>y \<in> set ?b. compare y k) \<longleftrightarrow> hash_find h k \<noteq> None"
    by (auto simp: hash_find_def find_None_iff)
  have other: "hash_find h k' = find (\<lambda>y. key y = k') ?b"
    if "choose_cb k' (hash_size h) = choose_cb k (hash_size h)" for k'
    using that by (simp add: hash_find_def compare_fun)
  show ?thesis
  proof (cases "key x = k \<and> hash_find h k = None")
    case True
    then have "add k x h = (set_hash_bucket h (choose_cb k (hash_size h)) (x # ?b))
        \<lparr>generation := generation h + 1\<rparr>"
      using none by (simp add: add_def batadv_hash_add_def Let_def)
    then show ?thesis
      using True by (auto simp: fun_eq_iff find_in_set_bucket [OF assms] other)
  next
    case False
    then have "add k x h = h"
      using none by (auto simp: add_def batadv_hash_add_def Let_def)
    then show ?thesis using False by auto
  qed
qed

lemma add_ok:
  assumes "hash_ok h" shows "hash_ok (add k x h)"
proof (cases "key x = k \<and> (\<forall>y \<in> set (hash_bucket h (choose_cb k (hash_size h))). key y \<noteq> k)")
  case True
  let ?b = "hash_bucket h (choose_cb k (hash_size h))"
  have "hash_ok (set_hash_bucket h (choose_cb k (hash_size h)) (x # ?b))"
  proof (rule hash_ok_bucket [OF assms])
    show "distinct (map key (x # ?b))"
      using True bucket_of(1) [OF assms, of k] by (auto simp: image_iff)
    show "choose_cb (key y) (hash_size h) = choose_cb k (hash_size h)" if "y \<in> set (x # ?b)" for y
      using that True bucket_of(2) [OF assms, of y k] by auto
  qed
  then show ?thesis
    using True by (simp add: add_def batadv_hash_add_def compare_key Let_def)
next
  case False
  then show ?thesis
    using assms by (auto simp: add_def batadv_hash_add_def compare_key Let_def)
qed

lemma remove_eq:
  "remove k h = (if hash_find h k = None then h
     else (set_hash_bucket h (choose_cb k (hash_size h))
             (hlist_del_first (\<lambda>x. key x = k) (hash_bucket h (choose_cb k (hash_size h)))))
            \<lparr>generation := generation h + 1\<rparr>)"
  by (auto simp: remove_def batadv_hash_remove_def hash_find_def compare_fun Let_def
      split: option.splits)

lemma remove_ok:
  assumes "hash_ok h" shows "hash_ok (remove k h)"
proof -
  let ?b = "hash_bucket h (choose_cb k (hash_size h))"
  have "hash_ok (set_hash_bucket h (choose_cb k (hash_size h)) (hlist_del_first (\<lambda>x. key x = k) ?b))"
    by (rule hash_ok_bucket [OF assms distinct_keys_del [OF bucket_of(1) [OF assms]]])
      (rule bucket_of(2) [OF assms subsetD [OF set_hlist_del_first]])
  then show ?thesis using assms by (simp add: remove_eq)
qed

lemma remove_find:
  assumes "hash_ok h" shows "hash_find (remove k h) = (hash_find h)(k := None)"
proof
  fix k'
  have "hash_find h k' = find (\<lambda>x. key x = k') (hash_bucket h (choose_cb k (hash_size h)))"
    if "choose_cb k' (hash_size h) = choose_cb k (hash_size h)"
    using that by (simp add: hash_find_def compare_fun)
  then show "hash_find (remove k h) k' = ((hash_find h)(k := None)) k'"
    using find_key_del_first [OF bucket_of(1) [OF assms, of k], of k' k]
    by (auto simp: remove_eq find_in_set_bucket [OF assms])
qed

text \<open>A write through a pointer to the entry of a key.\<close>

definition upd :: "'k \<Rightarrow> ('a \<Rightarrow> 'a) \<Rightarrow> 'a batadv_hashtable \<Rightarrow> 'a batadv_hashtable" where
  "upd k f h = (let index = choose_cb k (hash_size h) in
     set_hash_bucket h index (hlist_upd_first (\<lambda>x. key x = k) f (hash_bucket h index)))"

lemma upd_ok:
  assumes "hash_ok h" and f: "\<And>x. key x = k \<Longrightarrow> key (f x) = k"
  shows "hash_ok (upd k f h)"
proof -
  let ?b = "hash_bucket h (choose_cb k (hash_size h))"
  have keys: "map key (hlist_upd_first (\<lambda>x. key x = k) f b) = map key b" for b
    using f by (induction b) auto
  have "choose_cb (key x) (hash_size h) = choose_cb k (hash_size h)"
    if "x \<in> set (hlist_upd_first (\<lambda>x. key x = k) f ?b)" for x
  proof -
    have "key x \<in> key ` set ?b" using that keys [of ?b] by (metis imageI list.set_map)
    then show ?thesis using bucket_of(2) [OF assms(1)] by auto
  qed
  then show ?thesis
    using hash_ok_bucket [OF assms(1)] bucket_of(1) [OF assms(1), of k]
    by (simp add: upd_def Let_def keys)
qed

lemma upd_find:
  assumes "hash_ok h" and f: "\<And>x. key x = k \<Longrightarrow> key (f x) = k"
  shows "hash_find (upd k f h) = (hash_find h)(k := map_option f (hash_find h k))"
proof
  fix k'
  have *: "find (\<lambda>x. key x = k') (hlist_upd_first (\<lambda>x. key x = k) f b) =
      (if k' = k then map_option f (find (\<lambda>x. key x = k) b) else find (\<lambda>x. key x = k') b)" for b k'
    using f by (induction b) auto
  show "hash_find (upd k f h) k' = ((hash_find h)(k := map_option f (hash_find h k))) k'"
    by (simp add: upd_def Let_def find_in_set_bucket [OF assms(1)] *) (simp add: hash_find_def compare_fun *)
qed

text \<open>Walks over the whole table that keep, change or unlink each entry.\<close>

definition walk :: "('a \<Rightarrow> 'a option) \<Rightarrow> 'a batadv_hashtable \<Rightarrow> 'a batadv_hashtable" where
  "walk F h = h\<lparr>table := map (List.map_filter F) (table h)\<rparr>"

definition entries :: "'a batadv_hashtable \<Rightarrow> 'a list" where
  "entries h = concat (table h)"

lemma walk_ok:
  assumes "hash_ok h" and F: "\<And>x y. F x = Some y \<Longrightarrow> key y = key x"
  shows "hash_ok (walk F h)"
proof -
  have keys: "set (map key (List.map_filter F b)) \<subseteq> set (map key b)" for b
    using F by (fastforce simp: map_filter_def)
  have "distinct (map key (List.map_filter F b))" if "distinct (map key b)" for b
    using that
  proof (induction b)
    case (Cons x b)
    then show ?case using keys [of b] F by (auto simp: map_filter_simps split: option.splits)
  qed (simp add: map_filter_simps)
  moreover have "x \<in> set (List.map_filter F b) \<Longrightarrow> \<exists>y \<in> set b. key y = key x" for x b
    using F by (auto simp: map_filter_def)
  ultimately show ?thesis
    using assms(1) unfolding hash_ok_def walk_def by (simp) metis
qed

lemma find_map_filter:
  assumes "distinct (map key b)" and F: "\<And>x y. F x = Some y \<Longrightarrow> key y = key x"
  shows "find (\<lambda>x. key x = k) (List.map_filter F b) = Option.bind (find (\<lambda>x. key x = k) b) F"
  using assms(1)
proof (induction b)
  case (Cons x b)
  have "find (\<lambda>x. key x = k) b = None" if "key x = k"
    using Cons.prems that find_key_notin [of key k b] by auto
  then show ?case
    using Cons F [of x] by (cases "F x") (auto simp: map_filter_simps)
qed (simp add: map_filter_simps)

lemma walk_find:
  assumes "hash_ok h" and "\<And>x y. F x = Some y \<Longrightarrow> key y = key x"
  shows "hash_find (walk F h) = (\<lambda>k. Option.bind (hash_find h k) F)"
  using find_map_filter [where F = F, OF _ assms(2)] bucket_of(1) [OF assms(1)]
    index_bound [OF assms(1)]
  by (simp add: fun_eq_iff hash_find_def compare_fun hash_bucket_def walk_def)

lemma entries_find:
  assumes "hash_ok h"
  shows "x \<in> set (entries h) \<longleftrightarrow> hash_find h (key x) = Some x"
proof
  assume "x \<in> set (entries h)"
  then obtain b where b: "b \<in> set (table h)" "x \<in> set b" by (auto simp: entries_def)
  then obtain i where i: "i < length (table h)" "x \<in> set (table h ! i)"
    by (metis in_set_conv_nth)
  then have b: "hash_bucket h (choose_cb (key x) (hash_size h)) = table h ! i"
    "distinct (map key (table h ! i))"
    using assms by (auto simp: hash_ok_def hash_bucket_def)
  then show "hash_find h (key x) = Some x"
    using i(2) by (simp add: hash_find_def compare_fun find_key_distinct)
next
  assume "hash_find h (key x) = Some x"
  then show "x \<in> set (entries h)"
    using index_bound [OF assms, of "key x"] find_key_SomeD
    by (fastforce simp: hash_find_def hash_bucket_def entries_def)
qed

lemma hash_find_key: "hash_find h k = Some x \<Longrightarrow> key x = k"
  by (auto simp: hash_find_def compare_key dest: find_key_SomeD)

lemma finite_keys:
  assumes "hash_ok h" shows "finite {k. hash_find h k \<noteq> None}"
proof (rule finite_subset)
  show "{k. hash_find h k \<noteq> None} \<subseteq> key ` set (entries h)"
  proof
    fix k assume "k \<in> {k. hash_find h k \<noteq> None}"
    then obtain x where "hash_find h k = Some x" "key x = k" using hash_find_key by fastforce
    then show "k \<in> key ` set (entries h)" using entries_find [OF assms, of x] by auto
  qed
qed simp

lemma entries_distinct:
  assumes "hash_ok h" shows "distinct (map key (entries h))"
proof -
  have d: "distinct (map key b)" if "b \<in> set (table h)" for b
    using that assms by (auto simp: hash_ok_def in_set_conv_nth)
  have apart: "i = j" if "i < length (table h)" "j < length (table h)"
      "x \<in> set (table h ! i)" "y \<in> set (table h ! j)" "key x = key y" for i j x y
    using that assms unfolding hash_ok_def by metis
  have "distinct (map key (concat bs))" if "\<And>b. b \<in> set bs \<Longrightarrow> distinct (map key b)"
      and "\<And>i j x y. i < length bs \<Longrightarrow> j < length bs \<Longrightarrow> x \<in> set (bs ! i) \<Longrightarrow> y \<in> set (bs ! j)
        \<Longrightarrow> key x = key y \<Longrightarrow> i = j" for bs :: "'a list list"
    using that
  proof (induction bs)
    case (Cons b bs)
    have "distinct (map key (concat bs))"
    proof (rule Cons.IH)
      show "i = j" if "i < length bs" "j < length bs" "x \<in> set (bs ! i)" "y \<in> set (bs ! j)"
        "key x = key y" for i j x y
        using that Cons.prems(2) [of "Suc i" "Suc j" x y] by simp
    qed (use Cons.prems(1) in simp)
    moreover have "key x \<noteq> key y" if xy: "x \<in> set b" "y \<in> set (concat bs)" for x y
    proof
      assume "key x = key y"
      obtain c where "c \<in> set bs" "y \<in> set c" using xy(2) by auto
      then obtain j where "j < length bs" "y \<in> set (bs ! j)" by (metis in_set_conv_nth)
      then show False using Cons.prems(2) [of 0 "Suc j" x y] xy(1) \<open>key x = key y\<close> by simp
    qed
    ultimately show ?case using Cons.prems(1) by auto
  qed simp
  then show ?thesis unfolding entries_def using d apart by blast
qed

lemma new_ok:
  "0 < n \<Longrightarrow> hash_ok (batadv_hash_init n) \<and> hash_find (batadv_hash_init n) k = None"
  using choose_bound [of n k]
  by (auto simp: hash_ok_def hash_find_def batadv_hash_init_def hash_bucket_def word_less_nat_alt)

end

sublocale hash_client \<subseteq> registry hash_ok hash_find add remove "\<lambda>m k x. key x = k \<and> m k = None"
  by unfold_locales (rule add_ok remove_ok add_find remove_find, assumption)+

end
