(* ===== verification/Fragmentation.thy ===== *)
theory Fragmentation
  imports Packets "HOL-Library.Multiset"
begin

text \<open>
  Fragmentation of unicast packets, \<^verbatim>\<open>src/net/batman-adv/fragmentation.c\<close>: the
  sender that cuts a packet into at most 16 numbered fragments from its tail, and the
  receiver that collects them per originator in eight chains and merges a complete
  chain. The outcome of every allocation and of every call into the network stack is
  an argument; freed buffers are returned so that ownership can be stated.
\<close>

section \<open>Data\<close>

definition BATADV_FRAG_BUFFER_COUNT :: nat where "BATADV_FRAG_BUFFER_COUNT = 8"
definition BATADV_FRAG_MAX_FRAGMENTS :: nat where "BATADV_FRAG_MAX_FRAGMENTS = 16"
definition BATADV_FRAG_MAX_FRAG_SIZE :: nat where "BATADV_FRAG_MAX_FRAG_SIZE = 1280"
definition BATADV_FRAG_TIMEOUT :: nat where "BATADV_FRAG_TIMEOUT = 10000"
definition FRAG_HLEN :: nat where "FRAG_HLEN = 20"

record batadv_frag_list_entry =
  fle_skb :: sk_buff
  fle_no :: u8

record batadv_frag_table_entry =
  fragment_list :: "batadv_frag_list_entry list"
  fte_timestamp :: u64
  fte_seqno :: u16
  fte_size :: u16
  fte_total_size :: u16

section \<open>Receiving\<close>

definition batadv_frag_clear_chain ::
    "batadv_frag_list_entry list \<Rightarrow> batadv_frag_list_entry list \<times> sk_buff list" where
  "batadv_frag_clear_chain head = ([], map fle_skb head)"

definition batadv_frag_check_entry :: "kclock \<Rightarrow> batadv_frag_table_entry \<Rightarrow> bool" where
  "batadv_frag_check_entry k chain =
     (fragment_list chain \<noteq> []
      \<and> batadv_has_timed_out k (fte_timestamp chain) BATADV_FRAG_TIMEOUT)"

definition batadv_frag_purge_orig ::
    "(batadv_frag_table_entry \<Rightarrow> bool) option \<Rightarrow> batadv_frag_table_entry list
      \<Rightarrow> batadv_frag_table_entry list" where
  "batadv_frag_purge_orig check_cb fragments =
     map (\<lambda>chain.
            if (case check_cb of None \<Rightarrow> True | Some f \<Rightarrow> f chain)
            then chain\<lparr>fragment_list := fst (batadv_frag_clear_chain (fragment_list chain)),
                       fte_size := 0\<rparr>
            else chain) fragments"

definition batadv_frag_size_limit :: nat where
  "batadv_frag_size_limit = (BATADV_FRAG_MAX_FRAG_SIZE - FRAG_HLEN) * BATADV_FRAG_MAX_FRAGMENTS"

definition batadv_frag_init_chain ::
    "batadv_frag_table_entry \<Rightarrow> u16 \<Rightarrow> batadv_frag_table_entry \<times> sk_buff list \<times> bool" where
  "batadv_frag_init_chain chain seqno =
     (if fte_seqno chain = seqno then (chain, [], False)
      else
        let (l, freed) = (if fragment_list chain \<noteq> []
                          then batadv_frag_clear_chain (fragment_list chain)
                          else (fragment_list chain, [])) in
        (chain\<lparr>fragment_list := l, fte_size := 0, fte_seqno := seqno\<rparr>, freed, True))"

text \<open>
  The search for the position of a new fragment in a chain ordered from the highest
  number to the lowest: a fragment that is already there is refused, and so is the
  first fragment of a chain that was emptied under the same sequence number.
\<close>

datatype frag_position =
    Frag_duplicate
  | Frag_no_position
  | Frag_inserted "batadv_frag_list_entry list"

fun frag_find_position ::
    "bool \<Rightarrow> batadv_frag_list_entry \<Rightarrow> batadv_frag_list_entry list \<Rightarrow> frag_position" where
  "frag_find_position has_last frag_new [] =
     (if has_last then Frag_inserted [frag_new] else Frag_no_position)"
| "frag_find_position has_last frag_new (cur # rest) =
     (if fle_no cur = fle_no frag_new then Frag_duplicate
      else if fle_no cur < fle_no frag_new then Frag_inserted (frag_new # cur # rest)
      else (case frag_find_position True frag_new rest of
              Frag_inserted l \<Rightarrow> Frag_inserted (cur # l)
            | r \<Rightarrow> r))"

text \<open>The check behind the label \<^verbatim>\<open>out:\<close>: drop an oversized or inconsistent chain, hand over a complete one.\<close>

definition frag_chain_check ::
    "u16 \<Rightarrow> batadv_frag_table_entry
      \<Rightarrow> batadv_frag_table_entry \<times> batadv_frag_list_entry list \<times> sk_buff list" where
  "frag_chain_check total_size chain =
     (if unat (fte_size chain) > batadv_frag_size_limit
         \<or> fte_total_size chain \<noteq> total_size
         \<or> unat (fte_total_size chain) > batadv_frag_size_limit then
        let (l, freed) = batadv_frag_clear_chain (fragment_list chain) in
        (chain\<lparr>fragment_list := l, fte_size := 0\<rparr>, [], freed)
      else if total_size = fte_size chain then
        (chain\<lparr>fragment_list := [], fte_size := 0\<rparr>, fragment_list chain, [])
      else (chain, [], []))"

text \<open>
  What happens to the selected chain under its lock: the new chain, the chain handed to
  the caller, the buffers of old fragments that were freed, and whether the new
  fragment was kept.
\<close>

definition frag_chain_insert ::
    "u64 \<Rightarrow> u16 \<Rightarrow> u16 \<Rightarrow> u16 \<Rightarrow> batadv_frag_list_entry \<Rightarrow> batadv_frag_table_entry
      \<Rightarrow> batadv_frag_table_entry \<times> batadv_frag_list_entry list \<times> sk_buff list \<times> bool" where
  "frag_chain_insert now seqno total_size len frag_new entry =
     (case batadv_frag_init_chain entry seqno of
        (chain, freed, True) \<Rightarrow>
          (case frag_chain_check total_size
                  (chain\<lparr>fragment_list := [frag_new], fte_size := len,
                         fte_timestamp := now, fte_total_size := total_size\<rparr>) of
             (chain', out, freed') \<Rightarrow> (chain', out, freed @ freed', True))
      | (chain, freed, False) \<Rightarrow>
          (case frag_find_position False frag_new (fragment_list chain) of
             Frag_duplicate \<Rightarrow> (chain, [], freed, False)
           | Frag_no_position \<Rightarrow>
               (case frag_chain_check total_size chain of
                  (chain', out, freed') \<Rightarrow> (chain', out, freed @ freed', False))
           | Frag_inserted l \<Rightarrow>
               (case frag_chain_check total_size
                       (chain\<lparr>fragment_list := l, fte_size := fte_size chain + len,
                              fte_timestamp := now\<rparr>) of
                  (chain', out, freed') \<Rightarrow> (chain', out, freed @ freed', True))))"

text \<open>
  \<open>batadv_frag_insert_packet\<close> returns the chain table, the chain handed to the caller,
  the buffers it freed and whether the fragment was kept.
\<close>

definition batadv_frag_insert_packet ::
    "bool \<Rightarrow> bool \<Rightarrow> u64 \<Rightarrow> batadv_frag_table_entry list \<Rightarrow> sk_buff
      \<Rightarrow> batadv_frag_table_entry list \<times> batadv_frag_list_entry list \<times> sk_buff list \<times> bool" where
  "batadv_frag_insert_packet linearize_ok alloc_ok now fragments skb =
     (if \<not> linearize_ok then (fragments, [], [skb], False)
      else
        let frag_packet = get_frag_packet (skb_data skb);
            seqno = frag_seqno frag_packet;
            bucket = unat seqno mod BATADV_FRAG_BUFFER_COUNT in
        if \<not> alloc_ok then (fragments, [], [skb], False)
        else
          case frag_chain_insert now seqno (frag_total_size frag_packet)
                 (of_nat (length (skb_data skb)) - of_nat FRAG_HLEN)
                 \<lparr>fle_skb = skb, fle_no = ucast (frag_no frag_packet)\<rparr> (fragments ! bucket) of
            (chain, chain_out, freed, ret) \<Rightarrow>
              (fragments[bucket := chain], chain_out, if ret then freed else freed @ [skb], ret))"

text \<open>
  Merging: the first buffer of the chain is expanded by exactly the room the announced
  total size asks for, and every other payload is appended to it.
  Asking \<^verbatim>\<open>pskb_expand_head()\<close> for less room than the buffer already holds overruns
  the new buffer, \<^verbatim>\<open>skb_put_data()\<close> past the room is \<^verbatim>\<open>skb_over_panic()\<close>, and taking
  the first entry of an empty chain dereferences a null pointer: all three are
  \<open>Kernel_bug\<close>.
\<close>

fun frag_put_payloads :: "int \<Rightarrow> bytes \<Rightarrow> batadv_frag_list_entry list \<Rightarrow> bytes kresult" where
  "frag_put_payloads room acc [] = Kret acc"
| "frag_put_payloads room acc (entry # chain) =
     (let payload = drop FRAG_HLEN (skb_data (fle_skb entry)) in
      if int (length payload) > room then Kernel_bug
      else frag_put_payloads (room - int (length payload)) (acc @ payload) chain)"

definition batadv_frag_merge_packets ::
    "bool \<Rightarrow> batadv_frag_list_entry list \<Rightarrow> sk_buff option kresult" where
  "batadv_frag_merge_packets expand_ok chain =
     (case chain of
        [] \<Rightarrow> Kernel_bug
      | entry # rest \<Rightarrow>
          let skb_out = fle_skb entry;
              packet = get_frag_packet (skb_data skb_out);
              size = int (unat (frag_total_size packet)) + int FRAG_HLEN in
          if \<not> expand_ok then Kret None
          else if size < int (length (skb_data skb_out)) then Kernel_bug
          else
            case frag_put_payloads (size - int (length (skb_data skb_out)))
                   (drop FRAG_HLEN (skb_data skb_out)) rest of
              Kernel_bug \<Rightarrow> Kernel_bug
            | Kret merged \<Rightarrow> Kret (Some (skb_out\<lparr>skb_data := merged\<rparr>)))"

record frag_rx_env =
  rx_linearize_ok :: bool
  rx_alloc_ok :: bool
  rx_expand_ok :: bool
  rx_now :: u64

definition batadv_frag_skb_buffer ::
    "frag_rx_env \<Rightarrow> batadv_frag_table_entry list \<Rightarrow> sk_buff
      \<Rightarrow> (batadv_frag_table_entry list \<times> sk_buff option \<times> bool) kresult" where
  "batadv_frag_skb_buffer env fragments skb =
     (case batadv_frag_insert_packet (rx_linearize_ok env) (rx_alloc_ok env) (rx_now env)
             fragments skb of
        (fragments', head, freed, ok) \<Rightarrow>
          if \<not> ok then Kret (fragments', None, False)
          else if head = [] then Kret (fragments', None, True)
          else (case batadv_frag_merge_packets (rx_expand_ok env) head of
                  Kernel_bug \<Rightarrow> Kernel_bug
                | Kret None \<Rightarrow> Kret (fragments', None, False)
                | Kret (Some skb_out) \<Rightarrow> Kret (fragments', Some skb_out, True)))"

section \<open>Sending\<close>

text \<open>
  \<open>batadv_frag_create\<close> cuts the last \<open>fragment_size\<close> bytes off the buffer and puts a copy
  of the header in front of them; it returns the shortened buffer and the fragment, a
  new buffer that has no MAC header yet.
\<close>

definition batadv_frag_create ::
    "bool \<Rightarrow> sk_buff \<Rightarrow> batadv_frag_packet \<Rightarrow> u32 \<Rightarrow> (sk_buff \<times> sk_buff) option" where
  "batadv_frag_create alloc_ok skb frag_head fragment_size =
     (if \<not> alloc_ok then None
      else
        let split_at = unat (skb_len skb - fragment_size) in
        Some (skb\<lparr>skb_data := take split_at (skb_data skb)\<rparr>,
              \<lparr>h_dest = Mac 0 0 0 0 0 0, h_source = Mac 0 0 0 0 0 0,
               skb_data = frag_packet_bytes frag_head @ drop split_at (skb_data skb),
               skb_priority = skb_priority skb\<rparr>))"

text \<open>
  What the sender reads and changes of \<^verbatim>\<open>struct batadv_priv\<close>: the fragment sequence
  counter and the two transmit counters. \<open>frag_tx_env\<close> holds the outcomes of the
  allocations and of \<^verbatim>\<open>batadv_send_unicast_skb()\<close>, per fragment number.
\<close>

record frag_priv =
  fp_frag_seqno :: u32
  cnt_frag_tx :: u64
  cnt_frag_tx_bytes :: u64

record frag_tx_env =
  tx_frag_list_linearize_failed :: bool
  tx_alloc_ok :: "4 word \<Rightarrow> bool"
  tx_send_ret :: "4 word \<Rightarrow> int"
  tx_cow_head_ret :: int

datatype skb_fate = Skb_leaked | Skb_freed | Skb_consumed

definition frag_count_tx :: "frag_priv \<Rightarrow> sk_buff \<Rightarrow> frag_priv" where
  "frag_count_tx priv skb =
     priv\<lparr>cnt_frag_tx := cnt_frag_tx priv + 1,
          cnt_frag_tx_bytes := cnt_frag_tx_bytes priv + ucast (skb_len skb) + of_nat ETH_HLEN\<rparr>"

lemma frag_no_step: "(n :: 4 word) \<noteq> 15 \<Longrightarrow> 15 - unat (n + 1) < 15 - unat n"
proof -
  assume n: "n \<noteq> 15"
  have "unat n < 2 ^ LENGTH(4)" by (rule unsigned_less)
  moreover have "unat n \<noteq> unat (15 :: 4 word)" using n by (simp only: unsigned_word_eqI word_unat_eq_iff [symmetric]) simp
  ultimately have lt: "unat n < 15" by simp
  then have "unat (n + 1) = unat n + 1" by (simp add: unat_word_ariths)
  with lt show ?thesis by simp
qed

text \<open>
  The loop that eats fragments from the tail. It stops at the latest when the number
  of the next fragment would be 15, so it terminates for every fragment size.
\<close>

function frag_send_loop ::
    "frag_tx_env \<Rightarrow> u32 \<Rightarrow> batadv_frag_packet \<Rightarrow> frag_priv \<Rightarrow> sk_buff \<Rightarrow> sk_buff list
      \<Rightarrow> (int + batadv_frag_packet \<times> sk_buff) \<times> frag_priv \<times> sk_buff list" where
  "frag_send_loop env max_fragment_size frag_header priv skb sent =
     (if skb_len skb > max_fragment_size then
        if frag_no frag_header = of_nat (BATADV_FRAG_MAX_FRAGMENTS - 1) then
          (Inl (- EINVAL), priv, sent)
        else
          case batadv_frag_create (tx_alloc_ok env (frag_no frag_header)) skb frag_header
                 max_fragment_size of
            None \<Rightarrow> (Inl (- ENOMEM), priv, sent)
          | Some (skb', skb_fragment) \<Rightarrow>
              let priv' = frag_count_tx priv skb_fragment;
                  ret = tx_send_ret env (frag_no frag_header) in
              if ret \<noteq> NET_XMIT_SUCCESS then
                (Inl NET_XMIT_DROP, priv', sent @ [skb_fragment])
              else frag_send_loop env max_fragment_size
                     (frag_header\<lparr>frag_no := frag_no frag_header + 1\<rparr>) priv' skb'
                     (sent @ [skb_fragment])
      else (Inr (frag_header, skb), priv, sent))"
  by pat_completeness auto

termination
  by (relation "measure (\<lambda>(env, m, h, p, s, out). 15 - unat (frag_no h))")
    (auto simp: BATADV_FRAG_MAX_FRAGMENTS_def intro: frag_no_step)

declare frag_send_loop.simps [simp del]

definition frag_header_new :: "frag_priv \<Rightarrow> sk_buff \<Rightarrow> mac \<Rightarrow> mac \<Rightarrow> batadv_frag_packet" where
  "frag_header_new priv skb primary_addr orig_addr =
     \<lparr>frag_packet_type = BATADV_UNICAST_FRAG, frag_version = BATADV_COMPAT_VERSION,
      frag_ttl = BATADV_TTL, frag_no = 0,
      frag_priority = (if 256 \<le> skb_priority skb \<and> skb_priority skb \<le> 263
                       then ucast (skb_priority skb - 256) else 0),
      frag_reserved = 0, frag_dest = orig_addr, frag_orig = primary_addr,
      frag_seqno = ucast (fp_frag_seqno priv), frag_total_size = ucast (skb_len skb)\<rparr>"

definition batadv_frag_send_packet ::
    "frag_tx_env \<Rightarrow> u32 \<Rightarrow> mac option \<Rightarrow> mac \<Rightarrow> frag_priv \<Rightarrow> sk_buff
      \<Rightarrow> int \<times> frag_priv \<times> sk_buff list \<times> skb_fate" where
  "batadv_frag_send_packet env dev_mtu primary_if orig_addr priv skb =
     (let mtu = min dev_mtu (of_nat BATADV_FRAG_MAX_FRAG_SIZE);
          max_fragment_size = mtu - of_nat FRAG_HLEN in
      if skb_len skb = 0 \<or> max_fragment_size = 0 then (- EINVAL, priv, [], Skb_leaked)
      else
        let num_fragments = (skb_len skb - 1) div max_fragment_size + 1;
            max_fragment_size = (skb_len skb - 1) div num_fragments + 1 in
        if num_fragments > of_nat BATADV_FRAG_MAX_FRAGMENTS then (- EAGAIN, priv, [], Skb_freed)
        else
          case primary_if of
            None \<Rightarrow> (- EINVAL, priv, [], Skb_freed)
          | Some primary_addr \<Rightarrow>
              if tx_frag_list_linearize_failed env then (- ENOMEM, priv, [], Skb_freed)
              else
                let priv1 = priv\<lparr>fp_frag_seqno := fp_frag_seqno priv + 1\<rparr>;
                    frag_header = frag_header_new priv1 skb primary_addr orig_addr in
                case frag_send_loop env max_fragment_size frag_header priv1 skb [] of
                  (Inl ret, priv2, sent) \<Rightarrow> (ret, priv2, sent, Skb_freed)
                | (Inr (frag_header, skb), priv2, sent) \<Rightarrow>
                    if tx_cow_head_ret env < 0 then (tx_cow_head_ret env, priv2, sent, Skb_freed)
                    else
                      let skb_last = skb\<lparr>skb_data := frag_packet_bytes frag_header @ skb_data skb\<rparr> in
                      (tx_send_ret env (frag_no frag_header), frag_count_tx priv2 skb_last,
                       sent @ [skb_last], Skb_consumed))"

section \<open>What the sender produces\<close>

lemmas frag_consts = BATADV_FRAG_MAX_FRAG_SIZE_def FRAG_HLEN_def BATADV_FRAG_MAX_FRAGMENTS_def
  BATADV_FRAG_BUFFER_COUNT_def

lemma frag_size_limit_eq [simp]: "batadv_frag_size_limit = 20160"
  by (simp add: batadv_frag_size_limit_def frag_consts)

fun frag_series :: "batadv_frag_packet \<Rightarrow> bytes list \<Rightarrow> bytes list" where
  "frag_series h [] = []"
| "frag_series h (c # cs) =
     (frag_packet_bytes h @ c) # frag_series (h\<lparr>frag_no := frag_no h + 1\<rparr>) cs"

lemma frag_series_append:
  "frag_series h (cs @ ds) = frag_series h cs @ frag_series (h\<lparr>frag_no := frag_no h + of_nat (length cs)\<rparr>) ds"
  by (induction cs arbitrary: h) (simp_all add: algebra_simps)

lemma length_frag_series [simp]: "length (frag_series h cs) = length cs"
  by (induction cs arbitrary: h) auto

lemma nth_frag_series:
  "i < length cs \<Longrightarrow> frag_series h cs ! i = frag_packet_bytes (h\<lparr>frag_no := frag_no h + of_nat i\<rparr>) @ cs ! i"
proof (induction cs arbitrary: h i)
  case (Cons c cs)
  then show ?case by (cases i) (auto simp: algebra_simps)
qed simp

definition frag_tx_all_ok :: "frag_tx_env \<Rightarrow> bool" where
  "frag_tx_all_ok env \<longleftrightarrow> \<not> tx_frag_list_linearize_failed env \<and> 0 \<le> tx_cow_head_ret env
     \<and> (\<forall>n. tx_alloc_ok env n) \<and> (\<forall>n. tx_send_ret env n = NET_XMIT_SUCCESS)"

lemma unat_skb_len: "length (skb_data skb) < 2 ^ 32 \<Longrightarrow> unat (skb_len skb) = length (skb_data skb)"
  by (simp add: skb_len_def unsigned_of_nat take_bit_nat_eq_self)

lemma unat_no_inc: "frag_no h \<noteq> 15 \<Longrightarrow> unat (frag_no h + 1) = unat (frag_no h) + 1"
  using frag_no_step [of "frag_no h"] by (simp add: unat_word_ariths)

lemma frag_no_lt16: "unat (n :: 4 word) < 16"
  using unsigned_less [of n, where ?'a = nat] by simp

lemma frag_send_loop_ok:
  assumes "frag_tx_all_ok env" and "0 < unat m"
    and "length (skb_data skb) \<le> (16 - unat (frag_no h)) * unat m"
    and "length (skb_data skb) < 2 ^ 32"
  shows "\<exists>cs frags priv' rest.
     frag_send_loop env m h priv skb sent
       = (Inr (h\<lparr>frag_no := frag_no h + of_nat (length cs)\<rparr>, skb\<lparr>skb_data := rest\<rparr>), priv', sent @ frags)
     \<and> map skb_data frags = frag_series h cs \<and> unat (frag_no h) + length cs < 16
     \<and> concat (rev (cs @ [rest])) = skb_data skb
     \<and> (\<forall>c \<in> set cs. length c = unat m) \<and> length rest \<le> unat m
     \<and> (skb_data skb \<noteq> [] \<longrightarrow> rest \<noteq> [])"
  using assms
proof (induction env m h priv skb sent rule: frag_send_loop.induct)
  case (1 env m h priv skb sent)
  show ?case
  proof (cases "skb_len skb > m")
    case True
    then have long: "unat m < length (skb_data skb)"
      using 1(5) by (simp add: word_less_nat_alt unat_skb_len)
    have no: "frag_no h \<noteq> 15"
    proof
      assume "frag_no h = 15"
      then have "length (skb_data skb) \<le> unat m" using 1(4) by simp
      with long show False by simp
    qed
    let ?cut = "unat (skb_len skb - m)"
    let ?skb' = "skb\<lparr>skb_data := take ?cut (skb_data skb)\<rparr>"
    let ?frag = "\<lparr>h_dest = Mac 0 0 0 0 0 0, h_source = Mac 0 0 0 0 0 0,
               skb_data = frag_packet_bytes h @ drop ?cut (skb_data skb),
               skb_priority = skb_priority skb\<rparr>"
    let ?h' = "h\<lparr>frag_no := frag_no h + 1\<rparr>"
    have cut: "?cut = length (skb_data skb) - unat m"
      using True 1(5) by (simp add: unat_sub_if' word_less_nat_alt unat_skb_len)
    have create: "batadv_frag_create (tx_alloc_ok env (frag_no h)) skb h m = Some (?skb', ?frag)"
      using 1(2) by (simp add: batadv_frag_create_def frag_tx_all_ok_def Let_def)
    have ok: "tx_send_ret env (frag_no h) = NET_XMIT_SUCCESS"
      using 1(2) by (simp add: frag_tx_all_ok_def)
    have step: "frag_send_loop env m h priv skb sent
        = frag_send_loop env m ?h' (frag_count_tx priv ?frag) ?skb' (sent @ [?frag])"
      using True no create ok by (simp add: frag_send_loop.simps [of env m h priv skb sent] frag_consts)
    have "length (skb_data ?skb') \<le> (16 - unat (frag_no ?h')) * unat m"
      using 1(4) cut no long unat_no_inc [OF no] by (simp add: diff_mult_distrib)
    moreover have "length (skb_data ?skb') < 2 ^ 32" using 1(5) by simp
    ultimately obtain cs frags priv' rest where IH:
      "frag_send_loop env m ?h' (frag_count_tx priv ?frag) ?skb' (sent @ [?frag])
       = (Inr (?h'\<lparr>frag_no := frag_no ?h' + of_nat (length cs)\<rparr>, ?skb'\<lparr>skb_data := rest\<rparr>), priv', (sent @ [?frag]) @ frags)"
      "map skb_data frags = frag_series ?h' cs" "unat (frag_no ?h') + length cs < 16"
      "concat (rev (cs @ [rest])) = skb_data ?skb'"
      "\<forall>c \<in> set cs. length c = unat m" "length rest \<le> unat m"
      "skb_data ?skb' \<noteq> [] \<longrightarrow> rest \<noteq> []"
      using 1(1) [OF True _ create _ refl _ ] True no ok 1(2,3) 
      by (simp add: frag_consts) blast
    have "rest @ concat (rev cs) = take ?cut (skb_data skb)" using IH(4) by simp
    then have "rest @ concat (rev cs) @ drop ?cut (skb_data skb) = skb_data skb"
      by (metis append.assoc append_take_drop_id)
    then show ?thesis
      using IH cut long no unat_no_inc [OF no]
      by (intro exI [of _ "drop ?cut (skb_data skb) # cs"] exI [of _ "?frag # frags"] exI [of _ priv'] exI [of _ rest])
        (auto simp: step algebra_simps)
  next
    case False
    then have "length (skb_data skb) \<le> unat m"
      using 1(5) by (simp add: word_less_nat_alt unat_skb_len not_less)
    with False show ?thesis
      by (intro exI [of _ "[]"] exI [of _ "skb_data skb"])
        (simp add: frag_send_loop.simps [of env m h priv skb sent] frag_no_lt16)
  qed
qed

text \<open>The fragment size the sender settles on: at most what fits, and large enough for 16 fragments.\<close>

definition frag_even_size :: "nat \<Rightarrow> nat \<Rightarrow> nat" where
  "frag_even_size len m = (len - 1) div ((len - 1) div m + 1) + 1"

lemma frag_even_size:
  assumes "0 < len" "0 < m" "len \<le> 16 * m"
  shows "(len - 1) div m + 1 \<le> 16" "frag_even_size len m \<le> m" "len \<le> 16 * frag_even_size len m"
    "0 < frag_even_size len m"
proof -
  let ?n = "(len - 1) div m + 1"
  have "(len - 1) div m < 16" using assms by (intro div_less_iff_less_mult [THEN iffD2]) auto
  then show n16: "?n \<le> 16" by simp
  have "len - 1 < ?n * m" using assms(2) by (metis Suc_eq_plus1 dividend_less_div_times mult.commute mult_Suc)
  then have "(len - 1) div ?n < m" by (simp add: div_less_iff_less_mult mult.commute)
  then show "frag_even_size len m \<le> m" by (simp add: frag_even_size_def)
  have "len - 1 < ?n * frag_even_size len m"
    using dividend_less_div_times [of ?n "len - 1"] by (simp add: frag_even_size_def algebra_simps)
  also have "\<dots> \<le> 16 * frag_even_size len m" using n16 by simp
  finally show "len \<le> 16 * frag_even_size len m" using assms(1) by simp
  show "0 < frag_even_size len m" by (simp add: frag_even_size_def)
qed

lemma frag_sizes:
  assumes "20 < dev_mtu" and "skb_data skb \<noteq> []"
    and "length (skb_data skb) \<le> 16 * unat (min dev_mtu 1280 - 20)"
  defines "m \<equiv> min dev_mtu 1280 - 20" and "len \<equiv> length (skb_data skb)"
  defines "n \<equiv> (skb_len skb - 1) div m + 1"
  shows "unat m = unat (min dev_mtu 1280) - 20" "0 < unat m" "len \<le> 20160" "skb_len skb \<noteq> 0"
    "n \<le> 16" "unat ((skb_len skb - 1) div n + 1) = frag_even_size len (unat m)"
proof -
  show m: "unat m = unat (min dev_mtu 1280) - 20" "0 < unat m"
    using assms(1) by (auto simp: m_def min_def unat_sub_if' word_le_nat_alt word_less_nat_alt)
  have "unat m \<le> 1260"
    using assms(1) by (auto simp: m_def min_def unat_sub_if' word_le_nat_alt word_less_nat_alt)
  then show small: "len \<le> 20160" using assms(3) by (simp add: m_def len_def)
  then have len: "unat (skb_len skb) = len" by (simp add: unat_skb_len len_def)
  have pos: "0 < len" using assms(2) by (simp add: len_def)
  show ne: "skb_len skb \<noteq> 0" using len pos by force
  have lm1: "unat (skb_len skb - 1) = len - 1" using len pos by (simp add: unat_sub_if')
  have d16: "(len - 1) div unat m + 1 \<le> 16"
    using frag_even_size(1) [OF pos m(2)] assms(3) by (simp add: m_def len_def)
  then have n: "unat n = (len - 1) div unat m + 1"
    by (simp add: n_def unat_word_ariths unat_div lm1)
  then show "n \<le> 16" using d16 by (simp add: word_le_nat_alt)
  have "(len - 1) div unat n + 1 < 2 ^ 32"
    using small by (simp add: order_le_less_trans [OF div_le_dividend])
  then show "unat ((skb_len skb - 1) div n + 1) = frag_even_size len (unat m)"
    by (simp add: unat_word_ariths unat_div lm1 n frag_even_size_def)
qed

lemma frag_send_packet_fragments:
  assumes "frag_tx_all_ok env" and "20 < dev_mtu" and "skb_data skb \<noteq> []"
    and "length (skb_data skb) \<le> 16 * unat (min dev_mtu 1280 - 20)"
    and "batadv_frag_send_packet env dev_mtu (Some primary) orig_addr priv skb = (ret, priv', sent, fate)"
  shows "ret = NET_XMIT_SUCCESS \<and> fate = Skb_consumed
    \<and> (\<exists>h cs. map skb_data sent = frag_series h cs \<and> frag_no h = 0 \<and> length cs \<le> 16
          \<and> frag_dest h = orig_addr \<and> frag_orig h = primary
          \<and> frag_seqno h = ucast (fp_frag_seqno priv + 1)
          \<and> unat (frag_total_size h) = length (skb_data skb)
          \<and> concat (rev cs) = skb_data skb
          \<and> (\<forall>c \<in> set cs. c \<noteq> [] \<and> 20 + length c \<le> unat (min dev_mtu 1280)))"
proof -
  let ?m = "min dev_mtu 1280 - 20"
  let ?e = "(skb_len skb - 1) div ((skb_len skb - 1) div ?m + 1) + 1"
  note sz = frag_sizes [OF assms(2-4)]
  have "0 < length (skb_data skb)" using assms(3) by simp
  note es = frag_even_size [OF this sz(2) assms(4)]
  define p1 where "p1 = priv\<lparr>fp_frag_seqno := fp_frag_seqno priv + 1\<rparr>"
  define h where "h = frag_header_new p1 skb primary orig_addr"
  obtain cs frags p2 rest where loop:
    "frag_send_loop env ?e h p1 skb []
       = (Inr (h\<lparr>frag_no := of_nat (length cs)\<rparr>, skb\<lparr>skb_data := rest\<rparr>), p2, frags)"
    "map skb_data frags = frag_series h cs" "length cs < 16"
    "concat (rev (cs @ [rest])) = skb_data skb"
    "\<forall>c \<in> set cs. length c = unat ?e" "length rest \<le> unat ?e" "rest \<noteq> []"
    using frag_send_loop_ok [of env ?e skb h p1 "[]"] assms(1,3) es sz
    by (auto simp: h_def frag_header_new_def)
  let ?last = "skb\<lparr>skb_data := frag_packet_bytes (h\<lparr>frag_no := of_nat (length cs)\<rparr>) @ rest\<rparr>"
  have res: "batadv_frag_send_packet env dev_mtu (Some primary) orig_addr priv skb
     = (NET_XMIT_SUCCESS, frag_count_tx p2 ?last, frags @ [?last], Skb_consumed)"
    using sz(2,4,5) assms(1) loop(1)
    by (auto simp: batadv_frag_send_packet_def frag_consts Let_def h_def p1_def frag_tx_all_ok_def)
  have "map skb_data sent = frag_series h (cs @ [rest])"
    using assms(5) res loop(2) by (auto simp: frag_series_append h_def frag_header_new_def)
  moreover have "unat (frag_total_size h) = length (skb_data skb)"
    using sz(3) unat_skb_len [of skb]
    by (simp add: h_def frag_header_new_def unsigned_ucast_eq take_bit_nat_eq_self)
  moreover have "0 < unat ?e" "20 + unat ?e \<le> unat (min dev_mtu 1280)"
    using es(2,4) sz(1,2,6) by linarith+
  then have "c \<noteq> [] \<and> 20 + length c \<le> unat (min dev_mtu 1280)" if "c \<in> set (cs @ [rest])" for c
    using that loop(5-7) by auto
  ultimately show ?thesis
    using assms(5) res loop(3,4)
    by (intro conjI exI [of _ h] exI [of _ "cs @ [rest]"]) (auto simp: h_def p1_def frag_header_new_def)
qed

section \<open>The invariant of a fragment chain\<close>

abbreviation frag_desc :: "batadv_frag_list_entry list \<Rightarrow> bool" where
  "frag_desc l \<equiv> sorted_wrt (\<lambda>a b. fle_no b < fle_no a) l"

definition frag_payload :: "batadv_frag_list_entry \<Rightarrow> bytes" where
  "frag_payload e = drop FRAG_HLEN (skb_data (fle_skb e))"

definition frag_announced :: "batadv_frag_list_entry \<Rightarrow> u16" where
  "frag_announced e = frag_total_size (get_frag_packet (skb_data (fle_skb e)))"

definition frag_bytes :: "batadv_frag_list_entry list \<Rightarrow> nat" where
  "frag_bytes l = (\<Sum>e \<leftarrow> l. length (frag_payload e))"

definition frag_chain_ok :: "batadv_frag_table_entry \<Rightarrow> bool" where
  "frag_chain_ok c \<longleftrightarrow> frag_desc (fragment_list c)
     \<and> (\<forall>e \<in> set (fragment_list c).
           FRAG_HLEN \<le> length (skb_data (fle_skb e)) \<and> frag_announced e = fte_total_size c)
     \<and> unat (fte_size c) = frag_bytes (fragment_list c)
     \<and> frag_bytes (fragment_list c) \<le> 20160"

definition frag_table_ok :: "batadv_frag_table_entry list \<Rightarrow> bool" where
  "frag_table_ok t \<longleftrightarrow> length t = BATADV_FRAG_BUFFER_COUNT \<and> (\<forall>c \<in> set t. frag_chain_ok c)"

lemma frag_find_position_cases:
  "frag_desc l \<Longrightarrow>
   case frag_find_position b new l of
     Frag_duplicate \<Rightarrow> fle_no new \<in> fle_no ` set l
   | Frag_no_position \<Rightarrow> l = [] \<and> \<not> b
   | Frag_inserted r \<Rightarrow> fle_no new \<notin> fle_no ` set l \<and> frag_desc r \<and> set r = insert new (set l)
        \<and> frag_bytes r = length (frag_payload new) + frag_bytes l"
proof (induction l arbitrary: b)
  case Nil
  then show ?case by (simp add: frag_bytes_def)
next
  case (Cons c l)
  have IH: "case frag_find_position True new l of
     Frag_duplicate \<Rightarrow> fle_no new \<in> fle_no ` set l
   | Frag_no_position \<Rightarrow> l = [] \<and> \<not> True
   | Frag_inserted r \<Rightarrow> fle_no new \<notin> fle_no ` set l \<and> frag_desc r \<and> set r = insert new (set l)
        \<and> frag_bytes r = length (frag_payload new) + frag_bytes l"
    using Cons by (intro Cons.IH) simp
  consider "fle_no c = fle_no new" | "fle_no c < fle_no new" | "fle_no new < fle_no c"
    by fastforce
  then show ?case
  proof cases
    case 3
    then show ?thesis
      using IH Cons.prems by (auto simp: frag_bytes_def split: frag_position.splits)
  qed (use Cons.prems in \<open>auto simp: frag_bytes_def\<close>)
qed

lemma frag_put_payloads_fit:
  "int (frag_bytes l) \<le> room \<Longrightarrow>
   frag_put_payloads room acc l = Kret (acc @ concat (map frag_payload l))"
  by (induction l arbitrary: room acc) (auto simp: frag_bytes_def frag_payload_def Let_def)

lemma frag_merge_ok:
  assumes "l \<noteq> []" and "\<forall>e \<in> set l. FRAG_HLEN \<le> length (skb_data (fle_skb e)) \<and> frag_announced e = tot"
    and "frag_bytes l = unat tot"
  shows "batadv_frag_merge_packets expand_ok l =
    Kret (if expand_ok then Some ((fle_skb (hd l))\<lparr>skb_data := concat (map frag_payload l)\<rparr>) else None)"
proof -
  obtain e r where l: "l = e # r" using assms(1) by (cases l) auto
  have ann: "frag_total_size (get_frag_packet (skb_data (fle_skb e))) = tot"
    using assms(2) l by (simp add: frag_announced_def)
  have room: "int (frag_bytes r) \<le> int (unat tot) + int FRAG_HLEN - int (length (skb_data (fle_skb e)))"
    using assms(2,3) l unfolding frag_bytes_def frag_payload_def by (simp del: of_nat_unat)
  note fit = frag_put_payloads_fit [OF this]
  show ?thesis
    using ann fit room by (auto simp add: batadv_frag_merge_packets_def l Let_def frag_payload_def del: of_nat_unat)
qed

lemma frag_chain_check_ok:
  assumes "frag_desc (fragment_list c)"
     "\<forall>e \<in> set (fragment_list c).
           FRAG_HLEN \<le> length (skb_data (fle_skb e)) \<and> frag_announced e = (if e = new then tot else fte_total_size c)"
     "new \<in> set (fragment_list c) \<or> fragment_list c = []"
     "unat (fte_size c) = frag_bytes (fragment_list c)"
    and chk: "frag_chain_check tot c = (c', out, freed)"
  shows "frag_chain_ok c' \<and> (out \<noteq> [] \<longrightarrow> out = fragment_list c \<and> frag_bytes out = unat tot
     \<and> (\<forall>e \<in> set out. FRAG_HLEN \<le> length (skb_data (fle_skb e)) \<and> frag_announced e = tot))"
proof (cases "unat (fte_size c) > 20160 \<or> fte_total_size c \<noteq> tot \<or> unat (fte_total_size c) > 20160")
  case True
  then have "c' = c\<lparr>fragment_list := [], fte_size := 0\<rparr> \<and> out = []"
    using chk unfolding frag_chain_check_def frag_size_limit_eq
    by (simp add: batadv_frag_clear_chain_def)
  then show ?thesis by (simp add: frag_chain_ok_def frag_bytes_def)
next
  case False
  then have ann: "\<forall>e \<in> set (fragment_list c). FRAG_HLEN \<le> length (skb_data (fle_skb e)) \<and> frag_announced e = tot"
    using assms(2) by simp
  show ?thesis
  proof (cases "tot = fte_size c")
    case eq: True
    then have "c' = c\<lparr>fragment_list := [], fte_size := 0\<rparr> \<and> out = fragment_list c"
      using chk False unfolding frag_chain_check_def frag_size_limit_eq by simp
    then show ?thesis using ann eq assms(4) by (simp add: frag_chain_ok_def frag_bytes_def)
  next
    case neq: False
    then have "c' = c \<and> out = []"
      using chk False unfolding frag_chain_check_def frag_size_limit_eq by simp
    then show ?thesis using ann False assms(1,4) by (simp add: frag_chain_ok_def)
  qed
qed

lemma frag_len_u16:
  assumes "FRAG_HLEN \<le> n" and "n \<le> 45395"
  shows "unat (of_nat n - of_nat FRAG_HLEN :: u16) = n - FRAG_HLEN"
proof -
  have "of_nat n - of_nat FRAG_HLEN = (of_nat (n - FRAG_HLEN) :: u16)"
    using assms(1) by (simp add: of_nat_diff)
  then show ?thesis using assms(2) by (simp add: unsigned_of_nat take_bit_nat_eq_self FRAG_HLEN_def)
qed

lemma frag_chain_insert_ok:
  assumes c: "frag_chain_ok c"
    and new: "FRAG_HLEN \<le> length (skb_data (fle_skb new))" "frag_announced new = tot"
      "length (frag_payload new) = unat len" "unat len \<le> 45375"
    and ins: "frag_chain_insert now seqno tot len new c = (c', out, freed, ok)"
  shows "frag_chain_ok c' \<and> (out \<noteq> [] \<longrightarrow> frag_bytes out = unat tot
     \<and> (\<forall>e \<in> set out. FRAG_HLEN \<le> length (skb_data (fle_skb e)) \<and> frag_announced e = tot))"
proof (cases "fte_seqno c = seqno")
  case False
  let ?c1 = "c\<lparr>fte_seqno := seqno, fragment_list := [new], fte_size := len,
          fte_timestamp := now, fte_total_size := tot\<rparr>"
  obtain freed' where "frag_chain_check tot ?c1 = (c', out, freed')"
    using ins False by (auto simp: frag_chain_insert_def batadv_frag_init_chain_def
        batadv_frag_clear_chain_def split: prod.splits if_splits)
  from frag_chain_check_ok [OF _ _ _ _ this, of new] show ?thesis
    using new by (simp add: frag_bytes_def)
next
  case True
  then have init: "batadv_frag_init_chain c seqno = (c, [], False)"
    by (simp add: batadv_frag_init_chain_def)
  note pos = frag_find_position_cases [of "fragment_list c" new False]
  have desc: "frag_desc (fragment_list c)" using c by (simp add: frag_chain_ok_def)
  show ?thesis
  proof (cases "frag_find_position False new (fragment_list c)")
    case Frag_duplicate
    then show ?thesis using ins init c by (auto simp: frag_chain_insert_def)
  next
    case Frag_no_position
    then have "fragment_list c = []" using pos desc by simp
    moreover obtain freed' where "frag_chain_check tot c = (c', out, freed')"
      using ins init Frag_no_position by (auto simp: frag_chain_insert_def split: prod.splits)
    ultimately show ?thesis
      using frag_chain_check_ok [of c new tot] c by (auto simp: frag_chain_ok_def)
  next
    case (Frag_inserted l)
    let ?c1 = "c\<lparr>fragment_list := l, fte_size := fte_size c + len, fte_timestamp := now\<rparr>"
    obtain freed' where chk: "frag_chain_check tot ?c1 = (c', out, freed')"
      using ins init Frag_inserted by (auto simp: frag_chain_insert_def split: prod.splits)
    have l: "frag_desc l" "set l = insert new (set (fragment_list c))"
        "frag_bytes l = length (frag_payload new) + frag_bytes (fragment_list c)"
        "new \<notin> set (fragment_list c)"
      using Frag_inserted pos desc by auto
    have size: "unat (fte_size ?c1) = frag_bytes (fragment_list ?c1)"
      using l c new(3,4) by (simp add: frag_chain_ok_def unat_word_ariths)
    have ann: "\<forall>e \<in> set (fragment_list ?c1). FRAG_HLEN \<le> length (skb_data (fle_skb e))
        \<and> frag_announced e = (if e = new then tot else fte_total_size ?c1)"
      using l(2,4) c new(1,2) by (auto simp: frag_chain_ok_def)
    have "frag_desc (fragment_list ?c1)" "new \<in> set (fragment_list ?c1) \<or> fragment_list ?c1 = []"
      using l(1,2) by simp_all
    from frag_chain_check_ok [OF this(1) ann this(2) size chk] show ?thesis by blast
  qed
qed

lemma frag_insert_packet_ok:
  assumes tbl: "frag_table_ok t" and len: "FRAG_HLEN \<le> length (skb_data skb)" "length (skb_data skb) \<le> 45395"
    and ins: "batadv_frag_insert_packet lin al now t skb = (t', out, freed, ok)"
    and tot: "tot = frag_total_size (get_frag_packet (skb_data skb))"
  shows "frag_table_ok t' \<and> (out \<noteq> [] \<longrightarrow> frag_bytes out = unat tot
      \<and> (\<forall>e \<in> set out. FRAG_HLEN \<le> length (skb_data (fle_skb e)) \<and> frag_announced e = tot))"
proof (cases "lin \<and> al")
  case False
  then have "t' = t \<and> out = []" using ins by (auto simp: batadv_frag_insert_packet_def Let_def split: if_splits)
  then show ?thesis using tbl by simp
next
  case True
  define fp where "fp = get_frag_packet (skb_data skb)"
  define b where "b = unat (frag_seqno fp) mod BATADV_FRAG_BUFFER_COUNT"
  define new where "new = \<lparr>fle_skb = skb, fle_no = ucast (frag_no fp)\<rparr>"
  let ?len = "of_nat (length (skb_data skb)) - of_nat FRAG_HLEN :: u16"
  obtain c' freed' where chain: "frag_chain_insert now (frag_seqno fp) tot ?len new (t ! b) = (c', out, freed', ok)"
    and t': "t' = t[b := c']"
    using True ins by (auto simp: batadv_frag_insert_packet_def Let_def fp_def b_def new_def tot split: prod.splits)
  have "b < length t" using tbl by (simp add: frag_table_ok_def b_def BATADV_FRAG_BUFFER_COUNT_def)
  then have "frag_chain_ok (t ! b)" using tbl by (simp add: frag_table_ok_def)
  note res = frag_chain_insert_ok [OF this _ _ _ _ chain]
  have "length (frag_payload new) = unat ?len" "unat ?len \<le> 45375"
    using len frag_len_u16 [OF len] by (simp_all add: frag_payload_def new_def FRAG_HLEN_def)
  then have "frag_chain_ok c' \<and> (out \<noteq> [] \<longrightarrow> frag_bytes out = unat tot
     \<and> (\<forall>e \<in> set out. FRAG_HLEN \<le> length (skb_data (fle_skb e)) \<and> frag_announced e = tot))"
    using len(1) by (intro res) (simp_all add: new_def frag_announced_def tot)
  then show ?thesis
    using tbl t' by (auto simp: frag_table_ok_def dest: set_update_subset_insert [THEN subsetD])
qed

text \<open>
  memory safety of reassembly. With well-formed chains and a fragment of at most
  45395 bytes (more would overflow the 16 bit size of a chain), buffering never overruns
  the merged buffer, keeps every chain ordered, consistent and within the size limit, and
  a merged packet has exactly the announced total size.
\<close>

theorem frag_skb_buffer_safe:
  assumes "frag_table_ok t" and "FRAG_HLEN \<le> length (skb_data skb)" and "length (skb_data skb) \<le> 45395"
  shows "\<exists>t' skb' ok. batadv_frag_skb_buffer env t skb = Kret (t', skb', ok) \<and> frag_table_ok t'
     \<and> (\<forall>m. skb' = Some m \<longrightarrow> ok \<and>
          length (skb_data m) = unat (frag_total_size (get_frag_packet (skb_data skb))))"
proof -
  obtain t' out freed ok where ins: "batadv_frag_insert_packet (rx_linearize_ok env) (rx_alloc_ok env)
      (rx_now env) t skb = (t', out, freed, ok)"
    by (cases rule: prod_cases4)
  note res = frag_insert_packet_ok [OF assms ins refl]
  show ?thesis
  proof (cases "out = [] \<or> \<not> ok")
    case True
    then show ?thesis using res ins by (auto simp: batadv_frag_skb_buffer_def)
  next
    case False
    then have "length (concat (map frag_payload out)) = unat (frag_total_size (get_frag_packet (skb_data skb)))"
      using res by (simp add: length_concat frag_bytes_def comp_def)
    then show ?thesis
      using False res ins frag_merge_ok [of out "frag_total_size (get_frag_packet (skb_data skb))"]
      by (auto simp: batadv_frag_skb_buffer_def)
  qed
qed

section \<open>Reassembly\<close>

text \<open>A sequence of received fragments, and what the receiver returns for each.\<close>

fun frag_rx_run :: "batadv_frag_table_entry list \<Rightarrow> (frag_rx_env \<times> sk_buff) list
     \<Rightarrow> (batadv_frag_table_entry list \<times> sk_buff option list) kresult" where
  "frag_rx_run t [] = Kret (t, [])"
| "frag_rx_run t ((env, skb) # rx) =
     (case batadv_frag_skb_buffer env t skb of
        Kernel_bug \<Rightarrow> Kernel_bug
      | Kret (t', m, ok) \<Rightarrow>
          (case frag_rx_run t' rx of
             Kernel_bug \<Rightarrow> Kernel_bug
           | Kret (t'', ms) \<Rightarrow> Kret (t'', m # ms)))"

definition frag_rx_all_ok :: "frag_rx_env \<Rightarrow> bool" where
  "frag_rx_all_ok env \<longleftrightarrow> rx_linearize_ok env \<and> rx_alloc_ok env \<and> rx_expand_ok env"

definition frag_entry :: "sk_buff \<Rightarrow> batadv_frag_list_entry" where
  "frag_entry skb = \<lparr>fle_skb = skb, fle_no = ucast (frag_no (get_frag_packet (skb_data skb)))\<rparr>"

definition frag_member :: "batadv_frag_packet \<Rightarrow> bytes list \<Rightarrow> nat \<Rightarrow> sk_buff \<Rightarrow> bool" where
  "frag_member h cs i skb \<longleftrightarrow> i < length cs \<and> skb_data skb = frag_series h cs ! i"

lemma frag_member_facts:
  assumes "frag_member h cs i skb" and "frag_no h = 0" and "length cs \<le> 16"
  shows "get_frag_packet (skb_data skb) = h\<lparr>frag_no := of_nat i\<rparr>"
    and "fle_no (frag_entry skb) = of_nat i" and "frag_payload (frag_entry skb) = cs ! i"
    and "frag_announced (frag_entry skb) = frag_total_size h"
    and "FRAG_HLEN \<le> length (skb_data skb)" "length (skb_data skb) = FRAG_HLEN + length (cs ! i)"
proof -
  have i: "i < 16" "i < length cs" using assms by (simp_all add: frag_member_def)
  have d: "skb_data skb = frag_packet_bytes (h\<lparr>frag_no := of_nat i\<rparr>) @ cs ! i"
    using assms by (simp add: frag_member_def nth_frag_series)
  then show g: "get_frag_packet (skb_data skb) = h\<lparr>frag_no := of_nat i\<rparr>"
    by (simp add: frag_fmt.dec_enc)
  show "fle_no (frag_entry skb) = of_nat i"
    using i by (simp add: frag_entry_def g unsigned_of_nat take_bit_nat_eq_self ucast_eq)
  show "frag_payload (frag_entry skb) = cs ! i"
    by (simp add: frag_payload_def frag_entry_def d FRAG_HLEN_def frag_fmt.length_enc)
  show "frag_announced (frag_entry skb) = frag_total_size h"
    by (simp add: frag_announced_def frag_entry_def g)
  show "length (skb_data skb) = FRAG_HLEN + length (cs ! i)"
    by (simp add: d FRAG_HLEN_def frag_fmt.length_enc)
  then show "FRAG_HLEN \<le> length (skb_data skb)" by simp
qed

text \<open>The chain while the fragments \<open>ss\<close> of one packet have been collected.\<close>

definition frag_collected :: "batadv_frag_packet \<Rightarrow> sk_buff list \<Rightarrow> batadv_frag_table_entry \<Rightarrow> bool" where
  "frag_collected h ss c \<longleftrightarrow>
     (if ss = [] then fte_seqno c \<noteq> frag_seqno h
      else fte_seqno c = frag_seqno h \<and> fte_total_size c = frag_total_size h
        \<and> frag_desc (fragment_list c) \<and> set (fragment_list c) = frag_entry ` set ss
        \<and> unat (fte_size c) = frag_bytes (fragment_list c)
        \<and> frag_bytes (fragment_list c) = (\<Sum>s \<leftarrow> ss. length (skb_data s) - FRAG_HLEN))"

lemma frag_collect_step:
  assumes c: "frag_collected h ss c" and new: "fle_no (frag_entry s) \<notin> fle_no ` frag_entry ` set ss"
    and s: "FRAG_HLEN \<le> length (skb_data s)"
    and sum: "(\<Sum>x \<leftarrow> s # ss. length (skb_data x) - FRAG_HLEN) \<le> unat (frag_total_size h)"
    and tot: "unat (frag_total_size h) \<le> 20160"
  shows "\<exists>l c' freed. frag_chain_insert now (frag_seqno h) (frag_total_size h)
      (of_nat (length (skb_data s)) - of_nat FRAG_HLEN) (frag_entry s) c
      = (c', if (\<Sum>x \<leftarrow> s # ss. length (skb_data x) - FRAG_HLEN) = unat (frag_total_size h) then l else [], freed, True)
     \<and> frag_desc l \<and> set l = frag_entry ` set (s # ss) \<and> frag_bytes l = (\<Sum>x \<leftarrow> s # ss. length (skb_data x) - FRAG_HLEN)
     \<and> ((\<Sum>x \<leftarrow> s # ss. length (skb_data x) - FRAG_HLEN) \<noteq> unat (frag_total_size h) \<longrightarrow> frag_collected h (s # ss) c')"
proof -
  let ?len = "of_nat (length (skb_data s)) - of_nat FRAG_HLEN :: u16"
  let ?sum = "\<Sum>x \<leftarrow> s # ss. length (skb_data x) - FRAG_HLEN"
  have len: "unat ?len = length (skb_data s) - FRAG_HLEN"
    using s sum tot by (intro frag_len_u16) (auto simp: FRAG_HLEN_def)
  have pl: "length (frag_payload (frag_entry s)) = length (skb_data s) - FRAG_HLEN"
    by (simp add: frag_payload_def frag_entry_def)
  have fin: "\<exists>c' freed'. frag_chain_check (frag_total_size h) c1 = (c', if ?sum = unat (frag_total_size h) then fragment_list c1 else [], freed')
      \<and> (?sum \<noteq> unat (frag_total_size h) \<longrightarrow> c' = c1)"
    if "unat (fte_size c1) = ?sum" "fte_total_size c1 = frag_total_size h" for c1
    using that sum tot by (auto simp: frag_chain_check_def unsigned_word_eqI word_unat_eq_iff)
  show ?thesis
  proof (cases "ss = []")
    case True
    let ?c1 = "c\<lparr>fte_seqno := frag_seqno h, fragment_list := [frag_entry s], fte_size := ?len,
        fte_timestamp := now, fte_total_size := frag_total_size h\<rparr>"
    have "fte_seqno c \<noteq> frag_seqno h" using c True by (simp add: frag_collected_def)
    then show ?thesis
      using fin [of ?c1] True len pl
      by (auto simp: frag_chain_insert_def batadv_frag_init_chain_def batadv_frag_clear_chain_def
          frag_collected_def frag_bytes_def intro!: exI [of _ "[frag_entry s]"])
  next
    case False
    then have cf: "fte_seqno c = frag_seqno h" "fte_total_size c = frag_total_size h"
        "frag_desc (fragment_list c)" "set (fragment_list c) = frag_entry ` set ss"
        "unat (fte_size c) = frag_bytes (fragment_list c)"
        "frag_bytes (fragment_list c) = (\<Sum>s \<leftarrow> ss. length (skb_data s) - FRAG_HLEN)"
      using c by (simp_all add: frag_collected_def)
    obtain l where l: "frag_find_position False (frag_entry s) (fragment_list c) = Frag_inserted l"
      "frag_desc l" "set l = insert (frag_entry s) (frag_entry ` set ss)" "frag_bytes l = ?sum"
      using frag_find_position_cases [OF cf(3), of "frag_entry s" False] False new cf(4,6) pl
      by (cases "frag_find_position False (frag_entry s) (fragment_list c)") auto
    let ?c1 = "c\<lparr>fragment_list := l, fte_size := fte_size c + ?len, fte_timestamp := now\<rparr>"
    have "unat (fte_size ?c1) = ?sum"
      using cf(5,6) len sum tot by (simp add: unat_word_ariths)
    then show ?thesis
      using fin [of ?c1] l cf
      by (auto simp: frag_chain_insert_def batadv_frag_init_chain_def frag_collected_def intro!: exI [of _ l])
  qed
qed


lemma frag_desc_payloads:
  assumes "frag_desc l" and "\<And>e. e \<in> set l \<Longrightarrow> \<exists>i < length cs. fle_no e = of_nat i \<and> frag_payload e = cs ! i"
    and "fle_no ` set l = of_nat ` {..< length cs}" and "length cs \<le> 16"
  shows "map frag_payload l = rev cs"
proof -
  let ?k = "length cs"
  have inj: "(of_nat i :: u8) < of_nat j \<longleftrightarrow> i < j" if "i < 16" "j < 16" for i j
    using that by (simp add: word_less_nat_alt unsigned_of_nat take_bit_nat_eq_self)
  have "sorted_wrt (\<lambda>a b. b < a) (map fle_no l)" using assms(1) by (simp add: sorted_wrt_map)
  then have "sorted_wrt (<) (rev (map fle_no l))" by (simp only: sorted_wrt_rev)
  moreover have "sorted_wrt (<) (map (of_nat :: nat \<Rightarrow> u8) [0 ..< ?k])"
    using assms(4) inj by (auto simp: sorted_wrt_map sorted_wrt_iff_nth_less)
  moreover have "set (rev (map fle_no l)) = set (map (of_nat :: nat \<Rightarrow> u8) [0 ..< ?k])"
    using assms(3) by (simp add: atLeast0LessThan)
  ultimately have nos: "rev (map fle_no l) = map of_nat [0 ..< ?k]"
    by (metis strict_sorted_equal)
  have pay: "frag_payload e = cs ! unat (fle_no e)" if "e \<in> set l" for e
    using assms(2) [OF that] assms(4) by (auto simp: unsigned_of_nat take_bit_nat_eq_self)
  have "rev (map frag_payload l) = map (\<lambda>n. cs ! unat n) (rev (map fle_no l))"
    by (simp add: rev_map pay)
  also have "\<dots> = map ((!) cs) [0 ..< ?k]"
    using assms(4) by (simp add: nos unsigned_of_nat take_bit_nat_eq_self)
  also have "\<dots> = cs" by (rule map_nth)
  finally show ?thesis by (metis rev_rev_ident)
qed

lemma frag_buffer_collect:
  assumes env: "frag_rx_all_ok env" and t: "length t = BATADV_FRAG_BUFFER_COUNT"
    and b: "b = unat (frag_seqno h) mod BATADV_FRAG_BUFFER_COUNT"
    and c: "frag_collected h ss (t ! b)" and new: "fle_no (frag_entry s) \<notin> fle_no ` frag_entry ` set ss"
    and s: "FRAG_HLEN \<le> length (skb_data s)" "get_frag_packet (skb_data s) = h\<lparr>frag_no := n\<rparr>"
    and all: "\<forall>x \<in> set (s # ss). FRAG_HLEN \<le> length (skb_data x) \<and> frag_announced (frag_entry x) = frag_total_size h"
    and sum: "(\<Sum>x \<leftarrow> s # ss. length (skb_data x) - FRAG_HLEN) \<le> unat (frag_total_size h)"
    and tot: "unat (frag_total_size h) \<le> 20160" "0 < unat (frag_total_size h)"
  shows "\<exists>t' l. batadv_frag_skb_buffer env t s = Kret (t', 
        if (\<Sum>x \<leftarrow> s # ss. length (skb_data x) - FRAG_HLEN) = unat (frag_total_size h)
        then Some ((fle_skb (hd l))\<lparr>skb_data := concat (map frag_payload l)\<rparr>) else None, True)
     \<and> frag_desc l \<and> set l = frag_entry ` set (s # ss) \<and> length t' = BATADV_FRAG_BUFFER_COUNT
     \<and> ((\<Sum>x \<leftarrow> s # ss. length (skb_data x) - FRAG_HLEN) \<noteq> unat (frag_total_size h)
         \<longrightarrow> frag_collected h (s # ss) (t' ! b))"
proof -
  let ?sum = "\<Sum>x \<leftarrow> s # ss. length (skb_data x) - FRAG_HLEN"
  obtain l c' freed where ins: "frag_chain_insert (rx_now env) (frag_seqno h) (frag_total_size h)
      (of_nat (length (skb_data s)) - of_nat FRAG_HLEN) (frag_entry s) (t ! b)
      = (c', if ?sum = unat (frag_total_size h) then l else [], freed, True)"
    and l: "frag_desc l" "set l = frag_entry ` set (s # ss)" "frag_bytes l = ?sum"
    and c': "?sum \<noteq> unat (frag_total_size h) \<longrightarrow> frag_collected h (s # ss) c'"
    using frag_collect_step [OF c new s(1) sum tot(1)] by blast
  have entry: "frag_entry s = \<lparr>fle_skb = s, fle_no = ucast n\<rparr>" by (simp add: frag_entry_def s(2))
  have insert: "batadv_frag_insert_packet (rx_linearize_ok env) (rx_alloc_ok env) (rx_now env) t s
     = (t[b := c'], if ?sum = unat (frag_total_size h) then l else [], freed, True)"
    using env ins by (simp add: batadv_frag_insert_packet_def frag_rx_all_ok_def s(2) b entry Let_def)
  have "l \<noteq> []" using l(2) by auto
  moreover have "\<forall>e \<in> set l. FRAG_HLEN \<le> length (skb_data (fle_skb e)) \<and> frag_announced e = frag_total_size h"
    using l(2) all by (auto simp: frag_entry_def)
  ultimately have merge: "?sum = unat (frag_total_size h) \<Longrightarrow> batadv_frag_merge_packets True l
      = Kret (Some ((fle_skb (hd l))\<lparr>skb_data := concat (map frag_payload l)\<rparr>))"
    using frag_merge_ok [of l "frag_total_size h" True] l(3) by simp
  have "b < length t" using t b by (simp add: BATADV_FRAG_BUFFER_COUNT_def)
  then show ?thesis
    using insert merge l c' t env \<open>l \<noteq> []\<close>
    by (intro exI [of _ "t[b := c']"] exI [of _ l]) (auto simp: batadv_frag_skb_buffer_def frag_rx_all_ok_def)
qed

lemma frag_rx_run_collects:
  assumes h: "frag_no h = 0" "length cs \<le> 16" "\<forall>c \<in> set cs. c \<noteq> []"
    and tot: "unat (frag_total_size h) = sum_list (map length cs)" "unat (frag_total_size h) \<le> 20160"
    and b: "b = unat (frag_seqno h) mod BATADV_FRAG_BUFFER_COUNT"
    and mem: "\<forall>s \<in> set (ss @ map snd rx). \<exists>i. frag_member h cs i s"
    and nos: "distinct (map (\<lambda>s. fle_no (frag_entry s)) (ss @ map snd rx))"
       "set (map (\<lambda>s. fle_no (frag_entry s)) (ss @ map snd rx)) = of_nat ` {..< length cs}"
    and sums: "(\<Sum>s \<leftarrow> ss @ map snd rx. length (skb_data s) - FRAG_HLEN) = sum_list (map length cs)"
    and env: "\<forall>(env, s) \<in> set rx. frag_rx_all_ok env" and rx: "rx \<noteq> []"
    and t: "length t = BATADV_FRAG_BUFFER_COUNT" and c: "frag_collected h ss (t ! b)"
  shows "\<exists>t' m. frag_rx_run t rx = Kret (t', replicate (length rx - 1) None @ [Some m])
     \<and> skb_data m = concat (rev cs)"
  using mem nos sums env rx t c
proof (induction rx arbitrary: ss t)
  case Nil
  then show ?case by simp
next
  case (Cons p rx)
  obtain env s where p: "p = (env, s)" by fastforce
  let ?pay = "\<lambda>s. length (skb_data s) - FRAG_HLEN"
  obtain i where i: "frag_member h cs i s" using Cons.prems(1) p by auto
  note s = frag_member_facts [OF i h(1,2)]
  have members: "FRAG_HLEN \<le> length (skb_data x) \<and> frag_announced (frag_entry x) = frag_total_size h
      \<and> 0 < ?pay x" if "x \<in> set (ss @ map snd (p # rx))" for x
    using Cons.prems(1) that frag_member_facts [OF _ h(1,2)] h(3) by (fastforce simp: frag_member_def)
  have split: "sum_list (map ?pay (s # ss)) + sum_list (map ?pay (map snd rx)) = unat (frag_total_size h)"
    using Cons.prems(4) tot(1) p by simp
  have "cs \<noteq> []" using i by (auto simp: frag_member_def)
  then have "0 < unat (frag_total_size h)" using tot(1) h(3) by (cases cs) auto
  then obtain t' l where st: "batadv_frag_skb_buffer env t s = Kret (t',
        if sum_list (map ?pay (s # ss)) = unat (frag_total_size h)
        then Some ((fle_skb (hd l))\<lparr>skb_data := concat (map frag_payload l)\<rparr>) else None, True)"
     "frag_desc l" "set l = frag_entry ` set (s # ss)" "length t' = BATADV_FRAG_BUFFER_COUNT"
     "sum_list (map ?pay (s # ss)) \<noteq> unat (frag_total_size h) \<longrightarrow> frag_collected h (s # ss) (t' ! b)"
    using frag_buffer_collect [of env t b h ss s "of_nat i"] Cons.prems p s(1,5) b split tot(2) members
    by (auto simp: image_image)
  show ?case
  proof (cases "rx = []")
    case True
    have "map frag_payload l = rev cs"
    proof (rule frag_desc_payloads [OF st(2) _ _ h(2)])
      show "\<exists>i < length cs. fle_no e = of_nat i \<and> frag_payload e = cs ! i" if "e \<in> set l" for e
      proof -
        from that st(3) obtain x where x: "e = frag_entry x" "x \<in> set (ss @ map snd (p # rx))" using p by auto
        then obtain j where j: "frag_member h cs j x" using Cons.prems(1) by blast
        then show ?thesis using frag_member_facts(2,3) [OF j h(1,2)] x by (auto simp: frag_member_def)
      qed
      show "fle_no ` set l = of_nat ` {..< length cs}"
        using Cons.prems(3) st(3) True p by (simp add: image_image)
    qed
    then show ?thesis using st(1) split True p by simp
  next
    case False
    then obtain q rx' where "rx = q # rx'" by (cases rx) auto
    then have "0 < sum_list (map ?pay (map snd rx))" using members [of "snd q"] by (simp add: trans_less_add1)
    with split have ne: "sum_list (map ?pay (s # ss)) \<noteq> unat (frag_total_size h)" by simp
    have "\<exists>t'' m. frag_rx_run t' rx = Kret (t'', replicate (length rx - 1) None @ [Some m])
       \<and> skb_data m = concat (rev cs)"
      by (rule Cons.IH [of "s # ss"]) (use Cons.prems p st(4,5) ne False in \<open>auto simp: ac_simps\<close>)
    then show ?thesis using st(1) ne p False by (cases rx) auto
  qed
qed

lemma frag_series_map:
  assumes "frag_no h = 0" and "length cs \<le> 16"
  shows "map (\<lambda>d. ucast (frag_no (get_frag_packet d)) :: u8) (frag_series h cs) = map of_nat [0 ..< length cs]"
    and "map (\<lambda>d. length d - FRAG_HLEN) (frag_series h cs) = map length cs"
proof -
  have "(ucast (of_nat i :: 4 word) :: u8) = of_nat i" if "i < length cs" for i
    using that assms(2) by (simp add: ucast_eq unsigned_of_nat take_bit_nat_eq_self)
  then show "map (\<lambda>d. ucast (frag_no (get_frag_packet d)) :: u8) (frag_series h cs) = map of_nat [0 ..< length cs]"
    by (intro nth_equalityI) (simp_all add: nth_frag_series frag_fmt.dec_enc assms(1))
  show "map (\<lambda>d. length d - FRAG_HLEN) (frag_series h cs) = map length cs"
    by (intro nth_equalityI) (simp_all add: nth_frag_series frag_fmt.length_enc FRAG_HLEN_def)
qed

text \<open>
  C1: fragmentation round trip. The fragments of a packet, received in any order on
  buffers of the receiver's own, are buffered one by one, and the last one to arrive
  yields the payload that was sent.
\<close>

theorem frag_roundtrip:
  assumes "frag_tx_all_ok env" and "20 < dev_mtu" and "skb_data skb \<noteq> []"
    and "length (skb_data skb) \<le> 16 * unat (min dev_mtu 1280 - 20)"
    and "batadv_frag_send_packet env dev_mtu (Some primary) orig_addr priv skb = (ret, priv', sent, fate)"
    and "mset (map (skb_data \<circ> snd) rx) = mset (map skb_data sent)"
    and "\<forall>(env, s) \<in> set rx. frag_rx_all_ok env"
    and "length t = BATADV_FRAG_BUFFER_COUNT"
    and "fte_seqno (t ! (unat (ucast (fp_frag_seqno priv + 1) :: u16) mod 8)) \<noteq> ucast (fp_frag_seqno priv + 1)"
  shows "\<exists>t' m. frag_rx_run t rx = Kret (t', replicate (length rx - 1) None @ [Some m])
     \<and> skb_data m = skb_data skb"
proof -
  obtain h cs where hc: "map skb_data sent = frag_series h cs" "frag_no h = 0" "length cs \<le> 16"
    "frag_seqno h = ucast (fp_frag_seqno priv + 1)" "unat (frag_total_size h) = length (skb_data skb)"
    "concat (rev cs) = skb_data skb" "\<forall>c \<in> set cs. c \<noteq> []"
    using frag_send_packet_fragments [OF assms(1-5)] by blast
  let ?b = "unat (frag_seqno h) mod BATADV_FRAG_BUFFER_COUNT"
  let ?no = "\<lambda>d. ucast (frag_no (get_frag_packet d)) :: u8"
  have ser: "mset (map (skb_data \<circ> snd) rx) = mset (frag_series h cs)" using assms(6) hc(1) by simp
  have "mset (map ?no (map (skb_data \<circ> snd) rx)) = mset (map ?no (frag_series h cs))"
    by (simp only: mset_map [of _ "map (skb_data \<circ> snd) rx"] mset_map [of _ "frag_series h cs"] ser)
  then have nos: "mset (map (\<lambda>s. fle_no (frag_entry s)) (map snd rx)) = mset (map of_nat [0 ..< length cs])"
    using frag_series_map(1) [OF hc(2,3)] by (simp add: frag_entry_def comp_def)
  have "mset (map (\<lambda>d. length d - FRAG_HLEN) (map (skb_data \<circ> snd) rx))
      = mset (map (\<lambda>d. length d - FRAG_HLEN) (frag_series h cs))"
    by (simp only: mset_map [of _ "map (skb_data \<circ> snd) rx"] mset_map [of _ "frag_series h cs"] ser)
  then have sums: "(\<Sum>s \<leftarrow> map snd rx. length (skb_data s) - FRAG_HLEN) = sum_list (map length cs)"
    using frag_series_map(2) [OF hc(2,3)] by (simp add: comp_def flip: sum_mset_sum_list)
  have dist: "distinct (map (of_nat :: nat \<Rightarrow> u8) [0 ..< length cs])"
    using hc(3) by (auto simp: distinct_map inj_on_def word_of_nat_eq_iff take_bit_nat_eq_self)
  have mem: "\<exists>i. frag_member h cs i s" if "s \<in> set (map snd rx)" for s
  proof -
    have "skb_data s \<in> set (frag_series h cs)" using that mset_eq_setD [OF ser] by force
    then show ?thesis by (auto simp: frag_member_def in_set_conv_nth)
  qed
  have len: "sum_list (map length cs) = length (skb_data skb)"
    using arg_cong [OF hc(6), of length] by (simp add: length_concat rev_map [symmetric])
  have "length (skb_data skb) \<le> 20160" using frag_sizes(3) [OF assms(2-4)] .
  moreover have "rx \<noteq> []" using sums len assms(3) by auto
  moreover have "frag_collected h [] (t ! ?b)" using assms(9) hc(4) by (simp add: frag_collected_def BATADV_FRAG_BUFFER_COUNT_def)
  ultimately show ?thesis
    using frag_rx_run_collects [of h cs ?b "[]" rx t] hc assms(7,8) len mem sums
      mset_eq_setD [OF nos] mset_eq_imp_distinct_iff [OF nos] dist
    by (simp add: atLeast0LessThan)
qed

section \<open>Limits of the sender\<close>

lemma frag_send_loop_bounded:
  assumes "frag_send_loop env m h priv skb sent = (res, priv', sent')" and "length (skb_data skb) < 2 ^ 32"
    and "\<forall>f \<in> set sent. length (skb_data f) \<le> 20 + unat m"
  shows "(\<forall>f \<in> set sent'. length (skb_data f) \<le> 20 + unat m)
    \<and> (\<forall>h' skb'. res = Inr (h', skb') \<longrightarrow> length (skb_data skb') \<le> unat m)"
  using assms
proof (induction env m h priv skb sent rule: frag_send_loop.induct)
  case (1 env m h priv skb sent)
  note unfold = frag_send_loop.simps [of env m h priv skb sent]
  show ?case
  proof (cases "skb_len skb > m")
    case False
    then show ?thesis
      using 1(2-4) unfold by (auto simp: word_less_nat_alt unat_skb_len)
  next
    case True
    then have cut: "unat (skb_len skb - m) = length (skb_data skb) - unat m"
      using 1(3) by (simp add: unat_sub_if' word_less_nat_alt unat_skb_len)
    show ?thesis
    proof (cases "frag_no h = of_nat (BATADV_FRAG_MAX_FRAGMENTS - 1) \<or> \<not> tx_alloc_ok env (frag_no h)")
      case stop: True
      then show ?thesis
        using 1(2,4) True unfold by (auto simp: batadv_frag_create_def split: if_splits)
    next
      case False
      then obtain skb' f where create: "batadv_frag_create (tx_alloc_ok env (frag_no h)) skb h m = Some (skb', f)"
        and skb': "length (skb_data skb') < 2 ^ 32" and f: "length (skb_data f) \<le> 20 + unat m"
        using cut 1(3) by (auto simp: batadv_frag_create_def Let_def frag_fmt.length_enc)
      show ?thesis
      proof (cases "tx_send_ret env (frag_no h) = NET_XMIT_SUCCESS")
        case ok: True
        then have "frag_send_loop env m (h\<lparr>frag_no := frag_no h + 1\<rparr>) (frag_count_tx priv f) skb' (sent @ [f])
            = (res, priv', sent')"
          using 1(2) True False create unfold by (simp add: Let_def)
        then show ?thesis
          using 1(1) [OF True _ create refl refl refl] False ok skb' f 1(4) by simp
      next
        case fail: False
        then show ?thesis
          using 1(2,4) True False create unfold f by (auto simp: Let_def)
      qed
    qed
  qed
qed

lemma frag_even_size_word:
  assumes "0 < unat (m :: u32)" and "len \<noteq> 0"
  shows "(len - 1) div ((len - 1) div m + 1) + 1 \<le> m"
proof -
  have len: "unat (len - 1) = unat len - 1" "0 < unat len"
    using assms(2) by (simp_all add: unat_sub_if' unat_gt_0 Suc_leI)
  have le: "(unat len - 1) div unat m + 1 \<le> unat len"
    using div_le_dividend [of "unat len - 1" "unat m"] len(2) by linarith
  then have n: "unat ((len - 1) div m + 1) = (unat len - 1) div unat m + 1"
    using unsigned_less [of len, where ?'a = nat] by (simp add: unat_word_ariths unat_div len(1))
  have "(unat len - 1) div unat ((len - 1) div m + 1) + 1 \<le> unat len"
    using div_le_dividend [of "unat len - 1" "unat ((len - 1) div m + 1)"] len(2) by linarith
  then have "unat ((len - 1) div ((len - 1) div m + 1) + 1) = (unat len - 1) div ((unat len - 1) div unat m + 1) + 1"
    using unsigned_less [of len, where ?'a = nat] n by (simp add: unat_word_ariths unat_div len(1))
  moreover have "(unat len - 1) div ((unat len - 1) div unat m + 1) < unat m"
    using assms(1) by (simp add: div_less_iff_less_mult) (metis Suc_eq_plus1 dividend_less_div_times mult.commute mult_Suc add.commute)
  ultimately show ?thesis by (simp add: word_le_nat_alt)
qed

text \<open>
  C10: no fragment the sender hands to the network is larger than the interface MTU or
  than \<open>BATADV_FRAG_MAX_FRAG_SIZE\<close>, whatever fails on the way.
\<close>

theorem frag_send_fits_mtu:
  assumes "20 < dev_mtu" and "length (skb_data skb) < 2 ^ 32"
    and "batadv_frag_send_packet env dev_mtu primary_if orig_addr priv skb = (ret, priv', sent, fate)"
    and "f \<in> set sent"
  shows "length (skb_data f) \<le> unat (min dev_mtu 1280)"
proof -
  let ?m = "min dev_mtu 1280 - 20"
  let ?n = "(skb_len skb - 1) div ?m + 1"
  let ?e = "(skb_len skb - 1) div ?n + 1"
  have m: "unat ?m = unat (min dev_mtu 1280) - 20" "0 < unat ?m"
    using assms(1) by (auto simp: min_def unat_sub_if' word_le_nat_alt word_less_nat_alt)
  have ne: "skb_len skb \<noteq> 0" using assms(3,4) by (auto simp: batadv_frag_send_packet_def Let_def split: if_splits)
  then have "unat ?e \<le> unat ?m" using frag_even_size_word [OF m(2)] by (simp add: word_le_nat_alt)
  then have e: "20 + unat ?e \<le> unat (min dev_mtu 1280)" using m by linarith
  obtain p h where p: "p = priv\<lparr>fp_frag_seqno := fp_frag_seqno priv + 1\<rparr>"
    and h: "h = frag_header_new p skb (the primary_if) orig_addr" by blast
  obtain res p2 s2 where loop: "frag_send_loop env ?e h p skb [] = (res, p2, s2)" by (cases rule: prod_cases3)
  have sent: "set sent \<subseteq> set s2 \<union> {x. \<exists>h' skb'. res = Inr (h', skb') \<and> skb_data x = frag_packet_bytes h' @ skb_data skb'}"
    using assms(3) ne m(2) loop p h
    by (auto simp: batadv_frag_send_packet_def frag_consts Let_def split: if_splits option.splits sum.splits prod.splits)
  have "length (skb_data f) \<le> 20 + unat ?e"
    using frag_send_loop_bounded [OF loop assms(2)] sent assms(4) by (auto simp: frag_fmt.length_enc)
  then show ?thesis using e by linarith
qed

text \<open>
  the ownership of the packet on every exit of the sender: it is neither freed nor
  handed on exactly when the early check for an empty packet or an MTU of 20 bytes
  returns \<^verbatim>\<open>-EINVAL\<close>, which skips the \<^verbatim>\<open>free_skb\<close> label.
\<close>

theorem frag_send_leaks_iff:
  "snd (snd (snd (batadv_frag_send_packet env dev_mtu primary_if orig_addr priv skb))) = Skb_leaked
     \<longleftrightarrow> skb_len skb = 0 \<or> min dev_mtu 1280 = 20"
  by (auto simp: batadv_frag_send_packet_def frag_consts Let_def split: option.splits sum.splits prod.splits)

section \<open>Concrete runs\<close>

definition frag_chain_empty :: batadv_frag_table_entry where
  "frag_chain_empty = \<lparr>fragment_list = [], fte_timestamp = 0, fte_seqno = 0, fte_size = 0, fte_total_size = 0\<rparr>"

definition frag_table_empty :: "batadv_frag_table_entry list" where
  "frag_table_empty = replicate BATADV_FRAG_BUFFER_COUNT frag_chain_empty"

lemma frag_table_empty_ok: "frag_table_ok frag_table_empty"
  by (auto simp: frag_table_ok_def frag_table_empty_def frag_chain_empty_def frag_chain_ok_def frag_bytes_def)

abbreviation frag_rx_ok :: frag_rx_env where
  "frag_rx_ok \<equiv> \<lparr>rx_linearize_ok = True, rx_alloc_ok = True, rx_expand_ok = True, rx_now = 0\<rparr>"

definition frag_big :: "4 word \<Rightarrow> nat \<Rightarrow> sk_buff" where
  "frag_big n len =
     \<lparr>h_dest = Mac 2 0 0 0 0 1, h_source = Mac 2 0 0 0 0 2,
      skb_data = frag_packet_bytes
        \<lparr>frag_packet_type = BATADV_UNICAST_FRAG, frag_version = BATADV_COMPAT_VERSION,
         frag_ttl = BATADV_TTL, frag_no = n, frag_priority = 0, frag_reserved = 0,
         frag_dest = Mac 2 0 0 0 0 1, frag_orig = Mac 2 0 0 0 0 2, frag_seqno = 1,
         frag_total_size = 100\<rparr> @ replicate len 0,
      skb_priority = 0\<rparr>"

text \<open>
  the bound of the previous property is needed. Two fragments that fit an MTU of
  65535 make the 16 bit size of their chain wrap around to the announced total size,
  and the merge then overruns its buffer.
\<close>

theorem frag_size_wraps:
  "length (skb_data (frag_big 0 20000)) \<le> 65535 \<and> length (skb_data (frag_big 1 45636)) \<le> 65535
   \<and> frag_table_ok frag_table_empty
   \<and> frag_rx_run frag_table_empty [(frag_rx_ok, frag_big 0 20000), (frag_rx_ok, frag_big 1 45636)]
       = Kernel_bug"
proof (intro conjI)
  show "frag_table_ok frag_table_empty" by (rule frag_table_empty_ok)
  show "frag_rx_run frag_table_empty [(frag_rx_ok, frag_big 0 20000), (frag_rx_ok, frag_big 1 45636)]
      = Kernel_bug"
    by (simp add: frag_big_def frag_fmt.length_enc frag_fmt.dec_enc frag_consts
        batadv_frag_skb_buffer_def batadv_frag_insert_packet_def frag_chain_insert_def
        batadv_frag_init_chain_def frag_table_empty_def frag_chain_empty_def frag_chain_check_def
        batadv_frag_merge_packets_def)
qed (simp_all add: frag_big_def frag_fmt.length_enc)

abbreviation frag_tx_ok :: frag_tx_env where
  "frag_tx_ok \<equiv> \<lparr>tx_frag_list_linearize_failed = False, tx_alloc_ok = (\<lambda>_. True),
      tx_send_ret = (\<lambda>_. 0), tx_cow_head_ret = 0\<rparr>"

definition frag_example :: sk_buff where
  "frag_example = \<lparr>h_dest = Mac 2 0 0 0 0 1, h_source = Mac 2 0 0 0 0 2, skb_data = [1, 2, 3],
     skb_priority = 0\<rparr>"

definition frag_example_sent :: "int \<times> frag_priv \<times> sk_buff list \<times> skb_fate" where
  "frag_example_sent = batadv_frag_send_packet frag_tx_ok 22 (Some (Mac 2 0 0 0 0 2)) (Mac 2 0 0 0 0 1)
     \<lparr>fp_frag_seqno = 6, cnt_frag_tx = 0, cnt_frag_tx_bytes = 0\<rparr> frag_example"

theorem frag_roundtrip_witness:
  "\<exists>t' m. frag_rx_run frag_table_empty (map (Pair frag_rx_ok) (rev (fst (snd (snd frag_example_sent)))))
      = Kret (t', replicate (length (fst (snd (snd frag_example_sent))) - 1) None @ [Some m])
    \<and> skb_data m = [1, 2, 3]"
proof -
  have "\<exists>t' m. frag_rx_run frag_table_empty (map (Pair frag_rx_ok) (rev (fst (snd (snd frag_example_sent)))))
      = Kret (t', replicate (length (map (Pair frag_rx_ok) (rev (fst (snd (snd frag_example_sent))))) - 1) None @ [Some m])
      \<and> skb_data m = skb_data frag_example"
    by (rule frag_roundtrip [of frag_tx_ok 22 frag_example "Mac 2 0 0 0 0 2" "Mac 2 0 0 0 0 1"
          "\<lparr>fp_frag_seqno = 6, cnt_frag_tx = 0, cnt_frag_tx_bytes = 0\<rparr>" "fst frag_example_sent"
          "fst (snd frag_example_sent)" "fst (snd (snd frag_example_sent))" "snd (snd (snd frag_example_sent))"])
      (simp_all add: frag_tx_all_ok_def frag_rx_all_ok_def NET_XMIT_SUCCESS_def frag_example_def
        frag_table_empty_def frag_chain_empty_def BATADV_FRAG_BUFFER_COUNT_def comp_def frag_example_sent_def image_iff)
  then show ?thesis by (simp add: frag_example_def)
qed

theorem frag_skb_buffer_safe_witness:
  "\<exists>t' skb' ok. batadv_frag_skb_buffer frag_rx_ok frag_table_empty (frag_big 0 100) = Kret (t', skb', ok)
     \<and> frag_table_ok t' \<and> (\<forall>m. skb' = Some m \<longrightarrow> ok \<and> length (skb_data m)
       = unat (frag_total_size (get_frag_packet (skb_data (frag_big 0 100)))))"
  by (rule frag_skb_buffer_safe [OF frag_table_empty_ok])
    (simp_all add: frag_big_def frag_fmt.length_enc FRAG_HLEN_def)

theorem frag_send_fits_mtu_witness:
  "fst (snd (snd frag_example_sent)) \<noteq> [] \<and>
   length (skb_data (hd (fst (snd (snd frag_example_sent))))) \<le> unat (min (22 :: u32) 1280)"
proof -
  have ne: "fst (snd (snd frag_example_sent)) \<noteq> []" by code_simp
  show ?thesis
    using ne frag_send_fits_mtu [of 22 frag_example frag_tx_ok "Some (Mac 2 0 0 0 0 2)" "Mac 2 0 0 0 0 1"
       "\<lparr>fp_frag_seqno = 6, cnt_frag_tx = 0, cnt_frag_tx_bytes = 0\<rparr>" "fst frag_example_sent"
          "fst (snd frag_example_sent)" "fst (snd (snd frag_example_sent))" "snd (snd (snd frag_example_sent))"
       "hd (fst (snd (snd frag_example_sent)))"]
    by (simp add: frag_example_def frag_example_sent_def)
qed

end
