(* ===== verification/Bitarray.thy ===== *)
theory Bitarray
  imports Batadv_Prelude
begin

text \<open>
  The sliding window of received sequence numbers,
  \<^verbatim>\<open>src/net/batman-adv/bitarray.c\<close> and \<^verbatim>\<open>bitarray.h\<close>. A window is the 64 bit
  bitmap \<open>seq_bits\<close>; bit \<open>n\<close> stands for the sequence number \<open>last_seqno - n\<close>.
\<close>

section \<open>Operations\<close>

definition BATADV_TQ_LOCAL_WINDOW_SIZE :: int where
  "BATADV_TQ_LOCAL_WINDOW_SIZE = 64"

definition BATADV_EXPECTED_SEQNO_RANGE :: int where
  "BATADV_EXPECTED_SEQNO_RANGE = 65536"

definition batadv_test_bit :: "u64 \<Rightarrow> u32 \<Rightarrow> u32 \<Rightarrow> bool" where
  "batadv_test_bit seq_bits last_seqno curr_seqno =
     (let diff = s32 (last_seqno - curr_seqno) in
      if diff < 0 \<or> diff \<ge> BATADV_TQ_LOCAL_WINDOW_SIZE then False
      else bit seq_bits (nat diff))"

definition batadv_set_bit :: "u64 \<Rightarrow> int \<Rightarrow> u64" where
  "batadv_set_bit seq_bits n =
     (if n < 0 \<or> n \<ge> BATADV_TQ_LOCAL_WINDOW_SIZE then seq_bits
      else set_bit (nat n) seq_bits)"

definition batadv_bitmap_shift_left :: "u64 \<Rightarrow> int \<Rightarrow> u64" where
  "batadv_bitmap_shift_left seq_bits n =
     (if n \<le> 0 \<or> n \<ge> BATADV_TQ_LOCAL_WINDOW_SIZE then seq_bits
      else push_bit (nat n) seq_bits)"

definition batadv_bit_get_packet :: "u64 \<Rightarrow> int \<Rightarrow> bool \<Rightarrow> u64 \<times> bool" where
  "batadv_bit_get_packet seq_bits seq_num_diff set_mark =
     (if seq_num_diff \<le> 0 \<and> seq_num_diff > - BATADV_TQ_LOCAL_WINDOW_SIZE then
        (if set_mark then batadv_set_bit seq_bits (- seq_num_diff) else seq_bits, False)
      else if seq_num_diff > 0 \<and> seq_num_diff < BATADV_TQ_LOCAL_WINDOW_SIZE then
        (let bits = batadv_bitmap_shift_left seq_bits seq_num_diff in
         (if set_mark then batadv_set_bit bits 0 else bits, True))
      else if seq_num_diff \<ge> BATADV_TQ_LOCAL_WINDOW_SIZE
              \<and> seq_num_diff < BATADV_EXPECTED_SEQNO_RANGE then
        (if set_mark then batadv_set_bit 0 0 else 0, True)
      else (if set_mark then batadv_set_bit 0 0 else 0, True))"

section \<open>The window as a set of sequence numbers\<close>

definition window_set :: "u64 \<Rightarrow> u32 \<Rightarrow> u32 set" where
  "window_set seq_bits last_seqno = {s. batadv_test_bit seq_bits last_seqno s}"

text \<open>
  What receiving \<open>seqno\<close> does to the set: a number inside the window is added,
  a slightly newer one moves the window and drops what falls out of it, and
  anything further away starts a new window.
\<close>

definition window_receive :: "u32 set \<Rightarrow> u32 \<Rightarrow> u32 \<Rightarrow> u32 set" where
  "window_receive W last_seqno seqno =
     (let diff = s32 (seqno - last_seqno) in
      if - 64 < diff \<and> diff \<le> 0 then insert seqno W
      else if 0 < diff \<and> diff < 64 then insert seqno {s \<in> W. s32 (seqno - s) < 64}
      else {seqno})"

lemmas window_defs = batadv_test_bit_def batadv_set_bit_def batadv_bitmap_shift_left_def
  BATADV_TQ_LOCAL_WINDOW_SIZE_def BATADV_EXPECTED_SEQNO_RANGE_def

lemma test_bit_range: "batadv_test_bit b l s \<Longrightarrow> 0 \<le> s32 (l - s) \<and> s32 (l - s) < 64"
  by (auto simp: window_defs Let_def split: if_splits)

lemma test_bit_in_range:
  "0 \<le> s32 (l - s) \<Longrightarrow> s32 (l - s) < 64 \<Longrightarrow> batadv_test_bit b l s = bit b (nat (s32 (l - s)))"
  by (auto simp: window_defs Let_def)

lemma test_bit_set_bit:
  assumes "0 \<le> n" and "n < 64"
  shows "batadv_test_bit (batadv_set_bit b n) l s \<longleftrightarrow> batadv_test_bit b l s \<or> s32 (l - s) = n"
  using assms by (auto simp: window_defs Let_def bit_simps nat_eq_iff)

lemma test_bit_zero [simp]: "\<not> batadv_test_bit 0 l s"
  by (simp add: batadv_test_bit_def Let_def)

lemma test_bit_shift:
  assumes d: "0 < s32 (q - l)" "s32 (q - l) < 64"
  shows "batadv_test_bit (batadv_bitmap_shift_left b (s32 (q - l))) q s
     \<longleftrightarrow> batadv_test_bit b l s \<and> s32 (q - s) < 64"
proof (cases "0 \<le> s32 (q - s) \<and> s32 (q - s) < 64")
  case True
  then have e: "s32 (l - s) = s32 (q - s) - s32 (q - l)"
    using d by (intro sint_diff_split) auto
  have "nat (s32 (q - s)) - nat (s32 (q - l)) = nat (s32 (l - s))"
    using e d True by auto
  then show ?thesis
    using True d e by (auto simp: window_defs Let_def bit_simps)
next
  case False
  have "\<not> s32 (q - s) < 0" if "batadv_test_bit b l s"
  proof -
    have "s32 (q - s) = s32 (l - s) - s32 (l - q)"
      using that d test_bit_range [OF that] s32_minus_swap [of q l]
      by (intro sint_diff_split) auto
    then show ?thesis using that d test_bit_range [OF that] s32_minus_swap [of q l] by auto
  qed
  with False show ?thesis using test_bit_range by fastforce
qed


lemma bit_get_packet_window_set:
  "case batadv_bit_get_packet seq_bits (s32 (seqno - last_seqno)) True of (bits', new) \<Rightarrow>
     window_set bits' (if new then seqno else last_seqno)
       = window_receive (window_set seq_bits last_seqno) last_seqno seqno"
proof -
  let ?d = "s32 (seqno - last_seqno)"
  have same: "s32 (last_seqno - s) = - ?d \<longleftrightarrow> s = seqno" if "- 64 < s32 (seqno - last_seqno)" for s
  proof -
    have "s32 (last_seqno - seqno) = - ?d"
      using that by (intro s32_minus_swap) auto
    then have "s32 (last_seqno - s) = - ?d \<longleftrightarrow> last_seqno - s = last_seqno - seqno"
      by (metis signed_word_eqI)
    then show ?thesis by simp
  qed
  consider "- 64 < ?d" "?d \<le> 0" | "0 < ?d" "?d < 64" | "64 \<le> ?d" | "?d \<le> - 64" by linarith
  then show ?thesis
  proof cases
    case 1
    then show ?thesis
      by (auto simp: same batadv_bit_get_packet_def window_set_def window_receive_def
          test_bit_set_bit BATADV_TQ_LOCAL_WINDOW_SIZE_def)
  next
    case 2
    then show ?thesis
      by (auto simp: batadv_bit_get_packet_def window_set_def window_receive_def Let_def
          test_bit_set_bit test_bit_shift s32_diff_zero_iff BATADV_TQ_LOCAL_WINDOW_SIZE_def)
  qed (auto simp: batadv_bit_get_packet_def window_set_def window_receive_def Let_def
          test_bit_set_bit s32_diff_zero_iff BATADV_TQ_LOCAL_WINDOW_SIZE_def)
qed


text \<open>
  C9: \<open>batadv_bit_get_packet\<close> implements the set of received sequence numbers.
  With the difference its callers compute, and the window moved to \<open>seqno\<close>
  exactly when it returns true, marking a packet gives \<open>window_receive\<close>.
\<close>

theorem bit_get_packet_window:
  "case batadv_bit_get_packet seq_bits (s32 (seqno - last_seqno)) True of (bits', new) \<Rightarrow>
     window_set bits' (if new then seqno else last_seqno)
       = window_receive (window_set seq_bits last_seqno) last_seqno seqno"
  by (rule bit_get_packet_window_set)

end
