(* ===== verification/Tvlv.thy ===== *)
theory Tvlv
  imports Packets
begin

text \<open>
  The TVLV engine of \<^verbatim>\<open>src/net/batman-adv/tvlv.c\<close>: the registry of containers that are
  appended to the node's own OGMs, the registry of handlers for received containers, the
  parser that walks a received TVLV buffer, and the unicast TVLV sender.

  A handler callback is a function on the state \<open>'s\<close> it may change (everything but the
  handler list itself); an originator is named by a value of type \<open>'o\<close>. A callback
  argument pair of pointer and length is the byte list it delimits, \<^verbatim>\<open>(NULL, 0)\<close> is
  \<open>[]\<close>. Reference counts keep objects alive during the calls and are not part of the
  state; lists are in the order of the code, newest entry first.
\<close>

section \<open>Containers\<close>

record batadv_tvlv_container =
  tvlv_hdr :: batadv_tvlv_hdr
  tvlv_data :: bytes

definition container_key :: "batadv_tvlv_container \<Rightarrow> u8 \<times> u8" where
  "container_key t = (tvlv_type (tvlv_hdr t), tvlv_version (tvlv_hdr t))"

definition batadv_tvlv_container_get ::
    "batadv_tvlv_container list \<Rightarrow> u8 \<Rightarrow> u8 \<Rightarrow> batadv_tvlv_container option" where
  "batadv_tvlv_container_get container_list type version =
     find (\<lambda>t. tvlv_type (tvlv_hdr t) = type \<and> tvlv_version (tvlv_hdr t) = version) container_list"

definition batadv_tvlv_container_list_size :: "batadv_tvlv_container list \<Rightarrow> u16" where
  "batadv_tvlv_container_list_size container_list =
     foldl (\<lambda>n t. n + 4 + tvlv_len (tvlv_hdr t)) 0 container_list"

text \<open>\<open>tvlv\<close> is the entry that \<^const>\<open>batadv_tvlv_container_get\<close> found.\<close>

definition batadv_tvlv_container_remove ::
    "batadv_tvlv_container list \<Rightarrow> batadv_tvlv_container option \<Rightarrow> batadv_tvlv_container list" where
  "batadv_tvlv_container_remove container_list tvlv =
     (case tvlv of None \<Rightarrow> container_list | Some t \<Rightarrow> remove1 t container_list)"

definition batadv_tvlv_container_unregister ::
    "u8 \<Rightarrow> u8 \<Rightarrow> batadv_tvlv_container list \<Rightarrow> batadv_tvlv_container list" where
  "batadv_tvlv_container_unregister type version container_list =
     batadv_tvlv_container_remove container_list
       (batadv_tvlv_container_get container_list type version)"

definition batadv_tvlv_container_register ::
    "bool \<Rightarrow> u8 \<Rightarrow> u8 \<Rightarrow> bytes option \<Rightarrow> u16
       \<Rightarrow> batadv_tvlv_container list \<Rightarrow> batadv_tvlv_container list" where
  "batadv_tvlv_container_register kzalloc_ok type version tvlv_value tvlv_value_len container_list =
     (let tvlv_value_len = (case tvlv_value of None \<Rightarrow> 0 | Some _ \<Rightarrow> tvlv_value_len);
          tvlv_new = \<lparr>tvlv_hdr = \<lparr>tvlv_type = type, tvlv_version = version, tvlv_len = tvlv_value_len\<rparr>,
                      tvlv_data = (case tvlv_value of None \<Rightarrow> []
                                   | Some v \<Rightarrow> take (unat tvlv_value_len) v)\<rparr> in
      if \<not> kzalloc_ok then container_list
      else let tvlv_old = batadv_tvlv_container_get container_list type version in
           tvlv_new # batadv_tvlv_container_remove container_list tvlv_old)"

section \<open>Appending the containers to an OGM buffer\<close>

text \<open>
  \<open>kmalloc n\<close> is the outcome of an allocation of \<open>n\<close> bytes: \<open>None\<close> when it fails, else
  the uninitialised buffer. The result is the success flag and the packet buffer.
\<close>

definition batadv_tvlv_realloc_packet_buff ::
    "(nat \<Rightarrow> bytes option) \<Rightarrow> bytes \<Rightarrow> nat \<Rightarrow> nat \<Rightarrow> (bool \<times> bytes) kresult" where
  "batadv_tvlv_realloc_packet_buff kmalloc packet_buff min_packet_len additional_packet_len =
     (case kmalloc (min_packet_len + additional_packet_len) of
        None \<Rightarrow> Kret (False, packet_buff)
      | Some new_buff \<Rightarrow>
          (case mem_write new_buff 0 (take min_packet_len packet_buff) of
             Kernel_bug \<Rightarrow> Kernel_bug
           | Kret b \<Rightarrow> Kret (True, b)))"

fun tvlv_write_containers ::
    "bytes \<Rightarrow> nat \<Rightarrow> batadv_tvlv_container list \<Rightarrow> bytes kresult" where
  "tvlv_write_containers packet_buff off [] = Kret packet_buff"
| "tvlv_write_containers packet_buff off (t # ts) =
     (case mem_write packet_buff off (tvlv_hdr_bytes (tvlv_hdr t)) of
        Kernel_bug \<Rightarrow> Kernel_bug
      | Kret b \<Rightarrow>
          (case mem_write b (off + 4) (take (unat (tvlv_len (tvlv_hdr t))) (tvlv_data t)) of
             Kernel_bug \<Rightarrow> Kernel_bug
           | Kret b' \<Rightarrow>
               tvlv_write_containers b' (off + 4 + unat (tvlv_len (tvlv_hdr t))) ts))"

definition batadv_tvlv_container_ogm_append ::
    "(nat \<Rightarrow> bytes option) \<Rightarrow> batadv_tvlv_container list \<Rightarrow> bytes \<Rightarrow> nat
       \<Rightarrow> (u16 \<times> bytes) kresult" where
  "batadv_tvlv_container_ogm_append kmalloc container_list packet_buff packet_min_len =
     (let tvlv_value_len = batadv_tvlv_container_list_size container_list in
      case batadv_tvlv_realloc_packet_buff kmalloc packet_buff packet_min_len
             (unat tvlv_value_len) of
        Kernel_bug \<Rightarrow> Kernel_bug
      | Kret (ret, packet_buff) \<Rightarrow>
          if \<not> ret then Kret (tvlv_value_len, packet_buff)
          else if tvlv_value_len = 0 then Kret (tvlv_value_len, packet_buff)
          else (case tvlv_write_containers packet_buff packet_min_len container_list of
                  Kernel_bug \<Rightarrow> Kernel_bug
                | Kret b \<Rightarrow> Kret (tvlv_value_len, b)))"

section \<open>Handlers\<close>

definition BATADV_TVLV_HANDLER_OGM_CIFNOTFND :: u8 where "BATADV_TVLV_HANDLER_OGM_CIFNOTFND = 2"
definition BATADV_TVLV_HANDLER_OGM_CALLED :: u8 where "BATADV_TVLV_HANDLER_OGM_CALLED = 4"

text \<open>
  The multicast callback receives the packet with its network header at the container's
  value and its transport header behind it, as offsets from \<^verbatim>\<open>skb->data\<close>.
\<close>

record ('o, 's) batadv_tvlv_handler =
  ogm_handler :: "('o option \<Rightarrow> u8 \<Rightarrow> bytes \<Rightarrow> 's \<Rightarrow> 's) option"
  unicast_handler :: "(mac \<Rightarrow> mac \<Rightarrow> bytes \<Rightarrow> 's \<Rightarrow> int \<times> 's) option"
  mcast_handler :: "(sk_buff \<Rightarrow> nat \<Rightarrow> nat \<Rightarrow> 's \<Rightarrow> int \<times> 's) option"
  th_type :: u8
  th_version :: u8
  th_flags :: u8

definition batadv_tvlv_handler_get ::
    "('o, 's) batadv_tvlv_handler list \<Rightarrow> u8 \<Rightarrow> u8 \<Rightarrow> ('o, 's) batadv_tvlv_handler option" where
  "batadv_tvlv_handler_get handler_list type version =
     find (\<lambda>h. th_type h = type \<and> th_version h = version) handler_list"

definition batadv_tvlv_handler_register ::
    "bool \<Rightarrow> ('o option \<Rightarrow> u8 \<Rightarrow> bytes \<Rightarrow> 's \<Rightarrow> 's) option
      \<Rightarrow> (mac \<Rightarrow> mac \<Rightarrow> bytes \<Rightarrow> 's \<Rightarrow> int \<times> 's) option
      \<Rightarrow> (sk_buff \<Rightarrow> nat \<Rightarrow> nat \<Rightarrow> 's \<Rightarrow> int \<times> 's) option \<Rightarrow> u8 \<Rightarrow> u8 \<Rightarrow> u8
      \<Rightarrow> ('o, 's) batadv_tvlv_handler list \<Rightarrow> ('o, 's) batadv_tvlv_handler list" where
  "batadv_tvlv_handler_register kzalloc_ok optr uptr mptr type version flags handler_list =
     (case batadv_tvlv_handler_get handler_list type version of
        Some _ \<Rightarrow> handler_list
      | None \<Rightarrow>
          if \<not> kzalloc_ok then handler_list
          else \<lparr>ogm_handler = optr, unicast_handler = uptr, mcast_handler = mptr,
                th_type = type, th_version = version, th_flags = flags\<rparr> # handler_list)"

definition batadv_tvlv_handler_unregister ::
    "u8 \<Rightarrow> u8 \<Rightarrow> ('o, 's) batadv_tvlv_handler list \<Rightarrow> ('o, 's) batadv_tvlv_handler list" where
  "batadv_tvlv_handler_unregister type version handler_list =
     (case batadv_tvlv_handler_get handler_list type version of
        None \<Rightarrow> handler_list
      | Some _ \<Rightarrow>
          hlist_del_first (\<lambda>h. th_type h = type \<and> th_version h = version) handler_list)"

section \<open>Processing a received TVLV buffer\<close>

text \<open>
  \<open>tvlv_handler\<close> is the entry \<^const>\<open>batadv_tvlv_handler_get\<close> found in \<open>hs\<close>; \<open>off\<close> is the
  offset of the value from \<^verbatim>\<open>skb->data\<close>.
\<close>

definition tvlv_mark_called ::
    "('o, 's) batadv_tvlv_handler \<Rightarrow> ('o, 's) batadv_tvlv_handler list
      \<Rightarrow> ('o, 's) batadv_tvlv_handler list" where
  "tvlv_mark_called h hs =
     hlist_upd_first (\<lambda>g. th_type g = th_type h \<and> th_version g = th_version h)
       (\<lambda>g. g\<lparr>th_flags := th_flags g OR BATADV_TVLV_HANDLER_OGM_CALLED\<rparr>) hs"

definition batadv_tvlv_call_handler ::
    "('o, 's) batadv_tvlv_handler option \<Rightarrow> u8 \<Rightarrow> 'o option \<Rightarrow> sk_buff option \<Rightarrow> nat \<Rightarrow> bytes
      \<Rightarrow> ('o, 's) batadv_tvlv_handler list \<Rightarrow> 's
      \<Rightarrow> int \<times> ('o, 's) batadv_tvlv_handler list \<times> 's" where
  "batadv_tvlv_call_handler tvlv_handler packet_type orig_node skb off tvlv_value hs s =
     (case tvlv_handler of
        None \<Rightarrow> (NET_RX_SUCCESS, hs, s)
      | Some h \<Rightarrow>
          if packet_type = BATADV_IV_OGM \<or> packet_type = BATADV_OGM2 then
            (case ogm_handler h of
               None \<Rightarrow> (NET_RX_SUCCESS, hs, s)
             | Some ogm_h \<Rightarrow>
                 if orig_node = None then (NET_RX_SUCCESS, hs, s)
                 else (NET_RX_SUCCESS, tvlv_mark_called h hs,
                       ogm_h orig_node BATADV_NO_FLAGS tvlv_value s))
          else if packet_type = BATADV_UNICAST_TVLV then
            (case skb of
               None \<Rightarrow> (NET_RX_SUCCESS, hs, s)
             | Some skb \<Rightarrow>
                 (case unicast_handler h of
                    None \<Rightarrow> (NET_RX_SUCCESS, hs, s)
                  | Some unicast_h \<Rightarrow>
                      let p = get_unicast_tvlv_packet (skb_data skb);
                          (ret, s') = unicast_h (utvlv_src p) (utvlv_dst p) tvlv_value s in
                      (ret, hs, s')))
          else if packet_type = BATADV_MCAST then
            (case skb of
               None \<Rightarrow> (NET_RX_SUCCESS, hs, s)
             | Some skb \<Rightarrow>
                 (case mcast_handler h of
                    None \<Rightarrow> (NET_RX_SUCCESS, hs, s)
                  | Some mcast_h \<Rightarrow>
                      let (ret, s') = mcast_h skb off (off + length tvlv_value) s in
                      (ret, hs, s')))
          else (NET_RX_SUCCESS, hs, s))"

lemma unat_sub_header: "4 \<le> unat (len :: u16) \<Longrightarrow> unat (len - 4) = unat len - 4"
  by (simp add: unat_sub word_le_nat_alt)

lemma tvlv_loop_decreases:
  fixes len cont :: u16
  assumes "4 \<le> unat len" and "\<not> len - 4 < cont"
  shows "unat (len - 4 - cont) < unat len"
  using assms unat_sub_header [of len] unat_sub [of cont "len - 4"] by simp

text \<open>The parse loop: \<open>buf\<close> is the memory from the current position on.\<close>

function tvlv_process_loop ::
    "u8 \<Rightarrow> 'o option \<Rightarrow> sk_buff option \<Rightarrow> nat \<Rightarrow> bytes \<Rightarrow> u16 \<Rightarrow> int
      \<Rightarrow> ('o, 's) batadv_tvlv_handler list \<Rightarrow> 's
      \<Rightarrow> int \<times> ('o, 's) batadv_tvlv_handler list \<times> 's" where
  "tvlv_process_loop packet_type orig_node skb off buf tvlv_value_len ret hs s =
     (if 4 \<le> unat tvlv_value_len then
        let hdr = get_tvlv_hdr buf;
            tvlv_value_cont_len = tvlv_len hdr;
            value = drop 4 buf;
            len' = tvlv_value_len - 4 in
        if len' < tvlv_value_cont_len then (ret, hs, s)
        else
          let (r, hs', s') = batadv_tvlv_call_handler
                (batadv_tvlv_handler_get hs (tvlv_type hdr) (tvlv_version hdr))
                packet_type orig_node skb (off + 4) (take (unat tvlv_value_cont_len) value) hs s in
          tvlv_process_loop packet_type orig_node skb (off + 4 + unat tvlv_value_cont_len)
            (drop (unat tvlv_value_cont_len) value) (len' - tvlv_value_cont_len) (ret OR r) hs' s'
      else (ret, hs, s))"
  by pat_completeness auto
termination
  by (relation "measure (\<lambda>(_, _, _, _, _, len, _). unat len)")
    (auto intro: tvlv_loop_decreases)

text \<open>The second loop of an OGM: handlers that ask to be told of missing containers.\<close>

fun tvlv_notfound_loop ::
    "'o option \<Rightarrow> ('o, 's) batadv_tvlv_handler list \<Rightarrow> 's
      \<Rightarrow> ('o, 's) batadv_tvlv_handler list \<times> 's" where
  "tvlv_notfound_loop orig_node [] s = ([], s)"
| "tvlv_notfound_loop orig_node (h # hs) s =
     (let (h', s') =
        (case ogm_handler h of
           None \<Rightarrow> (h, s)
         | Some ogm_h \<Rightarrow>
             (h\<lparr>th_flags := th_flags h AND NOT BATADV_TVLV_HANDLER_OGM_CALLED\<rparr>,
              if th_flags h AND BATADV_TVLV_HANDLER_OGM_CIFNOTFND \<noteq> 0
                \<and> th_flags h AND BATADV_TVLV_HANDLER_OGM_CALLED = 0
              then ogm_h orig_node BATADV_TVLV_HANDLER_OGM_CIFNOTFND [] s else s));
          (hs', s'') = tvlv_notfound_loop orig_node hs s' in
      (h' # hs', s''))"

definition batadv_tvlv_containers_process ::
    "u8 \<Rightarrow> 'o option \<Rightarrow> sk_buff option \<Rightarrow> nat \<Rightarrow> bytes \<Rightarrow> u16
      \<Rightarrow> ('o, 's) batadv_tvlv_handler list \<Rightarrow> 's
      \<Rightarrow> int \<times> ('o, 's) batadv_tvlv_handler list \<times> 's" where
  "batadv_tvlv_containers_process packet_type orig_node skb off tvlv_value tvlv_value_len hs s =
     (let (ret, hs', s') = tvlv_process_loop packet_type orig_node skb off tvlv_value
                              tvlv_value_len NET_RX_SUCCESS hs s in
      if packet_type \<noteq> BATADV_IV_OGM \<and> packet_type \<noteq> BATADV_OGM2 then (ret, hs', s')
      else let (hs'', s'') = tvlv_notfound_loop orig_node hs' s' in
           (NET_RX_SUCCESS, hs'', s''))"

text \<open>The OGM is its announced TVLV length and the memory behind its header.\<close>

definition batadv_tvlv_ogm_receive ::
    "(u16 \<times> bytes) option \<Rightarrow> 'o option \<Rightarrow> ('o, 's) batadv_tvlv_handler list \<Rightarrow> 's
      \<Rightarrow> ('o, 's) batadv_tvlv_handler list \<times> 's" where
  "batadv_tvlv_ogm_receive batadv_ogm_packet orig_node hs s =
     (case batadv_ogm_packet of
        None \<Rightarrow> (hs, s)
      | Some (tvlv_value_len, tvlv_value) \<Rightarrow>
          if tvlv_value_len = 0 then (hs, s)
          else snd (batadv_tvlv_containers_process BATADV_IV_OGM orig_node None 0
                      tvlv_value tvlv_value_len hs s))"

section \<open>Sending a unicast TVLV packet\<close>

definition TC_PRIO_CONTROL :: u32 where "TC_PRIO_CONTROL = 7"

text \<open>
  \<open>orig_found\<close> is the outcome of \<^verbatim>\<open>batadv_orig_hash_find\<close> and \<open>alloc_ok\<close> of the buffer
  allocation; the result is the packet handed to \<^verbatim>\<open>batadv_send_skb_to_orig\<close>, if any. The MAC
  header is not written yet.
\<close>

definition batadv_tvlv_unicast_send ::
    "bool \<Rightarrow> bool \<Rightarrow> mac \<Rightarrow> mac \<Rightarrow> u8 \<Rightarrow> u8 \<Rightarrow> bytes \<Rightarrow> u16 \<Rightarrow> sk_buff option" where
  "batadv_tvlv_unicast_send orig_found alloc_ok src dst type version tvlv_value tvlv_value_len =
     (if \<not> orig_found then None
      else if \<not> alloc_ok then None
      else
        let tlen = 4 + unat tvlv_value_len;
            p = \<lparr>utvlv_packet_type = BATADV_UNICAST_TVLV, utvlv_version = BATADV_COMPAT_VERSION,
                 utvlv_ttl = BATADV_TTL, utvlv_reserved = 0, utvlv_dst = dst, utvlv_src = src,
                 utvlv_tvlv_len = of_nat tlen, utvlv_align = 0\<rparr>;
            h = \<lparr>tvlv_type = type, tvlv_version = version, tvlv_len = tvlv_value_len\<rparr> in
        Some \<lparr>h_dest = Mac 0 0 0 0 0 0, h_source = Mac 0 0 0 0 0 0,
              skb_data = unicast_tvlv_packet_bytes p @ tvlv_hdr_bytes h
                @ take (unat tvlv_value_len) tvlv_value,
              skb_priority = TC_PRIO_CONTROL\<rparr>)"

lemma remove1_find: "find P xs = Some x \<Longrightarrow> remove1 x xs = hlist_del_first P xs"
  by (induction xs) (auto split: if_splits dest: find_key_SomeD)

lemma container_get_key:
  "batadv_tvlv_container_get cl type version = find (\<lambda>t. container_key t = (type, version)) cl"
  by (simp add: batadv_tvlv_container_get_def container_key_def)

lemma container_remove_get:
  "batadv_tvlv_container_remove cl (batadv_tvlv_container_get cl type version) =
     hlist_del_first (\<lambda>t. container_key t = (type, version)) cl"
  by (auto simp: container_get_key batadv_tvlv_container_remove_def remove1_find
      hlist_del_first_none split: option.splits)

lemma container_key_make [simp]:
  "container_key \<lparr>tvlv_hdr = \<lparr>tvlv_type = a, tvlv_version = b, tvlv_len = l\<rparr>, tvlv_data = d\<rparr> = (a, b)"
  by (simp add: container_key_def)

lemma container_unregister_key:
  "batadv_tvlv_container_unregister type version cl =
     hlist_del_first (\<lambda>t. container_key t = (type, version)) cl"
  by (simp add: batadv_tvlv_container_unregister_def container_remove_get)

text \<open>The container list: one container per type and version, each with its announced length.\<close>

definition container_wf :: "batadv_tvlv_container \<Rightarrow> bool" where
  "container_wf t \<longleftrightarrow> length (tvlv_data t) = unat (tvlv_len (tvlv_hdr t))"

definition containers_inv :: "batadv_tvlv_container list \<Rightarrow> bool" where
  "containers_inv cl \<longleftrightarrow> distinct (map container_key cl) \<and> list_all container_wf cl"

definition container_lookup :: "batadv_tvlv_container list \<Rightarrow> u8 \<times> u8 \<Rightarrow> bytes option" where
  "container_lookup cl k =
     map_option tvlv_data (batadv_tvlv_container_get cl (fst k) (snd k))"

definition container_store ::
    "u8 \<times> u8 \<Rightarrow> bytes \<Rightarrow> batadv_tvlv_container list \<Rightarrow> batadv_tvlv_container list" where
  "container_store k v cl =
     (if length v < 2 ^ 16
      then batadv_tvlv_container_register True (fst k) (snd k) (Some v) (of_nat (length v)) cl
      else cl)"

definition container_erase ::
    "u8 \<times> u8 \<Rightarrow> batadv_tvlv_container list \<Rightarrow> batadv_tvlv_container list" where
  "container_erase k = batadv_tvlv_container_unregister (fst k) (snd k)"

lemma container_register_unfold:
  "batadv_tvlv_container_register True type version (Some v) len cl =
     \<lparr>tvlv_hdr = \<lparr>tvlv_type = type, tvlv_version = version, tvlv_len = len\<rparr>,
      tvlv_data = take (unat len) v\<rparr>
     # hlist_del_first (\<lambda>t. container_key t = (type, version)) cl"
  by (simp add: batadv_tvlv_container_register_def container_remove_get Let_def)


lemma unat_of_nat_u16: "n < 2 ^ 16 \<Longrightarrow> unat (of_nat n :: u16) = n"
  by (simp add: unsigned_of_nat take_bit_nat_eq_self)

interpretation containers: registry containers_inv container_lookup container_store
    container_erase "\<lambda>m k v. length v < 2 ^ 16"
proof
  fix s k v
  assume inv: "containers_inv s"
  show "containers_inv (container_store k v s)"
    using inv del_first_keys [of container_key s k]
    by (auto simp: containers_inv_def container_store_def container_register_unfold distinct_keys_del
        list_all_hlist_del_first container_wf_def container_key_def unat_of_nat_u16)
  show "containers_inv (container_erase k s)"
    using inv
    by (auto simp: containers_inv_def container_erase_def container_unregister_key
        distinct_keys_del list_all_hlist_del_first)
  have d: "distinct (map container_key s)"
    using inv by (simp add: containers_inv_def)
  show "container_lookup (container_store k v s) =
      (if length v < 2 ^ 16 then (container_lookup s)(k \<mapsto> v) else container_lookup s)"
    using d
    by (auto simp: fun_eq_iff container_lookup_def container_store_def container_register_unfold
        container_get_key find_key_del_first unat_of_nat_u16)
  show "container_lookup (container_erase k s) = (container_lookup s)(k := None)"
    using d
    by (auto simp: fun_eq_iff container_lookup_def container_erase_def container_get_key
        container_unregister_key find_key_del_first)
qed

definition handler_key :: "('o, 's) batadv_tvlv_handler \<Rightarrow> u8 \<times> u8" where
  "handler_key h = (th_type h, th_version h)"

definition handlers_inv :: "('o, 's) batadv_tvlv_handler list \<Rightarrow> bool" where
  "handlers_inv hs \<longleftrightarrow> distinct (map handler_key hs)"

definition handler_lookup ::
    "('o, 's) batadv_tvlv_handler list \<Rightarrow> u8 \<times> u8 \<Rightarrow> ('o, 's) batadv_tvlv_handler option" where
  "handler_lookup hs k = batadv_tvlv_handler_get hs (fst k) (snd k)"

definition handler_store ::
    "u8 \<times> u8 \<Rightarrow> ('o, 's) batadv_tvlv_handler
      \<Rightarrow> ('o, 's) batadv_tvlv_handler list \<Rightarrow> ('o, 's) batadv_tvlv_handler list" where
  "handler_store k h =
     (if handler_key h = k
      then batadv_tvlv_handler_register True (ogm_handler h) (unicast_handler h) (mcast_handler h)
        (fst k) (snd k) (th_flags h)
      else id)"

definition handler_erase ::
    "u8 \<times> u8 \<Rightarrow> ('o, 's) batadv_tvlv_handler list \<Rightarrow> ('o, 's) batadv_tvlv_handler list" where
  "handler_erase k = batadv_tvlv_handler_unregister (fst k) (snd k)"

lemma handler_get_key:
  "batadv_tvlv_handler_get hs type version = find (\<lambda>h. handler_key h = (type, version)) hs"
  by (simp add: batadv_tvlv_handler_get_def handler_key_def)

lemma handler_unregister_key:
  "batadv_tvlv_handler_unregister type version hs =
     hlist_del_first (\<lambda>h. handler_key h = (type, version)) hs"
  by (auto simp: batadv_tvlv_handler_unregister_def batadv_tvlv_handler_get_def handler_key_def
      hlist_del_first_none split: option.splits)

interpretation handlers: registry handlers_inv handler_lookup handler_store handler_erase
    "\<lambda>m k h. handler_key h = k \<and> m k = None"
proof
  fix s :: "('o, 's) batadv_tvlv_handler list" and k v
  assume inv: "handlers_inv s"
  show "handlers_inv (handler_store k v s)"
    using inv
    by (auto simp: handlers_inv_def handler_store_def batadv_tvlv_handler_register_def
        handler_get_key handler_key_def find_None_iff split: option.splits)
  show "handlers_inv (handler_erase k s)"
    using inv
    by (simp add: handlers_inv_def handler_erase_def handler_unregister_key distinct_keys_del)
  show "handler_lookup (handler_store k v s) =
      (if handler_key v = k \<and> handler_lookup s k = None then (handler_lookup s)(k \<mapsto> v)
       else handler_lookup s)"
    by (auto simp: fun_eq_iff handler_lookup_def handler_store_def handler_get_key
        batadv_tvlv_handler_register_def handler_key_def split: option.splits)
  show "handler_lookup (handler_erase k s) = (handler_lookup s)(k := None)"
    using inv
    by (auto simp: fun_eq_iff handlers_inv_def handler_lookup_def handler_erase_def handler_get_key
        handler_unregister_key find_key_del_first)
qed

section \<open>The parser against a reference\<close>

text \<open>The containers of a byte string, up to the first one that is cut short.\<close>

function tvlv_parse :: "bytes \<Rightarrow> (batadv_tvlv_hdr \<times> bytes) list" where
  "tvlv_parse buf =
     (if length buf < 4 then []
      else let hdr = get_tvlv_hdr buf; n = unat (tvlv_len hdr) in
        if length buf < 4 + n then []
        else (hdr, take n (drop 4 buf)) # tvlv_parse (drop (4 + n) buf))"
  by pat_completeness auto
termination by (relation "measure length") auto

declare tvlv_process_loop.simps [simp del] tvlv_parse.simps [simp del]

fun tvlv_call_all ::
    "u8 \<Rightarrow> 'o option \<Rightarrow> sk_buff option \<Rightarrow> nat \<Rightarrow> (batadv_tvlv_hdr \<times> bytes) list \<Rightarrow> int
      \<Rightarrow> ('o, 's) batadv_tvlv_handler list \<Rightarrow> 's
      \<Rightarrow> int \<times> ('o, 's) batadv_tvlv_handler list \<times> 's" where
  "tvlv_call_all packet_type orig_node skb off [] ret hs s = (ret, hs, s)"
| "tvlv_call_all packet_type orig_node skb off ((hdr, value) # items) ret hs s =
     (let (r, hs', s') = batadv_tvlv_call_handler
            (batadv_tvlv_handler_get hs (tvlv_type hdr) (tvlv_version hdr))
            packet_type orig_node skb (off + 4) value hs s in
      tvlv_call_all packet_type orig_node skb (off + 4 + length value) items (ret OR r) hs' s')"

lemma get_tvlv_hdr_take: "4 \<le> n \<Longrightarrow> 4 \<le> length buf \<Longrightarrow> get_tvlv_hdr (take n buf) = get_tvlv_hdr buf"
  by (simp add: get_tvlv_hdr_def get_be16_def drop_take)

lemma unat_sub2:
  fixes len cont :: u16
  assumes "4 \<le> unat len" and "\<not> len - 4 < cont"
  shows "unat (len - 4 - cont) = unat len - 4 - unat cont" and "4 + unat cont \<le> unat len"
  using assms unat_sub_header [of len] unat_sub [of cont "len - 4"]
  by (simp_all add: word_le_nat_alt not_less)

lemma tvlv_process_loop_parse:
  assumes "unat len \<le> length buf"
  shows "tvlv_process_loop packet_type orig_node skb off buf len ret hs s =
           tvlv_call_all packet_type orig_node skb off (tvlv_parse (take (unat len) buf)) ret hs s"
  using assms
proof (induction packet_type orig_node skb off buf len ret hs s rule: tvlv_process_loop.induct)
  case (1 packet_type orig_node skb off buf len ret hs s)
  define hdr where "hdr = get_tvlv_hdr buf"
  consider (short) "unat len < 4" | (cut) "4 \<le> unat len" "len - 4 < tvlv_len hdr"
    | (item) "4 \<le> unat len" "\<not> len - 4 < tvlv_len hdr" by linarith
  then show ?case
  proof cases
    case short
    then have "tvlv_parse (take (unat len) buf) = []"
      by (subst tvlv_parse.simps) (simp add: min_less_iff_disj)
    with short show ?thesis by (simp add: tvlv_process_loop.simps [of _ _ _ _ _ len])
  next
    case cut
    then have "\<not> 4 + unat (tvlv_len hdr) \<le> unat len"
      using unat_sub_header [of len] by (simp add: word_less_nat_alt)
    then have "tvlv_parse (take (unat len) buf) = []"
      using cut 1(2) by (subst tvlv_parse.simps)
        (simp add: get_tvlv_hdr_take Let_def hdr_def [symmetric])
    then show ?thesis
      using cut by (simp add: tvlv_process_loop.simps [of _ _ _ _ _ len] hdr_def Let_def)
  next
    case item
    note u = unat_sub2 [OF item]
    have p: "tvlv_parse (take (unat len) buf) =
        (hdr, take (unat (tvlv_len hdr)) (drop 4 buf))
        # tvlv_parse (take (unat (len - 4 - tvlv_len hdr)) (drop (unat (tvlv_len hdr)) (drop 4 buf)))"
      using item u 1(2)
      by (subst tvlv_parse.simps)
        (simp add: get_tvlv_hdr_take Let_def hdr_def [symmetric] drop_take add.commute min_def)
    obtain r hs' s' where c: "batadv_tvlv_call_handler
        (batadv_tvlv_handler_get hs (tvlv_type hdr) (tvlv_version hdr)) packet_type orig_node skb
        (off + 4) (take (unat (tvlv_len hdr)) (drop 4 buf)) hs s = (r, hs', s')"
      by (metis prod_cases3)
    have IH: "tvlv_process_loop packet_type orig_node skb (off + 4 + unat (tvlv_len hdr))
          (drop (unat (tvlv_len hdr)) (drop 4 buf)) (len - 4 - tvlv_len hdr) (ret OR r) hs' s' =
        tvlv_call_all packet_type orig_node skb (off + 4 + unat (tvlv_len hdr))
          (tvlv_parse (take (unat (len - 4 - tvlv_len hdr))
             (drop (unat (tvlv_len hdr)) (drop 4 buf)))) (ret OR r) hs' s'"
      by (rule "1.IH" [OF item(1) hdr_def refl refl refl item(2) c [symmetric] refl])
        (simp, simp only: u(1) length_drop, use 1(2) in linarith)
    have l: "length (take (unat (tvlv_len hdr)) (drop 4 buf)) = unat (tvlv_len hdr)"
      using u 1(2) by simp
    show ?thesis
      using item c IH l p
      by (subst tvlv_process_loop.simps) (simp add: hdr_def [symmetric] Let_def)
  qed
qed

section \<open>Delivery of an OGM's containers\<close>

text \<open>
  The reference: every container goes to the handler of its type and version, then every
  handler that asked for it and got no container is told so.
\<close>

definition ogm_deliver ::
    "('o, 's) batadv_tvlv_handler list \<Rightarrow> 'o \<Rightarrow> 's \<Rightarrow> batadv_tvlv_hdr \<times> bytes \<Rightarrow> 's" where
  "ogm_deliver hs orig s item =
     (case batadv_tvlv_handler_get hs (tvlv_type (fst item)) (tvlv_version (fst item)) of
        None \<Rightarrow> s
      | Some h \<Rightarrow> (case ogm_handler h of None \<Rightarrow> s
                   | Some f \<Rightarrow> f (Some orig) BATADV_NO_FLAGS (snd item) s))"

definition ogm_notify ::
    "(u8 \<times> u8) set \<Rightarrow> 'o option \<Rightarrow> 's \<Rightarrow> ('o, 's) batadv_tvlv_handler \<Rightarrow> 's" where
  "ogm_notify seen orig s h =
     (case ogm_handler h of None \<Rightarrow> s
      | Some f \<Rightarrow> if th_flags h AND BATADV_TVLV_HANDLER_OGM_CIFNOTFND \<noteq> 0 \<and> handler_key h \<notin> seen
                  then f orig BATADV_TVLV_HANDLER_OGM_CIFNOTFND [] s else s)"

definition item_key :: "batadv_tvlv_hdr \<times> bytes \<Rightarrow> u8 \<times> u8" where
  "item_key it = (tvlv_type (fst it), tvlv_version (fst it))"

definition handlers_idle :: "('o, 's) batadv_tvlv_handler list \<Rightarrow> bool" where
  "handlers_idle hs \<longleftrightarrow> list_all (\<lambda>h. th_flags h AND BATADV_TVLV_HANDLER_OGM_CALLED = 0) hs"

definition marked ::
    "(u8 \<times> u8) set \<Rightarrow> ('o, 's) batadv_tvlv_handler list \<Rightarrow> ('o, 's) batadv_tvlv_handler list" where
  "marked K hs = map (\<lambda>h. if handler_key h \<in> K \<and> ogm_handler h \<noteq> None
      then h\<lparr>th_flags := th_flags h OR BATADV_TVLV_HANDLER_OGM_CALLED\<rparr> else h) hs"

lemma handler_key_flags [simp]: "handler_key (h\<lparr>th_flags := f\<rparr>) = handler_key h"
  by (simp add: handler_key_def)

lemma find_marked:
  "find (\<lambda>h. handler_key h = k) (marked K hs) =
     map_option (\<lambda>h. if k \<in> K \<and> ogm_handler h \<noteq> None
        then h\<lparr>th_flags := th_flags h OR BATADV_TVLV_HANDLER_OGM_CALLED\<rparr> else h)
       (find (\<lambda>h. handler_key h = k) hs)"
  by (induction hs) (auto simp: marked_def)

lemma mark_called_marked:
  assumes "distinct (map handler_key hs)" and "find (\<lambda>h. handler_key h = k) hs = Some h"
    and "ogm_handler h \<noteq> None" and "handler_key g = k"
  shows "tvlv_mark_called g (marked K hs) = marked (insert k K) hs"
  using assms
proof (induction hs)
  case (Cons x xs)
  have key: "(th_type y = th_type g \<and> th_version y = th_version g) = (handler_key y = k)" for y
    using Cons.prems(4) by (auto simp: handler_key_def)
  show ?case
  proof (cases "handler_key x = k")
    case True
    then have "marked (insert k K) xs = marked K xs"
      using Cons.prems(1) by (fastforce simp: marked_def image_iff)
    then show ?thesis
      using True Cons.prems by (auto simp: tvlv_mark_called_def key marked_def)
  next
    case False
    then show ?thesis
      using Cons by (auto simp: tvlv_mark_called_def key marked_def)
  qed
qed simp

lemma call_handler_ogm:
  assumes "handlers_inv hs" and "packet_type = BATADV_IV_OGM \<or> packet_type = BATADV_OGM2"
  shows "batadv_tvlv_call_handler
           (batadv_tvlv_handler_get (marked K hs) (tvlv_type hdr) (tvlv_version hdr))
           packet_type (Some orig) skb off value (marked K hs) s =
         (0, marked (insert (item_key (hdr, value)) K) hs, ogm_deliver hs orig s (hdr, value))"
proof -
  define k where "k = item_key (hdr, value)"
  have get: "batadv_tvlv_handler_get xs (tvlv_type hdr) (tvlv_version hdr) =
      find (\<lambda>h. handler_key h = k) xs" for xs :: "('a, 'b) batadv_tvlv_handler list"
    by (simp add: handler_get_key k_def item_key_def)
  have skip: "marked (insert k K) hs = marked K hs"
    if "\<And>h. h \<in> set hs \<Longrightarrow> handler_key h = k \<Longrightarrow> ogm_handler h = None"
    using that by (auto simp: marked_def)
  show ?thesis
  proof (cases "find (\<lambda>h. handler_key h = k) hs")
    case None
    then have "marked (insert k K) hs = marked K hs"
      using skip by (auto simp: find_None_iff)
    with None show ?thesis
      by (simp add: get batadv_tvlv_call_handler_def find_marked ogm_deliver_def
          k_def [symmetric] NET_RX_SUCCESS_def)
  next
    case (Some h)
    have uniq: "g = h" if "g \<in> set hs" "handler_key g = k" for g
      using that assms(1) find_key_SomeD [OF Some]
      by (metis handlers_inv_def distinct_map inj_on_def)
    have key: "handler_key h = k" using find_key_SomeD [OF Some] by simp
    show ?thesis
    proof (cases "ogm_handler h")
      case None
      with uniq have "marked (insert k K) hs = marked K hs" using skip by blast
      with None Some assms(2) show ?thesis
        by (auto simp: get batadv_tvlv_call_handler_def find_marked ogm_deliver_def
            k_def [symmetric] NET_RX_SUCCESS_def)
    next
      case (Some f)
      with \<open>find _ hs = Some h\<close> assms key mark_called_marked [of hs k h _ K] show ?thesis
        by (auto simp: get batadv_tvlv_call_handler_def find_marked ogm_deliver_def
            k_def [symmetric] NET_RX_SUCCESS_def handlers_inv_def)
    qed
  qed
qed

lemma call_all_ogm:
  assumes "handlers_inv hs" and "packet_type = BATADV_IV_OGM \<or> packet_type = BATADV_OGM2"
  shows "tvlv_call_all packet_type (Some orig) skb off items ret (marked K hs) s =
           (ret, marked (item_key ` set items \<union> K) hs, foldl (ogm_deliver hs orig) s items)"
proof (induction items arbitrary: off ret K s)
  case (Cons it items)
  obtain hdr val where it: "it = (hdr, val)" by (cases it)
  show ?case
    by (simp add: it call_handler_ogm [OF assms] Cons.IH)
qed simp

lemma called_bits:
  fixes f :: u8
  assumes "f AND BATADV_TVLV_HANDLER_OGM_CALLED = 0"
  shows "(f OR BATADV_TVLV_HANDLER_OGM_CALLED) AND NOT BATADV_TVLV_HANDLER_OGM_CALLED = f"
    and "f AND NOT BATADV_TVLV_HANDLER_OGM_CALLED = f"
    and "(f OR BATADV_TVLV_HANDLER_OGM_CALLED) AND BATADV_TVLV_HANDLER_OGM_CALLED \<noteq> 0"
    and "(f OR BATADV_TVLV_HANDLER_OGM_CALLED) AND BATADV_TVLV_HANDLER_OGM_CIFNOTFND =
         f AND BATADV_TVLV_HANDLER_OGM_CIFNOTFND"
proof -
  let ?c = "BATADV_TVLV_HANDLER_OGM_CALLED"
  show 2: "f AND NOT ?c = f"
    using assms by (auto simp: bit_eq_iff bit_simps)
  then show "(f OR ?c) AND NOT ?c = f"
    by (simp add: bit.conj_disj_distrib2)
  show "(f OR ?c) AND ?c \<noteq> 0"
    by (simp add: bit.conj_disj_distrib2 assms BATADV_TVLV_HANDLER_OGM_CALLED_def)
  show "(f OR ?c) AND BATADV_TVLV_HANDLER_OGM_CIFNOTFND = f AND BATADV_TVLV_HANDLER_OGM_CIFNOTFND"
    by (simp add: bit.conj_disj_distrib2 BATADV_TVLV_HANDLER_OGM_CALLED_def
        BATADV_TVLV_HANDLER_OGM_CIFNOTFND_def)
qed

lemma notfound_loop_marked:
  assumes "handlers_idle hs"
  shows "tvlv_notfound_loop orig (marked K hs) s = (hs, foldl (ogm_notify K orig) s hs)"
  using assms
proof (induction hs arbitrary: s)
  case (Cons h hs)
  then have idle: "th_flags h AND BATADV_TVLV_HANDLER_OGM_CALLED = 0" and "handlers_idle hs"
    by (simp_all add: handlers_idle_def)
  then show ?case
    using Cons.IH called_bits [OF idle]
    by (auto simp: marked_def ogm_notify_def split: option.splits)
qed (simp add: marked_def)

lemma marked_empty: "marked {} hs = hs"
  by (simp add: marked_def)

lemma containers_process_ogm:
  assumes "handlers_inv hs" and "handlers_idle hs" and "unat len \<le> length buf"
    and "packet_type = BATADV_IV_OGM \<or> packet_type = BATADV_OGM2"
  shows "batadv_tvlv_containers_process packet_type (Some orig) skb off buf len hs s =
           (let items = tvlv_parse (take (unat len) buf) in
            (NET_RX_SUCCESS, hs,
             foldl (ogm_notify (item_key ` set items) (Some orig))
               (foldl (ogm_deliver hs orig) s items) hs))"
  using assms(4) tvlv_process_loop_parse [OF assms(3), of packet_type "Some orig" skb off 0 hs s]
    call_all_ogm [OF assms(1,4), where K = "{}"] notfound_loop_marked [OF assms(2)]
  by (auto simp: batadv_tvlv_containers_process_def NET_RX_SUCCESS_def Let_def marked_empty)

section \<open>Appending against a reference\<close>

definition container_bytes :: "batadv_tvlv_container \<Rightarrow> bytes" where
  "container_bytes t = tvlv_hdr_bytes (tvlv_hdr t) @ tvlv_data t"

definition containers_bytes :: "batadv_tvlv_container list \<Rightarrow> bytes" where
  "containers_bytes cl = concat (map container_bytes cl)"

lemma containers_bytes_simps [simp]:
  "containers_bytes [] = []"
  "containers_bytes (t # cl) = tvlv_hdr_bytes (tvlv_hdr t) @ tvlv_data t @ containers_bytes cl"
  by (simp_all add: containers_bytes_def container_bytes_def)

lemma list_size_acc:
  "list_all container_wf cl \<Longrightarrow>
     foldl (\<lambda>n t. n + 4 + tvlv_len (tvlv_hdr t)) a cl = a + of_nat (length (containers_bytes cl))"
  by (induction cl arbitrary: a)
    (auto simp: container_wf_def tvlv_fmt.length_enc add_ac)

lemma container_list_size:
  "list_all container_wf cl \<Longrightarrow>
     batadv_tvlv_container_list_size cl = of_nat (length (containers_bytes cl))"
  by (simp add: batadv_tvlv_container_list_size_def list_size_acc)

lemma mem_write_append [simp]:
  "mem_write (pre @ rest) (length pre) bs =
     (if length bs \<le> length rest then Kret (pre @ bs @ drop (length bs) rest) else Kernel_bug)"
  by (simp add: mem_write_def)

lemma write_containers:
  assumes "list_all container_wf cl"
  shows "tvlv_write_containers (pre @ rest) (length pre) cl =
           (if length (containers_bytes cl) \<le> length rest
            then Kret (pre @ containers_bytes cl @ drop (length (containers_bytes cl)) rest)
            else Kernel_bug)"
  using assms
proof (induction cl arbitrary: pre rest)
  case (Cons t cl)
  define h d where "h = tvlv_hdr_bytes (tvlv_hdr t)" and "d = tvlv_data t"
  have h: "length h = 4" and d: "unat (tvlv_len (tvlv_hdr t)) = length d"
    using Cons.prems by (simp_all add: h_def d_def tvlv_fmt.length_enc container_wf_def)
  show ?case
  proof (cases "4 \<le> length rest \<and> length d \<le> length rest - 4")
    case True
    have "mem_write (pre @ h @ drop 4 rest) (length pre + 4) d =
        Kret ((pre @ h @ d) @ drop (4 + length d) rest)"
      using mem_write_append [of "pre @ h" "drop 4 rest" d] True h by (simp add: add.commute)
    moreover have "tvlv_write_containers ((pre @ h @ d) @ drop (4 + length d) rest)
        (length pre + 4 + length d) cl =
      (if length (containers_bytes cl) \<le> length rest - (4 + length d)
       then Kret ((pre @ h @ d) @ containers_bytes cl
         @ drop (length (containers_bytes cl)) (drop (4 + length d) rest))
       else Kernel_bug)"
      using Cons.IH [of "pre @ h @ d" "drop (4 + length d) rest"] Cons.prems h
      by (simp add: add_ac)
    ultimately show ?thesis
      using True h d
      by (auto simp: h_def [symmetric] d_def [symmetric] add_ac)
  next
    case False
    then show ?thesis
      using mem_write_append [of "pre @ h" "drop 4 rest" d] h d
      by (auto simp: h_def [symmetric] d_def [symmetric])
  qed
qed simp

text \<open>What the allocator promises.\<close>

definition kmalloc_ok :: "(nat \<Rightarrow> bytes option) \<Rightarrow> bool" where
  "kmalloc_ok kmalloc \<longleftrightarrow> (\<forall>n b. kmalloc n = Some b \<longrightarrow> length b = n)"

lemma realloc_packet_buff:
  assumes "kmalloc_ok kmalloc" and "n \<le> length buf"
  shows "batadv_tvlv_realloc_packet_buff kmalloc buf n k =
     (case kmalloc (n + k) of None \<Rightarrow> Kret (False, buf)
      | Some b \<Rightarrow> Kret (True, take n buf @ drop n b))"
  using assms by (auto simp: batadv_tvlv_realloc_packet_buff_def kmalloc_ok_def mem_write_def min_def
      split: option.splits)

lemma ogm_append_cases:
  assumes "kmalloc_ok kmalloc" and "list_all container_wf cl" and "n \<le> length buf"
  shows "batadv_tvlv_container_ogm_append kmalloc cl buf n =
     (let size = length (containers_bytes cl) in
      if kmalloc (n + size mod 2 ^ 16) = None then Kret (of_nat size, buf)
      else if size mod 2 ^ 16 = 0 then Kret (0, take n buf)
      else if size < 2 ^ 16 then Kret (of_nat size, take n buf @ containers_bytes cl)
      else Kernel_bug)"
proof -
  define sz where "sz = length (containers_bytes cl)"
  have u: "unat (of_nat sz :: u16) = sz mod 2 ^ 16"
    by (simp add: unsigned_of_nat take_bit_eq_mod)
  then have z: "(of_nat sz :: u16) = 0 \<longleftrightarrow> sz mod 2 ^ 16 = 0"
    by (metis unat_eq_zero)
  have w: "tvlv_write_containers (take n buf @ drop n b) n cl =
      (if sz \<le> length b - n then Kret (take n buf @ containers_bytes cl @ drop sz (drop n b))
       else Kernel_bug)" for b
    using write_containers [OF assms(2), of "take n buf" "drop n b"] min_absorb2 [OF assms(3)]
    by (simp add: sz_def)
  have s: "sz \<le> sz mod 2 ^ 16 \<longleftrightarrow> sz < 2 ^ 16"
    using mod_less_divisor [of "2 ^ 16" sz] by (cases "sz < 2 ^ 16") auto
  have l: "length b = n + sz mod 2 ^ 16" if "kmalloc (n + sz mod 2 ^ 16) = Some b" for b
    using that assms(1) by (simp add: kmalloc_ok_def)
  show ?thesis
    unfolding Let_def sz_def [symmetric] batadv_tvlv_container_ogm_append_def
      container_list_size [OF assms(2)] u realloc_packet_buff [OF assms(1,3)]
    using z s l by (auto simp: w split: option.splits)
qed

lemma tvlv_parse_containers:
  "list_all container_wf cl \<Longrightarrow>
     tvlv_parse (containers_bytes cl) = map (\<lambda>t. (tvlv_hdr t, tvlv_data t)) cl"
proof (induction cl)
  case (Cons t cl)
  have n: "unat (tvlv_len (tvlv_hdr t)) = length (tvlv_data t)"
    using Cons.prems by (simp add: container_wf_def)
  have "tvlv_parse (tvlv_hdr_bytes (tvlv_hdr t) @ tvlv_data t @ containers_bytes cl) =
      (tvlv_hdr t, tvlv_data t) # tvlv_parse (containers_bytes cl)"
    by (subst tvlv_parse.simps) (simp add: tvlv_fmt.length_enc tvlv_fmt.dec_enc n Let_def)
  then show ?case using Cons by simp
qed (simp add: tvlv_parse.simps)

text \<open>Sequences of registrations (\<open>Some\<close>) and removals (\<open>None\<close>).\<close>

definition container_run ::
    "((u8 \<times> u8) \<times> bytes option) list \<Rightarrow> batadv_tvlv_container list \<Rightarrow> batadv_tvlv_container list" where
  "container_run ops cl = foldl (\<lambda>cl (k, v). case v of Some x \<Rightarrow> container_store k x cl
     | None \<Rightarrow> container_erase k cl) cl ops"

definition handler_run ::
    "((u8 \<times> u8) \<times> ('o, 's) batadv_tvlv_handler option) list
      \<Rightarrow> ('o, 's) batadv_tvlv_handler list \<Rightarrow> ('o, 's) batadv_tvlv_handler list" where
  "handler_run ops hs = foldl (\<lambda>hs (k, v). case v of Some h \<Rightarrow> handler_store k h hs
     | None \<Rightarrow> handler_erase k hs) hs ops"

definition ex_handler :: "(nat, (nat option \<times> u8 \<times> bytes) list) batadv_tvlv_handler" where
  "ex_handler = \<lparr>ogm_handler = Some (\<lambda>orig flags val s. s @ [(orig, flags, val)]),
     unicast_handler = Some (\<lambda>src dst val s. (0, s @ [(None, 1, val)])), mcast_handler = None,
     th_type = 1, th_version = 1, th_flags = 2\<rparr>"

definition ex_handlers :: "(nat, (nat option \<times> u8 \<times> bytes) list) batadv_tvlv_handler list" where
  "ex_handlers = [ex_handler, ex_handler\<lparr>th_type := 2\<rparr>]"

definition ex_container :: batadv_tvlv_container where
  "ex_container = \<lparr>tvlv_hdr = \<lparr>tvlv_type = 1, tvlv_version = 1, tvlv_len = 2\<rparr>, tvlv_data = [8, 9]\<rparr>"

definition ex_kmalloc :: "nat \<Rightarrow> bytes option" where
  "ex_kmalloc n = (if n < 100 then Some (replicate n 0) else None)"

lemmas ex_tvlv_defs = ex_handler_def ex_handlers_def ex_container_def ex_kmalloc_def
  kmalloc_ok_def containers_inv_def handlers_inv_def handlers_idle_def container_wf_def
  handler_key_def BATADV_TVLV_HANDLER_OGM_CALLED_def BATADV_TVLV_HANDLER_OGM_CIFNOTFND_def
  tvlv_fmt.length_enc

section \<open>Properties\<close>

text \<open>
  C11: TVLV containers survive the trip from one node's OGM to another node's handlers. When
  the registered containers fit the 16 bit length, the append keeps the OGM header and the
  receiver, parsing what was appended, calls for each container in order the OGM handler of
  its type and version with exactly its value, then tells every handler registered with
  \<^verbatim>\<open>OGM_CIFNOTFND\<close> whose container was absent, and leaves the handler list (the
  \<^verbatim>\<open>OGM_CALLED\<close> marks included) as it was.
\<close>

theorem tvlv_ogm_roundtrip:
  assumes "kmalloc_ok kmalloc" and "kmalloc (n + length (containers_bytes cl)) \<noteq> None"
    and "containers_inv cl" and "length (containers_bytes cl) < 2 ^ 16" and "n \<le> length buf"
    and "handlers_inv hs" and "handlers_idle hs"
  shows "\<exists>len b. batadv_tvlv_container_ogm_append kmalloc cl buf n = Kret (len, b)
    \<and> take n b = take n buf
    \<and> batadv_tvlv_containers_process BATADV_OGM2 (Some orig) None n (drop n b) len hs s =
        (NET_RX_SUCCESS, hs,
         foldl (ogm_notify (container_key ` set cl) (Some orig))
           (foldl (\<lambda>s t. ogm_deliver hs orig s (tvlv_hdr t, tvlv_data t)) s cl) hs)"
proof -
  let ?n = "length (containers_bytes cl)"
  have wf: "list_all container_wf cl" using assms(3) by (simp add: containers_inv_def)
  have app: "batadv_tvlv_container_ogm_append kmalloc cl buf n =
      Kret (of_nat ?n, take n buf @ containers_bytes cl)"
    using ogm_append_cases [OF assms(1) wf assms(5)] assms(2,4) by (auto simp: Let_def)
  have d: "drop n (take n buf @ containers_bytes cl) = containers_bytes cl"
    using assms(5) by simp
  have "batadv_tvlv_containers_process BATADV_OGM2 (Some orig) None n (containers_bytes cl)
      (of_nat ?n) hs s =
      (let items = map (\<lambda>t. (tvlv_hdr t, tvlv_data t)) cl in
       (NET_RX_SUCCESS, hs, foldl (ogm_notify (item_key ` set items) (Some orig))
               (foldl (ogm_deliver hs orig) s items) hs))"
    using containers_process_ogm [OF assms(6,7), of "of_nat ?n" "containers_bytes cl" BATADV_OGM2]
      unat_of_nat_u16 [OF assms(4)] tvlv_parse_containers [OF wf] by simp
  moreover have "item_key ` set (map (\<lambda>t. (tvlv_hdr t, tvlv_data t)) cl) = container_key ` set cl"
    by (simp add: image_image item_key_def container_key_def)
  ultimately show ?thesis
    using app d assms(5) by (simp add: Let_def foldl_map)
qed

theorem tvlv_ogm_roundtrip_witness:
  "\<exists>len b. batadv_tvlv_container_ogm_append ex_kmalloc [ex_container] [5, 6, 7] 2 = Kret (len, b)
    \<and> take 2 b = [5, 6]
    \<and> batadv_tvlv_containers_process BATADV_OGM2 (Some 3) None 2 (drop 2 b) len ex_handlers [] =
        (NET_RX_SUCCESS, ex_handlers, [(Some 3, 0, [8, 9]), (Some 3, 2, [])])"
  using tvlv_ogm_roundtrip [of ex_kmalloc 2 "[ex_container]" "[5, 6, 7]" ex_handlers 3 "[]"]
  by (simp add: ex_tvlv_defs ogm_notify_def ogm_deliver_def batadv_tvlv_handler_get_def
      container_key_def BATADV_NO_FLAGS_def)

text \<open>
  C14: The parser reads nothing behind the announced TVLV length, whatever the packet type
  and whatever lengths the containers claim: two memories that agree on the announced bytes
  lead to the same calls, results and handler states.
\<close>

theorem tvlv_process_in_bounds:
  assumes "unat len \<le> length buf" and "unat len \<le> length buf'"
    and "take (unat len) buf = take (unat len) buf'"
  shows "batadv_tvlv_containers_process packet_type orig skb off buf len hs s =
         batadv_tvlv_containers_process packet_type orig skb off buf' len hs s"
  using assms by (simp add: batadv_tvlv_containers_process_def tvlv_process_loop_parse)

theorem tvlv_process_in_bounds_witness:
  "batadv_tvlv_containers_process BATADV_OGM2 (Some 3) None 0 [1, 1, 0, 9, 4, 4] 5 ex_handlers [] =
   batadv_tvlv_containers_process BATADV_OGM2 (Some 3) None 0 [1, 1, 0, 9, 4] 5 ex_handlers []"
  by (rule tvlv_process_in_bounds) simp_all

text \<open>
  C16: The container list is a map from type and version to content: from any list that
  satisfies the invariant (one container per key, each as long as its header says), every
  sequence of registrations and removals keeps the invariant and changes the lookups as the
  same sequence changes the map; a registration replaces the previous content.
\<close>

theorem tvlv_containers_refine_map:
  assumes "containers_inv cl"
  shows "containers_inv (container_run ops cl) \<and> container_lookup (container_run ops cl) =
      foldl (\<lambda>m (k, v). case v of Some x \<Rightarrow> if length x < 2 ^ 16 then m(k \<mapsto> x) else m
                         | None \<Rightarrow> m(k := None)) (container_lookup cl) ops"
  using containers.run_refines [OF assms(1), of ops]
  unfolding container_run_def containers.run_def containers.run_map_def .

theorem tvlv_containers_refine_map_witness:
  "containers_inv (container_run [((1, 1), Some [4]), ((2, 1), None)] [ex_container])
    \<and> container_lookup (container_run [((1, 1), Some [4]), ((2, 1), None)] [ex_container]) (1, 1) =
      Some [4]"
  using tvlv_containers_refine_map [of "[ex_container]" "[((1, 1), Some [4]), ((2, 1), None)]"]
  by (simp add: ex_tvlv_defs)

text \<open>
  The handler list is a map from type and version to handlers in which the first
  registration of a key wins until it is removed.
\<close>

theorem tvlv_handlers_refine_map:
  assumes "handlers_inv hs"
  shows "handlers_inv (handler_run ops hs) \<and> handler_lookup (handler_run ops hs) =
      foldl (\<lambda>m (k, v). case v of Some h \<Rightarrow> if handler_key h = k \<and> m k = None then m(k \<mapsto> h) else m
                         | None \<Rightarrow> m(k := None)) (handler_lookup hs) ops"
  using handlers.run_refines [OF assms(1), of ops]
  unfolding handler_run_def handlers.run_def handlers.run_map_def .

theorem tvlv_handlers_refine_map_witness:
  "handler_lookup (handler_run [((1, 1), Some (ex_handler\<lparr>th_flags := 0\<rparr>))] [ex_handler]) (1, 1) =
     Some ex_handler"
  using tvlv_handlers_refine_map [of "[ex_handler]" "[((1, 1), Some (ex_handler\<lparr>th_flags := 0\<rparr>))]"]
  by (simp add: ex_tvlv_defs handler_lookup_def batadv_tvlv_handler_get_def)

text \<open>
  C17: The append overruns its buffer exactly when the containers together exceed the 16 bit
  length and the truncated length is not zero (the allocation is made for the truncated
  length, the copy writes every container); it never does when they fit.
\<close>

theorem tvlv_append_overruns_iff:
  assumes "kmalloc_ok kmalloc" and "containers_inv cl" and "n \<le> length buf"
    and "kmalloc (n + length (containers_bytes cl) mod 2 ^ 16) \<noteq> None"
  shows "batadv_tvlv_container_ogm_append kmalloc cl buf n = Kernel_bug \<longleftrightarrow>
     2 ^ 16 \<le> length (containers_bytes cl) \<and> length (containers_bytes cl) mod 2 ^ 16 \<noteq> 0"
  using ogm_append_cases [OF assms(1) _ assms(3), of cl] assms(2,4)
  by (simp add: containers_inv_def Let_def not_less)

theorem tvlv_append_overruns_iff_witness:
  "batadv_tvlv_container_ogm_append (\<lambda>n. Some (replicate n 0))
     [\<lparr>tvlv_hdr = \<lparr>tvlv_type = 1, tvlv_version = 1, tvlv_len = 65535\<rparr>, tvlv_data = replicate 65535 0\<rparr>]
     [] 0 = Kernel_bug"
  by (subst tvlv_append_overruns_iff) (simp_all add: ex_tvlv_defs)

text \<open>
  When the allocation fails nothing is appended, yet the size of all containers is
  returned as if it had been: the caller writes it into the OGM header.
\<close>

theorem tvlv_append_failure_claims_size:
  assumes "kmalloc_ok kmalloc" and "containers_inv cl" and "n \<le> length buf"
    and "kmalloc (n + length (containers_bytes cl) mod 2 ^ 16) = None"
  shows "batadv_tvlv_container_ogm_append kmalloc cl buf n =
     Kret (of_nat (length (containers_bytes cl)), buf)"
  using ogm_append_cases [OF assms(1) _ assms(3), of cl] assms(2,4)
  by (simp add: containers_inv_def Let_def)

theorem tvlv_append_failure_claims_size_witness:
  "batadv_tvlv_container_ogm_append (\<lambda>n. None) [ex_container] [5, 6, 7] 2 = Kret (6, [5, 6, 7])"
  by (subst tvlv_append_failure_claims_size) (simp_all add: ex_tvlv_defs)

text \<open>
  A unicast TVLV packet delivers its value: when the value fits (at most 65531 bytes),
  the receiver's processing of the sent packet calls the unicast handler of the type and
  version once, with the source, the destination and exactly the value, and returns what
  it returns.
\<close>

theorem tvlv_unicast_roundtrip:
  assumes "batadv_tvlv_unicast_send True True src dst type version val len = Some skb"
    and "length val = unat len" and "unat len \<le> 65531"
    and "batadv_tvlv_handler_get hs type version = Some h" and "unicast_handler h = Some f"
  shows "batadv_tvlv_containers_process BATADV_UNICAST_TVLV None (Some skb) 20
           (drop 20 (skb_data skb)) (utvlv_tvlv_len (get_unicast_tvlv_packet (skb_data skb))) hs s =
         (let (ret, s') = f src dst val s in (ret, hs, s'))"
proof -
  define hdr where "hdr = \<lparr>tvlv_type = type, tvlv_version = version, tvlv_len = len\<rparr>"
  define p where "p = \<lparr>utvlv_packet_type = BATADV_UNICAST_TVLV,
    utvlv_version = BATADV_COMPAT_VERSION, utvlv_ttl = BATADV_TTL, utvlv_reserved = 0,
    utvlv_dst = dst, utvlv_src = src, utvlv_tvlv_len = of_nat (4 + unat len), utvlv_align = 0\<rparr>"
  have data: "skb_data skb = unicast_tvlv_packet_bytes p @ tvlv_hdr_bytes hdr @ val"
    using assms(1,2) by (auto simp: batadv_tvlv_unicast_send_def Let_def p_def hdr_def)
  have g: "get_unicast_tvlv_packet (skb_data skb) = p"
    by (simp add: data utvlv_fmt.dec_enc)
  have rest: "drop 20 (skb_data skb) = tvlv_hdr_bytes hdr @ val"
    by (simp add: data utvlv_fmt.length_enc)
  have len: "unat (of_nat (4 + unat len) :: u16) = 4 + unat len"
    using assms(3) by (intro unat_of_nat_u16) simp
  have parse: "tvlv_parse (tvlv_hdr_bytes hdr @ val) = [(hdr, val)]"
    using tvlv_parse_containers [of "[\<lparr>tvlv_hdr = hdr, tvlv_data = val\<rparr>]"] assms(2)
    by (simp add: container_wf_def hdr_def)
  have "tvlv_process_loop BATADV_UNICAST_TVLV None (Some skb) 20 (tvlv_hdr_bytes hdr @ val)
      (of_nat (4 + unat len)) NET_RX_SUCCESS hs s =
      tvlv_call_all BATADV_UNICAST_TVLV None (Some skb) 20 [(hdr, val)] NET_RX_SUCCESS hs s"
    using tvlv_process_loop_parse [of "of_nat (4 + unat len)" "tvlv_hdr_bytes hdr @ val"
        BATADV_UNICAST_TVLV None "Some skb" 20 NET_RX_SUCCESS hs s] assms(2) len parse
    by (simp add: tvlv_fmt.length_enc)
  then show ?thesis
    using assms(4,5) unfolding rest g
    by (simp add: batadv_tvlv_containers_process_def batadv_tvlv_call_handler_def packettype_defs
        hdr_def p_def g [unfolded p_def] NET_RX_SUCCESS_def Let_def case_prod_beta)
qed

theorem tvlv_unicast_roundtrip_witness:
  "let skb = the (batadv_tvlv_unicast_send True True (Mac 2 0 0 0 0 1) (Mac 2 0 0 0 0 2) 1 1 [7] 1) in
   batadv_tvlv_containers_process BATADV_UNICAST_TVLV None (Some skb) 20 (drop 20 (skb_data skb))
     (utvlv_tvlv_len (get_unicast_tvlv_packet (skb_data skb))) ex_handlers [] =
   (0, ex_handlers, [(None, 1, [7])])"
  using tvlv_unicast_roundtrip [of "Mac 2 0 0 0 0 1" "Mac 2 0 0 0 0 2" 1 1 "[7]" 1
      "the (batadv_tvlv_unicast_send True True (Mac 2 0 0 0 0 1) (Mac 2 0 0 0 0 2) 1 1 [7] 1)"
      ex_handlers ex_handler "\<lambda>src dst val s. (0, s @ [(None, 1, val)])" "[]"]
  by (simp add: ex_handlers_def ex_handler_def batadv_tvlv_handler_get_def
      batadv_tvlv_unicast_send_def Let_def)

end
