(* ===== verification/Mesh_State.thy ===== *)
theory Mesh_State
  imports Packets Hashtable Fragmentation Bitarray Tvlv
begin

text \<open>
  The state of a mesh interface (\<^verbatim>\<open>src/net/batman-adv/types.h\<close>): hard interfaces with
  their single hop neighbours, originators with their next hop candidates and routers, and
  the part of \<^verbatim>\<open>struct batadv_priv\<close> the modelled code reads and writes.

  Conventions. A hard interface is named by its interface index; \<open>None\<close> is
  \<^verbatim>\<open>BATADV_IF_DEFAULT\<close>. An originator is named by its address, its key in the hash
  table. A neighbour object (\<^verbatim>\<open>struct batadv_neigh_node\<close>) has an address of its own,
  \<open>nn_ptr\<close>, because the code compares neighbour pointers and a router may keep an object
  alive that is no longer in the neighbour list; such objects are in \<open>on_neigh_unlinked\<close>.
  Locks, reference counts, RCU heads and list nodes have no field. Calls into components
  that are not part of this state are recorded in order in \<open>bp_calls\<close>.
\<close>

type_synonym ifindex = nat
type_synonym ifref = "nat option"

abbreviation BATADV_IF_DEFAULT :: ifref where "BATADV_IF_DEFAULT \<equiv> None"

section \<open>Constants\<close>

definition BATADV_PURGE_TIMEOUT :: nat where "BATADV_PURGE_TIMEOUT = 200000"
definition BATADV_RESET_PROTECTION_MS :: nat where "BATADV_RESET_PROTECTION_MS = 30000"
definition BATADV_AIRTIME_MAX_VALUE :: u32 where "BATADV_AIRTIME_MAX_VALUE = 0xFFFFFFFF"
definition BATADV_NODE_PRIORITY_DEFAULT :: u8 where "BATADV_NODE_PRIORITY_DEFAULT = 128"
definition BATADV_DUTY_CYCLE_DEFAULT :: u8 where "BATADV_DUTY_CYCLE_DEFAULT = 100"
definition BATADV_POWER_CLASS_DEFAULT :: u8 where "BATADV_POWER_CLASS_DEFAULT = 1"

section \<open>Hard interfaces\<close>

datatype batadv_hard_if_state =
    BATADV_IF_NOT_IN_USE | BATADV_IF_TO_BE_REMOVED | BATADV_IF_INACTIVE | BATADV_IF_ACTIVE
  | BATADV_IF_TO_BE_ACTIVATED

definition BATADV_FULL_DUPLEX :: u8 where "BATADV_FULL_DUPLEX = 1"
definition BATADV_WARNING_DEFAULT :: u8 where "BATADV_WARNING_DEFAULT = 2"

record batadv_hardif_neigh_node_bat_v =
  airtime_cost :: u32
  base_airtime :: u32
  elp_received :: u32
  elp_expected :: u32
  elp_last_seqno :: u32
  e_pt_smoothed :: u32
  elp_interval :: u32
  elp_latest_seqno :: u32
  last_unicast_tx :: u64

record batadv_hardif_neigh_node =
  hn_addr :: mac
  hn_orig :: mac
  hn_if_incoming :: ifindex
  hn_last_seen :: u64
  hn_bat_v :: batadv_hardif_neigh_node_bat_v

text \<open>The ELP buffer, the aggregation queue with its length, and the settings.\<close>

record batadv_hard_iface_bat_v =
  bv_elp_interval :: u32
  bv_elp_seqno :: u32
  bv_elp_skb :: "bytes option"
  bv_aggr_list :: "bytes list"
  bv_aggr_len :: u32
  bv_throughput_override :: u32
  bv_flags :: u8

record batadv_hard_iface =
  hi_ifindex :: ifindex
  hi_dev_addr :: mac
  hi_mtu :: u32
  hi_if_status :: batadv_hard_if_state
  hi_num_bcasts :: u8
  hi_wifi_flags :: u32
  hi_hop_penalty :: u32
  hi_bat_v :: batadv_hard_iface_bat_v
  hi_neigh_list :: "batadv_hardif_neigh_node list"

section \<open>Originators\<close>

record batadv_neigh_ifinfo_bat_iv =
  tq_recv :: "u8 list"
  tq_index :: u8
  tq_avg :: u8
  real_bits :: u64
  real_packet_count :: u8

record batadv_neigh_ifinfo_bat_v =
  ni_airtime_cost :: u32
  ni_last_seqno :: u32

record batadv_neigh_ifinfo =
  ni_if_outgoing :: ifref
  ni_bat_iv :: batadv_neigh_ifinfo_bat_iv
  ni_bat_v :: batadv_neigh_ifinfo_bat_v
  ni_last_ttl :: u8

record batadv_neigh_node =
  nn_ptr :: nat
  nn_orig_node :: mac
  nn_addr :: mac
  nn_ifinfo_list :: "batadv_neigh_ifinfo list"
  nn_if_incoming :: ifindex
  nn_last_seen :: u64

record batadv_orig_ifinfo_bat_iv =
  bcast_own :: u64
  bcast_own_sum :: u8

record batadv_orig_ifinfo =
  oi_if_outgoing :: ifref
  oi_router :: "nat option"
  oi_last_real_seqno :: u32
  oi_last_ttl :: u8
  oi_last_seqno_forwarded :: u32
  oi_batman_seqno_reset :: u64
  oi_bat_iv :: batadv_orig_ifinfo_bat_iv

record batadv_orig_node_vlan =
  ov_vid :: u16
  ov_crc :: u32
  ov_num_entries :: u32

record batadv_orig_node =
  on_orig :: mac
  on_ifinfo_list :: "batadv_orig_ifinfo list"
  on_last_bonding_candidate :: "ifref option"
  on_dat_addr :: u16
  on_last_seen :: u64
  on_bcast_seqno_reset :: u64
  on_mcast_flags :: u8
  on_capabilities :: u64
  on_capa_initialized :: u64
  on_last_ttvn :: u32
  on_tt_buff :: bytes
  on_bcast_bits :: u64
  on_last_bcast_seqno :: u32
  on_neigh_list :: "batadv_neigh_node list"
  on_neigh_unlinked :: "batadv_neigh_node list"
  on_fragments :: "batadv_frag_table_entry list"
  on_vlan_list :: "batadv_orig_node_vlan list"
  on_node_priority :: u8
  on_duty_cycle :: u8
  on_power_class :: u8

section \<open>The mesh interface\<close>

datatype batadv_mesh_state =
    BATADV_MESH_INACTIVE | BATADV_MESH_ACTIVE | BATADV_MESH_DEACTIVATING

datatype batadv_counters =
    BATADV_CNT_TX | BATADV_CNT_TX_BYTES | BATADV_CNT_TX_DROPPED | BATADV_CNT_RX
  | BATADV_CNT_RX_BYTES | BATADV_CNT_FORWARD | BATADV_CNT_FORWARD_BYTES | BATADV_CNT_MGMT_TX
  | BATADV_CNT_MGMT_TX_BYTES | BATADV_CNT_MGMT_RX | BATADV_CNT_MGMT_RX_BYTES
  | BATADV_CNT_FRAG_TX | BATADV_CNT_FRAG_TX_BYTES | BATADV_CNT_FRAG_RX
  | BATADV_CNT_FRAG_RX_BYTES | BATADV_CNT_FRAG_FWD | BATADV_CNT_FRAG_FWD_BYTES
  | BATADV_CNT_TT_REQUEST_TX | BATADV_CNT_TT_REQUEST_RX | BATADV_CNT_TT_RESPONSE_TX
  | BATADV_CNT_TT_RESPONSE_RX | BATADV_CNT_TT_ROAM_ADV_TX | BATADV_CNT_TT_ROAM_ADV_RX
  | BATADV_CNT_MCAST_TX | BATADV_CNT_MCAST_TX_BYTES | BATADV_CNT_MCAST_TX_LOCAL
  | BATADV_CNT_MCAST_TX_LOCAL_BYTES | BATADV_CNT_MCAST_RX | BATADV_CNT_MCAST_RX_BYTES
  | BATADV_CNT_MCAST_RX_LOCAL | BATADV_CNT_MCAST_RX_LOCAL_BYTES | BATADV_CNT_MCAST_FWD
  | BATADV_CNT_MCAST_FWD_BYTES | BATADV_CNT_DAT_GET_TX | BATADV_CNT_DAT_GET_RX
  | BATADV_CNT_DAT_PUT_TX | BATADV_CNT_DAT_PUT_RX | BATADV_CNT_DAT_CACHED_REPLY_TX

text \<open>
  Calls out of the modelled state: a broadcast or unicast frame handed to a hard interface,
  the removal of an originator's translation table entries or gateway record, the gateway
  election, the commit of local translation table changes, the arming of a work item's
  timer with its delay in milliseconds, a gateway event for user space.
\<close>

datatype batadv_uev_action = BATADV_UEV_ADD | BATADV_UEV_DEL | BATADV_UEV_CHANGE

datatype ext_call =
    Send_broadcast_skb ifindex bytes
  | Send_skb_packet ifindex mac bytes
  | Tt_global_del_orig mac
  | Gw_node_delete mac
  | Gw_election
  | Tt_local_commit_changes
  | Queue_elp_work ifindex u32
  | Queue_aggr_work ifindex u32
  | Queue_ogm_work u64
  | Throw_uevent_gw batadv_uev_action "mac option"

text \<open>
  The gateways a client may use. A gateway object is identified by its address; one that
  was removed from the list lives on (\<open>gw_unlinked\<close>) while it is the selected one.
\<close>

datatype batadv_gw_modes = BATADV_GW_MODE_OFF | BATADV_GW_MODE_CLIENT | BATADV_GW_MODE_SERVER

record batadv_gw_node =
  gn_ptr :: nat
  gn_orig_node :: mac
  gn_bandwidth_down :: u32
  gn_bandwidth_up :: u32

record batadv_priv_gw =
  gw_gateway_list :: "batadv_gw_node list"
  gw_unlinked :: "batadv_gw_node list"
  gw_curr_gw :: "nat option"
  gw_generation :: u32
  gw_mode :: batadv_gw_modes
  gw_sel_class :: u32
  gw_bandwidth_down :: u32
  gw_bandwidth_up :: u32
  gw_reselect :: u32

record batadv_priv_bat_v =
  ogm_buff :: "bytes option"
  ogm_buff_len :: nat
  ogm_seqno :: u32
  ogm_wq_pending :: bool

record batadv_priv =
  bp_mesh_state :: batadv_mesh_state
  bp_hard_ifaces :: "batadv_hard_iface list"
  bp_primary_if :: "ifindex option"
  bp_orig_hash :: "batadv_orig_node batadv_hashtable option"
  bp_algo_name :: string
  bp_aggregated_ogms :: u32
  bp_bonding :: u32
  bp_hop_penalty :: u32
  bp_orig_interval :: u32
  bp_node_priority :: u32
  bp_duty_cycle :: u32
  bp_power_class :: u32
  bp_bat_v :: batadv_priv_bat_v
  bp_gw :: batadv_priv_gw
  bp_tvlv_container_list :: "batadv_tvlv_container list"
  bp_bat_counters :: "batadv_counters \<Rightarrow> u64"
  bp_calls :: "ext_call list"

text \<open>
  What the kernel supplies to one run of a handler: the clock, the hash function, the
  outcome of each allocation, and the address of a newly allocated neighbour object
  (\<open>None\<close> when that allocation fails).
\<close>

datatype alloc_site =
    Alloc_orig_node mac | Alloc_orig_vlan mac | Alloc_orig_ifinfo mac ifref
  | Alloc_neigh_ifinfo nat ifref | Alloc_hardif_neigh ifindex mac | Alloc_skb ifref
  | Alloc_metric_entry mac | Alloc_probe mac nat | Alloc_tvlv_container | Alloc_clone ifindex
  | Alloc_aggr ifindex

record kenv = kclock +
  jhash :: "bytes \<Rightarrow> u32 \<Rightarrow> u32"
  jiffies_to_msecs :: "u64 \<Rightarrow> nat"
  kalloc_ok :: "alloc_site \<Rightarrow> bool"
  new_neigh_ptr :: "nat option"

definition batadv_add_counter ::
    "batadv_counters \<Rightarrow> u64 \<Rightarrow> batadv_priv \<Rightarrow> batadv_priv" where
  "batadv_add_counter idx cnt bp =
     bp\<lparr>bp_bat_counters := (bp_bat_counters bp)(idx := bp_bat_counters bp idx + cnt)\<rparr>"

definition ext_call :: "ext_call \<Rightarrow> batadv_priv \<Rightarrow> batadv_priv" where
  "ext_call c bp = bp\<lparr>bp_calls := bp_calls bp @ [c]\<rparr>"

definition hard_iface_get :: "batadv_priv \<Rightarrow> ifindex \<Rightarrow> batadv_hard_iface option" where
  "hard_iface_get bp i = find (\<lambda>h. hi_ifindex h = i) (bp_hard_ifaces bp)"

definition hard_iface_upd ::
    "ifindex \<Rightarrow> (batadv_hard_iface \<Rightarrow> batadv_hard_iface) \<Rightarrow> batadv_priv \<Rightarrow> batadv_priv" where
  "hard_iface_upd i f bp =
     bp\<lparr>bp_hard_ifaces := hlist_upd_first (\<lambda>h. hi_ifindex h = i) f (bp_hard_ifaces bp)\<rparr>"

definition batadv_primary_if_get_selected :: "batadv_priv \<Rightarrow> batadv_hard_iface option" where
  "batadv_primary_if_get_selected bp =
     (case bp_primary_if bp of None \<Rightarrow> None | Some i \<Rightarrow> hard_iface_get bp i)"

text \<open>\<^verbatim>\<open>main.c\<close>: is this the address of one of the mesh's active interfaces?\<close>

definition batadv_is_my_mac :: "batadv_priv \<Rightarrow> mac \<Rightarrow> bool" where
  "batadv_is_my_mac bp addr =
     (\<exists>h \<in> set (bp_hard_ifaces bp).
        hi_if_status h = BATADV_IF_ACTIVE \<and> batadv_compare_eth (hi_dev_addr h) addr)"

definition batadv_is_wifi_hardif :: "batadv_hard_iface \<Rightarrow> bool" where
  "batadv_is_wifi_hardif h = (hi_wifi_flags h \<noteq> 0)"

definition batadv_is_cfg80211_hardif :: "batadv_hard_iface \<Rightarrow> bool" where
  "batadv_is_cfg80211_hardif h = (hi_wifi_flags h AND (2 OR 8) \<noteq> 0)"

text \<open>\<^verbatim>\<open>hard-interface.c\<close>: whether a broadcast on the interface would reach anybody new.\<close>

datatype batadv_hard_if_bcast =
    BATADV_HARDIF_BCAST_OK | BATADV_HARDIF_BCAST_NORECIPIENT | BATADV_HARDIF_BCAST_DUPFWD
  | BATADV_HARDIF_BCAST_DUPORIG

definition batadv_hardif_no_broadcast ::
    "batadv_hard_iface \<Rightarrow> mac option \<Rightarrow> mac option \<Rightarrow> batadv_hard_if_bcast" where
  "batadv_hardif_no_broadcast if_outgoing orig_addr orig_neigh =
     (case hi_neigh_list if_outgoing of
        [] \<Rightarrow> BATADV_HARDIF_BCAST_NORECIPIENT
      | first # _ # _ \<Rightarrow> BATADV_HARDIF_BCAST_OK
      | [hardif_neigh] \<Rightarrow>
          if orig_addr = Some (hn_orig hardif_neigh) then BATADV_HARDIF_BCAST_DUPORIG
          else if orig_neigh = Some (hn_orig hardif_neigh) then BATADV_HARDIF_BCAST_DUPFWD
          else BATADV_HARDIF_BCAST_OK)"

lemma hard_iface_get_upd:
  assumes "\<And>h. hi_ifindex (f h) = hi_ifindex h"
  shows "hard_iface_get (hard_iface_upd i f bp) j =
           (if j = i then map_option f (hard_iface_get bp i) else hard_iface_get bp j)"
  using assms by (simp add: hard_iface_get_def hard_iface_upd_def find_key_upd_first)

lemma ext_call_simps [simp]:
  "bp_hard_ifaces (ext_call c bp) = bp_hard_ifaces bp"
  "bp_orig_hash (ext_call c bp) = bp_orig_hash bp"
  "bp_calls (ext_call c bp) = bp_calls bp @ [c]"
  by (simp_all add: ext_call_def)

lemma add_counter_simps [simp]:
  "bp_hard_ifaces (batadv_add_counter i n bp) = bp_hard_ifaces bp"
  "bp_orig_hash (batadv_add_counter i n bp) = bp_orig_hash bp"
  "bp_calls (batadv_add_counter i n bp) = bp_calls bp"
  by (simp_all add: batadv_add_counter_def)

end
