(* ===== verification/Originator.thy ===== *)
theory Originator
  imports Mesh_State
begin

text \<open>
  Originators and their neighbours, \<^verbatim>\<open>src/net/batman-adv/originator.c\<close>, together with
  the route update of \<^verbatim>\<open>routing.c\<close> it calls: lookup and creation of originators, VLANs,
  per interface records, neighbours and single hop neighbours; router selection; and the
  periodic purge. Functions on one originator take and return the originator; functions
  that touch the hash table or the interfaces take and return the mesh state.
\<close>

section \<open>The originator hash\<close>

definition batadv_choose_orig :: "(bytes \<Rightarrow> u32 \<Rightarrow> u32) \<Rightarrow> mac \<Rightarrow> u32 \<Rightarrow> u32" where
  "batadv_choose_orig jh data n = jh (mac_bytes data) 0 mod n"

definition batadv_compare_orig :: "batadv_orig_node \<Rightarrow> mac \<Rightarrow> bool" where
  "batadv_compare_orig node data2 = batadv_compare_eth (on_orig node) data2"

definition batadv_orig_hash_find :: "'k kenv_scheme \<Rightarrow> batadv_priv \<Rightarrow> mac \<Rightarrow> batadv_orig_node option" where
  "batadv_orig_hash_find k bp data =
     (case bp_orig_hash bp of
        None \<Rightarrow> None
      | Some hash \<Rightarrow>
          let index = batadv_choose_orig (jhash k) data (hash_size hash);
              head = hash_bucket hash index in
          find (\<lambda>orig_node. batadv_compare_eth (on_orig orig_node) data) head)"

text \<open>A write through a pointer to the originator \<open>data\<close>.\<close>

definition orig_upd ::
    "'k kenv_scheme \<Rightarrow> mac \<Rightarrow> (batadv_orig_node \<Rightarrow> batadv_orig_node) \<Rightarrow> batadv_priv \<Rightarrow> batadv_priv" where
  "orig_upd k data f bp =
     (case bp_orig_hash bp of
        None \<Rightarrow> bp
      | Some hash \<Rightarrow>
          let index = batadv_choose_orig (jhash k) data (hash_size hash) in
          bp\<lparr>bp_orig_hash := Some (set_hash_bucket hash index
               (hlist_upd_first (\<lambda>orig_node. on_orig orig_node = data) f (hash_bucket hash index)))\<rparr>)"

definition batadv_originator_init :: "bool \<Rightarrow> bool \<Rightarrow> bool \<Rightarrow> batadv_priv \<Rightarrow> int \<times> batadv_priv" where
  "batadv_originator_init ok1 ok2 ok3 bp =
     (if bp_orig_hash bp \<noteq> None then (0, bp)
      else (case batadv_hash_new ok1 ok2 ok3 1024 of
              None \<Rightarrow> (- ENOMEM, bp)
            | Some h \<Rightarrow> (0, bp\<lparr>bp_orig_hash := Some h\<rparr>)))"

section \<open>VLANs of an originator\<close>

definition BATADV_VLAN_HAS_TAG :: u16 where "BATADV_VLAN_HAS_TAG = 0x8000"
definition VLAN_VID_MASK :: u16 where "VLAN_VID_MASK = 0x0fff"

definition batadv_orig_node_vlan_get :: "batadv_orig_node \<Rightarrow> u16 \<Rightarrow> batadv_orig_node_vlan option" where
  "batadv_orig_node_vlan_get orig_node vid = find (\<lambda>tmp. ov_vid tmp = vid) (on_vlan_list orig_node)"

definition batadv_vlan_id_valid :: "u16 \<Rightarrow> bool" where
  "batadv_vlan_id_valid vid =
     (let non_vlan = vid AND NOT (BATADV_VLAN_HAS_TAG OR VLAN_VID_MASK) in
      if vid = 0 then True
      else if vid AND BATADV_VLAN_HAS_TAG = 0 then False
      else if non_vlan \<noteq> 0 then False
      else True)"

definition batadv_orig_node_vlan_new ::
    "'k kenv_scheme \<Rightarrow> batadv_orig_node \<Rightarrow> u16 \<Rightarrow> batadv_orig_node_vlan option \<times> batadv_orig_node" where
  "batadv_orig_node_vlan_new k orig_node vid =
     (if \<not> batadv_vlan_id_valid vid then (None, orig_node)
      else (case batadv_orig_node_vlan_get orig_node vid of
              Some vlan \<Rightarrow> (Some vlan, orig_node)
            | None \<Rightarrow>
                if \<not> kalloc_ok k (Alloc_orig_vlan (on_orig orig_node)) then (None, orig_node)
                else let vlan = \<lparr>ov_vid = vid, ov_crc = 0, ov_num_entries = 0\<rparr> in
                     (Some vlan, orig_node\<lparr>on_vlan_list := vlan # on_vlan_list orig_node\<rparr>)))"

section \<open>Per interface records\<close>

definition batadv_orig_ifinfo_get :: "batadv_orig_node \<Rightarrow> ifref \<Rightarrow> batadv_orig_ifinfo option" where
  "batadv_orig_ifinfo_get orig_node if_outgoing =
     find (\<lambda>tmp. oi_if_outgoing tmp = if_outgoing) (on_ifinfo_list orig_node)"

definition batadv_orig_ifinfo_new ::
    "'k kenv_scheme \<Rightarrow> batadv_orig_node \<Rightarrow> ifref \<Rightarrow> batadv_orig_ifinfo option \<times> batadv_orig_node" where
  "batadv_orig_ifinfo_new k orig_node if_outgoing =
     (case batadv_orig_ifinfo_get orig_node if_outgoing of
        Some orig_ifinfo \<Rightarrow> (Some orig_ifinfo, orig_node)
      | None \<Rightarrow>
          if \<not> kalloc_ok k (Alloc_orig_ifinfo (on_orig orig_node) if_outgoing) then (None, orig_node)
          else let reset_time = jiffies k - 1 - msecs_to_jiffies k BATADV_RESET_PROTECTION_MS;
                   orig_ifinfo = \<lparr>oi_if_outgoing = if_outgoing, oi_router = None,
                     oi_last_real_seqno = 0, oi_last_ttl = 0, oi_last_seqno_forwarded = 0,
                     oi_batman_seqno_reset = reset_time,
                     oi_bat_iv = \<lparr>bcast_own = 0, bcast_own_sum = 0\<rparr>\<rparr> in
               (Some orig_ifinfo,
                orig_node\<lparr>on_ifinfo_list := orig_ifinfo # on_ifinfo_list orig_node\<rparr>))"

text \<open>Writes through a pointer to an originator's interface record or neighbour.\<close>

definition orig_ifinfo_upd ::
    "ifref \<Rightarrow> (batadv_orig_ifinfo \<Rightarrow> batadv_orig_ifinfo) \<Rightarrow> batadv_orig_node \<Rightarrow> batadv_orig_node" where
  "orig_ifinfo_upd if_outgoing f orig_node =
     orig_node\<lparr>on_ifinfo_list :=
       hlist_upd_first (\<lambda>tmp. oi_if_outgoing tmp = if_outgoing) f (on_ifinfo_list orig_node)\<rparr>"

definition neigh_deref :: "batadv_orig_node \<Rightarrow> nat \<Rightarrow> batadv_neigh_node option" where
  "neigh_deref orig_node p =
     find (\<lambda>n. nn_ptr n = p) (on_neigh_list orig_node @ on_neigh_unlinked orig_node)"

definition neigh_upd ::
    "nat \<Rightarrow> (batadv_neigh_node \<Rightarrow> batadv_neigh_node) \<Rightarrow> batadv_orig_node \<Rightarrow> batadv_orig_node" where
  "neigh_upd p f orig_node =
     (if \<exists>n \<in> set (on_neigh_list orig_node). nn_ptr n = p
      then orig_node\<lparr>on_neigh_list :=
             hlist_upd_first (\<lambda>n. nn_ptr n = p) f (on_neigh_list orig_node)\<rparr>
      else orig_node\<lparr>on_neigh_unlinked :=
             hlist_upd_first (\<lambda>n. nn_ptr n = p) f (on_neigh_unlinked orig_node)\<rparr>)"

definition batadv_neigh_ifinfo_get :: "batadv_neigh_node \<Rightarrow> ifref \<Rightarrow> batadv_neigh_ifinfo option" where
  "batadv_neigh_ifinfo_get neigh if_outgoing =
     find (\<lambda>tmp. ni_if_outgoing tmp = if_outgoing) (nn_ifinfo_list neigh)"

definition neigh_ifinfo_zero :: "ifref \<Rightarrow> batadv_neigh_ifinfo" where
  "neigh_ifinfo_zero if_outgoing =
     \<lparr>ni_if_outgoing = if_outgoing,
      ni_bat_iv = \<lparr>tq_recv = [0, 0, 0, 0, 0], tq_index = 0, tq_avg = 0, real_bits = 0,
                   real_packet_count = 0\<rparr>,
      ni_bat_v = \<lparr>ni_airtime_cost = 0, ni_last_seqno = 0\<rparr>, ni_last_ttl = 0\<rparr>"

definition batadv_neigh_ifinfo_new ::
    "'k kenv_scheme \<Rightarrow> batadv_neigh_node \<Rightarrow> ifref
      \<Rightarrow> batadv_neigh_ifinfo option \<times> batadv_neigh_node" where
  "batadv_neigh_ifinfo_new k neigh if_outgoing =
     (case batadv_neigh_ifinfo_get neigh if_outgoing of
        Some neigh_ifinfo \<Rightarrow> (Some neigh_ifinfo, neigh)
      | None \<Rightarrow>
          if \<not> kalloc_ok k (Alloc_neigh_ifinfo (nn_ptr neigh) if_outgoing) then (None, neigh)
          else let neigh_ifinfo = neigh_ifinfo_zero if_outgoing in
               (Some neigh_ifinfo, neigh\<lparr>nn_ifinfo_list := neigh_ifinfo # nn_ifinfo_list neigh\<rparr>))"

definition neigh_ifinfo_upd ::
    "ifref \<Rightarrow> (batadv_neigh_ifinfo \<Rightarrow> batadv_neigh_ifinfo) \<Rightarrow> batadv_neigh_node \<Rightarrow> batadv_neigh_node" where
  "neigh_ifinfo_upd if_outgoing f neigh =
     neigh\<lparr>nn_ifinfo_list :=
       hlist_upd_first (\<lambda>tmp. ni_if_outgoing tmp = if_outgoing) f (nn_ifinfo_list neigh)\<rparr>"

section \<open>Routers\<close>

definition batadv_orig_router_get :: "batadv_orig_node \<Rightarrow> ifref \<Rightarrow> nat option" where
  "batadv_orig_router_get orig_node if_outgoing =
     (case find (\<lambda>orig_ifinfo. oi_if_outgoing orig_ifinfo = if_outgoing) (on_ifinfo_list orig_node) of
        None \<Rightarrow> None
      | Some orig_ifinfo \<Rightarrow> oi_router orig_ifinfo)"

text \<open>
  \<^verbatim>\<open>_batadv_update_route\<close>: the flag tells that a route was deleted, upon which the caller
  drops the originator's translation table entries.
\<close>

definition set_route ::
    "batadv_orig_node \<Rightarrow> ifref \<Rightarrow> nat option \<Rightarrow> batadv_orig_node \<times> bool" where
  "set_route orig_node recv_if neigh_node =
     (case batadv_orig_ifinfo_get orig_node recv_if of
        None \<Rightarrow> (orig_node, False)
      | Some orig_ifinfo \<Rightarrow>
          let curr_router = oi_router orig_ifinfo in
          (orig_ifinfo_upd recv_if (\<lambda>i. i\<lparr>oi_router := neigh_node\<rparr>) orig_node,
           curr_router \<noteq> None \<and> neigh_node = None))"

definition batadv_update_route ::
    "batadv_orig_node \<Rightarrow> ifref \<Rightarrow> nat option \<Rightarrow> batadv_orig_node \<times> bool" where
  "batadv_update_route orig_node recv_if neigh_node =
     (if batadv_orig_router_get orig_node recv_if \<noteq> neigh_node
      then set_route orig_node recv_if neigh_node
      else (orig_node, False))"

section \<open>Neighbours\<close>

definition batadv_neigh_node_get ::
    "batadv_orig_node \<Rightarrow> ifindex \<Rightarrow> mac \<Rightarrow> batadv_neigh_node option" where
  "batadv_neigh_node_get orig_node hard_iface addr =
     find (\<lambda>n. batadv_compare_eth (nn_addr n) addr \<and> nn_if_incoming n = hard_iface)
       (on_neigh_list orig_node)"

definition batadv_hardif_neigh_get ::
    "batadv_hard_iface \<Rightarrow> mac \<Rightarrow> batadv_hardif_neigh_node option" where
  "batadv_hardif_neigh_get hard_iface neigh_addr =
     find (\<lambda>n. batadv_compare_eth (hn_addr n) neigh_addr) (hi_neigh_list hard_iface)"

text \<open>
  \<open>hardif_init\<close> is the routing algorithm's callback, if it has one.
\<close>

definition batadv_hardif_neigh_create ::
    "'k kenv_scheme \<Rightarrow> (batadv_hardif_neigh_node \<Rightarrow> batadv_hardif_neigh_node) option
      \<Rightarrow> batadv_hard_iface \<Rightarrow> mac \<Rightarrow> mac
      \<Rightarrow> batadv_hardif_neigh_node option \<times> batadv_hard_iface" where
  "batadv_hardif_neigh_create k hardif_init hard_iface neigh_addr orig =
     (case batadv_hardif_neigh_get hard_iface neigh_addr of
        Some hardif_neigh \<Rightarrow> (Some hardif_neigh, hard_iface)
      | None \<Rightarrow>
          if \<not> kalloc_ok k (Alloc_hardif_neigh (hi_ifindex hard_iface) neigh_addr)
          then (None, hard_iface)
          else
            let hardif_neigh =
                  \<lparr>hn_addr = neigh_addr, hn_orig = orig, hn_if_incoming = hi_ifindex hard_iface,
                   hn_last_seen = jiffies k,
                   hn_bat_v = \<lparr>airtime_cost = BATADV_AIRTIME_MAX_VALUE,
                     base_airtime = BATADV_AIRTIME_MAX_VALUE, elp_received = 0, elp_expected = 0,
                     elp_last_seqno = 0, e_pt_smoothed = 0, elp_interval = 0,
                     elp_latest_seqno = 0, last_unicast_tx = 0\<rparr>\<rparr>;
                hardif_neigh = (case hardif_init of None \<Rightarrow> hardif_neigh | Some f \<Rightarrow> f hardif_neigh) in
            (Some hardif_neigh,
             hard_iface\<lparr>hi_neigh_list := hardif_neigh # hi_neigh_list hard_iface\<rparr>))"

definition batadv_hardif_neigh_get_or_create ::
    "'k kenv_scheme \<Rightarrow> (batadv_hardif_neigh_node \<Rightarrow> batadv_hardif_neigh_node) option
      \<Rightarrow> batadv_hard_iface \<Rightarrow> mac \<Rightarrow> mac
      \<Rightarrow> batadv_hardif_neigh_node option \<times> batadv_hard_iface" where
  "batadv_hardif_neigh_get_or_create k hardif_init hard_iface neigh_addr orig =
     (case batadv_hardif_neigh_get hard_iface neigh_addr of
        Some hardif_neigh \<Rightarrow> (Some hardif_neigh, hard_iface)
      | None \<Rightarrow> batadv_hardif_neigh_create k hardif_init hard_iface neigh_addr orig)"

text \<open>
  When the neighbour object cannot be allocated, the single hop neighbour created just
  before is released again: dropping the last reference unlinks it from the interface.
\<close>

definition batadv_neigh_node_create ::
    "'k kenv_scheme \<Rightarrow> (batadv_hardif_neigh_node \<Rightarrow> batadv_hardif_neigh_node) option
      \<Rightarrow> batadv_orig_node \<Rightarrow> batadv_hard_iface \<Rightarrow> mac
      \<Rightarrow> nat option \<times> batadv_orig_node \<times> batadv_hard_iface" where
  "batadv_neigh_node_create k hardif_init orig_node hard_iface neigh_addr =
     (case batadv_neigh_node_get orig_node (hi_ifindex hard_iface) neigh_addr of
        Some neigh_node \<Rightarrow> (Some (nn_ptr neigh_node), orig_node, hard_iface)
      | None \<Rightarrow>
          (case batadv_hardif_neigh_get_or_create k hardif_init hard_iface neigh_addr
                  (on_orig orig_node) of
             (None, hi) \<Rightarrow> (None, orig_node, hi)
           | (Some hardif_neigh, hi) \<Rightarrow>
               (case new_neigh_ptr k of
                  None \<Rightarrow> (None, orig_node, hard_iface)
                | Some p \<Rightarrow>
                    let neigh_node = \<lparr>nn_ptr = p, nn_orig_node = on_orig orig_node,
                          nn_addr = neigh_addr, nn_ifinfo_list = [],
                          nn_if_incoming = hi_ifindex hard_iface, nn_last_seen = jiffies k\<rparr> in
                    (Some p, orig_node\<lparr>on_neigh_list := neigh_node # on_neigh_list orig_node\<rparr>, hi))))"

definition batadv_neigh_node_get_or_create ::
    "'k kenv_scheme \<Rightarrow> (batadv_hardif_neigh_node \<Rightarrow> batadv_hardif_neigh_node) option
      \<Rightarrow> batadv_orig_node \<Rightarrow> batadv_hard_iface \<Rightarrow> mac
      \<Rightarrow> nat option \<times> batadv_orig_node \<times> batadv_hard_iface" where
  "batadv_neigh_node_get_or_create k hardif_init orig_node hard_iface neigh_addr =
     (case batadv_neigh_node_get orig_node (hi_ifindex hard_iface) neigh_addr of
        Some neigh_node \<Rightarrow> (Some (nn_ptr neigh_node), orig_node, hard_iface)
      | None \<Rightarrow> batadv_neigh_node_create k hardif_init orig_node hard_iface neigh_addr)"

section \<open>New originators\<close>

definition batadv_orig_node_new :: "'k kenv_scheme \<Rightarrow> mac \<Rightarrow> batadv_orig_node option" where
  "batadv_orig_node_new k addr =
     (if \<not> kalloc_ok k (Alloc_orig_node addr) then None
      else
        let reset_time = jiffies k - 1 - msecs_to_jiffies k BATADV_RESET_PROTECTION_MS;
            orig_node =
              \<lparr>on_orig = addr, on_ifinfo_list = [], on_last_bonding_candidate = None,
               on_dat_addr = ucast (batadv_choose_orig (jhash k) addr 0xffff),
               on_last_seen = jiffies k, on_bcast_seqno_reset = reset_time,
               on_mcast_flags = 8 OR 16 OR 32, on_capabilities = 0, on_capa_initialized = 0,
               on_last_ttvn = 0, on_tt_buff = [], on_bcast_bits = 0, on_last_bcast_seqno = 0,
               on_neigh_list = [], on_neigh_unlinked = [],
               on_fragments = replicate BATADV_FRAG_BUFFER_COUNT
                 \<lparr>fragment_list = [], fte_timestamp = 0, fte_seqno = 0, fte_size = 0,
                  fte_total_size = 0\<rparr>,
               on_vlan_list = [],
               on_node_priority = BATADV_NODE_PRIORITY_DEFAULT,
               on_duty_cycle = BATADV_DUTY_CYCLE_DEFAULT,
               on_power_class = BATADV_POWER_CLASS_DEFAULT\<rparr> in
        case batadv_orig_node_vlan_new k orig_node 0 of
          (None, _) \<Rightarrow> None
        | (Some vlan, orig_node) \<Rightarrow> Some orig_node)"

text \<open>\<^verbatim>\<open>bat_v_ogm.c\<close>: find an originator, creating and adding it if it is unknown.\<close>

definition batadv_v_ogm_orig_get ::
    "'k kenv_scheme \<Rightarrow> batadv_priv \<Rightarrow> mac \<Rightarrow> batadv_orig_node option \<times> batadv_priv" where
  "batadv_v_ogm_orig_get k bp addr =
     (case batadv_orig_hash_find k bp addr of
        Some orig_node \<Rightarrow> (Some orig_node, bp)
      | None \<Rightarrow>
          (case batadv_orig_node_new k addr of
             None \<Rightarrow> (None, bp)
           | Some orig_node \<Rightarrow>
               (case batadv_hash_add (bp_orig_hash bp) batadv_compare_orig
                       (batadv_choose_orig (jhash k)) addr orig_node of
                  (hash_added, hash) \<Rightarrow>
                    if hash_added \<noteq> 0 then (None, bp)
                    else (Some orig_node, bp\<lparr>bp_orig_hash := hash\<rparr>))))"

section \<open>Releasing\<close>

text \<open>
  Reference counts are not modelled: at the end of an operation, the callbacks of the last
  \<^verbatim>\<open>kref_put\<close> run for the objects no pointer of the state refers to any more. A neighbour
  object goes when it is neither listed nor a router
  (\<^verbatim>\<open>batadv_neigh_node_release\<close>), a single hop neighbour when no neighbour object
  refers to it (\<^verbatim>\<open>batadv_hardif_neigh_release\<close>). That every reader takes and drops its
  references is assumed.
\<close>

definition batadv_neigh_node_release :: "batadv_orig_node \<Rightarrow> batadv_orig_node" where
  "batadv_neigh_node_release orig_node =
     orig_node\<lparr>on_neigh_unlinked := filter (\<lambda>n. \<exists>i \<in> set (on_ifinfo_list orig_node).
        oi_router i = Some (nn_ptr n)) (on_neigh_unlinked orig_node)\<rparr>"

definition hardif_neigh_used :: "batadv_orig_node list list \<Rightarrow> ifindex \<Rightarrow> mac \<Rightarrow> bool" where
  "hardif_neigh_used buckets i addr =
     (\<exists>head \<in> set buckets. \<exists>orig_node \<in> set head.
        \<exists>n \<in> set (on_neigh_list orig_node @ on_neigh_unlinked orig_node).
          nn_if_incoming n = i \<and> nn_addr n = addr)"

definition batadv_hardif_neigh_release ::
    "batadv_orig_node list list \<Rightarrow> batadv_hard_iface \<Rightarrow> batadv_hard_iface" where
  "batadv_hardif_neigh_release buckets hi =
     hi\<lparr>hi_neigh_list := filter (\<lambda>hn. hardif_neigh_used buckets (hi_ifindex hi) (hn_addr hn))
          (hi_neigh_list hi)\<rparr>"

definition release_neighs :: "batadv_priv \<Rightarrow> batadv_priv" where
  "release_neighs bp =
     (case bp_orig_hash bp of
        None \<Rightarrow> bp\<lparr>bp_hard_ifaces := map (batadv_hardif_neigh_release []) (bp_hard_ifaces bp)\<rparr>
      | Some hash \<Rightarrow>
          let buckets = map (map batadv_neigh_node_release) (table hash) in
          bp\<lparr>bp_orig_hash := Some (hash\<lparr>table := buckets\<rparr>),
             bp_hard_ifaces := map (batadv_hardif_neigh_release buckets) (bp_hard_ifaces bp)\<rparr>)"

section \<open>Purging\<close>

text \<open>
  An interface that left the mesh is not in use any more.
\<close>

definition if_down :: "batadv_priv \<Rightarrow> ifindex \<Rightarrow> bool" where
  "if_down bp i =
     (case hard_iface_get bp i of
        None \<Rightarrow> True
      | Some h \<Rightarrow> hi_if_status h = BATADV_IF_INACTIVE \<or> hi_if_status h = BATADV_IF_NOT_IN_USE
                  \<or> hi_if_status h = BATADV_IF_TO_BE_REMOVED)"

definition batadv_purge_neigh_ifinfo :: "batadv_priv \<Rightarrow> batadv_neigh_node \<Rightarrow> batadv_neigh_node" where
  "batadv_purge_neigh_ifinfo bp neigh =
     neigh\<lparr>nn_ifinfo_list := filter (\<lambda>neigh_ifinfo.
        case ni_if_outgoing neigh_ifinfo of
          None \<Rightarrow> True
        | Some if_outgoing \<Rightarrow> \<not> if_down bp if_outgoing) (nn_ifinfo_list neigh)\<rparr>"

definition purged_orig_ifinfo :: "batadv_priv \<Rightarrow> batadv_orig_ifinfo \<Rightarrow> bool" where
  "purged_orig_ifinfo bp orig_ifinfo =
     (case oi_if_outgoing orig_ifinfo of
        None \<Rightarrow> False
      | Some if_outgoing \<Rightarrow> if_down bp if_outgoing)"

definition batadv_purge_orig_ifinfo ::
    "batadv_priv \<Rightarrow> batadv_orig_node \<Rightarrow> bool \<times> batadv_orig_node" where
  "batadv_purge_orig_ifinfo bp orig_node =
     (let purged = filter (purged_orig_ifinfo bp) (on_ifinfo_list orig_node) in
      (purged \<noteq> [],
       orig_node\<lparr>on_ifinfo_list := filter (\<lambda>i. \<not> purged_orig_ifinfo bp i) (on_ifinfo_list orig_node),
                 on_last_bonding_candidate :=
                   (case on_last_bonding_candidate orig_node of
                      None \<Rightarrow> None
                    | Some c \<Rightarrow> if \<exists>i \<in> set purged. oi_if_outgoing i = c then None else Some c)\<rparr>))"

definition purged_neigh :: "'k kclock_scheme \<Rightarrow> batadv_priv \<Rightarrow> batadv_neigh_node \<Rightarrow> bool" where
  "purged_neigh k bp neigh_node =
     (batadv_has_timed_out (kclock.truncate k) (nn_last_seen neigh_node) BATADV_PURGE_TIMEOUT
      \<or> if_down bp (nn_if_incoming neigh_node))"

definition batadv_purge_orig_neighbors ::
    "'k kclock_scheme \<Rightarrow> batadv_priv \<Rightarrow> batadv_orig_node \<Rightarrow> bool \<times> batadv_orig_node" where
  "batadv_purge_orig_neighbors k bp orig_node =
     (let purged = filter (purged_neigh k bp) (on_neigh_list orig_node) in
      (purged \<noteq> [],
       orig_node\<lparr>on_neigh_list := map (batadv_purge_neigh_ifinfo bp)
                   (filter (\<lambda>n. \<not> purged_neigh k bp n) (on_neigh_list orig_node)),
                 on_neigh_unlinked := purged @ on_neigh_unlinked orig_node\<rparr>))"

text \<open>\<open>cmp\<close> is the routing algorithm's neighbour comparison (\<^verbatim>\<open>bao->neigh.cmp\<close>).\<close>

fun find_best_from ::
    "(batadv_neigh_node \<Rightarrow> batadv_neigh_node \<Rightarrow> int) \<Rightarrow> batadv_neigh_node option
      \<Rightarrow> batadv_neigh_node list \<Rightarrow> batadv_neigh_node option" where
  "find_best_from cmp best [] = best"
| "find_best_from cmp best (neigh # neighs) =
     (case best of
        Some b \<Rightarrow> if cmp neigh b \<le> 0 then find_best_from cmp best neighs
                  else find_best_from cmp (Some neigh) neighs
      | None \<Rightarrow> find_best_from cmp (Some neigh) neighs)"

type_synonym neigh_cmp = "batadv_neigh_node \<Rightarrow> ifref \<Rightarrow> batadv_neigh_node \<Rightarrow> ifref \<Rightarrow> int"

definition batadv_find_best_neighbor ::
    "neigh_cmp \<Rightarrow> batadv_orig_node \<Rightarrow> ifref \<Rightarrow> batadv_neigh_node option" where
  "batadv_find_best_neighbor cmp orig_node if_outgoing =
     find_best_from (\<lambda>neigh best. cmp neigh if_outgoing best if_outgoing) None
       (on_neigh_list orig_node)"

definition reroute_to_best ::
    "neigh_cmp \<Rightarrow> ifref \<Rightarrow> batadv_orig_node \<times> nat \<Rightarrow> batadv_orig_node \<times> nat" where
  "reroute_to_best cmp if_outgoing s =
     (case s of (orig_node, deleted) \<Rightarrow>
        let best = map_option nn_ptr (batadv_find_best_neighbor cmp orig_node if_outgoing);
            (orig_node', del) = batadv_update_route orig_node if_outgoing best in
        (orig_node', if del then deleted + 1 else deleted))"

definition active_ifaces :: "batadv_priv \<Rightarrow> ifref list" where
  "active_ifaces bp =
     map (\<lambda>h. Some (hi_ifindex h)) (filter (\<lambda>h. hi_if_status h = BATADV_IF_ACTIVE) (bp_hard_ifaces bp))"

text \<open>
  The result: whether the originator is to be removed, the originator, and how many routes
  were deleted (each makes the code drop the originator's translation table entries).
\<close>

definition batadv_purge_orig_node ::
    "'k kclock_scheme \<Rightarrow> neigh_cmp \<Rightarrow> batadv_priv \<Rightarrow> batadv_orig_node
      \<Rightarrow> bool \<times> batadv_orig_node \<times> nat" where
  "batadv_purge_orig_node k cmp bp orig_node =
     (if batadv_has_timed_out (kclock.truncate k) (on_last_seen orig_node) (2 * BATADV_PURGE_TIMEOUT)
      then (True, orig_node, 0)
      else
        let (changed_ifinfo, o1) = batadv_purge_orig_ifinfo bp orig_node;
            (changed_neigh, o2) = batadv_purge_orig_neighbors k bp o1 in
        if \<not> changed_ifinfo \<and> \<not> changed_neigh then (False, o2, 0)
        else let (o3, deleted) = fold (reroute_to_best cmp) (active_ifaces bp)
                                   (reroute_to_best cmp BATADV_IF_DEFAULT (o2, 0)) in
             (False, o3, deleted))"

text \<open>One bucket of the hash, then all of them; the calls are made in the order of the code.\<close>

fun purge_bucket ::
    "'k kclock_scheme \<Rightarrow> neigh_cmp \<Rightarrow> batadv_priv \<Rightarrow> batadv_orig_node list
      \<Rightarrow> batadv_orig_node list \<times> ext_call list" where
  "purge_bucket k cmp bp [] = ([], [])"
| "purge_bucket k cmp bp (orig_node # rest) =
     (case batadv_purge_orig_node k cmp bp orig_node of
        (purge, o', deleted) \<Rightarrow>
          (case purge_bucket k cmp bp rest of
             (rest', calls) \<Rightarrow>
               if purge
               then (rest', [Gw_node_delete (on_orig orig_node), Tt_global_del_orig (on_orig orig_node)]
                       @ calls)
               else (o'\<lparr>on_fragments := batadv_frag_purge_orig
                          (Some (batadv_frag_check_entry (kclock.truncate k))) (on_fragments o')\<rparr> # rest',
                     replicate deleted (Tt_global_del_orig (on_orig orig_node)) @ calls)))"

definition batadv_purge_orig_ref :: "'k kclock_scheme \<Rightarrow> neigh_cmp \<Rightarrow> batadv_priv \<Rightarrow> batadv_priv" where
  "batadv_purge_orig_ref k cmp bp =
     (case bp_orig_hash bp of
        None \<Rightarrow> bp
      | Some hash \<Rightarrow>
          let buckets = map (purge_bucket k cmp bp) (table hash) in
          release_neighs
            (bp\<lparr>bp_orig_hash := Some (hash\<lparr>table := map fst buckets\<rparr>),
                bp_calls := bp_calls bp @ concat (map snd buckets) @ [Gw_election]\<rparr>))"

text \<open>Every originator of the table is unlinked; the table is gone before that.\<close>

definition batadv_originator_free :: "batadv_priv \<Rightarrow> batadv_priv" where
  "batadv_originator_free bp =
     (case bp_orig_hash bp of None \<Rightarrow> bp | Some hash \<Rightarrow> release_neighs (bp\<lparr>bp_orig_hash := None\<rparr>))"

section \<open>The hash of originators is a map\<close>

interpretation orig_hash: hash_client on_orig batadv_compare_orig "batadv_choose_orig jh" for jh
  by unfold_locales
    (simp_all add: batadv_compare_orig_def batadv_choose_orig_def word_mod_less_divisor)

definition orig_table_ok :: "'k kenv_scheme \<Rightarrow> batadv_priv \<Rightarrow> bool" where
  "orig_table_ok k bp \<longleftrightarrow> (\<exists>h. bp_orig_hash bp = Some h \<and> orig_hash.hash_ok (jhash k) h)"

lemma orig_hash_find_eq:
  "bp_orig_hash bp = Some h \<Longrightarrow> batadv_orig_hash_find k bp a = orig_hash.hash_find (jhash k) h a"
  by (simp add: batadv_orig_hash_find_def orig_hash.hash_find_def Let_def batadv_compare_orig_def)

lemma orig_hash_find_SomeD:
  "batadv_orig_hash_find k bp a = Some orig_node \<Longrightarrow> on_orig orig_node = a"
  by (auto simp: batadv_orig_hash_find_def Let_def split: option.splits dest: find_key_SomeD)

lemma orig_node_new_orig: "batadv_orig_node_new k a = Some orig_node \<Longrightarrow> on_orig orig_node = a"
  by (auto simp: batadv_orig_node_new_def batadv_orig_node_vlan_new_def Let_def
      split: if_splits option.splits)

lemma orig_get_cases:
  assumes "orig_table_ok k bp" and "batadv_v_ogm_orig_get k bp a = (r, bp')"
  shows "orig_table_ok k bp' \<and>
    (case batadv_orig_hash_find k bp a of
       Some orig_node \<Rightarrow> r = Some orig_node \<and> bp' = bp
     | None \<Rightarrow> r = batadv_orig_node_new k a
         \<and> (batadv_orig_hash_find k bp' = (batadv_orig_hash_find k bp)(a := r)))"
proof -
  obtain h where h: "bp_orig_hash bp = Some h" "orig_hash.hash_ok (jhash k) h"
    using assms(1) by (auto simp: orig_table_ok_def)
  have ok: "orig_table_ok k bp" by (rule assms(1))
  have find: "batadv_orig_hash_find k bp = orig_hash.hash_find (jhash k) h"
    using orig_hash_find_eq [OF h(1)] by blast
  show ?thesis
  proof (cases "batadv_orig_hash_find k bp a")
    case (Some orig_node)
    then show ?thesis using assms(2) ok
      by (auto simp: batadv_v_ogm_orig_get_def split: option.splits)
  next
    case None
    show ?thesis
    proof (cases "batadv_orig_node_new k a")
      case new: None
      then show ?thesis using assms(2) None ok by (auto simp: batadv_v_ogm_orig_get_def)
    next
      case (Some n)
      have key: "on_orig n = a" using orig_node_new_orig [OF Some] .
      let ?h = "orig_hash.add (jhash k) a n h"
      have add: "batadv_hash_add (Some h) batadv_compare_orig (batadv_choose_orig (jhash k)) a n =
          (0, Some ?h)"
        using None key
        by (auto simp: orig_hash.add_def batadv_hash_add_def Let_def find batadv_compare_orig_def
            orig_hash.hash_find_def find_None_iff)
      have r: "r = Some n" "bp' = bp\<lparr>bp_orig_hash := Some ?h\<rparr>"
        using assms(2) None Some add h(1) by (auto simp: batadv_v_ogm_orig_get_def)
      have "batadv_orig_hash_find k bp' = (batadv_orig_hash_find k bp)(a \<mapsto> n)"
        using orig_hash.add_find [OF h(2), of a n] orig_hash_find_eq [of bp' ?h k] None key
        by (auto simp: r find fun_eq_iff)
      moreover have "orig_table_ok k bp'"
        using orig_hash.add_ok [OF h(2)] by (auto simp: r orig_table_ok_def)
      ultimately show ?thesis using None Some r by simp
    qed
  qed
qed

lemma orig_upd_find:
  assumes "orig_table_ok k bp" and "\<And>orig_node. on_orig (f orig_node) = on_orig orig_node"
  shows "orig_table_ok k (orig_upd k a f bp)"
    and "batadv_orig_hash_find k (orig_upd k a f bp) =
           (batadv_orig_hash_find k bp)(a := map_option f (batadv_orig_hash_find k bp a))"
proof -
  obtain h where h: "bp_orig_hash bp = Some h" "orig_hash.hash_ok (jhash k) h"
    using assms(1) by (auto simp: orig_table_ok_def)
  let ?h = "orig_hash.upd (jhash k) a f h"
  have upd: "orig_upd k a f bp = bp\<lparr>bp_orig_hash := Some ?h\<rparr>"
    by (simp add: orig_upd_def h orig_hash.upd_def Let_def)
  show "orig_table_ok k (orig_upd k a f bp)"
    using orig_hash.upd_ok [OF h(2), of a f] assms(2) by (simp add: orig_table_ok_def upd)
  have "batadv_orig_hash_find k (bp\<lparr>bp_orig_hash := Some ?h\<rparr>) = orig_hash.hash_find (jhash k) ?h"
    by (rule ext) (rule orig_hash_find_eq, simp)
  moreover have "batadv_orig_hash_find k bp = orig_hash.hash_find (jhash k) h"
    by (rule ext) (rule orig_hash_find_eq [OF h(1)])
  ultimately show "batadv_orig_hash_find k (orig_upd k a f bp) =
      (batadv_orig_hash_find k bp)(a := map_option f (batadv_orig_hash_find k bp a))"
    using orig_hash.upd_find [OF h(2), of a f] assms(2) by (simp only: upd)
qed

lemma neigh_node_release_simps [simp]:
  "on_orig (batadv_neigh_node_release o1) = on_orig o1"
  "on_ifinfo_list (batadv_neigh_node_release o1) = on_ifinfo_list o1"
  by (simp_all add: batadv_neigh_node_release_def)

lemma release_neighs_find:
  assumes "orig_table_ok k bp"
  shows "orig_table_ok k (release_neighs bp)"
    and "batadv_orig_hash_find k (release_neighs bp) a =
      map_option batadv_neigh_node_release (batadv_orig_hash_find k bp a)"
proof -
  obtain h where h: "bp_orig_hash bp = Some h" "orig_hash.hash_ok (jhash k) h"
    using assms by (auto simp: orig_table_ok_def)
  let ?h = "h\<lparr>table := map (map batadv_neigh_node_release) (table h)\<rparr>"
  have r: "bp_orig_hash (release_neighs bp) = Some ?h"
    by (simp add: release_neighs_def h Let_def)
  have sz: "0 < hash_size h" "length (table h) = unat (hash_size h)"
    using h(2) by (auto simp: orig_hash.hash_ok_def)
  have "unat (batadv_choose_orig (jhash k) a (hash_size h)) < unat (hash_size h)"
    using sz(1) by (simp add: batadv_choose_orig_def unat_mod word_less_nat_alt)
  then have b: "hash_bucket ?h (batadv_choose_orig (jhash k) a (hash_size h)) =
      map batadv_neigh_node_release (hash_bucket h (batadv_choose_orig (jhash k) a (hash_size h)))"
    by (simp add: hash_bucket_def sz)
  show "batadv_orig_hash_find k (release_neighs bp) a =
      map_option batadv_neigh_node_release (batadv_orig_hash_find k bp a)"
    using b by (simp add: batadv_orig_hash_find_def r h Let_def find_map_key)
  have "orig_hash.hash_ok (jhash k) ?h"
    using h(2) by (auto simp: orig_hash.hash_ok_def comp_def)
  then show "orig_table_ok k (release_neighs bp)" using r by (simp add: orig_table_ok_def)
qed

section \<open>The invariant of an originator\<close>

abbreviation orig_neighs :: "batadv_orig_node \<Rightarrow> batadv_neigh_node list" where
  "orig_neighs orig_node \<equiv> on_neigh_list orig_node @ on_neigh_unlinked orig_node"

definition neigh_key :: "batadv_neigh_node \<Rightarrow> mac \<times> ifindex" where
  "neigh_key n = (nn_addr n, nn_if_incoming n)"

definition routers_valid :: "batadv_orig_node \<Rightarrow> bool" where
  "routers_valid orig_node \<longleftrightarrow> (\<forall>i \<in> set (on_ifinfo_list orig_node). \<forall>p.
     oi_router i = Some p \<longrightarrow> p \<in> nn_ptr ` set (orig_neighs orig_node))"

definition bonding_valid :: "batadv_orig_node \<Rightarrow> bool" where
  "bonding_valid orig_node \<longleftrightarrow> (\<forall>c. on_last_bonding_candidate orig_node = Some c \<longrightarrow>
     c \<in> oi_if_outgoing ` set (on_ifinfo_list orig_node))"

text \<open>
  One interface record per outgoing interface, one neighbour per address and interface, one
  VLAN object per identifier; neighbour objects have distinct addresses and belong to this
  originator; every router and the bonding candidate point to live objects.
\<close>

definition orig_wf :: "batadv_orig_node \<Rightarrow> bool" where
  "orig_wf orig_node \<longleftrightarrow>
     distinct (map oi_if_outgoing (on_ifinfo_list orig_node))
   \<and> distinct (map nn_ptr (orig_neighs orig_node))
   \<and> distinct (map neigh_key (on_neigh_list orig_node))
   \<and> distinct (map ov_vid (on_vlan_list orig_node))
   \<and> (\<forall>n \<in> set (orig_neighs orig_node). nn_orig_node n = on_orig orig_node)
   \<and> routers_valid orig_node \<and> bonding_valid orig_node"

lemmas orig_wf_defs = orig_wf_def routers_valid_def bonding_valid_def

lemma orig_wf_router_deref:
  assumes "orig_wf orig_node" and "batadv_orig_router_get orig_node i = Some p"
  shows "\<exists>n. neigh_deref orig_node p = Some n \<and> nn_ptr n = p \<and> n \<in> set (orig_neighs orig_node)"
proof -
  have "p \<in> nn_ptr ` set (orig_neighs orig_node)"
    using assms unfolding orig_wf_defs batadv_orig_router_get_def
    by (auto split: option.splits dest!: find_key_SomeD)
  then have "neigh_deref orig_node p \<noteq> None"
    unfolding neigh_deref_def by (metis find_key_notin)
  then obtain n where "neigh_deref orig_node p = Some n" by auto
  then show ?thesis unfolding neigh_deref_def by (auto dest: find_key_SomeD)
qed

lemma wf_orig_node_new: "batadv_orig_node_new k a = Some orig_node \<Longrightarrow> orig_wf orig_node"
  by (auto simp: batadv_orig_node_new_def batadv_orig_node_vlan_new_def Let_def orig_wf_defs
      batadv_orig_node_vlan_get_def split: if_splits option.splits)

lemma wf_vlan_new: "orig_wf orig_node \<Longrightarrow> orig_wf (snd (batadv_orig_node_vlan_new k orig_node vid))"
  by (auto simp: batadv_orig_node_vlan_new_def Let_def orig_wf_defs batadv_orig_node_vlan_get_def
      find_None_iff split: option.splits)

lemma wf_orig_ifinfo_new:
  "orig_wf orig_node \<Longrightarrow> orig_wf (snd (batadv_orig_ifinfo_new k orig_node i))"
  by (auto simp: batadv_orig_ifinfo_new_def Let_def orig_wf_defs batadv_orig_ifinfo_get_def
      find_None_iff split: option.splits)

lemma set_hlist_upd_first:
  "x \<in> set (hlist_upd_first P f xs) \<Longrightarrow> x \<in> set xs \<or> (\<exists>y \<in> set xs. P y \<and> x = f y)"
  by (induction xs) (auto split: if_splits)

lemma wf_orig_ifinfo_upd:
  assumes "orig_wf orig_node" and "\<And>i. oi_if_outgoing (f i) = oi_if_outgoing i"
    and "\<And>i p. oi_router (f i) = Some p \<Longrightarrow> oi_router i \<noteq> Some p \<Longrightarrow>
           p \<in> nn_ptr ` set (orig_neighs orig_node)"
  shows "orig_wf (orig_ifinfo_upd if_outgoing f orig_node)"
proof -
  let ?l = "hlist_upd_first (\<lambda>tmp. oi_if_outgoing tmp = if_outgoing) f (on_ifinfo_list orig_node)"
  have keys: "map oi_if_outgoing ?l = map oi_if_outgoing (on_ifinfo_list orig_node)"
    by (rule map_hlist_upd_first) (rule assms(2))
  then have "oi_if_outgoing ` set ?l = oi_if_outgoing ` set (on_ifinfo_list orig_node)"
    by (metis list.set_map)
  moreover have "p \<in> nn_ptr ` set (orig_neighs orig_node)"
    if "i \<in> set ?l" "oi_router i = Some p" for i p
    using set_hlist_upd_first [OF that(1)] that(2) assms(1,3) unfolding orig_wf_defs by blast
  ultimately show ?thesis
    using assms(1) keys unfolding orig_wf_defs orig_ifinfo_upd_def by simp
qed

lemma wf_neigh_upd:
  assumes "orig_wf orig_node" and "\<And>n. nn_ptr (f n) = nn_ptr n" and "\<And>n. neigh_key (f n) = neigh_key n"
    and "\<And>n. nn_orig_node (f n) = nn_orig_node n"
  shows "orig_wf (neigh_upd p f orig_node)"
proof -
  let ?u = "hlist_upd_first (\<lambda>n. nn_ptr n = p) f"
  have m: "map nn_ptr (?u xs) = map nn_ptr xs" "map neigh_key (?u xs) = map neigh_key xs"
    "map nn_orig_node (?u xs) = map nn_orig_node xs" for xs
    using assms(2-4) by (simp_all add: map_hlist_upd_first)
  then have s: "nn_ptr ` set (?u xs) = nn_ptr ` set xs"
    "nn_orig_node ` set (?u xs) = nn_orig_node ` set xs" for xs
    by (metis list.set_map)+
  have o: "(\<forall>n \<in> set (?u xs). nn_orig_node n = a) \<longleftrightarrow> (\<forall>n \<in> set xs. nn_orig_node n = a)" for xs a
    using s(2) [of xs] by (metis (no_types, lifting) imageE imageI)
  show ?thesis
    using assms(1) unfolding orig_wf_defs neigh_upd_def
    by (simp add: m s image_Un ball_Un o flip: set_map)
qed

lemma wf_update_route:
  assumes "orig_wf orig_node" and "\<And>p. np = Some p \<Longrightarrow> p \<in> nn_ptr ` set (orig_neighs orig_node)"
  shows "orig_wf (fst (batadv_update_route orig_node i np))"
  using assms
  by (auto simp: batadv_update_route_def set_route_def Let_def split: option.splits
      intro!: wf_orig_ifinfo_upd)

lemma wf_add_neigh:
  assumes "orig_wf orig_node" and "nn_ptr n \<notin> nn_ptr ` set (orig_neighs orig_node)"
    and "neigh_key n \<notin> neigh_key ` set (on_neigh_list orig_node)"
    and "nn_orig_node n = on_orig orig_node"
  shows "orig_wf (orig_node\<lparr>on_neigh_list := n # on_neigh_list orig_node\<rparr>)"
  using assms unfolding orig_wf_defs by simp blast

lemma wf_neigh_get_or_create:
  assumes "orig_wf orig_node"
    and "\<And>p. new_neigh_ptr k = Some p \<Longrightarrow> p \<notin> nn_ptr ` set (orig_neighs orig_node)"
    and "batadv_neigh_node_get_or_create k init orig_node hi a = (r, orig_node', hi')"
  shows "orig_wf orig_node'" and "\<And>p. r = Some p \<Longrightarrow> p \<in> nn_ptr ` set (on_neigh_list orig_node')"
proof -
  have none: "batadv_neigh_node_get orig_node (hi_ifindex hi) a = None \<Longrightarrow>
      (a, hi_ifindex hi) \<notin> neigh_key ` set (on_neigh_list orig_node)"
    by (auto simp: batadv_neigh_node_get_def neigh_key_def find_None_iff)
  show "orig_wf orig_node'"
    using assms none
    by (auto simp: batadv_neigh_node_get_or_create_def batadv_neigh_node_create_def Let_def
        neigh_key_def split: option.splits prod.splits intro!: wf_add_neigh)
  show "\<And>p. r = Some p \<Longrightarrow> p \<in> nn_ptr ` set (on_neigh_list orig_node')"
    using assms(3)
    by (auto simp: batadv_neigh_node_get_or_create_def batadv_neigh_node_create_def Let_def
        batadv_neigh_node_get_def split: option.splits prod.splits dest: find_key_SomeD)
qed

lemma wf_purge_orig_ifinfo:
  "orig_wf orig_node \<Longrightarrow> orig_wf (snd (batadv_purge_orig_ifinfo bp orig_node))"
  unfolding orig_wf_defs batadv_purge_orig_ifinfo_def Let_def
  by (auto simp: distinct_map_filter image_iff split: option.splits if_splits) metis+

lemma purge_neigh_ifinfo_simps [simp]:
  "nn_ptr (batadv_purge_neigh_ifinfo bp n) = nn_ptr n"
  "neigh_key (batadv_purge_neigh_ifinfo bp n) = neigh_key n"
  "nn_orig_node (batadv_purge_neigh_ifinfo bp n) = nn_orig_node n"
  by (simp_all add: batadv_purge_neigh_ifinfo_def neigh_key_def)

lemma wf_purge_orig_neighbors:
  assumes "orig_wf orig_node"
  shows "orig_wf (snd (batadv_purge_orig_neighbors k bp orig_node))"
proof -
  let ?o = "snd (batadv_purge_orig_neighbors k bp orig_node)"
  let ?l = "filter (\<lambda>n. \<not> purged_neigh k bp n) (on_neigh_list orig_node)"
  let ?p = "filter (purged_neigh k bp) (on_neigh_list orig_node)"
  have comp: "nn_ptr \<circ> batadv_purge_neigh_ifinfo bp = nn_ptr"
    "neigh_key \<circ> batadv_purge_neigh_ifinfo bp = neigh_key" by (simp_all add: fun_eq_iff)
  have o: "on_neigh_list ?o = map (batadv_purge_neigh_ifinfo bp) ?l"
    "on_neigh_unlinked ?o = ?p @ on_neigh_unlinked orig_node" "on_orig ?o = on_orig orig_node"
    "on_ifinfo_list ?o = on_ifinfo_list orig_node" "on_vlan_list ?o = on_vlan_list orig_node"
    "on_last_bonding_candidate ?o = on_last_bonding_candidate orig_node"
    by (simp_all add: batadv_purge_orig_neighbors_def Let_def)
  have "set ?l \<union> set ?p = set (on_neigh_list orig_node)" by auto
  then have ptrs: "nn_ptr ` set (orig_neighs ?o) = nn_ptr ` set (orig_neighs orig_node)"
    unfolding o by (auto simp: image_Un image_image)
  have "mset (map nn_ptr (orig_neighs ?o)) = mset (map nn_ptr (orig_neighs orig_node))"
  proof -
    have "mset ?l + mset ?p = mset (on_neigh_list orig_node)"
      by (induction "on_neigh_list orig_node") simp_all
    then have "image_mset nn_ptr (mset ?l) + image_mset nn_ptr (mset ?p) =
        image_mset nn_ptr (mset (on_neigh_list orig_node))"
      by (metis image_mset_union)
    then show ?thesis unfolding o by (simp add: comp add.assoc [symmetric] del: mset_filter)
  qed
  then have "distinct (map nn_ptr (orig_neighs ?o))"
    using assms mset_eq_imp_distinct_iff unfolding orig_wf_def by blast
  moreover have "distinct (map neigh_key (on_neigh_list ?o))"
    using assms unfolding o orig_wf_def by (simp add: comp distinct_map_filter)
  moreover have "\<forall>n \<in> set (orig_neighs ?o). nn_orig_node n = on_orig ?o"
    using assms unfolding o orig_wf_def by auto
  moreover have "routers_valid ?o" "bonding_valid ?o"
    using assms ptrs unfolding orig_wf_defs o(4,6) by simp_all
  ultimately show ?thesis
    using assms unfolding orig_wf_def [of ?o] o(4,5) by (simp add: orig_wf_def)
qed

lemma find_best_from_in:
  "find_best_from cmp best xs = Some b \<Longrightarrow> best = Some b \<or> b \<in> set xs"
  by (induction xs arbitrary: best) (auto split: option.splits if_splits)

lemma find_best_neighbor_in:
  "batadv_find_best_neighbor cmp orig_node i = Some b \<Longrightarrow> b \<in> set (on_neigh_list orig_node)"
  using find_best_from_in unfolding batadv_find_best_neighbor_def by fastforce

lemma fst_reroute:
  "fst (reroute_to_best cmp i s) = fst (batadv_update_route (fst s) i
     (map_option nn_ptr (batadv_find_best_neighbor cmp (fst s) i)))"
  by (simp add: reroute_to_best_def Let_def split: prod.splits)

lemma wf_reroute_to_best: "orig_wf (fst s) \<Longrightarrow> orig_wf (fst (reroute_to_best cmp i s))"
  unfolding fst_reroute
  by (rule wf_update_route) (auto dest!: find_best_neighbor_in)

lemma wf_fold_reroute: "orig_wf (fst s) \<Longrightarrow> orig_wf (fst (fold (reroute_to_best cmp) is s))"
  by (induction "is" arbitrary: s) (simp_all add: wf_reroute_to_best)

lemma wf_purge_orig_node:
  assumes "orig_wf orig_node"
  shows "orig_wf (fst (snd (batadv_purge_orig_node k cmp bp orig_node)))"
proof -
  obtain c1 o1 where 1: "batadv_purge_orig_ifinfo bp orig_node = (c1, o1)" by (metis prod.exhaust)
  obtain c2 o2 where 2: "batadv_purge_orig_neighbors k bp o1 = (c2, o2)" by (metis prod.exhaust)
  have "orig_wf o2"
    using wf_purge_orig_ifinfo [OF assms, of bp] wf_purge_orig_neighbors [of o1 k bp] 1 2 by simp
  then have "orig_wf (fst (fold (reroute_to_best cmp) (active_ifaces bp)
      (reroute_to_best cmp BATADV_IF_DEFAULT (o2, 0))))"
    by (intro wf_fold_reroute wf_reroute_to_best) simp
  then show ?thesis
    using assms \<open>orig_wf o2\<close> 1 2
    by (auto simp: batadv_purge_orig_node_def split: prod.splits)
qed

lemma wf_neigh_node_release:
  assumes "orig_wf orig_node" shows "orig_wf (batadv_neigh_node_release orig_node)"
proof -
  let ?P = "\<lambda>n. \<exists>i \<in> set (on_ifinfo_list orig_node). oi_router i = Some (nn_ptr n)"
  let ?o = "batadv_neigh_node_release orig_node"
  have u: "on_neigh_unlinked ?o = filter ?P (on_neigh_unlinked orig_node)"
    "on_neigh_list ?o = on_neigh_list orig_node" "on_ifinfo_list ?o = on_ifinfo_list orig_node"
    "on_vlan_list ?o = on_vlan_list orig_node" "on_orig ?o = on_orig orig_node"
    "on_last_bonding_candidate ?o = on_last_bonding_candidate orig_node"
    by (simp_all add: batadv_neigh_node_release_def)
  have "routers_valid ?o"
    unfolding routers_valid_def
  proof (intro ballI allI impI)
    fix i p assume i: "i \<in> set (on_ifinfo_list ?o)" "oi_router i = Some p"
    then obtain n where "n \<in> set (orig_neighs orig_node)" "nn_ptr n = p"
      using assms unfolding orig_wf_defs u(3) by fastforce
    with i show "p \<in> nn_ptr ` set (orig_neighs ?o)" by (auto simp: u)
  qed
  moreover have "distinct (map nn_ptr (orig_neighs ?o))"
    using assms unfolding orig_wf_def u(1,2)
    by (simp add: distinct_map_filter) blast
  ultimately show ?thesis
    using assms unfolding orig_wf_def u(2-5) bonding_valid_def u(1,3,6) by auto
qed

section \<open>Routes after a purge\<close>

lemma update_route_neigh_list [simp]:
  "on_neigh_list (fst (batadv_update_route orig_node i np)) = on_neigh_list orig_node"
  by (auto simp: batadv_update_route_def set_route_def orig_ifinfo_upd_def Let_def
      split: option.splits)

lemma router_get_update_route:
  "batadv_orig_router_get (fst (batadv_update_route orig_node i np)) j =
     (if j = i \<and> batadv_orig_ifinfo_get orig_node i \<noteq> None then np
      else batadv_orig_router_get orig_node j)"
  by (auto simp: batadv_update_route_def set_route_def orig_ifinfo_upd_def Let_def
      batadv_orig_router_get_def batadv_orig_ifinfo_get_def find_key_upd_first
      split: option.splits)

lemma ifinfo_get_update_route:
  "batadv_orig_ifinfo_get (fst (batadv_update_route orig_node i np)) j = None \<longleftrightarrow>
     batadv_orig_ifinfo_get orig_node j = None"
  by (auto simp: batadv_update_route_def set_route_def orig_ifinfo_upd_def Let_def
      batadv_orig_ifinfo_get_def find_key_upd_first split: option.splits)

definition routed_to_best :: "neigh_cmp \<Rightarrow> batadv_orig_node \<Rightarrow> ifref \<Rightarrow> bool" where
  "routed_to_best cmp orig_node i \<longleftrightarrow>
     batadv_orig_ifinfo_get orig_node i \<noteq> None \<longrightarrow>
     batadv_orig_router_get orig_node i = map_option nn_ptr (batadv_find_best_neighbor cmp orig_node i)"

lemma reroute_routed:
  "routed_to_best cmp (fst s) j \<or> j = i \<Longrightarrow> routed_to_best cmp (fst (reroute_to_best cmp i s)) j"
  by (auto simp: routed_to_best_def fst_reroute router_get_update_route ifinfo_get_update_route
      batadv_find_best_neighbor_def)

lemma fold_reroute_routed:
  "routed_to_best cmp (fst s) j \<or> j \<in> set is \<Longrightarrow>
     routed_to_best cmp (fst (fold (reroute_to_best cmp) is s)) j"
proof (induction "is" arbitrary: s)
  case (Cons i "is")
  then have "routed_to_best cmp (fst (reroute_to_best cmp i s)) j \<or> j \<in> set is"
    using reroute_routed [of cmp s j i] by auto
  then show ?case using Cons.IH [of "reroute_to_best cmp i s"] by simp
qed simp

lemma fold_reroute_neigh_list:
  "on_neigh_list (fst (fold (reroute_to_best cmp) is s)) = on_neigh_list (fst s)"
  by (induction "is" arbitrary: s) (simp_all add: fst_reroute)

lemma purge_orig_node_result:
  assumes "batadv_purge_orig_node k cmp bp orig_node = (False, orig_node', deleted)"
  shows "\<forall>n \<in> set (on_neigh_list orig_node'). \<not> if_down bp (nn_if_incoming n)
      \<and> \<not> batadv_has_timed_out (kclock.truncate k) (nn_last_seen n) BATADV_PURGE_TIMEOUT"
    and "(\<exists>n \<in> set (on_neigh_list orig_node). purged_neigh k bp n)
         \<or> (\<exists>i \<in> set (on_ifinfo_list orig_node). purged_orig_ifinfo bp i) \<Longrightarrow>
       i \<in> set (BATADV_IF_DEFAULT # active_ifaces bp) \<Longrightarrow> routed_to_best cmp orig_node' i"
proof -
  define o1 where "o1 = snd (batadv_purge_orig_ifinfo bp orig_node)"
  define o2 where "o2 = snd (batadv_purge_orig_neighbors k bp o1)"
  define o3 where "o3 = fold (reroute_to_best cmp) (active_ifaces bp)
                          (reroute_to_best cmp BATADV_IF_DEFAULT (o2, 0))"
  define c where "c \<longleftrightarrow> fst (batadv_purge_orig_ifinfo bp orig_node)
                      \<or> fst (batadv_purge_orig_neighbors k bp o1)"
  have o': "orig_node' = (if c then fst o3 else o2)"
    using assms by (auto simp: batadv_purge_orig_node_def o1_def o2_def o3_def c_def
        case_prod_beta Let_def split: if_splits)
  have l1: "on_neigh_list o1 = on_neigh_list orig_node"
    by (simp add: o1_def batadv_purge_orig_ifinfo_def Let_def)
  have "on_neigh_list orig_node' = on_neigh_list o2"
    by (simp add: o' o3_def fold_reroute_neigh_list fst_reroute)
  then show "\<forall>n \<in> set (on_neigh_list orig_node'). \<not> if_down bp (nn_if_incoming n)
      \<and> \<not> batadv_has_timed_out (kclock.truncate k) (nn_last_seen n) BATADV_PURGE_TIMEOUT"
    by (auto simp: o2_def batadv_purge_orig_neighbors_def Let_def purged_neigh_def
        batadv_purge_neigh_ifinfo_def)
  assume ch: "(\<exists>n \<in> set (on_neigh_list orig_node). purged_neigh k bp n)
         \<or> (\<exists>i \<in> set (on_ifinfo_list orig_node). purged_orig_ifinfo bp i)"
    and i: "i \<in> set (BATADV_IF_DEFAULT # active_ifaces bp)"
  have c: c
    using ch l1 by (auto simp: c_def batadv_purge_orig_ifinfo_def batadv_purge_orig_neighbors_def
        Let_def filter_empty_conv)
  have "routed_to_best cmp (fst o3) i"
    unfolding o3_def by (rule fold_reroute_routed) (use i reroute_routed in auto)
  then show "routed_to_best cmp orig_node' i" by (simp add: o' c)
qed

section \<open>Comparing neighbours\<close>

text \<open>
  What the purge relies on when it asks the routing algorithm which of two neighbours is
  better: on neighbours with a usable metric the comparison follows a cost.
\<close>

locale neigh_order =
  fixes cmp :: neigh_cmp and cost :: "batadv_neigh_node \<Rightarrow> ifref \<Rightarrow> nat"
    and good :: "batadv_neigh_node \<Rightarrow> ifref \<Rightarrow> bool"
  assumes cmp_le: "good a i \<Longrightarrow> good b i \<Longrightarrow> cmp a i b i \<le> 0 \<longleftrightarrow> cost b i \<le> cost a i"
begin

lemma find_best_from_min:
  assumes "\<forall>n \<in> set xs. good n i" and "\<forall>b. best = Some b \<longrightarrow> good b i"
    and "find_best_from (\<lambda>a b. cmp a i b i) best xs = Some r"
  shows "(\<forall>n \<in> set xs. cost r i \<le> cost n i) \<and> (\<forall>b. best = Some b \<longrightarrow> cost r i \<le> cost b i)"
  using assms
proof (induction xs arbitrary: best)
  case (Cons n xs)
  show ?case
  proof (cases best)
    case None
    then show ?thesis using Cons.IH [of "Some n"] Cons.prems by auto
  next
    case (Some b)
    then have "cmp n i b i \<le> 0 \<longleftrightarrow> cost b i \<le> cost n i"
      using Cons.prems by (intro cmp_le) auto
    then show ?thesis
      using Some Cons.IH [of "Some n"] Cons.IH [of "Some b"] Cons.prems by (auto split: if_splits)
  qed
qed auto

lemma best_neighbor_min:
  assumes "\<forall>n \<in> set (on_neigh_list orig_node). good n i"
    and "batadv_find_best_neighbor cmp orig_node i = Some b"
  shows "b \<in> set (on_neigh_list orig_node)"
    and "\<forall>n \<in> set (on_neigh_list orig_node). cost b i \<le> cost n i"
  using assms find_best_from_min [of "on_neigh_list orig_node" i None b] find_best_neighbor_in
  by (auto simp: batadv_find_best_neighbor_def)

end

lemma find_best_from_Some: "\<exists>b. find_best_from cmp (Some a) xs = Some b"
  by (induction xs arbitrary: a) auto

lemma find_best_neighbor_None:
  "batadv_find_best_neighbor cmp orig_node i = None \<longleftrightarrow> on_neigh_list orig_node = []"
proof (cases "on_neigh_list orig_node")
  case (Cons n ns)
  then show ?thesis
    using find_best_from_Some [of "\<lambda>a b. cmp a i b i" n ns]
    by (auto simp: batadv_find_best_neighbor_def)
qed (simp add: batadv_find_best_neighbor_def)

section \<open>The life of an originator\<close>

text \<open>
  Everything the module does to an originator it holds, step by step: the operations above,
  and the writes of the protocol handlers to interface records, neighbours and the bonding
  candidate. The allocator returns the address of an object that is not in use.
\<close>

inductive orig_step :: "batadv_orig_node \<Rightarrow> batadv_orig_node \<Rightarrow> bool" where
  step_vlan: "orig_step orig (snd (batadv_orig_node_vlan_new (k :: kenv) orig vid))"
| step_ifinfo: "orig_step orig (snd (batadv_orig_ifinfo_new (k :: kenv) orig i))"
| step_neigh: "batadv_neigh_node_get_or_create (k :: kenv) init orig hi a = (r, orig', hi') \<Longrightarrow>
    (\<And>p. new_neigh_ptr k = Some p \<Longrightarrow> p \<notin> nn_ptr ` set (orig_neighs orig)) \<Longrightarrow> orig_step orig orig'"
| step_route: "(\<And>p. np = Some p \<Longrightarrow> p \<in> nn_ptr ` set (on_neigh_list orig)) \<Longrightarrow>
    orig_step orig (fst (batadv_update_route orig i np))"
| step_write_ifinfo: "(\<And>i. oi_if_outgoing (f i) = oi_if_outgoing i) \<Longrightarrow>
    (\<And>i. oi_router (f i) = oi_router i) \<Longrightarrow> orig_step orig (orig_ifinfo_upd i f orig)"
| step_write_neigh: "(\<And>n. nn_ptr (g n) = nn_ptr n) \<Longrightarrow> (\<And>n. nn_addr (g n) = nn_addr n) \<Longrightarrow>
    (\<And>n. nn_if_incoming (g n) = nn_if_incoming n) \<Longrightarrow> (\<And>n. nn_orig_node (g n) = nn_orig_node n) \<Longrightarrow>
    orig_step orig (neigh_upd p g orig)"
| step_bonding: "(\<And>i. c = Some i \<Longrightarrow> batadv_orig_ifinfo_get orig i \<noteq> None) \<Longrightarrow>
    orig_step orig (orig\<lparr>on_last_bonding_candidate := c\<rparr>)"
| step_purge: "orig_step orig (fst (snd (batadv_purge_orig_node (k :: kenv) cmp bp orig)))"
| step_release: "orig_step orig (batadv_neigh_node_release orig)"

inductive_cases orig_stepE: "orig_step orig orig'"

lemma orig_step_wf:
  assumes "orig_step orig orig'" and "orig_wf orig" shows "orig_wf orig'"
  using assms
proof (induction rule: orig_step.induct)
  case (step_neigh k init orig hi a r orig' hi')
  show ?case by (rule wf_neigh_get_or_create(1) [OF step_neigh(3,2,1)])
next
  case (step_bonding c orig)
  have "c = Some i \<Longrightarrow> i \<in> oi_if_outgoing ` set (on_ifinfo_list orig)" for i
    using step_bonding(1) [of i] unfolding batadv_orig_ifinfo_get_def find_key_notin by blast
  then show ?case using step_bonding(2) unfolding orig_wf_defs by simp
next
  case (step_route np orig i)
  then show ?case by (intro wf_update_route) auto
next
  case (step_write_ifinfo f orig i)
  then show ?case by (intro wf_orig_ifinfo_upd) simp_all
qed (simp_all add: wf_vlan_new wf_orig_ifinfo_new wf_neigh_upd
    neigh_key_def wf_purge_orig_node wf_neigh_node_release)

lemma orig_reachable_wf: "orig_step\<^sup>*\<^sup>* orig orig' \<Longrightarrow> orig_wf orig \<Longrightarrow> orig_wf orig'"
  by (induction rule: rtranclp_induct) (auto intro: orig_step_wf)

section \<open>Properties\<close>

text \<open>
  From the creation of an originator on, its invariant holds: interface records, neighbours and
  VLANs are unique, and every router is one of its neighbour objects. That an object lives
  as long as a router refers to it is how the model treats releases (above).
\<close>

lemma orig_routers_alive:
  assumes "batadv_orig_node_new k a = Some orig" and "orig_step\<^sup>*\<^sup>* orig orig'"
  shows "orig_wf orig' \<and>
    (\<forall>i p. batadv_orig_router_get orig' i = Some p \<longrightarrow>
       (\<exists>n. neigh_deref orig' p = Some n \<and> nn_ptr n = p \<and> nn_orig_node n = on_orig orig'))"
proof -
  have wf: "orig_wf orig'" using assms wf_orig_node_new orig_reachable_wf by blast
  then show ?thesis using orig_wf_router_deref [OF wf] by (fastforce simp: orig_wf_def)
qed

definition ex_kenv :: kenv where
  "ex_kenv = \<lparr>jiffies = 1000, msecs_to_jiffies = of_nat, jhash = (\<lambda>bs iv. 0),
     jiffies_to_msecs = unat, kalloc_ok = (\<lambda>s. True), new_neigh_ptr = Some 1\<rparr>"

text \<open>
  C15: The originator table is a map in which a known originator is never replaced: asking
  for an address returns the stored originator and changes nothing when there is one, else
  it adds a fresh one for exactly that address (or, when an allocation fails, changes
  nothing), and keeps the table consistent, whatever the hash function is.
\<close>

theorem orig_get_spec:
  assumes "orig_table_ok k bp" and "batadv_v_ogm_orig_get k bp a = (r, bp')"
  shows "orig_table_ok k bp'
    \<and> batadv_orig_hash_find k bp' =
        (case batadv_orig_hash_find k bp a of
           Some orig_node \<Rightarrow> batadv_orig_hash_find k bp
         | None \<Rightarrow> (batadv_orig_hash_find k bp)(a := batadv_orig_node_new k a))
    \<and> r = batadv_orig_hash_find k bp' a"
  using orig_get_cases [OF assms] by (auto split: option.splits)

definition ex_priv :: batadv_priv where
  "ex_priv = \<lparr>bp_mesh_state = BATADV_MESH_ACTIVE, bp_hard_ifaces = [], bp_primary_if = None,
     bp_orig_hash = Some (batadv_hash_init 2), bp_algo_name = ''BATMAN_V'', bp_aggregated_ogms = 1,
     bp_bonding = 0, bp_hop_penalty = 30, bp_orig_interval = 1000, bp_node_priority = 128,
     bp_duty_cycle = 100, bp_power_class = 1,
     bp_bat_v = \<lparr>ogm_buff = None, ogm_buff_len = 0, ogm_seqno = 0, ogm_wq_pending = False\<rparr>,
     bp_gw = \<lparr>gw_gateway_list = [], gw_unlinked = [], gw_curr_gw = None, gw_generation = 0,
       gw_mode = BATADV_GW_MODE_CLIENT, gw_sel_class = 50, gw_bandwidth_down = 100, gw_bandwidth_up = 20,
       gw_reselect = 0\<rparr>,
     bp_tvlv_container_list = [], bp_bat_counters = (\<lambda>c. 0), bp_calls = []\<rparr>"

lemma ex_priv_ok: "orig_table_ok k ex_priv"
  using orig_hash.new_ok [of 2 "jhash k"] by (simp add: orig_table_ok_def ex_priv_def)

lemma ex_priv_find: "batadv_orig_hash_find k ex_priv a = None"
  using orig_hash.new_ok [of 2 "jhash k" a] orig_hash_find_eq [of ex_priv "batadv_hash_init 2" k a]
  by (simp add: ex_priv_def)

lemma ex_orig_node_new: "batadv_orig_node_new ex_kenv a \<noteq> None"
  by (simp add: batadv_orig_node_new_def batadv_orig_node_vlan_new_def ex_kenv_def Let_def
      batadv_vlan_id_valid_def batadv_orig_node_vlan_get_def)

theorem orig_get_spec_witness:
  "batadv_orig_hash_find ex_kenv (snd (batadv_v_ogm_orig_get ex_kenv ex_priv (Mac 2 0 0 0 0 1)))
     (Mac 2 0 0 0 0 1) = batadv_orig_node_new ex_kenv (Mac 2 0 0 0 0 1)
   \<and> batadv_orig_node_new ex_kenv (Mac 2 0 0 0 0 1) \<noteq> None"
  using orig_get_spec [OF ex_priv_ok [of ex_kenv] prod.collapse [symmetric], of "Mac 2 0 0 0 0 1"]
    ex_orig_node_new
  by (simp add: ex_priv_find)

end
