(* ===== verification/Routing.thy ===== *)
theory Routing
  imports Originator
begin

text \<open>
  Sanity checks and next hop selection of \<^verbatim>\<open>src/net/batman-adv/routing.c\<close>: the restart
  protection of sequence numbers, the preconditions of management and unicast packets, the
  choice of a router with its bonding rotation, and the duplicate filter of received
  broadcasts.
\<close>

section \<open>Sequence numbers and restarts\<close>

text \<open>
  The result: whether the packet is to be ignored, the new time of the last reset, and
  whether a protection window was started.
\<close>

definition batadv_window_protected ::
    "'k kclock_scheme \<Rightarrow> int \<Rightarrow> int \<Rightarrow> u64 \<Rightarrow> bool \<times> u64 \<times> bool" where
  "batadv_window_protected k seq_num_diff seq_old_max_diff last_reset =
     (if seq_num_diff \<le> - seq_old_max_diff \<or> seq_num_diff \<ge> BATADV_EXPECTED_SEQNO_RANGE then
        if \<not> batadv_has_timed_out (kclock.truncate k) last_reset BATADV_RESET_PROTECTION_MS
        then (True, last_reset, False)
        else (False, jiffies k, True)
      else (False, last_reset, False))"

section \<open>Packet preconditions\<close>

text \<open>
  \<open>cow_ok\<close> and \<open>linearize_ok\<close> are the outcomes of \<^verbatim>\<open>skb_cow\<close> and \<^verbatim>\<open>skb_linearize\<close>;
  \<^verbatim>\<open>pskb_may_pull\<close> fails exactly when the packet is shorter than the header or (\<open>pull_ok\<close>)
  its data cannot be moved to the linear part.
\<close>

record skb_env =
  pull_ok :: bool
  cow_ok :: bool
  linearize_ok :: bool

definition pskb_may_pull :: "'e skb_env_scheme \<Rightarrow> sk_buff \<Rightarrow> nat \<Rightarrow> bool" where
  "pskb_may_pull e skb len = (len \<le> length (skb_data skb) \<and> pull_ok e)"

definition batadv_check_management_packet :: "'e skb_env_scheme \<Rightarrow> sk_buff \<Rightarrow> nat \<Rightarrow> bool" where
  "batadv_check_management_packet e skb header_len =
     (if \<not> pskb_may_pull e skb header_len then False
      else if \<not> is_broadcast_ether_addr (h_dest skb) then False
      else if \<not> is_valid_ether_addr (h_source skb) then False
      else if \<not> cow_ok e then False
      else if \<not> linearize_ok e then False
      else True)"

definition ENODATA :: int where "ENODATA = 61"
definition EBADR :: int where "EBADR = 53"
definition EREMOTE :: int where "EREMOTE = 66"

definition batadv_check_unicast_packet ::
    "'e skb_env_scheme \<Rightarrow> batadv_priv \<Rightarrow> sk_buff \<Rightarrow> nat \<Rightarrow> int" where
  "batadv_check_unicast_packet e bp skb hdr_size =
     (if \<not> pskb_may_pull e skb hdr_size then - ENODATA
      else if \<not> is_valid_ether_addr (h_dest skb) then - EBADR
      else if is_multicast_ether_addr (h_source skb) then - EBADR
      else if \<not> batadv_is_my_mac bp (h_dest skb) then - EREMOTE
      else 0)"

section \<open>The router of an originator\<close>

text \<open>
  \<open>sob\<close> is the routing algorithm's \<^verbatim>\<open>is_similar_or_better\<close>. A candidate is an interface
  record, given by its interface and its router. The loop returns the candidate after the
  last chosen one, and the first possible candidate.
\<close>

type_synonym neigh_sob = "batadv_neigh_node \<Rightarrow> ifref \<Rightarrow> batadv_neigh_node \<Rightarrow> ifref \<Rightarrow> bool"

fun bonding_loop ::
    "neigh_sob \<Rightarrow> batadv_orig_node \<Rightarrow> batadv_neigh_node \<Rightarrow> ifref \<Rightarrow> ifref option \<Rightarrow> nat option \<Rightarrow> bool
      \<Rightarrow> (ifref \<times> nat) option \<Rightarrow> batadv_orig_ifinfo list
      \<Rightarrow> (ifref \<times> nat) option \<times> (ifref \<times> nat) option" where
  "bonding_loop sob orig_node router recv_if last_candidate last_cand_router last_candidate_found
     first_candidate [] = (None, first_candidate)"
| "bonding_loop sob orig_node router recv_if last_candidate last_cand_router last_candidate_found
     first_candidate (cand # cands) =
     (case (case oi_router cand of None \<Rightarrow> None | Some p \<Rightarrow> neigh_deref orig_node p) of
        None \<Rightarrow> bonding_loop sob orig_node router recv_if last_candidate last_cand_router
                  last_candidate_found first_candidate cands
      | Some cand_router \<Rightarrow>
          if \<not> sob cand_router (oi_if_outgoing cand) router recv_if
             \<or> last_cand_router = Some (nn_ptr cand_router)
          then bonding_loop sob orig_node router recv_if last_candidate last_cand_router
                 last_candidate_found first_candidate cands
          else
            let this = (oi_if_outgoing cand, nn_ptr cand_router);
                first_candidate = (if first_candidate = None then Some this else first_candidate) in
            if last_candidate = None \<or> last_candidate_found then (Some this, first_candidate)
            else bonding_loop sob orig_node router recv_if last_candidate last_cand_router
                   (last_candidate_found \<or> last_candidate = Some (oi_if_outgoing cand))
                   first_candidate cands)"

definition batadv_last_bonding_get :: "batadv_orig_node \<Rightarrow> ifref option" where
  "batadv_last_bonding_get orig_node = on_last_bonding_candidate orig_node"

definition batadv_last_bonding_replace ::
    "batadv_orig_node \<Rightarrow> ifref option \<Rightarrow> batadv_orig_node" where
  "batadv_last_bonding_replace orig_node new_candidate =
     orig_node\<lparr>on_last_bonding_candidate := new_candidate\<rparr>"

definition batadv_find_router ::
    "neigh_sob \<Rightarrow> u32 \<Rightarrow> batadv_orig_node \<Rightarrow> ifref \<Rightarrow> nat option \<times> batadv_orig_node" where
  "batadv_find_router sob bonding orig_node recv_if =
     (case batadv_orig_router_get orig_node recv_if of
        None \<Rightarrow> (None, orig_node)
      | Some p \<Rightarrow>
          if \<not> (recv_if = BATADV_IF_DEFAULT \<and> bonding \<noteq> 0) then (Some p, orig_node)
          else (case neigh_deref orig_node p of
                  None \<Rightarrow> (None, orig_node)
                | Some router \<Rightarrow>
            let last_candidate = batadv_last_bonding_get orig_node;
                last_cand_router = (case last_candidate of None \<Rightarrow> None
                                    | Some c \<Rightarrow> batadv_orig_router_get orig_node c) in
            case bonding_loop sob orig_node router recv_if last_candidate last_cand_router False None
                   (on_ifinfo_list orig_node) of
              (Some (c, r), _) \<Rightarrow> (Some r, batadv_last_bonding_replace orig_node (Some c))
            | (None, Some (c, r)) \<Rightarrow> (Some r, batadv_last_bonding_replace orig_node (Some c))
            | (None, None) \<Rightarrow> (Some p, batadv_last_bonding_replace orig_node None)))"

section \<open>The duplicate filter of broadcasts\<close>

definition BATADV_BCAST_MAX_AGE :: int where "BATADV_BCAST_MAX_AGE = 64"

text \<open>
  The part of \<^verbatim>\<open>batadv_recv_bcast_packet\<close> under \<^verbatim>\<open>bcast_seqno_lock\<close>: whether the packet is
  new, and the originator with its updated window.
\<close>

definition bcast_seqno_accept ::
    "'k kclock_scheme \<Rightarrow> batadv_orig_node \<Rightarrow> u32 \<Rightarrow> bool \<times> batadv_orig_node" where
  "bcast_seqno_accept k orig_node seqno =
     (if batadv_test_bit (on_bcast_bits orig_node) (on_last_bcast_seqno orig_node) seqno
      then (False, orig_node)
      else
        let seq_diff = s32 (seqno - on_last_bcast_seqno orig_node) in
        case batadv_window_protected k seq_diff BATADV_BCAST_MAX_AGE (on_bcast_seqno_reset orig_node) of
          (protected, reset, _) \<Rightarrow>
            if protected then (False, orig_node\<lparr>on_bcast_seqno_reset := reset\<rparr>)
            else
              (case batadv_bit_get_packet (on_bcast_bits orig_node) seq_diff True of
                 (bits, window_moved) \<Rightarrow>
                   (True, orig_node\<lparr>on_bcast_seqno_reset := reset, on_bcast_bits := bits,
                      on_last_bcast_seqno := (if window_moved then seqno
                                              else on_last_bcast_seqno orig_node)\<rparr>)))"

section \<open>Bonding\<close>

definition bonding_usable ::
    "neigh_sob \<Rightarrow> batadv_orig_node \<Rightarrow> batadv_neigh_node \<Rightarrow> ifref \<Rightarrow> nat option \<Rightarrow> batadv_orig_ifinfo \<Rightarrow> bool" where
  "bonding_usable sob orig_node router recv_if last_cand_router cand \<longleftrightarrow>
     (\<exists>p n. oi_router cand = Some p \<and> neigh_deref orig_node p = Some n
        \<and> sob n (oi_if_outgoing cand) router recv_if \<and> last_cand_router \<noteq> Some p)"

lemma neigh_deref_ptr: "neigh_deref orig_node p = Some n \<Longrightarrow> nn_ptr n = p"
  unfolding neigh_deref_def by (blast dest: find_key_SomeD)

lemma bonding_loop_last:
  assumes "\<And>cand. cand \<in> set cands \<Longrightarrow> oi_if_outgoing cand = c \<Longrightarrow> oi_router cand = last_cand_router"
  shows "bonding_loop sob orig_node router recv_if (Some c) last_cand_router False first cands =
    (None, if first = None
           then map_option (\<lambda>cand. (oi_if_outgoing cand, the (oi_router cand)))
                  (find (bonding_usable sob orig_node router recv_if last_cand_router) cands)
           else first)"
  using assms
proof (induction cands arbitrary: first)
  case (Cons cand cands)
  have IH: "bonding_loop sob orig_node router recv_if (Some c) last_cand_router False f cands =
    (None, if f = None
           then map_option (\<lambda>cand. (oi_if_outgoing cand, the (oi_router cand)))
                  (find (bonding_usable sob orig_node router recv_if last_cand_router) cands)
           else f)" for f
    using Cons.IH Cons.prems by simp
  show ?case
  proof (cases "bonding_usable sob orig_node router recv_if last_cand_router cand")
    case True
    then obtain p n where "oi_router cand = Some p" "neigh_deref orig_node p = Some n" "nn_ptr n = p"
      "sob n (oi_if_outgoing cand) router recv_if" "last_cand_router \<noteq> Some p"
      by (auto simp: bonding_usable_def dest: neigh_deref_ptr)
    moreover have "oi_if_outgoing cand \<noteq> c"
      using Cons.prems [of cand] calculation by auto
    ultimately show ?thesis using True IH by (auto simp: Let_def)
  next
    case False
    then have "\<not> sob n (oi_if_outgoing cand) router recv_if \<or> last_cand_router = Some p"
      if "oi_router cand = Some p" "neigh_deref orig_node p = Some n" for p n
      using that by (auto simp: bonding_usable_def)
    with False show ?thesis
      using IH by (auto dest: neigh_deref_ptr split: option.splits)
  qed
qed simp

text \<open>
  C18: The bonding rotation restarts at the head of the list. While a bonding candidate is
  remembered, the router that is chosen is that of the first usable interface record in list
  order whose router differs from the last one, wherever the last candidate is in the list
  (the choice may happen to be the record behind it): the branch meant to continue after the
  last candidate is never taken, because that candidate is skipped (as a repeated router)
  before it is recognised. In the witness, with three usable routers, the choice after the
  second is the first and after the first the second.
\<close>

theorem bonding_restarts_at_first:
  assumes "orig_wf orig_node" and "on_last_bonding_candidate orig_node = Some c"
    and "batadv_orig_router_get orig_node BATADV_IF_DEFAULT = Some p"
    and "neigh_deref orig_node p = Some router" and "bonding \<noteq> 0"
  shows "batadv_find_router sob bonding orig_node BATADV_IF_DEFAULT =
    (case find (bonding_usable sob orig_node router BATADV_IF_DEFAULT
                 (batadv_orig_router_get orig_node c)) (on_ifinfo_list orig_node) of
       Some cand \<Rightarrow> (oi_router cand,
                     orig_node\<lparr>on_last_bonding_candidate := Some (oi_if_outgoing cand)\<rparr>)
     | None \<Rightarrow> (Some p, orig_node\<lparr>on_last_bonding_candidate := None\<rparr>))"
proof -
  have "oi_router cand = batadv_orig_router_get orig_node c"
    if cand: "cand \<in> set (on_ifinfo_list orig_node)" "oi_if_outgoing cand = c" for cand
  proof -
    have d: "distinct (map oi_if_outgoing (on_ifinfo_list orig_node))"
      using assms(1) by (simp add: orig_wf_def)
    obtain x where x: "find (\<lambda>i. oi_if_outgoing i = c) (on_ifinfo_list orig_node) = Some x"
      using cand find_key_notin [of oi_if_outgoing c "on_ifinfo_list orig_node"] by blast
    then have "x = cand"
      using find_key_SomeD [OF x] cand d by (metis distinct_map inj_on_def)
    with x show ?thesis by (simp add: batadv_orig_router_get_def)
  qed
  note loop = bonding_loop_last [where c = c, OF this]
  have usable: "\<exists>p. oi_router cand = Some p"
    if "find (bonding_usable sob orig_node router BATADV_IF_DEFAULT
                 (batadv_orig_router_get orig_node c)) (on_ifinfo_list orig_node) = Some cand" for cand
    using find_key_SomeD [OF that] by (auto simp: bonding_usable_def)
  show ?thesis
    using assms(2-5) usable
    by (auto simp: batadv_find_router_def batadv_last_bonding_get_def batadv_last_bonding_replace_def
        loop split: option.splits)
qed

definition ex_neigh :: "nat \<Rightarrow> batadv_neigh_node" where
  "ex_neigh p = \<lparr>nn_ptr = p, nn_orig_node = Mac 2 0 0 0 0 1, nn_addr = Mac 2 0 0 0 1 (of_nat p),
     nn_ifinfo_list = [], nn_if_incoming = p, nn_last_seen = 0\<rparr>"

definition ex_ifinfo :: "ifref \<Rightarrow> nat \<Rightarrow> batadv_orig_ifinfo" where
  "ex_ifinfo i p = \<lparr>oi_if_outgoing = i, oi_router = Some p, oi_last_real_seqno = 0, oi_last_ttl = 0,
     oi_last_seqno_forwarded = 0, oi_batman_seqno_reset = 0,
     oi_bat_iv = \<lparr>bcast_own = 0, bcast_own_sum = 0\<rparr>\<rparr>"

definition ex_bond :: batadv_orig_node where
  "ex_bond = (the (batadv_orig_node_new ex_kenv (Mac 2 0 0 0 0 1)))
     \<lparr>on_neigh_list := [ex_neigh 1, ex_neigh 2, ex_neigh 3],
      on_ifinfo_list := [ex_ifinfo None 1, ex_ifinfo (Some 1) 1, ex_ifinfo (Some 2) 2, ex_ifinfo (Some 3) 3],
      on_last_bonding_candidate := Some (Some 2)\<rparr>"

lemma ex_bond_wf: "orig_wf ex_bond"
proof -
  let ?o = "the (batadv_orig_node_new ex_kenv (Mac 2 0 0 0 0 1))"
  have new: "batadv_orig_node_new ex_kenv (Mac 2 0 0 0 0 1) = Some ?o"
    using ex_orig_node_new by simp
  have "orig_wf ?o" "on_orig ?o = Mac 2 0 0 0 0 1" "on_neigh_unlinked ?o = []"
    using wf_orig_node_new [OF new] orig_node_new_orig [OF new]
    by (simp_all add: batadv_orig_node_new_def batadv_orig_node_vlan_new_def ex_kenv_def Let_def
        batadv_vlan_id_valid_def batadv_orig_node_vlan_get_def)
  then show ?thesis
    by (simp add: ex_bond_def orig_wf_defs ex_neigh_def ex_ifinfo_def neigh_key_def)
qed

text \<open>Three equally good routers, the second one used last: the third one is never chosen.\<close>

theorem bonding_restarts_at_first_witness:
  "let r = batadv_find_router (\<lambda>n i m j. True) 1 ex_bond BATADV_IF_DEFAULT;
       r' = batadv_find_router (\<lambda>n i m j. True) 1 (snd r) BATADV_IF_DEFAULT in
   fst r = Some 1 \<and> fst r' = Some 2 \<and> on_last_bonding_candidate (snd r') = Some (Some 2)"
proof -
  have r: "batadv_find_router (\<lambda>n i m j. True) 1 ex_bond BATADV_IF_DEFAULT =
      (Some 1, ex_bond\<lparr>on_last_bonding_candidate := Some None\<rparr>)"
    by (subst bonding_restarts_at_first [where c = "Some 2" and p = 1 and router = "ex_neigh 1"])
      (simp_all add: ex_bond_wf, simp_all add: ex_bond_def ex_neigh_def ex_ifinfo_def
        bonding_usable_def batadv_orig_router_get_def neigh_deref_def)
  show ?thesis
    by (simp add: r Let_def)
      (simp add: Let_def batadv_find_router_def ex_bond_def ex_neigh_def ex_ifinfo_def neigh_deref_def
        batadv_orig_router_get_def batadv_last_bonding_get_def batadv_last_bonding_replace_def)
qed

section \<open>Duplicates\<close>

text \<open>
  What flooding relies on: a filter of sequence numbers that reports every number at most
  once as long as it remembers it.
\<close>

locale dup_filter =
  fixes accept :: "'s \<Rightarrow> 'e \<Rightarrow> bool \<times> 's" and num :: "'e \<Rightarrow> u32" and seen :: "'s \<Rightarrow> u32 set"
  assumes accept_new: "accept s e = (True, s') \<Longrightarrow> num e \<notin> seen s \<and> num e \<in> seen s'"
    and reject_keeps: "accept s e = (False, s') \<Longrightarrow> seen s' = seen s"
begin

definition after :: "'s \<Rightarrow> 'e list \<Rightarrow> 's" where
  "after s es = foldl (\<lambda>s e. snd (accept s e)) s es"

lemma seen_after_accept: "fst (accept s e) \<Longrightarrow> num e \<in> seen (snd (accept s e))"
  using accept_new by (metis prod.collapse)

text \<open>Between two acceptances of a number there is a step that forgets it.\<close>

lemma forgotten_step:
  assumes "q \<in> seen s" and "num e = q" and "fst (accept (after s es) e)"
  shows "\<exists>n < length es. q \<in> seen (after s (take n es))
           \<and> fst (accept (after s (take n es)) (es ! n))
           \<and> q \<notin> seen (snd (accept (after s (take n es)) (es ! n)))"
  using assms
proof (induction es arbitrary: s)
  case Nil
  then show ?case using accept_new by (metis after_def foldl_Nil prod.collapse)
next
  case (Cons d es)
  show ?case
  proof (cases "q \<in> seen (snd (accept s d))")
    case True
    from Cons.IH [OF True Cons.prems(2)] Cons.prems(3) obtain n where "n < length es"
      "q \<in> seen (after (snd (accept s d)) (take n es))"
      "fst (accept (after (snd (accept s d)) (take n es)) (es ! n))"
      "q \<notin> seen (snd (accept (after (snd (accept s d)) (take n es)) (es ! n)))"
      by (auto simp: after_def)
    then show ?thesis by (intro exI [of _ "Suc n"]) (simp add: after_def)
  next
    case False
    then have "fst (accept s d)"
      using Cons.prems(1) reject_keeps by (metis (full_types) prod.collapse)
    with False Cons.prems(1) show ?thesis by (intro exI [of _ 0]) (simp add: after_def)
  qed
qed

end

definition bcast_seen :: "batadv_orig_node \<Rightarrow> u32 set" where
  "bcast_seen orig_node = window_set (on_bcast_bits orig_node) (on_last_bcast_seqno orig_node)"

lemma bcast_accept_cases:
  assumes "bcast_seqno_accept k orig_node q = (b, orig_node')"
  shows "if b then q \<notin> bcast_seen orig_node
        \<and> bcast_seen orig_node' = window_receive (bcast_seen orig_node) (on_last_bcast_seqno orig_node) q
     else bcast_seen orig_node' = bcast_seen orig_node"
proof -
  let ?d = "s32 (q - on_last_bcast_seqno orig_node)"
  obtain bits new where g: "batadv_bit_get_packet (on_bcast_bits orig_node) ?d True = (bits, new)"
    by fastforce
  obtain prot reset st where w: "batadv_window_protected k ?d BATADV_BCAST_MAX_AGE
      (on_bcast_seqno_reset orig_node) = (prot, reset, st)" by (metis prod_cases3)
  have win: "window_set bits (if new then q else on_last_bcast_seqno orig_node) =
      window_receive (bcast_seen orig_node) (on_last_bcast_seqno orig_node) q"
    using bit_get_packet_window_set [where seq_bits = "on_bcast_bits orig_node" and seqno = q
      and last_seqno = "on_last_bcast_seqno orig_node"] g by (simp add: bcast_seen_def)
  show ?thesis
  proof (cases "q \<in> bcast_seen orig_node \<or> prot")
    case True
    then show ?thesis
      using assms w by (auto simp: bcast_seqno_accept_def bcast_seen_def window_set_def Let_def
          split: if_splits)
  next
    case False
    then have "\<not> batadv_test_bit (on_bcast_bits orig_node) (on_last_bcast_seqno orig_node) q"
      by (simp add: bcast_seen_def window_set_def)
    then have "b" "orig_node' = orig_node\<lparr>on_bcast_seqno_reset := reset, on_bcast_bits := bits,
        on_last_bcast_seqno := (if new then q else on_last_bcast_seqno orig_node)\<rparr>"
      using assms w g False by (simp_all add: bcast_seqno_accept_def Let_def)
    then show ?thesis
      using False win by (cases new) (simp_all add: bcast_seen_def)
  qed
qed

lemma window_receive_self: "q \<in> window_receive W l q"
  by (simp add: window_receive_def Let_def)

definition bcast_step :: "batadv_orig_node \<Rightarrow> kclock \<times> u32 \<Rightarrow> bool \<times> batadv_orig_node" where
  "bcast_step orig_node e = bcast_seqno_accept (fst e) orig_node (snd e)"

definition bcast_run :: "batadv_orig_node \<Rightarrow> (kclock \<times> u32) list \<Rightarrow> batadv_orig_node" where
  "bcast_run orig_node es = foldl (\<lambda>orig_node e. snd (bcast_step orig_node e)) orig_node es"

interpretation bcast: dup_filter bcast_step snd bcast_seen
proof
  fix s e s'
  show "bcast_step s e = (True, s') \<Longrightarrow> snd e \<notin> bcast_seen s \<and> snd e \<in> bcast_seen s'"
    using bcast_accept_cases [of "fst e" s "snd e" True s'] window_receive_self
    by (simp add: bcast_step_def)
  show "bcast_step s e = (False, s') \<Longrightarrow> bcast_seen s' = bcast_seen s"
    using bcast_accept_cases [of "fst e" s "snd e" False s'] by (simp add: bcast_step_def)
qed

lemma window_receive_keeps:
  assumes "q \<in> W" and "s32 (p - q) < 64" and "- 64 < s32 (p - l)" and "s32 (p - l) < 64"
  shows "q \<in> window_receive W l p"
  using assms by (cases "s32 (p - l) \<le> 0") (simp_all add: window_receive_def Let_def)

text \<open>What a step that forgets \<open>q\<close> must have received.\<close>

lemma bcast_forgets:
  assumes "q \<in> bcast_seen orig_node" and "fst (bcast_step orig_node e)"
    and "q \<notin> bcast_seen (snd (bcast_step orig_node e))"
  shows "64 \<le> s32 (snd e - q) \<or> s32 (snd e - on_last_bcast_seqno orig_node) \<le> - 64
     \<or> 64 \<le> s32 (snd e - on_last_bcast_seqno orig_node)"
proof -
  have "bcast_seen (snd (bcast_step orig_node e)) =
      window_receive (bcast_seen orig_node) (on_last_bcast_seqno orig_node) (snd e)"
    using bcast_accept_cases [OF prod.collapse [symmetric], of "fst e" orig_node "snd e"] assms(2)
    by (simp add: bcast_step_def)
  then show ?thesis
    using assms(1,3) window_receive_keeps [of q "bcast_seen orig_node" "snd e"
        "on_last_bcast_seqno orig_node"] by (metis not_le)
qed

section \<open>Properties\<close>

text \<open>
  C13: A broadcast is accepted only once. If, after a broadcast was accepted, the same
  sequence number of that originator is accepted again, then in between some packet was
  accepted that moved the window by 64 or more beyond it, or that was taken for a restart
  of the sender (64 or more behind, or far ahead of the last number); the clock may advance
  arbitrarily during the run.
\<close>

theorem bcast_accepted_once:
  assumes "fst (bcast_step orig_node (k, q))"
    and "fst (bcast_step (bcast_run (snd (bcast_step orig_node (k, q))) es) (k', q))"
  shows "\<exists>n < length es. let st = bcast_run (snd (bcast_step orig_node (k, q))) (take n es);
                            p = snd (es ! n) in
           fst (bcast_step st (es ! n))
           \<and> (64 \<le> s32 (p - q) \<or> s32 (p - on_last_bcast_seqno st) \<le> - 64
              \<or> 64 \<le> s32 (p - on_last_bcast_seqno st))"
proof -
  let ?s = "snd (bcast_step orig_node (k, q))"
  have run: "bcast.after s xs = bcast_run s xs" for s xs
    by (simp add: bcast.after_def bcast_run_def)
  have "q \<in> bcast_seen ?s" using bcast.seen_after_accept [OF assms(1)] by simp
  from bcast.forgotten_step [OF this, of "(k', q)" es] assms(2) obtain n where
    "n < length es" "q \<in> bcast_seen (bcast_run ?s (take n es))"
    "fst (bcast_step (bcast_run ?s (take n es)) (es ! n))"
    "q \<notin> bcast_seen (snd (bcast_step (bcast_run ?s (take n es)) (es ! n)))"
    unfolding run by auto
  then show ?thesis using bcast_forgets by (metis (no_types, lifting))
qed

definition ex_clock :: kclock where
  "ex_clock = \<lparr>jiffies = 1000, msecs_to_jiffies = of_nat\<rparr>"

lemma ex_bcast_run:
  "fst (bcast_step ex_bond (ex_clock, 5))
   \<and> fst (bcast_step (bcast_run (snd (bcast_step ex_bond (ex_clock, 5))) [(ex_clock, 105)]) (ex_clock, 5))"
proof -
  have "on_bcast_bits ex_bond = 0" "on_last_bcast_seqno ex_bond = 0"
    "on_bcast_seqno_reset ex_bond = - 29001"
    by (simp_all add: ex_bond_def batadv_orig_node_new_def batadv_orig_node_vlan_new_def ex_kenv_def
        Let_def batadv_vlan_id_valid_def batadv_orig_node_vlan_get_def BATADV_RESET_PROTECTION_MS_def)
  then show ?thesis
    by (simp add: bcast_step_def bcast_run_def bcast_seqno_accept_def window_defs Let_def
        batadv_window_protected_def
        BATADV_BCAST_MAX_AGE_def batadv_bit_get_packet_def BATADV_RESET_PROTECTION_MS_def
        batadv_has_timed_out_def time_is_before_jiffies_def ex_clock_def kclock.truncate_def)
qed

theorem bcast_accepted_once_witness:
  "\<exists>n < 1. let st = bcast_run (snd (bcast_step ex_bond (ex_clock, 5))) (take n [(ex_clock, 105)]);
             p = snd ([(ex_clock, 105)] ! n) in
     fst (bcast_step st ([(ex_clock, 105)] ! n))
     \<and> (64 \<le> s32 (p - 5) \<or> s32 (p - on_last_bcast_seqno st) \<le> - 64
        \<or> 64 \<le> s32 (p - on_last_bcast_seqno st))"
  using bcast_accepted_once [of ex_bond ex_clock 5 "[(ex_clock, 105)]" ex_clock] ex_bcast_run by simp

end
