(* ===== verification/Bat_V_Elp.thy ===== *)
theory Bat_V_Elp
  imports Routing
begin

text \<open>
  The echo location protocol of B.A.T.M.A.N. V, \<^verbatim>\<open>src/net/batman-adv/bat_v_elp.c\<close>: how a
  node measures the airtime cost of the link to each single hop neighbour, probes wireless
  neighbours, sends its periodic ELP packets and evaluates received ones.
\<close>

section \<open>The base cost of a link\<close>

definition BATADV_AIRTIME_OVERHEAD :: u64 where "BATADV_AIRTIME_OVERHEAD = 300"
definition BATADV_AIRTIME_TEST_FRAME_SIZE :: u64 where "BATADV_AIRTIME_TEST_FRAME_SIZE = 8192"
definition BATADV_AIRTIME_EWMA_WEIGHT :: u32 where "BATADV_AIRTIME_EWMA_WEIGHT = 4"
definition ENOENT :: int where "ENOENT = 2"
definition SPEED_UNKNOWN :: u32 where "SPEED_UNKNOWN = 0xFFFFFFFF"

text \<open>
  What the kernel answers about a link: whether the interface belongs to a mesh, whether
  the RTNL lock and the real device could be had, what cfg80211 knows of the station
  (\<open>None\<close> when the field is not filled) and what ethtool reports.
\<close>

record link_env =
  has_mesh_iface :: bool
  rtnl_trylock :: bool
  has_real_netdev :: bool
  cfg80211_get_station :: int
  sta_expected_throughput :: "u32 option"
  sta_tx_bitrate :: "u32 option"
  ethtool_ret :: int
  duplex_full :: bool
  link_speed :: u32

datatype bitrate_source =
    Bitrate u32
  | Default_airtime
  | No_station
  | Try_again

text \<open>
  The part of \<^verbatim>\<open>batadv_v_elp_airtime_get_base\<close> before its labels: the bit rate, or the
  jump it takes, and the interface flags.
\<close>

definition elp_bitrate :: "link_env \<Rightarrow> batadv_hard_iface \<Rightarrow> bitrate_source \<times> u8" where
  "elp_bitrate e hi =
     (let flags = bv_flags (hi_bat_v hi);
          throughput_override = bv_throughput_override (hi_bat_v hi) in
      if \<not> has_mesh_iface e then (Try_again, flags)
      else if throughput_override \<noteq> 0 then (Bitrate (throughput_override * 100000), flags)
      else if batadv_is_wifi_hardif hi then
        if \<not> batadv_is_cfg80211_hardif hi then (Default_airtime, flags)
        else if \<not> rtnl_trylock e then (Try_again, flags)
        else if \<not> has_real_netdev e then (Default_airtime, flags)
        else if cfg80211_get_station e = - ENOENT then (No_station, flags)
        else if cfg80211_get_station e \<noteq> 0 then (Default_airtime, flags)
        else (case sta_expected_throughput e of
                Some t \<Rightarrow> (Bitrate (t * 1000), flags)
              | None \<Rightarrow> (case sta_tx_bitrate e of
                           Some r \<Rightarrow> (Bitrate (r * 100000), flags)
                         | None \<Rightarrow> (Default_airtime, flags)))
      else if \<not> rtnl_trylock e then (Try_again, flags)
      else if ethtool_ret e = 0 then
        let flags = (if duplex_full e then flags OR BATADV_FULL_DUPLEX
                     else flags AND NOT BATADV_FULL_DUPLEX) in
        if link_speed e \<noteq> 0 \<and> link_speed e \<noteq> SPEED_UNKNOWN
        then (Bitrate (link_speed e * 1000000), flags)
        else (Default_airtime, flags)
      else (Default_airtime, flags))"

text \<open>
  The formula of the label \<^verbatim>\<open>calculate\<close>; the message printed behind it divides by the bit
  rate once more, without a check.
\<close>

definition airtime_of_bitrate :: "u32 \<Rightarrow> u32" where
  "airtime_of_bitrate bitrate =
     (if bitrate > 0
      then ucast (BATADV_AIRTIME_OVERHEAD
                  + (BATADV_AIRTIME_TEST_FRAME_SIZE * 1000000) div ucast bitrate)
      else BATADV_AIRTIME_MAX_VALUE)"

definition batadv_v_elp_airtime_get_base ::
    "link_env \<Rightarrow> batadv_hard_iface \<Rightarrow> (u32 option \<times> u8) kresult" where
  "batadv_v_elp_airtime_get_base e hi =
     (case elp_bitrate e hi of
        (Try_again, flags) \<Rightarrow> Kret (None, flags)
      | (No_station, flags) \<Rightarrow> Kret (Some BATADV_AIRTIME_MAX_VALUE, flags)
      | (Default_airtime, flags) \<Rightarrow>
          Kret (Some (airtime_of_bitrate 1000000), flags OR BATADV_WARNING_DEFAULT)
      | (Bitrate bitrate, flags) \<Rightarrow>
          if bitrate = 0 then Kernel_bug
          else Kret (Some (airtime_of_bitrate bitrate), flags))"

section \<open>The cost of a link\<close>

definition elp_e_pt :: "batadv_hardif_neigh_node_bat_v \<Rightarrow> u32" where
  "elp_e_pt v =
     (if elp_expected v > 0 then 1000 - (elp_received v * 1000 div elp_expected v) else 0)"

text \<open>The update of a neighbour whose base cost could be determined.\<close>

definition elp_metric :: "u32 \<Rightarrow> batadv_hardif_neigh_node_bat_v \<Rightarrow> batadv_hardif_neigh_node_bat_v" where
  "elp_metric base v =
     (let smoothed = (elp_e_pt v + (BATADV_AIRTIME_EWMA_WEIGHT - 1) * e_pt_smoothed v)
                     div BATADV_AIRTIME_EWMA_WEIGHT in
      v\<lparr>base_airtime := base, e_pt_smoothed := smoothed, elp_received := 0, elp_expected := 0,
        airtime_cost := (if smoothed < 1000 then base * 1000 div (1000 - smoothed)
                         else BATADV_AIRTIME_MAX_VALUE)\<rparr>)"

definition hardif_neigh_upd ::
    "mac \<Rightarrow> (batadv_hardif_neigh_node \<Rightarrow> batadv_hardif_neigh_node) \<Rightarrow> batadv_hard_iface
      \<Rightarrow> batadv_hard_iface" where
  "hardif_neigh_upd addr f hi =
     hi\<lparr>hi_neigh_list := hlist_upd_first (\<lambda>n. hn_addr n = addr) f (hi_neigh_list hi)\<rparr>"

definition hi_set_flags :: "u8 \<Rightarrow> batadv_hard_iface \<Rightarrow> batadv_hard_iface" where
  "hi_set_flags flags hi = hi\<lparr>hi_bat_v := (hi_bat_v hi)\<lparr>bv_flags := flags\<rparr>\<rparr>"

definition batadv_v_elp_airtime_metric_update ::
    "link_env \<Rightarrow> mac \<Rightarrow> batadv_hard_iface \<Rightarrow> batadv_hard_iface kresult" where
  "batadv_v_elp_airtime_metric_update e addr hi =
     (case batadv_v_elp_airtime_get_base e hi of
        Kernel_bug \<Rightarrow> Kernel_bug
      | Kret (None, flags) \<Rightarrow> Kret (hi_set_flags flags hi)
      | Kret (Some base, flags) \<Rightarrow>
          Kret (hardif_neigh_upd addr (\<lambda>n. n\<lparr>hn_bat_v := elp_metric base (hn_bat_v n)\<rparr>)
                  (hi_set_flags flags hi)))"

section \<open>Probing and the periodic work\<close>

definition BATADV_JITTER :: u32 where "BATADV_JITTER = 20"
definition BATADV_ELP_PROBES_PER_NODE :: nat where "BATADV_ELP_PROBES_PER_NODE = 2"
definition BATADV_ELP_MIN_PROBE_SIZE :: nat where "BATADV_ELP_MIN_PROBE_SIZE = 200"
definition BATADV_ELP_PROBE_MAX_TX_DIFF :: nat where "BATADV_ELP_PROBE_MAX_TX_DIFF = 100"

text \<open>\<open>random_below\<close> is the outcome of \<^verbatim>\<open>get_random_u32_below\<close>.\<close>

definition batadv_v_elp_start_timer :: "(u32 \<Rightarrow> u32) \<Rightarrow> batadv_hard_iface \<Rightarrow> ext_call" where
  "batadv_v_elp_start_timer random_below hi =
     (let msecs = bv_elp_interval (hi_bat_v hi) - BATADV_JITTER;
          msecs = msecs + random_below (2 * BATADV_JITTER) in
      Queue_elp_work (hi_ifindex hi) msecs)"

text \<open>The probe packets sent, and whether all of them could be prepared.\<close>

fun elp_probes :: "'k kenv_scheme \<Rightarrow> batadv_hard_iface \<Rightarrow> mac \<Rightarrow> bytes \<Rightarrow> nat \<Rightarrow> bool \<times> ext_call list" where
  "elp_probes k hi addr elp_skb 0 = (True, [])"
| "elp_probes k hi addr elp_skb (Suc n) =
     (let probe_len = max BATADV_ELP_HLEN BATADV_ELP_MIN_PROBE_SIZE in
      if \<not> kalloc_ok k (Alloc_probe addr n) then (False, [])
      else case elp_probes k hi addr elp_skb n of
             (ok, calls) \<Rightarrow>
               (ok, Send_skb_packet (hi_ifindex hi) addr
                      (elp_skb @ replicate (probe_len - length elp_skb) 0) # calls))"

definition batadv_v_elp_wifi_neigh_probe ::
    "'k kenv_scheme \<Rightarrow> batadv_hard_iface \<Rightarrow> bytes \<Rightarrow> batadv_hardif_neigh_node \<Rightarrow> bool \<times> ext_call list" where
  "batadv_v_elp_wifi_neigh_probe k hi elp_skb neigh =
     (if \<not> batadv_is_wifi_hardif hi then (True, [])
      else if jiffies_to_msecs k (jiffies k - last_unicast_tx (hn_bat_v neigh))
                \<le> BATADV_ELP_PROBE_MAX_TX_DIFF then (True, [])
      else elp_probes k hi (hn_addr neigh) elp_skb BATADV_ELP_PROBES_PER_NODE)"

text \<open>
  The first loop of the periodic work: it stops at the first probe that fails, and queues
  the neighbours to be measured, the last one first.
\<close>

fun elp_queue_neighs ::
    "'k kenv_scheme \<Rightarrow> batadv_hard_iface \<Rightarrow> bytes \<Rightarrow> batadv_hardif_neigh_node list \<Rightarrow> mac list
      \<Rightarrow> mac list \<times> ext_call list" where
  "elp_queue_neighs k hi elp_skb [] metric_queue = (metric_queue, [])"
| "elp_queue_neighs k hi elp_skb (neigh # neighs) metric_queue =
     (case batadv_v_elp_wifi_neigh_probe k hi elp_skb neigh of
        (ok, calls) \<Rightarrow>
          if \<not> ok then (metric_queue, calls)
          else
            let metric_queue = (if kalloc_ok k (Alloc_metric_entry (hn_addr neigh))
                                then hn_addr neigh # metric_queue else metric_queue) in
            case elp_queue_neighs k hi elp_skb neighs metric_queue of
              (q, calls') \<Rightarrow> (q, calls @ calls'))"

fun elp_update_metrics ::
    "(mac \<Rightarrow> link_env) \<Rightarrow> mac list \<Rightarrow> batadv_hard_iface \<Rightarrow> batadv_hard_iface kresult" where
  "elp_update_metrics le [] hi = Kret hi"
| "elp_update_metrics le (addr # queue) hi =
     (case batadv_v_elp_airtime_metric_update (le addr) addr hi of
        Kernel_bug \<Rightarrow> Kernel_bug
      | Kret hi' \<Rightarrow> elp_update_metrics le queue hi')"

text \<open>The result: the interface and the calls made, in order.\<close>

definition batadv_v_elp_periodic_work ::
    "'k kenv_scheme \<Rightarrow> (u32 \<Rightarrow> u32) \<Rightarrow> (mac \<Rightarrow> link_env) \<Rightarrow> batadv_mesh_state \<Rightarrow> batadv_hard_iface
      \<Rightarrow> (batadv_hard_iface \<times> ext_call list) kresult" where
  "batadv_v_elp_periodic_work k random_below le mesh_state hi =
     (if mesh_state = BATADV_MESH_DEACTIVATING then Kret (hi, [])
      else if hi_if_status hi = BATADV_IF_NOT_IN_USE \<or> hi_if_status hi = BATADV_IF_TO_BE_REMOVED
      then Kret (hi, [])
      else if hi_if_status hi \<noteq> BATADV_IF_ACTIVE
      then Kret (hi, [batadv_v_elp_start_timer random_below hi])
      else (case bv_elp_skb (hi_bat_v hi) of
              None \<Rightarrow> Kernel_bug
            | Some elp_skb \<Rightarrow>
                if \<not> kalloc_ok k (Alloc_skb (Some (hi_ifindex hi)))
                then Kret (hi, [batadv_v_elp_start_timer random_below hi])
                else
                  let p = (get_elp_packet elp_skb)
                            \<lparr>elp_seqno := bv_elp_seqno (hi_bat_v hi),
                             batadv_elp_packet.elp_interval := bv_elp_interval (hi_bat_v hi)\<rparr>;
                      skb = elp_packet_bytes p @ drop BATADV_ELP_HLEN elp_skb;
                      hi = hi\<lparr>hi_bat_v := (hi_bat_v hi)\<lparr>bv_elp_seqno := bv_elp_seqno (hi_bat_v hi) + 1\<rparr>\<rparr>;
                      (metric_queue, probes) = elp_queue_neighs k hi elp_skb (hi_neigh_list hi) [] in
                  case elp_update_metrics le metric_queue hi of
                    Kernel_bug \<Rightarrow> Kernel_bug
                  | Kret hi' \<Rightarrow>
                      Kret (hi', Send_broadcast_skb (hi_ifindex hi) skb # probes
                                 @ [batadv_v_elp_start_timer random_below hi'])))"

section \<open>Interfaces\<close>

definition batadv_v_elp_iface_enable ::
    "bool \<Rightarrow> u32 \<Rightarrow> (u32 \<Rightarrow> u32) \<Rightarrow> batadv_hard_iface \<Rightarrow> int \<times> batadv_hard_iface \<times> ext_call list" where
  "batadv_v_elp_iface_enable alloc_ok random_seqno random_below hi =
     (if \<not> alloc_ok then (- ENOMEM, hi\<lparr>hi_bat_v := (hi_bat_v hi)\<lparr>bv_elp_skb := None\<rparr>\<rparr>, [])
      else
        let elp_buff = elp_packet_bytes
              \<lparr>elp_packet_type = BATADV_ELP, elp_version = BATADV_COMPAT_VERSION,
               elp_orig = Mac 0 0 0 0 0 0, elp_seqno = 0, elp_interval = 0\<rparr> @ [0, 0, 0, 0];
            flags = (bv_flags (hi_bat_v hi) OR BATADV_FULL_DUPLEX) AND NOT BATADV_WARNING_DEFAULT;
            flags = (if batadv_is_wifi_hardif hi then flags AND NOT BATADV_FULL_DUPLEX else flags);
            hi' = hi\<lparr>hi_bat_v := (hi_bat_v hi)\<lparr>bv_elp_skb := Some elp_buff, bv_elp_seqno := random_seqno,
                      bv_flags := flags\<rparr>\<rparr> in
        (0, hi', [batadv_v_elp_start_timer random_below hi']))"

definition batadv_v_elp_iface_disable :: "batadv_hard_iface \<Rightarrow> batadv_hard_iface" where
  "batadv_v_elp_iface_disable hi = hi\<lparr>hi_bat_v := (hi_bat_v hi)\<lparr>bv_elp_skb := None\<rparr>\<rparr>"

definition batadv_v_elp_iface_activate :: "mac \<Rightarrow> batadv_hard_iface \<Rightarrow> batadv_hard_iface" where
  "batadv_v_elp_iface_activate primary_addr hi =
     (case bv_elp_skb (hi_bat_v hi) of
        None \<Rightarrow> hi
      | Some skb \<Rightarrow>
          hi\<lparr>hi_bat_v := (hi_bat_v hi)\<lparr>bv_elp_skb :=
               Some (elp_packet_bytes ((get_elp_packet skb)\<lparr>elp_orig := primary_addr\<rparr>)
                     @ drop BATADV_ELP_HLEN skb)\<rparr>\<rparr>)"

definition batadv_v_elp_primary_iface_set :: "mac \<Rightarrow> batadv_priv \<Rightarrow> batadv_priv" where
  "batadv_v_elp_primary_iface_set primary_addr bp =
     bp\<lparr>bp_hard_ifaces := map (batadv_v_elp_iface_activate primary_addr) (bp_hard_ifaces bp)\<rparr>"

section \<open>Receiving\<close>

definition BATADV_ELP_MAX_AGE :: int where "BATADV_ELP_MAX_AGE = 64"

text \<open>The loss counters, updated by every ELP packet.\<close>

definition elp_count :: "u32 \<Rightarrow> batadv_hardif_neigh_node_bat_v \<Rightarrow> batadv_hardif_neigh_node_bat_v" where
  "elp_count new_seqno v =
     (if elp_last_seqno v > 0 then
        let gap = s32 (new_seqno - elp_last_seqno v) - 1;
            gap = (if gap < 0 then 0 else gap);
            gap = (if gap > 100 then 0 else gap) in
        v\<lparr>elp_expected := elp_expected v + of_int (1 + gap), elp_received := elp_received v + 1,
          elp_last_seqno := new_seqno\<rparr>
      else v\<lparr>elp_expected := 1, elp_received := 1, elp_last_seqno := new_seqno\<rparr>)"

text \<open>Whether the packet is ignored as old, and the fields it sets otherwise.\<close>

definition elp_is_old :: "u32 \<Rightarrow> batadv_hardif_neigh_node_bat_v \<Rightarrow> bool" where
  "elp_is_old seqno v =
     (let seqno_diff = s32 (seqno - elp_latest_seqno v) in
      seqno_diff < 1 \<and> seqno_diff > - BATADV_ELP_MAX_AGE)"

definition batadv_v_elp_neigh_update ::
    "'k kenv_scheme \<Rightarrow> (batadv_hardif_neigh_node \<Rightarrow> batadv_hardif_neigh_node) option
      \<Rightarrow> mac \<Rightarrow> ifindex \<Rightarrow> batadv_elp_packet \<Rightarrow> batadv_priv \<Rightarrow> batadv_priv" where
  "batadv_v_elp_neigh_update k hardif_init neigh_addr if_incoming elp_packet bp =
     (case batadv_v_ogm_orig_get k bp (elp_orig elp_packet) of
        (None, bp) \<Rightarrow> bp
      | (Some orig_neigh, bp) \<Rightarrow>
          (case hard_iface_get bp if_incoming of
             None \<Rightarrow> bp
           | Some hi \<Rightarrow>
               (case batadv_neigh_node_get_or_create k hardif_init orig_neigh hi neigh_addr of
                  (neigh, orig_neigh', hi') \<Rightarrow>
                    let bp = hard_iface_upd if_incoming (\<lambda>_. hi')
                               (orig_upd k (elp_orig elp_packet) (\<lambda>_. orig_neigh') bp) in
                    (case neigh of
                       None \<Rightarrow> bp
                     | Some p \<Rightarrow>
                         (case batadv_hardif_neigh_get hi' neigh_addr of
                            None \<Rightarrow> bp
                          | Some hardif_neigh \<Rightarrow>
                              let v = elp_count (elp_seqno elp_packet) (hn_bat_v hardif_neigh) in
                              if elp_is_old (elp_seqno elp_packet) v
                              then hard_iface_upd if_incoming (hardif_neigh_upd neigh_addr
                                     (\<lambda>n. n\<lparr>hn_bat_v := v\<rparr>)) bp
                              else orig_upd k (elp_orig elp_packet)
                                     (neigh_upd p (\<lambda>n. n\<lparr>nn_last_seen := jiffies k\<rparr>))
                                     (hard_iface_upd if_incoming (hardif_neigh_upd neigh_addr
                                       (\<lambda>n. n\<lparr>hn_last_seen := jiffies k,
                                              hn_bat_v := v\<lparr>elp_latest_seqno := elp_seqno elp_packet,
                                                elp_interval := batadv_elp_packet.elp_interval elp_packet\<rparr>\<rparr>))
                                       bp))))))"

definition batadv_v_elp_packet_recv ::
    "'k kenv_scheme \<Rightarrow> 'e skb_env_scheme \<Rightarrow> (batadv_hardif_neigh_node \<Rightarrow> batadv_hardif_neigh_node) option
      \<Rightarrow> sk_buff \<Rightarrow> ifindex \<Rightarrow> batadv_priv \<Rightarrow> int \<times> batadv_priv" where
  "batadv_v_elp_packet_recv k e hardif_init skb if_incoming bp =
     (if \<not> batadv_check_management_packet e skb BATADV_ELP_HLEN then (NET_RX_DROP, bp)
      else if batadv_is_my_mac bp (h_source skb) then (NET_RX_DROP, bp)
      else if bp_algo_name bp \<noteq> ''BATMAN_V'' then (NET_RX_DROP, bp)
      else if batadv_primary_if_get_selected bp = None then (NET_RX_DROP, bp)
      else (NET_RX_SUCCESS,
            batadv_v_elp_neigh_update k hardif_init (h_source skb) if_incoming
              (get_elp_packet (skb_data skb)) bp))"

section \<open>The base cost\<close>

lemma airtime_of_bitrate_unat:
  assumes "2 \<le> unat b"
  shows "unat (airtime_of_bitrate b) = 300 + 8192000000 div unat b"
proof -
  have b: "0 < b" using assms by (simp add: word_less_nat_alt)
  have u: "unat (ucast b :: u64) = unat b"
    using unsigned_less [of b, where ?'a = nat] by (simp add: unsigned_ucast_eq take_bit_nat_eq_self)
  have "8192000000 div unat b \<le> 8192000000 div 2"
    using assms by (intro div_le_mono2) simp_all
  then have small: "300 + 8192000000 div unat b < 2 ^ 32" by simp
  have "unat ((8192000000 :: u64) div ucast b) = 8192000000 div unat b"
    by (simp add: unat_div u)
  then have "unat (300 + (8192000000 :: u64) div ucast b) = 300 + 8192000000 div unat b"
    using small by (simp add: unat_word_ariths)
  then have "unat (ucast (300 + (8192000000 :: u64) div ucast b) :: u32) = 300 + 8192000000 div unat b"
    using small by (simp add: unsigned_ucast_eq take_bit_nat_eq_self)
  then show ?thesis
    using b by (simp add: airtime_of_bitrate_def BATADV_AIRTIME_OVERHEAD_def
        BATADV_AIRTIME_TEST_FRAME_SIZE_def)
qed

section \<open>Loss counters\<close>

lemma nat_loss_bound:
  fixes r x :: nat
  assumes "r \<le> x" and "x \<le> 101 * r" and "0 < x"
  shows "9 \<le> r * 1000 div x" and "r * 1000 div x \<le> 1000"
proof -
  have "9 * x \<le> r * 1000" using assms(2) by linarith
  then show "9 \<le> r * 1000 div x" using assms(3) by (simp add: less_eq_div_iff_mult_less_eq)
  have "r * 1000 \<le> 1000 * x" using assms(1) by simp
  then show "r * 1000 div x \<le> 1000" using assms(3)
    by (metis div_le_mono nonzero_mult_div_cancel_right not_less_zero)
qed

definition elp_counters_ok :: "nat \<Rightarrow> batadv_hardif_neigh_node_bat_v \<Rightarrow> bool" where
  "elp_counters_ok N v \<longleftrightarrow> unat (elp_received v) \<le> N
     \<and> unat (elp_received v) \<le> unat (elp_expected v)
     \<and> unat (elp_expected v) \<le> 101 * unat (elp_received v)
     \<and> unat (e_pt_smoothed v) \<le> 991"

lemma unat_of_int_small: "0 \<le> i \<Longrightarrow> i < 2 ^ 32 \<Longrightarrow> unat (of_int i :: u32) = nat i"
  by (simp add: unsigned_of_int take_bit_int_eq_self)

lemma elp_count_ok:
  assumes "elp_counters_ok N v" and "N < 4294967"
  shows "elp_counters_ok (Suc N) (elp_count q v)"
proof (cases "elp_last_seqno v > 0")
  case True
  define gap where "gap = (let gap = s32 (q - elp_last_seqno v) - 1;
            gap = (if gap < 0 then 0 else gap) in if gap > 100 then 0 else gap)"
  have g: "0 \<le> gap" "gap \<le> 100" by (auto simp: gap_def Let_def)
  have v': "elp_count q v = v\<lparr>elp_expected := elp_expected v + of_int (1 + gap),
      elp_received := elp_received v + 1, elp_last_seqno := q\<rparr>"
    using True by (simp add: elp_count_def gap_def Let_def)
  have "unat (of_int (1 + gap) :: u32) = nat (1 + gap)"
    using g by (intro unat_of_int_small) auto
  moreover have n: "1 \<le> nat (1 + gap)" "nat (1 + gap) \<le> 101" using g by simp_all
  then have "unat (elp_expected v) + nat (1 + gap) < 2 ^ 32"
    using assms unfolding elp_counters_ok_def by simp
  ultimately have "unat (elp_expected v + of_int (1 + gap)) = unat (elp_expected v) + nat (1 + gap)"
    by (simp only: unat_word_ariths(1)) simp
  moreover have "unat (elp_received v + 1) = unat (elp_received v) + 1"
    using assms by (simp add: unat_word_ariths elp_counters_ok_def)
  ultimately show ?thesis
    using assms(1) n unfolding elp_counters_ok_def v' by simp
next
  case False
  then show ?thesis using assms by (simp add: elp_count_def elp_counters_ok_def)
qed

lemma elp_e_pt_bound:
  assumes "elp_counters_ok N v" and "N \<le> 4294967"
  shows "unat (elp_e_pt v) \<le> 991"
proof (cases "elp_expected v > 0")
  case True
  let ?r = "unat (elp_received v)" and ?x = "unat (elp_expected v)"
  have x: "0 < ?x" using True by (simp add: word_less_nat_alt)
  have b: "9 \<le> ?r * 1000 div ?x" "?r * 1000 div ?x \<le> 1000"
    using nat_loss_bound [of ?r ?x] assms(1) x by (auto simp: elp_counters_ok_def)
  have "?r * 1000 < 2 ^ 32" using assms by (simp add: elp_counters_ok_def)
  then have m: "unat (elp_received v * 1000) = ?r * 1000"
    by (simp add: unat_word_ariths)
  have q: "unat (elp_received v * 1000 div elp_expected v) = ?r * 1000 div ?x"
    by (simp add: unat_div m)
  then have "unat (1000 - elp_received v * 1000 div elp_expected v) = 1000 - ?r * 1000 div ?x"
    using b by (subst unat_sub) (simp_all add: word_le_nat_alt)
  then show ?thesis using b True by (simp add: elp_e_pt_def)
qed (simp add: elp_e_pt_def)

lemma smooth_unat:
  fixes e s :: u32
  assumes "unat e \<le> 1000" and "unat s \<le> 1000"
  shows "unat ((e + (BATADV_AIRTIME_EWMA_WEIGHT - 1) * s) div BATADV_AIRTIME_EWMA_WEIGHT) =
           (unat e + 3 * unat s) div 4"
proof -
  have "unat (e + 3 * s) = unat e + 3 * unat s"
    using assms by (simp add: unat_word_ariths)
  then show ?thesis by (simp add: BATADV_AIRTIME_EWMA_WEIGHT_def unat_div)
qed

lemma elp_metric_smoothed:
  assumes "unat (elp_e_pt v) \<le> 1000" and "unat (e_pt_smoothed v) \<le> 1000"
  shows "unat (e_pt_smoothed (elp_metric base v)) = (unat (elp_e_pt v) + 3 * unat (e_pt_smoothed v)) div 4"
  using smooth_unat [OF assms] by (simp add: elp_metric_def Let_def)

lemma elp_metric_cost:
  assumes "unat (e_pt_smoothed (elp_metric base v)) < 1000"
  shows "unat (airtime_cost (elp_metric base v)) =
           unat base * 1000 mod 2 ^ 32 div (1000 - unat (e_pt_smoothed (elp_metric base v)))"
proof -
  define s where "s = e_pt_smoothed (elp_metric base v)"
  have "airtime_cost (elp_metric base v) = (if s < 1000 then base * 1000 div (1000 - s)
      else BATADV_AIRTIME_MAX_VALUE)"
    by (simp add: elp_metric_def Let_def s_def)
  moreover have "s < 1000" using assms by (simp add: s_def word_less_nat_alt)
  moreover have "unat (base * 1000) = unat base * 1000 mod 2 ^ 32"
    by (simp add: unat_word_ariths)
  moreover have "unat (1000 - s) = 1000 - unat s"
    using \<open>s < 1000\<close> by (subst unat_sub) simp_all
  ultimately show ?thesis by (simp add: unat_div s_def)
qed

lemma elp_metric_ok:
  assumes "elp_counters_ok N v" and "N \<le> 4294967"
  shows "elp_counters_ok 0 (elp_metric base v)"
proof -
  have "unat (e_pt_smoothed (elp_metric base v)) \<le> 991"
    using elp_metric_smoothed [of v base] elp_e_pt_bound [OF assms] assms(1)
    unfolding elp_counters_ok_def by linarith
  then show ?thesis by (simp add: elp_counters_ok_def) (simp add: elp_metric_def Let_def)
qed

text \<open>The life of a link: received packets with their sequence numbers, and metric updates.\<close>

datatype elp_event = Elp_received u32 | Elp_measured u32

fun elp_step :: "elp_event \<Rightarrow> batadv_hardif_neigh_node_bat_v \<Rightarrow> batadv_hardif_neigh_node_bat_v" where
  "elp_step (Elp_received q) v =
     (let v = elp_count q v in if elp_is_old q v then v else v\<lparr>elp_latest_seqno := q\<rparr>)"
| "elp_step (Elp_measured base) v = elp_metric base v"

definition elp_fresh :: "batadv_hardif_neigh_node_bat_v \<Rightarrow> bool" where
  "elp_fresh v \<longleftrightarrow> elp_received v = 0 \<and> elp_expected v = 0 \<and> e_pt_smoothed v = 0"

lemma elp_run_ok:
  assumes "elp_counters_ok N v" and "N + length es \<le> 4294967"
  shows "elp_counters_ok (N + length es) (fold elp_step es v)"
  using assms
proof (induction es arbitrary: N v)
  case (Cons e es)
  have "elp_counters_ok (Suc N) (elp_step e v)"
  proof (cases e)
    case (Elp_received q)
    then show ?thesis
      using elp_count_ok [OF Cons.prems(1), of q] Cons.prems(2)
      by (simp add: Let_def elp_counters_ok_def)
  next
    case (Elp_measured base)
    then show ?thesis
      using elp_metric_ok [OF Cons.prems(1), of base] Cons.prems(2)
      unfolding elp_counters_ok_def by simp
  qed
  then show ?case using Cons.IH [of "Suc N" "elp_step e v"] Cons.prems(2) by simp
qed simp

section \<open>Properties\<close>

text \<open>
  C25: The link metric, for every base cost. For a neighbour that starts with cleared
  counters, after at most 4294967 received ELP packets (any sequence numbers) and metric
  updates, the smoothed loss stays below 99.2 percent, and a further metric update yields the
  32 bit product of the base cost and 1000, divided by 1000 minus the smoothed loss. For a base
  cost below 4294968 microseconds the product does not wrap: the cost is base / (1 - loss) and lies
  between the base cost and 112 times the base cost. From 4294968 microseconds on it
  wraps; the maximum, which stands for a lost station, becomes the finite cost 4294966
  on a link without losses.
\<close>

theorem elp_metric_exact:
  fixes base :: u32
  assumes "elp_fresh v" and "length es \<le> 4294967"
  defines "w \<equiv> elp_metric base (fold elp_step es v)"
  shows "unat (e_pt_smoothed w) \<le> 991
    \<and> unat (airtime_cost w) = unat base * 1000 mod 2 ^ 32 div (1000 - unat (e_pt_smoothed w))
    \<and> (unat base < 4294968 \<longrightarrow>
         unat (airtime_cost w) = unat base * 1000 div (1000 - unat (e_pt_smoothed w))
         \<and> unat base \<le> unat (airtime_cost w) \<and> unat (airtime_cost w) \<le> 112 * unat base)
    \<and> (base = BATADV_AIRTIME_MAX_VALUE \<and> e_pt_smoothed w = 0 \<longrightarrow> airtime_cost w = 4294966)"
proof -
  have "elp_counters_ok 0 v" using assms(1) by (simp add: elp_fresh_def elp_counters_ok_def)
  then have "elp_counters_ok (length es) (fold elp_step es v)"
    using elp_run_ok [of 0 v es] assms(2) by simp
  then have "elp_counters_ok 0 w" unfolding w_def using elp_metric_ok assms(2) by blast
  then have s: "unat (e_pt_smoothed w) \<le> 991" by (simp add: elp_counters_ok_def)
  have c: "unat (airtime_cost w) = unat base * 1000 mod 2 ^ 32 div (1000 - unat (e_pt_smoothed w))"
    using elp_metric_cost [of base "fold elp_step es v"] s unfolding w_def by simp
  define d where "d = 1000 - unat (e_pt_smoothed w)"
  have d: "9 \<le> d" "d \<le> 1000" using s by (auto simp: d_def)
  have "unat base * d \<le> unat base * 1000" using d by simp
  then have "unat base \<le> unat base * 1000 div d"
    using d by (simp add: less_eq_div_iff_mult_less_eq)
  moreover have "unat base * 1000 div d \<le> unat base * 1000 div 9"
    using d by (intro div_le_mono2) simp_all
  moreover have "unat base * 1000 div 9 \<le> 112 * unat base" by linarith
  moreover have "airtime_cost w = 4294966" if "base = BATADV_AIRTIME_MAX_VALUE" "e_pt_smoothed w = 0"
    using c that by (simp add: word_unat_eq_iff BATADV_AIRTIME_MAX_VALUE_def)
  moreover have "unat base * 1000 mod 2 ^ 32 = unat base * 1000" if "unat base < 4294968" using that by simp
  ultimately show ?thesis using s c by (auto simp: d_def)
qed

definition ex_link :: batadv_hardif_neigh_node_bat_v where
  "ex_link = \<lparr>airtime_cost = BATADV_AIRTIME_MAX_VALUE, base_airtime = BATADV_AIRTIME_MAX_VALUE,
     elp_received = 0, elp_expected = 0, elp_last_seqno = 0, e_pt_smoothed = 0,
     elp_interval = 0, elp_latest_seqno = 0, last_unicast_tx = 0\<rparr>"

theorem elp_metric_exact_witness:
  "unat (airtime_cost (elp_metric 1000 (fold elp_step [Elp_received 7, Elp_received 9] ex_link))) =
     1000 * 1000 div (1000 - unat (e_pt_smoothed
       (elp_metric 1000 (fold elp_step [Elp_received 7, Elp_received 9] ex_link))))
   \<and> e_pt_smoothed (elp_metric 1000 (fold elp_step [Elp_received 7, Elp_received 9] ex_link)) = 83
   \<and> airtime_cost (elp_metric BATADV_AIRTIME_MAX_VALUE (fold elp_step [] ex_link)) = 4294966"
  using elp_metric_exact [of ex_link "[Elp_received 7, Elp_received 9]" 1000]
    elp_metric_exact [of ex_link "[]" BATADV_AIRTIME_MAX_VALUE]
  by (simp add: elp_fresh_def ex_link_def)
    (simp add: elp_metric_def elp_count_def elp_e_pt_def elp_is_old_def BATADV_ELP_MAX_AGE_def
      BATADV_AIRTIME_EWMA_WEIGHT_def Let_def)

text \<open>
  A silent neighbour looks better, not worse. While no ELP packet arrives, every metric
  update lowers the smoothed loss, and after a thousand of them (at most) the cost of the
  link is the loss free base cost, whatever losses had been measured before.
\<close>

theorem elp_silent_link_improves:
  assumes "elp_received v = 0" and "elp_expected v = 0" and "unat (e_pt_smoothed v) \<le> 1000"
    and "unat base < 4294968"
  shows "airtime_cost ((elp_metric base ^^ 1001) v) = base"
proof -
  have step: "elp_expected (elp_metric base u) = 0
      \<and> unat (e_pt_smoothed (elp_metric base u)) \<le> unat (e_pt_smoothed u) - 1"
    if "elp_expected u = 0" "unat (e_pt_smoothed u) \<le> 1000" for u
    using elp_metric_smoothed [of u base] that
    by (simp add: elp_e_pt_def) (simp add: elp_metric_def Let_def)
  have run: "elp_expected ((elp_metric base ^^ n) v) = 0
      \<and> unat (e_pt_smoothed ((elp_metric base ^^ n) v)) \<le> unat (e_pt_smoothed v) - n" for n
  proof (induction n)
    case (Suc n)
    then have "unat (e_pt_smoothed ((elp_metric base ^^ n) v)) \<le> 1000"
      using assms(3) by linarith
    then show ?case using Suc step [of "(elp_metric base ^^ n) v"] by auto
  qed (simp add: assms(2))
  let ?u = "(elp_metric base ^^ 1000) v"
  have "unat (e_pt_smoothed ?u) = 0" "elp_expected ?u = 0"
    using run [of 1000] assms(3) by simp_all
  then have z: "unat (e_pt_smoothed (elp_metric base ?u)) = 0"
    using step [of ?u] by simp
  have "unat (airtime_cost (elp_metric base ?u)) = unat base"
    using elp_metric_cost [of base ?u] z assms(4) by simp
  then show ?thesis by (simp add: word_unat_eq_iff funpow_swap1 [symmetric] numeral_eq_Suc)
qed

theorem elp_silent_link_improves_witness:
  "airtime_cost ((elp_metric 1000 ^^ 1001) (ex_link\<lparr>e_pt_smoothed := 900\<rparr>)) = 1000"
  by (rule elp_silent_link_improves) (simp_all add: ex_link_def)

text \<open>
  The base cost of a link with a known bit rate of at least 2 bit/s is exactly the
  overhead plus the time of the test frame, without wrapping, and a faster link never has
  a higher base cost.
\<close>

theorem elp_base_exact:
  assumes "2 \<le> unat b" and "unat b \<le> unat c"
  shows "unat (airtime_of_bitrate b) = 300 + 8192000000 div unat b
    \<and> airtime_of_bitrate c \<le> airtime_of_bitrate b"
proof -
  have "8192000000 div unat c \<le> 8192000000 div unat b"
    using assms by (intro div_le_mono2) simp_all
  then show ?thesis
    using airtime_of_bitrate_unat [of b] airtime_of_bitrate_unat [of c] assms
    by (simp add: word_le_nat_alt)
qed

theorem elp_base_exact_witness:
  "unat (airtime_of_bitrate 1000000) = 8492 \<and> airtime_of_bitrate 54000000 \<le> airtime_of_bitrate 1000000"
  using elp_base_exact [of 1000000 54000000] by simp

definition ex_elp_iface :: "u32 \<Rightarrow> batadv_hard_iface" where
  "ex_elp_iface wifi = \<lparr>hi_ifindex = 1, hi_dev_addr = Mac 2 0 0 0 0 1, hi_mtu = 1500,
     hi_if_status = BATADV_IF_ACTIVE, hi_num_bcasts = 1, hi_wifi_flags = wifi, hi_hop_penalty = 0,
     hi_bat_v = \<lparr>bv_elp_interval = 500, bv_elp_seqno = 0, bv_elp_skb = None, bv_aggr_list = [],
       bv_aggr_len = 0, bv_throughput_override = 0, bv_flags = 0\<rparr>,
     hi_neigh_list = [\<lparr>hn_addr = Mac 2 0 0 0 0 9, hn_orig = Mac 2 0 0 0 0 9, hn_if_incoming = 1,
       hn_last_seen = 0, hn_bat_v = ex_link\<rparr>]\<rparr>"

definition ex_link_env :: link_env where
  "ex_link_env = \<lparr>has_mesh_iface = True, rtnl_trylock = True, has_real_netdev = True,
     cfg80211_get_station = 0, sta_expected_throughput = Some 0, sta_tx_bitrate = None,
     ethtool_ret = 0, duplex_full = True, link_speed = 1000\<rparr>"

text \<open>
  A wireless station whose expected throughput is reported as zero crashes the metric
  update: the bit rate is guarded in the formula but not in the message printed behind it,
  which divides by it.
\<close>

theorem elp_zero_throughput_crashes:
  assumes "has_mesh_iface e" and "bv_throughput_override (hi_bat_v hi) = 0"
    and "batadv_is_wifi_hardif hi" and "batadv_is_cfg80211_hardif hi" and "rtnl_trylock e"
    and "has_real_netdev e" and "cfg80211_get_station e = 0" and "sta_expected_throughput e = Some 0"
  shows "batadv_v_elp_airtime_metric_update e addr hi = Kernel_bug"
  using assms by (simp add: batadv_v_elp_airtime_metric_update_def batadv_v_elp_airtime_get_base_def
      elp_bitrate_def ENOENT_def Let_def)

theorem elp_zero_throughput_crashes_witness:
  "batadv_v_elp_airtime_metric_update ex_link_env (Mac 2 0 0 0 0 9) (ex_elp_iface 2) = Kernel_bug"
  by (rule elp_zero_throughput_crashes)
    (simp_all add: ex_link_env_def ex_elp_iface_def batadv_is_wifi_hardif_def
      batadv_is_cfg80211_hardif_def)

text \<open>
  A link that cfg80211 reports as gone is marked with the maximal base cost, but the
  32 bit product of the loss formula wraps: a neighbour without losses gets the finite cost
  4294966 instead of the maximum that makes its OGMs be dropped.
\<close>

theorem elp_lost_station_stays_usable:
  "case batadv_v_elp_airtime_metric_update (ex_link_env\<lparr>cfg80211_get_station := - ENOENT\<rparr>)
          (Mac 2 0 0 0 0 9) (ex_elp_iface 2) of
     Kret hi \<Rightarrow> map (\<lambda>n. (base_airtime (hn_bat_v n), airtime_cost (hn_bat_v n))) (hi_neigh_list hi) =
                [(BATADV_AIRTIME_MAX_VALUE, 4294966)]
   | Kernel_bug \<Rightarrow> False"
  by (simp add: batadv_v_elp_airtime_metric_update_def batadv_v_elp_airtime_get_base_def
      elp_bitrate_def Let_def ex_link_env_def ex_elp_iface_def ex_link_def batadv_is_wifi_hardif_def
      batadv_is_cfg80211_hardif_def hardif_neigh_upd_def hi_set_flags_def elp_metric_def elp_e_pt_def
      BATADV_AIRTIME_MAX_VALUE_def BATADV_AIRTIME_EWMA_WEIGHT_def)

text \<open>
  The bit rate of fast Ethernet links wraps at 32 bits: a 5 Gbit/s link is given a
  higher base cost than a 2.5 Gbit/s link.
\<close>

theorem elp_fast_ethernet_wraps:
  "batadv_v_elp_airtime_get_base (ex_link_env\<lparr>link_speed := 2500\<rparr>) (ex_elp_iface 0) = Kret (Some 303, 1)
   \<and> batadv_v_elp_airtime_get_base (ex_link_env\<lparr>link_speed := 5000\<rparr>) (ex_elp_iface 0) = Kret (Some 311, 1)"
  by (simp add: batadv_v_elp_airtime_get_base_def elp_bitrate_def Let_def ex_link_env_def
      ex_elp_iface_def batadv_is_wifi_hardif_def airtime_of_bitrate_def SPEED_UNKNOWN_def
      BATADV_AIRTIME_OVERHEAD_def BATADV_AIRTIME_TEST_FRAME_SIZE_def BATADV_FULL_DUPLEX_def)

lemma hard_iface_get_orig_upd [simp]: "hard_iface_get (orig_upd k a f bp) i = hard_iface_get bp i"
  by (simp add: orig_upd_def hard_iface_get_def Let_def split: option.splits)

lemma hard_iface_get_orig_get:
  "batadv_v_ogm_orig_get k bp a = (r, bp') \<Longrightarrow> hard_iface_get bp' i = hard_iface_get bp i"
  by (auto simp: batadv_v_ogm_orig_get_def hard_iface_get_def split: option.splits prod.splits if_splits)

lemma hardif_neigh_get_upd:
  assumes "\<And>n. hn_addr (f n) = hn_addr n"
  shows "batadv_hardif_neigh_get (hardif_neigh_upd a f hi) b =
    (if b = a then map_option f (batadv_hardif_neigh_get hi a) else batadv_hardif_neigh_get hi b)"
  using find_key_upd_first [where key = hn_addr and f = f, OF assms]
  by (simp add: batadv_hardif_neigh_get_def hardif_neigh_upd_def)

lemma hardif_neigh_upd_ifindex [simp]: "hi_ifindex (hardif_neigh_upd a f hi) = hi_ifindex hi"
  by (simp add: hardif_neigh_upd_def)

lemma hard_iface_get_ifindex: "hard_iface_get bp i = Some hi \<Longrightarrow> hi_ifindex hi = i"
  unfolding hard_iface_get_def by (blast dest: find_key_SomeD)

lemma hard_iface_get_put:
  assumes "hard_iface_get bp i = Some hi" and "hi_ifindex hi' = i"
  shows "hard_iface_get (hard_iface_upd i (\<lambda>_. hi') bp) i = Some hi'"
proof -
  have "find (\<lambda>h. hi_ifindex h = i) (hlist_upd_first (\<lambda>h. hi_ifindex h = i) (\<lambda>_. hi') xs) = Some hi'"
    if "find (\<lambda>h. hi_ifindex h = i) xs = Some hi" for xs
    using that assms(2) by (induction xs) (auto split: if_splits)
  then show ?thesis using assms(1) by (simp add: hard_iface_get_def hard_iface_upd_def)
qed

lemma neigh_get_or_create_known_hardif:
  assumes "batadv_hardif_neigh_get hi a = Some n" and "new_neigh_ptr k \<noteq> None"
  shows "\<exists>p orig_node'. batadv_neigh_node_get_or_create k init orig_node hi a = (Some p, orig_node', hi)"
  using assms by (auto simp: batadv_neigh_node_get_or_create_def batadv_neigh_node_create_def Let_def
      batadv_hardif_neigh_get_or_create_def split: option.splits)

lemma orig_get_Some:
  assumes "orig_table_ok k bp" and "\<And>s. kalloc_ok k s"
  shows "\<exists>orig_node bp'. batadv_v_ogm_orig_get k bp a = (Some orig_node, bp')"
proof -
  obtain r bp' where g: "batadv_v_ogm_orig_get k bp a = (r, bp')" by fastforce
  have "batadv_orig_node_new k a \<noteq> None"
    using assms(2) by (simp add: batadv_orig_node_new_def batadv_orig_node_vlan_new_def Let_def
        batadv_vlan_id_valid_def batadv_orig_node_vlan_get_def)
  then show ?thesis using orig_get_cases [OF assms(1) g] g by (auto split: option.splits)
qed

text \<open>
  Receiving an ELP packet from a known neighbour performs exactly one step of the link's
  life: the loss counters, the last and the latest sequence number of that neighbour on the
  receiving interface change as in the step, the announced interval apart.
\<close>

theorem elp_neigh_update_step:
  assumes "orig_table_ok k bp" and "\<And>s. kalloc_ok k s" and "new_neigh_ptr k \<noteq> None"
    and "hard_iface_get bp i = Some hi" and "batadv_hardif_neigh_get hi a = Some n"
  shows "\<exists>hi' n'. hard_iface_get (batadv_v_elp_neigh_update k init a i p bp) i = Some hi'
    \<and> batadv_hardif_neigh_get hi' a = Some n'
    \<and> (hn_bat_v n')\<lparr>elp_interval := 0\<rparr> =
        (elp_step (Elp_received (elp_seqno p)) (hn_bat_v n))\<lparr>elp_interval := 0\<rparr>"
proof -
  let ?v = "elp_count (elp_seqno p) (hn_bat_v n)"
  obtain orig_node bp1 where o: "batadv_v_ogm_orig_get k bp (elp_orig p) = (Some orig_node, bp1)"
    using orig_get_Some [OF assms(1,2)] by blast
  obtain q orig_node' where c:
    "batadv_neigh_node_get_or_create k init orig_node hi a = (Some q, orig_node', hi)"
    using neigh_get_or_create_known_hardif [OF assms(5,3)] by blast
  define bp2 where "bp2 = hard_iface_upd i (\<lambda>_. hi) (orig_upd k (elp_orig p) (\<lambda>_. orig_node') bp1)"
  have hi1: "hard_iface_get bp1 i = Some hi" using hard_iface_get_orig_get [OF o] assms(4) by simp
  have hi2: "hard_iface_get bp2 i = Some hi"
    unfolding bp2_def using hi1 hard_iface_get_ifindex [OF assms(4)]
    by (intro hard_iface_get_put) simp_all
  have res: "batadv_v_elp_neigh_update k init a i p bp =
    (if elp_is_old (elp_seqno p) ?v
     then hard_iface_upd i (hardif_neigh_upd a (\<lambda>n. n\<lparr>hn_bat_v := ?v\<rparr>)) bp2
     else orig_upd k (elp_orig p) (neigh_upd q (\<lambda>n. n\<lparr>nn_last_seen := jiffies k\<rparr>))
        (hard_iface_upd i (hardif_neigh_upd a (\<lambda>n. n\<lparr>hn_last_seen := jiffies k,
           hn_bat_v := ?v\<lparr>elp_latest_seqno := elp_seqno p,
             elp_interval := batadv_elp_packet.elp_interval p\<rparr>\<rparr>)) bp2))"
    by (simp add: batadv_v_elp_neigh_update_def o hi1 c assms(5) Let_def bp2_def)
  show ?thesis
    unfolding res
    by (simp add: hard_iface_get_upd hi2 hardif_neigh_get_upd assms(5) Let_def)
qed

definition ex_elp :: batadv_elp_packet where
  "ex_elp = \<lparr>elp_packet_type = BATADV_ELP, elp_version = 15, elp_orig = Mac 2 0 0 0 0 9,
     elp_seqno = 77, elp_interval = 500\<rparr>"

theorem elp_neigh_update_step_witness:
  "\<exists>hi' n'. hard_iface_get (batadv_v_elp_neigh_update ex_kenv None (Mac 2 0 0 0 0 9) 1 ex_elp
        (ex_priv\<lparr>bp_hard_ifaces := [ex_elp_iface 0]\<rparr>)) 1 = Some hi'
    \<and> batadv_hardif_neigh_get hi' (Mac 2 0 0 0 0 9) = Some n'
    \<and> (hn_bat_v n')\<lparr>elp_interval := 0\<rparr> = (elp_step (Elp_received 77) ex_link)\<lparr>elp_interval := 0\<rparr>"
proof -
  have "orig_table_ok ex_kenv (ex_priv\<lparr>bp_hard_ifaces := [ex_elp_iface 0]\<rparr>)"
    using ex_priv_ok [of ex_kenv] by (simp add: orig_table_ok_def)
  then show ?thesis
    using elp_neigh_update_step [of ex_kenv "ex_priv\<lparr>bp_hard_ifaces := [ex_elp_iface 0]\<rparr>" 1
        "ex_elp_iface 0" "Mac 2 0 0 0 0 9" "hd (hi_neigh_list (ex_elp_iface 0))" None ex_elp]
    by (simp add: ex_elp_def) (simp add: ex_kenv_def hard_iface_get_def ex_elp_iface_def
        batadv_hardif_neigh_get_def)
qed

end
