(* ===== verification/Bat_V_Ogm.thy ===== *)
theory Bat_V_Ogm
  imports Bat_V_Elp
begin

text \<open>
  The originator messages of B.A.T.M.A.N. V, \<^verbatim>\<open>src/net/batman-adv/bat_v_ogm.c\<close>: sending
  the node's own OGM with its TVLV containers, aggregation of OGMs per interface, and the
  processing of received OGMs (path metric, route choice, rebroadcast with the node's own
  weight). An OGM packet is the byte string of its header and TVLV part.
\<close>

section \<open>Constants and node weights\<close>

definition BATADV_TQ_MAX_VALUE :: u32 where "BATADV_TQ_MAX_VALUE = 255"
definition BATADV_WEIGHT_SCALE :: u32 where "BATADV_WEIGHT_SCALE = 1000"
definition BATADV_TVLV_NODE_WEIGHT :: u8 where "BATADV_TVLV_NODE_WEIGHT = 0x10"
definition BATADV_MAX_AGGREGATION_BYTES :: u32 where "BATADV_MAX_AGGREGATION_BYTES = 512"
definition BATADV_MAX_AGGREGATION_MS :: u32 where "BATADV_MAX_AGGREGATION_MS = 100"
definition BATADV_OGM_MAX_AGE :: int where "BATADV_OGM_MAX_AGE = 64"
definition BATADV_OGM_MAX_ORIGDIFF :: int where "BATADV_OGM_MAX_ORIGDIFF = 5"
definition BATADV_AIRTIME_HALF_DUPLEX_PENALTY :: u32 where "BATADV_AIRTIME_HALF_DUPLEX_PENALTY = 2"

definition weight_of :: "u32 \<Rightarrow> u32 \<Rightarrow> u32 \<Rightarrow> u32" where
  "weight_of priority duty_cycle power_cls =
     (let priority_factor = (priority * BATADV_WEIGHT_SCALE) div 128;
          duty_factor = (100 * BATADV_WEIGHT_SCALE) div duty_cycle;
          power_factor = power_cls * BATADV_WEIGHT_SCALE;
          result = (ucast priority_factor :: u64) * ucast duty_factor * ucast power_factor in
      ucast (result div ucast (BATADV_WEIGHT_SCALE * BATADV_WEIGHT_SCALE)))"

definition batadv_node_weight_factor :: "batadv_priv \<Rightarrow> u32" where
  "batadv_node_weight_factor bp =
     (let priority = bp_node_priority bp;
          duty_cycle = bp_duty_cycle bp;
          power_cls = bp_power_class bp;
          duty_cycle = (if duty_cycle = 0 then 1 else duty_cycle) in
      weight_of priority duty_cycle power_cls)"

definition batadv_orig_node_weight_factor :: "batadv_orig_node \<Rightarrow> u32" where
  "batadv_orig_node_weight_factor orig_node =
     (let priority = on_node_priority orig_node;
          duty_cycle = on_duty_cycle orig_node;
          power_cls = on_power_class orig_node;
          priority = (if priority = 0 then BATADV_NODE_PRIORITY_DEFAULT else priority);
          duty_cycle = (if duty_cycle = 0 then BATADV_DUTY_CYCLE_DEFAULT else duty_cycle);
          power_cls = (if power_cls = 0 then BATADV_POWER_CLASS_DEFAULT else power_cls) in
      weight_of (ucast priority) (ucast duty_cycle) (ucast power_cls))"

section \<open>Aggregation\<close>

definition batadv_v_ogm_len :: "bytes \<Rightarrow> nat" where
  "batadv_v_ogm_len skb = BATADV_OGM2_HLEN + unat (ogm2_tvlv_len (get_ogm2_packet skb))"

definition batadv_v_ogm_send_to_if :: "bytes \<Rightarrow> ifindex \<Rightarrow> batadv_priv \<Rightarrow> batadv_priv" where
  "batadv_v_ogm_send_to_if skb i bp =
     (case hard_iface_get bp i of
        None \<Rightarrow> bp
      | Some hi \<Rightarrow>
          if hi_if_status hi \<noteq> BATADV_IF_ACTIVE then bp
          else ext_call (Send_broadcast_skb i skb)
                 (batadv_add_counter BATADV_CNT_MGMT_TX_BYTES (of_nat (length skb + ETH_HLEN))
                   (batadv_add_counter BATADV_CNT_MGMT_TX 1 bp)))"

definition batadv_v_ogm_queue_left :: "bytes \<Rightarrow> batadv_hard_iface \<Rightarrow> bool" where
  "batadv_v_ogm_queue_left skb hi =
     (let mx = min (hi_mtu hi) BATADV_MAX_AGGREGATION_BYTES in
      bv_aggr_len (hi_bat_v hi) + of_nat (batadv_v_ogm_len skb) \<le> mx)"

definition hi_set_aggr :: "bytes list \<Rightarrow> u32 \<Rightarrow> batadv_hard_iface \<Rightarrow> batadv_hard_iface" where
  "hi_set_aggr aggr_list aggr_len hi =
     hi\<lparr>hi_bat_v := (hi_bat_v hi)\<lparr>bv_aggr_list := aggr_list, bv_aggr_len := aggr_len\<rparr>\<rparr>"

definition batadv_v_ogm_aggr_list_free :: "batadv_hard_iface \<Rightarrow> batadv_hard_iface" where
  "batadv_v_ogm_aggr_list_free hi = hi_set_aggr [] 0 hi"

text \<open>
  The dequeue loop of \<^verbatim>\<open>batadv_v_ogm_aggr_send\<close>: \<open>room\<close> is what is left of the allocated
  aggregate. Reading behind the end of a queued packet and writing behind the end of the
  aggregate are \<open>Kernel_bug\<close>.
\<close>

fun aggr_collect :: "nat \<Rightarrow> bytes \<Rightarrow> u32 \<Rightarrow> bytes list \<Rightarrow> (bytes \<times> u32) kresult" where
  "aggr_collect room skb_aggr aggr_len [] = Kret (skb_aggr, aggr_len)"
| "aggr_collect room skb_aggr aggr_len (skb # skbs) =
     (let ogm_len = batadv_v_ogm_len skb in
      if length skb < ogm_len \<or> room < ogm_len then Kernel_bug
      else aggr_collect (room - ogm_len) (skb_aggr @ take ogm_len skb)
             (aggr_len - of_nat ogm_len) skbs)"

definition batadv_v_ogm_aggr_send ::
    "'k kenv_scheme \<Rightarrow> ifindex \<Rightarrow> batadv_priv \<Rightarrow> batadv_priv kresult" where
  "batadv_v_ogm_aggr_send k i bp =
     (case hard_iface_get bp i of
        None \<Rightarrow> Kret bp
      | Some hi \<Rightarrow>
          let aggr_len = bv_aggr_len (hi_bat_v hi) in
          if aggr_len = 0 then Kret bp
          else if \<not> kalloc_ok k (Alloc_aggr i)
          then Kret (hard_iface_upd i batadv_v_ogm_aggr_list_free bp)
          else (case aggr_collect (unat aggr_len) [] aggr_len (bv_aggr_list (hi_bat_v hi)) of
                  Kernel_bug \<Rightarrow> Kernel_bug
                | Kret (skb_aggr, aggr_len') \<Rightarrow>
                    Kret (batadv_v_ogm_send_to_if skb_aggr i
                            (hard_iface_upd i (hi_set_aggr [] aggr_len') bp))))"

definition aggr_enqueue :: "bytes \<Rightarrow> batadv_hard_iface \<Rightarrow> batadv_hard_iface" where
  "aggr_enqueue skb hi =
     hi_set_aggr (bv_aggr_list (hi_bat_v hi) @ [skb])
       (bv_aggr_len (hi_bat_v hi) + of_nat (batadv_v_ogm_len skb)) hi"

definition batadv_v_ogm_queue_on_if ::
    "'k kenv_scheme \<Rightarrow> bytes \<Rightarrow> ifindex \<Rightarrow> batadv_priv \<Rightarrow> batadv_priv kresult" where
  "batadv_v_ogm_queue_on_if k skb i bp =
     (case hard_iface_get bp i of
        None \<Rightarrow> Kret bp
      | Some hi \<Rightarrow>
          if bp_aggregated_ogms bp = 0 then Kret (batadv_v_ogm_send_to_if skb i bp)
          else (case (if \<not> batadv_v_ogm_queue_left skb hi then batadv_v_ogm_aggr_send k i bp
                      else Kret bp) of
                  Kernel_bug \<Rightarrow> Kernel_bug
                | Kret bp' \<Rightarrow> Kret (hard_iface_upd i (aggr_enqueue skb) bp')))"

definition batadv_v_ogm_start_queue_timer :: "(u32 \<Rightarrow> u32) \<Rightarrow> ifindex \<Rightarrow> batadv_priv \<Rightarrow> batadv_priv" where
  "batadv_v_ogm_start_queue_timer random_below i bp =
     (let msecs = BATADV_MAX_AGGREGATION_MS * 1000;
          msecs = msecs + (random_below (msecs div 5) - msecs div 10) in
      ext_call (Queue_aggr_work i (msecs div 1000)) bp)"

definition batadv_v_ogm_aggr_work ::
    "'k kenv_scheme \<Rightarrow> (u32 \<Rightarrow> u32) \<Rightarrow> ifindex \<Rightarrow> batadv_priv \<Rightarrow> batadv_priv kresult" where
  "batadv_v_ogm_aggr_work k random_below i bp =
     (case batadv_v_ogm_aggr_send k i bp of
        Kernel_bug \<Rightarrow> Kernel_bug
      | Kret bp' \<Rightarrow> Kret (batadv_v_ogm_start_queue_timer random_below i bp'))"

section \<open>The own OGM\<close>

definition batadv_v_ogm_start_timer :: "(u32 \<Rightarrow> u32) \<Rightarrow> batadv_priv \<Rightarrow> batadv_priv" where
  "batadv_v_ogm_start_timer random_below bp =
     (if ogm_wq_pending (bp_bat_v bp) then bp
      else let msecs = scast (bp_orig_interval bp - BATADV_JITTER) + ucast (random_below (2 * BATADV_JITTER)) in
           ext_call (Queue_ogm_work msecs) (bp\<lparr>bp_bat_v := (bp_bat_v bp)\<lparr>ogm_wq_pending := True\<rparr>\<rparr>))"

definition own_weight_tvlv :: "batadv_priv \<Rightarrow> batadv_tvlv_node_weight" where
  "own_weight_tvlv bp =
     \<lparr>nw_priority = ucast (bp_node_priority bp), nw_duty_cycle = ucast (bp_duty_cycle bp),
      nw_power_class = ucast (bp_power_class bp)\<rparr>"

text \<open>The loop over the interfaces: it stops at the first clone that cannot be allocated.\<close>

fun ogm_broadcast ::
    "'k kenv_scheme \<Rightarrow> bytes \<Rightarrow> batadv_hard_iface list \<Rightarrow> batadv_priv \<Rightarrow> batadv_priv kresult" where
  "ogm_broadcast k skb [] bp = Kret bp"
| "ogm_broadcast k skb (hi # his) bp =
     (if batadv_hardif_no_broadcast hi None None \<noteq> BATADV_HARDIF_BCAST_OK
      then ogm_broadcast k skb his bp
      else if \<not> kalloc_ok k (Alloc_clone (hi_ifindex hi)) then Kret bp
      else (case batadv_v_ogm_queue_on_if k skb (hi_ifindex hi) bp of
              Kernel_bug \<Rightarrow> Kernel_bug
            | Kret bp' \<Rightarrow> ogm_broadcast k skb his bp'))"

text \<open>
  \<open>tt_commit\<close> is \<^verbatim>\<open>batadv_tt_local_commit_changes\<close>, which may replace the translation
  table container. A missing OGM buffer cannot be read.
\<close>

definition batadv_v_ogm_send_meshif ::
    "'k kenv_scheme \<Rightarrow> (nat \<Rightarrow> bytes option) \<Rightarrow> (u32 \<Rightarrow> u32) \<Rightarrow> (batadv_priv \<Rightarrow> batadv_priv)
      \<Rightarrow> batadv_priv \<Rightarrow> batadv_priv kresult" where
  "batadv_v_ogm_send_meshif k kmalloc random_below tt_commit bp =
     (if bp_mesh_state bp = BATADV_MESH_DEACTIVATING then Kret bp
      else
        let bp = tt_commit bp;
            weight_tvlv = node_weight_bytes (own_weight_tvlv bp);
            bp = bp\<lparr>bp_tvlv_container_list :=
                   batadv_tvlv_container_register (kalloc_ok k Alloc_tvlv_container)
                     BATADV_TVLV_NODE_WEIGHT 1 (Some weight_tvlv) 3 (bp_tvlv_container_list bp)\<rparr> in
        (case ogm_buff (bp_bat_v bp) of
           None \<Rightarrow> Kernel_bug
         | Some buff \<Rightarrow>
             (case batadv_tvlv_container_ogm_append kmalloc (bp_tvlv_container_list bp) buff
                     BATADV_OGM2_HLEN of
                Kernel_bug \<Rightarrow> Kernel_bug
              | Kret (tlen, buff) \<Rightarrow>
                  let bp = bp\<lparr>bp_bat_v := (bp_bat_v bp)\<lparr>ogm_buff := Some buff,
                                                          ogm_buff_len := length buff\<rparr>\<rparr> in
                  if \<not> kalloc_ok k (Alloc_skb None)
                  then Kret (batadv_v_ogm_start_timer random_below bp)
                  else
                    let seqno = ogm_seqno (bp_bat_v bp);
                        p = (get_ogm2_packet buff)\<lparr>ogm2_seqno := seqno, ogm2_tvlv_len := tlen\<rparr>;
                        skb = ogm2_packet_bytes p @ drop BATADV_OGM2_HLEN buff;
                        bp = bp\<lparr>bp_bat_v := (bp_bat_v bp)\<lparr>ogm_seqno := seqno + 1\<rparr>\<rparr> in
                    (case ogm_broadcast k skb (bp_hard_ifaces bp) bp of
                       Kernel_bug \<Rightarrow> Kernel_bug
                     | Kret bp \<Rightarrow> Kret (batadv_v_ogm_start_timer random_below bp)))))"

text \<open>The work item is no longer pending when its worker runs.\<close>

definition batadv_v_ogm_send ::
    "'k kenv_scheme \<Rightarrow> (nat \<Rightarrow> bytes option) \<Rightarrow> (u32 \<Rightarrow> u32) \<Rightarrow> (batadv_priv \<Rightarrow> batadv_priv)
      \<Rightarrow> batadv_priv \<Rightarrow> batadv_priv kresult" where
  "batadv_v_ogm_send k kmalloc random_below tt_commit bp =
     batadv_v_ogm_send_meshif k kmalloc random_below tt_commit
       (bp\<lparr>bp_bat_v := (bp_bat_v bp)\<lparr>ogm_wq_pending := False\<rparr>\<rparr>)"

definition batadv_v_ogm_iface_enable ::
    "(u32 \<Rightarrow> u32) \<Rightarrow> ifindex \<Rightarrow> batadv_priv \<Rightarrow> int \<times> batadv_priv" where
  "batadv_v_ogm_iface_enable random_below i bp =
     (0, batadv_v_ogm_start_timer random_below (batadv_v_ogm_start_queue_timer random_below i bp))"

definition batadv_v_ogm_iface_disable :: "batadv_hard_iface \<Rightarrow> batadv_hard_iface" where
  "batadv_v_ogm_iface_disable hi = batadv_v_ogm_aggr_list_free hi"

definition batadv_v_ogm_primary_iface_set :: "mac \<Rightarrow> batadv_priv \<Rightarrow> batadv_priv" where
  "batadv_v_ogm_primary_iface_set primary_addr bp =
     (case ogm_buff (bp_bat_v bp) of
        None \<Rightarrow> bp
      | Some buff \<Rightarrow>
          bp\<lparr>bp_bat_v := (bp_bat_v bp)\<lparr>ogm_buff :=
               Some (ogm2_packet_bytes ((get_ogm2_packet buff)\<lparr>ogm2_orig := primary_addr\<rparr>)
                     @ drop BATADV_OGM2_HLEN buff)\<rparr>\<rparr>)"

section \<open>Received OGMs: metric\<close>

definition batadv_v_forward_penalty ::
    "batadv_priv \<Rightarrow> ifindex \<Rightarrow> ifref \<Rightarrow> u32 \<Rightarrow> u32" where
  "batadv_v_forward_penalty bp if_incoming if_outgoing airtime =
     (let flags = (case hard_iface_get bp if_incoming of
                     None \<Rightarrow> 0 | Some hi \<Rightarrow> bv_flags (hi_bat_v hi)) in
      if if_outgoing = BATADV_IF_DEFAULT then airtime
      else if if_outgoing = Some if_incoming \<and> flags AND BATADV_FULL_DUPLEX = 0
      then airtime * BATADV_AIRTIME_HALF_DUPLEX_PENALTY
      else airtime + (airtime * bp_hop_penalty bp div BATADV_TQ_MAX_VALUE))"

definition link_airtime :: "batadv_priv \<Rightarrow> ifindex \<Rightarrow> mac \<Rightarrow> u32" where
  "link_airtime bp if_incoming addr =
     (case hard_iface_get bp if_incoming of
        None \<Rightarrow> BATADV_AIRTIME_MAX_VALUE
      | Some hi \<Rightarrow>
          (case batadv_hardif_neigh_get hi addr of
             None \<Rightarrow> BATADV_AIRTIME_MAX_VALUE
           | Some hardif_neigh \<Rightarrow> airtime_cost (hn_bat_v hardif_neigh)))"

definition ogm_path_airtime :: "u32 \<Rightarrow> u32 \<Rightarrow> u32" where
  "ogm_path_airtime ogm_path link =
     (let path_airtime = ogm_path + link in
      if path_airtime < ogm_path then BATADV_AIRTIME_MAX_VALUE else path_airtime)"

text \<open>
  On the originator of the OGM; \<open>p\<close> is the neighbour it came through. The result is the
  age of the OGM (1 new, 0 known, negative to be dropped).
\<close>

definition batadv_v_ogm_metric_update ::
    "'k kenv_scheme \<Rightarrow> batadv_priv \<Rightarrow> batadv_ogm2_packet \<Rightarrow> nat \<Rightarrow> ifindex \<Rightarrow> ifref \<Rightarrow> batadv_orig_node
      \<Rightarrow> int \<times> batadv_orig_node" where
  "batadv_v_ogm_metric_update k bp ogm2 p if_incoming if_outgoing orig_node =
     (case batadv_orig_ifinfo_new k orig_node if_outgoing of
        (None, orig_node) \<Rightarrow> (- EINVAL, orig_node)
      | (Some orig_ifinfo, orig_node) \<Rightarrow>
          let seq_diff = s32 (ogm2_seqno ogm2 - oi_last_real_seqno orig_ifinfo);
              (protected, reset, protection_started) =
                (if on_neigh_list orig_node \<noteq> []
                 then batadv_window_protected k seq_diff BATADV_OGM_MAX_AGE
                        (oi_batman_seqno_reset orig_ifinfo)
                 else (False, oi_batman_seqno_reset orig_ifinfo, False));
              orig_node = orig_ifinfo_upd if_outgoing (\<lambda>i. i\<lparr>oi_batman_seqno_reset := reset\<rparr>) orig_node in
          if protected then (- EINVAL, orig_node)
          else if seq_diff < 0 \<and> \<not> protection_started then (- EINVAL, orig_node)
          else
            let orig_node = neigh_upd p (\<lambda>n. n\<lparr>nn_last_seen := jiffies k\<rparr>) orig_node;
                orig_node = orig_node\<lparr>on_last_seen := jiffies k\<rparr>;
                orig_node = orig_ifinfo_upd if_outgoing
                  (\<lambda>i. i\<lparr>oi_last_real_seqno := ogm2_seqno ogm2, oi_last_ttl := ogm2_ttl ogm2\<rparr>) orig_node in
            (case neigh_deref orig_node p of
               None \<Rightarrow> (- EINVAL, orig_node)
             | Some neigh_node \<Rightarrow>
                 (case batadv_neigh_ifinfo_new k neigh_node if_outgoing of
                    (None, _) \<Rightarrow> (- EINVAL, orig_node)
                  | (Some _, neigh_node) \<Rightarrow>
                      let path = batadv_v_forward_penalty bp if_incoming if_outgoing
                                   (ogm_path_airtime (ogm2_throughput ogm2)
                                     (link_airtime bp if_incoming (nn_addr neigh_node)));
                          neigh_node = neigh_ifinfo_upd if_outgoing
                            (\<lambda>i. i\<lparr>ni_bat_v := \<lparr>ni_airtime_cost = path, ni_last_seqno = ogm2_seqno ogm2\<rparr>,
                                   ni_last_ttl := ogm2_ttl ogm2\<rparr>) neigh_node in
                      (if seq_diff > 0 \<or> protection_started then 1 else 0,
                       neigh_upd p (\<lambda>_. neigh_node) orig_node))))"

section \<open>Received OGMs: routes\<close>

text \<open>
  Whether the neighbour \<open>p\<close> replaces the current router \<open>rp\<close> of the originator: unless one
  of them has no interface record, it does when it is cheaper or its last sequence number
  is ahead by the allowed difference.
\<close>

definition ogm_switch :: "batadv_orig_node \<Rightarrow> ifref \<Rightarrow> nat \<Rightarrow> nat \<Rightarrow> bool" where
  "ogm_switch orig_node if_outgoing rp p =
     (case (neigh_deref orig_node rp, neigh_deref orig_node p) of
        (Some router, Some neigh_node) \<Rightarrow>
          (case (batadv_neigh_ifinfo_get router if_outgoing,
                 batadv_neigh_ifinfo_get neigh_node if_outgoing) of
             (Some router_ifinfo, Some neigh_ifinfo) \<Rightarrow>
               let neigh_seq_diff = s32 (ni_last_seqno (ni_bat_v neigh_ifinfo)
                                         - ni_last_seqno (ni_bat_v router_ifinfo)) in
               \<not> (neigh_seq_diff < BATADV_OGM_MAX_ORIGDIFF
                  \<and> ni_airtime_cost (ni_bat_v router_ifinfo) \<le> ni_airtime_cost (ni_bat_v neigh_ifinfo))
           | _ \<Rightarrow> False)
      | _ \<Rightarrow> False)"

definition batadv_v_ogm_route_update ::
    "'k kenv_scheme \<Rightarrow> mac \<Rightarrow> mac \<Rightarrow> nat \<Rightarrow> ifref \<Rightarrow> batadv_priv \<Rightarrow> bool \<times> batadv_priv" where
  "batadv_v_ogm_route_update k h_src orig p if_outgoing bp =
     (case batadv_v_ogm_orig_get k bp h_src of
        (None, bp) \<Rightarrow> (False, bp)
      | (Some orig_neigh_node, bp) \<Rightarrow>
          (case batadv_orig_hash_find k bp orig of
             None \<Rightarrow> (False, bp)
           | Some orig_node \<Rightarrow>
               let orig_neigh_router = batadv_orig_router_get orig_neigh_node if_outgoing;
                   router = batadv_orig_router_get orig_node if_outgoing in
               if (case router of None \<Rightarrow> False
                   | Some rp \<Rightarrow> (case neigh_deref orig_node rp of None \<Rightarrow> False
                                 | Some n \<Rightarrow> nn_orig_node n \<noteq> orig))
                  \<and> orig_neigh_router = None
               then (False, bp)
               else if router = Some p then (True, bp)
               else if (case router of None \<Rightarrow> True | Some rp \<Rightarrow> ogm_switch orig_node if_outgoing rp p)
               then (True, release_neighs (orig_upd k orig
                       (\<lambda>orig_node. fst (batadv_update_route orig_node if_outgoing (Some p))) bp))
               else (True, bp)))"

section \<open>Received OGMs: forwarding\<close>

text \<open>The node's own weight, applied to the path cost it announces.\<close>

definition apply_weight :: "u32 \<Rightarrow> u32 \<Rightarrow> u32" where
  "apply_weight self_weight cost =
     (if self_weight = BATADV_WEIGHT_SCALE then cost
      else
        let weighted_path = (ucast cost :: u64) * ucast self_weight in
        if weighted_path > U32_MAX then BATADV_AIRTIME_MAX_VALUE
        else let current_path = ucast (weighted_path div ucast BATADV_WEIGHT_SCALE) in
             if current_path = 0 then 1 else current_path)"

text \<open>
  \<open>ogm\<close> is the memory from the received OGM on; the copy made for forwarding
  (\<^verbatim>\<open>skb_put_data\<close>) reads as many bytes as the header announces, and reading behind
  the end of the packet is \<open>Kernel_bug\<close>.
\<close>

definition ogm_forward_skb :: "batadv_priv \<Rightarrow> bytes \<Rightarrow> u32 \<Rightarrow> bytes" where
  "ogm_forward_skb bp ogm cost =
     (let p = get_ogm2_packet ogm;
          packet_len = BATADV_OGM2_HLEN + unat (ogm2_tvlv_len p) in
      ogm2_packet_bytes (p\<lparr>ogm2_throughput := apply_weight (batadv_node_weight_factor bp) cost,
                           ogm2_ttl := ogm2_ttl p - 1\<rparr>)
      @ drop BATADV_OGM2_HLEN (take packet_len ogm))"

definition batadv_v_ogm_forward ::
    "'k kenv_scheme \<Rightarrow> bytes \<Rightarrow> mac \<Rightarrow> nat \<Rightarrow> ifref \<Rightarrow> batadv_priv \<Rightarrow> batadv_priv kresult" where
  "batadv_v_ogm_forward k ogm orig p if_outgoing bp =
     (case if_outgoing of
        None \<Rightarrow> Kret bp
      | Some i \<Rightarrow>
          (case batadv_orig_hash_find k bp orig of
             None \<Rightarrow> Kret bp
           | Some orig_node \<Rightarrow>
               let ogm_received = get_ogm2_packet ogm in
               (case batadv_orig_ifinfo_new k orig_node if_outgoing of
                  (None, _) \<Rightarrow> Kret bp
                | (Some orig_ifinfo, orig_node) \<Rightarrow>
                    let bp = orig_upd k orig (\<lambda>_. orig_node) bp in
                    if batadv_orig_router_get orig_node if_outgoing \<noteq> Some p then Kret bp
                    else if oi_last_seqno_forwarded orig_ifinfo = ogm2_seqno ogm_received then Kret bp
                    else
                      let bp = orig_upd k orig (orig_ifinfo_upd if_outgoing
                                 (\<lambda>i. i\<lparr>oi_last_seqno_forwarded := ogm2_seqno ogm_received\<rparr>)) bp in
                      if ogm2_ttl ogm_received \<le> 1 then Kret bp
                      else (case neigh_deref orig_node p of
                              None \<Rightarrow> Kret bp
                            | Some neigh_node \<Rightarrow>
                                (case batadv_neigh_ifinfo_get neigh_node if_outgoing of
                                   None \<Rightarrow> Kret bp
                                 | Some neigh_ifinfo \<Rightarrow>
                                     if \<not> kalloc_ok k (Alloc_skb if_outgoing) then Kret bp
                                     else if length ogm < batadv_v_ogm_len ogm then Kernel_bug
                                     else batadv_v_ogm_queue_on_if k
                                            (ogm_forward_skb bp ogm (ni_airtime_cost (ni_bat_v neigh_ifinfo)))
                                            i bp)))))"

section \<open>Received OGMs: processing\<close>

definition batadv_v_ogm_process_per_outif ::
    "'k kenv_scheme \<Rightarrow> mac \<Rightarrow> bytes \<Rightarrow> mac \<Rightarrow> nat \<Rightarrow> ifindex \<Rightarrow> ifref \<Rightarrow> batadv_priv
      \<Rightarrow> batadv_priv kresult" where
  "batadv_v_ogm_process_per_outif k h_src ogm orig p if_incoming if_outgoing bp =
     (case batadv_orig_hash_find k bp orig of
        None \<Rightarrow> Kret bp
      | Some orig_node \<Rightarrow>
          (case batadv_v_ogm_metric_update k bp (get_ogm2_packet ogm) p if_incoming if_outgoing orig_node of
             (seqno_age, orig_node) \<Rightarrow>
               let bp = orig_upd k orig (\<lambda>_. orig_node) bp in
               if seqno_age < 0 then Kret bp
               else (case batadv_v_ogm_route_update k h_src orig p if_outgoing bp of
                       (forward, bp) \<Rightarrow>
                         if forward then batadv_v_ogm_forward k ogm orig p if_outgoing bp
                         else Kret bp)))"

text \<open>Reading a header field where no whole header is left is \<open>Kernel_bug\<close>.\<close>

definition batadv_v_ogm_aggr_packet :: "nat \<Rightarrow> nat \<Rightarrow> bytes \<Rightarrow> bool kresult" where
  "batadv_v_ogm_aggr_packet buff_pos packet_len ogm =
     (if buff_pos + BATADV_OGM2_HLEN > packet_len then Kret False
      else if length ogm < BATADV_OGM2_HLEN then Kernel_bug
      else Kret (buff_pos + BATADV_OGM2_HLEN + unat (ogm2_tvlv_len (get_ogm2_packet ogm)) \<le> packet_len))"

fun ogm_process_outifs ::
    "'k kenv_scheme \<Rightarrow> mac \<Rightarrow> bytes \<Rightarrow> mac \<Rightarrow> mac \<Rightarrow> nat \<Rightarrow> ifindex \<Rightarrow> ifindex list \<Rightarrow> batadv_priv
      \<Rightarrow> batadv_priv kresult" where
  "ogm_process_outifs k h_src ogm orig hn_origin p if_incoming [] bp = Kret bp"
| "ogm_process_outifs k h_src ogm orig hn_origin p if_incoming (i # is) bp =
     (case hard_iface_get bp i of
        None \<Rightarrow> ogm_process_outifs k h_src ogm orig hn_origin p if_incoming is bp
      | Some hi \<Rightarrow>
          if hi_if_status hi \<noteq> BATADV_IF_ACTIVE
             \<or> batadv_hardif_no_broadcast hi (Some orig) (Some hn_origin) \<noteq> BATADV_HARDIF_BCAST_OK
          then ogm_process_outifs k h_src ogm orig hn_origin p if_incoming is bp
          else (case batadv_v_ogm_process_per_outif k h_src ogm orig p if_incoming (Some i) bp of
                  Kernel_bug \<Rightarrow> Kernel_bug
                | Kret bp' \<Rightarrow> ogm_process_outifs k h_src ogm orig hn_origin p if_incoming is bp'))"

text \<open>
  \<open>hs\<close> are the registered TVLV handlers; they act on the mesh state and name the
  originator by its address. The header is read first, and the TVLV parser is handed the
  announced bytes behind it: \<open>Kernel_bug\<close> when the packet does not hold them.
\<close>

type_synonym tvlv_handlers = "(mac, batadv_priv) batadv_tvlv_handler list"

definition batadv_v_ogm_process ::
    "'k kenv_scheme \<Rightarrow> (batadv_hardif_neigh_node \<Rightarrow> batadv_hardif_neigh_node) option \<Rightarrow> mac \<Rightarrow> bytes
      \<Rightarrow> ifindex \<Rightarrow> tvlv_handlers \<Rightarrow> batadv_priv \<Rightarrow> (tvlv_handlers \<times> batadv_priv) kresult" where
  "batadv_v_ogm_process k hardif_init h_src ogm if_incoming hs bp =
     (let ogm_packet = get_ogm2_packet ogm; orig = ogm2_orig ogm_packet in
      if length ogm < BATADV_OGM2_HLEN then Kernel_bug
      else if batadv_is_my_mac bp orig then Kret (hs, bp)
      else if ogm2_throughput ogm_packet = BATADV_AIRTIME_MAX_VALUE then Kret (hs, bp)
      else (case hard_iface_get bp if_incoming of
              None \<Rightarrow> Kret (hs, bp)
            | Some hi \<Rightarrow>
                (case batadv_hardif_neigh_get hi h_src of
                   None \<Rightarrow> Kret (hs, bp)
                 | Some hardif_neigh \<Rightarrow>
                     (case batadv_v_ogm_orig_get k bp orig of
                        (None, bp) \<Rightarrow> Kret (hs, bp)
                      | (Some orig_node, bp) \<Rightarrow>
                          (case batadv_neigh_node_get_or_create k hardif_init orig_node hi h_src of
                             (neigh_node, orig_node, hi) \<Rightarrow>
                               let bp = hard_iface_upd if_incoming (\<lambda>_. hi)
                                          (orig_upd k orig (\<lambda>_. orig_node) bp) in
                               (case neigh_node of
                                  None \<Rightarrow> Kret (hs, bp)
                                | Some p \<Rightarrow>
                                    if length ogm < batadv_v_ogm_len ogm then Kernel_bug
                                    else (case batadv_tvlv_containers_process BATADV_OGM2 (Some orig) None
                                            BATADV_OGM2_HLEN (drop BATADV_OGM2_HLEN ogm)
                                            (ogm2_tvlv_len ogm_packet) hs bp of
                                       (_, hs, bp) \<Rightarrow>
                                         (case batadv_v_ogm_process_per_outif k h_src ogm orig p
                                                 if_incoming BATADV_IF_DEFAULT bp of
                                            Kernel_bug \<Rightarrow> Kernel_bug
                                          | Kret bp \<Rightarrow>
                                              (case ogm_process_outifs k h_src ogm orig
                                                      (hn_orig hardif_neigh) p if_incoming
                                                      (map hi_ifindex (bp_hard_ifaces bp)) bp of
                                                 Kernel_bug \<Rightarrow> Kernel_bug
                                               | Kret bp \<Rightarrow> Kret (hs, bp))))))))))"

text \<open>
  The loop over the OGMs of an aggregate; each OGM is processed under its own
  circumstances (\<open>env\<close>, by offset).
\<close>

function ogm_recv_loop ::
    "(nat \<Rightarrow> kenv) \<Rightarrow> (batadv_hardif_neigh_node \<Rightarrow> batadv_hardif_neigh_node) option \<Rightarrow> mac \<Rightarrow> bytes
      \<Rightarrow> ifindex \<Rightarrow> nat \<Rightarrow> tvlv_handlers \<Rightarrow> batadv_priv \<Rightarrow> (tvlv_handlers \<times> batadv_priv) kresult" where
  "ogm_recv_loop env hardif_init h_src data if_incoming ogm_offset hs bp =
     (let ogm = drop ogm_offset data in
      case batadv_v_ogm_aggr_packet ogm_offset (length data) ogm of
        Kernel_bug \<Rightarrow> Kernel_bug
      | Kret fits \<Rightarrow>
          if fits then
            (case batadv_v_ogm_process (env ogm_offset) hardif_init h_src ogm if_incoming hs bp of
               Kernel_bug \<Rightarrow> Kernel_bug
             | Kret (hs, bp) \<Rightarrow>
                 ogm_recv_loop env hardif_init h_src data if_incoming
                   (ogm_offset + BATADV_OGM2_HLEN + unat (ogm2_tvlv_len (get_ogm2_packet ogm))) hs bp)
          else Kret (hs, bp))"
  by pat_completeness auto
termination
  by (relation "measure (\<lambda>(_, _, _, data, _, off, _). length data - off)")
    (auto simp: batadv_v_ogm_aggr_packet_def BATADV_OGM2_HLEN_def split: if_splits)

definition batadv_v_ogm_packet_recv ::
    "(nat \<Rightarrow> kenv) \<Rightarrow> 'e skb_env_scheme \<Rightarrow> (batadv_hardif_neigh_node \<Rightarrow> batadv_hardif_neigh_node) option
      \<Rightarrow> sk_buff \<Rightarrow> ifindex \<Rightarrow> tvlv_handlers \<Rightarrow> batadv_priv
      \<Rightarrow> (int \<times> tvlv_handlers \<times> batadv_priv) kresult" where
  "batadv_v_ogm_packet_recv env e hardif_init skb if_incoming hs bp =
     (if bp_algo_name bp \<noteq> ''BATMAN_V'' then Kret (NET_RX_DROP, hs, bp)
      else if \<not> batadv_check_management_packet e skb BATADV_OGM2_HLEN then Kret (NET_RX_DROP, hs, bp)
      else if batadv_is_my_mac bp (h_source skb) then Kret (NET_RX_DROP, hs, bp)
      else
        let bp = batadv_add_counter BATADV_CNT_MGMT_RX_BYTES (ucast (skb_len skb + of_nat ETH_HLEN))
                   (batadv_add_counter BATADV_CNT_MGMT_RX 1 bp) in
        (case ogm_recv_loop env hardif_init (h_source skb) (skb_data skb) if_incoming 0 hs bp of
           Kernel_bug \<Rightarrow> Kernel_bug
         | Kret (hs, bp) \<Rightarrow> Kret (NET_RX_SUCCESS, hs, bp)))"

section \<open>Set-up\<close>

definition batadv_v_tvlv_node_weight_handler ::
    "'k kenv_scheme \<Rightarrow> mac option \<Rightarrow> u8 \<Rightarrow> bytes \<Rightarrow> batadv_priv \<Rightarrow> batadv_priv" where
  "batadv_v_tvlv_node_weight_handler k orig flags tvlv_value bp =
     (case orig of
        None \<Rightarrow> bp
      | Some orig \<Rightarrow>
          if length tvlv_value < 3 then bp
          else let weight = get_node_weight tvlv_value in
               orig_upd k orig (\<lambda>orig_node. orig_node\<lparr>on_node_priority := nw_priority weight,
                 on_duty_cycle := nw_duty_cycle weight, on_power_class := nw_power_class weight\<rparr>) bp)"

definition batadv_v_ogm_init ::
    "'k kenv_scheme \<Rightarrow> bool \<Rightarrow> bool \<Rightarrow> u32 \<Rightarrow> tvlv_handlers \<Rightarrow> batadv_priv
      \<Rightarrow> int \<times> tvlv_handlers \<times> batadv_priv" where
  "batadv_v_ogm_init k buff_ok handler_ok random_seqno hs bp =
     (let bp = bp\<lparr>bp_bat_v := (bp_bat_v bp)\<lparr>ogm_buff_len := BATADV_OGM2_HLEN\<rparr>\<rparr> in
      if \<not> buff_ok then (- ENOMEM, hs, bp)
      else
        let buff = ogm2_packet_bytes
              \<lparr>ogm2_packet_type = BATADV_OGM2, ogm2_version = BATADV_COMPAT_VERSION,
               ogm2_ttl = BATADV_TTL, ogm2_flags = BATADV_NO_FLAGS, ogm2_seqno = 0,
               ogm2_orig = Mac 0 0 0 0 0 0, ogm2_tvlv_len = 0, ogm2_throughput = 0\<rparr>;
            bp = bp\<lparr>bp_bat_v := \<lparr>ogm_buff = Some buff, ogm_buff_len = BATADV_OGM2_HLEN,
                                 ogm_seqno = random_seqno, ogm_wq_pending = False\<rparr>,
                    bp_node_priority := ucast BATADV_NODE_PRIORITY_DEFAULT,
                    bp_duty_cycle := ucast BATADV_DUTY_CYCLE_DEFAULT,
                    bp_power_class := ucast BATADV_POWER_CLASS_DEFAULT\<rparr>;
            hs = batadv_tvlv_handler_register handler_ok
                   (Some (batadv_v_tvlv_node_weight_handler k)) None None
                   BATADV_TVLV_NODE_WEIGHT 1 BATADV_TVLV_HANDLER_OGM_CIFNOTFND hs in
        (0, hs, bp))"

definition batadv_v_ogm_free :: "batadv_priv \<Rightarrow> batadv_priv" where
  "batadv_v_ogm_free bp =
     bp\<lparr>bp_bat_v := (bp_bat_v bp)\<lparr>ogm_buff := None, ogm_buff_len := 0, ogm_wq_pending := False\<rparr>\<rparr>"

end
