(* ===== verification/Gateway.thy ===== *)
theory Gateway
  imports Routing
begin

text \<open>
  Gateways, \<^verbatim>\<open>src/net/batman-adv/gateway_client.c\<close> and \<^verbatim>\<open>gateway_common.c\<close>: the list of
  gateways announced by originators, the selected gateway and its election, the gateway
  TVLV container, and the inspection of DHCP packets. The routing algorithm's callbacks
  (\<^verbatim>\<open>struct batadv_algo_gw_ops\<close>) are a record of functions; \<open>objs\<close> gives the originator
  object behind an address.
\<close>

section \<open>The selected gateway\<close>

record batadv_algo_gw_ops =
  init_sel_class :: "(batadv_priv_gw \<Rightarrow> batadv_priv_gw) option"
  get_best_gw_node :: "(batadv_priv_gw \<Rightarrow> batadv_gw_node option kresult) option"
  is_eligible :: "(batadv_priv_gw \<Rightarrow> mac \<Rightarrow> mac \<Rightarrow> bool kresult) option"

definition gw_deref :: "batadv_priv_gw \<Rightarrow> nat \<Rightarrow> batadv_gw_node option" where
  "gw_deref gw p = find (\<lambda>n. gn_ptr n = p) (gw_gateway_list gw @ gw_unlinked gw)"

definition batadv_gw_get_selected_gw_node :: "batadv_priv_gw \<Rightarrow> batadv_gw_node option" where
  "batadv_gw_get_selected_gw_node gw =
     (case gw_curr_gw gw of None \<Rightarrow> None | Some p \<Rightarrow> gw_deref gw p)"

definition batadv_gw_get_selected_orig :: "batadv_priv_gw \<Rightarrow> mac option" where
  "batadv_gw_get_selected_orig gw = map_option gn_orig_node (batadv_gw_get_selected_gw_node gw)"

text \<open>
  Reference counts are not modelled: an unlinked gateway object is freed at the end of the
  operation that leaves no pointer of the state to it, that is unless it is the selected one.
\<close>

definition batadv_gw_node_release :: "batadv_priv_gw \<Rightarrow> batadv_priv_gw" where
  "batadv_gw_node_release gw =
     gw\<lparr>gw_unlinked := filter (\<lambda>n. gw_curr_gw gw = Some (gn_ptr n)) (gw_unlinked gw)\<rparr>"

definition batadv_gw_select :: "batadv_gw_node option \<Rightarrow> batadv_priv_gw \<Rightarrow> batadv_priv_gw" where
  "batadv_gw_select new_gw_node gw =
     batadv_gw_node_release (gw\<lparr>gw_curr_gw := map_option gn_ptr new_gw_node\<rparr>)"

definition batadv_gw_reselect :: "batadv_priv_gw \<Rightarrow> batadv_priv_gw" where
  "batadv_gw_reselect gw = gw\<lparr>gw_reselect := 1\<rparr>"

definition batadv_gw_check_client_stop :: "batadv_priv_gw \<Rightarrow> batadv_priv_gw \<times> ext_call list" where
  "batadv_gw_check_client_stop gw =
     (if gw_mode gw \<noteq> BATADV_GW_MODE_CLIENT then (gw, [])
      else (case batadv_gw_get_selected_gw_node gw of
              None \<Rightarrow> (gw, [])
            | Some curr_gw \<Rightarrow>
                (batadv_gw_select None gw, [Throw_uevent_gw BATADV_UEV_DEL None])))"

text \<open>\<^verbatim>\<open>batadv_atomic_dec_not_zero\<close> on the reselect flag.\<close>

definition reselect_take :: "batadv_priv_gw \<Rightarrow> bool \<times> batadv_priv_gw" where
  "reselect_take gw =
     (if gw_reselect gw = 0 then (False, gw)
      else (True, gw\<lparr>gw_reselect := gw_reselect gw - 1\<rparr>))"

text \<open>Whether the candidate is reachable: it has a router with a default interface record.\<close>

definition gw_has_route :: "(mac \<Rightarrow> batadv_orig_node) \<Rightarrow> batadv_gw_node \<Rightarrow> bool" where
  "gw_has_route objs gw_node =
     (let orig_node = objs (gn_orig_node gw_node) in
      case batadv_orig_router_get orig_node BATADV_IF_DEFAULT of
        None \<Rightarrow> False
      | Some p \<Rightarrow>
          (case neigh_deref orig_node p of
             None \<Rightarrow> False
           | Some router \<Rightarrow> batadv_neigh_ifinfo_get router BATADV_IF_DEFAULT \<noteq> None))"

definition batadv_gw_election ::
    "batadv_algo_gw_ops \<Rightarrow> (mac \<Rightarrow> batadv_orig_node) \<Rightarrow> batadv_priv_gw
      \<Rightarrow> (batadv_priv_gw \<times> ext_call list) kresult" where
  "batadv_gw_election ops objs gw =
     (if gw_mode gw \<noteq> BATADV_GW_MODE_CLIENT then Kret (gw, [])
      else (case get_best_gw_node ops of
              None \<Rightarrow> Kret (gw, [])
            | Some best \<Rightarrow>
                let curr_gw = batadv_gw_get_selected_gw_node gw;
                    (taken, gw) = reselect_take gw in
                if \<not> taken \<and> curr_gw \<noteq> None then Kret (gw, [])
                else
                  kbind (best gw) (\<lambda>next_gw.
                    if map_option gn_ptr curr_gw = map_option gn_ptr next_gw then Kret (gw, [])
                    else (case next_gw of
                            Some n \<Rightarrow>
                              if \<not> gw_has_route objs n then Kret (batadv_gw_reselect gw, [])
                              else
                                let ev = (if curr_gw = None then BATADV_UEV_ADD else BATADV_UEV_CHANGE) in
                                Kret (batadv_gw_select (Some n) gw,
                                      [Throw_uevent_gw ev (Some (gn_orig_node n))])
                          | None \<Rightarrow> Kret (batadv_gw_select None gw,
                                           [Throw_uevent_gw BATADV_UEV_DEL None])))))"

definition batadv_gw_check_election ::
    "batadv_algo_gw_ops \<Rightarrow> mac \<Rightarrow> batadv_priv_gw \<Rightarrow> batadv_priv_gw kresult" where
  "batadv_gw_check_election ops orig_node gw =
     (case is_eligible ops of
        None \<Rightarrow> Kret gw
      | Some eligible \<Rightarrow>
          (case batadv_gw_get_selected_orig gw of
             None \<Rightarrow> Kret (batadv_gw_reselect gw)
           | Some curr_gw_orig \<Rightarrow>
               if curr_gw_orig = orig_node then Kret gw
               else kbind (eligible gw curr_gw_orig orig_node) (\<lambda>ok.
                      if \<not> ok then Kret gw else Kret (batadv_gw_reselect gw))))"

section \<open>The list of gateways\<close>

text \<open>\<open>new_ptr\<close> is the address of the new object, \<open>None\<close> when its allocation fails.\<close>

definition batadv_gw_node_add ::
    "nat option \<Rightarrow> mac \<Rightarrow> batadv_tvlv_gateway_data \<Rightarrow> batadv_priv_gw \<Rightarrow> batadv_priv_gw" where
  "batadv_gw_node_add new_ptr orig_node gateway gw =
     (if gwd_bandwidth_down gateway = 0 then gw
      else (case new_ptr of
              None \<Rightarrow> gw
            | Some p \<Rightarrow>
                gw\<lparr>gw_gateway_list :=
                     \<lparr>gn_ptr = p, gn_orig_node = orig_node,
                      gn_bandwidth_down = gwd_bandwidth_down gateway,
                      gn_bandwidth_up = gwd_bandwidth_up gateway\<rparr> # gw_gateway_list gw,
                   gw_generation := gw_generation gw + 1\<rparr>))"

definition batadv_gw_node_get :: "batadv_priv_gw \<Rightarrow> mac \<Rightarrow> batadv_gw_node option" where
  "batadv_gw_node_get gw orig_node =
     find (\<lambda>n. gn_orig_node n = orig_node) (gw_gateway_list gw)"

definition batadv_gw_node_update ::
    "nat option \<Rightarrow> mac \<Rightarrow> batadv_tvlv_gateway_data \<Rightarrow> batadv_priv_gw \<Rightarrow> batadv_priv_gw" where
  "batadv_gw_node_update new_ptr orig_node gateway gw =
     (case batadv_gw_node_get gw orig_node of
        None \<Rightarrow> batadv_gw_node_add new_ptr orig_node gateway gw
      | Some gw_node \<Rightarrow>
          if gn_bandwidth_down gw_node = gwd_bandwidth_down gateway
             \<and> gn_bandwidth_up gw_node = gwd_bandwidth_up gateway then gw
          else
            let gw_node = gw_node\<lparr>gn_bandwidth_down := gwd_bandwidth_down gateway,
                                  gn_bandwidth_up := gwd_bandwidth_up gateway\<rparr>;
                gw = gw\<lparr>gw_gateway_list := hlist_upd_first (\<lambda>n. gn_orig_node n = orig_node)
                          (\<lambda>_. gw_node) (gw_gateway_list gw)\<rparr> in
            if gwd_bandwidth_down gateway \<noteq> 0 then gw
            else
              let gw = gw\<lparr>gw_gateway_list := hlist_del_first (\<lambda>n. gn_orig_node n = orig_node)
                            (gw_gateway_list gw),
                          gw_unlinked := gw_node # gw_unlinked gw,
                          gw_generation := gw_generation gw + 1\<rparr>;
                  gw = (if gw_curr_gw gw = Some (gn_ptr gw_node) then batadv_gw_reselect gw else gw) in
              batadv_gw_node_release gw)"

definition batadv_gw_node_delete :: "mac \<Rightarrow> batadv_priv_gw \<Rightarrow> batadv_priv_gw" where
  "batadv_gw_node_delete orig_node gw =
     batadv_gw_node_update None orig_node \<lparr>gwd_bandwidth_down = 0, gwd_bandwidth_up = 0\<rparr> gw"

definition batadv_gw_node_free :: "batadv_priv_gw \<Rightarrow> batadv_priv_gw" where
  "batadv_gw_node_free gw =
     batadv_gw_node_release
       (gw\<lparr>gw_unlinked := gw_gateway_list gw @ gw_unlinked gw, gw_gateway_list := [],
           gw_generation := gw_generation gw + of_nat (length (gw_gateway_list gw))\<rparr>)"

section \<open>The gateway container\<close>

definition BATADV_TVLV_GW :: u8 where "BATADV_TVLV_GW = 1"

definition batadv_gw_tvlv_container_update ::
    "bool \<Rightarrow> batadv_priv_gw \<Rightarrow> batadv_tvlv_container list \<Rightarrow> batadv_tvlv_container list" where
  "batadv_gw_tvlv_container_update alloc_ok gw container_list =
     (case gw_mode gw of
        BATADV_GW_MODE_SERVER \<Rightarrow>
          batadv_tvlv_container_register alloc_ok BATADV_TVLV_GW 1
            (Some (gateway_data_bytes \<lparr>gwd_bandwidth_down = gw_bandwidth_down gw,
                                       gwd_bandwidth_up = gw_bandwidth_up gw\<rparr>)) 8 container_list
      | _ \<Rightarrow> batadv_tvlv_container_unregister BATADV_TVLV_GW 1 container_list)"

definition gw_announced :: "u8 \<Rightarrow> bytes \<Rightarrow> batadv_tvlv_gateway_data" where
  "gw_announced flags tvlv_value =
     (if flags AND BATADV_TVLV_HANDLER_OGM_CIFNOTFND \<noteq> 0 \<or> length tvlv_value < 8
      then \<lparr>gwd_bandwidth_down = 0, gwd_bandwidth_up = 0\<rparr>
      else
        let gateway = get_gateway_data tvlv_value in
        if gwd_bandwidth_down gateway = 0 \<or> gwd_bandwidth_up gateway = 0
        then \<lparr>gwd_bandwidth_down = 0, gwd_bandwidth_up = 0\<rparr>
        else gateway)"

definition batadv_gw_tvlv_ogm_handler_v1 ::
    "batadv_algo_gw_ops \<Rightarrow> nat option \<Rightarrow> mac \<Rightarrow> u8 \<Rightarrow> bytes \<Rightarrow> batadv_priv_gw \<Rightarrow> batadv_priv_gw kresult" where
  "batadv_gw_tvlv_ogm_handler_v1 ops new_ptr orig flags tvlv_value gw =
     (let gateway = gw_announced flags tvlv_value;
          gw = batadv_gw_node_update new_ptr orig gateway gw in
      if gwd_bandwidth_down gateway \<noteq> 0 \<and> gw_mode gw = BATADV_GW_MODE_CLIENT
      then batadv_gw_check_election ops orig gw
      else Kret gw)"

definition batadv_gw_init_sel_class :: "batadv_algo_gw_ops \<Rightarrow> batadv_priv_gw \<Rightarrow> batadv_priv_gw" where
  "batadv_gw_init_sel_class ops gw =
     (case init_sel_class ops of Some init \<Rightarrow> init gw | None \<Rightarrow> gw\<lparr>gw_sel_class := 1\<rparr>)"

definition batadv_gw_init ::
    "batadv_algo_gw_ops \<Rightarrow> bool \<Rightarrow> (mac option \<Rightarrow> u8 \<Rightarrow> bytes \<Rightarrow> 's \<Rightarrow> 's)
      \<Rightarrow> (mac, 's) batadv_tvlv_handler list \<Rightarrow> batadv_priv_gw
      \<Rightarrow> (mac, 's) batadv_tvlv_handler list \<times> batadv_priv_gw" where
  "batadv_gw_init ops alloc_ok handler hs gw =
     (batadv_tvlv_handler_register alloc_ok (Some handler) None None BATADV_TVLV_GW 1
        BATADV_TVLV_HANDLER_OGM_CIFNOTFND hs,
      batadv_gw_init_sel_class ops gw)"

definition batadv_gw_free ::
    "batadv_tvlv_container list \<Rightarrow> (mac, 's) batadv_tvlv_handler list
      \<Rightarrow> batadv_tvlv_container list \<times> (mac, 's) batadv_tvlv_handler list" where
  "batadv_gw_free cl hs =
     (batadv_tvlv_container_unregister BATADV_TVLV_GW 1 cl,
      batadv_tvlv_handler_unregister BATADV_TVLV_GW 1 hs)"

section \<open>DHCP\<close>

datatype batadv_dhcp_recipient = BATADV_DHCP_NO | BATADV_DHCP_TO_SERVER | BATADV_DHCP_TO_CLIENT

definition BATADV_DHCP_HTYPE_OFFSET :: nat where "BATADV_DHCP_HTYPE_OFFSET = 1"
definition BATADV_DHCP_HLEN_OFFSET :: nat where "BATADV_DHCP_HLEN_OFFSET = 2"
definition BATADV_DHCP_HTYPE_ETHERNET :: u8 where "BATADV_DHCP_HTYPE_ETHERNET = 1"
definition BATADV_DHCP_CHADDR_OFFSET :: nat where "BATADV_DHCP_CHADDR_OFFSET = 28"
definition ETH_ALEN :: nat where "ETH_ALEN = 6"
definition ETH_P_8021Q :: u16 where "ETH_P_8021Q = 0x8100"
definition ETH_P_IP :: u16 where "ETH_P_IP = 0x0800"
definition ETH_P_IPV6 :: u16 where "ETH_P_IPV6 = 0x86dd"
definition VLAN_HLEN :: nat where "VLAN_HLEN = 4"
definition IPPROTO_UDP :: u8 where "IPPROTO_UDP = 17"

text \<open>
  The frame starts at \<open>data\<close>, its Ethernet header (\<^verbatim>\<open>eth_hdr\<close>) at \<open>mac_header\<close>. Every read is
  checked; the result is the recipient, the header length found and the client address.
  \<open>pull n\<close> is the outcome of \<^verbatim>\<open>pskb_may_pull(skb, n)\<close>.
\<close>

definition dhcp_udp ::
    "(nat \<Rightarrow> bool) \<Rightarrow> bytes \<Rightarrow> u16 \<Rightarrow> nat \<Rightarrow> (batadv_dhcp_recipient \<times> nat \<times> mac option) kresult" where
  "dhcp_udp pull data proto header_len =
     (if \<not> pull (header_len + 8) then Kret (BATADV_DHCP_NO, header_len, None)
      else
        kbind (read16 data header_len) (\<lambda>source.
        kbind (read16 data (header_len + 2)) (\<lambda>dest.
          let header_len = header_len + 8;
              port = (if proto = ETH_P_IP then 67 else 547);
              ret = (if dest = port then BATADV_DHCP_TO_SERVER
                     else if source = port then BATADV_DHCP_TO_CLIENT else BATADV_DHCP_NO);
              chaddr_offset = header_len + BATADV_DHCP_CHADDR_OFFSET in
          if ret = BATADV_DHCP_TO_CLIENT then
            if \<not> pull (chaddr_offset + ETH_ALEN) then Kret (BATADV_DHCP_NO, header_len, None)
            else
              kbind (read8 data (header_len + BATADV_DHCP_HTYPE_OFFSET)) (\<lambda>htype.
              if htype \<noteq> BATADV_DHCP_HTYPE_ETHERNET then Kret (BATADV_DHCP_NO, header_len, None)
              else
                kbind (read8 data (header_len + BATADV_DHCP_HLEN_OFFSET)) (\<lambda>hlen.
                if hlen \<noteq> of_nat ETH_ALEN then Kret (BATADV_DHCP_NO, header_len, None)
                else if chaddr_offset + ETH_ALEN \<le> length data
                then Kret (ret, header_len, Some (get_mac (drop chaddr_offset data)))
                else Kernel_bug))
          else Kret (ret, header_len, None))))"

definition dhcp_ip ::
    "(nat \<Rightarrow> bool) \<Rightarrow> bytes \<Rightarrow> u16 \<Rightarrow> nat \<Rightarrow> (batadv_dhcp_recipient \<times> nat \<times> mac option) kresult" where
  "dhcp_ip pull data proto header_len =
     (if proto = ETH_P_IP then
        if \<not> pull (header_len + 20) then Kret (BATADV_DHCP_NO, header_len, None)
        else
          kbind (read8 data header_len) (\<lambda>ihl.
          kbind (read8 data (header_len + 9)) (\<lambda>protocol.
            let header_len = header_len + unat (ihl AND 15) * 4 in
            if protocol \<noteq> IPPROTO_UDP then Kret (BATADV_DHCP_NO, header_len, None)
            else dhcp_udp pull data proto header_len))
      else if proto = ETH_P_IPV6 then
        if \<not> pull (header_len + 40) then Kret (BATADV_DHCP_NO, header_len, None)
        else
          kbind (read8 data (header_len + 6)) (\<lambda>nexthdr.
            let header_len = header_len + 40 in
            if nexthdr \<noteq> IPPROTO_UDP then Kret (BATADV_DHCP_NO, header_len, None)
            else dhcp_udp pull data proto header_len)
      else Kret (BATADV_DHCP_NO, header_len, None))"

definition batadv_gw_dhcp_recipient_get ::
    "(nat \<Rightarrow> bool) \<Rightarrow> bytes \<Rightarrow> nat \<Rightarrow> nat \<Rightarrow> (batadv_dhcp_recipient \<times> nat \<times> mac option) kresult" where
  "batadv_gw_dhcp_recipient_get pull data mac_header header_len =
     (if \<not> pull (header_len + ETH_HLEN) then Kret (BATADV_DHCP_NO, header_len, None)
      else
        kbind (read16 data (mac_header + 12)) (\<lambda>proto.
          let header_len = header_len + ETH_HLEN in
          if proto = ETH_P_8021Q then
            if \<not> pull (header_len + VLAN_HLEN) then Kret (BATADV_DHCP_NO, header_len, None)
            else
              kbind (read16 data (mac_header + 16)) (\<lambda>proto.
                dhcp_ip pull data proto (header_len + VLAN_HLEN))
          else dhcp_ip pull data proto header_len))"

text \<open>
  \<open>orig_dst_node\<close> is the originator the translation table gives for the destination
  (\<^verbatim>\<open>batadv_transtable_search\<close>). Asking for a router may advance the bonding candidate of
  the originator, so the originator objects are returned too.
\<close>

definition BATADV_GW_THRESHOLD :: int where "BATADV_GW_THRESHOLD = 50"

definition gw_tq_avg ::
    "neigh_sob \<Rightarrow> u32 \<Rightarrow> mac \<Rightarrow> (mac \<Rightarrow> batadv_orig_node) \<Rightarrow> u8 option \<times> (mac \<Rightarrow> batadv_orig_node)" where
  "gw_tq_avg sob bonding orig_node objs =
     (case batadv_find_router sob bonding (objs orig_node) BATADV_IF_DEFAULT of
        (router, orig_node') \<Rightarrow>
          (case (case router of None \<Rightarrow> None | Some p \<Rightarrow> neigh_deref orig_node' p) of
             None \<Rightarrow> None
           | Some neigh \<Rightarrow>
               map_option (\<lambda>i. tq_avg (ni_bat_iv i)) (batadv_neigh_ifinfo_get neigh BATADV_IF_DEFAULT),
           objs(orig_node := orig_node')))"

definition batadv_gw_out_of_range ::
    "neigh_sob \<Rightarrow> u32 \<Rightarrow> batadv_priv_gw \<Rightarrow> mac \<Rightarrow> mac option \<Rightarrow> (mac \<Rightarrow> batadv_orig_node)
      \<Rightarrow> bool \<times> (mac \<Rightarrow> batadv_orig_node)" where
  "batadv_gw_out_of_range sob bonding gw h_dst orig_dst_node objs =
     (if is_multicast_ether_addr h_dst then (False, objs)
      else (case orig_dst_node of
              None \<Rightarrow> (False, objs)
            | Some dst \<Rightarrow>
                if batadv_gw_node_get gw dst = None then (False, objs)
                else
                  (case (case gw_mode gw of
                           BATADV_GW_MODE_SERVER \<Rightarrow> (Some 255, objs)
                         | BATADV_GW_MODE_CLIENT \<Rightarrow>
                             (case batadv_gw_get_selected_gw_node gw of
                                None \<Rightarrow> (None, objs)
                              | Some curr_gw \<Rightarrow>
                                  if gn_orig_node curr_gw = dst then (None, objs)
                                  else gw_tq_avg sob bonding (gn_orig_node curr_gw) objs)
                         | BATADV_GW_MODE_OFF \<Rightarrow> (None, objs)) of
                     (None, objs) \<Rightarrow> (False, objs)
                   | (Some curr_tq_avg, objs) \<Rightarrow>
                       (case gw_tq_avg sob bonding dst objs of
                          (None, objs) \<Rightarrow> (False, objs)
                        | (Some old_tq_avg, objs) \<Rightarrow>
                            (int (unat curr_tq_avg) - int (unat old_tq_avg) > BATADV_GW_THRESHOLD, objs)))))"

section \<open>The gateway list is a map, and the selected gateway is alive\<close>

definition gw_wf :: "batadv_priv_gw \<Rightarrow> bool" where
  "gw_wf gw \<longleftrightarrow>
     distinct (map gn_ptr (gw_gateway_list gw @ gw_unlinked gw))
     \<and> distinct (map gn_orig_node (gw_gateway_list gw))
     \<and> list_all (\<lambda>n. gn_bandwidth_down n \<noteq> 0) (gw_gateway_list gw)
     \<and> list_all (\<lambda>n. gw_curr_gw gw = Some (gn_ptr n)) (gw_unlinked gw)
     \<and> (\<forall>p. gw_curr_gw gw = Some p \<longrightarrow> p \<in> gn_ptr ` set (gw_gateway_list gw @ gw_unlinked gw))"

definition gw_ptrs :: "batadv_priv_gw \<Rightarrow> nat set" where
  "gw_ptrs gw = gn_ptr ` set (gw_gateway_list gw @ gw_unlinked gw)"

definition gw_lookup :: "batadv_priv_gw \<Rightarrow> mac \<Rightarrow> (u32 \<times> u32) option" where
  "gw_lookup gw a = map_option (\<lambda>n. (gn_bandwidth_down n, gn_bandwidth_up n)) (batadv_gw_node_get gw a)"

lemma gw_wf_reselect [simp]: "gw_wf (batadv_gw_reselect gw) = gw_wf gw"
  by (simp add: gw_wf_def batadv_gw_reselect_def)

lemma gw_lookup_reselect [simp]: "gw_lookup (batadv_gw_reselect gw) = gw_lookup gw"
  by (rule ext) (simp add: gw_lookup_def batadv_gw_node_get_def batadv_gw_reselect_def)

lemma gw_lookup_release [simp]: "gw_lookup (batadv_gw_node_release gw) = gw_lookup gw"
  by (rule ext) (simp add: gw_lookup_def batadv_gw_node_get_def batadv_gw_node_release_def)

lemma gw_wf_select:
  assumes "gw_wf gw" and "\<And>n. new = Some n \<Longrightarrow> n \<in> set (gw_gateway_list gw)"
  shows "gw_wf (batadv_gw_select new gw)"
proof -
  have d: "distinct (map gn_ptr (gw_gateway_list gw @ filter P (gw_unlinked gw)))" for P
    using assms(1) by (auto simp: gw_wf_def distinct_map_filter)
  show ?thesis
    using assms d by (auto simp: gw_wf_def batadv_gw_select_def batadv_gw_node_release_def list_all_iff)
qed

lemma gw_node_add_wf:
  assumes "gw_wf gw" and "\<And>p. new_ptr = Some p \<Longrightarrow> p \<notin> gw_ptrs gw" and "batadv_gw_node_get gw a = None"
  shows "gw_wf (batadv_gw_node_add new_ptr a g gw)"
  using assms
  by (cases new_ptr) (auto simp: gw_wf_def batadv_gw_node_add_def gw_ptrs_def batadv_gw_node_get_def
      find_key_notin [where key = gn_orig_node])

lemma gw_upd_keys:
  assumes "find (\<lambda>n. gn_orig_node n = a) l = Some n"
    and "gn_ptr n' = gn_ptr n" and "gn_orig_node n' = a"
  shows "map gn_ptr (hlist_upd_first (\<lambda>n. gn_orig_node n = a) (\<lambda>_. n') l) = map gn_ptr l"
    and "map gn_orig_node (hlist_upd_first (\<lambda>n. gn_orig_node n = a) (\<lambda>_. n') l) = map gn_orig_node l"
  using assms by (induction l) (auto split: if_splits)

lemma gw_move_wf:
  assumes "gw_wf gw" and "batadv_gw_node_get gw a = Some n" and "gn_ptr n' = gn_ptr n"
    and "gw' = gw\<lparr>gw_gateway_list := hlist_del_first (\<lambda>n. gn_orig_node n = a) (gw_gateway_list gw),
                  gw_unlinked := n' # gw_unlinked gw, gw_generation := g\<rparr>"
  shows "gw_wf (batadv_gw_node_release gw')"
proof -
  let ?l = "gw_gateway_list gw"
  have n: "n \<in> set ?l" "gn_orig_node n = a"
    using assms(2) by (auto simp: batadv_gw_node_get_def dest: find_key_SomeD)
  have d: "distinct (map gn_ptr ?l)" "distinct (map gn_orig_node ?l)"
    using assms(1) by (simp_all add: gw_wf_def)
  have f: "find (\<lambda>n. gn_orig_node n = a) ?l = Some n" using assms(2) by (simp add: batadv_gw_node_get_def)
  note keys = del_first_found [OF f d(1)] distinct_keys_del [OF d(1)] distinct_keys_del [OF d(2)]
  define l' where "l' = hlist_del_first (\<lambda>n. gn_orig_node n = a) ?l"
  define u' where "u' = filter (\<lambda>m. gw_curr_gw gw = Some (gn_ptr m)) (n' # gw_unlinked gw)"
  have disj: "gn_ptr ` set ?l \<inter> gn_ptr ` set (gw_unlinked gw) = {}" "distinct (map gn_ptr (gw_unlinked gw))"
    using assms(1) by (auto simp: gw_wf_def)
  have su: "set u' \<subseteq> insert n' (set (gw_unlinked gw))" by (auto simp: u'_def)
  have "distinct (map gn_ptr (n' # gw_unlinked gw))"
  proof -
    have "gn_ptr n \<in> gn_ptr ` set ?l" using n(1) by (rule imageI)
    then have "gn_ptr n' \<notin> gn_ptr ` set (gw_unlinked gw)" using disj(1) assms(3) by auto
    then show ?thesis using disj(2) by simp
  qed
  then have du: "distinct (map gn_ptr u')" unfolding u'_def by (rule distinct_map_filter)
  have "gn_ptr ` set l' \<inter> gn_ptr ` set u' = {}"
  proof -
    have "gn_ptr ` set l' \<subseteq> gn_ptr ` set ?l" unfolding l'_def by (rule image_mono [OF set_hlist_del_first])
    moreover have "gn_ptr ` set u' \<subseteq> insert (gn_ptr n) (gn_ptr ` set (gw_unlinked gw))"
      using image_mono [OF su, of gn_ptr] assms(3) by simp
    moreover have "gn_ptr n \<notin> gn_ptr ` set l'" using keys(2) by (simp add: l'_def)
    ultimately show ?thesis using disj(1) by (simp add: disjoint_iff subset_iff) (metis insert_iff)
  qed
  then have "distinct (map gn_ptr (l' @ u'))" using du keys(3) by (simp add: l'_def)
  moreover have "p \<in> gn_ptr ` set (l' @ u')" if "gw_curr_gw gw = Some p" for p
  proof -
    have "p \<in> gn_ptr ` set (?l @ gw_unlinked gw)" using assms(1) that by (simp add: gw_wf_def)
    then have "p \<in> gn_ptr ` set l' \<or> p = gn_ptr n' \<or> p \<in> gn_ptr ` set (gw_unlinked gw)"
      using keys(1) assms(3) by (auto simp: l'_def)
    then show ?thesis using that by (auto simp: u'_def)
  qed
  moreover have "list_all (\<lambda>n. gn_bandwidth_down n \<noteq> 0) l'" "distinct (map gn_orig_node l')"
    using assms(1) keys(4) by (simp_all add: gw_wf_def l'_def list_all_hlist_del_first)
  moreover have "list_all (\<lambda>n. gw_curr_gw gw = Some (gn_ptr n)) u'" by (auto simp: u'_def list_all_iff)
  ultimately show ?thesis
    by (simp add: assms(4) gw_wf_def batadv_gw_node_release_def l'_def [symmetric] u'_def [unfolded filter.simps, symmetric])
qed

lemma node_get_orig: "batadv_gw_node_get gw a = Some n \<Longrightarrow> gn_orig_node n = a \<and> n \<in> set (gw_gateway_list gw)"
  by (auto simp: batadv_gw_node_get_def dest: find_key_SomeD)

lemma gw_node_update_wf:
  assumes "gw_wf gw" and "\<And>p. new_ptr = Some p \<Longrightarrow> p \<notin> gw_ptrs gw"
  shows "gw_wf (batadv_gw_node_update new_ptr a g gw)"
proof (cases "batadv_gw_node_get gw a")
  case None
  then show ?thesis using gw_node_add_wf [OF assms None] by (simp add: batadv_gw_node_update_def)
next
  case (Some n)
  define n' where "n' = n\<lparr>gn_bandwidth_down := gwd_bandwidth_down g, gn_bandwidth_up := gwd_bandwidth_up g\<rparr>"
  define l where "l = hlist_upd_first (\<lambda>n. gn_orig_node n = a) (\<lambda>_. n') (gw_gateway_list gw)"
  have f: "find (\<lambda>n. gn_orig_node n = a) (gw_gateway_list gw) = Some n"
    using Some by (simp add: batadv_gw_node_get_def)
  have n': "gn_ptr n' = gn_ptr n" "gn_orig_node n' = a" using node_get_orig [OF Some] by (simp_all add: n'_def)
  have keys: "map gn_ptr l = map gn_ptr (gw_gateway_list gw)"
      "map gn_orig_node l = map gn_orig_node (gw_gateway_list gw)"
    unfolding l_def by (rule gw_upd_keys [OF f n'])+
  have del: "hlist_del_first (\<lambda>n. gn_orig_node n = a) l = hlist_del_first (\<lambda>n. gn_orig_node n = a) (gw_gateway_list gw)"
    unfolding l_def by (rule del_upd_first) (simp add: n'(2))
  have rel: "gw_wf (batadv_gw_node_release (gw\<lparr>gw_gateway_list := hlist_del_first (\<lambda>n. gn_orig_node n = a) (gw_gateway_list gw),
      gw_unlinked := n' # gw_unlinked gw, gw_generation := x\<rparr>))" for x
    by (rule gw_move_wf [OF assms(1) Some n'(1) refl])
  have upd: "gw_wf (gw\<lparr>gw_gateway_list := l\<rparr>)" if "gwd_bandwidth_down g \<noteq> 0"
  proof -
    have "list_all (\<lambda>n. gn_bandwidth_down n \<noteq> 0) l"
      using assms(1) that list_all_upd_found [OF _ f, of "\<lambda>n. gn_bandwidth_down n \<noteq> 0" "\<lambda>_. n'"]
      by (simp add: gw_wf_def l_def n'_def)
    moreover have "gn_ptr ` set l = gn_ptr ` set (gw_gateway_list gw)" using keys(1) by (metis list.set_map)
    ultimately show ?thesis using assms(1) keys by (simp add: gw_wf_def image_Un)
  qed
  have res: "gw_wf (batadv_gw_node_release (batadv_gw_reselect gw')) = gw_wf (batadv_gw_node_release gw')" for gw'
    by (simp add: gw_wf_def batadv_gw_node_release_def batadv_gw_reselect_def)
  show ?thesis
    using Some assms(1) upd rel [of "gw_generation gw + 1"] res
    by (simp add: batadv_gw_node_update_def Let_def n'_def [symmetric] l_def [symmetric] del)
qed

lemma gw_lookup_update:
  assumes "gw_wf gw" and "gwd_bandwidth_down g \<noteq> 0 \<Longrightarrow> new_ptr \<noteq> None"
  shows "gw_lookup (batadv_gw_node_update new_ptr a g gw) =
    (gw_lookup gw)(a := (if gwd_bandwidth_down g = 0 then None
                         else Some (gwd_bandwidth_down g, gwd_bandwidth_up g)))"
proof (cases "batadv_gw_node_get gw a")
  case None
  have "find (\<lambda>n. gn_orig_node n = a) (gw_gateway_list gw) = None"
    using None by (simp add: batadv_gw_node_get_def)
  then show ?thesis
    using None assms(2)
    by (auto simp: batadv_gw_node_update_def batadv_gw_node_add_def gw_lookup_def batadv_gw_node_get_def
        fun_eq_iff)
next
  case (Some n)
  have f: "find (\<lambda>n. gn_orig_node n = a) (gw_gateway_list gw) = Some n" "gn_orig_node n = a"
    using Some node_get_orig [OF Some] by (simp_all add: batadv_gw_node_get_def)
  have d: "distinct (map gn_orig_node (gw_gateway_list gw))" using assms(1) by (simp add: gw_wf_def)
  have nz: "gn_bandwidth_down n \<noteq> 0"
    using assms(1) node_get_orig [OF Some] by (auto simp: gw_wf_def list_all_iff)
  define n' where "n' = n\<lparr>gn_bandwidth_down := gwd_bandwidth_down g, gn_bandwidth_up := gwd_bandwidth_up g\<rparr>"
  have n': "gn_orig_node n' = a" by (simp add: n'_def f)
  have u: "find (\<lambda>n. gn_orig_node n = b) (hlist_upd_first (\<lambda>n. gn_orig_node n = a) (\<lambda>_. n') (gw_gateway_list gw)) =
      (if b = a then Some n' else find (\<lambda>n. gn_orig_node n = b) (gw_gateway_list gw))" for b
    by (rule find_key_put [OF f(1) n'])
  define l where "l = hlist_upd_first (\<lambda>n. gn_orig_node n = a) (\<lambda>_. n') (gw_gateway_list gw)"
  show ?thesis
  proof (cases "gwd_bandwidth_down g = 0")
    case True
    then show ?thesis
      using nz by (simp add: batadv_gw_node_update_def Some Let_def del_upd_first f(2))
        (simp add: fun_eq_iff gw_lookup_def batadv_gw_node_get_def find_key_del_first [OF d])
  next
    case False
    have "gw_lookup (gw\<lparr>gw_gateway_list := l\<rparr>) = (gw_lookup gw)(a := Some (gwd_bandwidth_down g, gwd_bandwidth_up g))"
      by (simp add: fun_eq_iff gw_lookup_def batadv_gw_node_get_def l_def u n'_def [symmetric]) (simp add: n'_def)
    moreover have "(gw_lookup gw)(a := Some (gn_bandwidth_down n, gn_bandwidth_up n)) = gw_lookup gw"
      by (simp add: fun_eq_iff gw_lookup_def Some)
    ultimately show ?thesis
      using False by (auto simp: batadv_gw_node_update_def Some Let_def n'_def [symmetric] l_def [symmetric])
  qed
qed


section \<open>Runs\<close>

definition gw_fresh :: "batadv_priv_gw \<Rightarrow> nat" where
  "gw_fresh gw = Suc (sum_list (map gn_ptr (gw_gateway_list gw @ gw_unlinked gw)))"

lemma gw_fresh: "gw_fresh gw \<notin> gw_ptrs gw"
proof
  assume "gw_fresh gw \<in> gw_ptrs gw"
  then have "gw_fresh gw \<in> set (map gn_ptr (gw_gateway_list gw @ gw_unlinked gw))" by (simp add: gw_ptrs_def image_Un)
  then have "gw_fresh gw \<le> sum_list (map gn_ptr (gw_gateway_list gw @ gw_unlinked gw))" by (rule member_le_sum_list) simp
  then show False by (simp add: gw_fresh_def)
qed

definition gw_store :: "mac \<Rightarrow> u32 \<times> u32 \<Rightarrow> batadv_priv_gw \<Rightarrow> batadv_priv_gw" where
  "gw_store a v gw =
     (if fst v = 0 then gw
      else batadv_gw_node_update (Some (gw_fresh gw)) a
             \<lparr>gwd_bandwidth_down = fst v, gwd_bandwidth_up = snd v\<rparr> gw)"

interpretation gateways: registry gw_wf gw_lookup gw_store batadv_gw_node_delete "\<lambda>m a v. fst v \<noteq> 0"
proof
  fix gw a v
  assume wf: "gw_wf gw"
  show "gw_wf (gw_store a v gw)"
    using wf gw_fresh gw_node_update_wf [OF wf, of "Some (gw_fresh gw)"] by (simp add: gw_store_def)
  show "gw_wf (batadv_gw_node_delete a gw)"
    unfolding batadv_gw_node_delete_def by (rule gw_node_update_wf [OF wf]) simp
  show "gw_lookup (gw_store a v gw) = (if fst v \<noteq> 0 then (gw_lookup gw)(a \<mapsto> v) else gw_lookup gw)"
    using gw_lookup_update [OF wf, of "\<lparr>gwd_bandwidth_down = fst v, gwd_bandwidth_up = snd v\<rparr>" "Some (gw_fresh gw)" a]
    by (simp add: gw_store_def)
  show "gw_lookup (batadv_gw_node_delete a gw) = (gw_lookup gw)(a := None)"
    unfolding batadv_gw_node_delete_def by (subst gw_lookup_update [OF wf]) simp_all
qed

text \<open>What may happen to the gateways of a node; the callbacks only pick listed gateways.\<close>

definition ops_ok :: "batadv_algo_gw_ops \<Rightarrow> bool" where
  "ops_ok ops \<longleftrightarrow> (\<forall>best gw n. get_best_gw_node ops = Some best \<longrightarrow> best gw = Kret (Some n) \<longrightarrow>
     n \<in> set (gw_gateway_list gw))"

inductive gw_step :: "batadv_priv_gw \<Rightarrow> batadv_priv_gw \<Rightarrow> bool" where
  step_announce: "(\<And>p. new_ptr = Some p \<Longrightarrow> p \<notin> gw_ptrs gw) \<Longrightarrow>
    batadv_gw_tvlv_ogm_handler_v1 ops new_ptr orig flags val gw = Kret gw' \<Longrightarrow> gw_step gw gw'"
| step_delete: "gw_step gw (batadv_gw_node_delete orig gw)"
| step_elect: "ops_ok ops \<Longrightarrow> batadv_gw_election ops objs gw = Kret (gw', calls) \<Longrightarrow> gw_step gw gw'"
| step_client_stop: "gw_step gw (fst (batadv_gw_check_client_stop gw))"
| step_mode: "gw_step gw (gw\<lparr>gw_mode := m, gw_sel_class := c, gw_bandwidth_down := d, gw_bandwidth_up := u\<rparr>)"
| step_free: "gw_step gw (batadv_gw_node_free gw)"

lemma gw_wf_fields:
  "gw_wf (gw\<lparr>gw_mode := m, gw_sel_class := c, gw_bandwidth_down := d, gw_bandwidth_up := u\<rparr>) = gw_wf gw"
  "gw_wf (gw\<lparr>gw_reselect := r\<rparr>) = gw_wf gw"
  by (simp_all add: gw_wf_def)

lemma gw_check_election_wf:
  "batadv_gw_check_election ops orig gw = Kret gw' \<Longrightarrow> gw_wf gw' = gw_wf gw"
  by (auto simp: batadv_gw_check_election_def split: option.splits if_splits elim!: kbind.elims)

lemma gw_election_wf:
  assumes "gw_wf gw" and "ops_ok ops" and "batadv_gw_election ops objs gw = Kret (gw', calls)"
  shows "gw_wf gw'"
proof -
  obtain taken gw1 where t: "reselect_take gw = (taken, gw1)" by fastforce
  then have wf1: "gw_wf gw1" "gw_gateway_list gw1 = gw_gateway_list gw"
    using assms(1) by (auto simp: reselect_take_def gw_wf_fields split: if_splits)
  have sel: "gw_wf (batadv_gw_select (Some n) gw1)" if "get_best_gw_node ops = Some best" "best gw1 = Kret (Some n)" for best n
    by (rule gw_wf_select [OF wf1(1)]) (use assms(2) that in \<open>auto simp: ops_ok_def\<close>)
  show ?thesis
    using assms(1,3) wf1(1) sel gw_wf_select [OF wf1(1), of None]
    by (auto simp: batadv_gw_election_def t Let_def split: option.splits if_splits elim!: kbind.elims)
qed

lemma gw_node_free_wf:
  assumes "gw_wf gw" shows "gw_wf (batadv_gw_node_free gw)"
proof -
  let ?all = "gw_gateway_list gw @ gw_unlinked gw"
  have "distinct (map gn_ptr (filter (\<lambda>n. gw_curr_gw gw = Some (gn_ptr n)) ?all))"
    using assms unfolding gw_wf_def by (intro distinct_map_filter) blast
  moreover have "p \<in> gn_ptr ` set (filter (\<lambda>n. gw_curr_gw gw = Some (gn_ptr n)) ?all)" if "gw_curr_gw gw = Some p" for p
  proof -
    have "p \<in> gn_ptr ` set ?all" using assms that by (simp add: gw_wf_def)
    then show ?thesis using that by (auto simp del: filter_append set_append)
  qed
  ultimately show ?thesis
    by (auto simp: gw_wf_def batadv_gw_node_free_def batadv_gw_node_release_def list_all_iff
        simp del: filter_append set_append)
qed

lemma gw_step_wf:
  assumes "gw_step gw gw'" and "gw_wf gw" shows "gw_wf gw'"
  using assms
proof (induction rule: gw_step.induct)
  case (step_announce new_ptr gw ops orig flags val gw')
  then show ?case
    using gw_node_update_wf [OF step_announce(3), of new_ptr orig "gw_announced flags val"]
    by (auto simp: batadv_gw_tvlv_ogm_handler_v1_def Let_def dest: gw_check_election_wf split: if_splits)
next
  case (step_delete gw orig)
  then show ?case by (rule gateways.inv_erase)
next
  case (step_elect ops objs gw gw' calls)
  then show ?case using gw_election_wf by blast
next
  case (step_client_stop gw)
  then show ?case
    by (auto simp: batadv_gw_check_client_stop_def split: option.split intro: gw_wf_select)
next
  case (step_mode gw m c d u)
  then show ?case by (simp add: gw_wf_fields)
next
  case (step_free gw)
  then show ?case by (rule gw_node_free_wf)
qed

section \<open>Properties\<close>

text \<open>What the DHCP inspection promises about its result.\<close>

definition dhcp_result_ok :: "bytes \<Rightarrow> batadv_dhcp_recipient \<times> nat \<times> mac option \<Rightarrow> bool" where
  "dhcp_result_ok data r =
     (case r of (ret, header_len, chaddr) \<Rightarrow>
        (case chaddr of
           None \<Rightarrow> ret \<noteq> BATADV_DHCP_TO_CLIENT
         | Some m \<Rightarrow> ret = BATADV_DHCP_TO_CLIENT \<and> header_len + 34 \<le> length data
                      \<and> m = get_mac (drop (header_len + 28) data)))"

lemma dhcp_udp_ok:
  assumes "\<And>n. pull n \<Longrightarrow> n \<le> length data"
  shows "kret_all (dhcp_result_ok data) (dhcp_udp pull data proto h)"
proof (cases "pull (h + 8) \<and> pull (h + 8 + 34)")
  case True
  then have "h + 42 \<le> length data" using assms [of "h + 8 + 34"] by simp
  then show ?thesis
    using True
    by (simp add: dhcp_udp_def read16_def read8_def Let_def dhcp_result_ok_def BATADV_DHCP_CHADDR_OFFSET_def
        ETH_ALEN_def BATADV_DHCP_HTYPE_OFFSET_def BATADV_DHCP_HLEN_OFFSET_def)
next
  case False
  then show ?thesis
    using assms [of "h + 8"]
    by (auto simp: dhcp_udp_def read16_def Let_def dhcp_result_ok_def BATADV_DHCP_CHADDR_OFFSET_def ETH_ALEN_def)
qed

lemma dhcp_ip_ok:
  assumes "\<And>n. pull n \<Longrightarrow> n \<le> length data"
  shows "kret_all (dhcp_result_ok data) (dhcp_ip pull data proto h)"
proof -
  have "pull (h + 20) \<Longrightarrow> h + 9 < length data" "pull (h + 40) \<Longrightarrow> h + 6 < length data"
    using assms [of "h + 20"] assms [of "h + 40"] by simp_all
  moreover have "dhcp_result_ok data (BATADV_DHCP_NO, n, None)" for n by (simp add: dhcp_result_ok_def)
  ultimately show ?thesis
    by (auto simp: dhcp_ip_def read8_def Let_def intro: dhcp_udp_ok [OF assms])
qed

text \<open>
  C34: Inspecting a packet for DHCP reads only bytes that \<^verbatim>\<open>pskb_may_pull\<close> has made available,
  whatever header lengths, VLAN tags, protocols and ports the packet claims, as long as the
  Ethernet header is not behind the start given; and a client address is stored exactly when
  the packet is a reply to a client, and then it is the address at the hardware address
  field of the DHCP header.
\<close>

theorem dhcp_reads_in_bounds:
  assumes "\<And>n. pull n \<Longrightarrow> n \<le> length data" and "mac_header \<le> header_len"
  shows "\<exists>r. batadv_gw_dhcp_recipient_get pull data mac_header header_len = Kret r \<and> dhcp_result_ok data r"
proof -
  have "dhcp_result_ok data (BATADV_DHCP_NO, n, None)" for n by (simp add: dhcp_result_ok_def)
  moreover have "pull (header_len + 14) \<Longrightarrow> mac_header + 12 + 2 \<le> length data"
    "pull (header_len + 14 + 4) \<Longrightarrow> mac_header + 16 + 2 \<le> length data"
    using assms(1) [of "header_len + 14"] assms(1) [of "header_len + 14 + 4"] assms(2) by simp_all
  ultimately have "kret_all (dhcp_result_ok data) (batadv_gw_dhcp_recipient_get pull data mac_header header_len)"
    by (auto simp: batadv_gw_dhcp_recipient_get_def read16_def ETH_HLEN_def VLAN_HLEN_def Let_def
        intro: dhcp_ip_ok [OF assms(1)])
  then show ?thesis by (simp add: kret_all_iff)
qed

definition ex_dhcp :: bytes where
  "ex_dhcp = replicate 12 0 @ [8, 0] @ [0x45] @ replicate 8 0 @ [17] @ replicate 10 0
     @ [0, 67, 0, 68, 0, 0, 0, 0] @ [2, 1, 6] @ replicate 25 0 @ [2, 0, 0, 0, 0, 9] @ replicate 10 0"

theorem dhcp_reads_in_bounds_witness:
  "batadv_gw_dhcp_recipient_get (\<lambda>n. n \<le> length ex_dhcp) ex_dhcp 0 0 =
     Kret (BATADV_DHCP_TO_CLIENT, 42, Some (Mac 2 0 0 0 0 9))
   \<and> dhcp_result_ok ex_dhcp (BATADV_DHCP_TO_CLIENT, 42, Some (Mac 2 0 0 0 0 9))"
proof -
  have "batadv_gw_dhcp_recipient_get (\<lambda>n. n \<le> length ex_dhcp) ex_dhcp 0 0 =
     Kret (BATADV_DHCP_TO_CLIENT, 42, Some (Mac 2 0 0 0 0 9))"
    by code_simp
  then show ?thesis using dhcp_reads_in_bounds [of "\<lambda>n. n \<le> length ex_dhcp" ex_dhcp 0 0] by simp
qed

text \<open>
  From a node that knows no gateway on, whatever announcements, deletions, elections, mode
  changes and teardowns happen, the listed gateways belong to different originators and offer a
  downstream bandwidth. That the selected gateway stays in memory is how the model treats
  releases (\<open>batadv_gw_node_release\<close>).
\<close>

lemma gw_selected_alive:
  assumes "gw_gateway_list gw\<^sub>0 = []" and "gw_unlinked gw\<^sub>0 = []" and "gw_curr_gw gw\<^sub>0 = None"
    and "gw_step\<^sup>*\<^sup>* gw\<^sub>0 gw"
  shows "(\<forall>p. gw_curr_gw gw = Some p \<longrightarrow>
        (\<exists>n. batadv_gw_get_selected_gw_node gw = Some n \<and> gn_ptr n = p))
    \<and> distinct (map gn_orig_node (gw_gateway_list gw))
    \<and> (\<forall>n \<in> set (gw_gateway_list gw). gn_bandwidth_down n \<noteq> 0)
    \<and> (\<forall>n \<in> set (gw_unlinked gw). gw_curr_gw gw = Some (gn_ptr n))"
proof -
  have "gw_wf gw\<^sub>0" using assms(1-3) by (simp add: gw_wf_def)
  with assms(4) have wf: "gw_wf gw" by (induction rule: rtranclp_induct) (auto intro: gw_step_wf)
  have "\<exists>n. batadv_gw_get_selected_gw_node gw = Some n \<and> gn_ptr n = p" if "gw_curr_gw gw = Some p" for p
  proof -
    have "p \<in> gn_ptr ` set (gw_gateway_list gw @ gw_unlinked gw)" using wf that by (simp add: gw_wf_def)
    then obtain n where "gw_deref gw p = Some n"
      unfolding gw_deref_def using find_key_notin [of gn_ptr p] by fastforce
    then show ?thesis
      using that by (auto simp: batadv_gw_get_selected_gw_node_def gw_deref_def dest: find_key_SomeD)
  qed
  then show ?thesis using wf by (auto simp: gw_wf_def list_all_iff)
qed

definition ex_gw :: batadv_priv_gw where
  "ex_gw = \<lparr>gw_gateway_list = [], gw_unlinked = [], gw_curr_gw = None, gw_generation = 0,
     gw_mode = BATADV_GW_MODE_SERVER, gw_sel_class = 50, gw_bandwidth_down = 100, gw_bandwidth_up = 20,
     gw_reselect = 0\<rparr>"

definition gw_run :: "(mac \<times> (u32 \<times> u32) option) list \<Rightarrow> batadv_priv_gw \<Rightarrow> batadv_priv_gw" where
  "gw_run ops gw = foldl (\<lambda>gw (a, v). case v of
       Some x \<Rightarrow> gw_store a x gw | None \<Rightarrow> batadv_gw_node_delete a gw) gw ops"

text \<open>
  The gateway list implements a map from originators to the bandwidths they announce:
  after any sequence of announcements (with a downstream bandwidth) and withdrawals, looking
  up an originator gives its last announced bandwidths, or nothing when it withdrew.
\<close>

theorem gateways_refine_map:
  assumes "gw_wf gw"
  shows "gw_wf (gw_run ops gw) \<and> gw_lookup (gw_run ops gw) =
    foldl (\<lambda>m (a, v). case v of Some x \<Rightarrow> if fst x \<noteq> 0 then m(a \<mapsto> x) else m | None \<Rightarrow> m(a := None))
      (gw_lookup gw) ops"
  using gateways.run_refines [OF assms, of ops]
  unfolding gw_run_def gateways.run_def gateways.run_map_def .

theorem gateways_refine_map_witness:
  "gw_lookup (gw_run [(Mac 2 0 0 0 0 1, Some (50, 10)), (Mac 2 0 0 0 0 2, Some (9, 9)),
      (Mac 2 0 0 0 0 1, Some (60, 20)), (Mac 2 0 0 0 0 2, None)] ex_gw) (Mac 2 0 0 0 0 1) = Some (60, 20)"
proof -
  have "gw_wf ex_gw" by (simp add: gw_wf_def ex_gw_def)
  from gateways_refine_map [OF this, of "[(Mac 2 0 0 0 0 1, Some (50, 10)), (Mac 2 0 0 0 0 2, Some (9, 9)),
      (Mac 2 0 0 0 0 1, Some (60, 20)), (Mac 2 0 0 0 0 2, None)]"]
  show ?thesis by simp
qed

end
