(* ===== verification/Bat_V.thy ===== *)
theory Bat_V
  imports Bat_V_Ogm Gateway
begin

text \<open>
  The routing algorithm B.A.T.M.A.N. V, \<^verbatim>\<open>src/net/batman-adv/bat_v.c\<close>: the callbacks for
  interfaces, the comparison of neighbours by their airtime cost, and the metric of
  gateways.
\<close>

section \<open>Interfaces\<close>

definition batadv_v_iface_activate :: "ifindex \<Rightarrow> batadv_priv \<Rightarrow> batadv_priv" where
  "batadv_v_iface_activate i bp =
     hard_iface_upd i (\<lambda>hard_iface.
       let hard_iface = (case batadv_primary_if_get_selected bp of
                           Some primary_if \<Rightarrow> batadv_v_elp_iface_activate (hi_dev_addr primary_if) hard_iface
                         | None \<Rightarrow> hard_iface) in
       if hi_if_status hard_iface = BATADV_IF_TO_BE_ACTIVATED
       then hard_iface\<lparr>hi_if_status := BATADV_IF_ACTIVE\<rparr> else hard_iface) bp"

definition batadv_v_iface_enable ::
    "bool \<Rightarrow> u32 \<Rightarrow> (u32 \<Rightarrow> u32) \<Rightarrow> ifindex \<Rightarrow> batadv_priv \<Rightarrow> int \<times> batadv_priv" where
  "batadv_v_iface_enable alloc_ok random_seqno random_below i bp =
     (case hard_iface_get bp i of
        None \<Rightarrow> (0, bp)
      | Some hi \<Rightarrow>
          (case batadv_v_elp_iface_enable alloc_ok random_seqno random_below hi of
             (ret, hi', calls) \<Rightarrow>
               let bp = hard_iface_upd i (\<lambda>_. hi') (bp\<lparr>bp_calls := bp_calls bp @ calls\<rparr>) in
               if ret < 0 then (ret, bp)
               else (case batadv_v_ogm_iface_enable random_below i bp of
                       (ret, bp) \<Rightarrow>
                         if ret < 0 then (ret, hard_iface_upd i batadv_v_elp_iface_disable bp)
                         else (ret, bp))))"

definition batadv_v_iface_disable :: "batadv_hard_iface \<Rightarrow> batadv_hard_iface" where
  "batadv_v_iface_disable hi = batadv_v_elp_iface_disable (batadv_v_ogm_iface_disable hi)"

definition batadv_v_primary_iface_set :: "batadv_hard_iface \<Rightarrow> batadv_priv \<Rightarrow> batadv_priv" where
  "batadv_v_primary_iface_set hard_iface bp =
     batadv_v_ogm_primary_iface_set (hi_dev_addr hard_iface)
       (batadv_v_elp_primary_iface_set (hi_dev_addr hard_iface) bp)"

definition batadv_v_iface_update_mac :: "ifindex \<Rightarrow> batadv_priv \<Rightarrow> batadv_priv" where
  "batadv_v_iface_update_mac i bp =
     (case batadv_primary_if_get_selected bp of
        None \<Rightarrow> bp
      | Some primary_if \<Rightarrow>
          if hi_ifindex primary_if \<noteq> i then bp else batadv_v_primary_iface_set primary_if bp)"

definition batadv_v_hardif_neigh_init :: "batadv_hardif_neigh_node \<Rightarrow> batadv_hardif_neigh_node" where
  "batadv_v_hardif_neigh_init hardif_neigh =
     hardif_neigh\<lparr>hn_bat_v := (hn_bat_v hardif_neigh)
       \<lparr>airtime_cost := BATADV_AIRTIME_MAX_VALUE, base_airtime := BATADV_AIRTIME_MAX_VALUE,
        elp_received := 0, elp_expected := 0, elp_last_seqno := 0, e_pt_smoothed := 0\<rparr>\<rparr>"

definition batadv_v_hardif_init :: "batadv_hard_iface \<Rightarrow> batadv_hard_iface" where
  "batadv_v_hardif_init hi =
     hi\<lparr>hi_bat_v := (hi_bat_v hi)\<lparr>bv_throughput_override := 0, bv_elp_interval := 500,
          bv_aggr_len := 0, bv_aggr_list := []\<rparr>\<rparr>"

definition batadv_v_mesh_init ::
    "'k kenv_scheme \<Rightarrow> bool \<Rightarrow> bool \<Rightarrow> u32 \<Rightarrow> tvlv_handlers \<Rightarrow> batadv_priv
      \<Rightarrow> int \<times> tvlv_handlers \<times> batadv_priv" where
  "batadv_v_mesh_init k buff_ok handler_ok random_seqno hs bp =
     (case batadv_v_ogm_init k buff_ok handler_ok random_seqno hs bp of
        (ret, hs, bp) \<Rightarrow> if ret < 0 then (ret, hs, bp) else (0, hs, bp))"

definition batadv_v_mesh_free :: "batadv_priv \<Rightarrow> batadv_priv" where
  "batadv_v_mesh_free bp = batadv_v_ogm_free bp"

section \<open>Comparing neighbours\<close>

definition batadv_v_neigh_cmp :: neigh_cmp where
  "batadv_v_neigh_cmp neigh1 if_outgoing1 neigh2 if_outgoing2 =
     (case (batadv_neigh_ifinfo_get neigh1 if_outgoing1, batadv_neigh_ifinfo_get neigh2 if_outgoing2) of
        (Some ifinfo1, Some ifinfo2) \<Rightarrow>
          s32 (ni_airtime_cost (ni_bat_v ifinfo2) - ni_airtime_cost (ni_bat_v ifinfo1))
      | _ \<Rightarrow> 0)"

definition batadv_v_neigh_is_sob :: neigh_sob where
  "batadv_v_neigh_is_sob neigh1 if_outgoing1 neigh2 if_outgoing2 =
     (case (batadv_neigh_ifinfo_get neigh1 if_outgoing1, batadv_neigh_ifinfo_get neigh2 if_outgoing2) of
        (Some ifinfo1, Some ifinfo2) \<Rightarrow>
          let threshold = ni_airtime_cost (ni_bat_v ifinfo1) div 4;
              threshold = ni_airtime_cost (ni_bat_v ifinfo1) + threshold in
          ni_airtime_cost (ni_bat_v ifinfo2) \<le> threshold
      | _ \<Rightarrow> False)"

section \<open>Gateways\<close>

definition batadv_v_init_sel_class :: "batadv_priv_gw \<Rightarrow> batadv_priv_gw" where
  "batadv_v_init_sel_class gw = gw\<lparr>gw_sel_class := 50\<rparr>"

definition gw_bandwidth_airtime :: "u32 \<Rightarrow> u32 kresult" where
  "gw_bandwidth_airtime bandwidth_down =
     (if bandwidth_down > 0 then
        let gw_bitrate = bandwidth_down * 100000 in
        if gw_bitrate = 0 then Kernel_bug
        else Kret (ucast (BATADV_AIRTIME_OVERHEAD
                     + (BATADV_AIRTIME_TEST_FRAME_SIZE * 1000000) div ucast gw_bitrate))
      else Kret BATADV_AIRTIME_MAX_VALUE)"

text \<open>The metric, or \<open>None\<close> for the error return.\<close>

definition batadv_v_gw_throughput_get ::
    "(mac \<Rightarrow> batadv_orig_node) \<Rightarrow> batadv_gw_node \<Rightarrow> u32 option kresult" where
  "batadv_v_gw_throughput_get objs gw_node =
     (let orig_node = objs (gn_orig_node gw_node) in
      case (case batadv_orig_router_get orig_node BATADV_IF_DEFAULT of
              None \<Rightarrow> None | Some p \<Rightarrow> neigh_deref orig_node p) of
        None \<Rightarrow> Kret None
      | Some router \<Rightarrow>
          (case batadv_neigh_ifinfo_get router BATADV_IF_DEFAULT of
             None \<Rightarrow> Kret None
           | Some router_ifinfo \<Rightarrow>
               kbind (gw_bandwidth_airtime (gn_bandwidth_down gw_node)) (\<lambda>gw_airtime.
                 Kret (Some (max (ni_airtime_cost (ni_bat_v router_ifinfo)) gw_airtime)))))"

fun v_best_gw_loop ::
    "(mac \<Rightarrow> batadv_orig_node) \<Rightarrow> (batadv_gw_node \<times> u32) option \<Rightarrow> batadv_gw_node list
      \<Rightarrow> (batadv_gw_node \<times> u32) option kresult" where
  "v_best_gw_loop objs curr_gw [] = Kret curr_gw"
| "v_best_gw_loop objs curr_gw (gw_node # gws) =
     kbind (batadv_v_gw_throughput_get objs gw_node) (\<lambda>r.
       case r of
         None \<Rightarrow> v_best_gw_loop objs curr_gw gws
       | Some airtime \<Rightarrow>
           (case curr_gw of
              Some (_, min_airtime) \<Rightarrow>
                if airtime \<ge> min_airtime then v_best_gw_loop objs curr_gw gws
                else v_best_gw_loop objs (Some (gw_node, airtime)) gws
            | None \<Rightarrow> v_best_gw_loop objs (Some (gw_node, airtime)) gws))"

definition batadv_v_gw_get_best_gw_node ::
    "(mac \<Rightarrow> batadv_orig_node) \<Rightarrow> batadv_priv_gw \<Rightarrow> batadv_gw_node option kresult" where
  "batadv_v_gw_get_best_gw_node objs gw =
     kbind (v_best_gw_loop objs None (gw_gateway_list gw)) (\<lambda>r. Kret (map_option fst r))"

definition batadv_v_gw_is_eligible ::
    "(mac \<Rightarrow> batadv_orig_node) \<Rightarrow> batadv_priv_gw \<Rightarrow> mac \<Rightarrow> mac \<Rightarrow> bool kresult" where
  "batadv_v_gw_is_eligible objs gw curr_gw_orig orig_node =
     (let threshold = gw_sel_class gw in
      case batadv_gw_node_get gw curr_gw_orig of
        None \<Rightarrow> Kret True
      | Some curr_gw \<Rightarrow>
          kbind (batadv_v_gw_throughput_get objs curr_gw) (\<lambda>r.
          case r of
            None \<Rightarrow> Kret True
          | Some gw_throughput \<Rightarrow>
              (case batadv_gw_node_get gw orig_node of
                 None \<Rightarrow> Kret False
               | Some orig_gw \<Rightarrow>
                   kbind (batadv_v_gw_throughput_get objs orig_gw) (\<lambda>r.
                   case r of
                     None \<Rightarrow> Kret False
                   | Some orig_throughput \<Rightarrow>
                       if orig_throughput > gw_throughput then Kret False
                       else if gw_throughput - orig_throughput < threshold then Kret False
                       else Kret True))))"

definition batadv_batman_v_gw :: "(mac \<Rightarrow> batadv_orig_node) \<Rightarrow> batadv_algo_gw_ops" where
  "batadv_batman_v_gw objs =
     \<lparr>init_sel_class = Some batadv_v_init_sel_class,
      get_best_gw_node = Some (batadv_v_gw_get_best_gw_node objs),
      is_eligible = Some (batadv_v_gw_is_eligible objs)\<rparr>"

section \<open>Which neighbour wins\<close>

text \<open>
  The order the comparison induces: the cost read as a signed number, one added. It agrees
  with the cost itself below \<open>2 ^ 31 - 1\<close>; the value of an unreachable neighbour becomes the
  smallest one.
\<close>

definition v_cost :: "batadv_neigh_node \<Rightarrow> ifref \<Rightarrow> u32 option" where
  "v_cost n i = map_option (\<lambda>info. ni_airtime_cost (ni_bat_v info)) (batadv_neigh_ifinfo_get n i)"

definition v_rank :: "batadv_neigh_node \<Rightarrow> ifref \<Rightarrow> nat" where
  "v_rank n i = (case v_cost n i of None \<Rightarrow> 0 | Some c \<Rightarrow> nat (s32 c + 1))"

definition v_ranked :: "batadv_neigh_node \<Rightarrow> ifref \<Rightarrow> bool" where
  "v_ranked n i = (case v_cost n i of None \<Rightarrow> False
     | Some c \<Rightarrow> unat c < 2 ^ 31 - 1 \<or> c = BATADV_AIRTIME_MAX_VALUE)"

lemma s32_small:
  assumes "unat c < 2 ^ 31" shows "s32 c = int (unat c)"
proof -
  have "int (unat c) < int (2 ^ 31)" using assms unfolding of_nat_less_iff .
  then have "uint c < 2 ^ 31" by simp
  then show ?thesis using order_trans [OF _ uint_nonnegative, of "- (2 ^ 31)" c]
    by (simp add: sint_uint signed_take_bit_int_eq_self)
qed

lemma s32_max: "s32 BATADV_AIRTIME_MAX_VALUE = - 1"
  by (simp add: BATADV_AIRTIME_MAX_VALUE_def)

lemma v_rankedD:
  assumes "v_ranked n i"
  obtains c where "v_cost n i = Some c" "- 1 \<le> s32 c" "s32 c < 2 ^ 31 - 1"
proof (cases "v_cost n i")
  case (Some c)
  then have "unat c < 2 ^ 31 - 1 \<or> s32 c = - 1" using assms by (auto simp: v_ranked_def s32_max)
  then have "- 1 \<le> s32 c \<and> s32 c < 2 ^ 31 - 1" proof
    assume c: "unat c < 2 ^ 31 - 1"
    then have "int (unat c) < int (2 ^ 31 - 1)" unfolding of_nat_less_iff .
    then show ?thesis using s32_small [of c] c order_trans [OF _ uint_nonnegative, of "- 1" c] by simp
  qed simp
  then show ?thesis using Some that by blast
qed (use assms in \<open>simp add: v_ranked_def\<close>)

lemma s32_diff:
  assumes "- 1 \<le> s32 a" "- 1 \<le> s32 b" "s32 a < 2 ^ 31 - 1" "s32 b < 2 ^ 31 - 1"
  shows "s32 (b - a) = s32 b - s32 a"
  using assms sint_word_ariths(2) [of b a] by (simp add: signed_take_bit_int_eq_self)

lemma v_neigh_cmp_cost:
  "v_cost a i = Some c \<Longrightarrow> v_cost b i = Some d \<Longrightarrow> batadv_v_neigh_cmp a i b i = s32 (d - c)"
  by (auto simp: v_cost_def batadv_v_neigh_cmp_def)

interpretation v_order: neigh_order batadv_v_neigh_cmp v_rank v_ranked
proof
  fix a b i
  assume "v_ranked a i" "v_ranked b i"
  then obtain c d where "v_cost a i = Some c" "- 1 \<le> s32 c" "s32 c < 2 ^ 31 - 1"
    and "v_cost b i = Some d" "- 1 \<le> s32 d" "s32 d < 2 ^ 31 - 1" by (metis v_rankedD)
  then show "batadv_v_neigh_cmp a i b i \<le> 0 \<longleftrightarrow> v_rank b i \<le> v_rank a i"
    by (simp add: v_neigh_cmp_cost v_rank_def s32_diff nat_le_eq_zle)
qed

text \<open>
  C36: Which neighbour becomes the router after a purge (\<^verbatim>\<open>batadv_find_best_neighbor\<close> with the
  comparison of \<^verbatim>\<open>bat_v.c\<close>), when every neighbour of the originator has a cost that is below
  \<open>2 ^ 31 - 1\<close> or the value for unreachable. Without an unreachable one the cheapest neighbour
  is chosen. But as soon as one neighbour is unreachable, an unreachable one is chosen
  whatever the others cost: the maximal cost is read as \<open>-1\<close>.
\<close>

theorem v_best_neighbor:
  assumes "\<forall>n \<in> set (on_neigh_list orig_node). v_ranked n i"
    and "batadv_find_best_neighbor batadv_v_neigh_cmp orig_node i = Some b"
  shows "b \<in> set (on_neigh_list orig_node) \<and>
        (if \<exists>n \<in> set (on_neigh_list orig_node). v_cost n i = Some BATADV_AIRTIME_MAX_VALUE
         then v_cost b i = Some BATADV_AIRTIME_MAX_VALUE
         else \<forall>n \<in> set (on_neigh_list orig_node). the (v_cost b i) \<le> the (v_cost n i))"
proof -
  note min = v_order.best_neighbor_min [OF assms]
  have b: "b \<in> set (on_neigh_list orig_node)" by (rule min(1))
  then obtain c where c: "v_cost b i = Some c" "- 1 \<le> s32 c" "s32 c < 2 ^ 31 - 1"
    using assms(1) by (metis v_rankedD)
  have max: "s32 c = - 1 \<Longrightarrow> c = BATADV_AIRTIME_MAX_VALUE" using s32_max by (metis signed_word_eqI)
  have le: "s32 c \<le> s32 d" if "n \<in> set (on_neigh_list orig_node)" "v_cost n i = Some d" for n d
    using min(2) that c assms(1) by (force simp: v_rank_def elim: v_rankedD)
  have small: "unat c \<le> unat d" if "n \<in> set (on_neigh_list orig_node)" "v_cost n i = Some d"
    "c \<noteq> BATADV_AIRTIME_MAX_VALUE" "d \<noteq> BATADV_AIRTIME_MAX_VALUE" for n d
  proof -
    have "unat c < 2 ^ 31" "unat d < 2 ^ 31"
      using assms(1) b c(1) that by (fastforce simp: v_ranked_def)+
    then show ?thesis using le [OF that(1,2)] s32_small [of c] s32_small [of d] by linarith
  qed
  show ?thesis
  proof (cases "\<exists>n \<in> set (on_neigh_list orig_node). v_cost n i = Some BATADV_AIRTIME_MAX_VALUE")
    case True
    then have "s32 c \<le> - 1" using le s32_max by fastforce
    then show ?thesis using True b c max by simp
  next
    case False
    then have "the (v_cost b i) \<le> the (v_cost n i)" if "n \<in> set (on_neigh_list orig_node)" for n
    proof -
      obtain d where d: "v_cost n i = Some d" using assms(1) \<open>n \<in> _\<close> by (metis v_rankedD)
      then show ?thesis using small [OF \<open>n \<in> _\<close> d] False b c(1) \<open>n \<in> _\<close> by (auto simp: word_le_nat_alt)
    qed
    then show ?thesis using False b by simp
  qed
qed

definition ex_neigh_cost :: "nat \<Rightarrow> u32 \<Rightarrow> batadv_neigh_node" where
  "ex_neigh_cost p c = \<lparr>nn_ptr = p, nn_orig_node = Mac 2 0 0 0 0 9, nn_addr = Mac 2 0 0 0 0 (of_nat p),
     nn_ifinfo_list = [\<lparr>ni_if_outgoing = None,
        ni_bat_iv = \<lparr>tq_recv = [], tq_index = 0, tq_avg = 0, real_bits = 0, real_packet_count = 0\<rparr>,
        ni_bat_v = \<lparr>ni_airtime_cost = c, ni_last_seqno = 0\<rparr>, ni_last_ttl = 0\<rparr>],
     nn_if_incoming = 1, nn_last_seen = 0\<rparr>"

definition ex_gw_orig :: "batadv_neigh_node list \<Rightarrow> batadv_orig_node" where
  "ex_gw_orig ns = (the (batadv_orig_node_new ex_kenv (Mac 2 0 0 0 0 9)))
     \<lparr>on_ifinfo_list := [\<lparr>oi_if_outgoing = None, oi_router = Some 7, oi_last_real_seqno = 0,
        oi_last_ttl = 50, oi_last_seqno_forwarded = 0, oi_batman_seqno_reset = 0,
        oi_bat_iv = \<lparr>bcast_own = 0, bcast_own_sum = 0\<rparr>\<rparr>],
      on_neigh_list := ns, on_neigh_unlinked := []\<rparr>"

lemma ex_gw_orig_simps [simp]:
  "on_neigh_list (ex_gw_orig ns) = ns" "on_neigh_unlinked (ex_gw_orig ns) = []"
  by (simp_all add: ex_gw_orig_def)

lemma ex_neigh_cost_simps [simp]:
  "v_cost (ex_neigh_cost p c) None = Some c" "nn_ptr (ex_neigh_cost p c) = p"
  by (simp_all add: v_cost_def ex_neigh_cost_def batadv_neigh_ifinfo_get_def)

theorem v_best_neighbor_witness:
  "\<exists>b. batadv_find_best_neighbor batadv_v_neigh_cmp
       (ex_gw_orig [ex_neigh_cost 7 400, ex_neigh_cost 8 BATADV_AIRTIME_MAX_VALUE]) None = Some b
     \<and> v_cost b None = Some BATADV_AIRTIME_MAX_VALUE"
proof -
  let ?o = "ex_gw_orig [ex_neigh_cost 7 400, ex_neigh_cost 8 BATADV_AIRTIME_MAX_VALUE]"
  obtain b where b: "batadv_find_best_neighbor batadv_v_neigh_cmp ?o None = Some b"
    using find_best_neighbor_None [of batadv_v_neigh_cmp ?o None] by auto
  then show ?thesis using v_best_neighbor [OF _ b] by (simp add: v_ranked_def)
qed

section \<open>Gateways of B.A.T.M.A.N. V\<close>

text \<open>The metric of a gateway, when its bandwidth does not wrap to zero.\<close>

definition v_gw_metric :: "(mac \<Rightarrow> batadv_orig_node) \<Rightarrow> batadv_gw_node \<Rightarrow> u32 option" where
  "v_gw_metric objs n = (case batadv_v_gw_throughput_get objs n of Kret r \<Rightarrow> r | Kernel_bug \<Rightarrow> None)"

definition v_gw_sane :: "batadv_gw_node \<Rightarrow> bool" where
  "v_gw_sane n \<longleftrightarrow> gn_bandwidth_down n * 100000 \<noteq> 0"

lemma gw_throughput_sane:
  "v_gw_sane n \<Longrightarrow> batadv_v_gw_throughput_get objs n = Kret (v_gw_metric objs n)"
  by (auto simp: v_gw_metric_def v_gw_sane_def batadv_v_gw_throughput_get_def gw_bandwidth_airtime_def Let_def
      split: option.splits)

definition v_best_of ::
    "(mac \<Rightarrow> batadv_orig_node) \<Rightarrow> batadv_gw_node list \<Rightarrow> (batadv_gw_node \<times> u32) option
      \<Rightarrow> (batadv_gw_node \<times> u32) option \<Rightarrow> bool" where
  "v_best_of objs gws c r =
     (case r of
        None \<Rightarrow> c = None \<and> (\<forall>n \<in> set gws. v_gw_metric objs n = None)
      | Some (b, m) \<Rightarrow> (c = Some (b, m) \<or> b \<in> set gws \<and> v_gw_metric objs b = Some m)
          \<and> (\<forall>n \<in> set gws. \<forall>m'. v_gw_metric objs n = Some m' \<longrightarrow> m \<le> m')
          \<and> (\<forall>n m'. c = Some (n, m') \<longrightarrow> m \<le> m'))"

lemma v_best_of_skip:
  "v_best_of objs gws c r \<Longrightarrow> (\<And>a. v_gw_metric objs g = Some a \<Longrightarrow> \<exists>n m. c = Some (n, m) \<and> m \<le> a) \<Longrightarrow>
     v_best_of objs (g # gws) c r"
  by (cases "v_gw_metric objs g") (fastforce simp: v_best_of_def split: option.splits)+

lemma v_best_of_take:
  "v_best_of objs gws (Some (g, a)) r \<Longrightarrow> v_gw_metric objs g = Some a \<Longrightarrow>
     (\<And>n m. c = Some (n, m) \<Longrightarrow> a < m) \<Longrightarrow> v_best_of objs (g # gws) c r"
  by (fastforce simp: v_best_of_def split: option.splits)

lemma v_best_gw_loop_spec:
  "list_all v_gw_sane gws \<Longrightarrow> kret_all (v_best_of objs gws c) (v_best_gw_loop objs c gws)"
proof (induction gws arbitrary: c)
  case Nil
  then show ?case by (cases c) (auto simp: v_best_of_def)
next
  case (Cons g gws)
  have g: "batadv_v_gw_throughput_get objs g = Kret (v_gw_metric objs g)"
    using Cons.prems by (simp add: gw_throughput_sane)
  have IH: "\<exists>r. v_best_gw_loop objs c gws = Kret r \<and> v_best_of objs gws c r" for c
    using Cons by (simp add: kret_all_iff)
  show ?case
  proof (cases "\<exists>a. v_gw_metric objs g = Some a \<and> (\<forall>n m. c = Some (n, m) \<longrightarrow> a < m)")
    case True
    then obtain a where a: "v_gw_metric objs g = Some a" "\<And>n m. c = Some (n, m) \<Longrightarrow> a < m" by blast
    then have "v_best_gw_loop objs c (g # gws) = v_best_gw_loop objs (Some (g, a)) gws"
      using g by (cases c) (auto simp: not_le)
    then show ?thesis using IH [of "Some (g, a)"] v_best_of_take [OF _ a] by (auto simp: kret_all_iff)
  next
    case False
    then have "v_best_gw_loop objs c (g # gws) = v_best_gw_loop objs c gws"
      using g by (auto simp: not_less split: option.splits)
    moreover have "\<exists>n m. c = Some (n, m) \<and> m \<le> a" if "v_gw_metric objs g = Some a" for a
      using False that by (auto simp: not_less)
    ultimately show ?thesis using IH [of c] v_best_of_skip by (auto simp: kret_all_iff)
  qed
qed

text \<open>
  C35: The gateway chosen by B.A.T.M.A.N. V is the best one: if no announced bandwidth wraps
  to a bit rate of zero, the choice returns; the chosen gateway is a listed one with a metric
  (the larger of the cost of the path to it and of its announced bandwidth), no listed
  gateway has a smaller metric, and there is no choice only when no gateway is reachable.
\<close>

theorem v_best_gateway:
  assumes "list_all v_gw_sane (gw_gateway_list gw)"
  shows "\<exists>r. batadv_v_gw_get_best_gw_node objs gw = Kret r
    \<and> (case r of
         None \<Rightarrow> \<forall>n \<in> set (gw_gateway_list gw). v_gw_metric objs n = None
       | Some b \<Rightarrow> b \<in> set (gw_gateway_list gw)
           \<and> (\<exists>m. v_gw_metric objs b = Some m
                \<and> (\<forall>n \<in> set (gw_gateway_list gw). \<forall>m'. v_gw_metric objs n = Some m' \<longrightarrow> m \<le> m')))"
proof -
  obtain r where "v_best_gw_loop objs None (gw_gateway_list gw) = Kret r"
    "v_best_of objs (gw_gateway_list gw) None r"
    using v_best_gw_loop_spec [OF assms, of objs None] by (auto simp: kret_all_iff)
  then show ?thesis
    by (cases r) (auto simp: batadv_v_gw_get_best_gw_node_def v_best_of_def)
qed

lemma v_ops_ok:
  assumes "batadv_v_gw_get_best_gw_node objs gw = Kret (Some n)"
  shows "n \<in> set (gw_gateway_list gw)"
proof -
  have "v_best_gw_loop objs c gws = Kret (Some (n, m)) \<Longrightarrow> c = Some (n, m) \<or> n \<in> set gws" for c gws m
  proof (induction gws arbitrary: c)
    case (Cons g gws)
    then show ?case
      by (cases "batadv_v_gw_throughput_get objs g") (fastforce split: option.splits if_splits)+
  qed simp
  then show ?thesis
    using assms by (fastforce simp: batadv_v_gw_get_best_gw_node_def map_option_case split: option.splits elim!: kbind.elims)
qed

lemma v_gw_ops_ok: "ops_ok (batadv_batman_v_gw objs)"
  by (auto simp: ops_ok_def batadv_batman_v_gw_def intro: v_ops_ok)

definition ex_gw_node :: "nat \<Rightarrow> u8 \<Rightarrow> u32 \<Rightarrow> batadv_gw_node" where
  "ex_gw_node p a d = \<lparr>gn_ptr = p, gn_orig_node = Mac 2 0 0 0 0 a, gn_bandwidth_down = d, gn_bandwidth_up = 10\<rparr>"

definition ex_objs :: "mac \<Rightarrow> batadv_orig_node" where
  "ex_objs a = ex_gw_orig [ex_neigh_cost 7 400]"

lemma ex_objs_metric:
  "batadv_v_gw_throughput_get ex_objs n =
     kbind (gw_bandwidth_airtime (gn_bandwidth_down n)) (\<lambda>c. Kret (Some (max 400 c)))"
  by (simp add: batadv_v_gw_throughput_get_def ex_objs_def batadv_orig_router_get_def batadv_orig_ifinfo_get_def
      ex_gw_orig_def neigh_deref_def ex_neigh_cost_def batadv_neigh_ifinfo_get_def)

theorem v_best_gateway_witness:
  "\<exists>r. batadv_v_gw_get_best_gw_node ex_objs (ex_gw\<lparr>gw_gateway_list := [ex_gw_node 1 9 100]\<rparr>) = Kret (Some r)
     \<and> r = ex_gw_node 1 9 100"
proof -
  have "v_gw_sane (ex_gw_node 1 9 100)" by (simp add: v_gw_sane_def ex_gw_node_def)
  then have "v_gw_metric ex_objs (ex_gw_node 1 9 100) \<noteq> None"
    by (simp add: v_gw_metric_def ex_objs_metric gw_bandwidth_airtime_def ex_gw_node_def Let_def)
  then show ?thesis
    using v_best_gateway [of "ex_gw\<lparr>gw_gateway_list := [ex_gw_node 1 9 100]\<rparr>" ex_objs] \<open>v_gw_sane _\<close>
    by (auto split: option.splits)
qed

text \<open>
  C32: One gateway announcement crashes its receivers. On a node in gateway client mode that
  has selected a reachable gateway, the container of another reachable originator that
  announces a downstream bandwidth of \<open>2 ^ 27\<close> (times 100 kbit/s; any non-zero multiple) makes
  the eligibility check divide by the bit rate \<open>2 ^ 27 * 100000\<close>, which is zero in 32 bits.
\<close>

theorem gw_announcement_crash:
  assumes "gw_mode gw = BATADV_GW_MODE_CLIENT" and "batadv_gw_get_selected_gw_node gw = Some sel"
    and "batadv_gw_node_get gw (gn_orig_node sel) = Some sel" and "v_gw_metric objs sel \<noteq> None"
    and "gw_has_route objs \<lparr>gn_ptr = p, gn_orig_node = orig, gn_bandwidth_down = down, gn_bandwidth_up = up\<rparr>"
    and "p \<notin> gw_ptrs gw" and "batadv_gw_node_get gw orig = None"
    and "down \<noteq> 0" and "down * 100000 = 0" and "up \<noteq> 0"
  shows "batadv_gw_tvlv_ogm_handler_v1 (batadv_batman_v_gw objs) (Some p) orig 0
      (gateway_data_bytes \<lparr>gwd_bandwidth_down = down, gwd_bandwidth_up = up\<rparr>) gw = Kernel_bug"
proof -
  let ?g = "\<lparr>gwd_bandwidth_down = down, gwd_bandwidth_up = up\<rparr>"
  let ?n = "\<lparr>gn_ptr = p, gn_orig_node = orig, gn_bandwidth_down = down, gn_bandwidth_up = up\<rparr>"
  define gw' where "gw' = batadv_gw_node_update (Some p) orig ?g gw"
  have ann: "gw_announced 0 (gateway_data_bytes ?g) = ?g"
    using assms(8,10) gwd_fmt.length_enc [of ?g] gwd_fmt.dec_enc_only [of ?g] by (simp add: gw_announced_def Let_def)
  have gw': "gw' = gw\<lparr>gw_gateway_list := ?n # gw_gateway_list gw, gw_generation := gw_generation gw + 1\<rparr>"
    using assms(7,8) by (simp add: gw'_def batadv_gw_node_update_def batadv_gw_node_add_def)
  have sel: "batadv_gw_get_selected_gw_node gw' = Some sel"
  proof -
    obtain q where q: "gw_curr_gw gw = Some q" "gw_deref gw q = Some sel"
      using assms(2) by (auto simp: batadv_gw_get_selected_gw_node_def split: option.splits)
    then have "q \<in> gw_ptrs gw" by (auto simp: gw_deref_def gw_ptrs_def dest!: find_key_SomeD)
    then have "q \<noteq> p" using assms(6) by blast
    then show ?thesis using q by (simp add: batadv_gw_get_selected_gw_node_def gw_deref_def gw')
  qed
  have get: "batadv_gw_node_get gw' (gn_orig_node sel) = Some sel" "batadv_gw_node_get gw' orig = Some ?n"
    using assms(3,7) by (auto simp: gw' batadv_gw_node_get_def)
  have "batadv_v_gw_throughput_get objs ?n = Kernel_bug"
    using assms(5,8,9) by (auto simp: batadv_v_gw_throughput_get_def gw_has_route_def gw_bandwidth_airtime_def Let_def
        word_gt_0 split: option.splits)
  moreover obtain m where "batadv_v_gw_throughput_get objs sel = Kret (Some m)"
    using assms(4) by (auto simp: v_gw_metric_def split: kresult.splits)
  ultimately have "batadv_v_gw_is_eligible objs gw' (gn_orig_node sel) orig = Kernel_bug"
    using get by (simp add: batadv_v_gw_is_eligible_def)
  moreover have "orig \<noteq> gn_orig_node sel" using assms(3,7) by auto
  ultimately have "batadv_gw_check_election (batadv_batman_v_gw objs) orig gw' = Kernel_bug"
    using sel by (auto simp: batadv_gw_check_election_def batadv_batman_v_gw_def batadv_gw_get_selected_orig_def)
  then show ?thesis
    using assms(1,8) by (simp add: batadv_gw_tvlv_ogm_handler_v1_def ann gw'_def [symmetric] Let_def) (simp add: gw')
qed

theorem gw_announcement_crash_witness:
  "batadv_gw_tvlv_ogm_handler_v1 (batadv_batman_v_gw ex_objs) (Some 2) (Mac 2 0 0 0 0 8) 0
      (gateway_data_bytes \<lparr>gwd_bandwidth_down = 134217728, gwd_bandwidth_up = 1\<rparr>)
      (ex_gw\<lparr>gw_mode := BATADV_GW_MODE_CLIENT, gw_gateway_list := [ex_gw_node 1 9 100], gw_curr_gw := Some 1\<rparr>) = Kernel_bug"
  by (rule gw_announcement_crash [where sel = "ex_gw_node 1 9 100"])
    (simp_all add: ex_gw_def batadv_gw_get_selected_gw_node_def gw_deref_def ex_gw_node_def batadv_gw_node_get_def
      gw_has_route_def ex_objs_def gw_ptrs_def ex_gw_orig_def batadv_orig_router_get_def batadv_orig_ifinfo_get_def
      neigh_deref_def batadv_neigh_ifinfo_get_def ex_neigh_cost_def v_gw_metric_def batadv_v_gw_throughput_get_def
      gw_bandwidth_airtime_def Let_def)

end
