(* ===== verification/Ogm_Properties.thy ===== *)
theory Ogm_Properties
  imports Bat_V_Ogm
begin

text \<open>
  Correctness of the OGM paths: the aggregation queues and the receive path are memory safe,
  aggregating and splitting are inverse, the metric saturates, routes only improve,
  node weights reach the peers.
\<close>

section \<open>The aggregation queue\<close>

text \<open>
  The invariant of an interface's queue: every queued packet is as long as its header says,
  the running length is the sum, and an aggregate of several OGMs fits the limit (a single
  OGM may exceed it).
\<close>

definition aggr_skb_ok :: "bytes \<Rightarrow> bool" where
  "aggr_skb_ok skb \<longleftrightarrow> length skb = batadv_v_ogm_len skb"

definition aggr_limit :: "batadv_hard_iface \<Rightarrow> nat" where
  "aggr_limit hi = unat (min (hi_mtu hi) BATADV_MAX_AGGREGATION_BYTES)"

definition aggr_inv :: "batadv_hard_iface \<Rightarrow> bool" where
  "aggr_inv hi \<longleftrightarrow>
     (let q = bv_aggr_list (hi_bat_v hi) in
      list_all aggr_skb_ok q \<and> bv_aggr_len (hi_bat_v hi) = of_nat (length (concat q))
      \<and> (length q \<le> 1 \<or> length (concat q) \<le> aggr_limit hi))"

text \<open>
  The node: every interface's queue, well-formed TVLV containers, and a buffer for the own OGM
  that holds at least its header.
\<close>

definition ogm_node_inv :: "batadv_priv \<Rightarrow> bool" where
  "ogm_node_inv bp \<longleftrightarrow> list_all aggr_inv (bp_hard_ifaces bp)
     \<and> containers_inv (bp_tvlv_container_list bp)
     \<and> (\<forall>b. ogm_buff (bp_bat_v bp) = Some b \<longrightarrow> 20 \<le> length b)"

lemma aggr_skb_ok_bounds: "aggr_skb_ok skb \<Longrightarrow> 20 \<le> length skb \<and> length skb \<le> 65555"
  using unat_less_u16 [of "ogm2_tvlv_len (get_ogm2_packet skb)"]
  by (auto simp: aggr_skb_ok_def batadv_v_ogm_len_def BATADV_OGM2_HLEN_def)

lemma aggr_limit_le: "aggr_limit hi \<le> 512"
  by (simp add: aggr_limit_def BATADV_MAX_AGGREGATION_BYTES_def min_def word_le_nat_alt)

lemma aggr_total_bound:
  assumes "aggr_inv hi" shows "length (concat (bv_aggr_list (hi_bat_v hi))) \<le> 65555"
proof (cases "length (bv_aggr_list (hi_bat_v hi)) \<le> 1")
  case True
  then consider "bv_aggr_list (hi_bat_v hi) = []" | skb where "bv_aggr_list (hi_bat_v hi) = [skb]"
    by (cases "bv_aggr_list (hi_bat_v hi)") auto
  then show ?thesis using assms aggr_skb_ok_bounds by cases (auto simp: aggr_inv_def)
next
  case False
  then show ?thesis using assms aggr_limit_le [of hi] by (auto simp: aggr_inv_def Let_def)
qed

lemma unat_aggr_len:
  "aggr_inv hi \<Longrightarrow> unat (bv_aggr_len (hi_bat_v hi)) = length (concat (bv_aggr_list (hi_bat_v hi)))"
  using aggr_total_bound [of hi]
  by (simp add: aggr_inv_def Let_def unsigned_of_nat take_bit_nat_eq_self del: length_concat)

lemma aggr_collect_ok:
  assumes "list_all aggr_skb_ok q" and "length (concat q) \<le> room"
  shows "aggr_collect room acc n q = Kret (acc @ concat q, n - of_nat (length (concat q)))"
  using assms
proof (induction q arbitrary: room acc n)
  case (Cons skb q)
  then show ?case
    using Cons.IH [of "room - length skb" "acc @ skb" "n - of_nat (length skb)"]
    by (simp add: aggr_skb_ok_def Let_def diff_diff_eq)
qed simp

lemma hi_set_aggr_simps [simp]:
  "hi_ifindex (hi_set_aggr q n hi) = hi_ifindex hi" "hi_if_status (hi_set_aggr q n hi) = hi_if_status hi"
  "hi_mtu (hi_set_aggr q n hi) = hi_mtu hi"
  "bv_aggr_list (hi_bat_v (hi_set_aggr q n hi)) = q" "bv_aggr_len (hi_bat_v (hi_set_aggr q n hi)) = n"
  by (simp_all add: hi_set_aggr_def)

lemma aggr_inv_empty: "aggr_inv (hi_set_aggr [] 0 hi)"
  by (simp add: aggr_inv_def)

lemma aggr_len_zero_iff:
  "aggr_inv hi \<Longrightarrow> bv_aggr_len (hi_bat_v hi) = 0 \<longleftrightarrow> bv_aggr_list (hi_bat_v hi) = []"
  using unat_aggr_len [of hi] aggr_skb_ok_bounds [of "[]"]
  by (cases "bv_aggr_list (hi_bat_v hi)") (auto simp: aggr_inv_def Let_def unat_eq_zero [symmetric])

lemma ext_call_own [simp]:
  "bp_bat_v (ext_call c bp) = bp_bat_v bp"
  "bp_tvlv_container_list (ext_call c bp) = bp_tvlv_container_list bp"
  by (simp_all add: ext_call_def)

lemma add_counter_own [simp]:
  "bp_bat_v (batadv_add_counter c n bp) = bp_bat_v bp"
  "bp_tvlv_container_list (batadv_add_counter c n bp) = bp_tvlv_container_list bp"
  by (simp_all add: batadv_add_counter_def)

lemma send_to_if_simps [simp]:
  "bp_hard_ifaces (batadv_v_ogm_send_to_if skb i bp) = bp_hard_ifaces bp"
  "bp_orig_hash (batadv_v_ogm_send_to_if skb i bp) = bp_orig_hash bp"
  "bp_bat_v (batadv_v_ogm_send_to_if skb i bp) = bp_bat_v bp"
  "bp_tvlv_container_list (batadv_v_ogm_send_to_if skb i bp) = bp_tvlv_container_list bp"
  by (simp_all add: batadv_v_ogm_send_to_if_def split: option.split)

lemma send_to_if_calls:
  "hard_iface_get bp i = Some hi \<Longrightarrow> bp_calls (batadv_v_ogm_send_to_if skb i bp) =
     bp_calls bp @ (if hi_if_status hi = BATADV_IF_ACTIVE then [Send_broadcast_skb i skb] else [])"
  by (simp add: batadv_v_ogm_send_to_if_def)

text \<open>The flush, whole: what it sends and that the queue is empty afterwards.\<close>

lemma aggr_send_cases:
  assumes "hard_iface_get bp i = Some hi" and "aggr_inv hi"
  shows "\<exists>bp'. batadv_v_ogm_aggr_send k i bp = Kret bp'
    \<and> bp_hard_ifaces bp' = bp_hard_ifaces (hard_iface_upd i (hi_set_aggr [] 0) bp)
    \<and> bp_bat_v bp' = bp_bat_v bp \<and> bp_tvlv_container_list bp' = bp_tvlv_container_list bp
    \<and> bp_calls bp' = bp_calls bp @
        (if bv_aggr_list (hi_bat_v hi) \<noteq> [] \<and> kalloc_ok k (Alloc_aggr i)
            \<and> hi_if_status hi = BATADV_IF_ACTIVE
         then [Send_broadcast_skb i (concat (bv_aggr_list (hi_bat_v hi)))] else [])"
proof (cases "bv_aggr_list (hi_bat_v hi) = []")
  case True
  then have n: "bv_aggr_len (hi_bat_v hi) = 0" using aggr_len_zero_iff assms(2) by blast
  have "hi_set_aggr [] 0 hi = hi" using True n by (simp add: hi_set_aggr_def)
  then have "bp_hard_ifaces (hard_iface_upd i (hi_set_aggr [] 0) bp) = bp_hard_ifaces bp"
    using assms(1) hlist_upd_first_fix [of "\<lambda>h. hi_ifindex h = i" "bp_hard_ifaces bp" hi]
    by (simp add: hard_iface_upd_def hard_iface_get_def)
  then show ?thesis using assms(1) True n by (simp add: batadv_v_ogm_aggr_send_def)
next
  case False
  let ?q = "bv_aggr_list (hi_bat_v hi)"
  have c: "aggr_collect (length (concat ?q)) [] (bv_aggr_len (hi_bat_v hi)) ?q = Kret (concat ?q, 0)"
    using aggr_collect_ok [of ?q "length (concat ?q)"] assms(2) by (simp add: aggr_inv_def Let_def)
  have g: "hard_iface_get (hard_iface_upd i (hi_set_aggr [] 0) bp) i = Some (hi_set_aggr [] 0 hi)"
    using assms(1) by (simp add: hard_iface_get_upd)
  show ?thesis
    using assms(1) c False aggr_len_zero_iff [OF assms(2)] send_to_if_calls [OF g]
      unat_aggr_len [OF assms(2)]
    by (simp add: batadv_v_ogm_aggr_send_def Let_def batadv_v_ogm_aggr_list_free_def [abs_def]
        hard_iface_upd_def del: length_concat)
qed

lemma aggr_inv_enqueue:
  assumes "aggr_inv hi" and "aggr_skb_ok skb"
    and "bv_aggr_list (hi_bat_v hi) = [] \<or> batadv_v_ogm_queue_left skb hi"
  shows "aggr_inv (aggr_enqueue skb hi)"
proof -
  let ?q = "bv_aggr_list (hi_bat_v hi)"
  have len: "batadv_v_ogm_len skb = length skb" using assms(2) by (simp add: aggr_skb_ok_def)
  have "length (concat ?q) + length skb \<le> aggr_limit hi" if left: "batadv_v_ogm_queue_left skb hi"
  proof -
    have b: "length (concat ?q) + length skb < 2 ^ 32"
      using aggr_total_bound [OF assms(1)] aggr_skb_ok_bounds [OF assms(2)] by simp
    have "unat (of_nat (length (concat ?q) + length skb) :: u32) \<le> aggr_limit hi"
      using left assms(1) len
      by (simp add: batadv_v_ogm_queue_left_def Let_def aggr_inv_def aggr_limit_def word_le_nat_alt)
    then show ?thesis unfolding unat_of_nat_u32 [OF b] .
  qed
  then show ?thesis
    using assms len unfolding aggr_inv_def Let_def aggr_enqueue_def
    by (auto simp: aggr_limit_def)
qed

lemma ogm_node_inv_get:
  "ogm_node_inv bp \<Longrightarrow> hard_iface_get bp i = Some hi \<Longrightarrow> aggr_inv hi"
  by (auto simp: ogm_node_inv_def hard_iface_get_def list_all_iff dest: find_key_SomeD)

lemma ogm_node_inv_cong:
  "bp_hard_ifaces bp' = bp_hard_ifaces bp \<Longrightarrow> bp_bat_v bp' = bp_bat_v bp \<Longrightarrow>
     bp_tvlv_container_list bp' = bp_tvlv_container_list bp \<Longrightarrow> ogm_node_inv bp' = ogm_node_inv bp"
  by (simp add: ogm_node_inv_def)

lemma ogm_node_inv_upd:
  "ogm_node_inv bp \<Longrightarrow> (\<And>hi. hard_iface_get bp i = Some hi \<Longrightarrow> aggr_inv (f hi)) \<Longrightarrow>
     ogm_node_inv (hard_iface_upd i f bp)"
  using list_all_upd_found [of aggr_inv "bp_hard_ifaces bp" "\<lambda>h. hi_ifindex h = i"]
  by (cases "hard_iface_get bp i")
    (auto simp: ogm_node_inv_def hard_iface_upd_def hard_iface_get_def hlist_upd_first_none)

lemma aggr_send_inv:
  assumes "ogm_node_inv bp"
  shows "kret_all ogm_node_inv (batadv_v_ogm_aggr_send k i bp)"
proof (cases "hard_iface_get bp i")
  case (Some hi)
  then obtain bp' where bp': "batadv_v_ogm_aggr_send k i bp = Kret bp'"
      "bp_hard_ifaces bp' = bp_hard_ifaces (hard_iface_upd i (hi_set_aggr [] 0) bp)"
      "bp_bat_v bp' = bp_bat_v bp" "bp_tvlv_container_list bp' = bp_tvlv_container_list bp"
    using aggr_send_cases [of bp i hi k] ogm_node_inv_get [OF assms] by blast
  have "ogm_node_inv (hard_iface_upd i (hi_set_aggr [] 0) bp)"
    using ogm_node_inv_upd [OF assms] aggr_inv_empty by blast
  then show ?thesis
    using bp' ogm_node_inv_cong [OF bp'(2)] by (simp add: hard_iface_upd_def)
qed (simp add: batadv_v_ogm_aggr_send_def assms)

lemma queue_on_if_inv:
  assumes "ogm_node_inv bp" and "aggr_skb_ok skb"
  shows "kret_all ogm_node_inv (batadv_v_ogm_queue_on_if k skb i bp)"
proof (cases "hard_iface_get bp i")
  case (Some hi)
  have inv: "aggr_inv hi" by (rule ogm_node_inv_get [OF assms(1) Some])
  have enq: "kret_all ogm_node_inv (Kret (hard_iface_upd i (aggr_enqueue skb) bp))"
    if "batadv_v_ogm_queue_left skb hi"
    using ogm_node_inv_upd [OF assms(1), of i "aggr_enqueue skb"] aggr_inv_enqueue [OF inv assms(2)]
      Some that by simp
  obtain bp' where bp': "batadv_v_ogm_aggr_send k i bp = Kret bp'"
      "bp_hard_ifaces bp' = bp_hard_ifaces (hard_iface_upd i (hi_set_aggr [] 0) bp)"
    using aggr_send_cases [OF Some inv, of k] by blast
  have g: "hard_iface_get bp' i = Some (hi_set_aggr [] 0 hi)"
    using bp'(2) Some hard_iface_get_upd [of "hi_set_aggr [] 0" i bp i]
    by (simp add: hard_iface_get_def)
  have "ogm_node_inv bp'" using aggr_send_inv [OF assms(1), of k i] bp'(1) by simp
  then have "ogm_node_inv (hard_iface_upd i (aggr_enqueue skb) bp')"
    using g aggr_inv_enqueue [OF aggr_inv_empty assms(2)] by (intro ogm_node_inv_upd) auto
  then show ?thesis
    using Some enq bp' assms ogm_node_inv_cong [of "batadv_v_ogm_send_to_if skb i bp" bp]
    by (simp add: batadv_v_ogm_queue_on_if_def)
qed (simp add: batadv_v_ogm_queue_on_if_def assms)

lemma ogm_broadcast_inv:
  assumes "ogm_node_inv bp" and "aggr_skb_ok skb"
  shows "kret_all ogm_node_inv (ogm_broadcast k skb his bp)"
  using assms(1)
proof (induction his arbitrary: bp)
  case (Cons hi his)
  show ?case
    using Cons.prems Cons.IH kret_all_bind [OF queue_on_if_inv [OF Cons.prems assms(2), of k],
        where f = "ogm_broadcast k skb his" and Q = ogm_node_inv]
    by simp
qed simp

subsection \<open>The receive path\<close>

lemma orig_upd_ifaces [simp]:
  "bp_hard_ifaces (orig_upd k a f bp) = bp_hard_ifaces bp"
  "bp_bat_v (orig_upd k a f bp) = bp_bat_v bp"
  "bp_tvlv_container_list (orig_upd k a f bp) = bp_tvlv_container_list bp"
  by (simp_all add: orig_upd_def Let_def split: option.split)

lemma orig_get_ifaces:
  "batadv_v_ogm_orig_get k bp a = (r, bp') \<Longrightarrow> bp_hard_ifaces bp' = bp_hard_ifaces bp
     \<and> bp_bat_v bp' = bp_bat_v bp \<and> bp_tvlv_container_list bp' = bp_tvlv_container_list bp"
  by (auto simp: batadv_v_ogm_orig_get_def split: option.splits prod.splits if_splits)

lemma orig_get_aggr:
  "batadv_v_ogm_orig_get k bp a = (r, bp') \<Longrightarrow> ogm_node_inv bp' = ogm_node_inv bp"
  by (simp add: ogm_node_inv_def orig_get_ifaces)

lemma orig_upd_aggr [simp]: "ogm_node_inv (orig_upd k a f bp) = ogm_node_inv bp"
  by (simp add: ogm_node_inv_def)

lemma release_neighs_aggr: "ogm_node_inv (release_neighs bp) = ogm_node_inv bp"
proof -
  have "aggr_inv (batadv_hardif_neigh_release b hi) = aggr_inv hi" for b hi
    by (simp add: aggr_inv_def batadv_hardif_neigh_release_def aggr_limit_def)
  then show ?thesis
    by (simp add: release_neighs_def ogm_node_inv_def list_all_iff Let_def split: option.split)
qed

lemma neigh_get_or_create_aggr:
  "batadv_neigh_node_get_or_create k init orig_node hi a = (r, orig_node', hi') \<Longrightarrow>
     aggr_inv hi' = aggr_inv hi"
  by (auto simp: batadv_neigh_node_get_or_create_def batadv_neigh_node_create_def
      batadv_hardif_neigh_get_or_create_def batadv_hardif_neigh_create_def Let_def aggr_inv_def
      aggr_limit_def split: option.splits prod.splits if_splits)

lemma aggr_skb_ok_forward:
  assumes "batadv_v_ogm_len ogm \<le> length ogm"
  shows "aggr_skb_ok (ogm_forward_skb bp ogm cost)"
  using assms
  by (simp add: aggr_skb_ok_def ogm_forward_skb_def Let_def batadv_v_ogm_len_def ogm2_fmt.dec_enc
      ogm2_fmt.length_enc BATADV_OGM2_HLEN_def)

lemma forward_inv:
  assumes "ogm_node_inv bp" and "batadv_v_ogm_len ogm \<le> length ogm"
  shows "kret_all ogm_node_inv (batadv_v_ogm_forward k ogm orig p if_outgoing bp)"
  using assms queue_on_if_inv [where k = k, OF _ aggr_skb_ok_forward [OF assms(2)]]
  by (auto simp: batadv_v_ogm_forward_def Let_def split: option.split prod.split)

lemma route_update_inv:
  "batadv_v_ogm_route_update k h_src orig p if_outgoing bp = (forward, bp') \<Longrightarrow>
     ogm_node_inv bp' = ogm_node_inv bp"
  by (auto simp: batadv_v_ogm_route_update_def Let_def release_neighs_aggr
      dest!: orig_get_aggr split: option.splits prod.splits if_splits)


text \<open>
  The TVLV handlers act on the mesh state through code that is not part of this path
  (translation table, gateway, multicast); what the path needs of them is that they keep
  the queues' invariant.
\<close>

definition handlers_keep :: "(batadv_priv \<Rightarrow> bool) \<Rightarrow> tvlv_handlers \<Rightarrow> bool" where
  "handlers_keep I hs \<longleftrightarrow>
     (\<forall>h \<in> set hs. \<forall>f. ogm_handler h = Some f \<longrightarrow> (\<forall>orig flags val s. I s \<longrightarrow> I (f orig flags val s)))"

lemma containers_process_keep:
  assumes "handlers_keep I hs" and "handlers_inv hs" and "handlers_idle hs"
    and "unat len \<le> length buf" and "I s"
  shows "\<exists>s'. batadv_tvlv_containers_process BATADV_OGM2 (Some orig) skb off buf len hs s =
      (NET_RX_SUCCESS, hs, s') \<and> I s'"
proof -
  let ?items = "tvlv_parse (take (unat len) buf)"
  have "I (foldl (ogm_deliver hs orig) s ?items)"
    using assms(1,5)
    by (intro foldl_keep [where I = I])
      (auto simp: ogm_deliver_def handlers_keep_def batadv_tvlv_handler_get_def
        split: option.split dest!: find_key_SomeD)
  then have "I (foldl (ogm_notify (item_key ` set ?items) (Some orig))
      (foldl (ogm_deliver hs orig) s ?items) hs)"
    by (rule foldl_keep [where I = I, rotated])
      (use assms(1) in \<open>auto simp: ogm_notify_def handlers_keep_def split: option.split\<close>)
  then show ?thesis
    using containers_process_ogm [OF assms(2,3,4), of BATADV_OGM2 orig skb off s] by (simp add: Let_def)
qed

lemma process_per_outif_inv:
  assumes "ogm_node_inv bp" and "batadv_v_ogm_len ogm \<le> length ogm"
  shows "kret_all ogm_node_inv (batadv_v_ogm_process_per_outif k h_src ogm orig p if_in if_out bp)"
  using assms forward_inv [OF _ assms(2), where k = k]
  by (auto simp: batadv_v_ogm_process_per_outif_def Let_def dest: route_update_inv
      split: option.split prod.split)

lemma process_outifs_inv:
  assumes "ogm_node_inv bp" and "batadv_v_ogm_len ogm \<le> length ogm"
  shows "kret_all ogm_node_inv (ogm_process_outifs k h_src ogm orig hn p if_in is bp)"
  using assms(1)
proof (induction "is" arbitrary: bp)
  case (Cons i "is")
  then show ?case
    using kret_all_bind [OF process_per_outif_inv [OF Cons.prems assms(2), of k h_src orig p if_in "Some i"],
        where f = "ogm_process_outifs k h_src ogm orig hn p if_in is" and Q = ogm_node_inv]
    by (auto split: option.split)
qed simp

lemma ogm_process_inv:
  assumes "ogm_node_inv bp" and "batadv_v_ogm_len ogm \<le> length ogm"
    and "handlers_keep ogm_node_inv hs" and "handlers_inv hs" and "handlers_idle hs"
  shows "kret_all (\<lambda>(hs', bp'). hs' = hs \<and> ogm_node_inv bp')
    (batadv_v_ogm_process k init h_src ogm if_in hs bp)"
proof -
  have len: "unat (ogm2_tvlv_len (get_ogm2_packet ogm)) \<le> length (drop BATADV_OGM2_HLEN ogm)"
    using assms(2) by (simp add: batadv_v_ogm_len_def)
  have rest: "kret_all (\<lambda>(hs', bp'). hs' = hs \<and> ogm_node_inv bp')
      (case batadv_v_ogm_process_per_outif k h_src ogm orig p if_in BATADV_IF_DEFAULT bp of
         Kret bp \<Rightarrow> (case ogm_process_outifs k h_src ogm orig hn p if_in (map hi_ifindex (bp_hard_ifaces bp)) bp of
                       Kret bp \<Rightarrow> Kret (hs, bp) | Kernel_bug \<Rightarrow> Kernel_bug)
       | Kernel_bug \<Rightarrow> Kernel_bug)" if "ogm_node_inv bp" for orig p hn bp
    by (intro kret_all_bind [OF process_per_outif_inv] kret_all_bind [OF process_outifs_inv])
      (use that assms(2) in simp_all)
  have tail: "kret_all (\<lambda>(hs', bp'). hs' = hs \<and> ogm_node_inv bp')
      (case batadv_v_ogm_process_per_outif k h_src ogm orig p if_in BATADV_IF_DEFAULT bp' of
         Kernel_bug \<Rightarrow> Kernel_bug
       | Kret bp \<Rightarrow> (case ogm_process_outifs k h_src ogm orig hn p if_in (map hi_ifindex (bp_hard_ifaces bp)) bp of
                       Kernel_bug \<Rightarrow> Kernel_bug | Kret bp \<Rightarrow> Kret (hs', bp)))"
    if res: "batadv_tvlv_containers_process BATADV_OGM2 (Some orig) None BATADV_OGM2_HLEN
        (drop BATADV_OGM2_HLEN ogm) (ogm2_tvlv_len (get_ogm2_packet ogm)) hs bp = (r, hs', bp')"
      and inv: "ogm_node_inv bp" for orig p hn bp r hs' bp'
    using containers_process_keep [OF assms(3-5) len inv, of orig None BATADV_OGM2_HLEN] res rest by auto
  have whole: "\<not> length ogm < BATADV_OGM2_HLEN" "\<not> length ogm < batadv_v_ogm_len ogm"
    using assms(2) by (simp_all add: batadv_v_ogm_len_def)
  show ?thesis
    using assms(1)
    unfolding batadv_v_ogm_process_def Let_def if_not_P [OF whole(1)] if_not_P [OF whole(2)]
    by (auto simp: orig_get_aggr neigh_get_or_create_aggr
        split: option.split prod.split intro!: tail ogm_node_inv_upd intro: ogm_node_inv_get)
qed

lemma recv_loop_inv:
  assumes "ogm_node_inv bp" and "handlers_keep ogm_node_inv hs" and "handlers_inv hs"
    and "handlers_idle hs"
  shows "kret_all (\<lambda>(hs', bp'). hs' = hs \<and> ogm_node_inv bp')
    (ogm_recv_loop env init h_src data if_in off hs bp)"
  using assms
proof (induction env init h_src data if_in off hs bp rule: ogm_recv_loop.induct)
  case (1 env init h_src data if_in off hs bp)
  show ?case
  proof (cases "batadv_v_ogm_aggr_packet off (length data) (drop off data) = Kret True")
    case True
    then have "batadv_v_ogm_len (drop off data) \<le> length (drop off data)"
      by (auto simp: batadv_v_ogm_aggr_packet_def batadv_v_ogm_len_def split: if_splits)
    then obtain bp' where "batadv_v_ogm_process (env off) init h_src (drop off data) if_in hs bp = Kret (hs, bp')"
        "ogm_node_inv bp'"
      using ogm_process_inv [OF "1.prems"(1) _ "1.prems"(2-4), of "drop off data" "env off" init h_src if_in]
      by (auto simp: kret_all_iff)
    then show ?thesis
      using True "1.IH" [OF refl True TrueI, of "(hs, bp')" hs bp'] "1.prems"
      by (subst ogm_recv_loop.simps) (simp add: Let_def)
  next
    case False
    then have "batadv_v_ogm_aggr_packet off (length data) (drop off data) = Kret False"
      by (auto simp: batadv_v_ogm_aggr_packet_def BATADV_OGM2_HLEN_def split: if_splits)
    then show ?thesis using "1.prems" by (subst ogm_recv_loop.simps) simp
  qed
qed

subsection \<open>Aggregate and split\<close>

lemma get_ogm2_take: "20 \<le> n \<Longrightarrow> get_ogm2_packet (take n bs) = get_ogm2_packet bs"
  by (simp add: get_ogm2_packet_def get_be32_def get_be16_def get_mac.simps drop_take)

lemma ogm_len_take: "20 \<le> n \<Longrightarrow> batadv_v_ogm_len (take n bs) = batadv_v_ogm_len bs"
  by (simp add: batadv_v_ogm_len_def get_ogm2_take)

lemma forward_skb_take:
  "ogm_forward_skb bp (take (batadv_v_ogm_len ogm) ogm) cost = ogm_forward_skb bp ogm cost"
  by (simp add: ogm_forward_skb_def Let_def get_ogm2_take batadv_v_ogm_len_def BATADV_OGM2_HLEN_def)

lemma ogm_short_take:
  "length (take (batadv_v_ogm_len ogm) ogm) < batadv_v_ogm_len (take (batadv_v_ogm_len ogm) ogm)
     \<longleftrightarrow> length ogm < batadv_v_ogm_len ogm"
proof -
  have "batadv_v_ogm_len (take (batadv_v_ogm_len ogm) ogm) = batadv_v_ogm_len ogm"
    by (rule ogm_len_take) (simp add: batadv_v_ogm_len_def BATADV_OGM2_HLEN_def)
  then show ?thesis by auto
qed

lemma per_outif_take:
  "batadv_v_ogm_process_per_outif k h_src (take (batadv_v_ogm_len ogm) ogm) orig p if_in if_out bp =
   batadv_v_ogm_process_per_outif k h_src ogm orig p if_in if_out bp"
proof -
  have g: "get_ogm2_packet (take (batadv_v_ogm_len ogm) ogm) = get_ogm2_packet ogm"
    by (simp add: get_ogm2_take batadv_v_ogm_len_def BATADV_OGM2_HLEN_def)
  show ?thesis
    unfolding batadv_v_ogm_process_per_outif_def batadv_v_ogm_forward_def g forward_skb_take ogm_short_take ..
qed

lemma process_outifs_take:
  "ogm_process_outifs k h_src (take (batadv_v_ogm_len ogm) ogm) orig hn p if_in is bp =
   ogm_process_outifs k h_src ogm orig hn p if_in is bp"
  by (induction "is" arbitrary: bp) (simp_all add: per_outif_take cong: option.case_cong kresult.case_cong if_cong)

text \<open>Processing an OGM depends on nothing behind it.\<close>

lemma ogm_process_take:
  assumes "batadv_v_ogm_len ogm \<le> length ogm"
  shows "batadv_v_ogm_process k init h_src (take (batadv_v_ogm_len ogm) ogm) if_in hs bp =
         batadv_v_ogm_process k init h_src ogm if_in hs bp"
proof -
  let ?ogm = "take (batadv_v_ogm_len ogm) ogm"
  have g: "get_ogm2_packet ?ogm = get_ogm2_packet ogm"
    by (simp add: get_ogm2_take batadv_v_ogm_len_def BATADV_OGM2_HLEN_def)
  have t: "batadv_tvlv_containers_process BATADV_OGM2 orig None n (drop BATADV_OGM2_HLEN ?ogm)
        (ogm2_tvlv_len (get_ogm2_packet ogm)) hs bp =
      batadv_tvlv_containers_process BATADV_OGM2 orig None n (drop BATADV_OGM2_HLEN ogm)
        (ogm2_tvlv_len (get_ogm2_packet ogm)) hs bp" for orig n hs bp
    using assms by (simp add: batadv_tvlv_containers_process_def tvlv_process_loop_parse
        batadv_v_ogm_len_def drop_take)
  have h: "length ?ogm < BATADV_OGM2_HLEN \<longleftrightarrow> length ogm < BATADV_OGM2_HLEN"
    by (auto simp: batadv_v_ogm_len_def)
  show ?thesis
    unfolding batadv_v_ogm_process_def Let_def g t h ogm_short_take per_outif_take process_outifs_take ..
qed

text \<open>The OGMs of an aggregate, processed one by one, each on its own.\<close>

fun ogm_recv_each ::
    "(nat \<Rightarrow> kenv) \<Rightarrow> (batadv_hardif_neigh_node \<Rightarrow> batadv_hardif_neigh_node) option \<Rightarrow> mac \<Rightarrow> ifindex
      \<Rightarrow> nat \<Rightarrow> bytes list \<Rightarrow> tvlv_handlers \<Rightarrow> batadv_priv \<Rightarrow> (tvlv_handlers \<times> batadv_priv) kresult" where
  "ogm_recv_each env hardif_init h_src if_incoming off [] hs bp = Kret (hs, bp)"
| "ogm_recv_each env hardif_init h_src if_incoming off (ogm # ogms) hs bp =
     (case batadv_v_ogm_process (env off) hardif_init h_src ogm if_incoming hs bp of
        Kernel_bug \<Rightarrow> Kernel_bug
      | Kret (hs, bp) \<Rightarrow>
          ogm_recv_each env hardif_init h_src if_incoming (off + length ogm) ogms hs bp)"

lemma recv_loop_split:
  assumes "list_all aggr_skb_ok ogms"
  shows "ogm_recv_loop env init h_src (pre @ concat ogms) if_in (length pre) hs bp =
         ogm_recv_each env init h_src if_in (length pre) ogms hs bp"
  using assms
proof (induction ogms arbitrary: pre hs bp)
  case Nil
  then show ?case
    by (subst ogm_recv_loop.simps) (simp add: batadv_v_ogm_aggr_packet_def BATADV_OGM2_HLEN_def)
next
  case (Cons ogm ogms)
  let ?m = "ogm @ concat ogms"
  have ok: "batadv_v_ogm_len ogm = length ogm" "20 \<le> length ogm"
    using Cons.prems aggr_skb_ok_bounds [of ogm] by (auto simp: aggr_skb_ok_def)
  have g: "get_ogm2_packet ?m = get_ogm2_packet ogm"
    using get_ogm2_take [of "length ogm" ?m] ok(2) by simp
  then have len: "batadv_v_ogm_len ?m = length ogm" using ok(1) by (simp add: batadv_v_ogm_len_def)
  have p: "batadv_v_ogm_process (env (length pre)) init h_src ?m if_in hs bp =
      batadv_v_ogm_process (env (length pre)) init h_src ogm if_in hs bp"
    using ogm_process_take [of ?m "env (length pre)" init h_src if_in hs bp] by (simp add: len)
  have next_off: "length pre + BATADV_OGM2_HLEN + unat (ogm2_tvlv_len (get_ogm2_packet ?m)) = length (pre @ ogm)"
    using len by (simp add: batadv_v_ogm_len_def)
  have a: "batadv_v_ogm_aggr_packet (length pre) (length (pre @ ?m)) ?m = Kret True"
    using next_off ok(2) by (auto simp: batadv_v_ogm_aggr_packet_def BATADV_OGM2_HLEN_def)
  have "ogm_recv_loop env init h_src (pre @ ?m) if_in (length pre) hs bp =
      (case batadv_v_ogm_process (env (length pre)) init h_src ogm if_in hs bp of
         Kernel_bug \<Rightarrow> Kernel_bug
       | Kret (hs, bp) \<Rightarrow> ogm_recv_loop env init h_src (pre @ ?m) if_in (length (pre @ ogm)) hs bp)"
    using a p next_off by (subst ogm_recv_loop.simps) (simp add: Let_def add.assoc split: kresult.split)
  then show ?case
    using Cons.IH [of "pre @ ogm"] Cons.prems by (simp cong: kresult.case_cong)
qed


subsection \<open>The own OGM\<close>

lemma start_timer_pending:
  "ogm_wq_pending (bp_bat_v (batadv_v_ogm_start_timer random_below bp))"
  by (simp add: batadv_v_ogm_start_timer_def ext_call_def Let_def)

lemma ext_call_aggr [simp]: "ogm_node_inv (ext_call c bp) = ogm_node_inv bp"
  by (simp add: ogm_node_inv_def)

lemma add_counter_aggr [simp]: "ogm_node_inv (batadv_add_counter c n bp) = ogm_node_inv bp"
  by (simp add: ogm_node_inv_def)

lemma start_timer_inv [simp]:
  "ogm_node_inv (batadv_v_ogm_start_timer random_below bp) = ogm_node_inv bp"
  by (simp add: batadv_v_ogm_start_timer_def Let_def ogm_node_inv_def ext_call_def)

lemma queue_on_if_bat_v:
  "batadv_v_ogm_queue_on_if k skb i bp = Kret bp' \<Longrightarrow> bp_bat_v bp' = bp_bat_v bp"
  by (auto simp: batadv_v_ogm_queue_on_if_def batadv_v_ogm_aggr_send_def Let_def hard_iface_upd_def
      batadv_v_ogm_send_to_if_def ext_call_def batadv_add_counter_def
      split: option.splits if_splits kresult.splits prod.splits)

lemma ogm_broadcast_bat_v:
  "ogm_broadcast k skb his bp = Kret bp' \<Longrightarrow> bp_bat_v bp' = bp_bat_v bp"
  by (induction his arbitrary: bp)
    (auto split: if_splits kresult.splits dest: queue_on_if_bat_v)

text \<open>
  What the worker of the own OGM asks of \<^verbatim>\<open>batadv_tt_local_commit_changes\<close>, which registers
  the translation table's container: the list of containers stays well formed, and the
  interfaces and the OGM buffer are none of its business.
\<close>

definition tt_commit_ok :: "(batadv_priv \<Rightarrow> batadv_priv) \<Rightarrow> bool" where
  "tt_commit_ok tt_commit \<longleftrightarrow>
     (\<forall>b. bp_bat_v (tt_commit b) = bp_bat_v b \<and> bp_hard_ifaces (tt_commit b) = bp_hard_ifaces b
          \<and> (containers_inv (bp_tvlv_container_list b) \<longrightarrow>
                containers_inv (bp_tvlv_container_list (tt_commit b))))"

lemma register_inv:
  assumes "containers_inv cl" and "length v = unat len"
  shows "containers_inv (batadv_tvlv_container_register alloc type version (Some v) len cl)"
proof (cases alloc)
  case True
  have "container_store (type, version) v cl = batadv_tvlv_container_register True type version (Some v) len cl"
    using assms(2) unat_less_u16 [of len] by (simp add: container_store_def flip: assms(2))
      (simp add: assms(2))
  then show ?thesis using containers.inv_store [OF assms(1)] True by metis
qed (simp add: batadv_tvlv_container_register_def assms(1) Let_def)

lemma register_bytes:
  "length (containers_bytes (batadv_tvlv_container_register alloc type version (Some v) len cl))
     \<le> 4 + unat len + length (containers_bytes cl)"
proof -
  have "length (containers_bytes (hlist_del_first P xs)) \<le> length (containers_bytes xs)" for P xs
    by (induction xs) simp_all
  then show ?thesis
    by (cases alloc) (simp_all add: container_register_unfold container_bytes_def tvlv_fmt.length_enc
        batadv_tvlv_container_register_def [where kzalloc_ok = False] Let_def add_mono)
qed

lemma own_send_keeps:
  assumes "bp_mesh_state bp \<noteq> BATADV_MESH_DEACTIVATING" and "ogm_node_inv bp"
    and "ogm_buff (bp_bat_v bp) \<noteq> None" and "tt_commit_ok tt_commit"
    and "length (containers_bytes (bp_tvlv_container_list
           (tt_commit (bp\<lparr>bp_bat_v := (bp_bat_v bp)\<lparr>ogm_wq_pending := False\<rparr>\<rparr>)))) + 7 < 2 ^ 16"
    and "kmalloc_ok kmalloc" and "\<forall>n. kmalloc n \<noteq> None"
  shows "\<exists>bp'. batadv_v_ogm_send k kmalloc random_below tt_commit bp = Kret bp'
    \<and> ogm_wq_pending (bp_bat_v bp') \<and> ogm_node_inv bp'
    \<and> ogm_seqno (bp_bat_v bp') = ogm_seqno (bp_bat_v bp) + (if kalloc_ok k (Alloc_skb None) then 1 else 0)"
proof -
  obtain buff where buff: "ogm_buff (bp_bat_v bp) = Some buff" "20 \<le> length buff"
    using assms(2,3) by (auto simp: ogm_node_inv_def)
  define b0 where "b0 = tt_commit (bp\<lparr>bp_bat_v := (bp_bat_v bp)\<lparr>ogm_wq_pending := False\<rparr>\<rparr>)"
  define cl where "cl = batadv_tvlv_container_register (kalloc_ok k Alloc_tvlv_container)
      BATADV_TVLV_NODE_WEIGHT 1
      (Some (node_weight_bytes (own_weight_tvlv b0))) 3 (bp_tvlv_container_list b0)"
  have b0: "bp_bat_v b0 = (bp_bat_v bp)\<lparr>ogm_wq_pending := False\<rparr>" "bp_hard_ifaces b0 = bp_hard_ifaces bp"
      "containers_inv (bp_tvlv_container_list b0)"
    using assms(2,4) by (simp_all add: b0_def tt_commit_ok_def ogm_node_inv_def)
  have inv: "containers_inv cl"
    unfolding cl_def by (rule register_inv [OF b0(3)]) (simp add: node_weight_bytes_def)
  then have wf: "list_all container_wf cl" by (simp add: containers_inv_def)
  have fits: "length (containers_bytes cl) < 2 ^ 16"
    using assms(5) register_bytes [of "kalloc_ok k Alloc_tvlv_container" BATADV_TVLV_NODE_WEIGHT 1
        "node_weight_bytes (own_weight_tvlv b0)" 3 "bp_tvlv_container_list b0"]
    by (simp add: cl_def b0_def [symmetric])
  define tl where "tl = (of_nat (length (containers_bytes cl)) :: u16)"
  define nb where "nb = take 20 buff @ containers_bytes cl"
  have app: "batadv_tvlv_container_ogm_append kmalloc cl buff 20 = Kret (tl, nb)"
    using ogm_append_cases [OF assms(6) wf buff(2)] assms(7) fits by (auto simp: Let_def tl_def nb_def)
  have utl: "unat tl = length (containers_bytes cl)" unfolding tl_def by (rule unat_of_nat_u16 [OF fits])
  define b1 where "b1 = b0\<lparr>bp_tvlv_container_list := cl, bp_bat_v := (bp_bat_v b0)\<lparr>ogm_buff := Some nb, ogm_buff_len := length nb\<rparr>\<rparr>"
  define skb where "skb = ogm2_packet_bytes ((get_ogm2_packet nb)\<lparr>ogm2_seqno := ogm_seqno (bp_bat_v b1),
      ogm2_tvlv_len := tl\<rparr>) @ drop 20 nb"
  define b2 where "b2 = b1\<lparr>bp_bat_v := (bp_bat_v b1)\<lparr>ogm_seqno := ogm_seqno (bp_bat_v b1) + 1\<rparr>\<rparr>"
  have inv1: "ogm_node_inv b1" "ogm_node_inv b2"
    using assms(2) b0 buff(2) inv by (simp_all add: ogm_node_inv_def b1_def b2_def nb_def)
  have ok: "aggr_skb_ok skb"
    using buff(2) utl by (simp add: aggr_skb_ok_def skb_def batadv_v_ogm_len_def ogm2_fmt.dec_enc
        ogm2_fmt.length_enc BATADV_OGM2_HLEN_def nb_def)
  obtain b3 where b3: "ogm_broadcast k skb (bp_hard_ifaces b1) b2 = Kret b3" "ogm_node_inv b3"
    using ogm_broadcast_inv [OF inv1(2) ok, of k "bp_hard_ifaces b1"] by (auto simp: kret_all_iff)
  have timer: "ogm_wq_pending (bp_bat_v (batadv_v_ogm_start_timer random_below b))"
    "ogm_node_inv (batadv_v_ogm_start_timer random_below b) = ogm_node_inv b"
    "ogm_seqno (bp_bat_v (batadv_v_ogm_start_timer random_below b)) = ogm_seqno (bp_bat_v b)" for b
    by (simp_all add: start_timer_pending start_timer_inv)
      (simp add: batadv_v_ogm_start_timer_def Let_def ext_call_def)
  have "batadv_v_ogm_send k kmalloc random_below tt_commit bp =
      (if kalloc_ok k (Alloc_skb None) then Kret (batadv_v_ogm_start_timer random_below b3)
       else Kret (batadv_v_ogm_start_timer random_below b1))"
    using assms(1) buff(1) app b0(1) b3(1)
    by (simp add: batadv_v_ogm_send_def batadv_v_ogm_send_meshif_def Let_def BATADV_OGM2_HLEN_def
        b0_def [symmetric] cl_def [symmetric] b1_def b2_def skb_def)
  moreover have "ogm_seqno (bp_bat_v b3) = ogm_seqno (bp_bat_v bp) + 1" "ogm_seqno (bp_bat_v b1) = ogm_seqno (bp_bat_v bp)"
    using ogm_broadcast_bat_v [OF b3(1)] b0 by (simp_all add: b2_def b1_def)
  ultimately show ?thesis using timer b3(2) inv1(1) by simp
qed

text \<open>
  Everything that happens to a B.A.T.M.A.N. V node, each step by the code's own operations: the
  worker sends the own OGM, an interface's queue is flushed, an interface is disabled or
  enabled, the primary address changes, frames with whatever bytes are received (and the OGMs
  in them forwarded). The own OGM is sent with its buffer allocated and its containers within
  the 16 bit length; \<open>own_ogm_overread\<close> below shows what a failed allocation does.
\<close>

inductive ogm_step :: "tvlv_handlers \<Rightarrow> batadv_priv \<Rightarrow> batadv_priv \<Rightarrow> bool" for hs where
  step_send: "tt_commit_ok tt_commit \<Longrightarrow> kmalloc_ok kmalloc \<Longrightarrow> \<forall>n. kmalloc n \<noteq> None \<Longrightarrow>
    length (containers_bytes (bp_tvlv_container_list
      (tt_commit (bp\<lparr>bp_bat_v := (bp_bat_v bp)\<lparr>ogm_wq_pending := False\<rparr>\<rparr>)))) + 7 < 2 ^ 16 \<Longrightarrow>
    batadv_v_ogm_send (k :: kenv) kmalloc random_below tt_commit bp = Kret bp' \<Longrightarrow> ogm_step hs bp bp'"
| step_flush: "batadv_v_ogm_aggr_work (k :: kenv) random_below i bp = Kret bp' \<Longrightarrow> ogm_step hs bp bp'"
| step_enable: "ogm_step hs bp (snd (batadv_v_ogm_iface_enable random_below i bp))"
| step_disable: "ogm_step hs bp (hard_iface_upd i batadv_v_ogm_iface_disable bp)"
| step_primary: "ogm_step hs bp (batadv_v_ogm_primary_iface_set primary_addr bp)"
| step_recv: "batadv_v_ogm_packet_recv env (e :: skb_env) init skb if_in hs bp = Kret (r, hs', bp') \<Longrightarrow>
    ogm_step hs bp bp'"

lemma packet_recv_inv:
  assumes "ogm_node_inv bp" and "handlers_keep ogm_node_inv hs" and "handlers_inv hs"
    and "handlers_idle hs"
  shows "kret_all (\<lambda>(r, hs', bp'). hs' = hs \<and> ogm_node_inv bp')
    (batadv_v_ogm_packet_recv env e init skb if_in hs bp)"
  using assms recv_loop_inv [OF _ assms(2-4), of "batadv_add_counter BATADV_CNT_MGMT_RX_BYTES
      (ucast (skb_len skb + of_nat ETH_HLEN)) (batadv_add_counter BATADV_CNT_MGMT_RX 1 bp)"
      env init "h_source skb" "skb_data skb" if_in 0]
  by (auto simp: batadv_v_ogm_packet_recv_def Let_def kret_all_iff)

lemma ogm_step_inv:
  assumes "ogm_step hs bp bp'" and "ogm_node_inv bp"
    and "handlers_keep ogm_node_inv hs" and "handlers_inv hs" and "handlers_idle hs"
  shows "ogm_node_inv bp'"
  using assms
proof (induction rule: ogm_step.induct)
  case (step_send tt_commit kmalloc bp k random_below bp')
  show ?case
  proof (cases "bp_mesh_state bp = BATADV_MESH_DEACTIVATING")
    case True
    then have "bp' = bp\<lparr>bp_bat_v := (bp_bat_v bp)\<lparr>ogm_wq_pending := False\<rparr>\<rparr>"
      using step_send(5) by (simp add: batadv_v_ogm_send_def batadv_v_ogm_send_meshif_def)
    then show ?thesis using step_send(6) by (simp add: ogm_node_inv_def)
  next
    case False
    have "bp_bat_v (tt_commit b) = bp_bat_v b" for b using step_send(1) by (simp add: tt_commit_ok_def)
    then have "ogm_buff (bp_bat_v bp) = None \<Longrightarrow>
        batadv_v_ogm_send k kmalloc random_below tt_commit bp = Kernel_bug"
      using False by (simp add: batadv_v_ogm_send_def batadv_v_ogm_send_meshif_def Let_def)
    then have "ogm_buff (bp_bat_v bp) \<noteq> None" using step_send(5) by auto
    then show ?thesis
      using own_send_keeps [OF False step_send(6) _ step_send(1,4,2,3), of k random_below] step_send(5)
      by auto
  qed
next
  case (step_flush k random_below i bp bp')
  then show ?case
    using aggr_send_inv [of bp k i]
    by (auto simp: batadv_v_ogm_aggr_work_def batadv_v_ogm_start_queue_timer_def Let_def kret_all_iff)
next
  case (step_enable bp random_below i)
  then show ?case
    by (simp add: batadv_v_ogm_iface_enable_def batadv_v_ogm_start_queue_timer_def Let_def)
next
  case (step_primary bp primary_addr)
  then show ?case
    by (auto simp: batadv_v_ogm_primary_iface_set_def ogm_node_inv_def ogm2_fmt.length_enc
        split: option.split)
next
  case (step_disable bp i)
  then show ?case
    by (intro ogm_node_inv_upd)
      (simp_all add: batadv_v_ogm_iface_disable_def batadv_v_ogm_aggr_list_free_def aggr_inv_empty)
next
  case (step_recv env e init skb if_in bp r hs' bp')
  then show ?case using packet_recv_inv [of bp hs env e init skb if_in] by simp
qed

lemma ogm_steps_inv:
  assumes "(ogm_step hs)\<^sup>*\<^sup>* bp bp'" and "ogm_node_inv bp"
    and "handlers_keep ogm_node_inv hs" and "handlers_inv hs" and "handlers_idle hs"
  shows "ogm_node_inv bp'"
  using assms(1,2) by (induction rule: rtranclp_induct) (auto intro: ogm_step_inv [OF _ _ assms(3-5)])

subsection \<open>Metric and route\<close>

lemma neigh_upd_all:
  "on_neigh_list (neigh_upd p f orig_node) @ on_neigh_unlinked (neigh_upd p f orig_node) =
     hlist_upd_first (\<lambda>n. nn_ptr n = p) f (on_neigh_list orig_node @ on_neigh_unlinked orig_node)"
  by (simp add: neigh_upd_def hlist_upd_first_append)

lemma neigh_deref_upd:
  "neigh_deref orig_node p = Some n \<Longrightarrow> (\<And>n. nn_ptr n = p \<Longrightarrow> nn_ptr (f n) = p) \<Longrightarrow>
     neigh_deref (neigh_upd p f orig_node) p = Some (f n)"
  unfolding neigh_deref_def neigh_upd_all by (subst find_upd_found) simp_all

lemma neigh_deref_map:
  "(\<And>n. nn_ptr (f n) = nn_ptr n) \<Longrightarrow>
     neigh_deref (neigh_upd p f orig_node) p = map_option f (neigh_deref orig_node p)"
  unfolding neigh_deref_def neigh_upd_all by (subst find_key_upd_first) simp_all

lemma neigh_deref_last_seen [simp]: "neigh_deref (orig_node\<lparr>on_last_seen := t\<rparr>) p = neigh_deref orig_node p"
  by (simp add: neigh_deref_def)

lemma neigh_upd_simps [simp]:
  "on_ifinfo_list (neigh_upd p f orig_node) = on_ifinfo_list orig_node"
  "on_orig (neigh_upd p f orig_node) = on_orig orig_node"
  "on_last_seen (neigh_upd p f orig_node) = on_last_seen orig_node"
  by (simp_all add: neigh_upd_def)

lemma orig_ifinfo_upd_simps [simp]:
  "on_orig (orig_ifinfo_upd i f orig_node) = on_orig orig_node"
  "on_neigh_list (orig_ifinfo_upd i f orig_node) = on_neigh_list orig_node"
  "on_last_seen (orig_ifinfo_upd i f orig_node) = on_last_seen orig_node"
  "neigh_deref (orig_ifinfo_upd i f orig_node) p = neigh_deref orig_node p"
  by (simp_all add: orig_ifinfo_upd_def neigh_deref_def)

lemma orig_ifinfo_new_get:
  "batadv_orig_ifinfo_new k orig_node i = (Some oi, orig_node') \<Longrightarrow>
     batadv_orig_ifinfo_get orig_node' i = Some oi \<and> on_orig orig_node' = on_orig orig_node
     \<and> neigh_deref orig_node' p = neigh_deref orig_node p"
  by (auto simp: batadv_orig_ifinfo_new_def batadv_orig_ifinfo_get_def Let_def neigh_deref_def
      split: option.splits if_splits)

lemma neigh_ifinfo_new_get:
  "batadv_neigh_ifinfo_new k n i = (Some ni, n') \<Longrightarrow>
     batadv_neigh_ifinfo_get n' i = Some ni \<and> nn_ptr n' = nn_ptr n \<and> nn_addr n' = nn_addr n"
  by (auto simp: batadv_neigh_ifinfo_new_def batadv_neigh_ifinfo_get_def Let_def neigh_ifinfo_zero_def
      split: option.splits if_splits)

lemma ifinfo_get_upd:
  "(\<And>i. oi_if_outgoing (f i) = oi_if_outgoing i) \<Longrightarrow>
     batadv_orig_ifinfo_get (orig_ifinfo_upd i f orig_node) i =
       map_option f (batadv_orig_ifinfo_get orig_node i)"
  by (simp add: batadv_orig_ifinfo_get_def orig_ifinfo_upd_def find_key_upd_first)

lemma neigh_ifinfo_get_upd:
  "(\<And>i. ni_if_outgoing (f i) = ni_if_outgoing i) \<Longrightarrow>
     batadv_neigh_ifinfo_get (neigh_ifinfo_upd i f n) i =
       map_option f (batadv_neigh_ifinfo_get n i)"
  by (simp add: batadv_neigh_ifinfo_get_def neigh_ifinfo_upd_def find_key_upd_first)

lemma neigh_ifinfo_upd_simps [simp]:
  "nn_ptr (neigh_ifinfo_upd i f n) = nn_ptr n" "nn_addr (neigh_ifinfo_upd i f n) = nn_addr n"
  by (simp_all add: neigh_ifinfo_upd_def)

lemma path_airtime_saturates:
  "unat (ogm_path_airtime a b) = min (unat a + unat b) (2 ^ 32 - 1)"
proof -
  have "unat a < 2 ^ 32" "unat b < 2 ^ 32" using unsigned_less [of a] unsigned_less [of b] by simp_all
  then show ?thesis
    by (simp add: ogm_path_airtime_def Let_def word_less_nat_alt unat_word_ariths
        BATADV_AIRTIME_MAX_VALUE_def min_def) (auto simp: mod_if split: if_splits)
qed


text \<open>What a successful metric update leaves behind.\<close>

lemma metric_update_effect:
  assumes "batadv_v_ogm_metric_update k bp ogm2 p if_in if_out orig_node = (age, orig_node')" and "0 \<le> age"
  obtains n ni oi where "neigh_deref orig_node p \<noteq> None"
    "neigh_deref orig_node' p = Some n" "batadv_neigh_ifinfo_get n if_out = Some ni"
    "ni_airtime_cost (ni_bat_v ni) = batadv_v_forward_penalty bp if_in if_out
       (ogm_path_airtime (ogm2_throughput ogm2) (link_airtime bp if_in (nn_addr n)))"
    "ni_last_seqno (ni_bat_v ni) = ogm2_seqno ogm2"
    "batadv_orig_ifinfo_get orig_node' if_out = Some oi"
    "oi_last_real_seqno oi = ogm2_seqno ogm2" "on_last_seen orig_node' = jiffies k"
    "on_orig orig_node' = on_orig orig_node"
    "nn_orig_node n = nn_orig_node (the (neigh_deref orig_node p))"
proof -
  obtain oi0 o1 where o1: "batadv_orig_ifinfo_new k orig_node if_out = (Some oi0, o1)"
    using assms by (auto simp: batadv_v_ogm_metric_update_def EINVAL_def split: option.splits prod.splits)
  obtain prot reset started where w: "(if on_neigh_list o1 \<noteq> []
                 then batadv_window_protected k (s32 (ogm2_seqno ogm2 - oi_last_real_seqno oi0))
                        BATADV_OGM_MAX_AGE (oi_batman_seqno_reset oi0)
                 else (False, oi_batman_seqno_reset oi0, False)) = (prot, reset, started)"
    using prod_cases3 by blast
  define o2 where "o2 = orig_ifinfo_upd if_out (\<lambda>i. i\<lparr>oi_batman_seqno_reset := reset\<rparr>) o1"
  define o3 where "o3 = orig_ifinfo_upd if_out
      (\<lambda>i. i\<lparr>oi_last_real_seqno := ogm2_seqno ogm2, oi_last_ttl := ogm2_ttl ogm2\<rparr>)
      ((neigh_upd p (\<lambda>n. n\<lparr>nn_last_seen := jiffies k\<rparr>) o2)\<lparr>on_last_seen := jiffies k\<rparr>)"
  obtain n1 n2 ni0 where n1: "neigh_deref o3 p = Some n1"
      and n2: "batadv_neigh_ifinfo_new k n1 if_out = (Some ni0, n2)"
      and res: "orig_node' = neigh_upd p (\<lambda>_. neigh_ifinfo_upd if_out
          (\<lambda>i. i\<lparr>ni_bat_v := \<lparr>ni_airtime_cost = batadv_v_forward_penalty bp if_in if_out
               (ogm_path_airtime (ogm2_throughput ogm2) (link_airtime bp if_in (nn_addr n2))),
             ni_last_seqno = ogm2_seqno ogm2\<rparr>, ni_last_ttl := ogm2_ttl ogm2\<rparr>) n2) o3"
    using assms o1 w
    by (auto simp: batadv_v_ogm_metric_update_def Let_def EINVAL_def o2_def o3_def
        split: option.splits prod.splits if_splits)
  have ptr: "nn_ptr n2 = p"
    using neigh_deref_ptr [OF n1] neigh_ifinfo_new_get [OF n2] by simp
  have "neigh_deref o1 p \<noteq> None"
    using n1 by (auto simp: o3_def o2_def neigh_deref_map)
  then have "neigh_deref orig_node p \<noteq> None" using orig_ifinfo_new_get [OF o1] by simp
  moreover have "nn_orig_node n2 = nn_orig_node (the (neigh_deref orig_node p))"
    using n1 n2 orig_ifinfo_new_get [OF o1]
    by (auto simp: o3_def o2_def neigh_deref_map batadv_neigh_ifinfo_new_def Let_def
        split: option.splits if_splits)
  moreover have "neigh_deref orig_node' p = Some (neigh_ifinfo_upd if_out
          (\<lambda>i. i\<lparr>ni_bat_v := \<lparr>ni_airtime_cost = batadv_v_forward_penalty bp if_in if_out
               (ogm_path_airtime (ogm2_throughput ogm2) (link_airtime bp if_in (nn_addr n2))),
             ni_last_seqno = ogm2_seqno ogm2\<rparr>, ni_last_ttl := ogm2_ttl ogm2\<rparr>) n2)"
    unfolding res by (rule neigh_deref_upd [OF n1]) (simp add: neigh_ifinfo_upd_def ptr)
  moreover have "batadv_orig_ifinfo_get orig_node' if_out \<noteq> None
      \<and> oi_last_real_seqno (the (batadv_orig_ifinfo_get orig_node' if_out)) = ogm2_seqno ogm2"
    using orig_ifinfo_new_get [OF o1]
    by (simp add: res o3_def o2_def batadv_orig_ifinfo_get_def orig_ifinfo_upd_def find_key_upd_first)
  moreover have "on_last_seen orig_node' = jiffies k" "on_orig orig_node' = on_orig orig_node"
    using orig_ifinfo_new_get [OF o1] by (simp_all add: res o3_def o2_def)
  ultimately show ?thesis
    using that neigh_ifinfo_new_get [OF n2]
    by (force simp: neigh_ifinfo_get_upd neigh_ifinfo_upd_def [THEN arg_cong [where f = nn_orig_node]])
qed

text \<open>Writing back a whole originator.\<close>

lemma orig_upd_const:
  assumes "orig_table_ok k bp" and "on_orig orig_node = a"
  shows "orig_table_ok k (orig_upd k a (\<lambda>_. orig_node) bp)"
    and "batadv_orig_hash_find k (orig_upd k a (\<lambda>_. orig_node) bp) =
           (batadv_orig_hash_find k bp)(a := map_option (\<lambda>_. orig_node) (batadv_orig_hash_find k bp a))"
proof -
  let ?f = "\<lambda>x. if on_orig x = a then orig_node else x"
  have e: "orig_upd k a (\<lambda>_. orig_node) bp = orig_upd k a ?f bp"
    using hlist_upd_first_cong [of "\<lambda>x. on_orig x = a" "\<lambda>_. orig_node" ?f]
    by (simp add: orig_upd_def Let_def split: option.split)
  have f: "on_orig (?f x) = on_orig x" for x using assms(2) by simp
  show "orig_table_ok k (orig_upd k a (\<lambda>_. orig_node) bp)"
    unfolding e by (rule orig_upd_find(1) [OF assms(1) f])
  show "batadv_orig_hash_find k (orig_upd k a (\<lambda>_. orig_node) bp) =
      (batadv_orig_hash_find k bp)(a := map_option (\<lambda>_. orig_node) (batadv_orig_hash_find k bp a))"
    unfolding e orig_upd_find(2) [OF assms(1) f]
    by (rule ext) (auto simp: option.map_comp dest: orig_hash_find_SomeD intro!: option.map_cong0
        split: option.splits cong: option.map_cong)
qed

lemma router_get_release [simp]:
  "batadv_orig_router_get (batadv_neigh_node_release o1) i = batadv_orig_router_get o1 i"
  by (simp add: batadv_orig_router_get_def)

lemma update_route_orig [simp]: "on_orig (fst (batadv_update_route o1 i np)) = on_orig o1"
  by (auto simp: batadv_update_route_def set_route_def orig_ifinfo_upd_def Let_def split: option.splits)

text \<open>The route update, whole.\<close>

lemma route_update_cases:
  assumes "orig_table_ok k bp" and "batadv_orig_hash_find k bp orig = Some o1"
    and "batadv_v_ogm_route_update k h_src orig p i bp = (forward, bp')"
  obtains o2 where "orig_table_ok k bp'" "batadv_orig_hash_find k bp' orig = Some o2"
    "batadv_orig_router_get o2 i =
       (if forward \<and> batadv_orig_ifinfo_get o1 i \<noteq> None
           \<and> (case batadv_orig_router_get o1 i of None \<Rightarrow> True | Some rp \<Rightarrow> rp \<noteq> p \<and> ogm_switch o1 i rp p)
        then Some p else batadv_orig_router_get o1 i)"
proof -
  obtain r bp1 where g: "batadv_v_ogm_orig_get k bp h_src = (r, bp1)" by fastforce
  have ok1: "orig_table_ok k bp1" and f1: "batadv_orig_hash_find k bp1 orig = Some o1"
    using orig_get_cases [OF assms(1) g] assms(2) by (auto split: option.splits)
  have upd: "orig_table_ok k (release_neighs (orig_upd k orig (\<lambda>o1. fst (batadv_update_route o1 i (Some p))) bp1))"
      "batadv_orig_hash_find k (release_neighs (orig_upd k orig (\<lambda>o1. fst (batadv_update_route o1 i (Some p))) bp1)) orig =
        Some (batadv_neigh_node_release (fst (batadv_update_route o1 i (Some p))))"
    using orig_upd_find [OF ok1, of "\<lambda>o1. fst (batadv_update_route o1 i (Some p))" orig] f1
      release_neighs_find [where k = k] by simp_all
  show ?thesis
  proof (cases "forward \<and> batadv_orig_router_get o1 i \<noteq> Some p
      \<and> (case batadv_orig_router_get o1 i of None \<Rightarrow> True | Some rp \<Rightarrow> ogm_switch o1 i rp p)")
    case True
    then have "bp' = release_neighs (orig_upd k orig (\<lambda>o1. fst (batadv_update_route o1 i (Some p))) bp1)"
      using assms(3) f1 by (auto simp: batadv_v_ogm_route_update_def g Let_def split: option.splits if_splits)
    then show ?thesis
      using upd True that by (auto simp: router_get_update_route split: option.splits)
  next
    case False
    then have "bp' = bp1"
      using assms(3) f1 by (auto simp: batadv_v_ogm_route_update_def g Let_def split: option.splits if_splits)
    then show ?thesis using False ok1 f1 that by (auto split: option.splits)
  qed
qed

subsection \<open>Forwarding\<close>

lemma aggr_send_hash: "batadv_v_ogm_aggr_send k i bp = Kret bp' \<Longrightarrow> bp_orig_hash bp' = bp_orig_hash bp"
  by (auto simp: batadv_v_ogm_aggr_send_def Let_def hard_iface_upd_def
      split: option.splits if_splits kresult.splits prod.splits)

lemma queue_on_if_hash:
  "batadv_v_ogm_queue_on_if k skb i bp = Kret bp' \<Longrightarrow> bp_orig_hash bp' = bp_orig_hash bp"
  by (auto simp: batadv_v_ogm_queue_on_if_def hard_iface_upd_def dest: aggr_send_hash
      split: option.splits if_splits kresult.splits)

lemma orig_hash_find_cong:
  "bp_orig_hash bp' = bp_orig_hash bp \<Longrightarrow> jhash k' = jhash k \<Longrightarrow>
     batadv_orig_hash_find k' bp' = batadv_orig_hash_find k bp"
  by (rule ext) (simp add: batadv_orig_hash_find_def split: option.split)

lemma orig_upd_calls [simp]: "bp_calls (orig_upd k a f bp) = bp_calls bp"
  by (simp add: orig_upd_def Let_def split: option.split)

text \<open>What is visible outside of the node: frames sent and frames queued.\<close>

definition ogm_output :: "batadv_priv \<Rightarrow> ext_call list \<times> batadv_hard_iface list" where
  "ogm_output bp = (bp_calls bp, bp_hard_ifaces bp)"

lemma orig_upd_output [simp]: "ogm_output (orig_upd k a f bp) = ogm_output bp"
  by (simp add: ogm_output_def)

lemma forward_acts:
  assumes "batadv_v_ogm_forward k ogm orig p if_out bp = Kret bp'" and "ogm_output bp' \<noteq> ogm_output bp"
    and "orig_table_ok k bp"
  obtains i o1 oi n ni bp1 where "if_out = Some i"
    "batadv_orig_hash_find k bp1 orig = Some o1" "batadv_orig_ifinfo_get o1 (Some i) = Some oi"
    "oi_last_seqno_forwarded oi = ogm2_seqno (get_ogm2_packet ogm)"
    "batadv_orig_router_get o1 (Some i) = Some p" "1 < ogm2_ttl (get_ogm2_packet ogm)"
    "neigh_deref o1 p = Some n" "batadv_neigh_ifinfo_get n (Some i) = Some ni"
    "ogm_output bp1 = ogm_output bp"
    "batadv_v_ogm_queue_on_if k (ogm_forward_skb bp1 ogm (ni_airtime_cost (ni_bat_v ni))) i bp1 = Kret bp'"
proof -
  let ?q = "ogm2_seqno (get_ogm2_packet ogm)"
  obtain i o0 oi0 o1 n ni where c: "if_out = Some i" "batadv_orig_hash_find k bp orig = Some o0"
      "batadv_orig_ifinfo_new k o0 (Some i) = (Some oi0, o1)"
      "batadv_orig_router_get o1 (Some i) = Some p" "\<not> ogm2_ttl (get_ogm2_packet ogm) \<le> 1"
      "neigh_deref o1 p = Some n" "batadv_neigh_ifinfo_get n (Some i) = Some ni"
      "batadv_v_ogm_queue_on_if k (ogm_forward_skb (orig_upd k orig (orig_ifinfo_upd (Some i)
          (\<lambda>i. i\<lparr>oi_last_seqno_forwarded := ?q\<rparr>)) (orig_upd k orig (\<lambda>_. o1) bp)) ogm
            (ni_airtime_cost (ni_bat_v ni))) i (orig_upd k orig (orig_ifinfo_upd (Some i)
          (\<lambda>i. i\<lparr>oi_last_seqno_forwarded := ?q\<rparr>)) (orig_upd k orig (\<lambda>_. o1) bp)) = Kret bp'"
    using assms(1,2)
    by (auto simp: batadv_v_ogm_forward_def Let_def split: option.splits prod.splits if_splits)
  define bp1 where "bp1 = orig_upd k orig (\<lambda>_. o1) bp"
  define bp2 where "bp2 = orig_upd k orig (orig_ifinfo_upd (Some i)
      (\<lambda>i. i\<lparr>oi_last_seqno_forwarded := ?q\<rparr>)) bp1"
  have o1: "on_orig o1 = orig" "batadv_orig_ifinfo_get o1 (Some i) = Some oi0"
    using orig_ifinfo_new_get [OF c(3)] orig_hash_find_SomeD [OF c(2)] by simp_all
  have f1: "orig_table_ok k bp1" "batadv_orig_hash_find k bp1 orig = Some o1"
    using orig_upd_const [OF assms(3) o1(1)] c(2) by (simp_all add: bp1_def)
  have f2: "batadv_orig_hash_find k bp2 orig =
      Some (orig_ifinfo_upd (Some i) (\<lambda>i. i\<lparr>oi_last_seqno_forwarded := ?q\<rparr>) o1)"
    using orig_upd_find(2) [OF f1(1), of "orig_ifinfo_upd (Some i) (\<lambda>i. i\<lparr>oi_last_seqno_forwarded := ?q\<rparr>)" orig]
      f1(2) by (simp add: bp2_def)
  have "batadv_orig_router_get (orig_ifinfo_upd (Some i) (\<lambda>i. i\<lparr>oi_last_seqno_forwarded := ?q\<rparr>) o1) (Some i) = Some p"
    using c(4) by (auto simp: batadv_orig_router_get_def orig_ifinfo_upd_def find_key_upd_first split: option.splits)
  then show ?thesis
    using that [OF c(1) f2, of "oi0\<lparr>oi_last_seqno_forwarded := ?q\<rparr>" n ni] c o1
    by (simp add: ifinfo_get_upd bp2_def bp1_def)
qed

section \<open>An example mesh\<close>

text \<open>
  Two neighbours on interface 1; the originator \<open>02:..:05\<close> is known through the neighbours
  7 (its router on that interface) and 8.
\<close>

definition ex_ogm_iface :: batadv_hard_iface where
  "ex_ogm_iface = (ex_elp_iface 0)\<lparr>hi_neigh_list :=
     [\<lparr>hn_addr = Mac 2 0 0 0 0 9, hn_orig = Mac 2 0 0 0 0 9, hn_if_incoming = 1, hn_last_seen = 0,
       hn_bat_v = ex_link\<lparr>airtime_cost := 400\<rparr>\<rparr>,
      \<lparr>hn_addr = Mac 2 0 0 0 0 8, hn_orig = Mac 2 0 0 0 0 8, hn_if_incoming = 1, hn_last_seen = 0,
       hn_bat_v = ex_link\<lparr>airtime_cost := 500\<rparr>\<rparr>]\<rparr>"

definition ex_neigh :: "nat \<Rightarrow> u8 \<Rightarrow> u32 \<Rightarrow> batadv_neigh_node" where
  "ex_neigh p a cost = \<lparr>nn_ptr = p, nn_orig_node = Mac 2 0 0 0 0 5, nn_addr = Mac 2 0 0 0 0 a,
     nn_ifinfo_list = [(neigh_ifinfo_zero (Some 1))\<lparr>ni_bat_v := \<lparr>ni_airtime_cost = cost, ni_last_seqno = 40\<rparr>\<rparr>],
     nn_if_incoming = 1, nn_last_seen = 0\<rparr>"

definition ex_orig :: batadv_orig_node where
  "ex_orig = (the (batadv_orig_node_new ex_kenv (Mac 2 0 0 0 0 5)))
     \<lparr>on_ifinfo_list := [\<lparr>oi_if_outgoing = Some 1, oi_router = Some 7, oi_last_real_seqno = 40,
        oi_last_ttl = 50, oi_last_seqno_forwarded = 40, oi_batman_seqno_reset = 0,
        oi_bat_iv = \<lparr>bcast_own = 0, bcast_own_sum = 0\<rparr>\<rparr>],
      on_neigh_list := [ex_neigh 7 9 900, ex_neigh 8 8 700]\<rparr>"

definition ex_mesh :: batadv_priv where
  "ex_mesh = ex_priv\<lparr>bp_hard_ifaces := [ex_ogm_iface],
     bp_orig_hash := Some \<lparr>table = [[ex_orig]], hash_size = 1, generation = 0\<rparr>\<rparr>"

definition ex_ogm :: bytes where
  "ex_ogm = ogm2_packet_bytes \<lparr>ogm2_packet_type = BATADV_OGM2, ogm2_version = BATADV_COMPAT_VERSION,
     ogm2_ttl = 50, ogm2_flags = 0, ogm2_seqno = 41, ogm2_orig = Mac 2 0 0 0 0 5,
     ogm2_tvlv_len = 0, ogm2_throughput = 300\<rparr>"

lemma ex_orig_simps [simp]:
  "on_orig ex_orig = Mac 2 0 0 0 0 5"
  "on_neigh_list ex_orig = [ex_neigh 7 9 900, ex_neigh 8 8 700]" "on_neigh_unlinked ex_orig = []"
  by (simp_all add: ex_orig_def batadv_orig_node_new_def batadv_orig_node_vlan_new_def ex_kenv_def Let_def
      batadv_vlan_id_valid_def batadv_orig_node_vlan_get_def)

lemma ex_mesh_ok: "orig_table_ok k ex_mesh"
  by (simp add: orig_table_ok_def ex_mesh_def orig_hash.hash_ok_def batadv_choose_orig_def)

lemma ex_mesh_find: "batadv_orig_hash_find k ex_mesh (Mac 2 0 0 0 0 5) = Some ex_orig"
  by (simp add: batadv_orig_hash_find_def ex_mesh_def batadv_choose_orig_def hash_bucket_def Let_def)

lemma ex_mesh_inv: "ogm_node_inv ex_mesh"
  by (simp add: ogm_node_inv_def aggr_inv_def ex_mesh_def ex_ogm_iface_def ex_elp_iface_def
      ex_priv_def containers_inv_def)

lemma ex_ogm_get [simp]: "get_ogm2_packet ex_ogm = \<lparr>ogm2_packet_type = BATADV_OGM2,
     ogm2_version = BATADV_COMPAT_VERSION, ogm2_ttl = 50, ogm2_flags = 0, ogm2_seqno = 41,
     ogm2_orig = Mac 2 0 0 0 0 5, ogm2_tvlv_len = 0, ogm2_throughput = 300\<rparr>"
  by (simp add: ex_ogm_def ogm2_fmt.dec_enc_only)

lemma ex_ogm_len: "batadv_v_ogm_len ex_ogm = length ex_ogm"
  by (simp add: batadv_v_ogm_len_def) (simp add: ex_ogm_def ogm2_fmt.length_enc BATADV_OGM2_HLEN_def)

lemma ex_ifinfo [simp]:
  "batadv_orig_ifinfo_new k ex_orig (Some (Suc 0)) = (Some (hd (on_ifinfo_list ex_orig)), ex_orig)"
  "batadv_orig_router_get ex_orig (Some (Suc 0)) = Some 7"
  "oi_last_seqno_forwarded (hd (on_ifinfo_list ex_orig)) = 40"
  "batadv_orig_ifinfo_get ex_orig (Some (Suc 0)) = Some (hd (on_ifinfo_list ex_orig))"
  by (simp_all add: batadv_orig_ifinfo_new_def batadv_orig_ifinfo_get_def batadv_orig_router_get_def ex_orig_def)

lemma orig_upd_aggregated [simp]: "bp_aggregated_ogms (orig_upd k a f bp) = bp_aggregated_ogms bp"
  by (simp add: orig_upd_def Let_def split: option.split)

lemma ex_forward_effect:
  "\<exists>bp1. batadv_v_ogm_forward ex_kenv ex_ogm (Mac 2 0 0 0 0 5) 7 (Some 1) ex_mesh = Kret bp1
    \<and> bp_hard_ifaces bp1 \<noteq> bp_hard_ifaces ex_mesh"
proof -
  have ok: "length (ogm_forward_skb bp ex_ogm c) = 20 \<and> batadv_v_ogm_len (ogm_forward_skb bp ex_ogm c) = 20" for bp c
    by (simp add: ogm_forward_skb_def Let_def batadv_v_ogm_len_def ogm2_fmt.dec_enc
        ogm2_fmt.dec_enc_only ogm2_fmt.length_enc BATADV_OGM2_HLEN_def)
  have mesh: "hard_iface_get ex_mesh (Suc 0) = Some ex_ogm_iface" "bp_aggregated_ogms ex_mesh \<noteq> 0"
    "bp_hard_ifaces ex_mesh = [ex_ogm_iface]" "hi_ifindex ex_ogm_iface = Suc 0"
    by (simp_all add: hard_iface_get_def ex_mesh_def ex_priv_def ex_ogm_iface_def ex_elp_iface_def)
  have left: "batadv_v_ogm_queue_left (ogm_forward_skb bp ex_ogm c) ex_ogm_iface" for bp c
    using ok [of bp c] by (simp add: batadv_v_ogm_queue_left_def ex_ogm_iface_def ex_elp_iface_def
        BATADV_MAX_AGGREGATION_BYTES_def)
  have enq: "aggr_enqueue skb ex_ogm_iface \<noteq> ex_ogm_iface" for skb
    by (simp add: aggr_enqueue_def hi_set_aggr_def ex_ogm_iface_def ex_elp_iface_def)
  have ttl: "\<not> (50 :: u8) \<le> 1" by (simp add: word_le_nat_alt)
  show ?thesis
    using mesh left enq ttl ex_ogm_len
    by (simp add: batadv_v_ogm_forward_def ex_mesh_find Let_def neigh_deref_def ex_neigh_def
        batadv_neigh_ifinfo_get_def neigh_ifinfo_zero_def ex_kenv_def [THEN arg_cong [where f = kalloc_ok]]
        batadv_v_ogm_queue_on_if_def ogm_output_def hard_iface_upd_def)
qed

definition ex_own :: batadv_priv where
  "ex_own = ex_mesh\<lparr>bp_bat_v := \<lparr>ogm_buff = Some (ogm2_packet_bytes (get_ogm2_packet ex_ogm)),
     ogm_buff_len = 20, ogm_seqno = 9, ogm_wq_pending = False\<rparr>\<rparr>"

lemma ex_own_inv: "ogm_node_inv ex_own"
  using ex_mesh_inv by (simp add: ogm_node_inv_def ex_own_def ogm2_fmt.length_enc)

text \<open>A commit that registers a translation table container with the hash of an empty table.\<close>

definition ex_tt_commit :: "batadv_priv \<Rightarrow> batadv_priv" where
  "ex_tt_commit b = b\<lparr>bp_tvlv_container_list :=
     batadv_tvlv_container_register True 4 1 (Some [1, 1, 0, 0]) 4 (bp_tvlv_container_list b)\<rparr>"

lemma ex_tt_commit_ok: "tt_commit_ok ex_tt_commit"
  by (simp add: tt_commit_ok_def ex_tt_commit_def register_inv)

lemma ex_own_state:
  "bp_mesh_state ex_own \<noteq> BATADV_MESH_DEACTIVATING" "ogm_buff (bp_bat_v ex_own) \<noteq> None"
  "kalloc_ok ex_kenv (Alloc_skb None)" "ogm_seqno (bp_bat_v ex_own) = 9"
  by (simp_all add: ex_own_def ex_mesh_def ex_priv_def ex_kenv_def)

lemma ex_own_env:
  "kmalloc_ok (\<lambda>n. Some (replicate n 0))" "\<forall>n. Some (replicate n (0 :: u8)) \<noteq> None"
  "length (containers_bytes (bp_tvlv_container_list (ex_tt_commit
     (ex_own\<lparr>bp_bat_v := (bp_bat_v ex_own)\<lparr>ogm_wq_pending := False\<rparr>\<rparr>)))) + 7 < 2 ^ 16"
  by (simp_all add: kmalloc_ok_def ex_tt_commit_def ex_own_def ex_mesh_def ex_priv_def
      container_register_unfold container_bytes_def tvlv_fmt.length_enc)

lemma ex_own_send:
  "\<exists>bp'. batadv_v_ogm_send ex_kenv (\<lambda>n. Some (replicate n 0)) (\<lambda>n. 0) ex_tt_commit ex_own = Kret bp'
    \<and> ogm_seqno (bp_bat_v bp') = 10"
  using own_send_keeps [OF ex_own_state(1) ex_own_inv ex_own_state(2) ex_tt_commit_ok ex_own_env(3,1,2),
      of ex_kenv "\<lambda>n. 0"] ex_own_state(3,4)
  by auto

section \<open>Properties\<close>

text \<open>
  C19: The OGM paths are memory safe and keep the aggregation queues consistent. From a node in
  order, after any sequence of sending the own OGM, flushing, enabling and disabling interfaces,
  changing the primary address and receiving frames (whatever bytes they hold), flushing
  any interface returns (no read behind a queued packet, no write behind the aggregate) and
  receiving any frame returns: no OGM header is read that is not there, and neither the TVLV
  parser nor the copy for forwarding is given more bytes than the frame holds. The queue of
  an interface holds one OGM or fits the smaller of its MTU and 512 bytes. The TVLV handlers, code
  outside of this path, are assumed to keep the node in order; the rounds of the own OGM are those
  in which its buffer is allocated and its containers fit the 16 bit length.
\<close>

theorem ogm_paths_safe:
  assumes "ogm_node_inv bp" and "handlers_keep ogm_node_inv hs" and "handlers_inv hs"
    and "handlers_idle hs" and "(ogm_step hs)\<^sup>*\<^sup>* bp bp'"
  shows "batadv_v_ogm_aggr_send k i bp' \<noteq> Kernel_bug
    \<and> batadv_v_ogm_packet_recv env e init skb if_in hs bp' \<noteq> Kernel_bug
    \<and> (\<forall>hi \<in> set (bp_hard_ifaces bp'). length (bv_aggr_list (hi_bat_v hi)) \<le> 1
         \<or> length (concat (bv_aggr_list (hi_bat_v hi))) \<le> min (unat (hi_mtu hi)) 512)"
proof -
  have inv: "ogm_node_inv bp'" by (rule ogm_steps_inv [OF assms(5,1-4)])
  have "length (bv_aggr_list (hi_bat_v hi)) \<le> 1
      \<or> length (concat (bv_aggr_list (hi_bat_v hi))) \<le> min (unat (hi_mtu hi)) 512"
    if "hi \<in> set (bp_hard_ifaces bp')" for hi
    using inv that
    by (auto simp: ogm_node_inv_def list_all_iff aggr_inv_def aggr_limit_def Let_def min_def
        BATADV_MAX_AGGREGATION_BYTES_def word_le_nat_alt split: if_splits)
  then show ?thesis
    using aggr_send_inv [OF inv, of k i] packet_recv_inv [OF inv assms(2-4), of env e init skb if_in]
    by (auto simp: kret_all_iff)
qed

text \<open>The handlers of a node that has just been set up.\<close>

definition ex_ogm_handlers :: tvlv_handlers where
  "ex_ogm_handlers = fst (snd (batadv_v_ogm_init ex_kenv True True 1 [] ex_priv))"

lemma ex_handlers_ok:
  "handlers_keep ogm_node_inv ex_ogm_handlers" "handlers_inv ex_ogm_handlers" "handlers_idle ex_ogm_handlers"
  by (simp_all add: ex_ogm_handlers_def batadv_v_ogm_init_def Let_def batadv_tvlv_handler_register_def
      batadv_tvlv_handler_get_def handlers_keep_def handlers_inv_def handlers_idle_def BATADV_TVLV_HANDLER_OGM_CALLED_def
      BATADV_TVLV_HANDLER_OGM_CIFNOTFND_def
      batadv_v_tvlv_node_weight_handler_def split: option.split)

text \<open>In the witness the own OGM has been sent, queued and flushed before.\<close>

theorem ogm_paths_safe_witness:
  "\<exists>bp'. (ogm_step ex_ogm_handlers)\<^sup>*\<^sup>* ex_own bp' \<and> ogm_seqno (bp_bat_v bp') = 10
   \<and> batadv_v_ogm_aggr_send ex_kenv 1 bp' \<noteq> Kernel_bug
   \<and> batadv_v_ogm_packet_recv (\<lambda>_. ex_kenv) \<lparr>pull_ok = True, cow_ok = True, linearize_ok = True\<rparr> None
       \<lparr>h_dest = Mac 255 255 255 255 255 255, h_source = Mac 2 0 0 0 0 9, skb_data = ex_ogm @ [1, 2],
        skb_priority = 0\<rparr> 1 ex_ogm_handlers bp' \<noteq> Kernel_bug"
proof -
  obtain bp' where bp': "batadv_v_ogm_send ex_kenv (\<lambda>n. Some (replicate n 0)) (\<lambda>n. 0) ex_tt_commit ex_own = Kret bp'"
      "ogm_seqno (bp_bat_v bp') = 10"
    using ex_own_send by blast
  have "ogm_step ex_ogm_handlers ex_own bp'"
    by (rule step_send [OF ex_tt_commit_ok ex_own_env bp'(1)])
  then have r: "(ogm_step ex_ogm_handlers)\<^sup>*\<^sup>* ex_own bp'" by blast
  then show ?thesis
    using ogm_paths_safe [OF ex_own_inv ex_handlers_ok r] bp'(2) by blast
qed

text \<open>
  C23: Aggregating and splitting are inverse. The receive loop, run over the bytes of a
  flushed queue, processes exactly the queued OGMs, in order and each as if it had arrived
  alone, whatever processing does to the node.
\<close>

theorem ogm_aggregate_roundtrip:
  assumes "aggr_inv hi"
  shows "ogm_recv_loop env init h_src (concat (bv_aggr_list (hi_bat_v hi))) if_in 0 hs bp =
         ogm_recv_each env init h_src if_in 0 (bv_aggr_list (hi_bat_v hi)) hs bp"
  using assms recv_loop_split [of "bv_aggr_list (hi_bat_v hi)" env init h_src "[]" if_in hs bp]
  by (simp add: aggr_inv_def Let_def)

lemma ex_queue_inv: "aggr_inv (aggr_enqueue ex_ogm ex_ogm_iface)"
    "aggr_inv (aggr_enqueue ex_ogm (aggr_enqueue ex_ogm ex_ogm_iface))"
  and ex_queue: "bv_aggr_list (hi_bat_v (aggr_enqueue ex_ogm (aggr_enqueue ex_ogm ex_ogm_iface))) = [ex_ogm, ex_ogm]"
    "bv_aggr_list (hi_bat_v (aggr_enqueue ex_ogm ex_ogm_iface)) = [ex_ogm]"
proof -
  have len: "length ex_ogm = 20" by (simp add: ex_ogm_def ogm2_fmt.length_enc)
  have e: "bv_aggr_list (hi_bat_v ex_ogm_iface) = []" "bv_aggr_len (hi_bat_v ex_ogm_iface) = 0"
      "hi_mtu ex_ogm_iface = 1500"
    by (simp_all add: ex_ogm_iface_def ex_elp_iface_def)
  show "aggr_inv (aggr_enqueue ex_ogm ex_ogm_iface)"
      "aggr_inv (aggr_enqueue ex_ogm (aggr_enqueue ex_ogm ex_ogm_iface))"
    using ex_ogm_len len e
    by (simp_all add: aggr_inv_def aggr_enqueue_def aggr_skb_ok_def Let_def aggr_limit_def
        BATADV_MAX_AGGREGATION_BYTES_def)
  show "bv_aggr_list (hi_bat_v (aggr_enqueue ex_ogm (aggr_enqueue ex_ogm ex_ogm_iface))) = [ex_ogm, ex_ogm]"
      "bv_aggr_list (hi_bat_v (aggr_enqueue ex_ogm ex_ogm_iface)) = [ex_ogm]"
    by (simp_all add: aggr_enqueue_def e)
qed

theorem ogm_aggregate_roundtrip_witness:
  "ogm_recv_loop (\<lambda>_. ex_kenv) None (Mac 2 0 0 0 0 9) (ex_ogm @ ex_ogm) 1 0 ex_ogm_handlers ex_mesh =
   ogm_recv_each (\<lambda>_. ex_kenv) None (Mac 2 0 0 0 0 9) 1 0 [ex_ogm, ex_ogm] ex_ogm_handlers ex_mesh"
  using ogm_aggregate_roundtrip [OF ex_queue_inv(2),
      of "\<lambda>_. ex_kenv" None "Mac 2 0 0 0 0 9" 1 ex_ogm_handlers ex_mesh]
  unfolding ex_queue concat.simps append_Nil2 .

text \<open>
  Flushing sends the queue. On an active interface whose aggregate can be allocated the
  queued OGMs leave as one frame, back to back and in order; an empty queue sends nothing;
  in every case the queue is empty and its length zero afterwards.
\<close>

theorem ogm_flush_sends_queue:
  assumes "hard_iface_get bp i = Some hi" and "aggr_inv hi"
  shows "\<exists>bp'. batadv_v_ogm_aggr_send k i bp = Kret bp'
    \<and> hard_iface_get bp' i = Some (hi_set_aggr [] 0 hi)
    \<and> bp_calls bp' = bp_calls bp @
        (if bv_aggr_list (hi_bat_v hi) \<noteq> [] \<and> kalloc_ok k (Alloc_aggr i)
            \<and> hi_if_status hi = BATADV_IF_ACTIVE
         then [Send_broadcast_skb i (concat (bv_aggr_list (hi_bat_v hi)))] else [])"
proof -
  have "hard_iface_get (hard_iface_upd i (hi_set_aggr [] 0) bp) i = Some (hi_set_aggr [] 0 hi)"
    using assms(1) by (simp add: hard_iface_get_upd)
  then show ?thesis
    using aggr_send_cases [OF assms, of k] unfolding hard_iface_get_def by fastforce
qed

theorem ogm_flush_sends_queue_witness:
  "\<exists>bp'. batadv_v_ogm_aggr_send ex_kenv 1 (hard_iface_upd 1 (aggr_enqueue ex_ogm) ex_mesh) = Kret bp'
    \<and> bp_calls bp' = [Send_broadcast_skb 1 ex_ogm]"
proof -
  have g: "hard_iface_get (hard_iface_upd 1 (aggr_enqueue ex_ogm) ex_mesh) 1 =
      Some (aggr_enqueue ex_ogm ex_ogm_iface)"
    by (simp add: hard_iface_get_def hard_iface_upd_def ex_mesh_def aggr_enqueue_def)
      (simp add: ex_ogm_iface_def ex_elp_iface_def)
  have st: "hi_if_status (aggr_enqueue ex_ogm ex_ogm_iface) = BATADV_IF_ACTIVE"
    by (simp add: aggr_enqueue_def) (simp add: ex_ogm_iface_def ex_elp_iface_def)
  show ?thesis
    using ogm_flush_sends_queue [OF g ex_queue_inv(1), of ex_kenv] st
    by (auto simp: ex_queue hard_iface_upd_def ex_mesh_def ex_priv_def ex_kenv_def)
qed

text \<open>
  C22: The path metric is the saturating sum. When an OGM is accepted (age 0 or 1) for the
  node itself (the default interface), the cost recorded for the neighbour it came through is
  the announced cost plus the cost of the link to that neighbour, capped at the maximum and
  never wrapped; for a real interface the forwarding penalty is applied to that sum. The
  sequence number of the OGM is recorded for the neighbour and for the originator.
\<close>

theorem ogm_metric_update_cost:
  assumes "batadv_v_ogm_metric_update k bp ogm2 p if_in if_out orig_node = (age, orig_node')"
    and "0 \<le> age"
  shows "\<exists>n ni oi. neigh_deref orig_node' p = Some n \<and> batadv_neigh_ifinfo_get n if_out = Some ni
    \<and> batadv_orig_ifinfo_get orig_node' if_out = Some oi
    \<and> (if_out = None \<longrightarrow> unat (ni_airtime_cost (ni_bat_v ni)) =
         min (unat (ogm2_throughput ogm2) + unat (link_airtime bp if_in (nn_addr n))) (2 ^ 32 - 1))
    \<and> ni_airtime_cost (ni_bat_v ni) = batadv_v_forward_penalty bp if_in if_out
         (of_nat (min (unat (ogm2_throughput ogm2) + unat (link_airtime bp if_in (nn_addr n))) (2 ^ 32 - 1)))
    \<and> ni_last_seqno (ni_bat_v ni) = ogm2_seqno ogm2 \<and> oi_last_real_seqno oi = ogm2_seqno ogm2"
proof -
  obtain n ni oi where e: "neigh_deref orig_node' p = Some n" "batadv_neigh_ifinfo_get n if_out = Some ni"
      "ni_airtime_cost (ni_bat_v ni) = batadv_v_forward_penalty bp if_in if_out
         (ogm_path_airtime (ogm2_throughput ogm2) (link_airtime bp if_in (nn_addr n)))"
      "ni_last_seqno (ni_bat_v ni) = ogm2_seqno ogm2"
      "batadv_orig_ifinfo_get orig_node' if_out = Some oi" "oi_last_real_seqno oi = ogm2_seqno ogm2"
    by (rule metric_update_effect [OF assms]) blast
  define m where "m = min (unat (ogm2_throughput ogm2) + unat (link_airtime bp if_in (nn_addr n))) (2 ^ 32 - 1)"
  have "unat (of_nat m :: u32) = m" by (rule unat_of_nat_u32) (simp add: m_def min_def)
  then have "ogm_path_airtime (ogm2_throughput ogm2) (link_airtime bp if_in (nn_addr n)) =
of_nat m"
    by (simp only: word_unat_eq_iff path_airtime_saturates m_def)
  then show ?thesis
    unfolding m_def using e path_airtime_saturates [of "ogm2_throughput ogm2" "link_airtime bp if_in (nn_addr n)"]
    by (auto simp: batadv_v_forward_penalty_def Let_def)
qed

lemma ex_orig_last [simp]: "oi_last_real_seqno (hd (on_ifinfo_list ex_orig)) = 40"
  by (simp add: ex_orig_def)

lemma ex_metric:
  "fst (batadv_v_ogm_metric_update ex_kenv ex_mesh (get_ogm2_packet ex_ogm) 8 1 (Some 1) ex_orig) = 1"
proof -
  have d: "neigh_deref ex_orig 8 = Some (ex_neigh 8 8 700)" by (simp add: neigh_deref_def ex_neigh_def)
  have i: "batadv_neigh_ifinfo_new k (ex_neigh 8 8 700\<lparr>nn_last_seen := t\<rparr>) (Some (Suc 0)) =
      (Some (hd (nn_ifinfo_list (ex_neigh 8 8 700))), ex_neigh 8 8 700\<lparr>nn_last_seen := t\<rparr>)" for k :: kenv and t
    by (simp add: batadv_neigh_ifinfo_new_def batadv_neigh_ifinfo_get_def ex_neigh_def neigh_ifinfo_zero_def)
  show ?thesis
    by (simp add: batadv_v_ogm_metric_update_def Let_def batadv_window_protected_def
        BATADV_OGM_MAX_AGE_def BATADV_EXPECTED_SEQNO_RANGE_def neigh_deref_map d i)
qed

theorem ogm_metric_update_cost_witness:
  "\<exists>n ni. neigh_deref (snd (batadv_v_ogm_metric_update ex_kenv ex_mesh (get_ogm2_packet ex_ogm) 8 1 (Some 1) ex_orig)) 8 = Some n
    \<and> batadv_neigh_ifinfo_get n (Some 1) = Some ni \<and> ni_last_seqno (ni_bat_v ni) = 41"
  using ogm_metric_update_cost [of ex_kenv ex_mesh "get_ogm2_packet ex_ogm" 8 1 "Some 1" ex_orig 1, OF
      prod_eqI [of _ "(1, snd (batadv_v_ogm_metric_update ex_kenv ex_mesh (get_ogm2_packet ex_ogm) 8 1 (Some 1) ex_orig))"]]
    ex_metric by auto

text \<open>
  C20: Routes only improve. A route update towards an originator either leaves the router of
  the interface or replaces it by the neighbour the OGM came through, and the latter, when
  there was a router, only if that neighbour is strictly cheaper or its last OGM is at least
  five sequence numbers ahead.
\<close>

theorem ogm_route_only_improves:
  assumes "orig_table_ok k bp" and "batadv_orig_hash_find k bp orig = Some o1"
    and "batadv_v_ogm_route_update k h_src orig p i bp = (forward, bp')"
  shows "\<exists>o2. batadv_orig_hash_find k bp' orig = Some o2 \<and>
    (batadv_orig_router_get o2 i = batadv_orig_router_get o1 i
     \<or> batadv_orig_router_get o2 i = Some p
       \<and> (\<forall>rp. batadv_orig_router_get o1 i = Some rp \<longrightarrow>
            (\<exists>r n ri ni. neigh_deref o1 rp = Some r \<and> neigh_deref o1 p = Some n
               \<and> batadv_neigh_ifinfo_get r i = Some ri \<and> batadv_neigh_ifinfo_get n i = Some ni
               \<and> (ni_airtime_cost (ni_bat_v ni) < ni_airtime_cost (ni_bat_v ri)
                  \<or> 5 \<le> s32 (ni_last_seqno (ni_bat_v ni) - ni_last_seqno (ni_bat_v ri))))))"
proof -
  obtain o2 where o2: "batadv_orig_hash_find k bp' orig = Some o2"
    "batadv_orig_router_get o2 i =
       (if forward \<and> batadv_orig_ifinfo_get o1 i \<noteq> None
           \<and> (case batadv_orig_router_get o1 i of None \<Rightarrow> True | Some rp \<Rightarrow> rp \<noteq> p \<and> ogm_switch o1 i rp p)
        then Some p else batadv_orig_router_get o1 i)"
    by (rule route_update_cases [OF assms])
  have "\<exists>r n ri ni. neigh_deref o1 rp = Some r \<and> neigh_deref o1 p = Some n
      \<and> batadv_neigh_ifinfo_get r i = Some ri \<and> batadv_neigh_ifinfo_get n i = Some ni
      \<and> (ni_airtime_cost (ni_bat_v ni) < ni_airtime_cost (ni_bat_v ri)
         \<or> 5 \<le> s32 (ni_last_seqno (ni_bat_v ni) - ni_last_seqno (ni_bat_v ri)))"
    if "ogm_switch o1 i rp p" for rp
    using that by (auto simp: ogm_switch_def Let_def BATADV_OGM_MAX_ORIGDIFF_def split: option.splits)
  then show ?thesis using o2 by (auto split: option.splits if_splits)
qed

lemma ex_router_get: "batadv_orig_router_get ex_orig (Some 1) = Some 7" by simp

theorem ogm_route_only_improves_witness:
  "\<exists>o2. batadv_orig_hash_find ex_kenv (snd (batadv_v_ogm_route_update ex_kenv (Mac 2 0 0 0 0 8)
        (Mac 2 0 0 0 0 5) 8 (Some 1) ex_mesh)) (Mac 2 0 0 0 0 5) = Some o2
    \<and> (batadv_orig_router_get o2 (Some 1) = Some 7 \<or> batadv_orig_router_get o2 (Some 1) = Some 8)"
  using ogm_route_only_improves [OF ex_mesh_ok [of ex_kenv] ex_mesh_find [of ex_kenv] prod.collapse [symmetric],
      of "Mac 2 0 0 0 0 8" 8 "Some 1"]
  by (metis ex_router_get)

section \<open>Weights\<close>

lemma weight_of_exact:
  assumes "unat p \<le> 255" and "0 < unat d" and "unat c \<le> 255"
  shows "unat (weight_of p d c) = (unat p * 1000 div 128) * (100000 div unat d) * (unat c * 1000) div 1000000"
proof -
  define a where "a = unat p * 1000 div 128"
  define b where "b = 100000 div unat d"
  define e where "e = unat c * 1000"
  have a: "unat (p * 1000 div 128) = a" "a \<le> 1992"
    using assms(1) by (simp_all add: a_def unat_div unat_word_ariths)
  have b: "unat (100000 div d) = b" "b \<le> 100000"
    by (simp_all add: b_def unat_div)
  have e: "unat (c * 1000) = e" "e \<le> 255000"
    using assms(3) by (simp_all add: e_def unat_word_ariths)
  have "a * b \<le> 1992 * 100000" using a(2) b(2) by (rule mult_le_mono)
  then have abe: "a * b * e \<le> 1992 * 100000 * 255000" using e(2) by (rule mult_le_mono)
  have prod: "unat ((ucast (p * 1000 div 128) :: u64) * ucast (100000 div d) * ucast (c * 1000)) = a * b * e"
    using abe unat_mult3_u64 [of "p * 1000 div 128" "100000 div d" "c * 1000", unfolded a b e] by simp
  have "unat (weight_of p d c) = a * b * e div 1000000 mod 2 ^ 32"
    by (simp add: weight_of_def Let_def BATADV_WEIGHT_SCALE_def unat_div unsigned_ucast_eq
        take_bit_eq_mod prod)
  also have "\<dots> = a * b * e div 1000000" using abe by (intro mod_less) simp
  finally show ?thesis by (simp add: a_def b_def e_def)
qed


text \<open>
  The weight of a node is computed without overflow for every configuration whose
  priority and power class fit a byte: it is the product of the three factors in thousandths,
  each rounded down. In particular the defaults are neutral, and priorities below 128 give a
  weight below one.
\<close>

theorem node_weight_exact:
  assumes "unat (bp_node_priority bp) \<le> 255" and "unat (bp_power_class bp) \<le> 255"
  shows "unat (batadv_node_weight_factor bp) =
    (unat (bp_node_priority bp) * 1000 div 128) * (100000 div max 1 (unat (bp_duty_cycle bp)))
      * (unat (bp_power_class bp) * 1000) div 1000000"
proof -
  let ?d = "if bp_duty_cycle bp = 0 then 1 else bp_duty_cycle bp"
  have d: "unat ?d = max 1 (unat (bp_duty_cycle bp))"
    using unat_eq_zero [of "bp_duty_cycle bp"] by (auto simp: max_def not_le)
  then have "0 < unat ?d" by simp
  from weight_of_exact [OF assms(1) this assms(2)] d show ?thesis
    by (simp add: batadv_node_weight_factor_def Let_def)
qed

theorem node_weight_exact_witness:
  "unat (batadv_node_weight_factor ex_priv) = 1000
   \<and> unat (batadv_node_weight_factor (ex_priv\<lparr>bp_node_priority := 64, bp_duty_cycle := 50, bp_power_class := 3\<rparr>)) = 3000"
  using node_weight_exact [of ex_priv]
    node_weight_exact [of "ex_priv\<lparr>bp_node_priority := 64, bp_duty_cycle := 50, bp_power_class := 3\<rparr>"]
  by (simp add: ex_priv_def)

text \<open>
  A forwarded cost is scaled by the node's weight, rounded down and at least one, but the
  product is compared with the 32 bit maximum before it is divided by a thousand: from a cost
  of about 4.3 seconds on, any weight other than the neutral one makes the path unusable, a
  weight below one included.
\<close>

theorem apply_weight_exact:
  "unat (apply_weight w c) =
     (if w = 1000 then unat c
      else if 2 ^ 32 \<le> unat c * unat w then 2 ^ 32 - 1
      else max 1 (unat c * unat w div 1000))"
proof -
  have "unat c < 2 ^ 32" "unat w < 2 ^ 32" using unat_less_u32 [of c] unat_less_u32 [of w] by simp_all
  then have "unat c * unat w \<le> (2 ^ 32 - 1) * (2 ^ 32 - 1)" by (intro mult_le_mono) simp_all
  then have p: "unat ((ucast c :: u64) * ucast w) = unat c * unat w"
    by (simp add: unat_word_ariths unat_ucast_u64)
  have gt: "((ucast c :: u64) * ucast w > U32_MAX) \<longleftrightarrow> 2 ^ 32 \<le> unat c * unat w"
    by (simp add: word_less_nat_alt p U32_MAX_def less_eq_Suc_le)
  have q: "unat (ucast ((ucast c :: u64) * ucast w div 1000) :: u32) = unat c * unat w div 1000"
    if "\<not> 2 ^ 32 \<le> unat c * unat w"
    using that by (simp add: unsigned_ucast_eq unat_div p take_bit_nat_eq_self)
  have z: "(ucast ((ucast c :: u64) * ucast w div 1000) :: u32) = 0 \<longleftrightarrow> unat c * unat w div 1000 = 0"
    if "\<not> 2 ^ 32 \<le> unat c * unat w"
    using q [OF that] by (simp add: unat_eq_zero [symmetric])
  show ?thesis
    using gt q z
    by (auto simp: apply_weight_def Let_def BATADV_WEIGHT_SCALE_def BATADV_AIRTIME_MAX_VALUE_def max_def)
qed

text \<open>
  Peers learn the weight a node applies. The node's weight container, sent in its OGM among
  any other containers that fit, reaches the weight handler of a peer, and the weight the peer
  then computes for the originator is the weight the node itself computes from its settings
  (priority, duty cycle and power class between 1 and 255).
\<close>

theorem node_weight_reaches_peers:
  assumes "containers_inv cl" and "kmalloc_ok kmalloc" and "20 \<le> length buf"
    and "cl' = batadv_tvlv_container_register True BATADV_TVLV_NODE_WEIGHT 1
           (Some (node_weight_bytes (own_weight_tvlv bp))) 3 cl"
    and "length (containers_bytes cl') < 2 ^ 16" and "kmalloc (20 + length (containers_bytes cl')) \<noteq> None"
    and "hs = batadv_tvlv_handler_register True (Some (batadv_v_tvlv_node_weight_handler k)) None None
           BATADV_TVLV_NODE_WEIGHT 1 BATADV_TVLV_HANDLER_OGM_CIFNOTFND []"
    and "orig_table_ok k s" and "batadv_orig_hash_find k s orig = Some o1"
    and "unat (bp_node_priority bp) \<in> {1..255}" and "unat (bp_duty_cycle bp) \<in> {1..255}"
    and "unat (bp_power_class bp) \<in> {1..255}"
  shows "\<exists>len b s' o2. batadv_tvlv_container_ogm_append kmalloc cl' buf 20 = Kret (len, b)
    \<and> batadv_tvlv_containers_process BATADV_OGM2 (Some orig) None 20 (drop 20 b) len hs s =
        (NET_RX_SUCCESS, hs, s')
    \<and> batadv_orig_hash_find k s' orig = Some o2
    \<and> batadv_orig_node_weight_factor o2 = batadv_node_weight_factor bp"
proof -
  let ?K = "(BATADV_TVLV_NODE_WEIGHT, 1 :: u8)"
  let ?n = "length (containers_bytes cl')"
  define t where "t = \<lparr>tvlv_hdr = \<lparr>tvlv_type = BATADV_TVLV_NODE_WEIGHT, tvlv_version = 1, tvlv_len = 3\<rparr>,
      tvlv_data = node_weight_bytes (own_weight_tvlv bp)\<rparr>"
  define rest where "rest = hlist_del_first (\<lambda>t. container_key t = ?K) cl"
  define h where "h = \<lparr>ogm_handler = Some (batadv_v_tvlv_node_weight_handler k), unicast_handler = None,
      mcast_handler = None, th_type = BATADV_TVLV_NODE_WEIGHT, th_version = 1,
      th_flags = BATADV_TVLV_HANDLER_OGM_CIFNOTFND\<rparr>"
  have cl': "cl' = t # rest"
    unfolding assms(4) container_register_unfold t_def rest_def by (simp add: node_weight_bytes_def)
  have hs: "hs = [h]"
    by (simp add: assms(7) h_def batadv_tvlv_handler_register_def batadv_tvlv_handler_get_def)
  have hok: "handlers_inv hs" "handlers_idle hs"
    by (simp_all add: hs h_def handlers_inv_def handlers_idle_def BATADV_TVLV_HANDLER_OGM_CALLED_def
        BATADV_TVLV_HANDLER_OGM_CIFNOTFND_def)
  have wf: "list_all container_wf cl'"
    using assms(1) by (simp add: cl' t_def rest_def containers_inv_def container_wf_def
        node_weight_bytes_def list_all_hlist_del_first)
  have other: "\<forall>u \<in> set rest. container_key u \<noteq> ?K"
    using assms(1) del_first_keys [of container_key cl ?K]
    unfolding rest_def containers_inv_def by (metis image_eqI)
  have app: "batadv_tvlv_container_ogm_append kmalloc cl' buf 20 =
      Kret (of_nat ?n, take 20 buf @ containers_bytes cl')"
  proof -
    have "?n mod 2 ^ 16 = ?n" "?n \<noteq> 0" using assms(5) by (simp_all add: cl' tvlv_fmt.length_enc container_bytes_def)
    then show ?thesis
      using ogm_append_cases [OF assms(2) wf assms(3)] assms(5,6) by (simp add: Let_def)
  qed
  define s' where "s' = batadv_v_tvlv_node_weight_handler k (Some orig) BATADV_NO_FLAGS
      (node_weight_bytes (own_weight_tvlv bp)) s"
  have skip: "foldl (ogm_deliver hs orig) x (map (\<lambda>t. (tvlv_hdr t, tvlv_data t)) us) = x"
    if "\<forall>u \<in> set us. container_key u \<noteq> ?K" for us x
    using that by (induction us arbitrary: x)
      (auto simp: ogm_deliver_def hs h_def batadv_tvlv_handler_get_def container_key_def)
  have proc: "batadv_tvlv_containers_process BATADV_OGM2 (Some orig) None 20 (containers_bytes cl')
      (of_nat ?n) hs s = (NET_RX_SUCCESS, hs, s')"
    using containers_process_ogm [OF hok, of "of_nat ?n" "containers_bytes cl'" BATADV_OGM2 orig None 20 s]
      unat_of_nat_u16 [OF assms(5)] tvlv_parse_containers [OF wf] skip [OF other]
    by (simp add: Let_def cl')
      (simp add: ogm_deliver_def hs h_def batadv_tvlv_handler_get_def t_def ogm_notify_def item_key_def
        handler_key_def s'_def)
  have "s' = orig_upd k orig (\<lambda>x. x\<lparr>on_node_priority := ucast (bp_node_priority bp),
      on_duty_cycle := ucast (bp_duty_cycle bp), on_power_class := ucast (bp_power_class bp)\<rparr>) s"
    by (simp add: s'_def batadv_v_tvlv_node_weight_handler_def Let_def node_weight_bytes_def
        get_node_weight_def own_weight_tvlv_def)
  then have f: "batadv_orig_hash_find k s' orig = Some (o1\<lparr>on_node_priority := ucast (bp_node_priority bp),
      on_duty_cycle := ucast (bp_duty_cycle bp), on_power_class := ucast (bp_power_class bp)\<rparr>)"
    using assms(8,9) by (simp add: orig_upd_find)
  have byte: "ucast (ucast x :: u8) = x \<and> (ucast x :: u8) \<noteq> 0 \<and> x \<noteq> 0" if "unat x \<in> {1..255}" for x :: u32
  proof -
    have "unat (ucast x :: u8) = unat x" using that by (simp add: unsigned_ucast_eq take_bit_nat_eq_self)
    moreover have "unat (ucast (ucast x :: u8) :: u32) = unat (ucast x :: u8)"
      by (rule unat_ucast_u8_u32)
    ultimately show ?thesis using that by (auto simp: word_unat_eq_iff)
  qed
  have "drop 20 (take 20 buf @ containers_bytes cl') = containers_bytes cl'" using assms(3) by simp
  then show ?thesis
    using app proc f byte [OF assms(10)] byte [OF assms(11)] byte [OF assms(12)]
    by (simp add: batadv_orig_node_weight_factor_def batadv_node_weight_factor_def Let_def)
qed

theorem node_weight_reaches_peers_witness:
  "\<exists>s' o2. batadv_orig_hash_find ex_kenv s' (Mac 2 0 0 0 0 5) = Some o2
    \<and> batadv_orig_node_weight_factor o2 = batadv_node_weight_factor (ex_priv\<lparr>bp_node_priority := 64\<rparr>)"
proof -
  have k: "kmalloc_ok ex_kmalloc" by (simp add: kmalloc_ok_def ex_kmalloc_def)
  have c: "containers_bytes (batadv_tvlv_container_register True BATADV_TVLV_NODE_WEIGHT 1
           (Some (node_weight_bytes (own_weight_tvlv (ex_priv\<lparr>bp_node_priority := 64\<rparr>)))) 3 []) =
      tvlv_hdr_bytes \<lparr>tvlv_type = BATADV_TVLV_NODE_WEIGHT, tvlv_version = 1, tvlv_len = 3\<rparr> @ [64, 100, 1]"
    by (simp add: container_register_unfold container_bytes_def node_weight_bytes_def own_weight_tvlv_def ex_priv_def)
  have "\<exists>len b s' o2. batadv_tvlv_container_ogm_append ex_kmalloc
        (batadv_tvlv_container_register True BATADV_TVLV_NODE_WEIGHT 1
           (Some (node_weight_bytes (own_weight_tvlv (ex_priv\<lparr>bp_node_priority := 64\<rparr>)))) 3 [])
        (replicate 20 0) 20 = Kret (len, b)
    \<and> batadv_tvlv_containers_process BATADV_OGM2 (Some (Mac 2 0 0 0 0 5)) None 20 (drop 20 b) len
        (batadv_tvlv_handler_register True (Some (batadv_v_tvlv_node_weight_handler ex_kenv)) None None
           BATADV_TVLV_NODE_WEIGHT 1 BATADV_TVLV_HANDLER_OGM_CIFNOTFND []) ex_mesh =
        (NET_RX_SUCCESS, batadv_tvlv_handler_register True (Some (batadv_v_tvlv_node_weight_handler ex_kenv))
           None None BATADV_TVLV_NODE_WEIGHT 1 BATADV_TVLV_HANDLER_OGM_CIFNOTFND [], s')
    \<and> batadv_orig_hash_find ex_kenv s' (Mac 2 0 0 0 0 5) = Some o2
    \<and> batadv_orig_node_weight_factor o2 = batadv_node_weight_factor (ex_priv\<lparr>bp_node_priority := 64\<rparr>)"
    by (rule node_weight_reaches_peers [where cl = "[]", OF _ k _ refl _ _ refl ex_mesh_ok ex_mesh_find])
      (simp_all only: c, simp_all add: containers_inv_def tvlv_fmt.length_enc ex_kmalloc_def ex_priv_def)
  then show ?thesis by blast
qed

text \<open>
  When the buffer for the containers cannot be allocated, the own OGM is sent all the same
  with a header that announces them: the queued frame is shorter than its header says, and the
  next flush of the interface reads behind its end.
\<close>

theorem own_ogm_overread:
  "\<exists>bp'. batadv_v_ogm_send ex_kenv (\<lambda>n. None) (\<lambda>n. 0) (\<lambda>b. b) ex_own = Kret bp'
    \<and> batadv_v_ogm_aggr_send ex_kenv 1 bp' = Kernel_bug"
proof -
  define w where "w = batadv_tvlv_container_register True BATADV_TVLV_NODE_WEIGHT 1
      (Some (node_weight_bytes (own_weight_tvlv ex_own))) 3 []"
  have wt: "own_weight_tvlv (ex_own\<lparr>bp_bat_v := v\<rparr>) = own_weight_tvlv ex_own" for v
    by (simp add: own_weight_tvlv_def)
  have len: "length (containers_bytes w) = 7" and wf: "list_all container_wf w"
    by (simp_all add: w_def container_register_unfold container_bytes_def tvlv_fmt.length_enc
        node_weight_bytes_def container_wf_def)
  define b where "b = ogm2_packet_bytes (get_ogm2_packet ex_ogm)"
  have lb: "length b = 20" by (simp add: b_def ogm2_fmt.length_enc)
  have app: "batadv_tvlv_container_ogm_append (\<lambda>n. None) w b 20 = Kret (7, b)"
    using ogm_append_cases [OF _ wf, of "\<lambda>n. None" 20 b] lb len by (simp add: kmalloc_ok_def)
  define skb where "skb = ogm2_packet_bytes ((get_ogm2_packet b)\<lparr>ogm2_seqno := 9, ogm2_tvlv_len := 7\<rparr>)"
  have skb: "length skb = 20" "batadv_v_ogm_len skb = 27"
    by (simp_all add: skb_def ogm2_fmt.length_enc batadv_v_ogm_len_def ogm2_fmt.dec_enc_only BATADV_OGM2_HLEN_def)
  have iface: "batadv_hardif_no_broadcast ex_ogm_iface None None = BATADV_HARDIF_BCAST_OK"
    "hi_ifindex ex_ogm_iface = 1" "bv_aggr_list (hi_bat_v ex_ogm_iface) = []"
    "bv_aggr_len (hi_bat_v ex_ogm_iface) = 0" "hi_mtu ex_ogm_iface = 1500"
    by (simp_all add: batadv_hardif_no_broadcast_def ex_ogm_iface_def ex_elp_iface_def)
  have own: "bp_mesh_state ex_own = BATADV_MESH_ACTIVE" "bp_hard_ifaces ex_own = [ex_ogm_iface]"
    "bp_tvlv_container_list ex_own = []" "bp_bat_v ex_own = \<lparr>ogm_buff = Some b,
     ogm_buff_len = 20, ogm_seqno = 9, ogm_wq_pending = False\<rparr>" "bp_aggregated_ogms ex_own = 1"
    by (simp_all add: ex_own_def ex_mesh_def ex_priv_def b_def)
  have alloc: "kalloc_ok ex_kenv s" for s by (simp add: ex_kenv_def)
  have left: "batadv_v_ogm_queue_left skb ex_ogm_iface"
    by (simp add: batadv_v_ogm_queue_left_def iface skb BATADV_MAX_AGGREGATION_BYTES_def)
  show ?thesis
    using left
    by (simp add: batadv_v_ogm_send_def batadv_v_ogm_send_meshif_def own alloc wt w_def [symmetric] app lb
        BATADV_OGM2_HLEN_def skb_def [symmetric] iface batadv_v_ogm_queue_on_if_def hard_iface_get_def Let_def)
      (simp add: batadv_v_ogm_start_timer_def ext_call_def Let_def hard_iface_upd_def iface
        batadv_v_ogm_aggr_send_def hard_iface_get_def aggr_enqueue_def alloc skb own)
qed

end
