(* ===== verification/Tp_Meter.thy ===== *)
theory Tp_Meter
  imports Originator
begin

text \<open>
  The throughput meter, \<^verbatim>\<open>src/net/batman-adv/tp_meter.c\<close>: sessions of a sender with a
  congestion window and a retransmission timer, and of a receiver that acknowledges the
  bytes received without gaps. The sessions of a mesh interface are a list of objects with
  their reference counts; \<open>tv_linked\<close> tells whether the object is in \<^verbatim>\<open>tp_list\<close>,
  \<open>tv_timer\<close> is the expiry of its pending timer and \<open>tv_thread\<close> the state of its kernel
  thread. Memory that is allocated without being cleared has arbitrary contents.
\<close>

section \<open>Sessions\<close>

datatype batadv_tp_meter_role = BATADV_TP_RECEIVER | BATADV_TP_SENDER

datatype tp_thread = Tp_no_thread | Tp_thread_new | Tp_thread_loop

record batadv_tp_unacked =
  un_seqno :: u32
  un_len :: u16

record batadv_tp_vars =
  tv_ptr :: nat
  tv_linked :: bool
  tv_timer :: "u64 option"
  tv_thread :: tp_thread
  tv_start_time :: u64
  tv_other_end :: mac
  tv_role :: batadv_tp_meter_role
  tv_sending :: u32
  tv_reason :: u8
  tv_finish_work :: bool
  tv_test_length :: u32
  tv_session :: "u8 \<times> u8"
  tv_icmp_uid :: u8
  tv_dec_cwnd :: u16
  tv_cwnd :: u32
  tv_ss_threshold :: u32
  tv_last_acked :: u32
  tv_last_sent :: u32
  tv_tot_sent :: u64
  tv_dup_acks :: u32
  tv_fast_recovery :: bool
  tv_recover :: u32
  tv_rto :: u32
  tv_srtt :: u32
  tv_rttvar :: u32
  tv_prerandom_offset :: u32
  tv_last_recv :: u32
  tv_unacked_list :: "batadv_tp_unacked list"
  tv_last_recv_time :: u64
  tv_refcount :: nat

text \<open>Packets handed to \<^verbatim>\<open>batadv_send_skb_to_orig\<close>, and results for user space.\<close>

datatype tp_call =
    Tp_send_skb_to_orig mac bytes
  | Tpmeter_notify mac u8 u32 u64 u32
  | Tp_complete nat

record batadv_priv_tp =
  tp_objs :: "batadv_tp_vars list"
  tp_num :: u32
  tp_calls :: "tp_call list"

text \<open>The kernel's part in one step: the outcome of allocations and of a transmission.\<close>

record tp_kenv = kenv +
  tk_alloc_ok :: bool
  tk_xmit :: int

definition BATADV_TP_DEF_TEST_LENGTH :: u32 where "BATADV_TP_DEF_TEST_LENGTH = 10000"
definition BATADV_TP_AWND :: u32 where "BATADV_TP_AWND = 0x20000000"
definition BATADV_TP_RECV_TIMEOUT :: nat where "BATADV_TP_RECV_TIMEOUT = 1000"
definition BATADV_TP_MAX_RTO :: u32 where "BATADV_TP_MAX_RTO = 30000"
definition BATADV_TP_FIRST_SEQ :: u32 where "BATADV_TP_FIRST_SEQ = 0xFFFFFFFF - 2000"
definition BATADV_TP_PLEN :: u32 where "BATADV_TP_PLEN = 1500 - 14 - 10"
definition BATADV_TP_MAX_NUM :: u32 where "BATADV_TP_MAX_NUM = 5"

definition BATADV_TP_REASON_COMPLETE :: u8 where "BATADV_TP_REASON_COMPLETE = 3"
definition BATADV_TP_REASON_CANCEL :: u8 where "BATADV_TP_REASON_CANCEL = 4"
definition BATADV_TP_REASON_DST_UNREACHABLE :: u8 where "BATADV_TP_REASON_DST_UNREACHABLE = 128"
definition BATADV_TP_REASON_ALREADY_ONGOING :: u8 where "BATADV_TP_REASON_ALREADY_ONGOING = 130"
definition BATADV_TP_REASON_MEMORY_ERROR :: u8 where "BATADV_TP_REASON_MEMORY_ERROR = 131"
definition BATADV_TP_REASON_CANT_SEND :: u8 where "BATADV_TP_REASON_CANT_SEND = 132"
definition BATADV_TP_REASON_TOO_MANY :: u8 where "BATADV_TP_REASON_TOO_MANY = 133"

definition batadv_tp_is_error :: "u8 \<Rightarrow> bool" where
  "batadv_tp_is_error n = (n > 127)"

lemmas tp_consts = BATADV_TP_DEF_TEST_LENGTH_def BATADV_TP_AWND_def BATADV_TP_RECV_TIMEOUT_def
  BATADV_TP_MAX_RTO_def BATADV_TP_FIRST_SEQ_def BATADV_TP_PLEN_def BATADV_TP_MAX_NUM_def
  BATADV_TP_REASON_COMPLETE_def BATADV_TP_REASON_CANCEL_def BATADV_TP_REASON_DST_UNREACHABLE_def
  BATADV_TP_REASON_ALREADY_ONGOING_def BATADV_TP_REASON_MEMORY_ERROR_def
  BATADV_TP_REASON_CANT_SEND_def BATADV_TP_REASON_TOO_MANY_def

definition tp_deref :: "batadv_priv_tp \<Rightarrow> nat \<Rightarrow> batadv_tp_vars option" where
  "tp_deref s p = find (\<lambda>v. tv_ptr v = p) (tp_objs s)"

definition tp_upd :: "nat \<Rightarrow> (batadv_tp_vars \<Rightarrow> batadv_tp_vars) \<Rightarrow> batadv_priv_tp \<Rightarrow> batadv_priv_tp" where
  "tp_upd p f s = s\<lparr>tp_objs := hlist_upd_first (\<lambda>v. tv_ptr v = p) f (tp_objs s)\<rparr>"

definition tp_call :: "tp_call \<Rightarrow> batadv_priv_tp \<Rightarrow> batadv_priv_tp" where
  "tp_call c s = s\<lparr>tp_calls := tp_calls s @ [c]\<rparr>"

section \<open>Windows and timeouts\<close>

definition batadv_tp_session_cookie :: "u8 \<times> u8 \<Rightarrow> u8 \<Rightarrow> u32" where
  "batadv_tp_session_cookie session icmp_uid =
     push_bit 16 (ucast icmp_uid) OR push_bit 8 (ucast (fst session)) OR ucast (snd session)"

definition batadv_tp_cwnd :: "u32 \<Rightarrow> u32 \<Rightarrow> u32 \<Rightarrow> u32" where
  "batadv_tp_cwnd base increment mn =
     (let new_size = base + increment;
          new_size = (if new_size < base then 0xFFFFFFFF else new_size);
          new_size = min new_size BATADV_TP_AWND in
      max new_size mn)"

text \<open>The 16 bit field \<^verbatim>\<open>dec_cwnd\<close> keeps the low bits of the sum.\<close>

definition batadv_tp_update_cwnd :: "u32 \<Rightarrow> batadv_tp_vars \<Rightarrow> batadv_tp_vars kresult" where
  "batadv_tp_update_cwnd mss tv =
     (if tv_cwnd tv \<le> tv_ss_threshold tv
      then Kret (tv\<lparr>tv_dec_cwnd := 0, tv_cwnd := batadv_tp_cwnd (tv_cwnd tv) mss mss\<rparr>)
      else if push_bit 3 (tv_cwnd tv) = 0 then Kernel_bug
      else
        let tv = tv\<lparr>tv_dec_cwnd := ucast ((ucast (tv_dec_cwnd tv) :: u32)
                     + max (push_bit 3 1) (push_bit 6 (mss * mss) div push_bit 3 (tv_cwnd tv)))\<rparr> in
        if ucast (tv_dec_cwnd tv) < push_bit 3 mss then Kret tv
        else Kret (tv\<lparr>tv_cwnd := batadv_tp_cwnd (tv_cwnd tv) mss mss, tv_dec_cwnd := 0\<rparr>))"

text \<open>The variable \<^verbatim>\<open>m\<close> is a 64 bit signed integer, the fields are 32 bit unsigned ones.\<close>

definition batadv_tp_update_rto :: "u32 \<Rightarrow> batadv_tp_vars \<Rightarrow> batadv_tp_vars" where
  "batadv_tp_update_rto new_rtt tv =
     (let tv = (if tv_srtt tv \<noteq> 0 then
                  let m = int (unat new_rtt) - int (unat (drop_bit 3 (tv_srtt tv)));
                      srtt = word_of_int (int (unat (tv_srtt tv)) + m);
                      m = \<bar>m\<bar> - int (unat (drop_bit 2 (tv_rttvar tv)));
                      rttvar = word_of_int (int (unat (tv_rttvar tv)) + m) in
                  tv\<lparr>tv_srtt := srtt, tv_rttvar := rttvar\<rparr>
                else tv\<lparr>tv_srtt := push_bit 3 new_rtt, tv_rttvar := push_bit 1 new_rtt\<rparr>) in
      tv\<lparr>tv_rto := drop_bit 3 (tv_srtt tv) + tv_rttvar tv\<rparr>)"

definition batadv_tp_batctl_notify ::
    "'k kenv_scheme \<Rightarrow> u8 \<Rightarrow> mac \<Rightarrow> u64 \<Rightarrow> u64 \<Rightarrow> u32 \<Rightarrow> batadv_priv_tp \<Rightarrow> batadv_priv_tp" where
  "batadv_tp_batctl_notify k reason dst start_time total_sent cookie =
     (if \<not> batadv_tp_is_error reason
      then let test_time = of_nat (jiffies_to_msecs k (jiffies k - start_time));
               total_bytes = (ucast total_sent :: u32) in
           tp_call (Tpmeter_notify dst BATADV_TP_REASON_COMPLETE test_time (ucast total_bytes) cookie)
      else tp_call (Tpmeter_notify dst reason 0 0 cookie))"

definition batadv_tp_batctl_error_notify ::
    "'k kenv_scheme \<Rightarrow> u8 \<Rightarrow> mac \<Rightarrow> u32 \<Rightarrow> batadv_priv_tp \<Rightarrow> batadv_priv_tp" where
  "batadv_tp_batctl_error_notify k reason dst cookie = batadv_tp_batctl_notify k reason dst 0 0 cookie"

section \<open>Looking up and releasing sessions\<close>

definition batadv_tp_list_find :: "batadv_priv_tp \<Rightarrow> mac \<Rightarrow> batadv_tp_vars option" where
  "batadv_tp_list_find s dst =
     find (\<lambda>v. tv_linked v \<and> batadv_compare_eth (tv_other_end v) dst) (tp_objs s)"

definition batadv_tp_list_find_session ::
    "batadv_priv_tp \<Rightarrow> mac \<Rightarrow> u8 \<times> u8 \<Rightarrow> batadv_tp_vars option" where
  "batadv_tp_list_find_session s dst session =
     find (\<lambda>v. tv_linked v \<and> batadv_compare_eth (tv_other_end v) dst \<and> tv_session v = session) (tp_objs s)"

definition batadv_tp_vars_get :: "nat \<Rightarrow> batadv_priv_tp \<Rightarrow> batadv_priv_tp" where
  "batadv_tp_vars_get p = tp_upd p (\<lambda>v. v\<lparr>tv_refcount := tv_refcount v + 1\<rparr>)"

definition batadv_tp_vars_release :: "nat \<Rightarrow> batadv_priv_tp \<Rightarrow> batadv_priv_tp" where
  "batadv_tp_vars_release p s = s\<lparr>tp_objs := hlist_del_first (\<lambda>v. tv_ptr v = p) (tp_objs s)\<rparr>"

definition batadv_tp_vars_put :: "nat \<Rightarrow> batadv_priv_tp \<Rightarrow> batadv_priv_tp" where
  "batadv_tp_vars_put p s =
     (case tp_deref s p of
        None \<Rightarrow> s
      | Some v \<Rightarrow>
          if tv_refcount v = 1 then batadv_tp_vars_release p s
          else tp_upd p (\<lambda>v. v\<lparr>tv_refcount := tv_refcount v - 1\<rparr>) s)"

definition batadv_tp_list_detach :: "nat \<Rightarrow> batadv_priv_tp \<Rightarrow> batadv_priv_tp" where
  "batadv_tp_list_detach p s =
     (case tp_deref s p of
        None \<Rightarrow> s
      | Some v \<Rightarrow>
          if \<not> tv_linked v then s
          else
            let s = tp_upd p (\<lambda>v. v\<lparr>tv_linked := False\<rparr>) s;
                s = s\<lparr>tp_num := tp_num s - 1\<rparr> in
            batadv_tp_vars_put p s)"

definition batadv_tp_sender_cleanup :: "nat \<Rightarrow> batadv_priv_tp \<Rightarrow> batadv_priv_tp" where
  "batadv_tp_sender_cleanup p s =
     (let s = tp_upd p (\<lambda>v. v\<lparr>tv_finish_work := False\<rparr>) s;
          s = batadv_tp_list_detach p s;
          s = tp_upd p (\<lambda>v. v\<lparr>tv_timer := None\<rparr>) s in
      batadv_tp_vars_put p s)"

definition batadv_tp_sender_end :: "'k kenv_scheme \<Rightarrow> batadv_tp_vars \<Rightarrow> batadv_priv_tp \<Rightarrow> batadv_priv_tp" where
  "batadv_tp_sender_end k tv =
     batadv_tp_batctl_notify k (tv_reason tv) (tv_other_end tv) (tv_start_time tv) (tv_tot_sent tv)
       (batadv_tp_session_cookie (tv_session tv) (tv_icmp_uid tv))"

text \<open>\<^verbatim>\<open>atomic_dec_and_test\<close>: the first caller that reaches zero sets the reason.\<close>

definition batadv_tp_sender_shutdown :: "u8 \<Rightarrow> batadv_tp_vars \<Rightarrow> batadv_tp_vars" where
  "batadv_tp_sender_shutdown reason tv =
     (let tv = tv\<lparr>tv_sending := tv_sending tv - 1\<rparr> in
      if tv_sending tv \<noteq> 0 then tv else tv\<lparr>tv_reason := reason\<rparr>)"

definition batadv_tp_sender_finish :: "batadv_tp_vars \<Rightarrow> batadv_tp_vars" where
  "batadv_tp_sender_finish tv =
     batadv_tp_sender_shutdown BATADV_TP_REASON_COMPLETE (tv\<lparr>tv_finish_work := False\<rparr>)"

definition batadv_tp_reset_sender_timer :: "'k kenv_scheme \<Rightarrow> batadv_tp_vars \<Rightarrow> batadv_tp_vars" where
  "batadv_tp_reset_sender_timer k tv =
     (if tv_sending tv = 0 then tv
      else tv\<lparr>tv_timer := Some (jiffies k + msecs_to_jiffies k (unat (tv_rto tv)))\<rparr>)"

definition batadv_tp_sender_timeout :: "'k kenv_scheme \<Rightarrow> batadv_tp_vars \<Rightarrow> batadv_tp_vars" where
  "batadv_tp_sender_timeout k tv =
     (let tv = tv\<lparr>tv_timer := None\<rparr> in
      if tv_sending tv = 0 then tv
      else if tv_rto tv \<ge> BATADV_TP_MAX_RTO
      then batadv_tp_sender_shutdown BATADV_TP_REASON_DST_UNREACHABLE tv
      else
        let tv = tv\<lparr>tv_rto := push_bit 1 (tv_rto tv)\<rparr>;
            ss = drop_bit 1 (tv_cwnd tv);
            ss = (if ss < BATADV_TP_PLEN * 2 then BATADV_TP_PLEN * 2 else ss);
            tv = tv\<lparr>tv_ss_threshold := ss, tv_cwnd := BATADV_TP_PLEN * 3,
                    tv_last_sent := tv_last_acked tv\<rparr> in
        batadv_tp_reset_sender_timer k tv)"

section \<open>Sending\<close>

definition prerandom_size :: nat where "prerandom_size = 4096"

function prerandom_copy :: "bytes \<Rightarrow> nat \<Rightarrow> nat \<Rightarrow> bytes" where
  "prerandom_copy prerandom local_offset nbytes =
     (if nbytes = 0 then []
      else
        let local_offset = local_offset mod prerandom_size;
            to_copy = min nbytes (prerandom_size - local_offset) in
        take to_copy (drop local_offset prerandom) @ prerandom_copy prerandom 0 (nbytes - to_copy))"
  by auto
termination
  by (relation "measure (\<lambda>(_, _, n). n)") (auto simp: prerandom_size_def)

declare prerandom_copy.simps [simp del]

definition batadv_tp_fill_prerandom :: "bytes \<Rightarrow> nat \<Rightarrow> batadv_tp_vars \<Rightarrow> bytes \<times> batadv_tp_vars" where
  "batadv_tp_fill_prerandom prerandom nbytes tv =
     (prerandom_copy prerandom (unat (tv_prerandom_offset tv)) nbytes,
      tv\<lparr>tv_prerandom_offset := (tv_prerandom_offset tv + of_nat nbytes) mod of_nat prerandom_size\<rparr>)"

text \<open>The result is 0 or a reason; \<open>src\<close> is the address of the primary interface.\<close>

definition batadv_tp_send_msg ::
    "'k tp_kenv_scheme \<Rightarrow> bytes \<Rightarrow> mac \<Rightarrow> mac \<Rightarrow> u32 \<Rightarrow> nat \<Rightarrow> u8 \<times> u8 \<Rightarrow> u8 \<Rightarrow> u32 \<Rightarrow> batadv_tp_vars
      \<Rightarrow> u8 \<times> batadv_tp_vars \<times> tp_call list" where
  "batadv_tp_send_msg k prerandom src orig seqno len session uid timestamp tv =
     (if \<not> tk_alloc_ok k then (BATADV_TP_REASON_MEMORY_ERROR, tv, [])
      else
        let icmp = \<lparr>tpp_packet_type = BATADV_ICMP, tpp_version = BATADV_COMPAT_VERSION,
                    tpp_ttl = BATADV_TTL, tpp_msg_type = BATADV_TP, tpp_dst = orig, tpp_orig = src,
                    tpp_uid = uid, tpp_subtype = BATADV_TP_MSG, tpp_session = session,
                    tpp_seqno = seqno, tpp_timestamp = timestamp\<rparr>;
            (data, tv) = batadv_tp_fill_prerandom prerandom (len - 28) tv in
        (if tk_xmit k = NET_XMIT_SUCCESS then 0 else BATADV_TP_REASON_CANT_SEND, tv,
         [Tp_send_skb_to_orig orig (icmp_tp_packet_bytes icmp @ data)]))"

definition now_msecs :: "'k kenv_scheme \<Rightarrow> u32" where
  "now_msecs k = of_nat (jiffies_to_msecs k (jiffies k))"

text \<open>The third duplicate acknowledgement, and an acknowledgement of new data.\<close>

definition tp_dup_ack ::
    "'k tp_kenv_scheme \<Rightarrow> bytes \<Rightarrow> mac \<Rightarrow> mac \<Rightarrow> batadv_icmp_tp_packet \<Rightarrow> batadv_tp_vars
      \<Rightarrow> batadv_tp_vars \<times> tp_call list" where
  "tp_dup_ack k prerandom src orig icmp tv =
     (let recv_ack = tpp_seqno icmp;
          tv = tv\<lparr>tv_dup_acks := tv_dup_acks tv + 1\<rparr> in
      if tv_dup_acks tv \<noteq> 3 then (tv, [])
      else if recv_ack \<ge> tv_recover tv then (tv, [])
      else
        (case batadv_tp_send_msg k prerandom src orig recv_ack (unat BATADV_TP_PLEN + 10)
                (tpp_session icmp) (tpp_uid icmp) (now_msecs k) tv of
           (_, tv, calls) \<Rightarrow>
             let tv = tv\<lparr>tv_fast_recovery := True, tv_recover := tv_last_sent tv,
                         tv_ss_threshold := drop_bit 1 (tv_cwnd tv)\<rparr> in
             (tv\<lparr>tv_cwnd := batadv_tp_cwnd (tv_ss_threshold tv) (3 * BATADV_TP_PLEN) BATADV_TP_PLEN,
                 tv_dec_cwnd := 0, tv_last_sent := recv_ack\<rparr>, calls)))"

definition tp_new_ack ::
    "'k tp_kenv_scheme \<Rightarrow> bytes \<Rightarrow> mac \<Rightarrow> mac \<Rightarrow> batadv_icmp_tp_packet \<Rightarrow> batadv_tp_vars
      \<Rightarrow> (batadv_tp_vars \<times> tp_call list) kresult" where
  "tp_new_ack k prerandom src orig icmp tv =
     (let recv_ack = tpp_seqno icmp;
          mss = BATADV_TP_PLEN;
          tv = tv\<lparr>tv_tot_sent := tv_tot_sent tv + ucast (recv_ack - tv_last_acked tv),
                  tv_dup_acks := 0\<rparr> in
      kbind (if tv_fast_recovery tv then
               if batadv_seq_before recv_ack (tv_recover tv) then
                 (case batadv_tp_send_msg k prerandom src orig recv_ack (unat BATADV_TP_PLEN + 10)
                         (tpp_session icmp) (tpp_uid icmp) (now_msecs k) tv of
                    (_, tv, calls) \<Rightarrow>
                      Kret (tv\<lparr>tv_cwnd := batadv_tp_cwnd (tv_cwnd tv) mss mss\<rparr>, calls))
               else
                 Kret (tv\<lparr>tv_fast_recovery := False,
                          tv_cwnd := batadv_tp_cwnd (tv_ss_threshold tv) 0 mss\<rparr>, [])
             else if recv_ack - tv_last_acked tv \<ge> mss
             then kbind (batadv_tp_update_cwnd mss tv) (\<lambda>tv. Kret (tv, []))
             else Kret (tv, []))
        (\<lambda>(tv, calls). Kret (tv\<lparr>tv_last_acked := recv_ack\<rparr>, calls)))"

definition batadv_tp_recv_ack ::
    "'k tp_kenv_scheme \<Rightarrow> bytes \<Rightarrow> batadv_priv \<Rightarrow> bytes \<Rightarrow> batadv_priv_tp \<Rightarrow> batadv_priv_tp kresult" where
  "batadv_tp_recv_ack k prerandom bp data s =
     (let icmp = get_icmp_tp_packet data in
      case batadv_tp_list_find_session s (tpp_orig icmp) (tpp_session icmp) of
        None \<Rightarrow> Kret s
      | Some tv \<Rightarrow>
          if tv_sending tv = 0 then Kret s
          else if batadv_seq_before (tpp_seqno icmp) (tv_last_acked tv) then Kret s
          else
            (case (batadv_primary_if_get_selected bp, batadv_orig_hash_find k bp (tpp_orig icmp)) of
               (Some primary_if, Some orig_node) \<Rightarrow>
                 let src = hi_dev_addr primary_if;
                     rtt = now_msecs k - tpp_timestamp icmp;
                     tv = (if tpp_timestamp icmp \<noteq> 0 \<and> rtt \<noteq> 0 then batadv_tp_update_rto rtt tv else tv);
                     tv = batadv_tp_reset_sender_timer k tv in
                 kbind (if tv_last_acked tv = tpp_seqno icmp
                        then Kret (tp_dup_ack k prerandom src (on_orig orig_node) icmp tv)
                        else tp_new_ack k prerandom src (on_orig orig_node) icmp tv)
                   (\<lambda>(tv, calls). Kret ((tp_upd (tv_ptr tv) (\<lambda>_. tv) s)\<lparr>tp_calls := tp_calls s @ calls\<rparr>))
             | _ \<Rightarrow> Kret s))"

definition batadv_tp_avail :: "batadv_tp_vars \<Rightarrow> u32 \<Rightarrow> bool" where
  "batadv_tp_avail tv payload_len =
     (let win_limit = tv_last_acked tv + tv_cwnd tv;
          win_left = win_limit - tv_last_sent tv in
      win_left \<ge> payload_len)"

text \<open>
  The sending thread: its end, its beginning, and one iteration of its loop (waiting for the
  window leaves the state as it is).
\<close>

definition tp_send_out :: "'k kenv_scheme \<Rightarrow> nat \<Rightarrow> batadv_priv_tp \<Rightarrow> batadv_priv_tp" where
  "tp_send_out k p s =
     (case tp_deref s p of
        None \<Rightarrow> s
      | Some tv \<Rightarrow>
          let s = batadv_tp_sender_end k tv s;
              s = batadv_tp_sender_cleanup p s;
              s = tp_call (Tp_complete p) (tp_upd p (\<lambda>v. v\<lparr>tv_thread := Tp_no_thread\<rparr>) s) in
          batadv_tp_vars_put p s)"

definition tp_send_begin :: "'k kenv_scheme \<Rightarrow> batadv_priv \<Rightarrow> nat \<Rightarrow> batadv_priv_tp \<Rightarrow> batadv_priv_tp" where
  "tp_send_begin k bp p s =
     (case tp_deref s p of
        None \<Rightarrow> s
      | Some tv \<Rightarrow>
          if tv_role tv \<noteq> BATADV_TP_SENDER
             \<or> batadv_orig_hash_find k bp (tv_other_end tv) = None
             \<or> batadv_primary_if_get_selected bp = None
          then tp_send_out k p
                 (tp_upd p (\<lambda>v. v\<lparr>tv_reason := BATADV_TP_REASON_DST_UNREACHABLE\<rparr>) s)
          else tp_upd p (\<lambda>v. (batadv_tp_reset_sender_timer k v)
                              \<lparr>tv_finish_work := True, tv_thread := Tp_thread_loop\<rparr>) s)"

definition tp_send_iter ::
    "'k tp_kenv_scheme \<Rightarrow> bytes \<Rightarrow> mac \<Rightarrow> nat \<Rightarrow> batadv_priv_tp \<Rightarrow> batadv_priv_tp" where
  "tp_send_iter k prerandom src p s =
     (case tp_deref s p of
        None \<Rightarrow> s
      | Some tv \<Rightarrow>
          if tv_sending tv = 0 then tp_send_out k p s
          else if \<not> batadv_tp_avail tv BATADV_TP_PLEN then s
          else
            (case batadv_tp_send_msg k prerandom src (tv_other_end tv) (tv_last_sent tv)
                    (unat BATADV_TP_PLEN + 10) (tv_session tv) (tv_icmp_uid tv) (now_msecs k) tv of
               (err, tv, calls) \<Rightarrow>
                 let s = s\<lparr>tp_calls := tp_calls s @ calls\<rparr> in
                 if err \<noteq> 0 \<and> err \<noteq> BATADV_TP_REASON_CANT_SEND then
                   tp_send_out k p (tp_upd p (\<lambda>_. batadv_tp_sender_shutdown err tv) s)
                 else tp_upd p (\<lambda>_. if err = 0 then tv\<lparr>tv_last_sent := tv_last_sent tv + BATADV_TP_PLEN\<rparr>
                                     else tv) s))"

definition batadv_tp_start_kthread ::
    "'k kenv_scheme \<Rightarrow> bool \<Rightarrow> nat \<Rightarrow> batadv_priv_tp \<Rightarrow> batadv_priv_tp" where
  "batadv_tp_start_kthread k kthread_ok p s =
     (case tp_deref s p of
        None \<Rightarrow> s
      | Some tv \<Rightarrow>
          let s = batadv_tp_vars_get p s in
          if \<not> kthread_ok then
            let s = batadv_tp_batctl_error_notify k BATADV_TP_REASON_MEMORY_ERROR (tv_other_end tv)
                      (batadv_tp_session_cookie (tv_session tv) (tv_icmp_uid tv)) s;
                s = batadv_tp_vars_put p s;
                s = batadv_tp_sender_cleanup p s in
            tp_call (Tp_complete p) s
          else tp_upd p (\<lambda>v. v\<lparr>tv_thread := Tp_thread_new\<rparr>) s)"

text \<open>
  The new session starts as the memory \<open>mem\<close> the allocator returned (\<open>None\<close> on failure);
  fields that are not assigned here keep what that memory holds.
\<close>

definition tp_sender_new ::
    "'k kenv_scheme \<Rightarrow> mac \<Rightarrow> u32 \<Rightarrow> u8 \<times> u8 \<Rightarrow> u8 \<Rightarrow> batadv_tp_vars \<Rightarrow> batadv_tp_vars" where
  "tp_sender_new k dst test_length session_id icmp_uid mem =
     mem\<lparr>tv_other_end := dst, tv_refcount := 3, tv_role := BATADV_TP_SENDER, tv_sending := 1,
         tv_session := session_id, tv_icmp_uid := icmp_uid, tv_last_sent := BATADV_TP_FIRST_SEQ,
         tv_last_acked := BATADV_TP_FIRST_SEQ, tv_fast_recovery := False,
         tv_recover := BATADV_TP_FIRST_SEQ, tv_cwnd := BATADV_TP_PLEN * 3,
         tv_ss_threshold := BATADV_TP_AWND, tv_rto := 1000, tv_srtt := 0, tv_rttvar := 0,
         tv_tot_sent := 0, tv_timer := None, tv_start_time := jiffies k, tv_unacked_list := [],
         tv_prerandom_offset := 0, tv_linked := True, tv_thread := Tp_no_thread,
         tv_finish_work := False,
         tv_test_length := (if test_length = 0 then BATADV_TP_DEF_TEST_LENGTH else test_length)\<rparr>"

definition batadv_tp_start ::
    "'k kenv_scheme \<Rightarrow> batadv_priv \<Rightarrow> mac \<Rightarrow> u32 \<Rightarrow> u8 \<times> u8 \<Rightarrow> u8 \<Rightarrow> batadv_tp_vars option \<Rightarrow> bool
      \<Rightarrow> batadv_priv_tp \<Rightarrow> batadv_priv_tp" where
  "batadv_tp_start k bp dst test_length session_id icmp_uid mem kthread_ok s =
     (let session_cookie = batadv_tp_session_cookie session_id icmp_uid;
          fail = (\<lambda>reason. batadv_tp_batctl_error_notify k reason dst session_cookie) in
      if bp_mesh_state bp \<noteq> BATADV_MESH_ACTIVE then fail BATADV_TP_REASON_DST_UNREACHABLE s
      else if batadv_tp_list_find s dst \<noteq> None then fail BATADV_TP_REASON_ALREADY_ONGOING s
      else if tp_num s = BATADV_TP_MAX_NUM then fail BATADV_TP_REASON_TOO_MANY s
      else (case mem of
              None \<Rightarrow> fail BATADV_TP_REASON_MEMORY_ERROR s
            | Some mem \<Rightarrow>
                let s = s\<lparr>tp_num := tp_num s + 1,
                          tp_objs := tp_sender_new k dst test_length session_id icmp_uid mem # tp_objs s\<rparr>;
                    s = batadv_tp_start_kthread k kthread_ok (tv_ptr mem) s in
                batadv_tp_vars_put (tv_ptr mem) s))"

definition batadv_tp_stop ::
    "'k kenv_scheme \<Rightarrow> batadv_priv \<Rightarrow> mac \<Rightarrow> u8 \<Rightarrow> batadv_priv_tp \<Rightarrow> batadv_priv_tp" where
  "batadv_tp_stop k bp dst return_value s =
     (case batadv_orig_hash_find k bp dst of
        None \<Rightarrow> s
      | Some orig_node \<Rightarrow>
          (case batadv_tp_list_find s (on_orig orig_node) of
             None \<Rightarrow> s
           | Some tv \<Rightarrow> tp_upd (tv_ptr tv) (batadv_tp_sender_shutdown return_value) s))"

section \<open>Receiving\<close>

definition batadv_tp_reset_receiver_timer :: "'k kclock_scheme \<Rightarrow> batadv_tp_vars \<Rightarrow> batadv_tp_vars" where
  "batadv_tp_reset_receiver_timer k tv =
     tv\<lparr>tv_timer := Some (jiffies k + msecs_to_jiffies k BATADV_TP_RECV_TIMEOUT)\<rparr>"

definition batadv_tp_receiver_shutdown :: "'k kclock_scheme \<Rightarrow> nat \<Rightarrow> batadv_priv_tp \<Rightarrow> batadv_priv_tp" where
  "batadv_tp_receiver_shutdown k p s =
     (case tp_deref s p of
        None \<Rightarrow> s
      | Some tv \<Rightarrow>
          let s = tp_upd p (\<lambda>v. v\<lparr>tv_timer := None\<rparr>) s in
          if \<not> batadv_has_timed_out (kclock.truncate k) (tv_last_recv_time tv) BATADV_TP_RECV_TIMEOUT
          then tp_upd p (batadv_tp_reset_receiver_timer k) s
          else
            let s = batadv_tp_list_detach p s;
                s = tp_upd p (\<lambda>v. v\<lparr>tv_unacked_list := []\<rparr>) s in
            batadv_tp_vars_put p s)"

definition batadv_tp_send_ack ::
    "'k tp_kenv_scheme \<Rightarrow> batadv_priv \<Rightarrow> mac \<Rightarrow> u32 \<Rightarrow> u32 \<Rightarrow> u8 \<times> u8 \<Rightarrow> u8 \<Rightarrow> u8 \<times> tp_call list" where
  "batadv_tp_send_ack k bp dst seq timestamp session socket_index =
     (case (batadv_orig_hash_find k bp dst, batadv_primary_if_get_selected bp) of
        (Some orig_node, Some primary_if) \<Rightarrow>
          if \<not> tk_alloc_ok k then (BATADV_TP_REASON_MEMORY_ERROR, [])
          else
            let icmp = \<lparr>tpp_packet_type = BATADV_ICMP, tpp_version = BATADV_COMPAT_VERSION,
                        tpp_ttl = BATADV_TTL, tpp_msg_type = BATADV_TP, tpp_dst = on_orig orig_node,
                        tpp_orig = hi_dev_addr primary_if, tpp_uid = socket_index,
                        tpp_subtype = BATADV_TP_ACK, tpp_session = session, tpp_seqno = seq,
                        tpp_timestamp = timestamp\<rparr> in
            (if tk_xmit k < 0 \<or> tk_xmit k = NET_XMIT_DROP then BATADV_TP_REASON_DST_UNREACHABLE else 0,
             [Tp_send_skb_to_orig (on_orig orig_node) (icmp_tp_packet_bytes icmp)])
      | _ \<Rightarrow> (BATADV_TP_REASON_DST_UNREACHABLE, []))"

text \<open>
  The list is walked from its end. \<^verbatim>\<open>list_add_tail(new, un)\<close> links the new entry directly
  before \<open>un\<close>. The result of the walk over the reversed list is the new reversed list, or
  \<open>None\<close> when no position was found.
\<close>

fun unacked_place :: "batadv_tp_unacked \<Rightarrow> batadv_tp_unacked list \<Rightarrow> batadv_tp_unacked list option" where
  "unacked_place new [] = None"
| "unacked_place new (un # uns) =
     (if un_seqno new = un_seqno un then
        Some ((if un_len new > un_len un then un\<lparr>un_len := un_len new\<rparr> else un) # uns)
      else if batadv_seq_before (un_seqno new) (un_seqno un)
      then map_option (\<lambda>uns. un # uns) (unacked_place new uns)
      else Some (un # new # uns))"

definition batadv_tp_handle_out_of_order ::
    "bool \<Rightarrow> u32 \<Rightarrow> u32 \<Rightarrow> batadv_tp_vars \<Rightarrow> batadv_tp_vars option" where
  "batadv_tp_handle_out_of_order alloc_ok seqno slen tv =
     (if \<not> alloc_ok then None
      else
        let new = \<lparr>un_seqno = seqno, un_len = ucast (slen - 10)\<rparr> in
        if tv_unacked_list tv = [] then Some (tv\<lparr>tv_unacked_list := [new]\<rparr>)
        else (case unacked_place new (rev (tv_unacked_list tv)) of
                Some uns \<Rightarrow> Some (tv\<lparr>tv_unacked_list := rev uns\<rparr>)
              | None \<Rightarrow> Some (tv\<lparr>tv_unacked_list := new # tv_unacked_list tv\<rparr>)))"

fun ack_unordered :: "u32 \<Rightarrow> batadv_tp_unacked list \<Rightarrow> u32 \<times> batadv_tp_unacked list" where
  "ack_unordered last_recv [] = (last_recv, [])"
| "ack_unordered last_recv (un # uns) =
     (if batadv_seq_before last_recv (un_seqno un) then (last_recv, un # uns)
      else
        let to_ack = un_seqno un + ucast (un_len un) - last_recv;
            last_recv = (if batadv_seq_before last_recv (un_seqno un + ucast (un_len un))
                         then last_recv + to_ack else last_recv) in
        ack_unordered last_recv uns)"

definition batadv_tp_ack_unordered :: "batadv_tp_vars \<Rightarrow> batadv_tp_vars" where
  "batadv_tp_ack_unordered tv =
     (case ack_unordered (tv_last_recv tv) (tv_unacked_list tv) of
        (last_recv, uns) \<Rightarrow> tv\<lparr>tv_last_recv := last_recv, tv_unacked_list := uns\<rparr>)"

definition batadv_tp_init_recv ::
    "'k kclock_scheme \<Rightarrow> batadv_priv \<Rightarrow> batadv_icmp_tp_packet \<Rightarrow> batadv_tp_vars option \<Rightarrow> batadv_priv_tp
      \<Rightarrow> batadv_tp_vars option \<times> batadv_priv_tp" where
  "batadv_tp_init_recv k bp icmp mem s =
     (if bp_mesh_state bp \<noteq> BATADV_MESH_ACTIVE then (None, s)
      else (case batadv_tp_list_find_session s (tpp_orig icmp) (tpp_session icmp) of
              Some tv \<Rightarrow> (Some tv, batadv_tp_vars_get (tv_ptr tv) s)
            | None \<Rightarrow>
                if tp_num s = BATADV_TP_MAX_NUM then (None, s)
                else (case mem of
                        None \<Rightarrow> (None, s)
                      | Some mem \<Rightarrow>
                          let tv = batadv_tp_reset_receiver_timer k
                                (mem\<lparr>tv_other_end := tpp_orig icmp, tv_role := BATADV_TP_RECEIVER,
                                     tv_session := tpp_session icmp, tv_last_recv := BATADV_TP_FIRST_SEQ,
                                     tv_unacked_list := [], tv_refcount := 3, tv_linked := True,
                                     tv_thread := Tp_no_thread, tv_finish_work := False\<rparr>) in
                          (Some tv, s\<lparr>tp_num := tp_num s + 1, tp_objs := tv # tp_objs s\<rparr>))))"

text \<open>What a data message does to a receiver: the new state, or \<open>None\<close> when it is not acknowledged.\<close>

definition tp_receive ::
    "bool \<Rightarrow> u64 \<Rightarrow> u32 \<Rightarrow> u32 \<Rightarrow> batadv_tp_vars \<Rightarrow> batadv_tp_vars \<times> bool" where
  "tp_receive alloc_ok now seqno slen tv =
     (let tv = tv\<lparr>tv_last_recv_time := now\<rparr> in
      if batadv_seq_before seqno (tv_last_recv tv) then (tv, True)
      else if seqno \<noteq> tv_last_recv tv then
        (case batadv_tp_handle_out_of_order alloc_ok seqno slen tv of
           None \<Rightarrow> (tv, False)
         | Some tv \<Rightarrow> (tv, True))
      else (batadv_tp_ack_unordered (tv\<lparr>tv_last_recv := tv_last_recv tv + (slen - 10)\<rparr>), True))"

definition batadv_tp_recv_msg ::
    "'k tp_kenv_scheme \<Rightarrow> batadv_priv \<Rightarrow> batadv_tp_vars option \<Rightarrow> bytes \<Rightarrow> batadv_priv_tp
      \<Rightarrow> batadv_priv_tp" where
  "batadv_tp_recv_msg k bp mem data s =
     (let icmp = get_icmp_tp_packet data;
          seqno = tpp_seqno icmp;
          (tp_vars, s) =
            (if seqno = BATADV_TP_FIRST_SEQ then batadv_tp_init_recv k bp icmp mem s
             else (case batadv_tp_list_find_session s (tpp_orig icmp) (tpp_session icmp) of
                     None \<Rightarrow> (None, s)
                   | Some tv \<Rightarrow> (Some tv, batadv_tp_vars_get (tv_ptr tv) s))) in
      case tp_vars of
        None \<Rightarrow> s
      | Some tv \<Rightarrow>
          let p = tv_ptr tv in
          if tv_role tv \<noteq> BATADV_TP_RECEIVER then batadv_tp_vars_put p s
          else
            let (tv', ack) = tp_receive (tk_alloc_ok k) (jiffies k) seqno (of_nat (length data)) tv;
                s = tp_upd p (\<lambda>v. tv'\<lparr>tv_refcount := tv_refcount v\<rparr>) s;
                calls = (if ack then snd (batadv_tp_send_ack k bp (tpp_orig icmp) (tv_last_recv tv')
                                           (tpp_timestamp icmp) (tpp_session icmp) (tpp_uid icmp))
                         else []) in
            batadv_tp_vars_put p (s\<lparr>tp_calls := tp_calls s @ calls\<rparr>))"

definition batadv_tp_meter_recv ::
    "'k tp_kenv_scheme \<Rightarrow> bytes \<Rightarrow> batadv_priv \<Rightarrow> batadv_tp_vars option \<Rightarrow> bytes \<Rightarrow> batadv_priv_tp
      \<Rightarrow> batadv_priv_tp kresult" where
  "batadv_tp_meter_recv k prerandom bp mem data s =
     (if bp_mesh_state bp \<noteq> BATADV_MESH_ACTIVE then Kret s
      else
        let icmp = get_icmp_tp_packet data in
        if tpp_subtype icmp = BATADV_TP_MSG then Kret (batadv_tp_recv_msg k bp mem data s)
        else if tpp_subtype icmp = BATADV_TP_ACK then batadv_tp_recv_ack k prerandom bp data s
        else Kret s)"

text \<open>
  Stopping everything. The sessions are collected into an array of \<open>BATADV_TP_MAX_NUM\<close>
  entries. For a sender the caller waits until its thread has completed
  (\<^verbatim>\<open>wait_for_completion\<close>): \<open>rounds\<close> are the iterations the thread of each session makes
  meanwhile, each under its own circumstances (clock and allocator, the random bytes, the address of
  the primary interface). \<open>None\<close> is that the caller is still waiting after them.
\<close>

type_synonym tp_round = "tp_kenv \<times> bytes \<times> mac"

definition tp_thread_running :: "nat \<Rightarrow> batadv_priv_tp \<Rightarrow> bool" where
  "tp_thread_running p s =
     (case tp_deref s p of None \<Rightarrow> False | Some tv \<Rightarrow> tv_thread tv \<noteq> Tp_no_thread)"

fun tp_wait_finished :: "tp_round list \<Rightarrow> nat \<Rightarrow> batadv_priv_tp \<Rightarrow> batadv_priv_tp option" where
  "tp_wait_finished [] p s = (if tp_thread_running p s then None else Some s)"
| "tp_wait_finished ((k, prerandom, src) # rounds) p s =
     (if tp_thread_running p s then tp_wait_finished rounds p (tp_send_iter k prerandom src p s)
      else Some s)"

definition tp_stop_one ::
    "'k kenv_scheme \<Rightarrow> batadv_priv \<Rightarrow> tp_round list \<Rightarrow> nat \<Rightarrow> batadv_priv_tp \<Rightarrow> batadv_priv_tp option" where
  "tp_stop_one k bp rounds p s =
     (case tp_deref s p of
        None \<Rightarrow> Some s
      | Some tv \<Rightarrow>
          (case tv_role tv of
             BATADV_TP_SENDER \<Rightarrow>
               let s = tp_upd p (batadv_tp_sender_shutdown BATADV_TP_REASON_CANCEL) s;
                   s = (if tv_thread tv = Tp_thread_new then tp_send_begin k bp p s else s) in
               tp_wait_finished rounds p s
           | BATADV_TP_RECEIVER \<Rightarrow>
               let s = batadv_tp_list_detach p s in
               if tv_timer tv \<noteq> None
               then Some (batadv_tp_vars_put p (tp_upd p (\<lambda>v. v\<lparr>tv_timer := None\<rparr>) s))
               else Some s))"

fun tp_stop_list ::
    "'k kenv_scheme \<Rightarrow> batadv_priv \<Rightarrow> (nat \<Rightarrow> tp_round list) \<Rightarrow> nat list \<Rightarrow> batadv_priv_tp
      \<Rightarrow> batadv_priv_tp option" where
  "tp_stop_list k bp rounds [] s = Some s"
| "tp_stop_list k bp rounds (p # ps) s =
     (case tp_stop_one k bp (rounds p) p s of
        None \<Rightarrow> None
      | Some s \<Rightarrow> tp_stop_list k bp rounds ps s)"

definition batadv_tp_stop_all ::
    "'k kenv_scheme \<Rightarrow> batadv_priv \<Rightarrow> (nat \<Rightarrow> tp_round list) \<Rightarrow> batadv_priv_tp \<Rightarrow> batadv_priv_tp option" where
  "batadv_tp_stop_all k bp rounds s =
     tp_stop_list k bp rounds
       (take (unat BATADV_TP_MAX_NUM) (map tv_ptr (filter tv_linked (tp_objs s)))) s"

end
