(* ===== verification/Tp_Properties.thy ===== *)
theory Tp_Properties
  imports Tp_Meter
begin

text \<open>
  Properties of the throughput meter (\<open>Tp_Meter\<close>): what the receiver acknowledges, the exact
  retransmission timeout and congestion window, the accounting of sessions over every
  interleaving of the sending threads, timers and received packets, and the stopping of
  sessions.
\<close>

section \<open>The receiver acknowledges only what it received\<close>

text \<open>A message, as the kernel delivers it: allocation outcome, time, sequence number, length.\<close>

type_synonym tp_msg = "bool \<times> u64 \<times> u32 \<times> u32"

definition msg_bytes :: "tp_msg \<Rightarrow> u32 set" where
  "msg_bytes m = (case m of (_, _, seqno, slen) \<Rightarrow> {p. p - seqno < slen - 10})"

definition un_bytes :: "batadv_tp_unacked \<Rightarrow> u32 set" where
  "un_bytes un = {p. p - un_seqno un < ucast (un_len un)}"

definition tp_recv_step :: "tp_msg \<Rightarrow> batadv_tp_vars \<Rightarrow> batadv_tp_vars" where
  "tp_recv_step m tv = (case m of (alloc_ok, now, seqno, slen) \<Rightarrow> fst (tp_receive alloc_ok now seqno slen tv))"

text \<open>The bytes a change of \<^verbatim>\<open>last_recv\<close> acknowledges.\<close>

definition between :: "u32 \<Rightarrow> u32 \<Rightarrow> u32 set" where
  "between a b = {p. p - a < b - a}"

fun tp_acked :: "tp_msg list \<Rightarrow> batadv_tp_vars \<Rightarrow> u32 set" where
  "tp_acked [] tv = {}"
| "tp_acked (m # ms) tv =
     between (tv_last_recv tv) (tv_last_recv (tp_recv_step m tv)) \<union> tp_acked ms (tp_recv_step m tv)"

lemma between_self [simp]: "between a a = {}"
  by (simp add: between_def)

lemma seq_before_iff: "batadv_seq_before x y \<longleftrightarrow> 2 ^ 31 < x - (y :: u32)"
  by (simp add: batadv_seq_before_def Let_def)

lemma seq_before_unat: "batadv_seq_before x y \<longleftrightarrow> 0 < unat (y - x :: u32) \<and> unat (y - x) < 2 ^ 31"
proof -
  have "unat (x - y) = (if x = y then 0 else 2 ^ 32 - unat (y - x))"
    using unat_uminus_u32 [of "y - x"] by auto
  moreover have "unat (y - x) < 2 ^ 32" using unat_less_u32 [of "y - x"] by simp
  moreover have "y - x = 0 \<longleftrightarrow> x = y" by auto
  moreover have "(2 ^ 31 :: u32) < x - y \<longleftrightarrow> 2 ^ 31 < unat (x - y)" by (simp add: word_less_nat_alt)
  ultimately show ?thesis by (auto simp: seq_before_iff unat_gt_0 split: if_splits)
qed

text \<open>Advancing over an entry that starts at or before \<^verbatim>\<open>last_recv\<close> stays inside the entry.\<close>

lemma between_un:
  assumes "\<not> batadv_seq_before r (un_seqno un)" and "batadv_seq_before r (un_seqno un + ucast (un_len un))"
  shows "between r (un_seqno un + ucast (un_len un)) \<subseteq> un_bytes un"
proof -
  define d where "d = r - un_seqno un"
  define l where "l = (ucast (un_len un) :: u32)"
  have l: "unat l < 65536" using unat_less_u16 [of "un_len un"] by (simp add: l_def unsigned_ucast_eq take_bit_nat_eq_self)
  have ld: "un_seqno un + l - r = l - d" by (simp add: d_def algebra_simps)
  have e: "0 < unat (l - d)" "unat (l - d) < 2 ^ 31"
    using assms(2) by (simp_all add: seq_before_unat l_def [symmetric] ld)
  have d: "unat d \<le> 2 ^ 31"
    using assms(1) by (simp add: seq_before_iff d_def word_less_nat_alt not_less)
  have dl: "d \<le> l"
  proof (rule ccontr)
    assume "\<not> d \<le> l"
    then have "unat (l - d) = 2 ^ 32 - (unat d - unat l)"
      using unat_uminus_u32 [of "d - l"] unat_sub [of l d] by (auto simp: not_le)
    then show False using e d by simp
  qed
  show ?thesis
  proof
    fix p assume "p \<in> between r (un_seqno un + ucast (un_len un))"
    then have p: "p - r < l - d" by (simp add: between_def l_def [symmetric] ld)
    have "p - un_seqno un = (p - r) + d" by (simp add: d_def)
    moreover have "unat (p - r) + unat d < unat l"
      using p dl by (simp add: word_less_nat_alt unat_sub)
    moreover have "unat ((p - r) + d) = unat (p - r) + unat d"
      using \<open>unat (p - r) + unat d < unat l\<close> l by (simp add: unat_word_ariths)
    ultimately show "p \<in> un_bytes un" by (simp only: un_bytes_def l_def [symmetric] word_less_nat_alt mem_Collect_eq)
  qed
qed


lemma between_split: "between a c \<subseteq> between a b \<union> between b c"
proof
  fix p assume "p \<in> between a c"
  then have p: "unat (p - a) < unat (c - a)" by (simp add: between_def word_less_nat_alt)
  show "p \<in> between a b \<union> between b c"
  proof (cases "unat (p - a) < unat (b - a)")
    case True
    then show ?thesis by (simp add: between_def word_less_nat_alt)
  next
    case False
    then have "unat (p - b) = unat (p - a) - unat (b - a)" "unat (c - b) = unat (c - a) - unat (b - a)"
      using p unat_sub [of "b - a" "p - a"] unat_sub [of "b - a" "c - a"] by (simp_all add: word_le_nat_alt)
    then show ?thesis using p False by (simp add: between_def word_less_nat_alt)
  qed
qed

text \<open>
  The walk over the list advances step by step; every byte it passes is in an entry it
  removes, and what it keeps was in the list.
\<close>

fun unordered_acked :: "u32 \<Rightarrow> batadv_tp_unacked list \<Rightarrow> u32 set" where
  "unordered_acked r [] = {}"
| "unordered_acked r (un # uns) =
     (if batadv_seq_before r (un_seqno un) then {}
      else let e = un_seqno un + ucast (un_len un) in
           if batadv_seq_before r e then between r e \<union> unordered_acked e uns else unordered_acked r uns)"

lemma unordered_acked_sub: "unordered_acked r uns \<subseteq> (\<Union>un \<in> set uns. un_bytes un)"
proof (induction uns arbitrary: r)
  case (Cons un uns)
  show ?case
    using Cons.IH [of r] Cons.IH [of "un_seqno un + ucast (un_len un)"] between_un [of r un]
    by (auto simp: Let_def)
qed simp

lemma ack_unordered_keeps: "set (snd (ack_unordered r uns)) \<subseteq> set uns"
proof (induction uns arbitrary: r)
  case (Cons un uns)
  then show ?case by (auto simp: Let_def)
qed simp

lemma ack_unordered_passes: "between r (fst (ack_unordered r uns)) \<subseteq> unordered_acked r uns"
proof (induction uns arbitrary: r)
  case (Cons un uns)
  let ?e = "un_seqno un + ucast (un_len un)"
  show ?case
    using Cons.IH [of r] Cons.IH [of ?e] between_split [of r "fst (ack_unordered ?e uns)" ?e]
    by (auto simp: Let_def)
qed simp

lemma un_bytes_new: "un_bytes \<lparr>un_seqno = seqno, un_len = ucast (slen - 10)\<rparr> \<subseteq> msg_bytes (a, t, seqno, slen)"
proof -
  have "unat (ucast (ucast (w :: u32) :: u16) :: u32) \<le> unat w" for w
    by (simp add: unsigned_ucast_eq unsigned_take_bit_eq take_bit_nat_less_eq_self)
  then show ?thesis by (auto simp: un_bytes_def msg_bytes_def word_less_nat_alt intro: less_le_trans)
qed

text \<open>Every entry of the list stays inside some message of \<open>M\<close>.\<close>

definition un_within :: "tp_msg set \<Rightarrow> batadv_tp_unacked \<Rightarrow> bool" where
  "un_within M un \<longleftrightarrow> (\<exists>m \<in> M. un_bytes un \<subseteq> msg_bytes m)"

abbreviation uns_within :: "tp_msg set \<Rightarrow> batadv_tp_unacked list \<Rightarrow> bool" where
  "uns_within M \<equiv> list_all (un_within M)"

lemma un_within_len: "un_seqno new = un_seqno un \<Longrightarrow> un_within M (un\<lparr>un_len := un_len new\<rparr>) = un_within M new"
  by (simp add: un_within_def un_bytes_def)

lemma unacked_place_within:
  "unacked_place new uns = Some uns' \<Longrightarrow> uns_within M uns \<Longrightarrow> un_within M new \<Longrightarrow> uns_within M uns'"
proof (induction uns arbitrary: uns')
  case (Cons un uns)
  then show ?case by (auto simp: un_within_len split: if_splits)
qed simp

lemma out_of_order_within:
  assumes "batadv_tp_handle_out_of_order ok seqno slen tv = Some tv'"
    and "uns_within M (tv_unacked_list tv)" and "un_within M \<lparr>un_seqno = seqno, un_len = ucast (slen - 10)\<rparr>"
  shows "uns_within M (tv_unacked_list tv')" and "tv_last_recv tv' = tv_last_recv tv"
  using assms unacked_place_within [of "\<lparr>un_seqno = seqno, un_len = ucast (slen - 10)\<rparr>"
      "rev (tv_unacked_list tv)" _ M]
  by (auto simp: batadv_tp_handle_out_of_order_def Let_def split: if_splits option.splits)

lemma un_within_mono: "un_within M un \<Longrightarrow> M \<subseteq> N \<Longrightarrow> un_within N un"
  unfolding un_within_def by blast

lemma tp_recv_step_within:
  assumes "uns_within M (tv_unacked_list tv)"
  shows "uns_within (insert m M) (tv_unacked_list (tp_recv_step m tv))"
    and "between (tv_last_recv tv) (tv_last_recv (tp_recv_step m tv)) \<subseteq> (\<Union>m \<in> insert m M. msg_bytes m)"
proof -
  obtain alloc_ok now seqno slen where m: "m = (alloc_ok, now, seqno, slen)" by (metis prod_cases4)
  let ?tv = "tv\<lparr>tv_last_recv_time := now\<rparr>"
  have old: "uns_within (insert m M) (tv_unacked_list tv)"
    using assms un_within_mono [of M _ "insert m M"] by (auto simp: list_all_iff)
  have new: "un_within (insert m M) \<lparr>un_seqno = seqno, un_len = ucast (slen - 10)\<rparr>"
    unfolding un_within_def using un_bytes_new [of seqno slen alloc_ok now] m by blast
  have step: "tp_recv_step m tv =
      (if batadv_seq_before seqno (tv_last_recv tv) then ?tv
       else if seqno \<noteq> tv_last_recv tv
       then (case batadv_tp_handle_out_of_order alloc_ok seqno slen ?tv of None \<Rightarrow> ?tv | Some tv \<Rightarrow> tv)
       else batadv_tp_ack_unordered (?tv\<lparr>tv_last_recv := seqno + (slen - 10)\<rparr>))"
    by (simp add: m tp_recv_step_def tp_receive_def Let_def split: option.split)
  consider (dup) "tp_recv_step m tv = ?tv"
    | (ooo) tv' where "batadv_tp_handle_out_of_order alloc_ok seqno slen ?tv = Some tv'" "tp_recv_step m tv = tv'"
    | (inorder) "seqno = tv_last_recv tv"
        "tp_recv_step m tv = batadv_tp_ack_unordered (?tv\<lparr>tv_last_recv := seqno + (slen - 10)\<rparr>)"
    using step
    by (cases "batadv_seq_before seqno (tv_last_recv tv)"; cases "seqno = tv_last_recv tv";
        cases "batadv_tp_handle_out_of_order alloc_ok seqno slen ?tv") auto
  then have "uns_within (insert m M) (tv_unacked_list (tp_recv_step m tv))
    \<and> between (tv_last_recv tv) (tv_last_recv (tp_recv_step m tv)) \<subseteq> (\<Union>m \<in> insert m M. msg_bytes m)"
  proof cases
    case dup
    then show ?thesis using old by simp
  next
    case (ooo tv')
    then show ?thesis using out_of_order_within [OF ooo(1) _ new] old by simp
  next
    case inorder
    let ?r = "seqno + (slen - 10)"
    obtain r' uns' where a: "ack_unordered ?r (tv_unacked_list tv) = (r', uns')" by fastforce
    have "between seqno ?r \<subseteq> msg_bytes m" by (auto simp: between_def msg_bytes_def m)
    moreover have "between ?r r' \<subseteq> (\<Union>un \<in> set (tv_unacked_list tv). un_bytes un)"
      using ack_unordered_passes [of ?r "tv_unacked_list tv"] unordered_acked_sub [of ?r "tv_unacked_list tv"] a
      by auto
    moreover have "(\<Union>un \<in> set (tv_unacked_list tv). un_bytes un) \<subseteq> (\<Union>m \<in> M. msg_bytes m)"
      using assms unfolding list_all_iff un_within_def by blast
    ultimately have "between seqno ?r \<union> between ?r r' \<subseteq> (\<Union>m \<in> insert m M. msg_bytes m)"
      unfolding UN_insert by (intro Un_mono) simp_all
    then have "between seqno r' \<subseteq> (\<Union>m \<in> insert m M. msg_bytes m)"
      by (rule subset_trans [OF between_split])
    moreover have "uns_within (insert m M) uns'"
      using old ack_unordered_keeps [of ?r "tv_unacked_list tv"] a by (auto simp: list_all_iff)
    ultimately show ?thesis using inorder a by (simp add: batadv_tp_ack_unordered_def)
  qed
  then show "uns_within (insert m M) (tv_unacked_list (tp_recv_step m tv))"
    "between (tv_last_recv tv) (tv_last_recv (tp_recv_step m tv)) \<subseteq> (\<Union>m \<in> insert m M. msg_bytes m)"
    by blast+
qed

lemma tp_acked_within:
  "uns_within M (tv_unacked_list tv) \<Longrightarrow> tp_acked ms tv \<subseteq> (\<Union>m \<in> M \<union> set ms. msg_bytes m)"
proof (induction ms arbitrary: tv M)
  case (Cons m ms)
  show ?case
    using Cons.IH [OF tp_recv_step_within(1) [OF Cons.prems, of m]] tp_recv_step_within(2) [OF Cons.prems, of m]
    by simp blast
qed simp


text \<open>
  C29: The receiver never acknowledges a byte it has not received. Whatever messages of a
  session arrive, in whatever order, with whatever overlaps, losses, repetitions and failing
  allocations, every byte that \<^verbatim>\<open>last_recv\<close>, the acknowledged sequence number, moves over is
  a payload byte of one of the messages, also when sequence numbers wrap around.
\<close>

theorem tp_acks_only_received:
  "tp_acked ms (tv\<lparr>tv_unacked_list := []\<rparr>) \<subseteq> (\<Union>m \<in> set ms. msg_bytes m)"
  using tp_acked_within [of "{}" "tv\<lparr>tv_unacked_list := []\<rparr>" ms] by simp

text \<open>
  Out of order messages are not kept in ascending order: a message that continues the
  last stored one is linked before it. When the second, the third and then the first of three
  adjacent messages arrive, all their bytes are there, but only the first message is
  acknowledged, and the sender has to send the others again.
\<close>

theorem tp_receiver_forgets:
  "tv_last_recv (fold tp_recv_step
      [(True, t1, r + 1476, 1486), (True, t2, r + 2 * 1476, 1486), (True, t3, r, 1486)]
      (tv\<lparr>tv_unacked_list := [], tv_last_recv := r\<rparr>)) = r + 1476"
  by (simp add: tp_recv_step_def tp_receive_def batadv_tp_handle_out_of_order_def batadv_tp_ack_unordered_def
      batadv_seq_before_def Let_def)

section \<open>The retransmission timeout and the congestion window\<close>

lemma update_rto_step:
  assumes "unat rtt \<le> r" and "r < 2 ^ 28" and "unat (tv_srtt tv) \<le> 8 * r" and "unat (tv_rttvar tv) \<le> 4 * r"
  defines "tv' \<equiv> batadv_tp_update_rto rtt tv"
  shows "unat (tv_srtt tv') = (if tv_srtt tv = 0 then 8 * unat rtt
           else unat (tv_srtt tv) - unat (tv_srtt tv) div 8 + unat rtt)"
    and "unat (tv_srtt tv') \<le> 8 * r" and "unat (tv_rttvar tv') \<le> 4 * r"
    and "unat (tv_rto tv') = unat (tv_srtt tv') div 8 + unat (tv_rttvar tv')"
proof -
  let ?s = "unat (tv_srtt tv)" and ?v = "unat (tv_rttvar tv)" and ?m = "unat rtt"
  have db: "unat (drop_bit n w) = unat w div 2 ^ n" for n and w :: u32
    using unat_less_u32 [of w] by (subst unsigned_drop_bit_eq) (simp add: drop_bit_eq_div take_bit_nat_eq_self)
  have pb: "unat (push_bit n w) = unat w * 2 ^ n" if "unat w * 2 ^ n < 2 ^ 32" for n and w :: u32
    using that by (subst unsigned_push_bit_eq) (simp add: push_bit_eq_mult take_bit_nat_eq_self mult.commute)
  have wi: "unat (word_of_int (int n) :: u32) = n" if "n < 4294967296" for n
    using that unat_of_nat_u32 [of n] by simp
  have r: "r < 268435456" using assms(2) by simp
  have ab: "nat \<bar>int a - int b\<bar> \<le> r" if "a \<le> r" "b \<le> r" for a b :: nat using that by auto
  have err: "nat \<bar>int ?m - int (?s div 8)\<bar> \<le> r" by (rule ab) (use assms(1,3) in auto)
  have s: "unat (tv_srtt tv') = (if tv_srtt tv = 0 then 8 * ?m else ?s - ?s div 8 + ?m)
    \<and> unat (tv_rttvar tv') = (if tv_srtt tv = 0 then 2 * ?m else ?v - ?v div 4 + nat \<bar>int ?m - int (?s div 8)\<bar>)
    \<and> tv_rto tv' = drop_bit 3 (tv_srtt tv') + tv_rttvar tv'"
  proof (cases "tv_srtt tv = 0")
    case True
    then show ?thesis
      using pb [of rtt 3] pb [of rtt 1] assms(1,2) by (simp add: tv'_def batadv_tp_update_rto_def)
  next
    case False
    have e1: "int ?s + (int ?m - int (?s div 8)) = int (?s - ?s div 8 + ?m)" by (simp add: of_nat_diff)
    have e2: "int ?v + (\<bar>int ?m - int (?s div 8)\<bar> - int (?v div 4)) = int (?v - ?v div 4 + nat \<bar>int ?m - int (?s div 8)\<bar>)"
      by (simp add: of_nat_diff)
    have b: "?s - ?s div 8 + ?m < 4294967296" "?v - ?v div 4 + nat \<bar>int ?m - int (?s div 8)\<bar> < 4294967296"
      using assms(1,3,4) r err by linarith+
    have "tv_srtt tv' = word_of_int (int ?s + (int ?m - int (unat (drop_bit 3 (tv_srtt tv)))))"
      "tv_rttvar tv' = word_of_int (int ?v + (\<bar>int ?m - int (unat (drop_bit 3 (tv_srtt tv)))\<bar>
         - int (unat (drop_bit 2 (tv_rttvar tv)))))"
      "tv_rto tv' = drop_bit 3 (tv_srtt tv') + tv_rttvar tv'"
      using False by (simp_all add: tv'_def batadv_tp_update_rto_def Let_def)
    moreover have "unat (drop_bit 3 (tv_srtt tv)) = ?s div 8" "unat (drop_bit 2 (tv_rttvar tv)) = ?v div 4"
      by (simp_all only: db) simp_all
    ultimately show ?thesis
      using False by (simp only: e1 e2 wi [OF b(1)] wi [OF b(2)] if_False)
  qed
  then show "unat (tv_srtt tv') = (if tv_srtt tv = 0 then 8 * ?m else ?s - ?s div 8 + ?m)" by simp
  show bs: "unat (tv_srtt tv') \<le> 8 * r" using s assms(1,3) by (auto split: if_splits)
  show bv: "unat (tv_rttvar tv') \<le> 4 * r"
  proof (cases "tv_srtt tv = 0")
    case False
    then have "unat (tv_rttvar tv') = ?v - ?v div 4 + nat \<bar>int ?m - int (?s div 8)\<bar>" using s by (simp only: if_False)
    then show ?thesis using err assms(4) by linarith
  qed (use s assms(1) in simp)
  show "unat (tv_rto tv') = unat (tv_srtt tv') div 8 + unat (tv_rttvar tv')"
  proof -
    have rto: "tv_rto tv' = drop_bit 3 (tv_srtt tv') + tv_rttvar tv'" using s by blast
    have d: "unat (drop_bit 3 (tv_srtt tv')) = unat (tv_srtt tv') div 8" by (simp only: db) simp
    have "unat (tv_srtt tv') div 8 + unat (tv_rttvar tv') < 2 ^ 32" using bs bv r by simp
    then show ?thesis by (simp only: rto unat_word_ariths d) simp
  qed
qed

text \<open>
  The retransmission timeout is computed exactly, without a wrap of the 32 bit fields,
  as long as the samples stay below \<open>2 ^ 28\<close> ms: after any non-empty sequence of samples of at most
  \<open>r\<close> ms the smoothed round trip time is at most \<open>r\<close>, and the timeout is the smoothed time plus the
  scaled variation, at most \<open>5 * r\<close>.
\<close>

theorem tp_rto_bounded:
  assumes "\<forall>rtt \<in> set rtts. unat rtt \<le> r" and "r < 2 ^ 28" and "rtts \<noteq> []"
  shows "unat (tv_rto (fold batadv_tp_update_rto rtts (tv\<lparr>tv_srtt := 0, tv_rttvar := 0\<rparr>))) \<le> 5 * r
    \<and> unat (tv_srtt (fold batadv_tp_update_rto rtts (tv\<lparr>tv_srtt := 0, tv_rttvar := 0\<rparr>))) div 8 \<le> r
    \<and> unat (tv_rto (fold batadv_tp_update_rto rtts (tv\<lparr>tv_srtt := 0, tv_rttvar := 0\<rparr>))) =
        unat (tv_srtt (fold batadv_tp_update_rto rtts (tv\<lparr>tv_srtt := 0, tv_rttvar := 0\<rparr>))) div 8
        + unat (tv_rttvar (fold batadv_tp_update_rto rtts (tv\<lparr>tv_srtt := 0, tv_rttvar := 0\<rparr>)))"
proof -
  have "unat (tv_srtt tv') \<le> 8 * r \<and> unat (tv_rttvar tv') \<le> 4 * r
      \<and> (rtts \<noteq> [] \<longrightarrow> unat (tv_rto tv') = unat (tv_srtt tv') div 8 + unat (tv_rttvar tv'))"
    if "unat (tv_srtt tv) \<le> 8 * r" "unat (tv_rttvar tv) \<le> 4 * r" "tv' = fold batadv_tp_update_rto rtts tv" for tv tv'
    using assms(1) that
  proof (induction rtts arbitrary: tv tv' rule: rev_induct)
    case (snoc x xs)
    let ?t = "fold batadv_tp_update_rto xs tv"
    have t: "unat (tv_srtt ?t) \<le> 8 * r" "unat (tv_rttvar ?t) \<le> 4 * r"
      using snoc.IH [OF _ snoc.prems(2,3) refl] snoc.prems(1) by simp_all
    then show ?case using update_rto_step(2-4) [OF _ assms(2) t, of x] snoc.prems(1,4) by simp
  qed simp
  from this [OF _ _ refl, of "tv\<lparr>tv_srtt := 0, tv_rttvar := 0\<rparr>"] show ?thesis using assms(3) by auto
qed

lemma tp_cwnd_bounds:
  "mn \<le> batadv_tp_cwnd b i mn" "mn \<le> BATADV_TP_AWND \<Longrightarrow> batadv_tp_cwnd b i mn \<le> BATADV_TP_AWND"
  by (auto simp: batadv_tp_cwnd_def Let_def)


text \<open>
  The congestion window always lies between one packet and the advertised window. The
  update of the window after new data never leaves that range and never shrinks it; it
  divides by zero exactly when the window has reached the advertised window while the slow
  start threshold is below it, because \<^verbatim>\<open>cwnd << 3\<close> is then zero in 32 bits.
\<close>

theorem tp_update_cwnd_spec:
  assumes "BATADV_TP_PLEN \<le> tv_cwnd tv" and "tv_cwnd tv \<le> BATADV_TP_AWND"
  shows "(batadv_tp_update_cwnd BATADV_TP_PLEN tv = Kernel_bug \<longleftrightarrow>
            tv_cwnd tv = BATADV_TP_AWND \<and> tv_ss_threshold tv < BATADV_TP_AWND)
    \<and> (\<forall>tv'. batadv_tp_update_cwnd BATADV_TP_PLEN tv = Kret tv' \<longrightarrow>
          tv_cwnd tv \<le> tv_cwnd tv' \<and> tv_cwnd tv' \<le> BATADV_TP_AWND)"
proof -
  have z: "push_bit 3 (tv_cwnd tv) = 0 \<longleftrightarrow> tv_cwnd tv = BATADV_TP_AWND"
  proof -
    have c: "1476 \<le> unat (tv_cwnd tv)" "unat (tv_cwnd tv) \<le> 2 ^ 29"
      using assms by (simp_all add: tp_consts word_le_nat_alt)
    have "unat (push_bit 3 (tv_cwnd tv)) = unat (tv_cwnd tv) * 8 mod 2 ^ 32"
      by (subst unsigned_push_bit_eq) (simp add: push_bit_eq_mult take_bit_eq_mod mult.commute)
    moreover have "n * 8 mod 2 ^ 32 = 0 \<longleftrightarrow> n = 2 ^ 29" if "1476 \<le> n" "n \<le> 2 ^ 29" for n :: nat
      using that by (cases "n = 2 ^ 29") auto
    ultimately have "unat (push_bit 3 (tv_cwnd tv)) = 0 \<longleftrightarrow> unat (tv_cwnd tv) = unat BATADV_TP_AWND"
      using c by (simp add: tp_consts)
    then show ?thesis by (simp only: word_unat_eq_iff unat_0)
  qed
  have g: "tv_cwnd tv \<le> batadv_tp_cwnd (tv_cwnd tv) BATADV_TP_PLEN BATADV_TP_PLEN"
  proof -
    have "unat (tv_cwnd tv) \<le> 2 ^ 29" using assms(2) by (simp add: tp_consts word_le_nat_alt)
    then have "tv_cwnd tv \<le> tv_cwnd tv + BATADV_TP_PLEN"
      by (simp add: tp_consts word_le_nat_alt unat_word_ariths)
    then show ?thesis using assms(2) by (auto simp: batadv_tp_cwnd_def Let_def le_max_iff_disj min_def)
  qed
  have u: "batadv_tp_cwnd (tv_cwnd tv) BATADV_TP_PLEN BATADV_TP_PLEN \<le> BATADV_TP_AWND"
    by (rule tp_cwnd_bounds) (simp add: tp_consts)
  show ?thesis
    using z g u assms(2) by (auto simp: batadv_tp_update_cwnd_def Let_def not_le)
qed


definition ex_tv :: batadv_tp_vars where
  "ex_tv = \<lparr>tv_ptr = 1, tv_linked = True, tv_timer = None, tv_thread = Tp_thread_loop, tv_start_time = 0,
     tv_other_end = Mac 2 0 0 0 0 9, tv_role = BATADV_TP_SENDER, tv_sending = 1, tv_reason = 0,
     tv_finish_work = True, tv_test_length = 10000, tv_session = (1, 2), tv_icmp_uid = 3,
     tv_dec_cwnd = 0, tv_cwnd = BATADV_TP_AWND, tv_ss_threshold = 0x10000000,
     tv_last_acked = BATADV_TP_FIRST_SEQ, tv_last_sent = BATADV_TP_FIRST_SEQ, tv_tot_sent = 0,
     tv_dup_acks = 0, tv_fast_recovery = False, tv_recover = BATADV_TP_FIRST_SEQ, tv_rto = 1000,
     tv_srtt = 0, tv_rttvar = 0, tv_prerandom_offset = 0, tv_last_recv = 0, tv_unacked_list = [],
     tv_last_recv_time = 0, tv_refcount = 3\<rparr>"

theorem tp_update_cwnd_spec_witness:
  "batadv_tp_update_cwnd BATADV_TP_PLEN ex_tv = Kernel_bug"
  using tp_update_cwnd_spec [of ex_tv] by (simp add: ex_tv_def tp_consts)

theorem tp_rto_bounded_witness:
  "unat (tv_rto (fold batadv_tp_update_rto [40, 44, 60] (ex_tv\<lparr>tv_srtt := 0, tv_rttvar := 0\<rparr>))) \<le> 300"
  using tp_rto_bounded [of "[40, 44, 60]" 60 ex_tv] by simp

section \<open>The life of sessions\<close>

text \<open>
  A live session is linked. A sender is referenced by the list, its timer and its thread; a
  receiver by the list and its timer, which is pending.
\<close>

definition tp_obj_ok :: "batadv_tp_vars \<Rightarrow> bool" where
  "tp_obj_ok v \<longleftrightarrow> tv_linked v \<and>
     (case tv_role v of
        BATADV_TP_SENDER \<Rightarrow> tv_refcount v = 3 \<and> tv_thread v \<noteq> Tp_no_thread
      | BATADV_TP_RECEIVER \<Rightarrow> tv_refcount v = 2 \<and> tv_thread v = Tp_no_thread \<and> tv_timer v \<noteq> None)"

definition tp_inv :: "batadv_priv_tp \<Rightarrow> bool" where
  "tp_inv s \<longleftrightarrow> distinct (map tv_ptr (tp_objs s)) \<and> list_all tp_obj_ok (tp_objs s)
     \<and> tp_num s = of_nat (length (tp_objs s)) \<and> length (tp_objs s) \<le> 5"

lemma tp_derefD: "tp_deref s p = Some v \<Longrightarrow> v \<in> set (tp_objs s) \<and> tv_ptr v = p"
  by (auto simp: tp_deref_def dest: find_key_SomeD)

lemma tp_inv_obj: "tp_inv s \<Longrightarrow> tp_deref s p = Some v \<Longrightarrow> tp_obj_ok v"
  by (auto simp: tp_inv_def list_all_iff dest: tp_derefD)

lemma tp_inv_calls [simp]: "tp_inv (tp_call c s) = tp_inv s" "tp_inv (s\<lparr>tp_calls := cs\<rparr>) = tp_inv s"
  by (simp_all add: tp_inv_def tp_call_def)

lemma tp_inv_notify [simp]: "tp_inv (batadv_tp_batctl_notify k r d t b c s) = tp_inv s"
  by (simp add: batadv_tp_batctl_notify_def Let_def)

lemma tp_inv_error_notify [simp]: "tp_inv (batadv_tp_batctl_error_notify k r d c s) = tp_inv s"
  by (simp add: batadv_tp_batctl_error_notify_def)

lemma tp_inv_upd:
  assumes "tp_inv s" and "\<And>v. tp_deref s p = Some v \<Longrightarrow> tp_obj_ok (f v) \<and> tv_ptr (f v) = p"
  shows "tp_inv (tp_upd p f s)"
proof (cases "tp_deref s p")
  case None
  then show ?thesis using assms(1) by (simp add: tp_upd_def tp_deref_def hlist_upd_first_none)
next
  case (Some v)
  then have f: "find (\<lambda>v. tv_ptr v = p) (tp_objs s) = Some v" by (simp add: tp_deref_def)
  have "map tv_ptr (hlist_upd_first (\<lambda>v. tv_ptr v = p) f (tp_objs s)) = map tv_ptr (tp_objs s)"
    using assms(2) [OF Some] tp_derefD [OF Some] by (intro map_upd_found [OF f]) simp
  then show ?thesis
    using assms list_all_upd_found [OF _ f, of tp_obj_ok f] Some by (simp add: tp_inv_def tp_upd_def)
qed

text \<open>Several updates of one object are one update; releasing it forgets them.\<close>

lemma tp_deref_upd:
  assumes "\<And>v. tv_ptr v = p \<Longrightarrow> tv_ptr (f v) = p"
  shows "tp_deref (tp_upd p f s) p = map_option f (tp_deref s p)"
proof -
  have "find (\<lambda>v. tv_ptr v = p) (hlist_upd_first (\<lambda>v. tv_ptr v = p) f xs) = map_option f (find (\<lambda>v. tv_ptr v = p) xs)" for xs
    using assms by (induction xs) auto
  then show ?thesis by (simp add: tp_deref_def tp_upd_def)
qed

lemma tp_upd_upd:
  assumes "\<And>v. tv_ptr v = p \<Longrightarrow> tv_ptr (f v) = p"
  shows "tp_upd p g (tp_upd p f s) = tp_upd p (\<lambda>v. g (f v)) s"
proof -
  have "hlist_upd_first (\<lambda>v. tv_ptr v = p) g (hlist_upd_first (\<lambda>v. tv_ptr v = p) f xs) =
      hlist_upd_first (\<lambda>v. tv_ptr v = p) (\<lambda>v. g (f v)) xs" for xs
    using assms by (induction xs) auto
  then show ?thesis by (simp add: tp_upd_def)
qed

lemma tp_release_upd:
  "(\<And>v. tv_ptr v = p \<Longrightarrow> tv_ptr (f v) = p) \<Longrightarrow> batadv_tp_vars_release p (tp_upd p f s) = batadv_tp_vars_release p s"
  by (simp add: batadv_tp_vars_release_def tp_upd_def del_upd_first)

lemma tp_upd_cong: "(\<And>v. tp_deref s p = Some v \<Longrightarrow> f v = g v) \<Longrightarrow> tp_upd p f s = tp_upd p g s"
proof -
  have "hlist_upd_first P f xs = hlist_upd_first P g xs" if "\<And>v. find P xs = Some v \<Longrightarrow> f v = g v" for P xs
    using that by (induction xs) (auto split: if_splits)
  then show "(\<And>v. tp_deref s p = Some v \<Longrightarrow> f v = g v) \<Longrightarrow> ?thesis" by (simp add: tp_upd_def tp_deref_def)
qed

lemma tp_upd_num [simp]: "tp_upd p f (s\<lparr>tp_num := n\<rparr>) = (tp_upd p f s)\<lparr>tp_num := n\<rparr>"
  "tp_num (tp_upd p f s) = tp_num s" "tp_deref (s\<lparr>tp_num := n\<rparr>) = tp_deref s"
  "batadv_tp_vars_release p (s\<lparr>tp_num := n\<rparr>) = (batadv_tp_vars_release p s)\<lparr>tp_num := n\<rparr>"
  "tp_upd p f (tp_call c s) = tp_call c (tp_upd p f s)" "tp_deref (tp_call c s) = tp_deref s"
  "batadv_tp_vars_release p (tp_call c s) = tp_call c (batadv_tp_vars_release p s)"
  "tp_call c (s\<lparr>tp_num := n\<rparr>) = (tp_call c s)\<lparr>tp_num := n\<rparr>" "tp_num (tp_call c s) = tp_num s"
  by (auto simp: tp_upd_def tp_deref_def batadv_tp_vars_release_def tp_call_def)

lemmas tp_step_simps = tp_deref_upd tp_upd_upd tp_release_upd

lemma tp_put_simps:
  assumes "tp_deref s p = Some v"
  shows "tv_refcount v = 1 \<Longrightarrow> batadv_tp_vars_put p s = batadv_tp_vars_release p s"
    and "tv_refcount v \<noteq> 1 \<Longrightarrow> batadv_tp_vars_put p s = tp_upd p (\<lambda>v. v\<lparr>tv_refcount := tv_refcount v - 1\<rparr>) s"
  using assms by (simp_all add: batadv_tp_vars_put_def)

lemma tp_inv_release:
  assumes "tp_inv s" and "tp_deref s p = Some v"
  shows "tp_inv ((batadv_tp_vars_release p s)\<lparr>tp_num := tp_num s - 1\<rparr>)"
proof -
  let ?P = "\<lambda>v. tv_ptr v = p"
  have f: "find ?P (tp_objs s) = Some v" using assms(2) by (simp add: tp_deref_def)
  note l = length_del_found [OF f]
  show ?thesis
    using assms(1) l
    by (auto simp: tp_inv_def batadv_tp_vars_release_def distinct_keys_del list_all_hlist_del_first)
qed

text \<open>A finished sender is released, and nothing else changes.\<close>

lemma tp_send_out_eq:
  assumes "tp_deref s p = Some v" and "tv_linked v" and "tv_refcount v = 3"
  shows "\<exists>cs. tp_send_out k p s = (batadv_tp_vars_release p s)\<lparr>tp_calls := tp_calls s @ cs, tp_num := tp_num s - 1\<rparr>"
  using assms
  by (simp add: tp_send_out_def Let_def batadv_tp_sender_end_def batadv_tp_batctl_notify_def
      batadv_tp_sender_cleanup_def batadv_tp_list_detach_def batadv_tp_vars_put_def tp_step_simps cong: if_cong)
    (auto simp: tp_call_def batadv_tp_vars_release_def)

lemma tp_inv_release_calls:
  "tp_inv s \<Longrightarrow> tp_deref s p = Some v \<Longrightarrow>
     tp_inv ((batadv_tp_vars_release p s)\<lparr>tp_calls := cs, tp_num := tp_num s - 1\<rparr>)"
  using tp_inv_release [of s p v] by (simp add: tp_inv_def)

lemma sender_obj: "tp_obj_ok v \<Longrightarrow> tv_role v = BATADV_TP_SENDER \<Longrightarrow> tv_linked v \<and> tv_refcount v = 3"
  by (simp add: tp_obj_ok_def)

lemma tp_inv_send_out:
  assumes "tp_inv s" and "tp_deref s p = Some v" and "tv_role v = BATADV_TP_SENDER"
  shows "tp_inv (tp_send_out k p s)"
proof -
  have v: "tv_linked v" "tv_refcount v = 3" using sender_obj [OF tp_inv_obj [OF assms(1,2)] assms(3)] by blast+
  obtain cs where "tp_send_out k p s = (batadv_tp_vars_release p s)\<lparr>tp_calls := tp_calls s @ cs, tp_num := tp_num s - 1\<rparr>"
    using tp_send_out_eq [OF assms(2) v] by blast
  then show ?thesis using tp_inv_release_calls [OF assms(1,2)] by simp
qed

text \<open>Writes that keep the shape of an object.\<close>

definition tp_shape :: "batadv_tp_vars \<Rightarrow> batadv_tp_vars \<Rightarrow> bool" where
  "tp_shape v w \<longleftrightarrow> tv_ptr w = tv_ptr v \<and> tv_linked w = tv_linked v \<and> tv_role w = tv_role v
     \<and> tv_refcount w = tv_refcount v \<and> tv_thread w = tv_thread v
     \<and> (tv_role v = BATADV_TP_RECEIVER \<and> tv_timer v \<noteq> None \<longrightarrow> tv_timer w \<noteq> None)"

lemma tp_shape_ok: "tp_shape v w \<Longrightarrow> tp_obj_ok v \<Longrightarrow> tp_obj_ok w"
  by (auto simp: tp_shape_def tp_obj_ok_def split: batadv_tp_meter_role.splits)

lemma tp_shape_trans: "tp_shape u v \<Longrightarrow> tp_shape v w \<Longrightarrow> tp_shape u w"
  by (auto simp: tp_shape_def)

lemma tp_inv_upd_shape:
  assumes "tp_inv s" and "\<And>v. tp_deref s p = Some v \<Longrightarrow> tp_shape v (f v)"
  shows "tp_inv (tp_upd p f s)"
proof (rule tp_inv_upd [OF assms(1)])
  fix v assume v: "tp_deref s p = Some v"
  then show "tp_obj_ok (f v) \<and> tv_ptr (f v) = p"
    using tp_shape_ok [OF assms(2) [OF v] tp_inv_obj [OF assms(1) v]] assms(2) [OF v] tp_derefD [OF v]
    by (simp add: tp_shape_def)
qed

lemma shape_simps:
  "tp_shape v (batadv_tp_sender_shutdown r v)" "tp_shape v (batadv_tp_sender_finish v)"
  "tp_shape v (batadv_tp_reset_sender_timer k v)" "tp_shape v (batadv_tp_update_rto rtt v)"
  "tp_shape v (snd (batadv_tp_fill_prerandom pr n v))"
  "tp_shape v (fst (snd (batadv_tp_send_msg kt pr src orig sq len se uid ts v)))"
  by (simp_all add: tp_shape_def batadv_tp_sender_shutdown_def batadv_tp_sender_finish_def
      batadv_tp_reset_sender_timer_def batadv_tp_update_rto_def batadv_tp_fill_prerandom_def
      batadv_tp_send_msg_def Let_def)

lemma shape_sender_timeout: "tv_role v = BATADV_TP_SENDER \<Longrightarrow> tp_shape v (batadv_tp_sender_timeout k v)"
  by (simp add: tp_shape_def batadv_tp_sender_timeout_def batadv_tp_sender_shutdown_def
      batadv_tp_reset_sender_timer_def Let_def)

lemma shape_send_msg:
  assumes "batadv_tp_send_msg kt pr src orig sq len se uid ts v = (e, w, c)"
  shows "tp_shape v w"
  using shape_simps(6) [of v kt pr src orig sq len se uid ts] assms by simp

lemma shape_dup_ack: "tp_shape v (fst (tp_dup_ack k pr src orig icmp v))"
  by (auto simp: tp_dup_ack_def Let_def split: prod.split dest!: shape_send_msg) (auto simp: tp_shape_def)

lemma shape_update_cwnd: "batadv_tp_update_cwnd mss v = Kret w \<Longrightarrow> tp_shape v w"
  by (auto simp: batadv_tp_update_cwnd_def Let_def tp_shape_def split: if_splits)

lemma shape_new_ack:
  assumes "tp_new_ack k pr src orig icmp v = Kret (w, c)" shows "tp_shape v w"
  using assms
  by (auto simp: tp_new_ack_def Let_def split: prod.splits if_splits elim!: kbind.elims
      dest!: shape_send_msg shape_update_cwnd) (auto simp: tp_shape_def)


section \<open>Runs of the meter\<close>

lemma find_session_deref:
  assumes "tp_inv s" and "batadv_tp_list_find_session s a se = Some v"
  shows "tp_deref s (tv_ptr v) = Some v"
proof -
  have v: "v \<in> set (tp_objs s)" using assms(2) by (auto simp: batadv_tp_list_find_session_def dest: find_key_SomeD)
  have "find (\<lambda>w. tv_ptr w = tv_ptr v) xs = Some v" if "v \<in> set xs" "distinct (map tv_ptr xs)" for xs
    using that by (induction xs) auto
  then show ?thesis using v assms(1) by (simp add: tp_deref_def tp_inv_def)
qed

lemma recv_ack_cases:
  assumes "batadv_tp_recv_ack k pr bp data s = Kret s'"
  obtains "s' = s"
  | v w c where "batadv_tp_list_find_session s (tpp_orig (get_icmp_tp_packet data)) (tpp_session (get_icmp_tp_packet data)) = Some v"
      "tp_shape v w" "s' = (tp_upd (tv_ptr w) (\<lambda>_. w) s)\<lparr>tp_calls := tp_calls s @ c\<rparr>"
proof -
  let ?i = "get_icmp_tp_packet data"
  consider "s' = s" | v primary_if orig_node where
      "batadv_tp_list_find_session s (tpp_orig ?i) (tpp_session ?i) = Some v"
      "tv_sending v \<noteq> 0" "\<not> batadv_seq_before (tpp_seqno ?i) (tv_last_acked v)"
      "batadv_primary_if_get_selected bp = Some primary_if" "batadv_orig_hash_find k bp (tpp_orig ?i) = Some orig_node"
    using assms by (auto simp: batadv_tp_recv_ack_def Let_def split: option.splits if_splits)
  then show ?thesis
  proof cases
    case 1
    then show ?thesis using that(1) by blast
  next
    case (2 v primary_if orig_node)
    define u where "u = batadv_tp_reset_sender_timer k (if tpp_timestamp ?i \<noteq> 0 \<and> now_msecs k - tpp_timestamp ?i \<noteq> 0
        then batadv_tp_update_rto (now_msecs k - tpp_timestamp ?i) v else v)"
    have u: "tp_shape v u"
      unfolding u_def by (rule tp_shape_trans [OF _ shape_simps(3)]) (simp add: shape_simps(4), simp add: tp_shape_def)
    have eq: "batadv_tp_recv_ack k pr bp data s =
        kbind (if tv_last_acked u = tpp_seqno ?i
          then Kret (tp_dup_ack k pr (hi_dev_addr primary_if) (on_orig orig_node) ?i u)
          else tp_new_ack k pr (hi_dev_addr primary_if) (on_orig orig_node) ?i u)
          (\<lambda>(tv, calls). Kret ((tp_upd (tv_ptr tv) (\<lambda>_. tv) s)\<lparr>tp_calls := tp_calls s @ calls\<rparr>))"
      by (simp only: batadv_tp_recv_ack_def Let_def u_def 2 option.case prod.case if_False)
    obtain w c where w: "(if tv_last_acked u = tpp_seqno ?i
          then Kret (tp_dup_ack k pr (hi_dev_addr primary_if) (on_orig orig_node) ?i u)
          else tp_new_ack k pr (hi_dev_addr primary_if) (on_orig orig_node) ?i u) = Kret (w, c)"
        "s' = (tp_upd (tv_ptr w) (\<lambda>_. w) s)\<lparr>tp_calls := tp_calls s @ c\<rparr>"
      using assms unfolding eq by (elim kbind.elims) (auto split: prod.splits)
    have "tp_shape u w"
      using w(1) shape_new_ack [of k pr _ _ ?i u w c] shape_dup_ack [of u k pr "hi_dev_addr primary_if" "on_orig orig_node" ?i]
      by (auto split: if_splits)
    then show ?thesis using that(2) [OF 2(1) tp_shape_trans [OF u] w(2)] by blast
  qed
qed

lemma tp_inv_recv_ack:
  assumes "tp_inv s" and "batadv_tp_recv_ack k pr bp data s = Kret s'"
  shows "tp_inv s'"
  using assms(2)
proof (cases rule: recv_ack_cases)
  case (2 v w c)
  have "tp_deref s (tv_ptr v) = Some v" by (rule find_session_deref [OF assms(1) 2(1)])
  moreover have "tv_ptr w = tv_ptr v" using 2(2) by (simp add: tp_shape_def)
  ultimately have "tp_inv (tp_upd (tv_ptr w) (\<lambda>_. w) s)"
    using 2(2) by (intro tp_inv_upd_shape [OF assms(1)]) auto
  then show ?thesis using 2(3) by simp
qed (use assms(1) in simp)

lemma kthread_ok_eq:
  assumes "tp_deref s p = Some v" and "tv_refcount v = 3"
  shows "batadv_tp_vars_put p (batadv_tp_start_kthread k True p s) = tp_upd p (\<lambda>v. v\<lparr>tv_thread := Tp_thread_new\<rparr>) s"
  using assms
  by (simp add: batadv_tp_start_kthread_def batadv_tp_vars_get_def batadv_tp_vars_put_def tp_step_simps Let_def)

lemma kthread_fail_eq:
  assumes "tp_deref s p = Some v" and "tv_refcount v = 3" and "tv_linked v"
  shows "\<exists>cs. batadv_tp_vars_put p (batadv_tp_start_kthread k False p s) =
    (batadv_tp_vars_release p s)\<lparr>tp_calls := tp_calls s @ cs, tp_num := tp_num s - 1\<rparr>"
  using assms
  by (simp add: batadv_tp_start_kthread_def batadv_tp_vars_get_def batadv_tp_vars_put_def tp_step_simps Let_def
      batadv_tp_batctl_error_notify_def batadv_tp_batctl_notify_def batadv_tp_sender_cleanup_def
      batadv_tp_list_detach_def cong: if_cong)
    (auto simp: tp_call_def batadv_tp_vars_release_def)

definition tp_ptrs :: "batadv_priv_tp \<Rightarrow> nat set" where
  "tp_ptrs s = tv_ptr ` set (tp_objs s)"

lemma tp_inv_room: "tp_inv s \<Longrightarrow> tp_num s \<noteq> BATADV_TP_MAX_NUM \<Longrightarrow> length (tp_objs s) \<le> 4"
  by (cases "length (tp_objs s) = 5") (auto simp: tp_inv_def tp_consts)

lemma tp_inv_add:
  assumes "tp_inv s" and "tp_num s \<noteq> BATADV_TP_MAX_NUM" and "tp_obj_ok v" and "tv_ptr v \<notin> tp_ptrs s"
  shows "tp_inv (s\<lparr>tp_num := tp_num s + 1, tp_objs := v # tp_objs s\<rparr>)"
  using assms tp_inv_room [OF assms(1,2)] by (simp add: tp_inv_def tp_ptrs_def)

lemma tp_inv_start:
  assumes "tp_inv s" and "\<And>m. mem = Some m \<Longrightarrow> tv_ptr m \<notin> tp_ptrs s"
  shows "tp_inv (batadv_tp_start k bp dst len se uid mem ok s)"
proof (cases mem)
  case None
  then show ?thesis using assms(1) by (simp add: batadv_tp_start_def Let_def)
next
  case (Some m)
  define n where "n = tp_sender_new k dst len se uid m"
  define s1 where "s1 = s\<lparr>tp_num := tp_num s + 1, tp_objs := n # tp_objs s\<rparr>"
  have n: "tv_ptr n = tv_ptr m" "tv_refcount n = 3" "tv_linked n" "tv_role n = BATADV_TP_SENDER"
    by (simp_all add: n_def tp_sender_new_def)
  have d: "tp_deref s1 (tv_ptr m) = Some n" by (simp add: s1_def tp_deref_def n)
  have fresh: "tv_ptr m \<notin> tp_ptrs s" using assms(2) Some by blast
  have "tp_inv (batadv_tp_vars_put (tv_ptr m) (batadv_tp_start_kthread k ok (tv_ptr m) s1))"
    if room: "tp_num s \<noteq> BATADV_TP_MAX_NUM"
  proof (cases ok)
    case True
    have "tp_inv (s\<lparr>tp_num := tp_num s + 1, tp_objs := n\<lparr>tv_thread := Tp_thread_new\<rparr> # tp_objs s\<rparr>)"
      by (rule tp_inv_add [OF assms(1) room]) (use n fresh in \<open>simp_all add: tp_obj_ok_def\<close>)
    moreover have "tp_upd (tv_ptr m) (\<lambda>v. v\<lparr>tv_thread := Tp_thread_new\<rparr>) s1 =
        s\<lparr>tp_num := tp_num s + 1, tp_objs := n\<lparr>tv_thread := Tp_thread_new\<rparr> # tp_objs s\<rparr>"
      by (simp add: tp_upd_def s1_def n)
    ultimately show ?thesis using True kthread_ok_eq [OF d n(2), of k] by simp
  next
    case False
    obtain cs where "batadv_tp_vars_put (tv_ptr m) (batadv_tp_start_kthread k False (tv_ptr m) s1) =
        (batadv_tp_vars_release (tv_ptr m) s1)\<lparr>tp_calls := tp_calls s1 @ cs, tp_num := tp_num s1 - 1\<rparr>"
      using kthread_fail_eq [OF d n(2,3), of k] by blast
    then show ?thesis using False assms(1) by (simp add: batadv_tp_vars_release_def s1_def n tp_inv_def)
  qed
  then show ?thesis
    using assms(1) by (simp add: batadv_tp_start_def Let_def Some n_def [symmetric] s1_def [symmetric])
qed

lemma shape_receive: "tp_shape v (fst (tp_receive ok now sq slen v))"
  by (auto simp: tp_receive_def Let_def batadv_tp_handle_out_of_order_def batadv_tp_ack_unordered_def tp_shape_def
      split: option.split prod.split)

text \<open>Taking a reference, changing the object and dropping the reference.\<close>

lemma tp_get_put:
  assumes "tp_inv s" and "tp_deref s p = Some v" and "tp_shape v w"
  shows "batadv_tp_vars_put p (tp_upd p (\<lambda>v. w\<lparr>tv_refcount := tv_refcount v\<rparr>) (batadv_tp_vars_get p s)) = tp_upd p (\<lambda>_. w) s"
    and "batadv_tp_vars_put p (batadv_tp_vars_get p s) = s"
proof -
  have v: "tv_refcount v \<noteq> 0" "tv_ptr w = p" "tv_refcount w = tv_refcount v"
    using tp_inv_obj [OF assms(1,2)] tp_derefD [OF assms(2)] assms(3)
    by (auto simp: tp_obj_ok_def tp_shape_def split: batadv_tp_meter_role.splits)
  have "tp_upd p (\<lambda>va. w\<lparr>tv_refcount := tv_refcount va\<rparr>) s = tp_upd p (\<lambda>_. w) s"
    by (rule tp_upd_cong) (simp add: assms(2) v(3) [symmetric])
  then show "batadv_tp_vars_put p (tp_upd p (\<lambda>v. w\<lparr>tv_refcount := tv_refcount v\<rparr>) (batadv_tp_vars_get p s)) = tp_upd p (\<lambda>_. w) s"
    using assms(2) v by (simp add: batadv_tp_vars_get_def batadv_tp_vars_put_def tp_step_simps)
  have "tp_upd p (\<lambda>v. v) s = s"
    by (simp add: tp_upd_def hlist_upd_first_fix [of _ _ v "\<lambda>v. v"] assms(2) [unfolded tp_deref_def])
  then show "batadv_tp_vars_put p (batadv_tp_vars_get p s) = s"
    using assms(2) v by (simp add: batadv_tp_vars_get_def batadv_tp_vars_put_def tp_step_simps)
qed

lemma tp_put_calls: "batadv_tp_vars_put p (s\<lparr>tp_calls := c\<rparr>) = (batadv_tp_vars_put p s)\<lparr>tp_calls := c\<rparr>"
  by (simp add: batadv_tp_vars_put_def tp_deref_def batadv_tp_vars_release_def tp_upd_def split: option.split)

definition recv_new :: "'k kclock_scheme \<Rightarrow> batadv_icmp_tp_packet \<Rightarrow> batadv_tp_vars \<Rightarrow> batadv_tp_vars" where
  "recv_new k icmp mem = batadv_tp_reset_receiver_timer k
     (mem\<lparr>tv_other_end := tpp_orig icmp, tv_role := BATADV_TP_RECEIVER,
          tv_session := tpp_session icmp, tv_last_recv := BATADV_TP_FIRST_SEQ,
          tv_unacked_list := [], tv_refcount := 3, tv_linked := True,
          tv_thread := Tp_no_thread, tv_finish_work := False\<rparr>)"

lemma init_recv_cases:
  assumes "batadv_tp_init_recv k bp icmp mem s = (r, s')"
  obtains "r = None" "s' = s"
  | v where "r = Some v" "batadv_tp_list_find_session s (tpp_orig icmp) (tpp_session icmp) = Some v"
      "s' = batadv_tp_vars_get (tv_ptr v) s"
  | m where "mem = Some m" "r = Some (recv_new k icmp m)" "tp_num s \<noteq> BATADV_TP_MAX_NUM"
      "s' = s\<lparr>tp_num := tp_num s + 1, tp_objs := recv_new k icmp m # tp_objs s\<rparr>"
proof -
  have run: "batadv_tp_init_recv k bp icmp mem s =
     (if bp_mesh_state bp \<noteq> BATADV_MESH_ACTIVE then (None, s)
      else (case batadv_tp_list_find_session s (tpp_orig icmp) (tpp_session icmp) of
              Some tv \<Rightarrow> (Some tv, batadv_tp_vars_get (tv_ptr tv) s)
            | None \<Rightarrow>
                if tp_num s = BATADV_TP_MAX_NUM then (None, s)
                else (case mem of None \<Rightarrow> (None, s)
                      | Some m \<Rightarrow> (Some (recv_new k icmp m),
                          s\<lparr>tp_num := tp_num s + 1, tp_objs := recv_new k icmp m # tp_objs s\<rparr>))))"
    by (simp only: batadv_tp_init_recv_def recv_new_def Let_def)
  consider "bp_mesh_state bp \<noteq> BATADV_MESH_ACTIVE"
    | v where "bp_mesh_state bp = BATADV_MESH_ACTIVE" "batadv_tp_list_find_session s (tpp_orig icmp) (tpp_session icmp) = Some v"
    | "bp_mesh_state bp = BATADV_MESH_ACTIVE" "batadv_tp_list_find_session s (tpp_orig icmp) (tpp_session icmp) = None"
      "tp_num s = BATADV_TP_MAX_NUM \<or> mem = None"
    | m where "bp_mesh_state bp = BATADV_MESH_ACTIVE" "batadv_tp_list_find_session s (tpp_orig icmp) (tpp_session icmp) = None"
      "tp_num s \<noteq> BATADV_TP_MAX_NUM" "mem = Some m"
    by fastforce
  then show ?thesis
  proof cases
    case 1
    then show ?thesis using assms that(1) by (simp add: run)
  next
    case (2 v)
    then show ?thesis using assms that(2) [of v] by (simp add: run)
  next
    case 3
    then show ?thesis using assms [unfolded run] that(1) by (cases "tp_num s = BATADV_TP_MAX_NUM") simp_all
  next
    case (4 m)
    then show ?thesis using assms [unfolded run] that(3) [of m] by simp
  qed
qed

lemma tp_inv_recv_new:
  assumes "tp_inv s" and "tp_num s \<noteq> BATADV_TP_MAX_NUM" and "tv_ptr m \<notin> tp_ptrs s"
    and "tp_shape (recv_new k icmp m) w"
  shows "tp_inv (batadv_tp_vars_put (tv_ptr m) (tp_upd (tv_ptr m) (\<lambda>v. w\<lparr>tv_refcount := tv_refcount v\<rparr>)
      (s\<lparr>tp_num := tp_num s + 1, tp_objs := recv_new k icmp m # tp_objs s\<rparr>)))"
proof -
  let ?n = "recv_new k icmp m"
  let ?s = "s\<lparr>tp_num := tp_num s + 1, tp_objs := ?n # tp_objs s\<rparr>"
  have n: "tv_ptr ?n = tv_ptr m" "tv_refcount ?n = 3" "tv_role ?n = BATADV_TP_RECEIVER" "tv_timer ?n \<noteq> None"
      "tv_linked ?n" "tv_thread ?n = Tp_no_thread"
    by (simp_all add: recv_new_def batadv_tp_reset_receiver_timer_def)
  then have w: "tv_ptr w = tv_ptr m" "tv_refcount w = 3" "tv_role w = BATADV_TP_RECEIVER" "tv_timer w \<noteq> None"
      "tv_linked w" "tv_thread w = Tp_no_thread"
    using assms(4) by (simp_all add: tp_shape_def)
  have d: "tp_deref ?s (tv_ptr m) = Some ?n" by (simp add: tp_deref_def n)
  have "batadv_tp_vars_put (tv_ptr m) (tp_upd (tv_ptr m) (\<lambda>v. w\<lparr>tv_refcount := tv_refcount v\<rparr>) ?s) =
      s\<lparr>tp_num := tp_num s + 1, tp_objs := w\<lparr>tv_refcount := 2\<rparr> # tp_objs s\<rparr>"
    using d by (simp add: batadv_tp_vars_put_def tp_step_simps w n) (simp add: tp_upd_def n)
  moreover have "tp_inv (s\<lparr>tp_num := tp_num s + 1, tp_objs := w\<lparr>tv_refcount := 2\<rparr> # tp_objs s\<rparr>)"
    by (rule tp_inv_add [OF assms(1,2)]) (use w assms(3) in \<open>simp_all add: tp_obj_ok_def\<close>)
  ultimately show ?thesis by simp
qed

lemma tp_inv_recv_msg:
  assumes "tp_inv s" and "\<And>m. mem = Some m \<Longrightarrow> tv_ptr m \<notin> tp_ptrs s"
  shows "tp_inv (batadv_tp_recv_msg k bp mem data s)"
proof -
  let ?i = "get_icmp_tp_packet data"
  let ?rcv = "\<lambda>v. tp_receive (tk_alloc_ok k) (jiffies k) (tpp_seqno ?i) (of_nat (length data)) v"
  define look where "look = (if tpp_seqno ?i = BATADV_TP_FIRST_SEQ then batadv_tp_init_recv k bp ?i mem s
      else (case batadv_tp_list_find_session s (tpp_orig ?i) (tpp_session ?i) of
              None \<Rightarrow> (None, s) | Some tv \<Rightarrow> (Some tv, batadv_tp_vars_get (tv_ptr tv) s)))"
  have run: "batadv_tp_recv_msg k bp mem data s = (case look of
      (None, s) \<Rightarrow> s
    | (Some v, s) \<Rightarrow>
        if tv_role v \<noteq> BATADV_TP_RECEIVER then batadv_tp_vars_put (tv_ptr v) s
        else (batadv_tp_vars_put (tv_ptr v) (tp_upd (tv_ptr v) (\<lambda>u. (fst (?rcv v))\<lparr>tv_refcount := tv_refcount u\<rparr>) s))
          \<lparr>tp_calls := tp_calls s @ (if snd (?rcv v) then snd (batadv_tp_send_ack k bp (tpp_orig ?i)
             (tv_last_recv (fst (?rcv v))) (tpp_timestamp ?i) (tpp_session ?i) (tpp_uid ?i)) else [])\<rparr>)"
    by (simp add: batadv_tp_recv_msg_def look_def Let_def tp_put_calls split_beta split: option.split)
      (simp add: tp_upd_def)
  consider "look = (None, s)"
    | v where "look = (Some v, batadv_tp_vars_get (tv_ptr v) s)" "tp_deref s (tv_ptr v) = Some v"
    | m where "mem = Some m" "tp_num s \<noteq> BATADV_TP_MAX_NUM"
        "look = (Some (recv_new k ?i m), s\<lparr>tp_num := tp_num s + 1, tp_objs := recv_new k ?i m # tp_objs s\<rparr>)"
  proof (cases "tpp_seqno ?i = BATADV_TP_FIRST_SEQ")
    case True
    obtain r s' where r: "batadv_tp_init_recv k bp ?i mem s = (r, s')" by (metis prod.exhaust)
    have l: "look = (r, s')" unfolding look_def using True r by simp
    from r show ?thesis
    proof (cases rule: init_recv_cases)
      case 1
      then show ?thesis using that(1) l by blast
    next
      case (2 v)
      then show ?thesis using that(2) l find_session_deref [OF assms(1) 2(2)] by blast
    next
      case (3 m)
      then show ?thesis using that(3) l by blast
    qed
  next
    case False
    show ?thesis
    proof (cases "batadv_tp_list_find_session s (tpp_orig ?i) (tpp_session ?i)")
      case None
      then have "look = (None, s)" unfolding look_def using False by (simp only: if_False option.case)
      then show ?thesis by (rule that(1))
    next
      case (Some v)
      then have "look = (Some v, batadv_tp_vars_get (tv_ptr v) s)" unfolding look_def using False by (simp only: if_False option.case)
      then show ?thesis by (rule that(2)) (rule find_session_deref [OF assms(1) Some])
    qed
  qed
  then show ?thesis
  proof cases
    case 1
    then show ?thesis using assms(1) by (simp add: run)
  next
    case (2 v)
    have sh: "tp_shape v (fst (?rcv v))" by (rule shape_receive)
    have "tp_inv (tp_upd (tv_ptr v) (\<lambda>_. fst (?rcv v)) s)"
      by (rule tp_inv_upd_shape [OF assms(1)]) (use 2(2) sh in auto)
    then show ?thesis using tp_get_put [OF assms(1) 2(2) sh] assms(1) by (simp add: run 2(1))
  next
    case (3 m)
    have n: "tv_ptr (recv_new k ?i m) = tv_ptr m" "tv_role (recv_new k ?i m) = BATADV_TP_RECEIVER"
      by (simp_all add: recv_new_def batadv_tp_reset_receiver_timer_def)
    show ?thesis
      using tp_inv_recv_new [OF assms(1) 3(2) assms(2) [OF 3(1)] shape_receive] n by (simp add: run 3(3))
  qed
qed

text \<open>The other steps.\<close>

lemma tp_inv_send_begin:
  assumes "tp_inv s" and "tp_deref s p = Some v" and "tv_role v = BATADV_TP_SENDER"
  shows "tp_inv (tp_send_begin k bp p s)"
proof -
  let ?r = "\<lambda>v. v\<lparr>tv_reason := BATADV_TP_REASON_DST_UNREACHABLE\<rparr>"
  have "tp_inv (tp_upd p ?r s)" by (rule tp_inv_upd_shape [OF assms(1)]) (simp add: tp_shape_def)
  then have "tp_inv (tp_send_out k p (tp_upd p ?r s))"
    by (rule tp_inv_send_out [where v = "?r v"]) (use assms in \<open>simp_all add: tp_deref_upd\<close>)
  moreover have "tp_inv (tp_upd p (\<lambda>v. (batadv_tp_reset_sender_timer k v)
      \<lparr>tv_finish_work := True, tv_thread := Tp_thread_loop\<rparr>) s)"
    by (rule tp_inv_upd [OF assms(1)])
      (use assms tp_inv_obj [OF assms(1,2)] tp_derefD [OF assms(2)] in \<open>simp add: tp_obj_ok_def batadv_tp_reset_sender_timer_def\<close>)
  ultimately show ?thesis using assms(2) by (simp add: tp_send_begin_def)
qed

lemma tp_inv_send_iter:
  assumes "tp_inv s" and "tp_deref s p = Some v" and "tv_role v = BATADV_TP_SENDER"
  shows "tp_inv (tp_send_iter k pr src p s)"
proof -
  obtain err w cs where m: "batadv_tp_send_msg k pr src (tv_other_end v) (tv_last_sent v) (unat BATADV_TP_PLEN + 10)
      (tv_session v) (tv_icmp_uid v) (now_msecs k) v = (err, w, cs)" by (metis prod_cases3)
  let ?s = "s\<lparr>tp_calls := tp_calls s @ cs\<rparr>"
  have s: "tp_inv ?s" "tp_deref ?s p = Some v" using assms(1,2) by (simp_all add: tp_deref_def)
  have w: "tp_shape v w" by (rule shape_send_msg [OF m])
  have keep: "tp_inv (tp_upd p (\<lambda>_. u) ?s)" if "tp_shape v u" for u
    by (rule tp_inv_upd_shape [OF s(1)]) (use s(2) that in auto)
  let ?d = "batadv_tp_sender_shutdown err w"
  have d: "tp_shape v ?d" by (rule tp_shape_trans [OF w shape_simps(1)])
  have "tp_inv (tp_send_out k p (tp_upd p (\<lambda>_. ?d) ?s))"
    by (rule tp_inv_send_out [OF keep [OF d], where v = ?d])
      (use s(2) d assms(3) tp_derefD [OF assms(2)] in \<open>simp_all add: tp_deref_upd tp_shape_def\<close>)
  moreover have "tp_shape v (w\<lparr>tv_last_sent := x\<rparr>)" for x using w by (simp add: tp_shape_def)
  ultimately show ?thesis
    using assms keep [OF w] keep tp_inv_send_out [OF assms, of k]
    by (simp add: tp_send_iter_def m Let_def)
qed

lemma receiver_release_eq:
  assumes "tp_deref s p = Some v" and "tv_linked v" and "tv_refcount v = 2"
  shows "batadv_tp_vars_put p (tp_upd p (\<lambda>v. v\<lparr>tv_unacked_list := []\<rparr>) (batadv_tp_list_detach p (tp_upd p (\<lambda>v. v\<lparr>tv_timer := None\<rparr>) s)))
      = (batadv_tp_vars_release p s)\<lparr>tp_num := tp_num s - 1\<rparr>"
    and "batadv_tp_vars_put p (tp_upd p (\<lambda>v. v\<lparr>tv_timer := None\<rparr>) (batadv_tp_list_detach p s))
      = (batadv_tp_vars_release p s)\<lparr>tp_num := tp_num s - 1\<rparr>"
  using assms
  by (simp_all add: batadv_tp_list_detach_def batadv_tp_vars_put_def tp_step_simps Let_def cong: if_cong)

lemma tp_inv_receiver_shutdown:
  assumes "tp_inv s" and "tp_deref s p = Some v" and "tv_role v = BATADV_TP_RECEIVER"
  shows "tp_inv (batadv_tp_receiver_shutdown k p s)"
proof -
  have v: "tv_linked v" "tv_refcount v = 2" using tp_inv_obj [OF assms(1,2)] assms(3) by (simp_all add: tp_obj_ok_def)
  have "tp_inv (tp_upd p (batadv_tp_reset_receiver_timer k) (tp_upd p (\<lambda>v. v\<lparr>tv_timer := None\<rparr>) s))"
    by (simp add: tp_upd_upd, rule tp_inv_upd_shape [OF assms(1)])
      (simp add: tp_shape_def batadv_tp_reset_receiver_timer_def)
  then show ?thesis
    using assms(2) tp_inv_release [OF assms(1,2)]
    by (simp add: batadv_tp_receiver_shutdown_def receiver_release_eq(1) [OF assms(2) v] Let_def)
qed

text \<open>Everything that happens to the sessions of a mesh interface.\<close>

inductive tp_step :: "batadv_priv_tp \<Rightarrow> batadv_priv_tp \<Rightarrow> bool" where
  step_start: "(\<And>m. mem = Some m \<Longrightarrow> tv_ptr m \<notin> tp_ptrs s) \<Longrightarrow>
    tp_step s (batadv_tp_start (k :: tp_kenv) bp dst len se uid mem ok s)"
| step_stop: "tp_step s (batadv_tp_stop (k :: tp_kenv) bp dst r s)"
| step_begin: "tp_deref s p = Some v \<Longrightarrow> tv_role v = BATADV_TP_SENDER \<Longrightarrow> tv_thread v = Tp_thread_new \<Longrightarrow>
    tp_step s (tp_send_begin (k :: tp_kenv) bp p s)"
| step_iter: "tp_deref s p = Some v \<Longrightarrow> tv_role v = BATADV_TP_SENDER \<Longrightarrow> tv_thread v = Tp_thread_loop \<Longrightarrow>
    tp_step s (tp_send_iter (k :: tp_kenv) pr src p s)"
| step_timeout: "tp_deref s p = Some v \<Longrightarrow> tv_role v = BATADV_TP_SENDER \<Longrightarrow> tv_timer v \<noteq> None \<Longrightarrow>
    tp_step s (tp_upd p (batadv_tp_sender_timeout (k :: tp_kenv)) s)"
| step_finish: "tp_deref s p = Some v \<Longrightarrow> tv_finish_work v \<Longrightarrow> tp_step s (tp_upd p batadv_tp_sender_finish s)"
| step_idle: "tp_deref s p = Some v \<Longrightarrow> tv_role v = BATADV_TP_RECEIVER \<Longrightarrow>
    tp_step s (batadv_tp_receiver_shutdown (k :: tp_kenv) p s)"
| step_recv: "(\<And>m. mem = Some m \<Longrightarrow> tv_ptr m \<notin> tp_ptrs s) \<Longrightarrow>
    batadv_tp_meter_recv (k :: tp_kenv) pr bp mem data s = Kret s' \<Longrightarrow> tp_step s s'"

lemma tp_step_inv:
  assumes "tp_step s s'" and "tp_inv s" shows "tp_inv s'"
  using assms
proof (induction rule: tp_step.induct)
  case (step_start mem s k bp dst len se uid ok)
  then show ?case by (intro tp_inv_start) auto
next
  case (step_stop s k bp dst r)
  then show ?case
    by (auto simp: batadv_tp_stop_def shape_simps split: option.split intro!: tp_inv_upd_shape)
next
  case (step_begin s p v k bp)
  then show ?case by (intro tp_inv_send_begin)
next
  case (step_iter s p v k pr src)
  then show ?case by (intro tp_inv_send_iter)
next
  case (step_timeout s p v k)
  then show ?case by (intro tp_inv_upd_shape) (auto simp: shape_sender_timeout)
next
  case (step_finish s p v)
  then show ?case by (intro tp_inv_upd_shape) (simp_all add: shape_simps)
next
  case (step_idle s p v k)
  then show ?case by (intro tp_inv_receiver_shutdown)
next
  case (step_recv mem s k pr bp data s')
  then show ?case
    using tp_inv_recv_msg [of s mem k bp data] tp_inv_recv_ack [of s k pr bp data s']
    by (auto simp: batadv_tp_meter_recv_def Let_def split: if_splits)
qed

text \<open>
  C30: Sessions are accounted exactly. From an empty list on, whatever is started, stopped,
  sent, received, timed out or fails to be allocated, \<^verbatim>\<open>tp_num\<close> is the number of live
  sessions and at most \<open>BATADV_TP_MAX_NUM\<close>, every live session is linked, and its reference
  count is exact: three for a sender (list, timer, thread), two for a receiver (list, timer).
  No session leaks and none is freed while it is used.
\<close>

theorem tp_sessions_accounted:
  assumes "tp_step\<^sup>*\<^sup>* \<lparr>tp_objs = [], tp_num = 0, tp_calls = []\<rparr> s"
  shows "unat (tp_num s) = length (tp_objs s) \<and> tp_num s \<le> BATADV_TP_MAX_NUM
    \<and> distinct (map tv_ptr (tp_objs s))
    \<and> (\<forall>v \<in> set (tp_objs s). tv_linked v \<and> tv_refcount v = (if tv_role v = BATADV_TP_SENDER then 3 else 2))"
proof -
  have "tp_inv \<lparr>tp_objs = [], tp_num = 0, tp_calls = []\<rparr>" by (simp add: tp_inv_def)
  with assms have inv: "tp_inv s" by (induction rule: rtranclp_induct) (auto intro: tp_step_inv)
  then have l: "length (tp_objs s) \<le> 5" "tp_num s = of_nat (length (tp_objs s))" by (simp_all add: tp_inv_def)
  then have "unat (tp_num s) = length (tp_objs s)" by (simp add: unat_of_nat_u32)
  moreover have "tp_num s \<le> BATADV_TP_MAX_NUM" using l calculation by (simp add: word_le_nat_alt tp_consts)
  moreover have "tv_linked v \<and> tv_refcount v = (if tv_role v = BATADV_TP_SENDER then 3 else 2)"
    if "v \<in> set (tp_objs s)" for v
    using inv that by (cases "tv_role v") (auto simp: tp_inv_def list_all_iff tp_obj_ok_def)
  ultimately show ?thesis using inv by (auto simp: tp_inv_def)
qed

section \<open>Stopping\<close>

definition tp_senders :: "batadv_priv_tp \<Rightarrow> batadv_tp_vars list" where
  "tp_senders s = filter (\<lambda>v. tv_role v = BATADV_TP_SENDER) (tp_objs s)"

text \<open>
  A thread whose counter is not zero keeps sending as long as its packets can be allocated.
\<close>

lemma tp_send_iter_keeps:
  assumes "tp_deref s p = Some v" and "tv_sending v \<noteq> 0" and "tv_thread v = Tp_thread_loop" and "tk_alloc_ok k"
  shows "\<exists>w. tp_deref (tp_send_iter k pr src p s) p = Some w \<and> tv_sending w \<noteq> 0 \<and> tv_thread w = Tp_thread_loop"
proof -
  have p: "tv_ptr v = p" using tp_derefD [OF assms(1)] by simp
  have calls: "tp_deref (s\<lparr>tp_calls := cs\<rparr>) p = Some v" for cs using assms(1) by (simp add: tp_deref_def)
  have "tp_deref (tp_upd p (\<lambda>_. u) (s\<lparr>tp_calls := cs\<rparr>)) p = Some u" if "tv_ptr u = p" for u cs
    using tp_deref_upd [of p "\<lambda>_. u"] calls that by simp
  then show ?thesis
    using assms p
    by (auto simp: tp_send_iter_def batadv_tp_send_msg_def batadv_tp_fill_prerandom_def Let_def tp_consts)
qed

lemma tp_wait_forever:
  assumes "tp_deref s p = Some v" and "tv_sending v \<noteq> 0" and "tv_thread v = Tp_thread_loop"
    and "\<forall>(k, _) \<in> set rounds. tk_alloc_ok k"
  shows "tp_wait_finished rounds p s = None"
  using assms
proof (induction rounds arbitrary: s v)
  case Nil
  then show ?case by (simp add: tp_thread_running_def)
next
  case (Cons r rounds)
  obtain k pr src where r: "r = (k, pr, src)" by (cases r)
  obtain w where "tp_deref (tp_send_iter k pr src p s) p = Some w" "tv_sending w \<noteq> 0" "tv_thread w = Tp_thread_loop"
    using tp_send_iter_keeps [OF Cons.prems(1-3)] Cons.prems(4) r by fastforce
  then show ?case using Cons.IH Cons.prems r by (simp add: tp_thread_running_def)
qed

lemma tp_stop_one_loop:
  assumes "tp_inv s" and "tp_objs s = v # vs" and "tv_role v = BATADV_TP_SENDER \<Longrightarrow> tv_thread v = Tp_thread_loop"
  shows "(tv_role v = BATADV_TP_SENDER \<and> tv_sending v \<noteq> 1 \<and> (\<forall>(k, _) \<in> set rounds. tk_alloc_ok k) \<longrightarrow>
       tp_stop_one k bp rounds (tv_ptr v) s = None)
     \<and> (tv_role v = BATADV_TP_SENDER \<longrightarrow> tv_sending v = 1 \<longrightarrow> rounds = [] \<longrightarrow>
       tp_stop_one k bp rounds (tv_ptr v) s = None)
     \<and> ((tv_role v = BATADV_TP_SENDER \<longrightarrow> tv_sending v = 1 \<and> rounds \<noteq> []) \<longrightarrow>
       (\<exists>s'. tp_stop_one k bp rounds (tv_ptr v) s = Some s' \<and> tp_objs s' = vs \<and> tp_inv s'))"
proof -
  let ?p = "tv_ptr v"
  have d: "tp_deref s ?p = Some v" using assms(2) by (simp add: tp_deref_def)
  note ok = tp_inv_obj [OF assms(1) d]
  show ?thesis
  proof (cases "tv_role v")
    case BATADV_TP_RECEIVER
    then have r: "tv_linked v" "tv_refcount v = 2" "tv_timer v \<noteq> None" using ok by (simp_all add: tp_obj_ok_def)
    have "tp_stop_one k bp rounds ?p s = Some ((batadv_tp_vars_release ?p s)\<lparr>tp_num := tp_num s - 1\<rparr>)"
      using BATADV_TP_RECEIVER r d by (simp add: tp_stop_one_def Let_def receiver_release_eq(2) [OF d r(1,2)])
    then show ?thesis
      using BATADV_TP_RECEIVER tp_inv_release [OF assms(1) d] assms(2) by (simp add: batadv_tp_vars_release_def)
  next
    case BATADV_TP_SENDER
    let ?f = "batadv_tp_sender_shutdown BATADV_TP_REASON_CANCEL"
    let ?s = "tp_upd ?p ?f s"
    have d': "tp_deref ?s ?p = Some (?f v)"
      using d by (subst tp_deref_upd) (simp_all add: batadv_tp_sender_shutdown_def Let_def)
    have run: "tp_stop_one k bp rounds ?p s = tp_wait_finished rounds ?p ?s"
      using d BATADV_TP_SENDER assms(3) by (simp add: tp_stop_one_def Let_def)
    have sh: "tp_shape v (?f v)" by (rule shape_simps)
    have inv: "tp_inv ?s" by (rule tp_inv_upd_shape [OF assms(1)]) (rule shape_simps)
    have l: "tv_linked (?f v)" "tv_refcount (?f v) = 3"
      using sender_obj [OF ok BATADV_TP_SENDER] sh by (simp_all add: tp_shape_def)
    have z: "tv_sending (?f v) = 0 \<longleftrightarrow> tv_sending v = 1" "tv_thread (?f v) = Tp_thread_loop"
      using assms(3) BATADV_TP_SENDER by (auto simp: batadv_tp_sender_shutdown_def Let_def)
    have running: "tp_thread_running ?p ?s" using d' z(2) by (simp add: tp_thread_running_def)
    have forever: "tp_wait_finished rounds ?p ?s = None" if "tv_sending v \<noteq> 1" "\<forall>(k, _) \<in> set rounds. tk_alloc_ok k"
      using tp_wait_forever [OF d' _ z(2) that(2)] z(1) that(1) by blast
    have done_objs: "tp_inv (tp_send_out j ?p ?s)" "tp_objs (tp_send_out j ?p ?s) = vs" for j :: tp_kenv
    proof -
      obtain cs where o: "tp_send_out j ?p ?s = (batadv_tp_vars_release ?p ?s)
          \<lparr>tp_calls := tp_calls ?s @ cs, tp_num := tp_num ?s - 1\<rparr>"
        using tp_send_out_eq [OF d' l, of j] by blast
      show "tp_inv (tp_send_out j ?p ?s)"
        by (rule tp_inv_send_out [OF inv d']) (use sh BATADV_TP_SENDER in \<open>simp add: tp_shape_def\<close>)
      show "tp_objs (tp_send_out j ?p ?s) = vs"
        using o assms(2) sh by (simp add: batadv_tp_vars_release_def tp_upd_def tp_shape_def)
    qed
    have gone: "\<not> tp_thread_running ?p (tp_send_out j ?p ?s)" for j :: tp_kenv
    proof -
      have "?p \<notin> tv_ptr ` set vs" using assms(1,2) by (simp add: tp_inv_def)
      then have "tp_deref (tp_send_out j ?p ?s) ?p = None"
        unfolding tp_deref_def find_None_iff done_objs(2) by (metis image_eqI)
      then show ?thesis by (simp add: tp_thread_running_def)
    qed
    have returns: "tp_wait_finished rounds ?p ?s = Some (tp_send_out j ?p ?s)"
      if "tv_sending v = 1" "rounds = (j, pr, src) # rs" for j pr src rs
    proof -
      have "tp_send_iter j pr src ?p ?s = tp_send_out j ?p ?s"
        using d' z(1) that(1) by (simp add: tp_send_iter_def)
      then show ?thesis using that(2) running gone [of j] by (cases rs) auto
    qed
    show ?thesis
      using run forever returns done_objs running BATADV_TP_SENDER
      by (cases rounds) auto
  qed
qed

lemma tp_stop_list_loop:
  assumes "tp_inv s" and "tp_objs s = vs"
    and "\<And>v. v \<in> set vs \<Longrightarrow> tv_role v = BATADV_TP_SENDER \<Longrightarrow> tv_thread v = Tp_thread_loop"
  shows "((\<forall>v \<in> set vs. tv_role v = BATADV_TP_SENDER \<longrightarrow> tv_sending v = 1 \<and> rounds (tv_ptr v) \<noteq> []) \<longrightarrow>
       (\<exists>s'. tp_stop_list k bp rounds (map tv_ptr vs) s = Some s' \<and> tp_objs s' = [] \<and> tp_inv s'))
     \<and> ((\<exists>v \<in> set vs. tv_role v = BATADV_TP_SENDER \<and> tv_sending v \<noteq> 1)
          \<and> (\<forall>p. \<forall>(k, _) \<in> set (rounds p). tk_alloc_ok k) \<longrightarrow>
         tp_stop_list k bp rounds (map tv_ptr vs) s = None)"
  using assms
proof (induction vs arbitrary: s)
  case (Cons v vs)
  note one = tp_stop_one_loop [OF Cons.prems(1,2) Cons.prems(3), of "rounds (tv_ptr v)" k bp, simplified]
  show ?case
  proof (cases "tv_role v = BATADV_TP_SENDER \<longrightarrow> tv_sending v = 1 \<and> rounds (tv_ptr v) \<noteq> []")
    case True
    then obtain s' where s': "tp_stop_one k bp (rounds (tv_ptr v)) (tv_ptr v) s = Some s'" "tp_objs s' = vs" "tp_inv s'"
      using one by auto
    then show ?thesis using Cons.IH [OF s'(3,2)] Cons.prems(3) True by auto
  next
    case False
    then show ?thesis using one by auto
  qed
qed simp

text \<open>
  C31: Stopping all sessions before a mesh interface goes away, with the sending threads in
  their loops. If no sender has been asked to stop yet, \<^verbatim>\<open>batadv_tp_stop_all\<close> returns as
  soon as every thread has made one more iteration, every session is ended, the list empty and
  the count zero. But a sender that was asked before (by the user, or because its time is over)
  and has not looked at \<^verbatim>\<open>sending\<close> since is asked a second time, which moves the counter
  from 0 to -1: however many iterations its thread makes, the caller is still waiting, unless
  the thread fails to allocate a packet (which is the only other way out of its loop).
\<close>

theorem tp_stop_all_waits:
  assumes "tp_inv s" and "\<forall>v \<in> set (tp_senders s). tv_thread v = Tp_thread_loop"
  shows "((\<forall>v \<in> set (tp_senders s). tv_sending v = 1) \<and> (\<forall>p. rounds p \<noteq> []) \<longrightarrow>
       (\<exists>s'. batadv_tp_stop_all k bp rounds s = Some s' \<and> tp_objs s' = [] \<and> tp_num s' = 0))
     \<and> ((\<exists>v \<in> set (tp_senders s). tv_sending v \<noteq> 1) \<and> (\<forall>p. \<forall>(k, _) \<in> set (rounds p). tk_alloc_ok k) \<longrightarrow>
       batadv_tp_stop_all k bp rounds s = None)"
proof -
  have f: "filter tv_linked (tp_objs s) = tp_objs s"
    using assms(1) by (simp add: tp_inv_def list_all_iff filter_id_conv tp_obj_ok_def)
  have "length (map tv_ptr (tp_objs s)) \<le> 5" using assms(1) by (simp add: tp_inv_def)
  then have run: "batadv_tp_stop_all k bp rounds s = tp_stop_list k bp rounds (map tv_ptr (tp_objs s)) s"
    by (simp add: batadv_tp_stop_all_def f tp_consts)
  have "tp_num s' = 0" if "tp_inv s'" "tp_objs s' = []" for s' using that by (simp add: tp_inv_def)
  then show ?thesis
    using tp_stop_list_loop [OF assms(1) refl, of rounds k bp] assms(2) unfolding run tp_senders_def by auto
qed

definition ex_tpk :: tp_kenv where
  "ex_tpk = \<lparr>jiffies = 1000, msecs_to_jiffies = of_nat, jhash = (\<lambda>bs iv. 0), jiffies_to_msecs = unat,
     kalloc_ok = (\<lambda>s. True), new_neigh_ptr = None, tk_alloc_ok = True, tk_xmit = 0\<rparr>"

theorem tp_sessions_accounted_witness:
  "unat (tp_num (batadv_tp_start ex_tpk ex_priv (Mac 2 0 0 0 0 9) 0 (1, 2) 3 (Some ex_tv) True
       \<lparr>tp_objs = [], tp_num = 0, tp_calls = []\<rparr>)) =
     length (tp_objs (batadv_tp_start ex_tpk ex_priv (Mac 2 0 0 0 0 9) 0 (1, 2) 3 (Some ex_tv) True
       \<lparr>tp_objs = [], tp_num = 0, tp_calls = []\<rparr>))"
proof -
  have "tp_step \<lparr>tp_objs = [], tp_num = 0, tp_calls = []\<rparr>
     (batadv_tp_start ex_tpk ex_priv (Mac 2 0 0 0 0 9) 0 (1, 2) 3 (Some ex_tv) True
       \<lparr>tp_objs = [], tp_num = 0, tp_calls = []\<rparr>)"
    by (rule step_start) (simp add: tp_ptrs_def)
  then show ?thesis using tp_sessions_accounted [OF r_into_rtranclp [where r = tp_step]] by blast
qed

text \<open>
  A sender that nobody asked is stopped after one iteration; one that was asked once and has not
  noticed is still waited for after a thousand.
\<close>

theorem tp_stop_all_waits_witness:
  "(\<exists>s'. batadv_tp_stop_all ex_tpk ex_priv (\<lambda>p. [(ex_tpk, [], Mac 2 0 0 0 0 1)])
      \<lparr>tp_objs = [ex_tv], tp_num = 1, tp_calls = []\<rparr> = Some s' \<and> tp_objs s' = [])
   \<and> batadv_tp_stop_all ex_tpk ex_priv (\<lambda>p. replicate 1000 (ex_tpk, [], Mac 2 0 0 0 0 1))
     \<lparr>tp_objs = [batadv_tp_sender_finish ex_tv], tp_num = 1, tp_calls = []\<rparr> = None"
proof -
  let ?s = "\<lparr>tp_objs = [ex_tv], tp_num = 1, tp_calls = []\<rparr>"
  let ?t = "\<lparr>tp_objs = [batadv_tp_sender_finish ex_tv], tp_num = 1, tp_calls = []\<rparr>"
  have inv: "tp_inv ?s" "tp_inv ?t"
    by (simp_all add: tp_inv_def tp_obj_ok_def batadv_tp_sender_finish_def batadv_tp_sender_shutdown_def Let_def ex_tv_def)
  have a: "tk_alloc_ok ex_tpk" by (simp add: ex_tpk_def)
  show ?thesis
    using tp_stop_all_waits [OF inv(1), of "\<lambda>p. [(ex_tpk, [], Mac 2 0 0 0 0 1)]" ex_tpk ex_priv]
      tp_stop_all_waits [OF inv(2), of "\<lambda>p. replicate 1000 (ex_tpk, [], Mac 2 0 0 0 0 1)" ex_tpk ex_priv] a
    by (auto simp: tp_senders_def batadv_tp_sender_finish_def batadv_tp_sender_shutdown_def Let_def ex_tv_def)
qed

section \<open>The window check\<close>

text \<open>
  The bytes in flight against the window: the check passes when another packet fits, and also
  when there is already more in flight than the window allows.
\<close>

lemma tp_avail_iff:
  "batadv_tp_avail tv BATADV_TP_PLEN \<longleftrightarrow>
     (let f = unat (tv_last_sent tv - tv_last_acked tv); c = unat (tv_cwnd tv) in
      f + 1476 \<le> c \<or> c < f \<and> f - c \<le> 2 ^ 32 - 1476)"
proof -
  define f where "f = tv_last_sent tv - tv_last_acked tv"
  have e: "tv_last_acked tv + tv_cwnd tv - tv_last_sent tv = tv_cwnd tv - f" by (simp add: f_def)
  have a: "batadv_tp_avail tv BATADV_TP_PLEN \<longleftrightarrow> 1476 \<le> unat (tv_cwnd tv - f)"
    by (simp add: batadv_tp_avail_def Let_def e word_le_nat_alt) (simp add: tp_consts)
  have b: "unat (tv_cwnd tv - f) = (if f \<le> tv_cwnd tv then unat (tv_cwnd tv) - unat f
      else 2 ^ 32 - (unat f - unat (tv_cwnd tv)))"
    using unat_uminus_u32 [of "f - tv_cwnd tv"] unat_sub [of f "tv_cwnd tv"] unat_sub [of "tv_cwnd tv" f]
    by auto
  show ?thesis
    unfolding a b Let_def f_def [symmetric] using unat_less_u32 [of f] by (auto simp: word_le_nat_alt)
qed

text \<open>One session, step by step: a packet sent while the window allows it, an acknowledgement.\<close>

datatype tp_event = Ev_send | Ev_ack u32

definition ack_packet :: "u32 \<Rightarrow> batadv_icmp_tp_packet" where
  "ack_packet seqno = \<lparr>tpp_packet_type = BATADV_ICMP, tpp_version = BATADV_COMPAT_VERSION, tpp_ttl = BATADV_TTL,
     tpp_msg_type = BATADV_TP, tpp_dst = Mac 2 0 0 0 0 1, tpp_orig = Mac 2 0 0 0 0 9, tpp_uid = 3,
     tpp_subtype = BATADV_TP_ACK, tpp_session = (1, 2), tpp_seqno = seqno, tpp_timestamp = 0\<rparr>"

definition tp_event :: "tp_event \<Rightarrow> batadv_tp_vars \<Rightarrow> batadv_tp_vars option" where
  "tp_event e tv =
     (case e of
        Ev_send \<Rightarrow>
          if \<not> batadv_tp_avail tv BATADV_TP_PLEN then None
          else (case batadv_tp_send_msg ex_tpk [] (Mac 2 0 0 0 0 1) (tv_other_end tv) (tv_last_sent tv) 1486
                       (tv_session tv) (tv_icmp_uid tv) 0 tv of
                  (err, tv, _) \<Rightarrow> if err = 0 then Some (tv\<lparr>tv_last_sent := tv_last_sent tv + BATADV_TP_PLEN\<rparr>) else None)
      | Ev_ack seqno \<Rightarrow>
          if batadv_seq_before seqno (tv_last_acked tv) then None
          else if tv_last_acked tv = seqno
          then Some (fst (tp_dup_ack ex_tpk [] (Mac 2 0 0 0 0 1) (tv_other_end tv) (ack_packet seqno) tv))
          else (case tp_new_ack ex_tpk [] (Mac 2 0 0 0 0 1) (tv_other_end tv) (ack_packet seqno) tv of
                  Kret (tv, _) \<Rightarrow> Some tv | Kernel_bug \<Rightarrow> None))"

fun tp_events :: "tp_event list \<Rightarrow> batadv_tp_vars \<Rightarrow> batadv_tp_vars option" where
  "tp_events [] tv = Some tv"
| "tp_events (e # es) tv = (case tp_event e tv of None \<Rightarrow> None | Some tv \<Rightarrow> tp_events es tv)"

text \<open>
  The part of a session the events depend on: window, threshold, sequence numbers, duplicate
  counter, recovery.
\<close>

definition tp_view :: "batadv_tp_vars \<Rightarrow> u32 \<times> u32 \<times> u32 \<times> u32 \<times> u32 \<times> bool \<times> u32" where
  "tp_view tv = (tv_cwnd tv, tv_ss_threshold tv, tv_last_acked tv, tv_last_sent tv, tv_dup_acks tv,
     tv_fast_recovery tv, tv_recover tv)"

definition view_event :: "tp_event \<Rightarrow> u32 \<times> u32 \<times> u32 \<times> u32 \<times> u32 \<times> bool \<times> u32
    \<Rightarrow> (u32 \<times> u32 \<times> u32 \<times> u32 \<times> u32 \<times> bool \<times> u32) option" where
  "view_event e w =
     (case w of (c, ss, la, ls, d, fr, rec) \<Rightarrow>
        (case e of
           Ev_send \<Rightarrow> if 1476 \<le> la + c - ls then Some (c, ss, la, ls + 1476, d, fr, rec) else None
         | Ev_ack a \<Rightarrow>
             if batadv_seq_before a la then None
             else if a = la then
               if d + 1 \<noteq> 3 \<or> rec \<le> la then Some (c, ss, la, ls, d + 1, fr, rec)
               else Some (batadv_tp_cwnd (drop_bit 1 c) 4428 1476, drop_bit 1 c, la, la, 3, True, ls)
             else if fr then
               if batadv_seq_before a rec then Some (batadv_tp_cwnd c 1476 1476, ss, a, ls, 0, True, rec)
               else Some (batadv_tp_cwnd ss 0 1476, ss, a, ls, 0, False, rec)
             else if 1476 \<le> a - la \<and> c \<le> ss then Some (batadv_tp_cwnd c 1476 1476, ss, a, ls, 0, False, rec)
             else None))"

lemma view_event_sim:
  assumes "view_event e (tp_view tv) = Some w"
  shows "\<exists>tv'. tp_event e tv = Some tv' \<and> tp_view tv' = w"
proof (cases e)
  case Ev_send
  then show ?thesis
    using assms
    by (auto simp: view_event_def tp_event_def batadv_tp_avail_def Let_def tp_view_def batadv_tp_send_msg_def
        ex_tpk_def ret_defs batadv_tp_fill_prerandom_def BATADV_TP_PLEN_def split: if_splits)
next
  case (Ev_ack a)
  show ?thesis
  proof (cases "a = tv_last_acked tv")
    case True
    then show ?thesis
      using assms Ev_ack
      by (auto simp: view_event_def tp_event_def tp_view_def tp_dup_ack_def ack_packet_def Let_def
          batadv_seq_before_def batadv_tp_send_msg_def ex_tpk_def batadv_tp_fill_prerandom_def BATADV_TP_PLEN_def
          split: if_splits)
  next
    case False
    then show ?thesis
      using assms Ev_ack
      by (auto simp: view_event_def tp_event_def tp_view_def tp_new_ack_def ack_packet_def Let_def
          batadv_tp_send_msg_def ex_tpk_def batadv_tp_fill_prerandom_def BATADV_TP_PLEN_def
          batadv_tp_update_cwnd_def split: if_splits)
  qed
qed

fun view_events :: "tp_event list \<Rightarrow> u32 \<times> u32 \<times> u32 \<times> u32 \<times> u32 \<times> bool \<times> u32
    \<Rightarrow> (u32 \<times> u32 \<times> u32 \<times> u32 \<times> u32 \<times> bool \<times> u32) option" where
  "view_events [] w = Some w"
| "view_events (e # es) w = (case view_event e w of None \<Rightarrow> None | Some w \<Rightarrow> view_events es w)"

lemma view_events_sim:
  "view_events es (tp_view tv) = Some w \<Longrightarrow> \<exists>tv'. tp_events es tv = Some tv' \<and> tp_view tv' = w"
proof (induction es arbitrary: tv)
  case (Cons e es)
  then obtain w1 where w1: "view_event e (tp_view tv) = Some w1" "view_events es w1 = Some w"
    by (auto split: option.splits)
  then obtain tv1 where "tp_event e tv = Some tv1" "tp_view tv1 = w1" using view_event_sim by blast
  then show ?case using Cons.IH [of tv1] w1(2) by auto
qed simp

text \<open>
  The congestion window does not limit the sender after a loss. In a run of a fresh
  session without any misbehaviour (six packets sent, two of them lost, three duplicate
  acknowledgements, a partial and then the full acknowledgement that ends the fast recovery)
  the window falls to two packets while three are in flight; the window check, which
  subtracts in 32 bits, then allows the next packet although nothing may be sent.
\<close>

theorem tp_window_overrun:
  "\<exists>tv. tp_events ([Ev_send, Ev_send, Ev_send, Ev_ack (BATADV_TP_FIRST_SEQ + 2 * 1476),
        Ev_send, Ev_send, Ev_send,
        Ev_ack (BATADV_TP_FIRST_SEQ + 2 * 1476), Ev_ack (BATADV_TP_FIRST_SEQ + 2 * 1476),
        Ev_ack (BATADV_TP_FIRST_SEQ + 2 * 1476),
        Ev_send, Ev_send, Ev_send, Ev_send, Ev_send, Ev_ack (BATADV_TP_FIRST_SEQ + 3 * 1476),
        Ev_send, Ev_send, Ev_ack (BATADV_TP_FIRST_SEQ + 6 * 1476)])
       (tp_sender_new k dst len se uid mem) = Some tv
     \<and> unat (tv_last_sent tv - tv_last_acked tv) = 3 * 1476 \<and> unat (tv_cwnd tv) = 2 * 1476
     \<and> batadv_tp_avail tv BATADV_TP_PLEN"
proof -
  let ?es = "[Ev_send, Ev_send, Ev_send, Ev_ack (BATADV_TP_FIRST_SEQ + 2 * 1476),
        Ev_send, Ev_send, Ev_send,
        Ev_ack (BATADV_TP_FIRST_SEQ + 2 * 1476), Ev_ack (BATADV_TP_FIRST_SEQ + 2 * 1476),
        Ev_ack (BATADV_TP_FIRST_SEQ + 2 * 1476),
        Ev_send, Ev_send, Ev_send, Ev_send, Ev_send, Ev_ack (BATADV_TP_FIRST_SEQ + 3 * 1476),
        Ev_send, Ev_send, Ev_ack (BATADV_TP_FIRST_SEQ + 6 * 1476)]"
  let ?tv = "tp_sender_new k dst len se uid mem"
  have "tp_view ?tv = (4428, BATADV_TP_AWND, BATADV_TP_FIRST_SEQ, BATADV_TP_FIRST_SEQ, tv_dup_acks mem, False, BATADV_TP_FIRST_SEQ)"
    by (simp add: tp_view_def tp_sender_new_def BATADV_TP_PLEN_def)
  then have "view_events ?es (tp_view ?tv) = Some (2952, 2952, BATADV_TP_FIRST_SEQ + 6 * 1476, BATADV_TP_FIRST_SEQ + 9 * 1476,
      0, False, BATADV_TP_FIRST_SEQ + 6 * 1476)"
    by (simp add: view_event_def batadv_tp_cwnd_def Let_def batadv_seq_before_def tp_consts)
  then obtain tv where "tp_events ?es ?tv = Some tv" "tp_view tv = (2952, 2952, BATADV_TP_FIRST_SEQ + 6 * 1476,
      BATADV_TP_FIRST_SEQ + 9 * 1476, 0, False, BATADV_TP_FIRST_SEQ + 6 * 1476)"
    using view_events_sim by blast
  then show ?thesis by (auto simp: tp_view_def tp_avail_iff Let_def)
qed

end
