(* ===== verification/Translation_Table.thy ===== *)
theory Translation_Table
  imports Originator
begin

text \<open>
  The translation table, \<^verbatim>\<open>src/net/batman-adv/translation-table.c\<close>: the local table of
  the clients behind this node, the global table of the clients behind other originators,
  the changes of an originator interval, version numbers and checksums, the requests and
  responses that synchronise tables, and roaming.

  A client is keyed by address and VLAN. A pointer to an entry is that key; a write through
  it is an update of the entry in its bucket. The references a global entry holds keep its
  list of originators until the entry is unlinked; releasing it takes the originators' entry
  counters down (\<open>tt_global_release\<close>). The checksum function, the outcome of allocations and
  the question whether an originator is a backbone gateway of a VLAN (answered by
  bridge loop avoidance) are parameters.
\<close>

section \<open>Wire formats\<close>

record batadv_tvlv_tt_vlan_data =
  vd_crc :: u32
  vd_vid :: u16

definition tt_vlan_data_bytes :: "batadv_tvlv_tt_vlan_data \<Rightarrow> bytes" where
  "tt_vlan_data_bytes v = be32 (vd_crc v) @ be16 (vd_vid v) @ [0, 0]"

definition get_tt_vlan_data :: "bytes \<Rightarrow> batadv_tvlv_tt_vlan_data" where
  "get_tt_vlan_data bs = \<lparr>vd_crc = get_be32 bs, vd_vid = get_be16 (drop 4 bs)\<rparr>"

interpretation ttv_fmt: wire_format tt_vlan_data_bytes get_tt_vlan_data 8
  by unfold_locales (simp_all add: tt_vlan_data_bytes_def get_tt_vlan_data_def)

text \<open>The header; the VLAN records follow it.\<close>

record batadv_tvlv_tt_data =
  td_flags :: u8
  td_ttvn :: u8
  td_num_vlan :: u16

definition tt_data_bytes :: "batadv_tvlv_tt_data \<Rightarrow> bytes" where
  "tt_data_bytes d = [td_flags d, td_ttvn d] @ be16 (td_num_vlan d)"

definition get_tt_data :: "bytes \<Rightarrow> batadv_tvlv_tt_data" where
  "get_tt_data bs = \<lparr>td_flags = bs ! 0, td_ttvn = bs ! 1, td_num_vlan = get_be16 (drop 2 bs)\<rparr>"

interpretation ttd_fmt: wire_format tt_data_bytes get_tt_data 4
  by unfold_locales (simp_all add: tt_data_bytes_def get_tt_data_def drop_Cons' nth_Cons')

record batadv_tvlv_tt_change =
  chg_flags :: u8
  chg_addr :: mac
  chg_vid :: u16

definition tt_change_bytes :: "batadv_tvlv_tt_change \<Rightarrow> bytes" where
  "tt_change_bytes c = [chg_flags c, 0, 0, 0] @ mac_bytes (chg_addr c) @ be16 (chg_vid c)"

definition get_tt_change :: "bytes \<Rightarrow> batadv_tvlv_tt_change" where
  "get_tt_change bs =
     \<lparr>chg_flags = bs ! 0, chg_addr = get_mac (drop 4 bs), chg_vid = get_be16 (drop 10 bs)\<rparr>"

interpretation ttc_fmt: wire_format tt_change_bytes get_tt_change 12
  by unfold_locales (simp_all add: tt_change_bytes_def get_tt_change_def drop_Cons' nth_Cons')

record batadv_tvlv_roam_adv =
  ra_client :: mac
  ra_vid :: u16

definition roam_adv_bytes :: "batadv_tvlv_roam_adv \<Rightarrow> bytes" where
  "roam_adv_bytes r = mac_bytes (ra_client r) @ be16 (ra_vid r)"

definition get_roam_adv :: "bytes \<Rightarrow> batadv_tvlv_roam_adv" where
  "get_roam_adv bs = \<lparr>ra_client = get_mac bs, ra_vid = get_be16 (drop 6 bs)\<rparr>"

interpretation roam_fmt: wire_format roam_adv_bytes get_roam_adv 8
  by unfold_locales (simp_all add: roam_adv_bytes_def get_roam_adv_def)

section \<open>Constants\<close>

definition BATADV_TT_CLIENT_DEL :: u16 where "BATADV_TT_CLIENT_DEL = 0x0001"
definition BATADV_TT_CLIENT_ROAM :: u16 where "BATADV_TT_CLIENT_ROAM = 0x0002"
definition BATADV_TT_CLIENT_WIFI :: u16 where "BATADV_TT_CLIENT_WIFI = 0x0010"
definition BATADV_TT_CLIENT_ISOLA :: u16 where "BATADV_TT_CLIENT_ISOLA = 0x0020"
definition BATADV_TT_CLIENT_NOPURGE :: u16 where "BATADV_TT_CLIENT_NOPURGE = 0x0100"
definition BATADV_TT_CLIENT_NEW :: u16 where "BATADV_TT_CLIENT_NEW = 0x0200"
definition BATADV_TT_CLIENT_PENDING :: u16 where "BATADV_TT_CLIENT_PENDING = 0x0400"
definition BATADV_TT_CLIENT_TEMP :: u16 where "BATADV_TT_CLIENT_TEMP = 0x0800"

lemmas tt_client_flag_defs = BATADV_TT_CLIENT_DEL_def BATADV_TT_CLIENT_ROAM_def
  BATADV_TT_CLIENT_WIFI_def BATADV_TT_CLIENT_ISOLA_def BATADV_TT_CLIENT_NOPURGE_def
  BATADV_TT_CLIENT_NEW_def BATADV_TT_CLIENT_PENDING_def BATADV_TT_CLIENT_TEMP_def

definition BATADV_TT_REMOTE_MASK :: u16 where "BATADV_TT_REMOTE_MASK = 0x00FF"
definition BATADV_TT_SYNC_MASK :: u16 where "BATADV_TT_SYNC_MASK = 0x00F0"

definition BATADV_TT_OGM_DIFF :: u8 where "BATADV_TT_OGM_DIFF = 1"
definition BATADV_TT_REQUEST :: u8 where "BATADV_TT_REQUEST = 2"
definition BATADV_TT_RESPONSE :: u8 where "BATADV_TT_RESPONSE = 4"
definition BATADV_TT_FULL_TABLE :: u8 where "BATADV_TT_FULL_TABLE = 16"
definition BATADV_TT_DATA_TYPE_MASK :: u8 where "BATADV_TT_DATA_TYPE_MASK = 0x0F"

lemmas tt_data_flag_defs = BATADV_TT_OGM_DIFF_def BATADV_TT_REQUEST_def BATADV_TT_RESPONSE_def
  BATADV_TT_FULL_TABLE_def BATADV_TT_DATA_TYPE_MASK_def

definition BATADV_TVLV_TT :: u8 where "BATADV_TVLV_TT = 4"
definition BATADV_TVLV_ROAM :: u8 where "BATADV_TVLV_ROAM = 5"
definition BATADV_TT_LOCAL_TIMEOUT :: nat where "BATADV_TT_LOCAL_TIMEOUT = 600000"
definition BATADV_TT_CLIENT_ROAM_TIMEOUT :: nat where "BATADV_TT_CLIENT_ROAM_TIMEOUT = 600000"
definition BATADV_TT_CLIENT_TEMP_TIMEOUT :: nat where "BATADV_TT_CLIENT_TEMP_TIMEOUT = 600000"
definition BATADV_TT_WORK_PERIOD :: nat where "BATADV_TT_WORK_PERIOD = 5000"
definition BATADV_TT_REQUEST_TIMEOUT :: nat where "BATADV_TT_REQUEST_TIMEOUT = 3000"
definition BATADV_TT_OGM_APPEND_MAX :: u32 where "BATADV_TT_OGM_APPEND_MAX = 3"
definition BATADV_ROAMING_MAX_TIME :: nat where "BATADV_ROAMING_MAX_TIME = 20000"
definition BATADV_ROAMING_MAX_COUNT :: u32 where "BATADV_ROAMING_MAX_COUNT = 5"
definition BATADV_ORIG_CAPA_HAS_TT :: nat where "BATADV_ORIG_CAPA_HAS_TT = 1"

section \<open>State\<close>

type_synonym tt_key = "mac \<times> u16"

record batadv_tt_common_entry =
  tc_addr :: mac
  tc_vid :: u16
  tc_flags :: u16
  tc_added_at :: u64

record batadv_tt_local_entry = batadv_tt_common_entry +
  tl_last_seen :: u64

record batadv_tt_orig_list_entry =
  oe_orig_node :: mac
  oe_ttvn :: u8
  oe_flags :: u8

record batadv_tt_global_entry = batadv_tt_common_entry +
  tg_orig_list :: "batadv_tt_orig_list_entry list"
  tg_orig_list_count :: int
  tg_roam_at :: u64

record batadv_tt_req_node =
  rq_addr :: mac
  rq_issued_at :: u64

record batadv_tt_roam_node =
  rn_addr :: mac
  rn_counter :: u32
  rn_first_time :: u64

record batadv_meshif_vlan =
  mv_vid :: u16
  mv_ap_isolation :: bool
  mv_crc :: u32
  mv_num_entries :: u32

text \<open>
  The number of changes counts the nodes of \<open>tt_changes_list\<close>; \<open>tt_last_changeset_len\<close> is a
  signed 16 bit field.
\<close>

record batadv_priv_tt =
  tt_vn :: u32
  tt_ogm_append_cnt :: u32
  tt_local_changes :: nat
  tt_changes_list :: "batadv_tvlv_tt_change list"
  tt_local_hash :: "batadv_tt_local_entry batadv_hashtable option"
  tt_global_hash :: "batadv_tt_global_entry batadv_hashtable option"
  tt_req_list :: "batadv_tt_req_node list"
  tt_roam_list :: "batadv_tt_roam_node list"
  tt_last_changeset :: "bytes option"
  tt_last_changeset_len :: u16

text \<open>
  The mesh interface with its translation table: its VLANs, the largest packet the mesh can
  carry, the isolation mark, the address and MTU of the interface, and the unicast TVLV
  packets handed to the TVLV component (source, destination, type, value) in order.
\<close>

datatype tt_call =
    Tt_unicast_send mac mac u8 bytes
  | Tt_queue_work nat

record mesh = batadv_priv_tt +
  ms_priv :: batadv_priv
  ms_vlan_list :: "batadv_meshif_vlan list"
  ms_packet_size_max :: int
  ms_isolation_mark :: u32
  ms_isolation_mark_mask :: u32
  ms_dev_addr :: mac
  ms_mtu :: int
  ms_calls :: "tt_call list"

datatype tt_alloc =
    Alloc_change mac u16 | Alloc_local mac u16 | Alloc_global mac u16 | Alloc_orig_entry mac u16
  | Alloc_req mac | Alloc_roam mac | Alloc_changeset | Alloc_orig_buff mac

text \<open>\<open>tt_kmalloc n\<close> is an uninitialised buffer of \<open>n\<close> bytes, \<open>None\<close> when there is none.\<close>

record tt_kenv = kenv +
  crc32c :: "u32 \<Rightarrow> bytes \<Rightarrow> u32"
  tt_alloc_ok :: "tt_alloc \<Rightarrow> bool"
  tt_kmalloc :: "nat \<Rightarrow> bytes option"
  is_backbone_gw_orig :: "mac \<Rightarrow> u16 \<Rightarrow> bool"

definition tt_call :: "tt_call \<Rightarrow> mesh \<Rightarrow> mesh" where
  "tt_call c ms = ms\<lparr>ms_calls := ms_calls ms @ [c]\<rparr>"

definition has_flag :: "u16 \<Rightarrow> u16 \<Rightarrow> bool" where
  "has_flag flags fl = (flags AND fl \<noteq> 0)"

definition tt_timed_out :: "'k kclock_scheme \<Rightarrow> u64 \<Rightarrow> nat \<Rightarrow> bool" where
  "tt_timed_out k timestamp timeout = batadv_has_timed_out (kclock.truncate k) timestamp timeout"

section \<open>The hash tables\<close>

definition tt_key :: "'e batadv_tt_common_entry_scheme \<Rightarrow> tt_key" where
  "tt_key tt = (tc_addr tt, tc_vid tt)"

definition batadv_compare_tt :: "'e batadv_tt_common_entry_scheme \<Rightarrow> tt_key \<Rightarrow> bool" where
  "batadv_compare_tt tt1 tt2 = (tc_vid tt1 = snd tt2 \<and> batadv_compare_eth (tc_addr tt1) (fst tt2))"

text \<open>The VLAN is hashed in host byte order, here little endian.\<close>

definition batadv_choose_tt :: "(bytes \<Rightarrow> u32 \<Rightarrow> u32) \<Rightarrow> tt_key \<Rightarrow> u32 \<Rightarrow> u32" where
  "batadv_choose_tt jh data n =
     (let hash = jh (mac_bytes (fst data)) 0;
          hash = jh [ucast (snd data), ucast (drop_bit 8 (snd data))] hash in
      hash mod n)"

definition batadv_tt_hash_find ::
    "'k kenv_scheme \<Rightarrow> 'e batadv_tt_common_entry_scheme batadv_hashtable option \<Rightarrow> mac \<Rightarrow> u16
      \<Rightarrow> 'e batadv_tt_common_entry_scheme option" where
  "batadv_tt_hash_find k hash addr vid =
     (case hash of
        None \<Rightarrow> None
      | Some h \<Rightarrow>
          let index = batadv_choose_tt (jhash k) (addr, vid) (hash_size h) in
          find (\<lambda>tt. batadv_compare_eth (tc_addr tt) addr \<and> tc_vid tt = vid) (hash_bucket h index))"

definition batadv_tt_local_hash_find :: "'k kenv_scheme \<Rightarrow> mesh \<Rightarrow> mac \<Rightarrow> u16 \<Rightarrow> batadv_tt_local_entry option" where
  "batadv_tt_local_hash_find k ms addr vid = batadv_tt_hash_find k (tt_local_hash ms) addr vid"

definition batadv_tt_global_hash_find :: "'k kenv_scheme \<Rightarrow> mesh \<Rightarrow> mac \<Rightarrow> u16 \<Rightarrow> batadv_tt_global_entry option" where
  "batadv_tt_global_hash_find k ms addr vid = batadv_tt_hash_find k (tt_global_hash ms) addr vid"

text \<open>Writes through a pointer to an entry.\<close>

definition tt_hash_upd ::
    "'k kenv_scheme \<Rightarrow> mac \<Rightarrow> u16
      \<Rightarrow> ('e batadv_tt_common_entry_scheme \<Rightarrow> 'e batadv_tt_common_entry_scheme)
      \<Rightarrow> 'e batadv_tt_common_entry_scheme batadv_hashtable option
      \<Rightarrow> 'e batadv_tt_common_entry_scheme batadv_hashtable option" where
  "tt_hash_upd k addr vid f hash =
     (case hash of
        None \<Rightarrow> None
      | Some h \<Rightarrow>
          let index = batadv_choose_tt (jhash k) (addr, vid) (hash_size h) in
          Some (set_hash_bucket h index
            (hlist_upd_first (\<lambda>tt. tt_key tt = (addr, vid)) f (hash_bucket h index))))"

definition tt_local_upd ::
    "'k kenv_scheme \<Rightarrow> mac \<Rightarrow> u16 \<Rightarrow> (batadv_tt_local_entry \<Rightarrow> batadv_tt_local_entry) \<Rightarrow> mesh \<Rightarrow> mesh" where
  "tt_local_upd k addr vid f ms = ms\<lparr>tt_local_hash := tt_hash_upd k addr vid f (tt_local_hash ms)\<rparr>"

definition tt_global_upd ::
    "'k kenv_scheme \<Rightarrow> mac \<Rightarrow> u16 \<Rightarrow> (batadv_tt_global_entry \<Rightarrow> batadv_tt_global_entry) \<Rightarrow> mesh \<Rightarrow> mesh" where
  "tt_global_upd k addr vid f ms = ms\<lparr>tt_global_hash := tt_hash_upd k addr vid f (tt_global_hash ms)\<rparr>"

definition batadv_tt_global_hash_count :: "'k kenv_scheme \<Rightarrow> mesh \<Rightarrow> mac \<Rightarrow> u16 \<Rightarrow> int" where
  "batadv_tt_global_hash_count k ms addr vid =
     (case batadv_tt_global_hash_find k ms addr vid of
        None \<Rightarrow> 0
      | Some tt_global_entry \<Rightarrow> tg_orig_list_count tt_global_entry)"

section \<open>Entry counters of VLANs\<close>

definition batadv_meshif_vlan_get :: "mesh \<Rightarrow> u16 \<Rightarrow> batadv_meshif_vlan option" where
  "batadv_meshif_vlan_get ms vid = find (\<lambda>vlan_tmp. mv_vid vlan_tmp = vid) (ms_vlan_list ms)"

definition batadv_vlan_ap_isola_get :: "mesh \<Rightarrow> u16 \<Rightarrow> bool" where
  "batadv_vlan_ap_isola_get ms vid =
     (case batadv_meshif_vlan_get ms vid of None \<Rightarrow> False | Some vlan \<Rightarrow> mv_ap_isolation vlan)"

definition batadv_tt_local_size_mod :: "u16 \<Rightarrow> u32 \<Rightarrow> mesh \<Rightarrow> mesh" where
  "batadv_tt_local_size_mod vid v ms =
     (case batadv_meshif_vlan_get ms vid of
        None \<Rightarrow> ms
      | Some vlan \<Rightarrow>
          ms\<lparr>ms_vlan_list := hlist_upd_first (\<lambda>vlan_tmp. mv_vid vlan_tmp = vid)
               (\<lambda>vlan. vlan\<lparr>mv_num_entries := mv_num_entries vlan + v\<rparr>) (ms_vlan_list ms)\<rparr>)"

definition batadv_tt_local_size_inc :: "u16 \<Rightarrow> mesh \<Rightarrow> mesh" where
  "batadv_tt_local_size_inc vid ms = batadv_tt_local_size_mod vid 1 ms"

definition batadv_tt_local_size_dec :: "u16 \<Rightarrow> mesh \<Rightarrow> mesh" where
  "batadv_tt_local_size_dec vid ms = batadv_tt_local_size_mod vid (- 1) ms"

text \<open>On an originator: the counter is created on demand and dropped when it reaches zero.\<close>

definition batadv_tt_global_size_mod :: "'k kenv_scheme \<Rightarrow> u16 \<Rightarrow> u32 \<Rightarrow> batadv_orig_node \<Rightarrow> batadv_orig_node" where
  "batadv_tt_global_size_mod k vid v orig_node =
     (case batadv_orig_node_vlan_new k orig_node vid of
        (None, orig_node) \<Rightarrow> orig_node
      | (Some vlan, orig_node) \<Rightarrow>
          let n = ov_num_entries vlan + v in
          if n = 0
          then orig_node\<lparr>on_vlan_list := hlist_del_first (\<lambda>vlan. ov_vid vlan = vid) (on_vlan_list orig_node)\<rparr>
          else orig_node\<lparr>on_vlan_list := hlist_upd_first (\<lambda>vlan. ov_vid vlan = vid)
                 (\<lambda>vlan. vlan\<lparr>ov_num_entries := n\<rparr>) (on_vlan_list orig_node)\<rparr>)"

definition batadv_tt_global_size_inc :: "'k kenv_scheme \<Rightarrow> mac \<Rightarrow> u16 \<Rightarrow> batadv_priv \<Rightarrow> batadv_priv" where
  "batadv_tt_global_size_inc k orig vid bp = orig_upd k orig (batadv_tt_global_size_mod k vid 1) bp"

definition batadv_tt_global_size_dec :: "'k kenv_scheme \<Rightarrow> mac \<Rightarrow> u16 \<Rightarrow> batadv_priv \<Rightarrow> batadv_priv" where
  "batadv_tt_global_size_dec k orig vid bp = orig_upd k orig (batadv_tt_global_size_mod k vid (- 1)) bp"

section \<open>Local changes\<close>

text \<open>
  The walk over the pending changes: \<open>None\<close> when no change of the address is pending, else
  the list and the number of changes after the pending one was dropped or updated.
\<close>

fun local_event_loop ::
    "mac \<Rightarrow> u8 \<Rightarrow> batadv_tvlv_tt_change list \<Rightarrow> nat \<Rightarrow> (batadv_tvlv_tt_change list \<times> nat) option" where
  "local_event_loop addr flags [] changes = None"
| "local_event_loop addr flags (entry # rest) changes =
     (if \<not> batadv_compare_eth (chg_addr entry) addr
      then map_option (\<lambda>(l, n). (entry # l, n)) (local_event_loop addr flags rest changes)
      else
        let del_op_requested = flags AND ucast BATADV_TT_CLIENT_DEL \<noteq> 0;
            del_op_entry = chg_flags entry AND ucast BATADV_TT_CLIENT_DEL \<noteq> 0 in
        if del_op_requested \<noteq> del_op_entry then Some (rest, changes - 1)
        else Some (entry\<lparr>chg_flags := flags\<rparr> # rest, changes))"

definition batadv_tt_local_event ::
    "tt_kenv \<Rightarrow> 'e batadv_tt_common_entry_scheme \<Rightarrow> u8 \<Rightarrow> mesh \<Rightarrow> mesh" where
  "batadv_tt_local_event k common event_flags ms =
     (let flags = ucast (tc_flags common) OR event_flags in
      if \<not> tt_alloc_ok k (Alloc_change (tc_addr common) (tc_vid common)) then ms
      else
        (case local_event_loop (tc_addr common) flags (tt_changes_list ms) (tt_local_changes ms) of
           Some (changes_list, changes) \<Rightarrow>
             ms\<lparr>tt_local_changes := changes, tt_changes_list := changes_list\<rparr>
         | None \<Rightarrow>
             ms\<lparr>tt_local_changes := tt_local_changes ms + 1,
                tt_changes_list := tt_changes_list ms @
                  [\<lparr>chg_flags = flags, chg_addr = tc_addr common, chg_vid = tc_vid common\<rparr>]\<rparr>))"

definition batadv_tt_len :: "int \<Rightarrow> int" where
  "batadv_tt_len changes_num = changes_num * 12"

definition batadv_tt_entries :: "u16 \<Rightarrow> u16" where
  "batadv_tt_entries tt_len = tt_len div 12"

definition batadv_tt_local_table_transmit_size :: "mesh \<Rightarrow> int" where
  "batadv_tt_local_table_transmit_size ms =
     (let num_vlan = (of_nat (length (ms_vlan_list ms)) :: u16);
          tt_local_entries = foldl (\<lambda>n vlan. n + ucast (mv_num_entries vlan)) (0 :: u16) (ms_vlan_list ms);
          hdr_size = 20 + 4 + 4 + int (unat num_vlan) * 8 in
      hdr_size + batadv_tt_len (int (unat tt_local_entries)))"

definition batadv_tt_local_init :: "bool \<Rightarrow> bool \<Rightarrow> bool \<Rightarrow> mesh \<Rightarrow> int \<times> mesh" where
  "batadv_tt_local_init ok1 ok2 ok3 ms =
     (if tt_local_hash ms \<noteq> None then (0, ms)
      else (case batadv_hash_new ok1 ok2 ok3 1024 of
              None \<Rightarrow> (- ENOMEM, ms)
            | Some h \<Rightarrow> (0, ms\<lparr>tt_local_hash := Some h\<rparr>)))"

section \<open>Removing global entries\<close>

text \<open>The last reference to an unlinked global entry is dropped.\<close>

definition tt_global_release :: "'k kenv_scheme \<Rightarrow> batadv_tt_global_entry \<Rightarrow> batadv_priv \<Rightarrow> batadv_priv" where
  "tt_global_release k tt_global bp =
     foldl (\<lambda>bp oe. batadv_tt_global_size_dec k (oe_orig_node oe) (tc_vid tt_global) bp) bp
       (tg_orig_list tt_global)"

definition batadv_tt_global_free :: "'k kenv_scheme \<Rightarrow> mac \<Rightarrow> u16 \<Rightarrow> mesh \<Rightarrow> mesh" where
  "batadv_tt_global_free k addr vid ms =
     (case tt_global_hash ms of
        None \<Rightarrow> ms
      | Some hash \<Rightarrow>
          (case batadv_hash_remove hash batadv_compare_tt (batadv_choose_tt (jhash k)) (addr, vid) of
             (None, _) \<Rightarrow> ms
           | (Some tt_removed_entry, hash) \<Rightarrow>
               ms\<lparr>tt_global_hash := Some hash,
                  ms_priv := tt_global_release k tt_removed_entry (ms_priv ms)\<rparr>))"

section \<open>Roaming advertisements\<close>

fun roam_count_loop ::
    "'k kclock_scheme \<Rightarrow> mac \<Rightarrow> batadv_tt_roam_node list \<Rightarrow> (batadv_tt_roam_node list \<times> bool) option" where
  "roam_count_loop k client [] = None"
| "roam_count_loop k client (node # rest) =
     (if \<not> batadv_compare_eth (rn_addr node) client
         \<or> tt_timed_out k (rn_first_time node) BATADV_ROAMING_MAX_TIME
      then map_option (\<lambda>(l, ret). (node # l, ret)) (roam_count_loop k client rest)
      else if rn_counter node = 0 then Some (node # rest, False)
      else Some (node\<lparr>rn_counter := rn_counter node - 1\<rparr> # rest, True))"

definition batadv_tt_check_roam_count :: "tt_kenv \<Rightarrow> mac \<Rightarrow> mesh \<Rightarrow> bool \<times> mesh" where
  "batadv_tt_check_roam_count k client ms =
     (case roam_count_loop k client (tt_roam_list ms) of
        Some (roam_list, ret) \<Rightarrow> (ret, ms\<lparr>tt_roam_list := roam_list\<rparr>)
      | None \<Rightarrow>
          if \<not> tt_alloc_ok k (Alloc_roam client) then (False, ms)
          else (True, ms\<lparr>tt_roam_list :=
                 \<lparr>rn_addr = client, rn_counter = BATADV_ROAMING_MAX_COUNT - 1,
                  rn_first_time = jiffies k\<rparr> # tt_roam_list ms\<rparr>))"

definition ms_inc_counter :: "batadv_counters \<Rightarrow> mesh \<Rightarrow> mesh" where
  "ms_inc_counter idx ms = ms\<lparr>ms_priv := batadv_add_counter idx 1 (ms_priv ms)\<rparr>"

definition batadv_send_roam_adv :: "tt_kenv \<Rightarrow> mac \<Rightarrow> u16 \<Rightarrow> mac \<Rightarrow> mesh \<Rightarrow> mesh" where
  "batadv_send_roam_adv k client vid orig ms =
     (case batadv_primary_if_get_selected (ms_priv ms) of
        None \<Rightarrow> ms
      | Some primary_if \<Rightarrow>
          (case batadv_tt_check_roam_count k client ms of
             (False, ms) \<Rightarrow> ms
           | (True, ms) \<Rightarrow>
               tt_call (Tt_unicast_send (hi_dev_addr primary_if) orig BATADV_TVLV_ROAM
                          (roam_adv_bytes \<lparr>ra_client = client, ra_vid = vid\<rparr>))
                 (ms_inc_counter BATADV_CNT_TT_ROAM_ADV_TX ms)))"

section \<open>Adding local clients\<close>

definition is_wifi :: "batadv_hard_iface option \<Rightarrow> bool" where
  "is_wifi in_hardif = (case in_hardif of None \<Rightarrow> False | Some h \<Rightarrow> batadv_is_wifi_hardif h)"

text \<open>A new entry, unless the table would no longer fit a response; \<open>None\<close> when nothing is added.\<close>

definition tt_local_new ::
    "tt_kenv \<Rightarrow> mac \<Rightarrow> u16 \<Rightarrow> batadv_hard_iface option \<Rightarrow> mesh \<Rightarrow> mesh option" where
  "tt_local_new k addr vid in_hardif ms =
     (if batadv_tt_local_table_transmit_size ms + batadv_tt_len 1 > ms_packet_size_max ms then None
      else if \<not> tt_alloc_ok k (Alloc_local addr vid) then None
      else (case batadv_meshif_vlan_get ms vid of
              None \<Rightarrow> None
            | Some vlan \<Rightarrow>
                let flags = BATADV_TT_CLIENT_NEW;
                    flags = (if is_wifi in_hardif then flags OR BATADV_TT_CLIENT_WIFI else flags);
                    flags = (if batadv_compare_eth addr (ms_dev_addr ms) \<or> is_multicast_ether_addr addr
                             then flags OR BATADV_TT_CLIENT_NOPURGE else flags);
                    tt_local = \<lparr>tc_addr = addr, tc_vid = vid, tc_flags = flags,
                                tc_added_at = jiffies k, tl_last_seen = jiffies k\<rparr> in
                (case batadv_hash_add (tt_local_hash ms) batadv_compare_tt
                        (batadv_choose_tt (jhash k)) (addr, vid) tt_local of
                   (hash_added, hash) \<Rightarrow>
                     if hash_added \<noteq> 0 then None
                     else Some (batadv_tt_local_event k tt_local BATADV_NO_FLAGS
                                  (ms\<lparr>tt_local_hash := hash\<rparr>)))))"

text \<open>A known client was seen: whether it came back from roaming, and the new state.\<close>

definition tt_local_seen :: "tt_kenv \<Rightarrow> batadv_tt_local_entry \<Rightarrow> mesh \<Rightarrow> bool \<times> mesh" where
  "tt_local_seen k tt_local ms =
     (let addr = tc_addr tt_local; vid = tc_vid tt_local; flags = tc_flags tt_local;
          ms = tt_local_upd k addr vid (\<lambda>e. e\<lparr>tl_last_seen := jiffies k\<rparr>) ms in
      if has_flag flags BATADV_TT_CLIENT_PENDING then
        let flags = flags AND NOT BATADV_TT_CLIENT_PENDING;
            ms = tt_local_upd k addr vid (\<lambda>e. e\<lparr>tc_flags := flags\<rparr>) ms in
        (False, batadv_tt_local_event k (tt_local\<lparr>tc_flags := flags\<rparr>) BATADV_NO_FLAGS ms)
      else if has_flag flags BATADV_TT_CLIENT_ROAM then
        (True, tt_local_upd k addr vid
                 (\<lambda>e. e\<lparr>tc_flags := flags AND NOT BATADV_TT_CLIENT_ROAM\<rparr>) ms)
      else (False, ms))"

definition tt_check_roaming ::
    "tt_kenv \<Rightarrow> batadv_tt_global_entry option \<Rightarrow> bool \<Rightarrow> mesh \<Rightarrow> mesh" where
  "tt_check_roaming k tt_global roamed_back ms =
     (case tt_global of
        None \<Rightarrow> ms
      | Some g \<Rightarrow>
          if has_flag (tc_flags g) BATADV_TT_CLIENT_ROAM then ms
          else
            let ms = foldl (\<lambda>ms oe. batadv_send_roam_adv k (tc_addr g) (tc_vid g) (oe_orig_node oe) ms)
                       ms (tg_orig_list g) in
            if roamed_back then batadv_tt_global_free k (tc_addr g) (tc_vid g) ms
            else tt_global_upd k (tc_addr g) (tc_vid g)
                   (\<lambda>e. e\<lparr>tc_flags := tc_flags e OR BATADV_TT_CLIENT_ROAM, tg_roam_at := jiffies k\<rparr>) ms)"

definition tt_dynamic_flags :: "mesh \<Rightarrow> batadv_hard_iface option \<Rightarrow> u32 \<Rightarrow> u16 \<Rightarrow> u16" where
  "tt_dynamic_flags ms in_hardif mrk flags =
     (let flags = (if is_wifi in_hardif then flags OR BATADV_TT_CLIENT_WIFI
                   else flags AND NOT BATADV_TT_CLIENT_WIFI);
          match_mark = mrk AND ms_isolation_mark_mask ms in
      if ms_isolation_mark_mask ms \<noteq> 0 \<and> match_mark = ms_isolation_mark ms
      then flags OR BATADV_TT_CLIENT_ISOLA
      else flags AND NOT BATADV_TT_CLIENT_ISOLA)"

definition tt_local_refresh ::
    "tt_kenv \<Rightarrow> mac \<Rightarrow> u16 \<Rightarrow> batadv_hard_iface option \<Rightarrow> u32 \<Rightarrow> mesh \<Rightarrow> mesh" where
  "tt_local_refresh k addr vid in_hardif mrk ms =
     (case batadv_tt_local_hash_find k ms addr vid of
        None \<Rightarrow> ms
      | Some tt_local \<Rightarrow>
          let remote_flags = tc_flags tt_local AND BATADV_TT_REMOTE_MASK;
              flags = tt_dynamic_flags ms in_hardif mrk (tc_flags tt_local);
              ms = tt_local_upd k addr vid (\<lambda>e. e\<lparr>tc_flags := flags\<rparr>) ms in
          if remote_flags XOR (flags AND BATADV_TT_REMOTE_MASK) \<noteq> 0
          then batadv_tt_local_event k (tt_local\<lparr>tc_flags := flags\<rparr>) BATADV_NO_FLAGS ms
          else ms)"

text \<open>\<open>in_hardif\<close> is the hard interface the frame came in on, if it is one.\<close>

definition batadv_tt_local_add ::
    "tt_kenv \<Rightarrow> mac \<Rightarrow> u16 \<Rightarrow> batadv_hard_iface option \<Rightarrow> u32 \<Rightarrow> mesh \<Rightarrow> bool \<times> mesh" where
  "batadv_tt_local_add k addr vid in_hardif mrk ms =
     (let tt_global = (if is_multicast_ether_addr addr then None
                       else batadv_tt_global_hash_find k ms addr vid) in
      case (case batadv_tt_local_hash_find k ms addr vid of
              Some tt_local \<Rightarrow> Some (tt_local_seen k tt_local ms)
            | None \<Rightarrow> map_option (\<lambda>ms. (False, ms)) (tt_local_new k addr vid in_hardif ms)) of
        None \<Rightarrow> (False, ms)
      | Some (roamed_back, ms) \<Rightarrow>
          (True, tt_local_refresh k addr vid in_hardif mrk
                   (tt_check_roaming k tt_global roamed_back ms)))"

section \<open>Removing and purging local clients\<close>

definition batadv_tt_local_set_pending ::
    "tt_kenv \<Rightarrow> batadv_tt_local_entry \<Rightarrow> u16 \<Rightarrow> mesh \<Rightarrow> mesh" where
  "batadv_tt_local_set_pending k tt_local_entry flags ms =
     (let ms = batadv_tt_local_event k tt_local_entry (ucast flags) ms in
      tt_local_upd k (tc_addr tt_local_entry) (tc_vid tt_local_entry)
        (\<lambda>e. e\<lparr>tc_flags := tc_flags e OR BATADV_TT_CLIENT_PENDING\<rparr>) ms)"

definition batadv_tt_local_remove ::
    "tt_kenv \<Rightarrow> mac \<Rightarrow> u16 \<Rightarrow> bool \<Rightarrow> mesh \<Rightarrow> u16 \<times> mesh" where
  "batadv_tt_local_remove k addr vid roaming ms =
     (case batadv_tt_local_hash_find k ms addr vid of
        None \<Rightarrow> (ucast BATADV_NO_FLAGS, ms)
      | Some tt_local_entry \<Rightarrow>
          let curr_flags = tc_flags tt_local_entry;
              flags = (if roaming then BATADV_TT_CLIENT_DEL OR BATADV_TT_CLIENT_ROAM
                       else BATADV_TT_CLIENT_DEL);
              new_flags = (if roaming then curr_flags OR BATADV_TT_CLIENT_ROAM else curr_flags);
              ms = (if roaming then tt_local_upd k addr vid (\<lambda>e. e\<lparr>tc_flags := new_flags\<rparr>) ms else ms);
              tt_local_entry = tt_local_entry\<lparr>tc_flags := new_flags\<rparr> in
          if \<not> has_flag new_flags BATADV_TT_CLIENT_NEW
          then (curr_flags, batadv_tt_local_set_pending k tt_local_entry flags ms)
          else
            let ms = batadv_tt_local_event k tt_local_entry (ucast BATADV_TT_CLIENT_DEL) ms in
            (curr_flags,
             (case tt_local_hash ms of
                None \<Rightarrow> ms
              | Some hash \<Rightarrow>
                  ms\<lparr>tt_local_hash := Some (snd (batadv_hash_remove hash batadv_compare_tt
                       (batadv_choose_tt (jhash k)) (addr, vid)))\<rparr>)))"

definition tt_local_expired :: "tt_kenv \<Rightarrow> nat \<Rightarrow> batadv_tt_local_entry \<Rightarrow> bool" where
  "tt_local_expired k timeout tt_local_entry =
     (\<not> has_flag (tc_flags tt_local_entry) BATADV_TT_CLIENT_NOPURGE
      \<and> \<not> has_flag (tc_flags tt_local_entry) BATADV_TT_CLIENT_PENDING
      \<and> tt_timed_out k (tl_last_seen tt_local_entry) timeout)"

definition batadv_tt_local_purge_list ::
    "tt_kenv \<Rightarrow> nat \<Rightarrow> batadv_tt_local_entry list \<Rightarrow> mesh \<Rightarrow> mesh" where
  "batadv_tt_local_purge_list k timeout head ms =
     foldl (\<lambda>ms tt_local_entry.
       if tt_local_expired k timeout tt_local_entry
       then batadv_tt_local_set_pending k tt_local_entry BATADV_TT_CLIENT_DEL ms
       else ms) ms head"

definition batadv_tt_local_purge :: "tt_kenv \<Rightarrow> nat \<Rightarrow> mesh \<Rightarrow> mesh" where
  "batadv_tt_local_purge k timeout ms =
     (case tt_local_hash ms of
        None \<Rightarrow> ms
      | Some hash \<Rightarrow> foldl (\<lambda>ms head. batadv_tt_local_purge_list k timeout head ms) ms (table hash))"

definition batadv_tt_local_table_free :: "mesh \<Rightarrow> mesh" where
  "batadv_tt_local_table_free ms = ms\<lparr>tt_local_hash := None\<rparr>"

section \<open>Announcements\<close>

text \<open>
  The VLAN records of an announcement, written one after another into the allocated buffer.
\<close>

fun tt_write_vlans :: "batadv_tvlv_tt_vlan_data list \<Rightarrow> nat \<Rightarrow> bytes \<Rightarrow> bytes kresult" where
  "tt_write_vlans [] off buf = Kret buf"
| "tt_write_vlans (v # vs) off buf =
     kbind (mem_write buf off (tt_vlan_data_bytes v)) (tt_write_vlans vs (off + 8))"

text \<open>
  The result: the length of the value, its buffer, the offset of the changes and the length
  of the changes.
\<close>

definition batadv_tt_prepare_tvlv_global_data ::
    "tt_kenv \<Rightarrow> batadv_orig_node \<Rightarrow> int \<Rightarrow> (u16 \<times> bytes option \<times> nat \<times> int) kresult" where
  "batadv_tt_prepare_tvlv_global_data k orig_node tt_len =
     (let vlans = on_vlan_list orig_node;
          num_vlan = (of_nat (length vlans) :: u16);
          num_entries = foldl (\<lambda>n vlan. n + ucast (ov_num_entries vlan)) (0 :: u16) vlans;
          change_offset = 4 + 8 * unat num_vlan;
          tt_len = (if tt_len < 0 then batadv_tt_len (int (unat num_entries)) else tt_len) in
      if tt_len + int change_offset \<ge> 2 ^ 16
      then Kret (of_int (tt_len + int change_offset), None, change_offset, 0)
      else
        let tvlv_len = of_int (tt_len + int change_offset) in
        (case tt_kmalloc k (unat tvlv_len) of
           None \<Rightarrow> Kret (tvlv_len, None, change_offset, 0)
         | Some buf \<Rightarrow>
             kbind (mem_write buf 0 (tt_data_bytes \<lparr>td_flags = BATADV_NO_FLAGS,
                      td_ttvn = ucast (on_last_ttvn orig_node), td_num_vlan = num_vlan\<rparr>)) (\<lambda>buf.
             kbind (tt_write_vlans (map (\<lambda>vlan. \<lparr>vd_crc = ov_crc vlan, vd_vid = ov_vid vlan\<rparr>) vlans) 4 buf)
               (\<lambda>buf. Kret (tvlv_len, Some buf, change_offset, tt_len)))))"

definition tt_announced_vlans :: "mesh \<Rightarrow> batadv_meshif_vlan list" where
  "tt_announced_vlans ms = filter (\<lambda>vlan. 1 \<le> (ucast (mv_num_entries vlan) :: u16)) (ms_vlan_list ms)"

definition batadv_tt_prepare_tvlv_local_data ::
    "tt_kenv \<Rightarrow> mesh \<Rightarrow> int \<Rightarrow> (u16 \<times> bytes option \<times> nat \<times> int) kresult" where
  "batadv_tt_prepare_tvlv_local_data k ms tt_len =
     (let vlans = tt_announced_vlans ms;
          num_vlan = (of_nat (length vlans) :: u16);
          total_entries = foldl (\<lambda>n vlan. n + ucast (mv_num_entries vlan)) (0 :: u16) vlans;
          change_offset = 4 + 8 * unat num_vlan;
          tt_len = (if tt_len < 0 then batadv_tt_len (int (unat total_entries)) else tt_len);
          tvlv_len = (of_int tt_len + of_nat change_offset :: u16) in
      case tt_kmalloc k (unat tvlv_len) of
        None \<Rightarrow> Kret (0, None, change_offset, tt_len)
      | Some buf \<Rightarrow>
          kbind (mem_write buf 0 (tt_data_bytes \<lparr>td_flags = BATADV_NO_FLAGS,
                   td_ttvn = ucast (tt_vn ms), td_num_vlan = num_vlan\<rparr>)) (\<lambda>buf.
          kbind (tt_write_vlans (map (\<lambda>vlan. \<lparr>vd_crc = mv_crc vlan, vd_vid = mv_vid vlan\<rparr>) vlans) 4 buf)
            (\<lambda>buf. Kret (tvlv_len, Some buf, change_offset, tt_len))))"

text \<open>The first \<open>n\<close> changes, copied behind the VLAN records.\<close>

fun tt_write_changes :: "batadv_tvlv_tt_change list \<Rightarrow> nat \<Rightarrow> bytes \<Rightarrow> bytes kresult" where
  "tt_write_changes [] off buf = Kret buf"
| "tt_write_changes (c # cs) off buf =
     kbind (mem_write buf off (tt_change_bytes c)) (tt_write_changes cs (off + 12))"

definition ms_container_register :: "tt_kenv \<Rightarrow> bytes \<Rightarrow> u16 \<Rightarrow> mesh \<Rightarrow> mesh" where
  "ms_container_register k tvlv_value tvlv_value_len ms =
     ms\<lparr>ms_priv := (ms_priv ms)\<lparr>bp_tvlv_container_list :=
          batadv_tvlv_container_register (kalloc_ok k Alloc_tvlv_container) BATADV_TVLV_TT 1
            (Some tvlv_value) tvlv_value_len (bp_tvlv_container_list (ms_priv ms))\<rparr>\<rparr>"

definition batadv_tt_tvlv_container_update :: "tt_kenv \<Rightarrow> mesh \<Rightarrow> mesh kresult" where
  "batadv_tt_tvlv_container_update k ms =
     (let drop_changes = batadv_tt_len (int (tt_local_changes ms)) > ms_mtu ms;
          tt_diff_entries_num = (if drop_changes then 0 else tt_local_changes ms);
          tt_diff_len = batadv_tt_len (int tt_diff_entries_num) in
      kbind (batadv_tt_prepare_tvlv_local_data k ms tt_diff_len) (\<lambda>(tvlv_len, tt_data, off, tt_diff_len).
      case tt_data of
        None \<Rightarrow> Kret ms
      | Some buf \<Rightarrow>
          if tvlv_len = 0 then Kret ms else
          kbind (mem_write buf 0 [BATADV_TT_OGM_DIFF]) (\<lambda>buf.
          if \<not> drop_changes \<and> tt_diff_len = 0 then Kret (ms_container_register k buf tvlv_len ms)
          else
            let sent = take tt_diff_entries_num (tt_changes_list ms);
                tt_extra_len = batadv_tt_len (int tt_diff_entries_num - int (length sent));
                tt_diff_len' = tt_diff_len - tt_extra_len;
                changeset = (if sent = [] \<or> \<not> tt_alloc_ok k Alloc_changeset then None
                             else Some (concat (map tt_change_bytes sent))) in
            kbind (tt_write_changes sent off buf) (\<lambda>buf.
              Kret (ms_container_register k buf (tvlv_len - of_int tt_extra_len)
                (ms\<lparr>tt_local_changes := 0, tt_changes_list := [],
                    tt_last_changeset := changeset,
                    tt_last_changeset_len := (if changeset = None then 0 else of_int tt_diff_len')\<rparr>))))))"

section \<open>Originators of a global client\<close>

definition batadv_tt_global_init :: "bool \<Rightarrow> bool \<Rightarrow> bool \<Rightarrow> mesh \<Rightarrow> int \<times> mesh" where
  "batadv_tt_global_init ok1 ok2 ok3 ms =
     (if tt_global_hash ms \<noteq> None then (0, ms)
      else (case batadv_hash_new ok1 ok2 ok3 1024 of
              None \<Rightarrow> (- ENOMEM, ms)
            | Some h \<Rightarrow> (0, ms\<lparr>tt_global_hash := Some h\<rparr>)))"

definition batadv_tt_changes_list_free :: "mesh \<Rightarrow> mesh" where
  "batadv_tt_changes_list_free ms = ms\<lparr>tt_changes_list := [], tt_local_changes := 0\<rparr>"

definition batadv_tt_global_orig_entry_find ::
    "batadv_tt_global_entry \<Rightarrow> mac \<Rightarrow> batadv_tt_orig_list_entry option" where
  "batadv_tt_global_orig_entry_find entry orig_node =
     find (\<lambda>tmp_orig_entry. oe_orig_node tmp_orig_entry = orig_node) (tg_orig_list entry)"

text \<open>\<open>None\<close> when the originator does not announce the client, else its flags.\<close>

definition batadv_tt_global_entry_has_orig :: "batadv_tt_global_entry \<Rightarrow> mac \<Rightarrow> u8 option" where
  "batadv_tt_global_entry_has_orig entry orig_node =
     map_option oe_flags (batadv_tt_global_orig_entry_find entry orig_node)"

definition batadv_tt_global_sync_flags :: "batadv_tt_global_entry \<Rightarrow> batadv_tt_global_entry" where
  "batadv_tt_global_sync_flags tt_global =
     (let flags = foldl (\<lambda>flags oe. flags OR ucast (oe_flags oe)) 0 (tg_orig_list tt_global) in
      tt_global\<lparr>tc_flags := flags OR (tc_flags tt_global AND NOT BATADV_TT_SYNC_MASK)\<rparr>)"

definition batadv_tt_global_orig_entry_add ::
    "tt_kenv \<Rightarrow> mac \<Rightarrow> u16 \<Rightarrow> mac \<Rightarrow> u8 \<Rightarrow> u8 \<Rightarrow> mesh \<Rightarrow> mesh" where
  "batadv_tt_global_orig_entry_add k addr vid orig_node ttvn flags ms =
     (case batadv_tt_global_hash_find k ms addr vid of
        None \<Rightarrow> ms
      | Some tt_global \<Rightarrow>
          (case batadv_tt_global_orig_entry_find tt_global orig_node of
             Some orig_entry \<Rightarrow>
               tt_global_upd k addr vid (\<lambda>g. batadv_tt_global_sync_flags
                 (g\<lparr>tg_orig_list := hlist_upd_first (\<lambda>oe. oe_orig_node oe = orig_node)
                      (\<lambda>oe. oe\<lparr>oe_ttvn := ttvn, oe_flags := flags\<rparr>) (tg_orig_list g)\<rparr>)) ms
           | None \<Rightarrow>
               if \<not> tt_alloc_ok k (Alloc_orig_entry addr vid) then ms
               else
                 let ms = ms\<lparr>ms_priv := batadv_tt_global_size_inc k orig_node vid (ms_priv ms)\<rparr> in
                 tt_global_upd k addr vid (\<lambda>g. batadv_tt_global_sync_flags
                   (g\<lparr>tg_orig_list := \<lparr>oe_orig_node = orig_node, oe_ttvn = ttvn, oe_flags = flags\<rparr>
                        # tg_orig_list g,
                      tg_orig_list_count := tg_orig_list_count g + 1\<rparr>)) ms))"

definition tt_del_orig_entries ::
    "'k kenv_scheme \<Rightarrow> (mac \<Rightarrow> bool) \<Rightarrow> batadv_tt_global_entry \<Rightarrow> batadv_priv
      \<Rightarrow> batadv_tt_global_entry \<times> batadv_priv" where
  "tt_del_orig_entries k P tt_global_entry bp =
     foldl (\<lambda>(g, bp) orig_entry.
       if P (oe_orig_node orig_entry)
       then (g\<lparr>tg_orig_list := hlist_del_first (\<lambda>oe. oe_orig_node oe = oe_orig_node orig_entry) (tg_orig_list g),
               tg_orig_list_count := tg_orig_list_count g - 1\<rparr>,
             batadv_tt_global_size_dec k (oe_orig_node orig_entry) (tc_vid g) bp)
       else (g, bp)) (tt_global_entry, bp) (tg_orig_list tt_global_entry)"

text \<open>The two walks that unlink entries from a client's list: all of them, those of an originator.\<close>

definition tt_global_del_entries :: "'k kenv_scheme \<Rightarrow> (mac \<Rightarrow> bool) \<Rightarrow> mac \<Rightarrow> u16 \<Rightarrow> mesh \<Rightarrow> mesh" where
  "tt_global_del_entries k P addr vid ms =
     (case batadv_tt_global_hash_find k ms addr vid of
        None \<Rightarrow> ms
      | Some tt_global \<Rightarrow>
          (case tt_del_orig_entries k P tt_global (ms_priv ms) of
             (g, bp) \<Rightarrow> tt_global_upd k addr vid (\<lambda>_. g) (ms\<lparr>ms_priv := bp\<rparr>)))"

definition batadv_tt_global_del_orig_list :: "'k kenv_scheme \<Rightarrow> mac \<Rightarrow> u16 \<Rightarrow> mesh \<Rightarrow> mesh" where
  "batadv_tt_global_del_orig_list k addr vid ms = tt_global_del_entries k (\<lambda>_. True) addr vid ms"

definition batadv_tt_global_del_orig_node :: "'k kenv_scheme \<Rightarrow> mac \<Rightarrow> u16 \<Rightarrow> mac \<Rightarrow> mesh \<Rightarrow> mesh" where
  "batadv_tt_global_del_orig_node k addr vid orig_node ms =
     tt_global_del_entries k (\<lambda>a. a = orig_node) addr vid ms"

section \<open>Adding global clients\<close>

definition tt_set_flags :: "tt_kenv \<Rightarrow> mac \<Rightarrow> u16 \<Rightarrow> (u16 \<Rightarrow> u16) \<Rightarrow> mesh \<Rightarrow> mesh" where
  "tt_set_flags k addr vid f ms = tt_global_upd k addr vid (\<lambda>g. g\<lparr>tc_flags := f (tc_flags g)\<rparr>) ms"

text \<open>An entry for a client that is not in the table yet; whether it was added.\<close>

definition tt_global_new :: "tt_kenv \<Rightarrow> mac \<Rightarrow> u16 \<Rightarrow> u16 \<Rightarrow> mesh \<Rightarrow> bool \<times> mesh" where
  "tt_global_new k tt_addr vid flags ms =
     (let g = \<lparr>tc_addr = tt_addr, tc_vid = vid,
               tc_flags = (if is_multicast_ether_addr tt_addr then 0 else flags AND NOT BATADV_TT_SYNC_MASK),
               tc_added_at = jiffies k, tg_orig_list = [], tg_orig_list_count = 0,
               tg_roam_at = (if has_flag flags BATADV_TT_CLIENT_ROAM then jiffies k else 0)\<rparr> in
      case batadv_hash_add (tt_global_hash ms) batadv_compare_tt (batadv_choose_tt (jhash k))
             (tt_addr, vid) g of
        (hash_added, hash) \<Rightarrow>
          if hash_added \<noteq> 0 then (False, ms) else (True, ms\<lparr>tt_global_hash := hash\<rparr>))"

text \<open>A permanent announcement of a client that is in the table already.\<close>

definition tt_global_renew :: "tt_kenv \<Rightarrow> batadv_tt_global_entry \<Rightarrow> u16 \<Rightarrow> mesh \<Rightarrow> mesh" where
  "tt_global_renew k common flags ms =
     (let addr = tc_addr common; vid = tc_vid common;
          ms = (if has_flag (tc_flags common) BATADV_TT_CLIENT_TEMP
                then tt_set_flags k addr vid (\<lambda>f. f AND NOT BATADV_TT_CLIENT_TEMP)
                       (batadv_tt_global_del_orig_list k addr vid ms)
                else ms);
          ms = (if is_multicast_ether_addr addr then ms
                else tt_set_flags k addr vid (\<lambda>f. f OR (flags AND NOT BATADV_TT_SYNC_MASK)) ms) in
      case batadv_tt_global_hash_find k ms addr vid of
        None \<Rightarrow> ms
      | Some g \<Rightarrow>
          if has_flag (tc_flags g) BATADV_TT_CLIENT_ROAM
          then tt_global_upd k addr vid
                 (\<lambda>g. g\<lparr>tc_flags := tc_flags g AND NOT BATADV_TT_CLIENT_ROAM, tg_roam_at := 0\<rparr>)
                 (batadv_tt_global_del_orig_list k addr vid ms)
          else ms)"

text \<open>The client is not local any more (\<^verbatim>\<open>out_remove\<close>).\<close>

definition tt_global_out_remove :: "tt_kenv \<Rightarrow> mac \<Rightarrow> u16 \<Rightarrow> u16 \<Rightarrow> mesh \<Rightarrow> mesh" where
  "tt_global_out_remove k tt_addr vid flags ms =
     (if is_multicast_ether_addr tt_addr then ms
      else
        (case batadv_tt_local_remove k tt_addr vid (has_flag flags BATADV_TT_CLIENT_ROAM) ms of
           (local_flags, ms) \<Rightarrow>
             let ms = tt_set_flags k tt_addr vid (\<lambda>f. f OR (local_flags AND BATADV_TT_CLIENT_WIFI)) ms in
             if \<not> has_flag flags BATADV_TT_CLIENT_ROAM
             then tt_set_flags k tt_addr vid (\<lambda>f. f AND NOT BATADV_TT_CLIENT_ROAM) ms
             else ms))"

definition batadv_tt_global_add ::
    "tt_kenv \<Rightarrow> mac \<Rightarrow> mac \<Rightarrow> u16 \<Rightarrow> u16 \<Rightarrow> u8 \<Rightarrow> mesh \<Rightarrow> bool \<times> mesh" where
  "batadv_tt_global_add k orig_node tt_addr vid flags ttvn ms =
     (if is_backbone_gw_orig k orig_node vid then (True, ms)
      else
        let add_orig = (\<lambda>ms. (True, tt_global_out_remove k tt_addr vid flags
              (batadv_tt_global_orig_entry_add k tt_addr vid orig_node ttvn
                 (ucast (flags AND BATADV_TT_SYNC_MASK)) ms))) in
        if has_flag flags BATADV_TT_CLIENT_TEMP \<and>
           (case batadv_tt_local_hash_find k ms tt_addr vid of
              None \<Rightarrow> False
            | Some tt_local_entry \<Rightarrow> \<not> has_flag (tc_flags tt_local_entry) BATADV_TT_CLIENT_NEW)
        then (False, ms)
        else
          (case batadv_tt_global_hash_find k ms tt_addr vid of
             None \<Rightarrow>
               if \<not> tt_alloc_ok k (Alloc_global tt_addr vid) then (False, ms)
               else (case tt_global_new k tt_addr vid flags ms of
                       (False, ms) \<Rightarrow> (False, tt_global_out_remove k tt_addr vid flags ms)
                     | (True, ms) \<Rightarrow> add_orig ms)
           | Some common \<Rightarrow>
               if has_flag flags BATADV_TT_CLIENT_TEMP then
                 if \<not> has_flag (tc_flags common) BATADV_TT_CLIENT_TEMP then (False, ms)
                 else if batadv_tt_global_entry_has_orig common orig_node \<noteq> None
                 then (False, tt_global_out_remove k tt_addr vid flags ms)
                 else add_orig (batadv_tt_global_del_orig_list k tt_addr vid ms)
               else add_orig (tt_global_renew k common flags ms)))"

section \<open>The originator of a client\<close>

text \<open>\<open>cmp\<close> compares two routers for the default interface (\<^verbatim>\<open>bao->neigh.cmp\<close>).\<close>

definition tt_router :: "'k kenv_scheme \<Rightarrow> batadv_priv \<Rightarrow> mac \<Rightarrow> batadv_neigh_node option" where
  "tt_router k bp orig =
     (case batadv_orig_hash_find k bp orig of
        None \<Rightarrow> None
      | Some orig_node \<Rightarrow>
          (case batadv_orig_router_get orig_node BATADV_IF_DEFAULT of
             None \<Rightarrow> None
           | Some p \<Rightarrow> neigh_deref orig_node p))"

fun best_orig_loop ::
    "(batadv_neigh_node \<Rightarrow> batadv_neigh_node \<Rightarrow> int) \<Rightarrow> (mac \<Rightarrow> batadv_neigh_node option)
      \<Rightarrow> (batadv_tt_orig_list_entry \<times> batadv_neigh_node) option \<Rightarrow> batadv_tt_orig_list_entry list
      \<Rightarrow> (batadv_tt_orig_list_entry \<times> batadv_neigh_node) option" where
  "best_orig_loop cmp router best [] = best"
| "best_orig_loop cmp router best (orig_entry # rest) =
     (case router (oe_orig_node orig_entry) of
        None \<Rightarrow> best_orig_loop cmp router best rest
      | Some r \<Rightarrow>
          (case best of
             Some (_, best_router) \<Rightarrow>
               if cmp r best_router \<le> 0 then best_orig_loop cmp router best rest
               else best_orig_loop cmp router (Some (orig_entry, r)) rest
           | None \<Rightarrow> best_orig_loop cmp router (Some (orig_entry, r)) rest))"

definition batadv_transtable_best_orig ::
    "'k kenv_scheme \<Rightarrow> (batadv_neigh_node \<Rightarrow> batadv_neigh_node \<Rightarrow> int) \<Rightarrow> mesh \<Rightarrow> batadv_tt_global_entry
      \<Rightarrow> batadv_tt_orig_list_entry option" where
  "batadv_transtable_best_orig k cmp ms tt_global_entry =
     map_option fst (best_orig_loop cmp (tt_router k (ms_priv ms)) None (tg_orig_list tt_global_entry))"

definition ap_isolated :: "batadv_tt_local_entry \<Rightarrow> batadv_tt_global_entry \<Rightarrow> bool" where
  "ap_isolated tt_local_entry tt_global_entry =
     (has_flag (tc_flags tt_local_entry) BATADV_TT_CLIENT_WIFI
        \<and> has_flag (tc_flags tt_global_entry) BATADV_TT_CLIENT_WIFI
      \<or> has_flag (tc_flags tt_local_entry) BATADV_TT_CLIENT_ISOLA
        \<and> has_flag (tc_flags tt_global_entry) BATADV_TT_CLIENT_ISOLA)"

definition batadv_transtable_search ::
    "'k kenv_scheme \<Rightarrow> (batadv_neigh_node \<Rightarrow> batadv_neigh_node \<Rightarrow> int) \<Rightarrow> mesh \<Rightarrow> mac option \<Rightarrow> mac \<Rightarrow> u16
      \<Rightarrow> mac option" where
  "batadv_transtable_search k cmp ms src addr vid =
     (let search = (\<lambda>isolated. case batadv_tt_global_hash_find k ms addr vid of
            None \<Rightarrow> None
          | Some tt_global_entry \<Rightarrow>
              if isolated tt_global_entry then None
              else map_option oe_orig_node (batadv_transtable_best_orig k cmp ms tt_global_entry)) in
      case src of
        Some s \<Rightarrow>
          if batadv_vlan_ap_isola_get ms vid then
            (case batadv_tt_local_hash_find k ms s vid of
               None \<Rightarrow> None
             | Some tt_local_entry \<Rightarrow>
                 if has_flag (tc_flags tt_local_entry) BATADV_TT_CLIENT_PENDING then None
                 else search (ap_isolated tt_local_entry))
          else search (\<lambda>_. False)
      | None \<Rightarrow> search (\<lambda>_. False))"

definition batadv_is_my_client :: "'k kenv_scheme \<Rightarrow> mesh \<Rightarrow> mac \<Rightarrow> u16 \<Rightarrow> bool" where
  "batadv_is_my_client k ms addr vid =
     (case batadv_tt_local_hash_find k ms addr vid of
        None \<Rightarrow> False
      | Some tt_local_entry \<Rightarrow>
          \<not> has_flag (tc_flags tt_local_entry) BATADV_TT_CLIENT_PENDING
          \<and> \<not> has_flag (tc_flags tt_local_entry) BATADV_TT_CLIENT_ROAM)"

definition batadv_is_ap_isolated :: "'k kenv_scheme \<Rightarrow> mesh \<Rightarrow> mac \<Rightarrow> mac \<Rightarrow> u16 \<Rightarrow> bool" where
  "batadv_is_ap_isolated k ms src dst vid =
     (case batadv_meshif_vlan_get ms vid of
        None \<Rightarrow> False
      | Some vlan \<Rightarrow>
          if \<not> mv_ap_isolation vlan then False
          else (case batadv_tt_local_hash_find k ms dst vid of
                  None \<Rightarrow> False
                | Some tt_local_entry \<Rightarrow>
                    (case batadv_tt_global_hash_find k ms src vid of
                       None \<Rightarrow> False
                     | Some tt_global_entry \<Rightarrow> ap_isolated tt_local_entry tt_global_entry)))"

definition batadv_tt_global_client_is_roaming :: "'k kenv_scheme \<Rightarrow> mesh \<Rightarrow> mac \<Rightarrow> u16 \<Rightarrow> bool" where
  "batadv_tt_global_client_is_roaming k ms addr vid =
     (case batadv_tt_global_hash_find k ms addr vid of
        None \<Rightarrow> False
      | Some g \<Rightarrow> has_flag (tc_flags g) BATADV_TT_CLIENT_ROAM)"

definition batadv_tt_local_client_is_roaming :: "'k kenv_scheme \<Rightarrow> mesh \<Rightarrow> mac \<Rightarrow> u16 \<Rightarrow> bool" where
  "batadv_tt_local_client_is_roaming k ms addr vid =
     (case batadv_tt_local_hash_find k ms addr vid of
        None \<Rightarrow> False
      | Some l \<Rightarrow> has_flag (tc_flags l) BATADV_TT_CLIENT_ROAM)"

definition batadv_tt_global_is_isolated :: "'k kenv_scheme \<Rightarrow> mesh \<Rightarrow> mac \<Rightarrow> u16 \<Rightarrow> bool" where
  "batadv_tt_global_is_isolated k ms addr vid =
     (case batadv_tt_global_hash_find k ms addr vid of
        None \<Rightarrow> False
      | Some tt \<Rightarrow> has_flag (tc_flags tt) BATADV_TT_CLIENT_ISOLA)"

section \<open>Removing global clients\<close>

definition batadv_tt_global_del_roaming :: "tt_kenv \<Rightarrow> mac \<Rightarrow> u16 \<Rightarrow> mac \<Rightarrow> mesh \<Rightarrow> mesh" where
  "batadv_tt_global_del_roaming k addr vid orig_node ms =
     (case batadv_tt_global_hash_find k ms addr vid of
        None \<Rightarrow> ms
      | Some tt_global_entry \<Rightarrow>
          let last_entry = (\<forall>oe \<in> set (tg_orig_list tt_global_entry). oe_orig_node oe = orig_node) in
          if last_entry
          then tt_global_upd k addr vid (\<lambda>g. g\<lparr>tc_flags := tc_flags g OR BATADV_TT_CLIENT_ROAM,
                                             tg_roam_at := jiffies k\<rparr>) ms
          else batadv_tt_global_del_orig_node k addr vid orig_node ms)"

definition batadv_tt_global_del :: "tt_kenv \<Rightarrow> mac \<Rightarrow> mac \<Rightarrow> u16 \<Rightarrow> bool \<Rightarrow> mesh \<Rightarrow> mesh" where
  "batadv_tt_global_del k orig_node addr vid roaming ms =
     (case batadv_tt_global_hash_find k ms addr vid of
        None \<Rightarrow> ms
      | Some _ \<Rightarrow>
          if \<not> roaming then
            let ms = batadv_tt_global_del_orig_node k addr vid orig_node ms in
            (case batadv_tt_global_hash_find k ms addr vid of
               Some g \<Rightarrow> if tg_orig_list g = [] then batadv_tt_global_free k addr vid ms else ms
             | None \<Rightarrow> ms)
          else
            (case batadv_tt_local_hash_find k ms addr vid of
               Some local_entry \<Rightarrow>
                 batadv_tt_global_free k addr vid (batadv_tt_global_del_orig_list k addr vid ms)
             | None \<Rightarrow> batadv_tt_global_del_roaming k addr vid orig_node ms))"

fun del_orig_bucket ::
    "'k kenv_scheme \<Rightarrow> mac \<Rightarrow> int \<Rightarrow> batadv_tt_global_entry list \<Rightarrow> batadv_priv
      \<Rightarrow> batadv_tt_global_entry list \<times> batadv_priv" where
  "del_orig_bucket k orig_node match_vid [] bp = ([], bp)"
| "del_orig_bucket k orig_node match_vid (tt_global # rest) bp =
     (if match_vid \<ge> 0 \<and> uint (tc_vid tt_global) \<noteq> match_vid
      then (case del_orig_bucket k orig_node match_vid rest bp of (head, bp) \<Rightarrow> (tt_global # head, bp))
      else
        (case tt_del_orig_entries k (\<lambda>a. a = orig_node) tt_global bp of
           (g, bp) \<Rightarrow>
             let bp = (if tg_orig_list g = [] then tt_global_release k g bp else bp) in
             (case del_orig_bucket k orig_node match_vid rest bp of
                (head, bp) \<Rightarrow> (if tg_orig_list g = [] then head else g # head, bp))))"

fun del_orig_table ::
    "'k kenv_scheme \<Rightarrow> mac \<Rightarrow> int \<Rightarrow> batadv_tt_global_entry list list \<Rightarrow> batadv_priv
      \<Rightarrow> batadv_tt_global_entry list list \<times> batadv_priv" where
  "del_orig_table k orig_node match_vid [] bp = ([], bp)"
| "del_orig_table k orig_node match_vid (head # rest) bp =
     (case del_orig_bucket k orig_node match_vid head bp of
        (head, bp) \<Rightarrow>
          (case del_orig_table k orig_node match_vid rest bp of (tab, bp) \<Rightarrow> (head # tab, bp)))"

definition batadv_tt_global_del_orig :: "'k kenv_scheme \<Rightarrow> mac \<Rightarrow> int \<Rightarrow> mesh \<Rightarrow> mesh" where
  "batadv_tt_global_del_orig k orig_node match_vid ms =
     (case tt_global_hash ms of
        None \<Rightarrow> ms
      | Some hash \<Rightarrow>
          (case del_orig_table k orig_node match_vid (table hash) (ms_priv ms) of
             (tab, bp) \<Rightarrow>
               ms\<lparr>tt_global_hash := Some (hash\<lparr>table := tab\<rparr>),
                  ms_priv := orig_upd k orig_node (\<lambda>on. on\<lparr>on_capa_initialized :=
                    unset_bit BATADV_ORIG_CAPA_HAS_TT (on_capa_initialized on)\<rparr>) bp\<rparr>))"

definition batadv_tt_global_to_purge :: "'k kclock_scheme \<Rightarrow> batadv_tt_global_entry \<Rightarrow> bool" where
  "batadv_tt_global_to_purge k tt_global =
     (has_flag (tc_flags tt_global) BATADV_TT_CLIENT_ROAM
        \<and> tt_timed_out k (tg_roam_at tt_global) BATADV_TT_CLIENT_ROAM_TIMEOUT
      \<or> has_flag (tc_flags tt_global) BATADV_TT_CLIENT_TEMP
        \<and> tt_timed_out k (tc_added_at tt_global) BATADV_TT_CLIENT_TEMP_TIMEOUT)"

text \<open>Entries are unlinked and released in the order of the table.\<close>

definition tt_global_unlink ::
    "'k kenv_scheme \<Rightarrow> (batadv_tt_global_entry \<Rightarrow> bool) \<Rightarrow> batadv_tt_global_entry batadv_hashtable \<Rightarrow> mesh \<Rightarrow> mesh" where
  "tt_global_unlink k P hash ms =
     ms\<lparr>tt_global_hash := Some (hash\<lparr>table := map (filter (\<lambda>g. \<not> P g)) (table hash)\<rparr>),
        ms_priv := foldl (\<lambda>bp g. tt_global_release k g bp) (ms_priv ms) (filter P (concat (table hash)))\<rparr>"

definition batadv_tt_global_purge :: "'k kenv_scheme \<Rightarrow> mesh \<Rightarrow> mesh" where
  "batadv_tt_global_purge k ms =
     (case tt_global_hash ms of
        None \<Rightarrow> ms
      | Some hash \<Rightarrow> tt_global_unlink k (batadv_tt_global_to_purge k) hash ms)"

definition batadv_tt_global_table_free :: "'k kenv_scheme \<Rightarrow> mesh \<Rightarrow> mesh" where
  "batadv_tt_global_table_free k ms =
     (case tt_global_hash ms of
        None \<Rightarrow> ms
      | Some hash \<Rightarrow> (tt_global_unlink k (\<lambda>_. True) hash ms)\<lparr>tt_global_hash := None\<rparr>)"

section \<open>Checksums\<close>

definition tt_entry_crc :: "tt_kenv \<Rightarrow> u16 \<Rightarrow> u8 \<Rightarrow> mac \<Rightarrow> u32" where
  "tt_entry_crc k vid flags addr =
     (let crc_tmp = crc32c k 0 (be16 vid);
          crc_tmp = crc32c k crc_tmp [flags] in
      crc32c k crc_tmp (mac_bytes addr))"

definition tt_global_crc_step :: "tt_kenv \<Rightarrow> mac \<Rightarrow> u16 \<Rightarrow> u32 \<Rightarrow> batadv_tt_global_entry \<Rightarrow> u32" where
  "tt_global_crc_step k orig_node vid crc tt =
     (if tc_vid tt \<noteq> vid then crc
      else if has_flag (tc_flags tt) BATADV_TT_CLIENT_ROAM then crc
      else if has_flag (tc_flags tt) BATADV_TT_CLIENT_TEMP then crc
      else (case batadv_tt_global_orig_entry_find tt orig_node of
              None \<Rightarrow> crc
            | Some tt_orig \<Rightarrow> crc XOR tt_entry_crc k (tc_vid tt) (oe_flags tt_orig) (tc_addr tt)))"

definition batadv_tt_global_crc :: "tt_kenv \<Rightarrow> mesh \<Rightarrow> mac \<Rightarrow> u16 \<Rightarrow> u32" where
  "batadv_tt_global_crc k ms orig_node vid =
     (case tt_global_hash ms of
        None \<Rightarrow> 0
      | Some hash \<Rightarrow> foldl (foldl (tt_global_crc_step k orig_node vid)) 0 (table hash))"

definition tt_local_crc_step :: "tt_kenv \<Rightarrow> u16 \<Rightarrow> u32 \<Rightarrow> batadv_tt_local_entry \<Rightarrow> u32" where
  "tt_local_crc_step k vid crc tt =
     (if tc_vid tt \<noteq> vid then crc
      else if has_flag (tc_flags tt) BATADV_TT_CLIENT_NEW then crc
      else crc XOR tt_entry_crc k (tc_vid tt) (ucast (tc_flags tt AND BATADV_TT_SYNC_MASK)) (tc_addr tt))"

definition batadv_tt_local_crc :: "tt_kenv \<Rightarrow> mesh \<Rightarrow> u16 \<Rightarrow> u32" where
  "batadv_tt_local_crc k ms vid =
     (case tt_local_hash ms of
        None \<Rightarrow> 0
      | Some hash \<Rightarrow> foldl (foldl (tt_local_crc_step k vid)) 0 (table hash))"

definition batadv_tt_local_update_crc :: "tt_kenv \<Rightarrow> mesh \<Rightarrow> mesh" where
  "batadv_tt_local_update_crc k ms =
     ms\<lparr>ms_vlan_list := map (\<lambda>vlan. vlan\<lparr>mv_crc := batadv_tt_local_crc k ms (mv_vid vlan)\<rparr>) (ms_vlan_list ms)\<rparr>"

definition batadv_tt_global_update_crc :: "tt_kenv \<Rightarrow> mac \<Rightarrow> mesh \<Rightarrow> mesh" where
  "batadv_tt_global_update_crc k orig ms =
     ms\<lparr>ms_priv := orig_upd k orig (\<lambda>on. on\<lparr>on_vlan_list :=
          map (\<lambda>vlan. if is_backbone_gw_orig k orig (ov_vid vlan) then vlan
                       else vlan\<lparr>ov_crc := batadv_tt_global_crc k ms orig (ov_vid vlan)\<rparr>)
            (on_vlan_list on)\<rparr>) (ms_priv ms)\<rparr>"

text \<open>
  The VLAN record \<open>i\<close> behind the header of a received value; a read outside the value is a bug.
\<close>

definition read_tt_vlan :: "bytes \<Rightarrow> nat \<Rightarrow> batadv_tvlv_tt_vlan_data kresult" where
  "read_tt_vlan tt_data i =
     (if 4 + 8 * (i + 1) \<le> length tt_data then Kret (get_tt_vlan_data (drop (4 + 8 * i) tt_data))
      else Kernel_bug)"

fun check_crc_loop :: "tt_kenv \<Rightarrow> batadv_orig_node \<Rightarrow> bytes \<Rightarrow> nat list \<Rightarrow> bool kresult" where
  "check_crc_loop k orig_node tt_data [] = Kret True"
| "check_crc_loop k orig_node tt_data (i # is) =
     kbind (read_tt_vlan tt_data i) (\<lambda>tt_vlan_tmp.
       if is_backbone_gw_orig k (on_orig orig_node) (vd_vid tt_vlan_tmp)
       then check_crc_loop k orig_node tt_data is
       else (case batadv_orig_node_vlan_get orig_node (vd_vid tt_vlan_tmp) of
               None \<Rightarrow> Kret False
             | Some vlan \<Rightarrow>
                 if ov_crc vlan \<noteq> vd_crc tt_vlan_tmp then Kret False
                 else check_crc_loop k orig_node tt_data is))"

definition batadv_tt_global_check_crc ::
    "tt_kenv \<Rightarrow> batadv_orig_node \<Rightarrow> bytes \<Rightarrow> u16 \<Rightarrow> bool kresult" where
  "batadv_tt_global_check_crc k orig_node tt_data num_vlan =
     kbind (check_crc_loop k orig_node tt_data [0..<unat num_vlan]) (\<lambda>ok.
       if \<not> ok then Kret False
       else Kret (\<not> length (on_vlan_list orig_node) > unat num_vlan))"

section \<open>Requests and responses\<close>

definition batadv_tt_req_list_free :: "mesh \<Rightarrow> mesh" where
  "batadv_tt_req_list_free ms = ms\<lparr>tt_req_list := []\<rparr>"

definition batadv_tt_save_orig_buffer :: "tt_kenv \<Rightarrow> mac \<Rightarrow> bytes \<Rightarrow> mesh \<Rightarrow> mesh" where
  "batadv_tt_save_orig_buffer k orig tt_buff ms =
     (if tt_buff = [] then ms
      else ms\<lparr>ms_priv := orig_upd k orig (\<lambda>on. on\<lparr>on_tt_buff :=
             (if tt_alloc_ok k (Alloc_orig_buff orig) then tt_buff else [])\<rparr>) (ms_priv ms)\<rparr>)"

definition batadv_tt_req_purge :: "'k kclock_scheme \<Rightarrow> mesh \<Rightarrow> mesh" where
  "batadv_tt_req_purge k ms =
     ms\<lparr>tt_req_list := filter (\<lambda>node. \<not> tt_timed_out k (rq_issued_at node) BATADV_TT_REQUEST_TIMEOUT)
                         (tt_req_list ms)\<rparr>"

definition batadv_tt_req_node_new :: "tt_kenv \<Rightarrow> mac \<Rightarrow> mesh \<Rightarrow> batadv_tt_req_node option \<times> mesh" where
  "batadv_tt_req_node_new k orig ms =
     (if \<exists>node \<in> set (tt_req_list ms). batadv_compare_eth (rq_addr node) orig
           \<and> \<not> tt_timed_out k (rq_issued_at node) BATADV_TT_REQUEST_TIMEOUT
      then (None, ms)
      else if \<not> tt_alloc_ok k (Alloc_req orig) then (None, ms)
      else let node = \<lparr>rq_addr = orig, rq_issued_at = jiffies k\<rparr> in
           (Some node, ms\<lparr>tt_req_list := node # tt_req_list ms\<rparr>))"

definition batadv_tt_local_valid :: "batadv_tt_local_entry \<Rightarrow> u8 option" where
  "batadv_tt_local_valid tt_common_entry =
     (if has_flag (tc_flags tt_common_entry) BATADV_TT_CLIENT_NEW then None
      else Some (ucast (tc_flags tt_common_entry)))"

definition batadv_tt_global_valid :: "mac \<Rightarrow> batadv_tt_global_entry \<Rightarrow> u8 option" where
  "batadv_tt_global_valid orig_node tt_common_entry =
     (if has_flag (tc_flags tt_common_entry) BATADV_TT_CLIENT_ROAM
         \<or> has_flag (tc_flags tt_common_entry) BATADV_TT_CLIENT_TEMP then None
      else batadv_tt_global_entry_has_orig tt_common_entry orig_node)"

text \<open>
  The loops of \<^verbatim>\<open>batadv_tt_tvlv_generate\<close>: entries are written until \<open>tt_tot\<close> are there.
\<close>

fun generate_bucket ::
    "('e batadv_tt_common_entry_scheme \<Rightarrow> u8 option) \<Rightarrow> nat \<Rightarrow> nat \<Rightarrow> 'e batadv_tt_common_entry_scheme list
      \<Rightarrow> nat \<Rightarrow> bytes \<Rightarrow> (nat \<times> bytes) kresult" where
  "generate_bucket valid_cb off tt_tot [] n buf = Kret (n, buf)"
| "generate_bucket valid_cb off tt_tot (tt # rest) n buf =
     (if tt_tot = n then Kret (n, buf)
      else (case valid_cb tt of
              None \<Rightarrow> generate_bucket valid_cb off tt_tot rest n buf
            | Some flags \<Rightarrow>
                kbind (mem_write buf (off + 12 * n)
                  (tt_change_bytes \<lparr>chg_flags = flags, chg_addr = tc_addr tt, chg_vid = tc_vid tt\<rparr>))
                  (generate_bucket valid_cb off tt_tot rest (n + 1))))"

fun generate_table ::
    "('e batadv_tt_common_entry_scheme \<Rightarrow> u8 option) \<Rightarrow> nat \<Rightarrow> nat \<Rightarrow> 'e batadv_tt_common_entry_scheme list list
      \<Rightarrow> nat \<Rightarrow> bytes \<Rightarrow> (nat \<times> bytes) kresult" where
  "generate_table valid_cb off tt_tot [] n buf = Kret (n, buf)"
| "generate_table valid_cb off tt_tot (head # rest) n buf =
     kbind (generate_bucket valid_cb off tt_tot head n buf)
       (\<lambda>(n, buf). generate_table valid_cb off tt_tot rest n buf)"

definition batadv_tt_tvlv_generate ::
    "'e batadv_tt_common_entry_scheme batadv_hashtable option \<Rightarrow> bytes \<Rightarrow> nat \<Rightarrow> u16
      \<Rightarrow> ('e batadv_tt_common_entry_scheme \<Rightarrow> u8 option) \<Rightarrow> (u16 \<times> bytes) kresult" where
  "batadv_tt_tvlv_generate hash buf off tt_len valid_cb =
     (case hash of
        None \<Rightarrow> Kernel_bug
      | Some h \<Rightarrow>
          let tt_tot = unat (batadv_tt_entries tt_len) in
          kbind (generate_table valid_cb off tt_tot (table h) 0 buf)
            (\<lambda>(n, buf). Kret (of_int (batadv_tt_len (int tt_tot - int n)), buf)))"

fun read_tt_vlans :: "bytes \<Rightarrow> nat list \<Rightarrow> batadv_tvlv_tt_vlan_data list kresult" where
  "read_tt_vlans tt_data [] = Kret []"
| "read_tt_vlans tt_data (i # is) =
     kbind (read_tt_vlan tt_data i) (\<lambda>v. kbind (read_tt_vlans tt_data is) (\<lambda>vs. Kret (v # vs)))"

text \<open>\<^verbatim>\<open>batadv_tvlv_unicast_send\<close> takes a 16 bit length.\<close>

definition ms_unicast_send :: "mac \<Rightarrow> mac \<Rightarrow> bytes \<Rightarrow> u16 \<Rightarrow> mesh \<Rightarrow> mesh" where
  "ms_unicast_send src dst tvlv_value tvlv_value_len ms =
     tt_call (Tt_unicast_send src dst BATADV_TVLV_TT (take (unat tvlv_value_len) tvlv_value)) ms"

definition batadv_send_tt_request ::
    "tt_kenv \<Rightarrow> mac \<Rightarrow> u8 \<Rightarrow> bytes \<Rightarrow> u16 \<Rightarrow> bool \<Rightarrow> mesh \<Rightarrow> (bool \<times> mesh) kresult" where
  "batadv_send_tt_request k dst_orig ttvn tt_data num_vlan full_table ms =
     (case batadv_primary_if_get_selected (ms_priv ms) of
        None \<Rightarrow> Kret (False, ms)
      | Some primary_if \<Rightarrow>
          (case batadv_tt_req_node_new k dst_orig ms of
             (None, ms) \<Rightarrow> Kret (False, ms)
           | (Some tt_req_node, ms) \<Rightarrow>
               let size = 4 + 8 * unat num_vlan in
               (case tt_kmalloc k size of
                  None \<Rightarrow> Kret (False, ms)
                | Some _ \<Rightarrow>
                    kbind (read_tt_vlans tt_data [0..<unat num_vlan]) (\<lambda>vlans.
                      let flags = (if full_table then BATADV_TT_REQUEST OR BATADV_TT_FULL_TABLE
                                   else BATADV_TT_REQUEST);
                          tvlv_tt_data = tt_data_bytes \<lparr>td_flags = flags, td_ttvn = ttvn,
                            td_num_vlan = num_vlan\<rparr> @ concat (map tt_vlan_data_bytes vlans);
                          ms = ms_unicast_send (hi_dev_addr primary_if) dst_orig tvlv_tt_data
                                 (of_nat size) (ms_inc_counter BATADV_CNT_TT_REQUEST_TX ms) in
                      Kret (True, ms\<lparr>tt_req_list :=
                        hlist_del_first (\<lambda>node. node = tt_req_node) (tt_req_list ms)\<rparr>)))))"

text \<open>
  \<^verbatim>\<open>memcpy\<close> of a stored change set whose length is the signed 16 bit field \<open>len\<close>; a negative
  length is a copy of almost the whole address space.
\<close>

definition copy_changeset :: "bytes \<Rightarrow> nat \<Rightarrow> bytes \<Rightarrow> int \<Rightarrow> bytes kresult" where
  "copy_changeset buf off changeset len =
     (if len < 0 \<or> int (length changeset) < len then Kernel_bug
      else mem_write buf off (take (nat len) changeset))"

definition batadv_send_other_tt_response ::
    "tt_kenv \<Rightarrow> bytes \<Rightarrow> mac \<Rightarrow> mac \<Rightarrow> mesh \<Rightarrow> (bool \<times> mesh) kresult" where
  "batadv_send_other_tt_response k tt_data req_src req_dst ms =
     (case batadv_orig_hash_find k (ms_priv ms) req_dst of
        None \<Rightarrow> Kret (False, ms)
      | Some req_dst_orig_node \<Rightarrow>
      case batadv_orig_hash_find k (ms_priv ms) req_src of
        None \<Rightarrow> Kret (False, ms)
      | Some res_dst_orig_node \<Rightarrow>
          let hdr = get_tt_data tt_data;
              orig_ttvn = (ucast (on_last_ttvn req_dst_orig_node) :: u8);
              req_ttvn = td_ttvn hdr in
          if orig_ttvn \<noteq> req_ttvn then Kret (False, ms)
          else
            kbind (batadv_tt_global_check_crc k req_dst_orig_node tt_data (td_num_vlan hdr)) (\<lambda>crc_ok.
            if \<not> crc_ok then Kret (False, ms)
            else
              let full_table = (td_flags hdr AND BATADV_TT_FULL_TABLE \<noteq> 0
                                \<or> on_tt_buff req_dst_orig_node = []);
                  buff = on_tt_buff req_dst_orig_node;
                  buff_len = sint (of_nat (length buff) :: u16) in
              kbind (batadv_tt_prepare_tvlv_global_data k req_dst_orig_node
                       (if full_table then - 1 else buff_len)) (\<lambda>(tvlv_len, tvlv_tt_data, off, tt_len).
              case tvlv_tt_data of
                None \<Rightarrow> Kret (False, ms)
              | Some buf \<Rightarrow>
                  if tt_len = 0 then Kret (False, ms)
                  else
                    kbind (if full_table
                           then kbind (batadv_tt_tvlv_generate (tt_global_hash ms) buf off (of_int tt_len)
                                         (batadv_tt_global_valid req_dst))
                                  (\<lambda>(unused, buf). Kret (tvlv_len - unused, buf))
                           else kbind (copy_changeset buf off buff buff_len) (\<lambda>buf. Kret (tvlv_len, buf)))
                      (\<lambda>(tvlv_len, buf).
                       if 20 + int (unat tvlv_len) > ms_packet_size_max ms then Kret (False, ms)
                       else
                         let flags = (if full_table then BATADV_TT_RESPONSE OR BATADV_TT_FULL_TABLE
                                      else BATADV_TT_RESPONSE) in
                         kbind (mem_write buf 0 [flags, req_ttvn]) (\<lambda>buf.
                           Kret (True, ms_unicast_send (on_orig req_dst_orig_node) req_src buf tvlv_len
                                   (ms_inc_counter BATADV_CNT_TT_RESPONSE_TX ms)))))))"

definition batadv_send_my_tt_response ::
    "tt_kenv \<Rightarrow> bytes \<Rightarrow> mac \<Rightarrow> mesh \<Rightarrow> (bool \<times> mesh) kresult" where
  "batadv_send_my_tt_response k tt_data req_src ms =
     (let hdr = get_tt_data tt_data;
          my_ttvn = (ucast (tt_vn ms) :: u8);
          req_ttvn = td_ttvn hdr in
      case batadv_orig_hash_find k (ms_priv ms) req_src of
        None \<Rightarrow> Kret (True, ms)
      | Some orig_node \<Rightarrow>
      case batadv_primary_if_get_selected (ms_priv ms) of
        None \<Rightarrow> Kret (True, ms)
      | Some primary_if \<Rightarrow>
          let full_table = (td_flags hdr AND BATADV_TT_FULL_TABLE \<noteq> 0 \<or> my_ttvn \<noteq> req_ttvn
                            \<or> tt_last_changeset ms = None);
              changeset = (case tt_last_changeset ms of None \<Rightarrow> [] | Some c \<Rightarrow> c);
              changeset_len = sint (tt_last_changeset_len ms);
              ttvn = (if full_table then my_ttvn else req_ttvn) in
          kbind (batadv_tt_prepare_tvlv_local_data k ms (if full_table then - 1 else changeset_len))
            (\<lambda>(tvlv_len, tvlv_tt_data, off, tt_len).
             case tvlv_tt_data of
               None \<Rightarrow> Kret (True, ms)
             | Some buf \<Rightarrow>
                 if tt_len = 0 \<or> tvlv_len = 0 then Kret (True, ms)
                 else
                   kbind (if full_table
                          then kbind (batadv_tt_tvlv_generate (tt_local_hash ms) buf off (of_int tt_len)
                                        batadv_tt_local_valid)
                                 (\<lambda>(unused, buf). Kret (tvlv_len - unused, buf))
                          else kbind (copy_changeset buf off changeset changeset_len)
                                 (\<lambda>buf. Kret (tvlv_len, buf)))
                     (\<lambda>(tvlv_len, buf).
                      let flags = (if full_table then BATADV_TT_RESPONSE OR BATADV_TT_FULL_TABLE
                                   else BATADV_TT_RESPONSE) in
                      kbind (mem_write buf 0 [flags, ttvn]) (\<lambda>buf.
                        Kret (True, ms_unicast_send (hi_dev_addr primary_if) req_src buf tvlv_len
                                (ms_inc_counter BATADV_CNT_TT_RESPONSE_TX ms))))))"

definition batadv_send_tt_response ::
    "tt_kenv \<Rightarrow> bytes \<Rightarrow> mac \<Rightarrow> mac \<Rightarrow> mesh \<Rightarrow> (bool \<times> mesh) kresult" where
  "batadv_send_tt_response k tt_data req_src req_dst ms =
     (if batadv_is_my_mac (ms_priv ms) req_dst then batadv_send_my_tt_response k tt_data req_src ms
      else batadv_send_other_tt_response k tt_data req_src req_dst ms)"

section \<open>Applying changes\<close>

definition read_tt_change :: "bytes \<Rightarrow> nat \<Rightarrow> nat \<Rightarrow> batadv_tvlv_tt_change kresult" where
  "read_tt_change tt_data off i =
     (if off + 12 * (i + 1) \<le> length tt_data then Kret (get_tt_change (drop (off + 12 * i) tt_data))
      else Kernel_bug)"

text \<open>Whether all changes were applied; the walk stops at the first client that cannot be added.\<close>

fun update_changes_loop ::
    "tt_kenv \<Rightarrow> mac \<Rightarrow> u8 \<Rightarrow> bytes \<Rightarrow> nat \<Rightarrow> nat list \<Rightarrow> mesh \<Rightarrow> (bool \<times> mesh) kresult" where
  "update_changes_loop k orig ttvn tt_data off [] ms = Kret (True, ms)"
| "update_changes_loop k orig ttvn tt_data off (i # is) ms =
     kbind (read_tt_change tt_data off i) (\<lambda>c.
       if has_flag (ucast (chg_flags c)) BATADV_TT_CLIENT_DEL
       then update_changes_loop k orig ttvn tt_data off is
              (batadv_tt_global_del k orig (chg_addr c) (chg_vid c)
                 (has_flag (ucast (chg_flags c)) BATADV_TT_CLIENT_ROAM) ms)
       else (case batadv_tt_global_add k orig (chg_addr c) (chg_vid c) (ucast (chg_flags c)) ttvn ms of
               (False, ms) \<Rightarrow> Kret (False, ms)
             | (True, ms) \<Rightarrow> update_changes_loop k orig ttvn tt_data off is ms))"

definition tt_apply_changes ::
    "tt_kenv \<Rightarrow> mac \<Rightarrow> bytes \<Rightarrow> nat \<Rightarrow> u16 \<Rightarrow> u8 \<Rightarrow> mesh \<Rightarrow> mesh kresult" where
  "tt_apply_changes k orig tt_data off tt_num_changes ttvn ms =
     kbind (update_changes_loop k orig ttvn tt_data off [0..<unat tt_num_changes] ms) (\<lambda>(ok, ms).
       if \<not> ok then Kret ms
       else Kret (ms\<lparr>ms_priv := orig_upd k orig (\<lambda>on. on\<lparr>on_capa_initialized :=
              set_bit BATADV_ORIG_CAPA_HAS_TT (on_capa_initialized on)\<rparr>) (ms_priv ms)\<rparr>))"

definition tt_set_ttvn :: "tt_kenv \<Rightarrow> mac \<Rightarrow> u8 \<Rightarrow> mesh \<Rightarrow> mesh" where
  "tt_set_ttvn k orig ttvn ms =
     ms\<lparr>ms_priv := orig_upd k orig (\<lambda>on. on\<lparr>on_last_ttvn := ucast ttvn\<rparr>) (ms_priv ms)\<rparr>"

definition batadv_tt_fill_gtable ::
    "tt_kenv \<Rightarrow> bytes \<Rightarrow> nat \<Rightarrow> u8 \<Rightarrow> mac \<Rightarrow> u16 \<Rightarrow> mesh \<Rightarrow> mesh kresult" where
  "batadv_tt_fill_gtable k tt_data off ttvn resp_src num_entries ms =
     (case batadv_orig_hash_find k (ms_priv ms) resp_src of
        None \<Rightarrow> Kret ms
      | Some orig_node \<Rightarrow>
          kbind (tt_apply_changes k resp_src tt_data off num_entries ttvn
                   (batadv_tt_global_del_orig k resp_src (- 1) ms)) (\<lambda>ms.
            Kret (tt_set_ttvn k resp_src ttvn
              (ms\<lparr>ms_priv := orig_upd k resp_src (\<lambda>on. on\<lparr>on_tt_buff := []\<rparr>) (ms_priv ms)\<rparr>))))"

definition batadv_tt_update_changes ::
    "tt_kenv \<Rightarrow> mac \<Rightarrow> u16 \<Rightarrow> u8 \<Rightarrow> bytes \<Rightarrow> nat \<Rightarrow> mesh \<Rightarrow> mesh kresult" where
  "batadv_tt_update_changes k orig tt_num_changes ttvn tt_data off ms =
     kbind (tt_apply_changes k orig tt_data off tt_num_changes ttvn ms) (\<lambda>ms.
       let tt_buff_len = (of_int (batadv_tt_len (int (unat tt_num_changes))) :: u16) in
       if tt_buff_len \<noteq> 0 \<and> length tt_data < off + unat tt_buff_len then Kernel_bug
       else Kret (tt_set_ttvn k orig ttvn
              (batadv_tt_save_orig_buffer k orig (take (unat tt_buff_len) (drop off tt_data)) ms)))"

definition batadv_handle_tt_response ::
    "tt_kenv \<Rightarrow> bytes \<Rightarrow> mac \<Rightarrow> u16 \<Rightarrow> mesh \<Rightarrow> mesh kresult" where
  "batadv_handle_tt_response k tt_data resp_src num_entries ms =
     (case batadv_orig_hash_find k (ms_priv ms) resp_src of
        None \<Rightarrow> Kret ms
      | Some orig_node \<Rightarrow>
          let hdr = get_tt_data tt_data;
              off = 4 + 8 * unat (td_num_vlan hdr) in
          kbind (if td_flags hdr AND BATADV_TT_FULL_TABLE \<noteq> 0
                 then batadv_tt_fill_gtable k tt_data off (td_ttvn hdr) resp_src num_entries ms
                 else batadv_tt_update_changes k resp_src num_entries (td_ttvn hdr) tt_data off ms) (\<lambda>ms.
            let ms = batadv_tt_global_update_crc k resp_src ms in
            Kret (ms\<lparr>tt_req_list :=
              filter (\<lambda>node. \<not> batadv_compare_eth (rq_addr node) resp_src) (tt_req_list ms)\<rparr>)))"

definition batadv_tt_update_orig ::
    "tt_kenv \<Rightarrow> mac \<Rightarrow> bytes \<Rightarrow> u16 \<Rightarrow> nat \<Rightarrow> u16 \<Rightarrow> u8 \<Rightarrow> mesh \<Rightarrow> mesh kresult" where
  "batadv_tt_update_orig k orig tt_data tt_num_vlan off tt_num_changes ttvn ms =
     (case batadv_orig_hash_find k (ms_priv ms) orig of
        None \<Rightarrow> Kret ms
      | Some orig_node \<Rightarrow>
          let orig_ttvn = (ucast (on_last_ttvn orig_node) :: u8);
              has_tt_init = bit (on_capa_initialized orig_node) BATADV_ORIG_CAPA_HAS_TT;
              request = (\<lambda>full_table ms. kbind
                (batadv_send_tt_request k orig ttvn tt_data tt_num_vlan full_table ms) (\<lambda>(_, ms). Kret ms));
              check = (\<lambda>ms. case batadv_orig_hash_find k (ms_priv ms) orig of
                  None \<Rightarrow> Kret ms
                | Some orig_node \<Rightarrow>
                    kbind (batadv_tt_global_check_crc k orig_node tt_data tt_num_vlan)
                      (\<lambda>ok. if ok then Kret ms else request True ms)) in
          if (\<not> has_tt_init \<and> ttvn = 1) \<or> uint ttvn - uint orig_ttvn = 1 then
            if tt_num_changes = 0 then request False ms
            else kbind (batadv_tt_update_changes k orig tt_num_changes ttvn tt_data off ms)
                   (\<lambda>ms. check (batadv_tt_global_update_crc k orig ms))
          else if \<not> has_tt_init \<or> ttvn \<noteq> orig_ttvn then request True ms
          else check ms)"

section \<open>Committing local changes\<close>

definition tt_flags_change :: "u16 \<Rightarrow> bool \<Rightarrow> u16 \<Rightarrow> u16 option" where
  "tt_flags_change fl enable flags =
     (if enable then (if flags AND fl = fl then None else Some (flags OR fl))
      else (if \<not> has_flag flags fl then None else Some (flags AND NOT fl)))"

definition batadv_tt_local_set_flags :: "u16 \<Rightarrow> bool \<Rightarrow> bool \<Rightarrow> mesh \<Rightarrow> mesh" where
  "batadv_tt_local_set_flags fl enable cnt ms =
     (case tt_local_hash ms of
        None \<Rightarrow> ms
      | Some hash \<Rightarrow>
          let changed = filter (\<lambda>e. tt_flags_change fl enable (tc_flags e) \<noteq> None) (concat (table hash));
              ms = ms\<lparr>tt_local_hash := Some (hash\<lparr>table := map (map (\<lambda>e.
                     case tt_flags_change fl enable (tc_flags e) of
                       None \<Rightarrow> e | Some flags \<Rightarrow> e\<lparr>tc_flags := flags\<rparr>)) (table hash)\<rparr>)\<rparr> in
          if cnt then foldl (\<lambda>ms e. batadv_tt_local_size_inc (tc_vid e) ms) ms changed else ms)"

definition batadv_tt_local_purge_pending_clients :: "mesh \<Rightarrow> mesh" where
  "batadv_tt_local_purge_pending_clients ms =
     (case tt_local_hash ms of
        None \<Rightarrow> ms
      | Some hash \<Rightarrow>
          let pending = (\<lambda>e. has_flag (tc_flags e) BATADV_TT_CLIENT_PENDING) in
          foldl (\<lambda>ms e. batadv_tt_local_size_dec (tc_vid e) ms)
            (ms\<lparr>tt_local_hash := Some (hash\<lparr>table := map (filter (\<lambda>e. \<not> pending e)) (table hash)\<rparr>)\<rparr>)
            (filter pending (concat (table hash))))"

definition tt_local_commit_changes_nolock :: "tt_kenv \<Rightarrow> mesh \<Rightarrow> mesh kresult" where
  "tt_local_commit_changes_nolock k ms =
     (if tt_local_changes ms = 0 then
        if tt_ogm_append_cnt ms = 0 then batadv_tt_tvlv_container_update k ms
        else Kret (ms\<lparr>tt_ogm_append_cnt := tt_ogm_append_cnt ms - 1\<rparr>)
      else
        let ms = batadv_tt_local_set_flags BATADV_TT_CLIENT_NEW False True ms;
            ms = batadv_tt_local_purge_pending_clients ms;
            ms = batadv_tt_local_update_crc k ms in
        batadv_tt_tvlv_container_update k
          (ms\<lparr>tt_vn := tt_vn ms + 1, tt_ogm_append_cnt := BATADV_TT_OGM_APPEND_MAX\<rparr>))"

definition batadv_tt_local_commit_changes :: "tt_kenv \<Rightarrow> mesh \<Rightarrow> mesh kresult" where
  "batadv_tt_local_commit_changes k ms = tt_local_commit_changes_nolock k ms"

text \<open>The loop halves its timeout until the table fits or the timeout is zero.\<close>

function resize_loop :: "tt_kenv \<Rightarrow> nat \<Rightarrow> bool \<Rightarrow> mesh \<Rightarrow> bool \<times> mesh" where
  "resize_loop k timeout reduced ms =
     (if timeout = 0 then (reduced, ms)
      else if ms_packet_size_max ms \<ge> batadv_tt_local_table_transmit_size ms then (reduced, ms)
      else resize_loop k (timeout div 2) True
             (batadv_tt_local_purge_pending_clients (batadv_tt_local_purge k timeout ms)))"
  by pat_completeness auto
termination by (relation "measure (\<lambda>(k, timeout, reduced, ms). timeout)") auto

declare resize_loop.simps [simp del]

definition batadv_tt_local_resize_to_mtu :: "tt_kenv \<Rightarrow> mesh \<Rightarrow> mesh kresult" where
  "batadv_tt_local_resize_to_mtu k ms =
     (case resize_loop k (BATADV_TT_LOCAL_TIMEOUT div 2) False ms of
        (reduced, ms) \<Rightarrow> if reduced then tt_local_commit_changes_nolock k ms else Kret ms)"

section \<open>Work item, VLANs, temporary clients\<close>

definition batadv_tt_roam_list_free :: "mesh \<Rightarrow> mesh" where
  "batadv_tt_roam_list_free ms = ms\<lparr>tt_roam_list := []\<rparr>"

definition batadv_tt_roam_purge :: "'k kclock_scheme \<Rightarrow> mesh \<Rightarrow> mesh" where
  "batadv_tt_roam_purge k ms =
     ms\<lparr>tt_roam_list := filter (\<lambda>node. \<not> tt_timed_out k (rn_first_time node) BATADV_ROAMING_MAX_TIME)
                          (tt_roam_list ms)\<rparr>"

definition batadv_tt_purge :: "tt_kenv \<Rightarrow> mesh \<Rightarrow> mesh" where
  "batadv_tt_purge k ms =
     (let ms = batadv_tt_local_purge k BATADV_TT_LOCAL_TIMEOUT ms;
          ms = batadv_tt_global_purge k ms;
          ms = batadv_tt_req_purge k ms;
          ms = batadv_tt_roam_purge k ms in
      tt_call (Tt_queue_work BATADV_TT_WORK_PERIOD) ms)"

text \<open>\<^verbatim>\<open>mesh-interface.c\<close>: a new VLAN announces the address of the mesh interface.\<close>

definition EEXIST :: int where "EEXIST = 17"

definition batadv_meshif_create_vlan :: "tt_kenv \<Rightarrow> bool \<Rightarrow> u16 \<Rightarrow> mesh \<Rightarrow> int \<times> mesh" where
  "batadv_meshif_create_vlan k kzalloc_ok vid ms =
     (case batadv_meshif_vlan_get ms vid of
        Some _ \<Rightarrow> (- EEXIST, ms)
      | None \<Rightarrow>
          if \<not> kzalloc_ok then (- ENOMEM, ms)
          else (0, snd (batadv_tt_local_add k (ms_dev_addr ms) vid None 0
                  (ms\<lparr>ms_vlan_list := \<lparr>mv_vid = vid, mv_ap_isolation = False, mv_crc = 0,
                        mv_num_entries = 0\<rparr> # ms_vlan_list ms\<rparr>))))"

definition batadv_bla_is_loopdetect_mac :: "mac \<Rightarrow> bool" where
  "batadv_bla_is_loopdetect_mac m = (mac_bytes m ! 0 = 0xba \<and> mac_bytes m ! 1 = 0xbe)"

definition batadv_tt_add_temporary_global_entry ::
    "tt_kenv \<Rightarrow> batadv_orig_node \<Rightarrow> mac \<Rightarrow> u16 \<Rightarrow> mesh \<Rightarrow> bool \<times> mesh" where
  "batadv_tt_add_temporary_global_entry k orig_node addr vid ms =
     (if batadv_bla_is_loopdetect_mac addr then (False, ms)
      else batadv_tt_global_add k (on_orig orig_node) addr vid BATADV_TT_CLIENT_TEMP
             (ucast (on_last_ttvn orig_node)) ms)"

section \<open>Receiving\<close>

definition batadv_tt_tvlv_ogm_handler_v1 :: "tt_kenv \<Rightarrow> mac \<Rightarrow> bytes \<Rightarrow> mesh \<Rightarrow> mesh kresult" where
  "batadv_tt_tvlv_ogm_handler_v1 k orig tvlv_value ms =
     (let tvlv_value_len = (of_nat (length tvlv_value) :: u16) in
      if unat tvlv_value_len < 4 then Kret ms
      else
        let tt_data = get_tt_data tvlv_value;
            num_vlan = td_num_vlan tt_data;
            tt_data_sz = 4 + 8 * unat num_vlan in
        if unat tvlv_value_len < tt_data_sz then Kret ms
        else
          let tvlv_value_len = tvlv_value_len - of_nat tt_data_sz;
              num_entries = batadv_tt_entries tvlv_value_len in
          batadv_tt_update_orig k orig tvlv_value num_vlan tt_data_sz num_entries (td_ttvn tt_data) ms)"

text \<open>The space of the VLAN records is kept in a 16 bit variable here.\<close>

definition batadv_tt_tvlv_unicast_handler_v1 ::
    "tt_kenv \<Rightarrow> mac \<Rightarrow> mac \<Rightarrow> bytes \<Rightarrow> mesh \<Rightarrow> (int \<times> mesh) kresult" where
  "batadv_tt_tvlv_unicast_handler_v1 k src dst tvlv_value ms =
     (let tvlv_value_len = (of_nat (length tvlv_value) :: u16) in
      if unat tvlv_value_len < 4 then Kret (NET_RX_SUCCESS, ms)
      else
        let tt_data = get_tt_data tvlv_value;
            tvlv_value_len = tvlv_value_len - 4;
            tt_vlan_len = (of_nat (8 * unat (td_num_vlan tt_data)) :: u16) in
        if tvlv_value_len < tt_vlan_len then Kret (NET_RX_SUCCESS, ms)
        else
          let tvlv_value_len = tvlv_value_len - tt_vlan_len;
              tt_num_entries = batadv_tt_entries tvlv_value_len;
              subtype = td_flags tt_data AND BATADV_TT_DATA_TYPE_MASK in
          if subtype = BATADV_TT_REQUEST then
            kbind (batadv_send_tt_response k tvlv_value src dst
                     (ms_inc_counter BATADV_CNT_TT_REQUEST_RX ms))
              (\<lambda>(ret, ms). Kret (if ret then NET_RX_SUCCESS else NET_RX_DROP, ms))
          else if subtype = BATADV_TT_RESPONSE then
            let ms = ms_inc_counter BATADV_CNT_TT_RESPONSE_RX ms in
            if batadv_is_my_mac (ms_priv ms) dst
            then kbind (batadv_handle_tt_response k tvlv_value src tt_num_entries ms)
                   (\<lambda>ms. Kret (NET_RX_SUCCESS, ms))
            else Kret (NET_RX_DROP, ms)
          else Kret (NET_RX_SUCCESS, ms))"

definition batadv_roam_tvlv_unicast_handler_v1 ::
    "tt_kenv \<Rightarrow> mac \<Rightarrow> mac \<Rightarrow> bytes \<Rightarrow> mesh \<Rightarrow> int \<times> mesh" where
  "batadv_roam_tvlv_unicast_handler_v1 k src dst tvlv_value ms =
     (if \<not> batadv_is_my_mac (ms_priv ms) dst then (NET_RX_DROP, ms)
      else if unat (of_nat (length tvlv_value) :: u16) < 8 then (NET_RX_SUCCESS, ms)
      else (case batadv_orig_hash_find k (ms_priv ms) src of
              None \<Rightarrow> (NET_RX_SUCCESS, ms)
            | Some orig_node \<Rightarrow>
                let ms = ms_inc_counter BATADV_CNT_TT_ROAM_ADV_RX ms;
                    roaming_adv = get_roam_adv tvlv_value in
                (NET_RX_SUCCESS,
                 snd (batadv_tt_global_add k src (ra_client roaming_adv) (ra_vid roaming_adv)
                        BATADV_TT_CLIENT_ROAM (ucast (on_last_ttvn orig_node + 1)) ms))))"

section \<open>Setup and teardown\<close>

text \<open>The handlers as they are registered: a crashed kernel stays crashed.\<close>

definition tt_handlers ::
    "tt_kenv \<Rightarrow> (mac, mesh kresult) batadv_tvlv_handler list \<Rightarrow> (mac, mesh kresult) batadv_tvlv_handler list" where
  "tt_handlers k hs =
     batadv_tvlv_handler_register True None
       (Some (\<lambda>src dst v s. case s of
          Kernel_bug \<Rightarrow> (NET_RX_SUCCESS, Kernel_bug)
        | Kret ms \<Rightarrow> (case batadv_roam_tvlv_unicast_handler_v1 k src dst v ms of (r, ms) \<Rightarrow> (r, Kret ms))))
       None BATADV_TVLV_ROAM 1 BATADV_NO_FLAGS
     (batadv_tvlv_handler_register True
       (Some (\<lambda>orig fl v s. case orig of
          None \<Rightarrow> s | Some orig \<Rightarrow> kbind s (batadv_tt_tvlv_ogm_handler_v1 k orig v)))
       (Some (\<lambda>src dst v s. case kbind s (batadv_tt_tvlv_unicast_handler_v1 k src dst v) of
          Kernel_bug \<Rightarrow> (NET_RX_SUCCESS, Kernel_bug)
        | Kret (r, ms) \<Rightarrow> (r, Kret ms)))
       None BATADV_TVLV_TT 1 BATADV_NO_FLAGS hs)"

definition batadv_tt_init ::
    "tt_kenv \<Rightarrow> bool \<times> bool \<times> bool \<Rightarrow> bool \<times> bool \<times> bool
      \<Rightarrow> (mac, mesh kresult) batadv_tvlv_handler list \<Rightarrow> mesh
      \<Rightarrow> int \<times> (mac, mesh kresult) batadv_tvlv_handler list \<times> mesh" where
  "batadv_tt_init k lok gok hs ms =
     (case lok of (l1, l2, l3) \<Rightarrow> case gok of (g1, g2, g3) \<Rightarrow>
      case batadv_tt_local_init l1 l2 l3 ms of (ret, ms) \<Rightarrow>
      if ret < 0 then (ret, hs, ms)
      else (case batadv_tt_global_init g1 g2 g3 ms of (ret, ms) \<Rightarrow>
        if ret < 0 then (ret, hs, batadv_tt_local_table_free ms)
        else (1, tt_handlers k hs, tt_call (Tt_queue_work BATADV_TT_WORK_PERIOD) ms)))"

definition batadv_tt_free ::
    "tt_kenv \<Rightarrow> (mac, mesh kresult) batadv_tvlv_handler list \<Rightarrow> mesh
      \<Rightarrow> (mac, mesh kresult) batadv_tvlv_handler list \<times> mesh" where
  "batadv_tt_free k hs ms =
     (let hs = batadv_tvlv_handler_unregister BATADV_TVLV_ROAM 1 hs;
          ms = ms\<lparr>ms_priv := (ms_priv ms)\<lparr>bp_tvlv_container_list :=
                 batadv_tvlv_container_unregister BATADV_TVLV_TT 1
                   (bp_tvlv_container_list (ms_priv ms))\<rparr>\<rparr>;
          hs = batadv_tvlv_handler_unregister BATADV_TVLV_TT 1 hs;
          ms = batadv_tt_local_table_free ms;
          ms = batadv_tt_global_table_free k ms;
          ms = batadv_tt_req_list_free ms;
          ms = batadv_tt_changes_list_free ms;
          ms = batadv_tt_roam_list_free ms in
      (hs, ms\<lparr>tt_last_changeset := None\<rparr>))"

end
