(* ===== verification/Tt_Properties.thy ===== *)
theory Tt_Properties
  imports Translation_Table
begin

text \<open>
  Properties of the translation table's handlers: received values are read within their
  bounds except for one overflow, requests, pending changes, and the limit on roaming
  advertisements.
\<close>

section \<open>Reading received values\<close>

text \<open>The code returns; the locale-free form of safety.\<close>

definition returns :: "'a kresult \<Rightarrow> bool" where
  "returns r \<longleftrightarrow> r \<noteq> Kernel_bug"

lemma returns_simps [simp]: "returns (Kret x)" "\<not> returns Kernel_bug"
  by (simp_all add: returns_def)

lemma returns_kbind: "returns r \<Longrightarrow> (\<And>x. r = Kret x \<Longrightarrow> returns (f x)) \<Longrightarrow> returns (kbind r f)"
  by (cases r) auto

lemma read_vlan_returns: "4 + 8 * n \<le> length d \<Longrightarrow> i < n \<Longrightarrow> returns (read_tt_vlan d i)"
  by (simp add: read_tt_vlan_def)

lemma read_vlans_returns:
  "4 + 8 * n \<le> length d \<Longrightarrow> set is \<subseteq> {0..<n} \<Longrightarrow> returns (read_tt_vlans d is)"
  by (induction "is") (auto intro!: returns_kbind read_vlan_returns)

lemma check_crc_loop_returns:
  "4 + 8 * n \<le> length d \<Longrightarrow> set is \<subseteq> {0..<n} \<Longrightarrow> returns (check_crc_loop k on d is)"
  by (induction "is") (auto intro!: returns_kbind read_vlan_returns split: option.splits)

lemma check_crc_returns:
  "4 + 8 * unat n \<le> length d \<Longrightarrow> returns (batadv_tt_global_check_crc k on d n)"
  unfolding batadv_tt_global_check_crc_def
  by (intro returns_kbind check_crc_loop_returns [of "unat n"]) auto

lemma send_request_returns:
  "4 + 8 * unat n \<le> length d \<Longrightarrow> returns (batadv_send_tt_request k o1 ttvn d n full ms)"
  unfolding batadv_send_tt_request_def Let_def
  by (auto intro!: returns_kbind read_vlans_returns [of "unat n"] split: option.splits prod.splits)

lemma update_loop_returns:
  "off + 12 * n \<le> length d \<Longrightarrow> set is \<subseteq> {0..<n} \<Longrightarrow> returns (update_changes_loop k o1 ttvn d off is ms)"
proof (induction "is" arbitrary: ms)
  case (Cons i "is")
  then have "returns (read_tt_change d off i)" by (simp add: read_tt_change_def)
  then show ?case using Cons by (auto intro!: returns_kbind split: prod.splits bool.splits)
qed simp

lemma apply_changes_returns:
  "off + 12 * unat n \<le> length d \<Longrightarrow> returns (tt_apply_changes k o1 d off n ttvn ms)"
  unfolding tt_apply_changes_def
  by (auto intro!: returns_kbind update_loop_returns [of off "unat n"])

lemma unat_tt_len:
  "12 * unat (n :: u16) < 65536 \<Longrightarrow> unat (of_int (batadv_tt_len (int (unat n))) :: u16) = 12 * unat n"
proof -
  assume *: "12 * unat n < 65536"
  have "(of_int (batadv_tt_len (int (unat n))) :: u16) = of_nat (12 * unat n)"
    by (simp add: batadv_tt_len_def)
  also have "unat \<dots> = 12 * unat n" using * by (subst unat_of_nat_u16) simp_all
  finally show ?thesis .
qed

lemma update_changes_returns:
  assumes "off + 12 * unat n \<le> length d" and "12 * unat n < 65536"
  shows "returns (batadv_tt_update_changes k o1 n ttvn d off ms)"
  unfolding batadv_tt_update_changes_def
  using assms unat_tt_len [OF assms(2)]
  by (auto intro!: returns_kbind apply_changes_returns simp: Let_def)

lemma tt_entries_le: "12 * unat (batadv_tt_entries l) \<le> unat l"
  by (simp add: batadv_tt_entries_def unat_div)

lemma update_orig_returns:
  assumes "4 + 8 * unat nv \<le> length d" and "off + 12 * unat n \<le> length d" and "12 * unat n < 65536"
  shows "returns (batadv_tt_update_orig k o1 d nv off n ttvn ms)"
  unfolding batadv_tt_update_orig_def Let_def
  using assms
  by (auto intro!: returns_kbind send_request_returns check_crc_returns update_changes_returns
      split: option.splits)

lemma unat_sub_u16: "unat b \<le> unat (a :: u16) \<Longrightarrow> unat (a - b) = unat a - unat b"
  by (simp add: unat_sub word_le_nat_alt)

lemma tt_ogm_handler_safe:
  assumes "length tvlv_value < 65536"
  shows "batadv_tt_tvlv_ogm_handler_v1 k o1 tvlv_value ms \<noteq> Kernel_bug"
proof -
  let ?nv = "td_num_vlan (get_tt_data tvlv_value)"
  let ?l = "of_nat (length tvlv_value) :: u16" and ?s = "of_nat (4 + 8 * unat ?nv) :: u16"
  have l: "unat ?l = length tvlv_value" using assms by (simp add: unat_of_nat_u16)
  show ?thesis
  proof (cases "4 + 8 * unat ?nv \<le> length tvlv_value")
    case True
    then have s: "unat ?s = 4 + 8 * unat ?nv" using assms by (intro unat_of_nat_u16) simp
    have "unat (?l - ?s) = length tvlv_value - (4 + 8 * unat ?nv)"
      using unat_sub_u16 [of ?s ?l] s l True by simp
    then have n: "12 * unat (batadv_tt_entries (?l - ?s)) \<le> length tvlv_value - (4 + 8 * unat ?nv)"
      using tt_entries_le [of "?l - ?s"] by simp
    then have "4 + 8 * unat ?nv + 12 * unat (batadv_tt_entries (?l - ?s)) \<le> length tvlv_value"
      "12 * unat (batadv_tt_entries (?l - ?s)) < 65536"
      using True assms by linarith+
    then show ?thesis
      using update_orig_returns [OF True, where k = k and ?o1.0 = o1] l True
      by (simp add: batadv_tt_tvlv_ogm_handler_v1_def Let_def returns_def)
  next
    case False
    then show ?thesis using l by (auto simp: batadv_tt_tvlv_ogm_handler_v1_def Let_def)
  qed
qed

lemma inc_counter_simps [simp]:
  "batadv_is_my_mac (ms_priv (ms_inc_counter i ms)) = batadv_is_my_mac (ms_priv ms)"
  "batadv_orig_hash_find k (ms_priv (ms_inc_counter i ms)) = batadv_orig_hash_find k (ms_priv ms)"
  by (simp_all add: fun_eq_iff ms_inc_counter_def batadv_is_my_mac_def batadv_orig_hash_find_def)

lemma fill_gtable_returns:
  "off + 12 * unat n \<le> length d \<Longrightarrow> returns (batadv_tt_fill_gtable k d off ttvn src n ms)"
  unfolding batadv_tt_fill_gtable_def
  by (auto intro!: returns_kbind apply_changes_returns split: option.splits)

lemma handle_response_returns:
  assumes "4 + 8 * unat (td_num_vlan (get_tt_data d)) + 12 * unat n \<le> length d" and "12 * unat n < 65536"
  shows "returns (batadv_handle_tt_response k d src n ms)"
  unfolding batadv_handle_tt_response_def Let_def
  using assms by (auto intro!: returns_kbind fill_gtable_returns update_changes_returns split: option.splits)

lemma apply_changes_bug:
  assumes "length d < off" and "n \<noteq> 0"
  shows "tt_apply_changes k o1 d off n ttvn ms = Kernel_bug"
proof -
  have "[0..<unat n] = 0 # [1..<unat n]" using assms(2) by (simp add: upt_conv_Cons unat_gt_0)
  then show ?thesis using assms(1) by (simp add: tt_apply_changes_def read_tt_change_def)
qed

lemma handle_response_bug:
  assumes "length d < 4 + 8 * unat (td_num_vlan (get_tt_data d))" and "batadv_orig_hash_find k (ms_priv ms) src \<noteq> None"
  shows "batadv_handle_tt_response k d src n ms = Kernel_bug \<longleftrightarrow> n \<noteq> 0"
proof (cases "n = 0")
  case True
  have "returns (batadv_handle_tt_response k d src 0 ms)"
    unfolding batadv_handle_tt_response_def Let_def batadv_tt_fill_gtable_def batadv_tt_update_changes_def
    by (auto intro!: returns_kbind simp: tt_apply_changes_def batadv_tt_len_def split: option.splits)
  then show ?thesis using True by (simp add: returns_def)
next
  case False
  then show ?thesis
    using assms apply_changes_bug [OF assms(1) False]
    by (auto simp: batadv_handle_tt_response_def batadv_tt_fill_gtable_def
        batadv_tt_update_changes_def Let_def)
qed

text \<open>
  C26: A translation table response for this node is processed within its bytes, except when
  it announces 8192 VLANs or more: the handler keeps the space of the VLAN records in 16 bits,
  so the check that they fit passes, and the first change is read 64 KiB behind the value.
\<close>

theorem tt_response_overread_iff:
  assumes "4 \<le> length tvlv_value" and "length tvlv_value < 65536"
    and "td_flags (get_tt_data tvlv_value) AND BATADV_TT_DATA_TYPE_MASK = BATADV_TT_RESPONSE"
    and "batadv_is_my_mac (ms_priv ms) dst" and "batadv_orig_hash_find k (ms_priv ms) src \<noteq> None"
  shows "batadv_tt_tvlv_unicast_handler_v1 k src dst tvlv_value ms = Kernel_bug \<longleftrightarrow>
     8192 \<le> unat (td_num_vlan (get_tt_data tvlv_value))
     \<and> 16 + 8 * unat (td_num_vlan (get_tt_data tvlv_value)) mod 65536 \<le> length tvlv_value"
proof -
  define nv where "nv = unat (td_num_vlan (get_tt_data tvlv_value))"
  define l where "l = (of_nat (length tvlv_value) :: u16)"
  define vl where "vl = (of_nat (8 * nv) :: u16)"
  have u: "unat l = length tvlv_value" using assms(2) by (simp add: l_def unat_of_nat_u16)
  have l4: "unat (l - 4) = length tvlv_value - 4" using unat_sub_u16 [of 4 l] u assms(1) by simp
  have vl: "unat vl = 8 * nv mod 65536" unfolding vl_def by (subst unat_of_nat) simp
  have run: "batadv_tt_tvlv_unicast_handler_v1 k src dst tvlv_value ms =
      (if l - 4 < vl then Kret (NET_RX_SUCCESS, ms)
       else kbind (batadv_handle_tt_response k tvlv_value src (batadv_tt_entries (l - 4 - vl))
              (ms_inc_counter BATADV_CNT_TT_RESPONSE_RX ms)) (\<lambda>ms. Kret (NET_RX_SUCCESS, ms)))"
    using assms u by (simp add: batadv_tt_tvlv_unicast_handler_v1_def Let_def l_def vl_def nv_def
        tt_data_flag_defs)
  show ?thesis
  proof (cases "l - 4 < vl")
    case True
    then have "length tvlv_value - 4 < 8 * nv mod 65536" using l4 vl by (simp add: word_less_nat_alt)
    then have "\<not> 16 + 8 * nv mod 65536 \<le> length tvlv_value" by linarith
    then show ?thesis using run True by (simp add: nv_def)
  next
    case fits: False
    then have le: "8 * nv mod 65536 \<le> length tvlv_value - 4" using l4 vl by (simp add: word_less_nat_alt)
    then have r: "unat (l - 4 - vl) = length tvlv_value - 4 - 8 * nv mod 65536"
      using unat_sub_u16 [of vl "l - 4"] l4 vl by simp
    have n: "batadv_tt_entries (l - 4 - vl) = 0 \<longleftrightarrow> length tvlv_value < 16 + 8 * nv mod 65536"
      using r le assms(1) by (auto simp: batadv_tt_entries_def word_unat_eq_iff unat_div)
    show ?thesis
    proof (cases "nv < 8192")
      case True
      then have m: "8 * nv mod 65536 = 8 * nv" by simp
      have "12 * unat (batadv_tt_entries (l - 4 - vl)) \<le> length tvlv_value - 4 - 8 * nv"
        using tt_entries_le [of "l - 4 - vl"] r m by simp
      then have "returns (batadv_handle_tt_response k tvlv_value src (batadv_tt_entries (l - 4 - vl))
          (ms_inc_counter BATADV_CNT_TT_RESPONSE_RX ms))"
        using le m assms(1,2) by (intro handle_response_returns) (simp_all add: nv_def)
      then show ?thesis using run True fits by (cases "batadv_handle_tt_response k tvlv_value src
          (batadv_tt_entries (l - 4 - vl)) (ms_inc_counter BATADV_CNT_TT_RESPONSE_RX ms)") (auto simp: nv_def)
    next
      case False
      then have "length tvlv_value < 4 + 8 * nv" using assms(2) by simp
      then have "batadv_handle_tt_response k tvlv_value src (batadv_tt_entries (l - 4 - vl))
          (ms_inc_counter BATADV_CNT_TT_RESPONSE_RX ms) = Kernel_bug \<longleftrightarrow> batadv_tt_entries (l - 4 - vl) \<noteq> 0"
        using assms(5) by (intro handle_response_bug) (simp_all add: nv_def)
      then show ?thesis using run fits n False
        by (cases "batadv_handle_tt_response k tvlv_value src (batadv_tt_entries (l - 4 - vl))
          (ms_inc_counter BATADV_CNT_TT_RESPONSE_RX ms)") (auto simp: nv_def)
    qed
  qed
qed

section \<open>An example\<close>

definition ex_tt_kenv :: tt_kenv where
  "ex_tt_kenv = \<lparr>jiffies = 1000, msecs_to_jiffies = of_nat, jhash = (\<lambda>bs iv. 0),
     jiffies_to_msecs = unat, kalloc_ok = (\<lambda>s. True), new_neigh_ptr = Some 1,
     crc32c = (\<lambda>c bs. foldl (\<lambda>c b. 31 * c + ucast b) c bs), tt_alloc_ok = (\<lambda>s. True),
     tt_kmalloc = (\<lambda>n. Some (replicate n 0)), is_backbone_gw_orig = (\<lambda>o1 v. False)\<rparr>"

definition ex_tt_iface :: batadv_hard_iface where
  "ex_tt_iface = \<lparr>hi_ifindex = 1, hi_dev_addr = Mac 2 0 0 0 0 1, hi_mtu = 1500,
     hi_if_status = BATADV_IF_ACTIVE, hi_num_bcasts = 1, hi_wifi_flags = 0, hi_hop_penalty = 0,
     hi_bat_v = \<lparr>bv_elp_interval = 500, bv_elp_seqno = 1, bv_elp_skb = None, bv_aggr_list = [],
       bv_aggr_len = 0, bv_throughput_override = 0, bv_flags = 0\<rparr>, hi_neigh_list = []\<rparr>"

definition ex_tt_orig :: batadv_orig_node where
  "ex_tt_orig = the (batadv_orig_node_new ex_kenv (Mac 2 0 0 0 0 5))"

definition ex_tt_priv :: batadv_priv where
  "ex_tt_priv = ex_priv\<lparr>bp_hard_ifaces := [ex_tt_iface], bp_primary_if := Some 1,
     bp_orig_hash := Some \<lparr>table = [[ex_tt_orig], []], hash_size = 2, generation = 1\<rparr>\<rparr>"

definition ex_tt_mesh :: mesh where
  "ex_tt_mesh = \<lparr>tt_vn = 0, tt_ogm_append_cnt = 0, tt_local_changes = 0, tt_changes_list = [],
     tt_local_hash = Some (batadv_hash_init 2), tt_global_hash = Some (batadv_hash_init 2),
     tt_req_list = [], tt_roam_list = [], tt_last_changeset = None, tt_last_changeset_len = 0,
     ms_priv = ex_tt_priv,
     ms_vlan_list = [\<lparr>mv_vid = 0, mv_ap_isolation = False, mv_crc = 0, mv_num_entries = 0\<rparr>],
     ms_packet_size_max = 1500, ms_isolation_mark = 0, ms_isolation_mark_mask = 0,
     ms_dev_addr = Mac 2 0 0 0 0 0xa, ms_mtu = 1500, ms_calls = []\<rparr>"

lemma ex_tt_orig [simp]: "on_orig ex_tt_orig = Mac 2 0 0 0 0 5"
  using ex_orig_node_new [of "Mac 2 0 0 0 0 5"] orig_node_new_orig [of ex_kenv "Mac 2 0 0 0 0 5"]
  by (auto simp: ex_tt_orig_def)

lemma ex_tt_find: "batadv_orig_hash_find ex_tt_kenv ex_tt_priv (Mac 2 0 0 0 0 5) = Some ex_tt_orig"
  by (simp add: batadv_orig_hash_find_def ex_tt_priv_def Let_def hash_bucket_def batadv_choose_orig_def
      ex_tt_kenv_def)

lemma ex_tt_mac: "batadv_is_my_mac ex_tt_priv (Mac 2 0 0 0 0 1)"
  by (simp add: batadv_is_my_mac_def ex_tt_priv_def ex_tt_iface_def)

text \<open>A response with 8192 VLANs, none of which is there, and one change.\<close>

definition ex_overread :: bytes where
  "ex_overread = tt_data_bytes \<lparr>td_flags = BATADV_TT_RESPONSE, td_ttvn = 1, td_num_vlan = 8192\<rparr>
     @ replicate 12 0"

lemma ex_overread_get: "get_tt_data ex_overread = \<lparr>td_flags = BATADV_TT_RESPONSE, td_ttvn = 1, td_num_vlan = 8192\<rparr>"
  unfolding ex_overread_def by (rule ttd_fmt.dec_enc)

theorem tt_response_overread_iff_witness:
  "batadv_tt_tvlv_unicast_handler_v1 ex_tt_kenv (Mac 2 0 0 0 0 5) (Mac 2 0 0 0 0 1) ex_overread ex_tt_mesh = Kernel_bug"
proof -
  have "length ex_overread = 16" by (simp add: ex_overread_def ttd_fmt.length_enc)
  then show ?thesis
    using tt_response_overread_iff [of ex_overread ex_tt_mesh "Mac 2 0 0 0 0 1" ex_tt_kenv "Mac 2 0 0 0 0 5"]
    by (simp add: ex_overread_get tt_data_flag_defs ex_tt_mesh_def ex_tt_find ex_tt_mac)
qed

section \<open>Requests\<close>

lemma req_node_new_cases:
  assumes "batadv_tt_req_node_new k o1 ms = (Some node, ms1)"
  shows "ms1 = ms\<lparr>tt_req_list := node # tt_req_list ms\<rparr>"
  using assms by (auto simp: batadv_tt_req_node_new_def Let_def split: if_splits)

text \<open>
  A node does not remember that it asked for a table. A request that was sent leaves the
  list of pending requests as it was, so the next inconsistent OGM of the originator makes the
  node send the request again, however soon that is, although the code intends to ask only
  when no answer is awaited.
\<close>

theorem tt_request_repeats:
  assumes "batadv_send_tt_request k o1 ttvn d nv full ms = Kret (True, ms1)"
  shows "tt_req_list ms1 = tt_req_list ms
    \<and> batadv_send_tt_request k o1 ttvn d nv full ms1 =
        Kret (True, ms1\<lparr>ms_calls := ms_calls ms1 @ [last (ms_calls ms1)],
                        ms_priv := batadv_add_counter BATADV_CNT_TT_REQUEST_TX 1 (ms_priv ms1)\<rparr>)"
proof -
  obtain hi where hi: "batadv_primary_if_get_selected (ms_priv ms) = Some hi"
    using assms by (auto simp: batadv_send_tt_request_def split: option.splits)
  obtain node where node: "batadv_tt_req_node_new k o1 ms = (Some node, ms\<lparr>tt_req_list := node # tt_req_list ms\<rparr>)"
    using assms hi req_node_new_cases
    by (cases "batadv_tt_req_node_new k o1 ms") (force simp: batadv_send_tt_request_def split: option.splits)
  obtain b where b: "tt_kmalloc k (4 + 8 * unat nv) = Some b"
    using assms hi node by (cases "tt_kmalloc k (4 + 8 * unat nv)") (simp_all add: batadv_send_tt_request_def Let_def)
  obtain vs where vs: "read_tt_vlans d [0..<unat nv] = Kret vs"
    using assms hi node b by (cases "read_tt_vlans d [0..<unat nv]") (auto simp: batadv_send_tt_request_def)
  have run: "batadv_send_tt_request k o1 ttvn d nv full m = Kret (True, ms_unicast_send (hi_dev_addr hi) o1
       (tt_data_bytes \<lparr>td_flags = if full then BATADV_TT_REQUEST OR BATADV_TT_FULL_TABLE
                                  else BATADV_TT_REQUEST, td_ttvn = ttvn, td_num_vlan = nv\<rparr>
          @ concat (map tt_vlan_data_bytes vs)) (of_nat (4 + 8 * unat nv))
       (ms_inc_counter BATADV_CNT_TT_REQUEST_TX m))"
    if "tt_req_list m = tt_req_list ms" "batadv_primary_if_get_selected (ms_priv m) = Some hi" for m
  proof -
    have "batadv_tt_req_node_new k o1 m = (Some node, m\<lparr>tt_req_list := node # tt_req_list m\<rparr>)"
      using node that(1) by (simp add: batadv_tt_req_node_new_def Let_def split: if_splits)
    then show ?thesis
      using that b vs
      by (simp add: batadv_send_tt_request_def Let_def ms_unicast_send_def tt_call_def ms_inc_counter_def)
  qed
  have 1: "ms1 = ms_unicast_send (hi_dev_addr hi) o1
       (tt_data_bytes \<lparr>td_flags = if full then BATADV_TT_REQUEST OR BATADV_TT_FULL_TABLE
                                  else BATADV_TT_REQUEST, td_ttvn = ttvn, td_num_vlan = nv\<rparr>
          @ concat (map tt_vlan_data_bytes vs)) (of_nat (4 + 8 * unat nv))
       (ms_inc_counter BATADV_CNT_TT_REQUEST_TX ms)"
    using assms run [OF refl hi] by simp
  moreover have "batadv_primary_if_get_selected (ms_priv ms1) = Some hi" "tt_req_list ms1 = tt_req_list ms"
    using hi by (simp_all add: 1 ms_unicast_send_def tt_call_def ms_inc_counter_def
        batadv_primary_if_get_selected_def batadv_add_counter_def hard_iface_get_def split: option.splits)
  ultimately show ?thesis
    using run [of ms1]
    by (simp add: ms_unicast_send_def tt_call_def ms_inc_counter_def)
qed

theorem tt_request_repeats_witness:
  "\<exists>ms1. batadv_send_tt_request ex_tt_kenv (Mac 2 0 0 0 0 5) 1 [2, 1, 0, 0] 0 True ex_tt_mesh = Kret (True, ms1)
     \<and> length (ms_calls ms1) = 1 \<and> tt_req_list ms1 = []"
proof -
  have "\<exists>ms1. batadv_send_tt_request ex_tt_kenv (Mac 2 0 0 0 0 5) 1 [2, 1, 0, 0] 0 True ex_tt_mesh = Kret (True, ms1)
     \<and> length (ms_calls ms1) = 1"
    by (simp add: batadv_send_tt_request_def batadv_tt_req_node_new_def Let_def ex_tt_mesh_def
        ex_tt_priv_def batadv_primary_if_get_selected_def hard_iface_get_def ex_tt_iface_def ex_tt_kenv_def
        ms_unicast_send_def tt_call_def ms_inc_counter_def)
  then obtain ms1 where r: "batadv_send_tt_request ex_tt_kenv (Mac 2 0 0 0 0 5) 1 [2, 1, 0, 0] 0 True ex_tt_mesh = Kret (True, ms1)"
    "length (ms_calls ms1) = 1" by blast
  then show ?thesis using tt_request_repeats [OF r(1)] by (simp add: ex_tt_mesh_def)
qed

section \<open>Pending changes\<close>

lemma event_loop_none: "\<forall>c \<in> set cs. chg_addr c \<noteq> a \<Longrightarrow> local_event_loop a f cs n = None"
  by (induction cs) auto

lemma event_loop_last:
  "\<forall>c \<in> set cs. chg_addr c \<noteq> chg_addr e \<Longrightarrow>
     local_event_loop (chg_addr e) f (cs @ [e]) n =
       (if (f AND ucast BATADV_TT_CLIENT_DEL \<noteq> 0) = (chg_flags e AND ucast BATADV_TT_CLIENT_DEL \<noteq> 0)
        then Some (cs @ [e\<lparr>chg_flags := f\<rparr>], n) else Some (cs, n - 1))"
  by (induction cs) (auto simp: Let_def)

text \<open>
  Pending changes are told apart by their address only. When a client appears on two
  VLANs in one originator interval (as the mesh interface itself does when VLANs are
  created), its second change is not recorded: only the first VLAN is announced, with the
  flags of the second. When it appears on one VLAN and leaves another, the two changes cancel
  and nothing is announced.
\<close>

theorem tt_changes_ignore_vlan:
  assumes "\<forall>c \<in> set (tt_changes_list ms). chg_addr c \<noteq> tc_addr e1" and "tc_addr e2 = tc_addr e1"
    and "tt_alloc_ok k (Alloc_change (tc_addr e1) (tc_vid e1))"
    and "tt_alloc_ok k (Alloc_change (tc_addr e1) (tc_vid e2))"
    and "\<not> has_flag (tc_flags e1) BATADV_TT_CLIENT_DEL" and "\<not> has_flag (tc_flags e2) BATADV_TT_CLIENT_DEL"
  shows "tt_changes_list (batadv_tt_local_event k e2 BATADV_NO_FLAGS (batadv_tt_local_event k e1 BATADV_NO_FLAGS ms)) =
           tt_changes_list ms @ [\<lparr>chg_flags = ucast (tc_flags e2), chg_addr = tc_addr e1, chg_vid = tc_vid e1\<rparr>]
         \<and> tt_changes_list (batadv_tt_local_event k e2 (ucast BATADV_TT_CLIENT_DEL)
           (batadv_tt_local_event k e1 BATADV_NO_FLAGS ms)) = tt_changes_list ms"
proof -
  have no: "(ucast f :: u8) AND ucast BATADV_TT_CLIENT_DEL = 0" if "\<not> has_flag f BATADV_TT_CLIENT_DEL" for f
  proof -
    have "(ucast f :: u8) AND ucast BATADV_TT_CLIENT_DEL = ucast (f AND BATADV_TT_CLIENT_DEL)"
      by (rule bit_word_eqI) (simp add: bit_simps)
    then show ?thesis using that by (simp add: has_flag_def)
  qed
  have del: "((ucast f :: u8) OR ucast BATADV_TT_CLIENT_DEL) AND ucast BATADV_TT_CLIENT_DEL \<noteq> 0" for f
  proof -
    have "bit (((ucast f :: u8) OR ucast BATADV_TT_CLIENT_DEL) AND ucast BATADV_TT_CLIENT_DEL) 0"
      by (simp add: BATADV_TT_CLIENT_DEL_def bit_simps)
    then show ?thesis by (metis bit_0_eq bot_apply bot_bool_def)
  qed
  let ?c = "\<lparr>chg_flags = ucast (tc_flags e1), chg_addr = tc_addr e1, chg_vid = tc_vid e1\<rparr>"
  have one: "batadv_tt_local_event k e1 BATADV_NO_FLAGS ms =
      ms\<lparr>tt_local_changes := tt_local_changes ms + 1, tt_changes_list := tt_changes_list ms @ [?c]\<rparr>"
    using assms(3) event_loop_none [OF assms(1)]
    by (simp add: batadv_tt_local_event_def BATADV_NO_FLAGS_def)
  have two: "local_event_loop (tc_addr e1) f (tt_changes_list ms @ [?c]) n =
      (if (f AND ucast BATADV_TT_CLIENT_DEL \<noteq> 0) = (chg_flags ?c AND ucast BATADV_TT_CLIENT_DEL \<noteq> 0)
       then Some (tt_changes_list ms @ [?c\<lparr>chg_flags := f\<rparr>], n) else Some (tt_changes_list ms, n - 1))" for f n
    using event_loop_last [of "tt_changes_list ms" ?c f n] assms(1) by simp
  have "tt_changes_list (batadv_tt_local_event k e2 BATADV_NO_FLAGS (batadv_tt_local_event k e1 BATADV_NO_FLAGS ms)) =
      tt_changes_list ms @ [\<lparr>chg_flags = ucast (tc_flags e2), chg_addr = tc_addr e1, chg_vid = tc_vid e1\<rparr>]"
    unfolding one using assms(2,4) no [OF assms(5)] no [OF assms(6)]
    by (simp add: batadv_tt_local_event_def two BATADV_NO_FLAGS_def)
  moreover have "tt_changes_list (batadv_tt_local_event k e2 (ucast BATADV_TT_CLIENT_DEL)
      (batadv_tt_local_event k e1 BATADV_NO_FLAGS ms)) = tt_changes_list ms"
    unfolding one using assms(2,4) no [OF assms(5)] del [of "tc_flags e2"]
    by (simp add: batadv_tt_local_event_def two BATADV_NO_FLAGS_def)
  ultimately show ?thesis ..
qed

definition ex_tt_local :: "u16 \<Rightarrow> batadv_tt_local_entry" where
  "ex_tt_local vid = \<lparr>tc_addr = Mac 2 0 0 0 0 0xa, tc_vid = vid, tc_flags = BATADV_TT_CLIENT_NEW,
     tc_added_at = 0, tl_last_seen = 0\<rparr>"

theorem tt_changes_ignore_vlan_witness:
  "tt_changes_list (batadv_tt_local_event ex_tt_kenv (ex_tt_local 0x8002) BATADV_NO_FLAGS
      (batadv_tt_local_event ex_tt_kenv (ex_tt_local 0x8001) BATADV_NO_FLAGS ex_tt_mesh)) =
    [\<lparr>chg_flags = 0, chg_addr = Mac 2 0 0 0 0 0xa, chg_vid = 0x8001\<rparr>]"
  using tt_changes_ignore_vlan [of ex_tt_mesh "ex_tt_local 0x8001" "ex_tt_local 0x8002" ex_tt_kenv]
  by (simp add: ex_tt_mesh_def ex_tt_local_def ex_tt_kenv_def has_flag_def tt_client_flag_defs)

section \<open>Roaming advertisements\<close>

definition roam_run :: "(tt_kenv \<times> mac \<times> u16 \<times> mac) list \<Rightarrow> mesh \<Rightarrow> mesh" where
  "roam_run es ms = foldl (\<lambda>ms (k, client, vid, orig). batadv_send_roam_adv k client vid orig ms) ms es"

fun adv_of :: "mac \<Rightarrow> tt_call \<Rightarrow> bool" where
  "adv_of c (Tt_unicast_send src dst t v) = (t = BATADV_TVLV_ROAM \<and> ra_client (get_roam_adv v) = c)"
| "adv_of c _ = False"

definition advs :: "mac \<Rightarrow> mesh \<Rightarrow> nat" where
  "advs c ms = length (filter (adv_of c) (ms_calls ms))"

definition roam_nodes :: "mac \<Rightarrow> mesh \<Rightarrow> batadv_tt_roam_node list" where
  "roam_nodes c ms = filter (\<lambda>n. rn_addr n = c) (tt_roam_list ms)"

lemma roam_loop_other:
  "d \<noteq> c \<Longrightarrow> roam_count_loop k d l = Some (l', r) \<Longrightarrow>
     filter (\<lambda>n. rn_addr n = c) l' = filter (\<lambda>n. rn_addr n = c) l"
  by (induction l arbitrary: l') (auto split: if_splits)

lemma roam_loop_none: "filter (\<lambda>n. rn_addr n = c) l = [] \<Longrightarrow> roam_count_loop k c l = None"
  by (induction l) (auto split: if_splits)

lemma roam_loop_one:
  assumes "filter (\<lambda>n. rn_addr n = c) l = [n]" and "\<not> tt_timed_out k (rn_first_time n) BATADV_ROAMING_MAX_TIME"
  shows "\<exists>l'. roam_count_loop k c l = Some (l', rn_counter n \<noteq> 0)
    \<and> filter (\<lambda>n. rn_addr n = c) l' = [if rn_counter n = 0 then n else n\<lparr>rn_counter := rn_counter n - 1\<rparr>]"
  using assms
proof (induction l)
  case (Cons x l)
  show ?case
  proof (cases "rn_addr x = c")
    case True
    then show ?thesis using Cons.prems by (auto split: if_splits)
  next
    case False
    then show ?thesis using Cons by auto
  qed
qed simp

lemma advs_simps [simp]:
  "advs c (ms\<lparr>tt_roam_list := l\<rparr>) = advs c ms"
  "roam_nodes c (ms_inc_counter i ms) = roam_nodes c ms"
  "roam_nodes c (tt_call x ms) = roam_nodes c ms"
  "advs c (ms_inc_counter i ms) = advs c ms"
  "advs c (tt_call x ms) = advs c ms + (if adv_of c x then 1 else 0)"
  "ms_priv (tt_call x ms) = ms_priv ms"
  by (simp_all add: advs_def roam_nodes_def ms_inc_counter_def tt_call_def)

lemma get_roam_adv [simp]: "get_roam_adv (roam_adv_bytes r) = r"
  by (rule roam_fmt.dec_enc_only)

lemma roam_nodes_upd [simp]: "roam_nodes c (ms\<lparr>tt_roam_list := l\<rparr>) = filter (\<lambda>n. rn_addr n = c) l"
  by (simp add: roam_nodes_def)

lemma primary_inc_counter [simp]:
  "batadv_primary_if_get_selected (ms_priv (ms_inc_counter i ms)) = batadv_primary_if_get_selected (ms_priv ms)"
  by (simp add: ms_inc_counter_def batadv_primary_if_get_selected_def batadv_add_counter_def
      hard_iface_get_def split: option.splits)

lemma check_roam_priv: "ms_priv (snd (batadv_tt_check_roam_count k d ms)) = ms_priv ms"
  by (auto simp: batadv_tt_check_roam_count_def split: option.splits)

lemma send_roam_primary [simp]:
  "batadv_primary_if_get_selected (ms_priv (batadv_send_roam_adv k d v o1 ms)) =
     batadv_primary_if_get_selected (ms_priv ms)"
  using check_roam_priv [of k d ms]
  by (auto simp: batadv_send_roam_adv_def split: option.splits prod.splits bool.splits)

lemma send_roam_other:
  assumes "d \<noteq> c"
  shows "advs c (batadv_send_roam_adv k d v o1 ms) = advs c ms"
    and "roam_nodes c (batadv_send_roam_adv k d v o1 ms) = roam_nodes c ms"
  using assms roam_loop_other [OF assms]
  by (auto simp: batadv_send_roam_adv_def batadv_tt_check_roam_count_def
      roam_nodes_def [of c ms] split: option.splits bool.splits)

text \<open>The state of the limit after \<open>n\<close> attempts of a client, the first of them at time \<open>t\<close>.\<close>

definition roam_state :: "mac \<Rightarrow> nat \<Rightarrow> u64 \<Rightarrow> mesh \<Rightarrow> bool" where
  "roam_state c n t ms = (roam_nodes c ms =
     (if n = 0 then [] else [\<lparr>rn_addr = c, rn_counter = of_nat (5 - n), rn_first_time = t\<rparr>]))"

lemma send_roam_self:
  assumes "roam_state c n t ms" and "batadv_primary_if_get_selected (ms_priv ms) \<noteq> None"
    and "tt_alloc_ok k (Alloc_roam c)" and "n = 0 \<Longrightarrow> t = jiffies k"
    and "0 < n \<Longrightarrow> \<not> tt_timed_out k t BATADV_ROAMING_MAX_TIME"
  shows "roam_state c (Suc n) t (batadv_send_roam_adv k c v o1 ms)
    \<and> advs c (batadv_send_roam_adv k c v o1 ms) = advs c ms + (if n < 5 then 1 else 0)"
proof (cases "n = 0")
  case True
  then have "roam_count_loop k c (tt_roam_list ms) = None"
    using assms(1) by (auto intro!: roam_loop_none simp: roam_state_def roam_nodes_def)
  then show ?thesis
    using assms True
    by (auto simp: batadv_send_roam_adv_def batadv_tt_check_roam_count_def roam_state_def
        roam_nodes_def [of c ms] BATADV_ROAMING_MAX_COUNT_def)
next
  case False
  let ?n = "\<lparr>rn_addr = c, rn_counter = of_nat (5 - n), rn_first_time = t\<rparr> :: batadv_tt_roam_node"
  have c0: "(of_nat (5 - n) :: u32) = 0 \<longleftrightarrow> 5 \<le> n"
  proof -
    have "unat (of_nat (5 - n) :: u32) = 5 - n" by (rule unat_of_nat_u32) simp
    then show ?thesis by (metis diff_is_0_eq unat_eq_zero)
  qed
  have c1: "(of_nat (5 - n) :: u32) - 1 = of_nat (5 - Suc n)" if "n < 5"
    using that by (simp add: Suc_diff_Suc [symmetric])
  obtain l where l: "roam_count_loop k c (tt_roam_list ms) = Some (l, rn_counter ?n \<noteq> 0)"
    "filter (\<lambda>n. rn_addr n = c) l = [if rn_counter ?n = 0 then ?n else ?n\<lparr>rn_counter := rn_counter ?n - 1\<rparr>]"
    using roam_loop_one [of c "tt_roam_list ms" ?n k] assms(1,5) False
    by (auto simp: roam_state_def roam_nodes_def)
  have nodes: "roam_nodes c (ms\<lparr>tt_roam_list := l\<rparr>) =
      [\<lparr>rn_addr = c, rn_counter = of_nat (5 - Suc n), rn_first_time = t\<rparr>]"
    using l(2) c0 c1 by (cases "n < 5") (simp_all add: roam_nodes_def)
  then show ?thesis
    using l(1) c0 assms(2)
    by (cases "n < 5") (auto simp: batadv_send_roam_adv_def batadv_tt_check_roam_count_def
        roam_state_def)
qed

definition attempts :: "mac \<Rightarrow> (tt_kenv \<times> mac \<times> u16 \<times> mac) list \<Rightarrow> nat" where
  "attempts c es = length (filter (\<lambda>(k, d, v, o1). d = c) es)"

text \<open>All attempts fall into one time window of the limit, and a record can be allocated.\<close>

definition in_window :: "(tt_kenv \<times> mac \<times> u16 \<times> mac) list \<Rightarrow> bool" where
  "in_window es = sorted_wrt (\<lambda>(k, _) (k', _). \<not> tt_timed_out k' (jiffies k) BATADV_ROAMING_MAX_TIME) es"

definition roam_allocs :: "mac \<Rightarrow> (tt_kenv \<times> mac \<times> u16 \<times> mac) list \<Rightarrow> bool" where
  "roam_allocs c es = list_all (\<lambda>(k, _). tt_alloc_ok k (Alloc_roam c)) es"

lemma roam_run_advs:
  assumes "roam_state c n t ms" and "batadv_primary_if_get_selected (ms_priv ms) \<noteq> None"
    and "in_window es" and "roam_allocs c es"
    and "0 < n \<Longrightarrow> list_all (\<lambda>(k, _). \<not> tt_timed_out k t BATADV_ROAMING_MAX_TIME) es"
  shows "advs c (roam_run es ms) = advs c ms + (min 5 (n + attempts c es) - min 5 n)"
  using assms
proof (induction es arbitrary: ms n t)
  case Nil
  then show ?case by (simp add: roam_run_def attempts_def)
next
  case (Cons e es)
  obtain k d v o1 where e: "e = (k, d, v, o1)" by (cases e)
  let ?ms = "batadv_send_roam_adv k d v o1 ms"
  have run: "roam_run ((k, d, v, o1) # es) ms = roam_run es ?ms" by (simp add: roam_run_def)
  have tail: "in_window es" "roam_allocs c es" "tt_alloc_ok k (Alloc_roam c)"
    "list_all (\<lambda>(k', _). \<not> tt_timed_out k' (jiffies k) BATADV_ROAMING_MAX_TIME) es"
    using Cons.prems(3,4) by (auto simp: in_window_def roam_allocs_def e list_all_iff)
  show ?case
  proof (cases "d = c")
    case False
    then have "roam_state c n t ?ms" "advs c ?ms = advs c ms"
      using Cons.prems(1) send_roam_other [OF False] by (simp_all add: roam_state_def)
    then show ?thesis
      using Cons.IH [of n t ?ms] Cons.prems(2,5) tail False by (simp add: run attempts_def e)
  next
    case True
    define t' where "t' = (if n = 0 then jiffies k else t)"
    have step: "roam_state c (Suc n) t' ?ms \<and> advs c ?ms = advs c ms + (if n < 5 then 1 else 0)"
      using send_roam_self [of c n t' ms k v o1] Cons.prems(1,2,5) tail(3)
      by (auto simp: True t'_def e roam_state_def)
    have "advs c (roam_run es ?ms) = advs c ?ms + (min 5 (Suc n + attempts c es) - min 5 (Suc n))"
      using step Cons.prems(2,5) tail by (intro Cons.IH [of "Suc n" t']) (auto simp: t'_def e)
    moreover have "attempts c (e # es) = Suc (attempts c es)" by (simp add: attempts_def e True)
    ultimately show ?thesis using step run by (cases "n < 5") (simp_all add: e)
  qed
qed

text \<open>
  C27: Roaming is rate limited exactly. However roaming events of clients and destinations
  interleave within one window of 20 seconds, the first five advertisements of a client are
  sent and every further one is suppressed; other clients do not use up its budget.
\<close>

theorem roam_advs_limited:
  assumes "\<forall>node \<in> set (tt_roam_list ms). rn_addr node \<noteq> c"
    and "batadv_primary_if_get_selected (ms_priv ms) \<noteq> None"
    and "in_window es" and "roam_allocs c es"
  shows "advs c (roam_run es ms) = advs c ms + min 5 (attempts c es)"
  using roam_run_advs [of c 0 0 ms es] assms by (simp add: roam_state_def roam_nodes_def filter_empty_conv)

lemma ex_no_timeout: "\<not> tt_timed_out ex_tt_kenv (jiffies ex_tt_kenv) BATADV_ROAMING_MAX_TIME"
  by (simp add: ex_tt_kenv_def tt_timed_out_def batadv_has_timed_out_def time_is_before_jiffies_def
      kclock.defs BATADV_ROAMING_MAX_TIME_def)

lemma sorted_wrt_replicate: "P x x \<Longrightarrow> sorted_wrt P (replicate n x)"
  by (induction n) auto

theorem roam_advs_limited_witness:
  "advs (Mac 2 0 0 0 0 7) (roam_run (replicate 7 (ex_tt_kenv, Mac 2 0 0 0 0 7, 0, Mac 2 0 0 0 0 5)) ex_tt_mesh) = 5"
proof -
  let ?es = "replicate 7 (ex_tt_kenv, Mac 2 0 0 0 0 7, 0 :: u16, Mac 2 0 0 0 0 5)"
  have "in_window ?es" unfolding in_window_def by (rule sorted_wrt_replicate) (simp add: ex_no_timeout)
  moreover have "roam_allocs (Mac 2 0 0 0 0 7) ?es"
    by (simp add: roam_allocs_def list_all_iff) (simp add: ex_tt_kenv_def)
  moreover have "attempts (Mac 2 0 0 0 0 7) ?es = 7" by (simp add: attempts_def)
  moreover have "batadv_primary_if_get_selected (ms_priv ex_tt_mesh) \<noteq> None"
    by (simp add: ex_tt_mesh_def ex_tt_priv_def ex_tt_iface_def batadv_primary_if_get_selected_def
        hard_iface_get_def)
  ultimately show ?thesis
    using roam_advs_limited [of ex_tt_mesh "Mac 2 0 0 0 0 7" ?es] by (simp add: ex_tt_mesh_def advs_def)
qed

end
