(* ===== verification/Tt_Accounting.thy ===== *)
theory Tt_Accounting
  imports Tt_Properties
begin

text \<open>
  The accounts of the global translation table: the tables are maps, and the counters of
  clients per VLAN that an originator carries (which decide whether its table is accepted)
  agree with the table after any sequence of operations, the purge of originators included.
\<close>

section \<open>The tables are maps\<close>

interpretation tt_hash: hash_client tt_key batadv_compare_tt "batadv_choose_tt jh" for jh
  by unfold_locales
    (auto simp: tt_key_def batadv_compare_tt_def batadv_choose_tt_def Let_def word_mod_less_divisor)

definition tmap ::
    "'k kenv_scheme \<Rightarrow> 'e batadv_tt_common_entry_scheme batadv_hashtable option
      \<Rightarrow> tt_key \<Rightarrow> 'e batadv_tt_common_entry_scheme option" where
  "tmap k hash = (\<lambda>(addr, vid). batadv_tt_hash_find k hash addr vid)"

definition table_ok :: "'k kenv_scheme \<Rightarrow> 'e batadv_tt_common_entry_scheme batadv_hashtable option \<Rightarrow> bool" where
  "table_ok k hash \<longleftrightarrow> (\<exists>h. hash = Some h \<and> tt_hash.hash_ok (jhash k) h)"

lemma tmap_Some: "tmap k (Some h) = tt_hash.hash_find (jhash k) h"
  by (auto simp: fun_eq_iff tmap_def batadv_tt_hash_find_def tt_hash.hash_find_def Let_def
      batadv_compare_tt_def intro: arg_cong2 [where f = find])

lemma tmap_find: "batadv_tt_hash_find k hash addr vid = tmap k hash (addr, vid)"
  by (simp add: tmap_def)

lemma global_find: "batadv_tt_global_hash_find k ms addr vid = tmap k (tt_global_hash ms) (addr, vid)"
  by (simp add: batadv_tt_global_hash_find_def tmap_find)

lemma local_find: "batadv_tt_local_hash_find k ms addr vid = tmap k (tt_local_hash ms) (addr, vid)"
  by (simp add: batadv_tt_local_hash_find_def tmap_find)

lemma tmap_key: "tmap k hash key = Some e \<Longrightarrow> tt_key e = key"
  by (cases hash; cases key)
    (auto simp: tmap_def batadv_tt_hash_find_def Let_def tt_key_def dest!: find_key_SomeD)

lemma tt_upd_eq: "tt_hash_upd k a v f (Some h) = Some (tt_hash.upd (jhash k) (a, v) f h)"
  by (simp add: tt_hash_upd_def tt_hash.upd_def Let_def)

lemma tmap_upd:
  assumes "table_ok k hash" and "\<And>e. tt_key e = (a, v) \<Longrightarrow> tt_key (f e) = (a, v)"
  shows "table_ok k (tt_hash_upd k a v f hash)"
    and "tmap k (tt_hash_upd k a v f hash) = (tmap k hash)((a, v) := map_option f (tmap k hash (a, v)))"
proof -
  obtain h where h: "hash = Some h" "tt_hash.hash_ok (jhash k) h" using assms(1) by (auto simp: table_ok_def)
  show "table_ok k (tt_hash_upd k a v f hash)"
    using tt_hash.upd_ok [OF h(2) assms(2)] by (simp add: h(1) tt_upd_eq table_ok_def)
  show "tmap k (tt_hash_upd k a v f hash) = (tmap k hash)((a, v) := map_option f (tmap k hash (a, v)))"
    using tt_hash.upd_find [OF h(2) assms(2)] by (simp add: h(1) tt_upd_eq tmap_Some)
qed

lemma tmap_add:
  assumes "table_ok k hash" and "tmap k hash (a, v) = None" and "tt_key e = (a, v)"
  obtains hash' where "batadv_hash_add hash batadv_compare_tt (batadv_choose_tt (jhash k)) (a, v) e = (0, hash')"
    and "table_ok k hash'" and "tmap k hash' = (tmap k hash)((a, v) \<mapsto> e)"
proof -
  obtain h where h: "hash = Some h" "tt_hash.hash_ok (jhash k) h" using assms(1) by (auto simp: table_ok_def)
  let ?h = "tt_hash.add (jhash k) (a, v) e h"
  have none: "tt_hash.hash_find (jhash k) h (a, v) = None" using assms(2) by (simp add: h(1) tmap_Some)
  then have "batadv_hash_add hash batadv_compare_tt (batadv_choose_tt (jhash k)) (a, v) e = (0, Some ?h)"
    using assms(3) by (auto simp: h(1) tt_hash.add_def batadv_hash_add_def Let_def tt_hash.hash_find_def find_None_iff)
  moreover have "table_ok k (Some ?h)" using tt_hash.add_ok [OF h(2)] by (simp add: table_ok_def)
  moreover have "tmap k (Some ?h) = (tmap k hash)((a, v) \<mapsto> e)"
    using tt_hash.add_find [OF h(2)] assms(3) none by (simp add: h(1) tmap_Some)
  ultimately show ?thesis using that by blast
qed

lemma tmap_remove:
  assumes "table_ok k (Some h)"
  shows "\<exists>h'. batadv_hash_remove h batadv_compare_tt (batadv_choose_tt (jhash k)) (a, v) = (tmap k (Some h) (a, v), h')
    \<and> table_ok k (Some h') \<and> tmap k (Some h') = (tmap k (Some h))((a, v) := None)"
proof -
  have h: "tt_hash.hash_ok (jhash k) h" using assms by (simp add: table_ok_def)
  have "fst (batadv_hash_remove h batadv_compare_tt (batadv_choose_tt (jhash k)) (a, v)) = tmap k (Some h) (a, v)"
    by (auto simp: tmap_Some tt_hash.hash_find_def batadv_hash_remove_def Let_def split: option.splits)
  moreover have "snd (batadv_hash_remove h batadv_compare_tt (batadv_choose_tt (jhash k)) (a, v)) =
      tt_hash.remove (jhash k) (a, v) h" by (simp add: tt_hash.remove_def)
  ultimately show ?thesis
    using tt_hash.remove_ok [OF h, of "(a, v)"] tt_hash.remove_find [OF h, of "(a, v)"]
    by (intro exI [of _ "tt_hash.remove (jhash k) (a, v) h"]) (auto simp: table_ok_def tmap_Some prod_eq_iff)
qed

lemma tmap_walk:
  assumes "table_ok k (Some h)" and "\<And>x y. F x = Some y \<Longrightarrow> tt_key y = tt_key x"
  shows "table_ok k (Some (h\<lparr>table := map (List.map_filter F) (table h)\<rparr>))"
    and "tmap k (Some (h\<lparr>table := map (List.map_filter F) (table h)\<rparr>)) = (\<lambda>key. Option.bind (tmap k (Some h) key) F)"
  using tt_hash.walk_ok [of "jhash k" h F] tt_hash.walk_find [of "jhash k" h F] assms
  by (auto simp: table_ok_def tmap_Some tt_hash.walk_def)

lemma finite_tmap: "table_ok k hash \<Longrightarrow> finite {key. tmap k hash key \<noteq> None}"
  using tt_hash.finite_keys [of "jhash k"] by (auto simp: table_ok_def tmap_Some)

section \<open>Counters of an originator\<close>

definition ov_count :: "batadv_orig_node \<Rightarrow> u16 \<Rightarrow> u32" where
  "ov_count on v = (case batadv_orig_node_vlan_get on v of None \<Rightarrow> 0 | Some vlan \<Rightarrow> ov_num_entries vlan)"

text \<open>One counter per VLAN, none for an invalid VLAN, none at zero except the one made at creation.\<close>

definition vlans_wf :: "batadv_orig_node \<Rightarrow> bool" where
  "vlans_wf on \<longleftrightarrow> distinct (map ov_vid (on_vlan_list on))
     \<and> (\<forall>vlan \<in> set (on_vlan_list on). batadv_vlan_id_valid (ov_vid vlan)
          \<and> (ov_num_entries vlan = 0 \<longrightarrow> ov_vid vlan = 0))"

definition vlan_allocs :: "'k kenv_scheme \<Rightarrow> bool" where
  "vlan_allocs k \<longleftrightarrow> (\<forall>a. kalloc_ok k (Alloc_orig_vlan a))"

lemma size_mod_orig [simp]: "on_orig (batadv_tt_global_size_mod k v d on) = on_orig on"
  by (auto simp: batadv_tt_global_size_mod_def batadv_orig_node_vlan_new_def Let_def split: option.splits)

lemma vlan_get_find: "batadv_orig_node_vlan_get on v = find (\<lambda>x. ov_vid x = v) (on_vlan_list on)"
  by (simp add: batadv_orig_node_vlan_get_def)

lemma size_mod_invalid: "\<not> batadv_vlan_id_valid v \<Longrightarrow> batadv_tt_global_size_mod k v d on = on"
  by (simp add: batadv_tt_global_size_mod_def batadv_orig_node_vlan_new_def)

lemma size_mod_spec:
  assumes "vlans_wf on" and "vlan_allocs k"
  shows "vlans_wf (batadv_tt_global_size_mod k v d on)"
    and "batadv_vlan_id_valid v \<Longrightarrow> ov_count (batadv_tt_global_size_mod k v d on) w =
           (if w = v then ov_count on v + d else ov_count on w)"
proof -
  have "vlans_wf (batadv_tt_global_size_mod k v d on) \<and> (\<forall>w. ov_count (batadv_tt_global_size_mod k v d on) w =
           (if w = v then ov_count on v + d else ov_count on w))" if v: "batadv_vlan_id_valid v"
  proof -
    define l where "l = (case batadv_orig_node_vlan_get on v of Some _ \<Rightarrow> on_vlan_list on
      | None \<Rightarrow> \<lparr>ov_vid = v, ov_crc = 0, ov_num_entries = 0\<rparr> # on_vlan_list on)"
    define n where "n = ov_count on v + d"
    have dist: "distinct (map ov_vid l)"
      using assms(1) by (auto simp: vlans_wf_def l_def vlan_get_find find_None_iff split: option.splits)
    have valid: "\<forall>x \<in> set l. batadv_vlan_id_valid (ov_vid x) \<and> (ov_num_entries x = 0 \<longrightarrow> ov_vid x = 0 \<or> ov_vid x = v)"
      using assms(1) v by (auto simp: vlans_wf_def l_def split: option.splits)
    have found: "find (\<lambda>x. ov_vid x = w) l = (if w = v then find (\<lambda>x. ov_vid x = v) l
        else batadv_orig_node_vlan_get on w)" for w
      by (auto simp: l_def vlan_get_find split: option.splits)
    have some: "find (\<lambda>x. ov_vid x = v) l \<noteq> None"
      by (auto simp: l_def vlan_get_find split: option.splits)
    have res: "batadv_tt_global_size_mod k v d on = on\<lparr>on_vlan_list :=
        (if n = 0 then hlist_del_first (\<lambda>x. ov_vid x = v) l
         else hlist_upd_first (\<lambda>x. ov_vid x = v) (\<lambda>x. x\<lparr>ov_num_entries := n\<rparr>) l)\<rparr>"
      using v assms(2)
      by (auto simp: batadv_tt_global_size_mod_def batadv_orig_node_vlan_new_def l_def n_def ov_count_def
          vlan_allocs_def Let_def split: option.splits)
    show ?thesis
    proof (cases "n = 0")
      case True
      have "set (hlist_del_first (\<lambda>x. ov_vid x = v) l) \<subseteq> set l - {x. ov_vid x = v}"
        using set_hlist_del_first [of "\<lambda>x. ov_vid x = v" l] del_first_keys [OF dist, of v] by force
      then show ?thesis
        using True dist valid find_key_del_first [OF dist] found n_def
        by (auto simp: res vlans_wf_def distinct_keys_del ov_count_def vlan_get_find)
    next
      case False
      have keys: "map ov_vid (hlist_upd_first (\<lambda>x. ov_vid x = v) (\<lambda>x. x\<lparr>ov_num_entries := n\<rparr>) l) = map ov_vid l"
        by (rule map_hlist_upd_first) simp
      have el: "x \<in> set (hlist_upd_first (\<lambda>x. ov_vid x = v) (\<lambda>x. x\<lparr>ov_num_entries := n\<rparr>) l) \<Longrightarrow>
          batadv_vlan_id_valid (ov_vid x) \<and> (ov_num_entries x = 0 \<longrightarrow> ov_vid x = 0)" for x
        using valid dist False by (induction l) (auto split: if_splits, metis imageI)
      let ?l = "hlist_upd_first (\<lambda>x. ov_vid x = v) (\<lambda>x. x\<lparr>ov_num_entries := n\<rparr>) l"
      have on: "on_vlan_list (batadv_tt_global_size_mod k v d on) = ?l" using False by (simp add: res)
      have "vlans_wf (batadv_tt_global_size_mod k v d on)"
        unfolding vlans_wf_def on using keys dist el by simp
      moreover have "ov_count (batadv_tt_global_size_mod k v d on) w =
          (if w = v then n else ov_count on w)" for w
      proof (cases "w = v")
        case True
        then show ?thesis using some
          by (auto simp: ov_count_def vlan_get_find on find_upd_found split: option.splits)
      next
        case other: False
        have "find (\<lambda>x. ov_vid x = w) ?l = find (\<lambda>x. ov_vid x = w) l"
          using other find_key_upd_first [of ov_vid "\<lambda>x. x\<lparr>ov_num_entries := n\<rparr>" w v l] by simp
        then show ?thesis using found [of w] other by (simp add: ov_count_def vlan_get_find on)
      qed
      ultimately show ?thesis by (simp add: n_def)
    qed
  qed
  then show "vlans_wf (batadv_tt_global_size_mod k v d on)"
    "batadv_vlan_id_valid v \<Longrightarrow> ov_count (batadv_tt_global_size_mod k v d on) w =
           (if w = v then ov_count on v + d else ov_count on w)"
    using assms(1) size_mod_invalid [of v k d on] by (cases "batadv_vlan_id_valid v"; simp)+
qed

section \<open>Accounting\<close>

text \<open>The counters of the known originators are given by \<open>C\<close>, for every valid VLAN.\<close>

definition counts :: "'k kenv_scheme \<Rightarrow> batadv_priv \<Rightarrow> (mac \<Rightarrow> u16 \<Rightarrow> u32) \<Rightarrow> bool" where
  "counts k bp C \<longleftrightarrow> orig_table_ok k bp \<and> (\<forall>a on. batadv_orig_hash_find k bp a = Some on \<longrightarrow>
     vlans_wf on \<and> (\<forall>v. batadv_vlan_id_valid v \<longrightarrow> ov_count on v = C a v))"

lemma counts_mod:
  assumes "counts k bp C" and "vlan_allocs k"
  shows "counts k (orig_upd k a (batadv_tt_global_size_mod k v d) bp) (C(a := (C a)(v := C a v + d)))"
proof -
  note u = orig_upd_find [where f = "batadv_tt_global_size_mod k v d", OF _ size_mod_orig]
  have ok: "orig_table_ok k bp" using assms(1) by (simp add: counts_def)
  show ?thesis
    unfolding counts_def u(2) [OF ok]
  proof (intro conjI allI impI)
    show "orig_table_ok k (orig_upd k a (batadv_tt_global_size_mod k v d) bp)" by (rule u(1) [OF ok])
    fix b on
    assume on: "((batadv_orig_hash_find k bp)(a := map_option (batadv_tt_global_size_mod k v d)
        (batadv_orig_hash_find k bp a))) b = Some on"
    show "vlans_wf on"
      using on assms by (auto simp: counts_def size_mod_spec split: if_splits)
    fix w assume "batadv_vlan_id_valid w"
    then show "ov_count on w = (C(a := (C a)(v := C a v + d))) b w"
    proof (cases "b = a")
      case True
      then obtain z where z: "batadv_orig_hash_find k bp a = Some z" "on = batadv_tt_global_size_mod k v d z"
        using on by auto
      have wf: "vlans_wf z" and n: "ov_count z w = C a w" if "batadv_vlan_id_valid w" for w
        using assms(1) z(1) that by (auto simp: counts_def)
      note w = \<open>batadv_vlan_id_valid w\<close>
      show ?thesis
      proof (cases "batadv_vlan_id_valid v")
        case v: True
        show ?thesis
          using True z(2) n [OF w] n [OF v] size_mod_spec(2) [OF wf [OF w] assms(2) v, of d w] by simp
      next
        case False
        then have "w \<noteq> v" using w by blast
        then show ?thesis using True z(2) n [OF w] size_mod_invalid [OF False, of k d z] by simp
      qed
    next
      case False
      then show ?thesis using on assms(1) \<open>batadv_vlan_id_valid w\<close> by (auto simp: counts_def)
    qed
  qed
qed

lemma counts_cong: "counts k bp C \<Longrightarrow> (\<And>a v. C a v = D a v) \<Longrightarrow> counts k bp D"
  by (simp add: counts_def)

abbreviation origs :: "batadv_tt_global_entry \<Rightarrow> mac set" where
  "origs g \<equiv> oe_orig_node ` set (tg_orig_list g)"

definition entry_ok :: "batadv_tt_global_entry \<Rightarrow> bool" where
  "entry_ok g \<longleftrightarrow> distinct (map oe_orig_node (tg_orig_list g))
     \<and> tg_orig_list_count g = int (length (tg_orig_list g))
     \<and> (\<forall>oe \<in> set (tg_orig_list g). oe_flags oe AND 0x0F = 0)"

lemma counts_dec_list:
  assumes "counts k bp C" and "vlan_allocs k" and "distinct (map oe_orig_node l)"
  shows "counts k (foldl (\<lambda>bp oe. batadv_tt_global_size_dec k (oe_orig_node oe) v bp) bp l)
     (\<lambda>a w. if w = v \<and> a \<in> oe_orig_node ` set l then C a w - 1 else C a w)"
  using assms
proof (induction l arbitrary: bp C)
  case (Cons x l)
  let ?D = "C(oe_orig_node x := (C (oe_orig_node x))(v := C (oe_orig_node x) v + - 1))"
  have "counts k (batadv_tt_global_size_dec k (oe_orig_node x) v bp) ?D"
    unfolding batadv_tt_global_size_dec_def by (rule counts_mod [OF Cons.prems(1,2)])
  from Cons.IH [OF this Cons.prems(2)] Cons.prems(3) show ?case
    by (auto elim!: counts_cong)
qed simp

text \<open>Unlinking some of a client's originators.\<close>

lemma del_first_append:
  "distinct (map key (ys @ x # xs)) \<Longrightarrow> hlist_del_first (\<lambda>y. key y = key x) (ys @ x # xs) = ys @ xs"
  by (induction ys) auto

lemma del_orig_entries:
  assumes "entry_ok g"
  shows "tt_del_orig_entries k P g bp =
    (g\<lparr>tg_orig_list := filter (\<lambda>oe. \<not> P (oe_orig_node oe)) (tg_orig_list g),
       tg_orig_list_count := int (length (filter (\<lambda>oe. \<not> P (oe_orig_node oe)) (tg_orig_list g)))\<rparr>,
     foldl (\<lambda>bp oe. batadv_tt_global_size_dec k (oe_orig_node oe) (tc_vid g) bp) bp
       (filter (\<lambda>oe. P (oe_orig_node oe)) (tg_orig_list g)))"
proof -
  let ?f = "\<lambda>(g, bp) orig_entry.
       if P (oe_orig_node orig_entry)
       then (g\<lparr>tg_orig_list := hlist_del_first (\<lambda>oe. oe_orig_node oe = oe_orig_node orig_entry) (tg_orig_list g),
               tg_orig_list_count := tg_orig_list_count g - 1\<rparr>,
             batadv_tt_global_size_dec k (oe_orig_node orig_entry) (tc_vid g) bp)
       else (g, bp)"
  have loop: "foldl ?f (g\<lparr>tg_orig_list := ys @ xs, tg_orig_list_count := int (length (ys @ xs))\<rparr>, bp) xs =
    (g\<lparr>tg_orig_list := ys @ filter (\<lambda>oe. \<not> P (oe_orig_node oe)) xs,
       tg_orig_list_count := int (length (ys @ filter (\<lambda>oe. \<not> P (oe_orig_node oe)) xs))\<rparr>,
     foldl (\<lambda>bp oe. batadv_tt_global_size_dec k (oe_orig_node oe) (tc_vid g) bp) bp
       (filter (\<lambda>oe. P (oe_orig_node oe)) xs))"
    if "distinct (map oe_orig_node (ys @ xs))" for ys xs
    using that
  proof (induction xs arbitrary: ys bp)
    case (Cons x xs)
    show ?case
    proof (cases "P (oe_orig_node x)")
      case True
      have "distinct (map oe_orig_node (ys @ xs))" using Cons.prems by auto
      from Cons.IH [OF this] show ?thesis
        using True del_first_append [OF Cons.prems] by simp
    next
      case False
      have "distinct (map oe_orig_node ((ys @ [x]) @ xs))" using Cons.prems by simp
      from Cons.IH [OF this, of bp] show ?thesis using False by simp
    qed
  qed simp
  have same: "g\<lparr>tg_orig_list := tg_orig_list g, tg_orig_list_count := int (length (tg_orig_list g))\<rparr> = g"
    using assms by (cases g) (simp add: entry_ok_def)
  have "distinct (map oe_orig_node ([] @ tg_orig_list g))" using assms by (simp add: entry_ok_def)
  from loop [OF this] show ?thesis unfolding tt_del_orig_entries_def append_Nil same .
qed

text \<open>The number of clients an originator announces on a VLAN.\<close>

definition announces :: "batadv_tt_global_entry option \<Rightarrow> mac \<Rightarrow> bool" where
  "announces x a \<longleftrightarrow> (\<exists>g. x = Some g \<and> a \<in> origs g)"

definition tcount :: "'k kenv_scheme \<Rightarrow> batadv_tt_global_entry batadv_hashtable option \<Rightarrow> mac \<Rightarrow> u16 \<Rightarrow> u32" where
  "tcount k hash a v = of_nat (card {c. announces (tmap k hash (c, v)) a})"

abbreviation ind :: "bool \<Rightarrow> u32" where "ind b \<equiv> if b then 1 else 0"

lemma announces_simps [simp]: "\<not> announces None a" "announces (Some g) a \<longleftrightarrow> a \<in> origs g"
  by (auto simp: announces_def)

lemma finite_announced:
  assumes "table_ok k hash" shows "finite {c. announces (tmap k hash (c, v)) a}"
proof (rule finite_subset)
  show "{c. announces (tmap k hash (c, v)) a} \<subseteq> fst ` {key. tmap k hash key \<noteq> None}"
  proof
    fix c assume "c \<in> {c. announces (tmap k hash (c, v)) a}"
    then have "(c, v) \<in> {key. tmap k hash key \<noteq> None}" by (auto simp: announces_def)
    then show "c \<in> fst ` {key. tmap k hash key \<noteq> None}" by (metis fst_conv imageI)
  qed
qed (rule finite_imageI [OF finite_tmap [OF assms]])

lemma tcount_upd:
  assumes "table_ok k hash" and "tmap k hash' = (tmap k hash)((c, v) := x)"
  shows "tcount k hash' a w = (if w = v then tcount k hash a v + ind (announces x a)
           - ind (announces (tmap k hash (c, v)) a) else tcount k hash a w)"
proof (cases "w = v")
  case True
  let ?S = "{c. announces (tmap k hash (c, v)) a}" and ?T = "{c. announces (tmap k hash' (c, v)) a}"
  have fin: "finite ?S" by (rule finite_announced [OF assms(1)])
  have T: "?T = (if announces x a then insert c (?S - {c}) else ?S - {c})"
    using assms(2) by (auto split: if_splits)
  have S: "card ?S = card (?S - {c}) + (if announces (tmap k hash (c, v)) a then 1 else 0)"
    using card.remove [OF fin, of c] by (cases "announces (tmap k hash (c, v)) a") simp_all
  have "card ?T = card (?S - {c}) + (if announces x a then 1 else 0)"
    using card.insert_remove [OF fin, of c] by (simp add: T)
  then show ?thesis using True S by (simp add: tcount_def)
next
  case False
  then show ?thesis using assms(2) by (simp add: tcount_def)
qed

text \<open>
  The invariant of the global table: every entry lists an originator once, counts its list
  and lists allowed originators only (the second component of \<open>K\<close>), and every known
  originator's counter of a VLAN is the number of clients it announces there. Between the
  removal of an originator and that of its entries more are allowed than are known.
\<close>

definition known :: "'k kenv_scheme \<Rightarrow> batadv_priv \<Rightarrow> mac set" where
  "known k bp = {a. batadv_orig_hash_find k bp a \<noteq> None}"

definition tt_global_inv :: "'k kenv_scheme \<Rightarrow> mac set \<times> mac set \<Rightarrow> mesh \<Rightarrow> bool" where
  "tt_global_inv k K ms \<longleftrightarrow> known k (ms_priv ms) = fst K \<and> fst K \<subseteq> snd K \<and> table_ok k (tt_global_hash ms)
     \<and> (\<forall>key g. tmap k (tt_global_hash ms) key = Some g \<longrightarrow> entry_ok g \<and> origs g \<subseteq> snd K)
     \<and> counts k (ms_priv ms) (tcount k (tt_global_hash ms))"

lemma counts_table: "counts k bp C \<Longrightarrow> orig_table_ok k bp"
  by (simp add: counts_def)

lemma known_upd [simp]:
  "orig_table_ok k bp \<Longrightarrow> (\<And>on. on_orig (f on) = on_orig on) \<Longrightarrow> known k (orig_upd k a f bp) = known k bp"
  by (auto simp: known_def orig_upd_find split: if_splits)

lemma dec_list_table:
  assumes "orig_table_ok k bp"
  shows "orig_table_ok k (foldl (\<lambda>bp oe. batadv_tt_global_size_dec k (oe_orig_node oe) v bp) bp l)"
    and "known k (foldl (\<lambda>bp oe. batadv_tt_global_size_dec k (oe_orig_node oe) v bp) bp l) = known k bp"
  using assms by (induction l arbitrary: bp) (simp_all add: batadv_tt_global_size_dec_def orig_upd_find)

lemma tt_inv_upd:
  assumes "tt_global_inv k K ms" and "table_ok k (tt_global_hash ms')"
    and "tmap k (tt_global_hash ms') = (tmap k (tt_global_hash ms))((c, v) := x)"
    and "known k (ms_priv ms') = fst K"
    and "\<And>g. x = Some g \<Longrightarrow> entry_ok g \<and> origs g \<subseteq> snd K"
    and "counts k (ms_priv ms') (\<lambda>a w. if w = v then tcount k (tt_global_hash ms) a v + ind (announces x a)
           - ind (announces (tmap k (tt_global_hash ms) (c, v)) a) else tcount k (tt_global_hash ms) a w)"
  shows "tt_global_inv k K ms'"
  using assms tcount_upd [of k "tt_global_hash ms" "tt_global_hash ms'" c v x]
  unfolding tt_global_inv_def by (auto elim!: counts_cong split: if_splits)

lemma tt_inv_same:
  "tt_global_inv k K ms \<Longrightarrow> tt_global_hash ms' = tt_global_hash ms \<Longrightarrow> ms_priv ms' = ms_priv ms \<Longrightarrow> tt_global_inv k K ms'"
  by (simp add: tt_global_inv_def)

lemma tt_inv_entry:
  "tt_global_inv k K ms \<Longrightarrow> tmap k (tt_global_hash ms) key = Some g \<Longrightarrow>
     entry_ok g \<and> origs g \<subseteq> snd K \<and> tt_key g = key"
  using tmap_key [of k "tt_global_hash ms" key g] by (cases key) (simp add: tt_global_inv_def)

lemma tt_inv_known: "tt_global_inv k K ms \<Longrightarrow> known k (ms_priv ms) = fst K"
  by (simp add: tt_global_inv_def)

lemma tt_inv_sub: "tt_global_inv k K ms \<Longrightarrow> fst K \<subseteq> snd K"
  by (simp add: tt_global_inv_def)

lemma tt_inv_table: "tt_global_inv k K ms \<Longrightarrow> table_ok k (tt_global_hash ms)"
  by (simp add: tt_global_inv_def)

lemma tt_inv_origs: "tt_global_inv k K ms \<Longrightarrow> orig_table_ok k (ms_priv ms)"
  by (simp add: tt_global_inv_def counts_def)

lemma tt_inv_counts: "tt_global_inv k K ms \<Longrightarrow> counts k (ms_priv ms) (tcount k (tt_global_hash ms))"
  by (simp add: tt_global_inv_def)

section \<open>Every operation keeps the accounts\<close>

lemma inv_global_upd:
  assumes "tt_global_inv k K ms"
    and f: "\<And>g. tmap k (tt_global_hash ms) (a, v) = Some g \<Longrightarrow> entry_ok (f g) \<and> origs (f g) = origs g"
    and key: "\<And>g. tt_key (f g) = tt_key g"
  shows "tt_global_inv k K (tt_global_upd k a v f ms)"
proof (rule tt_inv_upd [OF assms(1)])
  let ?x = "map_option f (tmap k (tt_global_hash ms) (a, v))"
  note u = tmap_upd [where a = a and v = v and f = f, OF tt_inv_table [OF assms(1)]]
  show "table_ok k (tt_global_hash (tt_global_upd k a v f ms))"
    using u(1) key by (simp add: tt_global_upd_def)
  show "tmap k (tt_global_hash (tt_global_upd k a v f ms)) = (tmap k (tt_global_hash ms))((a, v) := ?x)"
    using u(2) key by (simp add: tt_global_upd_def)
  show "known k (ms_priv (tt_global_upd k a v f ms)) = fst K"
    using tt_inv_known [OF assms(1)] by (simp add: tt_global_upd_def)
  show "entry_ok g \<and> origs g \<subseteq> snd K" if x: "?x = Some g" for g
  proof -
    obtain z where z: "tmap k (tt_global_hash ms) (a, v) = Some z" "g = f z" using x by auto
    then show ?thesis using f [OF z(1)] tt_inv_entry [OF assms(1) z(1)] by simp
  qed
  have same: "announces ?x b = announces (tmap k (tt_global_hash ms) (a, v)) b" for b
    using f by (cases "tmap k (tt_global_hash ms) (a, v)") auto
  show "counts k (ms_priv (tt_global_upd k a v f ms)) (\<lambda>b w. if w = v then tcount k (tt_global_hash ms) b v
      + ind (announces ?x b) - ind (announces (tmap k (tt_global_hash ms) (a, v)) b)
      else tcount k (tt_global_hash ms) b w)"
    unfolding same using tt_inv_counts [OF assms(1)]
    by (auto simp: tt_global_upd_def elim!: counts_cong)
qed

lemma inv_set_flags: "tt_global_inv k K ms \<Longrightarrow> tt_global_inv k K (tt_set_flags k a v f ms)"
  unfolding tt_set_flags_def using tt_inv_entry [of k K ms "(a, v)"]
  by (intro inv_global_upd) (auto simp: entry_ok_def tt_key_def)

lemma inv_del_entries:
  assumes "tt_global_inv k K ms" and "vlan_allocs k"
  shows "tt_global_inv k K (tt_global_del_entries k P a v ms)"
proof (cases "tmap k (tt_global_hash ms) (a, v)")
  case None
  then show ?thesis using assms by (simp add: tt_global_del_entries_def global_find)
next
  case (Some g)
  note ok = tt_inv_entry [OF assms(1) Some]
  then have ok': "entry_ok g" and vid: "tc_vid g = v" by (simp_all add: tt_key_def)
  let ?rem = "filter (\<lambda>oe. P (oe_orig_node oe)) (tg_orig_list g)"
  let ?bp = "foldl (\<lambda>bp oe. batadv_tt_global_size_dec k (oe_orig_node oe) v bp) (ms_priv ms) ?rem"
  define g' where "g' = g\<lparr>tg_orig_list := filter (\<lambda>oe. \<not> P (oe_orig_node oe)) (tg_orig_list g),
       tg_orig_list_count := int (length (filter (\<lambda>oe. \<not> P (oe_orig_node oe)) (tg_orig_list g)))\<rparr>"
  have eq: "tt_global_del_entries k P a v ms = tt_global_upd k a v (\<lambda>_. g') (ms\<lparr>ms_priv := ?bp\<rparr>)"
    using del_orig_entries [OF ok', of k P "ms_priv ms"]
    by (simp add: tt_global_del_entries_def global_find Some vid g'_def)
  have key: "tt_key g' = (a, v)" using ok by (simp add: g'_def tt_key_def)
  note u = tmap_upd [where a = a and v = v and f = "\<lambda>_. g'", OF tt_inv_table [OF assms(1)] key]
  show ?thesis
    unfolding eq
  proof (rule tt_inv_upd [OF assms(1), where c = a and v = v and x = "Some g'"])
    show "table_ok k (tt_global_hash (tt_global_upd k a v (\<lambda>_. g') (ms\<lparr>ms_priv := ?bp\<rparr>)))"
      using u(1) by (simp add: tt_global_upd_def)
    show "tmap k (tt_global_hash (tt_global_upd k a v (\<lambda>_. g') (ms\<lparr>ms_priv := ?bp\<rparr>))) =
        (tmap k (tt_global_hash ms))((a, v) := Some g')"
      using u(2) Some by (simp add: tt_global_upd_def)
    show "known k (ms_priv (tt_global_upd k a v (\<lambda>_. g') (ms\<lparr>ms_priv := ?bp\<rparr>))) = fst K"
      using tt_inv_known [OF assms(1)] by (simp add: tt_global_upd_def dec_list_table [OF tt_inv_origs [OF assms(1)]])
    show "entry_ok x \<and> origs x \<subseteq> snd K" if "Some g' = Some x" for x
      using that ok by (auto simp: g'_def entry_ok_def distinct_map inj_on_def)
    have part: "b \<in> oe_orig_node ` set ?rem \<longleftrightarrow> b \<in> origs g \<and> P b" "b \<in> origs g' \<longleftrightarrow> b \<in> origs g \<and> \<not> P b" for b
      by (auto simp: g'_def)
    have d: "distinct (map oe_orig_node ?rem)" using ok' by (auto simp: entry_ok_def distinct_map inj_on_def)
    have "counts k ?bp (\<lambda>b w. if w = v \<and> b \<in> oe_orig_node ` set ?rem
        then tcount k (tt_global_hash ms) b w - 1 else tcount k (tt_global_hash ms) b w)"
      by (rule counts_dec_list [OF tt_inv_counts [OF assms(1)] assms(2) d])
    then show "counts k (ms_priv (tt_global_upd k a v (\<lambda>_. g') (ms\<lparr>ms_priv := ?bp\<rparr>)))
       (\<lambda>b w. if w = v then tcount k (tt_global_hash ms) b v + ind (announces (Some g') b)
           - ind (announces (tmap k (tt_global_hash ms) (a, v)) b) else tcount k (tt_global_hash ms) b w)"
      using part by (auto simp: tt_global_upd_def Some elim!: counts_cong simp del: set_filter)
  qed
qed

lemma inv_new:
  assumes "tt_global_inv k K ms" and "tmap k (tt_global_hash ms) (a, v) = None"
  shows "tt_global_inv k K (snd (tt_global_new k a v flags ms))"
proof -
  define g where "g = \<lparr>tc_addr = a, tc_vid = v,
               tc_flags = (if is_multicast_ether_addr a then 0 else flags AND NOT BATADV_TT_SYNC_MASK),
               tc_added_at = jiffies k, tg_orig_list = [], tg_orig_list_count = 0,
               tg_roam_at = (if has_flag flags BATADV_TT_CLIENT_ROAM then jiffies k else 0)\<rparr>"
  have key: "tt_key g = (a, v)" by (simp add: g_def tt_key_def)
  obtain hash' where h: "batadv_hash_add (tt_global_hash ms) batadv_compare_tt (batadv_choose_tt (jhash k)) (a, v) g = (0, hash')"
    "table_ok k hash'" "tmap k hash' = (tmap k (tt_global_hash ms))((a, v) \<mapsto> g)"
    using tmap_add [OF tt_inv_table [OF assms(1)] assms(2) key] .
  have eq: "snd (tt_global_new k a v flags ms) = ms\<lparr>tt_global_hash := hash'\<rparr>"
    using h(1) by (simp add: tt_global_new_def Let_def g_def)
  show ?thesis
    unfolding eq
  proof (rule tt_inv_upd [OF assms(1), where c = a and v = v and x = "Some g"])
    show "counts k (ms_priv (ms\<lparr>tt_global_hash := hash'\<rparr>))
       (\<lambda>b w. if w = v then tcount k (tt_global_hash ms) b v + ind (announces (Some g) b)
           - ind (announces (tmap k (tt_global_hash ms) (a, v)) b) else tcount k (tt_global_hash ms) b w)"
      using tt_inv_counts [OF assms(1)] by (auto simp: assms(2) g_def elim!: counts_cong)
  qed (use h tt_inv_known [OF assms(1)] in \<open>auto simp: g_def entry_ok_def\<close>)
qed

lemma inv_orig_entry_add:
  assumes "tt_global_inv k K ms" and "vlan_allocs k" and "b \<in> fst K" and "fl AND 0x0F = 0"
  shows "tt_global_inv k K (batadv_tt_global_orig_entry_add k a v b n fl ms)"
proof (cases "tmap k (tt_global_hash ms) (a, v)")
  case None
  then show ?thesis using assms by (simp add: batadv_tt_global_orig_entry_add_def global_find)
next
  case (Some g)
  note ok = tt_inv_entry [OF assms(1) Some]
  show ?thesis
  proof (cases "b \<in> origs g")
    case True
    let ?u = "\<lambda>l :: batadv_tt_orig_list_entry list. hlist_upd_first (\<lambda>oe. oe_orig_node oe = b) (\<lambda>oe. oe\<lparr>oe_ttvn := n, oe_flags := fl\<rparr>) l"
    have keys: "map oe_orig_node (?u l) = map oe_orig_node l" for l by (rule map_hlist_upd_first) simp
    then have o: "oe_orig_node ` set (?u l) = oe_orig_node ` set l" for l by (metis list.set_map)
    have len: "length (?u l) = length l" for l by (metis keys length_map)
    have fl: "\<forall>oe \<in> set (?u l). oe_flags oe AND 0x0F = 0" if "\<forall>oe \<in> set l. oe_flags oe AND 0x0F = 0" for l
      using that assms(4) by (induction l) auto
    have "\<exists>oe. batadv_tt_global_orig_entry_find g b = Some oe"
      using True by (auto simp: batadv_tt_global_orig_entry_find_def find_Some_iff2 find_None_iff
          simp flip: not_None_eq)
    then have eq: "batadv_tt_global_orig_entry_add k a v b n fl ms = tt_global_upd k a v
        (\<lambda>g. batadv_tt_global_sync_flags (g\<lparr>tg_orig_list := ?u (tg_orig_list g)\<rparr>)) ms"
      by (auto simp: batadv_tt_global_orig_entry_add_def global_find Some)
    show ?thesis
      unfolding eq
    proof (rule inv_global_upd [OF assms(1)])
      fix g' assume "tmap k (tt_global_hash ms) (a, v) = Some g'"
      then have g': "entry_ok g'" using ok Some by simp
      let ?g = "batadv_tt_global_sync_flags (g'\<lparr>tg_orig_list := ?u (tg_orig_list g')\<rparr>)"
      have "tg_orig_list ?g = ?u (tg_orig_list g')" "tg_orig_list_count ?g = tg_orig_list_count g'"
        by (simp_all add: batadv_tt_global_sync_flags_def)
      then show "entry_ok ?g \<and> origs ?g = origs g'"
        using g' keys o len fl [of "tg_orig_list g'"] by (simp add: entry_ok_def)
    qed (simp add: batadv_tt_global_sync_flags_def tt_key_def)
  next
    case False
    then have none: "batadv_tt_global_orig_entry_find g b = None"
      by (auto simp: batadv_tt_global_orig_entry_find_def find_None_iff)
    show ?thesis
    proof (cases "tt_alloc_ok k (Alloc_orig_entry a v)")
      case True
      define f where "f = (\<lambda>g. batadv_tt_global_sync_flags
                   (g\<lparr>tg_orig_list := \<lparr>oe_orig_node = b, oe_ttvn = n, oe_flags = fl\<rparr>
                        # tg_orig_list g, tg_orig_list_count := tg_orig_list_count g + 1\<rparr>))"
      let ?bp = "batadv_tt_global_size_inc k b v (ms_priv ms)"
      have eq: "batadv_tt_global_orig_entry_add k a v b n fl ms = tt_global_upd k a v f (ms\<lparr>ms_priv := ?bp\<rparr>)"
        by (simp add: batadv_tt_global_orig_entry_add_def global_find Some none True f_def)
      have key: "tt_key (f x) = tt_key x" for x
        by (simp add: f_def batadv_tt_global_sync_flags_def tt_key_def)
      have list: "tg_orig_list (f x) = \<lparr>oe_orig_node = b, oe_ttvn = n, oe_flags = fl\<rparr> # tg_orig_list x"
        "tg_orig_list_count (f x) = tg_orig_list_count x + 1" for x
        by (simp_all add: f_def batadv_tt_global_sync_flags_def)
      note u = tmap_upd [where a = a and v = v and f = f, OF tt_inv_table [OF assms(1)]]
      show ?thesis
        unfolding eq
      proof (rule tt_inv_upd [OF assms(1), where c = a and v = v and x = "Some (f g)"])
        show "table_ok k (tt_global_hash (tt_global_upd k a v f (ms\<lparr>ms_priv := ?bp\<rparr>)))"
          using u(1) key by (simp add: tt_global_upd_def)
        show "tmap k (tt_global_hash (tt_global_upd k a v f (ms\<lparr>ms_priv := ?bp\<rparr>))) =
            (tmap k (tt_global_hash ms))((a, v) := Some (f g))"
          using u(2) key Some by (simp add: tt_global_upd_def)
        show "known k (ms_priv (tt_global_upd k a v f (ms\<lparr>ms_priv := ?bp\<rparr>))) = fst K"
          using tt_inv_origs [OF assms(1)] tt_inv_known [OF assms(1)] by (simp add: tt_global_upd_def batadv_tt_global_size_inc_def)
        show "entry_ok x \<and> origs x \<subseteq> snd K" if "Some (f g) = Some x" for x
          using that ok list [of g] assms(3,4) tt_inv_sub [OF assms(1)] False by (auto simp: entry_ok_def)
        have "counts k ?bp ((tcount k (tt_global_hash ms))(b := (tcount k (tt_global_hash ms) b)
            (v := tcount k (tt_global_hash ms) b v + 1)))"
          unfolding batadv_tt_global_size_inc_def by (rule counts_mod [OF tt_inv_counts [OF assms(1)] assms(2)])
        then show "counts k (ms_priv (tt_global_upd k a v f (ms\<lparr>ms_priv := ?bp\<rparr>)))
          (\<lambda>c w. if w = v then tcount k (tt_global_hash ms) c v + ind (announces (Some (f g)) c)
           - ind (announces (tmap k (tt_global_hash ms) (a, v)) c) else tcount k (tt_global_hash ms) c w)"
          using False by (auto simp: tt_global_upd_def Some list elim!: counts_cong)
      qed
    next
      case no: False
      then show ?thesis using assms(1)
        by (simp add: batadv_tt_global_orig_entry_add_def global_find Some none)
    qed
  qed
qed

lemma inv_free:
  assumes "tt_global_inv k K ms" and "vlan_allocs k"
  shows "tt_global_inv k K (batadv_tt_global_free k a v ms)"
proof -
  obtain h where h: "tt_global_hash ms = Some h" using tt_inv_table [OF assms(1)] by (auto simp: table_ok_def)
  then have "table_ok k (Some h)" using tt_inv_table [OF assms(1)] by simp
  from tmap_remove [OF this, of a v] obtain h' where
    h': "batadv_hash_remove h batadv_compare_tt (batadv_choose_tt (jhash k)) (a, v) = (tmap k (Some h) (a, v), h')"
    "table_ok k (Some h')" "tmap k (Some h') = (tmap k (Some h))((a, v) := None)" by blast
  show ?thesis
  proof (cases "tmap k (Some h) (a, v)")
    case None
    then show ?thesis using h h' assms(1) by (simp add: batadv_tt_global_free_def)
  next
    case (Some g)
    then have g: "tmap k (tt_global_hash ms) (a, v) = Some g" by (simp add: h)
    note ok = tt_inv_entry [OF assms(1) g]
    then have vid: "tc_vid g = v" and d: "distinct (map oe_orig_node (tg_orig_list g))"
      by (simp_all add: tt_key_def entry_ok_def)
    have eq: "batadv_tt_global_free k a v ms =
        ms\<lparr>tt_global_hash := Some h', ms_priv := tt_global_release k g (ms_priv ms)\<rparr>"
      by (simp add: batadv_tt_global_free_def h h' Some)
    show ?thesis
      unfolding eq
    proof (rule tt_inv_upd [OF assms(1), where c = a and v = v and x = None])
      show "known k (ms_priv (ms\<lparr>tt_global_hash := Some h', ms_priv := tt_global_release k g (ms_priv ms)\<rparr>)) = fst K"
        using tt_inv_known [OF assms(1)] by (simp add: tt_global_release_def dec_list_table [OF tt_inv_origs [OF assms(1)]])
      show "counts k (ms_priv (ms\<lparr>tt_global_hash := Some h', ms_priv := tt_global_release k g (ms_priv ms)\<rparr>))
         (\<lambda>b w. if w = v then tcount k (tt_global_hash ms) b v + ind (announces None b)
           - ind (announces (tmap k (tt_global_hash ms) (a, v)) b) else tcount k (tt_global_hash ms) b w)"
        using counts_dec_list [OF tt_inv_counts [OF assms(1)] assms(2) d, of v]
        by (auto simp: tt_global_release_def vid g elim!: counts_cong)
    qed (use h h' in simp_all)
  qed
qed

subsection \<open>Walks over the table\<close>

lemma counts_dec_pairs:
  assumes "counts k bp C" and "vlan_allocs k"
  shows "counts k (foldl (\<lambda>bp (a, v). batadv_tt_global_size_dec k a v bp) bp l)
     (\<lambda>a v. C a v - of_nat (count_list l (a, v)))"
  using assms
proof (induction l arbitrary: bp C)
  case (Cons x l)
  obtain a v where x: "x = (a, v)" by (cases x)
  have "counts k (batadv_tt_global_size_dec k a v bp) (C(a := (C a)(v := C a v + - 1)))"
    unfolding batadv_tt_global_size_dec_def by (rule counts_mod [OF Cons.prems(1,2)])
  from Cons.IH [OF this Cons.prems(2)] show ?case
    by (auto simp: x elim!: counts_cong)
qed simp

lemma dec_pairs_table:
  assumes "orig_table_ok k bp"
  shows "orig_table_ok k (foldl (\<lambda>bp (a, v). batadv_tt_global_size_dec k a v bp) bp l)
    \<and> known k (foldl (\<lambda>bp (a, v). batadv_tt_global_size_dec k a v bp) bp l) = known k bp"
  using assms
proof (induction l arbitrary: bp)
  case (Cons x l)
  then show ?case by (cases x) (simp add: batadv_tt_global_size_dec_def orig_upd_find)
qed simp

definition removals :: "(batadv_tt_global_entry \<Rightarrow> mac list) \<Rightarrow> batadv_tt_global_entry list \<Rightarrow> (mac \<times> u16) list" where
  "removals D es = concat (map (\<lambda>g. map (\<lambda>a. (a, tc_vid g)) (D g)) es)"

lemma count_list_pairs: "distinct l \<Longrightarrow> count_list (map (\<lambda>a. (a, v)) l) (b, w) = (if w = v \<and> b \<in> set l then 1 else 0)"
  by (induction l) auto

lemma count_removals:
  assumes "distinct (map tt_key es)" and "\<And>g. g \<in> set es \<Longrightarrow> distinct (D g)"
  shows "count_list (removals D es) (a, v) = card {c. \<exists>g \<in> set es. tt_key g = (c, v) \<and> a \<in> set (D g)}"
  using assms
proof (induction es)
  case (Cons g es)
  let ?S = "\<lambda>es. {c. \<exists>g \<in> set es. tt_key g = (c, v) \<and> a \<in> set (D g)}"
  have fin: "finite (?S es)"
    by (rule finite_subset [of _ "(\<lambda>g. tc_addr g) ` set es"]) (auto simp: tt_key_def)
  have notin: "tc_addr g \<notin> ?S es" if "tc_vid g = v"
    using Cons.prems(1) that by (auto simp: tt_key_def image_iff)
  have "?S (g # es) = (if tc_vid g = v \<and> a \<in> set (D g) then insert (tc_addr g) (?S es) else ?S es)"
    by (auto simp: tt_key_def)
  then show ?case
    using Cons notin fin by (auto simp: removals_def count_list_pairs)
qed (simp add: removals_def)

lemma entries_tmap:
  assumes "table_ok k (Some h)"
  shows "g \<in> set (concat (table h)) \<longleftrightarrow> tmap k (Some h) (tt_key g) = Some g"
    and "distinct (map tt_key (concat (table h)))"
  using assms tt_hash.entries_find [of "jhash k" h g] tt_hash.entries_distinct [of "jhash k" h]
  by (simp_all add: table_ok_def tmap_Some tt_hash.entries_def)

lemma inv_walk:
  assumes inv: "tt_global_inv k K ms" and alloc: "vlan_allocs k" and h: "tt_global_hash ms = Some h"
    and ms': "tt_global_hash ms' = Some (h\<lparr>table := map (List.map_filter F) (table h)\<rparr>)"
      "ms_priv ms' = foldl (\<lambda>bp (a, v). batadv_tt_global_size_dec k a v bp) (ms_priv ms) (removals D (concat (table h)))"
    and F: "\<And>g. entry_ok g \<Longrightarrow> distinct (D g) \<and> (case F g of None \<Rightarrow> set (D g) = origs g
        | Some g' \<Rightarrow> tt_key g' = tt_key g \<and> entry_ok g' \<and> origs g' = origs g - set (D g) \<and> set (D g) \<subseteq> origs g)"
    and key: "\<And>g g'. F g = Some g' \<Longrightarrow> tt_key g' = tt_key g"
  shows "tt_global_inv k K ms'"
proof -
  let ?es = "concat (table h)"
  have tab: "table_ok k (Some h)" using tt_inv_table [OF inv] h by simp
  let ?h = "h\<lparr>table := map (List.map_filter F) (table h)\<rparr>"
  have w: "table_ok k (Some ?h)" "tmap k (Some ?h) = (\<lambda>key. Option.bind (tmap k (Some h) key) F)"
    by (rule tmap_walk [OF tab key], assumption)+
  have ok: "entry_ok g" if "g \<in> set ?es" for g
    using that entries_tmap(1) [OF tab, of g] tt_inv_entry [OF inv, of "tt_key g" g] h by simp
  have kn: "known k (ms_priv ms') = fst K"
    unfolding ms'(2) using dec_pairs_table [OF tt_inv_origs [OF inv]] tt_inv_known [OF inv] by blast
  have "tcount k (tt_global_hash ms) a v - of_nat (count_list (removals D ?es) (a, v)) =
      tcount k (tt_global_hash ms') a v" for a v
  proof -
    let ?R = "{c. \<exists>g \<in> set ?es. tt_key g = (c, v) \<and> a \<in> set (D g)}"
    let ?S = "\<lambda>hash. {c. announces (tmap k hash (c, v)) a}"
    have R: "c \<in> ?R \<longleftrightarrow> (\<exists>g. tmap k (Some h) (c, v) = Some g \<and> a \<in> set (D g))" for c
    proof -
      have "(\<exists>g \<in> set es. tt_key g = (c, v) \<and> a \<in> set (D g)) \<longleftrightarrow> (\<exists>g. m (c, v) = Some g \<and> a \<in> set (D g))"
        if "\<And>g. g \<in> set es \<longleftrightarrow> m (tt_key g) = Some g" "\<And>g. m (c, v) = Some g \<Longrightarrow> tt_key g = (c, v)" for es m
        using that by metis
      from this [OF entries_tmap(1) [OF tab] tmap_key] show ?thesis by simp
    qed
    have fin: "finite (?S (Some h))" by (rule finite_announced [OF tab])
    have split: "c \<in> ?S (Some h) \<longleftrightarrow> c \<in> ?R \<or> c \<in> ?S (tt_global_hash ms')"
      and apart: "\<not> (c \<in> ?R \<and> c \<in> ?S (tt_global_hash ms'))" for c
    proof -
      have "(c \<in> ?S (Some h) \<longleftrightarrow> c \<in> ?R \<or> c \<in> ?S (tt_global_hash ms')) \<and> \<not> (c \<in> ?R \<and> c \<in> ?S (tt_global_hash ms'))"
      proof (cases "tmap k (Some h) (c, v)")
        case None
        then show ?thesis unfolding R ms'(1) mem_Collect_eq w(2) by simp
      next
        case (Some g)
        then have "entry_ok g" using tt_inv_entry [OF inv, of "(c, v)" g] h by simp
        from F [OF this] show ?thesis
          unfolding R ms'(1) mem_Collect_eq w(2) Some by (cases "F g") auto
      qed
      then show "c \<in> ?S (Some h) \<longleftrightarrow> c \<in> ?R \<or> c \<in> ?S (tt_global_hash ms')"
        "\<not> (c \<in> ?R \<and> c \<in> ?S (tt_global_hash ms'))" by blast+
    qed
    have un: "?S (Some h) = ?R \<union> ?S (tt_global_hash ms')" using split by blast
    have finR: "finite ?R" "finite (?S (tt_global_hash ms'))" using fin un by simp_all
    have "card (?S (Some h)) = card ?R + card (?S (tt_global_hash ms'))"
      unfolding un by (rule card_Un_disjoint [OF finR]) (use apart in blast)
    moreover have "count_list (removals D ?es) (a, v) = card ?R"
      by (rule count_removals [OF entries_tmap(2) [OF tab]]) (use F ok in blast)
    ultimately show ?thesis by (simp add: tcount_def h)
  qed
  then have "counts k (ms_priv ms') (tcount k (tt_global_hash ms'))"
    unfolding ms'(2) by (intro counts_cong [OF counts_dec_pairs [OF tt_inv_counts [OF inv] alloc]])
  moreover have "entry_ok g \<and> origs g \<subseteq> snd K" if g: "tmap k (tt_global_hash ms') key = Some g" for key g
  proof -
    obtain z where z: "tmap k (Some h) key = Some z" "F z = Some g"
      using g unfolding ms'(1) w(2) by (auto simp: bind_eq_Some_conv)
    then show ?thesis
      using F [of z] tt_inv_entry [OF inv, of key z] kn by (auto simp: h)
  qed
  ultimately show ?thesis using w(1) kn tt_inv_sub [OF inv] by (simp add: tt_global_inv_def ms'(1))
qed

lemma inv_unlink:
  assumes "tt_global_inv k K ms" and "vlan_allocs k" and "tt_global_hash ms = Some h"
  shows "tt_global_inv k K (tt_global_unlink k P h ms)"
proof -
  let ?F = "\<lambda>g. if P g then None else Some g"
  let ?D = "\<lambda>g. if P g then map oe_orig_node (tg_orig_list g) else []"
  have release: "foldl (\<lambda>bp g. tt_global_release k g bp) bp (filter P es) =
      foldl (\<lambda>bp (a, v). batadv_tt_global_size_dec k a v bp) bp (removals ?D es)" for bp es
    by (induction es arbitrary: bp) (simp_all add: removals_def tt_global_release_def foldl_map)
  have tab: "filter (\<lambda>g. \<not> P g) b = List.map_filter ?F b" for b
    by (induction b) (simp_all add: map_filter_simps)
  show ?thesis
    by (rule inv_walk [OF assms, where F = ?F and D = ?D])
      (auto simp: tt_global_unlink_def release tab entry_ok_def split: if_splits)
qed

lemma inv_purge:
  "tt_global_inv k K ms \<Longrightarrow> vlan_allocs k \<Longrightarrow> tt_global_inv k K (batadv_tt_global_purge k ms)"
  by (cases "tt_global_hash ms") (simp_all add: batadv_tt_global_purge_def inv_unlink)

lemma del_orig_bucket_eq:
  fixes orig mv
  defines "skip \<equiv> \<lambda>g :: batadv_tt_global_entry. mv \<ge> 0 \<and> uint (tc_vid g) \<noteq> mv"
  defines "keep \<equiv> \<lambda>g :: batadv_tt_global_entry. filter (\<lambda>oe. oe_orig_node oe \<noteq> orig) (tg_orig_list g)"
  assumes "\<And>g. g \<in> set head \<Longrightarrow> entry_ok g"
  shows "del_orig_bucket k orig mv head bp =
    (List.map_filter (\<lambda>g. if skip g then Some g else if keep g = [] then None
        else Some (g\<lparr>tg_orig_list := keep g, tg_orig_list_count := int (length (keep g))\<rparr>)) head,
     foldl (\<lambda>bp (a, v). batadv_tt_global_size_dec k a v bp) bp (removals
       (\<lambda>g. if skip g then [] else map oe_orig_node (filter (\<lambda>oe. oe_orig_node oe = orig) (tg_orig_list g))) head))"
  using assms(3)
proof (induction head arbitrary: bp)
  case (Cons g head)
  have ok: "entry_ok g" using Cons.prems by simp
  have rest: "\<And>x. x \<in> set head \<Longrightarrow> entry_ok x" using Cons.prems by simp
  show ?case
  proof (cases "skip g")
    case True
    then show ?thesis using Cons.IH [OF rest, of bp] by (simp add: skip_def map_filter_simps removals_def)
  next
    case False
    then have go: "\<not> (mv \<ge> 0 \<and> uint (tc_vid g) \<noteq> mv)" by (simp add: skip_def)
    have empty: "tt_global_release k x bp = bp" if "tg_orig_list x = []" for x bp
      using that by (simp add: tt_global_release_def)
    show ?thesis
      using False go Cons.IH [OF rest]
      by (auto simp: del_orig_entries [OF ok] empty map_filter_simps removals_def keep_def foldl_map)
  qed
qed (simp add: removals_def map_filter_simps)

lemma del_orig_table_eq:
  fixes orig mv
  defines "skip \<equiv> \<lambda>g :: batadv_tt_global_entry. mv \<ge> 0 \<and> uint (tc_vid g) \<noteq> mv"
  defines "keep \<equiv> \<lambda>g :: batadv_tt_global_entry. filter (\<lambda>oe. oe_orig_node oe \<noteq> orig) (tg_orig_list g)"
  assumes "\<And>g. g \<in> set (concat tab) \<Longrightarrow> entry_ok g"
  shows "del_orig_table k orig mv tab bp =
    (map (List.map_filter (\<lambda>g. if skip g then Some g else if keep g = [] then None
        else Some (g\<lparr>tg_orig_list := keep g, tg_orig_list_count := int (length (keep g))\<rparr>))) tab,
     foldl (\<lambda>bp (a, v). batadv_tt_global_size_dec k a v bp) bp (removals
       (\<lambda>g. if skip g then [] else map oe_orig_node (filter (\<lambda>oe. oe_orig_node oe = orig) (tg_orig_list g))) (concat tab)))"
  using assms(3)
proof (induction tab arbitrary: bp)
  case (Cons head tab)
  have "\<And>g. g \<in> set head \<Longrightarrow> entry_ok g" "\<And>g. g \<in> set (concat tab) \<Longrightarrow> entry_ok g" using Cons.prems by auto
  then show ?case
    using Cons.IH unfolding skip_def keep_def by (simp add: del_orig_bucket_eq removals_def)
qed (simp add: removals_def)

lemma inv_orig_upd:
  assumes "tt_global_inv k K ms" and "tt_global_hash ms' = tt_global_hash ms"
    and "ms_priv ms' = orig_upd k a f (ms_priv ms)"
    and "\<And>on. on_orig (f on) = on_orig on" and "\<And>on. vlans_wf on \<Longrightarrow> vlans_wf (f on)"
    and "\<And>on v. ov_count (f on) v = ov_count on v"
  shows "tt_global_inv k K ms'"
proof -
  note tab = tt_inv_origs [OF assms(1)]
  have "counts k (orig_upd k a f (ms_priv ms)) (tcount k (tt_global_hash ms))"
    using tt_inv_counts [OF assms(1)] orig_upd_find [OF tab, of f a] assms(4-6)
    by (auto simp: counts_def split: if_splits)
  then show ?thesis using assms(1) tab assms(4) by (simp add: tt_global_inv_def assms(2,3))
qed

lemma inv_orig_upd_field:
  assumes "tt_global_inv k K ms" and "tt_global_hash ms' = tt_global_hash ms"
    and "ms_priv ms' = orig_upd k a f (ms_priv ms)"
    and "\<And>on. on_orig (f on) = on_orig on" and "\<And>on. on_vlan_list (f on) = on_vlan_list on"
  shows "tt_global_inv k K ms'"
  by (rule inv_orig_upd [OF assms(1-4)])
    (simp_all add: assms(5) vlans_wf_def ov_count_def batadv_orig_node_vlan_get_def)

lemma inv_del_orig:
  assumes "tt_global_inv k K ms" and "vlan_allocs k"
  shows "tt_global_inv k K (batadv_tt_global_del_orig k orig mv ms)"
proof -
  obtain h where h: "tt_global_hash ms = Some h" using tt_inv_table [OF assms(1)] by (auto simp: table_ok_def)
  then have tab: "table_ok k (Some h)" using tt_inv_table [OF assms(1)] by simp
  define skip where "skip = (\<lambda>g :: batadv_tt_global_entry. mv \<ge> 0 \<and> uint (tc_vid g) \<noteq> mv)"
  define keep where "keep = (\<lambda>g :: batadv_tt_global_entry. filter (\<lambda>oe. oe_orig_node oe \<noteq> orig) (tg_orig_list g))"
  define F where "F = (\<lambda>g. if skip g then Some g else if keep g = [] then None
        else Some (g\<lparr>tg_orig_list := keep g, tg_orig_list_count := int (length (keep g))\<rparr>))"
  define D where "D = (\<lambda>g. if skip g then [] else map oe_orig_node (filter (\<lambda>oe. oe_orig_node oe = orig) (tg_orig_list g)))"
  define bp where "bp = foldl (\<lambda>bp (a, v). batadv_tt_global_size_dec k a v bp) (ms_priv ms) (removals D (concat (table h)))"
  define ms1 where "ms1 = ms\<lparr>tt_global_hash := Some (h\<lparr>table := map (List.map_filter F) (table h)\<rparr>), ms_priv := bp\<rparr>"
  have ok: "entry_ok g" if "g \<in> set (concat (table h))" for g
    using that entries_tmap(1) [OF tab, of g] tt_inv_entry [OF assms(1), of "tt_key g" g] h by simp
  have "distinct (map oe_orig_node (filter Q l))" if "distinct (map oe_orig_node l)" for Q l
    using that by (auto simp: distinct_map inj_on_def)
  then have F: "distinct (D g) \<and> (case F g of None \<Rightarrow> set (D g) = origs g
      | Some g' \<Rightarrow> tt_key g' = tt_key g \<and> entry_ok g' \<and> origs g' = origs g - set (D g) \<and> set (D g) \<subseteq> origs g)"
    if "entry_ok g" for g
    using that by (auto simp: F_def D_def keep_def entry_ok_def tt_key_def filter_empty_conv image_iff)
  have key: "tt_key g' = tt_key g" if "F g = Some g'" for g g'
    using that by (auto simp: F_def tt_key_def split: if_splits)
  have inv: "tt_global_inv k K ms1"
    by (rule inv_walk [OF assms h, where F = F and D = D]) (use F key in \<open>simp_all add: ms1_def bp_def\<close>)
  have tabeq: "del_orig_table k orig mv (table h) (ms_priv ms) = (map (List.map_filter F) (table h), bp)"
    unfolding bp_def F_def D_def skip_def keep_def by (rule del_orig_table_eq) (rule ok)
  show ?thesis
    by (rule inv_orig_upd_field [OF inv, of _ orig "\<lambda>on. on\<lparr>on_capa_initialized :=
        unset_bit BATADV_ORIG_CAPA_HAS_TT (on_capa_initialized on)\<rparr>"])
      (simp_all add: batadv_tt_global_del_orig_def h tabeq ms1_def)
qed

subsection \<open>What leaves the global table and the originators alone\<close>

definition globals :: "mesh \<Rightarrow> batadv_tt_global_entry batadv_hashtable option \<times> batadv_orig_node batadv_hashtable option" where
  "globals ms = (tt_global_hash ms, bp_orig_hash (ms_priv ms))"

lemma inv_globals:
  assumes "tt_global_inv k K ms" and "globals ms' = globals ms" shows "tt_global_inv k K ms'"
proof -
  have same: "tt_global_hash ms' = tt_global_hash ms" "bp_orig_hash (ms_priv ms') = bp_orig_hash (ms_priv ms)"
    using assms(2) by (simp_all add: globals_def)
  have find: "batadv_orig_hash_find k (ms_priv ms') = batadv_orig_hash_find k (ms_priv ms)"
    by (simp add: fun_eq_iff batadv_orig_hash_find_def same)
  show ?thesis using assms(1) by (simp add: tt_global_inv_def counts_def known_def orig_table_ok_def find same)
qed

lemma globals_local [simp]:
  "globals (tt_local_upd k a v f ms) = globals ms"
  "globals (ms\<lparr>tt_local_hash := lh\<rparr>) = globals ms"
  "globals (ms\<lparr>tt_vn := vn\<rparr>) = globals ms"
  "globals (ms\<lparr>tt_ogm_append_cnt := c\<rparr>) = globals ms"
  "globals (ms\<lparr>tt_req_list := rl\<rparr>) = globals ms"
  "globals (ms\<lparr>tt_roam_list := ml\<rparr>) = globals ms"
  "globals (ms\<lparr>ms_vlan_list := vl\<rparr>) = globals ms"
  "globals (ms\<lparr>tt_last_changeset := cs\<rparr>) = globals ms"
  "globals (tt_call x ms) = globals ms"
  "globals (ms_inc_counter i ms) = globals ms"
  "globals (ms_container_register k b l ms) = globals ms"
  "globals (ms_unicast_send s d b l ms) = globals ms"
  by (simp_all add: globals_def tt_local_upd_def tt_call_def ms_inc_counter_def batadv_add_counter_def
      ms_container_register_def ms_unicast_send_def)

lemma globals_ms [simp]: "tt_global_hash (tt_call x ms) = tt_global_hash ms" by (simp add: tt_call_def)

lemma globals_event [simp]: "globals (batadv_tt_local_event k e f ms) = globals ms"
  by (auto simp: batadv_tt_local_event_def Let_def globals_def split: option.splits)

lemma globals_set_pending [simp]: "globals (batadv_tt_local_set_pending k e f ms) = globals ms"
  by (simp add: batadv_tt_local_set_pending_def)

lemma globals_remove [simp]: "globals (snd (batadv_tt_local_remove k a v r ms)) = globals ms"
  by (auto simp: batadv_tt_local_remove_def Let_def split: option.splits)

lemma globals_new: "tt_local_new k a v h ms = Some ms' \<Longrightarrow> globals ms' = globals ms"
  by (auto simp: tt_local_new_def Let_def split: option.splits if_splits prod.splits)

lemma globals_seen [simp]: "globals (snd (tt_local_seen k e ms)) = globals ms"
  by (simp add: tt_local_seen_def Let_def)

lemma globals_refresh [simp]: "globals (tt_local_refresh k a v h m ms) = globals ms"
  by (auto simp: tt_local_refresh_def Let_def split: option.splits)

lemma globals_size_mod [simp]: "globals (batadv_tt_local_size_mod v d ms) = globals ms"
  by (auto simp: batadv_tt_local_size_mod_def split: option.splits)

lemma globals_foldl:
  "(\<And>ms x. globals (f ms x) = globals ms) \<Longrightarrow> globals (foldl f ms xs) = globals ms"
  by (induction xs arbitrary: ms) auto

lemma globals_purge_list [simp]: "globals (batadv_tt_local_purge_list k t head ms) = globals ms"
  unfolding batadv_tt_local_purge_list_def by (rule globals_foldl) simp

lemma globals_purge [simp]: "globals (batadv_tt_local_purge k t ms) = globals ms"
  by (auto simp: batadv_tt_local_purge_def intro!: globals_foldl split: option.splits)

lemma globals_purge_pending [simp]: "globals (batadv_tt_local_purge_pending_clients ms) = globals ms"
  by (auto simp: batadv_tt_local_purge_pending_clients_def batadv_tt_local_size_dec_def Let_def globals_foldl
      split: option.splits)

lemma globals_set_flags [simp]: "globals (batadv_tt_local_set_flags fl e c ms) = globals ms"
  by (auto simp: batadv_tt_local_set_flags_def batadv_tt_local_size_inc_def Let_def globals_foldl
      split: option.splits)

lemma globals_update_crc [simp]: "globals (batadv_tt_local_update_crc k ms) = globals ms"
  by (simp add: batadv_tt_local_update_crc_def)

lemma kbind_KretE: "kbind r f = Kret y \<Longrightarrow> (\<And>x. r = Kret x \<Longrightarrow> f x = Kret y \<Longrightarrow> P) \<Longrightarrow> P"
  by (cases r) auto

lemma globals_container_update:
  "batadv_tt_tvlv_container_update k ms = Kret ms' \<Longrightarrow> globals ms' = globals ms"
  by (auto simp: batadv_tt_tvlv_container_update_def Let_def elim!: kbind_KretE
      split: option.splits if_splits prod.splits; auto simp: globals_def ms_container_register_def)

lemma globals_commit: "tt_local_commit_changes_nolock k ms = Kret ms' \<Longrightarrow> globals ms' = globals ms"
  by (auto simp: tt_local_commit_changes_nolock_def Let_def dest!: globals_container_update split: if_splits)

lemma globals_resize_loop: "globals (snd (resize_loop k t r ms)) = globals ms"
  by (induction k t r ms rule: resize_loop.induct) (subst resize_loop.simps, auto)

lemma globals_resize: "batadv_tt_local_resize_to_mtu k ms = Kret ms' \<Longrightarrow> globals ms' = globals ms"
  using globals_resize_loop [of k "BATADV_TT_LOCAL_TIMEOUT div 2" False ms]
  by (auto simp: batadv_tt_local_resize_to_mtu_def dest!: globals_commit split: prod.splits if_splits)

lemma globals_send_roam [simp]: "globals (batadv_send_roam_adv k c v o1 ms) = globals ms"
  by (auto simp: batadv_send_roam_adv_def batadv_tt_check_roam_count_def
      split: option.splits prod.splits if_splits bool.splits)

lemma globals_send_request:
  "batadv_send_tt_request k o1 n d nv f ms = Kret (r, ms') \<Longrightarrow> globals ms' = globals ms"
  by (auto simp: batadv_send_tt_request_def batadv_tt_req_node_new_def Let_def elim!: kbind_KretE
      split: option.splits prod.splits if_splits)

lemma globals_other_response:
  "batadv_send_other_tt_response k d src dst ms = Kret (r, ms') \<Longrightarrow> globals ms' = globals ms"
  by (auto simp: batadv_send_other_tt_response_def Let_def elim!: kbind_KretE
      split: option.splits prod.splits if_splits)

lemma globals_my_response:
  "batadv_send_my_tt_response k d src ms = Kret (r, ms') \<Longrightarrow> globals ms' = globals ms"
  by (auto simp: batadv_send_my_tt_response_def Let_def elim!: kbind_KretE
      split: option.splits prod.splits if_splits)

lemma globals_response:
  "batadv_send_tt_response k d src dst ms = Kret (r, ms') \<Longrightarrow> globals ms' = globals ms"
  by (auto simp: batadv_send_tt_response_def dest: globals_my_response globals_other_response split: if_splits)

subsection \<open>Adding and removing clients\<close>

lemma inv_del_list: "tt_global_inv k K ms \<Longrightarrow> vlan_allocs k \<Longrightarrow> tt_global_inv k K (batadv_tt_global_del_orig_list k a v ms)"
  unfolding batadv_tt_global_del_orig_list_def by (rule inv_del_entries)

lemma inv_del_node: "tt_global_inv k K ms \<Longrightarrow> vlan_allocs k \<Longrightarrow> tt_global_inv k K (batadv_tt_global_del_orig_node k a v b ms)"
  unfolding batadv_tt_global_del_orig_node_def by (rule inv_del_entries)

lemma inv_flags_upd:
  assumes "tt_global_inv k K ms"
    and "\<And>g. tt_key (f g) = tt_key g" "\<And>g. tg_orig_list (f g) = tg_orig_list g"
      "\<And>g. tg_orig_list_count (f g) = tg_orig_list_count g"
  shows "tt_global_inv k K (tt_global_upd k a v f ms)"
proof (rule inv_global_upd [OF assms(1) _ assms(2)])
  fix g assume g: "tmap k (tt_global_hash ms) (a, v) = Some g"
  have "entry_ok g" using tt_inv_entry [OF assms(1) g] by simp
  then show "entry_ok (f g) \<and> origs (f g) = origs g" by (simp add: entry_ok_def assms(3,4))
qed

lemma inv_renew:
  assumes "tt_global_inv k K ms" and "vlan_allocs k"
  shows "tt_global_inv k K (tt_global_renew k g flags ms)"
  using assms unfolding tt_global_renew_def Let_def
  by (auto intro!: inv_set_flags inv_del_list inv_flags_upd simp: tt_key_def split: option.splits)

lemma inv_out_remove:
  assumes "tt_global_inv k K ms"
  shows "tt_global_inv k K (tt_global_out_remove k a v flags ms)"
proof -
  obtain fl ms1 where r: "batadv_tt_local_remove k a v (has_flag flags BATADV_TT_CLIENT_ROAM) ms = (fl, ms1)"
    by (cases "batadv_tt_local_remove k a v (has_flag flags BATADV_TT_CLIENT_ROAM) ms")
  then have "globals ms1 = globals ms" using globals_remove by (metis snd_conv)
  then have "tt_global_inv k K ms1" by (rule inv_globals [OF assms])
  then show ?thesis
    using assms by (auto simp: tt_global_out_remove_def r Let_def intro!: inv_set_flags)
qed

lemma sync_flags_low: "(ucast (f AND BATADV_TT_SYNC_MASK :: u16) :: u8) AND 0x0F = 0"
proof (rule bit_word_eqI)
  fix n assume "n < LENGTH(8)"
  have "\<not> (bit (0x00F0 :: u16) n \<and> bit (0x0F :: u8) n)"
    using \<open>n < LENGTH(8)\<close> by (auto simp: bit_numeral_rec less_Suc_eq numeral_eq_Suc)
  then show "bit ((ucast (f AND BATADV_TT_SYNC_MASK) :: u8) AND 0x0F) n = bit (0 :: u8) n"
    by (auto simp: BATADV_TT_SYNC_MASK_def bit_simps)
qed

lemma inv_global_add:
  assumes "tt_global_inv k K ms" and "vlan_allocs k" and "b \<in> fst K"
  shows "tt_global_inv k K (snd (batadv_tt_global_add k b a v flags n ms))"
proof -
  have new: "tt_global_inv k K ms'" if "tt_global_new k a v flags ms = (r, ms')" "tmap k (tt_global_hash ms) (a, v) = None" for r ms'
    using inv_new [OF assms(1) that(2), of flags] that(1) by simp
  show ?thesis
    using assms(1) inv_del_list [OF assms(1,2), of a v] inv_renew [OF assms(1,2)]
    by (auto simp: batadv_tt_global_add_def Let_def global_find dest: new
        intro!: inv_out_remove inv_orig_entry_add [OF _ assms(2,3) sync_flags_low]
        split: option.splits prod.splits bool.splits)
qed

lemma inv_del_roaming:
  assumes "tt_global_inv k K ms" and "vlan_allocs k"
  shows "tt_global_inv k K (batadv_tt_global_del_roaming k a v b ms)"
  using assms unfolding batadv_tt_global_del_roaming_def Let_def
  by (auto intro!: inv_del_node inv_flags_upd simp: tt_key_def split: option.splits)

lemma inv_global_del:
  assumes "tt_global_inv k K ms" and "vlan_allocs k"
  shows "tt_global_inv k K (batadv_tt_global_del k b a v r ms)"
  using assms unfolding batadv_tt_global_del_def Let_def
  by (auto intro!: inv_del_node inv_del_list inv_free inv_del_roaming split: option.splits)

lemma inv_check_roaming:
  assumes "tt_global_inv k K ms" and "vlan_allocs k"
  shows "tt_global_inv k K (tt_check_roaming k g r ms)"
proof -
  have sent: "tt_global_inv k K (foldl (\<lambda>ms oe. batadv_send_roam_adv k a v (oe_orig_node oe) ms) ms l)" for a v l
    by (rule inv_globals [OF assms(1)], rule globals_foldl) simp
  show ?thesis
    using assms sent unfolding tt_check_roaming_def Let_def
    by (auto intro!: inv_free inv_flags_upd simp: tt_key_def split: option.splits)
qed

lemma inv_local_add:
  assumes "tt_global_inv k K ms" and "vlan_allocs k"
  shows "tt_global_inv k K (snd (batadv_tt_local_add k a v h m ms))"
proof -
  have refresh: "tt_global_inv k K (tt_local_refresh k a v h m (tt_check_roaming k g r ms'))"
    if "globals ms' = globals ms" for g r ms'
    by (rule inv_globals [OF inv_check_roaming [OF inv_globals [OF assms(1) that] assms(2)]]) simp
  have seen: "globals ms' = globals ms" if "tt_local_seen k e ms = (r, ms')" for e r ms'
    using globals_seen [of k e ms] that by simp
  show ?thesis
    using assms(1) by (auto simp: batadv_tt_local_add_def Let_def intro!: refresh dest: globals_new seen
        split: option.splits prod.splits)
qed

subsection \<open>Applying changes and receiving\<close>

lemma inv_changes_loop:
  assumes "tt_global_inv k K ms" and "vlan_allocs k" and "b \<in> fst K"
    and "update_changes_loop k b n d off is ms = Kret (ok, ms')"
  shows "tt_global_inv k K ms'"
  using assms(1,4)
proof (induction "is" arbitrary: ms)
  case (Cons i "is")
  from Cons.prems(2) obtain c where c: "read_tt_change d off i = Kret c" by (auto elim!: kbind_KretE)
  show ?case
  proof (cases "has_flag (ucast (chg_flags c)) BATADV_TT_CLIENT_DEL")
    case True
    then show ?thesis using Cons.IH [OF inv_global_del [OF Cons.prems(1) assms(2)]] Cons.prems(2) c by simp
  next
    case False
    obtain r ms1 where r: "batadv_tt_global_add k b (chg_addr c) (chg_vid c) (ucast (chg_flags c)) n ms = (r, ms1)"
      by (cases "batadv_tt_global_add k b (chg_addr c) (chg_vid c) (ucast (chg_flags c)) n ms")
    then have "tt_global_inv k K ms1"
      using inv_global_add [OF Cons.prems(1) assms(2,3)] by (metis snd_conv)
    then show ?thesis using Cons.IH [of ms1] Cons.prems(2) c False r by (cases r) simp_all
  qed
qed simp

lemma inv_field:
  assumes "tt_global_inv k K ms" and "\<And>on. on_orig (f on) = on_orig on" and "\<And>on. on_vlan_list (f on) = on_vlan_list on"
  shows "tt_global_inv k K (ms\<lparr>ms_priv := orig_upd k a f (ms_priv ms)\<rparr>)"
  by (rule inv_orig_upd_field [OF assms(1), where f = f and a = a]) (simp_all add: assms(2,3))

lemma inv_apply_changes:
  assumes "tt_global_inv k K ms" and "vlan_allocs k" and "b \<in> fst K"
    and "tt_apply_changes k b d off m n ms = Kret ms'"
  shows "tt_global_inv k K ms'"
proof -
  obtain ok ms1 where l: "update_changes_loop k b n d off [0..<unat m] ms = Kret (ok, ms1)"
    using assms(4) by (auto simp: tt_apply_changes_def elim!: kbind_KretE)
  note inv = inv_changes_loop [OF assms(1-3) l]
  show ?thesis
  proof (cases ok)
    case True
    then have "ms' = ms1\<lparr>ms_priv := orig_upd k b (\<lambda>on. on\<lparr>on_capa_initialized :=
        set_bit BATADV_ORIG_CAPA_HAS_TT (on_capa_initialized on)\<rparr>) (ms_priv ms1)\<rparr>"
      using assms(4) l by (simp add: tt_apply_changes_def)
    then show ?thesis using inv by (simp add: inv_field)
  next
    case False
    then show ?thesis using assms(4) l inv by (simp add: tt_apply_changes_def)
  qed
qed

lemma inv_set_ttvn: "tt_global_inv k K ms \<Longrightarrow> tt_global_inv k K (tt_set_ttvn k a n ms)"
  unfolding tt_set_ttvn_def by (rule inv_field) simp_all

lemma inv_save_buffer: "tt_global_inv k K ms \<Longrightarrow> tt_global_inv k K (batadv_tt_save_orig_buffer k a b ms)"
  unfolding batadv_tt_save_orig_buffer_def by (auto intro!: inv_field)

lemma inv_update_crc:
  assumes "tt_global_inv k K ms" shows "tt_global_inv k K (batadv_tt_global_update_crc k b ms)"
proof -
  let ?g = "\<lambda>vlan :: batadv_orig_node_vlan. if is_backbone_gw_orig k b (ov_vid vlan) then vlan
    else vlan\<lparr>ov_crc := batadv_tt_global_crc k ms b (ov_vid vlan)\<rparr>"
  have keys: "ov_vid (?g x) = ov_vid x" "ov_num_entries (?g x) = ov_num_entries x" for x by simp_all
  have "find (\<lambda>x. ov_vid x = v) (map ?g l) = map_option ?g (find (\<lambda>x. ov_vid x = v) l)" for v l
    by (induction l) simp_all
  then have c: "ov_count (on\<lparr>on_vlan_list := map ?g (on_vlan_list on)\<rparr>) v = ov_count on v" for on v
    by (cases "find (\<lambda>x. ov_vid x = v) (on_vlan_list on)") (simp_all add: ov_count_def vlan_get_find keys)
  have wf: "vlans_wf on \<Longrightarrow> vlans_wf (on\<lparr>on_vlan_list := map ?g (on_vlan_list on)\<rparr>)" for on
    using keys by (auto simp: vlans_wf_def comp_def)
  show ?thesis
    unfolding batadv_tt_global_update_crc_def
    by (rule inv_orig_upd [OF assms, where a = b and f = "\<lambda>on. on\<lparr>on_vlan_list := map ?g (on_vlan_list on)\<rparr>"])
      (use c wf in simp_all)
qed

lemma inv_fill_gtable:
  assumes "tt_global_inv k K ms" and "vlan_allocs k"
    and "batadv_tt_fill_gtable k d off n b m ms = Kret ms'"
  shows "tt_global_inv k K ms'"
proof (cases "batadv_orig_hash_find k (ms_priv ms) b")
  case None
  then show ?thesis using assms by (simp add: batadv_tt_fill_gtable_def)
next
  case (Some on)
  then have b: "b \<in> fst K" using tt_inv_known [OF assms(1)] by (auto simp: known_def)
  obtain ms1 where "tt_apply_changes k b d off m n (batadv_tt_global_del_orig k b (- 1) ms) = Kret ms1"
    and ms': "ms' = tt_set_ttvn k b n (ms1\<lparr>ms_priv := orig_upd k b (\<lambda>on. on\<lparr>on_tt_buff := []\<rparr>) (ms_priv ms1)\<rparr>)"
    using assms(3) Some by (auto simp: batadv_tt_fill_gtable_def elim!: kbind_KretE)
  from inv_apply_changes [OF inv_del_orig [OF assms(1,2)] assms(2) b this(1)]
  show ?thesis unfolding ms' by (intro inv_set_ttvn inv_field) simp_all
qed

lemma inv_update_changes:
  assumes "tt_global_inv k K ms" and "vlan_allocs k" and "b \<in> fst K"
    and "batadv_tt_update_changes k b m n d off ms = Kret ms'"
  shows "tt_global_inv k K ms'"
  using assms(4) inv_apply_changes [OF assms(1-3)]
  by (auto simp: batadv_tt_update_changes_def Let_def elim!: kbind_KretE split: if_splits
      intro!: inv_set_ttvn inv_save_buffer)

lemma inv_handle_response:
  assumes "tt_global_inv k K ms" and "vlan_allocs k"
    and "batadv_handle_tt_response k d b m ms = Kret ms'"
  shows "tt_global_inv k K ms'"
proof (cases "batadv_orig_hash_find k (ms_priv ms) b")
  case None
  then show ?thesis using assms by (simp add: batadv_handle_tt_response_def)
next
  case (Some on)
  then have b: "b \<in> fst K" using tt_inv_known [OF assms(1)] by (auto simp: known_def)
  have clear: "tt_global_inv k K (batadv_tt_global_update_crc k b ms1\<lparr>tt_req_list := rl\<rparr>)" if "tt_global_inv k K ms1" for ms1 rl
    by (rule inv_globals [OF inv_update_crc [OF that]]) simp
  show ?thesis
    using assms(3) inv_fill_gtable [OF assms(1,2)] inv_update_changes [OF assms(1,2) b]
    by (auto simp: batadv_handle_tt_response_def Some Let_def elim!: kbind_KretE split: if_splits intro!: clear)
qed

lemma inv_update_orig:
  assumes "tt_global_inv k K ms" and "vlan_allocs k"
    and "batadv_tt_update_orig k b d nv off m n ms = Kret ms'"
  shows "tt_global_inv k K ms'"
proof (cases "batadv_orig_hash_find k (ms_priv ms) b")
  case None
  then show ?thesis using assms by (simp add: batadv_tt_update_orig_def)
next
  case (Some on)
  then have b: "b \<in> fst K" using tt_inv_known [OF assms(1)] by (auto simp: known_def)
  have req: "tt_global_inv k K ms2" if "tt_global_inv k K ms1" "batadv_send_tt_request k b n d nv f ms1 = Kret (r, ms2)" for ms1 ms2 f r n
    by (rule inv_globals [OF that(1) globals_send_request [OF that(2)]])
  have chk: "tt_global_inv k K ms2" if "tt_global_inv k K ms1"
    and "(case batadv_orig_hash_find k (ms_priv ms1) b of None \<Rightarrow> Kret ms1
          | Some on \<Rightarrow> kbind (batadv_tt_global_check_crc k on d nv) (\<lambda>ok. if ok then Kret ms1
              else kbind (batadv_send_tt_request k b n d nv True ms1) (\<lambda>(_, ms). Kret ms))) = Kret ms2" for ms1 ms2 n
    using that by (auto elim!: kbind_KretE dest: req split: option.splits if_splits)
  have upd: "tt_global_inv k K (batadv_tt_global_update_crc k b ms1)"
    if "batadv_tt_update_changes k b m n d off ms = Kret ms1" for ms1 n
    by (rule inv_update_crc [OF inv_update_changes [OF assms(1,2) b that]])
  show ?thesis
    using assms(3) assms(1) unfolding batadv_tt_update_orig_def Let_def Some option.case
    by (auto elim!: kbind_KretE dest: req chk [OF upd] split: if_splits)
qed

section \<open>Originators come and go\<close>

lemma reroute_vlans [simp]:
  "on_vlan_list (fst (reroute_to_best cmp i s)) = on_vlan_list (fst s)"
  "on_orig (fst (reroute_to_best cmp i s)) = on_orig (fst s)"
  by (auto simp: reroute_to_best_def batadv_update_route_def set_route_def batadv_orig_ifinfo_new_def
      orig_ifinfo_upd_def Let_def split: prod.splits option.splits)

lemma reroutes_vlans:
  "on_vlan_list (fst (fold (reroute_to_best cmp) is s)) = on_vlan_list (fst s)
   \<and> on_orig (fst (fold (reroute_to_best cmp) is s)) = on_orig (fst s)"
  by (induction "is" arbitrary: s) simp_all

lemma purge_node_vlans:
  assumes "batadv_purge_orig_node k cmp bp on = (p, on', n)"
  shows "on_vlan_list on' = on_vlan_list on \<and> on_orig on' = on_orig on"
proof (cases "batadv_has_timed_out (kclock.truncate k) (on_last_seen on) (2 * BATADV_PURGE_TIMEOUT)")
  case True
  then show ?thesis using assms by (simp add: batadv_purge_orig_node_def)
next
  case False
  define o2 where "o2 = snd (batadv_purge_orig_neighbors k bp (snd (batadv_purge_orig_ifinfo bp on)))"
  have o2: "on_vlan_list o2 = on_vlan_list on" "on_orig o2 = on_orig on"
    by (simp_all add: o2_def batadv_purge_orig_neighbors_def batadv_purge_orig_ifinfo_def Let_def)
  have "on' = o2 \<or> on' = fst (fold (reroute_to_best cmp) (active_ifaces bp) (reroute_to_best cmp BATADV_IF_DEFAULT (o2, 0)))"
    using assms False by (auto simp: batadv_purge_orig_node_def o2_def Let_def split: prod.splits if_splits)
  then show ?thesis using o2
    reroutes_vlans [of cmp "active_ifaces bp" "reroute_to_best cmp BATADV_IF_DEFAULT (o2, 0)"] by auto
qed

definition purge_step ::
    "'k kclock_scheme \<Rightarrow> neigh_cmp \<Rightarrow> batadv_priv \<Rightarrow> batadv_orig_node \<Rightarrow> batadv_orig_node option" where
  "purge_step k cmp bp on = (case batadv_purge_orig_node k cmp bp on of (purge, o', _) \<Rightarrow>
     if purge then None
     else Some (o'\<lparr>on_fragments := batadv_frag_purge_orig (Some (batadv_frag_check_entry (kclock.truncate k)))
        (on_fragments o')\<rparr>))"

lemma purge_step_Some: "purge_step k cmp bp on = Some on' \<Longrightarrow> on_vlan_list on' = on_vlan_list on \<and> on_orig on' = on_orig on"
  using purge_node_vlans [of k cmp bp on] by (auto simp: purge_step_def split: prod.splits if_splits)

lemma purge_bucket_fst: "fst (purge_bucket k cmp bp b) = List.map_filter (purge_step k cmp bp) b"
  by (induction b) (auto simp: map_filter_simps purge_step_def split: prod.splits)

definition dropped :: "ext_call list \<Rightarrow> mac list" where
  "dropped = List.map_filter (\<lambda>c. case c of Tt_global_del_orig a \<Rightarrow> Some a | _ \<Rightarrow> None)"

lemma dropped_simps [simp]: "dropped [] = []"
  "dropped (c # cs) = (case c of Tt_global_del_orig a \<Rightarrow> a # dropped cs | _ \<Rightarrow> dropped cs)"
  by (simp_all add: dropped_def map_filter_simps split: ext_call.splits)

lemma dropped_append [simp]: "dropped (xs @ ys) = dropped xs @ dropped ys"
  by (simp add: dropped_def map_filter_def)

lemma purge_bucket_calls:
  "on \<in> set b \<Longrightarrow> purge_step k cmp bp on = None \<Longrightarrow> on_orig on \<in> set (dropped (snd (purge_bucket k cmp bp b)))"
  by (induction b) (auto simp: purge_step_def split: prod.splits if_splits)

lemma release_calls: "bp_calls (release_neighs bp) = bp_calls bp"
  by (simp add: release_neighs_def Let_def split: option.splits)

text \<open>
  The purge of originators with the translation table: every originator that goes away, or
  loses its last route, has its clients removed.
\<close>

definition tt_purge_originators :: "tt_kenv \<Rightarrow> neigh_cmp \<Rightarrow> mesh \<Rightarrow> mesh" where
  "tt_purge_originators k cmp ms =
     (let bp = batadv_purge_orig_ref k cmp (ms_priv ms);
          calls = drop (length (bp_calls (ms_priv ms))) (bp_calls bp) in
      foldl (\<lambda>ms a. batadv_tt_global_del_orig k a (- 1) ms) (ms\<lparr>ms_priv := bp\<rparr>) (dropped calls))"

lemma purge_ref_find:
  assumes "orig_table_ok k bp"
  shows "orig_table_ok k (batadv_purge_orig_ref k cmp bp)"
    and "batadv_orig_hash_find k (batadv_purge_orig_ref k cmp bp) a =
      map_option batadv_neigh_node_release (Option.bind (batadv_orig_hash_find k bp a) (purge_step k cmp bp))"
    and "batadv_orig_hash_find k bp a = Some on \<Longrightarrow> purge_step k cmp bp on = None \<Longrightarrow>
      a \<in> set (dropped (drop (length (bp_calls bp)) (bp_calls (batadv_purge_orig_ref k cmp bp))))"
proof -
  obtain h where h: "bp_orig_hash bp = Some h" "orig_hash.hash_ok (jhash k) h"
    using assms by (auto simp: orig_table_ok_def)
  let ?h = "h\<lparr>table := map (List.map_filter (purge_step k cmp bp)) (table h)\<rparr>"
  let ?calls = "concat (map (\<lambda>b. snd (purge_bucket k cmp bp b)) (table h))"
  let ?bp = "bp\<lparr>bp_orig_hash := Some ?h, bp_calls := bp_calls bp @ ?calls @ [Gw_election]\<rparr>"
  have eq: "batadv_purge_orig_ref k cmp bp = release_neighs ?bp"
    by (simp add: batadv_purge_orig_ref_def h Let_def purge_bucket_fst comp_def)
  have key: "on_orig y = on_orig x" if "purge_step k cmp bp x = Some y" for x y
    using purge_step_Some that by blast
  have walk: "orig_hash.hash_ok (jhash k) ?h"
      "orig_hash.hash_find (jhash k) ?h = (\<lambda>a. Option.bind (orig_hash.hash_find (jhash k) h a) (purge_step k cmp bp))"
    using orig_hash.walk_ok [of "jhash k" h "purge_step k cmp bp"] orig_hash.walk_find [of "jhash k" h "purge_step k cmp bp"] h(2) key
    by (simp_all add: orig_hash.walk_def)
  have ok: "orig_table_ok k ?bp" using walk(1) by (simp add: orig_table_ok_def)
  have find: "batadv_orig_hash_find k ?bp a = Option.bind (batadv_orig_hash_find k bp a) (purge_step k cmp bp)"
    using orig_hash_find_eq [of ?bp ?h k a] orig_hash_find_eq [OF h(1), of k a] walk(2) by simp
  show "orig_table_ok k (batadv_purge_orig_ref k cmp bp)"
    "batadv_orig_hash_find k (batadv_purge_orig_ref k cmp bp) a =
      map_option batadv_neigh_node_release (Option.bind (batadv_orig_hash_find k bp a) (purge_step k cmp bp))"
    unfolding eq using release_neighs_find [OF ok] find by simp_all
  assume on: "batadv_orig_hash_find k bp a = Some on" "purge_step k cmp bp on = None"
  then have "on_orig on = a" by (simp add: orig_hash_find_SomeD)
  moreover have "on \<in> set (orig_hash.entries h)"
    using on(1) orig_hash.entries_find [OF h(2), of on] orig_hash_find_eq [OF h(1), of k a] \<open>on_orig on = a\<close> by simp
  then obtain b where "b \<in> set (table h)" "on \<in> set b" by (auto simp: orig_hash.entries_def)
  moreover have "set (dropped (concat (map f l))) = (\<Union>b \<in> set l. set (dropped (f b)))" for f and l :: "batadv_orig_node list list"
    by (induction l) simp_all
  ultimately show "a \<in> set (dropped (drop (length (bp_calls bp)) (bp_calls (batadv_purge_orig_ref k cmp bp))))"
    using purge_bucket_calls [of on b k cmp bp] on(2) by (auto simp: eq release_calls)
qed

lemma del_orig_gone:
  assumes "tt_global_inv k K ms" and "vlan_allocs k"
    and "tmap k (tt_global_hash (batadv_tt_global_del_orig k a (- 1) ms)) key = Some g"
  shows "a \<notin> origs g"
proof -
  obtain h where h: "tt_global_hash ms = Some h" using tt_inv_table [OF assms(1)] by (auto simp: table_ok_def)
  then have tab: "table_ok k (Some h)" using tt_inv_table [OF assms(1)] by simp
  define F where "F = (\<lambda>g :: batadv_tt_global_entry. if filter (\<lambda>oe. oe_orig_node oe \<noteq> a) (tg_orig_list g) = [] then None
        else Some (g\<lparr>tg_orig_list := filter (\<lambda>oe. oe_orig_node oe \<noteq> a) (tg_orig_list g),
          tg_orig_list_count := int (length (filter (\<lambda>oe. oe_orig_node oe \<noteq> a) (tg_orig_list g)))\<rparr>))"
  have ok: "entry_ok g" if "g \<in> set (concat (table h))" for g
    using that entries_tmap(1) [OF tab, of g] tt_inv_entry [OF assms(1), of "tt_key g" g] h by simp
  have "fst (del_orig_table k a (- 1) (table h) (ms_priv ms)) = map (List.map_filter F) (table h)"
    using del_orig_table_eq [of "table h" k a "- 1" "ms_priv ms"] ok by (simp add: F_def)
  then have eq: "tt_global_hash (batadv_tt_global_del_orig k a (- 1) ms) =
      Some (h\<lparr>table := map (List.map_filter F) (table h)\<rparr>)"
    by (auto simp: batadv_tt_global_del_orig_def h split: prod.splits)
  have key: "tt_key y = tt_key x" if "F x = Some y" for x y
    using that by (auto simp: F_def tt_key_def split: if_splits)
  have "tmap k (Some (h\<lparr>table := map (List.map_filter F) (table h)\<rparr>)) = (\<lambda>key. Option.bind (tmap k (Some h) key) F)"
    by (rule tmap_walk [OF tab key])
  then obtain z where "F z = Some g" using assms(3) unfolding eq by (auto simp: bind_eq_Some_conv)
  then show ?thesis by (auto simp: F_def split: if_splits)
qed

lemma inv_del_orig_gone:
  assumes "tt_global_inv k (K, L) ms" and "vlan_allocs k" and "a \<notin> K"
  shows "tt_global_inv k (K, L - {a}) (batadv_tt_global_del_orig k a (- 1) ms)"
proof -
  have "x \<noteq> a" if "tmap k (tt_global_hash (batadv_tt_global_del_orig k a (- 1) ms)) key = Some g" "x \<in> origs g" for key g x
    using del_orig_gone [OF assms(1,2) that(1)] that(2) by blast
  then show ?thesis
    using inv_del_orig [OF assms(1,2), of a "- 1"] assms(3)
    unfolding tt_global_inv_def fst_conv snd_conv by (metis (no_types, lifting) subset_Diff_insert Diff_empty)
qed

lemma inv_dropped:
  assumes "tt_global_inv k (K, L) ms" and "vlan_allocs k"
  shows "tt_global_inv k (K, L - (set as - K)) (foldl (\<lambda>ms a. batadv_tt_global_del_orig k a (- 1) ms) ms as)"
  using assms(1)
proof (induction "as" arbitrary: L ms)
  case (Cons a "as")
  show ?case
  proof (cases "a \<in> K")
    case True
    then show ?thesis using Cons.IH [OF inv_del_orig [OF Cons.prems assms(2)]] by simp
  next
    case False
    have "L - {a} - (set as - K) = L - (set (a # as) - K)" using False by auto
    then show ?thesis using Cons.IH [OF inv_del_orig_gone [OF Cons.prems assms(2) False]] by simp
  qed
qed simp

definition tt_accounted :: "'k kenv_scheme \<Rightarrow> mesh \<Rightarrow> bool" where
  "tt_accounted k ms \<longleftrightarrow> (\<exists>K. tt_global_inv k (K, K) ms)"

lemma accountedI: "tt_global_inv k (K, K) ms \<Longrightarrow> tt_accounted k ms"
  by (auto simp: tt_accounted_def)

lemma accounted_purge_originators:
  assumes "tt_accounted k ms" and "vlan_allocs k"
  shows "tt_accounted k (tt_purge_originators k cmp ms)"
proof -
  obtain K where inv: "tt_global_inv k (K, K) ms" using assms(1) by (auto simp: tt_accounted_def)
  have tab: "orig_table_ok k (ms_priv ms)" by (rule tt_inv_origs [OF inv])
  note find = purge_ref_find [OF tab, where cmp = cmp]
  define bp where "bp = batadv_purge_orig_ref k cmp (ms_priv ms)"
  define as where "as = dropped (drop (length (bp_calls (ms_priv ms))) (bp_calls bp))"
  let ?K = "known k bp"
  have K: "known k (ms_priv ms) = K" using tt_inv_known [OF inv] by simp
  have sub: "?K \<subseteq> K" using find(2) K by (auto simp: known_def bp_def)
  have gone: "K - ?K \<subseteq> set as"
    using find(2,3) K by (auto simp: known_def bp_def as_def split: bind_splits)
  have vl: "on_vlan_list (batadv_neigh_node_release on) = on_vlan_list on" for on
    by (simp add: batadv_neigh_node_release_def)
  have same: "vlans_wf on \<longleftrightarrow> vlans_wf on'" "ov_count on v = ov_count on' v" if "on_vlan_list on = on_vlan_list on'" for on on' v
    using that by (simp_all add: vlans_wf_def ov_count_def batadv_orig_node_vlan_get_def)
  have "counts k bp (tcount k (tt_global_hash ms))"
    unfolding counts_def
  proof (intro conjI allI impI)
    show "orig_table_ok k bp" using find(1) by (simp add: bp_def)
    fix a on assume "batadv_orig_hash_find k bp a = Some on"
    then obtain z where z: "batadv_orig_hash_find k (ms_priv ms) a = Some z" "on_vlan_list on = on_vlan_list z"
      using find(2) purge_step_Some vl by (fastforce simp: bp_def bind_eq_Some_conv)
    then show "vlans_wf on" "\<And>v. batadv_vlan_id_valid v \<Longrightarrow> ov_count on v = tcount k (tt_global_hash ms) a v"
      using tt_inv_counts [OF inv] same [OF z(2)] by (auto simp: counts_def)
  qed
  then have "tt_global_inv k (?K, K) (ms\<lparr>ms_priv := bp\<rparr>)"
    using inv sub by (simp add: tt_global_inv_def)
  from inv_dropped [OF this assms(2), of as]
  have "tt_global_inv k (?K, K - (set as - ?K)) (tt_purge_originators k cmp ms)"
    by (simp add: tt_purge_originators_def bp_def [symmetric] as_def [symmetric] Let_def)
  moreover have "K - (set as - ?K) = ?K" using sub gone by blast
  ultimately have "tt_global_inv k (?K, ?K) (tt_purge_originators k cmp ms)" by simp
  then show ?thesis by (rule accountedI)
qed

lemma accounted_jhash:
  fixes k k' :: tt_kenv
  assumes "jhash k = jhash k'" shows "tt_accounted k ms = tt_accounted k' ms"
proof -
  have "batadv_orig_hash_find k = batadv_orig_hash_find k'" "batadv_tt_hash_find k = (batadv_tt_hash_find k' :: batadv_tt_global_entry batadv_hashtable option \<Rightarrow> _)"
    unfolding fun_eq_iff batadv_orig_hash_find_def batadv_tt_hash_find_def assms by simp_all
  then have "tt_global_inv k K ms = tt_global_inv k' K ms" for K
    by (simp add: tt_global_inv_def known_def counts_def orig_table_ok_def table_ok_def tcount_def tmap_def
        announces_def assms)
  then show ?thesis by (simp add: tt_accounted_def)
qed

lemma inv_orig_get:
  assumes "tt_global_inv k (K, K) ms" and "batadv_v_ogm_orig_get k (ms_priv ms) a = (r, bp)"
  shows "tt_accounted k (ms\<lparr>ms_priv := bp\<rparr>)"
proof -
  note tab = tt_inv_origs [OF assms(1)]
  note get = orig_get_cases [OF tab assms(2)]
  show ?thesis
  proof (cases "batadv_orig_hash_find k (ms_priv ms) a")
    case (Some on)
    then have "ms\<lparr>ms_priv := bp\<rparr> = ms" using get by simp
    then show ?thesis using assms(1) accountedI by simp
  next
    case None
    have fresh: "tcount k (tt_global_hash ms) a v = 0" for v
    proof -
      have "a \<notin> K" using tt_inv_known [OF assms(1)] None by (auto simp: known_def)
      then have "\<not> announces (tmap k (tt_global_hash ms) key) a" for key
        using tt_inv_entry [OF assms(1), of key] by (auto simp del: announces_simps simp: announces_def)
      then show ?thesis by (simp add: tcount_def)
    qed
    show ?thesis
    proof (cases "batadv_orig_node_new k a")
      case None': None
      then have "batadv_orig_hash_find k bp = batadv_orig_hash_find k (ms_priv ms)"
        using get None by auto
      then have "tt_global_inv k (K, K) (ms\<lparr>ms_priv := bp\<rparr>)"
        using assms(1) get by (simp add: tt_global_inv_def counts_def known_def)
      then show ?thesis by (rule accountedI)
    next
      case (Some on)
      then have find: "batadv_orig_hash_find k bp = (batadv_orig_hash_find k (ms_priv ms))(a \<mapsto> on)"
        and ok: "orig_table_ok k bp" using get None by auto
      have "on_vlan_list on = [\<lparr>ov_vid = 0, ov_crc = 0, ov_num_entries = 0\<rparr>]" "batadv_vlan_id_valid 0"
        using Some by (auto simp: batadv_orig_node_new_def batadv_orig_node_vlan_new_def
            batadv_orig_node_vlan_get_def Let_def split: if_splits option.splits)
      then have wf: "vlans_wf on" "ov_count on v = 0" for v
        by (auto simp: vlans_wf_def ov_count_def batadv_orig_node_vlan_get_def)
      have "known k bp = insert a K" using tt_inv_known [OF assms(1)] by (auto simp: known_def find)
      moreover have "counts k bp (tcount k (tt_global_hash ms))"
        using tt_inv_counts [OF assms(1)] wf ok fresh by (auto simp: counts_def find)
      ultimately have "tt_global_inv k (insert a K, insert a K) (ms\<lparr>ms_priv := bp\<rparr>)"
        using assms(1) unfolding tt_global_inv_def by (simp add: subset_insertI2)
      then show ?thesis by (rule accountedI)
    qed
  qed
qed

definition tt_env :: "(bytes \<Rightarrow> u32 \<Rightarrow> u32) \<Rightarrow> tt_kenv \<Rightarrow> bool" where
  "tt_env jh k \<longleftrightarrow> jhash k = jh \<and> vlan_allocs k"

text \<open>
  Everything that touches the table or the originators' counters, in any order: received
  messages, clients seen and lost, the periodic work, VLANs, bridge loop avoidance dropping
  a backbone gateway's clients, originators learned and purged; and, as the last two rules,
  whatever leaves the table and the counters alone.
\<close>

inductive tt_step :: "(bytes \<Rightarrow> u32 \<Rightarrow> u32) \<Rightarrow> mesh \<Rightarrow> mesh \<Rightarrow> bool" for jh where
  step_ogm: "tt_env jh k \<Longrightarrow> batadv_tt_tvlv_ogm_handler_v1 k a v ms = Kret ms' \<Longrightarrow> tt_step jh ms ms'"
| step_unicast: "tt_env jh k \<Longrightarrow> batadv_tt_tvlv_unicast_handler_v1 k src dst v ms = Kret (r, ms') \<Longrightarrow> tt_step jh ms ms'"
| step_roam: "tt_env jh k \<Longrightarrow> tt_step jh ms (snd (batadv_roam_tvlv_unicast_handler_v1 k src dst v ms))"
| step_temporary: "tt_env jh k \<Longrightarrow> batadv_orig_hash_find k (ms_priv ms) (on_orig on) \<noteq> None \<Longrightarrow>
    tt_step jh ms (snd (batadv_tt_add_temporary_global_entry k on a vid ms))"
| step_local_add: "tt_env jh k \<Longrightarrow> tt_step jh ms (snd (batadv_tt_local_add k a vid h m ms))"
| step_local_remove: "tt_env jh k \<Longrightarrow> tt_step jh ms (snd (batadv_tt_local_remove k a vid r ms))"
| step_vlan: "tt_env jh k \<Longrightarrow> tt_step jh ms (snd (batadv_meshif_create_vlan k ok vid ms))"
| step_commit: "tt_env jh k \<Longrightarrow> batadv_tt_local_commit_changes k ms = Kret ms' \<Longrightarrow> tt_step jh ms ms'"
| step_resize: "tt_env jh k \<Longrightarrow> batadv_tt_local_resize_to_mtu k ms = Kret ms' \<Longrightarrow> tt_step jh ms ms'"
| step_purge: "tt_env jh k \<Longrightarrow> tt_step jh ms (batadv_tt_purge k ms)"
| step_bla: "tt_env jh k \<Longrightarrow> tt_step jh ms (batadv_tt_global_del_orig k a mv ms)"
| step_orig_get: "tt_env jh k \<Longrightarrow> batadv_v_ogm_orig_get k (ms_priv ms) a = (r, bp) \<Longrightarrow> tt_step jh ms (ms\<lparr>ms_priv := bp\<rparr>)"
| step_orig_purge: "tt_env jh k \<Longrightarrow> tt_step jh ms (tt_purge_originators k cmp ms)"
| step_orig: "tt_env jh k \<Longrightarrow> (\<And>on. on_orig (f on) = on_orig on) \<Longrightarrow> (\<And>on. on_vlan_list (f on) = on_vlan_list on) \<Longrightarrow>
    tt_step jh ms (ms\<lparr>ms_priv := orig_upd k a f (ms_priv ms)\<rparr>)"
| step_other: "globals ms' = globals ms \<Longrightarrow> tt_step jh ms ms'"

lemma inv_ogm_handler:
  assumes "tt_global_inv k K ms" and "vlan_allocs k"
    and "batadv_tt_tvlv_ogm_handler_v1 k a v ms = Kret ms'"
  shows "tt_global_inv k K ms'"
  using assms(3,1) inv_update_orig [OF assms(1,2)]
  by (auto simp: batadv_tt_tvlv_ogm_handler_v1_def Let_def split: if_splits)

lemma inv_counter: "tt_global_inv k K ms \<Longrightarrow> tt_global_inv k K (ms_inc_counter i ms)"
  by (rule inv_globals) simp_all

lemma inv_unicast_handler:
  assumes "tt_global_inv k K ms" and "vlan_allocs k"
    and "batadv_tt_tvlv_unicast_handler_v1 k src dst v ms = Kret (r, ms')"
  shows "tt_global_inv k K ms'"
proof -
  have resp: "tt_global_inv k K ms2" if "batadv_send_tt_response k d s t (ms_inc_counter i ms) = Kret (b, ms2)" for d s t i b ms2
    by (rule inv_globals [OF inv_counter [OF assms(1)] globals_response [OF that]])
  have hand: "tt_global_inv k K ms2" if "batadv_handle_tt_response k d s n (ms_inc_counter i ms) = Kret ms2" for d s n i ms2
    by (rule inv_handle_response [OF inv_counter [OF assms(1)] assms(2) that])
  show ?thesis
    using assms(3,1) inv_counter [OF assms(1)]
    by (auto simp: batadv_tt_tvlv_unicast_handler_v1_def Let_def elim!: kbind_KretE dest: resp hand split: if_splits)
qed

lemma inv_roam_handler:
  assumes "tt_global_inv k K ms" and "vlan_allocs k"
  shows "tt_global_inv k K (snd (batadv_roam_tvlv_unicast_handler_v1 k src dst v ms))"
proof (cases "batadv_orig_hash_find k (ms_priv ms) src")
  case None
  then show ?thesis using assms by (simp add: batadv_roam_tvlv_unicast_handler_v1_def)
next
  case (Some on)
  then have "src \<in> fst K" using tt_inv_known [OF assms(1)] by (auto simp: known_def)
  from inv_global_add [OF inv_counter [OF assms(1)] assms(2) this]
  show ?thesis using assms(1) Some by (simp add: batadv_roam_tvlv_unicast_handler_v1_def Let_def)
qed

lemma inv_tt_purge:
  assumes "tt_global_inv k K ms" and "vlan_allocs k" shows "tt_global_inv k K (batadv_tt_purge k ms)"
proof -
  have "tt_global_inv k K (batadv_tt_global_purge k (batadv_tt_local_purge k t ms))" for t
    by (rule inv_purge [OF inv_globals [OF assms(1)] assms(2)]) simp
  then show ?thesis
    by (rule inv_globals) (simp add: batadv_tt_purge_def batadv_tt_req_purge_def batadv_tt_roam_purge_def Let_def)
qed

lemma accounted_inv:
  "tt_accounted k ms \<Longrightarrow> (\<And>K. tt_global_inv k K ms \<Longrightarrow> tt_global_inv k K ms') \<Longrightarrow> tt_accounted k ms'"
  by (auto simp: tt_accounted_def)

lemma tt_step_accounted:
  fixes k :: tt_kenv
  assumes "tt_step jh ms ms'" and "jhash k = jh" and "tt_accounted k ms"
  shows "tt_accounted k ms'"
proof -
  have use: "tt_accounted k ms'" if "tt_env jh k'" "tt_accounted k' ms \<Longrightarrow> vlan_allocs k' \<Longrightarrow> tt_accounted k' ms'" for k' ms'
    using that assms(2,3) accounted_jhash [of k k'] by (simp add: tt_env_def)
  show ?thesis
    using assms(1)
  proof cases
    case (step_ogm k' a v)
    show ?thesis by (rule use [OF step_ogm(1)]) (blast intro: accounted_inv inv_ogm_handler [OF _ _ step_ogm(2)])
  next
    case (step_unicast k' src dst v r)
    show ?thesis by (rule use [OF step_unicast(1)]) (blast intro: accounted_inv inv_unicast_handler [OF _ _ step_unicast(2)])
  next
    case (step_roam k')
    show ?thesis unfolding step_roam(1) by (rule use [OF step_roam(2)]) (blast intro: accounted_inv inv_roam_handler)
  next
    case (step_temporary k' on a vid)
    have "tt_global_inv k' K (snd (batadv_tt_add_temporary_global_entry k' on a vid ms))"
      if "tt_global_inv k' K ms" "vlan_allocs k'" for K
    proof -
      have "on_orig on \<in> fst K" using tt_inv_known [OF that(1)] step_temporary(3) by (auto simp: known_def)
      then show ?thesis using that inv_global_add by (simp add: batadv_tt_add_temporary_global_entry_def)
    qed
    then show ?thesis unfolding step_temporary(1) by (intro use [OF step_temporary(2)]) (blast intro: accounted_inv)
  next
    case (step_local_add k')
    show ?thesis unfolding step_local_add(1) by (rule use [OF step_local_add(2)]) (blast intro: accounted_inv inv_local_add)
  next
    case (step_local_remove k' a v r)
    have "globals ms' = globals ms" by (simp add: step_local_remove(1))
    then show ?thesis by (intro use [OF step_local_remove(2)]) (blast intro: accounted_inv inv_globals)
  next
    case (step_vlan k' ok vid)
    have "tt_global_inv k' K ms'" if "tt_global_inv k' K ms" "vlan_allocs k'" for K
    proof -
      have "tt_global_inv k' K (ms\<lparr>ms_vlan_list := l\<rparr>)" for l by (rule inv_globals [OF that(1)]) simp
      then show ?thesis using that inv_local_add
        by (auto simp: step_vlan(1) batadv_meshif_create_vlan_def split: option.splits)
    qed
    then show ?thesis by (intro use [OF step_vlan(2)]) (blast intro: accounted_inv)
  next
    case (step_commit k')
    then have "globals ms' = globals ms" by (simp add: batadv_tt_local_commit_changes_def globals_commit)
    then show ?thesis by (intro use [OF step_commit(1)]) (blast intro: accounted_inv inv_globals)
  next
    case (step_resize k')
    from globals_resize [OF step_resize(2)]
    show ?thesis by (intro use [OF step_resize(1)]) (blast intro: accounted_inv inv_globals)
  next
    case (step_purge k')
    show ?thesis unfolding step_purge(1) by (rule use [OF step_purge(2)]) (blast intro: accounted_inv inv_tt_purge)
  next
    case (step_bla k')
    show ?thesis unfolding step_bla(1) by (rule use [OF step_bla(2)]) (blast intro: accounted_inv inv_del_orig)
  next
    case (step_orig_get k' a r bp)
    show ?thesis unfolding step_orig_get(1)
      by (rule use [OF step_orig_get(2)]) (auto simp: tt_accounted_def [of k' ms] intro: inv_orig_get [OF _ step_orig_get(3)])
  next
    case (step_orig_purge k' cmp)
    show ?thesis unfolding step_orig_purge(1)
      by (rule use [OF step_orig_purge(2)]) (rule accounted_purge_originators)
  next
    case (step_orig k' f a)
    show ?thesis unfolding step_orig(1)
      by (rule use [OF step_orig(2)]) (rule accounted_inv, assumption, rule inv_field [OF _ step_orig(3,4)])
  next
    case step_other
    then show ?thesis using assms(3) by (blast intro: accounted_inv inv_globals)
  qed
qed

text \<open>A mesh interface that knows no originator and no client yet.\<close>

definition tt_fresh :: "tt_kenv \<Rightarrow> mesh \<Rightarrow> bool" where
  "tt_fresh k ms \<longleftrightarrow> table_ok k (tt_global_hash ms) \<and> orig_table_ok k (ms_priv ms)
     \<and> (\<forall>c v. batadv_tt_global_hash_find k ms c v = None) \<and> (\<forall>a. batadv_orig_hash_find k (ms_priv ms) a = None)"

lemma new_table:
  assumes "batadv_hash_new ok1 ok2 ok3 n = Some h" and "0 < n"
  shows "table_ok k (Some h) \<and> tmap k (Some h) key = None"
  using assms tt_hash.new_ok [OF assms(2), of "jhash k" key]
  by (auto simp: batadv_hash_new_def table_ok_def tmap_Some split: if_splits)

lemma tt_init_fresh:
  assumes "tt_global_hash ms0 = None" and "orig_table_ok k (ms_priv ms0)"
    and "\<And>a. batadv_orig_hash_find k (ms_priv ms0) a = None"
    and "batadv_tt_init k lok gok hs ms0 = (1, hs', ms)"
  shows "tt_fresh k ms"
proof -
  obtain l1 l2 l3 g1 g2 g3 where ok: "lok = (l1, l2, l3)" "gok = (g1, g2, g3)" by (cases lok, cases gok)
  obtain ret ms1 where l: "batadv_tt_local_init l1 l2 l3 ms0 = (ret, ms1)"
    by (cases "batadv_tt_local_init l1 l2 l3 ms0")
  then have ms1: "tt_global_hash ms1 = None" "ms_priv ms1 = ms_priv ms0"
    using assms(1) by (auto simp: batadv_tt_local_init_def split: if_splits option.splits)
  obtain h where h: "batadv_hash_new g1 g2 g3 1024 = Some h"
    and ms: "ms = tt_call (Tt_queue_work BATADV_TT_WORK_PERIOD) (ms1\<lparr>tt_global_hash := Some h\<rparr>)"
    using assms(4) ms1(1) by (auto simp: batadv_tt_init_def ok l batadv_tt_global_init_def ENOMEM_def
        split: if_splits option.splits)
  have "tt_global_hash ms = Some h" "ms_priv ms = ms_priv ms0" by (simp_all add: ms tt_call_def ms1(2))
  then show ?thesis
    using assms(2,3) new_table [OF h, of k] by (auto simp: tt_fresh_def global_find)
qed

lemma fresh_accounted: "tt_fresh k ms \<Longrightarrow> tt_accounted k ms"
  by (rule accountedI [of k "{}"])
    (simp add: tt_fresh_def tt_global_inv_def known_def counts_def global_find split_paired_all)

lemma tt_steps_accounted:
  fixes k :: tt_kenv
  shows "(tt_step (jhash k))\<^sup>*\<^sup>* ms ms' \<Longrightarrow> tt_accounted k ms \<Longrightarrow> tt_accounted k ms'"
  by (induction rule: rtranclp_induct) (auto intro: tt_step_accounted)

text \<open>
  C28: The books of the global translation table balance. Whatever arrives, in any order and
  with any content (announcements, responses, roaming messages), whatever clients and
  originators come, roam, time out or are purged: an originator's counter of a VLAN, which
  decides whether its announced checksum is compared and its VLAN kept, is exactly the number
  of clients the table holds for it there, no client lists an originator twice, its list is
  as long as its counter says, and no client refers to an originator that is gone. The only
  provision is that the counters can be allocated.
\<close>

theorem tt_global_accounted:
  assumes "tt_fresh k ms" and "(tt_step (jhash k))\<^sup>*\<^sup>* ms ms'"
    and "batadv_orig_hash_find k (ms_priv ms') a = Some on" and "batadv_vlan_id_valid v"
  shows "ov_count on v = of_nat (card {c. \<exists>g. batadv_tt_global_hash_find k ms' c v = Some g \<and> a \<in> origs g})
    \<and> (\<forall>c g. batadv_tt_global_hash_find k ms' c v = Some g \<longrightarrow> distinct (map oe_orig_node (tg_orig_list g))
         \<and> tg_orig_list_count g = int (length (tg_orig_list g))
         \<and> (\<forall>b \<in> origs g. batadv_orig_hash_find k (ms_priv ms') b \<noteq> None))"
proof -
  obtain K where inv: "tt_global_inv k (K, K) ms'"
    using tt_steps_accounted [OF assms(2) fresh_accounted [OF assms(1)]] by (auto simp: tt_accounted_def)
  have "ov_count on v = tcount k (tt_global_hash ms') a v"
    using tt_inv_counts [OF inv] assms(3,4) by (simp add: counts_def)
  moreover have "distinct (map oe_orig_node (tg_orig_list g)) \<and> tg_orig_list_count g = int (length (tg_orig_list g))
      \<and> (\<forall>b \<in> origs g. batadv_orig_hash_find k (ms_priv ms') b \<noteq> None)"
    if "batadv_tt_global_hash_find k ms' c v = Some g" for c g
    using tt_inv_entry [OF inv, of "(c, v)" g] tt_inv_known [OF inv] that
    by (auto simp: global_find entry_ok_def known_def)
  ultimately show ?thesis by (simp add: tcount_def announces_def global_find)
qed

definition ex_acc_mesh :: mesh where
  "ex_acc_mesh = ex_tt_mesh\<lparr>ms_priv := ex_tt_priv\<lparr>bp_orig_hash := Some (batadv_hash_init 2)\<rparr>\<rparr>"

definition ex_acc_known :: mesh where
  "ex_acc_known = ex_acc_mesh\<lparr>ms_priv := snd (batadv_v_ogm_orig_get ex_tt_kenv (ms_priv ex_acc_mesh) (Mac 2 0 0 0 0 5))\<rparr>"

definition ex_acc_roamed :: mesh where
  "ex_acc_roamed = snd (batadv_roam_tvlv_unicast_handler_v1 ex_tt_kenv (Mac 2 0 0 0 0 5) (Mac 2 0 0 0 0 1)
     (roam_adv_bytes \<lparr>ra_client = Mac 2 0 0 0 0 7, ra_vid = 0x8001\<rparr>) ex_acc_known)"

lemma ex_acc_fresh: "tt_fresh ex_tt_kenv ex_acc_mesh"
proof -
  have two: "0 < (2 :: u32)" by simp
  have "bp_orig_hash (ms_priv ex_acc_mesh) = Some (batadv_hash_init 2)"
    and "tt_global_hash ex_acc_mesh = Some (batadv_hash_init 2)"
    by (simp_all add: ex_acc_mesh_def ex_tt_mesh_def)
  then show ?thesis
    by (simp add: tt_fresh_def orig_table_ok_def table_ok_def global_find tmap_Some orig_hash_find_eq
        orig_hash.new_ok [OF two] tt_hash.new_ok [OF two])
qed

lemma ex_acc_allocs: "vlan_allocs ex_tt_kenv"
  by (simp add: vlan_allocs_def ex_tt_kenv_def)

theorem tt_global_accounted_witness:
  "\<exists>on. batadv_orig_hash_find ex_tt_kenv (ms_priv ex_acc_roamed) (Mac 2 0 0 0 0 5) = Some on
     \<and> ov_count on 0x8001 = of_nat (card {c. \<exists>g. batadv_tt_global_hash_find ex_tt_kenv ex_acc_roamed c 0x8001 = Some g
          \<and> Mac 2 0 0 0 0 5 \<in> origs g})"
proof -
  obtain r bp where get: "batadv_v_ogm_orig_get ex_tt_kenv (ms_priv ex_acc_mesh) (Mac 2 0 0 0 0 5) = (r, bp)"
    by (cases "batadv_v_ogm_orig_get ex_tt_kenv (ms_priv ex_acc_mesh) (Mac 2 0 0 0 0 5)")
  have known: "ex_acc_known = ex_acc_mesh\<lparr>ms_priv := bp\<rparr>" by (simp add: ex_acc_known_def get)
  have bp: "ms_priv ex_acc_known = bp" by (simp add: known)
  have env: "tt_env (jhash ex_tt_kenv) ex_tt_kenv" by (simp add: tt_env_def ex_acc_allocs)
  have step: "tt_step (jhash ex_tt_kenv) ex_acc_mesh ex_acc_known"
    unfolding known by (rule step_orig_get [OF env get])
  have "tt_accounted ex_tt_kenv ex_acc_known"
    by (rule tt_step_accounted [OF step refl fresh_accounted [OF ex_acc_fresh]])
  then obtain K where inv: "tt_global_inv ex_tt_kenv (K, K) ex_acc_known" by (auto simp: tt_accounted_def)
  have "batadv_orig_node_new ex_tt_kenv (Mac 2 0 0 0 0 5) \<noteq> None"
    by (simp add: batadv_orig_node_new_def batadv_orig_node_vlan_new_def ex_tt_kenv_def Let_def
        batadv_vlan_id_valid_def batadv_orig_node_vlan_get_def)
  then have "Mac 2 0 0 0 0 5 \<in> K"
    using tt_inv_known [OF inv] orig_get_cases [OF _ get] ex_acc_fresh bp
    by (auto simp: known_def tt_fresh_def)
  moreover have "tt_global_inv ex_tt_kenv (K, K) ex_acc_roamed"
    unfolding ex_acc_roamed_def by (rule inv_roam_handler [OF inv ex_acc_allocs])
  ultimately obtain on where on: "batadv_orig_hash_find ex_tt_kenv (ms_priv ex_acc_roamed) (Mac 2 0 0 0 0 5) = Some on"
    using tt_inv_known by (fastforce simp: known_def)
  have "(tt_step (jhash ex_tt_kenv))\<^sup>*\<^sup>* ex_acc_mesh ex_acc_roamed"
    unfolding ex_acc_roamed_def
    by (rule rtranclp.rtrancl_into_rtrancl [OF r_into_rtranclp [where r = "tt_step (jhash ex_tt_kenv)", OF step] step_roam [OF env]])
  from tt_global_accounted [OF ex_acc_fresh this on] on show ?thesis
    by (auto simp: batadv_vlan_id_valid_def BATADV_VLAN_HAS_TAG_def VLAN_VID_MASK_def)
qed

end
