(* ===== verification/Bridge_Loop_Avoidance.thy ===== *)
theory Bridge_Loop_Avoidance
  imports Translation_Table Gateway
begin

text \<open>
  Bridge loop avoidance, \<^verbatim>\<open>src/net/batman-adv/bridge_loop_avoidance.c\<close>: the gateways between
  the mesh and a LAN (per VLAN) agree on which of them forwards for a client of the LAN. A
  gateway claims clients, announces a checksum over its claims and answers requests for
  them, all in ARP frames on the LAN; while a gateway is out of sync no broadcast passes.

  Gateway objects carry an address, claims refer to it. An object is only freed when its
  last claim is gone and it has left the table; unlinking a gateway removes its claims, so no
  object outlives the table in this model. When the second hash cannot be allocated the
  code leaves the pointer to the destroyed first one behind; the model keeps that pointer.
\<close>

section \<open>State\<close>

record batadv_bla_backbone_gw =
  bg_ptr :: nat
  bg_orig :: mac
  bg_vid :: u16
  bg_lasttime :: u64
  bg_wait_periods :: u32
  bg_request_sent :: u32
  bg_crc :: u16

record batadv_bla_claim =
  bc_addr :: mac
  bc_vid :: u16
  bc_backbone_gw :: nat
  bc_lasttime :: u64

record batadv_bcast_duplist_entry =
  dl_orig :: mac
  dl_crc :: u32
  dl_entrytime :: u64

text \<open>The own claim destination: three magic bytes and the group (its type is filled in per frame).\<close>

record batadv_priv_bla =
  bla_num_requests :: u32
  bla_claim_hash :: "batadv_bla_claim batadv_hashtable option"
  bla_backbone_hash :: "batadv_bla_backbone_gw batadv_hashtable option"
  bla_loopdetect_addr :: mac
  bla_loopdetect_lasttime :: u64
  bla_loopdetect_next :: u32
  bla_bcast_duplist :: "batadv_bcast_duplist_entry list"
  bla_bcast_duplist_curr :: nat
  bla_magic :: bytes
  bla_group :: u16

text \<open>
  Output: a claim frame handed to the mesh interface, a report of a loop on a VLAN, the
  work item. \<open>bl_reports\<close> are the queued loop reports: gateway object and VLAN.
\<close>

datatype bla_call =
    Bla_netif_rx bytes
  | Bla_throw_uevent u16
  | Bla_queue_work nat

record bla = batadv_priv_bla +
  bl_bridge_loop_avoidance :: bool
  bl_mesh :: mesh
  bl_reports :: "(nat \<times> u16) list"
  bl_calls :: "bla_call list"

text \<open>
  \<open>bla_new_gw\<close> and \<open>bla_new_claim\<close> are the outcomes of the two allocations, \<open>bla_skb_ok\<close> tells
  whether the frame of a type for an address can be built, \<open>bla_random_addr\<close> is the random
  address for loop detection.
\<close>

record bla_kenv = tt_kenv +
  crc16 :: "u16 \<Rightarrow> bytes \<Rightarrow> u16"
  bla_new_gw :: "mac \<Rightarrow> u16 \<Rightarrow> nat option"
  bla_new_claim :: "mac \<Rightarrow> u16 \<Rightarrow> bool"
  bla_skb_ok :: "u8 \<Rightarrow> mac \<Rightarrow> u16 \<Rightarrow> bool"
  bla_random_addr :: mac

definition bla_call :: "bla_call \<Rightarrow> bla \<Rightarrow> bla" where
  "bla_call c bl = bl\<lparr>bl_calls := bl_calls bl @ [c]\<rparr>"

definition BATADV_CLAIM_TYPE_CLAIM :: u8 where "BATADV_CLAIM_TYPE_CLAIM = 0"
definition BATADV_CLAIM_TYPE_UNCLAIM :: u8 where "BATADV_CLAIM_TYPE_UNCLAIM = 1"
definition BATADV_CLAIM_TYPE_ANNOUNCE :: u8 where "BATADV_CLAIM_TYPE_ANNOUNCE = 2"
definition BATADV_CLAIM_TYPE_REQUEST :: u8 where "BATADV_CLAIM_TYPE_REQUEST = 3"
definition BATADV_CLAIM_TYPE_LOOPDETECT :: u8 where "BATADV_CLAIM_TYPE_LOOPDETECT = 4"

lemmas claim_type_defs = BATADV_CLAIM_TYPE_CLAIM_def BATADV_CLAIM_TYPE_UNCLAIM_def
  BATADV_CLAIM_TYPE_ANNOUNCE_def BATADV_CLAIM_TYPE_REQUEST_def BATADV_CLAIM_TYPE_LOOPDETECT_def

definition BATADV_BLA_CRC_INIT :: u16 where "BATADV_BLA_CRC_INIT = 0"
definition BATADV_BLA_PERIOD_LENGTH :: nat where "BATADV_BLA_PERIOD_LENGTH = 10000"
definition BATADV_BLA_BACKBONE_TIMEOUT :: nat where "BATADV_BLA_BACKBONE_TIMEOUT = BATADV_BLA_PERIOD_LENGTH * 6"
definition BATADV_BLA_CLAIM_TIMEOUT :: nat where "BATADV_BLA_CLAIM_TIMEOUT = BATADV_BLA_PERIOD_LENGTH * 10"
definition BATADV_BLA_WAIT_PERIODS :: u32 where "BATADV_BLA_WAIT_PERIODS = 3"
definition BATADV_BLA_LOOPDETECT_PERIODS :: u32 where "BATADV_BLA_LOOPDETECT_PERIODS = 6"
definition BATADV_BLA_LOOPDETECT_TIMEOUT :: nat where "BATADV_BLA_LOOPDETECT_TIMEOUT = 3000"
definition BATADV_DUPLIST_SIZE :: nat where "BATADV_DUPLIST_SIZE = 16"
definition BATADV_DUPLIST_TIMEOUT :: nat where "BATADV_DUPLIST_TIMEOUT = 500"

definition batadv_announce_mac :: bytes where "batadv_announce_mac = [0x43, 0x05, 0x43, 0x05]"

section \<open>The hash tables\<close>

definition bc_key :: "batadv_bla_claim \<Rightarrow> mac \<times> u16" where
  "bc_key claim = (bc_addr claim, bc_vid claim)"

definition bg_key :: "batadv_bla_backbone_gw \<Rightarrow> mac \<times> u16" where
  "bg_key gw = (bg_orig gw, bg_vid gw)"

definition batadv_choose_claim :: "(bytes \<Rightarrow> u32 \<Rightarrow> u32) \<Rightarrow> mac \<times> u16 \<Rightarrow> u32 \<Rightarrow> u32" where
  "batadv_choose_claim jh data n =
     (let hash = jh (mac_bytes (fst data)) 0;
          hash = jh [ucast (snd data), ucast (drop_bit 8 (snd data))] hash in
      hash mod n)"

definition batadv_choose_backbone_gw :: "(bytes \<Rightarrow> u32 \<Rightarrow> u32) \<Rightarrow> mac \<times> u16 \<Rightarrow> u32 \<Rightarrow> u32" where
  "batadv_choose_backbone_gw jh data n =
     (let hash = jh (mac_bytes (fst data)) 0;
          hash = jh [ucast (snd data), ucast (drop_bit 8 (snd data))] hash in
      hash mod n)"

definition batadv_compare_backbone_gw :: "batadv_bla_backbone_gw \<Rightarrow> mac \<times> u16 \<Rightarrow> bool" where
  "batadv_compare_backbone_gw gw1 gw2 =
     (if \<not> batadv_compare_eth (bg_orig gw1) (fst gw2) then False
      else if bg_vid gw1 \<noteq> snd gw2 then False
      else True)"

definition batadv_compare_claim :: "batadv_bla_claim \<Rightarrow> mac \<times> u16 \<Rightarrow> bool" where
  "batadv_compare_claim cl1 cl2 =
     (if \<not> batadv_compare_eth (bc_addr cl1) (fst cl2) then False
      else if bc_vid cl1 \<noteq> snd cl2 then False
      else True)"

definition batadv_claim_hash_find :: "'k kenv_scheme \<Rightarrow> bla \<Rightarrow> mac \<Rightarrow> u16 \<Rightarrow> batadv_bla_claim option" where
  "batadv_claim_hash_find k bl addr vid =
     (case bla_claim_hash bl of
        None \<Rightarrow> None
      | Some hash \<Rightarrow>
          let index = batadv_choose_claim (jhash k) (addr, vid) (hash_size hash) in
          find (\<lambda>claim. batadv_compare_claim claim (addr, vid)) (hash_bucket hash index))"

definition batadv_backbone_hash_find ::
    "'k kenv_scheme \<Rightarrow> bla \<Rightarrow> mac \<Rightarrow> u16 \<Rightarrow> batadv_bla_backbone_gw option" where
  "batadv_backbone_hash_find k bl addr vid =
     (case bla_backbone_hash bl of
        None \<Rightarrow> None
      | Some hash \<Rightarrow>
          let index = batadv_choose_backbone_gw (jhash k) (addr, vid) (hash_size hash) in
          find (\<lambda>gw. batadv_compare_backbone_gw gw (addr, vid)) (hash_bucket hash index))"

text \<open>All claims and all gateways, in the order of the tables; objects reached by a pointer.\<close>

definition bla_claims :: "bla \<Rightarrow> batadv_bla_claim list" where
  "bla_claims bl = (case bla_claim_hash bl of None \<Rightarrow> [] | Some hash \<Rightarrow> concat (table hash))"

definition bla_gws :: "bla \<Rightarrow> batadv_bla_backbone_gw list" where
  "bla_gws bl = (case bla_backbone_hash bl of None \<Rightarrow> [] | Some hash \<Rightarrow> concat (table hash))"

definition bla_gw :: "bla \<Rightarrow> nat \<Rightarrow> batadv_bla_backbone_gw option" where
  "bla_gw bl p = find (\<lambda>gw. bg_ptr gw = p) (bla_gws bl)"

definition bla_gw_upd ::
    "nat \<Rightarrow> (batadv_bla_backbone_gw \<Rightarrow> batadv_bla_backbone_gw) \<Rightarrow> bla \<Rightarrow> bla" where
  "bla_gw_upd p f bl = bl\<lparr>bla_backbone_hash :=
     map_option (\<lambda>hash. hash\<lparr>table := map (map (\<lambda>gw. if bg_ptr gw = p then f gw else gw)) (table hash)\<rparr>)
       (bla_backbone_hash bl)\<rparr>"

definition bla_claim_upd ::
    "mac \<Rightarrow> u16 \<Rightarrow> (batadv_bla_claim \<Rightarrow> batadv_bla_claim) \<Rightarrow> bla \<Rightarrow> bla" where
  "bla_claim_upd addr vid f bl = bl\<lparr>bla_claim_hash :=
     map_option (\<lambda>hash. hash\<lparr>table := map (map (\<lambda>c. if bc_key c = (addr, vid) then f c else c)) (table hash)\<rparr>)
       (bla_claim_hash bl)\<rparr>"

section \<open>Sending claim frames\<close>

definition ETH_P_ARP :: u16 where "ETH_P_ARP = 0x0806"

text \<open>
  The ARP reply of \<^verbatim>\<open>arp_create\<close> with the addresses \<^verbatim>\<open>batadv_bla_send_claim\<close> writes into it, and
  the VLAN tag inserted behind the Ethernet addresses.
\<close>

definition bla_claim_frame :: "mac \<Rightarrow> mac \<Rightarrow> mac \<Rightarrow> bytes \<Rightarrow> u16 \<Rightarrow> bytes" where
  "bla_claim_frame eth_dst eth_src hw_src hw_dst vid =
     mac_bytes eth_dst @ mac_bytes eth_src
     @ (if vid AND BATADV_VLAN_HAS_TAG \<noteq> 0 then be16 ETH_P_8021Q @ be16 (vid AND VLAN_VID_MASK) else [])
     @ be16 ETH_P_ARP
     @ be16 1 @ be16 ETH_P_IP @ [6, 4] @ be16 2
     @ mac_bytes hw_src @ [0, 0, 0, 0] @ hw_dst @ [0, 0, 0, 0]"

definition bla_claim_dst :: "bla \<Rightarrow> u8 \<Rightarrow> bytes" where
  "bla_claim_dst bl claimtype = bla_magic bl @ [claimtype] @ be16 (bla_group bl)"

definition bla_add_counter :: "batadv_counters \<Rightarrow> u64 \<Rightarrow> bla \<Rightarrow> bla" where
  "bla_add_counter idx cnt bl =
     bl\<lparr>bl_mesh := (bl_mesh bl)\<lparr>ms_priv := batadv_add_counter idx cnt (ms_priv (bl_mesh bl))\<rparr>\<rparr>"

definition bla_primary_if :: "bla \<Rightarrow> mac option" where
  "bla_primary_if bl = map_option hi_dev_addr (batadv_primary_if_get_selected (ms_priv (bl_mesh bl)))"

definition batadv_bla_send_claim :: "bla_kenv \<Rightarrow> mac \<Rightarrow> u16 \<Rightarrow> u8 \<Rightarrow> bla \<Rightarrow> bla" where
  "batadv_bla_send_claim k mac vid claimtype bl =
     (case bla_primary_if bl of
        None \<Rightarrow> bl
      | Some dev_addr \<Rightarrow>
          if \<not> bla_skb_ok k claimtype mac vid then bl
          else
            let eth_dst = (if claimtype = BATADV_CLAIM_TYPE_REQUEST then mac else Mac 255 255 255 255 255 255);
                eth_src = (if claimtype = BATADV_CLAIM_TYPE_CLAIM \<or> claimtype = BATADV_CLAIM_TYPE_LOOPDETECT
                            then mac else dev_addr);
                hw_src = (if claimtype = BATADV_CLAIM_TYPE_UNCLAIM \<or> claimtype = BATADV_CLAIM_TYPE_ANNOUNCE
                             \<or> claimtype = BATADV_CLAIM_TYPE_REQUEST then mac else dev_addr);
                frame = bla_claim_frame eth_dst eth_src hw_src (bla_claim_dst bl claimtype) vid in
            bla_call (Bla_netif_rx frame)
              (bla_add_counter BATADV_CNT_RX_BYTES (of_nat (length frame))
                 (bla_add_counter BATADV_CNT_RX 1 bl)))"

definition batadv_bla_send_announce :: "bla_kenv \<Rightarrow> batadv_bla_backbone_gw \<Rightarrow> bla \<Rightarrow> bla" where
  "batadv_bla_send_announce k backbone_gw bl =
     batadv_bla_send_claim k (get_mac (batadv_announce_mac @ be16 (bg_crc backbone_gw)))
       (bg_vid backbone_gw) BATADV_CLAIM_TYPE_ANNOUNCE bl"

text \<open>A queued loop report is worked off.\<close>

definition batadv_bla_loopdetect_report :: "bla \<Rightarrow> bla" where
  "batadv_bla_loopdetect_report bl =
     (case bl_reports bl of
        [] \<Rightarrow> bl
      | (p, vid) # rest \<Rightarrow> bla_call (Bla_throw_uevent vid) (bl\<lparr>bl_reports := rest\<rparr>))"

section \<open>Gateways and claims\<close>

text \<open>
  A claim that is unlinked and not referenced any more takes its address out of the checksum
  of its gateway (\<^verbatim>\<open>batadv_claim_release\<close>).
\<close>

definition batadv_claim_release :: "bla_kenv \<Rightarrow> batadv_bla_claim \<Rightarrow> bla \<Rightarrow> bla" where
  "batadv_claim_release k claim bl =
     bla_gw_upd (bc_backbone_gw claim)
       (\<lambda>gw. gw\<lparr>bg_crc := bg_crc gw XOR crc16 k 0 (mac_bytes (bc_addr claim))\<rparr>) bl"

definition batadv_bla_del_backbone_claims :: "bla_kenv \<Rightarrow> nat \<Rightarrow> bla \<Rightarrow> bla" where
  "batadv_bla_del_backbone_claims k p bl =
     (case bla_claim_hash bl of
        None \<Rightarrow> bl
      | Some hash \<Rightarrow>
          let gone = filter (\<lambda>c. bc_backbone_gw c = p) (concat (table hash));
              bl = foldl (\<lambda>bl c. batadv_claim_release k c bl)
                     (bl\<lparr>bla_claim_hash := Some (hash\<lparr>table := map (filter (\<lambda>c. bc_backbone_gw c \<noteq> p)) (table hash)\<rparr>)\<rparr>)
                     gone in
          bla_gw_upd p (\<lambda>gw. gw\<lparr>bg_crc := BATADV_BLA_CRC_INIT\<rparr>) bl)"

definition batadv_bla_get_backbone_gw :: "bla_kenv \<Rightarrow> mac \<Rightarrow> u16 \<Rightarrow> bool \<Rightarrow> bla \<Rightarrow> nat option \<times> bla" where
  "batadv_bla_get_backbone_gw k orig vid own_backbone bl =
     (case batadv_backbone_hash_find k bl orig vid of
        Some entry \<Rightarrow> (Some (bg_ptr entry), bl)
      | None \<Rightarrow>
          (case bla_new_gw k orig vid of
             None \<Rightarrow> (None, bl)
           | Some p \<Rightarrow>
               let entry = \<lparr>bg_ptr = p, bg_orig = orig, bg_vid = vid, bg_lasttime = jiffies k,
                            bg_wait_periods = 0, bg_request_sent = 0, bg_crc = BATADV_BLA_CRC_INIT\<rparr> in
               (case batadv_hash_add (bla_backbone_hash bl) batadv_compare_backbone_gw
                       (batadv_choose_backbone_gw (jhash k)) (orig, vid) entry of
                  (hash_added, hash) \<Rightarrow>
                    if hash_added \<noteq> 0 then (None, bl)
                    else
                      let bl = bl\<lparr>bla_backbone_hash := hash\<rparr>;
                          bl = (if batadv_orig_hash_find k (ms_priv (bl_mesh bl)) orig \<noteq> None
                                then bl\<lparr>bl_mesh := batadv_tt_global_del_orig k orig (uint vid) (bl_mesh bl)\<rparr>
                                else bl) in
                      (Some p,
                       if own_backbone then
                         let bl = batadv_bla_send_announce k entry bl in
                         bla_gw_upd p (\<lambda>gw. gw\<lparr>bg_request_sent := bg_request_sent gw + 1,
                                               bg_wait_periods := BATADV_BLA_WAIT_PERIODS\<rparr>)
                           (bl\<lparr>bla_num_requests := bla_num_requests bl + 1\<rparr>)
                       else bl))))"

definition batadv_bla_update_own_backbone_gw :: "bla_kenv \<Rightarrow> mac \<Rightarrow> u16 \<Rightarrow> bla \<Rightarrow> bla" where
  "batadv_bla_update_own_backbone_gw k dev_addr vid bl =
     (case batadv_bla_get_backbone_gw k dev_addr vid True bl of
        (None, bl) \<Rightarrow> bl
      | (Some p, bl) \<Rightarrow> bla_gw_upd p (\<lambda>gw. gw\<lparr>bg_lasttime := jiffies k\<rparr>) bl)"

definition batadv_bla_answer_request :: "bla_kenv \<Rightarrow> mac \<Rightarrow> u16 \<Rightarrow> bla \<Rightarrow> bla" where
  "batadv_bla_answer_request k dev_addr vid bl =
     (case batadv_backbone_hash_find k bl dev_addr vid of
        None \<Rightarrow> bl
      | Some backbone_gw \<Rightarrow>
          batadv_bla_send_announce k backbone_gw
            (foldl (\<lambda>bl claim.
               if bc_backbone_gw claim \<noteq> bg_ptr backbone_gw then bl
               else batadv_bla_send_claim k (bc_addr claim) (bc_vid claim) BATADV_CLAIM_TYPE_CLAIM bl)
              bl (bla_claims bl)))"

definition batadv_bla_send_request :: "bla_kenv \<Rightarrow> nat \<Rightarrow> bla \<Rightarrow> bla" where
  "batadv_bla_send_request k p bl =
     (case bla_gw bl p of
        None \<Rightarrow> bl
      | Some backbone_gw \<Rightarrow>
          let bl = batadv_bla_del_backbone_claims k p bl;
              bl = batadv_bla_send_claim k (bg_orig backbone_gw) (bg_vid backbone_gw)
                     BATADV_CLAIM_TYPE_REQUEST bl in
          if bg_request_sent backbone_gw = 0
          then bla_gw_upd p (\<lambda>gw. gw\<lparr>bg_request_sent := 1\<rparr>)
                 (bl\<lparr>bla_num_requests := bla_num_requests bl + 1\<rparr>)
          else bl)"

definition bla_gw_xor :: "bla_kenv \<Rightarrow> nat \<Rightarrow> mac \<Rightarrow> bla \<Rightarrow> bla" where
  "bla_gw_xor k p addr bl =
     bla_gw_upd p (\<lambda>gw. gw\<lparr>bg_crc := bg_crc gw XOR crc16 k 0 (mac_bytes addr)\<rparr>) bl"

definition batadv_bla_add_claim :: "bla_kenv \<Rightarrow> mac \<Rightarrow> u16 \<Rightarrow> nat \<Rightarrow> bla \<Rightarrow> bla" where
  "batadv_bla_add_claim k mac vid p bl =
     (let register = (\<lambda>bl. bla_gw_upd p (\<lambda>gw. gw\<lparr>bg_lasttime := jiffies k\<rparr>) (bla_gw_xor k p mac bl)) in
      case batadv_claim_hash_find k bl mac vid of
        None \<Rightarrow>
          if \<not> bla_new_claim k mac vid then bl
          else
            (case batadv_hash_add (bla_claim_hash bl) batadv_compare_claim
                    (batadv_choose_claim (jhash k)) (mac, vid)
                    \<lparr>bc_addr = mac, bc_vid = vid, bc_backbone_gw = p, bc_lasttime = jiffies k\<rparr> of
               (hash_added, hash) \<Rightarrow>
                 if hash_added \<noteq> 0 then bl else register (bl\<lparr>bla_claim_hash := hash\<rparr>))
      | Some claim \<Rightarrow>
          let bl = bla_claim_upd mac vid (\<lambda>c. c\<lparr>bc_lasttime := jiffies k\<rparr>) bl in
          if bc_backbone_gw claim = p then bl
          else register (bla_gw_xor k (bc_backbone_gw claim) mac
                           (bla_claim_upd mac vid (\<lambda>c. c\<lparr>bc_backbone_gw := p\<rparr>) bl)))"

definition batadv_bla_del_claim :: "bla_kenv \<Rightarrow> mac \<Rightarrow> u16 \<Rightarrow> bla \<Rightarrow> bla" where
  "batadv_bla_del_claim k mac vid bl =
     (case bla_claim_hash bl of
        None \<Rightarrow> bl
      | Some hash \<Rightarrow>
          (case batadv_hash_remove hash batadv_compare_claim (batadv_choose_claim (jhash k)) (mac, vid) of
             (None, _) \<Rightarrow> bl
           | (Some claim, hash) \<Rightarrow> batadv_claim_release k claim (bl\<lparr>bla_claim_hash := Some hash\<rparr>)))"

section \<open>Receiving claim frames\<close>

definition batadv_handle_announce :: "bla_kenv \<Rightarrow> mac \<Rightarrow> mac \<Rightarrow> u16 \<Rightarrow> bla \<Rightarrow> bool \<times> bla" where
  "batadv_handle_announce k an_addr backbone_addr vid bl =
     (if take 4 (mac_bytes an_addr) \<noteq> batadv_announce_mac then (False, bl)
      else
        (case batadv_bla_get_backbone_gw k backbone_addr vid False bl of
           (None, bl) \<Rightarrow> (True, bl)
         | (Some p, bl) \<Rightarrow>
             let bl = bla_gw_upd p (\<lambda>gw. gw\<lparr>bg_lasttime := jiffies k\<rparr>) bl;
                 crc = get_be16 (drop 4 (mac_bytes an_addr)) in
             (True,
              case bla_gw bl p of
                None \<Rightarrow> bl
              | Some backbone_gw \<Rightarrow>
                  if bg_crc backbone_gw \<noteq> crc then batadv_bla_send_request k p bl
                  else if bg_request_sent backbone_gw \<noteq> 0
                  then bla_gw_upd p (\<lambda>gw. gw\<lparr>bg_request_sent := 0\<rparr>)
                         (bl\<lparr>bla_num_requests := bla_num_requests bl - 1\<rparr>)
                  else bl)))"

definition batadv_handle_request :: "bla_kenv \<Rightarrow> mac \<Rightarrow> mac \<Rightarrow> mac \<Rightarrow> u16 \<Rightarrow> bla \<Rightarrow> bool \<times> bla" where
  "batadv_handle_request k dev_addr backbone_addr eth_dst vid bl =
     (if \<not> batadv_compare_eth backbone_addr eth_dst then (False, bl)
      else if \<not> batadv_compare_eth eth_dst dev_addr then (True, bl)
      else (True, batadv_bla_answer_request k dev_addr vid bl))"

text \<open>\<open>primary_if\<close> is the address of the primary interface, \<open>None\<close> when the caller has none.\<close>

definition batadv_handle_unclaim :: "bla_kenv \<Rightarrow> mac option \<Rightarrow> mac \<Rightarrow> mac \<Rightarrow> u16 \<Rightarrow> bla \<Rightarrow> bool \<times> bla" where
  "batadv_handle_unclaim k primary_if backbone_addr claim_addr vid bl =
     (let bl = (if primary_if = Some backbone_addr
                then batadv_bla_send_claim k claim_addr vid BATADV_CLAIM_TYPE_UNCLAIM bl else bl) in
      case batadv_backbone_hash_find k bl backbone_addr vid of
        None \<Rightarrow> (True, bl)
      | Some _ \<Rightarrow> (True, batadv_bla_del_claim k claim_addr vid bl))"

definition batadv_handle_claim :: "bla_kenv \<Rightarrow> mac \<Rightarrow> mac \<Rightarrow> mac \<Rightarrow> u16 \<Rightarrow> bla \<Rightarrow> bool \<times> bla" where
  "batadv_handle_claim k dev_addr backbone_addr claim_addr vid bl =
     (case batadv_bla_get_backbone_gw k backbone_addr vid False bl of
        (None, bl) \<Rightarrow> (True, bl)
      | (Some p, bl) \<Rightarrow>
          let bl = batadv_bla_add_claim k claim_addr vid p bl in
          (True, if batadv_compare_eth backbone_addr dev_addr
                 then batadv_bla_send_claim k claim_addr vid BATADV_CLAIM_TYPE_CLAIM bl else bl))"

text \<open>\<open>ctype\<close> and \<open>grp\<close> are the fields of the frame's claim destination, \<open>grp\<close> in host order.\<close>

definition batadv_check_claim_group ::
    "bla_kenv \<Rightarrow> mac \<Rightarrow> mac \<Rightarrow> u8 \<Rightarrow> u16 \<Rightarrow> mac \<Rightarrow> bla \<Rightarrow> int \<times> bla" where
  "batadv_check_claim_group k dev_addr hw_src ctype grp eth_src bl =
     (if ctype > BATADV_CLAIM_TYPE_REQUEST then (0, bl)
      else
        let backbone_addr = (if ctype = BATADV_CLAIM_TYPE_CLAIM then hw_src else eth_src) in
        if batadv_compare_eth backbone_addr dev_addr then (0, bl)
        else if grp = bla_group bl then (2, bl)
        else if batadv_orig_hash_find k (ms_priv (bl_mesh bl)) backbone_addr = None then (1, bl)
        else (2, if grp > bla_group bl then bl\<lparr>bla_group := grp\<rparr> else bl))"

text \<open>
  \<^verbatim>\<open>main.c\<close>: the VLAN of a frame whose Ethernet header is at \<open>header_len\<close>; \<open>pull n\<close> is the
  outcome of \<^verbatim>\<open>pskb_may_pull(skb, n)\<close>. Every read is checked.
\<close>

definition batadv_get_vid :: "(nat \<Rightarrow> bool) \<Rightarrow> bytes \<Rightarrow> nat \<Rightarrow> u16 kresult" where
  "batadv_get_vid pull data header_len =
     kbind (read16 data (header_len + 12)) (\<lambda>proto.
       if proto \<noteq> ETH_P_8021Q then Kret (ucast BATADV_NO_FLAGS)
       else if \<not> pull (header_len + 18) then Kret (ucast BATADV_NO_FLAGS)
       else
         kbind (read16 data (header_len + 14)) (\<lambda>tci.
           let vid = tci AND VLAN_VID_MASK in
           if vid = 0 then Kret (ucast BATADV_NO_FLAGS)
           else Kret (vid OR BATADV_VLAN_HAS_TAG)))"

text \<open>The VLAN headers: the inner protocol, the length of the headers, their number; \<open>None\<close> at the end.\<close>

function bla_vlan_loop :: "bytes \<Rightarrow> nat \<Rightarrow> nat \<Rightarrow> (u16 \<times> nat \<times> nat) option" where
  "bla_vlan_loop data headlen vlan_depth =
     (if headlen + VLAN_HLEN > length data then None
      else
        let proto = get_be16 (drop (headlen + 2) data);
            headlen = headlen + VLAN_HLEN;
            vlan_depth = vlan_depth + 1 in
        if proto = ETH_P_8021Q then bla_vlan_loop data headlen vlan_depth
        else Some (proto, headlen, vlan_depth))"
  by pat_completeness auto
termination by (relation "measure (\<lambda>(data, headlen, vlan_depth). length data - headlen)") (auto simp: VLAN_HLEN_def)

declare bla_vlan_loop.simps [simp del]

text \<open>
  \<open>frame\<close> starts with the Ethernet header. The ARP header is behind the VLAN headers, behind
  it the hardware addresses; 28 is \<^verbatim>\<open>arp_hdr_len\<close> of an Ethernet device.
\<close>

definition bla_claim_dispatch ::
    "bla_kenv \<Rightarrow> mac \<Rightarrow> bytes \<Rightarrow> nat \<Rightarrow> u16 \<Rightarrow> nat \<Rightarrow> bla \<Rightarrow> bool \<times> bla" where
  "bla_claim_dispatch k dev_addr frame headlen vid vlan_depth bl =
     (let eth_dst = get_mac frame;
          eth_src = get_mac (drop 6 frame);
          hw_src = get_mac (drop (headlen + 8) frame);
          hw_dst = drop (headlen + 18) frame;
          ctype = hw_dst ! 3 in
      if take 3 hw_dst \<noteq> bla_magic bl then (False, bl)
      else if vlan_depth > 1 then (True, bl)
      else if ctype = BATADV_CLAIM_TYPE_LOOPDETECT then (False, bl)
      else
        (case batadv_check_claim_group k dev_addr hw_src ctype (get_be16 (drop 4 hw_dst)) eth_src bl of
           (ret, bl) \<Rightarrow>
             if ret < 2 then (ret \<noteq> 0, bl)
             else
               let bl = batadv_bla_update_own_backbone_gw k dev_addr vid bl in
               (True,
                if ctype = BATADV_CLAIM_TYPE_CLAIM
                then snd (batadv_handle_claim k dev_addr hw_src eth_src vid bl)
                else if ctype = BATADV_CLAIM_TYPE_UNCLAIM
                then snd (batadv_handle_unclaim k (Some dev_addr) eth_src hw_src vid bl)
                else if ctype = BATADV_CLAIM_TYPE_ANNOUNCE
                then snd (batadv_handle_announce k hw_src eth_src vid bl)
                else if ctype = BATADV_CLAIM_TYPE_REQUEST
                then snd (batadv_handle_request k dev_addr hw_src eth_dst vid bl)
                else bl)))"

definition batadv_bla_process_claim ::
    "bla_kenv \<Rightarrow> (nat \<Rightarrow> bool) \<Rightarrow> mac \<Rightarrow> bytes \<Rightarrow> bla \<Rightarrow> (bool \<times> bla) kresult" where
  "batadv_bla_process_claim k pull dev_addr frame bl =
     kbind (batadv_get_vid pull frame 0) (\<lambda>vid.
     kbind (read16 frame 12) (\<lambda>proto.
       case (if vid AND BATADV_VLAN_HAS_TAG \<noteq> 0 then bla_vlan_loop frame ETH_HLEN 0
             else Some (proto, ETH_HLEN, 0)) of
         None \<Rightarrow> Kret (False, bl)
       | Some (proto, headlen, vlan_depth) \<Rightarrow>
           if proto \<noteq> ETH_P_ARP then Kret (False, bl)
           else if \<not> pull (headlen + 28) then Kret (False, bl)
           else
             kbind (read16 frame headlen) (\<lambda>ar_hrd.
             kbind (read16 frame (headlen + 2)) (\<lambda>ar_pro.
             kbind (read8 frame (headlen + 4)) (\<lambda>ar_hln.
             kbind (read8 frame (headlen + 5)) (\<lambda>ar_pln.
               if ar_hrd \<noteq> 1 then Kret (False, bl)
               else if ar_pro \<noteq> ETH_P_IP then Kret (False, bl)
               else if ar_hln \<noteq> 6 then Kret (False, bl)
               else if ar_pln \<noteq> 4 then Kret (False, bl)
               else if length frame < headlen + 24 then Kernel_bug
               else Kret (bla_claim_dispatch k dev_addr frame headlen vid vlan_depth bl)))))))"

section \<open>Purging and periodic work\<close>

definition batadv_bla_purge_backbone_gw :: "bla_kenv \<Rightarrow> bool \<Rightarrow> bla \<Rightarrow> bla" where
  "batadv_bla_purge_backbone_gw k now bl =
     foldl (\<lambda>bl backbone_gw.
       if \<not> now \<and> \<not> tt_timed_out k (bg_lasttime backbone_gw) BATADV_BLA_BACKBONE_TIMEOUT then bl
       else
         let bl = (if bg_request_sent backbone_gw \<noteq> 0
                   then bl\<lparr>bla_num_requests := bla_num_requests bl - 1\<rparr> else bl);
             bl = batadv_bla_del_backbone_claims k (bg_ptr backbone_gw) bl in
         bl\<lparr>bla_backbone_hash := map_option
              (\<lambda>hash. hash\<lparr>table := map (filter (\<lambda>gw. bg_ptr gw \<noteq> bg_ptr backbone_gw)) (table hash)\<rparr>)
              (bla_backbone_hash bl)\<rparr>)
       bl (bla_gws bl)"

text \<open>A claim whose gateway object is gone is never in the table (it is a lemma).\<close>

definition batadv_bla_purge_claims :: "bla_kenv \<Rightarrow> mac option \<Rightarrow> bool \<Rightarrow> bla \<Rightarrow> bla" where
  "batadv_bla_purge_claims k primary_if now bl =
     foldl (\<lambda>bl claim.
       case bla_gw bl (bc_backbone_gw claim) of
         None \<Rightarrow> bl
       | Some backbone_gw \<Rightarrow>
           if \<not> now \<and> (primary_if \<noteq> Some (bg_orig backbone_gw)
                       \<or> \<not> tt_timed_out k (bc_lasttime claim) BATADV_BLA_CLAIM_TIMEOUT)
           then bl
           else snd (batadv_handle_unclaim k primary_if (bg_orig backbone_gw) (bc_addr claim) (bc_vid claim) bl))
       bl (bla_claims bl)"

text \<open>The entries stay where they are in the table when the address changes.\<close>

definition batadv_bla_update_orig_address :: "bla_kenv \<Rightarrow> mac \<Rightarrow> mac option \<Rightarrow> bla \<Rightarrow> bla" where
  "batadv_bla_update_orig_address k primary_if oldif bl =
     (let bl = bl\<lparr>bla_group := crc16 k 0 (mac_bytes primary_if)\<rparr>;
          oldif = (if bl_bridge_loop_avoidance bl then oldif else None) in
      case oldif of
        None \<Rightarrow> batadv_bla_purge_backbone_gw k True (batadv_bla_purge_claims k None True bl)
      | Some old_addr \<Rightarrow>
          foldl (\<lambda>bl backbone_gw.
            if \<not> batadv_compare_eth (bg_orig backbone_gw) old_addr then bl
            else
              batadv_bla_send_announce k (backbone_gw\<lparr>bg_orig := primary_if\<rparr>)
                (bla_gw_upd (bg_ptr backbone_gw) (\<lambda>gw. gw\<lparr>bg_orig := primary_if\<rparr>) bl))
            bl (bla_gws bl))"

definition batadv_bla_status_update :: "bla_kenv \<Rightarrow> bla \<Rightarrow> bla" where
  "batadv_bla_status_update k bl =
     (case bla_primary_if bl of
        None \<Rightarrow> bl
      | Some primary_if \<Rightarrow> batadv_bla_update_orig_address k primary_if (Some primary_if) bl)"

definition batadv_bla_send_loopdetect :: "bla_kenv \<Rightarrow> batadv_bla_backbone_gw \<Rightarrow> bla \<Rightarrow> bla" where
  "batadv_bla_send_loopdetect k backbone_gw bl =
     batadv_bla_send_claim k (bla_loopdetect_addr bl) (bg_vid backbone_gw) BATADV_CLAIM_TYPE_LOOPDETECT bl"

fun bla_loopdetect_mac :: "mac \<Rightarrow> mac" where
  "bla_loopdetect_mac (Mac a b c d e f) = Mac 0xba 0xbe c d e f"

text \<open>One own gateway in the periodic walk.\<close>

definition bla_periodic_gw :: "bla_kenv \<Rightarrow> bool \<Rightarrow> batadv_bla_backbone_gw \<Rightarrow> bla \<Rightarrow> bla" where
  "bla_periodic_gw k send_loopdetect backbone_gw bl =
     (let p = bg_ptr backbone_gw;
          bl = bla_gw_upd p (\<lambda>gw. gw\<lparr>bg_lasttime := jiffies k\<rparr>) bl;
          bl = batadv_bla_send_announce k backbone_gw bl;
          bl = (if send_loopdetect then batadv_bla_send_loopdetect k backbone_gw bl else bl) in
      if bg_request_sent backbone_gw = 0 then bl
      else
        let bl = bla_gw_upd p (\<lambda>gw. gw\<lparr>bg_wait_periods := bg_wait_periods gw - 1\<rparr>) bl in
        if bg_wait_periods backbone_gw - 1 \<noteq> 0 then bl
        else bla_gw_upd p (\<lambda>gw. gw\<lparr>bg_request_sent := 0\<rparr>)
               (bl\<lparr>bla_num_requests := bla_num_requests bl - 1\<rparr>))"

definition batadv_bla_periodic_work :: "bla_kenv \<Rightarrow> bla \<Rightarrow> bla" where
  "batadv_bla_periodic_work k bl =
     bla_call (Bla_queue_work BATADV_BLA_PERIOD_LENGTH)
       (case bla_primary_if bl of
          None \<Rightarrow> bl
        | Some primary_if \<Rightarrow>
            let bl = batadv_bla_purge_claims k (Some primary_if) False bl;
                bl = batadv_bla_purge_backbone_gw k False bl in
            if \<not> bl_bridge_loop_avoidance bl then bl
            else
              let bl = bl\<lparr>bla_loopdetect_next := bla_loopdetect_next bl - 1\<rparr>;
                  send_loopdetect = (bla_loopdetect_next bl = 0);
                  bl = (if send_loopdetect
                        then bl\<lparr>bla_loopdetect_addr := bla_loopdetect_mac (bla_random_addr k),
                                bla_loopdetect_lasttime := jiffies k,
                                bla_loopdetect_next := BATADV_BLA_LOOPDETECT_PERIODS\<rparr>
                        else bl) in
              foldl (\<lambda>bl backbone_gw.
                if \<not> batadv_compare_eth (bg_orig backbone_gw) primary_if then bl
                else bla_periodic_gw k send_loopdetect backbone_gw bl) bl (bla_gws bl))"

section \<open>Set-up and teardown\<close>

definition batadv_bla_init :: "bla_kenv \<Rightarrow> bool \<times> bool \<times> bool \<Rightarrow> bool \<times> bool \<times> bool \<Rightarrow> bla \<Rightarrow> int \<times> bla" where
  "batadv_bla_init k cok gok bl =
     (let entrytime = jiffies k - msecs_to_jiffies k BATADV_DUPLIST_TIMEOUT;
          bl = bl\<lparr>bla_magic := [0xff, 0x43, 0x05],
                  bla_group := (case bla_primary_if bl of
                      Some primary_if \<Rightarrow> crc16 k 0 (mac_bytes primary_if) | None \<Rightarrow> 0),
                  bla_bcast_duplist := map (\<lambda>e. e\<lparr>dl_entrytime := entrytime\<rparr>) (bla_bcast_duplist bl),
                  bla_bcast_duplist_curr := 0,
                  bla_loopdetect_next := BATADV_BLA_LOOPDETECT_PERIODS\<rparr> in
      if bla_claim_hash bl \<noteq> None then (0, bl)
      else
        (case cok of (c1, c2, c3) \<Rightarrow> case batadv_hash_new c1 c2 c3 128 of
           None \<Rightarrow> (- ENOMEM, bl)
         | Some claim_hash \<Rightarrow>
             (case gok of (g1, g2, g3) \<Rightarrow> case batadv_hash_new g1 g2 g3 32 of
                None \<Rightarrow> (- ENOMEM, bl\<lparr>bla_claim_hash := Some claim_hash, bla_backbone_hash := None\<rparr>)
              | Some backbone_hash \<Rightarrow>
                  (0, bla_call (Bla_queue_work BATADV_BLA_PERIOD_LENGTH)
                        (bl\<lparr>bla_claim_hash := Some claim_hash, bla_backbone_hash := Some backbone_hash\<rparr>)))))"

definition batadv_bla_free :: "bla_kenv \<Rightarrow> bla \<Rightarrow> bla" where
  "batadv_bla_free k bl =
     (let bl = (if bla_claim_hash bl \<noteq> None
                then (batadv_bla_purge_claims k (bla_primary_if bl) True bl)\<lparr>bla_claim_hash := None\<rparr>
                else bl) in
      if bla_backbone_hash bl \<noteq> None
      then (batadv_bla_purge_backbone_gw k True bl)\<lparr>bla_backbone_hash := None\<rparr>
      else bl)"

section \<open>Duplicate broadcasts\<close>

text \<open>
  The ring is searched from the newest entry on: \<open>Some True\<close> for a duplicate, \<open>None\<close> when
  the search ended without one.
\<close>

fun duplist_search :: "'k kclock_scheme \<Rightarrow> u32 \<Rightarrow> mac option \<Rightarrow> batadv_bcast_duplist_entry list \<Rightarrow> bool" where
  "duplist_search k crc orig [] = False"
| "duplist_search k crc orig (entry # rest) =
     (if tt_timed_out k (dl_entrytime entry) BATADV_DUPLIST_TIMEOUT then False
      else if dl_crc entry \<noteq> crc then duplist_search k crc orig rest
      else if (case orig of None \<Rightarrow> False
               | Some o1 \<Rightarrow> \<not> is_zero_ether_addr o1 \<and> \<not> is_zero_ether_addr (dl_orig entry)
                            \<and> batadv_compare_eth (dl_orig entry) o1)
      then duplist_search k crc orig rest
      else True)"

definition batadv_bla_check_duplist ::
    "bla_kenv \<Rightarrow> bytes \<Rightarrow> nat \<Rightarrow> mac option \<Rightarrow> bla \<Rightarrow> bool \<times> bla" where
  "batadv_bla_check_duplist k data payload_offset orig bl =
     (let crc = crc32c k 0 (drop payload_offset data);
          ring = map (\<lambda>i. bla_bcast_duplist bl ! ((bla_bcast_duplist_curr bl + i) mod BATADV_DUPLIST_SIZE))
                   [0..<BATADV_DUPLIST_SIZE] in
      if duplist_search k crc orig ring then (True, bl)
      else
        let curr = (bla_bcast_duplist_curr bl + BATADV_DUPLIST_SIZE - 1) mod BATADV_DUPLIST_SIZE in
        (False, bl\<lparr>bla_bcast_duplist := (bla_bcast_duplist bl)[curr :=
                     \<lparr>dl_orig = (case orig of Some o1 \<Rightarrow> o1 | None \<Rightarrow> Mac 0 0 0 0 0 0),
                      dl_crc = crc, dl_entrytime = jiffies k\<rparr>],
                   bla_bcast_duplist_curr := curr\<rparr>))"

definition batadv_bla_check_ucast_duplist :: "bla_kenv \<Rightarrow> bytes \<Rightarrow> bla \<Rightarrow> bool \<times> bla" where
  "batadv_bla_check_ucast_duplist k data bl = batadv_bla_check_duplist k data 0 None bl"

definition batadv_bla_check_bcast_duplist :: "bla_kenv \<Rightarrow> bytes \<Rightarrow> bla \<Rightarrow> bool \<times> bla" where
  "batadv_bla_check_bcast_duplist k data bl =
     batadv_bla_check_duplist k data 14 (Some (bcast_orig (get_bcast_packet data))) bl"

section \<open>Queries\<close>

definition batadv_bla_is_backbone_gw_orig :: "bla \<Rightarrow> mac \<Rightarrow> u16 \<Rightarrow> bool" where
  "batadv_bla_is_backbone_gw_orig bl orig vid =
     (if \<not> bl_bridge_loop_avoidance bl then False
      else \<exists>backbone_gw \<in> set (bla_gws bl). batadv_compare_eth (bg_orig backbone_gw) orig \<and> bg_vid backbone_gw = vid)"

definition batadv_bla_is_backbone_gw ::
    "'k kenv_scheme \<Rightarrow> (nat \<Rightarrow> bool) \<Rightarrow> bytes \<Rightarrow> mac \<Rightarrow> nat \<Rightarrow> bla \<Rightarrow> bool kresult" where
  "batadv_bla_is_backbone_gw k pull data orig hdr_size bl =
     (if \<not> bl_bridge_loop_avoidance bl then Kret False
      else if \<not> pull (hdr_size + ETH_HLEN) then Kret False
      else kbind (batadv_get_vid pull data hdr_size) (\<lambda>vid.
             Kret (batadv_backbone_hash_find k bl orig vid \<noteq> None)))"

definition bla_own_claim :: "bla \<Rightarrow> mac \<Rightarrow> batadv_bla_claim \<Rightarrow> bool" where
  "bla_own_claim bl dev_addr claim =
     (case bla_gw bl (bc_backbone_gw claim) of
        None \<Rightarrow> False
      | Some backbone_gw \<Rightarrow> batadv_compare_eth (bg_orig backbone_gw) dev_addr)"

definition batadv_bla_check_claim :: "'k kenv_scheme \<Rightarrow> bla \<Rightarrow> mac \<Rightarrow> u16 \<Rightarrow> bool" where
  "batadv_bla_check_claim k bl addr vid =
     (if \<not> bl_bridge_loop_avoidance bl then True
      else (case bla_primary_if bl of
              None \<Rightarrow> True
            | Some primary_if \<Rightarrow>
                (case batadv_claim_hash_find k bl addr vid of
                   None \<Rightarrow> True
                 | Some claim \<Rightarrow> bla_own_claim bl primary_if claim)))"

section \<open>Frames from and to the mesh\<close>

definition batadv_bla_loopdetect_check :: "bla_kenv \<Rightarrow> mac \<Rightarrow> mac \<Rightarrow> u16 \<Rightarrow> bla \<Rightarrow> bool \<times> bla" where
  "batadv_bla_loopdetect_check k eth_src primary_if vid bl =
     (if \<not> batadv_compare_eth eth_src (bla_loopdetect_addr bl) then (False, bl)
      else if tt_timed_out k (bla_loopdetect_lasttime bl) BATADV_BLA_LOOPDETECT_TIMEOUT then (True, bl)
      else
        (case batadv_bla_get_backbone_gw k primary_if vid True bl of
           (None, bl) \<Rightarrow> (True, bl)
         | (Some p, bl) \<Rightarrow>
             (True, if p \<in> fst ` set (bl_reports bl) then bl
                    else bl\<lparr>bl_reports := bl_reports bl @ [(p, vid)]\<rparr>)))"

text \<open>
  A frame from the mesh: its Ethernet addresses, the data behind the Ethernet header, the
  VLAN and the type of the packet it came in. The result: whether it was consumed.
\<close>

definition batadv_bla_rx ::
    "bla_kenv \<Rightarrow> mac \<Rightarrow> mac \<Rightarrow> bytes \<Rightarrow> u16 \<Rightarrow> u8 \<Rightarrow> bla \<Rightarrow> bool \<times> bla" where
  "batadv_bla_rx k eth_dst eth_src data vid packet_type bl =
     (case bla_primary_if bl of
        None \<Rightarrow> (True, bl)
      | Some primary_if \<Rightarrow>
          let allow = (\<lambda>bl. (False, batadv_bla_update_own_backbone_gw k primary_if vid bl));
              mcast = is_multicast_ether_addr eth_dst in
          if \<not> bl_bridge_loop_avoidance bl then allow bl
          else
            (case batadv_bla_loopdetect_check k eth_src primary_if vid bl of
               (True, bl) \<Rightarrow> (True, bl)
             | (False, bl) \<Rightarrow>
                 if bla_num_requests bl \<noteq> 0 \<and> mcast
                    \<and> (packet_type = BATADV_BCAST \<or> packet_type = BATADV_UNICAST) then (True, bl)
                 else
                   (case (if mcast \<and> packet_type = BATADV_UNICAST
                          then batadv_bla_check_ucast_duplist k data bl else (False, bl)) of
                      (True, bl) \<Rightarrow> (True, bl)
                    | (False, bl) \<Rightarrow>
                        (case batadv_claim_hash_find k bl eth_src vid of
                           None \<Rightarrow> allow (snd (batadv_handle_claim k primary_if primary_if eth_src vid bl))
                         | Some claim \<Rightarrow>
                             if bla_own_claim bl primary_if claim
                             then allow (bla_claim_upd eth_src vid (\<lambda>c. c\<lparr>bc_lasttime := jiffies k\<rparr>) bl)
                             else if mcast \<and> (packet_type = BATADV_BCAST \<or> packet_type = BATADV_UNICAST)
                             then (True, bl)
                             else allow (snd (batadv_handle_claim k primary_if primary_if eth_src vid bl))))))"

text \<open>A frame for the mesh, with its Ethernet header. The result: whether it is not to be sent.\<close>

definition batadv_bla_tx ::
    "bla_kenv \<Rightarrow> (nat \<Rightarrow> bool) \<Rightarrow> bytes \<Rightarrow> u16 \<Rightarrow> bla \<Rightarrow> (bool \<times> bla) kresult" where
  "batadv_bla_tx k pull frame vid bl =
     (case bla_primary_if bl of
        None \<Rightarrow> Kret (False, bl)
      | Some primary_if \<Rightarrow>
          let allow = (\<lambda>bl. (False, batadv_bla_update_own_backbone_gw k primary_if vid bl)) in
          if \<not> bl_bridge_loop_avoidance bl then Kret (allow bl)
          else
            kbind (batadv_bla_process_claim k pull primary_if frame bl) (\<lambda>(handled, bl).
              let mcast = is_multicast_ether_addr (get_mac frame);
                  eth_src = get_mac (drop 6 frame) in
              Kret (if handled then (True, bl)
                    else if bla_num_requests bl \<noteq> 0 \<and> mcast then (True, bl)
                    else
                      (case batadv_claim_hash_find k bl eth_src vid of
                         None \<Rightarrow> allow bl
                       | Some claim \<Rightarrow>
                           if bla_own_claim bl primary_if claim then
                             if tt_timed_out k (bc_lasttime claim) 100
                             then allow (snd (batadv_handle_unclaim k (Some primary_if) primary_if eth_src vid bl))
                             else (True, bl)
                           else if mcast then (True, bl)
                           else allow bl))))"

end
