(* ===== verification/Bla_Accounting.thy ===== *)
theory Bla_Accounting
  imports Bridge_Loop_Avoidance Tt_Accounting "HOL-Library.Multiset"
begin

text \<open>
  The accounts of bridge loop avoidance. \<open>gw_inv\<close> states them over lists of gateways and
  claims: no claim dangles, every checksum is the checksum of the claims in the gateway's
  name, the number of requests is the number of waiting gateways. Lemmas about the single
  changes (a claim added, deleted, moved, all claims of a gateway flushed, a gateway added or
  unlinked) carry the preservation by every operation; \<open>bla_step\<close> collects the operations and
  the property is about the states reached from the set-up on. The claim table is an
  interpretation of \<open>hash_client\<close>.
\<close>

section \<open>The tables\<close>

interpretation claim_hash: hash_client bc_key batadv_compare_claim "batadv_choose_claim jh" for jh
  by unfold_locales
    (auto simp: bc_key_def batadv_compare_claim_def batadv_choose_claim_def Let_def word_mod_less_divisor prod_eq_iff)

lemma claim_find_eq:
  "bla_claim_hash bl = Some h \<Longrightarrow> batadv_claim_hash_find k bl a v = claim_hash.hash_find (jhash k) h (a, v)"
  by (simp add: batadv_claim_hash_find_def claim_hash.hash_find_def)

lemma map_as_filter: "map f xs = List.map_filter (\<lambda>x. Some (f x)) xs"
  by (induction xs) (simp_all add: map_filter_simps)

lemma filter_as_filter: "filter P xs = List.map_filter (\<lambda>x. if P x then Some x else None) xs"
  by (induction xs) (simp_all add: map_filter_simps)

lemma mset_concat_upd:
  "i < length t \<Longrightarrow> mset (concat (t[i := b])) + mset (t ! i) = mset (concat t) + mset b"
proof (induction t arbitrary: i)
  case (Cons x t)
  then show ?case by (cases i) (auto simp: ac_simps)
qed simp

lemma mset_del_first: "find P xs = Some x \<Longrightarrow> mset xs = add_mset x (mset (hlist_del_first P xs))"
  by (induction xs) (auto split: if_splits)

section \<open>The accounts of gateways and claims\<close>

definition claim_sum :: "bla_kenv \<Rightarrow> batadv_bla_claim \<Rightarrow> u16" where
  "claim_sum k c = crc16 k 0 (mac_bytes (bc_addr c))"

definition crc_of :: "bla_kenv \<Rightarrow> nat \<Rightarrow> batadv_bla_claim list \<Rightarrow> u16" where
  "crc_of k p cs = fold (\<lambda>c x. if bc_backbone_gw c = p then x XOR claim_sum k c else x) cs 0"

lemma xor_comm3: "(x XOR a) XOR b = (x XOR b) XOR (a :: u16)"
  by (simp add: ac_simps)

lemma crc_fold: "fold (\<lambda>c x. if bc_backbone_gw c = p then x XOR claim_sum k c else x) cs z = z XOR crc_of k p cs"
proof (induction cs arbitrary: z)
  case (Cons c cs)
  have "crc_of k p (c # cs) = (if bc_backbone_gw c = p then claim_sum k c else 0) XOR crc_of k p cs"
    using Cons [of "if bc_backbone_gw c = p then claim_sum k c else 0"] by (auto simp: crc_of_def)
  then show ?case using Cons by (simp add: ac_simps)
qed (simp add: crc_of_def)

lemma crc_of_Nil [simp]: "crc_of k p [] = 0" by (simp add: crc_of_def)

lemma crc_of_Cons [simp]:
  "crc_of k p (c # cs) = (if bc_backbone_gw c = p then claim_sum k c XOR crc_of k p cs else crc_of k p cs)"
  using crc_fold [of p k cs "claim_sum k c"] by (simp add: crc_of_def)

lemma crc_of_perm: "mset cs = mset cs' \<Longrightarrow> crc_of k p cs = crc_of k p cs'"
  unfolding crc_of_def by (rule arg_cong [where f = "\<lambda>f. f 0"], rule fold_multiset_equiv) (auto simp: fun_eq_iff xor_comm3)

lemma crc_of_none: "(\<And>c. c \<in> set cs \<Longrightarrow> bc_backbone_gw c \<noteq> p) \<Longrightarrow> crc_of k p cs = 0"
  by (induction cs) auto

definition waiting :: "batadv_bla_backbone_gw list \<Rightarrow> nat" where
  "waiting gs = length (filter (\<lambda>g. bg_request_sent g \<noteq> 0) gs)"

definition gw_inv :: "bla_kenv \<Rightarrow> batadv_bla_backbone_gw list \<Rightarrow> batadv_bla_claim list \<Rightarrow> u32 \<Rightarrow> bool" where
  "gw_inv k gs cs n \<longleftrightarrow> distinct (map bg_ptr gs)
     \<and> (\<forall>c \<in> set cs. \<exists>g \<in> set gs. bg_ptr g = bc_backbone_gw c \<and> bg_vid g = bc_vid c)
     \<and> (\<forall>g \<in> set gs. bg_crc g = crc_of k (bg_ptr g) cs \<and> bg_request_sent g \<in> {0, 1})
     \<and> n = of_nat (waiting gs)"

lemma gw_inv_perm:
  assumes "gw_inv k gs cs n" and "mset gs = mset gs'" and "mset cs = mset cs'"
  shows "gw_inv k gs' cs' n"
proof -
  have s: "set gs' = set gs" "set cs' = set cs" using assms(2,3) mset_eq_setD by metis+
  have "mset (map bg_ptr gs) = mset (map bg_ptr gs')" using assms(2) by simp
  then have d: "distinct (map bg_ptr gs') = distinct (map bg_ptr gs)" using mset_eq_imp_distinct_iff by blast
  have "mset (filter (\<lambda>g. bg_request_sent g \<noteq> 0) gs) = mset (filter (\<lambda>g. bg_request_sent g \<noteq> 0) gs')"
    using assms(2) by simp
  then have w: "waiting gs' = waiting gs" unfolding waiting_def by (metis size_mset)
  show ?thesis using assms(1) crc_of_perm [OF assms(3)] by (simp add: gw_inv_def s d w)
qed

definition upd_at :: "nat \<Rightarrow> (batadv_bla_backbone_gw \<Rightarrow> batadv_bla_backbone_gw) \<Rightarrow> batadv_bla_backbone_gw \<Rightarrow> batadv_bla_backbone_gw" where
  "upd_at p f g = (if bg_ptr g = p then f g else g)"

lemma upd_at_other [simp]: "bg_ptr g \<noteq> p \<Longrightarrow> upd_at p f g = g" "upd_at (bg_ptr g) f g = f g"
  by (simp_all add: upd_at_def)

lemma upd_at_field: "(\<And>g. F (f g) = F g) \<Longrightarrow> F (upd_at p f g) = F g"
  by (simp add: upd_at_def)

definition xor_at :: "bla_kenv \<Rightarrow> mac \<Rightarrow> batadv_bla_backbone_gw \<Rightarrow> batadv_bla_backbone_gw" where
  "xor_at k a g = g\<lparr>bg_crc := bg_crc g XOR crc16 k 0 (mac_bytes a)\<rparr>"

lemma xor_at_simps [simp]:
  "bg_ptr (xor_at k a g) = bg_ptr g" "bg_orig (xor_at k a g) = bg_orig g" "bg_vid (xor_at k a g) = bg_vid g"
  "bg_request_sent (xor_at k a g) = bg_request_sent g"
  "bg_crc (xor_at k a g) = bg_crc g XOR crc16 k 0 (mac_bytes a)"
  by (simp_all add: xor_at_def)

lemma waiting_simps [simp]: "waiting [] = 0"
  "waiting (g # gs) = (if bg_request_sent g \<noteq> 0 then Suc (waiting gs) else waiting gs)"
  by (simp_all add: waiting_def)

lemma waiting_keep:
  "(\<And>g. g \<in> set gs \<Longrightarrow> bg_request_sent (f g) = bg_request_sent g) \<Longrightarrow> waiting (map f gs) = waiting gs"
  by (induction gs) simp_all

lemma gw_inv_claims:
  assumes "gw_inv k gs cs n" and "\<And>g. bg_ptr (f g) = bg_ptr g" "\<And>g. bg_vid (f g) = bg_vid g"
    and "\<And>g. bg_request_sent (f g) = bg_request_sent g"
    and "\<And>g. g \<in> set gs \<Longrightarrow> bg_crc (f g) = crc_of k (bg_ptr g) cs'"
    and "\<And>c. c \<in> set cs' \<Longrightarrow> \<exists>g \<in> set gs. bg_ptr g = bc_backbone_gw c \<and> bg_vid g = bc_vid c"
  shows "gw_inv k (map f gs) cs' n"
proof -
  have "map bg_ptr (map f gs) = map bg_ptr gs" by (simp add: assms(2))
  then have d: "distinct (map bg_ptr (map f gs))" using assms(1) by (metis gw_inv_def)
  have w: "waiting (map f gs) = waiting gs" by (rule waiting_keep) (simp add: assms(4))
  show ?thesis
    unfolding gw_inv_def
  proof (intro conjI ballI)
    show "distinct (map bg_ptr (map f gs))" by (rule d)
    show "\<exists>g \<in> set (map f gs). bg_ptr g = bc_backbone_gw c \<and> bg_vid g = bc_vid c" if "c \<in> set cs'" for c
      using assms(6) [OF that] by (auto simp: assms(2,3))
    show "bg_crc g = crc_of k (bg_ptr g) cs'" "bg_request_sent g \<in> {0, 1}" if "g \<in> set (map f gs)" for g
      using that assms(1,5) by (auto simp: assms(2,4) gw_inv_def)
    show "n = of_nat (waiting (map f gs))" using w assms(1) by (simp add: gw_inv_def)
  qed
qed

lemma gw_inv_keep:
  assumes "gw_inv k gs cs n" and "\<And>g. bg_ptr (f g) = bg_ptr g" "\<And>g. bg_vid (f g) = bg_vid g"
    "\<And>g. bg_crc (f g) = bg_crc g" "\<And>g. bg_request_sent (f g) = bg_request_sent g"
  shows "gw_inv k (map (upd_at p f) gs) cs n"
  by (rule gw_inv_claims [OF assms(1)])
    (use assms(1) in \<open>auto simp: gw_inv_def upd_at_def assms(2-5)\<close>)

lemma ptr_apart: "distinct (map bg_ptr (g # gs)) \<Longrightarrow> x \<in> set gs \<Longrightarrow> bg_ptr x \<noteq> bg_ptr g"
  by (metis distinct.simps(2) image_eqI list.set_map list.simps(9))

lemma gw_inv_add:
  assumes "gw_inv k gs cs n" and "bg_ptr g \<notin> bg_ptr ` set gs" and "bg_crc g = 0" and "bg_request_sent g \<in> {0, 1}"
  shows "gw_inv k (g # gs) cs (n + bg_request_sent g)"
proof -
  have "crc_of k (bg_ptr g) cs = 0"
    by (rule crc_of_none) (use assms(1,2) in \<open>auto simp: gw_inv_def; metis image_eqI\<close>)
  then show ?thesis using assms by (auto simp: gw_inv_def)
qed

lemma waiting_upd:
  assumes "distinct (map bg_ptr gs)" and "g \<in> set gs" and "(bg_request_sent g = 0) \<noteq> (r = 0)"
  shows "waiting (map (upd_at (bg_ptr g) (\<lambda>g. g\<lparr>bg_request_sent := r\<rparr>)) gs) =
    (if r = 0 then waiting gs - 1 else waiting gs + 1) \<and> (r = 0 \<longrightarrow> 0 < waiting gs)"
  using assms
proof (induction gs)
  case (Cons h gs)
  show ?case
  proof (cases "h = g")
    case True
    then have "map (upd_at (bg_ptr g) (\<lambda>g. g\<lparr>bg_request_sent := r\<rparr>)) gs = gs"
      using ptr_apart [of g gs] Cons.prems(1) True by (intro map_idI upd_at_other) auto
    then show ?thesis using True Cons.prems(3) by auto
  next
    case False
    then have "bg_ptr h \<noteq> bg_ptr g" "g \<in> set gs" using Cons.prems(1,2) by auto
    then show ?thesis using Cons.IH Cons.prems(1,3) by auto
  qed
qed simp

lemma gw_inv_request:
  assumes "gw_inv k gs cs n" and "g \<in> set gs" and "r \<in> {0, 1}" and "bg_request_sent g \<noteq> r"
  shows "gw_inv k (map (upd_at (bg_ptr g) (\<lambda>g. g\<lparr>bg_request_sent := r\<rparr>)) gs) cs (if r = 0 then n - 1 else n + 1)"
proof -
  let ?f = "\<lambda>g. g\<lparr>bg_request_sent := r\<rparr>"
  have d: "distinct (map bg_ptr gs)" using assms(1) by (simp add: gw_inv_def)
  have "bg_request_sent g \<in> {0, 1}" using assms(1,2) by (auto simp: gw_inv_def)
  then have flip: "(bg_request_sent g = 0) \<noteq> (r = 0)" using assms(3,4) by auto
  note w = waiting_upd [OF d assms(2) flip]
  have f: "bg_ptr (upd_at (bg_ptr g) ?f x) = bg_ptr x" "bg_vid (upd_at (bg_ptr g) ?f x) = bg_vid x"
    "bg_crc (upd_at (bg_ptr g) ?f x) = bg_crc x" for x by (simp_all add: upd_at_def)
  have "map bg_ptr (map (upd_at (bg_ptr g) ?f) gs) = map bg_ptr gs" by (simp add: f)
  then have "distinct (map bg_ptr (map (upd_at (bg_ptr g) ?f) gs))" using d by metis
  moreover have "(if r = 0 then n - 1 else n + 1) = of_nat (waiting (map (upd_at (bg_ptr g) ?f) gs))"
    using w assms(1) by (auto simp: gw_inv_def of_nat_diff)
  moreover have "\<exists>x \<in> set (map (upd_at (bg_ptr g) ?f) gs). bg_ptr x = bc_backbone_gw c \<and> bg_vid x = bc_vid c"
    if "c \<in> set cs" for c using assms(1) that by (auto simp: gw_inv_def f)
  moreover have "bg_crc x = crc_of k (bg_ptr x) cs \<and> bg_request_sent x \<in> {0, 1}"
    if "x \<in> set (map (upd_at (bg_ptr g) ?f) gs)" for x
    using that assms(1,3) by (auto simp: gw_inv_def upd_at_def)
  ultimately show ?thesis unfolding gw_inv_def by (intro conjI ballI) simp_all
qed

text \<open>Claims.\<close>

lemma xor_cancel [simp]: "((x :: u16) XOR a) XOR a = x" "a XOR (a XOR x) = x"
  by (simp_all add: xor.assoc xor.left_commute)

lemma gw_inv_claim_add:
  assumes "gw_inv k gs cs n" and "g \<in> set gs" "bg_ptr g = bc_backbone_gw c" "bg_vid g = bc_vid c"
  shows "gw_inv k (map (upd_at (bc_backbone_gw c) (xor_at k (bc_addr c))) gs) (c # cs) n"
  by (rule gw_inv_claims [OF assms(1)])
    (use assms in \<open>auto simp: gw_inv_def claim_sum_def upd_at_def ac_simps\<close>)

lemma gw_inv_claim_del:
  assumes "gw_inv k gs (c # cs) n"
  shows "gw_inv k (map (upd_at (bc_backbone_gw c) (xor_at k (bc_addr c))) gs) cs n"
  by (rule gw_inv_claims [OF assms])
    (use assms in \<open>auto simp: gw_inv_def claim_sum_def upd_at_def ac_simps\<close>)

lemma gw_inv_claim_move:
  assumes "gw_inv k gs (c # cs) n" and "g \<in> set gs" "bg_ptr g = p" "bg_vid g = bc_vid c"
  shows "gw_inv k (map (upd_at p (xor_at k (bc_addr c))) (map (upd_at (bc_backbone_gw c) (xor_at k (bc_addr c))) gs))
     (c\<lparr>bc_backbone_gw := p\<rparr> # cs) n"
proof -
  let ?g = "upd_at (bc_backbone_gw c) (xor_at k (bc_addr c)) g"
  have "?g \<in> set (map (upd_at (bc_backbone_gw c) (xor_at k (bc_addr c))) gs)" "bg_ptr ?g = p" "bg_vid ?g = bc_vid c"
    using assms(2-4) by (auto simp: upd_at_def)
  from gw_inv_claim_add [OF gw_inv_claim_del [OF assms(1)] this(1), of "c\<lparr>bc_backbone_gw := p\<rparr>"] this(2,3)
  show ?thesis by simp
qed

lemma gw_inv_flush:
  assumes "gw_inv k gs cs n"
  shows "gw_inv k (map (upd_at p (\<lambda>g. g\<lparr>bg_crc := 0\<rparr>)) gs) (filter (\<lambda>c. bc_backbone_gw c \<noteq> p) cs) n"
proof (rule gw_inv_claims [OF assms])
  have other: "crc_of k q (filter (\<lambda>c. bc_backbone_gw c \<noteq> p) cs) = (if q = p then 0 else crc_of k q cs)" for q
    by (induction cs) auto
  show "bg_crc (upd_at p (\<lambda>g. g\<lparr>bg_crc := 0\<rparr>) g) = crc_of k (bg_ptr g) (filter (\<lambda>c. bc_backbone_gw c \<noteq> p) cs)"
    if "g \<in> set gs" for g
    using assms that unfolding other by (auto simp: gw_inv_def upd_at_def)
qed (use assms in \<open>auto simp: gw_inv_def upd_at_def\<close>)

lemma gw_inv_unlink:
  assumes "gw_inv k gs cs n" and "\<And>c. c \<in> set cs \<Longrightarrow> bc_backbone_gw c \<noteq> bg_ptr g" and "g \<in> set gs"
  shows "gw_inv k (filter (\<lambda>x. bg_ptr x \<noteq> bg_ptr g) gs) cs (if bg_request_sent g \<noteq> 0 then n - 1 else n)"
proof -
  have "waiting (filter (\<lambda>x. bg_ptr x \<noteq> bg_ptr g) gs) + (if bg_request_sent g \<noteq> 0 then 1 else 0) = waiting gs"
    if "distinct (map bg_ptr gs)" "g \<in> set gs" for gs
    using that
  proof (induction gs)
    case (Cons h gs)
    show ?case
    proof (cases "h = g")
      case True
      then have "filter (\<lambda>x. bg_ptr x \<noteq> bg_ptr g) gs = gs" using Cons.prems(1) True ptr_apart by (intro filter_True) blast
      then show ?thesis using True by simp
    next
      case False
      then show ?thesis using Cons by auto
    qed
  qed simp
  then have "waiting gs = waiting (filter (\<lambda>x. bg_ptr x \<noteq> bg_ptr g) gs) + (if bg_request_sent g \<noteq> 0 then 1 else 0)"
    using assms(1,3) by (simp add: gw_inv_def)
  moreover have "distinct (map bg_ptr (filter Q gs))" for Q
    using assms(1) by (auto simp: gw_inv_def distinct_map inj_on_def)
  ultimately show ?thesis using assms(1,2) by (fastforce simp: gw_inv_def)
qed

section \<open>Operations on the state\<close>

lemma bla_frame [simp]:
  "bla_backbone_hash (bla_call x bl) = bla_backbone_hash bl" "bla_claim_hash (bla_call x bl) = bla_claim_hash bl"
  "bla_num_requests (bla_call x bl) = bla_num_requests bl"
  "bla_backbone_hash (bla_add_counter i c bl) = bla_backbone_hash bl"
  "bla_claim_hash (bla_add_counter i c bl) = bla_claim_hash bl"
  "bla_num_requests (bla_add_counter i c bl) = bla_num_requests bl"
  by (simp_all add: bla_call_def bla_add_counter_def)

lemma send_claim_frame [simp]:
  "bla_backbone_hash (batadv_bla_send_claim k m v t bl) = bla_backbone_hash bl"
  "bla_claim_hash (batadv_bla_send_claim k m v t bl) = bla_claim_hash bl"
  "bla_num_requests (batadv_bla_send_claim k m v t bl) = bla_num_requests bl"
  "bla_backbone_hash (batadv_bla_send_announce k g bl) = bla_backbone_hash bl"
  "bla_claim_hash (batadv_bla_send_announce k g bl) = bla_claim_hash bl"
  "bla_num_requests (batadv_bla_send_announce k g bl) = bla_num_requests bl"
  by (simp_all add: batadv_bla_send_announce_def batadv_bla_send_claim_def Let_def split: option.split)

lemma gw_upd_eq: "bla_gw_upd p f bl = bl\<lparr>bla_backbone_hash :=
    map_option (\<lambda>hash. hash\<lparr>table := map (map (upd_at p f)) (table hash)\<rparr>) (bla_backbone_hash bl)\<rparr>"
proof -
  have "(\<lambda>gw. if bg_ptr gw = p then f gw else gw) = upd_at p f" by (simp add: fun_eq_iff upd_at_def)
  then show ?thesis by (simp add: bla_gw_upd_def)
qed

lemma gws_upd [simp]: "bla_gws (bla_gw_upd p f bl) = map (upd_at p f) (bla_gws bl)"
  by (auto simp: bla_gws_def gw_upd_eq map_concat split: option.splits)

lemma upd_frame [simp]:
  "bla_claim_hash (bla_gw_upd p f bl) = bla_claim_hash bl"
  "bla_num_requests (bla_gw_upd p f bl) = bla_num_requests bl"
  "bla_backbone_hash (bla_claim_upd a v h bl) = bla_backbone_hash bl"
  "bla_num_requests (bla_claim_upd a v h bl) = bla_num_requests bl"
  by (simp_all add: bla_gw_upd_def bla_claim_upd_def)

text \<open>The shape of the gateway table: enough buckets, whatever is in them.\<close>

definition gw_shape :: "bla \<Rightarrow> bool" where
  "gw_shape bl \<longleftrightarrow> (\<forall>h. bla_backbone_hash bl = Some h \<longrightarrow> 0 < hash_size h \<and> length (table h) = unat (hash_size h))"

definition claims_ok :: "bla_kenv \<Rightarrow> bla \<Rightarrow> bool" where
  "claims_ok k bl \<longleftrightarrow> (\<forall>h. bla_claim_hash bl = Some h \<longrightarrow> claim_hash.hash_ok (jhash k) h)"

definition bla_inv :: "bla_kenv \<Rightarrow> bla \<Rightarrow> bool" where
  "bla_inv k bl \<longleftrightarrow> gw_shape bl \<and> claims_ok k bl \<and> gw_inv k (bla_gws bl) (bla_claims bl) (bla_num_requests bl)"

lemma shape_upd [simp]: "gw_shape (bla_gw_upd p f bl) = gw_shape bl"
  by (auto simp: gw_shape_def bla_gw_upd_def)

lemma inv_same:
  assumes "bla_inv k bl" and "bla_backbone_hash bl' = bla_backbone_hash bl"
    and "bla_claim_hash bl' = bla_claim_hash bl" and "bla_num_requests bl' = bla_num_requests bl"
  shows "bla_inv k bl'"
  using assms by (simp add: bla_inv_def gw_shape_def claims_ok_def bla_gws_def bla_claims_def)

lemma claims_same: "bla_claim_hash bl' = bla_claim_hash bl \<Longrightarrow> bla_claims bl' = bla_claims bl"
  by (simp add: bla_claims_def)

lemma gws_same: "bla_backbone_hash bl' = bla_backbone_hash bl \<Longrightarrow> bla_gws bl' = bla_gws bl"
  by (simp add: bla_gws_def)

lemma inv_gw_field:
  assumes "bla_inv k bl" and "\<And>g. bg_ptr (f g) = bg_ptr g" "\<And>g. bg_vid (f g) = bg_vid g"
    "\<And>g. bg_crc (f g) = bg_crc g" "\<And>g. bg_request_sent (f g) = bg_request_sent g"
  shows "bla_inv k (bla_gw_upd p f bl)"
proof -
  have "gw_inv k (map (upd_at p f) (bla_gws bl)) (bla_claims bl) (bla_num_requests bl)"
    by (rule gw_inv_keep) (use assms in \<open>simp_all add: bla_inv_def\<close>)
  then show ?thesis using assms(1) by (simp add: bla_inv_def claims_ok_def claims_same [of "bla_gw_upd p f bl" bl])
qed

subsection \<open>Gateways\<close>

definition bla_ptrs :: "bla \<Rightarrow> nat set" where
  "bla_ptrs bl = bg_ptr ` set (bla_gws bl)"

lemma gw_find_in: "batadv_backbone_hash_find k bl a v = Some g \<Longrightarrow> gw_shape bl \<Longrightarrow>
    g \<in> set (bla_gws bl) \<and> bg_orig g = a \<and> bg_vid g = v"
proof -
  assume *: "batadv_backbone_hash_find k bl a v = Some g" "gw_shape bl"
  then obtain h where h: "bla_backbone_hash bl = Some h" by (auto simp: batadv_backbone_hash_find_def split: option.splits)
  let ?i = "batadv_choose_backbone_gw (jhash k) (a, v) (hash_size h)"
  have "unat ?i < length (table h)" using *(2) h
    by (simp add: gw_shape_def batadv_choose_backbone_gw_def unat_mod word_less_nat_alt)
  moreover have "g \<in> set (hash_bucket h ?i)" "batadv_compare_backbone_gw g (a, v)"
    using *(1) h by (auto simp: batadv_backbone_hash_find_def Let_def find_Some_iff)
  ultimately show ?thesis using h
    by (auto simp: bla_gws_def hash_bucket_def batadv_compare_backbone_gw_def split: if_splits)
qed

text \<open>Looking for a gateway depends on the addresses and VLANs in the table only.\<close>

lemma gw_find_upd:
  assumes "\<And>g. bg_orig (f g) = bg_orig g" "\<And>g. bg_vid (f g) = bg_vid g" and "gw_shape bl"
  shows "batadv_backbone_hash_find k (bla_gw_upd p f bl) a v = map_option (upd_at p f) (batadv_backbone_hash_find k bl a v)"
proof (cases "bla_backbone_hash bl")
  case (Some h)
  let ?i = "batadv_choose_backbone_gw (jhash k) (a, v) (hash_size h)"
  have "unat ?i < length (table h)" using assms(3) Some
    by (simp add: gw_shape_def batadv_choose_backbone_gw_def unat_mod word_less_nat_alt)
  moreover have "batadv_compare_backbone_gw (upd_at p f g) key = batadv_compare_backbone_gw g key" for g key
    by (simp add: batadv_compare_backbone_gw_def upd_at_def assms(1,2))
  then have "find (\<lambda>g. batadv_compare_backbone_gw g key) (map (upd_at p f) b) =
      map_option (upd_at p f) (find (\<lambda>g. batadv_compare_backbone_gw g key) b)" for key b
    by (induction b) simp_all
  ultimately show ?thesis
    by (simp add: batadv_backbone_hash_find_def gw_upd_eq Some hash_bucket_def)
qed (simp add: batadv_backbone_hash_find_def bla_gw_upd_def)

text \<open>The allocator gives addresses that are not in use, a different one for every gateway.\<close>

definition fresh_gws :: "bla_kenv \<Rightarrow> bla \<Rightarrow> bool" where
  "fresh_gws k bl \<longleftrightarrow>
     (\<forall>a v p. batadv_backbone_hash_find k bl a v = None \<longrightarrow> bla_new_gw k a v = Some p \<longrightarrow> p \<notin> bla_ptrs bl)
     \<and> (\<forall>a v b w p. bla_new_gw k a v = Some p \<longrightarrow> bla_new_gw k b w = Some p \<longrightarrow> a = b \<and> v = w)"

lemma fresh_same:
  assumes "fresh_gws k bl" and "bla_backbone_hash bl' = bla_backbone_hash bl"
  shows "fresh_gws k bl'"
  using assms by (simp add: fresh_gws_def batadv_backbone_hash_find_def bla_ptrs_def gws_same [OF assms(2)])

lemma fresh_upd:
  assumes "fresh_gws k bl" and "\<And>g. bg_orig (f g) = bg_orig g" "\<And>g. bg_vid (f g) = bg_vid g"
    "\<And>g. bg_ptr (f g) = bg_ptr g" and "gw_shape bl"
  shows "fresh_gws k (bla_gw_upd p f bl)"
proof -
  have "bla_ptrs (bla_gw_upd p f bl) = bla_ptrs bl"
    using upd_at_field [of bg_ptr f p] assms(4) by (simp add: bla_ptrs_def image_image)
  then show ?thesis
    using assms(1) gw_find_upd [OF assms(2,3,5), of k p] unfolding fresh_gws_def by (metis option.map_disc_iff)
qed

lemma get_gw_cases:
  assumes "batadv_bla_get_backbone_gw k a v own bl = (r, bl')" and "gw_shape bl"
  obtains (found) g where "batadv_backbone_hash_find k bl a v = Some g" "r = Some (bg_ptr g)" "bl' = bl"
  | (failed) "r = None" "bl' = bl"
  | (new) p g h h1 bl1 where "batadv_backbone_hash_find k bl a v = None" "bla_new_gw k a v = Some p" "r = Some p"
      "g = \<lparr>bg_ptr = p, bg_orig = a, bg_vid = v, bg_lasttime = jiffies k, bg_wait_periods = 0, bg_request_sent = 0, bg_crc = BATADV_BLA_CRC_INIT\<rparr>"
      "bla_backbone_hash bl = Some h"
      "h1 = (set_hash_bucket h (batadv_choose_backbone_gw (jhash k) (a, v) (hash_size h))
          (g # hash_bucket h (batadv_choose_backbone_gw (jhash k) (a, v) (hash_size h))))\<lparr>generation := generation h + 1\<rparr>"
      "bla_backbone_hash bl1 = Some h1" "bla_claim_hash bl1 = bla_claim_hash bl" "bla_num_requests bl1 = bla_num_requests bl"
      "bl' = (if own then bla_gw_upd p (\<lambda>gw. gw\<lparr>bg_request_sent := bg_request_sent gw + 1, bg_wait_periods := BATADV_BLA_WAIT_PERIODS\<rparr>)
          (bl1\<lparr>bla_num_requests := bla_num_requests bl1 + 1\<rparr>) else bl1)"
proof (cases "batadv_backbone_hash_find k bl a v")
  case (Some g)
  show ?thesis by (rule found [OF Some]) (use assms(1) Some in \<open>simp_all add: batadv_bla_get_backbone_gw_def\<close>)
next
  case None
  show ?thesis
  proof (cases "bla_new_gw k a v")
    case None': None
    show ?thesis by (rule failed) (use assms(1) None None' in \<open>simp_all add: batadv_bla_get_backbone_gw_def\<close>)
  next
    case (Some p)
    define g where "g = \<lparr>bg_ptr = p, bg_orig = a, bg_vid = v, bg_lasttime = jiffies k, bg_wait_periods = 0, bg_request_sent = 0, bg_crc = BATADV_BLA_CRC_INIT\<rparr>"
    show ?thesis
    proof (cases "bla_backbone_hash bl")
      case None'': None
      show ?thesis
        by (rule failed) (use assms(1) None Some None'' in \<open>simp_all add: batadv_bla_get_backbone_gw_def batadv_hash_add_def Let_def\<close>)
    next
      case (Some h)
      let ?i = "batadv_choose_backbone_gw (jhash k) (a, v) (hash_size h)"
      define h1 where "h1 = (set_hash_bucket h ?i (g # hash_bucket h ?i))\<lparr>generation := generation h + 1\<rparr>"
      have "\<not> (\<exists>node \<in> set (hash_bucket h ?i). batadv_compare_backbone_gw node (a, v))"
        using None Some by (auto simp: batadv_backbone_hash_find_def Let_def find_None_iff)
      then have add: "batadv_hash_add (bla_backbone_hash bl) batadv_compare_backbone_gw (batadv_choose_backbone_gw (jhash k)) (a, v) g = (0, Some h1)"
        by (simp add: batadv_hash_add_def Some h1_def Let_def)
      define bl0 where "bl0 = bl\<lparr>bla_backbone_hash := Some h1\<rparr>"
      define bl1 where "bl1 = (if batadv_orig_hash_find k (ms_priv (bl_mesh bl0)) a \<noteq> None
          then bl0\<lparr>bl_mesh := batadv_tt_global_del_orig k a (uint v) (bl_mesh bl0)\<rparr> else bl0)"
      have eq: "(r, bl') = (Some p, if own then bla_gw_upd p (\<lambda>gw. gw\<lparr>bg_request_sent := bg_request_sent gw + 1, bg_wait_periods := BATADV_BLA_WAIT_PERIODS\<rparr>)
          ((batadv_bla_send_announce k g bl1)\<lparr>bla_num_requests := bla_num_requests (batadv_bla_send_announce k g bl1) + 1\<rparr>) else bl1)"
        using assms(1) None \<open>bla_new_gw k a v = Some p\<close> add
        by (simp add: batadv_bla_get_backbone_gw_def g_def [symmetric] bl0_def bl1_def Let_def cong: if_cong)
      have bl1: "bla_backbone_hash bl1 = Some h1" "bla_claim_hash bl1 = bla_claim_hash bl" "bla_num_requests bl1 = bla_num_requests bl"
        by (simp_all add: bl1_def bl0_def)
      show ?thesis
        by (rule new [of p g h h1 "if own then batadv_bla_send_announce k g bl1 else bl1"])
          (use None Some \<open>bla_new_gw k a v = Some p\<close> eq bl1 in \<open>auto simp: g_def h1_def split: if_splits\<close>)
    qed
  qed
qed

lemma choose_gw_bound: "0 < n \<Longrightarrow> batadv_choose_backbone_gw jh key n < n"
  by (simp add: batadv_choose_backbone_gw_def Let_def word_mod_less_divisor)

lemma gws_insert:
  assumes "gw_shape bl" and "bla_backbone_hash bl = Some h" and "bla_backbone_hash bl1 = Some h1"
    and "h1 = (set_hash_bucket h i (g # hash_bucket h i))\<lparr>generation := n\<rparr>" and "i < hash_size h"
  shows "mset (bla_gws bl1) = mset (g # bla_gws bl)" and "gw_shape bl1"
proof -
  have "unat i < length (table h)" using assms(1,2,5) by (simp add: gw_shape_def word_less_nat_alt)
  then show "mset (bla_gws bl1) = mset (g # bla_gws bl)"
    using mset_concat_upd [of "unat i" "table h" "g # table h ! unat i"] assms(2-4)
    by (simp add: bla_gws_def hash_bucket_def)
  show "gw_shape bl1" using assms by (simp add: gw_shape_def)
qed

lemma gw_find_insert:
  assumes "gw_shape bl" and "bla_backbone_hash bl = Some h" and "bla_backbone_hash bl1 = Some h1"
    and "h1 = (set_hash_bucket h i (g # hash_bucket h i))\<lparr>generation := n\<rparr>"
    and "i = batadv_choose_backbone_gw (jhash k) (bg_orig g, bg_vid g) (hash_size h)"
  shows "batadv_backbone_hash_find k bl1 a v =
    (if a = bg_orig g \<and> v = bg_vid g then Some g else batadv_backbone_hash_find k bl a v)"
proof -
  have "i < hash_size h" using assms(1,2,5) choose_gw_bound by (simp add: gw_shape_def)
  then have "unat i < length (table h)" using assms(1,2) by (simp add: gw_shape_def word_less_nat_alt)
  then have "hash_bucket h1 j = (if j = i then g # hash_bucket h i else hash_bucket h j)" for j
    using assms(4) by (simp add: hash_bucket_def nth_list_update unsigned_word_eqI word_unat_eq_iff)
  moreover have "hash_size h1 = hash_size h" using assms(4) by simp
  ultimately show ?thesis
    using assms(2,3,5)
    by (auto simp: batadv_backbone_hash_find_def batadv_compare_backbone_gw_def batadv_compare_eth_def Let_def)
qed

definition own_mark :: "batadv_bla_backbone_gw \<Rightarrow> batadv_bla_backbone_gw" where
  "own_mark gw = gw\<lparr>bg_request_sent := bg_request_sent gw + 1, bg_wait_periods := BATADV_BLA_WAIT_PERIODS\<rparr>"

lemma own_mark_simps [simp]: "bg_ptr (own_mark g) = bg_ptr g" "bg_orig (own_mark g) = bg_orig g"
  "bg_vid (own_mark g) = bg_vid g" "bg_crc (own_mark g) = bg_crc g" "bg_request_sent (own_mark g) = bg_request_sent g + 1"
  by (simp_all add: own_mark_def)

text \<open>The state an operation needs: the accounts are right and the allocator is sane.\<close>

definition bla_good :: "bla_kenv \<Rightarrow> bla \<Rightarrow> bool" where
  "bla_good k bl \<longleftrightarrow> bla_inv k bl \<and> fresh_gws k bl"

definition has_gw :: "bla \<Rightarrow> nat \<Rightarrow> u16 \<Rightarrow> bool" where
  "has_gw bl p v \<longleftrightarrow> (\<exists>g \<in> set (bla_gws bl). bg_ptr g = p \<and> bg_vid g = v)"

lemma get_gw_good:
  assumes "batadv_bla_get_backbone_gw k a v own bl = (r, bl')" and "bla_good k bl"
  shows "bla_good k bl' \<and> (\<forall>p. r = Some p \<longrightarrow> has_gw bl' p v)"
proof -
  have s: "gw_shape bl" and c: "claims_ok k bl" and i: "gw_inv k (bla_gws bl) (bla_claims bl) (bla_num_requests bl)"
    and fresh: "fresh_gws k bl" using assms(2) by (simp_all add: bla_good_def bla_inv_def)
  from assms(1) s show ?thesis
  proof (cases rule: get_gw_cases)
    case (found g)
    then show ?thesis using gw_find_in [OF found(1) s] assms(2) by (auto simp: has_gw_def)
  next
    case failed
    then show ?thesis using assms(2) by simp
  next
    case (new p g h h1 bl1)
    let ?i = "batadv_choose_backbone_gw (jhash k) (a, v) (hash_size h)"
    have "?i < hash_size h" using s new(5) choose_gw_bound by (simp add: gw_shape_def)
    note ins = gws_insert [OF s new(5,7,6) this]
    have key: "bg_ptr g = p" "bg_orig g = a" "bg_vid g = v" "bg_crc g = 0" "bg_request_sent g = 0"
      using new(4) by (simp_all add: BATADV_BLA_CRC_INIT_def)
    have fr: "p \<notin> bla_ptrs bl" using fresh new(1,2) unfolding fresh_gws_def by blast
    define g1 where "g1 = (if own then own_mark g else g)"
    have bl': "bl' = (if own then bla_gw_upd p own_mark (bl1\<lparr>bla_num_requests := bla_num_requests bl1 + 1\<rparr>) else bl1)"
      using new(10) by (simp add: own_mark_def [abs_def])
    have "mset (bla_gws bl') = mset (if own then map (upd_at p own_mark) (g # bla_gws bl) else g # bla_gws bl)"
      using ins(1) bl' gws_same [of "bl1\<lparr>bla_num_requests := bla_num_requests bl1 + 1\<rparr>" bl1] by simp
    moreover have "map (upd_at p own_mark) (bla_gws bl) = bla_gws bl"
      using fr by (intro map_idI upd_at_other) (auto simp: bla_ptrs_def)
    ultimately have gws: "mset (bla_gws bl') = mset (g1 # bla_gws bl)" using key by (auto simp: g1_def upd_at_def)
    have num: "bla_num_requests bl' = bla_num_requests bl + bg_request_sent g1"
      using bl' new(9) key by (simp add: g1_def)
    have cl: "bla_claim_hash bl' = bla_claim_hash bl" using bl' new(8) by simp
    have sh: "gw_shape bl'" using bl' ins(2) by (auto simp: gw_shape_def bla_gw_upd_def)
    have "gw_inv k (g1 # bla_gws bl) (bla_claims bl) (bla_num_requests bl + bg_request_sent g1)"
      by (rule gw_inv_add [OF i]) (use fr key in \<open>auto simp: g1_def bla_ptrs_def\<close>)
    then have "gw_inv k (bla_gws bl') (bla_claims bl') (bla_num_requests bl')"
      using gw_inv_perm [OF _ gws [symmetric] refl] by (simp add: claims_same [OF cl] num)
    then have inv: "bla_inv k bl'" using sh c cl by (simp add: bla_inv_def claims_ok_def)
    have find1: "batadv_backbone_hash_find k bl1 b w = (if b = a \<and> w = v then Some g else batadv_backbone_hash_find k bl b w)" for b w
      using gw_find_insert [OF s new(5,7,6), of k b w] key by simp
    have "batadv_backbone_hash_find k (bl1\<lparr>bla_num_requests := x\<rparr>) b w = batadv_backbone_hash_find k bl1 b w" for x b w
      by (simp add: batadv_backbone_hash_find_def)
    moreover have "gw_shape (bl1\<lparr>bla_num_requests := x\<rparr>)" for x using ins(2) by (simp add: gw_shape_def)
    ultimately have find': "batadv_backbone_hash_find k bl' b w = None \<longleftrightarrow> (b, w) \<noteq> (a, v) \<and> batadv_backbone_hash_find k bl b w = None" for b w
      using gw_find_upd [of own_mark "bl1\<lparr>bla_num_requests := bla_num_requests bl1 + 1\<rparr>" k p b w] find1 bl' by auto
    have ptrs: "bla_ptrs bl' = insert p (bla_ptrs bl)"
      using mset_eq_setD [OF gws] key by (auto simp: bla_ptrs_def g1_def)
    have "fresh_gws k bl'"
      unfolding fresh_gws_def
    proof (intro conjI allI impI)
      fix b w q assume q: "batadv_backbone_hash_find k bl' b w = None" "bla_new_gw k b w = Some q"
      then have "q \<noteq> p" using find' new(2) fresh unfolding fresh_gws_def by blast
      then show "q \<notin> bla_ptrs bl'" using q find' fresh unfolding fresh_gws_def ptrs by blast
    qed (use fresh in \<open>auto simp: fresh_gws_def\<close>)
    moreover have "g1 \<in> set (bla_gws bl')" using mset_eq_setD [OF gws] by simp
    then have "has_gw bl' p v" unfolding has_gw_def by (rule bexI [rotated]) (simp add: g1_def key)
    ultimately show ?thesis using inv new(3) by (simp add: bla_good_def)
  qed
qed

lemma good_same:
  assumes "bla_good k bl" and "bla_backbone_hash bl' = bla_backbone_hash bl"
    and "bla_claim_hash bl' = bla_claim_hash bl" and "bla_num_requests bl' = bla_num_requests bl"
  shows "bla_good k bl'"
  using assms inv_same fresh_same unfolding bla_good_def by metis

lemma has_gw_upd:
  "(\<And>g. bg_ptr (f g) = bg_ptr g) \<Longrightarrow> (\<And>g. bg_vid (f g) = bg_vid g) \<Longrightarrow> has_gw (bla_gw_upd q f bl) p v = has_gw bl p v"
  using upd_at_field [of bg_ptr f q] upd_at_field [of bg_vid f q] by (simp add: has_gw_def)

lemma has_gw_same: "bla_backbone_hash bl' = bla_backbone_hash bl \<Longrightarrow> has_gw bl' p v = has_gw bl p v"
  by (simp add: has_gw_def gws_same [of bl' bl])

lemma touch_good:
  assumes "bla_good k bl" shows "bla_good k (bla_gw_upd p (\<lambda>gw. gw\<lparr>bg_lasttime := t\<rparr>) bl)"
proof -
  have "bla_inv k bl" "fresh_gws k bl" "gw_shape bl" using assms by (simp_all add: bla_good_def bla_inv_def)
  then show ?thesis using inv_gw_field [of k bl "\<lambda>gw. gw\<lparr>bg_lasttime := t\<rparr>" p] fresh_upd [of k bl "\<lambda>gw. gw\<lparr>bg_lasttime := t\<rparr>" p]
    by (simp add: bla_good_def)
qed

lemma update_own_good:
  assumes "bla_good k bl" shows "bla_good k (batadv_bla_update_own_backbone_gw k a v bl)"
proof (cases "batadv_bla_get_backbone_gw k a v True bl")
  case (Pair r bl')
  have "bla_good k bl'" using get_gw_good [OF Pair assms] by simp
  then show ?thesis using touch_good by (simp add: batadv_bla_update_own_backbone_gw_def Pair split: option.split)
qed

subsection \<open>Claims\<close>

definition claim_at :: "mac \<Rightarrow> u16 \<Rightarrow> (batadv_bla_claim \<Rightarrow> batadv_bla_claim) \<Rightarrow> batadv_bla_claim \<Rightarrow> batadv_bla_claim" where
  "claim_at a v f c = (if bc_key c = (a, v) then f c else c)"

lemma claim_upd_eq: "bla_claim_upd a v f bl = bl\<lparr>bla_claim_hash :=
    map_option (\<lambda>hash. claim_hash.walk (\<lambda>c. Some (claim_at a v f c)) hash) (bla_claim_hash bl)\<rparr>"
proof -
  have "(\<lambda>c. if bc_key c = (a, v) then f c else c) = claim_at a v f" by (simp add: fun_eq_iff claim_at_def)
  then show ?thesis by (simp add: bla_claim_upd_def claim_hash.walk_def map_as_filter [abs_def])
qed

lemma claims_upd [simp]: "bla_claims (bla_claim_upd a v f bl) = map (claim_at a v f) (bla_claims bl)"
proof -
  have "(\<lambda>c. if bc_key c = (a, v) then f c else c) = claim_at a v f" by (simp add: fun_eq_iff claim_at_def)
  then show ?thesis by (auto simp: bla_claims_def bla_claim_upd_def map_concat split: option.splits)
qed

lemma claims_ok_upd:
  assumes "claims_ok k bl" and "\<And>c. bc_key (f c) = bc_key c"
  shows "claims_ok k (bla_claim_upd a v f bl)"
  using assms(1) claim_hash.walk_ok [of "jhash k" _ "\<lambda>c. Some (claim_at a v f c)"]
  by (auto simp: claims_ok_def claim_upd_eq claim_at_def assms(2))

lemma claim_found:
  assumes "batadv_claim_hash_find k bl a v = Some c" and "claims_ok k bl"
  shows "c \<in> set (bla_claims bl)" and "bc_addr c = a" "bc_vid c = v"
proof -
  obtain h where h: "bla_claim_hash bl = Some h" "claim_hash.hash_ok (jhash k) h"
    using assms by (auto simp: batadv_claim_hash_find_def claims_ok_def split: option.splits)
  then have f: "claim_hash.hash_find (jhash k) h (a, v) = Some c" using assms(1) claim_find_eq [OF h(1), of k a v] by simp
  have key: "bc_key c = (a, v)" using claim_hash.hash_find_key [OF f] .
  then show "bc_addr c = a" "bc_vid c = v" by (simp_all add: bc_key_def)
  show "c \<in> set (bla_claims bl)"
    using claim_hash.entries_find [OF h(2), of c] f key h(1) by (simp add: claim_hash.entries_def bla_claims_def)
qed

lemma claims_distinct: "claims_ok k bl \<Longrightarrow> distinct (map bc_key (bla_claims bl))"
  using claim_hash.entries_distinct [of "jhash k"]
  by (auto simp: bla_claims_def claims_ok_def claim_hash.entries_def split: option.split)

lemma claim_split:
  assumes "distinct (map bc_key cs)" and "c \<in> set cs" and "bc_key c = (a, v)"
  obtains rest where "mset cs = mset (c # rest)" and "\<And>f. mset (map (claim_at a v f) cs) = mset (f c # rest)"
proof -
  obtain xs ys where cs: "cs = xs @ c # ys" using split_list [OF assms(2)] by blast
  have k: "bc_key x \<noteq> (a, v)" if "x \<in> set (xs @ ys)" for x
    using that assms(1,3) cs by (auto simp: image_iff)
  have "map (claim_at a v f) (xs @ ys) = xs @ ys" for f
    by (rule map_idI) (use k in \<open>simp add: claim_at_def\<close>)
  then have "mset (map (claim_at a v f) cs) = mset (f c # (xs @ ys))" for f
    using cs assms(3) mset_map [of "claim_at a v f" "xs @ ys"] by (simp add: claim_at_def)
  then show ?thesis using that [of "xs @ ys"] cs by simp
qed

lemma gw_inv_time:
  assumes "gw_inv k gs cs n" and f: "\<And>c. bc_addr (f c) = bc_addr c" "\<And>c. bc_vid (f c) = bc_vid c" "\<And>c. bc_backbone_gw (f c) = bc_backbone_gw c"
  shows "gw_inv k gs (map f cs) n"
proof -
  have "crc_of k p (map f cs) = crc_of k p cs" for p by (induction cs) (simp_all add: f claim_sum_def)
  then show ?thesis using assms(1) by (simp add: gw_inv_def f)
qed

lemma claim_at_simps [simp]: "bc_addr (claim_at a v (\<lambda>c. c\<lparr>bc_lasttime := t\<rparr>) c) = bc_addr c"
  "bc_vid (claim_at a v (\<lambda>c. c\<lparr>bc_lasttime := t\<rparr>) c) = bc_vid c"
  "bc_backbone_gw (claim_at a v (\<lambda>c. c\<lparr>bc_lasttime := t\<rparr>) c) = bc_backbone_gw c"
  by (simp_all add: claim_at_def)

lemma claim_touch_good:
  assumes "bla_good k bl" shows "bla_good k (bla_claim_upd a v (\<lambda>c. c\<lparr>bc_lasttime := t\<rparr>) bl)"
proof -
  let ?bl = "bla_claim_upd a v (\<lambda>c. c\<lparr>bc_lasttime := t\<rparr>) bl"
  have i: "gw_shape bl" "claims_ok k bl" "gw_inv k (bla_gws bl) (bla_claims bl) (bla_num_requests bl)" "fresh_gws k bl"
    using assms by (simp_all add: bla_good_def bla_inv_def)
  have "claims_ok k ?bl" by (rule claims_ok_upd [OF i(2)]) (simp add: bc_key_def)
  moreover have "gw_inv k (bla_gws bl) (map (claim_at a v (\<lambda>c. c\<lparr>bc_lasttime := t\<rparr>)) (bla_claims bl)) (bla_num_requests bl)"
    by (rule gw_inv_time [OF i(3)]) simp_all
  ultimately show ?thesis using i(1) fresh_same [OF i(4), of ?bl]
    by (simp add: bla_good_def bla_inv_def gws_same [of ?bl bl] gw_shape_def)
qed

text \<open>Whatever happens to the two tables, the accounts of the result are what counts.\<close>

lemma good_intro:
  assumes "bla_good k bl" and "bla_backbone_hash bl' = bla_backbone_hash (bla_gw_upd p f (bla_gw_upd q g bl))"
    and "claims_ok k bl'" and "gw_inv k (bla_gws bl') (bla_claims bl') (bla_num_requests bl')"
    and f: "\<And>x. bg_ptr (f x) = bg_ptr x \<and> bg_orig (f x) = bg_orig x \<and> bg_vid (f x) = bg_vid x"
    and g: "\<And>x. bg_ptr (g x) = bg_ptr x \<and> bg_orig (g x) = bg_orig x \<and> bg_vid (g x) = bg_vid x"
  shows "bla_good k bl'"
proof -
  have s: "gw_shape bl" "fresh_gws k bl" using assms(1) by (simp_all add: bla_good_def bla_inv_def)
  have "fresh_gws k (bla_gw_upd p f (bla_gw_upd q g bl))"
    by (rule fresh_upd, rule fresh_upd [OF s(2)]) (simp_all add: f g s(1))
  then have "fresh_gws k bl'" by (rule fresh_same) (rule assms(2))
  moreover have "gw_shape (bla_gw_upd p f (bla_gw_upd q g bl))" using s(1) by simp
  then have "gw_shape bl'" by (simp add: gw_shape_def assms(2))
  ultimately show ?thesis using assms(3,4) by (simp add: bla_good_def bla_inv_def)
qed

lemma gw_xor_eq: "bla_gw_xor k p a bl = bla_gw_upd p (xor_at k a) bl"
  by (simp add: bla_gw_xor_def xor_at_def [abs_def])

lemma claims_gw_upd [simp]: "bla_claims (bla_gw_upd p f bl) = bla_claims bl"
  by (rule claims_same) simp

lemma claims_ok_same: "bla_claim_hash bl' = bla_claim_hash bl \<Longrightarrow> claims_ok k bl' = claims_ok k bl"
  by (simp add: claims_ok_def)

text \<open>A new claim in the table.\<close>

lemma claim_insert:
  assumes "claims_ok k bl" and "batadv_claim_hash_find k bl a v = None" and "bc_key c = (a, v)"
  obtains (null) "batadv_hash_add (bla_claim_hash bl) batadv_compare_claim (batadv_choose_claim (jhash k)) (a, v) c = (- 1, None)"
  | (added) h where "batadv_hash_add (bla_claim_hash bl) batadv_compare_claim (batadv_choose_claim (jhash k)) (a, v) c = (0, Some h)"
      "\<And>bl'. bla_claim_hash bl' = Some h \<Longrightarrow> claims_ok k bl' \<and> mset (bla_claims bl') = mset (c # bla_claims bl)"
proof (cases "bla_claim_hash bl")
  case None
  then show ?thesis using null by (simp add: batadv_hash_add_def)
next
  case (Some h)
  have ok: "claim_hash.hash_ok (jhash k) h" using assms(1) Some by (simp add: claims_ok_def)
  let ?i = "batadv_choose_claim (jhash k) (a, v) (hash_size h)"
  define h' where "h' = (set_hash_bucket h ?i (c # hash_bucket h ?i))\<lparr>generation := generation h + 1\<rparr>"
  have "\<not> (\<exists>node \<in> set (hash_bucket h ?i). batadv_compare_claim node (a, v))"
    using assms(2) Some by (auto simp: batadv_claim_hash_find_def Let_def find_None_iff)
  then have add: "batadv_hash_add (Some h) batadv_compare_claim (batadv_choose_claim (jhash k)) (a, v) c = (0, Some h')"
    by (simp add: batadv_hash_add_def h'_def Let_def)
  have "claim_hash.hash_ok (jhash k) h'"
    using claim_hash.add_ok [OF ok, of "(a, v)" c] add assms(3) by (simp add: claim_hash.add_def)
  moreover have "unat ?i < length (table h)" by (rule claim_hash.index_bound [OF ok])
  then have "mset (concat (table h')) = mset (c # concat (table h))"
    using mset_concat_upd [of "unat ?i" "table h" "c # table h ! unat ?i"] by (simp add: h'_def hash_bucket_def)
  ultimately show ?thesis using Some add by (intro added [of h']) (simp_all add: claims_ok_def bla_claims_def)
qed

lemma claim_new_good:
  assumes "bla_good k bl" and "has_gw bl p v" and "claims_ok k bl'" and "mset (bla_claims bl') = mset (c # bla_claims bl)"
    and "bla_backbone_hash bl' = bla_backbone_hash bl" and "bla_num_requests bl' = bla_num_requests bl"
    and "bc_backbone_gw c = p" "bc_addr c = a" "bc_vid c = v"
  shows "bla_good k (bla_gw_xor k p a bl')"
proof -
  have i: "gw_inv k (bla_gws bl) (bla_claims bl) (bla_num_requests bl)" using assms(1) by (simp add: bla_good_def bla_inv_def)
  obtain g where g: "g \<in> set (bla_gws bl)" "bg_ptr g = p" "bg_vid g = v" using assms(2) by (auto simp: has_gw_def)
  let ?bl = "bla_gw_xor k p a bl'"
  have "gw_inv k (map (upd_at p (xor_at k a)) (bla_gws bl)) (c # bla_claims bl) (bla_num_requests bl)"
    using gw_inv_claim_add [OF i g(1), of c] g assms(7-9) by simp
  from gw_inv_perm [OF this refl assms(4) [symmetric]]
  have "gw_inv k (bla_gws ?bl) (bla_claims ?bl) (bla_num_requests ?bl)"
    by (simp add: gw_xor_eq gws_same [OF assms(5)] assms(6))
  moreover have hash: "bla_backbone_hash ?bl = bla_backbone_hash (bla_gw_upd p (xor_at k a) (bla_gw_upd p (\<lambda>x. x) bl))"
    by (cases "bla_backbone_hash bl") (simp_all add: gw_xor_eq gw_upd_eq assms(5) upd_at_def comp_def)
  moreover have "claims_ok k ?bl" using assms(3) by (simp add: claims_ok_def gw_xor_eq)
  ultimately show ?thesis by (intro good_intro [OF assms(1) hash]) simp_all
qed

lemma claim_move_good:
  assumes "bla_good k bl" and "has_gw bl p v" and "c \<in> set (bla_claims bl)" and "bc_key c = (a, v)"
  shows "bla_good k (bla_gw_xor k p a (bla_gw_xor k (bc_backbone_gw c) a (bla_claim_upd a v (\<lambda>c. c\<lparr>bc_backbone_gw := p\<rparr>) bl)))"
proof -
  let ?f = "\<lambda>c. c\<lparr>bc_backbone_gw := p\<rparr>" and ?q = "bc_backbone_gw c"
  let ?bl = "bla_gw_xor k p a (bla_gw_xor k ?q a (bla_claim_upd a v ?f bl))"
  have i: "claims_ok k bl" "gw_inv k (bla_gws bl) (bla_claims bl) (bla_num_requests bl)"
    using assms(1) by (simp_all add: bla_good_def bla_inv_def)
  obtain g where g: "g \<in> set (bla_gws bl)" "bg_ptr g = p" "bg_vid g = v" using assms(2) by (auto simp: has_gw_def)
  obtain rest where rest: "mset (bla_claims bl) = mset (c # rest)"
      "\<And>f. mset (map (claim_at a v f) (bla_claims bl)) = mset (f c # rest)"
    using claim_split [OF claims_distinct [OF i(1)] assms(3,4)] by blast
  have gw: "bla_backbone_hash (bla_claim_upd a v ?f bl) = bla_backbone_hash bl" by simp
  have key: "bc_addr c = a" "bc_vid c = v" using assms(4) by (simp_all add: bc_key_def)
  from gw_inv_claim_move [OF gw_inv_perm [OF i(2) refl rest(1)] g(1,2)] g(3)
  have "gw_inv k (map (upd_at p (xor_at k a)) (map (upd_at ?q (xor_at k a)) (bla_gws bl))) (?f c # rest) (bla_num_requests bl)"
    by (simp add: key)
  from gw_inv_perm [OF this refl rest(2) [of ?f, symmetric]]
  have "gw_inv k (bla_gws ?bl) (bla_claims ?bl) (bla_num_requests ?bl)"
    by (simp add: gw_xor_eq gws_same [OF gw])
  moreover have "claims_ok k ?bl"
    using claims_ok_upd [OF i(1), of ?f a v] claims_ok_same [of ?bl "bla_claim_upd a v ?f bl"]
    by (simp add: gw_xor_eq bc_key_def)
  moreover have hash: "bla_backbone_hash ?bl = bla_backbone_hash (bla_gw_upd p (xor_at k a) (bla_gw_upd ?q (xor_at k a) bl))"
    by (simp add: gw_xor_eq gw_upd_eq)
  ultimately show ?thesis by (intro good_intro [OF assms(1) hash]) simp_all
qed

lemma add_claim_good:
  assumes "bla_good k bl" and "has_gw bl p v"
  shows "bla_good k (batadv_bla_add_claim k a v p bl)"
proof (cases "batadv_claim_hash_find k bl a v")
  case None
  have i: "claims_ok k bl" using assms(1) by (simp add: bla_good_def bla_inv_def)
  let ?c = "\<lparr>bc_addr = a, bc_vid = v, bc_backbone_gw = p, bc_lasttime = jiffies k\<rparr>"
  have "bc_key ?c = (a, v)" by (simp add: bc_key_def)
  with i None show ?thesis
  proof (cases rule: claim_insert)
    case null
    then show ?thesis using assms(1) None by (simp add: batadv_bla_add_claim_def)
  next
    case (added h)
    note h = added(2) [of "bl\<lparr>bla_claim_hash := Some h\<rparr>", simplified]
    have "bla_good k (bla_gw_xor k p a (bl\<lparr>bla_claim_hash := Some h\<rparr>))"
      by (rule claim_new_good [OF assms, of _ ?c]) (use h in simp_all)
    then show ?thesis using touch_good assms(1) None added(1) by (simp add: batadv_bla_add_claim_def)
  qed
next
  case (Some c)
  let ?t = "\<lambda>c. c\<lparr>bc_lasttime := jiffies k\<rparr>"
  define bl0 where "bl0 = bla_claim_upd a v ?t bl"
  have good0: "bla_good k bl0" unfolding bl0_def by (rule claim_touch_good [OF assms(1)])
  have "claims_ok k bl" using assms(1) by (simp add: bla_good_def bla_inv_def)
  note c = claim_found [OF Some this]
  have "?t c = claim_at a v ?t c" using c(2,3) by (simp add: claim_at_def bc_key_def)
  then have "?t c \<in> set (bla_claims bl0)" using c(1) by (simp add: bl0_def)
  moreover have "has_gw bl0 p v" using assms(2) by (simp add: bl0_def has_gw_same [of "bla_claim_upd a v ?t bl" bl])
  ultimately have "bla_good k (bla_gw_xor k p a (bla_gw_xor k (bc_backbone_gw c) a (bla_claim_upd a v (\<lambda>c. c\<lparr>bc_backbone_gw := p\<rparr>) bl0)))"
    using claim_move_good [OF good0, of p v "?t c" a] c(2,3) by (simp add: bc_key_def)
  then show ?thesis using touch_good good0 Some by (simp add: batadv_bla_add_claim_def bl0_def Let_def)
qed

lemma del_claim_good:
  assumes "bla_good k bl" shows "bla_good k (batadv_bla_del_claim k a v bl)"
proof -
  have i: "claims_ok k bl" "gw_inv k (bla_gws bl) (bla_claims bl) (bla_num_requests bl)"
    using assms(1) by (simp_all add: bla_good_def bla_inv_def)
  show ?thesis
  proof (cases "bla_claim_hash bl")
    case None
    then show ?thesis using assms by (simp add: batadv_bla_del_claim_def)
  next
    case (Some h)
    have ok: "claim_hash.hash_ok (jhash k) h" using i(1) Some by (simp add: claims_ok_def)
    let ?i = "batadv_choose_claim (jhash k) (a, v) (hash_size h)"
    obtain r h' where rm: "batadv_hash_remove h batadv_compare_claim (batadv_choose_claim (jhash k)) (a, v) = (r, h')" by fastforce
    show ?thesis
    proof (cases r)
      case None
      then show ?thesis using assms Some rm by (simp add: batadv_bla_del_claim_def)
    next
      case r: (Some c)
      have f: "find (\<lambda>n. batadv_compare_claim n (a, v)) (hash_bucket h ?i) = Some c"
        and h': "h' = (set_hash_bucket h ?i (hlist_del_first (\<lambda>n. batadv_compare_claim n (a, v)) (hash_bucket h ?i)))\<lparr>generation := generation h + 1\<rparr>"
        using rm r by (auto simp: batadv_hash_remove_def Let_def split: option.splits)
      have ok': "claim_hash.hash_ok (jhash k) h'"
        using claim_hash.remove_ok [OF ok, of "(a, v)"] rm by (simp add: claim_hash.remove_def)
      have "unat ?i < length (table h)" by (rule claim_hash.index_bound [OF ok])
      then have "mset (concat (table h)) = mset (c # concat (table h'))"
        using mset_concat_upd [of "unat ?i" "table h" "hlist_del_first (\<lambda>n. batadv_compare_claim n (a, v)) (hash_bucket h ?i)"]
          mset_del_first [OF f] by (simp add: h' hash_bucket_def)
      then have cs: "mset (bla_claims bl) = mset (c # concat (table h'))" by (simp add: bla_claims_def Some)
      define bl1 where "bl1 = bla_gw_upd (bc_backbone_gw c) (xor_at k (bc_addr c)) (bl\<lparr>bla_claim_hash := Some h'\<rparr>)"
      have "gw_inv k (map (upd_at (bc_backbone_gw c) (xor_at k (bc_addr c))) (bla_gws bl)) (concat (table h')) (bla_num_requests bl)"
        by (rule gw_inv_claim_del [OF gw_inv_perm [OF i(2) refl cs]])
      then have "gw_inv k (bla_gws bl1) (bla_claims bl1) (bla_num_requests bl1)"
        using gws_same [of "bl\<lparr>bla_claim_hash := Some h'\<rparr>" bl] by (simp add: bl1_def) (simp add: bla_claims_def)
      moreover have "claims_ok k bl1" using ok' by (simp add: claims_ok_def bl1_def)
      moreover have hash: "bla_backbone_hash bl1 = bla_backbone_hash (bla_gw_upd (bc_backbone_gw c) (xor_at k (bc_addr c)) (bla_gw_upd 0 (\<lambda>x. x) bl))"
        by (cases "bla_backbone_hash bl") (simp_all add: bl1_def gw_upd_eq upd_at_def comp_def)
      ultimately have "bla_good k bl1" by (intro good_intro [OF assms(1) hash]) simp_all
      then show ?thesis using Some rm r by (simp add: batadv_bla_del_claim_def batadv_claim_release_def bl1_def xor_at_def [abs_def])
    qed
  qed
qed

subsection \<open>Requests\<close>

lemma release_all:
  assumes "\<And>c. c \<in> set cs \<Longrightarrow> bc_backbone_gw c = p"
  shows "bla_gw_upd p (\<lambda>g. g\<lparr>bg_crc := z\<rparr>) (foldl (\<lambda>bl c. batadv_claim_release k c bl) bl cs) =
    bla_gw_upd p (\<lambda>g. g\<lparr>bg_crc := z\<rparr>) bl"
  using assms
proof (induction cs arbitrary: bl)
  case (Cons c cs)
  have "bla_gw_upd p (\<lambda>g. g\<lparr>bg_crc := z\<rparr>) (bla_gw_upd p (xor_at k a) bl) = bla_gw_upd p (\<lambda>g. g\<lparr>bg_crc := z\<rparr>) bl" for a
  proof -
    have "(upd_at p (\<lambda>g. g\<lparr>bg_crc := z\<rparr>)) \<circ> (upd_at p (xor_at k a)) = upd_at p (\<lambda>g. g\<lparr>bg_crc := z\<rparr>)"
      by (simp add: fun_eq_iff upd_at_def xor_at_def)
    then show ?thesis
      by (cases "bla_backbone_hash bl") (simp_all add: gw_upd_eq comp_def fun_eq_iff)
  qed
  then show ?case using Cons by (simp add: batadv_claim_release_def xor_at_def [abs_def])
qed simp

lemma walk_filter: "claim_hash.walk (\<lambda>c. if P c then Some c else None) h = h\<lparr>table := map (filter P) (table h)\<rparr>"
proof -
  have "List.map_filter (\<lambda>x. if P x then Some x else None) = filter P" by (simp add: fun_eq_iff filter_as_filter)
  then show ?thesis by (simp add: claim_hash.walk_def)
qed

lemma del_backbone_eq:
  assumes "bla_claim_hash bl = Some h"
  shows "batadv_bla_del_backbone_claims k p bl = bla_gw_upd p (\<lambda>g. g\<lparr>bg_crc := 0\<rparr>)
    (bl\<lparr>bla_claim_hash := Some (claim_hash.walk (\<lambda>c. if bc_backbone_gw c \<noteq> p then Some c else None) h)\<rparr>)"
  using release_all [of "filter (\<lambda>c. bc_backbone_gw c = p) (concat (table h))" p]
  by (simp add: batadv_bla_del_backbone_claims_def assms Let_def walk_filter BATADV_BLA_CRC_INIT_def)

lemma del_backbone_frame [simp]:
  "bla_num_requests (batadv_bla_del_backbone_claims k p bl) = bla_num_requests bl"
  by (cases "bla_claim_hash bl") (simp_all add: del_backbone_eq, simp add: batadv_bla_del_backbone_claims_def)

text \<open>Nothing of the gateway is left, the other gateways and their claims are untouched.\<close>

lemma del_backbone_claims:
  "bla_claims (batadv_bla_del_backbone_claims k p bl) = filter (\<lambda>c. bc_backbone_gw c \<noteq> p) (bla_claims bl)"
proof (cases "bla_claim_hash bl")
  case (Some h)
  then show ?thesis
    by (simp add: del_backbone_eq) (simp add: bla_claims_def walk_filter filter_concat)
qed (simp add: batadv_bla_del_backbone_claims_def bla_claims_def)

lemma del_backbone_gws:
  assumes "gw_inv k (bla_gws bl) (bla_claims bl) n"
  shows "bla_gws (batadv_bla_del_backbone_claims k p bl) = map (upd_at p (\<lambda>g. g\<lparr>bg_crc := 0\<rparr>)) (bla_gws bl)"
proof (cases "bla_claim_hash bl")
  case None
  then have "bla_claims bl = []" by (simp add: bla_claims_def)
  then have "map (upd_at p (\<lambda>g. g\<lparr>bg_crc := 0\<rparr>)) (bla_gws bl) = bla_gws bl"
    using assms by (intro map_idI) (simp add: gw_inv_def upd_at_def)
  then show ?thesis using None by (simp add: batadv_bla_del_backbone_claims_def)
next
  case (Some h)
  then show ?thesis using gws_same [of "bl\<lparr>bla_claim_hash := x\<rparr>" bl for x] by (simp add: del_backbone_eq)
qed

lemma del_backbone_good:
  assumes "bla_inv k bl"
  shows "bla_inv k (batadv_bla_del_backbone_claims k p bl)"
    and "fresh_gws k bl \<Longrightarrow> fresh_gws k (batadv_bla_del_backbone_claims k p bl)"
proof -
  let ?bl = "batadv_bla_del_backbone_claims k p bl"
  have i: "gw_shape bl" "claims_ok k bl" "gw_inv k (bla_gws bl) (bla_claims bl) (bla_num_requests bl)"
    using assms by (simp_all add: bla_inv_def)
  have "claims_ok k ?bl"
  proof (cases "bla_claim_hash bl")
    case None
    then show ?thesis using i(2) by (simp add: batadv_bla_del_backbone_claims_def)
  next
    case (Some h)
    then have "claim_hash.hash_ok (jhash k) (claim_hash.walk (\<lambda>c. if bc_backbone_gw c \<noteq> p then Some c else None) h)"
      using i(2) by (intro claim_hash.walk_ok) (auto simp: claims_ok_def split: if_splits)
    then show ?thesis using Some by (simp add: claims_ok_def del_backbone_eq)
  qed
  moreover have "gw_shape ?bl"
  proof (cases "bla_claim_hash bl")
    case None
    then show ?thesis using i(1) by (simp add: batadv_bla_del_backbone_claims_def)
  next
    case (Some h)
    then show ?thesis using i(1) by (simp add: del_backbone_eq) (simp add: gw_shape_def)
  qed
  moreover have "gw_inv k (bla_gws ?bl) (bla_claims ?bl) (bla_num_requests ?bl)"
    using gw_inv_flush [OF i(3)] by (simp add: del_backbone_gws [OF i(3)] del_backbone_claims)
  ultimately show "bla_inv k ?bl" by (simp add: bla_inv_def)
  assume f: "fresh_gws k bl"
  show "fresh_gws k ?bl"
  proof (cases "bla_claim_hash bl")
    case (Some h)
    have "fresh_gws k (bl\<lparr>bla_claim_hash := x\<rparr>)" "gw_shape (bl\<lparr>bla_claim_hash := x\<rparr>)" for x
      using i(1) by (auto intro: fresh_same [OF f] simp: gw_shape_def)
    then show ?thesis by (simp add: del_backbone_eq [OF Some] fresh_upd)
  qed (use f in \<open>simp add: batadv_bla_del_backbone_claims_def\<close>)
qed

lemma bla_gw_in: "bla_gw bl p = Some g \<Longrightarrow> g \<in> set (bla_gws bl) \<and> bg_ptr g = p"
  by (auto simp: bla_gw_def find_Some_iff)

text \<open>A gateway starts or stops to wait.\<close>

lemma request_good:
  assumes "bla_inv k bl" and "g \<in> set (bla_gws bl)" and "r \<in> {0, 1}" and "bg_request_sent g \<noteq> r"
    and "n = (if r = 0 then bla_num_requests bl - 1 else bla_num_requests bl + 1)"
  shows "bla_inv k (bla_gw_upd (bg_ptr g) (\<lambda>gw. gw\<lparr>bg_request_sent := r\<rparr>) (bl\<lparr>bla_num_requests := n\<rparr>))"
    and "fresh_gws k bl \<Longrightarrow> fresh_gws k (bla_gw_upd (bg_ptr g) (\<lambda>gw. gw\<lparr>bg_request_sent := r\<rparr>) (bl\<lparr>bla_num_requests := n\<rparr>))"
proof -
  let ?bl = "bla_gw_upd (bg_ptr g) (\<lambda>gw. gw\<lparr>bg_request_sent := r\<rparr>) (bl\<lparr>bla_num_requests := n\<rparr>)"
  have i: "gw_shape bl" "claims_ok k bl" "gw_inv k (bla_gws bl) (bla_claims bl) (bla_num_requests bl)"
    using assms(1) by (simp_all add: bla_inv_def)
  have s: "gw_shape (bl\<lparr>bla_num_requests := m\<rparr>)" "bla_gws (bl\<lparr>bla_num_requests := m\<rparr>) = bla_gws bl" for m
    using i(1) by (simp_all add: gw_shape_def bla_gws_def)
  have "gw_inv k (bla_gws ?bl) (bla_claims bl) n"
    using gw_inv_request [OF i(3) assms(2-4)] by (simp add: s(2) assms(5) split: if_splits)
  moreover have "bla_claims (bl\<lparr>bla_num_requests := n\<rparr>) = bla_claims bl" by (simp add: bla_claims_def)
  ultimately show "bla_inv k ?bl" using i s by (simp add: bla_inv_def claims_ok_def)
  show "fresh_gws k ?bl" if "fresh_gws k bl"
    by (rule fresh_upd) (use s in \<open>auto intro: fresh_same [OF that]\<close>)
qed

lemma send_request_good:
  assumes "bla_good k bl" shows "bla_good k (batadv_bla_send_request k p bl)"
proof (cases "bla_gw bl p")
  case None
  then show ?thesis using assms by (simp add: batadv_bla_send_request_def)
next
  case (Some g)
  note g = bla_gw_in [OF Some]
  have i: "bla_inv k bl" "fresh_gws k bl" "gw_inv k (bla_gws bl) (bla_claims bl) (bla_num_requests bl)"
    using assms by (simp_all add: bla_good_def bla_inv_def)
  define bl1 where "bl1 = batadv_bla_send_claim k (bg_orig g) (bg_vid g) BATADV_CLAIM_TYPE_REQUEST (batadv_bla_del_backbone_claims k p bl)"
  have gws1: "bla_gws bl1 = bla_gws (batadv_bla_del_backbone_claims k p bl)"
    by (rule gws_same) (simp add: bl1_def)
  have good: "bla_good k bl1"
    using good_same [of k "batadv_bla_del_backbone_claims k p bl" bl1] del_backbone_good [OF i(1), of p] i(2)
    by (simp add: bla_good_def bl1_def)
  define g1 where "g1 = upd_at p (\<lambda>g. g\<lparr>bg_crc := 0\<rparr>) g"
  have g1: "g1 \<in> set (bla_gws bl1)" "bg_ptr g1 = p" "bg_request_sent g1 = bg_request_sent g"
    using g by (auto simp: gws1 del_backbone_gws [OF i(3)] g1_def upd_at_def)
  have "bla_good k (bla_gw_upd p (\<lambda>gw. gw\<lparr>bg_request_sent := 1\<rparr>) (bl1\<lparr>bla_num_requests := bla_num_requests bl1 + 1\<rparr>))"
    if "bg_request_sent g = 0"
    using request_good [of k bl1 g1 1 "bla_num_requests bl1 + 1"] good g1 that by (simp add: bla_good_def)
  then show ?thesis
    using good by (simp add: batadv_bla_send_request_def Some bl1_def [symmetric] Let_def)
qed

lemma kbind_Kret: "kbind r f = Kret y \<longleftrightarrow> (\<exists>x. r = Kret x \<and> f x = Kret y)"
  by (cases r) simp_all

text \<open>What holds of a result whenever there is one.\<close>

definition kpost :: "'a kresult \<Rightarrow> ('a \<Rightarrow> bool) \<Rightarrow> bool" where
  "kpost r P \<longleftrightarrow> (\<forall>x. r = Kret x \<longrightarrow> P x)"

lemma kpost_simps [simp]: "kpost (Kret x) P = P x" "kpost Kernel_bug P"
  by (simp_all add: kpost_def)

lemma kpost_bind: "(\<And>x. kpost (f x) P) \<Longrightarrow> kpost (kbind r f) P"
  by (cases r) simp_all

subsection \<open>The handlers\<close>

lemma send_good: "bla_good k bl \<Longrightarrow> bla_good k (batadv_bla_send_claim k' m v t bl)"
  by (rule good_same) simp_all

lemma announce_good:
  assumes "bla_good k bl" shows "bla_good k (snd (batadv_handle_announce k a b v bl))"
proof (cases "batadv_bla_get_backbone_gw k b v False bl")
  case (Pair r bl1)
  note good1 = get_gw_good [OF Pair assms]
  show ?thesis
  proof (cases r)
    case None
    then show ?thesis using good1 assms by (simp add: batadv_handle_announce_def Pair)
  next
    case (Some p)
    define bl2 where "bl2 = bla_gw_upd p (\<lambda>gw. gw\<lparr>bg_lasttime := jiffies k\<rparr>) bl1"
    have good2: "bla_good k bl2" unfolding bl2_def by (rule touch_good) (use good1 in simp)
    have wait: "bla_good k (bla_gw_upd p (\<lambda>gw. gw\<lparr>bg_request_sent := 0\<rparr>) (bl2\<lparr>bla_num_requests := bla_num_requests bl2 - 1\<rparr>))"
      if "bla_gw bl2 p = Some g" "bg_request_sent g \<noteq> 0" for g
      using request_good [of k bl2 g 0 "bla_num_requests bl2 - 1"] bla_gw_in [OF that(1)] that(2) good2
      by (simp add: bla_good_def)
    show ?thesis
      using good2 wait send_request_good [OF good2] assms
      by (simp add: batadv_handle_announce_def Pair Some bl2_def [symmetric] Let_def split: option.split)
  qed
qed

lemma unclaim_good:
  assumes "bla_good k bl" shows "bla_good k (snd (batadv_handle_unclaim k pif b c v bl))"
  using assms send_good del_claim_good by (simp add: batadv_handle_unclaim_def Let_def split: option.split)

lemma claim_good:
  assumes "bla_good k bl" shows "bla_good k (snd (batadv_handle_claim k d b c v bl))"
proof (cases "batadv_bla_get_backbone_gw k b v False bl")
  case (Pair r bl1)
  then show ?thesis
    using get_gw_good [OF Pair assms] add_claim_good send_good by (simp add: batadv_handle_claim_def Let_def split: option.split)
qed

lemma answer_frame:
  "bla_backbone_hash (foldl (\<lambda>bl c. if bc_backbone_gw c \<noteq> p then bl else batadv_bla_send_claim k (bc_addr c) (bc_vid c) t bl) bl cs) = bla_backbone_hash bl
   \<and> bla_claim_hash (foldl (\<lambda>bl c. if bc_backbone_gw c \<noteq> p then bl else batadv_bla_send_claim k (bc_addr c) (bc_vid c) t bl) bl cs) = bla_claim_hash bl
   \<and> bla_num_requests (foldl (\<lambda>bl c. if bc_backbone_gw c \<noteq> p then bl else batadv_bla_send_claim k (bc_addr c) (bc_vid c) t bl) bl cs) = bla_num_requests bl"
  by (induction cs arbitrary: bl) simp_all

lemma handle_request_good:
  assumes "bla_good k bl" shows "bla_good k (snd (batadv_handle_request k d b e v bl))"
  by (rule good_same [OF assms])
    (simp_all add: batadv_handle_request_def batadv_bla_answer_request_def answer_frame split: option.split)

lemma group_good:
  assumes "batadv_check_claim_group k d h ty gr e bl = (r, bl')" and "bla_good k bl" shows "bla_good k bl'"
  by (rule good_same [OF assms(2)]) (use assms(1) in \<open>auto simp: batadv_check_claim_group_def Let_def split: if_splits\<close>)

lemma dispatch_good:
  assumes "bla_good k bl" shows "bla_good k (snd (bla_claim_dispatch k d fr hl v dep bl))"
proof -
  obtain r bl1 where g: "batadv_check_claim_group k d (get_mac (drop (hl + 8) fr)) (drop (hl + 18) fr ! 3)
      (get_be16 (drop 4 (drop (hl + 18) fr))) (get_mac (drop 6 fr)) bl = (r, bl1)" by fastforce
  have good1: "bla_good k bl1" by (rule group_good [OF g assms])
  note good2 = update_own_good [OF good1, of d v]
  show ?thesis
    using assms good1 good2 claim_good [OF good2] unclaim_good [OF good2] announce_good [OF good2] handle_request_good [OF good2]
    unfolding bla_claim_dispatch_def Let_def g by simp
qed

lemma process_good:
  assumes "batadv_bla_process_claim k pull d fr bl = Kret (h, bl')" and "bla_good k bl" shows "bla_good k bl'"
proof -
  have "kpost (batadv_bla_process_claim k pull d fr bl) (\<lambda>r. bla_good k (snd r))"
    unfolding batadv_bla_process_claim_def
    by (intro kpost_bind) (auto intro!: kpost_bind dispatch_good assms(2) split: option.split)
  then show ?thesis using assms(1) by (simp add: kpost_def)
qed

subsection \<open>Frames from and to the mesh\<close>

lemma loopdetect_good:
  assumes "batadv_bla_loopdetect_check k e d v bl = (r, bl')" and "bla_good k bl" shows "bla_good k bl'"
proof (cases "batadv_bla_get_backbone_gw k d v True bl")
  case (Pair q bl1)
  have good: "bla_good k bl1" using get_gw_good [OF Pair assms(2)] by simp
  have "bla_good k (bl1\<lparr>bl_reports := x\<rparr>)" for x by (rule good_same [OF good]) simp_all
  then show ?thesis
    using assms good by (auto simp: batadv_bla_loopdetect_check_def Pair split: if_splits option.splits)
qed

lemma ucast_dup_good:
  assumes "batadv_bla_check_ucast_duplist k data bl = (r, bl')" and "bla_good k bl" shows "bla_good k bl'"
  by (rule good_same [OF assms(2)])
    (use assms(1) in \<open>auto simp: batadv_bla_check_ucast_duplist_def batadv_bla_check_duplist_def Let_def split: if_splits\<close>)

lemma rx_good:
  assumes "bla_good k bl" shows "bla_good k (snd (batadv_bla_rx k ed es data v ty bl))"
proof (cases "bla_primary_if bl")
  case None
  then show ?thesis using assms by (simp add: batadv_bla_rx_def)
next
  case (Some d)
  obtain r bl1 where l: "batadv_bla_loopdetect_check k es d v bl = (r, bl1)" by fastforce
  have good1: "bla_good k bl1" by (rule loopdetect_good [OF l assms])
  obtain r2 bl2 where u: "(if is_multicast_ether_addr ed \<and> ty = BATADV_UNICAST then batadv_bla_check_ucast_duplist k data bl1 else (False, bl1)) = (r2, bl2)"
    by fastforce
  have good2: "bla_good k bl2" using u ucast_dup_good good1 by (auto split: if_splits)
  note goods = update_own_good [OF assms] good1 good2 update_own_good [OF claim_good [OF good2]]
    update_own_good [OF claim_touch_good [OF good2]]
  show ?thesis
  proof (cases "is_multicast_ether_addr ed \<and> ty = BATADV_UNICAST")
    case True
    then have "batadv_bla_check_ucast_duplist k data bl1 = (r2, bl2)" using u by simp
    then show ?thesis using goods True
      by (simp add: batadv_bla_rx_def Some l Let_def cong: if_cong split: option.split bool.split)
  next
    case False
    then have "bl2 = bl1" using u by (auto split: if_splits)
    then show ?thesis using goods False
      by (auto simp: batadv_bla_rx_def Some l Let_def cong: if_cong split: option.split bool.split)
  qed
qed

lemma tx_good:
  assumes "batadv_bla_tx k pull fr v bl = Kret (r, bl')" and "bla_good k bl" shows "bla_good k bl'"
proof (cases "bla_primary_if bl")
  case None
  then show ?thesis using assms by (simp add: batadv_bla_tx_def)
next
  case (Some d)
  show ?thesis
  proof (cases "bl_bridge_loop_avoidance bl")
    case False
    then show ?thesis using assms update_own_good by (auto simp: batadv_bla_tx_def Some)
  next
    case True
    obtain h bl1 where p: "batadv_bla_process_claim k pull d fr bl = Kret (h, bl1)"
      using assms(1) True by (auto simp: batadv_bla_tx_def Some kbind_Kret)
    have good1: "bla_good k bl1" by (rule process_good [OF p assms(2)])
    note goods = good1 update_own_good [OF good1] update_own_good [OF unclaim_good [OF good1]]
    show ?thesis
      using assms(1) goods by (auto simp: batadv_bla_tx_def Some Let_def p True split: option.splits if_splits)
  qed
qed

subsection \<open>Purging and periodic work\<close>

text \<open>A walk over gateways that only ever changes the gateway it visits.\<close>

lemma foldl_gws:
  assumes "P bl" and "set gs \<subseteq> set (bla_gws bl)" and "distinct (map bg_ptr gs)"
    and step: "\<And>bl g. P bl \<Longrightarrow> g \<in> set (bla_gws bl) \<Longrightarrow> P (F bl g)"
    and other: "\<And>bl g x. P bl \<Longrightarrow> g \<in> set (bla_gws bl) \<Longrightarrow> x \<in> set (bla_gws bl) \<Longrightarrow> bg_ptr x \<noteq> bg_ptr g \<Longrightarrow> x \<in> set (bla_gws (F bl g))"
  shows "P (foldl F bl gs)"
  using assms(1-3)
proof (induction gs arbitrary: bl)
  case (Cons g gs)
  have "x \<in> set (bla_gws (F bl g))" if "x \<in> set gs" for x
    using other [OF Cons.prems(1), of g x] Cons.prems(2,3) that ptr_apart [OF Cons.prems(3) that] by auto
  then show ?case using Cons.IH [of "F bl g"] step [OF Cons.prems(1), of g] Cons.prems(2,3) by auto
qed simp

definition bla_unlink :: "nat \<Rightarrow> bla \<Rightarrow> bla" where
  "bla_unlink p bl = bl\<lparr>bla_backbone_hash := map_option
     (\<lambda>hash. hash\<lparr>table := map (filter (\<lambda>gw. bg_ptr gw \<noteq> p)) (table hash)\<rparr>) (bla_backbone_hash bl)\<rparr>"

lemma gws_unlink: "bla_gws (bla_unlink p bl) = filter (\<lambda>g. bg_ptr g \<noteq> p) (bla_gws bl)"
  by (simp add: bla_gws_def bla_unlink_def filter_concat split: option.split)

definition purge_gw :: "bla_kenv \<Rightarrow> batadv_bla_backbone_gw \<Rightarrow> bla \<Rightarrow> bla" where
  "purge_gw k g bl = bla_unlink (bg_ptr g) (batadv_bla_del_backbone_claims k (bg_ptr g)
     (if bg_request_sent g \<noteq> 0 then bl\<lparr>bla_num_requests := bla_num_requests bl - 1\<rparr> else bl))"

lemma purge_gw:
  assumes "bla_inv k bl" and "g \<in> set (bla_gws bl)"
  shows "bla_inv k (purge_gw k g bl)"
    and "x \<in> set (bla_gws bl) \<Longrightarrow> bg_ptr x \<noteq> bg_ptr g \<Longrightarrow> x \<in> set (bla_gws (purge_gw k g bl))"
proof -
  let ?n = "\<lambda>bl. if bg_request_sent g \<noteq> 0 then bla_num_requests bl - 1 else bla_num_requests bl"
  define bl0 where "bl0 = bl\<lparr>bla_num_requests := ?n bl\<rparr>"
  define bl1 where "bl1 = batadv_bla_del_backbone_claims k (bg_ptr g) bl0"
  have eq: "purge_gw k g bl = bla_unlink (bg_ptr g) bl1" by (simp add: purge_gw_def bl1_def bl0_def)
  have i: "gw_shape bl" "claims_ok k bl" "gw_inv k (bla_gws bl) (bla_claims bl) (bla_num_requests bl)"
    using assms(1) by (simp_all add: bla_inv_def)
  have s0: "bla_gws bl0 = bla_gws bl" "bla_claims bl0 = bla_claims bl" by (simp_all add: bl0_def bla_gws_def bla_claims_def)
  note j = del_backbone_good(1) [OF assms(1), of "bg_ptr g"]
  have num: "bl1 = (batadv_bla_del_backbone_claims k (bg_ptr g) bl)\<lparr>bla_num_requests := ?n bl\<rparr>"
  proof (cases "bla_claim_hash bl")
    case None
    then show ?thesis by (simp add: bl1_def bl0_def batadv_bla_del_backbone_claims_def)
  next
    case (Some h)
    then have "bla_claim_hash bl0 = Some h" by (simp add: bl0_def)
    from del_backbone_eq [OF this] del_backbone_eq [OF Some] show ?thesis
      by (simp add: bl1_def) (simp add: bl0_def gw_upd_eq)
  qed
  have g1: "bla_gws bl1 = map (upd_at (bg_ptr g) (\<lambda>g. g\<lparr>bg_crc := 0\<rparr>)) (bla_gws bl)"
    using del_backbone_gws [of k bl0] i(3) by (simp add: bl1_def s0)
  have c1: "bla_claims bl1 = filter (\<lambda>c. bc_backbone_gw c \<noteq> bg_ptr g) (bla_claims bl)"
    by (simp add: bl1_def del_backbone_claims s0)
  have cl: "bla_claims (bla_unlink p bl) = bla_claims bl" "claims_ok k (bla_unlink p bl) = claims_ok k bl"
      "bla_num_requests (bla_unlink p bl) = bla_num_requests bl" for p bl
    by (simp_all add: bla_unlink_def bla_claims_def claims_ok_def)
  define g' where "g' = g\<lparr>bg_crc := 0\<rparr>"
  have g': "g' \<in> set (bla_gws bl1)" "bg_ptr g' = bg_ptr g" "bg_request_sent g' = bg_request_sent g"
    using assms(2) by (auto simp: g1 g'_def upd_at_def)
  have "gw_inv k (bla_gws bl1) (bla_claims bl1) (bla_num_requests bl)"
    using gw_inv_flush [OF i(3)] by (simp add: g1 c1)
  from gw_inv_unlink [OF this _ g'(1)]
  have "gw_inv k (bla_gws (bla_unlink (bg_ptr g) bl1)) (bla_claims bl1) (?n bl)"
    by (simp add: gws_unlink g' c1)
  moreover have "bla_num_requests bl1 = ?n bl" by (simp add: num)
  moreover have "gw_shape (bla_unlink (bg_ptr g) bl1)" "claims_ok k bl1"
    using j by (auto simp: bla_inv_def gw_shape_def bla_unlink_def num claims_ok_def)
  ultimately show "bla_inv k (purge_gw k g bl)" by (simp add: bla_inv_def eq cl)
  show "x \<in> set (bla_gws (purge_gw k g bl))" if "x \<in> set (bla_gws bl)" "bg_ptr x \<noteq> bg_ptr g"
    using that by (force simp: eq gws_unlink g1)
qed

lemma inv_distinct: "bla_inv k bl \<Longrightarrow> distinct (map bg_ptr (bla_gws bl))"
  by (simp add: bla_inv_def gw_inv_def)

lemma purge_backbone_inv:
  assumes "bla_inv k bl" shows "bla_inv k (batadv_bla_purge_backbone_gw k now bl)"
proof -
  let ?skip = "\<lambda>g. \<not> now \<and> \<not> tt_timed_out k (bg_lasttime g) BATADV_BLA_BACKBONE_TIMEOUT"
  have "batadv_bla_purge_backbone_gw k now bl =
      foldl (\<lambda>bl g. if ?skip g then bl else purge_gw k g bl) bl (bla_gws bl)"
    unfolding batadv_bla_purge_backbone_gw_def purge_gw_def bla_unlink_def Let_def ..
  also have "bla_inv k \<dots>"
    by (rule foldl_gws [where P = "bla_inv k", OF assms subset_refl inv_distinct [OF assms]]) (auto simp: purge_gw)
  finally show ?thesis .
qed

lemma inv_env:
  assumes "jhash k' = jhash k" and "crc16 k' = crc16 k" shows "bla_inv k' bl = bla_inv k bl"
proof -
  have c: "claim_sum k' = claim_sum k" by (simp add: fun_eq_iff claim_sum_def assms(2))
  have "crc_of k' = crc_of k" unfolding crc_of_def [abs_def] c ..
  then show ?thesis by (simp add: bla_inv_def claims_ok_def gw_inv_def assms(1))
qed

lemma unclaim_inv:
  assumes "bla_inv k bl" shows "bla_inv k (snd (batadv_handle_unclaim k pif b c v bl))"
proof -
  define k' where "k' = k\<lparr>bla_new_gw := \<lambda>a v. None\<rparr>"
  have "batadv_bla_del_claim k' c v bl = batadv_bla_del_claim k c v bl" for bl
    by (simp add: batadv_bla_del_claim_def k'_def batadv_claim_release_def cong: option.case_cong)
  moreover have "batadv_bla_send_claim k' c v t bl = batadv_bla_send_claim k c v t bl" for t bl
    by (simp add: batadv_bla_send_claim_def k'_def cong: if_cong option.case_cong)
  moreover have "batadv_backbone_hash_find k' bl b v = batadv_backbone_hash_find k bl b v" for bl
    by (simp add: batadv_backbone_hash_find_def k'_def cong: option.case_cong)
  ultimately have "batadv_handle_unclaim k' pif b c v bl = batadv_handle_unclaim k pif b c v bl"
    by (simp add: batadv_handle_unclaim_def Let_def cong: option.case_cong)
  moreover have inv: "bla_inv k' bl = bla_inv k bl" for bl by (rule inv_env) (simp_all add: k'_def)
  moreover have "bla_good k' bl" using assms inv by (simp add: bla_good_def fresh_gws_def) (simp add: k'_def)
  then have "bla_inv k' (snd (batadv_handle_unclaim k' pif b c v bl))" using unclaim_good by (simp add: bla_good_def)
  ultimately show ?thesis by simp
qed

lemma purge_claims_inv:
  assumes "bla_inv k bl" shows "bla_inv k (batadv_bla_purge_claims k pif now bl)"
  unfolding batadv_bla_purge_claims_def
  by (rule foldl_keep [where I = "bla_inv k", OF _ assms]) (auto intro: unclaim_inv split: option.split)

lemma orig_upd_inv:
  "bla_inv k bl \<Longrightarrow> bla_inv k (bla_gw_upd p (\<lambda>gw. gw\<lparr>bg_orig := a\<rparr>) bl)"
  by (rule inv_gw_field) simp_all

lemma update_orig_inv:
  assumes "bla_inv k bl" shows "bla_inv k (batadv_bla_update_orig_address k pif old bl)"
proof -
  have 0: "bla_inv k (bl\<lparr>bla_group := g\<rparr>)" for g by (rule inv_same [OF assms]) simp_all
  have send: "bla_inv k bl \<Longrightarrow> bla_inv k (batadv_bla_send_announce k g bl)" for g bl
    by (rule inv_same) simp_all
  show ?thesis
    unfolding batadv_bla_update_orig_address_def Let_def
    by (auto intro!: foldl_keep [where I = "bla_inv k"] purge_backbone_inv purge_claims_inv 0 send orig_upd_inv split: option.split)
qed

lemma upd_keep: "x \<in> set (bla_gws bl) \<Longrightarrow> bg_ptr x \<noteq> p \<Longrightarrow> x \<in> set (bla_gws (bla_gw_upd p f bl))"
  unfolding gws_upd set_map by (metis image_eqI upd_at_other(1))

lemma periodic_gw:
  assumes "bla_inv k bl" and "g \<in> set (bla_gws bl)"
  shows "bla_inv k (bla_periodic_gw k s g bl)"
    and "x \<in> set (bla_gws bl) \<Longrightarrow> bg_ptr x \<noteq> bg_ptr g \<Longrightarrow> x \<in> set (bla_gws (bla_periodic_gw k s g bl))"
proof -
  let ?p = "bg_ptr g"
  define bl1 where "bl1 = bla_gw_upd ?p (\<lambda>gw. gw\<lparr>bg_lasttime := jiffies k\<rparr>) bl"
  define bl2 where "bl2 = (if s then batadv_bla_send_loopdetect k g (batadv_bla_send_announce k g bl1) else batadv_bla_send_announce k g bl1)"
  have f2: "bla_backbone_hash bl2 = bla_backbone_hash bl1" "bla_claim_hash bl2 = bla_claim_hash bl1" "bla_num_requests bl2 = bla_num_requests bl1"
    by (simp_all add: bl2_def batadv_bla_send_loopdetect_def)
  have inv2: "bla_inv k bl2"
    by (rule inv_same [OF _ f2]) (simp add: bl1_def inv_gw_field [OF assms(1)])
  define bl3 where "bl3 = bla_gw_upd ?p (\<lambda>gw. gw\<lparr>bg_wait_periods := bg_wait_periods gw - 1\<rparr>) bl2"
  have inv3: "bla_inv k bl3" unfolding bl3_def by (rule inv_gw_field [OF inv2]) simp_all
  have eq: "bla_periodic_gw k s g bl = (if bg_request_sent g = 0 then bl2 else if bg_wait_periods g - 1 \<noteq> 0 then bl3
      else bla_gw_upd ?p (\<lambda>gw. gw\<lparr>bg_request_sent := 0\<rparr>) (bl3\<lparr>bla_num_requests := bla_num_requests bl3 - 1\<rparr>))"
    by (simp add: bla_periodic_gw_def Let_def bl1_def bl2_def bl3_def)
  have g2: "bla_gws bl2 = map (upd_at ?p (\<lambda>gw. gw\<lparr>bg_lasttime := jiffies k\<rparr>)) (bla_gws bl)"
    using gws_same [OF f2(1)] by (simp add: bl1_def)
  define g3 where "g3 = g\<lparr>bg_lasttime := jiffies k, bg_wait_periods := bg_wait_periods g - 1\<rparr>"
  have "g3 = upd_at ?p (\<lambda>gw. gw\<lparr>bg_wait_periods := bg_wait_periods gw - 1\<rparr>) (upd_at ?p (\<lambda>gw. gw\<lparr>bg_lasttime := jiffies k\<rparr>) g)"
    by (simp add: g3_def upd_at_def)
  then have g3: "g3 \<in> set (bla_gws bl3)" using assms(2) unfolding bl3_def gws_upd g2 set_map by blast
  have g3': "bg_ptr g3 = ?p" "bg_request_sent g3 = bg_request_sent g" by (simp_all add: g3_def)
  show "bla_inv k (bla_periodic_gw k s g bl)"
    using inv2 inv3 request_good(1) [OF inv3 g3, of 0 "bla_num_requests bl3 - 1"] g3' by (simp add: eq)
  have n: "bla_gws (bl3\<lparr>bla_num_requests := n\<rparr>) = bla_gws bl3" for n by (rule gws_same) simp
  show "x \<in> set (bla_gws (bla_periodic_gw k s g bl))" if "x \<in> set (bla_gws bl)" "bg_ptr x \<noteq> ?p"
  proof -
    have "x \<in> set (bla_gws bl2)" using upd_keep [OF that] gws_same [OF f2(1)] by (simp add: bl1_def)
    moreover from this have "x \<in> set (bla_gws bl3)" unfolding bl3_def by (rule upd_keep) (rule that)
    ultimately show ?thesis using upd_keep [OF _ that(2), of "bl3\<lparr>bla_num_requests := m\<rparr>" for m] by (simp add: eq n)
  qed
qed

lemma call_inv: "bla_inv k (bla_call x bl) = bla_inv k bl"
  using inv_same [of k bl "bla_call x bl"] inv_same [of k "bla_call x bl" bl] by auto

lemma periodic_inv:
  assumes "bla_inv k bl" shows "bla_inv k (batadv_bla_periodic_work k bl)"
proof (cases "bla_primary_if bl")
  case None
  then show ?thesis by (simp add: batadv_bla_periodic_work_def inv_same [OF assms])
next
  case (Some d)
  define bl1 where "bl1 = batadv_bla_purge_backbone_gw k False (batadv_bla_purge_claims k (Some d) False bl)"
  have inv1: "bla_inv k bl1" unfolding bl1_def by (intro purge_backbone_inv purge_claims_inv assms)
  define ld where "ld = bl1\<lparr>bla_loopdetect_next := bla_loopdetect_next bl1 - 1\<rparr>"
  define s where "s = (bla_loopdetect_next ld = 0)"
  define bl2 where "bl2 = (if s then ld\<lparr>bla_loopdetect_addr := bla_loopdetect_mac (bla_random_addr k),
      bla_loopdetect_lasttime := jiffies k, bla_loopdetect_next := BATADV_BLA_LOOPDETECT_PERIODS\<rparr> else ld)"
  have inv2: "bla_inv k bl2" by (rule inv_same [OF inv1]) (simp_all add: bl2_def ld_def)
  let ?F = "\<lambda>bl g. if \<not> batadv_compare_eth (bg_orig g) d then bl else bla_periodic_gw k s g bl"
  have "bla_inv k (foldl ?F bl2 (bla_gws bl2))"
    by (rule foldl_gws [where P = "bla_inv k", OF inv2 subset_refl inv_distinct [OF inv2]]) (simp_all add: periodic_gw)
  moreover have "batadv_bla_periodic_work k bl = bla_call (Bla_queue_work BATADV_BLA_PERIOD_LENGTH)
      (if \<not> bl_bridge_loop_avoidance bl1 then bl1 else foldl ?F bl2 (bla_gws bl2))"
    unfolding batadv_bla_periodic_work_def Some option.case Let_def bl1_def ld_def s_def bl2_def ..
  ultimately show ?thesis using inv1 by (simp add: call_inv)
qed

section \<open>The gateways and claims of a node\<close>

lemma init_inv:
  assumes "batadv_bla_init k cok gok bl = (0, bl')" and "bla_claim_hash bl = None"
    and "bla_num_requests bl = 0"
  shows "bla_inv k bl'"
proof -
  have *: "bla_claim_hash bl' = Some (batadv_hash_init 128)" "bla_backbone_hash bl' = Some (batadv_hash_init 32)" "bla_num_requests bl' = 0"
    using assms by (auto simp: batadv_bla_init_def batadv_hash_new_def ENOMEM_def Let_def split: prod.splits if_splits option.splits)
  have "concat (table (batadv_hash_init n)) = []" for n by (simp add: batadv_hash_init_def)
  then have e: "bla_gws bl' = []" "bla_claims bl' = []" by (simp_all add: bla_gws_def bla_claims_def *)
  have "claims_ok k bl'" using claim_hash.new_ok [of 128] by (simp add: claims_ok_def *)
  then show ?thesis by (simp add: bla_inv_def gw_inv_def e * gw_shape_def batadv_hash_init_def)
qed

text \<open>
  What happens to the tables of a node from its set-up on. Time, the other parts of the mesh
  and the outcomes of allocations are different in each step; the two hash functions are not.
  \<open>step_other\<close> is everything outside this component, and the settings of the user.
\<close>

definition bla_env :: "bla_kenv \<Rightarrow> bla_kenv \<Rightarrow> bool" where
  "bla_env k0 k \<longleftrightarrow> jhash k = jhash k0 \<and> crc16 k = crc16 k0"

inductive bla_step :: "bla_kenv \<Rightarrow> bla \<Rightarrow> bla \<Rightarrow> bool" for k0 where
  step_rx: "bla_env k0 k \<Longrightarrow> fresh_gws k bl \<Longrightarrow> bla_step k0 bl (snd (batadv_bla_rx k ed es data vid ty bl))"
| step_tx: "bla_env k0 k \<Longrightarrow> fresh_gws k bl \<Longrightarrow> batadv_bla_tx k pull frame vid bl = Kret (r, bl') \<Longrightarrow> bla_step k0 bl bl'"
| step_periodic: "bla_env k0 k \<Longrightarrow> bla_step k0 bl (batadv_bla_periodic_work k bl)"
| step_update: "bla_env k0 k \<Longrightarrow> bla_step k0 bl (batadv_bla_update_orig_address k pif old bl)"
| step_status: "bla_env k0 k \<Longrightarrow> bla_step k0 bl (batadv_bla_status_update k bl)"
| step_report: "bla_step k0 bl (batadv_bla_loopdetect_report bl)"
| step_bcast: "bla_env k0 k \<Longrightarrow> bla_step k0 bl (snd (batadv_bla_check_bcast_duplist k data bl))"
| step_other: "bla_step k0 bl (bl\<lparr>bl_mesh := ms, bl_bridge_loop_avoidance := on\<rparr>)"

inductive bla_reach :: "bla_kenv \<Rightarrow> bla \<Rightarrow> bool" for k0 where
  reach_init: "batadv_bla_init k0 cok gok bl = (0, bl') \<Longrightarrow> bla_claim_hash bl = None \<Longrightarrow> bla_num_requests bl = 0 \<Longrightarrow> bla_reach k0 bl'"
| reach_step: "bla_reach k0 bl \<Longrightarrow> bla_step k0 bl bl' \<Longrightarrow> bla_reach k0 bl'"

lemma step_inv:
  assumes "bla_step k0 bl bl'" and "bla_inv k0 bl" shows "bla_inv k0 bl'"
  using assms
proof (cases rule: bla_step.cases)
  case (step_rx k ed es data vid ty)
  then have "bla_good k bl" using assms(2) inv_env [of k k0] by (simp add: bla_good_def bla_env_def)
  from rx_good [OF this] show ?thesis using step_rx inv_env [of k k0] by (simp add: bla_good_def bla_env_def)
next
  case (step_tx k pull frame vid r)
  then have "bla_good k bl" using assms(2) inv_env [of k k0] by (simp add: bla_good_def bla_env_def)
  from tx_good [OF step_tx(3) this] show ?thesis using step_tx inv_env [of k k0] by (simp add: bla_good_def bla_env_def)
next
  case (step_periodic k)
  then show ?thesis using periodic_inv [of k bl] assms(2) inv_env [of k k0] by (simp add: bla_env_def)
next
  case (step_update k pif old)
  then show ?thesis using update_orig_inv [of k bl] assms(2) inv_env [of k k0] by (simp add: bla_env_def)
next
  case (step_status k)
  then show ?thesis using update_orig_inv [of k bl] assms(2) inv_env [of k k0]
    by (simp add: bla_env_def batadv_bla_status_update_def split: option.split)
qed (auto intro!: inv_same [OF assms(2)] simp: batadv_bla_loopdetect_report_def batadv_bla_check_bcast_duplist_def
    batadv_bla_check_duplist_def Let_def split: list.split prod.split if_splits)

text \<open>C37: in every state a node can get into, each claim belongs to a gateway that is in the
  table and is on the same VLAN; the checksum kept for each gateway, changed in place by every
  claim that comes, goes or changes hands, is the checksum over exactly the claims in the table
  that name the gateway; and the number of outstanding requests, which decides whether
  broadcasts pass, is the number of gateways that wait for an answer.\<close>

theorem bla_accounted:
  assumes "bla_reach k0 bl"
  shows "(\<forall>c \<in> set (bla_claims bl). \<exists>g \<in> set (bla_gws bl). bg_ptr g = bc_backbone_gw c \<and> bg_vid g = bc_vid c)
    \<and> (\<forall>g \<in> set (bla_gws bl). bg_crc g =
         foldr (\<lambda>c x. crc16 k0 0 (mac_bytes (bc_addr c)) XOR x) (filter (\<lambda>c. bc_backbone_gw c = bg_ptr g) (bla_claims bl)) 0)
    \<and> bla_num_requests bl = of_nat (length (filter (\<lambda>g. bg_request_sent g \<noteq> 0) (bla_gws bl)))"
proof -
  have "bla_inv k0 bl" using assms by (induction rule: bla_reach.induct) (auto intro: init_inv step_inv)
  moreover have "crc_of k0 p cs = foldr (\<lambda>c x. crc16 k0 0 (mac_bytes (bc_addr c)) XOR x) (filter (\<lambda>c. bc_backbone_gw c = p) cs) 0" for p cs
    by (induction cs) (simp_all add: claim_sum_def)
  ultimately show ?thesis by (simp add: bla_inv_def gw_inv_def waiting_def)
qed

definition ex_bla_kenv :: bla_kenv where
  "ex_bla_kenv = tt_kenv.extend ex_tt_kenv (bla_kenv.fields (\<lambda>c bs. of_nat (length bs) + ucast (bs ! 5))
     (\<lambda>a v. if a = Mac 2 0 0 0 0 1 \<and> v = 0x8001 then Some 7 else None) (\<lambda>a v. True) (\<lambda>t m v. True) (Mac 2 1 2 3 4 5))"

definition ex_bla0 :: bla where
  "ex_bla0 = \<lparr>bla_num_requests = 0, bla_claim_hash = None, bla_backbone_hash = None, bla_loopdetect_addr = Mac 0 0 0 0 0 0,
     bla_loopdetect_lasttime = 0, bla_loopdetect_next = 0,
     bla_bcast_duplist = replicate 16 \<lparr>dl_orig = Mac 0 0 0 0 0 0, dl_crc = 0, dl_entrytime = 0\<rparr>,
     bla_bcast_duplist_curr = 0, bla_magic = [], bla_group = 0, bl_bridge_loop_avoidance = True, bl_mesh = ex_acc_mesh,
     bl_reports = [], bl_calls = []\<rparr>"

definition ex_bla :: bla where
  "ex_bla = snd (batadv_bla_init ex_bla_kenv (True, True, True) (True, True, True) ex_bla0)"

lemma ex_bla_reach: "bla_reach ex_bla_kenv ex_bla"
proof -
  have "batadv_bla_init ex_bla_kenv (True, True, True) (True, True, True) ex_bla0 = (0, ex_bla)"
    by (simp add: ex_bla_def ex_bla0_def batadv_bla_init_def batadv_hash_new_def Let_def)
  then show ?thesis by (rule reach_init) (simp_all add: ex_bla0_def)
qed

lemma ex_bla_fresh: "fresh_gws ex_bla_kenv ex_bla"
proof -
  have "bla_ptrs ex_bla = {}"
    by (simp add: bla_ptrs_def bla_gws_def ex_bla_def ex_bla0_def batadv_bla_init_def batadv_hash_new_def batadv_hash_init_def Let_def)
  then show ?thesis by (auto simp: fresh_gws_def ex_bla_kenv_def bla_kenv.defs tt_kenv.defs split: if_splits)
qed

theorem bla_accounted_witness:
  "\<exists>bl. bl = snd (batadv_bla_rx ex_bla_kenv (Mac 255 255 255 255 255 255) (Mac 2 0 0 0 0 9) [1, 2, 3] 0x8001 BATADV_UNICAST ex_bla)
    \<and> bla_num_requests bl = of_nat (length (filter (\<lambda>g. bg_request_sent g \<noteq> 0) (bla_gws bl)))"
  using bla_accounted [OF reach_step [OF ex_bla_reach step_rx [OF _ ex_bla_fresh, where ed = "Mac 255 255 255 255 255 255" and es = "Mac 2 0 0 0 0 9" and data = "[1, 2, 3]" and vid = "0x8001" and ty = BATADV_UNICAST]]]
  by (simp add: bla_env_def)

end
