(* ===== verification/Bla_Properties.thy ===== *)
theory Bla_Properties
  imports Bla_Accounting
begin

text \<open>
  What bridge loop avoidance does on the LAN: the frames a node sends are read back by its
  peers, one exchange of request and answer brings two nodes to the same claims, the ring
  of recent broadcasts is a queue of 16, and a change of the node's own address loses its
  gateway entries.
\<close>

section \<open>Frames on the LAN\<close>

text \<open>The VLAN of a frame: none, or a number other than 0 with the tag flag.\<close>

definition wire_vid :: "u16 \<Rightarrow> bool" where
  "wire_vid vid \<longleftrightarrow> vid = 0 \<or> vid AND VLAN_VID_MASK \<noteq> 0 \<and> vid = (vid AND VLAN_VID_MASK) OR BATADV_VLAN_HAS_TAG"

lemma wire_vid_tag: "wire_vid vid \<Longrightarrow> (vid AND BATADV_VLAN_HAS_TAG \<noteq> 0) = (vid \<noteq> 0)"
proof -
  assume *: "wire_vid vid"
  show ?thesis
  proof (cases "vid = 0")
    case False
    then have "bit (vid AND BATADV_VLAN_HAS_TAG) 15"
      using * by (subst (asm) wire_vid_def) (auto simp: BATADV_VLAN_HAS_TAG_def bit_simps dest: arg_cong [where f = "\<lambda>x. bit x 15"])
    then show ?thesis using False by auto
  qed simp
qed

definition claim_arp :: "mac \<Rightarrow> bytes \<Rightarrow> bytes" where
  "claim_arp hw_src hw_dst = be16 1 @ be16 ETH_P_IP @ [6, 4] @ be16 2 @ mac_bytes hw_src @ [0, 0, 0, 0] @ hw_dst @ [0, 0, 0, 0]"

lemma claim_frame_eq: "wire_vid vid \<Longrightarrow> bla_claim_frame dst src hs hw vid = mac_bytes dst @ mac_bytes src @
    (if vid = 0 then be16 ETH_P_ARP @ claim_arp hs hw
     else be16 ETH_P_8021Q @ be16 (vid AND VLAN_VID_MASK) @ be16 ETH_P_ARP @ claim_arp hs hw)"
  using wire_vid_tag [of vid] by (simp add: bla_claim_frame_def claim_arp_def)

lemma claim_frame_untagged: "bla_claim_frame dst src hs hw 0 = mac_bytes dst @ mac_bytes src @ be16 ETH_P_ARP @ claim_arp hs hw"
  by (simp add: bla_claim_frame_def claim_arp_def)

lemma mac_length: "length (mac_bytes m) = 6" by (cases m) simp

lemma claim_frame_vid:
  assumes "wire_vid vid"
  shows "batadv_get_vid (\<lambda>n. True) (bla_claim_frame dst src hs hw vid) 0 = Kret vid"
proof (cases "vid = 0")
  case True
  then show ?thesis
    by (simp add: claim_frame_untagged batadv_get_vid_def read16_def mac_length ETH_P_ARP_def ETH_P_8021Q_def BATADV_NO_FLAGS_def
        claim_arp_def)
next
  case False
  then have "vid AND VLAN_VID_MASK \<noteq> 0" "(vid AND VLAN_VID_MASK) OR BATADV_VLAN_HAS_TAG = vid"
    using assms by (auto simp: wire_vid_def)
  then show ?thesis using False
    by (simp add: claim_frame_eq [OF assms] batadv_get_vid_def read16_def mac_length and.assoc)
qed

lemma claim_frame_arp:
  fixes dst src hs :: mac
  assumes "wire_vid vid" and "length hw = 6"
  defines "fr \<equiv> bla_claim_frame dst src hs hw vid" and "hl \<equiv> (if vid = 0 then 14 else 18)"
  shows "(if vid AND BATADV_VLAN_HAS_TAG \<noteq> 0 then bla_vlan_loop fr ETH_HLEN 0 else Some (get_be16 (drop 12 fr), ETH_HLEN, 0))
      = Some (ETH_P_ARP, hl, if vid = 0 then 0 else 1)"
    and "drop hl fr = claim_arp hs hw" and "length fr = hl + 28" and "get_mac fr = dst" and "get_mac (drop 6 fr) = src"
proof -
  show "(if vid AND BATADV_VLAN_HAS_TAG \<noteq> 0 then bla_vlan_loop fr ETH_HLEN 0 else Some (get_be16 (drop 12 fr), ETH_HLEN, 0))
      = Some (ETH_P_ARP, hl, if vid = 0 then 0 else 1)"
  proof (cases "vid = 0")
    case True
    then show ?thesis by (simp add: fr_def hl_def claim_frame_untagged mac_length ETH_HLEN_def)
  next
    case False
    have "bla_vlan_loop fr ETH_HLEN 0 = Some (ETH_P_ARP, hl, 1)"
      unfolding fr_def claim_frame_eq [OF assms(1)]
      by (subst bla_vlan_loop.simps)
        (simp add: False hl_def mac_length ETH_HLEN_def VLAN_HLEN_def claim_arp_def ETH_P_ARP_def ETH_P_8021Q_def Let_def)
    then show ?thesis using False by (simp add: wire_vid_tag [OF assms(1)])
  qed
  show "drop hl fr = claim_arp hs hw" "length fr = hl + 28"
    using assms(2) by (simp_all add: fr_def hl_def claim_frame_eq [OF assms(1)] mac_length claim_arp_def)
  show "get_mac fr = dst" "get_mac (drop 6 fr) = src"
    by (simp_all add: fr_def claim_frame_eq [OF assms(1)] mac_length)
qed

lemma claim_arp_fields:
  assumes "length hw = 6"
  shows "get_be16 (claim_arp hs hw) = 1" "get_be16 (drop 2 (claim_arp hs hw)) = ETH_P_IP" "claim_arp hs hw ! 4 = 6" "claim_arp hs hw ! 5 = 4"
    "get_mac (drop 8 (claim_arp hs hw)) = hs" "drop 18 (claim_arp hs hw) = hw @ [0, 0, 0, 0]" "length (claim_arp hs hw) = 28"
proof -
  show "get_be16 (claim_arp hs hw) = 1" unfolding claim_arp_def by (rule get_be16_be16)
  show "get_be16 (drop 2 (claim_arp hs hw)) = ETH_P_IP" "claim_arp hs hw ! 4 = 6" "claim_arp hs hw ! 5 = 4"
    by (simp_all add: claim_arp_def nth_append)
  show "get_mac (drop 8 (claim_arp hs hw)) = hs" by (simp add: claim_arp_def)
  show "drop 18 (claim_arp hs hw) = hw @ [0, 0, 0, 0]" "length (claim_arp hs hw) = 28"
    using assms by (simp_all add: claim_arp_def mac_length)
qed

text \<open>C39: every claim frame is understood: whatever a node sends for an address on a VLAN, a node
  with the same magic bytes reads back as the same type, group, VLAN and addresses, untagged or
  tagged, and does what its group check and the handler of the type say.\<close>

theorem bla_frame_roundtrip:
  assumes "wire_vid vid" and "length (bla_magic own) = 3" and "bla_magic bl = bla_magic own" and "ctype < BATADV_CLAIM_TYPE_LOOPDETECT"
  shows "batadv_bla_process_claim k (\<lambda>n. True) dev (bla_claim_frame dst src hs (bla_claim_dst own ctype) vid) bl = Kret
    (case batadv_check_claim_group k dev hs ctype (bla_group own) src bl of
       (ret, bl1) \<Rightarrow> if ret < 2 then (ret \<noteq> 0, bl1)
         else let bl2 = batadv_bla_update_own_backbone_gw k dev vid bl1 in
           (True, if ctype = BATADV_CLAIM_TYPE_CLAIM then snd (batadv_handle_claim k dev hs src vid bl2)
                  else if ctype = BATADV_CLAIM_TYPE_UNCLAIM then snd (batadv_handle_unclaim k (Some dev) src hs vid bl2)
                  else if ctype = BATADV_CLAIM_TYPE_ANNOUNCE then snd (batadv_handle_announce k hs src vid bl2)
                  else snd (batadv_handle_request k dev hs dst vid bl2)))"
proof -
  let ?hw = "bla_claim_dst own ctype" and ?hl = "if vid = 0 then 14 else 18 :: nat"
  define fr where "fr = bla_claim_frame dst src hs ?hw vid"
  have hw: "length ?hw = 6" "take 3 (?hw @ z) = bla_magic bl" "(?hw @ z) ! 3 = ctype" "get_be16 (drop 4 (?hw @ z)) = bla_group own" for z
    using assms(2,3) by (simp_all add: bla_claim_dst_def nth_append)
  note fa = claim_frame_arp [OF assms(1) hw(1), of dst src hs, folded fr_def]
  note f = claim_arp_fields [OF hw(1), of hs, folded fa(2)]
  have g: "get_be16 (drop ?hl fr) = 1" "get_be16 (drop (?hl + 2) fr) = ETH_P_IP" "fr ! (?hl + 4) = 6" "fr ! (?hl + 5) = 4"
      "get_mac (drop (?hl + 8) fr) = hs" "drop (?hl + 18) fr = ?hw @ [0, 0, 0, 0]"
    using f fa(3) by (simp_all add: add.commute)
  have x: "ctype = BATADV_CLAIM_TYPE_CLAIM \<or> ctype = BATADV_CLAIM_TYPE_UNCLAIM \<or> ctype = BATADV_CLAIM_TYPE_ANNOUNCE \<or> ctype = BATADV_CLAIM_TYPE_REQUEST"
  proof -
    have "unat ctype < 4" using assms(4) by (simp add: BATADV_CLAIM_TYPE_LOOPDETECT_def word_less_nat_alt)
    then have "unat ctype = 0 \<or> unat ctype = 1 \<or> unat ctype = 2 \<or> unat ctype = 3" by arith
    then show ?thesis by (simp add: claim_type_defs word_unat_eq_iff)
  qed
  have d: "bla_claim_dispatch k dev fr ?hl vid (if vid = 0 then 0 else 1) bl =
    (case batadv_check_claim_group k dev hs ctype (bla_group own) src bl of
       (ret, bl1) \<Rightarrow> if ret < 2 then (ret \<noteq> 0, bl1)
         else let bl2 = batadv_bla_update_own_backbone_gw k dev vid bl1 in
           (True, if ctype = BATADV_CLAIM_TYPE_CLAIM then snd (batadv_handle_claim k dev hs src vid bl2)
                  else if ctype = BATADV_CLAIM_TYPE_UNCLAIM then snd (batadv_handle_unclaim k (Some dev) src hs vid bl2)
                  else if ctype = BATADV_CLAIM_TYPE_ANNOUNCE then snd (batadv_handle_announce k hs src vid bl2)
                  else snd (batadv_handle_request k dev hs dst vid bl2)))"
  proof -
    have "ctype \<noteq> BATADV_CLAIM_TYPE_LOOPDETECT" "\<not> (if vid = 0 then 0 else 1 :: nat) > 1" using assms(4) by simp_all
    moreover have last: "(if ctype = BATADV_CLAIM_TYPE_CLAIM then a else if ctype = BATADV_CLAIM_TYPE_UNCLAIM then b
        else if ctype = BATADV_CLAIM_TYPE_ANNOUNCE then c else if ctype = BATADV_CLAIM_TYPE_REQUEST then e else z)
      = (if ctype = BATADV_CLAIM_TYPE_CLAIM then a else if ctype = BATADV_CLAIM_TYPE_UNCLAIM then b
        else if ctype = BATADV_CLAIM_TYPE_ANNOUNCE then c else e)" for a b c e z :: bla
      using x by argo
    ultimately show ?thesis unfolding bla_claim_dispatch_def g hw fa(4,5) Let_def last by simp
  qed
  have "batadv_bla_process_claim k (\<lambda>n. True) dev fr bl = Kret (bla_claim_dispatch k dev fr ?hl vid (if vid = 0 then 0 else 1) bl)"
    using fa(1,3) g claim_frame_vid [OF assms(1), of dst src hs ?hw, folded fr_def]
    by (simp add: batadv_bla_process_claim_def read16_def read8_def)
  then show ?thesis using d by (simp add: fr_def)
qed

lemma ex_bla_magic: "bla_magic ex_bla = [0xff, 0x43, 0x05]"
  by (simp add: ex_bla_def ex_bla0_def batadv_bla_init_def batadv_hash_new_def bla_call_def Let_def)

theorem bla_frame_roundtrip_witness:
  "batadv_bla_process_claim ex_bla_kenv (\<lambda>n. True) (Mac 2 0 0 0 0 1)
     (bla_claim_frame (Mac 255 255 255 255 255 255) (Mac 2 0 0 0 0 9) (Mac 2 0 0 0 0 4) (bla_claim_dst ex_bla BATADV_CLAIM_TYPE_CLAIM) 0) ex_bla
   \<noteq> Kernel_bug"
  using bla_frame_roundtrip [of 0 ex_bla ex_bla BATADV_CLAIM_TYPE_CLAIM ex_bla_kenv "Mac 2 0 0 0 0 1" "Mac 255 255 255 255 255 255"
      "Mac 2 0 0 0 0 9" "Mac 2 0 0 0 0 4"]
  by (simp add: wire_vid_def claim_type_defs ex_bla_magic)

section \<open>Catching up with a gateway\<close>

definition held :: "bla \<Rightarrow> nat \<Rightarrow> mac set" where
  "held bl p = bc_addr ` {c \<in> set (bla_claims bl). bc_backbone_gw c = p}"

lemma held_same: "bla_claim_hash bl' = bla_claim_hash bl \<Longrightarrow> held bl' p = held bl p"
  by (simp add: held_def claims_same [of bl' bl])

lemma gw_of_ptr:
  assumes "bla_inv k bl" and "g \<in> set (bla_gws bl)" shows "bla_gw bl (bg_ptr g) = Some g"
proof -
  have "find (\<lambda>x. bg_ptr x = bg_ptr g) gs = Some g" if "distinct (map bg_ptr gs)" "g \<in> set gs" for gs
    using that by (induction gs) (auto simp: image_iff)
  then show ?thesis using inv_distinct [OF assms(1)] assms(2) by (simp add: bla_gw_def)
qed

lemma held_insert: "set (bla_claims bl') = insert c (set (bla_claims bl)) \<Longrightarrow> bc_backbone_gw c = p \<Longrightarrow>
    held bl' p = insert (bc_addr c) (held bl p)"
  by (auto simp: held_def)

lemma image_filter: "{x \<in> f ` S. P x} = f ` {y \<in> S. P (f y)}"
  by auto

lemma held_move:
  assumes "c \<in> set (bla_claims bl)" and "bc_key c = (a, v)"
  shows "held (bla_claim_upd a v (\<lambda>c. c\<lparr>bc_backbone_gw := p\<rparr>) bl) p = insert a (held bl p)"
proof -
  have f: "bc_addr (claim_at a v (\<lambda>c. c\<lparr>bc_backbone_gw := p\<rparr>) y) = bc_addr y"
    "bc_backbone_gw (claim_at a v (\<lambda>c. c\<lparr>bc_backbone_gw := p\<rparr>) y) = (if bc_key y = (a, v) then p else bc_backbone_gw y)" for y
    by (simp_all add: claim_at_def)
  have "held (bla_claim_upd a v (\<lambda>c. c\<lparr>bc_backbone_gw := p\<rparr>) bl) p
      = bc_addr ` {y \<in> set (bla_claims bl). bc_key y = (a, v) \<or> bc_backbone_gw y = p}"
    unfolding held_def claims_upd set_map image_filter image_image f by (rule image_cong) auto
  moreover have "bc_addr ` {y \<in> S. bc_key y = (a, v) \<or> bc_backbone_gw y = p} = insert a (bc_addr ` {y \<in> S. bc_backbone_gw y = p})"
    if "c \<in> S" for S using that assms(2) by (force simp: bc_key_def)
  ultimately show ?thesis using assms(1) by (simp add: held_def)
qed

text \<open>What a receiver does to the entry of the gateway, apart from the accounts.\<close>

definition gw_kept :: "bla_kenv \<Rightarrow> mac \<Rightarrow> u16 \<Rightarrow> bla \<Rightarrow> bla \<Rightarrow> bool" where
  "gw_kept k b v bl bl' \<longleftrightarrow> (\<forall>g. batadv_backbone_hash_find k bl b v = Some g \<longrightarrow>
     (\<exists>g'. batadv_backbone_hash_find k bl' b v = Some g' \<and> bg_ptr g' = bg_ptr g \<and> bg_request_sent g' = bg_request_sent g))"

lemma kept_same: "bla_backbone_hash bl' = bla_backbone_hash bl \<Longrightarrow> gw_kept k b v bl bl'"
  by (simp add: gw_kept_def batadv_backbone_hash_find_def)

lemma kept_trans: "gw_kept k b v x y \<Longrightarrow> gw_kept k b v y z \<Longrightarrow> gw_kept k b v x z"
  unfolding gw_kept_def by metis

lemma kept_upd:
  assumes "\<And>g. bg_orig (f g) = bg_orig g" "\<And>g. bg_vid (f g) = bg_vid g" "\<And>g. bg_ptr (f g) = bg_ptr g"
    "\<And>g. bg_request_sent (f g) = bg_request_sent g" and "gw_shape bl"
  shows "gw_kept k b v bl (bla_gw_upd p f bl)"
  using upd_at_field [of bg_ptr f p] upd_at_field [of bg_request_sent f p] assms(3,4)
  by (simp add: gw_kept_def gw_find_upd [OF assms(1,2,5)])

lemma shape_same: "bla_backbone_hash bl' = bla_backbone_hash bl \<Longrightarrow> gw_shape bl' = gw_shape bl"
  by (simp add: gw_shape_def)

lemma register_kept:
  "gw_shape bl \<Longrightarrow> gw_kept k b v bl (bla_gw_upd p (\<lambda>gw. gw\<lparr>bg_lasttime := t\<rparr>) (bla_gw_xor k p a bl))"
  unfolding gw_xor_eq by (rule kept_trans [OF kept_upd kept_upd]) simp_all

text \<open>A claim that can be recorded is, in the name of its new gateway.\<close>

lemma add_claim_holds:
  assumes "bla_good k bl" and "has_gw bl p v" and "bla_claim_hash bl \<noteq> None" and "bla_new_claim k a v"
  defines "bl' \<equiv> batadv_bla_add_claim k a v p bl"
  shows "held bl' p = insert a (held bl p) \<and> gw_kept k b w bl bl' \<and> bla_num_requests bl' = bla_num_requests bl \<and> bla_claim_hash bl' \<noteq> None"
proof (cases "batadv_claim_hash_find k bl a v")
  case None
  have i: "claims_ok k bl" "gw_shape bl" using assms(1) by (simp_all add: bla_good_def bla_inv_def)
  let ?c = "\<lparr>bc_addr = a, bc_vid = v, bc_backbone_gw = p, bc_lasttime = jiffies k\<rparr>"
  have "bc_key ?c = (a, v)" by (simp add: bc_key_def)
  with i(1) None show ?thesis
  proof (cases rule: claim_insert)
    case null
    then show ?thesis using assms(3) by (auto simp: batadv_hash_add_def Let_def split: if_splits)
  next
    case (added h)
    define bl1 where "bl1 = bl\<lparr>bla_claim_hash := Some h\<rparr>"
    have "set (bla_claims bl1) = insert ?c (set (bla_claims bl))"
      using mset_eq_setD [OF conjunct2 [OF added(2) [of bl1]]] by (simp add: bl1_def)
    from held_insert [OF this, of p] have h1: "held bl1 p = insert a (held bl p)" by simp
    have "bl' = bla_gw_upd p (\<lambda>gw. gw\<lparr>bg_lasttime := jiffies k\<rparr>) (bla_gw_xor k p a bl1)"
      using None added(1) assms(4) by (simp add: bl'_def batadv_bla_add_claim_def bl1_def)
    moreover have f: "bla_backbone_hash bl1 = bla_backbone_hash bl" by (simp add: bl1_def)
    have "gw_kept k b w bl (bla_gw_upd p (\<lambda>gw. gw\<lparr>bg_lasttime := jiffies k\<rparr>) (bla_gw_xor k p a bl1))"
      by (rule kept_trans [OF kept_same [OF f] register_kept]) (simp add: shape_same [OF f] i(2))
    ultimately show ?thesis
      using h1 held_same [of bl' bl1] by (simp add: gw_xor_eq) (simp add: bl1_def)
  qed
next
  case (Some c)
  have i: "claims_ok k bl" "gw_shape bl" using assms(1) by (simp_all add: bla_good_def bla_inv_def)
  note c = claim_found [OF Some i(1)]
  define bl0 where "bl0 = bla_claim_upd a v (\<lambda>c. c\<lparr>bc_lasttime := jiffies k\<rparr>) bl"
  define bl1 where "bl1 = bla_claim_upd a v (\<lambda>c. c\<lparr>bc_backbone_gw := p\<rparr>) bl0"
  have f: "bla_backbone_hash bl0 = bla_backbone_hash bl" "bla_backbone_hash bl1 = bla_backbone_hash bl" by (simp_all add: bl0_def bl1_def)
  have h0: "held bl0 p = held bl p" by (simp add: held_def bl0_def image_filter image_image)
  have "c\<lparr>bc_lasttime := jiffies k\<rparr> = claim_at a v (\<lambda>c. c\<lparr>bc_lasttime := jiffies k\<rparr>) c"
    using c(2,3) by (simp add: claim_at_def bc_key_def)
  then have "c\<lparr>bc_lasttime := jiffies k\<rparr> \<in> set (bla_claims bl0)" using c(1) by (simp add: bl0_def)
  then have h1: "held bl1 p = insert a (held bl p)" using c(2,3) held_move h0 by (fastforce simp: bl1_def bc_key_def)
  have nn: "bla_claim_hash bl0 \<noteq> None" "bla_claim_hash bl1 \<noteq> None" using assms(3) by (simp_all add: bl0_def bl1_def bla_claim_upd_def)
  have num: "bla_num_requests bl0 = bla_num_requests bl" "bla_num_requests bl1 = bla_num_requests bl" by (simp_all add: bl0_def bl1_def)
  show ?thesis
  proof (cases "bc_backbone_gw c = p")
    case True
    then have "bl' = bl0" "a \<in> held bl p"
      using Some c by (auto simp: bl'_def batadv_bla_add_claim_def bl0_def Let_def held_def)
    then show ?thesis using h0 nn num kept_same [OF f(1)] by auto
  next
    case False
    let ?x = "bla_gw_xor k (bc_backbone_gw c) a bl1"
    have eq: "bl' = bla_gw_upd p (\<lambda>gw. gw\<lparr>bg_lasttime := jiffies k\<rparr>) (bla_gw_xor k p a ?x)"
      using Some False by (simp add: bl'_def batadv_bla_add_claim_def bl0_def bl1_def Let_def)
    have "gw_shape bl1" using shape_same [OF f(2)] i(2) by simp
    then have "gw_kept k b w bl1 ?x" "gw_shape ?x" unfolding gw_xor_eq by (auto intro: kept_upd)
    then have "gw_kept k b w bl bl'" unfolding eq by (intro kept_trans [OF kept_same [OF f(2)] kept_trans [OF _ register_kept]])
    then show ?thesis using h1 nn num held_same [of bl' bl1] by (simp add: eq gw_xor_eq)
  qed
qed

text \<open>The two checksums are over addresses.\<close>

definition addr_crc :: "bla_kenv \<Rightarrow> mac list \<Rightarrow> u16" where
  "addr_crc k as = fold (\<lambda>a x. x XOR crc16 k 0 (mac_bytes a)) as 0"

lemma addr_crc_perm:
  assumes "mset as = mset bs" and "crc16 k = crc16 k'" shows "addr_crc k as = addr_crc k' bs"
  unfolding addr_crc_def assms(2)
  by (rule arg_cong [where f = "\<lambda>f. f 0"], rule fold_multiset_equiv) (auto simp: fun_eq_iff xor_comm3 assms(1))

lemma crc_of_addrs: "crc_of k p cs = addr_crc k (map bc_addr (filter (\<lambda>c. bc_backbone_gw c = p) cs))"
proof -
  have "fold (\<lambda>c x. if bc_backbone_gw c = p then x XOR claim_sum k c else x) cs z =
      fold (\<lambda>a x. x XOR crc16 k 0 (mac_bytes a)) (map bc_addr (filter (\<lambda>c. bc_backbone_gw c = p) cs)) z" for z
    by (induction cs arbitrary: z) (simp_all add: claim_sum_def)
  then show ?thesis by (simp add: crc_of_def addr_crc_def)
qed

lemma held_crc:
  assumes "bla_inv k bl" and "g \<in> set (bla_gws bl)"
  shows "bg_crc g = addr_crc k (map bc_addr (filter (\<lambda>c. bc_backbone_gw c = bg_ptr g) (bla_claims bl)))"
    and "distinct (map bc_addr (filter (\<lambda>c. bc_backbone_gw c = bg_ptr g) (bla_claims bl)))"
proof -
  have i: "claims_ok k bl" "gw_inv k (bla_gws bl) (bla_claims bl) (bla_num_requests bl)" using assms(1) by (simp_all add: bla_inv_def)
  show "bg_crc g = addr_crc k (map bc_addr (filter (\<lambda>c. bc_backbone_gw c = bg_ptr g) (bla_claims bl)))"
    using i(2) assms(2) by (simp add: gw_inv_def crc_of_addrs)
  have "bc_vid c = bg_vid g" if c: "c \<in> set (bla_claims bl)" "bc_backbone_gw c = bg_ptr g" for c
  proof -
    have "\<forall>c \<in> set (bla_claims bl). \<exists>g \<in> set (bla_gws bl). bg_ptr g = bc_backbone_gw c \<and> bg_vid g = bc_vid c"
      using i(2) by (simp add: gw_inv_def)
    from bspec [OF this c(1)] obtain g' where g': "g' \<in> set (bla_gws bl)" "bg_ptr g' = bg_ptr g" "bg_vid g' = bc_vid c"
      unfolding c(2) by blast
    have "Some g' = Some g" using gw_of_ptr [OF assms(1) g'(1), unfolded g'(2)] gw_of_ptr [OF assms(1,2)] by (rule trans [OF sym])
    then show ?thesis using g'(3) by simp
  qed
  moreover have "inj_on bc_key (set (bla_claims bl))" using claims_distinct [OF i(1)] by (simp add: distinct_map)
  ultimately have "inj_on bc_addr (set (filter (\<lambda>c. bc_backbone_gw c = bg_ptr g) (bla_claims bl)))"
    unfolding inj_on_def bc_key_def by simp
  moreover have "distinct (filter (\<lambda>c. bc_backbone_gw c = bg_ptr g) (bla_claims bl))"
    using claims_distinct [OF i(1)] by (simp add: distinct_map)
  ultimately show "distinct (map bc_addr (filter (\<lambda>c. bc_backbone_gw c = bg_ptr g) (bla_claims bl)))"
    by (simp add: distinct_map)
qed

lemma same_held_crc:
  assumes "bla_inv k bl" "g \<in> set (bla_gws bl)" and "bla_inv k' bl'" "g' \<in> set (bla_gws bl')"
    and "held bl (bg_ptr g) = held bl' (bg_ptr g')" and "crc16 k = crc16 k'"
  shows "bg_crc g = bg_crc g'"
proof -
  have "set (map bc_addr (filter (\<lambda>c. bc_backbone_gw c = bg_ptr g) (bla_claims bl)))
      = set (map bc_addr (filter (\<lambda>c. bc_backbone_gw c = bg_ptr g') (bla_claims bl')))"
    using assms(5) by (simp add: held_def)
  then have "mset (map bc_addr (filter (\<lambda>c. bc_backbone_gw c = bg_ptr g) (bla_claims bl)))
      = mset (map bc_addr (filter (\<lambda>c. bc_backbone_gw c = bg_ptr g') (bla_claims bl')))"
    using set_eq_iff_mset_eq_distinct [OF held_crc(2) [OF assms(1,2)] held_crc(2) [OF assms(3,4)]] by simp
  from addr_crc_perm [OF this assms(6)] show ?thesis
    using held_crc(1) [OF assms(1,2)] held_crc(1) [OF assms(3,4)] by simp
qed

lemma handle_claim_holds:
  fixes d :: mac
  assumes "bla_good k bl" and "batadv_backbone_hash_find k bl b v = Some g" and "bla_claim_hash bl \<noteq> None" and "bla_new_claim k a v"
  defines "bl' \<equiv> snd (batadv_handle_claim k d b a v bl)"
  shows "bla_good k bl' \<and> held bl' (bg_ptr g) = insert a (held bl (bg_ptr g)) \<and> gw_kept k b v bl bl'
    \<and> bla_num_requests bl' = bla_num_requests bl \<and> bla_claim_hash bl' \<noteq> None"
proof -
  have "gw_shape bl" using assms(1) by (simp add: bla_good_def bla_inv_def)
  then have has: "has_gw bl (bg_ptr g) v" using gw_find_in [OF assms(2)] by (auto simp: has_gw_def)
  note add = add_claim_holds [OF assms(1) has assms(3,4), of b v]
  define bl1 where "bl1 = batadv_bla_add_claim k a v (bg_ptr g) bl"
  have bl': "bl' = (if b = d then batadv_bla_send_claim k a v BATADV_CLAIM_TYPE_CLAIM bl1 else bl1)"
    by (simp add: bl'_def batadv_handle_claim_def batadv_bla_get_backbone_gw_def assms(2) bl1_def Let_def)
  have f: "bla_backbone_hash bl' = bla_backbone_hash bl1" "bla_claim_hash bl' = bla_claim_hash bl1" "bla_num_requests bl' = bla_num_requests bl1"
    by (simp_all add: bl')
  have "gw_kept k b v bl bl'" by (rule kept_trans [OF _ kept_same [OF f(1)]]) (use add in \<open>simp add: bl1_def\<close>)
  moreover have "bla_good k bl'" using good_same [OF add_claim_good [OF assms(1) has] f [unfolded bl1_def]] .
  ultimately show ?thesis using add held_same [OF f(2)] f(2,3) by (simp add: bl1_def)
qed

lemma handle_claims_hold:
  fixes d :: mac
  assumes "bla_good k bl" and "batadv_backbone_hash_find k bl b v = Some g" and "bla_claim_hash bl \<noteq> None" and "\<forall>a \<in> set as. bla_new_claim k a v"
  defines "bl' \<equiv> foldl (\<lambda>bl a. snd (batadv_handle_claim k d b a v bl)) bl as"
  shows "bla_good k bl' \<and> held bl' (bg_ptr g) = set as \<union> held bl (bg_ptr g) \<and> gw_kept k b v bl bl'
    \<and> bla_num_requests bl' = bla_num_requests bl \<and> bla_claim_hash bl' \<noteq> None"
  using assms(1-4) unfolding bl'_def
proof (induction as arbitrary: bl g)
  case Nil
  then show ?case by (simp add: kept_same)
next
  case (Cons a as)
  note one = handle_claim_holds [OF Cons.prems(1-3), of a d]
  let ?bl = "snd (batadv_handle_claim k d b a v bl)"
  obtain g' where g': "batadv_backbone_hash_find k ?bl b v = Some g'" "bg_ptr g' = bg_ptr g"
    using one Cons.prems(2,4) by (auto simp: gw_kept_def)
  have "bla_good k ?bl" "bla_claim_hash ?bl \<noteq> None" using one Cons.prems(4) by auto
  note rest = Cons.IH [OF this(1) g'(1) this(2)]
  have "gw_kept k b v bl ?bl" using one Cons.prems(4) by simp
  then show ?case using one rest Cons.prems(4) kept_trans [of k b v bl ?bl] g'(2) by auto
qed

lemma announce_mac:
  "take 4 (mac_bytes (get_mac (batadv_announce_mac @ be16 crc))) = batadv_announce_mac"
  "get_be16 (drop 4 (mac_bytes (get_mac (batadv_announce_mac @ be16 crc)))) = crc"
proof -
  have "mac_bytes (get_mac (batadv_announce_mac @ be16 crc)) = batadv_announce_mac @ be16 crc"
    by (simp add: batadv_announce_mac_def be16_def get_mac.simps)
  then show "take 4 (mac_bytes (get_mac (batadv_announce_mac @ be16 crc))) = batadv_announce_mac"
    "get_be16 (drop 4 (mac_bytes (get_mac (batadv_announce_mac @ be16 crc)))) = crc"
    using get_be16_be16 [of crc "[]"] by (simp_all add: batadv_announce_mac_def)
qed

lemma announce_accepted:
  assumes "bla_good k bl" and "batadv_backbone_hash_find k bl b v = Some g"
  defines "bl' \<equiv> snd (batadv_handle_announce k (get_mac (batadv_announce_mac @ be16 (bg_crc g))) b v bl)"
  shows "held bl' (bg_ptr g) = held bl (bg_ptr g)
    \<and> (\<exists>g'. batadv_backbone_hash_find k bl' b v = Some g' \<and> bg_request_sent g' = 0 \<and> bg_ptr g' = bg_ptr g)
    \<and> bla_num_requests bl' = (if bg_request_sent g \<noteq> 0 then bla_num_requests bl - 1 else bla_num_requests bl)"
proof -
  let ?p = "bg_ptr g"
  define bl1 where "bl1 = bla_gw_upd ?p (\<lambda>gw. gw\<lparr>bg_lasttime := jiffies k\<rparr>) bl"
  have s: "gw_shape bl" "bla_inv k bl" using assms(1) by (simp_all add: bla_good_def bla_inv_def)
  have s1: "gw_shape bl1" "bla_inv k bl1" using touch_good [OF assms(1)] s(1) by (simp_all add: bl1_def bla_good_def)
  define g1 where "g1 = g\<lparr>bg_lasttime := jiffies k\<rparr>"
  have f1: "batadv_backbone_hash_find k bl1 b v = Some g1"
    unfolding bl1_def by (subst gw_find_upd) (simp_all add: assms(2) s(1) g1_def)
  have "g1 \<in> set (bla_gws bl1)" using gw_find_in [OF f1 s1(1)] by simp
  then have p1: "bla_gw bl1 ?p = Some g1" using gw_of_ptr [OF s1(2), of g1] by (simp add: g1_def)
  let ?done = "bla_gw_upd ?p (\<lambda>gw. gw\<lparr>bg_request_sent := 0\<rparr>) (bl1\<lparr>bla_num_requests := bla_num_requests bl1 - 1\<rparr>)"
  have bl': "bl' = (if bg_request_sent g \<noteq> 0 then ?done else bl1)"
    using announce_mac p1
    by (simp add: bl'_def batadv_handle_announce_def batadv_bla_get_backbone_gw_def assms(2) bl1_def [symmetric] Let_def)
      (simp add: g1_def)
  have sd: "gw_shape (bl1\<lparr>bla_num_requests := n\<rparr>)" for n using s1(1) by (simp add: gw_shape_def)
  have "batadv_backbone_hash_find k (bl1\<lparr>bla_num_requests := n\<rparr>) b v = Some g1" for n
    using f1 by (simp add: batadv_backbone_hash_find_def)
  then have fd: "batadv_backbone_hash_find k ?done b v = Some (g1\<lparr>bg_request_sent := 0\<rparr>)"
    by (subst gw_find_upd) (simp_all add: sd, simp add: g1_def upd_at_def)
  show ?thesis
    using held_same [of bl' bl] f1 fd by (auto simp: bl' bl1_def g1_def)
qed

lemma send_request_waits:
  assumes "bla_good k bl" and "batadv_backbone_hash_find k bl b v = Some g" and "bla_claim_hash bl \<noteq> None"
  defines "bl' \<equiv> batadv_bla_send_request k (bg_ptr g) bl"
  shows "held bl' (bg_ptr g) = {} \<and> (\<exists>g'. batadv_backbone_hash_find k bl' b v = Some g' \<and> bg_request_sent g' \<noteq> 0 \<and> bg_ptr g' = bg_ptr g)
    \<and> bla_num_requests bl' = (if bg_request_sent g = 0 then bla_num_requests bl + 1 else bla_num_requests bl) \<and> bla_claim_hash bl' \<noteq> None"
proof -
  let ?p = "bg_ptr g"
  have s: "gw_shape bl" "bla_inv k bl" using assms(1) by (simp_all add: bla_good_def bla_inv_def)
  have "g \<in> set (bla_gws bl)" using gw_find_in [OF assms(2) s(1)] by simp
  then have p: "bla_gw bl ?p = Some g" using gw_of_ptr [OF s(2)] by simp
  obtain h where h: "bla_claim_hash bl = Some h" using assms(3) by blast
  define bl1 where "bl1 = batadv_bla_del_backbone_claims k ?p bl"
  define bl2 where "bl2 = batadv_bla_send_claim k (bg_orig g) (bg_vid g) BATADV_CLAIM_TYPE_REQUEST bl1"
  have f2: "bla_backbone_hash bl2 = bla_backbone_hash bl1" "bla_claim_hash bl2 = bla_claim_hash bl1" "bla_num_requests bl2 = bla_num_requests bl"
    by (simp_all add: bl2_def bl1_def)
  have held: "held bl2 ?p = {}" using held_same [OF f2(2)] by (auto simp: bl1_def held_def del_backbone_claims)
  define g1 where "g1 = g\<lparr>bg_crc := 0\<rparr>"
  have "batadv_backbone_hash_find k (bl\<lparr>bla_claim_hash := z\<rparr>) b v = Some g" "gw_shape (bl\<lparr>bla_claim_hash := z\<rparr>)" for z
    using assms(2) s(1) by (simp_all add: batadv_backbone_hash_find_def gw_shape_def)
  then have "batadv_backbone_hash_find k bl1 b v = Some g1" "gw_shape bl1" "bla_claim_hash bl1 \<noteq> None"
    unfolding bl1_def del_backbone_eq [OF h] by (simp_all add: gw_find_upd g1_def)
  then have f: "batadv_backbone_hash_find k (bl2\<lparr>bla_num_requests := n\<rparr>) b v = Some g1" "gw_shape (bl2\<lparr>bla_num_requests := n\<rparr>)"
      "batadv_backbone_hash_find k bl2 b v = Some g1" "bla_claim_hash bl2 \<noteq> None" for n
    by (simp_all add: batadv_backbone_hash_find_def f2 gw_shape_def)
  let ?done = "bla_gw_upd ?p (\<lambda>gw. gw\<lparr>bg_request_sent := 1\<rparr>) (bl2\<lparr>bla_num_requests := bla_num_requests bl2 + 1\<rparr>)"
  have bl': "bl' = (if bg_request_sent g = 0 then ?done else bl2)"
    by (simp add: bl'_def batadv_bla_send_request_def p bl1_def [symmetric] bl2_def [symmetric] Let_def)
  have "batadv_backbone_hash_find k ?done b v = Some (g1\<lparr>bg_request_sent := 1\<rparr>)"
    by (subst gw_find_upd) (simp_all add: f, simp add: g1_def upd_at_def)
  then show ?thesis using held held_same [of bl' bl2] f f2(3) by (auto simp: bl' g1_def)
qed

text \<open>C38: two nodes agree again after one exchange. When a node asks a gateway for its claims and
  the gateway's answer arrives, its claims one by one and then the announcement, the asking node
  ends with exactly the gateway's claims in its name, no matter what it believed before, the
  checksum of the announcement fits although it was built up on the two sides in different
  orders, and the node stops waiting: its count of outstanding requests is back where it was
  before the exchange, or one lower when it was waiting already.\<close>

theorem bla_resync:
  fixes own peer :: bla and d :: mac
  assumes own: "bla_inv ko own" "batadv_backbone_hash_find ko own b v = Some g"
    and peer: "bla_good k peer" "batadv_backbone_hash_find k peer b v = Some h" "bla_claim_hash peer \<noteq> None"
    and env: "crc16 ko = crc16 k" "\<forall>a. bla_new_claim k a v"
    and answer: "as = map bc_addr (filter (\<lambda>c. bc_backbone_gw c = bg_ptr g) (bla_claims own))"
    and result: "peer' = snd (batadv_handle_announce k (get_mac (batadv_announce_mac @ be16 (bg_crc g))) b v
        (foldl (\<lambda>bl a. snd (batadv_handle_claim k d b a v bl)) (batadv_bla_send_request k (bg_ptr h) peer) as))"
  shows "bc_addr ` {c \<in> set (bla_claims peer'). bc_backbone_gw c = bg_ptr h} = set as
    \<and> map_option bg_request_sent (batadv_backbone_hash_find k peer' b v) = Some 0
    \<and> bla_num_requests peer' = (if bg_request_sent h \<noteq> 0 then bla_num_requests peer - 1 else bla_num_requests peer)"
proof -
  define p1 where "p1 = batadv_bla_send_request k (bg_ptr h) peer"
  define p2 where "p2 = foldl (\<lambda>bl a. snd (batadv_handle_claim k d b a v bl)) p1 as"
  have good1: "bla_good k p1" unfolding p1_def by (rule send_request_good [OF peer(1)])
  obtain h1 where h1: "batadv_backbone_hash_find k p1 b v = Some h1" "bg_request_sent h1 \<noteq> 0" "bg_ptr h1 = bg_ptr h" "bla_claim_hash p1 \<noteq> None"
      "held p1 (bg_ptr h) = {}" "bla_num_requests p1 = (if bg_request_sent h = 0 then bla_num_requests peer + 1 else bla_num_requests peer)"
    using send_request_waits [OF peer] by (auto simp: p1_def)
  have "\<forall>a \<in> set as. bla_new_claim k a v" using env(2) by simp
  note claims = handle_claims_hold [OF good1 h1(1,4) this, of d, folded p2_def]
  obtain h2 where h2: "batadv_backbone_hash_find k p2 b v = Some h2" "bg_request_sent h2 \<noteq> 0" "bg_ptr h2 = bg_ptr h"
    using claims h1(1-3) by (auto simp: gw_kept_def)
  have held2: "held p2 (bg_ptr h2) = set as" "bla_good k p2" "bla_num_requests p2 = bla_num_requests p1"
    using claims h1(3,5) h2(3) by auto
  have inv2: "bla_inv k p2" "gw_shape p2" "gw_shape own" using held2(2) own(1) by (simp_all add: bla_good_def bla_inv_def)
  have "held own (bg_ptr g) = held p2 (bg_ptr h2)" unfolding held2(1) by (simp add: answer held_def)
  then have "bg_crc g = bg_crc h2"
    using same_held_crc [OF own(1) _ inv2(1) _ _ env(1)] gw_find_in [OF own(2) inv2(3)] gw_find_in [OF h2(1) inv2(2)] by blast
  then have "peer' = snd (batadv_handle_announce k (get_mac (batadv_announce_mac @ be16 (bg_crc h2))) b v p2)"
    by (simp add: result p2_def p1_def)
  with announce_accepted [OF held2(2) h2(1)]
  show ?thesis using held2 h1(6) h2(2,3) by (auto simp: held_def)
qed

subsection \<open>An example\<close>

definition ex_bla_gw :: batadv_bla_backbone_gw where
  "ex_bla_gw = \<lparr>bg_ptr = 7, bg_orig = Mac 2 0 0 0 0 1, bg_vid = 0x8001, bg_lasttime = 0, bg_wait_periods = 0, bg_request_sent = 0,
     bg_crc = crc16 ex_bla_kenv 0 (mac_bytes (Mac 2 0 0 0 0 9))\<rparr>"

definition ex_bla_claimed :: bla where
  "ex_bla_claimed = ex_bla\<lparr>bla_num_requests := 0, bla_backbone_hash := Some \<lparr>table = [[ex_bla_gw]], hash_size = 1, generation = 1\<rparr>,
     bla_claim_hash := Some \<lparr>table = [[\<lparr>bc_addr = Mac 2 0 0 0 0 9, bc_vid = 0x8001, bc_backbone_gw = 7, bc_lasttime = 0\<rparr>]],
       hash_size = 1, generation = 1\<rparr>\<rparr>"

lemma ex_claimed_find: "batadv_backbone_hash_find ex_bla_kenv ex_bla_claimed (Mac 2 0 0 0 0 1) 0x8001 = Some ex_bla_gw"
  by (simp add: batadv_backbone_hash_find_def ex_bla_claimed_def hash_bucket_def batadv_choose_backbone_gw_def Let_def
      batadv_compare_backbone_gw_def ex_bla_gw_def)

lemma ex_claimed_good: "bla_good ex_bla_kenv ex_bla_claimed"
proof -
  have "bla_inv ex_bla_kenv ex_bla_claimed"
    by (simp add: bla_inv_def gw_shape_def claims_ok_def claim_hash.hash_ok_def gw_inv_def bla_gws_def bla_claims_def
        ex_bla_claimed_def ex_bla_gw_def claim_sum_def batadv_choose_claim_def Let_def)
  moreover have "bla_ptrs ex_bla_claimed = {7}" by (simp add: bla_ptrs_def bla_gws_def ex_bla_claimed_def ex_bla_gw_def)
  then have "fresh_gws ex_bla_kenv ex_bla_claimed"
    using ex_claimed_find by (auto simp: fresh_gws_def ex_bla_kenv_def bla_kenv.defs tt_kenv.defs split: if_splits)
  ultimately show ?thesis by (simp add: bla_good_def)
qed

theorem bla_resync_witness:
  "\<exists>peer'. peer' = snd (batadv_handle_announce ex_bla_kenv (get_mac (batadv_announce_mac @ be16 (bg_crc ex_bla_gw))) (Mac 2 0 0 0 0 1) 0x8001
       (foldl (\<lambda>bl a. snd (batadv_handle_claim ex_bla_kenv (Mac 2 0 0 0 0 3) (Mac 2 0 0 0 0 1) a 0x8001 bl))
          (batadv_bla_send_request ex_bla_kenv 7 ex_bla_claimed) [Mac 2 0 0 0 0 9]))
    \<and> bc_addr ` {c \<in> set (bla_claims peer'). bc_backbone_gw c = 7} = {Mac 2 0 0 0 0 9}"
proof -
  have inv: "bla_inv ex_bla_kenv ex_bla_claimed" using ex_claimed_good by (simp add: bla_good_def)
  have p: "bg_ptr ex_bla_gw = 7" by (simp add: ex_bla_gw_def)
  have ans: "[Mac 2 0 0 0 0 9] = map bc_addr (filter (\<lambda>c. bc_backbone_gw c = bg_ptr ex_bla_gw) (bla_claims ex_bla_claimed))"
    by (simp add: ex_bla_claimed_def bla_claims_def ex_bla_gw_def)
  have new: "\<forall>a. bla_new_claim ex_bla_kenv a 0x8001" by (simp add: ex_bla_kenv_def bla_kenv.defs tt_kenv.defs)
  have nn: "bla_claim_hash ex_bla_claimed \<noteq> None" by (simp add: ex_bla_claimed_def)
  show ?thesis
    using bla_resync [OF inv ex_claimed_find ex_claimed_good ex_claimed_find nn refl new ans refl, of "Mac 2 0 0 0 0 3"]
    unfolding p by simp
qed

section \<open>The ring of broadcasts\<close>

text \<open>The entries of the ring, the newest first.\<close>

definition dup_ring :: "bla \<Rightarrow> batadv_bcast_duplist_entry list" where
  "dup_ring bl = map (\<lambda>i. bla_bcast_duplist bl ! ((bla_bcast_duplist_curr bl + i) mod BATADV_DUPLIST_SIZE)) [0..<BATADV_DUPLIST_SIZE]"

definition ring_ok :: "bla \<Rightarrow> bool" where
  "ring_ok bl \<longleftrightarrow> length (bla_bcast_duplist bl) = BATADV_DUPLIST_SIZE \<and> bla_bcast_duplist_curr bl < BATADV_DUPLIST_SIZE"

lemma duplist_search_iff:
  "duplist_search k crc orig es \<longleftrightarrow> (\<exists>e \<in> set (takeWhile (\<lambda>e. \<not> tt_timed_out k (dl_entrytime e) BATADV_DUPLIST_TIMEOUT) es).
     dl_crc e = crc \<and> \<not> (\<exists>o1. orig = Some o1 \<and> \<not> is_zero_ether_addr o1 \<and> \<not> is_zero_ether_addr (dl_orig e) \<and> dl_orig e = o1))"
  by (induction es) (auto simp: batadv_compare_eth_def split: option.splits)

lemma dup_ring_push:
  assumes "ring_ok bl"
  defines "c \<equiv> (bla_bcast_duplist_curr bl + BATADV_DUPLIST_SIZE - 1) mod BATADV_DUPLIST_SIZE"
  shows "dup_ring (bl\<lparr>bla_bcast_duplist := (bla_bcast_duplist bl)[c := e], bla_bcast_duplist_curr := c\<rparr>) = e # butlast (dup_ring bl)"
proof (rule nth_equalityI)
  show "length (dup_ring (bl\<lparr>bla_bcast_duplist := (bla_bcast_duplist bl)[c := e], bla_bcast_duplist_curr := c\<rparr>)) = length (e # butlast (dup_ring bl))"
    by (simp add: dup_ring_def BATADV_DUPLIST_SIZE_def)
  let ?d = "bla_bcast_duplist_curr bl" and ?l = "bla_bcast_duplist bl"
  have ok: "?d < 16" "length ?l = 16" "c = (?d + 15) mod 16" using assms(1) by (simp_all add: ring_ok_def c_def BATADV_DUPLIST_SIZE_def add.commute)
  fix i assume "i < length (dup_ring (bl\<lparr>bla_bcast_duplist := (bla_bcast_duplist bl)[c := e], bla_bcast_duplist_curr := c\<rparr>))"
  then have i: "i < 16" by (simp add: dup_ring_def BATADV_DUPLIST_SIZE_def)
  show "dup_ring (bl\<lparr>bla_bcast_duplist := (bla_bcast_duplist bl)[c := e], bla_bcast_duplist_curr := c\<rparr>) ! i = (e # butlast (dup_ring bl)) ! i"
  proof (cases i)
    case 0
    then show ?thesis using ok by (simp add: dup_ring_def BATADV_DUPLIST_SIZE_def)
  next
    case (Suc j)
    have "(c + Suc j) mod 16 = (?d + j + 16) mod 16" unfolding ok(3) mod_add_left_eq by (simp add: ac_simps)
    then have j: "(c + Suc j) mod 16 = (?d + j) mod 16" by simp
    have "(?d + j) mod 16 = (if ?d + j < 16 then ?d + j else ?d + j - 16)" "c = (if ?d = 0 then 15 else ?d - 1)"
      using i Suc ok(1) by (simp_all add: ok(3) mod_if)
    then have "(?d + j) mod 16 \<noteq> c" using i Suc ok(1) by (auto split: if_splits)
    then show ?thesis using i Suc j by (simp add: dup_ring_def BATADV_DUPLIST_SIZE_def nth_butlast)
  qed
qed

text \<open>C40: the circular buffer is a queue of the last 16 accepted broadcasts, the newest first: a
  broadcast is rejected exactly if one of the entries that are not older than half a second has
  the same checksum and is not from the same (known) originator; a rejected one changes
  nothing, an accepted one is pushed and the oldest entry falls out.\<close>

theorem bla_duplist_refines:
  assumes "ring_ok bl" and "batadv_bla_check_duplist k data off orig bl = (dup, bl')"
  shows "dup = (\<exists>e \<in> set (takeWhile (\<lambda>e. \<not> tt_timed_out k (dl_entrytime e) BATADV_DUPLIST_TIMEOUT) (dup_ring bl)).
        dl_crc e = crc32c k 0 (drop off data)
        \<and> \<not> (\<exists>o1. orig = Some o1 \<and> \<not> is_zero_ether_addr o1 \<and> \<not> is_zero_ether_addr (dl_orig e) \<and> dl_orig e = o1))
    \<and> ring_ok bl'
    \<and> dup_ring bl' = (if dup then dup_ring bl
        else \<lparr>dl_orig = (case orig of Some o1 \<Rightarrow> o1 | None \<Rightarrow> Mac 0 0 0 0 0 0), dl_crc = crc32c k 0 (drop off data), dl_entrytime = jiffies k\<rparr>
             # butlast (dup_ring bl))"
proof -
  let ?dup = "duplist_search k (crc32c k 0 (drop off data)) orig (dup_ring bl)"
  let ?c = "(bla_bcast_duplist_curr bl + BATADV_DUPLIST_SIZE - 1) mod BATADV_DUPLIST_SIZE"
  let ?e = "\<lparr>dl_orig = (case orig of Some o1 \<Rightarrow> o1 | None \<Rightarrow> Mac 0 0 0 0 0 0), dl_crc = crc32c k 0 (drop off data), dl_entrytime = jiffies k\<rparr>"
  let ?bl = "bl\<lparr>bla_bcast_duplist := (bla_bcast_duplist bl)[?c := ?e], bla_bcast_duplist_curr := ?c\<rparr>"
  have r: "dup = ?dup" "bl' = (if ?dup then bl else ?bl)"
    using assms(2) by (auto simp: batadv_bla_check_duplist_def dup_ring_def Let_def split: if_splits)
  have "ring_ok ?bl" using assms(1) by (simp add: ring_ok_def BATADV_DUPLIST_SIZE_def)
  then show ?thesis
    using assms(1) dup_ring_push [OF assms(1), of ?e] unfolding r(2) r(1) duplist_search_iff [symmetric] by simp
qed

theorem bla_duplist_refines_witness:
  "\<exists>bl'. batadv_bla_check_duplist ex_bla_kenv [1, 2, 3] 0 None ex_bla = (fst (batadv_bla_check_duplist ex_bla_kenv [1, 2, 3] 0 None ex_bla), bl')
     \<and> ring_ok bl'"
proof -
  have "ring_ok ex_bla"
    by (simp add: ring_ok_def ex_bla_def ex_bla0_def batadv_bla_init_def batadv_hash_new_def bla_call_def BATADV_DUPLIST_SIZE_def Let_def)
  from bla_duplist_refines [OF this, of ex_bla_kenv "[1, 2, 3]" 0 None] show ?thesis
    by (metis prod.collapse)
qed

section \<open>A new address of the node\<close>

interpretation gw_hash: hash_client bg_key batadv_compare_backbone_gw "batadv_choose_backbone_gw jh" for jh
  by unfold_locales
    (auto simp: bg_key_def batadv_compare_backbone_gw_def batadv_choose_backbone_gw_def Let_def word_mod_less_divisor prod_eq_iff)

lemma gw_find_eq:
  "bla_backbone_hash bl = Some h \<Longrightarrow> batadv_backbone_hash_find k bl a v = gw_hash.hash_find (jhash k) h (a, v)"
  by (simp add: batadv_backbone_hash_find_def gw_hash.hash_find_def)

definition readdress :: "mac \<Rightarrow> mac \<Rightarrow> batadv_bla_backbone_gw \<Rightarrow> batadv_bla_backbone_gw" where
  "readdress old new g = (if bg_orig g = old then g\<lparr>bg_orig := new\<rparr> else g)"

text \<open>The walk over the table writes the new address in place, in the bucket of the old one.\<close>

lemma readdress_walk:
  assumes "distinct (map bg_ptr gs)"
  shows "bla_backbone_hash (foldl (\<lambda>bl g. if \<not> batadv_compare_eth (bg_orig g) old then bl
      else batadv_bla_send_announce k (g\<lparr>bg_orig := new\<rparr>) (bla_gw_upd (bg_ptr g) (\<lambda>gw. gw\<lparr>bg_orig := new\<rparr>) bl)) bl gs)
    = map_option (\<lambda>h. h\<lparr>table := map (map (\<lambda>x. if \<exists>g \<in> set gs. bg_ptr g = bg_ptr x \<and> bg_orig g = old then x\<lparr>bg_orig := new\<rparr> else x)) (table h)\<rparr>)
        (bla_backbone_hash bl)"
  using assms
proof (induction gs arbitrary: bl)
  case Nil
  then show ?case by (cases "bla_backbone_hash bl") simp_all
next
  case (Cons g gs)
  have "(if \<exists>y \<in> set gs. bg_ptr y = bg_ptr (upd_at (bg_ptr g) (\<lambda>gw. gw\<lparr>bg_orig := new\<rparr>) x) \<and> bg_orig y = old
       then (upd_at (bg_ptr g) (\<lambda>gw. gw\<lparr>bg_orig := new\<rparr>) x)\<lparr>bg_orig := new\<rparr> else upd_at (bg_ptr g) (\<lambda>gw. gw\<lparr>bg_orig := new\<rparr>) x)
    = (if \<exists>y \<in> set (g # gs). bg_ptr y = bg_ptr x \<and> bg_orig y = old then x\<lparr>bg_orig := new\<rparr> else x)"
    if "bg_orig g = old" for x using that by (auto simp: upd_at_def)
  then show ?case
    using Cons by (cases "bla_backbone_hash bl") (simp_all add: batadv_compare_eth_def gw_upd_eq comp_def cong: if_cong)
qed

text \<open>
  a change of the node's address loses its gateways. The entry gets the new address but
  stays in the bucket of the old one; unless both addresses hash to the same bucket the node
  does not find its own gateway any more (so requests for its claims are not answered), although
  the gateway with that address and VLAN is in the table.\<close>

theorem bla_readdress_lost:
  assumes "bl_bridge_loop_avoidance bl" and "bla_backbone_hash bl = Some h" and "gw_hash.hash_ok (jhash k) h"
    and "distinct (map bg_ptr (bla_gws bl))"
    and "batadv_backbone_hash_find k bl old vid = Some g" and "batadv_backbone_hash_find k bl new vid = None"
    and "batadv_choose_backbone_gw (jhash k) (old, vid) (hash_size h) \<noteq> batadv_choose_backbone_gw (jhash k) (new, vid) (hash_size h)"
  defines "bl' \<equiv> batadv_bla_update_orig_address k new (Some old) bl"
  shows "batadv_backbone_hash_find k bl' new vid = None
    \<and> (\<exists>g' \<in> set (bla_gws bl'). bg_orig g' = new \<and> bg_vid g' = vid \<and> bg_ptr g' = bg_ptr g)"
proof -
  let ?bl = "bl\<lparr>bla_group := crc16 k 0 (mac_bytes new)\<rparr>"
  have gws: "bla_gws ?bl = bla_gws bl" by (rule gws_same) simp
  have known: "(\<exists>y \<in> set (bla_gws bl). bg_ptr y = bg_ptr x \<and> bg_orig y = old) = (bg_orig x = old)" if "x \<in> set (bla_gws bl)" for x
    using that assms(4) by (auto simp: distinct_map inj_on_def)
  have h': "bla_backbone_hash bl' = Some (h\<lparr>table := map (map (readdress old new)) (table h)\<rparr>)"
  proof -
    have "map (\<lambda>x. if \<exists>y \<in> set (bla_gws bl). bg_ptr y = bg_ptr x \<and> bg_orig y = old then x\<lparr>bg_orig := new\<rparr> else x) b = map (readdress old new) b"
      if "b \<in> set (table h)" for b
      by (rule map_cong [OF refl]) (use that known assms(2) in \<open>auto simp: readdress_def bla_gws_def\<close>)
    then show ?thesis
      using readdress_walk [of "bla_gws bl" old k new ?bl] assms(1,2,4)
      by (simp add: bl'_def batadv_bla_update_orig_address_def Let_def gws cong: map_cong)
  qed
  have in_tab: "g \<in> set (bla_gws bl)" "bg_orig g = old" "bg_vid g = vid"
    using assms(2,5) gw_hash.entries_find [OF assms(3), of g] gw_hash.hash_find_key [of "jhash k" h "(old, vid)" g] gw_find_eq [OF assms(2), of k old vid]
    by (auto simp: bla_gws_def gw_hash.entries_def bg_key_def)
  have "bla_gws bl' = map (readdress old new) (bla_gws bl)"
    by (simp add: bla_gws_def h' assms(2) map_concat)
  then have there: "\<exists>g' \<in> set (bla_gws bl'). bg_orig g' = new \<and> bg_vid g' = vid \<and> bg_ptr g' = bg_ptr g"
    using in_tab by (intro bexI [of _ "readdress old new g"]) (simp_all add: readdress_def)
  let ?i = "batadv_choose_backbone_gw (jhash k) (new, vid) (hash_size h)"
  have i: "unat ?i < length (table h)" by (rule gw_hash.index_bound [OF assms(3)])
  have "\<not> batadv_compare_backbone_gw (readdress old new x) (new, vid)" if x: "x \<in> set (table h ! unat ?i)" for x
  proof
    assume *: "batadv_compare_backbone_gw (readdress old new x) (new, vid)"
    have "unat (batadv_choose_backbone_gw (jhash k) (bg_key x) (hash_size h)) = unat ?i"
      using assms(3) i x unfolding gw_hash.hash_ok_def by blast
    then have "bg_key x \<noteq> (old, vid)" using assms(7) by (auto simp: word_unat_eq_iff)
    then have "bg_key x = (new, vid)"
      using * by (auto simp: readdress_def bg_key_def batadv_compare_backbone_gw_def batadv_compare_eth_def split: if_splits)
    then show False
      using assms(2,6) x by (auto simp: batadv_backbone_hash_find_def Let_def find_None_iff hash_bucket_def
          batadv_compare_backbone_gw_def batadv_compare_eth_def bg_key_def)
  qed
  then have "batadv_backbone_hash_find k bl' new vid = None"
    using i by (auto simp: batadv_backbone_hash_find_def h' Let_def hash_bucket_def find_None_iff)
  then show ?thesis using there by simp
qed

text \<open>An example with two buckets and a hash that tells the last bytes of the addresses apart.\<close>

definition ex_bla_kenv2 :: bla_kenv where
  "ex_bla_kenv2 = ex_bla_kenv\<lparr>jhash := \<lambda>bs h. if length bs = 6 then ucast (bs ! 5) else h\<rparr>"

definition ex_bla_moved :: bla where
  "ex_bla_moved = ex_bla\<lparr>bla_backbone_hash := Some \<lparr>table = [[], [ex_bla_gw]], hash_size = 2, generation = 1\<rparr>\<rparr>"

lemma ex_choose_gw: "batadv_choose_backbone_gw (jhash ex_bla_kenv2) (Mac a b c d e f, v) n = ucast f mod n"
  by (simp add: batadv_choose_backbone_gw_def ex_bla_kenv2_def Let_def)

theorem bla_readdress_lost_witness:
  "batadv_backbone_hash_find ex_bla_kenv2 (batadv_bla_update_orig_address ex_bla_kenv2 (Mac 2 0 0 0 0 2) (Some (Mac 2 0 0 0 0 1)) ex_bla_moved)
     (Mac 2 0 0 0 0 2) 0x8001 = None"
proof -
  let ?h = "\<lparr>table = [[], [ex_bla_gw]], hash_size = 2, generation = 1\<rparr>"
  have ok: "gw_hash.hash_ok (jhash ex_bla_kenv2) ?h"
    by (simp add: gw_hash.hash_ok_def less_Suc_eq bg_key_def ex_bla_gw_def ex_choose_gw nth_Cons')
  have f: "batadv_backbone_hash_find ex_bla_kenv2 ex_bla_moved (Mac 2 0 0 0 0 1) 0x8001 = Some ex_bla_gw"
      "batadv_backbone_hash_find ex_bla_kenv2 ex_bla_moved (Mac 2 0 0 0 0 2) 0x8001 = None"
    by (simp_all add: batadv_backbone_hash_find_def ex_bla_moved_def ex_choose_gw hash_bucket_def batadv_compare_backbone_gw_def ex_bla_gw_def Let_def)
  have "bl_bridge_loop_avoidance ex_bla_moved" "bla_backbone_hash ex_bla_moved = Some ?h" "distinct (map bg_ptr (bla_gws ex_bla_moved))"
    by (simp_all add: ex_bla_moved_def ex_bla_def ex_bla0_def batadv_bla_init_def batadv_hash_new_def bla_call_def bla_gws_def Let_def)
  from bla_readdress_lost [OF this(1,2) ok this(3) f] show ?thesis by (simp add: ex_choose_gw)
qed

end
