(* ===== verification/Sending.thy ===== *)
theory Sending
  imports Bridge_Loop_Avoidance
begin

text \<open>
  Sending, \<^verbatim>\<open>src/net/batman-adv/send.c\<close>: handing a frame to a hard interface, unicast to an
  originator (in one piece or in fragments), the unicast headers in front of a client's frame,
  and the queue of delayed broadcasts with its limit. The state of a node collects the state
  of the components below it. Everything that leaves the module is recorded in \<open>nd_out\<close>, in
  order; the outcome of a call into the kernel may depend on the number of events so far, so
  that two calls of one run can have different outcomes.
\<close>

section \<open>State\<close>

datatype forw_queue = Bcast_queue | Batman_queue

text \<open>
  A packet waiting to be broadcast. \<open>fw_num_bcasts\<close> is the counter in the control block of
  its buffer, \<open>fw_queue_left\<close> the limit it counts against.
\<close>

record batadv_forw_packet =
  fw_ptr :: nat
  fw_send_time :: u64
  fw_own :: bool
  fw_packet_len :: u16
  fw_direct_link_flags :: u32
  fw_num_packets :: u8
  fw_skb :: sk_buff
  fw_num_bcasts :: u8
  fw_if_incoming :: "ifindex option"
  fw_if_outgoing :: "ifindex option"
  fw_queue_left :: "forw_queue option"

datatype node_out =
    Dev_queue_xmit ifindex sk_buff
  | Netif_rx sk_buff u32
  | Tp_meter_recv sk_buff
  | Frag_buffer sk_buff
  | Kfree_skb sk_buff
  | Consume_skb sk_buff
  | Queue_forw_work nat u64
  | Queue_dat_work nat

text \<open>
  Output: a frame handed to an interface, a frame with its mark handed to the network stack,
  a packet handed to the throughput meter or to the fragment buffer, a freed or consumed
  buffer, and work items. \<open>rx_handler\<close> are the functions the table of receive handlers
  (\<^verbatim>\<open>main.c\<close>) can point to; \<open>Rx_algo\<close> is a handler of the routing algorithm.
\<close>

datatype rx_handler =
    Rx_unhandled | Rx_unhandled_unicast | Rx_bcast | Rx_mcast | Rx_unicast | Rx_unicast_tvlv
  | Rx_icmp | Rx_frag | Rx_algo

record batadv_dat_entry =
  de_ip :: u32
  de_vid :: u16
  de_mac_addr :: mac
  de_last_update :: u64

text \<open>
  \<open>nd_forw_stolen\<close> are the packets on the cleanup list of a purge, \<open>nd_forw_pending\<close> those
  whose timer runs.
\<close>

record node =
  nd_bla :: bla
  nd_fragmentation :: bool
  nd_frag_seqno :: u32
  nd_bcast_seqno :: u32
  nd_bcast_queue_left :: int
  nd_batman_queue_left :: int
  nd_forw_bcast_list :: "batadv_forw_packet list"
  nd_forw_bat_list :: "batadv_forw_packet list"
  nd_forw_stolen :: "batadv_forw_packet list"
  nd_forw_pending :: "nat list"
  nd_distributed_arp_table :: bool
  nd_dat_addr :: u16
  nd_dat_hash :: "batadv_dat_entry batadv_hashtable option"
  nd_rx_handler :: "u8 \<Rightarrow> rx_handler"
  nd_out :: "node_out list"

record node_kenv = bla_kenv +
  nk_up :: "ifindex \<Rightarrow> bool"
  nk_cow_ok :: "nat \<Rightarrow> nat \<Rightarrow> bool"
  nk_xmit :: "ifindex \<Rightarrow> nat \<Rightarrow> int"
  nk_clone_ok :: "nat \<Rightarrow> bool"
  nk_forw_ptr :: "nat \<Rightarrow> nat option"
  nk_pull_ok :: "nat \<Rightarrow> bool"
  nk_mac_header_ok :: "nat \<Rightarrow> bool"
  nk_skb_ok :: "nat \<Rightarrow> bool"
  nk_skb_cow_ok :: "nat \<Rightarrow> bool"
  nk_linearize_ok :: "nat \<Rightarrow> bool"
  nk_frag_rx :: "nat \<Rightarrow> frag_rx_env"
  nk_mark :: u32
  nk_iif :: int
  nk_dat_alloc_ok :: "u32 \<Rightarrow> u16 \<Rightarrow> bool"
  nk_dat_res_ok :: bool
  nk_dat_garbage :: "nat \<Rightarrow> mac option"
  nk_frag :: frag_tx_env
  nk_sob :: neigh_sob
  nk_cmp :: neigh_cmp

abbreviation nd_mesh :: "node \<Rightarrow> mesh" where "nd_mesh nd \<equiv> bl_mesh (nd_bla nd)"
abbreviation nd_priv :: "node \<Rightarrow> batadv_priv" where "nd_priv nd \<equiv> ms_priv (nd_mesh nd)"

definition nd_mesh_upd :: "(mesh \<Rightarrow> mesh) \<Rightarrow> node \<Rightarrow> node" where
  "nd_mesh_upd f nd = nd\<lparr>nd_bla := (nd_bla nd)\<lparr>bl_mesh := f (nd_mesh nd)\<rparr>\<rparr>"

definition nd_priv_upd :: "(batadv_priv \<Rightarrow> batadv_priv) \<Rightarrow> node \<Rightarrow> node" where
  "nd_priv_upd f nd = nd_mesh_upd (\<lambda>ms. ms\<lparr>ms_priv := f (ms_priv ms)\<rparr>) nd"

definition nd_emit :: "node_out \<Rightarrow> node \<Rightarrow> node" where
  "nd_emit e nd = nd\<lparr>nd_out := nd_out nd @ [e]\<rparr>"

text \<open>The position in the sequence of events, which the outcomes of kernel calls depend on.\<close>

definition nd_pos :: "node \<Rightarrow> nat" where
  "nd_pos nd = length (nd_out nd)"

section \<open>Frames\<close>

definition batadv_skb_head_push ::
    "node_kenv \<Rightarrow> nat \<Rightarrow> bytes \<Rightarrow> sk_buff \<Rightarrow> sk_buff option" where
  "batadv_skb_head_push k pos hdr skb =
     (if \<not> nk_cow_ok k (length hdr) pos then None
      else Some (skb\<lparr>skb_data := hdr @ skb_data skb\<rparr>))"

definition NET_XMIT_CN :: int where "NET_XMIT_CN = 2"

definition net_xmit_eval :: "int \<Rightarrow> int" where
  "net_xmit_eval e = (if e = NET_XMIT_CN then 0 else e)"

text \<open>
  The Ethernet header that is pushed becomes the MAC header of the frame. An interface that
  is not in the list of the mesh any more is not active.
\<close>

definition send_if_ready :: "node_kenv \<Rightarrow> batadv_priv \<Rightarrow> ifindex \<Rightarrow> batadv_hard_iface option" where
  "send_if_ready k bp hard_iface =
     (case hard_iface_get bp hard_iface of
        None \<Rightarrow> None
      | Some h \<Rightarrow>
          if hi_if_status h \<noteq> BATADV_IF_ACTIVE then None
          else if \<not> nk_up k hard_iface then None
          else Some h)"

definition batadv_send_skb_packet ::
    "node_kenv \<Rightarrow> sk_buff \<Rightarrow> ifindex \<Rightarrow> mac \<Rightarrow> node \<Rightarrow> int \<times> node" where
  "batadv_send_skb_packet k skb hard_iface dst_addr nd =
     (case send_if_ready k (nd_priv nd) hard_iface of
        None \<Rightarrow> (NET_XMIT_DROP, nd_emit (Kfree_skb skb) nd)
      | Some h \<Rightarrow>
          if \<not> nk_cow_ok k ETH_HLEN (nd_pos nd) then (NET_XMIT_DROP, nd_emit (Kfree_skb skb) nd)
          else
            (net_xmit_eval (nk_xmit k hard_iface (nd_pos nd)),
             nd_emit (Dev_queue_xmit hard_iface (skb\<lparr>h_source := hi_dev_addr h, h_dest := dst_addr\<rparr>)) nd))"

text \<open>\<^verbatim>\<open>pskb_may_pull\<close>.\<close>

definition nk_may_pull :: "node_kenv \<Rightarrow> sk_buff \<Rightarrow> nat \<Rightarrow> bool" where
  "nk_may_pull k skb len = (len \<le> length (skb_data skb) \<and> nk_pull_ok k len)"

definition broadcast_addr :: mac where
  "broadcast_addr = Mac 0xff 0xff 0xff 0xff 0xff 0xff"

definition batadv_send_broadcast_skb ::
    "node_kenv \<Rightarrow> sk_buff \<Rightarrow> ifindex \<Rightarrow> node \<Rightarrow> int \<times> node" where
  "batadv_send_broadcast_skb k skb hard_iface nd =
     batadv_send_skb_packet k skb hard_iface broadcast_addr nd"

definition hardif_unicast_seen :: "u64 \<Rightarrow> mac \<Rightarrow> batadv_hard_iface \<Rightarrow> batadv_hard_iface" where
  "hardif_unicast_seen now addr h =
     h\<lparr>hi_neigh_list := hlist_upd_first (\<lambda>n. batadv_compare_eth (hn_addr n) addr)
         (\<lambda>n. n\<lparr>hn_bat_v := (hn_bat_v n)\<lparr>last_unicast_tx := now\<rparr>\<rparr>) (hi_neigh_list h)\<rparr>"

definition batadv_send_unicast_skb ::
    "node_kenv \<Rightarrow> sk_buff \<Rightarrow> batadv_neigh_node \<Rightarrow> node \<Rightarrow> int \<times> node" where
  "batadv_send_unicast_skb k skb neigh nd =
     (case batadv_send_skb_packet k skb (nn_if_incoming neigh) (nn_addr neigh) nd of
        (ret, nd) \<Rightarrow>
          (ret, if ret \<noteq> NET_XMIT_DROP
                then nd_priv_upd (hard_iface_upd (nn_if_incoming neigh)
                       (hardif_unicast_seen (jiffies k) (nn_addr neigh))) nd
                else nd))"

section \<open>Unicast to an originator\<close>

text \<open>
  A packet that is longer than the MTU of the next hop's interface is sent in fragments. The
  fragmentation component works on its counters; each fragment it sends goes through
  \<open>batadv_send_unicast_skb\<close>, whose return value for fragment \<open>n\<close> is that of the \<open>n\<close>th event
  from here on.
\<close>

definition frag_priv_of :: "node \<Rightarrow> frag_priv" where
  "frag_priv_of nd =
     \<lparr>fp_frag_seqno = nd_frag_seqno nd,
      cnt_frag_tx = bp_bat_counters (nd_priv nd) BATADV_CNT_FRAG_TX,
      cnt_frag_tx_bytes = bp_bat_counters (nd_priv nd) BATADV_CNT_FRAG_TX_BYTES\<rparr>"

definition frag_priv_put :: "frag_priv \<Rightarrow> node \<Rightarrow> node" where
  "frag_priv_put fp nd =
     nd_priv_upd (\<lambda>bp. bp\<lparr>bp_bat_counters := (bp_bat_counters bp)
         (BATADV_CNT_FRAG_TX := cnt_frag_tx fp, BATADV_CNT_FRAG_TX_BYTES := cnt_frag_tx_bytes fp)\<rparr>)
       (nd\<lparr>nd_frag_seqno := fp_frag_seqno fp\<rparr>)"

definition frag_send_result :: "node_kenv \<Rightarrow> ifindex \<Rightarrow> node \<Rightarrow> 4 word \<Rightarrow> int" where
  "frag_send_result k i nd n =
     (let pos = nd_pos nd + unat n in
      if send_if_ready k (nd_priv nd) i = None \<or> \<not> nk_cow_ok k ETH_HLEN pos then NET_XMIT_DROP
      else net_xmit_eval (nk_xmit k i pos))"

definition send_fragments ::
    "node_kenv \<Rightarrow> sk_buff \<Rightarrow> mac \<Rightarrow> batadv_neigh_node \<Rightarrow> u32 \<Rightarrow> node \<Rightarrow> int \<times> node" where
  "send_fragments k skb orig neigh mtu nd =
     (case batadv_frag_send_packet
             ((nk_frag k)\<lparr>tx_send_ret := frag_send_result k (nn_if_incoming neigh) nd\<rparr>) mtu
             (map_option hi_dev_addr (batadv_primary_if_get_selected (nd_priv nd))) orig
             (frag_priv_of nd) skb of
        (ret, fp, sent, fate) \<Rightarrow>
          let nd = foldl (\<lambda>nd frag. snd (batadv_send_unicast_skb k frag neigh nd))
                     (frag_priv_put fp nd) sent in
          (ret, if fate = Skb_freed then nd_emit (Kfree_skb skb) nd else nd))"

definition batadv_send_skb_to_orig ::
    "node_kenv \<Rightarrow> sk_buff \<Rightarrow> mac \<Rightarrow> ifref \<Rightarrow> node \<Rightarrow> int \<times> node" where
  "batadv_send_skb_to_orig k skb orig recv_if nd =
     (case batadv_orig_hash_find k (nd_priv nd) orig of
        None \<Rightarrow> (- EINVAL, nd_emit (Kfree_skb skb) nd)
      | Some orig_node \<Rightarrow>
          (case batadv_find_router (nk_sob k) (bp_bonding (nd_priv nd)) orig_node recv_if of
             (router, orig_node) \<Rightarrow>
               let nd = nd_priv_upd (orig_upd k orig (\<lambda>_. orig_node)) nd in
               (case (case router of None \<Rightarrow> None | Some p \<Rightarrow> neigh_deref orig_node p) of
                  None \<Rightarrow> (- EINVAL, nd_emit (Kfree_skb skb) nd)
                | Some neigh_node \<Rightarrow>
                    (case hard_iface_get (nd_priv nd) (nn_if_incoming neigh_node) of
                       None \<Rightarrow> batadv_send_unicast_skb k skb neigh_node nd
                     | Some h \<Rightarrow>
                         if nd_fragmentation nd \<and> hi_mtu h < skb_len skb
                         then send_fragments k skb orig neigh_node (hi_mtu h) nd
                         else batadv_send_unicast_skb k skb neigh_node nd))))"

section \<open>The unicast headers\<close>

record batadv_unicast_4addr_packet =
  u4_u :: batadv_unicast_packet
  u4_src :: mac
  u4_subtype :: u8
  u4_reserved :: u8

definition unicast_4addr_bytes :: "batadv_unicast_4addr_packet \<Rightarrow> bytes" where
  "unicast_4addr_bytes p =
     unicast_packet_bytes (u4_u p) @ mac_bytes (u4_src p) @ [u4_subtype p, u4_reserved p]"

definition get_unicast_4addr :: "bytes \<Rightarrow> batadv_unicast_4addr_packet" where
  "get_unicast_4addr bs =
     \<lparr>u4_u = get_unicast_packet bs, u4_src = get_mac (drop 10 bs),
      u4_subtype = bs ! 16, u4_reserved = bs ! 17\<rparr>"

interpretation u4_fmt: wire_format unicast_4addr_bytes get_unicast_4addr 18
proof
  show "length (unicast_4addr_bytes x) = 18" for x
    by (simp add: unicast_4addr_bytes_def uc_fmt.length_enc)
  show "get_unicast_4addr (unicast_4addr_bytes x @ rest) = x" for x rest
    by (simp add: unicast_4addr_bytes_def get_unicast_4addr_def uc_fmt.dec_enc uc_fmt.length_enc
        nth_append)
qed

definition BATADV_P_DATA :: u8 where "BATADV_P_DATA = 1"
definition BATADV_P_DAT_DHT_GET :: u8 where "BATADV_P_DAT_DHT_GET = 2"
definition BATADV_P_DAT_DHT_PUT :: u8 where "BATADV_P_DAT_DHT_PUT = 3"
definition BATADV_P_DAT_CACHE_REPLY :: u8 where "BATADV_P_DAT_CACHE_REPLY = 4"

definition unicast_header :: "u8 \<Rightarrow> batadv_orig_node \<Rightarrow> batadv_unicast_packet" where
  "unicast_header packet_type orig_node =
     \<lparr>uc_packet_type = packet_type, uc_version = BATADV_COMPAT_VERSION, uc_ttl = BATADV_TTL,
      uc_ttvn = ucast (on_last_ttvn orig_node), uc_dest = on_orig orig_node\<rparr>"

definition batadv_send_skb_prepare_unicast ::
    "node_kenv \<Rightarrow> nat \<Rightarrow> sk_buff \<Rightarrow> batadv_orig_node \<Rightarrow> sk_buff option" where
  "batadv_send_skb_prepare_unicast k pos skb orig_node =
     batadv_skb_head_push k pos (unicast_packet_bytes (unicast_header BATADV_UNICAST orig_node)) skb"

definition batadv_send_skb_prepare_unicast_4addr ::
    "node_kenv \<Rightarrow> nat \<Rightarrow> batadv_priv \<Rightarrow> sk_buff \<Rightarrow> batadv_orig_node \<Rightarrow> u8 \<Rightarrow> sk_buff option" where
  "batadv_send_skb_prepare_unicast_4addr k pos bp skb orig packet_subtype =
     (case batadv_primary_if_get_selected bp of
        None \<Rightarrow> None
      | Some primary_if \<Rightarrow>
          batadv_skb_head_push k pos
            (unicast_4addr_bytes
               \<lparr>u4_u = unicast_header BATADV_UNICAST_4ADDR orig, u4_src = hi_dev_addr primary_if,
                u4_subtype = packet_subtype, u4_reserved = 0\<rparr>) skb)"

text \<open>Writing the TTVN byte of the unicast header in front of the data.\<close>

definition put_ttvn :: "u8 \<Rightarrow> sk_buff \<Rightarrow> sk_buff" where
  "put_ttvn ttvn skb = skb\<lparr>skb_data := (skb_data skb)[3 := ttvn]\<rparr>"

definition batadv_send_skb_unicast ::
    "node_kenv \<Rightarrow> sk_buff \<Rightarrow> u8 \<Rightarrow> u8 \<Rightarrow> mac option \<Rightarrow> u16 \<Rightarrow> node \<Rightarrow> int \<times> node" where
  "batadv_send_skb_unicast k skb packet_type packet_subtype orig vid nd =
     (let drop_it = (NET_XMIT_DROP, nd_emit (Kfree_skb skb) nd) in
      case (case orig of None \<Rightarrow> None | Some o1 \<Rightarrow> batadv_orig_hash_find k (nd_priv nd) o1) of
        None \<Rightarrow> drop_it
      | Some orig_node \<Rightarrow>
          (case (if packet_type = BATADV_UNICAST
                 then batadv_send_skb_prepare_unicast k (nd_pos nd) skb orig_node
                 else if packet_type = BATADV_UNICAST_4ADDR
                 then batadv_send_skb_prepare_unicast_4addr k (nd_pos nd) (nd_priv nd) skb orig_node
                        packet_subtype
                 else None) of
             None \<Rightarrow> drop_it
           | Some skb \<Rightarrow>
               let skb = (if batadv_tt_global_client_is_roaming k (nd_mesh nd) (h_dest skb) vid
                          then put_ttvn (uc_ttvn (get_unicast_packet (skb_data skb)) - 1) skb
                          else skb) in
               batadv_send_skb_to_orig k skb (on_orig orig_node) BATADV_IF_DEFAULT nd))"

definition nk_tt_cmp :: "node_kenv \<Rightarrow> batadv_neigh_node \<Rightarrow> batadv_neigh_node \<Rightarrow> int" where
  "nk_tt_cmp k a b = nk_cmp k a BATADV_IF_DEFAULT b BATADV_IF_DEFAULT"

text \<open>The data of the buffer begins with the Ethernet header of the client's frame.\<close>

definition batadv_send_skb_via_tt_generic ::
    "node_kenv \<Rightarrow> sk_buff \<Rightarrow> u8 \<Rightarrow> u8 \<Rightarrow> mac option \<Rightarrow> u16 \<Rightarrow> node \<Rightarrow> int \<times> node" where
  "batadv_send_skb_via_tt_generic k skb packet_type packet_subtype dst_hint vid nd =
     (let (src, dst) = (case dst_hint of
            None \<Rightarrow> (Some (get_mac (drop 6 (skb_data skb))), get_mac (skb_data skb))
          | Some hint \<Rightarrow> (None, hint));
          orig_node = batadv_transtable_search k (nk_tt_cmp k) (nd_mesh nd) src dst vid in
      batadv_send_skb_unicast k skb packet_type packet_subtype orig_node vid nd)"

definition batadv_send_skb_via_tt ::
    "node_kenv \<Rightarrow> sk_buff \<Rightarrow> mac option \<Rightarrow> u16 \<Rightarrow> node \<Rightarrow> int \<times> node" where
  "batadv_send_skb_via_tt k skb dst_hint vid nd =
     batadv_send_skb_via_tt_generic k skb BATADV_UNICAST 0 dst_hint vid nd"

definition batadv_send_skb_via_tt_4addr ::
    "node_kenv \<Rightarrow> sk_buff \<Rightarrow> u8 \<Rightarrow> mac option \<Rightarrow> u16 \<Rightarrow> node \<Rightarrow> int \<times> node" where
  "batadv_send_skb_via_tt_4addr k skb packet_subtype dst_hint vid nd =
     batadv_send_skb_via_tt_generic k skb BATADV_UNICAST_4ADDR packet_subtype dst_hint vid nd"

definition batadv_send_skb_via_gw :: "node_kenv \<Rightarrow> sk_buff \<Rightarrow> u16 \<Rightarrow> node \<Rightarrow> int \<times> node" where
  "batadv_send_skb_via_gw k skb vid nd =
     batadv_send_skb_unicast k skb BATADV_UNICAST_4ADDR BATADV_P_DATA
       (batadv_gw_get_selected_orig (bp_gw (nd_priv nd))) vid nd"

section \<open>Packets waiting to be forwarded\<close>

definition queue_left :: "forw_queue \<Rightarrow> node \<Rightarrow> int" where
  "queue_left q nd = (case q of Bcast_queue \<Rightarrow> nd_bcast_queue_left nd | Batman_queue \<Rightarrow> nd_batman_queue_left nd)"

definition queue_left_add :: "forw_queue \<Rightarrow> int \<Rightarrow> node \<Rightarrow> node" where
  "queue_left_add q n nd =
     (case q of Bcast_queue \<Rightarrow> nd\<lparr>nd_bcast_queue_left := nd_bcast_queue_left nd + n\<rparr>
      | Batman_queue \<Rightarrow> nd\<lparr>nd_batman_queue_left := nd_batman_queue_left nd + n\<rparr>)"

definition batadv_atomic_dec_not_zero :: "forw_queue \<Rightarrow> node \<Rightarrow> bool \<times> node" where
  "batadv_atomic_dec_not_zero q nd =
     (if queue_left q nd = 0 then (False, nd) else (True, queue_left_add q (- 1) nd))"

definition batadv_forw_packet_free :: "batadv_forw_packet \<Rightarrow> bool \<Rightarrow> node \<Rightarrow> node" where
  "batadv_forw_packet_free forw_packet dropped nd =
     (let nd = nd_emit (if dropped then Kfree_skb (fw_skb forw_packet)
                        else Consume_skb (fw_skb forw_packet)) nd in
      case fw_queue_left forw_packet of None \<Rightarrow> nd | Some q \<Rightarrow> queue_left_add q 1 nd)"

definition batadv_forw_packet_alloc ::
    "node_kenv \<Rightarrow> ifindex option \<Rightarrow> ifindex option \<Rightarrow> forw_queue option \<Rightarrow> sk_buff \<Rightarrow> node
      \<Rightarrow> batadv_forw_packet option \<times> node" where
  "batadv_forw_packet_alloc k if_incoming if_outgoing q skb nd =
     (case (case q of None \<Rightarrow> (True, nd) | Some q \<Rightarrow> batadv_atomic_dec_not_zero q nd) of
        (False, nd) \<Rightarrow> (None, nd)
      | (True, nd) \<Rightarrow>
          (case nk_forw_ptr k (nd_pos nd) of
             None \<Rightarrow> (None, case q of None \<Rightarrow> nd | Some q \<Rightarrow> queue_left_add q 1 nd)
           | Some p \<Rightarrow>
               (Some \<lparr>fw_ptr = p, fw_send_time = 0, fw_own = False, fw_packet_len = 0,
                      fw_direct_link_flags = 0, fw_num_packets = 1, fw_skb = skb, fw_num_bcasts = 0,
                      fw_if_incoming = if_incoming, fw_if_outgoing = if_outgoing,
                      fw_queue_left = q\<rparr>, nd)))"

definition batadv_forw_packet_was_stolen :: "nat \<Rightarrow> node \<Rightarrow> bool" where
  "batadv_forw_packet_was_stolen p nd = (find (\<lambda>f. fw_ptr f = p) (nd_forw_stolen nd) \<noteq> None)"

text \<open>The two lists a packet can wait in.\<close>

definition forw_list :: "forw_queue \<Rightarrow> node \<Rightarrow> batadv_forw_packet list" where
  "forw_list q nd = (case q of Bcast_queue \<Rightarrow> nd_forw_bcast_list nd | Batman_queue \<Rightarrow> nd_forw_bat_list nd)"

definition forw_list_put :: "forw_queue \<Rightarrow> batadv_forw_packet list \<Rightarrow> node \<Rightarrow> node" where
  "forw_list_put q l nd =
     (case q of Bcast_queue \<Rightarrow> nd\<lparr>nd_forw_bcast_list := l\<rparr> | Batman_queue \<Rightarrow> nd\<lparr>nd_forw_bat_list := l\<rparr>)"

definition batadv_forw_packet_steal :: "forw_queue \<Rightarrow> nat \<Rightarrow> node \<Rightarrow> bool \<times> node" where
  "batadv_forw_packet_steal q p nd =
     (if batadv_forw_packet_was_stolen p nd then (False, nd)
      else (True, forw_list_put q (hlist_del_first (\<lambda>f. fw_ptr f = p) (forw_list q nd)) nd))"

definition forw_packet_of :: "ifindex option \<Rightarrow> batadv_forw_packet \<Rightarrow> bool" where
  "forw_packet_of hard_iface forw_packet =
     (case hard_iface of None \<Rightarrow> True
      | Some i \<Rightarrow> fw_if_incoming forw_packet = Some i \<or> fw_if_outgoing forw_packet = Some i)"

definition batadv_forw_packet_list_steal ::
    "forw_queue \<Rightarrow> ifindex option \<Rightarrow> node \<Rightarrow> batadv_forw_packet list \<times> node" where
  "batadv_forw_packet_list_steal q hard_iface nd =
     (let stolen = rev (filter (forw_packet_of hard_iface) (forw_list q nd));
          nd = forw_list_put q (filter (\<lambda>f. \<not> forw_packet_of hard_iface f) (forw_list q nd)) nd in
      (stolen, nd\<lparr>nd_forw_stolen := stolen @ nd_forw_stolen nd\<rparr>))"

text \<open>One round of the loop: the timer is cancelled, the packet leaves the cleanup list and is freed.\<close>

definition forw_packet_list_free_one :: "batadv_forw_packet \<Rightarrow> node \<Rightarrow> node" where
  "forw_packet_list_free_one forw_packet nd =
     batadv_forw_packet_free forw_packet True
       (nd\<lparr>nd_forw_pending := filter (\<lambda>p. p \<noteq> fw_ptr forw_packet) (nd_forw_pending nd),
           nd_forw_stolen := hlist_del_first (\<lambda>f. fw_ptr f = fw_ptr forw_packet) (nd_forw_stolen nd)\<rparr>)"

definition batadv_forw_packet_list_free :: "batadv_forw_packet list \<Rightarrow> node \<Rightarrow> node" where
  "batadv_forw_packet_list_free head nd = foldl (\<lambda>nd f. forw_packet_list_free_one f nd) nd head"

text \<open>
  Queueing a new packet, or one that is in the list already: it moves to the head, its timer
  is armed. A packet that a purge has taken stays there.
\<close>

definition batadv_forw_packet_queue ::
    "node_kenv \<Rightarrow> forw_queue \<Rightarrow> batadv_forw_packet \<Rightarrow> u64 \<Rightarrow> node \<Rightarrow> node" where
  "batadv_forw_packet_queue k q forw_packet send_time nd =
     (if batadv_forw_packet_was_stolen (fw_ptr forw_packet) nd then nd
      else
        let l = hlist_del_first (\<lambda>f. fw_ptr f = fw_ptr forw_packet) (forw_list q nd);
            nd = forw_list_put q (forw_packet # l) nd in
        nd_emit (Queue_forw_work (fw_ptr forw_packet) (send_time - jiffies k))
          (nd\<lparr>nd_forw_pending := fw_ptr forw_packet # nd_forw_pending nd\<rparr>))"

definition batadv_forw_packet_bcast_queue ::
    "node_kenv \<Rightarrow> batadv_forw_packet \<Rightarrow> u64 \<Rightarrow> node \<Rightarrow> node" where
  "batadv_forw_packet_bcast_queue k forw_packet send_time nd =
     batadv_forw_packet_queue k Bcast_queue forw_packet send_time nd"

definition batadv_forw_packet_ogmv1_queue ::
    "node_kenv \<Rightarrow> batadv_forw_packet \<Rightarrow> u64 \<Rightarrow> node \<Rightarrow> node" where
  "batadv_forw_packet_ogmv1_queue k forw_packet send_time nd =
     batadv_forw_packet_queue k Batman_queue forw_packet send_time nd"

section \<open>Broadcasts\<close>

definition NETDEV_TX_OK :: int where "NETDEV_TX_OK = 0"
definition NETDEV_TX_BUSY :: int where "NETDEV_TX_BUSY = 0x10"

definition batadv_forw_bcast_packet_to_list ::
    "node_kenv \<Rightarrow> sk_buff \<Rightarrow> u8 \<Rightarrow> u64 \<Rightarrow> bool \<Rightarrow> ifindex \<Rightarrow> ifindex \<Rightarrow> node \<Rightarrow> int \<times> node" where
  "batadv_forw_bcast_packet_to_list k skb num_bcasts delay own_packet if_in if_out nd =
     (if \<not> nk_clone_ok k (nd_pos nd) then (NETDEV_TX_BUSY, nd)
      else
        (case batadv_forw_packet_alloc k (Some if_in) (Some if_out) (Some Bcast_queue) skb nd of
           (None, nd) \<Rightarrow> (NETDEV_TX_BUSY, nd_emit (Kfree_skb skb) nd)
         | (Some forw_packet, nd) \<Rightarrow>
             let send_time = jiffies k + (if delay \<noteq> 0 then delay else msecs_to_jiffies k 5) in
             (NETDEV_TX_OK,
              batadv_forw_packet_bcast_queue k
                (forw_packet\<lparr>fw_own := own_packet, fw_num_bcasts := num_bcasts\<rparr>) send_time nd)))"

definition batadv_forw_bcast_packet_if ::
    "node_kenv \<Rightarrow> sk_buff \<Rightarrow> u64 \<Rightarrow> bool \<Rightarrow> ifindex \<Rightarrow> batadv_hard_iface \<Rightarrow> node \<Rightarrow> int \<times> node" where
  "batadv_forw_bcast_packet_if k skb delay own_packet if_in if_out nd =
     (let num_bcasts = (ucast (hi_num_bcasts if_out) :: u32) in
      if delay = 0 \<and> \<not> nk_clone_ok k (nd_pos nd) then (NETDEV_TX_BUSY, nd)
      else
        let (num_bcasts, nd) =
              (if delay = 0
               then (num_bcasts - 1, snd (batadv_send_broadcast_skb k skb (hi_ifindex if_out) nd))
               else (num_bcasts, nd)) in
        if 1 \<le> num_bcasts
        then batadv_forw_bcast_packet_to_list k skb (ucast num_bcasts) delay own_packet if_in
               (hi_ifindex if_out) nd
        else (NETDEV_TX_OK, nd))"

definition batadv_send_no_broadcast :: "sk_buff \<Rightarrow> bool \<Rightarrow> batadv_hard_iface \<Rightarrow> bool" where
  "batadv_send_no_broadcast skb own_packet if_out =
     (let neigh_node = (if own_packet then None else batadv_hardif_neigh_get if_out (h_source skb));
          orig_neigh = map_option hn_orig neigh_node in
      batadv_hardif_no_broadcast if_out (Some (bcast_orig (get_bcast_packet (skb_data skb)))) orig_neigh
        \<noteq> BATADV_HARDIF_BCAST_OK)"

fun forw_bcast_loop ::
    "node_kenv \<Rightarrow> sk_buff \<Rightarrow> u64 \<Rightarrow> bool \<Rightarrow> ifindex \<Rightarrow> batadv_hard_iface list \<Rightarrow> int \<Rightarrow> node
      \<Rightarrow> int \<times> node" where
  "forw_bcast_loop k skb delay own_packet primary_if [] ret nd = (ret, nd)"
| "forw_bcast_loop k skb delay own_packet primary_if (hard_iface # ifaces) ret nd =
     (if batadv_send_no_broadcast skb own_packet hard_iface
      then forw_bcast_loop k skb delay own_packet primary_if ifaces ret nd
      else
        (case batadv_forw_bcast_packet_if k skb delay own_packet primary_if hard_iface nd of
           (ret, nd) \<Rightarrow>
             if ret = NETDEV_TX_BUSY then (ret, nd)
             else forw_bcast_loop k skb delay own_packet primary_if ifaces ret nd))"

definition batadv_forw_bcast_packet ::
    "node_kenv \<Rightarrow> sk_buff \<Rightarrow> u64 \<Rightarrow> bool \<Rightarrow> node \<Rightarrow> int \<times> node" where
  "batadv_forw_bcast_packet k skb delay own_packet nd =
     (case batadv_primary_if_get_selected (nd_priv nd) of
        None \<Rightarrow> (NETDEV_TX_BUSY, nd)
      | Some primary_if \<Rightarrow>
          forw_bcast_loop k skb delay own_packet (hi_ifindex primary_if)
            (bp_hard_ifaces (nd_priv nd)) NETDEV_TX_OK nd)"

definition batadv_send_bcast_packet :: "node_kenv \<Rightarrow> sk_buff \<Rightarrow> u64 \<Rightarrow> bool \<Rightarrow> node \<Rightarrow> node" where
  "batadv_send_bcast_packet k skb delay own_packet nd =
     nd_emit (Consume_skb skb) (snd (batadv_forw_bcast_packet k skb delay own_packet nd))"

text \<open>The purge in its two parts: taking the packets, and freeing what was taken.\<close>

definition purge_outstanding_steal ::
    "ifindex option \<Rightarrow> node \<Rightarrow> batadv_forw_packet list \<times> node" where
  "purge_outstanding_steal hard_iface nd =
     (case batadv_forw_packet_list_steal Bcast_queue hard_iface nd of
        (bcast, nd) \<Rightarrow>
          (case batadv_forw_packet_list_steal Batman_queue hard_iface nd of
             (batman, nd) \<Rightarrow> (batman @ bcast, nd)))"

definition batadv_purge_outstanding_packets :: "ifindex option \<Rightarrow> node \<Rightarrow> node" where
  "batadv_purge_outstanding_packets hard_iface nd =
     (case purge_outstanding_steal hard_iface nd of
        (head, nd) \<Rightarrow> batadv_forw_packet_list_free head nd)"

section \<open>The priority of a packet\<close>

definition skb_header_pointer :: "bytes \<Rightarrow> nat \<Rightarrow> nat \<Rightarrow> bytes option" where
  "skb_header_pointer data off len =
     (if off + len \<le> length data then Some (take len (drop off data)) else None)"

definition VLAN_PRIO_MASK :: u16 where "VLAN_PRIO_MASK = 0xe000"

definition dsfield_prio :: "u8 \<Rightarrow> u32" where
  "dsfield_prio ds = drop_bit 5 (ucast (ds AND 0xfc))"

definition batadv_skb_set_priority :: "nat \<Rightarrow> sk_buff \<Rightarrow> sk_buff" where
  "batadv_skb_set_priority offset skb =
     (if 256 \<le> skb_priority skb \<and> skb_priority skb \<le> 263 then skb
      else
        (case skb_header_pointer (skb_data skb) offset ETH_HLEN of
           None \<Rightarrow> skb
         | Some ethhdr \<Rightarrow>
             let h_proto = get_be16 (drop 12 ethhdr);
                 prio =
                   (if h_proto = ETH_P_8021Q then
                      map_option (\<lambda>vhdr. drop_bit 13 (ucast (get_be16 (drop 14 vhdr) AND VLAN_PRIO_MASK)))
                        (skb_header_pointer (skb_data skb) (offset + 18) 18)
                    else if h_proto = ETH_P_IP then
                      map_option (\<lambda>ip_hdr. dsfield_prio (ip_hdr ! 1))
                        (skb_header_pointer (skb_data skb) (offset + ETH_HLEN) 20)
                    else if h_proto = ETH_P_IPV6 then
                      map_option (\<lambda>ip6_hdr. dsfield_prio (ucast (drop_bit 4 (get_be16 ip6_hdr))))
                        (skb_header_pointer (skb_data skb) (offset + ETH_HLEN) 40)
                    else None) in
             case prio of None \<Rightarrow> skb | Some prio \<Rightarrow> skb\<lparr>skb_priority := prio + 256\<rparr>))"

end
