(* ===== verification/Dat.thy ===== *)
theory Dat
  imports Sending
begin

text \<open>
  The distributed ARP table, \<^verbatim>\<open>src/net/batman-adv/distributed-arp-table.c\<close>: a cache of the
  addresses seen in ARP and DHCP traffic, and a distributed hash table over the originators.
  The entries of an IP address are kept by the three originators whose DAT address is closest
  to its hash; requests and announcements go to these as unicast packets of a subtype of their
  own. An IP address is the host order value of its four bytes.
\<close>

definition BATADV_DAT_ENTRY_TIMEOUT :: nat where "BATADV_DAT_ENTRY_TIMEOUT = 300000"
definition BATADV_DAT_CANDIDATES_NUM :: nat where "BATADV_DAT_CANDIDATES_NUM = 3"
definition BATADV_DAT_ADDR_MAX :: u16 where "BATADV_DAT_ADDR_MAX = 0xffff"
definition BATADV_TVLV_DAT :: u8 where "BATADV_TVLV_DAT = 0x02"
definition BATADV_ORIG_CAPA_HAS_DAT :: nat where "BATADV_ORIG_CAPA_HAS_DAT = 0"
definition ARPOP_REQUEST :: u16 where "ARPOP_REQUEST = 1"
definition ARPOP_REPLY :: u16 where "ARPOP_REPLY = 2"

section \<open>The cache\<close>

definition dat_hash_byte :: "u32 \<Rightarrow> u8 \<Rightarrow> u32" where
  "dat_hash_byte hash key =
     (let hash = hash + ucast key;
          hash = hash + push_bit 10 hash in
      hash XOR drop_bit 6 hash)"

definition batadv_hash_dat :: "u32 \<times> u16 \<Rightarrow> u32 \<Rightarrow> u32" where
  "batadv_hash_dat dat n =
     (let hash = foldl dat_hash_byte 0 (be32 (fst dat) @ be16 (snd dat));
          hash = hash + push_bit 3 hash;
          hash = hash XOR drop_bit 11 hash;
          hash = hash + push_bit 15 hash in
      hash mod n)"

definition batadv_compare_dat :: "batadv_dat_entry \<Rightarrow> u32 \<times> u16 \<Rightarrow> bool" where
  "batadv_compare_dat data1 data2 = (de_ip data1 = fst data2)"

definition batadv_dat_entry_hash_find :: "node \<Rightarrow> u32 \<Rightarrow> u16 \<Rightarrow> batadv_dat_entry option" where
  "batadv_dat_entry_hash_find nd ip vid =
     (case nd_dat_hash nd of
        None \<Rightarrow> None
      | Some hash \<Rightarrow>
          find (\<lambda>dat_entry. de_ip dat_entry = ip)
            (hash_bucket hash (batadv_hash_dat (ip, vid) (hash_size hash))))"

definition dat_entry_upd :: "u32 \<Rightarrow> u16 \<Rightarrow> (batadv_dat_entry \<Rightarrow> batadv_dat_entry) \<Rightarrow> node \<Rightarrow> node" where
  "dat_entry_upd ip vid f nd =
     (case nd_dat_hash nd of
        None \<Rightarrow> nd
      | Some hash \<Rightarrow>
          let index = batadv_hash_dat (ip, vid) (hash_size hash) in
          nd\<lparr>nd_dat_hash := Some (set_hash_bucket hash index
               (hlist_upd_first (\<lambda>dat_entry. de_ip dat_entry = ip) f (hash_bucket hash index)))\<rparr>)"

definition batadv_dat_entry_add :: "node_kenv \<Rightarrow> u32 \<Rightarrow> mac \<Rightarrow> u16 \<Rightarrow> node \<Rightarrow> node" where
  "batadv_dat_entry_add k ip mac_addr vid nd =
     (case batadv_dat_entry_hash_find nd ip vid of
        Some _ \<Rightarrow>
          dat_entry_upd ip vid (\<lambda>e. e\<lparr>de_mac_addr := mac_addr, de_last_update := jiffies k\<rparr>) nd
      | None \<Rightarrow>
          if \<not> nk_dat_alloc_ok k ip vid then nd
          else nd\<lparr>nd_dat_hash := snd (batadv_hash_add (nd_dat_hash nd) batadv_compare_dat batadv_hash_dat
                 (ip, vid) \<lparr>de_ip = ip, de_vid = vid, de_mac_addr = mac_addr,
                            de_last_update = jiffies k\<rparr>)\<rparr>)"

definition batadv_dat_to_purge :: "node_kenv \<Rightarrow> batadv_dat_entry \<Rightarrow> bool" where
  "batadv_dat_to_purge k dat_entry =
     batadv_has_timed_out (kclock.truncate k) (de_last_update dat_entry) BATADV_DAT_ENTRY_TIMEOUT"

definition dat_purge_entries :: "(batadv_dat_entry \<Rightarrow> bool) option \<Rightarrow> node \<Rightarrow> node" where
  "dat_purge_entries to_purge nd =
     (case nd_dat_hash nd of
        None \<Rightarrow> nd
      | Some hash \<Rightarrow>
          nd\<lparr>nd_dat_hash := Some (hash\<lparr>table :=
               map (filter (\<lambda>e. case to_purge of None \<Rightarrow> False | Some f \<Rightarrow> \<not> f e)) (table hash)\<rparr>)\<rparr>)"

definition batadv_dat_start_timer :: "node \<Rightarrow> node" where
  "batadv_dat_start_timer nd = nd_emit (Queue_dat_work 10000) nd"

definition batadv_dat_purge :: "node_kenv \<Rightarrow> node \<Rightarrow> node" where
  "batadv_dat_purge k nd =
     batadv_dat_start_timer (dat_purge_entries (Some (batadv_dat_to_purge k)) nd)"

section \<open>The candidates of an address\<close>

text \<open>The node's own DAT address and that of an originator are hashes of their address.\<close>

definition batadv_dat_init_own_addr :: "node_kenv \<Rightarrow> batadv_hard_iface \<Rightarrow> node \<Rightarrow> node" where
  "batadv_dat_init_own_addr k primary_if nd =
     nd\<lparr>nd_dat_addr :=
        ucast (batadv_choose_orig (jhash k) (hi_dev_addr primary_if) (ucast BATADV_DAT_ADDR_MAX))\<rparr>"

text \<open>
  A candidate slot: whether an originator was found, and the originator pointer, which is
  uninitialised memory until one is. The second of two originators at the same distance is
  eligible too.
\<close>

record batadv_dat_candidate =
  dc_found :: bool
  dc_orig :: "mac option"

definition batadv_is_orig_node_eligible ::
    "batadv_dat_candidate list \<Rightarrow> nat \<Rightarrow> u16 \<Rightarrow> u16 \<Rightarrow> u16 \<Rightarrow> batadv_orig_node
      \<Rightarrow> batadv_orig_node option \<Rightarrow> bool" where
  "batadv_is_orig_node_eligible res select tmp_max maxd last_max candidate max_orig_node =
     (if \<not> bit (on_capabilities candidate) BATADV_ORIG_CAPA_HAS_DAT then False
      else if \<exists>c \<in> set (take select res). dc_orig c = Some (on_orig candidate) then False
      else if last_max < tmp_max then False
      else if tmp_max < maxd then False
      else if tmp_max = maxd
        \<and> (case max_orig_node of None \<Rightarrow> False | Some m \<Rightarrow> batadv_compare_eth (on_orig candidate) (on_orig m))
      then False
      else True)"

definition dat_distance :: "u16 \<Rightarrow> batadv_orig_node \<Rightarrow> u16" where
  "dat_distance ip_key orig_node = BATADV_DAT_ADDR_MAX - on_dat_addr orig_node + ip_key"

definition next_candidate_step ::
    "batadv_dat_candidate list \<Rightarrow> nat \<Rightarrow> u16 \<Rightarrow> u16 \<Rightarrow> u16 \<times> batadv_orig_node option
      \<Rightarrow> batadv_orig_node \<Rightarrow> u16 \<times> batadv_orig_node option" where
  "next_candidate_step cands select ip_key last_max best orig_node =
     (let tmp_max = dat_distance ip_key orig_node in
      if batadv_is_orig_node_eligible cands select tmp_max (fst best) last_max orig_node (snd best)
      then (tmp_max, Some orig_node) else best)"

definition batadv_choose_next_candidate ::
    "batadv_orig_node batadv_hashtable \<Rightarrow> batadv_dat_candidate list \<Rightarrow> nat \<Rightarrow> u16 \<Rightarrow> u16
      \<Rightarrow> batadv_dat_candidate list \<times> u16" where
  "batadv_choose_next_candidate hash cands select ip_key last_max =
     (case foldl (next_candidate_step cands select ip_key last_max) (0, None) (concat (table hash)) of
        (maxd, max_orig_node) \<Rightarrow>
          (cands[select := (case max_orig_node of
               None \<Rightarrow> (cands ! select)\<lparr>dc_found := False\<rparr>
             | Some o1 \<Rightarrow> \<lparr>dc_found = True, dc_orig = Some (on_orig o1)\<rparr>)], maxd))"

fun select_candidates_loop ::
    "batadv_orig_node batadv_hashtable \<Rightarrow> u16 \<Rightarrow> nat list \<Rightarrow> batadv_dat_candidate list \<Rightarrow> u16
      \<Rightarrow> batadv_dat_candidate list" where
  "select_candidates_loop hash ip_key [] cands last_max = cands"
| "select_candidates_loop hash ip_key (select # rest) cands last_max =
     (case batadv_choose_next_candidate hash cands select ip_key last_max of
        (cands, last_max) \<Rightarrow> select_candidates_loop hash ip_key rest cands last_max)"

definition dat_ip_key :: "u32 \<Rightarrow> u16 \<Rightarrow> u16" where
  "dat_ip_key ip vid = ucast (batadv_hash_dat (ip, vid) (ucast BATADV_DAT_ADDR_MAX))"

definition batadv_dat_select_candidates ::
    "node_kenv \<Rightarrow> node \<Rightarrow> u32 \<Rightarrow> u16 \<Rightarrow> batadv_dat_candidate list option" where
  "batadv_dat_select_candidates k nd ip_dst vid =
     (case bp_orig_hash (nd_priv nd) of
        None \<Rightarrow> None
      | Some hash \<Rightarrow>
          if \<not> nk_dat_res_ok k then None
          else
            Some (select_candidates_loop hash (dat_ip_key ip_dst vid) [0..<BATADV_DAT_CANDIDATES_NUM]
              (map (\<lambda>j. \<lparr>dc_found = False, dc_orig = nk_dat_garbage k j\<rparr>) [0..<BATADV_DAT_CANDIDATES_NUM])
              BATADV_DAT_ADDR_MAX))"

section \<open>Sending to the candidates\<close>

text \<open>
  One round of the loop over the candidates. A copy of the packet that cannot be made is a
  null pointer, which \<^verbatim>\<open>batadv_send_skb_prepare_unicast_4addr\<close> dereferences unless there is no
  primary interface.
\<close>

definition node_counter :: "batadv_counters \<Rightarrow> u64 \<Rightarrow> node \<Rightarrow> node" where
  "node_counter idx cnt nd = nd_priv_upd (batadv_add_counter idx cnt) nd"

definition dat_forward_one ::
    "node_kenv \<Rightarrow> sk_buff \<Rightarrow> u8 \<Rightarrow> batadv_dat_candidate \<Rightarrow> bool \<times> node \<Rightarrow> (bool \<times> node) kresult" where
  "dat_forward_one k skb packet_subtype cand st =
     (case st of (ret, nd) \<Rightarrow>
        if \<not> dc_found cand then Kret (ret, nd)
        else
          (case (case dc_orig cand of None \<Rightarrow> None | Some o1 \<Rightarrow> batadv_orig_hash_find k (nd_priv nd) o1) of
             None \<Rightarrow> Kret (ret, nd)
           | Some orig_node \<Rightarrow>
               (case (case batadv_orig_router_get orig_node BATADV_IF_DEFAULT of
                        None \<Rightarrow> None | Some p \<Rightarrow> neigh_deref orig_node p) of
                  None \<Rightarrow> Kret (ret, nd)
                | Some neigh_node \<Rightarrow>
                    if \<not> nk_clone_ok k (nd_pos nd) then
                      (if batadv_primary_if_get_selected (nd_priv nd) = None then Kret (ret, nd)
                       else Kernel_bug)
                    else
                      (case batadv_send_skb_prepare_unicast_4addr k (nd_pos nd) (nd_priv nd) skb
                              orig_node packet_subtype of
                         None \<Rightarrow> Kret (ret, nd_emit (Kfree_skb skb) nd)
                       | Some tmp_skb \<Rightarrow>
                           (case batadv_send_unicast_skb k tmp_skb neigh_node nd of
                              (send_status, nd) \<Rightarrow>
                                if send_status = NET_XMIT_SUCCESS then
                                  Kret (True,
                                    if packet_subtype = BATADV_P_DAT_DHT_GET
                                    then node_counter BATADV_CNT_DAT_GET_TX 1 nd
                                    else if packet_subtype = BATADV_P_DAT_DHT_PUT
                                    then node_counter BATADV_CNT_DAT_PUT_TX 1 nd
                                    else nd)
                                else Kret (ret, nd))))))"

fun dat_forward_loop ::
    "node_kenv \<Rightarrow> sk_buff \<Rightarrow> u8 \<Rightarrow> batadv_dat_candidate list \<Rightarrow> bool \<times> node \<Rightarrow> (bool \<times> node) kresult" where
  "dat_forward_loop k skb packet_subtype [] st = Kret st"
| "dat_forward_loop k skb packet_subtype (cand # cands) st =
     kbind (dat_forward_one k skb packet_subtype cand st) (dat_forward_loop k skb packet_subtype cands)"

definition batadv_dat_forward_data ::
    "node_kenv \<Rightarrow> sk_buff \<Rightarrow> u32 \<Rightarrow> u16 \<Rightarrow> u8 \<Rightarrow> node \<Rightarrow> (bool \<times> node) kresult" where
  "batadv_dat_forward_data k skb ip vid packet_subtype nd =
     (case batadv_dat_select_candidates k nd ip vid of
        None \<Rightarrow> Kret (False, nd)
      | Some cand \<Rightarrow> dat_forward_loop k skb packet_subtype cand (False, nd))"

section \<open>Announcing the capability\<close>

definition batadv_dat_tvlv_container_update :: "node_kenv \<Rightarrow> node \<Rightarrow> node" where
  "batadv_dat_tvlv_container_update k nd =
     nd_priv_upd (\<lambda>bp. bp\<lparr>bp_tvlv_container_list :=
        (if nd_distributed_arp_table nd
         then batadv_tvlv_container_register (kalloc_ok k Alloc_tvlv_container) BATADV_TVLV_DAT 1 None 0
                (bp_tvlv_container_list bp)
         else batadv_tvlv_container_unregister BATADV_TVLV_DAT 1 (bp_tvlv_container_list bp))\<rparr>) nd"

definition batadv_dat_status_update :: "node_kenv \<Rightarrow> node \<Rightarrow> node" where
  "batadv_dat_status_update k nd = batadv_dat_tvlv_container_update k nd"

definition batadv_dat_tvlv_ogm_handler_v1 :: "u8 \<Rightarrow> batadv_orig_node \<Rightarrow> batadv_orig_node" where
  "batadv_dat_tvlv_ogm_handler_v1 flags orig =
     orig\<lparr>on_capabilities :=
        (if flags AND BATADV_TVLV_HANDLER_OGM_CIFNOTFND \<noteq> 0
         then unset_bit BATADV_ORIG_CAPA_HAS_DAT (on_capabilities orig)
         else set_bit BATADV_ORIG_CAPA_HAS_DAT (on_capabilities orig))\<rparr>"

definition batadv_dat_hash_free :: "node \<Rightarrow> node" where
  "batadv_dat_hash_free nd =
     (if nd_dat_hash nd = None then nd else (dat_purge_entries None nd)\<lparr>nd_dat_hash := None\<rparr>)"

definition batadv_dat_init ::
    "node_kenv \<Rightarrow> bool \<times> bool \<times> bool \<Rightarrow> (mac, node) batadv_tvlv_handler list \<Rightarrow> node
      \<Rightarrow> int \<times> (mac, node) batadv_tvlv_handler list \<times> node" where
  "batadv_dat_init k hash_oks hs nd =
     (if nd_dat_hash nd \<noteq> None then (0, hs, nd)
      else (case (case hash_oks of (ok1, ok2, ok3) \<Rightarrow> batadv_hash_new ok1 ok2 ok3 1024) of
              None \<Rightarrow> (- ENOMEM, hs, nd)
            | Some h \<Rightarrow>
                (0,
                 batadv_tvlv_handler_register True
                   (Some (\<lambda>orig flags v nd. case orig of None \<Rightarrow> nd
                      | Some o1 \<Rightarrow> nd_priv_upd (orig_upd k o1 (batadv_dat_tvlv_ogm_handler_v1 flags)) nd))
                   None None BATADV_TVLV_DAT 1 BATADV_TVLV_HANDLER_OGM_CIFNOTFND hs,
                 batadv_dat_tvlv_container_update k
                   (batadv_dat_start_timer (nd\<lparr>nd_dat_hash := Some h\<rparr>)))))"

definition batadv_dat_free ::
    "(mac, node) batadv_tvlv_handler list \<Rightarrow> node \<Rightarrow> (mac, node) batadv_tvlv_handler list \<times> node" where
  "batadv_dat_free hs nd =
     (let nd = nd_priv_upd (\<lambda>bp. bp\<lparr>bp_tvlv_container_list :=
                 batadv_tvlv_container_unregister BATADV_TVLV_DAT 1 (bp_tvlv_container_list bp)\<rparr>) nd in
      (batadv_tvlv_handler_unregister BATADV_TVLV_DAT 1 hs, batadv_dat_hash_free nd))"

section \<open>ARP packets\<close>

text \<open>
  The fields of the ARP packet behind a header of \<open>hdr_size\<close> bytes and an Ethernet header. The
  header of an Ethernet ARP packet has 8 bytes, the packet 28.
\<close>

definition arp_off :: "nat \<Rightarrow> nat" where "arp_off hdr_size = hdr_size + ETH_HLEN"

definition batadv_arp_hw_src :: "bytes \<Rightarrow> nat \<Rightarrow> mac" where
  "batadv_arp_hw_src data hdr_size = get_mac (drop (arp_off hdr_size + 8) data)"

definition batadv_arp_ip_src :: "bytes \<Rightarrow> nat \<Rightarrow> u32" where
  "batadv_arp_ip_src data hdr_size = get_be32 (drop (arp_off hdr_size + 14) data)"

definition batadv_arp_hw_dst :: "bytes \<Rightarrow> nat \<Rightarrow> mac" where
  "batadv_arp_hw_dst data hdr_size = get_mac (drop (arp_off hdr_size + 18) data)"

definition batadv_arp_ip_dst :: "bytes \<Rightarrow> nat \<Rightarrow> u32" where
  "batadv_arp_ip_dst data hdr_size = get_be32 (drop (arp_off hdr_size + 24) data)"

definition ipv4_is_loopback :: "u32 \<Rightarrow> bool" where "ipv4_is_loopback a = (a AND 0xff000000 = 0x7f000000)"
definition ipv4_is_multicast :: "u32 \<Rightarrow> bool" where "ipv4_is_multicast a = (a AND 0xf0000000 = 0xe0000000)"
definition ipv4_is_lbcast :: "u32 \<Rightarrow> bool" where "ipv4_is_lbcast a = (a = 0xffffffff)"
definition ipv4_is_zeronet :: "u32 \<Rightarrow> bool" where "ipv4_is_zeronet a = (a AND 0xff000000 = 0)"

definition arp_ip_bad :: "u32 \<Rightarrow> bool" where
  "arp_ip_bad a = (ipv4_is_loopback a \<or> ipv4_is_multicast a \<or> ipv4_is_zeronet a \<or> ipv4_is_lbcast a)"

definition batadv_arp_get_type :: "node_kenv \<Rightarrow> sk_buff \<Rightarrow> nat \<Rightarrow> u16" where
  "batadv_arp_get_type k skb hdr_size =
     (let data = skb_data skb; arphdr = drop (arp_off hdr_size) data;
          hw_src = batadv_arp_hw_src data hdr_size; hw_dst = batadv_arp_hw_dst data hdr_size;
          ar_op = get_be16 (drop 6 arphdr) in
      if \<not> nk_may_pull k skb (hdr_size + ETH_HLEN) then 0
      else if get_be16 (drop (hdr_size + 12) data) \<noteq> ETH_P_ARP then 0
      else if \<not> nk_may_pull k skb (hdr_size + ETH_HLEN + 28) then 0
      else if get_be16 arphdr \<noteq> 1 then 0
      else if get_be16 (drop 2 arphdr) \<noteq> ETH_P_IP then 0
      else if arphdr ! 4 \<noteq> 6 then 0
      else if arphdr ! 5 \<noteq> 4 then 0
      else if arp_ip_bad (batadv_arp_ip_src data hdr_size) \<or> arp_ip_bad (batadv_arp_ip_dst data hdr_size) then 0
      else if is_zero_ether_addr hw_src \<or> is_multicast_ether_addr hw_src then 0
      else if ar_op \<noteq> ARPOP_REQUEST
              \<and> (is_zero_ether_addr hw_dst \<or> is_multicast_ether_addr hw_dst) then 0
      else ar_op)"

definition batadv_dat_get_vid :: "node_kenv \<Rightarrow> sk_buff \<Rightarrow> nat \<Rightarrow> (u16 \<times> nat) kresult" where
  "batadv_dat_get_vid k skb hdr_size =
     kbind (batadv_get_vid (nk_may_pull k skb) (skb_data skb) hdr_size) (\<lambda>vid.
       Kret (vid, if vid AND BATADV_VLAN_HAS_TAG \<noteq> 0 then hdr_size + VLAN_HLEN else hdr_size))"

text \<open>\<open>arp_reply_frame\<close> is what \<^verbatim>\<open>arp_create\<close> and \<^verbatim>\<open>vlan_insert_tag\<close> build.\<close>

definition arp_reply_frame :: "u32 \<Rightarrow> u32 \<Rightarrow> mac \<Rightarrow> mac \<Rightarrow> u16 \<Rightarrow> bytes" where
  "arp_reply_frame ip_src ip_dst hw_src hw_dst vid =
     mac_bytes hw_dst @ mac_bytes hw_src
     @ (if vid AND BATADV_VLAN_HAS_TAG \<noteq> 0 then be16 ETH_P_8021Q @ be16 (vid AND VLAN_VID_MASK) else [])
     @ be16 ETH_P_ARP
     @ be16 1 @ be16 ETH_P_IP @ [6, 4] @ be16 ARPOP_REPLY
     @ mac_bytes hw_src @ be32 ip_src @ mac_bytes hw_dst @ be32 ip_dst"

definition batadv_dat_arp_create_reply ::
    "node_kenv \<Rightarrow> nat \<Rightarrow> u32 \<Rightarrow> u32 \<Rightarrow> mac \<Rightarrow> mac \<Rightarrow> u16 \<Rightarrow> sk_buff option" where
  "batadv_dat_arp_create_reply k pos ip_src ip_dst hw_src hw_dst vid =
     (if \<not> nk_skb_ok k pos then None
      else Some \<lparr>h_dest = hw_dst, h_source = hw_src,
                 skb_data = arp_reply_frame ip_src ip_dst hw_src hw_dst vid, skb_priority = 0\<rparr>)"

section \<open>Snooping ARP\<close>

definition batadv_dat_snoop_outgoing_arp_request ::
    "node_kenv \<Rightarrow> sk_buff \<Rightarrow> node \<Rightarrow> (bool \<times> node) kresult" where
  "batadv_dat_snoop_outgoing_arp_request k skb nd =
     (if \<not> nd_distributed_arp_table nd then Kret (False, nd)
      else
        kbind (batadv_dat_get_vid k skb 0) (\<lambda>(vid, hdr_size).
        if batadv_arp_get_type k skb hdr_size \<noteq> ARPOP_REQUEST then Kret (False, nd)
        else
          let ip_src = batadv_arp_ip_src (skb_data skb) hdr_size;
              hw_src = batadv_arp_hw_src (skb_data skb) hdr_size;
              ip_dst = batadv_arp_ip_dst (skb_data skb) hdr_size;
              nd = batadv_dat_entry_add k ip_src hw_src vid nd in
          case batadv_dat_entry_hash_find nd ip_dst vid of
            Some dat_entry \<Rightarrow>
              if batadv_is_my_client k (nd_mesh nd) (de_mac_addr dat_entry) vid then Kret (True, nd)
              else if \<not> batadv_bla_check_claim k (nd_bla nd) (de_mac_addr dat_entry) vid then Kret (True, nd)
              else
                (case batadv_dat_arp_create_reply k (nd_pos nd) ip_dst ip_src (de_mac_addr dat_entry)
                        hw_src vid of
                   None \<Rightarrow> Kret (False, nd)
                 | Some skb_new \<Rightarrow>
                     Kret (True, nd_emit (Netif_rx skb_new 0)
                       (node_counter BATADV_CNT_RX_BYTES
                          (ucast (skb_len skb) + of_nat ETH_HLEN + of_nat hdr_size)
                          (node_counter BATADV_CNT_RX 1 nd))))
          | None \<Rightarrow> batadv_dat_forward_data k skb ip_dst vid BATADV_P_DAT_DHT_GET nd))"

text \<open>
  The reply is sent as a 4 address packet when the size of the headers is that of a 4 address
  header; by then a VLAN tag has been added to it.
\<close>

definition batadv_dat_snoop_incoming_arp_request ::
    "node_kenv \<Rightarrow> sk_buff \<Rightarrow> nat \<Rightarrow> node \<Rightarrow> (bool \<times> node) kresult" where
  "batadv_dat_snoop_incoming_arp_request k skb hdr_size nd =
     (if \<not> nd_distributed_arp_table nd then Kret (False, nd)
      else
        kbind (batadv_dat_get_vid k skb hdr_size) (\<lambda>(vid, hdr_size).
        if batadv_arp_get_type k skb hdr_size \<noteq> ARPOP_REQUEST then Kret (False, nd)
        else
          let hw_src = batadv_arp_hw_src (skb_data skb) hdr_size;
              ip_src = batadv_arp_ip_src (skb_data skb) hdr_size;
              ip_dst = batadv_arp_ip_dst (skb_data skb) hdr_size;
              nd = batadv_dat_entry_add k ip_src hw_src vid nd in
          case batadv_dat_entry_hash_find nd ip_dst vid of
            None \<Rightarrow> Kret (False, nd)
          | Some dat_entry \<Rightarrow>
              (case batadv_dat_arp_create_reply k (nd_pos nd) ip_dst ip_src (de_mac_addr dat_entry)
                      hw_src vid of
                 None \<Rightarrow> Kret (False, nd)
               | Some skb_new \<Rightarrow>
                   (case (if hdr_size = 18
                          then batadv_send_skb_via_tt_4addr k skb_new BATADV_P_DAT_CACHE_REPLY None vid nd
                          else batadv_send_skb_via_tt k skb_new None vid nd) of
                      (err, nd) \<Rightarrow>
                        if err \<noteq> NET_XMIT_DROP
                        then Kret (True, nd_emit (Kfree_skb skb)
                               (node_counter BATADV_CNT_DAT_CACHED_REPLY_TX 1 nd))
                        else Kret (False, nd)))))"

definition batadv_dat_snoop_outgoing_arp_reply ::
    "node_kenv \<Rightarrow> sk_buff \<Rightarrow> node \<Rightarrow> node kresult" where
  "batadv_dat_snoop_outgoing_arp_reply k skb nd =
     (if \<not> nd_distributed_arp_table nd then Kret nd
      else
        kbind (batadv_dat_get_vid k skb 0) (\<lambda>(vid, hdr_size).
        if batadv_arp_get_type k skb hdr_size \<noteq> ARPOP_REPLY then Kret nd
        else
          let hw_src = batadv_arp_hw_src (skb_data skb) hdr_size;
              ip_src = batadv_arp_ip_src (skb_data skb) hdr_size;
              hw_dst = batadv_arp_hw_dst (skb_data skb) hdr_size;
              ip_dst = batadv_arp_ip_dst (skb_data skb) hdr_size;
              nd = batadv_dat_entry_add k ip_src hw_src vid nd;
              nd = batadv_dat_entry_add k ip_dst hw_dst vid nd in
          kbind (batadv_dat_forward_data k skb ip_src vid BATADV_P_DAT_DHT_PUT nd) (\<lambda>(_, nd).
          kbind (batadv_dat_forward_data k skb ip_dst vid BATADV_P_DAT_DHT_PUT nd) (\<lambda>(_, nd). Kret nd))))"

definition batadv_dat_snoop_incoming_arp_reply ::
    "node_kenv \<Rightarrow> sk_buff \<Rightarrow> nat \<Rightarrow> node \<Rightarrow> (bool \<times> node) kresult" where
  "batadv_dat_snoop_incoming_arp_reply k skb hdr_size nd =
     (if \<not> nd_distributed_arp_table nd then Kret (False, nd)
      else
        kbind (batadv_dat_get_vid k skb hdr_size) (\<lambda>(vid, hdr_size).
        if batadv_arp_get_type k skb hdr_size \<noteq> ARPOP_REPLY then Kret (False, nd)
        else
          let hw_src = batadv_arp_hw_src (skb_data skb) hdr_size;
              ip_src = batadv_arp_ip_src (skb_data skb) hdr_size;
              hw_dst = batadv_arp_hw_dst (skb_data skb) hdr_size;
              ip_dst = batadv_arp_ip_dst (skb_data skb) hdr_size;
              doubled = (case batadv_dat_entry_hash_find nd ip_src vid of
                           None \<Rightarrow> False
                         | Some dat_entry \<Rightarrow> batadv_compare_eth hw_src (de_mac_addr dat_entry));
              nd = batadv_dat_entry_add k ip_src hw_src vid nd;
              nd = batadv_dat_entry_add k ip_dst hw_dst vid nd;
              dropped = (doubled
                \<or> \<not> batadv_bla_check_claim k (nd_bla nd) hw_src vid
                \<or> \<not> batadv_is_my_client k (nd_mesh nd) hw_dst vid
                \<or> batadv_is_my_client k (nd_mesh nd) hw_src vid) in
          Kret (dropped, if dropped then nd_emit (Kfree_skb skb) nd else nd)))"

section \<open>Snooping DHCP\<close>

definition BATADV_DHCP_MAGIC :: u32 where "BATADV_DHCP_MAGIC = 1669485411"
definition BATADV_BOOTREPLY :: int where "BATADV_BOOTREPLY = 2"
definition BATADV_DHCPACK :: int where "BATADV_DHCPACK = 5"
definition BATADV_DHCP_OPT_PAD :: u8 where "BATADV_DHCP_OPT_PAD = 0"
definition BATADV_DHCP_OPT_MSG_TYPE :: u8 where "BATADV_DHCP_OPT_MSG_TYPE = 53"
definition BATADV_DHCP_OPT_END :: u8 where "BATADV_DHCP_OPT_END = 255"
definition DHCP_HLEN :: nat where "DHCP_HLEN = 240"

text \<open>
  \<open>net\<close> is the offset of the IP header. The result is the offset of the UDP header and the
  source address.
\<close>

definition batadv_dat_check_dhcp_ipudp :: "bytes \<Rightarrow> nat \<Rightarrow> (nat \<times> u32) option" where
  "batadv_dat_check_dhcp_ipudp data net =
     (case skb_header_pointer data net 20 of
        None \<Rightarrow> None
      | Some iphdr \<Rightarrow>
          let ihl = unat (iphdr ! 0 AND 0xf) * 4 in
          if drop_bit 4 (iphdr ! 0) \<noteq> 4 \<or> ihl < 20 then None
          else if iphdr ! 9 \<noteq> IPPROTO_UDP then None
          else (case skb_header_pointer data (net + ihl) 8 of
                  None \<Rightarrow> None
                | Some udphdr \<Rightarrow>
                    if get_be16 udphdr \<noteq> 67 then None
                    else Some (net + ihl, get_be32 (drop 12 iphdr))))"

definition batadv_dat_check_dhcp :: "bytes \<Rightarrow> nat \<Rightarrow> u16 \<Rightarrow> int \<times> nat \<times> u32" where
  "batadv_dat_check_dhcp data net proto =
     (if proto \<noteq> ETH_P_IP then (- EINVAL, 0, 0)
      else (case batadv_dat_check_dhcp_ipudp data net of
              None \<Rightarrow> (- EINVAL, 0, 0)
            | Some (transport, ip_src) \<Rightarrow>
                let offset = transport + 8 in
                if length data < offset + DHCP_HLEN then (- EINVAL, 0, 0)
                else (case skb_header_pointer data offset 4 of
                        None \<Rightarrow> (- EINVAL, 0, 0)
                      | Some dhcp_h \<Rightarrow>
                          if dhcp_h ! 1 \<noteq> BATADV_DHCP_HTYPE_ETHERNET \<or> dhcp_h ! 2 \<noteq> 6
                          then (- EINVAL, 0, 0)
                          else (case skb_header_pointer data (offset + 236) 4 of
                                  None \<Rightarrow> (- EINVAL, 0, 0)
                                | Some magic \<Rightarrow>
                                    if get_be32 magic \<noteq> BATADV_DHCP_MAGIC then (- EINVAL, 0, 0)
                                    else (int (unat (dhcp_h ! 0)), transport, ip_src)))))"

text \<open>
  The search for the option that holds the message type: the offset at which the loop stops,
  with the type and length found there, or \<open>None\<close> when the options end before.
\<close>

function dhcp_option_loop :: "bytes \<Rightarrow> nat \<Rightarrow> (nat \<times> u8 \<times> u8) option" where
  "dhcp_option_loop data offset =
     (case skb_header_pointer data offset 2 of
        None \<Rightarrow> None
      | Some hdr2 \<Rightarrow>
          if hdr2 ! 0 = BATADV_DHCP_OPT_MSG_TYPE then Some (offset, hdr2 ! 0, hdr2 ! 1)
          else if hdr2 ! 0 = BATADV_DHCP_OPT_END then Some (offset, hdr2 ! 0, hdr2 ! 1)
          else if hdr2 ! 0 = BATADV_DHCP_OPT_PAD then dhcp_option_loop data (offset + 1)
          else dhcp_option_loop data (offset + unat (hdr2 ! 1) + 2))"
  by pat_completeness auto

termination
  by (relation "measure (\<lambda>(data, offset). length data - offset)")
    (auto simp: skb_header_pointer_def split: if_splits)

declare dhcp_option_loop.simps [simp del]

definition batadv_dat_get_dhcp_message_type :: "bytes \<Rightarrow> nat \<Rightarrow> int" where
  "batadv_dat_get_dhcp_message_type data transport =
     (case dhcp_option_loop data (transport + 8 + DHCP_HLEN) of
        None \<Rightarrow> - EINVAL
      | Some (offset, tl_type, tl_len) \<Rightarrow>
          if tl_type \<noteq> BATADV_DHCP_OPT_MSG_TYPE \<or> tl_len \<noteq> 1 then - EINVAL
          else (case skb_header_pointer data (offset + 2) 1 of
                  None \<Rightarrow> - EINVAL
                | Some t \<Rightarrow> int (unat (t ! 0))))"

definition batadv_dat_dhcp_get_yiaddr :: "bytes \<Rightarrow> nat \<Rightarrow> u32 option" where
  "batadv_dat_dhcp_get_yiaddr data transport =
     map_option get_be32 (skb_header_pointer data (transport + 8 + 16) 4)"

definition batadv_dat_get_dhcp_chaddr :: "bytes \<Rightarrow> nat \<Rightarrow> mac option" where
  "batadv_dat_get_dhcp_chaddr data transport =
     map_option get_mac (skb_header_pointer data (transport + 8 + 28) 16)"

definition batadv_dat_check_dhcp_ack :: "bytes \<Rightarrow> nat \<Rightarrow> u16 \<Rightarrow> (u32 \<times> mac \<times> u32) option" where
  "batadv_dat_check_dhcp_ack data net proto =
     (case batadv_dat_check_dhcp data net proto of
        (type, transport, ip_src) \<Rightarrow>
          if type \<noteq> BATADV_BOOTREPLY then None
          else if batadv_dat_get_dhcp_message_type data transport \<noteq> BATADV_DHCPACK then None
          else (case batadv_dat_dhcp_get_yiaddr data transport of
                  None \<Rightarrow> None
                | Some yiaddr \<Rightarrow>
                    (case batadv_dat_get_dhcp_chaddr data transport of
                       None \<Rightarrow> None
                     | Some chaddr \<Rightarrow> Some (ip_src, chaddr, yiaddr))))"

definition batadv_dat_put_dhcp ::
    "node_kenv \<Rightarrow> mac \<Rightarrow> u32 \<Rightarrow> mac \<Rightarrow> u32 \<Rightarrow> u16 \<Rightarrow> node \<Rightarrow> node kresult" where
  "batadv_dat_put_dhcp k chaddr yiaddr hw_dst ip_dst vid nd =
     (case batadv_dat_arp_create_reply k (nd_pos nd) yiaddr ip_dst chaddr hw_dst vid of
        None \<Rightarrow> Kret nd
      | Some skb \<Rightarrow>
          let nd = batadv_dat_entry_add k yiaddr chaddr vid nd;
              nd = batadv_dat_entry_add k ip_dst hw_dst vid nd in
          kbind (batadv_dat_forward_data k skb yiaddr vid BATADV_P_DAT_DHT_PUT nd) (\<lambda>(_, nd).
          kbind (batadv_dat_forward_data k skb ip_dst vid BATADV_P_DAT_DHT_PUT nd) (\<lambda>(_, nd).
            Kret (nd_emit (Consume_skb skb) nd))))"

text \<open>\<open>net\<close> is the network header of the buffer, set by the caller.\<close>

definition batadv_dat_snoop_outgoing_dhcp_ack ::
    "node_kenv \<Rightarrow> sk_buff \<Rightarrow> nat \<Rightarrow> u16 \<Rightarrow> u16 \<Rightarrow> node \<Rightarrow> node kresult" where
  "batadv_dat_snoop_outgoing_dhcp_ack k skb net proto vid nd =
     (if \<not> nd_distributed_arp_table nd then Kret nd
      else (case batadv_dat_check_dhcp_ack (skb_data skb) net proto of
              None \<Rightarrow> Kret nd
            | Some (ip_src, chaddr, yiaddr) \<Rightarrow>
                batadv_dat_put_dhcp k chaddr yiaddr (h_source skb) ip_src vid nd))"

definition batadv_dat_snoop_incoming_dhcp_ack ::
    "node_kenv \<Rightarrow> sk_buff \<Rightarrow> nat \<Rightarrow> node \<Rightarrow> node kresult" where
  "batadv_dat_snoop_incoming_dhcp_ack k skb hdr_size nd =
     (if \<not> nd_distributed_arp_table nd then Kret nd
      else if \<not> nk_may_pull k skb (hdr_size + ETH_HLEN) then Kret nd
      else
        let ethhdr = drop hdr_size (skb_data skb) in
        (case batadv_dat_check_dhcp_ack (skb_data skb) (hdr_size + ETH_HLEN) (get_be16 (drop 12 ethhdr)) of
           None \<Rightarrow> Kret nd
         | Some (ip_src, chaddr, yiaddr) \<Rightarrow>
             kbind (batadv_dat_get_vid k skb hdr_size) (\<lambda>(vid, _).
               Kret (batadv_dat_entry_add k ip_src (get_mac (drop 6 ethhdr)) vid
                       (batadv_dat_entry_add k yiaddr chaddr vid nd)))))"

section \<open>Broadcasts made superfluous by the table\<close>

definition batadv_forw_packet_is_rebroadcast :: "batadv_priv \<Rightarrow> batadv_forw_packet \<Rightarrow> bool" where
  "batadv_forw_packet_is_rebroadcast bp forw_packet =
     (case (case fw_if_outgoing forw_packet of None \<Rightarrow> None | Some i \<Rightarrow> hard_iface_get bp i) of
        None \<Rightarrow> False
      | Some h \<Rightarrow> fw_num_bcasts forw_packet \<noteq> hi_num_bcasts h)"

definition batadv_dat_drop_broadcast_packet ::
    "node_kenv \<Rightarrow> batadv_forw_packet \<Rightarrow> node \<Rightarrow> bool kresult" where
  "batadv_dat_drop_broadcast_packet k forw_packet nd =
     (if \<not> nd_distributed_arp_table nd then Kret False
      else if batadv_forw_packet_is_rebroadcast (nd_priv nd) forw_packet then Kret False
      else
        kbind (batadv_dat_get_vid k (fw_skb forw_packet) 14) (\<lambda>(vid, hdr_size).
        if batadv_arp_get_type k (fw_skb forw_packet) hdr_size \<noteq> ARPOP_REQUEST then Kret False
        else
          Kret (batadv_dat_entry_hash_find nd
                  (batadv_arp_ip_dst (skb_data (fw_skb forw_packet)) hdr_size) vid \<noteq> None)))"

definition batadv_dat_inc_counter :: "u8 \<Rightarrow> node \<Rightarrow> node" where
  "batadv_dat_inc_counter subtype nd =
     (if subtype = BATADV_P_DAT_DHT_GET then node_counter BATADV_CNT_DAT_GET_RX 1 nd
      else if subtype = BATADV_P_DAT_DHT_PUT then node_counter BATADV_CNT_DAT_PUT_RX 1 nd
      else nd)"

section \<open>The worker of the broadcast queue\<close>

definition batadv_forw_packet_bcasts_left :: "batadv_forw_packet \<Rightarrow> bool" where
  "batadv_forw_packet_bcasts_left forw_packet = (fw_num_bcasts forw_packet \<noteq> 0)"

definition batadv_forw_packet_bcasts_dec :: "batadv_forw_packet \<Rightarrow> batadv_forw_packet" where
  "batadv_forw_packet_bcasts_dec forw_packet =
     forw_packet\<lparr>fw_num_bcasts := fw_num_bcasts forw_packet - 1\<rparr>"

text \<open>
  The worker (\<^verbatim>\<open>batadv_send_outstanding_bcast_packet\<close>) in two parts: what it does without the
  lock, and what it does with the packet under the lock. Between the two a purge may take the
  packet.
\<close>

datatype forw_verdict = Forw_requeue | Forw_free bool

definition send_outstanding_bcast_start ::
    "node_kenv \<Rightarrow> batadv_forw_packet \<Rightarrow> node \<Rightarrow> (forw_verdict \<times> batadv_forw_packet \<times> node) kresult" where
  "send_outstanding_bcast_start k forw_packet nd =
     (if bp_mesh_state (nd_priv nd) = BATADV_MESH_DEACTIVATING then Kret (Forw_free True, forw_packet, nd)
      else
        kbind (batadv_dat_drop_broadcast_packet k forw_packet nd) (\<lambda>drop_it.
        if drop_it then Kret (Forw_free True, forw_packet, nd)
        else if \<not> nk_clone_ok k (nd_pos nd) then Kret (Forw_free False, forw_packet, nd)
        else
          (case fw_if_outgoing forw_packet of
             None \<Rightarrow> Kernel_bug
           | Some if_outgoing \<Rightarrow>
               let nd = snd (batadv_send_broadcast_skb k (fw_skb forw_packet) if_outgoing nd);
                   forw_packet = batadv_forw_packet_bcasts_dec forw_packet in
               Kret (if batadv_forw_packet_bcasts_left forw_packet then Forw_requeue else Forw_free False,
                     forw_packet, nd))))"

definition send_outstanding_bcast_finish ::
    "node_kenv \<Rightarrow> u64 \<Rightarrow> forw_verdict \<Rightarrow> batadv_forw_packet \<Rightarrow> node \<Rightarrow> node" where
  "send_outstanding_bcast_finish k send_time verdict forw_packet nd =
     (case verdict of
        Forw_requeue \<Rightarrow> batadv_forw_packet_bcast_queue k forw_packet send_time nd
      | Forw_free dropped \<Rightarrow>
          (case batadv_forw_packet_steal Bcast_queue (fw_ptr forw_packet) nd of
             (False, nd) \<Rightarrow> nd
           | (True, nd) \<Rightarrow> batadv_forw_packet_free forw_packet dropped nd))"

definition batadv_send_outstanding_bcast_packet ::
    "node_kenv \<Rightarrow> batadv_forw_packet \<Rightarrow> node \<Rightarrow> node kresult" where
  "batadv_send_outstanding_bcast_packet k forw_packet nd =
     kbind (send_outstanding_bcast_start k forw_packet
              (nd\<lparr>nd_forw_pending := remove1 (fw_ptr forw_packet) (nd_forw_pending nd)\<rparr>))
       (\<lambda>(verdict, forw_packet, nd).
          Kret (send_outstanding_bcast_finish k (jiffies k + msecs_to_jiffies k 5) verdict forw_packet nd))"

end
