(* ===== verification/Receiving.thy ===== *)
theory Receiving
  imports Dat
begin

text \<open>
  The receive path: \<^verbatim>\<open>batadv_batman_skb_recv\<close> and the table of handlers (\<^verbatim>\<open>main.c\<close>), the handlers
  of \<^verbatim>\<open>routing.c\<close> for ICMP, unicast, fragment, broadcast and multicast packets, the forwarding of
  fragments (\<^verbatim>\<open>fragmentation.c\<close>), and the delivery of a frame to the mesh interface
  (\<^verbatim>\<open>batadv_interface_rx\<close> of \<^verbatim>\<open>mesh-interface.c\<close>). The result of a handler is its return value
  and the node; \<open>Kernel_bug\<close> is a read outside the packet or a failing \<^verbatim>\<open>BUG_ON\<close>.
\<close>

section \<open>Helpers\<close>

text \<open>Overwriting bytes of a header that has been pulled.\<close>

definition put_bytes :: "nat \<Rightarrow> bytes \<Rightarrow> bytes \<Rightarrow> bytes" where
  "put_bytes off bs data = take off data @ bs @ drop (off + length bs) data"

definition skb_put_bytes :: "nat \<Rightarrow> bytes \<Rightarrow> sk_buff \<Rightarrow> sk_buff" where
  "skb_put_bytes off bs skb = skb\<lparr>skb_data := put_bytes off bs (skb_data skb)\<rparr>"

definition skb_ttl :: "sk_buff \<Rightarrow> u8" where "skb_ttl skb = skb_data skb ! 2"

definition skb_ttl_dec :: "sk_buff \<Rightarrow> sk_buff" where
  "skb_ttl_dec skb = skb\<lparr>skb_data := (skb_data skb)[2 := skb_ttl skb - 1]\<rparr>"

definition drop_skb :: "sk_buff \<Rightarrow> node \<Rightarrow> (int \<times> node) kresult" where
  "drop_skb skb nd = Kret (NET_RX_DROP, nd_emit (Kfree_skb skb) nd)"

definition nk_skb_env :: "node_kenv \<Rightarrow> nat \<Rightarrow> nat \<Rightarrow> skb_env" where
  "nk_skb_env k len pos =
     \<lparr>pull_ok = nk_pull_ok k len, cow_ok = nk_skb_cow_ok k pos, linearize_ok = nk_linearize_ok k pos\<rparr>"

definition check_unicast_ok :: "node_kenv \<Rightarrow> sk_buff \<Rightarrow> nat \<Rightarrow> node \<Rightarrow> bool" where
  "check_unicast_ok k skb hdr_size nd =
     (0 \<le> batadv_check_unicast_packet (nk_skb_env k hdr_size (nd_pos nd)) (nd_priv nd) skb hdr_size)"

definition rx_result :: "int \<times> node \<Rightarrow> int \<times> node" where
  "rx_result r = (if fst r = NET_XMIT_SUCCESS then NET_RX_SUCCESS else NET_RX_DROP, snd r)"

section \<open>Delivery to the mesh interface\<close>

definition ETH_P_BATMAN :: u16 where "ETH_P_BATMAN = 0x4305"

text \<open>\<^verbatim>\<open>skb_pull_rcsum\<close> stops the kernel when the packet is shorter than the header.\<close>

definition batadv_interface_rx ::
    "node_kenv \<Rightarrow> sk_buff \<Rightarrow> nat \<Rightarrow> mac option \<Rightarrow> node \<Rightarrow> node kresult" where
  "batadv_interface_rx k skb hdr_size orig nd =
     (if length (skb_data skb) < hdr_size \<or> skb_data skb = [] then Kernel_bug
      else
        let packet_type = skb_data skb ! 0;
            frame = drop hdr_size (skb_data skb);
            skb = skb\<lparr>h_dest := get_mac frame, h_source := get_mac (drop 6 frame), skb_data := frame\<rparr>;
            dropped = (\<lambda>nd. Kret (nd_emit (Kfree_skb skb) nd)) in
        if \<not> nk_may_pull k skb ETH_HLEN then dropped nd
        else
          kbind (batadv_get_vid (nk_may_pull k skb) frame 0) (\<lambda>vid.
          let h_proto = get_be16 (drop 12 frame) in
          if h_proto = ETH_P_8021Q \<and> \<not> nk_may_pull k skb 18 then dropped nd
          else if h_proto = ETH_P_8021Q \<and> get_be16 (drop 16 frame) = ETH_P_BATMAN then dropped nd
          else if h_proto = ETH_P_BATMAN then dropped nd
          else
            let nd = node_counter BATADV_CNT_RX_BYTES (ucast (skb_len skb))
                       (node_counter BATADV_CNT_RX 1 nd) in
            (case batadv_bla_rx (bla_kenv.truncate k) (get_mac frame) (get_mac (drop 6 frame))
                    (drop 14 frame) vid packet_type (nd_bla nd) of
               (handled, bl) \<Rightarrow>
                 let nd = nd\<lparr>nd_bla := bl\<rparr> in
                 if handled then Kret nd
                 else
                   let nd = (case (case orig of None \<Rightarrow> None
                                   | Some o1 \<Rightarrow> batadv_orig_hash_find k (nd_priv nd) o1) of
                               None \<Rightarrow> nd
                             | Some orig_node \<Rightarrow>
                                 nd_mesh_upd (\<lambda>ms. snd (batadv_tt_add_temporary_global_entry
                                   (tt_kenv.truncate k) orig_node (h_source skb) vid ms)) nd);
                       mrk = (if is_multicast_ether_addr (h_dest skb)
                                  \<and> batadv_vlan_ap_isola_get (nd_mesh nd) vid
                                  \<and> batadv_tt_global_is_isolated k (nd_mesh nd) (h_source skb) vid
                               then (nk_mark k AND NOT (ms_isolation_mark_mask (nd_mesh nd)))
                                      OR ms_isolation_mark (nd_mesh nd)
                               else nk_mark k) in
                   if \<not> is_multicast_ether_addr (h_dest skb)
                      \<and> batadv_is_ap_isolated k (nd_mesh nd) (h_source skb) (h_dest skb) vid
                   then dropped nd
                   else Kret (nd_emit (Netif_rx skb mrk) nd))))"

section \<open>ICMP\<close>

definition ICMP_HLEN :: nat where "ICMP_HLEN = 20"
definition ICMP_RR_LEN :: nat where "ICMP_RR_LEN = 116"
definition BATADV_RR_LEN :: nat where "BATADV_RR_LEN = 16"

text \<open>Answering the sender: the packet goes back with a new type and a new time to live.\<close>

definition icmp_answer :: "u8 \<Rightarrow> mac \<Rightarrow> sk_buff \<Rightarrow> sk_buff" where
  "icmp_answer msg_type dev_addr skb =
     (let data = skb_data skb in
      skb\<lparr>skb_data := take 2 data @ [BATADV_TTL, msg_type] @ mac_bytes (get_mac (drop 10 data))
            @ mac_bytes dev_addr @ drop 16 data\<rparr>)"

definition icmp_reply :: "node_kenv \<Rightarrow> u8 \<Rightarrow> sk_buff \<Rightarrow> node \<Rightarrow> (int \<times> node) kresult" where
  "icmp_reply k msg_type skb nd =
     (case batadv_primary_if_get_selected (nd_priv nd) of
        None \<Rightarrow> drop_skb skb nd
      | Some primary_if \<Rightarrow>
          let orig = get_mac (drop 10 (skb_data skb)) in
          if batadv_orig_hash_find k (nd_priv nd) orig = None then drop_skb skb nd
          else if \<not> nk_skb_cow_ok k (nd_pos nd) then drop_skb skb nd
          else Kret (rx_result (batadv_send_skb_to_orig k
                 (icmp_answer msg_type (hi_dev_addr primary_if) skb) orig BATADV_IF_DEFAULT nd)))"

definition batadv_recv_my_icmp_packet :: "node_kenv \<Rightarrow> sk_buff \<Rightarrow> node \<Rightarrow> (int \<times> node) kresult" where
  "batadv_recv_my_icmp_packet k skb nd =
     (let msg_type = skb_data skb ! 3 in
      if msg_type = BATADV_ECHO_REQUEST then icmp_reply k BATADV_ECHO_REPLY skb nd
      else if msg_type = BATADV_TP then
        if \<not> nk_may_pull k skb 28 then drop_skb skb nd
        else Kret (NET_RX_SUCCESS, nd_emit (Tp_meter_recv skb) nd)
      else drop_skb skb nd)"

definition batadv_recv_icmp_ttl_exceeded :: "node_kenv \<Rightarrow> sk_buff \<Rightarrow> node \<Rightarrow> (int \<times> node) kresult" where
  "batadv_recv_icmp_ttl_exceeded k skb nd =
     (if skb_data skb ! 3 \<noteq> BATADV_ECHO_REQUEST then drop_skb skb nd
      else icmp_reply k BATADV_TTL_EXCEEDED skb nd)"

text \<open>Recording the route: the address of the receiving interface goes to the next free slot.\<close>

definition icmp_record_route :: "node_kenv \<Rightarrow> sk_buff \<Rightarrow> node \<Rightarrow> sk_buff option" where
  "icmp_record_route k skb nd =
     (let data = skb_data skb in
      if (data ! 3 = BATADV_ECHO_REPLY \<or> data ! 3 = BATADV_ECHO_REQUEST) \<and> ICMP_RR_LEN \<le> length data
      then
        if \<not> nk_linearize_ok k (nd_pos nd) then None
        else if \<not> nk_skb_cow_ok k (nd_pos nd) then None
        else
          let rr_cur = unat (data ! 17) in
          if BATADV_RR_LEN \<le> rr_cur then None
          else Some (skb\<lparr>skb_data :=
                 (put_bytes (20 + 6 * rr_cur) (mac_bytes (h_dest skb)) data)[17 := data ! 17 + 1]\<rparr>)
      else Some skb)"

definition batadv_recv_icmp_packet ::
    "node_kenv \<Rightarrow> sk_buff \<Rightarrow> ifindex \<Rightarrow> node \<Rightarrow> (int \<times> node) kresult" where
  "batadv_recv_icmp_packet k skb recv_if nd =
     (if \<not> nk_may_pull k skb ICMP_HLEN then drop_skb skb nd
      else if \<not> is_valid_ether_addr (h_dest skb) then drop_skb skb nd
      else if is_multicast_ether_addr (h_source skb) then drop_skb skb nd
      else if \<not> batadv_is_my_mac (nd_priv nd) (h_dest skb) then drop_skb skb nd
      else
        (case icmp_record_route k skb nd of
           None \<Rightarrow> drop_skb skb nd
         | Some skb \<Rightarrow>
             let dst = get_mac (drop 4 (skb_data skb)) in
             if batadv_is_my_mac (nd_priv nd) dst then batadv_recv_my_icmp_packet k skb nd
             else if skb_ttl skb < 2 then batadv_recv_icmp_ttl_exceeded k skb nd
             else if batadv_orig_hash_find k (nd_priv nd) dst = None then drop_skb skb nd
             else if \<not> nk_skb_cow_ok k (nd_pos nd) then drop_skb skb nd
             else Kret (rx_result (batadv_send_skb_to_orig k (skb_ttl_dec skb) dst (Some recv_if) nd))))"

section \<open>Unicast\<close>

definition batadv_route_unicast_packet ::
    "node_kenv \<Rightarrow> sk_buff \<Rightarrow> ifindex \<Rightarrow> node \<Rightarrow> (int \<times> node) kresult" where
  "batadv_route_unicast_packet k skb recv_if nd =
     (let dest = uc_dest (get_unicast_packet (skb_data skb)) in
      if skb_ttl skb < 2 then drop_skb skb nd
      else if batadv_orig_hash_find k (nd_priv nd) dest = None then drop_skb skb nd
      else if \<not> nk_skb_cow_ok k (nd_pos nd) then drop_skb skb nd
      else
        let skb = skb_ttl_dec skb;
            packet_type = skb_data skb ! 0;
            skb = (if packet_type = BATADV_UNICAST_4ADDR then batadv_skb_set_priority 18 skb
                   else if packet_type = BATADV_UNICAST then batadv_skb_set_priority 10 skb
                   else skb) in
        (case batadv_send_skb_to_orig k skb dest (Some recv_if) nd of
           (res, nd) \<Rightarrow>
             if res = NET_XMIT_SUCCESS
             then Kret (NET_RX_SUCCESS,
                    node_counter BATADV_CNT_FORWARD_BYTES (ucast (skb_len skb) + of_nat ETH_HLEN)
                      (node_counter BATADV_CNT_FORWARD 1 nd))
             else Kret (NET_RX_DROP, nd)))"

text \<open>The packet with a new mesh destination and its TTVN, or \<open>None\<close> when there is none.\<close>

definition unicast_redirect :: "mac \<Rightarrow> u8 \<Rightarrow> sk_buff \<Rightarrow> sk_buff" where
  "unicast_redirect dest ttvn skb = skb_put_bytes 3 (ttvn # mac_bytes dest) skb"

definition batadv_reroute_unicast_packet ::
    "node_kenv \<Rightarrow> node \<Rightarrow> sk_buff \<Rightarrow> mac \<Rightarrow> u16 \<Rightarrow> sk_buff option" where
  "batadv_reroute_unicast_packet k nd skb dst_addr vid =
     (if batadv_is_my_client k (nd_mesh nd) dst_addr vid then
        (case batadv_primary_if_get_selected (nd_priv nd) of
           None \<Rightarrow> None
         | Some primary_if \<Rightarrow>
             Some (unicast_redirect (hi_dev_addr primary_if) (ucast (tt_vn (nd_mesh nd))) skb))
      else
        (case (case batadv_transtable_search k (nk_tt_cmp k) (nd_mesh nd) None dst_addr vid of
                 None \<Rightarrow> None | Some o1 \<Rightarrow> batadv_orig_hash_find k (nd_priv nd) o1) of
           None \<Rightarrow> None
         | Some orig_node \<Rightarrow>
             if batadv_compare_eth (on_orig orig_node) (uc_dest (get_unicast_packet (skb_data skb))) then None
             else Some (unicast_redirect (on_orig orig_node) (ucast (on_last_ttvn orig_node)) skb)))"

text \<open>Whether the packet may go on, and the packet with the destination it goes to.\<close>

definition batadv_check_unicast_ttvn ::
    "node_kenv \<Rightarrow> sk_buff \<Rightarrow> nat \<Rightarrow> node \<Rightarrow> sk_buff option kresult" where
  "batadv_check_unicast_ttvn k skb hdr_len nd =
     (if \<not> nk_may_pull k skb (hdr_len + ETH_HLEN) then Kret None
      else if \<not> nk_skb_cow_ok k (nd_pos nd) then Kret None
      else
        kbind (batadv_get_vid (nk_may_pull k skb) (skb_data skb) hdr_len) (\<lambda>vid.
        let unicast_packet = get_unicast_packet (skb_data skb);
            dst = get_mac (drop hdr_len (skb_data skb)) in
        if is_multicast_ether_addr dst then Kret (Some skb)
        else if batadv_tt_local_client_is_roaming k (nd_mesh nd) dst vid then
          Kret (Some (case batadv_reroute_unicast_packet k nd skb dst vid of None \<Rightarrow> skb | Some s \<Rightarrow> s))
        else
          (case (if batadv_is_my_mac (nd_priv nd) (uc_dest unicast_packet)
                 then Some (ucast (tt_vn (nd_mesh nd)))
                 else map_option (\<lambda>o1. ucast (on_last_ttvn o1))
                        (batadv_orig_hash_find k (nd_priv nd) (uc_dest unicast_packet))) of
             None \<Rightarrow> Kret None
           | Some curr_ttvn \<Rightarrow>
               if \<not> batadv_seq_before (uc_ttvn unicast_packet) (curr_ttvn :: u8) then Kret (Some skb)
               else
                 (case batadv_reroute_unicast_packet k nd skb dst vid of
                    Some s \<Rightarrow> Kret (Some s)
                  | None \<Rightarrow>
                      if \<not> batadv_is_my_client k (nd_mesh nd) dst vid then Kret None
                      else (case batadv_primary_if_get_selected (nd_priv nd) of
                              None \<Rightarrow> Kret None
                            | Some primary_if \<Rightarrow>
                                Kret (Some (unicast_redirect (hi_dev_addr primary_if) curr_ttvn skb)))))))"

definition batadv_recv_unhandled_unicast_packet ::
    "node_kenv \<Rightarrow> sk_buff \<Rightarrow> ifindex \<Rightarrow> node \<Rightarrow> (int \<times> node) kresult" where
  "batadv_recv_unhandled_unicast_packet k skb recv_if nd =
     (if \<not> check_unicast_ok k skb 10 nd then drop_skb skb nd
      else if batadv_is_my_mac (nd_priv nd) (uc_dest (get_unicast_packet (skb_data skb)))
      then drop_skb skb nd
      else batadv_route_unicast_packet k skb recv_if nd)"

text \<open>What happens to a client's frame that has reached its node.\<close>

definition recv_deliver ::
    "node_kenv \<Rightarrow> sk_buff \<Rightarrow> nat \<Rightarrow> mac option \<Rightarrow> node \<Rightarrow> (int \<times> node) kresult" where
  "recv_deliver k skb hdr_size orig nd =
     kbind (batadv_dat_snoop_incoming_arp_request k skb hdr_size nd) (\<lambda>(handled, nd).
     if handled then Kret (NET_RX_SUCCESS, nd)
     else kbind (batadv_dat_snoop_incoming_arp_reply k skb hdr_size nd) (\<lambda>(handled, nd).
     if handled then Kret (NET_RX_SUCCESS, nd)
     else kbind (batadv_dat_snoop_incoming_dhcp_ack k skb hdr_size nd) (\<lambda>nd.
       kbind (batadv_interface_rx k skb hdr_size orig nd) (\<lambda>nd. Kret (NET_RX_SUCCESS, nd)))))"

definition batadv_recv_unicast_packet ::
    "node_kenv \<Rightarrow> sk_buff \<Rightarrow> ifindex \<Rightarrow> node \<Rightarrow> (int \<times> node) kresult" where
  "batadv_recv_unicast_packet k skb recv_if nd =
     (if skb_data skb = [] then Kernel_bug
      else
        let is4addr = (skb_data skb ! 0 = BATADV_UNICAST_4ADDR);
            hdr_size = (if is4addr then 18 else 10) in
        if \<not> check_unicast_ok k skb hdr_size nd then drop_skb skb nd
        else
          kbind (batadv_check_unicast_ttvn k skb hdr_size nd) (\<lambda>r. case r of
            None \<Rightarrow> drop_skb skb nd
          | Some skb \<Rightarrow>
              if batadv_is_my_mac (nd_priv nd) (uc_dest (get_unicast_packet (skb_data skb))) then
                kbind (if batadv_orig_hash_find k (nd_priv nd) (h_source skb) = None then Kret False
                       else batadv_bla_is_backbone_gw k (nk_may_pull k skb) (skb_data skb) (h_source skb)
                              hdr_size (nd_bla nd)) (\<lambda>is_gw.
                if is_gw then drop_skb skb nd
                else
                  let p = get_unicast_4addr (skb_data skb);
                      nd = (if is4addr then batadv_dat_inc_counter (u4_subtype p) nd else nd);
                      orig = (if is4addr \<and> u4_subtype p = BATADV_P_DATA then Some (u4_src p) else None) in
                  recv_deliver k skb hdr_size orig nd)
              else batadv_route_unicast_packet k skb recv_if nd))"

text \<open>
  The handlers of TVLV containers work on the node; one that stops the kernel makes the whole
  result \<open>Kernel_bug\<close>.
\<close>

type_synonym node_handlers = "(mac, node kresult) batadv_tvlv_handler list"

definition batadv_recv_unicast_tvlv ::
    "node_kenv \<Rightarrow> node_handlers \<Rightarrow> sk_buff \<Rightarrow> ifindex \<Rightarrow> node \<Rightarrow> (int \<times> node) kresult" where
  "batadv_recv_unicast_tvlv k hs skb recv_if nd =
     (if \<not> check_unicast_ok k skb 20 nd then drop_skb skb nd
      else if \<not> nk_skb_cow_ok k (nd_pos nd) then drop_skb skb nd
      else if \<not> nk_linearize_ok k (nd_pos nd) then drop_skb skb nd
      else
        let tvlv_buff = drop 20 (skb_data skb);
            tvlv_buff_len = utvlv_tvlv_len (get_unicast_tvlv_packet (skb_data skb)) in
        if length tvlv_buff < unat tvlv_buff_len then drop_skb skb nd
        else
          (case batadv_tvlv_containers_process BATADV_UNICAST_TVLV None (Some skb) 20 tvlv_buff
                  tvlv_buff_len hs (Kret nd) of
             (ret, _, st) \<Rightarrow>
               kbind st (\<lambda>nd.
                 if ret \<noteq> NET_RX_SUCCESS then batadv_route_unicast_packet k skb recv_if nd
                 else Kret (ret, nd_emit (Kfree_skb skb) nd))))"

section \<open>Broadcast and multicast\<close>

definition batadv_recv_bcast_packet ::
    "node_kenv \<Rightarrow> sk_buff \<Rightarrow> ifindex \<Rightarrow> node \<Rightarrow> (int \<times> node) kresult" where
  "batadv_recv_bcast_packet k skb recv_if nd =
     (if \<not> nk_may_pull k skb 14 then drop_skb skb nd
      else if \<not> is_broadcast_ether_addr (h_dest skb) then drop_skb skb nd
      else if is_multicast_ether_addr (h_source skb) then drop_skb skb nd
      else if batadv_is_my_mac (nd_priv nd) (h_source skb) then drop_skb skb nd
      else
        let p = get_bcast_packet (skb_data skb) in
        if batadv_is_my_mac (nd_priv nd) (bcast_orig p) then drop_skb skb nd
        else if skb_ttl skb < 2 then drop_skb (skb_ttl_dec skb) nd
        else
          let skb = skb_ttl_dec skb in
          (case batadv_orig_hash_find k (nd_priv nd) (bcast_orig p) of
             None \<Rightarrow> drop_skb skb nd
           | Some orig_node \<Rightarrow>
               (case bcast_seqno_accept k orig_node (bcast_seqno p) of
                  (new, orig_node') \<Rightarrow>
                    let nd = nd_priv_upd (orig_upd k (bcast_orig p) (\<lambda>_. orig_node')) nd in
                    if \<not> new then drop_skb skb nd
                    else
                      (case batadv_bla_check_bcast_duplist (bla_kenv.truncate k) (skb_data skb) (nd_bla nd) of
                         (dup, bl) \<Rightarrow>
                           let nd = nd\<lparr>nd_bla := bl\<rparr> in
                           if dup then drop_skb skb nd
                           else
                             let skb = batadv_skb_set_priority 14 skb in
                             (case batadv_forw_bcast_packet k skb 0 False nd of
                                (ret, nd) \<Rightarrow>
                                  if ret = NETDEV_TX_BUSY then drop_skb skb nd
                                  else
                                    kbind (batadv_bla_is_backbone_gw k (nk_may_pull k skb) (skb_data skb)
                                             (bcast_orig p) 14 (nd_bla nd)) (\<lambda>is_gw.
                                    if is_gw then drop_skb skb nd
                                    else recv_deliver k skb 14 (Some (bcast_orig p)) nd))))))"

record batadv_mcast_packet =
  mc_packet_type :: u8
  mc_version :: u8
  mc_ttl :: u8
  mc_reserved :: u8
  mc_tvlv_len :: u16

definition mcast_packet_bytes :: "batadv_mcast_packet \<Rightarrow> bytes" where
  "mcast_packet_bytes p = [mc_packet_type p, mc_version p, mc_ttl p, mc_reserved p] @ be16 (mc_tvlv_len p)"

definition get_mcast_packet :: "bytes \<Rightarrow> batadv_mcast_packet" where
  "get_mcast_packet bs =
     \<lparr>mc_packet_type = bs ! 0, mc_version = bs ! 1, mc_ttl = bs ! 2, mc_reserved = bs ! 3,
      mc_tvlv_len = get_be16 (drop 4 bs)\<rparr>"

interpretation mcast_fmt: wire_format mcast_packet_bytes get_mcast_packet 6
  by unfold_locales (simp_all add: mcast_packet_bytes_def get_mcast_packet_def drop_Cons' nth_Cons')

definition batadv_recv_mcast_packet ::
    "node_kenv \<Rightarrow> node_handlers \<Rightarrow> sk_buff \<Rightarrow> node \<Rightarrow> (int \<times> node) kresult" where
  "batadv_recv_mcast_packet k hs skb nd =
     (if \<not> check_unicast_ok k skb 6 nd then drop_skb skb nd
      else if \<not> nk_skb_cow_ok k (nd_pos nd) then drop_skb skb nd
      else if \<not> nk_linearize_ok k (nd_pos nd) then drop_skb skb nd
      else if skb_ttl skb < 2 then drop_skb (skb_ttl_dec skb) nd
      else
        let skb = skb_ttl_dec skb;
            tvlv_buff = drop 6 (skb_data skb);
            tvlv_buff_len = mc_tvlv_len (get_mcast_packet (skb_data skb)) in
        if length tvlv_buff < unat tvlv_buff_len then drop_skb skb nd
        else
          (case batadv_tvlv_containers_process BATADV_MCAST None (Some skb) 6 tvlv_buff
                  tvlv_buff_len hs (Kret nd) of
             (ret, _, st) \<Rightarrow>
               kbind st (\<lambda>nd.
                 let nd = (if 0 \<le> ret
                           then node_counter BATADV_CNT_MCAST_RX_BYTES
                                  (ucast (skb_len skb) + of_nat ETH_HLEN)
                                  (node_counter BATADV_CNT_MCAST_RX 1 nd)
                           else nd);
                     hdr_size = 6 + unat tvlv_buff_len in
                 if ret = NET_RX_SUCCESS \<and> ETH_HLEN \<le> length (skb_data skb) - hdr_size then
                   let nd = node_counter BATADV_CNT_MCAST_RX_LOCAL_BYTES
                              (of_nat (length (skb_data skb) - hdr_size))
                              (node_counter BATADV_CNT_MCAST_RX_LOCAL 1 nd) in
                   kbind (batadv_interface_rx k skb hdr_size None nd) (\<lambda>nd. Kret (ret, nd))
                 else Kret (ret, nd_emit (Kfree_skb skb) nd))))"

section \<open>Fragments\<close>

definition batadv_orig_to_router ::
    "node_kenv \<Rightarrow> mac \<Rightarrow> ifref \<Rightarrow> node \<Rightarrow> batadv_neigh_node option \<times> node" where
  "batadv_orig_to_router k orig_addr if_outgoing nd =
     (case batadv_orig_hash_find k (nd_priv nd) orig_addr of
        None \<Rightarrow> (None, nd)
      | Some orig_node \<Rightarrow>
          (case batadv_find_router (nk_sob k) (bp_bonding (nd_priv nd)) orig_node if_outgoing of
             (router, orig_node) \<Rightarrow>
               ((case router of None \<Rightarrow> None | Some p \<Rightarrow> neigh_deref orig_node p),
                nd_priv_upd (orig_upd k orig_addr (\<lambda>_. orig_node)) nd)))"

text \<open>The next hop's interface is that of a live neighbour object; its MTU is 0 when it is gone.\<close>

definition batadv_frag_skb_fwd :: "node_kenv \<Rightarrow> sk_buff \<Rightarrow> ifindex \<Rightarrow> node \<Rightarrow> bool \<times> node" where
  "batadv_frag_skb_fwd k skb recv_if nd =
     (let packet = get_frag_packet (skb_data skb) in
      case batadv_orig_to_router k (frag_dest packet) (Some recv_if) nd of
        (None, nd) \<Rightarrow> (False, nd)
      | (Some neigh_node, nd) \<Rightarrow>
          let mtu = (case hard_iface_get (nd_priv nd) (nn_if_incoming neigh_node) of
                       None \<Rightarrow> 0 | Some h \<Rightarrow> unat (hi_mtu h)) in
          if mtu < unat (frag_total_size packet) then
            (True,
             snd (batadv_send_unicast_skb k (skb_ttl_dec skb) neigh_node
                    (node_counter BATADV_CNT_FRAG_FWD_BYTES (ucast (skb_len skb) + of_nat ETH_HLEN)
                       (node_counter BATADV_CNT_FRAG_FWD 1 nd))))
          else (False, nd))"

text \<open>
  What a fragment does to the node: it is forwarded, dropped, buffered, or it completes a
  packet, which is handed back to the receive path.
\<close>

definition recv_frag ::
    "node_kenv \<Rightarrow> sk_buff \<Rightarrow> ifindex \<Rightarrow> node \<Rightarrow> (int \<times> node \<times> sk_buff option) kresult" where
  "recv_frag k skb recv_if nd =
     (let dropped = (\<lambda>nd. Kret (NET_RX_DROP, nd_emit (Kfree_skb skb) nd, None)) in
      if \<not> check_unicast_ok k skb 20 nd then dropped nd
      else
        let frag_packet = get_frag_packet (skb_data skb) in
        if batadv_orig_hash_find k (nd_priv nd) (frag_orig frag_packet) = None then dropped nd
        else
          let skb = skb\<lparr>skb_priority := ucast (frag_priority frag_packet) + 256\<rparr> in
          (case (if batadv_is_my_mac (nd_priv nd) (frag_dest frag_packet) then (False, nd)
                 else batadv_frag_skb_fwd k skb recv_if nd) of
             (True, nd) \<Rightarrow> Kret (NET_RX_SUCCESS, nd, None)
           | (False, nd) \<Rightarrow>
               let nd = nd_emit (Frag_buffer skb)
                          (node_counter BATADV_CNT_FRAG_RX_BYTES (ucast (skb_len skb))
                             (node_counter BATADV_CNT_FRAG_RX 1 nd)) in
               (case batadv_orig_hash_find k (nd_priv nd) (frag_orig frag_packet) of
                  None \<Rightarrow> Kret (NET_RX_DROP, nd, None)
                | Some orig_node_src \<Rightarrow>
                    kbind (batadv_frag_skb_buffer ((nk_frag_rx k (nd_pos nd))\<lparr>rx_now := jiffies k\<rparr>)
                             (on_fragments orig_node_src) skb) (\<lambda>(fragments, merged, ok).
                      let nd = nd_priv_upd (orig_upd k (frag_orig frag_packet)
                                 (\<lambda>o1. o1\<lparr>on_fragments := fragments\<rparr>)) nd in
                      Kret (if ok then NET_RX_SUCCESS else NET_RX_DROP, nd, merged)))))"

section \<open>The table of handlers\<close>

definition BATADV_UNICAST_MIN :: u8 where "BATADV_UNICAST_MIN = 0x40"
definition BATADV_UNICAST_MAX :: u8 where "BATADV_UNICAST_MAX = 0x7f"
definition EBUSY :: int where "EBUSY = 16"

definition batadv_recv_handler_init :: "u8 \<Rightarrow> rx_handler" where
  "batadv_recv_handler_init =
     (\<lambda>i. if BATADV_UNICAST_MIN \<le> i \<and> i \<le> BATADV_UNICAST_MAX then Rx_unhandled_unicast else Rx_unhandled)
       (BATADV_BCAST := Rx_bcast, BATADV_MCAST := Rx_mcast, BATADV_UNICAST_4ADDR := Rx_unicast,
        BATADV_UNICAST := Rx_unicast, BATADV_UNICAST_TVLV := Rx_unicast_tvlv,
        BATADV_ICMP := Rx_icmp, BATADV_UNICAST_FRAG := Rx_frag)"

definition batadv_recv_handler_register ::
    "u8 \<Rightarrow> rx_handler \<Rightarrow> (u8 \<Rightarrow> rx_handler) \<Rightarrow> int \<times> (u8 \<Rightarrow> rx_handler)" where
  "batadv_recv_handler_register packet_type recv_handler handlers =
     (if handlers packet_type \<noteq> Rx_unhandled \<and> handlers packet_type \<noteq> Rx_unhandled_unicast
      then (- EBUSY, handlers)
      else (0, handlers(packet_type := recv_handler)))"

definition batadv_recv_handler_unregister :: "u8 \<Rightarrow> (u8 \<Rightarrow> rx_handler) \<Rightarrow> (u8 \<Rightarrow> rx_handler)" where
  "batadv_recv_handler_unregister packet_type handlers = handlers(packet_type := Rx_unhandled)"

definition batadv_recv_unhandled_packet :: "sk_buff \<Rightarrow> node \<Rightarrow> (int \<times> node) kresult" where
  "batadv_recv_unhandled_packet skb nd = drop_skb skb nd"

section \<open>Receiving a packet\<close>

text \<open>\<open>algo\<close> is the handler of the routing algorithm for the type of the packet.\<close>

type_synonym algo_recv = "sk_buff \<Rightarrow> ifindex \<Rightarrow> node \<Rightarrow> (int \<times> node) kresult"

text \<open>
  The checks in front of the dispatch: the packet is private to this call, holds a type and a
  version, has an Ethernet header (\<open>nk_mac_header_ok\<close>: \<^verbatim>\<open>mac_len\<close> is that of
  Ethernet and the MAC header is set), and comes from an active interface of an active mesh.
\<close>

definition recv_acceptable :: "node_kenv \<Rightarrow> sk_buff \<Rightarrow> ifindex \<Rightarrow> node \<Rightarrow> bool" where
  "recv_acceptable k skb hard_iface nd =
     (if \<not> nk_may_pull k skb 2 then False
      else if \<not> nk_mac_header_ok k (nd_pos nd) then False
      else (case hard_iface_get (nd_priv nd) hard_iface of
              None \<Rightarrow> False
            | Some h \<Rightarrow>
                if bp_mesh_state (nd_priv nd) \<noteq> BATADV_MESH_ACTIVE then False
                else if hi_if_status h \<noteq> BATADV_IF_ACTIVE then False
                else skb_data skb ! 1 = BATADV_COMPAT_VERSION))"

definition rx_dispatch ::
    "node_kenv \<Rightarrow> node_handlers \<Rightarrow> algo_recv \<Rightarrow> sk_buff \<Rightarrow> ifindex \<Rightarrow> node
      \<Rightarrow> (int \<times> node \<times> sk_buff option) kresult" where
  "rx_dispatch k hs algo skb recv_if nd =
     (let simple = (\<lambda>r. kbind r (\<lambda>(ret, nd). Kret (ret, nd, None))) in
      case nd_rx_handler nd (skb_data skb ! 0) of
        Rx_unhandled \<Rightarrow> simple (batadv_recv_unhandled_packet skb nd)
      | Rx_unhandled_unicast \<Rightarrow> simple (batadv_recv_unhandled_unicast_packet k skb recv_if nd)
      | Rx_bcast \<Rightarrow> simple (batadv_recv_bcast_packet k skb recv_if nd)
      | Rx_mcast \<Rightarrow> simple (batadv_recv_mcast_packet k hs skb nd)
      | Rx_unicast \<Rightarrow> simple (batadv_recv_unicast_packet k skb recv_if nd)
      | Rx_unicast_tvlv \<Rightarrow> simple (batadv_recv_unicast_tvlv k hs skb recv_if nd)
      | Rx_icmp \<Rightarrow> simple (batadv_recv_icmp_packet k skb recv_if nd)
      | Rx_frag \<Rightarrow> recv_frag k skb recv_if nd
      | Rx_algo \<Rightarrow> simple (algo skb recv_if nd))"

text \<open>
  A fragment that completes a packet calls \<^verbatim>\<open>batadv_batman_skb_recv\<close> again, which is a recursive
  call: \<open>fuel\<close> is the depth of the stack, and the result is \<open>None\<close> when it does not suffice.
\<close>

fun batadv_batman_skb_recv ::
    "nat \<Rightarrow> node_kenv \<Rightarrow> node_handlers \<Rightarrow> algo_recv \<Rightarrow> sk_buff \<Rightarrow> ifindex \<Rightarrow> node
      \<Rightarrow> (int \<times> node) kresult option" where
  "batadv_batman_skb_recv 0 k hs algo skb hard_iface nd = None"
| "batadv_batman_skb_recv (Suc fuel) k hs algo skb hard_iface nd =
     (if \<not> nk_clone_ok k (nd_pos nd) \<or> \<not> recv_acceptable k skb hard_iface nd
      then Some (Kret (NET_RX_DROP, nd_emit (Kfree_skb skb) nd))
      else
        (case rx_dispatch k hs algo skb hard_iface nd of
           Kernel_bug \<Rightarrow> Some Kernel_bug
         | Kret (_, nd, None) \<Rightarrow> Some (Kret (NET_RX_SUCCESS, nd))
         | Kret (_, nd, Some merged) \<Rightarrow>
             map_option (\<lambda>r. kbind r (\<lambda>(_, nd). Kret (NET_RX_SUCCESS, nd)))
               (batadv_batman_skb_recv fuel k hs algo merged hard_iface nd)))"

end
