(* ===== verification/Forw_Queue.thy ===== *)
theory Forw_Queue
  imports Receiving Bla_Accounting
begin

text \<open>
  The queue of delayed broadcasts as a concurrent system: packets are queued by the send and
  receive paths, timers fire, a worker runs in two steps, and purges take packets and free
  them once their worker is done. In every reachable state the limit of the queue plus the
  packets that count against it is constant, a timer or a worker never refers to a freed
  packet, and no waiting packet is without both.
\<close>

section \<open>What the operations do to the queue\<close>

definition qstate ::
    "node \<Rightarrow> batadv_forw_packet list \<times> batadv_forw_packet list \<times> batadv_forw_packet list \<times> nat list \<times> int \<times> int" where
  "qstate nd = (nd_forw_bcast_list nd, nd_forw_bat_list nd, nd_forw_stolen nd, nd_forw_pending nd,
     nd_bcast_queue_left nd, nd_batman_queue_left nd)"

definition forw_alloc :: "node \<Rightarrow> batadv_forw_packet list" where
  "forw_alloc nd = nd_forw_bcast_list nd @ nd_forw_bat_list nd @ nd_forw_stolen nd"

definition ptrs :: "batadv_forw_packet list \<Rightarrow> nat set" where
  "ptrs l = fw_ptr ` set l"

definition dptrs :: "batadv_forw_packet list \<Rightarrow> bool" where
  "dptrs l = distinct (map fw_ptr l)"

definition forw_ptrs :: "node \<Rightarrow> nat set" where
  "forw_ptrs nd = ptrs (forw_alloc nd)"

lemma ptrs_simps [simp]:
  "ptrs [] = {}" "ptrs (f # l) = insert (fw_ptr f) (ptrs l)" "ptrs (l @ m) = ptrs l \<union> ptrs m"
  "ptrs (rev l) = ptrs l"
  by (auto simp: ptrs_def)

lemma dptrs_simps [simp]:
  "dptrs []" "dptrs (f # l) \<longleftrightarrow> fw_ptr f \<notin> ptrs l \<and> dptrs l"
  "dptrs (l @ m) \<longleftrightarrow> dptrs l \<and> dptrs m \<and> ptrs l \<inter> ptrs m = {}"
  by (auto simp: dptrs_def ptrs_def)

lemma in_ptrs: "f \<in> set l \<Longrightarrow> fw_ptr f \<in> ptrs l"
  by (simp add: ptrs_def)

definition counted :: "forw_queue \<Rightarrow> batadv_forw_packet list \<Rightarrow> int" where
  "counted q l = int (length (filter (\<lambda>f. fw_queue_left f = Some q) l))"

lemma counted_simps [simp]:
  "counted q [] = 0"
  "counted q (f # l) = (if fw_queue_left f = Some q then 1 else 0) + counted q l"
  "counted q (l @ m) = counted q l + counted q m"
  "counted q (rev l) = counted q l"
  by (simp_all add: counted_def rev_filter [symmetric])

lemma counted_partition: "counted q (filter P l) + counted q (filter (\<lambda>x. \<not> P x) l) = counted q l"
  by (induction l) auto

lemma counted_del_first:
  "find P l = Some f \<Longrightarrow>
     counted q (hlist_del_first P l) = counted q l - (if fw_queue_left f = Some q then 1 else 0)"
  by (induction l) (auto split: if_splits)

lemma qstate_keeps [simp]:
  "qstate (nd_emit e nd) = qstate nd"
  "qstate (nd_priv_upd f nd) = qstate nd"
  "qstate (nd_mesh_upd g nd) = qstate nd"
  by (simp_all add: qstate_def nd_emit_def nd_priv_upd_def nd_mesh_upd_def)

lemma nd_pos_emit [simp]: "nd_pos (nd_emit e nd) = Suc (nd_pos nd)"
  by (simp add: nd_pos_def nd_emit_def)

lemma nd_pos_upd [simp]:
  "nd_pos (nd_priv_upd f nd) = nd_pos nd"
  "nd_pos (nd_mesh_upd g nd) = nd_pos nd"
  by (simp_all add: nd_pos_def nd_priv_upd_def nd_mesh_upd_def)

lemma qstate_send_skb_packet [simp]: "qstate (snd (batadv_send_skb_packet k skb i dst nd)) = qstate nd"
  by (simp add: batadv_send_skb_packet_def split: option.split)

lemma qstate_send_broadcast [simp]: "qstate (snd (batadv_send_broadcast_skb k skb i nd)) = qstate nd"
  by (simp add: batadv_send_broadcast_skb_def)

lemma nd_pos_send_skb_packet [simp]:
  "nd_pos (snd (batadv_send_skb_packet k skb i dst nd)) = Suc (nd_pos nd)"
  by (simp add: batadv_send_skb_packet_def split: option.split)

lemma nd_pos_send_broadcast [simp]: "nd_pos (snd (batadv_send_broadcast_skb k skb i nd)) = Suc (nd_pos nd)"
  by (simp add: batadv_send_broadcast_skb_def)

lemma qstate_queue_left_add:
  "nd_forw_bcast_list (queue_left_add q n nd) = nd_forw_bcast_list nd"
  "nd_forw_bat_list (queue_left_add q n nd) = nd_forw_bat_list nd"
  "nd_forw_stolen (queue_left_add q n nd) = nd_forw_stolen nd"
  "nd_forw_pending (queue_left_add q n nd) = nd_forw_pending nd"
  "queue_left q' (queue_left_add q n nd) = queue_left q' nd + (if q' = q then n else 0)"
  "nd_pos (queue_left_add q n nd) = nd_pos nd"
  by (cases q; cases q'; simp add: queue_left_add_def queue_left_def nd_pos_def)+

section \<open>The system\<close>

record forw_sys =
  fs_node :: node
  fs_running :: "(forw_verdict \<times> batadv_forw_packet) list"

definition worker_ptrs :: "(forw_verdict \<times> batadv_forw_packet) list \<Rightarrow> nat set" where
  "worker_ptrs r = (fw_ptr \<circ> snd) ` set r"

text \<open>The allocator does not hand out the address of a packet that is still in use.\<close>

definition forw_fresh :: "node_kenv \<Rightarrow> node \<Rightarrow> bool" where
  "forw_fresh k nd \<longleftrightarrow>
     (\<forall>n p. nd_pos nd \<le> n \<and> nk_forw_ptr k n = Some p \<longrightarrow> p \<notin> forw_ptrs nd)
   \<and> (\<forall>m n p. nk_forw_ptr k m = Some p \<and> nk_forw_ptr k n = Some p \<longrightarrow> m = n)"

inductive forw_step :: "forw_sys \<Rightarrow> forw_sys \<Rightarrow> bool" where
  fs_broadcast:
    "forw_fresh k (fs_node s) \<Longrightarrow>
     forw_step s (s\<lparr>fs_node := snd (batadv_forw_bcast_packet k skb delay own (fs_node s))\<rparr>)"
| fs_start:
    "fw_ptr f \<in> set (nd_forw_pending (fs_node s)) \<Longrightarrow>
     f \<in> set (nd_forw_bcast_list (fs_node s) @ nd_forw_stolen (fs_node s)) \<Longrightarrow>
     fw_queue_left f = Some Bcast_queue \<Longrightarrow>
     send_outstanding_bcast_start k f
       ((fs_node s)\<lparr>nd_forw_pending := remove1 (fw_ptr f) (nd_forw_pending (fs_node s))\<rparr>) =
       Kret (v, f', nd') \<Longrightarrow>
     forw_step s \<lparr>fs_node = nd', fs_running = (v, f') # fs_running s\<rparr>"
| fs_finish:
    "(v, f) \<in> set (fs_running s) \<Longrightarrow>
     forw_step s \<lparr>fs_node = send_outstanding_bcast_finish k t v f (fs_node s),
                  fs_running = remove1 (v, f) (fs_running s)\<rparr>"
| fs_purge:
    "forw_step s (s\<lparr>fs_node := snd (purge_outstanding_steal i (fs_node s))\<rparr>)"
| fs_free:
    "f \<in> set (nd_forw_stolen (fs_node s)) \<Longrightarrow> fw_ptr f \<notin> worker_ptrs (fs_running s) \<Longrightarrow>
     forw_step s (s\<lparr>fs_node := forw_packet_list_free_one f (fs_node s)\<rparr>)"
| fs_other:
    "qstate nd' = qstate (fs_node s) \<Longrightarrow> forw_step s (s\<lparr>fs_node := nd'\<rparr>)"

inductive forw_reach :: "forw_sys \<Rightarrow> forw_sys \<Rightarrow> bool" where
  forw_refl: "forw_reach s s"
| forw_more: "forw_reach s t \<Longrightarrow> forw_step t u \<Longrightarrow> forw_reach s u"

text \<open>
  Every packet has an address of its own, the packets of the broadcast list and the workers'
  packets count against its limit, and each of them has a timer or a worker, but not both.
\<close>

type_synonym forw_workers = "(forw_verdict \<times> batadv_forw_packet) list"

definition forw_ok :: "int \<Rightarrow> forw_workers \<Rightarrow> node \<Rightarrow> bool" where
  "forw_ok len r nd \<longleftrightarrow>
     dptrs (forw_alloc nd)
   \<and> list_all (\<lambda>f. fw_queue_left f = Some Bcast_queue) (nd_forw_bcast_list nd)
   \<and> nd_bcast_queue_left nd + counted Bcast_queue (forw_alloc nd) = len
   \<and> 0 \<le> nd_bcast_queue_left nd
   \<and> distinct (map (fw_ptr \<circ> snd) r)
   \<and> list_all (\<lambda>w. fw_queue_left (snd w) = Some Bcast_queue) r
   \<and> worker_ptrs r \<subseteq> ptrs (nd_forw_bcast_list nd) \<union> ptrs (nd_forw_stolen nd)
   \<and> distinct (nd_forw_pending nd)
   \<and> set (nd_forw_pending nd) \<subseteq> forw_ptrs nd
   \<and> set (nd_forw_pending nd) \<inter> worker_ptrs r = {}
   \<and> ptrs (nd_forw_bcast_list nd) \<subseteq> set (nd_forw_pending nd) \<union> worker_ptrs r"

lemma forw_ok_cong: "qstate nd = qstate nd' \<Longrightarrow> forw_ok len r nd \<longleftrightarrow> forw_ok len r nd'"
  by (simp add: forw_ok_def forw_alloc_def forw_ptrs_def qstate_def)

lemma forw_alloc_cong: "qstate nd = qstate nd' \<Longrightarrow> forw_ptrs nd = forw_ptrs nd'"
  by (simp add: forw_alloc_def forw_ptrs_def qstate_def)

section \<open>Queueing\<close>

lemma del_first_ptrs:
  "dptrs l \<Longrightarrow> ptrs (hlist_del_first (\<lambda>f. fw_ptr f = p) l) = ptrs l - {p}
     \<and> dptrs (hlist_del_first (\<lambda>f. fw_ptr f = p) l)"
  by (induction l) auto

lemma find_ptr_none: "find (\<lambda>f. fw_ptr f = p) l = None \<longleftrightarrow> p \<notin> ptrs l"
  by (induction l) auto

lemma find_ptr: "dptrs l \<Longrightarrow> f \<in> set l \<Longrightarrow> find (\<lambda>g. fw_ptr g = fw_ptr f) l = Some f"
  by (simp add: dptrs_def find_key_distinct)

lemma forw_fresh_mono:
  assumes "forw_fresh k nd" and "forw_ptrs nd' = forw_ptrs nd" and "nd_pos nd \<le> nd_pos nd'"
  shows "forw_fresh k nd'"
proof -
  have "p \<notin> forw_ptrs nd'" if "nd_pos nd' \<le> n" "nk_forw_ptr k n = Some p" for n p
    using assms that unfolding forw_fresh_def by (metis le_trans)
  then show ?thesis using assms(1) unfolding forw_fresh_def by blast
qed

lemma forw_frame:
  assumes "forw_ok len r nd \<and> forw_fresh k nd" and "qstate nd' = qstate nd" and "nd_pos nd \<le> nd_pos nd'"
  shows "forw_ok len r nd' \<and> forw_fresh k nd'"
  using assms forw_ok_cong [OF assms(2)] forw_alloc_cong [OF assms(2)] forw_fresh_mono by blast

lemma forw_ok_new:
  assumes ok: "forw_ok len r nd" and p: "fw_ptr f \<notin> forw_ptrs nd" and q: "fw_queue_left f = Some Bcast_queue"
    and left: "nd_bcast_queue_left nd \<noteq> 0"
  shows "forw_ok len r (nd\<lparr>nd_bcast_queue_left := nd_bcast_queue_left nd - 1,
           nd_forw_bcast_list := f # nd_forw_bcast_list nd,
           nd_forw_pending := fw_ptr f # nd_forw_pending nd\<rparr>)"
  using assms by (auto simp: forw_ok_def forw_alloc_def forw_ptrs_def)

lemma forw_to_list:
  assumes "forw_ok len r nd" and "forw_fresh k nd"
  shows "forw_ok len r (snd (batadv_forw_bcast_packet_to_list k skb n d own i j nd))
    \<and> forw_fresh k (snd (batadv_forw_bcast_packet_to_list k skb n d own i j nd))"
proof (cases "nk_clone_ok k (nd_pos nd) \<and> nd_bcast_queue_left nd \<noteq> 0 \<and> nk_forw_ptr k (nd_pos nd) \<noteq> None")
  case False
  then have same: "qstate (snd (batadv_forw_bcast_packet_to_list k skb n d own i j nd)) = qstate nd"
    and pos: "nd_pos nd \<le> nd_pos (snd (batadv_forw_bcast_packet_to_list k skb n d own i j nd))"
    by (auto simp: batadv_forw_bcast_packet_to_list_def batadv_forw_packet_alloc_def
        batadv_atomic_dec_not_zero_def queue_left_def queue_left_add_def nd_pos_def qstate_def nd_emit_def
        split: option.split)
  show ?thesis by (rule forw_frame [OF conjI [OF assms] same pos])
next
  case True
  then obtain p where p: "nk_forw_ptr k (nd_pos nd) = Some p" by blast
  have fresh: "p \<notin> forw_ptrs nd" using assms(2) p by (auto simp: forw_fresh_def)
  then have no: "p \<notin> ptrs (nd_forw_bcast_list nd)" "p \<notin> ptrs (nd_forw_stolen nd)"
    by (auto simp: forw_ptrs_def forw_alloc_def)
  define f where "f = \<lparr>fw_ptr = p, fw_send_time = 0, fw_own = own, fw_packet_len = 0,
      fw_direct_link_flags = 0, fw_num_packets = 1, fw_skb = skb, fw_num_bcasts = n,
      fw_if_incoming = Some i, fw_if_outgoing = Some j, fw_queue_left = Some Bcast_queue\<rparr>"
  define nd' where "nd' = nd\<lparr>nd_bcast_queue_left := nd_bcast_queue_left nd - 1,
           nd_forw_bcast_list := f # nd_forw_bcast_list nd,
           nd_forw_pending := fw_ptr f # nd_forw_pending nd\<rparr>"
  let ?r = "snd (batadv_forw_bcast_packet_to_list k skb n d own i j nd)"
  have alloc: "batadv_forw_packet_alloc k (Some i) (Some j) (Some Bcast_queue) skb nd =
      (Some (f\<lparr>fw_own := False, fw_num_bcasts := 0\<rparr>), nd\<lparr>nd_bcast_queue_left := nd_bcast_queue_left nd - 1\<rparr>)"
    using True p by (simp add: batadv_forw_packet_alloc_def batadv_atomic_dec_not_zero_def queue_left_def
        queue_left_add_def nd_pos_def f_def)
  have del: "hlist_del_first (\<lambda>f. fw_ptr f = p) (nd_forw_bcast_list nd) = nd_forw_bcast_list nd"
    using no(1) by (intro hlist_del_first_none) (simp add: find_ptr_none)
  have res: "qstate ?r = qstate nd' \<and> nd_pos ?r = Suc (nd_pos nd)"
    using True no(2) del
    by (simp add: batadv_forw_bcast_packet_to_list_def alloc batadv_forw_packet_bcast_queue_def
        batadv_forw_packet_queue_def batadv_forw_packet_was_stolen_def find_ptr_none f_def nd'_def
        forw_list_def forw_list_put_def qstate_def nd_emit_def nd_pos_def Let_def)
  have ok': "forw_ok len r nd'"
    unfolding nd'_def using assms(1) fresh True by (intro forw_ok_new) (simp_all add: f_def)
  have ptrs: "forw_ptrs ?r = insert p (forw_ptrs nd)"
    using forw_alloc_cong [OF conjunct1 [OF res]] by (simp add: nd'_def f_def forw_ptrs_def forw_alloc_def)
  have "forw_fresh k ?r"
    unfolding forw_fresh_def
  proof (intro conjI allI impI)
    fix n' q assume n: "nd_pos ?r \<le> n' \<and> nk_forw_ptr k n' = Some q"
    then have "nd_pos nd \<le> n'" "nk_forw_ptr k n' = Some q" using res by simp_all
    then have "q \<notin> forw_ptrs nd" using assms(2) unfolding forw_fresh_def by blast
    moreover have "q \<noteq> p"
    proof
      assume "q = p"
      then have "n' = nd_pos nd" using n p assms(2) unfolding forw_fresh_def by blast
      then show False using n res by simp
    qed
    ultimately show "q \<notin> forw_ptrs ?r" using ptrs by simp
  next
    fix m n' q assume "nk_forw_ptr k m = Some q \<and> nk_forw_ptr k n' = Some q"
    then show "m = n'" using assms(2) unfolding forw_fresh_def by blast
  qed
  then show ?thesis using ok' forw_ok_cong [OF conjunct1 [OF res]] by simp
qed

lemma forw_packet_if:
  assumes "forw_ok len r nd \<and> forw_fresh k nd"
  shows "forw_ok len r (snd (batadv_forw_bcast_packet_if k skb d own i h nd))
    \<and> forw_fresh k (snd (batadv_forw_bcast_packet_if k skb d own i h nd))"
proof -
  let ?nd = "snd (batadv_send_broadcast_skb k skb (hi_ifindex h) nd)"
  have "forw_ok len r ?nd \<and> forw_fresh k ?nd"
    by (rule forw_frame [OF assms]) simp_all
  then show ?thesis
    using assms forw_to_list [of len r ?nd k] forw_to_list [of len r nd k]
    by (simp add: batadv_forw_bcast_packet_if_def Let_def)
qed

lemma forw_loop:
  "forw_ok len r nd \<and> forw_fresh k nd \<Longrightarrow>
     forw_ok len r (snd (forw_bcast_loop k skb d own i hs ret nd))
   \<and> forw_fresh k (snd (forw_bcast_loop k skb d own i hs ret nd))"
proof (induction hs arbitrary: ret nd)
  case (Cons h hs)
  obtain ret' nd' where r: "batadv_forw_bcast_packet_if k skb d own i h nd = (ret', nd')" by fastforce
  have "forw_ok len r nd' \<and> forw_fresh k nd'"
    using forw_packet_if [OF Cons.prems, of skb d own i h] r by simp
  then show ?case using Cons r by simp
qed simp

lemma forw_broadcast_ok:
  assumes "forw_ok len r nd" and "forw_fresh k nd"
  shows "forw_ok len r (snd (batadv_forw_bcast_packet k skb d own nd))"
  using assms forw_loop by (simp add: batadv_forw_bcast_packet_def split: option.split)


section \<open>Workers and purges\<close>

lemma remove1_ptr: "distinct l \<Longrightarrow> set (remove1 p l) = set l - {p}"
  by simp

lemma qstate_start:
  assumes "send_outstanding_bcast_start k f nd = Kret (v, f', nd')"
  shows "qstate nd' = qstate nd" and "fw_ptr f' = fw_ptr f" and "fw_queue_left f' = fw_queue_left f"
proof -
  have "qstate nd' = qstate nd \<and> fw_ptr f' = fw_ptr f \<and> fw_queue_left f' = fw_queue_left f"
  proof (cases "bp_mesh_state (nd_priv nd) = BATADV_MESH_DEACTIVATING")
    case False
    obtain b where b: "batadv_dat_drop_broadcast_packet k f nd = Kret b"
      using assms False by (cases "batadv_dat_drop_broadcast_packet k f nd")
        (auto simp: send_outstanding_bcast_start_def)
    show ?thesis
      using assms False b
      by (auto simp: send_outstanding_bcast_start_def Let_def batadv_forw_packet_bcasts_dec_def
          split: if_splits option.splits)
  qed (use assms in \<open>auto simp: send_outstanding_bcast_start_def\<close>)
  then show "qstate nd' = qstate nd" "fw_ptr f' = fw_ptr f" "fw_queue_left f' = fw_queue_left f"
    by auto
qed

lemma forw_start_ok:
  assumes ok: "forw_ok len r nd" and p: "fw_ptr f \<in> set (nd_forw_pending nd)"
    and f: "f \<in> set (nd_forw_bcast_list nd @ nd_forw_stolen nd)" and q: "fw_queue_left f = Some Bcast_queue"
    and start: "send_outstanding_bcast_start k f
        (nd\<lparr>nd_forw_pending := remove1 (fw_ptr f) (nd_forw_pending nd)\<rparr>) = Kret (v, f', nd')"
  shows "forw_ok len ((v, f') # r) nd'"
proof -
  note s = qstate_start [OF start]
  have mem: "fw_ptr f \<in> ptrs (nd_forw_bcast_list nd) \<union> ptrs (nd_forw_stolen nd)"
    using f in_ptrs by auto
  have fresh: "fw_ptr f \<notin> worker_ptrs r" using ok p by (auto simp: forw_ok_def)
  then have fresh': "fw_ptr f \<notin> (fw_ptr \<circ> snd) ` set r" by (simp add: worker_ptrs_def)
  have w: "worker_ptrs ((v, f') # r) = insert (fw_ptr f) (worker_ptrs r)"
    by (simp add: worker_ptrs_def s(2))
  have dp: "distinct (nd_forw_pending nd)" using ok by (simp add: forw_ok_def)
  have "forw_ok len ((v, f') # r) (nd\<lparr>nd_forw_pending := remove1 (fw_ptr f) (nd_forw_pending nd)\<rparr>)"
    unfolding forw_ok_def w using ok mem fresh' q s(2,3) p dp
    by (auto simp: forw_ok_def forw_alloc_def forw_ptrs_def)
  then show ?thesis using forw_ok_cong [OF s(1)] by blast
qed

lemma remove1_key:
  assumes "distinct (map key r)" and "x \<in> set r"
  shows "key ` set (remove1 x r) = key ` set r - {key x} \<and> distinct (map key (remove1 x r))"
proof -
  have "distinct r" "inj_on key (set r)" using assms(1) by (simp_all add: distinct_map)
  then show ?thesis
    using assms(2) by (auto simp: distinct_map inj_on_def)
qed

lemma worker_remove:
  assumes "forw_ok len r nd" and "(v, f) \<in> set r"
  shows "worker_ptrs (remove1 (v, f) r) = worker_ptrs r - {fw_ptr f}"
    and "distinct (map (fw_ptr \<circ> snd) (remove1 (v, f) r))"
    and "list_all (\<lambda>w. fw_queue_left (snd w) = Some Bcast_queue) (remove1 (v, f) r)"
    and "fw_queue_left f = Some Bcast_queue" and "fw_ptr f \<in> worker_ptrs r"
proof -
  have d: "distinct (map (fw_ptr \<circ> snd) r)" and l: "list_all (\<lambda>w. fw_queue_left (snd w) = Some Bcast_queue) r"
    using assms(1) by (simp_all add: forw_ok_def)
  show "worker_ptrs (remove1 (v, f) r) = worker_ptrs r - {fw_ptr f}"
    "distinct (map (fw_ptr \<circ> snd) (remove1 (v, f) r))"
    using remove1_key [OF d assms(2)] by (simp_all add: worker_ptrs_def)
  show "list_all (\<lambda>w. fw_queue_left (snd w) = Some Bcast_queue) (remove1 (v, f) r)"
    using l set_remove1_subset [of "(v, f)" r] by (auto simp: list_all_iff)
  show "fw_queue_left f = Some Bcast_queue" using l assms(2) by (auto simp: list_all_iff)
  show "fw_ptr f \<in> worker_ptrs r" using assms(2) unfolding worker_ptrs_def by force
qed

lemma forw_worker_gone:
  assumes ok: "forw_ok len r nd" and w: "(v, f) \<in> set r"
    and st: "fw_ptr f \<notin> ptrs (nd_forw_bcast_list nd)"
  shows "forw_ok len (remove1 (v, f) r) nd"
  using ok worker_remove [OF ok w] st unfolding forw_ok_def by blast

lemma stolen_iff: "batadv_forw_packet_was_stolen p nd \<longleftrightarrow> p \<in> ptrs (nd_forw_stolen nd)"
  by (simp add: batadv_forw_packet_was_stolen_def find_ptr_none)

lemma forw_finish_ok:
  assumes ok: "forw_ok len r nd" and w: "(v, f) \<in> set r"
  shows "forw_ok len (remove1 (v, f) r) (send_outstanding_bcast_finish k t v f nd)"
proof (cases "batadv_forw_packet_was_stolen (fw_ptr f) nd")
  case True
  then have "send_outstanding_bcast_finish k t v f nd = nd"
    by (auto simp: send_outstanding_bcast_finish_def batadv_forw_packet_bcast_queue_def
        batadv_forw_packet_queue_def batadv_forw_packet_steal_def split: forw_verdict.split)
  moreover have "fw_ptr f \<notin> ptrs (nd_forw_bcast_list nd)"
    using ok True by (auto simp: forw_ok_def forw_alloc_def stolen_iff)
  ultimately show ?thesis using forw_worker_gone [OF ok w] by simp
next
  case False
  note rm = worker_remove [OF ok w]
  let ?l = "nd_forw_bcast_list nd"
  let ?l' = "hlist_del_first (\<lambda>g. fw_ptr g = fw_ptr f) ?l"
  have ns: "fw_ptr f \<notin> ptrs (nd_forw_stolen nd)" using False by (simp add: stolen_iff)
  have mem: "fw_ptr f \<in> ptrs ?l" and np: "fw_ptr f \<notin> set (nd_forw_pending nd)"
    using ok rm(5) ns by (auto simp: forw_ok_def)
  then obtain g where g: "g \<in> set ?l" "fw_ptr g = fw_ptr f" by (auto simp: ptrs_def)
  have dl: "dptrs ?l" and lq: "list_all (\<lambda>f. fw_queue_left f = Some Bcast_queue) ?l"
    and nb: "fw_ptr f \<notin> ptrs (nd_forw_bat_list nd)"
    using ok mem by (auto simp: forw_ok_def forw_alloc_def)
  have find: "find (\<lambda>h. fw_ptr h = fw_ptr f) ?l = Some g" using find_ptr [OF dl g(1)] g(2) by simp
  note del = del_first_ptrs [OF dl, of "fw_ptr f"]
  have c: "counted Bcast_queue ?l' = counted Bcast_queue ?l - 1"
    using counted_del_first [OF find] lq g(1) by (simp add: list_all_iff)
  have lq': "list_all (\<lambda>f. fw_queue_left f = Some Bcast_queue) ?l'" by (rule list_all_hlist_del_first [OF lq])
  show ?thesis
  proof (cases v)
    case Forw_requeue
    have e: "qstate (send_outstanding_bcast_finish k t v f nd) =
        qstate (nd\<lparr>nd_forw_bcast_list := f # ?l', nd_forw_pending := fw_ptr f # nd_forw_pending nd\<rparr>)"
      using False Forw_requeue by (simp add: send_outstanding_bcast_finish_def
          batadv_forw_packet_bcast_queue_def batadv_forw_packet_queue_def Let_def forw_list_def
          forw_list_put_def qstate_def nd_emit_def)
    have "forw_ok len (remove1 (v, f) r)
        (nd\<lparr>nd_forw_bcast_list := f # ?l', nd_forw_pending := fw_ptr f # nd_forw_pending nd\<rparr>)"
      unfolding forw_ok_def rm(1) using ok rm(2-4) del c lq' np nb ns mem
      by (auto simp: forw_ok_def forw_alloc_def forw_ptrs_def)
    then show ?thesis using forw_ok_cong [OF e] by simp
  next
    case (Forw_free dr)
    let ?nd = "nd\<lparr>nd_forw_bcast_list := ?l', nd_bcast_queue_left := nd_bcast_queue_left nd + 1\<rparr>"
    have e: "qstate (send_outstanding_bcast_finish k t v f nd) = qstate ?nd"
      using False Forw_free rm(4) by (simp add: send_outstanding_bcast_finish_def batadv_forw_packet_steal_def
          batadv_forw_packet_free_def forw_list_def forw_list_put_def qstate_def nd_emit_def queue_left_add_def)
    have "forw_ok len (remove1 (v, f) r) ?nd"
      unfolding forw_ok_def rm(1) using ok rm(2-4) del c lq' np nb ns mem
      by (auto simp: forw_ok_def forw_alloc_def forw_ptrs_def)
    then show ?thesis using forw_ok_cong [OF e] by simp
  qed
qed

lemma steal_qstate:
  "snd (batadv_forw_packet_list_steal q i nd) =
     (forw_list_put q (filter (\<lambda>f. \<not> forw_packet_of i f) (forw_list q nd)) nd)
       \<lparr>nd_forw_stolen := rev (filter (forw_packet_of i) (forw_list q nd)) @ nd_forw_stolen nd\<rparr>"
  by (cases q) (simp_all add: batadv_forw_packet_list_steal_def Let_def forw_list_put_def)

lemma ptrs_partition: "ptrs (filter P l) \<union> ptrs (filter (\<lambda>x. \<not> P x) l) = ptrs l"
  by (auto simp: ptrs_def)

lemma mset_partition: "mset (filter (\<lambda>x. \<not> P x) l) + mset (filter P l) = mset l"
  by (induction l) auto

lemma forw_steal_ok:
  assumes ok: "forw_ok len r nd"
  shows "forw_ok len r (snd (batadv_forw_packet_list_steal q i nd))"
proof -
  let ?nd = "snd (batadv_forw_packet_list_steal q i nd)"
  have m: "mset (forw_alloc ?nd) = mset (forw_alloc nd)"
    unfolding steal_qstate
    by (cases q) (simp_all add: forw_alloc_def forw_list_def forw_list_put_def mset_partition
        del: mset_filter flip: union_assoc)
  have ptrs: "forw_ptrs ?nd = forw_ptrs nd"
    using m unfolding forw_ptrs_def ptrs_def by (metis set_mset_mset)
  have dist: "dptrs (forw_alloc ?nd)"
    using ok m unfolding forw_ok_def dptrs_def by (metis mset_eq_imp_distinct_iff mset_map)
  have c: "counted Bcast_queue (forw_alloc ?nd) = counted Bcast_queue (forw_alloc nd)"
    using m unfolding counted_def by (metis mset_filter size_mset)
  have bl: "nd_forw_bcast_list ?nd = (if q = Bcast_queue
      then filter (\<lambda>f. \<not> forw_packet_of i f) (nd_forw_bcast_list nd) else nd_forw_bcast_list nd)"
    and sl: "nd_forw_stolen ?nd = rev (filter (forw_packet_of i) (forw_list q nd)) @ nd_forw_stolen nd"
    and rest: "nd_forw_pending ?nd = nd_forw_pending nd" "nd_bcast_queue_left ?nd = nd_bcast_queue_left nd"
    unfolding steal_qstate by (cases q; simp add: forw_list_def forw_list_put_def)+
  have sub: "ptrs (nd_forw_bcast_list ?nd) \<subseteq> ptrs (nd_forw_bcast_list nd)"
    unfolding bl using ptrs_partition [of "forw_packet_of i" "nd_forw_bcast_list nd"] by auto
  have union: "ptrs (nd_forw_bcast_list nd) \<union> ptrs (nd_forw_stolen nd)
      \<subseteq> ptrs (nd_forw_bcast_list ?nd) \<union> ptrs (nd_forw_stolen ?nd)"
    unfolding bl sl using ptrs_partition [of "forw_packet_of i" "nd_forw_bcast_list nd"]
    by (cases q) (auto simp: forw_list_def)
  have lq: "list_all (\<lambda>f. fw_queue_left f = Some Bcast_queue) (nd_forw_bcast_list ?nd)"
    using ok unfolding bl by (auto simp: forw_ok_def list_all_iff)
  show ?thesis
    using ok dist sub union lq unfolding forw_ok_def ptrs c rest by blast
qed

lemma forw_purge_ok:
  assumes "forw_ok len r nd"
  shows "forw_ok len r (snd (purge_outstanding_steal i nd))"
proof -
  have "snd (purge_outstanding_steal i nd) = snd (batadv_forw_packet_list_steal Batman_queue i
      (snd (batadv_forw_packet_list_steal Bcast_queue i nd)))"
    by (simp add: purge_outstanding_steal_def case_prod_beta)
  then show ?thesis by (simp add: forw_steal_ok assms)
qed

lemma forw_free_ok:
  assumes ok: "forw_ok len r nd" and f: "f \<in> set (nd_forw_stolen nd)" and w: "fw_ptr f \<notin> worker_ptrs r"
  shows "forw_ok len r (forw_packet_list_free_one f nd)"
proof -
  let ?s = "nd_forw_stolen nd"
  let ?s' = "hlist_del_first (\<lambda>g. fw_ptr g = fw_ptr f) ?s"
  have ds: "dptrs ?s" using ok by (simp add: forw_ok_def forw_alloc_def)
  note del = del_first_ptrs [OF ds, of "fw_ptr f"]
  note c = counted_del_first [OF find_ptr [OF ds f], of Bcast_queue]
  have mem: "fw_ptr f \<in> ptrs ?s" by (rule in_ptrs [OF f])
  let ?nd = "nd\<lparr>nd_forw_pending := filter (\<lambda>p. p \<noteq> fw_ptr f) (nd_forw_pending nd), nd_forw_stolen := ?s',
      nd_bcast_queue_left := nd_bcast_queue_left nd + (if fw_queue_left f = Some Bcast_queue then 1 else 0),
      nd_batman_queue_left := nd_batman_queue_left nd + (if fw_queue_left f = Some Batman_queue then 1 else 0)\<rparr>"
  have e: "qstate (forw_packet_list_free_one f nd) = qstate ?nd"
  proof (cases "fw_queue_left f")
    case (Some q)
    then show ?thesis
      by (cases q) (simp_all add: forw_packet_list_free_one_def batadv_forw_packet_free_def Let_def qstate_def
          nd_emit_def queue_left_add_def)
  qed (simp add: forw_packet_list_free_one_def batadv_forw_packet_free_def Let_def qstate_def nd_emit_def)
  have other: "fw_ptr f \<notin> ptrs (nd_forw_bcast_list nd)" "fw_ptr f \<notin> ptrs (nd_forw_bat_list nd)"
    using ok mem by (auto simp: forw_ok_def forw_alloc_def)
  have "forw_ok len r ?nd"
    unfolding forw_ok_def using ok del c w other
    by (auto simp: forw_ok_def forw_alloc_def forw_ptrs_def)
  then show ?thesis using forw_ok_cong [OF e] by simp
qed

lemma forw_step_ok:
  assumes "forw_step s s'" and "forw_ok len (fs_running s) (fs_node s)"
  shows "forw_ok len (fs_running s') (fs_node s')"
  using assms
proof (induction rule: forw_step.induct)
  case (fs_broadcast k s)
  then show ?case by (simp add: forw_broadcast_ok)
next
  case (fs_start f s k v f' nd')
  then show ?case using forw_start_ok by simp
next
  case (fs_finish v f s k t)
  then show ?case by (simp add: forw_finish_ok)
next
  case (fs_purge s i)
  then show ?case by (simp add: forw_purge_ok)
next
  case (fs_free f s)
  then show ?case by (simp add: forw_free_ok)
next
  case (fs_other nd' s)
  then show ?case using forw_ok_cong [OF fs_other(1)] by simp
qed

lemma forw_reach_ok:
  "forw_reach s s' \<Longrightarrow> forw_ok len (fs_running s) (fs_node s) \<Longrightarrow> forw_ok len (fs_running s') (fs_node s')"
  by (induction rule: forw_reach.induct) (auto intro: forw_step_ok)

text \<open>An idle queue: nothing waits, nothing runs.\<close>

definition forw_idle :: "int \<Rightarrow> forw_sys \<Rightarrow> bool" where
  "forw_idle len s \<longleftrightarrow> forw_alloc (fs_node s) = [] \<and> nd_forw_pending (fs_node s) = [] \<and> fs_running s = []
     \<and> nd_bcast_queue_left (fs_node s) = len \<and> 0 \<le> len"

lemma forw_idle_ok: "forw_idle len s \<Longrightarrow> forw_ok len (fs_running s) (fs_node s)"
  by (simp add: forw_idle_def forw_ok_def forw_ptrs_def worker_ptrs_def forw_alloc_def)


section \<open>The limit is exact\<close>

definition packets_counted :: "node \<Rightarrow> nat" where
  "packets_counted nd = length (filter (\<lambda>f. fw_queue_left f = Some Bcast_queue) (forw_alloc nd))"

text \<open>
  C3: However broadcasts, timers, workers, purges and anything else interleave, the remaining
  capacity of the broadcast queue plus the packets that exist equals the length of the queue,
  and the capacity is never negative; a packet whose worker is running or whose timer is armed
  has not been freed; no packet has both a timer and a worker, and every packet that waits in
  the list has one of them.
\<close>

theorem forw_queue_accounted:
  assumes "forw_idle len s" and "forw_reach s s'"
  shows "nd_bcast_queue_left (fs_node s') + int (packets_counted (fs_node s')) = len
    \<and> 0 \<le> nd_bcast_queue_left (fs_node s')
    \<and> distinct (map fw_ptr (forw_alloc (fs_node s')))
    \<and> worker_ptrs (fs_running s') \<subseteq> forw_ptrs (fs_node s')
    \<and> set (nd_forw_pending (fs_node s')) \<subseteq> forw_ptrs (fs_node s')
    \<and> set (nd_forw_pending (fs_node s')) \<inter> worker_ptrs (fs_running s') = {}
    \<and> ptrs (nd_forw_bcast_list (fs_node s')) \<subseteq> set (nd_forw_pending (fs_node s')) \<union> worker_ptrs (fs_running s')"
  using forw_reach_ok [OF assms(2) forw_idle_ok [OF assms(1)]]
  by (auto simp: forw_ok_def packets_counted_def counted_def dptrs_def forw_ptrs_def forw_alloc_def)

section \<open>An example node\<close>

definition ex_hardif_neigh :: "mac \<Rightarrow> batadv_hardif_neigh_node" where
  "ex_hardif_neigh a = \<lparr>hn_addr = a, hn_orig = a, hn_if_incoming = 1, hn_last_seen = 0,
     hn_bat_v = \<lparr>airtime_cost = 0, base_airtime = 0, elp_received = 0, elp_expected = 0, elp_last_seqno = 0,
       e_pt_smoothed = 0, elp_interval = 0, elp_latest_seqno = 0, last_unicast_tx = 0\<rparr>\<rparr>"

definition ex_node_iface :: batadv_hard_iface where
  "ex_node_iface = ex_tt_iface\<lparr>hi_num_bcasts := 3,
     hi_neigh_list := [ex_hardif_neigh (Mac 2 0 0 0 0 3), ex_hardif_neigh (Mac 2 0 0 0 0 4)]\<rparr>"

definition ex_node_kenv :: node_kenv where
  "ex_node_kenv = bla_kenv.extend ex_bla_kenv
     \<lparr>nk_up = (\<lambda>i. True), nk_cow_ok = (\<lambda>n p. True), nk_xmit = (\<lambda>i n. 0), nk_clone_ok = (\<lambda>n. True),
      nk_forw_ptr = (\<lambda>n. Some n), nk_pull_ok = (\<lambda>n. True), nk_mac_header_ok = (\<lambda>n. True), nk_skb_ok = (\<lambda>n. True), nk_skb_cow_ok = (\<lambda>n. True),
      nk_linearize_ok = (\<lambda>n. True),
      nk_frag_rx = (\<lambda>n. \<lparr>rx_linearize_ok = True, rx_alloc_ok = True, rx_expand_ok = True, rx_now = 0\<rparr>),
      nk_mark = 0, nk_iif = 0, nk_dat_alloc_ok = (\<lambda>i v. True), nk_dat_res_ok = True,
      nk_dat_garbage = (\<lambda>n. None),
      nk_frag = \<lparr>tx_frag_list_linearize_failed = False, tx_alloc_ok = (\<lambda>n. True), tx_send_ret = (\<lambda>n. 0),
                 tx_cow_head_ret = 0\<rparr>,
      nk_sob = (\<lambda>n i m j. True), nk_cmp = (\<lambda>n i m j. 0)\<rparr>"

definition ex_node :: node where
  "ex_node = \<lparr>nd_bla = ex_bla0\<lparr>bl_mesh := ex_acc_mesh\<lparr>ms_priv := (ms_priv ex_acc_mesh)
        \<lparr>bp_hard_ifaces := [ex_node_iface]\<rparr>\<rparr>\<rparr>,
     nd_fragmentation = True, nd_frag_seqno = 0, nd_bcast_seqno = 0, nd_bcast_queue_left = 256,
     nd_batman_queue_left = 256, nd_forw_bcast_list = [], nd_forw_bat_list = [], nd_forw_stolen = [],
     nd_forw_pending = [], nd_distributed_arp_table = False, nd_dat_addr = 0, nd_dat_hash = None,
     nd_rx_handler = batadv_recv_handler_init, nd_out = []\<rparr>"

definition ex_bcast :: sk_buff where
  "ex_bcast = \<lparr>h_dest = broadcast_addr, h_source = Mac 2 0 0 0 0 1,
     skb_data = bcast_packet_bytes \<lparr>bcast_packet_type = BATADV_BCAST, bcast_version = 15, bcast_ttl = 49,
       bcast_reserved = 0, bcast_seqno = 1, bcast_orig = Mac 2 0 0 0 0 1\<rparr> @ replicate 60 0, skb_priority = 0\<rparr>"

lemmas ex_node_simps = ex_node_def ex_node_kenv_def bla_kenv.defs ex_bla_kenv_def tt_kenv.defs ex_bla0_def
  ex_acc_mesh_def ex_tt_priv_def ex_node_iface_def ex_tt_iface_def ex_hardif_neigh_def

lemma ex_bcast_orig: "bcast_orig (get_bcast_packet (skb_data ex_bcast)) = Mac 2 0 0 0 0 1"
  by (simp add: ex_bcast_def bcast_fmt.dec_enc)

lemma ex_iface:
  "bp_hard_ifaces (nd_priv ex_node) = [ex_node_iface]"
  "batadv_primary_if_get_selected (nd_priv ex_node) = Some ex_node_iface"
  "hi_num_bcasts ex_node_iface = 3" "hi_ifindex ex_node_iface = 1"
  "hi_if_status ex_node_iface = BATADV_IF_ACTIVE"
  by (simp_all add: ex_node_simps batadv_primary_if_get_selected_def hard_iface_get_def)

lemma ex_may_broadcast: "\<not> batadv_send_no_broadcast ex_bcast True ex_node_iface"
  by (simp add: batadv_send_no_broadcast_def ex_bcast_orig batadv_hardif_no_broadcast_def ex_node_simps)

lemma ex_forw_broadcast:
  "qstate (snd (batadv_forw_bcast_packet ex_node_kenv ex_bcast 0 True ex_node)) =
     ([\<lparr>fw_ptr = 1, fw_send_time = 0, fw_own = True, fw_packet_len = 0, fw_direct_link_flags = 0,
        fw_num_packets = 1, fw_skb = ex_bcast, fw_num_bcasts = 2, fw_if_incoming = Some 1,
        fw_if_outgoing = Some 1, fw_queue_left = Some Bcast_queue\<rparr>], [], [], [1], 255, 256)"
proof -
  have r: "send_if_ready ex_node_kenv (nd_priv ex_node) (Suc 0) = Some ex_node_iface"
    by (simp add: send_if_ready_def hard_iface_get_def ex_iface, simp add: ex_node_kenv_def bla_kenv.defs)
  have env: "nk_clone_ok ex_node_kenv n" "nk_cow_ok ex_node_kenv l n" "nk_forw_ptr ex_node_kenv n = Some n" for n l
    by (simp_all add: ex_node_kenv_def bla_kenv.defs)
  have q: "nd_forw_bcast_list ex_node = []" "nd_forw_bat_list ex_node = []" "nd_forw_stolen ex_node = []"
    "nd_forw_pending ex_node = []" "nd_bcast_queue_left ex_node = 256" "nd_batman_queue_left ex_node = 256"
    "nd_out ex_node = []"
    by (simp_all add: ex_node_def)
  show ?thesis
    by (simp add: batadv_forw_bcast_packet_def ex_iface ex_may_broadcast batadv_forw_bcast_packet_if_def env
        batadv_send_broadcast_skb_def batadv_send_skb_packet_def r batadv_forw_bcast_packet_to_list_def
        batadv_forw_packet_alloc_def batadv_atomic_dec_not_zero_def queue_left_def queue_left_add_def nd_emit_def
        batadv_forw_packet_bcast_queue_def batadv_forw_packet_queue_def batadv_forw_packet_was_stolen_def
        forw_list_def forw_list_put_def qstate_def q nd_pos_def Let_def NETDEV_TX_OK_def NETDEV_TX_BUSY_def)
qed

lemma ex_fresh: "forw_fresh ex_node_kenv ex_node"
  by (simp add: forw_fresh_def forw_ptrs_def forw_alloc_def ex_node_def ex_node_kenv_def bla_kenv.defs)

lemma ex_idle: "forw_idle 256 \<lparr>fs_node = ex_node, fs_running = []\<rparr>"
  by (simp add: forw_idle_def forw_alloc_def ex_node_def)

theorem forw_queue_accounted_witness:
  "nd_bcast_queue_left (snd (batadv_forw_bcast_packet ex_node_kenv ex_bcast 0 True ex_node)) = 255
   \<and> 255 + int (packets_counted (snd (batadv_forw_bcast_packet ex_node_kenv ex_bcast 0 True ex_node))) = 256"
proof -
  have "nd_bcast_queue_left (snd (batadv_forw_bcast_packet ex_node_kenv ex_bcast 0 True ex_node)) = 255"
    using ex_forw_broadcast by (simp add: qstate_def)
  moreover have "forw_reach \<lparr>fs_node = ex_node, fs_running = []\<rparr>
      \<lparr>fs_node = snd (batadv_forw_bcast_packet ex_node_kenv ex_bcast 0 True ex_node), fs_running = []\<rparr>"
    using forw_more [OF forw_refl fs_broadcast [of ex_node_kenv "\<lparr>fs_node = ex_node, fs_running = []\<rparr>" ex_bcast 0 True]]
      ex_fresh by simp
  ultimately show ?thesis using forw_queue_accounted [OF ex_idle] by fastforce
qed


section \<open>The queue drains\<close>

text \<open>
  The timers fire one after the other, in the order \<open>pick\<close> chooses; \<open>fuel\<close> is the number of
  times a worker may run.
\<close>

fun bcast_drain ::
    "nat \<Rightarrow> (batadv_forw_packet list \<Rightarrow> batadv_forw_packet) \<Rightarrow> node_kenv \<Rightarrow> node \<Rightarrow> node kresult option" where
  "bcast_drain fuel pick k nd =
     (if nd_forw_bcast_list nd = [] then Some (Kret nd)
      else (case fuel of
              0 \<Rightarrow> None
            | Suc fuel \<Rightarrow>
                (case batadv_send_outstanding_bcast_packet k (pick (nd_forw_bcast_list nd)) nd of
                   Kernel_bug \<Rightarrow> Some Kernel_bug
                 | Kret nd \<Rightarrow> bcast_drain fuel pick k nd)))"

declare bcast_drain.simps [simp del]

definition forw_sendable :: "batadv_forw_packet \<Rightarrow> bool" where
  "forw_sendable f \<longleftrightarrow> 0 < fw_num_bcasts f \<and> fw_if_outgoing f \<noteq> None \<and> 28 \<le> length (skb_data (fw_skb f))"

definition bcasts_left :: "node \<Rightarrow> nat" where
  "bcasts_left nd = sum_list (map (unat \<circ> fw_num_bcasts) (nd_forw_bcast_list nd))"

lemma get_vid_total:
  assumes "hdr + 14 \<le> length data" and "\<And>n. pull n \<Longrightarrow> n \<le> length data"
  shows "\<exists>v. batadv_get_vid pull data hdr = Kret v"
  using assms(1) assms(2) [of "hdr + 18"]
  by (auto simp: batadv_get_vid_def read16_def Let_def)

lemma nk_may_pull_length: "nk_may_pull k skb n \<Longrightarrow> n \<le> length (skb_data skb)"
  by (simp add: nk_may_pull_def)

lemma dat_drop_total:
  assumes "28 \<le> length (skb_data (fw_skb f))"
  shows "batadv_dat_drop_broadcast_packet k f nd \<noteq> Kernel_bug"
proof -
  obtain v where "batadv_get_vid (nk_may_pull k (fw_skb f)) (skb_data (fw_skb f)) 14 = Kret v"
    using get_vid_total [of 14 "skb_data (fw_skb f)"] assms nk_may_pull_length by fastforce
  then show ?thesis by (simp add: batadv_dat_drop_broadcast_packet_def batadv_dat_get_vid_def)
qed

text \<open>A run of the worker: the packet has left the queue, or one broadcast less is left for it.\<close>

lemma sum_list_del_found:
  "find P l = Some x \<Longrightarrow> sum_list (map g (hlist_del_first P l)) + g x = (sum_list (map g l) :: nat)"
  by (induction l) (auto split: if_splits)

lemma outstanding_run:
  assumes ok: "forw_ok len [] nd" and st: "nd_forw_stolen nd = []"
    and f: "f \<in> set (nd_forw_bcast_list nd)" and s: "list_all forw_sendable (nd_forw_bcast_list nd)"
  shows "\<exists>nd'. batadv_send_outstanding_bcast_packet k f nd = Kret nd' \<and> forw_ok len [] nd'
    \<and> nd_forw_stolen nd' = [] \<and> list_all forw_sendable (nd_forw_bcast_list nd')
    \<and> nd_forw_bat_list nd' = nd_forw_bat_list nd \<and> bcasts_left nd' < bcasts_left nd"
proof -
  have sf: "forw_sendable f" and q: "fw_queue_left f = Some Bcast_queue"
    and pend: "fw_ptr f \<in> set (nd_forw_pending nd)"
    using ok s f in_ptrs [OF f] by (auto simp: forw_ok_def list_all_iff worker_ptrs_def)
  let ?nd = "nd\<lparr>nd_forw_pending := remove1 (fw_ptr f) (nd_forw_pending nd)\<rparr>"
  obtain b where b: "batadv_dat_drop_broadcast_packet k f ?nd = Kret b"
    using dat_drop_total [of f k ?nd] sf
    by (cases "batadv_dat_drop_broadcast_packet k f ?nd") (auto simp: forw_sendable_def)
  obtain i where i: "fw_if_outgoing f = Some i" using sf by (auto simp: forw_sendable_def)
  obtain v f' nd1 where start: "send_outstanding_bcast_start k f ?nd = Kret (v, f', nd1)"
    and v: "v = Forw_requeue \<Longrightarrow> f' = batadv_forw_packet_bcasts_dec f \<and> fw_num_bcasts f' \<noteq> 0"
  proof (cases "bp_mesh_state (nd_priv nd) = BATADV_MESH_DEACTIVATING \<or> b \<or> \<not> nk_clone_ok k (nd_pos ?nd)")
    case True
    then have "\<exists>d. send_outstanding_bcast_start k f ?nd = Kret (Forw_free d, f, ?nd)"
      by (auto simp: send_outstanding_bcast_start_def b)
    then show ?thesis using that by blast
  next
    case False
    then have "send_outstanding_bcast_start k f ?nd = Kret
        (if batadv_forw_packet_bcasts_left (batadv_forw_packet_bcasts_dec f) then Forw_requeue else Forw_free False,
         batadv_forw_packet_bcasts_dec f, snd (batadv_send_broadcast_skb k (fw_skb f) i ?nd))"
      by (simp add: send_outstanding_bcast_start_def b i Let_def)
    then show ?thesis using that by (simp add: batadv_forw_packet_bcasts_left_def split: if_splits)
  qed
  let ?t = "jiffies k + msecs_to_jiffies k 5"
  let ?nd' = "send_outstanding_bcast_finish k ?t v f' nd1"
  have run: "batadv_send_outstanding_bcast_packet k f nd = Kret ?nd'"
    by (simp add: batadv_send_outstanding_bcast_packet_def start)
  have ok1: "forw_ok len [(v, f')] nd1"
    using forw_start_ok [OF ok pend _ q start] f by simp
  have ok': "forw_ok len [] ?nd'" using forw_finish_ok [OF ok1, of v f' k ?t] by simp
  note qs = qstate_start [OF start]
  have l1: "nd_forw_bcast_list nd1 = nd_forw_bcast_list nd" and st1: "nd_forw_stolen nd1 = []"
    and bat1: "nd_forw_bat_list nd1 = nd_forw_bat_list nd"
    using qs(1) st by (auto simp: qstate_def)
  let ?l = "nd_forw_bcast_list nd"
  let ?l' = "hlist_del_first (\<lambda>g. fw_ptr g = fw_ptr f) ?l"
  have find: "find (\<lambda>g. fw_ptr g = fw_ptr f) ?l = Some f"
    using find_ptr [of ?l f] ok f by (simp add: forw_ok_def forw_alloc_def)
  have sum: "sum_list (map (unat \<circ> fw_num_bcasts) ?l') + unat (fw_num_bcasts f) = bcasts_left nd"
    using sum_list_del_found [OF find, of "unat \<circ> fw_num_bcasts"] by (simp add: bcasts_left_def)
  have pos: "0 < unat (fw_num_bcasts f)" using sf by (simp add: forw_sendable_def unat_gt_0 word_gt_0)
  have s': "list_all forw_sendable ?l'" by (rule list_all_hlist_del_first [OF s])
  have res: "nd_forw_stolen ?nd' = [] \<and> list_all forw_sendable (nd_forw_bcast_list ?nd')
      \<and> nd_forw_bat_list ?nd' = nd_forw_bat_list nd \<and> bcasts_left ?nd' < bcasts_left nd"
  proof (cases v)
    case Forw_requeue
    then have f': "f' = batadv_forw_packet_bcasts_dec f" "fw_num_bcasts f - 1 \<noteq> 0"
      using v by (auto simp: batadv_forw_packet_bcasts_dec_def)
    have u: "unat (fw_num_bcasts f - 1) = unat (fw_num_bcasts f) - 1"
      using sf by (intro unat_minus_one) (auto simp: forw_sendable_def)
    have l: "nd_forw_bcast_list ?nd' = f' # ?l'" "nd_forw_stolen ?nd' = []"
      "nd_forw_bat_list ?nd' = nd_forw_bat_list nd"
      using Forw_requeue st1 l1 bat1 qs(2)
      by (simp_all add: send_outstanding_bcast_finish_def batadv_forw_packet_bcast_queue_def
          batadv_forw_packet_queue_def stolen_iff forw_list_def forw_list_put_def nd_emit_def Let_def)
    have "forw_sendable f'" using sf f' by (simp add: forw_sendable_def batadv_forw_packet_bcasts_dec_def word_gt_0)
    then show ?thesis using l s' sum pos u f' by (simp add: bcasts_left_def batadv_forw_packet_bcasts_dec_def)
  next
    case (Forw_free d)
    have l: "nd_forw_bcast_list ?nd' = ?l'" "nd_forw_stolen ?nd' = []"
      "nd_forw_bat_list ?nd' = nd_forw_bat_list nd"
      using Forw_free st1 l1 bat1 qs(2,3) q
      by (simp_all add: send_outstanding_bcast_finish_def batadv_forw_packet_steal_def stolen_iff forw_list_def
          forw_list_put_def batadv_forw_packet_free_def queue_left_add_def nd_emit_def Let_def)
    show ?thesis using l s' sum pos by (simp add: bcasts_left_def)
  qed
  show ?thesis using run ok' res by blast
qed

text \<open>
  C4: Left to its timers, the broadcast queue empties: in whatever order the timers fire, after
  at most as many runs of the worker as broadcasts are left for the waiting packets no broadcast
  packet exists any more, neither in the queue nor taken out of it, and the counter of the
  remaining capacity is back at the length of the queue.
\<close>

theorem bcast_queue_drains:
  assumes "forw_ok len [] nd" and "nd_forw_stolen nd = []"
    and "list_all forw_sendable (nd_forw_bcast_list nd)"
    and "list_all (\<lambda>f. fw_queue_left f \<noteq> Some Bcast_queue) (nd_forw_bat_list nd)"
    and "\<And>l. l \<noteq> [] \<Longrightarrow> pick l \<in> set l"
  shows "\<exists>nd'. bcast_drain (bcasts_left nd) pick k nd = Some (Kret nd')
    \<and> nd_forw_bcast_list nd' = [] \<and> nd_forw_stolen nd' = [] \<and> packets_counted nd' = 0
    \<and> nd_bcast_queue_left nd' = len"
proof -
  have "\<exists>nd'. bcast_drain n pick k nd = Some (Kret nd') \<and> nd_forw_bcast_list nd' = [] \<and> nd_forw_stolen nd' = []
      \<and> nd_forw_bat_list nd' = nd_forw_bat_list nd \<and> forw_ok len [] nd'"
    if "bcasts_left nd \<le> n" for n
    using assms(1-3) that
  proof (induction n arbitrary: nd)
    case 0
    have "f \<notin> set (nd_forw_bcast_list nd)" for f
    proof
      assume f: "f \<in> set (nd_forw_bcast_list nd)"
      then have "0 < unat (fw_num_bcasts f)"
        using 0(3) by (auto simp: list_all_iff forw_sendable_def unat_gt_0 word_gt_0)
      then show False using 0(4) f by (auto simp: bcasts_left_def)
    qed
    then have "nd_forw_bcast_list nd = []" by (cases "nd_forw_bcast_list nd") auto
    then show ?case using 0 by (simp add: bcast_drain.simps)
  next
    case (Suc n)
    show ?case
    proof (cases "nd_forw_bcast_list nd = []")
      case True
      then show ?thesis using Suc by (simp add: bcast_drain.simps)
    next
      case False
      obtain nd1 where r: "batadv_send_outstanding_bcast_packet k (pick (nd_forw_bcast_list nd)) nd = Kret nd1"
        "forw_ok len [] nd1" "nd_forw_stolen nd1 = []" "list_all forw_sendable (nd_forw_bcast_list nd1)"
        "nd_forw_bat_list nd1 = nd_forw_bat_list nd" "bcasts_left nd1 < bcasts_left nd"
        using outstanding_run [OF Suc.prems(1,2) assms(5) [OF False] Suc.prems(3)] by blast
      from Suc.IH [OF r(2-4)] r(5,6) Suc.prems(4)
      show ?thesis using False r(1) by (simp add: bcast_drain.simps [of "Suc n"])
    qed
  qed
  from this [OF order_refl] obtain nd' where
    *: "bcast_drain (bcasts_left nd) pick k nd = Some (Kret nd')" "nd_forw_bcast_list nd' = []" "nd_forw_stolen nd' = []"
      "nd_forw_bat_list nd' = nd_forw_bat_list nd" "forw_ok len [] nd'"
    by blast
  moreover have "filter (\<lambda>f. fw_queue_left f = Some Bcast_queue) (nd_forw_bat_list nd) = []"
    using assms(4) by (simp add: filter_empty_conv list_all_iff)
  ultimately show ?thesis by (simp add: forw_ok_def packets_counted_def counted_def forw_alloc_def)
qed

definition ex_queued :: node where
  "ex_queued = snd (batadv_forw_bcast_packet ex_node_kenv ex_bcast 0 True ex_node)"

theorem bcast_queue_drains_witness:
  "bcasts_left ex_queued = 2 \<and> (\<exists>nd'. bcast_drain 2 hd ex_node_kenv ex_queued = Some (Kret nd')
     \<and> nd_forw_bcast_list nd' = [] \<and> nd_forw_stolen nd' = [] \<and> packets_counted nd' = 0 \<and> nd_bcast_queue_left nd' = 256)
   \<and> nd_bcast_queue_left ex_queued = 255"
proof -
  have ok: "forw_ok 256 [] ex_queued"
    using forw_broadcast_ok [OF _ ex_fresh, of 256 "[]"] forw_idle_ok [OF ex_idle] by (simp add: ex_queued_def)
  have l: "nd_forw_bcast_list ex_queued = [\<lparr>fw_ptr = 1, fw_send_time = 0, fw_own = True, fw_packet_len = 0,
        fw_direct_link_flags = 0, fw_num_packets = 1, fw_skb = ex_bcast, fw_num_bcasts = 2,
        fw_if_incoming = Some 1, fw_if_outgoing = Some 1, fw_queue_left = Some Bcast_queue\<rparr>]"
    "nd_forw_stolen ex_queued = []" "nd_forw_bat_list ex_queued = []" "nd_bcast_queue_left ex_queued = 255"
    using ex_forw_broadcast by (simp_all add: ex_queued_def qstate_def)
  have s: "list_all forw_sendable (nd_forw_bcast_list ex_queued)" "bcasts_left ex_queued = 2"
    by (simp_all add: l forw_sendable_def bcasts_left_def, simp add: ex_bcast_def bcast_fmt.length_enc)
  have pick: "l \<noteq> [] \<Longrightarrow> hd l \<in> set l" for l :: "batadv_forw_packet list" by simp
  show ?thesis
    using bcast_queue_drains [OF ok l(2) s(1) _ pick, of ex_node_kenv] s(2) l(3,4) by simp
qed

end
