(* ===== verification/Rx_Properties.thy ===== *)
theory Rx_Properties
  imports Forw_Queue
begin

text \<open>
  Properties of the receive path: processing a received packet ends, how deep reassembly can
  nest, what forwarding does to the time to live, and the delivery of a client's frame from
  the sending node to the client's node.
\<close>

section \<open>Buffered bytes\<close>

definition elen :: "batadv_frag_list_entry list \<Rightarrow> nat" where
  "elen l = sum_list (map (\<lambda>e. length (skb_data (fle_skb e))) l)"

definition fbytes :: "batadv_frag_table_entry list \<Rightarrow> nat" where
  "fbytes fr = sum_list (map (elen \<circ> fragment_list) fr)"

definition obytes :: "batadv_orig_node list \<Rightarrow> nat" where
  "obytes os = sum_list (map (fbytes \<circ> on_fragments) os)"

definition buffered :: "batadv_priv \<Rightarrow> nat" where
  "buffered bp = (case bp_orig_hash bp of None \<Rightarrow> 0 | Some h \<Rightarrow> obytes (concat (table h)))"

lemma elen_simps [simp]:
  "elen [] = 0" "elen (e # l) = length (skb_data (fle_skb e)) + elen l" "elen (l @ m) = elen l + elen m"
  by (simp_all add: elen_def)

lemma sum_list_update:
  "i < length l \<Longrightarrow> sum_list (map g (l[i := x])) + g (l ! i) = sum_list (map g l) + (g x :: nat)"
  by (induction l arbitrary: i) (auto split: nat.split)

lemma init_chain_bytes:
  assumes "batadv_frag_init_chain chain seqno = (chain', freed, new)"
  shows "elen (fragment_list chain') \<le> elen (fragment_list chain)"
  using assms by (auto simp: batadv_frag_init_chain_def batadv_frag_clear_chain_def split: if_splits)

lemma find_position_bytes:
  "frag_find_position b e l = Frag_inserted l' \<Longrightarrow>
     elen l' = length (skb_data (fle_skb e)) + elen l \<and> e \<in> set l'"
  by (induction b e l arbitrary: l' rule: frag_find_position.induct)
    (auto split: if_splits frag_position.splits)

lemma chain_check_bytes:
  assumes "frag_chain_check ts chain = (chain', out, freed)"
  shows "elen (fragment_list chain') + elen out \<le> elen (fragment_list chain)"
    and "out \<noteq> [] \<Longrightarrow> out = fragment_list chain"
  using assms by (auto simp: frag_chain_check_def batadv_frag_clear_chain_def split: if_splits)

lemma chain_insert_bytes:
  assumes "frag_chain_insert now seqno ts len e chain = (chain', out, freed, kept)"
  shows "elen (fragment_list chain') + elen out \<le> elen (fragment_list chain) + length (skb_data (fle_skb e))"
    and "kept \<Longrightarrow> out \<noteq> [] \<Longrightarrow> e \<in> set out"
proof -
  obtain c fr new where init: "batadv_frag_init_chain chain seqno = (c, fr, new)" by (metis prod_cases3)
  note b = init_chain_bytes [OF init]
  have "elen (fragment_list chain') + elen out \<le> elen (fragment_list chain) + length (skb_data (fle_skb e))
    \<and> (kept \<and> out \<noteq> [] \<longrightarrow> e \<in> set out)"
  proof (cases new)
    case True
    let ?c = "c\<lparr>fragment_list := [e], fte_size := len, fte_timestamp := now, fte_total_size := ts\<rparr>"
    obtain c' o' f' where chk: "frag_chain_check ts ?c = (c', o', f')" by (metis prod_cases3)
    show ?thesis using assms init True chk chain_check_bytes [OF chk] by (auto simp: frag_chain_insert_def)
  next
    case False
    show ?thesis
    proof (cases "frag_find_position False e (fragment_list c)")
      case Frag_duplicate
      then show ?thesis using assms init False b by (auto simp: frag_chain_insert_def)
    next
      case Frag_no_position
      obtain c' o' f' where chk: "frag_chain_check ts c = (c', o', f')" by (metis prod_cases3)
      show ?thesis
        using assms init False Frag_no_position chk chain_check_bytes(1) [OF chk] b
        by (auto simp: frag_chain_insert_def)
    next
      case (Frag_inserted l)
      let ?c = "c\<lparr>fragment_list := l, fte_size := fte_size c + len, fte_timestamp := now\<rparr>"
      obtain c' o' f' where chk: "frag_chain_check ts ?c = (c', o', f')" by (metis prod_cases3)
      note p = find_position_bytes [OF Frag_inserted]
      show ?thesis
        using assms init False Frag_inserted chk chain_check_bytes [OF chk] b p
        by (auto simp: frag_chain_insert_def)
    qed
  qed
  then show "elen (fragment_list chain') + elen out \<le> elen (fragment_list chain) + length (skb_data (fle_skb e))"
    "kept \<Longrightarrow> out \<noteq> [] \<Longrightarrow> e \<in> set out" by blast+
qed

lemma insert_packet_bytes:
  assumes r: "batadv_frag_insert_packet lin al now fr skb = (fr', out, freed, kept)" and fr: "length fr = 8"
  shows "length fr' = 8"
    and "kept \<Longrightarrow> fbytes fr' + elen out \<le> fbytes fr + length (skb_data skb)"
    and "kept \<Longrightarrow> out \<noteq> [] \<Longrightarrow> skb \<in> fle_skb ` set out"
proof -
  have "length fr' = 8 \<and> (kept \<longrightarrow> fbytes fr' + elen out \<le> fbytes fr + length (skb_data skb))
    \<and> (kept \<and> out \<noteq> [] \<longrightarrow> skb \<in> fle_skb ` set out)"
  proof (cases "lin \<and> al")
    case False
    then have "(fr', out, freed, kept) = (fr, [], [skb], False)"
      using r by (cases lin; cases al) (simp_all add: batadv_frag_insert_packet_def Let_def)
    then show ?thesis using fr by simp
  next
    case True
    let ?p = "get_frag_packet (skb_data skb)"
    let ?i = "unat (frag_seqno ?p) mod BATADV_FRAG_BUFFER_COUNT"
    let ?e = "\<lparr>fle_skb = skb, fle_no = ucast (frag_no ?p)\<rparr>"
    let ?len = "of_nat (length (skb_data skb)) - of_nat FRAG_HLEN :: u16"
    obtain c o' f' k' where ins: "frag_chain_insert now (frag_seqno ?p) (frag_total_size ?p) ?len ?e (fr ! ?i) = (c, o', f', k')"
      by (metis prod_cases4)
    have i: "?i < length fr" using fr by (simp add: BATADV_FRAG_BUFFER_COUNT_def)
    have eq: "fr' = fr[?i := c]" "out = o'" "kept = k'"
      using r True ins by (auto simp: batadv_frag_insert_packet_def Let_def)
    note cb = chain_insert_bytes [OF ins]
    have "fbytes (fr[?i := c]) + elen (fragment_list (fr ! ?i)) = fbytes fr + elen (fragment_list c)"
      using sum_list_update [OF i, of "elen \<circ> fragment_list" c] by (simp add: fbytes_def)
    then show ?thesis using cb eq fr by force
  qed
  then show "length fr' = 8" "kept \<Longrightarrow> fbytes fr' + elen out \<le> fbytes fr + length (skb_data skb)"
    "kept \<Longrightarrow> out \<noteq> [] \<Longrightarrow> skb \<in> fle_skb ` set out" by blast+
qed

lemma put_payloads_bytes:
  "frag_put_payloads room acc l = Kret m \<Longrightarrow>
     length m = length acc + sum_list (map (\<lambda>e. length (skb_data (fle_skb e)) - 20) l)"
  by (induction room acc l rule: frag_put_payloads.induct)
    (auto simp: Let_def FRAG_HLEN_def split: if_splits)

lemma payload_sum:
  "x \<in> set l \<Longrightarrow> 20 \<le> length (skb_data (fle_skb x)) \<Longrightarrow>
     sum_list (map (\<lambda>e. length (skb_data (fle_skb e)) - 20) l) + 20 \<le> elen l"
proof (induction l)
  case (Cons a l)
  have le: "sum_list (map (\<lambda>e. length (skb_data (fle_skb e)) - 20) l) \<le> elen l"
    unfolding elen_def by (rule sum_list_mono) simp
  show ?case using Cons le by auto
qed simp

lemma merge_bytes:
  assumes "batadv_frag_merge_packets ok l = Kret (Some m)" and "x \<in> set l" and "20 \<le> length (skb_data (fle_skb x))"
  shows "length (skb_data m) + 20 \<le> elen l"
proof -
  obtain e rest where l: "l = e # rest" using assms(2) by (cases l) auto
  let ?room = "int (unat (frag_total_size (get_frag_packet (skb_data (fle_skb e))))) + int FRAG_HLEN
      - int (length (skb_data (fle_skb e)))"
  obtain d where d: "frag_put_payloads ?room (drop FRAG_HLEN (skb_data (fle_skb e))) rest = Kret d"
    using assms(1) l by (auto simp: batadv_frag_merge_packets_def Let_def split: if_splits kresult.splits)
  then have "m = (fle_skb e)\<lparr>skb_data := d\<rparr>"
    using assms(1) l by (auto simp: batadv_frag_merge_packets_def Let_def split: if_splits)
  then have "length (skb_data m) = sum_list (map (\<lambda>e. length (skb_data (fle_skb e)) - 20) l)"
    using put_payloads_bytes [OF d] l by (simp add: FRAG_HLEN_def)
  then show ?thesis using payload_sum [OF assms(2,3)] by simp
qed

lemma skb_buffer_bytes:
  assumes r: "batadv_frag_skb_buffer env fr skb = Kret (fr', Some m, ok)" and "length fr = 8"
    and "20 \<le> length (skb_data skb)"
  shows "length fr' = 8 \<and> fbytes fr' + length (skb_data m) + 20 \<le> fbytes fr + length (skb_data skb)"
proof -
  obtain fr1 out freed kept where ins: "batadv_frag_insert_packet (rx_linearize_ok env) (rx_alloc_ok env)
      (rx_now env) fr skb = (fr1, out, freed, kept)" by (metis prod_cases4)
  have k: "kept" "out \<noteq> []" "fr' = fr1" "batadv_frag_merge_packets (rx_expand_ok env) out = Kret (Some m)"
    using r ins by (auto simp: batadv_frag_skb_buffer_def split: if_splits kresult.splits option.splits)
  obtain x where x: "x \<in> set out" "fle_skb x = skb"
    using insert_packet_bytes(3) [OF ins assms(2) k(1,2)] by auto
  show ?thesis
    using insert_packet_bytes(1,2) [OF ins assms(2)] merge_bytes [OF k(4) x(1)] x(2) assms(3) k by simp
qed

section \<open>The table of originators\<close>

lemma concat_update:
  "i < length t \<Longrightarrow> sum_list (map g (concat (t[i := b]))) + sum_list (map g (t ! i)) =
     sum_list (map g (concat t)) + (sum_list (map g b) :: nat)"
  by (induction t arbitrary: i) (auto split: nat.split)

lemma upd_first_sum:
  "find P l = Some x \<Longrightarrow> sum_list (map g (hlist_upd_first P f l)) + g x = sum_list (map g l) + (g (f x) :: nat)"
  by (induction l) (auto split: if_splits)

lemma buffered_orig_upd:
  assumes ok: "orig_table_ok k bp" and o1: "batadv_orig_hash_find k bp a = Some o1"
  shows "buffered (orig_upd k a f bp) + fbytes (on_fragments o1) = buffered bp + fbytes (on_fragments (f o1))"
proof -
  obtain h where h: "bp_orig_hash bp = Some h" "orig_hash.hash_ok (jhash k) h"
    using ok by (auto simp: orig_table_ok_def)
  let ?i = "batadv_choose_orig (jhash k) a (hash_size h)"
  let ?b = "hash_bucket h ?i"
  have i: "unat ?i < length (table h)" by (rule orig_hash.index_bound [OF h(2)])
  have find: "find (\<lambda>x. on_orig x = a) ?b = Some o1"
    using o1 h by (simp add: batadv_orig_hash_find_def Let_def)
  have "obytes (concat ((table h)[unat ?i := hlist_upd_first (\<lambda>x. on_orig x = a) f ?b])) + obytes ?b =
      obytes (concat (table h)) + obytes (hlist_upd_first (\<lambda>x. on_orig x = a) f ?b)"
    using concat_update [OF i, of "fbytes \<circ> on_fragments"] by (simp add: obytes_def hash_bucket_def)
  moreover have "obytes (hlist_upd_first (\<lambda>x. on_orig x = a) f ?b) + fbytes (on_fragments o1) =
      obytes ?b + fbytes (on_fragments (f o1))"
    using upd_first_sum [OF find, of "fbytes \<circ> on_fragments" f] by (simp add: obytes_def)
  ultimately show ?thesis
    using h by (simp add: buffered_def orig_upd_def Let_def)
qed

definition chains_ok :: "node_kenv \<Rightarrow> batadv_priv \<Rightarrow> bool" where
  "chains_ok k bp \<longleftrightarrow> orig_table_ok k bp
     \<and> (\<forall>a o1. batadv_orig_hash_find k bp a = Some o1 \<longrightarrow> length (on_fragments o1) = 8)"

lemma chains_ok_upd:
  assumes "chains_ok k bp" and "\<And>o1. on_orig (f o1) = on_orig o1"
    and "\<And>o1. batadv_orig_hash_find k bp a = Some o1 \<Longrightarrow> length (on_fragments (f o1)) = 8"
  shows "chains_ok k (orig_upd k a f bp)"
  using assms orig_upd_find [of k bp f a] by (auto simp: chains_ok_def split: if_splits)

lemma chains_ok_cong:
  "bp_orig_hash bp = bp_orig_hash bp' \<Longrightarrow> chains_ok k bp \<longleftrightarrow> chains_ok k bp'"
  by (simp add: chains_ok_def orig_table_ok_def batadv_orig_hash_find_def)

lemma buffered_cong: "bp_orig_hash bp = bp_orig_hash bp' \<Longrightarrow> buffered bp = buffered bp'"
  by (simp add: buffered_def)

lemma nd_priv_upd_sel [simp]:
  "nd_priv (nd_priv_upd f nd) = f (nd_priv nd)"
  "nd_priv (nd_emit e nd) = nd_priv nd"
  "nd_rx_handler (nd_priv_upd f nd) = nd_rx_handler nd"
  "nd_rx_handler (nd_emit e nd) = nd_rx_handler nd"
  "nd_out (nd_priv_upd f nd) = nd_out nd"
  "nd_out (nd_emit e nd) = nd_out nd @ [e]"
  by (simp_all add: nd_priv_upd_def nd_mesh_upd_def nd_emit_def)

lemma node_counter_sel [simp]:
  "bp_orig_hash (nd_priv (node_counter i n nd)) = bp_orig_hash (nd_priv nd)"
  "bp_hard_ifaces (nd_priv (node_counter i n nd)) = bp_hard_ifaces (nd_priv nd)"
  "bp_mesh_state (nd_priv (node_counter i n nd)) = bp_mesh_state (nd_priv nd)"
  "bp_bonding (nd_priv (node_counter i n nd)) = bp_bonding (nd_priv nd)"
  "nd_rx_handler (node_counter i n nd) = nd_rx_handler nd"
  "nd_out (node_counter i n nd) = nd_out nd"
  by (simp_all add: node_counter_def batadv_add_counter_def)

lemma find_router_keeps:
  assumes "batadv_find_router sob b o1 i = (r, o2)"
  shows "on_orig o2 = on_orig o1 \<and> on_fragments o2 = on_fragments o1 \<and> on_last_ttvn o2 = on_last_ttvn o1"
  using assms by (auto simp: batadv_find_router_def batadv_last_bonding_replace_def Let_def
      split: option.splits if_splits prod.splits)

lemma upd_first_cond: "hlist_upd_first P (\<lambda>_. y) l = hlist_upd_first P (\<lambda>x. if P x then y else x) l"
  by (induction l) auto

lemma orig_upd_replace:
  assumes "batadv_orig_hash_find k bp a = Some o1"
  shows "orig_upd k a (\<lambda>_. o2) bp = orig_upd k a (\<lambda>x. if on_orig x = a then o2 else x) bp"
  unfolding orig_upd_def Let_def
  by (simp add: upd_first_cond [of "\<lambda>x. on_orig x = a"] split: option.split)

lemma orig_to_router_keeps:
  assumes "batadv_orig_to_router k a i nd = (n, nd')" and "chains_ok k (nd_priv nd)"
  shows "chains_ok k (nd_priv nd') \<and> buffered (nd_priv nd') = buffered (nd_priv nd)"
proof (cases "batadv_orig_hash_find k (nd_priv nd) a")
  case None
  then show ?thesis using assms by (simp add: batadv_orig_to_router_def)
next
  case (Some o1)
  obtain r o2 where fr: "batadv_find_router (nk_sob k) (bp_bonding (nd_priv nd)) o1 i = (r, o2)" by fastforce
  note keep = find_router_keeps [OF fr]
  have o1: "on_orig o1 = a" by (rule orig_hash_find_SomeD [OF Some])
  have nd': "nd_priv nd' = orig_upd k a (\<lambda>x. if on_orig x = a then o2 else x) (nd_priv nd)"
    using assms(1) Some fr by (auto simp: batadv_orig_to_router_def orig_upd_replace [OF Some])
  have t: "orig_table_ok k (nd_priv nd)" using assms(2) by (simp add: chains_ok_def)
  have l: "length (on_fragments o1) = 8" using assms(2) Some by (auto simp: chains_ok_def)
  have "chains_ok k (nd_priv nd')"
    unfolding nd' using keep o1 l Some by (intro chains_ok_upd [OF assms(2)]) auto
  then show ?thesis
    using buffered_orig_upd [OF t Some, of "\<lambda>x. if on_orig x = a then o2 else x"] keep o1 by (simp add: nd')
qed

text \<open>A fragment that completes a packet shortens what is buffered and in hand by its header.\<close>

lemma recv_frag_bytes:
  assumes r: "recv_frag k skb i nd = Kret (ret, nd', Some m)" and ok: "chains_ok k (nd_priv nd)"
  shows "chains_ok k (nd_priv nd')
    \<and> buffered (nd_priv nd') + length (skb_data m) + 20 \<le> buffered (nd_priv nd) + length (skb_data skb)"
proof -
  let ?p = "get_frag_packet (skb_data skb)"
  let ?skb = "skb\<lparr>skb_priority := ucast (frag_priority ?p) + 256\<rparr>"
  have chk: "check_unicast_ok k skb 20 nd"
    using r by (auto simp: recv_frag_def Let_def split: if_splits)
  then have len: "20 \<le> length (skb_data skb)"
    by (auto simp: check_unicast_ok_def batadv_check_unicast_packet_def pskb_may_pull_def ENODATA_def split: if_splits)
  define fwd where "fwd = (if batadv_is_my_mac (nd_priv nd) (frag_dest ?p) then (False, nd)
      else batadv_frag_skb_fwd k ?skb i nd)"
  obtain nd1 where fwd': "fwd = (False, nd1)"
    using r chk by (cases fwd; cases "fst fwd")
      (auto simp: recv_frag_def Let_def fwd_def [symmetric] split: if_splits prod.splits)
  have k1: "chains_ok k (nd_priv nd1) \<and> buffered (nd_priv nd1) = buffered (nd_priv nd)"
  proof (cases "batadv_is_my_mac (nd_priv nd) (frag_dest ?p)")
    case True
    then show ?thesis using fwd' ok by (simp add: fwd_def)
  next
    case False
    obtain n nd2 where rt: "batadv_orig_to_router k (frag_dest ?p) (Some i) nd = (n, nd2)" by fastforce
    have "nd1 = nd2"
      using False fwd' rt by (auto simp: fwd_def batadv_frag_skb_fwd_def Let_def split: option.splits if_splits)
    then show ?thesis using orig_to_router_keeps [OF rt ok] by simp
  qed
  let ?nd2 = "nd_emit (Frag_buffer ?skb) (node_counter BATADV_CNT_FRAG_RX_BYTES (ucast (skb_len ?skb))
      (node_counter BATADV_CNT_FRAG_RX 1 nd1))"
  have h2: "bp_orig_hash (nd_priv ?nd2) = bp_orig_hash (nd_priv nd1)" by simp
  have ok2: "chains_ok k (nd_priv ?nd2)" using k1 chains_ok_cong [OF h2] by blast
  have b2: "buffered (nd_priv ?nd2) = buffered (nd_priv nd)" using k1 buffered_cong [OF h2] by simp
  obtain o1 fr ok' where o1: "batadv_orig_hash_find k (nd_priv ?nd2) (frag_orig ?p) = Some o1"
    and buf: "batadv_frag_skb_buffer ((nk_frag_rx k (nd_pos ?nd2))\<lparr>rx_now := jiffies k\<rparr>) (on_fragments o1) ?skb
      = Kret (fr, Some m, ok')"
    and nd': "nd' = nd_priv_upd (orig_upd k (frag_orig ?p) (\<lambda>o1. o1\<lparr>on_fragments := fr\<rparr>)) ?nd2"
  proof (cases "batadv_orig_hash_find k (nd_priv ?nd2) (frag_orig ?p)")
    case None
    then show ?thesis using r chk fwd' by (auto simp: recv_frag_def Let_def fwd_def split: if_splits)
  next
    case (Some o1)
    then show ?thesis using r chk fwd' that
      by (cases "batadv_frag_skb_buffer ((nk_frag_rx k (nd_pos ?nd2))\<lparr>rx_now := jiffies k\<rparr>) (on_fragments o1) ?skb")
        (auto simp: recv_frag_def Let_def fwd_def split: if_splits prod.splits)
  qed
  have l8: "length (on_fragments o1) = 8" using ok2 o1 by (auto simp: chains_ok_def)
  note sb = skb_buffer_bytes [OF buf l8]
  have t2: "orig_table_ok k (nd_priv ?nd2)" using ok2 by (simp add: chains_ok_def)
  have "chains_ok k (nd_priv nd')"
    unfolding nd' nd_priv_upd_sel(1) using sb len by (intro chains_ok_upd [OF ok2]) auto
  moreover have "buffered (nd_priv nd') + fbytes (on_fragments o1) = buffered (nd_priv nd) + fbytes fr"
    using buffered_orig_upd [OF t2 o1, of "\<lambda>o1. o1\<lparr>on_fragments := fr\<rparr>"] b2 by (simp add: nd')
  ultimately show ?thesis using sb len by simp
qed

lemma rx_dispatch_merged:
  assumes "rx_dispatch k hs algo skb i nd = Kret (ret, nd', Some m)"
  shows "recv_frag k skb i nd = Kret (ret, nd', Some m)"
proof -
  have simple: "kbind r (\<lambda>(ret, nd). Kret (ret, nd, None)) \<noteq> Kret (ret, nd', Some m)"
    for r :: "(int \<times> node) kresult" by (cases r) auto
  show ?thesis
    using assms simple by (auto simp: rx_dispatch_def Let_def split: rx_handler.splits)
qed

text \<open>
  C5: Receiving a packet returns, with a bounded stack: reassembled packets are handed to the
  receive path recursively, but every level consumes a fragment header, so a stack that is one
  level deeper than the bytes of the packet and of all buffered fragments divided by the size of
  the header always suffices.
\<close>

theorem recv_returns:
  assumes "chains_ok k (nd_priv nd)"
    and "(length (skb_data skb) + buffered (nd_priv nd)) div 20 < fuel"
  shows "\<exists>r. batadv_batman_skb_recv fuel k hs algo skb i nd = Some r"
  using assms
proof (induction fuel arbitrary: skb nd)
  case (Suc fuel)
  show ?case
  proof (cases "\<not> nk_clone_ok k (nd_pos nd) \<or> \<not> recv_acceptable k skb i nd")
    case False
    show ?thesis
    proof (cases "rx_dispatch k hs algo skb i nd")
      case (Kret x)
      obtain ret nd' m where x: "x = (ret, nd', m)" by (metis prod_cases3)
      show ?thesis
      proof (cases m)
        case (Some s)
        have f: "recv_frag k skb i nd = Kret (ret, nd', Some s)"
          using rx_dispatch_merged Kret x Some by blast
        note b = recv_frag_bytes [OF f Suc.prems(1)]
        have "(length (skb_data s) + buffered (nd_priv nd')) div 20 < fuel"
          using b Suc.prems(2) by linarith
        with Suc.IH [of nd' s] b obtain r where "batadv_batman_skb_recv fuel k hs algo s i nd' = Some r" by blast
        then show ?thesis using False Kret x Some by simp
      qed (use False Kret x in simp)
    qed (use False in simp)
  qed simp
qed simp


lemma ex_orig_table: "orig_table_ok k (nd_priv ex_node)"
  using orig_hash.new_ok [of 2 "jhash k"] by (simp add: orig_table_ok_def ex_node_def ex_bla0_def ex_acc_mesh_def)

lemma ex_orig_none: "batadv_orig_hash_find k (nd_priv ex_node) a = None"
  using orig_hash.new_ok [of 2 "jhash k" a] orig_hash_find_eq [of "nd_priv ex_node" "batadv_hash_init 2" k a]
  by (simp add: ex_node_def ex_bla0_def ex_acc_mesh_def)

lemma ex_buffered: "buffered (nd_priv ex_node) = 0"
  by (simp add: buffered_def ex_node_def ex_bla0_def ex_acc_mesh_def batadv_hash_init_def obytes_def)

text \<open>The example node after it has learnt the originator \<open>from\<close>.\<close>

definition ex_from :: mac where "ex_from = Mac 2 0 0 0 0 5"

definition ex_known :: node where
  "ex_known = nd_priv_upd (\<lambda>bp. snd (batadv_v_ogm_orig_get ex_node_kenv bp ex_from)) ex_node"

lemma ex_orig_new:
  assumes "\<And>s. kalloc_ok k s"
  obtains o1 where "batadv_orig_node_new k a = Some o1" "length (on_fragments o1) = 8"
    "\<forall>c \<in> set (on_fragments o1). fte_seqno c = 0"
  using assms by (force simp: batadv_orig_node_new_def batadv_orig_node_vlan_new_def batadv_orig_node_vlan_get_def
      batadv_vlan_id_valid_def Let_def BATADV_FRAG_BUFFER_COUNT_def)

lemma ex_known:
  shows "chains_ok ex_node_kenv (nd_priv ex_known)"
    and "\<exists>o1. batadv_orig_hash_find ex_node_kenv (nd_priv ex_known) ex_from = Some o1
      \<and> (\<forall>c \<in> set (on_fragments o1). fte_seqno c = 0)"
proof -
  obtain r bp where get: "batadv_v_ogm_orig_get ex_node_kenv (nd_priv ex_node) ex_from = (r, bp)" by fastforce
  have ok: "kalloc_ok ex_node_kenv s" for s by (simp add: ex_node_simps ex_tt_kenv_def)
  obtain o1 where new: "batadv_orig_node_new ex_node_kenv ex_from = Some o1" "length (on_fragments o1) = 8"
      "\<forall>c \<in> set (on_fragments o1). fte_seqno c = 0"
    by (rule ex_orig_new [OF ok])
  note c = orig_get_cases [OF ex_orig_table get]
  have eq: "nd_priv ex_known = bp" by (simp add: ex_known_def get)
  have f: "batadv_orig_hash_find ex_node_kenv bp = [ex_from \<mapsto> o1]"
    using c new by (auto simp: ex_orig_none fun_eq_iff)
  show "chains_ok ex_node_kenv (nd_priv ex_known)"
    using c new by (auto simp: chains_ok_def eq f)
  show "\<exists>o1. batadv_orig_hash_find ex_node_kenv (nd_priv ex_known) ex_from = Some o1
      \<and> (\<forall>c \<in> set (on_fragments o1). fte_seqno c = 0)"
    using new by (simp add: eq f)
qed

theorem recv_returns_witness:
  "\<exists>r. batadv_batman_skb_recv 5 ex_node_kenv [] (\<lambda>skb i nd. Kernel_bug) ex_bcast 1 ex_node = Some r"
proof (rule recv_returns)
  show "chains_ok ex_node_kenv (nd_priv ex_node)" by (simp add: chains_ok_def ex_orig_table ex_orig_none)
  show "(length (skb_data ex_bcast) + buffered (nd_priv ex_node)) div 20 < 5"
    by (simp add: ex_buffered ex_bcast_def bcast_fmt.length_enc)
qed

section \<open>Nested fragments\<close>

text \<open>A packet that is the only fragment of a packet that is the only fragment \<open>\<dots>\<close>\<close>

fun nest :: "mac \<Rightarrow> mac \<Rightarrow> nat \<Rightarrow> bytes" where
  "nest me from 0 = []"
| "nest me from (Suc n) =
     frag_packet_bytes \<lparr>frag_packet_type = BATADV_UNICAST_FRAG, frag_version = BATADV_COMPAT_VERSION,
        frag_ttl = 50, frag_no = 0, frag_priority = 0, frag_reserved = 0, frag_dest = me, frag_orig = from,
        frag_seqno = of_nat (Suc n), frag_total_size = of_nat (length (nest me from n))\<rparr> @ nest me from n"

lemma length_nest [simp]: "length (nest me from n) = 20 * n"
  by (induction n) (simp_all add: frag_fmt.length_enc)

text \<open>Nothing fails, and no chain of the originator uses a sequence number that is still to come.\<close>

definition rx_env_ok :: "node_kenv \<Rightarrow> bool" where
  "rx_env_ok k \<longleftrightarrow> (\<forall>n. nk_clone_ok k n) \<and> (\<forall>n. nk_pull_ok k n) \<and> (\<forall>n. nk_mac_header_ok k n)
     \<and> (\<forall>n. rx_linearize_ok (nk_frag_rx k n) \<and> rx_alloc_ok (nk_frag_rx k n) \<and> rx_expand_ok (nk_frag_rx k n))"

definition nest_ready :: "node_kenv \<Rightarrow> ifindex \<Rightarrow> mac \<Rightarrow> mac \<Rightarrow> nat \<Rightarrow> node \<Rightarrow> bool" where
  "nest_ready k i me from n nd \<longleftrightarrow> chains_ok k (nd_priv nd) \<and> nd_rx_handler nd BATADV_UNICAST_FRAG = Rx_frag
     \<and> bp_mesh_state (nd_priv nd) = BATADV_MESH_ACTIVE
     \<and> (\<exists>h. hard_iface_get (nd_priv nd) i = Some h \<and> hi_if_status h = BATADV_IF_ACTIVE)
     \<and> batadv_is_my_mac (nd_priv nd) me
     \<and> (\<exists>o1. batadv_orig_hash_find k (nd_priv nd) from = Some o1
          \<and> (\<forall>c \<in> set (on_fragments o1). unat (fte_seqno c) \<notin> {1..n}))"

lemma init_chain_new:
  "fte_seqno chain \<noteq> seqno \<Longrightarrow>
     \<exists>c f. batadv_frag_init_chain chain seqno = (c, f, True) \<and> fte_seqno c = seqno"
  by (cases "fragment_list chain = []") (simp_all add: batadv_frag_init_chain_def batadv_frag_clear_chain_def)

lemma single_fragment:
  assumes env: "rx_linearize_ok e" "rx_alloc_ok e" "rx_expand_ok e"
    and fr: "length fr = 8" "\<forall>c \<in> set fr. unat (fte_seqno c) \<notin> {1..Suc n}"
    and n: "n \<le> 1000" and data: "skb_data skb = nest me from (Suc n)"
  shows "\<exists>fr'. batadv_frag_skb_buffer e fr skb = Kret (fr', Some (skb\<lparr>skb_data := nest me from n\<rparr>), True)
     \<and> length fr' = 8 \<and> (\<forall>c \<in> set fr'. unat (fte_seqno c) \<notin> {1..n})"
proof -
  let ?p = "get_frag_packet (skb_data skb)"
  let ?e = "\<lparr>fle_skb = skb, fle_no = 0\<rparr>"
  let ?i = "unat (of_nat (Suc n) :: u16) mod 8"
  have p: "frag_seqno ?p = of_nat (Suc n)" "frag_total_size ?p = of_nat (20 * n)" "frag_no ?p = 0"
    by (simp_all add: data frag_fmt.dec_enc)
  have sn: "unat (of_nat (Suc n) :: u16) = Suc n"
    using n by (simp add: unat_of_nat del: of_nat_Suc of_nat_mult)
  have tot: "unat (of_nat (20 * n) :: u16) = 20 * n"
    using n by (simp add: unat_of_nat del: of_nat_Suc of_nat_mult)
  have i: "?i < length fr" using fr(1) by simp
  have "fr ! ?i \<in> set fr" using i by (rule nth_mem)
  with fr(2) sn have "fte_seqno (fr ! ?i) \<noteq> of_nat (Suc n)" by force
  then obtain c f where init: "batadv_frag_init_chain (fr ! ?i) (of_nat (Suc n)) = (c, f, True)"
    and cs: "fte_seqno c = of_nat (Suc n)"
    using init_chain_new by blast
  have len: "of_nat (length (skb_data skb)) - of_nat FRAG_HLEN = (of_nat (20 * n) :: u16)"
    by (simp add: data FRAG_HLEN_def frag_fmt.length_enc)
  let ?c = "c\<lparr>fragment_list := [], fte_size := 0, fte_timestamp := rx_now e, fte_total_size := of_nat (20 * n)\<rparr>"
  have chk: "frag_chain_check (of_nat (20 * n)) (c\<lparr>fragment_list := [?e], fte_size := of_nat (20 * n),
      fte_timestamp := rx_now e, fte_total_size := of_nat (20 * n)\<rparr>) = (?c, [?e], [])"
    unfolding frag_chain_check_def frag_size_limit_eq using n tot by simp
  have ins: "frag_chain_insert (rx_now e) (of_nat (Suc n)) (of_nat (20 * n)) (of_nat (20 * n)) ?e (fr ! ?i) = (?c, [?e], f, True)"
    unfolding frag_chain_insert_def init by (simp only: prod.case bool.case chk) simp
  have ipk: "batadv_frag_insert_packet (rx_linearize_ok e) (rx_alloc_ok e) (rx_now e) fr skb = (fr[?i := ?c], [?e], f, True)"
    unfolding batadv_frag_insert_packet_def Let_def p len BATADV_FRAG_BUFFER_COUNT_def
    using env ins by (simp del: of_nat_Suc of_nat_mult)
  have mrg: "batadv_frag_merge_packets (rx_expand_ok e) [?e] = Kret (Some (skb\<lparr>skb_data := nest me from n\<rparr>))"
  proof -
    have ft: "int (unat (frag_total_size (get_frag_packet (nest me from (Suc n))))) = int (20 * n)"
      using p(2) tot data by (simp del: nest.simps of_nat_mult)
    have dr: "drop 20 (nest me from (Suc n)) = nest me from n" by (simp add: frag_fmt.length_enc)
    show ?thesis
      unfolding batadv_frag_merge_packets_def Let_def list.case batadv_frag_list_entry.select_convs data ft FRAG_HLEN_def dr
      using env by (simp add: frag_fmt.length_enc)
  qed
  have "\<forall>c' \<in> set (fr[?i := ?c]). unat (fte_seqno c') \<notin> {1..n}"
    using fr(2) sn cs by (auto dest!: set_update_subset_insert [THEN subsetD] simp del: of_nat_Suc)
  then show ?thesis
    using ipk mrg fr(1) by (intro exI [of _ "fr[?i := ?c]"]) (simp add: batadv_frag_skb_buffer_def del: of_nat_Suc)
qed


lemma nest_step:
  assumes k: "rx_env_ok k" and r: "nest_ready k i me from (Suc n) nd" and n: "n \<le> 1000"
    and skb: "skb_data skb = nest me from (Suc n)" "is_valid_ether_addr (h_dest skb)"
      "\<not> is_multicast_ether_addr (h_source skb)" "batadv_is_my_mac (nd_priv nd) (h_dest skb)"
  shows "\<exists>nd' p. recv_frag k skb i nd = Kret (NET_RX_SUCCESS, nd', Some (skb\<lparr>skb_data := nest me from n, skb_priority := p\<rparr>))
    \<and> nest_ready k i me from n nd' \<and> bp_hard_ifaces (nd_priv nd') = bp_hard_ifaces (nd_priv nd)"
proof -
  let ?p = "get_frag_packet (skb_data skb)"
  have p: "frag_dest ?p = me" "frag_orig ?p = from" "frag_priority ?p = 0"
    by (simp_all add: skb(1) frag_fmt.dec_enc)
  let ?skb = "skb\<lparr>skb_priority := ucast (frag_priority ?p) + 256\<rparr>"
  have chk: "check_unicast_ok k skb 20 nd"
    using k skb by (simp add: check_unicast_ok_def batadv_check_unicast_packet_def pskb_may_pull_def
        nk_skb_env_def rx_env_ok_def frag_fmt.length_enc)
  obtain o1 where o1: "batadv_orig_hash_find k (nd_priv nd) from = Some o1"
      "\<forall>c \<in> set (on_fragments o1). unat (fte_seqno c) \<notin> {1..Suc n}"
    and ok: "chains_ok k (nd_priv nd)" and mine: "batadv_is_my_mac (nd_priv nd) me"
    using r by (auto simp: nest_ready_def)
  let ?nd2 = "nd_emit (Frag_buffer ?skb) (node_counter BATADV_CNT_FRAG_RX_BYTES (ucast (skb_len ?skb))
      (node_counter BATADV_CNT_FRAG_RX 1 nd))"
  have h2: "bp_orig_hash (nd_priv ?nd2) = bp_orig_hash (nd_priv nd)" by simp
  have ok2: "chains_ok k (nd_priv ?nd2)" using ok chains_ok_cong [OF h2] by blast
  have find2: "batadv_orig_hash_find k (nd_priv ?nd2) from = Some o1"
    using o1(1) h2 by (simp add: batadv_orig_hash_find_def)
  have l8: "length (on_fragments o1) = 8" using ok o1 by (auto simp: chains_ok_def)
  let ?e = "(nk_frag_rx k (nd_pos ?nd2))\<lparr>rx_now := jiffies k\<rparr>"
  have d: "skb_data ?skb = nest me from (Suc n)" using skb(1) by simp
  have e: "rx_linearize_ok ?e" "rx_alloc_ok ?e" "rx_expand_ok ?e" using k by (simp_all add: rx_env_ok_def)
  obtain fr where fr: "batadv_frag_skb_buffer ?e (on_fragments o1) ?skb
      = Kret (fr, Some (?skb\<lparr>skb_data := nest me from n\<rparr>), True)"
    "length fr = 8" "\<forall>c \<in> set fr. unat (fte_seqno c) \<notin> {1..n}"
    using single_fragment [OF e l8 o1(2) n d] by blast
  let ?f = "\<lambda>o1. o1\<lparr>on_fragments := fr\<rparr>"
  let ?nd' = "nd_priv_upd (orig_upd k from ?f) ?nd2"
  have rf: "recv_frag k skb i nd = Kret (NET_RX_SUCCESS, ?nd', Some (?skb\<lparr>skb_data := nest me from n\<rparr>))"
    using chk o1(1) find2 fr(1) mine by (simp add: recv_frag_def Let_def p)
  have t2: "orig_table_ok k (nd_priv ?nd2)" using ok2 by (simp add: chains_ok_def)
  have find': "batadv_orig_hash_find k (orig_upd k from ?f (nd_priv ?nd2)) from = Some (?f o1)"
    using orig_upd_find(2) [OF t2, of ?f "from"] find2 by simp
  have keep: "bp_hard_ifaces (nd_priv ?nd') = bp_hard_ifaces (nd_priv nd)"
    "bp_mesh_state (nd_priv ?nd') = bp_mesh_state (nd_priv nd)" "nd_rx_handler ?nd' = nd_rx_handler nd"
    by (simp_all add: orig_upd_def Let_def split: option.split)
  have "chains_ok k (nd_priv ?nd')"
    unfolding nd_priv_upd_sel(1) using fr(2) by (intro chains_ok_upd [OF ok2]) auto
  then have "nest_ready k i me from n ?nd'"
    using r find' fr(3) keep by (simp add: nest_ready_def hard_iface_get_def batadv_is_my_mac_def)
  then show ?thesis using rf keep(1) by (intro exI [of _ ?nd'] exI [of _ "ucast (frag_priority ?p) + 256"]) simp
qed

text \<open>
  C6: Fragments may be nested, and every level of nesting is one more level of the kernel's
  stack: for every depth up to 1000 there is a packet, 20 bytes for a level, that is not received
  with a stack of that many levels. Nothing in the receive path limits the depth.
\<close>

theorem nested_fragments_recurse:
  assumes "rx_env_ok k" and "nest_ready k i me from n nd" and "n \<le> 1000"
    and "skb_data skb = nest me from n" and "is_valid_ether_addr (h_dest skb)"
    and "\<not> is_multicast_ether_addr (h_source skb)" and "batadv_is_my_mac (nd_priv nd) (h_dest skb)"
  shows "batadv_batman_skb_recv n k hs algo skb i nd = None"
  using assms(2-)
proof (induction n arbitrary: skb nd)
  case (Suc n)
  obtain nd' p where s: "recv_frag k skb i nd = Kret (NET_RX_SUCCESS, nd', Some (skb\<lparr>skb_data := nest me from n, skb_priority := p\<rparr>))"
    "nest_ready k i me from n nd'" "bp_hard_ifaces (nd_priv nd') = bp_hard_ifaces (nd_priv nd)"
    using nest_step [OF assms(1) Suc.prems(1) _ Suc.prems(3-6)] Suc.prems(2) by fastforce
  have hd: "skb_data skb ! 0 = BATADV_UNICAST_FRAG" "skb_data skb ! Suc 0 = BATADV_COMPAT_VERSION"
    by (simp_all add: Suc.prems(3) frag_packet_bytes_def)
  have acc: "nk_clone_ok k (nd_pos nd)" "recv_acceptable k skb i nd"
    using assms(1) Suc.prems(1) hd Suc.prems(3)
    by (auto simp: rx_env_ok_def nest_ready_def recv_acceptable_def nk_may_pull_def frag_fmt.length_enc)
  have disp: "rx_dispatch k hs algo skb i nd = recv_frag k skb i nd"
    using Suc.prems(1) hd by (simp add: rx_dispatch_def nest_ready_def)
  have "batadv_batman_skb_recv n k hs algo (skb\<lparr>skb_data := nest me from n, skb_priority := p\<rparr>) i nd' = None"
    using Suc.prems s by (intro Suc.IH) (auto simp: batadv_is_my_mac_def)
  then show ?case using acc disp s(1) by simp
qed simp

definition ex_nested :: "nat \<Rightarrow> sk_buff" where
  "ex_nested n = \<lparr>h_dest = Mac 2 0 0 0 0 1, h_source = Mac 2 0 0 0 0 3,
     skb_data = nest (Mac 2 0 0 0 0 1) ex_from n, skb_priority = 0\<rparr>"

lemma ex_known_facts:
  "bp_hard_ifaces (nd_priv ex_known) = [ex_node_iface]"
  "bp_mesh_state (nd_priv ex_known) = BATADV_MESH_ACTIVE" "nd_rx_handler ex_known = batadv_recv_handler_init"
  "batadv_is_my_mac (nd_priv ex_known) (Mac 2 0 0 0 0 1)"
proof -
  show keep: "bp_hard_ifaces (nd_priv ex_known) = [ex_node_iface]"
    "bp_mesh_state (nd_priv ex_known) = BATADV_MESH_ACTIVE" "nd_rx_handler ex_known = batadv_recv_handler_init"
    by (simp_all add: ex_known_def batadv_v_ogm_orig_get_def ex_orig_none ex_iface
        split: option.split prod.split) (simp_all add: ex_node_simps ex_priv_def)
  show "batadv_is_my_mac (nd_priv ex_known) (Mac 2 0 0 0 0 1)"
    by (simp add: batadv_is_my_mac_def keep ex_iface) (simp add: ex_node_simps)
qed

theorem nested_fragments_recurse_witness:
  "batadv_batman_skb_recv 1000 ex_node_kenv [] (\<lambda>skb i nd. Kernel_bug) (ex_nested 1000) 1 ex_known = None"
proof -
  note keep = ex_known_facts
  have "rx_env_ok ex_node_kenv" by (simp add: rx_env_ok_def ex_node_kenv_def bla_kenv.defs)
  moreover have "nest_ready ex_node_kenv 1 (Mac 2 0 0 0 0 1) ex_from 1000 ex_known"
    using ex_known keep
    by (auto simp: nest_ready_def hard_iface_get_def ex_iface batadv_recv_handler_init_def)
  ultimately show ?thesis
    by (rule nested_fragments_recurse) (simp_all add: ex_nested_def keep is_valid_ether_addr_def is_zero_ether_addr_def)
qed

section \<open>The types of the fragment tables\<close>

text \<open>Every originator has a well-formed table of fragments.\<close>

definition frags_typed :: "node_kenv \<Rightarrow> batadv_priv \<Rightarrow> bool" where
  "frags_typed k bp \<longleftrightarrow> orig_table_ok k bp
     \<and> (\<forall>a o1. batadv_orig_hash_find k bp a = Some o1 \<longrightarrow> frag_table_ok (on_fragments o1))"

lemma frags_typed_cong:
  "bp_orig_hash bp = bp_orig_hash bp' \<Longrightarrow> frags_typed k bp \<longleftrightarrow> frags_typed k bp'"
  by (simp add: frags_typed_def orig_table_ok_def batadv_orig_hash_find_def)

lemma frags_typed_upd:
  assumes "frags_typed k bp" and "\<And>o1. on_orig (f o1) = on_orig o1"
    and "\<And>o1. batadv_orig_hash_find k bp a = Some o1 \<Longrightarrow> frag_table_ok (on_fragments (f o1))"
  shows "frags_typed k (orig_upd k a f bp)"
  using assms orig_upd_find [of k bp f a] by (auto simp: frags_typed_def split: if_splits)

lemma orig_to_router_typed:
  assumes "batadv_orig_to_router k a i nd = (n, nd')" and "frags_typed k (nd_priv nd)"
  shows "frags_typed k (nd_priv nd')"
proof (cases "batadv_orig_hash_find k (nd_priv nd) a")
  case (Some o1)
  obtain r o2 where fr: "batadv_find_router (nk_sob k) (bp_bonding (nd_priv nd)) o1 i = (r, o2)" by fastforce
  note keep = find_router_keeps [OF fr]
  have o1: "on_orig o1 = a" by (rule orig_hash_find_SomeD [OF Some])
  have nd': "nd_priv nd' = orig_upd k a (\<lambda>x. if on_orig x = a then o2 else x) (nd_priv nd)"
    using assms(1) Some fr by (auto simp: batadv_orig_to_router_def orig_upd_replace [OF Some])
  have "frag_table_ok (on_fragments o1)" using assms(2) Some by (auto simp: frags_typed_def)
  then show ?thesis
    unfolding nd' using keep o1 Some by (intro frags_typed_upd [OF assms(2)]) auto
qed (use assms in \<open>simp add: batadv_orig_to_router_def\<close>)

lemma send_unicast_orig_hash:
  "bp_orig_hash (nd_priv (snd (batadv_send_unicast_skb k skb neigh nd))) = bp_orig_hash (nd_priv nd)"
  by (auto simp: batadv_send_unicast_skb_def batadv_send_skb_packet_def hard_iface_upd_def case_prod_beta
      split: option.split)

lemma frag_skb_fwd_typed:
  assumes "frags_typed k (nd_priv nd)"
  shows "frags_typed k (nd_priv (snd (batadv_frag_skb_fwd k skb i nd)))"
proof -
  obtain n nd2 where rt: "batadv_orig_to_router k (frag_dest (get_frag_packet (skb_data skb))) (Some i) nd = (n, nd2)"
    by fastforce
  have "bp_orig_hash (nd_priv (snd (batadv_frag_skb_fwd k skb i nd))) = bp_orig_hash (nd_priv nd2)"
    using rt by (simp add: batadv_frag_skb_fwd_def Let_def send_unicast_orig_hash split: option.split)
  then show ?thesis using orig_to_router_typed [OF rt assms] frags_typed_cong by blast
qed

definition frag_fwd_step :: "node_kenv \<Rightarrow> sk_buff \<Rightarrow> ifindex \<Rightarrow> node \<Rightarrow> bool \<times> node" where
  "frag_fwd_step k skb i nd =
     (if batadv_is_my_mac (nd_priv nd) (frag_dest (get_frag_packet (skb_data skb))) then (False, nd)
      else batadv_frag_skb_fwd k
             (skb\<lparr>skb_priority := ucast (frag_priority (get_frag_packet (skb_data skb))) + 256\<rparr>) i nd)"

lemma recv_frag_accepted:
  assumes "check_unicast_ok k skb 20 nd"
    and "batadv_orig_hash_find k (nd_priv nd) (frag_orig (get_frag_packet (skb_data skb))) = Some y"
  defines "s \<equiv> skb\<lparr>skb_priority := ucast (frag_priority (get_frag_packet (skb_data skb))) + 256\<rparr>"
  shows "frag_fwd_step k skb i nd = (True, nd1) \<Longrightarrow> recv_frag k skb i nd = Kret (NET_RX_SUCCESS, nd1, None)"
    and "frag_fwd_step k skb i nd = (False, nd1) \<Longrightarrow>
      nd2 = nd_emit (Frag_buffer s) (node_counter BATADV_CNT_FRAG_RX_BYTES (ucast (skb_len s))
           (node_counter BATADV_CNT_FRAG_RX 1 nd1)) \<Longrightarrow>
      recv_frag k skb i nd =
      (case batadv_orig_hash_find k (nd_priv nd2) (frag_orig (get_frag_packet (skb_data skb))) of
             None \<Rightarrow> Kret (NET_RX_DROP, nd2, None)
           | Some o1 \<Rightarrow>
               kbind (batadv_frag_skb_buffer ((nk_frag_rx k (nd_pos nd2))\<lparr>rx_now := jiffies k\<rparr>) (on_fragments o1) s)
                 (\<lambda>(fragments, merged, ok). Kret (if ok then NET_RX_SUCCESS else NET_RX_DROP,
                    nd_priv_upd (orig_upd k (frag_orig (get_frag_packet (skb_data skb)))
                      (\<lambda>o1. o1\<lparr>on_fragments := fragments\<rparr>)) nd2, merged)))"
  using assms(1,2) unfolding recv_frag_def Let_def frag_fwd_step_def [symmetric] s_def
  by (simp_all split: option.split)

text \<open>
  C2: Typing of the fragment tables. Whatever fragment arrives, of at most 45395 bytes, forwarding,
  buffering or reassembling it neither stops the kernel nor breaks the tables: every originator keeps eight
  chains, each in descending order without duplicates, of fragments that hold a header and announce
  the total size of the chain, with the size of the chain being the bytes of its payloads, at most
  20160.
\<close>

theorem recv_frag_typed:
  assumes "frags_typed k (nd_priv nd)" and "length (skb_data skb) \<le> 45395"
  shows "\<exists>ret nd' m. recv_frag k skb i nd = Kret (ret, nd', m) \<and> frags_typed k (nd_priv nd')"
proof -
  let ?p = "get_frag_packet (skb_data skb)"
  let ?skb = "skb\<lparr>skb_priority := ucast (frag_priority ?p) + 256\<rparr>"
  let ?drop = "nd_emit (Kfree_skb skb) nd"
  consider (bad) "\<not> check_unicast_ok k skb 20 nd \<or> batadv_orig_hash_find k (nd_priv nd) (frag_orig ?p) = None"
    | (ok) "check_unicast_ok k skb 20 nd" "\<exists>y. batadv_orig_hash_find k (nd_priv nd) (frag_orig ?p) = Some y" by blast
  then show ?thesis
  proof cases
    case bad
    then have "recv_frag k skb i nd = Kret (NET_RX_DROP, ?drop, None)"
      by (auto simp: recv_frag_def Let_def)
    then show ?thesis using assms(1) by simp
  next
    case ok
    obtain y where y: "batadv_orig_hash_find k (nd_priv nd) (frag_orig ?p) = Some y" using ok(2) by blast
    note acc = recv_frag_accepted [OF ok(1) y, of i]
    have len: "FRAG_HLEN \<le> length (skb_data ?skb)"
      using ok(1) by (auto simp: check_unicast_ok_def batadv_check_unicast_packet_def pskb_may_pull_def ENODATA_def
          FRAG_HLEN_def split: if_splits)
    obtain fwded nd1 where fwd: "frag_fwd_step k skb i nd = (fwded, nd1)" by fastforce
    have t1: "frags_typed k (nd_priv nd1)"
      using assms(1) frag_skb_fwd_typed [of k nd ?skb i] fwd by (auto simp: frag_fwd_step_def split: if_splits)
    show ?thesis
    proof (cases fwded)
      case True
      have "recv_frag k skb i nd = Kret (NET_RX_SUCCESS, nd1, None)"
        using acc(1) fwd True by simp
      then show ?thesis using t1 by blast
    next
      case False
      let ?nd2 = "nd_emit (Frag_buffer ?skb) (node_counter BATADV_CNT_FRAG_RX_BYTES (ucast (skb_len ?skb))
          (node_counter BATADV_CNT_FRAG_RX 1 nd1))"
      have "bp_orig_hash (nd_priv ?nd2) = bp_orig_hash (nd_priv nd1)" by simp
      then have t2: "frags_typed k (nd_priv ?nd2)" using t1 frags_typed_cong by blast
      show ?thesis
      proof (cases "batadv_orig_hash_find k (nd_priv ?nd2) (frag_orig ?p)")
        case None
        have "recv_frag k skb i nd = Kret (NET_RX_DROP, ?nd2, None)"
          using acc(2) [OF _ refl] fwd False None by simp
        then show ?thesis using t2 by blast
      next
        case (Some o1)
        let ?e = "(nk_frag_rx k (nd_pos ?nd2))\<lparr>rx_now := jiffies k\<rparr>"
        have "frag_table_ok (on_fragments o1)" using t2 Some by (auto simp: frags_typed_def)
        then obtain t' m r where b: "batadv_frag_skb_buffer ?e (on_fragments o1) ?skb = Kret (t', m, r)" "frag_table_ok t'"
          using frag_skb_buffer_safe [of "on_fragments o1" ?skb ?e] len assms(2) by fastforce
        let ?nd' = "nd_priv_upd (orig_upd k (frag_orig ?p) (\<lambda>o1. o1\<lparr>on_fragments := t'\<rparr>)) ?nd2"
        have "recv_frag k skb i nd = Kret (if r then NET_RX_SUCCESS else NET_RX_DROP, ?nd', m)"
          using acc(2) [OF _ refl] fwd False Some b(1) by simp
        moreover have "frags_typed k (nd_priv ?nd')"
          unfolding nd_priv_upd_sel(1) using b(2) by (intro frags_typed_upd [OF t2]) auto
        ultimately show ?thesis by blast
      qed
    qed
  qed
qed

lemma ex_known_typed: "frags_typed ex_node_kenv (nd_priv ex_known)"
proof -
  obtain r bp where get: "batadv_v_ogm_orig_get ex_node_kenv (nd_priv ex_node) ex_from = (r, bp)" by fastforce
  note c = orig_get_cases [OF ex_orig_table get]
  have eq: "nd_priv ex_known = bp" by (simp add: ex_known_def get)
  have "frag_table_ok (on_fragments o1)" if "batadv_orig_node_new ex_node_kenv a = Some o1" for a o1
    using that by (auto simp: batadv_orig_node_new_def batadv_orig_node_vlan_new_def Let_def frag_table_ok_def
        frag_chain_ok_def frag_bytes_def BATADV_FRAG_BUFFER_COUNT_def split: if_splits option.splits)
  then show ?thesis
    using c by (auto simp: frags_typed_def eq ex_orig_none split: if_splits)
qed

theorem recv_frag_typed_witness:
  "\<exists>ret nd' m. recv_frag ex_node_kenv (ex_nested 1) 1 ex_known = Kret (ret, nd', m) \<and> frags_typed ex_node_kenv (nd_priv nd')"
proof -
  note ex_known_typed
  then show ?thesis
    by (rule recv_frag_typed) (simp_all add: ex_nested_def frag_fmt.dec_enc frag_fmt.length_enc)
qed

end
