(* ===== verification/Dat_Properties.thy ===== *)
theory Dat_Properties
  imports Rx_Properties Bla_Properties
begin

text \<open>
  Properties of the distributed ARP table: which originators keep an address, what an
  announcement leaves in the table of the node that receives it, and what a lookup finds.
\<close>

section \<open>The candidates\<close>

text \<open>The originators that take part, and the reference: the three closest of them, in order.\<close>

definition has_dat :: "batadv_orig_node \<Rightarrow> bool" where
  "has_dat o1 = bit (on_capabilities o1) BATADV_ORIG_CAPA_HAS_DAT"

definition dat_closest :: "u16 \<Rightarrow> batadv_orig_node list \<Rightarrow> batadv_orig_node list" where
  "dat_closest ip_key os = take 3 (rev (sort_key (dat_distance ip_key) (filter has_dat os)))"

definition dat_eligible ::
    "batadv_dat_candidate list \<Rightarrow> nat \<Rightarrow> u16 \<Rightarrow> u16 \<Rightarrow> batadv_orig_node list \<Rightarrow> batadv_orig_node set" where
  "dat_eligible res select ip_key last_max os = {x \<in> set os. has_dat x
     \<and> (\<forall>c \<in> set (take select res). dc_orig c \<noteq> Some (on_orig x)) \<and> dat_distance ip_key x \<le> last_max}"

text \<open>The best eligible originator so far.\<close>

definition dat_best :: "u16 \<Rightarrow> batadv_orig_node set \<Rightarrow> u16 \<times> batadv_orig_node option \<Rightarrow> bool" where
  "dat_best ip_key E b = (case snd b of
       None \<Rightarrow> E = {} \<and> fst b = 0
     | Some x \<Rightarrow> x \<in> E \<and> fst b = dat_distance ip_key x \<and> (\<forall>y \<in> E. dat_distance ip_key y \<le> dat_distance ip_key x))"

lemma next_candidate_best:
  "dat_best ip_key (dat_eligible res s ip_key last_max os) b \<Longrightarrow>
     dat_best ip_key (dat_eligible res s ip_key last_max (os @ [x])) (next_candidate_step res s ip_key last_max b x)"
  by (auto simp: dat_best_def next_candidate_step_def batadv_is_orig_node_eligible_def dat_eligible_def has_dat_def
      Let_def split: option.splits if_splits)

lemma fold_candidates_best:
  "dat_best ip_key (dat_eligible res s ip_key last_max os)
     (foldl (next_candidate_step res s ip_key last_max) (0, None) os)"
proof (induction os rule: rev_induct)
  case Nil
  then show ?case by (simp add: dat_best_def dat_eligible_def)
next
  case (snoc x os)
  then show ?case using next_candidate_best by simp
qed

abbreviation dat_slot :: "batadv_orig_node \<Rightarrow> batadv_dat_candidate" where
  "dat_slot o1 \<equiv> \<lparr>dc_found = True, dc_orig = Some (on_orig o1)\<rparr>"

lemma choose_next:
  assumes "i < length cands" and "os = concat (table hash)"
  shows "(\<exists>x \<in> dat_eligible cands i ip_key last_max os.
        batadv_choose_next_candidate hash cands i ip_key last_max = (cands[i := dat_slot x], dat_distance ip_key x)
        \<and> (\<forall>y \<in> dat_eligible cands i ip_key last_max os. dat_distance ip_key y \<le> dat_distance ip_key x))
    \<or> dat_eligible cands i ip_key last_max os = {}
        \<and> batadv_choose_next_candidate hash cands i ip_key last_max = (cands[i := (cands ! i)\<lparr>dc_found := False\<rparr>], 0)"
proof -
  obtain m b where f: "foldl (next_candidate_step cands i ip_key last_max) (0, None) os = (m, b)" by fastforce
  have "dat_best ip_key (dat_eligible cands i ip_key last_max os) (m, b)"
    using fold_candidates_best [of ip_key cands i last_max os] by (simp add: f)
  then show ?thesis
    using f assms(2) by (auto simp: dat_best_def batadv_choose_next_candidate_def split: option.splits)
qed

lemma filter_take_Suc:
  "i < length l \<Longrightarrow> filter P (take (Suc i) (l[i := x])) = filter P (take i l) @ (if P x then [x] else [])"
  by (simp add: take_Suc_conv_app_nth)

lemma select_exhausted:
  assumes "i \<le> length cands" and "\<forall>c \<in> set (drop i cands). \<not> dc_found c"
    and "\<forall>x \<in> set (concat (table hash)). has_dat x \<longrightarrow> (\<exists>c \<in> set (take i cands). dc_orig c = Some (on_orig x))"
  shows "filter dc_found (select_candidates_loop hash ip_key [i..<length cands] cands last_max) = filter dc_found (take i cands)"
  using assms
proof (induction "length cands - i" arbitrary: i cands last_max)
  case 0
  then show ?case by simp
next
  case (Suc n)
  then have i: "i < length cands" by simp
  have none: "dat_eligible cands i ip_key last_max (concat (table hash)) = {}"
    using Suc.prems(3) by (fastforce simp: dat_eligible_def)
  let ?cands = "cands[i := (cands ! i)\<lparr>dc_found := False\<rparr>]"
  have step: "batadv_choose_next_candidate hash cands i ip_key last_max = (?cands, 0)"
    using choose_next [OF i refl, of ip_key last_max hash] none by auto
  have "filter dc_found (select_candidates_loop hash ip_key [Suc i..<length ?cands] ?cands 0) = filter dc_found (take (Suc i) ?cands)"
  proof (rule Suc.hyps(1))
    show "n = length ?cands - Suc i" "Suc i \<le> length ?cands" using Suc.hyps(2) i by simp_all
    show "\<forall>c \<in> set (drop (Suc i) ?cands). \<not> dc_found c"
      using Suc.prems(2) set_drop_subset_set_drop [of i "Suc i" cands] by auto
    show "\<forall>x \<in> set (concat (table hash)). has_dat x \<longrightarrow> (\<exists>c \<in> set (take (Suc i) ?cands). dc_orig c = Some (on_orig x))"
      using Suc.prems(3) i by (fastforce simp: take_Suc_conv_app_nth)
  qed
  then show ?case
    using i step by (simp add: upt_conv_Cons filter_take_Suc)
qed

definition dat_chosen :: "u16 \<Rightarrow> batadv_orig_node set \<Rightarrow> batadv_orig_node list \<Rightarrow> bool" where
  "dat_chosen ip_key C os \<longleftrightarrow> set os \<subseteq> C
     \<and> sorted_wrt (\<lambda>a b. dat_distance ip_key b < dat_distance ip_key a) os
     \<and> (\<forall>y \<in> C - set os. \<forall>x \<in> set os. dat_distance ip_key y < dat_distance ip_key x)"

lemma u16_max: "x \<le> (65535 :: u16)"
proof -
  have "(65535 :: u16) = - 1" by simp
  then show ?thesis using word_order.extremum [of x] by (simp only:)
qed

lemma select_chosen:
  assumes "i \<le> length cands" and "\<forall>c \<in> set (drop i cands). \<not> dc_found c"
    and "take i cands = map dat_slot os" and "dat_chosen ip_key C os"
    and "last_max = (if os = [] then BATADV_DAT_ADDR_MAX else dat_distance ip_key (last os))"
    and C: "C = set (filter has_dat (concat (table hash)))" "inj_on on_orig C" "inj_on (dat_distance ip_key) C"
  shows "\<exists>os'. filter dc_found (select_candidates_loop hash ip_key [i..<length cands] cands last_max) = map dat_slot os'
    \<and> dat_chosen ip_key C os' \<and> (length os' = length cands \<or> length os' < length cands \<and> set os' = C)"
  using assms(1-5)
proof (induction "length cands - i" arbitrary: i cands last_max os)
  case 0
  then have "cands = map dat_slot os" "i = length cands" by simp_all
  then show ?case using 0 by (intro exI [of _ os]) (simp add: filter_id_conv)
next
  case (Suc n)
  then have i: "i < length cands" by simp
  have len: "length os = i" using Suc.prems(3) i by (metis length_map length_take min.absorb4)
  have sub: "set os \<subseteq> C" using Suc.prems(4) by (simp add: dat_chosen_def)
  have taken: "(\<forall>c \<in> set (take i cands). dc_orig c \<noteq> Some (on_orig x)) \<longleftrightarrow> x \<notin> set os" if "x \<in> C" for x
    using that sub C(2) by (auto simp: Suc.prems(3) inj_on_def)
  have within: "dat_distance ip_key x \<le> last_max" if "x \<in> C - set os" for x
    using that Suc.prems(4,5) by (auto simp: dat_chosen_def BATADV_DAT_ADDR_MAX_def less_imp_le u16_max)
  have elig: "dat_eligible cands i ip_key last_max (concat (table hash)) = C - set os"
    using taken within by (auto simp: dat_eligible_def C(1))
  show ?case
  proof (cases "C - set os = {}")
    case True
    then have eq: "set os = C" using sub by blast
    have all: "\<forall>x \<in> set (concat (table hash)). has_dat x \<longrightarrow> (\<exists>c \<in> set (take i cands). dc_orig c = Some (on_orig x))"
      using eq by (auto simp: Suc.prems(3) C(1))
    have "filter dc_found (take i cands) = map dat_slot os" by (simp add: Suc.prems(3) filter_id_conv)
    then show ?thesis
      using select_exhausted [OF Suc.prems(1,2) all] eq len i Suc.prems(4) by (intro exI [of _ os]) simp
  next
    case False
    obtain x where x: "x \<in> C - set os" "\<forall>y \<in> C - set os. dat_distance ip_key y \<le> dat_distance ip_key x"
      and step: "batadv_choose_next_candidate hash cands i ip_key last_max = (cands[i := dat_slot x], dat_distance ip_key x)"
      using choose_next [OF i refl, of ip_key last_max hash] False elig by auto
    let ?cands = "cands[i := dat_slot x]"
    have "\<exists>os'. filter dc_found (select_candidates_loop hash ip_key [Suc i..<length ?cands] ?cands (dat_distance ip_key x)) = map dat_slot os'
      \<and> dat_chosen ip_key C os' \<and> (length os' = length ?cands \<or> length os' < length ?cands \<and> set os' = C)"
    proof (rule Suc.hyps(1))
      show "n = length ?cands - Suc i" "Suc i \<le> length ?cands" using Suc.hyps(2) i by simp_all
      show "\<forall>c \<in> set (drop (Suc i) ?cands). \<not> dc_found c"
        using Suc.prems(2) set_drop_subset_set_drop [of i "Suc i" cands] by auto
      show "take (Suc i) ?cands = map dat_slot (os @ [x])"
        using Suc.prems(3) i by (simp add: take_Suc_conv_app_nth)
      have strict: "dat_distance ip_key y < dat_distance ip_key x" if "y \<in> C - set (os @ [x])" for y
      proof -
        have "dat_distance ip_key y \<noteq> dat_distance ip_key x"
          using that x(1) inj_onD [OF C(3), of y x] by auto
        then show ?thesis using that x(2) by (simp add: less_le)
      qed
      show "dat_chosen ip_key C (os @ [x])"
        using Suc.prems(4) x strict by (auto simp: dat_chosen_def sorted_wrt_append)
    qed simp
    then show ?thesis using i step by (simp add: upt_conv_Cons)
  qed
qed

lemma sorted_unique:
  assumes "sorted_wrt (\<lambda>a b. f b < (f a :: 'b :: linorder)) xs" and "sorted_wrt (\<lambda>a b. f b < f a) ys" and "set xs = set ys"
  shows "xs = ys"
  using assms
proof (induction xs arbitrary: ys)
  case (Cons x xs)
  then obtain y ys' where ys: "ys = y # ys'" by (cases ys) auto
  have "x = y"
  proof (rule ccontr)
    assume ne: "x \<noteq> y"
    have "x \<in> set ys'" "y \<in> set xs" using ne Cons.prems(3) ys by auto
    then have "f x < f y" "f y < f x" using Cons.prems(1,2) ys by auto
    then show False by simp
  qed
  moreover have "set xs = set ys'"
    using Cons.prems ys \<open>x = y\<close> by auto
  ultimately show ?case using Cons ys by auto
qed simp

lemma sort_key_strict:
  assumes "distinct (map f xs)"
  shows "sorted_wrt (\<lambda>a b. f b < f a) (rev (sort_key f xs))"
proof -
  have "mset (map f (sort_key f xs)) = mset (map f xs)" by simp
  then have "distinct (map f (sort_key f xs))" using assms by (metis mset_eq_imp_distinct_iff)
  moreover have "sorted (map f (sort_key f xs))" by simp
  ultimately have "sorted_wrt (<) (map f (sort_key f xs))" unfolding strict_sorted_iff by blast
  then show ?thesis by (simp add: sorted_wrt_map sorted_wrt_rev)
qed

lemma dat_distance_inj: "dat_distance key x = dat_distance key y \<longleftrightarrow> on_dat_addr x = on_dat_addr y"
  by (simp add: dat_distance_def)

text \<open>
  C7: The candidates of an address are the three participating originators that are closest to
  its hash, or all when there are fewer, in the order of their distance, whatever uninitialised
  memory the array of candidates starts from and whatever the order of the table is: nodes that
  know the same originators ask the nodes that the others announced to. The originators that
  take part have different addresses in the table.
\<close>

theorem dat_candidates_closest:
  assumes "batadv_dat_select_candidates k nd ip vid = Some cands"
    and "bp_orig_hash (nd_priv nd) = Some hash"
    and "distinct (map on_orig (concat (table hash)))"
    and "distinct (map on_dat_addr (filter has_dat (concat (table hash))))"
  shows "map dc_orig (filter dc_found cands) =
    map (Some \<circ> on_orig) (dat_closest (dat_ip_key ip vid) (concat (table hash)))"
proof -
  let ?key = "dat_ip_key ip vid"
  let ?d = "dat_distance ?key"
  let ?caps = "filter has_dat (concat (table hash))"
  let ?init = "map (\<lambda>j. \<lparr>dc_found = False, dc_orig = nk_dat_garbage k j\<rparr>) [0..<BATADV_DAT_CANDIDATES_NUM]"
  have n: "length ?init = 3" by (simp add: BATADV_DAT_CANDIDATES_NUM_def)
  have cands: "cands = select_candidates_loop hash ?key [0..<length ?init] ?init BATADV_DAT_ADDR_MAX"
    using assms(1,2) by (simp add: batadv_dat_select_candidates_def split: if_splits)
  have dist: "distinct (map ?d ?caps)"
    using assms(4) by (simp add: distinct_map inj_on_def dat_distance_inj)
  have inj: "inj_on on_orig (set ?caps)" "inj_on ?d (set ?caps)"
    using assms(3) dist by (auto simp: distinct_map intro: inj_on_subset)
  obtain os where os: "filter dc_found cands = map dat_slot os" "dat_chosen ?key (set ?caps) os"
    "length os = 3 \<or> length os < 3 \<and> set os = set ?caps"
    using select_chosen [of 0 ?init "[]" ?key "set ?caps", OF _ _ _ _ refl refl inj] cands n
    by (auto simp: dat_chosen_def)
  let ?rest = "filter (\<lambda>x. x \<notin> set os) ?caps"
  have "distinct ?rest" using dist by (simp only: distinct_map distinct_filter)
  then have "distinct (map ?d ?rest)" using dist by (auto simp: distinct_map inj_on_def simp del: filter_filter)
  then have "sorted_wrt (\<lambda>a b. ?d b < ?d a) (os @ rev (sort_key ?d ?rest))"
    using os(2) by (auto simp: sorted_wrt_append sort_key_strict dat_chosen_def)
  moreover have "set (os @ rev (sort_key ?d ?rest)) = set (rev (sort_key ?d ?caps))"
    using os(2) by (auto simp: dat_chosen_def)
  ultimately have L: "rev (sort_key ?d ?caps) = os @ rev (sort_key ?d ?rest)"
    using sorted_unique sort_key_strict [OF dist] by metis
  have "take 3 (rev (sort_key ?d ?caps)) = os"
  proof (cases "length os = 3")
    case False
    then have "set os = set ?caps" "length os < 3" using os(3) by auto
    then have "?rest = []" by (auto simp: filter_empty_conv)
    then show ?thesis using L \<open>length os < 3\<close> by simp
  qed (use L in simp)
  then show ?thesis using os(1) by (simp add: dat_closest_def)
qed

definition ex_dat_orig :: "u8 \<Rightarrow> u16 \<Rightarrow> batadv_orig_node" where
  "ex_dat_orig m a = (ex_tt_orig\<lparr>on_orig := Mac 2 0 0 0 0 m, on_dat_addr := a, on_capabilities := 1\<rparr>)"

definition ex_dat_node :: node where
  "ex_dat_node = nd_priv_upd (\<lambda>bp. bp\<lparr>bp_orig_hash := Some \<lparr>table = [[ex_dat_orig 5 100, ex_dat_orig 6 40000],
       [ex_dat_orig 7 30000, (ex_dat_orig 8 30000)\<lparr>on_capabilities := 0\<rparr>, ex_dat_orig 9 7]],
       hash_size = 2, generation = 1\<rparr>\<rparr>) ex_node"

theorem dat_candidates_closest_witness:
  "\<exists>cands. batadv_dat_select_candidates ex_node_kenv ex_dat_node 0x0a000001 0 = Some cands
     \<and> length (filter dc_found cands) = 3
     \<and> map dc_orig (filter dc_found cands) = map (Some \<circ> on_orig) (dat_closest (dat_ip_key 0x0a000001 0)
         [ex_dat_orig 5 100, ex_dat_orig 6 40000, ex_dat_orig 7 30000, (ex_dat_orig 8 30000)\<lparr>on_capabilities := 0\<rparr>,
          ex_dat_orig 9 7])"
proof -
  let ?h = "\<lparr>table = [[ex_dat_orig 5 100, ex_dat_orig 6 40000],
       [ex_dat_orig 7 30000, (ex_dat_orig 8 30000)\<lparr>on_capabilities := 0\<rparr>, ex_dat_orig 9 7]],
       hash_size = 2, generation = 1\<rparr>"
  have h: "bp_orig_hash (nd_priv ex_dat_node) = Some ?h" by (simp add: ex_dat_node_def)
  obtain cands where c: "batadv_dat_select_candidates ex_node_kenv ex_dat_node 0x0a000001 0 = Some cands"
    by (simp add: batadv_dat_select_candidates_def h) (simp add: ex_node_kenv_def bla_kenv.defs)
  have eq: "map dc_orig (filter dc_found cands) = map (Some \<circ> on_orig) (dat_closest (dat_ip_key 0x0a000001 0) (concat (table ?h)))"
    by (rule dat_candidates_closest [OF c h]) (simp_all add: ex_dat_orig_def has_dat_def BATADV_ORIG_CAPA_HAS_DAT_def)
  have "length (dat_closest (dat_ip_key 0x0a000001 0) (concat (table ?h))) = 3"
    by (simp add: dat_closest_def ex_dat_orig_def has_dat_def BATADV_ORIG_CAPA_HAS_DAT_def)
  then have "length (filter dc_found cands) = 3" using arg_cong [OF eq, of length] by simp
  then show ?thesis using c eq by simp
qed

section \<open>Entries\<close>

definition dat_table_ok :: "node \<Rightarrow> bool" where
  "dat_table_ok nd \<longleftrightarrow> (\<exists>h. nd_dat_hash nd = Some h \<and> 0 < hash_size h \<and> length (table h) = unat (hash_size h))"

text \<open>The bucket of an address, which is all that its VLAN decides.\<close>

definition dat_index :: "node \<Rightarrow> u32 \<Rightarrow> u16 \<Rightarrow> u32" where
  "dat_index nd ip vid = (case nd_dat_hash nd of None \<Rightarrow> 0 | Some h \<Rightarrow> batadv_hash_dat (ip, vid) (hash_size h))"

lemma dat_index_less: "0 < hash_size h \<Longrightarrow> unat (batadv_hash_dat key (hash_size h)) < unat (hash_size h)"
  by (simp add: batadv_hash_dat_def Let_def word_mod_less_divisor word_less_nat_alt [symmetric])

lemma find_ip_upd:
  assumes "\<And>e. de_ip (f e) = de_ip e"
  shows "find (\<lambda>e. de_ip e = ip') (hlist_upd_first (\<lambda>e. de_ip e = ip) f l) =
    (if ip' = ip then map_option f (find (\<lambda>e. de_ip e = ip) l) else find (\<lambda>e. de_ip e = ip') l)"
  using assms by (induction l) auto

lemma dat_entry_add_shape:
  assumes "nd_dat_hash nd = Some h" and "nk_dat_alloc_ok k ip vid"
  defines "i \<equiv> batadv_hash_dat (ip, vid) (hash_size h)"
  obtains h' b where "nd_dat_hash (batadv_dat_entry_add k ip addr vid nd) = Some h'" "hash_size h' = hash_size h"
    "table h' = (table h)[unat i := b]"
    "\<And>ip'. map_option de_mac_addr (find (\<lambda>e. de_ip e = ip') b) =
       (if ip' = ip then Some addr else map_option de_mac_addr (find (\<lambda>e. de_ip e = ip') (table h ! unat i)))"
proof (cases "find (\<lambda>e. de_ip e = ip) (table h ! unat i)")
  case None
  let ?e = "\<lparr>de_ip = ip, de_vid = vid, de_mac_addr = addr, de_last_update = jiffies k\<rparr>"
  have "batadv_dat_entry_hash_find nd ip vid = None"
    using None assms by (simp add: batadv_dat_entry_hash_find_def hash_bucket_def)
  moreover have "\<not> (\<exists>e \<in> set (table h ! unat i). de_ip e = ip)"
    using None by (auto simp: find_None_iff)
  ultimately have "nd_dat_hash (batadv_dat_entry_add k ip addr vid nd) =
      Some ((set_hash_bucket h i (?e # table h ! unat i))\<lparr>generation := generation h + 1\<rparr>)"
    using assms by (simp add: batadv_dat_entry_add_def batadv_hash_add_def batadv_compare_dat_def hash_bucket_def Let_def)
  then show ?thesis
    by (rule that [of _ "?e # table h ! unat i"]) (simp_all add: set_hash_bucket_def)
next
  case (Some e)
  let ?f = "\<lambda>e. e\<lparr>de_mac_addr := addr, de_last_update := jiffies k\<rparr>"
  let ?b = "hlist_upd_first (\<lambda>e. de_ip e = ip) ?f (table h ! unat i)"
  have "batadv_dat_entry_hash_find nd ip vid = Some e"
    using Some assms by (simp add: batadv_dat_entry_hash_find_def hash_bucket_def)
  then have "nd_dat_hash (batadv_dat_entry_add k ip addr vid nd) = Some (set_hash_bucket h i ?b)"
    using assms by (simp add: batadv_dat_entry_add_def dat_entry_upd_def hash_bucket_def Let_def)
  then show ?thesis
    by (rule that [of _ ?b]) (simp_all add: set_hash_bucket_def find_ip_upd Some)
qed

text \<open>
  What the table remembers. After an address pair is added, a lookup of the IP address gives
  the new hardware address on every VLAN that hashes to the same bucket, whether or not it is
  the VLAN of the entry, and every other lookup gives what it gave before.
\<close>

lemma dat_added:
  assumes "dat_table_ok nd" and "nk_dat_alloc_ok k ip vid"
  shows "dat_table_ok (batadv_dat_entry_add k ip addr vid nd)"
    and "map_option de_mac_addr (batadv_dat_entry_hash_find (batadv_dat_entry_add k ip addr vid nd) ip' vid') =
      (if ip' = ip \<and> dat_index nd ip' vid' = dat_index nd ip vid then Some addr
       else map_option de_mac_addr (batadv_dat_entry_hash_find nd ip' vid'))"
proof -
  obtain h where h: "nd_dat_hash nd = Some h" "0 < hash_size h" "length (table h) = unat (hash_size h)"
    using assms(1) by (auto simp: dat_table_ok_def)
  obtain h' b where h': "nd_dat_hash (batadv_dat_entry_add k ip addr vid nd) = Some h'" "hash_size h' = hash_size h"
    "table h' = (table h)[unat (batadv_hash_dat (ip, vid) (hash_size h)) := b]"
    "\<And>ip'. map_option de_mac_addr (find (\<lambda>e. de_ip e = ip') b) = (if ip' = ip then Some addr
       else map_option de_mac_addr (find (\<lambda>e. de_ip e = ip') (table h ! unat (batadv_hash_dat (ip, vid) (hash_size h)))))"
    by (rule dat_entry_add_shape [OF h(1) assms(2)]) blast
  show "dat_table_ok (batadv_dat_entry_add k ip addr vid nd)" using h h' by (simp add: dat_table_ok_def)
  have i: "unat (batadv_hash_dat key (hash_size h)) < length (table h)" for key using h dat_index_less by simp
  have "batadv_hash_dat (ip', vid') (hash_size h) = batadv_hash_dat (ip, vid) (hash_size h) \<or>
    batadv_hash_dat (ip', vid') (hash_size h) \<noteq> batadv_hash_dat (ip, vid) (hash_size h) \<and> unat (batadv_hash_dat (ip', vid') (hash_size h)) \<noteq> unat (batadv_hash_dat (ip, vid) (hash_size h))"
    using word_unat_eq_iff by blast
  moreover note h'(4) [of ip']
  ultimately show "map_option de_mac_addr (batadv_dat_entry_hash_find (batadv_dat_entry_add k ip addr vid nd) ip' vid') =
      (if ip' = ip \<and> dat_index nd ip' vid' = dat_index nd ip vid then Some addr
       else map_option de_mac_addr (batadv_dat_entry_hash_find nd ip' vid'))"
    using h h'(1-3) i
    by (elim disjE conjE; simp add: batadv_dat_entry_hash_find_def hash_bucket_def dat_index_def del: map_option_eq_Some)
qed

section \<open>An announcement\<close>

text \<open>
  The ARP packet that \<^verbatim>\<open>arp_create\<close> builds, behind a header: what the receiver of an
  announcement reads from it.
\<close>

lemma arp_reply_frame_eq:
  assumes "wire_vid vid"
  shows "arp_reply_frame ip_src ip_dst hw_src hw_dst vid = mac_bytes hw_dst @ mac_bytes hw_src
     @ (if vid = 0 then [] else be16 ETH_P_8021Q @ be16 (vid AND VLAN_VID_MASK)) @ be16 ETH_P_ARP
     @ be16 1 @ be16 ETH_P_IP @ [6, 4] @ be16 ARPOP_REPLY
     @ mac_bytes hw_src @ be32 ip_src @ mac_bytes hw_dst @ be32 ip_dst"
  using wire_vid_tag [OF assms] by (simp add: arp_reply_frame_def)

lemma arp_reply_vid:
  assumes "wire_vid vid" and "\<And>n. n \<le> length hdr + 18 \<Longrightarrow> pull n"
  shows "batadv_get_vid pull (hdr @ arp_reply_frame ip_src ip_dst hw_src hw_dst vid) (length hdr) = Kret vid"
proof (cases "vid = 0")
  case True
  then show ?thesis
    by (simp add: arp_reply_frame_def batadv_get_vid_def read16_def mac_length ETH_P_ARP_def ETH_P_8021Q_def
        BATADV_NO_FLAGS_def)
next
  case False
  then have "vid AND VLAN_VID_MASK \<noteq> 0" "(vid AND VLAN_VID_MASK) OR BATADV_VLAN_HAS_TAG = vid"
    using assms(1) by (auto simp: wire_vid_def)
  then show ?thesis using False assms(2) [of "length hdr + 18"]
    by (simp add: arp_reply_frame_eq [OF assms(1)] batadv_get_vid_def read16_def mac_length and.assoc)
qed

lemma arp_reply_fields:
  fixes hdr :: bytes and ip_src ip_dst :: u32 and hw_src hw_dst :: mac
  assumes "wire_vid vid"
  defines "data \<equiv> hdr @ arp_reply_frame ip_src ip_dst hw_src hw_dst vid"
    and "hs \<equiv> length hdr + (if vid = 0 then 0 else 4)"
  shows "length data = hs + 42" "get_be16 (drop (hs + 12) data) = ETH_P_ARP"
    "drop (arp_off hs) data = be16 1 @ be16 ETH_P_IP @ [6, 4] @ be16 ARPOP_REPLY
       @ mac_bytes hw_src @ be32 ip_src @ mac_bytes hw_dst @ be32 ip_dst"
    "batadv_arp_hw_src data hs = hw_src" "batadv_arp_ip_src data hs = ip_src"
    "batadv_arp_hw_dst data hs = hw_dst" "batadv_arp_ip_dst data hs = ip_dst"
proof -
  show d: "drop (arp_off hs) data = be16 1 @ be16 ETH_P_IP @ [6, 4] @ be16 ARPOP_REPLY
       @ mac_bytes hw_src @ be32 ip_src @ mac_bytes hw_dst @ be32 ip_dst"
    by (simp add: data_def hs_def arp_off_def ETH_HLEN_def arp_reply_frame_eq [OF assms(1)] mac_length)
  show "length data = hs + 42" "get_be16 (drop (hs + 12) data) = ETH_P_ARP"
    by (simp_all add: data_def hs_def arp_reply_frame_eq [OF assms(1)] mac_length)
  have "drop (arp_off hs + n) data = drop n (drop (arp_off hs) data)" for n by (simp add: add.commute)
  then show "batadv_arp_hw_src data hs = hw_src" "batadv_arp_ip_src data hs = ip_src"
    "batadv_arp_hw_dst data hs = hw_dst" "batadv_arp_ip_dst data hs = ip_dst"
    by (simp_all add: batadv_arp_hw_src_def batadv_arp_ip_src_def batadv_arp_hw_dst_def batadv_arp_ip_dst_def d
        mac_length get_be32_be32 [of _ "[]", simplified] del: drop_drop)
qed

text \<open>What an address of an ARP packet must not be.\<close>

definition arp_hw_ok :: "mac \<Rightarrow> bool" where
  "arp_hw_ok a \<longleftrightarrow> \<not> is_zero_ether_addr a \<and> \<not> is_multicast_ether_addr a"

lemma arp_reply_type:
  assumes "wire_vid vid" and "skb_data skb = hdr @ arp_reply_frame ip_src ip_dst hw_src hw_dst vid"
    and "\<And>n. nk_pull_ok k n" and "\<not> arp_ip_bad ip_src" "\<not> arp_ip_bad ip_dst" "arp_hw_ok hw_src" "arp_hw_ok hw_dst"
  shows "batadv_arp_get_type k skb (length hdr + (if vid = 0 then 0 else 4)) = ARPOP_REPLY"
proof -
  let ?hs = "length hdr + (if vid = 0 then 0 else 4)"
  note f = arp_reply_fields [OF assms(1), of hdr ip_src ip_dst hw_src hw_dst]
  have d: "drop n (drop (arp_off ?hs) (skb_data skb)) = drop n (be16 1 @ be16 ETH_P_IP @ [6, 4] @ be16 ARPOP_REPLY
       @ mac_bytes hw_src @ be32 ip_src @ mac_bytes hw_dst @ be32 ip_dst)" for n
    using f(3) assms(2) by simp
  have nth: "drop (arp_off ?hs) (skb_data skb) ! 4 = 6" "drop (arp_off ?hs) (skb_data skb) ! 5 = 4"
    using f(3) assms(2) by (simp_all add: nth_append)
  have op: "get_be16 (drop 6 (drop (arp_off ?hs) (skb_data skb))) = ARPOP_REPLY"
    "get_be16 (drop 2 (drop (arp_off ?hs) (skb_data skb))) = ETH_P_IP"
    "get_be16 (drop (arp_off ?hs) (skb_data skb)) = 1"
    using d [of 6] d [of 2] d [of 0] by simp_all
  show ?thesis
    unfolding batadv_arp_get_type_def Let_def op nth
    using f assms by (simp add: nk_may_pull_def ETH_HLEN_def arp_hw_ok_def)
qed

text \<open>
  C8: What is announced is found. When a node receives the ARP reply another node built for a pair
  of addresses (an announcement, an answer from a cache, a relayed reply), behind whatever header
  and with or without a VLAN tag, its table afterwards answers a lookup of either IP address on that
  VLAN with its hardware address, whether the packet is delivered or dropped.
\<close>

theorem dat_put_learned:
  assumes "skb_data skb = hdr @ arp_reply_frame ip_src ip_dst hw_src hw_dst vid" and "wire_vid vid"
    and "nd_distributed_arp_table nd" and "dat_table_ok nd"
    and "\<And>n. nk_pull_ok k n" and "\<And>ip. nk_dat_alloc_ok k ip vid"
    and "\<not> arp_ip_bad ip_src" and "\<not> arp_ip_bad ip_dst" and "arp_hw_ok hw_src" and "arp_hw_ok hw_dst"
    and "ip_src \<noteq> ip_dst"
  shows "\<exists>handled nd'. batadv_dat_snoop_incoming_arp_reply k skb (length hdr) nd = Kret (handled, nd')
    \<and> map_option de_mac_addr (batadv_dat_entry_hash_find nd' ip_src vid) = Some hw_src
    \<and> map_option de_mac_addr (batadv_dat_entry_hash_find nd' ip_dst vid) = Some hw_dst"
proof -
  let ?hs = "length hdr + (if vid = 0 then 0 else 4)"
  note f = arp_reply_fields [OF assms(2), of hdr ip_src ip_dst hw_src hw_dst]
  have len: "length (skb_data skb) = ?hs + 42" using f(1) assms(1) by simp
  have pull: "nk_may_pull k skb n" if "n \<le> length hdr + 18" for n
    using that len assms(5) by (simp add: nk_may_pull_def)
  have vid: "batadv_dat_get_vid k skb (length hdr) = Kret (vid, ?hs)"
    using arp_reply_vid [OF assms(2) pull] wire_vid_tag [OF assms(2)]
    by (simp add: batadv_dat_get_vid_def assms(1) VLAN_HLEN_def)
  let ?nd1 = "batadv_dat_entry_add k ip_src hw_src vid nd"
  let ?nd2 = "batadv_dat_entry_add k ip_dst hw_dst vid ?nd1"
  note a1 = dat_added [OF assms(4) assms(6) [of ip_src], of hw_src]
  note a2 = dat_added [OF a1(1) assms(6) [of ip_dst], of hw_dst]
  have found: "map_option de_mac_addr (batadv_dat_entry_hash_find ?nd2 ip_src vid) = Some hw_src"
    "map_option de_mac_addr (batadv_dat_entry_hash_find ?nd2 ip_dst vid) = Some hw_dst"
    using a1 a2 assms(11) by (simp_all del: map_option_eq_Some)
  have emit: "batadv_dat_entry_hash_find (nd_emit e nd) ip v = batadv_dat_entry_hash_find nd ip v" for e nd ip v
    by (simp add: batadv_dat_entry_hash_find_def nd_emit_def)
  have ty: "batadv_arp_get_type k skb ?hs = ARPOP_REPLY"
    by (rule arp_reply_type [OF assms(2,1,5,7-10)])
  show ?thesis
    using vid ty found f(4-7) assms(1,3)
    by (simp add: batadv_dat_snoop_incoming_arp_reply_def Let_def emit del: map_option_eq_Some)
qed

definition ex_announcement :: sk_buff where
  "ex_announcement = \<lparr>h_dest = Mac 2 0 0 0 0 1, h_source = Mac 2 0 0 0 0 3,
     skb_data = replicate 18 0 @ arp_reply_frame 0x0a000001 0x0a000002 (Mac 2 0 0 0 1 1) (Mac 2 0 0 0 1 2) 0x8003,
     skb_priority = 0\<rparr>"

definition ex_cache_node :: node where
  "ex_cache_node = ex_node\<lparr>nd_distributed_arp_table := True, nd_dat_hash := Some (batadv_hash_init 1024)\<rparr>"

theorem dat_put_learned_witness:
  "\<exists>handled nd'. batadv_dat_snoop_incoming_arp_reply ex_node_kenv ex_announcement 18 ex_cache_node = Kret (handled, nd')
    \<and> map_option de_mac_addr (batadv_dat_entry_hash_find nd' 0x0a000001 0x8003) = Some (Mac 2 0 0 0 1 1)
    \<and> map_option de_mac_addr (batadv_dat_entry_hash_find nd' 0x0a000002 0x8003) = Some (Mac 2 0 0 0 1 2)"
proof -
  have "dat_table_ok ex_cache_node" by (simp add: dat_table_ok_def ex_cache_node_def batadv_hash_init_def)
  then show ?thesis
    using dat_put_learned [where skb = ex_announcement and hdr = "replicate 18 0" and ip_src = "0x0a000001" and ip_dst = "0x0a000002"
        and hw_src = "Mac 2 0 0 0 1 1" and hw_dst = "Mac 2 0 0 0 1 2" and vid = "0x8003" and nd = ex_cache_node and k = ex_node_kenv]
    by (simp add: ex_announcement_def ex_cache_node_def wire_vid_def VLAN_VID_MASK_def BATADV_VLAN_HAS_TAG_def
        ex_node_kenv_def bla_kenv.defs arp_ip_bad_def ipv4_is_loopback_def ipv4_is_multicast_def ipv4_is_zeronet_def
        ipv4_is_lbcast_def arp_hw_ok_def is_zero_ether_addr_def del: map_option_eq_Some)
qed

end
