(* ===== verification/Bat_Iv.thy ===== *)
theory Bat_Iv
  imports Receiving Bat_V "HOL-Library.Signed_Division"
begin

text \<open>
  B.A.T.M.A.N. IV, \<^verbatim>\<open>src/net/batman-adv/bat_iv_ogm.c\<close>: every interface floods originator
  messages (OGMs); the share of a node's own OGMs that come back through a neighbour, and of the
  neighbour's OGMs that arrive, give the quality of the link (TQ, 0 to 255), which forwarded OGMs
  accumulate. This theory holds the packet, the link and path metrics, the duplicate detection
  and the choice of routers; \<open>Bat_Iv_Ogm\<close> holds the queue of OGMs and the processing.
\<close>

section \<open>The packet\<close>

definition BATADV_OGM_HLEN :: nat where "BATADV_OGM_HLEN = 24"
definition BATADV_NOT_BEST_NEXT_HOP :: nat where "BATADV_NOT_BEST_NEXT_HOP = 0"
definition BATADV_DIRECTLINK :: nat where "BATADV_DIRECTLINK = 2"

text \<open>The flags are given by the number of their bit.\<close>

record batadv_ogm_packet =
  ogm_packet_type :: u8
  ogm_version :: u8
  ogm_ttl :: u8
  ogm_flags :: u8
  ogm_pkt_seqno :: u32
  ogm_orig :: mac
  ogm_prev_sender :: mac
  ogm_reserved :: u8
  ogm_tq :: u8
  ogm_tvlv_len :: u16

definition ogm_packet_bytes :: "batadv_ogm_packet \<Rightarrow> bytes" where
  "ogm_packet_bytes p =
     [ogm_packet_type p, ogm_version p, ogm_ttl p, ogm_flags p] @ be32 (ogm_pkt_seqno p)
     @ mac_bytes (ogm_orig p) @ mac_bytes (ogm_prev_sender p) @ [ogm_reserved p, ogm_tq p]
     @ be16 (ogm_tvlv_len p)"

definition get_ogm_packet :: "bytes \<Rightarrow> batadv_ogm_packet" where
  "get_ogm_packet bs =
     \<lparr>ogm_packet_type = bs ! 0, ogm_version = bs ! 1, ogm_ttl = bs ! 2, ogm_flags = bs ! 3,
      ogm_pkt_seqno = get_be32 (drop 4 bs), ogm_orig = get_mac (drop 8 bs),
      ogm_prev_sender = get_mac (drop 14 bs), ogm_reserved = bs ! 20, ogm_tq = bs ! 21,
      ogm_tvlv_len = get_be16 (drop 22 bs)\<rparr>"

lemma ogm_layout:
  "length (ogm_packet_bytes p) = 24" "get_ogm_packet (ogm_packet_bytes p @ rest) = p"
proof -
  show "length (ogm_packet_bytes p) = 24" by (cases "ogm_orig p"; cases "ogm_prev_sender p") (simp add: ogm_packet_bytes_def)
  have "drop 4 (ogm_packet_bytes p @ rest) = be32 (ogm_pkt_seqno p) @ drop 8 (ogm_packet_bytes p @ rest)"
    "drop 8 (ogm_packet_bytes p @ rest) = mac_bytes (ogm_orig p) @ drop 14 (ogm_packet_bytes p @ rest)"
    "drop 14 (ogm_packet_bytes p @ rest) = mac_bytes (ogm_prev_sender p) @ drop 20 (ogm_packet_bytes p @ rest)"
    "drop 22 (ogm_packet_bytes p @ rest) = be16 (ogm_tvlv_len p) @ rest"
    by (simp_all add: ogm_packet_bytes_def)
  moreover have "(ogm_packet_bytes p @ rest) ! 20 = ogm_reserved p" "(ogm_packet_bytes p @ rest) ! 21 = ogm_tq p"
    by (simp_all add: ogm_packet_bytes_def nth_append)
  ultimately show "get_ogm_packet (ogm_packet_bytes p @ rest) = p"
    by (simp add: get_ogm_packet_def) (simp add: ogm_packet_bytes_def)
qed

interpretation ogm_fmt: wire_format ogm_packet_bytes get_ogm_packet 24
  by unfold_locales (rule ogm_layout)+

text \<open>The outcomes of random numbers, allocations and copies in one run.\<close>

record iv_kenv = node_kenv +
  ik_random_below :: "nat \<Rightarrow> u32 \<Rightarrow> u32"
  ik_copy_ok :: "ifref \<Rightarrow> bool"
  ik_tailroom :: "sk_buff \<Rightarrow> nat"
  ik_kmalloc :: "nat \<Rightarrow> bytes option"

section \<open>The moving average\<close>

definition BATADV_TQ_GLOBAL_WINDOW_SIZE :: nat where "BATADV_TQ_GLOBAL_WINDOW_SIZE = 5"

definition batadv_ring_buffer_set :: "u8 list \<Rightarrow> u8 \<Rightarrow> u8 \<Rightarrow> u8 list \<times> u8" where
  "batadv_ring_buffer_set lq_recv lq_index val =
     (lq_recv[unat lq_index := val], (lq_index + 1) mod of_nat BATADV_TQ_GLOBAL_WINDOW_SIZE)"

definition batadv_ring_buffer_avg :: "u8 list \<Rightarrow> u8" where
  "batadv_ring_buffer_avg lq_recv =
     (let vals = filter (\<lambda>v. v \<noteq> 0) (take BATADV_TQ_GLOBAL_WINDOW_SIZE lq_recv);
          cnt = (of_nat (length vals) :: u16); sum = foldl (\<lambda>s v. s + ucast v) (0 :: u16) vals in
      if cnt = 0 then 0 else ucast (sum div cnt))"

text \<open>Recording a value for a neighbour and an outgoing interface.\<close>

definition tq_record :: "u8 \<Rightarrow> batadv_neigh_ifinfo \<Rightarrow> batadv_neigh_ifinfo" where
  "tq_record val i =
     (let iv = ni_bat_iv i in
      case batadv_ring_buffer_set (tq_recv iv) (tq_index iv) val of
        (recv, idx) \<Rightarrow>
          i\<lparr>ni_bat_iv := iv\<lparr>tq_recv := recv, tq_index := idx, tq_avg := batadv_ring_buffer_avg recv\<rparr>\<rparr>)"

definition bitmap_weight :: "u64 \<Rightarrow> u8" where
  "bitmap_weight w = of_nat (length (filter (bit w) [0..<64]))"

section \<open>Originators and neighbours\<close>

text \<open>
  \<^verbatim>\<open>batadv_iv_ogm_orig_get\<close> differs from its sibling in \<^verbatim>\<open>bat_v_ogm.c\<close> by the
  initialisation of a lock only. The algorithm has no callback for new single hop neighbours.
\<close>

definition batadv_iv_ogm_orig_get ::
    "'k kenv_scheme \<Rightarrow> batadv_priv \<Rightarrow> mac \<Rightarrow> batadv_orig_node option \<times> batadv_priv" where
  "batadv_iv_ogm_orig_get k bp addr = batadv_v_ogm_orig_get k bp addr"

definition batadv_iv_ogm_neigh_new ::
    "'k kenv_scheme \<Rightarrow> ifindex \<Rightarrow> mac \<Rightarrow> mac \<Rightarrow> batadv_priv \<Rightarrow> nat option \<times> batadv_priv" where
  "batadv_iv_ogm_neigh_new k hard_iface neigh_addr orig bp =
     (case batadv_orig_hash_find k bp orig of
        None \<Rightarrow> (None, bp)
      | Some orig_node \<Rightarrow>
          (case hard_iface_get bp hard_iface of
             None \<Rightarrow> (None, bp)
           | Some hi \<Rightarrow>
               (case batadv_neigh_node_get_or_create k None orig_node hi neigh_addr of
                  (p, orig_node, hi) \<Rightarrow>
                    (p, hard_iface_upd hard_iface (\<lambda>_. hi) (orig_upd k orig (\<lambda>_. orig_node) bp)))))"

text \<open>Writes to a neighbour of an originator in the table.\<close>

definition orig_neigh_upd ::
    "'k kenv_scheme \<Rightarrow> mac \<Rightarrow> nat \<Rightarrow> (batadv_neigh_node \<Rightarrow> batadv_neigh_node) \<Rightarrow> batadv_priv \<Rightarrow> batadv_priv" where
  "orig_neigh_upd k orig p f bp = orig_upd k orig (neigh_upd p f) bp"

definition iv_neigh_of :: "'k kenv_scheme \<Rightarrow> batadv_priv \<Rightarrow> mac \<Rightarrow> nat \<Rightarrow> batadv_neigh_node option" where
  "iv_neigh_of k bp orig p =
     (case batadv_orig_hash_find k bp orig of None \<Rightarrow> None | Some orig_node \<Rightarrow> neigh_deref orig_node p)"

definition batadv_iv_orig_ifinfo_sum :: "batadv_orig_node \<Rightarrow> ifref \<Rightarrow> u8" where
  "batadv_iv_orig_ifinfo_sum orig_node if_outgoing =
     (case batadv_orig_ifinfo_get orig_node if_outgoing of
        None \<Rightarrow> 0 | Some orig_ifinfo \<Rightarrow> bcast_own_sum (oi_bat_iv orig_ifinfo))"

definition batadv_iv_ogm_neigh_ifinfo_sum ::
    "'k kenv_scheme \<Rightarrow> batadv_priv \<Rightarrow> batadv_neigh_node \<Rightarrow> u8" where
  "batadv_iv_ogm_neigh_ifinfo_sum k bp neigh_node =
     (case batadv_orig_hash_find k bp (nn_addr neigh_node) of
        None \<Rightarrow> 0
      | Some orig_neigh \<Rightarrow> batadv_iv_orig_ifinfo_sum orig_neigh (Some (nn_if_incoming neigh_node)))"

text \<open>The window of own OGMs that came back moves by one.\<close>

definition slide_own_ifinfo :: "ifindex \<Rightarrow> batadv_orig_ifinfo \<Rightarrow> batadv_orig_ifinfo" where
  "slide_own_ifinfo hard_iface orig_ifinfo =
     (if oi_if_outgoing orig_ifinfo \<noteq> Some hard_iface then orig_ifinfo
      else
        let word = fst (batadv_bit_get_packet (bcast_own (oi_bat_iv orig_ifinfo)) 1 False) in
        orig_ifinfo\<lparr>oi_bat_iv := \<lparr>bcast_own = word, bcast_own_sum = bitmap_weight word\<rparr>\<rparr>)"

definition batadv_iv_ogm_slide_own_bcast_window :: "ifindex \<Rightarrow> batadv_priv \<Rightarrow> batadv_priv" where
  "batadv_iv_ogm_slide_own_bcast_window hard_iface bp =
     (case bp_orig_hash bp of
        None \<Rightarrow> bp
      | Some hash \<Rightarrow>
          bp\<lparr>bp_orig_hash := Some (hash\<lparr>table := map (map (\<lambda>orig_node.
               orig_node\<lparr>on_ifinfo_list := map (slide_own_ifinfo hard_iface) (on_ifinfo_list orig_node)\<rparr>))
               (table hash)\<rparr>)\<rparr>)"

section \<open>The metric\<close>

text \<open>\<^verbatim>\<open>int\<close> arithmetic, with the division that truncates.\<close>

definition batadv_hop_penalty :: "u8 \<Rightarrow> u32 \<Rightarrow> u8" where
  "batadv_hop_penalty tq hop_penalty =
     word_of_int ((int (unat tq) * (255 - s32 hop_penalty)) sdiv 255)"

definition BATADV_TQ_LOCAL_BIDRECT_SEND_MINIMUM :: u8 where "BATADV_TQ_LOCAL_BIDRECT_SEND_MINIMUM = 1"
definition BATADV_TQ_LOCAL_BIDRECT_RECV_MINIMUM :: u8 where "BATADV_TQ_LOCAL_BIDRECT_RECV_MINIMUM = 1"
definition BATADV_TQ_TOTAL_BIDRECT_LIMIT :: u8 where "BATADV_TQ_TOTAL_BIDRECT_LIMIT = 1"

text \<open>The quality of the own side of the link, the punishment of an asymmetric link, the product.\<close>

definition iv_tq_own :: "u8 \<Rightarrow> u8 \<Rightarrow> u8" where
  "iv_tq_own orig_eq_count neigh_rq_count =
     (let total_count = (if orig_eq_count > neigh_rq_count then neigh_rq_count else orig_eq_count) in
      if total_count < BATADV_TQ_LOCAL_BIDRECT_SEND_MINIMUM
         \<or> neigh_rq_count < BATADV_TQ_LOCAL_BIDRECT_RECV_MINIMUM then 0
      else word_of_int (255 * int (unat total_count) div int (unat neigh_rq_count)))"

definition iv_asym_penalty :: "u8 \<Rightarrow> u32" where
  "iv_asym_penalty neigh_rq_count =
     (let neigh_rq_inv = (64 - neigh_rq_count :: u8);
          neigh_rq_inv_cube = (ucast neigh_rq_inv * ucast neigh_rq_inv * ucast neigh_rq_inv :: u32);
          neigh_rq_max_cube = 64 * 64 * 64 in
      BATADV_TQ_MAX_VALUE - (BATADV_TQ_MAX_VALUE * neigh_rq_inv_cube) div neigh_rq_max_cube)"

definition iv_combined_tq :: "u8 \<Rightarrow> u8 \<Rightarrow> u32 \<Rightarrow> u32 \<Rightarrow> u8" where
  "iv_combined_tq tq tq_own tq_asym_penalty tq_iface_hop_penalty =
     ucast ((ucast tq * ucast tq_own * tq_asym_penalty * tq_iface_hop_penalty)
              div (BATADV_TQ_MAX_VALUE * BATADV_TQ_MAX_VALUE * BATADV_TQ_MAX_VALUE))"

definition iv_iface_hop_penalty :: "batadv_priv \<Rightarrow> ifindex \<Rightarrow> ifref \<Rightarrow> u32" where
  "iv_iface_hop_penalty bp if_incoming if_outgoing =
     (let penalty = BATADV_TQ_MAX_VALUE
            - (case hard_iface_get bp if_incoming of None \<Rightarrow> 0 | Some hi \<Rightarrow> hi_hop_penalty hi) in
      if if_outgoing = Some if_incoming
         \<and> (case hard_iface_get bp if_incoming of None \<Rightarrow> False | Some hi \<Rightarrow> batadv_is_wifi_hardif hi)
      then ucast (batadv_hop_penalty (ucast penalty) (bp_hop_penalty bp))
      else penalty)"

text \<open>
  Whether the link is bidirectional, and the quality of the path over it. The result holds the
  new quality of the OGM, which is unchanged when there is no neighbour object.
\<close>

definition batadv_iv_ogm_calc_tq ::
    "'k kenv_scheme \<Rightarrow> mac \<Rightarrow> mac \<Rightarrow> u8 \<Rightarrow> ifindex \<Rightarrow> ifref \<Rightarrow> batadv_priv \<Rightarrow> (bool \<times> u8) \<times> batadv_priv" where
  "batadv_iv_ogm_calc_tq k orig orig_neigh tq if_incoming if_outgoing bp =
     (case (case (case batadv_orig_hash_find k bp orig_neigh of
                    None \<Rightarrow> None
                  | Some orig_neigh_node \<Rightarrow> batadv_neigh_node_get orig_neigh_node if_incoming orig_neigh) of
              Some neigh_node \<Rightarrow> (Some (nn_ptr neigh_node), bp)
            | None \<Rightarrow> batadv_iv_ogm_neigh_new k if_incoming orig_neigh orig_neigh bp) of
        (None, bp) \<Rightarrow> ((False, tq), bp)
      | (Some p, bp) \<Rightarrow>
          let bp = (if orig = orig_neigh
                    then orig_neigh_upd k orig_neigh p (\<lambda>n. n\<lparr>nn_last_seen := jiffies k\<rparr>) bp else bp);
              bp = orig_upd k orig (\<lambda>orig_node. orig_node\<lparr>on_last_seen := jiffies k\<rparr>) bp;
              orig_eq_count = (case batadv_orig_hash_find k bp orig_neigh of
                                 None \<Rightarrow> 0
                               | Some orig_neigh_node \<Rightarrow> batadv_iv_orig_ifinfo_sum orig_neigh_node (Some if_incoming));
              (neigh_rq_count, bp) =
                (case iv_neigh_of k bp orig_neigh p of
                   None \<Rightarrow> (0, bp)
                 | Some neigh_node \<Rightarrow>
                     (case batadv_neigh_ifinfo_new k neigh_node if_outgoing of
                        (None, _) \<Rightarrow> (0, bp)
                      | (Some neigh_ifinfo, neigh_node) \<Rightarrow>
                          (real_packet_count (ni_bat_iv neigh_ifinfo),
                           orig_neigh_upd k orig_neigh p (\<lambda>_. neigh_node) bp)));
              tq = iv_combined_tq tq (iv_tq_own orig_eq_count neigh_rq_count)
                     (iv_asym_penalty neigh_rq_count) (iv_iface_hop_penalty bp if_incoming if_outgoing) in
          ((BATADV_TQ_TOTAL_BIDRECT_LIMIT \<le> tq, tq), bp))"

section \<open>Duplicates\<close>

datatype batadv_dup_status = BATADV_NO_DUP | BATADV_ORIG_DUP | BATADV_NEIGH_DUP | BATADV_PROTECTED

text \<open>
  The windows of all neighbours move with the sequence number; it is marked in the window of
  the neighbour the OGM came from.
\<close>

fun update_seqnos_loop ::
    "'k kenv_scheme \<Rightarrow> mac \<Rightarrow> ifindex \<Rightarrow> ifref \<Rightarrow> u32 \<Rightarrow> u32 \<Rightarrow> batadv_neigh_node list \<Rightarrow> batadv_dup_status
      \<Rightarrow> bool \<Rightarrow> batadv_neigh_node list \<times> batadv_dup_status \<times> bool" where
  "update_seqnos_loop k h_src if_incoming if_outgoing last_seqno seqno [] ret need_update = ([], ret, need_update)"
| "update_seqnos_loop k h_src if_incoming if_outgoing last_seqno seqno (neigh_node # rest) ret need_update =
     (case batadv_neigh_ifinfo_new k neigh_node if_outgoing of
        (None, _) \<Rightarrow>
          (case update_seqnos_loop k h_src if_incoming if_outgoing last_seqno seqno rest ret need_update of
             (rest, ret, need_update) \<Rightarrow> (neigh_node # rest, ret, need_update))
      | (Some neigh_ifinfo, neigh_node) \<Rightarrow>
          let is_dup = batadv_test_bit (real_bits (ni_bat_iv neigh_ifinfo)) last_seqno seqno;
              set_mark = (batadv_compare_eth (nn_addr neigh_node) h_src
                          \<and> nn_if_incoming neigh_node = if_incoming);
              ret = (if set_mark then (if is_dup then BATADV_NEIGH_DUP else ret)
                     else if is_dup \<and> ret \<noteq> BATADV_NEIGH_DUP then BATADV_ORIG_DUP else ret) in
          (case batadv_bit_get_packet (real_bits (ni_bat_iv neigh_ifinfo)) (s32 (seqno - last_seqno)) set_mark of
             (bitmap, moved) \<Rightarrow>
               let neigh_node = neigh_ifinfo_upd if_outgoing (\<lambda>i. i\<lparr>ni_bat_iv := (ni_bat_iv i)
                     \<lparr>real_bits := bitmap, real_packet_count := bitmap_weight bitmap\<rparr>\<rparr>) neigh_node in
               (case update_seqnos_loop k h_src if_incoming if_outgoing last_seqno seqno rest ret
                       (need_update \<or> moved) of
                  (rest, ret, need_update) \<Rightarrow> (neigh_node # rest, ret, need_update))))"

definition iv_update_seqnos ::
    "'k kenv_scheme \<Rightarrow> mac \<Rightarrow> u32 \<Rightarrow> ifindex \<Rightarrow> ifref \<Rightarrow> batadv_orig_node
      \<Rightarrow> batadv_dup_status \<times> batadv_orig_node" where
  "iv_update_seqnos k h_src seqno if_incoming if_outgoing orig_node =
     (case batadv_orig_ifinfo_new k orig_node if_outgoing of
        (None, orig_node) \<Rightarrow> (BATADV_NO_DUP, orig_node)
      | (Some orig_ifinfo, orig_node) \<Rightarrow>
          (case (if on_neigh_list orig_node = [] then (False, oi_batman_seqno_reset orig_ifinfo, False)
                 else batadv_window_protected k (s32 (seqno - oi_last_real_seqno orig_ifinfo))
                        BATADV_TQ_LOCAL_WINDOW_SIZE (oi_batman_seqno_reset orig_ifinfo)) of
             (protected, reset, _) \<Rightarrow>
               let orig_node = orig_ifinfo_upd if_outgoing (\<lambda>i. i\<lparr>oi_batman_seqno_reset := reset\<rparr>) orig_node in
               if protected then (BATADV_PROTECTED, orig_node)
               else
                 (case update_seqnos_loop k h_src if_incoming if_outgoing (oi_last_real_seqno orig_ifinfo) seqno
                         (on_neigh_list orig_node) BATADV_NO_DUP False of
                    (neighs, ret, need_update) \<Rightarrow>
                      let orig_node = orig_node\<lparr>on_neigh_list := neighs\<rparr> in
                      (ret, if need_update
                            then orig_ifinfo_upd if_outgoing (\<lambda>i. i\<lparr>oi_last_real_seqno := seqno\<rparr>) orig_node
                            else orig_node))))"

definition batadv_iv_ogm_update_seqnos ::
    "'k kenv_scheme \<Rightarrow> mac \<Rightarrow> batadv_ogm_packet \<Rightarrow> ifindex \<Rightarrow> ifref \<Rightarrow> batadv_priv
      \<Rightarrow> batadv_dup_status \<times> batadv_priv" where
  "batadv_iv_ogm_update_seqnos k h_src ogm if_incoming if_outgoing bp =
     (case batadv_iv_ogm_orig_get k bp (ogm_orig ogm) of
        (None, bp) \<Rightarrow> (BATADV_NO_DUP, bp)
      | (Some orig_node, bp) \<Rightarrow>
          (case iv_update_seqnos k h_src (ogm_pkt_seqno ogm) if_incoming if_outgoing orig_node of
             (ret, orig_node) \<Rightarrow> (ret, orig_upd k (ogm_orig ogm) (\<lambda>_. orig_node) bp)))"

section \<open>Routers\<close>

text \<open>
  The loop over the neighbours of an originator: the one the OGM came through is remembered, the
  others record a missed OGM.
\<close>

fun decay_loop ::
    "mac \<Rightarrow> ifindex \<Rightarrow> ifref \<Rightarrow> bool \<Rightarrow> batadv_neigh_node list \<Rightarrow> nat option \<Rightarrow> batadv_neigh_node list \<times> nat option" where
  "decay_loop h_src if_incoming if_outgoing no_dup [] found = ([], found)"
| "decay_loop h_src if_incoming if_outgoing no_dup (tmp # rest) found =
     (if batadv_compare_eth (nn_addr tmp) h_src \<and> nn_if_incoming tmp = if_incoming then
        (case decay_loop h_src if_incoming if_outgoing no_dup rest (Some (nn_ptr tmp)) of
           (rest, found) \<Rightarrow> (tmp # rest, found))
      else
        (case decay_loop h_src if_incoming if_outgoing no_dup rest found of
           (rest, found) \<Rightarrow> ((if no_dup then neigh_ifinfo_upd if_outgoing (tq_record 0) tmp else tmp) # rest, found)))"

text \<open>Whether the neighbour at \<open>p\<close> replaces the router.\<close>

definition iv_better_route ::
    "'k kenv_scheme \<Rightarrow> batadv_priv \<Rightarrow> batadv_orig_node \<Rightarrow> ifref \<Rightarrow> nat \<Rightarrow> bool" where
  "iv_better_route k bp orig_node if_outgoing p =
     (case batadv_orig_router_get orig_node if_outgoing of
        None \<Rightarrow> True
      | Some r \<Rightarrow>
          if r = p then False
          else (case (neigh_deref orig_node r, neigh_deref orig_node p) of
                  (Some router, Some neigh_node) \<Rightarrow>
                    (case (batadv_neigh_ifinfo_get router if_outgoing, batadv_neigh_ifinfo_get neigh_node if_outgoing) of
                       (Some router_ifinfo, Some neigh_ifinfo) \<Rightarrow>
                         let router_tq = tq_avg (ni_bat_iv router_ifinfo); neigh_tq = tq_avg (ni_bat_iv neigh_ifinfo) in
                         if router_tq > neigh_tq then False
                         else if neigh_tq = router_tq
                           \<and> batadv_iv_ogm_neigh_ifinfo_sum k bp router \<ge> batadv_iv_ogm_neigh_ifinfo_sum k bp neigh_node
                         then False
                         else True
                     | _ \<Rightarrow> False)
                | _ \<Rightarrow> False))"

text \<open>
  The second half of \<^verbatim>\<open>batadv_iv_ogm_orig_update\<close>: the quality is recorded for the neighbour
  at \<open>p\<close>, which has a record for the outgoing interface, and may become the router.
\<close>

definition iv_record_and_route ::
    "'k kenv_scheme \<Rightarrow> mac \<Rightarrow> u8 \<Rightarrow> u8 \<Rightarrow> ifref \<Rightarrow> batadv_dup_status \<Rightarrow> nat \<Rightarrow> batadv_neigh_node
      \<Rightarrow> batadv_priv \<Rightarrow> batadv_priv" where
  "iv_record_and_route k orig tq ttl if_outgoing dup_status p neigh_node bp =
     (let neigh_node = neigh_ifinfo_upd if_outgoing (tq_record tq) (neigh_node\<lparr>nn_last_seen := jiffies k\<rparr>);
          neigh_node = (if dup_status = BATADV_NO_DUP
            then neigh_ifinfo_upd if_outgoing (\<lambda>i. i\<lparr>ni_last_ttl := ttl\<rparr>) neigh_node
            else neigh_node);
          bp = orig_neigh_upd k orig p (\<lambda>_. neigh_node) bp;
          bp = (if dup_status = BATADV_NO_DUP
            then orig_upd k orig (orig_ifinfo_upd if_outgoing (\<lambda>i. i\<lparr>oi_last_ttl := ttl\<rparr>)) bp
            else bp) in
      case batadv_orig_hash_find k bp orig of
        None \<Rightarrow> bp
      | Some orig_node \<Rightarrow>
          if iv_better_route k bp orig_node if_outgoing p
          then release_neighs (orig_upd k orig (\<lambda>_. fst (batadv_update_route orig_node if_outgoing (Some p))) bp)
          else bp)"

definition batadv_iv_ogm_orig_update ::
    "'k kenv_scheme \<Rightarrow> mac \<Rightarrow> mac \<Rightarrow> u8 \<Rightarrow> u8 \<Rightarrow> ifindex \<Rightarrow> ifref \<Rightarrow> batadv_dup_status \<Rightarrow> batadv_priv \<Rightarrow> batadv_priv" where
  "batadv_iv_ogm_orig_update k orig h_src tq ttl if_incoming if_outgoing dup_status bp =
     (case batadv_orig_hash_find k bp orig of
        None \<Rightarrow> bp
      | Some orig_node \<Rightarrow>
          (case decay_loop h_src if_incoming if_outgoing (dup_status = BATADV_NO_DUP) (on_neigh_list orig_node) None of
             (neighs, found) \<Rightarrow>
               let bp = orig_upd k orig (\<lambda>_. orig_node\<lparr>on_neigh_list := neighs\<rparr>) bp in
               (case (case found of Some p \<Rightarrow> (Some p, bp)
                      | None \<Rightarrow> batadv_iv_ogm_neigh_new k if_incoming h_src orig bp) of
                  (None, bp) \<Rightarrow> bp
                | (Some p, bp) \<Rightarrow>
                    (case iv_neigh_of k bp orig p of
                       None \<Rightarrow> bp
                     | Some neigh_node \<Rightarrow>
                         (case batadv_neigh_ifinfo_new k neigh_node if_outgoing of
                            (None, _) \<Rightarrow> bp
                          | (Some _, neigh_node) \<Rightarrow>
                              iv_record_and_route k orig tq ttl if_outgoing dup_status p neigh_node bp)))))"

section \<open>Echoes of own OGMs\<close>

text \<open>
  An own OGM that a neighbour rebroadcast with the direct link flag is marked in the window of
  the neighbour. The bit is the age of the OGM, one less than the distance to the number of the
  next one.
\<close>

definition batadv_iv_ogm_process_reply ::
    "'k kenv_scheme \<Rightarrow> batadv_ogm_packet \<Rightarrow> ifindex \<Rightarrow> mac \<Rightarrow> u32 \<Rightarrow> batadv_priv \<Rightarrow> batadv_priv" where
  "batadv_iv_ogm_process_reply k ogm if_incoming orig_neigh if_incoming_seqno bp =
     (if \<not> bit (ogm_flags ogm) BATADV_DIRECTLINK then bp
      else if \<not> (case hard_iface_get bp if_incoming of None \<Rightarrow> False
                 | Some hi \<Rightarrow> batadv_compare_eth (hi_dev_addr hi) (ogm_orig ogm)) then bp
      else
        let bit_pos = s32 (if_incoming_seqno - 2 - ogm_pkt_seqno ogm) in
        orig_upd k orig_neigh (orig_ifinfo_upd (Some if_incoming) (\<lambda>i.
          let own = batadv_set_bit (bcast_own (oi_bat_iv i)) bit_pos in
          i\<lparr>oi_bat_iv := \<lparr>bcast_own = own, bcast_own_sum = bitmap_weight own\<rparr>\<rparr>)) bp)"

section \<open>Comparing neighbours and gateways\<close>

definition BATADV_TQ_SIMILARITY_THRESHOLD :: int where "BATADV_TQ_SIMILARITY_THRESHOLD = 50"

definition batadv_iv_ogm_neigh_get_tq_avg :: "batadv_neigh_node \<Rightarrow> ifref \<Rightarrow> u8 option" where
  "batadv_iv_ogm_neigh_get_tq_avg neigh_node if_outgoing =
     map_option (\<lambda>n_ifinfo. tq_avg (ni_bat_iv n_ifinfo)) (batadv_neigh_ifinfo_get neigh_node if_outgoing)"

definition batadv_iv_ogm_neigh_diff ::
    "batadv_neigh_node \<Rightarrow> ifref \<Rightarrow> batadv_neigh_node \<Rightarrow> ifref \<Rightarrow> int option" where
  "batadv_iv_ogm_neigh_diff neigh1 if_outgoing1 neigh2 if_outgoing2 =
     (case (batadv_neigh_ifinfo_get neigh1 if_outgoing1, batadv_neigh_ifinfo_get neigh2 if_outgoing2) of
        (Some i1, Some i2) \<Rightarrow> Some (int (unat (tq_avg (ni_bat_iv i1))) - int (unat (tq_avg (ni_bat_iv i2))))
      | _ \<Rightarrow> None)"

definition batadv_iv_ogm_neigh_cmp :: neigh_cmp where
  "batadv_iv_ogm_neigh_cmp neigh1 if_outgoing1 neigh2 if_outgoing2 =
     (case batadv_iv_ogm_neigh_diff neigh1 if_outgoing1 neigh2 if_outgoing2 of None \<Rightarrow> 0 | Some diff \<Rightarrow> diff)"

definition batadv_iv_ogm_neigh_is_sob :: neigh_sob where
  "batadv_iv_ogm_neigh_is_sob neigh1 if_outgoing1 neigh2 if_outgoing2 =
     (case batadv_iv_ogm_neigh_diff neigh1 if_outgoing1 neigh2 if_outgoing2 of
        None \<Rightarrow> False | Some diff \<Rightarrow> - BATADV_TQ_SIMILARITY_THRESHOLD < diff)"

definition batadv_iv_init_sel_class :: "batadv_priv_gw \<Rightarrow> batadv_priv_gw" where
  "batadv_iv_init_sel_class gw = gw\<lparr>gw_sel_class := 20\<rparr>"

text \<open>The quality of the path to a gateway.\<close>

definition iv_gw_tq :: "(mac \<Rightarrow> batadv_orig_node) \<Rightarrow> mac \<Rightarrow> u8 option" where
  "iv_gw_tq objs orig =
     (case batadv_orig_router_get (objs orig) BATADV_IF_DEFAULT of
        None \<Rightarrow> None
      | Some r \<Rightarrow>
          (case neigh_deref (objs orig) r of
             None \<Rightarrow> None
           | Some router \<Rightarrow> batadv_iv_ogm_neigh_get_tq_avg router BATADV_IF_DEFAULT))"

text \<open>
  The loop over the gateways with the best one so far, the maximal factor and quality, and the
  factor of the last gateway.
\<close>

fun iv_best_gw_loop ::
    "(mac \<Rightarrow> batadv_orig_node) \<Rightarrow> u32 \<Rightarrow> batadv_gw_node list \<Rightarrow> batadv_gw_node option \<Rightarrow> u64 \<Rightarrow> u8 \<Rightarrow> u64
      \<Rightarrow> batadv_gw_node option" where
  "iv_best_gw_loop objs sel_class [] curr_gw max_gw_factor max_tq tmp_gw_factor = curr_gw"
| "iv_best_gw_loop objs sel_class (gw_node # rest) curr_gw max_gw_factor max_tq tmp_gw_factor =
     (case iv_gw_tq objs (gn_orig_node gw_node) of
        None \<Rightarrow> iv_best_gw_loop objs sel_class rest curr_gw max_gw_factor max_tq tmp_gw_factor
      | Some tq \<Rightarrow>
          let (curr_gw, tmp_gw_factor) =
                (if sel_class = 1 then
                   let f = drop_bit 18 (ucast tq * ucast tq * ucast (gn_bandwidth_down gw_node) * 10000 :: u64) in
                   (if f > max_gw_factor \<or> f = max_gw_factor \<and> tq > max_tq then Some gw_node else curr_gw, f)
                 else (if tq > max_tq then Some gw_node else curr_gw, tmp_gw_factor)) in
          iv_best_gw_loop objs sel_class rest curr_gw
            (if tmp_gw_factor > max_gw_factor then tmp_gw_factor else max_gw_factor)
            (if tq > max_tq then tq else max_tq) tmp_gw_factor)"

definition batadv_iv_gw_get_best_gw_node ::
    "(mac \<Rightarrow> batadv_orig_node) \<Rightarrow> batadv_priv_gw \<Rightarrow> batadv_gw_node option" where
  "batadv_iv_gw_get_best_gw_node objs gw =
     iv_best_gw_loop objs (gw_sel_class gw) (gw_gateway_list gw) None 0 0 0"

definition batadv_iv_gw_is_eligible ::
    "(mac \<Rightarrow> batadv_orig_node) \<Rightarrow> batadv_priv_gw \<Rightarrow> mac \<Rightarrow> mac \<Rightarrow> bool" where
  "batadv_iv_gw_is_eligible objs gw curr_gw_orig orig_node =
     (if s32 (gw_sel_class gw) \<le> 2 then False
      else (case iv_gw_tq objs curr_gw_orig of
              None \<Rightarrow> True
            | Some curr_tq \<Rightarrow>
                (case iv_gw_tq objs orig_node of
                   None \<Rightarrow> False
                 | Some orig_tq \<Rightarrow>
                     if orig_tq < curr_tq then False
                     else if s32 (gw_sel_class gw) > 3
                       \<and> int (unat orig_tq) - int (unat curr_tq) < s32 (gw_sel_class gw) then False
                     else True)))"

definition batadv_batman_iv_gw :: "(mac \<Rightarrow> batadv_orig_node) \<Rightarrow> batadv_algo_gw_ops" where
  "batadv_batman_iv_gw objs =
     \<lparr>init_sel_class = Some batadv_iv_init_sel_class,
      get_best_gw_node = Some (\<lambda>gw. Kret (batadv_iv_gw_get_best_gw_node objs gw)),
      is_eligible = Some (\<lambda>gw a b. Kret (batadv_iv_gw_is_eligible objs gw a b))\<rparr>"

end
