(* ===== verification/Bat_Iv_Ogm.thy ===== *)
theory Bat_Iv_Ogm
  imports Bat_Iv
begin

text \<open>
  The other half of \<^verbatim>\<open>src/net/batman-adv/bat_iv_ogm.c\<close>: the OGM buffers of the interfaces, the
  queue of OGMs with its aggregation, the periodic schedule, and the processing of a received
  packet of OGMs.
\<close>

section \<open>The interfaces\<close>

text \<open>
  \<open>iv_if\<close> is the part of an interface that belongs to the algorithm
  (\<^verbatim>\<open>struct batadv_hard_iface_bat_iv\<close>).
\<close>

record batadv_hard_iface_bat_iv =
  iv_ogm_buff :: "bytes option"
  iv_ogm_buff_len :: nat
  iv_ogm_seqno :: u32

record iv_state =
  iv_node :: node
  iv_if :: "ifindex \<Rightarrow> batadv_hard_iface_bat_iv"

definition iv_if_upd ::
    "ifindex \<Rightarrow> (batadv_hard_iface_bat_iv \<Rightarrow> batadv_hard_iface_bat_iv) \<Rightarrow> iv_state \<Rightarrow> iv_state" where
  "iv_if_upd i f s = s\<lparr>iv_if := (iv_if s)(i := f (iv_if s i))\<rparr>"

text \<open>\<open>buff\<close> is the new buffer, with whatever it holds, or \<open>None\<close> when there is no memory.\<close>

definition batadv_iv_ogm_iface_enable ::
    "u32 \<Rightarrow> bytes option \<Rightarrow> batadv_hard_iface_bat_iv \<Rightarrow> int \<times> batadv_hard_iface_bat_iv" where
  "batadv_iv_ogm_iface_enable random_seqno buff iv =
     (let iv = iv\<lparr>iv_ogm_seqno := random_seqno, iv_ogm_buff_len := BATADV_OGM_HLEN\<rparr> in
      case buff of
        None \<Rightarrow> (- ENOMEM, iv)
      | Some b \<Rightarrow>
          (0, iv\<lparr>iv_ogm_buff := Some (put_bytes 20 [0, 255]
                   (put_bytes 0 [BATADV_IV_OGM, BATADV_COMPAT_VERSION, 2, 0] b))\<rparr>))"

definition batadv_iv_ogm_iface_disable :: "batadv_hard_iface_bat_iv \<Rightarrow> batadv_hard_iface_bat_iv" where
  "batadv_iv_ogm_iface_disable iv = iv\<lparr>iv_ogm_buff := None\<rparr>"

definition batadv_iv_ogm_iface_update_mac ::
    "batadv_hard_iface \<Rightarrow> batadv_hard_iface_bat_iv \<Rightarrow> batadv_hard_iface_bat_iv" where
  "batadv_iv_ogm_iface_update_mac hard_iface iv =
     (case iv_ogm_buff iv of
        None \<Rightarrow> iv
      | Some b \<Rightarrow> iv\<lparr>iv_ogm_buff := Some (put_bytes 8
          (mac_bytes (hi_dev_addr hard_iface) @ mac_bytes (hi_dev_addr hard_iface)) b)\<rparr>)"

definition batadv_iv_ogm_primary_iface_set :: "batadv_hard_iface_bat_iv \<Rightarrow> batadv_hard_iface_bat_iv" where
  "batadv_iv_ogm_primary_iface_set iv =
     (case iv_ogm_buff iv of
        None \<Rightarrow> iv
      | Some b \<Rightarrow> iv\<lparr>iv_ogm_buff := Some (put_bytes 2 [BATADV_TTL] b)\<rparr>)"

section \<open>Sending\<close>

definition BATADV_MAX_AGGREGATION_PACKETS :: nat where "BATADV_MAX_AGGREGATION_PACKETS = 32"
definition BATADV_MAX_AGGREGATION_BYTES :: u32 where "BATADV_MAX_AGGREGATION_BYTES = 512"
definition BATADV_MAX_AGGREGATION_MS :: nat where "BATADV_MAX_AGGREGATION_MS = 100"

definition batadv_iv_ogm_emit_send_time :: "iv_kenv \<Rightarrow> node \<Rightarrow> u64" where
  "batadv_iv_ogm_emit_send_time k nd =
     (let msecs = bp_orig_interval (nd_priv nd) - BATADV_JITTER;
          msecs = msecs + ik_random_below k (nd_pos nd) (2 * BATADV_JITTER) in
      jiffies k + msecs_to_jiffies k (unat msecs))"

definition batadv_iv_ogm_fwd_send_time :: "iv_kenv \<Rightarrow> node \<Rightarrow> u64" where
  "batadv_iv_ogm_fwd_send_time k nd =
     jiffies k + msecs_to_jiffies k (unat (ik_random_below k (nd_pos nd) (BATADV_JITTER div 2)))"

definition batadv_iv_ogm_aggr_packet :: "nat \<Rightarrow> nat \<Rightarrow> bytes \<Rightarrow> bool" where
  "batadv_iv_ogm_aggr_packet buff_pos packet_len ogm =
     (if packet_len < buff_pos + BATADV_OGM_HLEN then False
      else buff_pos + BATADV_OGM_HLEN + unat (ogm_tvlv_len (get_ogm_packet ogm)) \<le> packet_len)"

text \<open>
  The direct link flags of the aggregated OGMs are set for the interface the packet leaves on.
\<close>

function send_flags_loop :: "bool \<Rightarrow> u32 \<Rightarrow> nat \<Rightarrow> nat \<Rightarrow> nat \<Rightarrow> bytes \<Rightarrow> bytes" where
  "send_flags_loop same_iface direct_link_flags packet_len packet_num buff_pos data =
     (if batadv_iv_ogm_aggr_packet buff_pos packet_len (drop buff_pos data) then
        let p = get_ogm_packet (drop buff_pos data);
            flags = (if bit direct_link_flags packet_num \<and> same_iface
                     then set_bit BATADV_DIRECTLINK (ogm_flags p)
                     else unset_bit BATADV_DIRECTLINK (ogm_flags p)) in
        send_flags_loop same_iface direct_link_flags packet_len (packet_num + 1)
          (buff_pos + BATADV_OGM_HLEN + unat (ogm_tvlv_len p)) (put_bytes (buff_pos + 3) [flags] data)
      else data)"
  by pat_completeness auto
termination
  by (relation "measure (\<lambda>(_, _, len, _, pos, _). len - pos)")
    (auto simp: batadv_iv_ogm_aggr_packet_def BATADV_OGM_HLEN_def split: if_splits)

declare send_flags_loop.simps [simp del]

definition batadv_iv_ogm_send_to_if ::
    "iv_kenv \<Rightarrow> batadv_forw_packet \<Rightarrow> ifindex \<Rightarrow> node \<Rightarrow> batadv_forw_packet \<times> node" where
  "batadv_iv_ogm_send_to_if k forw_packet hard_iface nd =
     (case hard_iface_get (nd_priv nd) hard_iface of
        None \<Rightarrow> (forw_packet, nd)
      | Some h \<Rightarrow>
          if hi_if_status h \<noteq> BATADV_IF_ACTIVE then (forw_packet, nd)
          else
            let skb = (fw_skb forw_packet)\<lparr>skb_data := send_flags_loop
                  (fw_if_incoming forw_packet = Some hard_iface) (fw_direct_link_flags forw_packet)
                  (unat (fw_packet_len forw_packet)) 0 0 (skb_data (fw_skb forw_packet))\<rparr>;
                forw_packet = forw_packet\<lparr>fw_skb := skb\<rparr> in
            if \<not> nk_clone_ok k (nd_pos nd) then (forw_packet, nd)
            else
              (forw_packet,
               snd (batadv_send_broadcast_skb (node_kenv.truncate k) skb hard_iface
                 (node_counter BATADV_CNT_MGMT_TX_BYTES (ucast (skb_len skb) + of_nat ETH_HLEN)
                    (node_counter BATADV_CNT_MGMT_TX 1 nd)))))"

text \<open>An interface that left the mesh interface has another mesh interface, or none.\<close>

definition batadv_iv_ogm_emit ::
    "iv_kenv \<Rightarrow> batadv_forw_packet \<Rightarrow> node \<Rightarrow> batadv_forw_packet \<times> node" where
  "batadv_iv_ogm_emit k forw_packet nd =
     (case (fw_if_incoming forw_packet, fw_if_outgoing forw_packet) of
        (Some i, Some out) \<Rightarrow>
          (case (hard_iface_get (nd_priv nd) i, hard_iface_get (nd_priv nd) out) of
             (Some hin, Some _) \<Rightarrow>
               if hi_if_status hin \<noteq> BATADV_IF_ACTIVE then (forw_packet, nd)
               else batadv_iv_ogm_send_to_if k forw_packet out nd
           | _ \<Rightarrow> (forw_packet, nd))
      | _ \<Rightarrow> (forw_packet, nd))"

section \<open>The queue\<close>

definition time_before :: "u64 \<Rightarrow> u64 \<Rightarrow> bool" where "time_before a b = (sint (a - b) < 0)"
definition time_after_eq :: "u64 \<Rightarrow> u64 \<Rightarrow> bool" where "time_after_eq a b = (sint (a - b) \<ge> 0)"

definition batadv_iv_ogm_can_aggregate ::
    "iv_kenv \<Rightarrow> batadv_ogm_packet \<Rightarrow> batadv_priv \<Rightarrow> nat \<Rightarrow> u64 \<Rightarrow> bool \<Rightarrow> ifindex \<Rightarrow> ifindex
      \<Rightarrow> batadv_forw_packet \<Rightarrow> bool" where
  "batadv_iv_ogm_can_aggregate k new_ogm bp packet_len send_time directlink if_incoming if_outgoing forw_packet =
     (let ogm = get_ogm_packet (skb_data (fw_skb forw_packet));
          aggregated_bytes = unat (fw_packet_len forw_packet) + packet_len;
          aggregation_end_time = send_time + msecs_to_jiffies k BATADV_MAX_AGGREGATION_MS;
          max_bytes = min (case hard_iface_get bp if_outgoing of None \<Rightarrow> 0 | Some h \<Rightarrow> hi_mtu h)
                        BATADV_MAX_AGGREGATION_BYTES in
      if \<not> time_before send_time (fw_send_time forw_packet)
         \<or> \<not> time_after_eq aggregation_end_time (fw_send_time forw_packet) then False
      else if unat max_bytes < aggregated_bytes then False
      else if ik_tailroom k (fw_skb forw_packet) < packet_len then False
      else if BATADV_MAX_AGGREGATION_PACKETS \<le> unat (fw_num_packets forw_packet) then False
      else if fw_if_outgoing forw_packet \<noteq> Some if_outgoing then False
      else
        (case batadv_primary_if_get_selected bp of
           None \<Rightarrow> False
         | Some primary_if \<Rightarrow>
             if \<not> directlink \<and> \<not> bit (ogm_flags ogm) BATADV_DIRECTLINK \<and> ogm_ttl ogm \<noteq> 1
                \<and> (\<not> fw_own forw_packet \<or> fw_if_incoming forw_packet = Some (hi_ifindex primary_if)) then True
             else if directlink \<and> ogm_ttl new_ogm = 1 \<and> fw_if_incoming forw_packet = Some if_incoming
                \<and> (bit (ogm_flags ogm) BATADV_DIRECTLINK
                   \<or> fw_own forw_packet \<and> fw_if_incoming forw_packet \<noteq> Some (hi_ifindex primary_if)) then True
             else False))"

definition batadv_iv_ogm_aggregate_new ::
    "iv_kenv \<Rightarrow> bytes \<Rightarrow> u64 \<Rightarrow> bool \<Rightarrow> ifindex \<Rightarrow> ifindex \<Rightarrow> bool \<Rightarrow> node \<Rightarrow> node" where
  "batadv_iv_ogm_aggregate_new k packet_buff send_time direct_link if_incoming if_outgoing own_packet nd =
     (if \<not> nk_skb_ok k (nd_pos nd) then nd
      else
        let skb = \<lparr>h_dest = Mac 0 0 0 0 0 0, h_source = Mac 0 0 0 0 0 0, skb_data = [], skb_priority = 0\<rparr> in
        (case batadv_forw_packet_alloc (node_kenv.truncate k) (Some if_incoming) (Some if_outgoing)
                (if own_packet then None else Some Batman_queue) skb nd of
           (None, nd) \<Rightarrow> nd_emit (Kfree_skb skb) nd
         | (Some forw_packet, nd) \<Rightarrow>
             batadv_forw_packet_ogmv1_queue (node_kenv.truncate k)
               (forw_packet\<lparr>fw_skb := skb\<lparr>skb_priority := TC_PRIO_CONTROL, skb_data := packet_buff\<rparr>,
                  fw_packet_len := of_nat (length packet_buff), fw_own := own_packet,
                  fw_direct_link_flags := (if direct_link then set_bit 0 0 else 0), fw_send_time := send_time\<rparr>)
               send_time nd))"

definition batadv_iv_ogm_aggregate :: "bytes \<Rightarrow> bool \<Rightarrow> batadv_forw_packet \<Rightarrow> batadv_forw_packet" where
  "batadv_iv_ogm_aggregate packet_buff direct_link forw_packet =
     forw_packet\<lparr>fw_skb := (fw_skb forw_packet)\<lparr>skb_data := skb_data (fw_skb forw_packet) @ packet_buff\<rparr>,
       fw_packet_len := fw_packet_len forw_packet + of_nat (length packet_buff),
       fw_direct_link_flags := (if direct_link
          then set_bit (unat (fw_num_packets forw_packet)) (fw_direct_link_flags forw_packet)
          else fw_direct_link_flags forw_packet),
       fw_num_packets := fw_num_packets forw_packet + 1\<rparr>"

definition batadv_iv_ogm_queue_add ::
    "iv_kenv \<Rightarrow> bytes \<Rightarrow> ifindex \<Rightarrow> ifindex \<Rightarrow> bool \<Rightarrow> u64 \<Rightarrow> node \<Rightarrow> node" where
  "batadv_iv_ogm_queue_add k packet_buff if_incoming if_outgoing own_packet send_time nd =
     (let ogm = get_ogm_packet packet_buff;
          direct_link = bit (ogm_flags ogm) BATADV_DIRECTLINK;
          aggregation = (bp_aggregated_ogms (nd_priv nd) \<noteq> 0 \<and> \<not> own_packet) in
      case (if aggregation
            then find (batadv_iv_ogm_can_aggregate k ogm (nd_priv nd) (length packet_buff) send_time direct_link
                   if_incoming if_outgoing) (nd_forw_bat_list nd)
            else None) of
        None \<Rightarrow>
          batadv_iv_ogm_aggregate_new k packet_buff
            (if aggregation then send_time + msecs_to_jiffies k BATADV_MAX_AGGREGATION_MS else send_time)
            direct_link if_incoming if_outgoing own_packet nd
      | Some forw_packet_aggr \<Rightarrow>
          nd\<lparr>nd_forw_bat_list := hlist_upd_first (\<lambda>f. fw_ptr f = fw_ptr forw_packet_aggr)
               (batadv_iv_ogm_aggregate packet_buff direct_link) (nd_forw_bat_list nd)\<rparr>)"

text \<open>\<open>ogm\<close> is the header as the link metric left it, \<open>tvlv\<close> what follows it in the packet.\<close>

definition batadv_iv_ogm_forward ::
    "iv_kenv \<Rightarrow> mac \<Rightarrow> batadv_ogm_packet \<Rightarrow> bytes \<Rightarrow> bool \<Rightarrow> bool \<Rightarrow> ifindex \<Rightarrow> ifindex \<Rightarrow> node \<Rightarrow> node" where
  "batadv_iv_ogm_forward k h_src ogm tvlv is_single_hop_neigh is_from_best_next_hop if_incoming if_outgoing nd =
     (if ogm_ttl ogm \<le> 1 then nd
      else if \<not> is_from_best_next_hop \<and> \<not> is_single_hop_neigh then nd
      else
        let flags = (if is_from_best_next_hop then ogm_flags ogm
                     else set_bit BATADV_NOT_BEST_NEXT_HOP (ogm_flags ogm));
            flags = (if is_single_hop_neigh then set_bit BATADV_DIRECTLINK flags
                     else unset_bit BATADV_DIRECTLINK flags);
            ogm = ogm\<lparr>ogm_flags := flags, ogm_ttl := ogm_ttl ogm - 1, ogm_prev_sender := h_src,
                      ogm_tq := batadv_hop_penalty (ogm_tq ogm) (bp_hop_penalty (nd_priv nd))\<rparr> in
        batadv_iv_ogm_queue_add k (ogm_packet_bytes ogm @ take (unat (ogm_tvlv_len ogm)) tvlv)
          if_incoming if_outgoing False (batadv_iv_ogm_fwd_send_time k nd) nd)"

section \<open>The own OGMs\<close>

text \<open>
  \<^verbatim>\<open>batadv_iv_ogm_schedule_buff\<close>: the OGM of the primary interface carries the containers and is
  queued for every interface, the OGM of another interface for this interface.
\<close>

definition schedule_tvlv :: "iv_kenv \<Rightarrow> ifindex \<Rightarrow> bytes \<Rightarrow> iv_state \<Rightarrow> (u16 \<times> bytes \<times> iv_state) kresult" where
  "schedule_tvlv k i buff s =
     kbind (batadv_tt_local_commit_changes (tt_kenv.truncate k) (nd_mesh (iv_node s))) (\<lambda>ms.
       let s = s\<lparr>iv_node := nd_mesh_upd (\<lambda>_. ms) (iv_node s)\<rparr> in
       kbind (batadv_tvlv_container_ogm_append (ik_kmalloc k) (bp_tvlv_container_list (nd_priv (iv_node s)))
                buff BATADV_OGM_HLEN) (\<lambda>(tlen, buff). Kret (tlen, buff, s)))"

definition batadv_iv_ogm_schedule_buff :: "iv_kenv \<Rightarrow> ifindex \<Rightarrow> iv_state \<Rightarrow> iv_state kresult" where
  "batadv_iv_ogm_schedule_buff k hard_iface s =
     (case iv_ogm_buff (iv_if s hard_iface) of
        None \<Rightarrow> Kret s
      | Some buff \<Rightarrow>
          let s = s\<lparr>iv_node := nd_priv_upd (hard_iface_upd hard_iface (\<lambda>h.
                if hi_if_status h = BATADV_IF_TO_BE_ACTIVATED then h\<lparr>hi_if_status := BATADV_IF_ACTIVE\<rparr> else h))
                (iv_node s)\<rparr>;
              is_primary = (case batadv_primary_if_get_selected (nd_priv (iv_node s)) of
                              None \<Rightarrow> False | Some p \<Rightarrow> hi_ifindex p = hard_iface) in
          kbind (if is_primary then schedule_tvlv k hard_iface buff s else Kret (0, buff, s))
            (\<lambda>(tlen, buff, s).
              let seqno = iv_ogm_seqno (iv_if s hard_iface);
                  buff = put_bytes 4 (be32 seqno) (put_bytes 22 (be16 tlen) buff);
                  s = iv_if_upd hard_iface (\<lambda>iv. iv\<lparr>iv_ogm_buff := Some buff, iv_ogm_buff_len := length buff,
                        iv_ogm_seqno := seqno + 1\<rparr>) s;
                  nd = nd_priv_upd (batadv_iv_ogm_slide_own_bcast_window hard_iface) (iv_node s);
                  send_time = batadv_iv_ogm_emit_send_time k nd;
                  ifs = (if is_primary then map hi_ifindex (bp_hard_ifaces (nd_priv nd)) else [hard_iface]) in
              Kret (s\<lparr>iv_node := foldl (\<lambda>nd out. batadv_iv_ogm_queue_add k buff hard_iface out True send_time nd)
                        nd ifs\<rparr>)))"

definition batadv_iv_ogm_schedule :: "iv_kenv \<Rightarrow> ifindex \<Rightarrow> iv_state \<Rightarrow> iv_state kresult" where
  "batadv_iv_ogm_schedule k hard_iface s =
     (case hard_iface_get (nd_priv (iv_node s)) hard_iface of
        None \<Rightarrow> Kret s
      | Some h \<Rightarrow>
          if hi_if_status h = BATADV_IF_NOT_IN_USE \<or> hi_if_status h = BATADV_IF_TO_BE_REMOVED then Kret s
          else batadv_iv_ogm_schedule_buff k hard_iface s)"

definition batadv_iv_iface_enabled :: "iv_kenv \<Rightarrow> ifindex \<Rightarrow> iv_state \<Rightarrow> iv_state kresult" where
  "batadv_iv_iface_enabled k hard_iface s = batadv_iv_ogm_schedule k hard_iface s"

text \<open>The worker of a queued packet.\<close>

definition batadv_iv_send_outstanding_bat_ogm_packet ::
    "iv_kenv \<Rightarrow> batadv_forw_packet \<Rightarrow> iv_state \<Rightarrow> iv_state kresult" where
  "batadv_iv_send_outstanding_bat_ogm_packet k forw_packet s =
     (let nd = (iv_node s)\<lparr>nd_forw_pending := remove1 (fw_ptr forw_packet) (nd_forw_pending (iv_node s))\<rparr>;
          dropped = (bp_mesh_state (nd_priv nd) = BATADV_MESH_DEACTIVATING);
          release = (\<lambda>forw_packet s. s\<lparr>iv_node :=
             (case batadv_forw_packet_steal Batman_queue (fw_ptr forw_packet) (iv_node s) of
                (False, nd) \<Rightarrow> nd
              | (True, nd) \<Rightarrow> batadv_forw_packet_free forw_packet dropped nd)\<rparr>) in
      if dropped then Kret (release forw_packet (s\<lparr>iv_node := nd\<rparr>))
      else
        (case batadv_iv_ogm_emit k forw_packet nd of
           (forw_packet, nd) \<Rightarrow>
             kbind (case fw_if_incoming forw_packet of
                      Some i \<Rightarrow>
                        if fw_own forw_packet \<and> fw_if_incoming forw_packet = fw_if_outgoing forw_packet
                        then batadv_iv_ogm_schedule k i (s\<lparr>iv_node := nd\<rparr>)
                        else Kret (s\<lparr>iv_node := nd\<rparr>)
                    | None \<Rightarrow> Kret (s\<lparr>iv_node := nd\<rparr>))
               (\<lambda>s. Kret (release forw_packet s))))"

section \<open>Processing\<close>

definition batadv_orig_to_direct_router ::
    "'k kenv_scheme \<Rightarrow> batadv_priv \<Rightarrow> mac \<Rightarrow> ifref \<Rightarrow> batadv_neigh_node option" where
  "batadv_orig_to_direct_router k bp orig_addr if_outgoing =
     (case batadv_orig_hash_find k bp orig_addr of
        None \<Rightarrow> None
      | Some orig_node \<Rightarrow>
          (case batadv_orig_router_get orig_node if_outgoing of
             None \<Rightarrow> None | Some p \<Rightarrow> neigh_deref orig_node p))"

definition nd_prv :: "(batadv_priv \<Rightarrow> 'a \<times> batadv_priv) \<Rightarrow> node \<Rightarrow> 'a \<times> node" where
  "nd_prv f nd = (case f (nd_priv nd) of (r, bp) \<Rightarrow> (r, nd_priv_upd (\<lambda>_. bp) nd))"

definition hardif_neigh_seen :: "u64 \<Rightarrow> mac \<Rightarrow> batadv_hard_iface \<Rightarrow> batadv_hard_iface" where
  "hardif_neigh_seen now addr h =
     h\<lparr>hi_neigh_list := hlist_upd_first (\<lambda>n. batadv_compare_eth (hn_addr n) addr)
         (\<lambda>n. n\<lparr>hn_last_seen := now\<rparr>) (hi_neigh_list h)\<rparr>"

text \<open>
  What becomes of an OGM on one outgoing interface. The first part ends with the decision whether
  the OGM is dropped (\<open>None\<close>) or looked at further, with what is known of the router.
\<close>

definition iv_precheck ::
    "iv_kenv \<Rightarrow> mac \<Rightarrow> batadv_ogm_packet \<Rightarrow> ifindex \<Rightarrow> ifref \<Rightarrow> node
      \<Rightarrow> (batadv_dup_status \<times> bool) option \<times> node" where
  "iv_precheck k h_src ogm if_incoming if_outgoing nd =
     (case nd_prv (batadv_iv_ogm_update_seqnos k h_src ogm if_incoming if_outgoing) nd of
        (dup_status, nd) \<Rightarrow>
          if dup_status = BATADV_PROTECTED then (None, nd)
          else if ogm_tq ogm = 0 then (None, nd)
          else
            let nd = (if batadv_compare_eth h_src (ogm_orig ogm)
                      then nd_priv_upd (hard_iface_upd if_incoming (hardif_neigh_seen (jiffies k) h_src)) nd else nd);
                router = batadv_orig_to_direct_router k (nd_priv nd) (ogm_orig ogm) if_outgoing;
                router_router = (case router of None \<Rightarrow> None
                   | Some r \<Rightarrow> batadv_orig_to_direct_router k (nd_priv nd) (nn_addr r) if_outgoing);
                router_ifinfo = (case router of None \<Rightarrow> None | Some r \<Rightarrow> batadv_neigh_ifinfo_get r if_outgoing);
                is_from_best_next_hop = (case (router, router_ifinfo) of
                   (Some r, Some i) \<Rightarrow> tq_avg (ni_bat_iv i) \<noteq> 0 \<and> batadv_compare_eth (nn_addr r) h_src
                 | _ \<Rightarrow> False) in
            if (case (router, router_router) of
                  (Some r, Some rr) \<Rightarrow> batadv_compare_eth (nn_addr r) (ogm_prev_sender ogm)
                     \<and> \<not> batadv_compare_eth (ogm_orig ogm) (ogm_prev_sender ogm)
                     \<and> batadv_compare_eth (nn_addr r) (nn_addr rr)
                | _ \<Rightarrow> False)
            then (None, nd)
            else (Some (dup_status, is_from_best_next_hop), nd))"

definition iv_orig_ifinfo_of ::
    "iv_kenv \<Rightarrow> mac \<Rightarrow> ifref \<Rightarrow> node \<Rightarrow> batadv_orig_ifinfo option \<times> node" where
  "iv_orig_ifinfo_of k orig if_outgoing nd =
     (case batadv_orig_hash_find k (nd_priv nd) orig of
        None \<Rightarrow> (None, nd)
      | Some orig_node \<Rightarrow>
          (case batadv_orig_ifinfo_new k orig_node if_outgoing of
             (info, orig_node) \<Rightarrow> (info, nd_priv_upd (orig_upd k orig (\<lambda>_. orig_node)) nd)))"

text \<open>\<open>ogm\<close> has the quality that the link metric computed.\<close>

definition iv_update_and_forward ::
    "iv_kenv \<Rightarrow> mac \<Rightarrow> batadv_ogm_packet \<Rightarrow> bytes \<Rightarrow> batadv_dup_status \<Rightarrow> bool \<Rightarrow> bool \<Rightarrow> bool \<Rightarrow> ifindex \<Rightarrow> ifref
      \<Rightarrow> node \<Rightarrow> node" where
  "iv_update_and_forward k h_src ogm tvlv dup_status is_single_hop_neigh is_from_best_next_hop is_bidirect
     if_incoming if_outgoing nd =
     (case iv_orig_ifinfo_of k (ogm_orig ogm) if_outgoing nd of
        (None, nd) \<Rightarrow> nd
      | (Some orig_ifinfo, nd) \<Rightarrow>
          let sameseq = (oi_last_real_seqno orig_ifinfo = ogm_pkt_seqno ogm);
              similar_ttl = (int (unat (oi_last_ttl orig_ifinfo)) - 3 \<le> int (unat (ogm_ttl ogm)));
              nd = (if is_bidirect \<and> (dup_status = BATADV_NO_DUP \<or> sameseq \<and> similar_ttl)
                    then nd_priv_upd (batadv_iv_ogm_orig_update k (ogm_orig ogm) h_src (ogm_tq ogm)
                           (ogm_ttl ogm) if_incoming if_outgoing dup_status) nd
                    else nd) in
          (case if_outgoing of
             None \<Rightarrow> nd
           | Some out \<Rightarrow>
               if is_single_hop_neigh then
                 if ogm_ttl ogm \<le> 2 \<and> if_incoming \<noteq> out then nd
                 else batadv_iv_ogm_forward k h_src ogm tvlv True is_from_best_next_hop if_incoming out nd
               else if \<not> is_bidirect then nd
               else if dup_status = BATADV_NEIGH_DUP then nd
               else batadv_iv_ogm_forward k h_src ogm tvlv False is_from_best_next_hop if_incoming out nd))"

definition iv_rank_and_forward ::
    "iv_kenv \<Rightarrow> mac \<Rightarrow> batadv_ogm_packet \<Rightarrow> bytes \<Rightarrow> batadv_dup_status \<Rightarrow> bool \<Rightarrow> ifindex \<Rightarrow> ifref \<Rightarrow> node \<Rightarrow> node" where
  "iv_rank_and_forward k h_src ogm tvlv dup_status is_from_best_next_hop if_incoming if_outgoing nd =
     (let is_single_hop_neigh = batadv_compare_eth h_src (ogm_orig ogm) in
      case (if is_single_hop_neigh then (batadv_orig_hash_find k (nd_priv nd) (ogm_orig ogm), nd)
            else nd_prv (\<lambda>bp. batadv_iv_ogm_orig_get k bp h_src) nd) of
        (None, nd) \<Rightarrow> nd
      | (Some orig_neigh_node, nd) \<Rightarrow>
          if \<not> is_single_hop_neigh \<and> batadv_orig_router_get orig_neigh_node if_outgoing = None then nd
          else
            (case nd_prv (batadv_iv_ogm_calc_tq k (ogm_orig ogm) h_src (ogm_tq ogm) if_incoming if_outgoing) nd of
               ((is_bidirect, tq), nd) \<Rightarrow>
                 iv_update_and_forward k h_src (ogm\<lparr>ogm_tq := tq\<rparr>) tvlv dup_status is_single_hop_neigh
                   is_from_best_next_hop is_bidirect if_incoming if_outgoing nd))"

text \<open>
  \<open>ogm\<close> are the bytes from the OGM on. The containers are handled once, for the default
  interface.
\<close>

definition batadv_iv_ogm_process_per_outif ::
    "iv_kenv \<Rightarrow> mac \<Rightarrow> bytes \<Rightarrow> ifindex \<Rightarrow> ifref \<Rightarrow> node_handlers \<times> node \<Rightarrow> (node_handlers \<times> node) kresult" where
  "batadv_iv_ogm_process_per_outif k h_src ogm_data if_incoming if_outgoing st =
     (case st of (hs, nd) \<Rightarrow>
        if \<not> ik_copy_ok k if_outgoing then Kret (hs, nd)
        else
          let ogm = get_ogm_packet ogm_data; tvlv = drop BATADV_OGM_HLEN ogm_data in
          (case iv_precheck k h_src ogm if_incoming if_outgoing nd of
             (None, nd) \<Rightarrow> Kret (hs, nd)
           | (Some (dup_status, is_from_best_next_hop), nd) \<Rightarrow>
               (case (if if_outgoing = BATADV_IF_DEFAULT
                      then batadv_tvlv_ogm_receive (Some (ogm_tvlv_len ogm, tvlv)) (Some (ogm_orig ogm)) hs (Kret nd)
                      else (hs, Kret nd)) of
                  (hs, st) \<Rightarrow>
                    kbind st (\<lambda>nd. Kret (hs, iv_rank_and_forward k h_src ogm tvlv dup_status is_from_best_next_hop
                                               if_incoming if_outgoing nd)))))"

fun iv_outifs_loop ::
    "iv_kenv \<Rightarrow> mac \<Rightarrow> bytes \<Rightarrow> ifindex \<Rightarrow> ifindex list \<Rightarrow> node_handlers \<times> node \<Rightarrow> (node_handlers \<times> node) kresult" where
  "iv_outifs_loop k h_src ogm_data if_incoming [] st = Kret st"
| "iv_outifs_loop k h_src ogm_data if_incoming (i # is) st =
     (case hard_iface_get (nd_priv (snd st)) i of
        None \<Rightarrow> iv_outifs_loop k h_src ogm_data if_incoming is st
      | Some h \<Rightarrow>
          if hi_if_status h \<noteq> BATADV_IF_ACTIVE then iv_outifs_loop k h_src ogm_data if_incoming is st
          else kbind (batadv_iv_ogm_process_per_outif k h_src ogm_data if_incoming (Some i) st)
                 (iv_outifs_loop k h_src ogm_data if_incoming is))"

definition batadv_iv_ogm_process ::
    "iv_kenv \<Rightarrow> u32 \<Rightarrow> mac \<Rightarrow> bytes \<Rightarrow> ifindex \<Rightarrow> node_handlers \<times> node \<Rightarrow> (node_handlers \<times> node) kresult" where
  "batadv_iv_ogm_process k if_incoming_seqno h_src ogm_data if_incoming st =
     (case st of (hs, nd) \<Rightarrow>
        let ogm = get_ogm_packet ogm_data; bp = nd_priv nd in
        if ogm_packet_type ogm \<noteq> BATADV_IV_OGM then Kret (hs, nd)
        else if batadv_is_my_mac bp h_src then Kret (hs, nd)
        else if batadv_is_my_mac bp (ogm_orig ogm) then
          (case nd_prv (\<lambda>bp. batadv_iv_ogm_orig_get k bp h_src) nd of
             (None, nd) \<Rightarrow> Kret (hs, nd)
           | (Some _, nd) \<Rightarrow>
               Kret (hs, nd_priv_upd (batadv_iv_ogm_process_reply k ogm if_incoming h_src if_incoming_seqno) nd))
        else if batadv_is_my_mac bp (ogm_prev_sender ogm) then Kret (hs, nd)
        else if bit (ogm_flags ogm) BATADV_NOT_BEST_NEXT_HOP then Kret (hs, nd)
        else
          (case nd_prv (\<lambda>bp. batadv_iv_ogm_orig_get k bp (ogm_orig ogm)) nd of
             (None, nd) \<Rightarrow> Kret (hs, nd)
           | (Some _, nd) \<Rightarrow>
               kbind (batadv_iv_ogm_process_per_outif k h_src ogm_data if_incoming BATADV_IF_DEFAULT (hs, nd))
                 (\<lambda>st. iv_outifs_loop k h_src ogm_data if_incoming (map hi_ifindex (bp_hard_ifaces (nd_priv (snd st)))) st)))"

text \<open>The loop over the OGMs of a packet; each is processed under its own circumstances.\<close>

function iv_recv_loop ::
    "(nat \<Rightarrow> iv_kenv) \<Rightarrow> u32 \<Rightarrow> mac \<Rightarrow> bytes \<Rightarrow> ifindex \<Rightarrow> nat \<Rightarrow> node_handlers \<times> node \<Rightarrow> (node_handlers \<times> node) kresult" where
  "iv_recv_loop env seqno h_src data if_incoming ogm_offset st =
     (if batadv_iv_ogm_aggr_packet ogm_offset (length data) (drop ogm_offset data) then
        (case batadv_iv_ogm_process (env ogm_offset) seqno h_src (drop ogm_offset data) if_incoming st of
           Kernel_bug \<Rightarrow> Kernel_bug
         | Kret st \<Rightarrow>
             iv_recv_loop env seqno h_src data if_incoming
               (ogm_offset + BATADV_OGM_HLEN + unat (ogm_tvlv_len (get_ogm_packet (drop ogm_offset data)))) st)
      else Kret st)"
  by pat_completeness auto
termination
  by (relation "measure (\<lambda>(_, _, _, data, _, off, _). length data - off)")
    (auto simp: batadv_iv_ogm_aggr_packet_def BATADV_OGM_HLEN_def split: if_splits)

declare iv_recv_loop.simps [simp del]

definition batadv_iv_ogm_receive ::
    "(nat \<Rightarrow> iv_kenv) \<Rightarrow> 'e skb_env_scheme \<Rightarrow> sk_buff \<Rightarrow> ifindex \<Rightarrow> node_handlers \<times> iv_state
      \<Rightarrow> (int \<times> node_handlers \<times> iv_state) kresult" where
  "batadv_iv_ogm_receive env e skb if_incoming st =
     (case st of (hs, s) \<Rightarrow>
        let nd = iv_node s in
        if \<not> batadv_check_management_packet e skb BATADV_OGM_HLEN
           \<or> bp_algo_name (nd_priv nd) \<noteq> ''BATMAN_IV''
        then Kret (NET_RX_DROP, hs, s\<lparr>iv_node := nd_emit (Kfree_skb skb) nd\<rparr>)
        else
          let nd = node_counter BATADV_CNT_MGMT_RX_BYTES (ucast (skb_len skb) + of_nat ETH_HLEN)
                     (node_counter BATADV_CNT_MGMT_RX 1 nd) in
          kbind (iv_recv_loop env (iv_ogm_seqno (iv_if s if_incoming)) (h_source skb) (skb_data skb) if_incoming 0 (hs, nd))
            (\<lambda>(hs, nd). Kret (NET_RX_SUCCESS, hs, s\<lparr>iv_node := nd_emit (Consume_skb skb) nd\<rparr>)))"

section \<open>The registry of algorithms\<close>

text \<open>
  \<^verbatim>\<open>bat_algo.c\<close>: the registered algorithms by name. \<open>ao_required_ops\<close> says whether the callbacks
  that every algorithm must have are there.
\<close>

record batadv_algo_ops =
  ao_name :: string
  ao_required_ops :: bool

definition EEXIST :: int where "EEXIST = 17"

definition batadv_algo_init :: "batadv_algo_ops list" where "batadv_algo_init = []"

definition batadv_algo_get :: "string \<Rightarrow> batadv_algo_ops list \<Rightarrow> batadv_algo_ops option" where
  "batadv_algo_get name algo_list = find (\<lambda>ops. ao_name ops = name) algo_list"

definition batadv_algo_register :: "batadv_algo_ops \<Rightarrow> batadv_algo_ops list \<Rightarrow> int \<times> batadv_algo_ops list" where
  "batadv_algo_register bat_algo_ops algo_list =
     (case batadv_algo_get (ao_name bat_algo_ops) algo_list of
        Some _ \<Rightarrow> (- EEXIST, algo_list)
      | None \<Rightarrow>
          if \<not> ao_required_ops bat_algo_ops then (- EINVAL, algo_list)
          else (0, bat_algo_ops # algo_list))"

definition batadv_algo_select :: "string \<Rightarrow> batadv_algo_ops list \<Rightarrow> batadv_priv \<Rightarrow> int \<times> batadv_priv" where
  "batadv_algo_select name algo_list bp =
     (case batadv_algo_get name algo_list of
        None \<Rightarrow> (- EINVAL, bp)
      | Some bat_algo_ops \<Rightarrow> (0, bp\<lparr>bp_algo_name := ao_name bat_algo_ops\<rparr>))"

text \<open>Setting the module parameter: a trailing newline is cut off; the result is the new name.\<close>

definition batadv_param_set_ra :: "string \<Rightarrow> batadv_algo_ops list \<Rightarrow> string \<Rightarrow> int \<times> string" where
  "batadv_param_set_ra val algo_list routing_algo =
     (let algo_name = (if val \<noteq> [] \<and> last val = CHR 0x0A then butlast val else val) in
      case batadv_algo_get algo_name algo_list of
        None \<Rightarrow> (- EINVAL, routing_algo)
      | Some _ \<Rightarrow> if 20 \<le> length algo_name then (- 28, routing_algo) else (0, algo_name))"

definition batadv_iv_init ::
    "(u8 \<Rightarrow> rx_handler) \<Rightarrow> batadv_algo_ops list \<Rightarrow> int \<times> (u8 \<Rightarrow> rx_handler) \<times> batadv_algo_ops list" where
  "batadv_iv_init handlers algo_list =
     (case batadv_recv_handler_register BATADV_IV_OGM Rx_algo handlers of
        (ret, handlers) \<Rightarrow>
          if ret < 0 then (ret, handlers, algo_list)
          else (case batadv_algo_register \<lparr>ao_name = ''BATMAN_IV'', ao_required_ops = True\<rparr> algo_list of
                  (ret, algo_list) \<Rightarrow>
                    if ret < 0 then (ret, batadv_recv_handler_unregister BATADV_IV_OGM handlers, algo_list)
                    else (ret, handlers, algo_list)))"

end
