(* ===== verification/Iv_Metric.thy ===== *)
theory Iv_Metric
  imports Bat_Iv_Ogm
begin

text \<open>
  What holds of the metric of B.A.T.M.A.N. IV: the arithmetic of the link quality never wraps and
  never raises the quality of a path, the windows and averages an originator keeps describe each
  other, and both survive the processing of any OGM.
\<close>

section \<open>The arithmetic of the metric\<close>

lemma unat_le_255: "unat (x :: u8) \<le> 255"
  using unsigned_less [of x, where ?'a = nat] by simp

lemma unat_of_nat_u8: "n \<le> 255 \<Longrightarrow> unat (of_nat n :: u8) = n"
  by (simp add: unat_of_nat)

lemma prod4_le:
  fixes a b c d :: nat
  assumes "a \<le> 255" "b \<le> 255" "c \<le> 255" "d \<le> 255"
  shows "a * b * c * d \<le> a * 16581375" and "a * b * c * d < 4294967296"
proof -
  have "b * c * d \<le> 255 * 255 * 255" by (intro mult_mono) (use assms in auto)
  then have "a * (b * c * d) \<le> a * 16581375" by (intro mult_le_mono2) simp
  then show "a * b * c * d \<le> a * 16581375" by (simp add: mult.assoc)
  moreover have "a * 16581375 \<le> 255 * 16581375" using assms(1) by (rule mult_le_mono1)
  ultimately show "a * b * c * d < 4294967296" by linarith
qed

lemma combined_tq_unat:
  assumes "unat a \<le> 255" "unat h \<le> 255"
  shows "unat (iv_combined_tq t ow a h) = unat t * unat ow * unat a * unat h div 16581375"
proof -
  have b: "unat t * unat ow * unat a * unat h < 4294967296"
    "unat t * unat ow * unat a * unat h \<le> unat t * 16581375"
    using prod4_le [OF unat_le_255 [of t] unat_le_255 [of ow] assms] by blast+
  have "unat t * unat ow * unat a * unat h div 16581375 \<le> unat t * 16581375 div 16581375"
    by (intro div_le_mono b)
  then have le: "unat t * unat ow * unat a * unat h div 16581375 \<le> 255"
    using unat_le_255 [of t] by simp
  have p2: "unat t * unat ow < 4294967296" and p3: "unat t * unat ow * unat a < 4294967296"
    using prod4_le(2) [of "unat t" "unat ow" 1 1] prod4_le(2) [of "unat t" "unat ow" "unat a" 1]
      unat_le_255 [of t] unat_le_255 [of ow] assms by simp_all
  have m: "unat (ucast t * ucast ow * a * h :: u32) = unat t * unat ow * unat a * unat h"
    using b p2 p3 by (simp add: unat_word_ariths unat_ucast_u8_u32)
  have d: "BATADV_TQ_MAX_VALUE * BATADV_TQ_MAX_VALUE * BATADV_TQ_MAX_VALUE = (16581375 :: u32)"
    by (simp add: BATADV_TQ_MAX_VALUE_def)
  show ?thesis
    using le by (simp add: iv_combined_tq_def d unsigned_ucast_eq m unat_div take_bit_nat_eq_self)
qed

lemma combined_tq_le:
  assumes "unat a \<le> 255" "unat h \<le> 255"
  shows "iv_combined_tq t ow a h \<le> t"
proof -
  have "unat t * unat ow * unat a * unat h div 16581375 \<le> unat t * 16581375 div 16581375"
    using prod4_le(1) [OF unat_le_255 [of t] unat_le_255 [of ow] assms] by (intro div_le_mono)
  then show ?thesis
    using combined_tq_unat [OF assms] by (simp add: word_le_nat_alt)
qed

lemma tq_own_unat:
  "unat (iv_tq_own e r) = (if r = 0 then 0 else 255 * min (unat e) (unat r) div unat r)"
proof (cases "min (unat e) (unat r) = 0")
  case True
  then show ?thesis
    by (auto simp: iv_tq_own_def BATADV_TQ_LOCAL_BIDRECT_SEND_MINIMUM_def
        BATADV_TQ_LOCAL_BIDRECT_RECV_MINIMUM_def word_less_nat_alt min_def unat_eq_0 split: if_splits)
next
  case False
  let ?t = "min (unat e) (unat r)"
  have "255 * ?t div unat r \<le> 255"
    using div_le_mono [of "255 * ?t" "255 * unat r" "unat r"] False by simp
  moreover have "unat (if e > r then r else e) = ?t" by (auto simp: word_less_nat_alt)
  moreover have "255 * int ?t div int (unat r) = int (255 * ?t div unat r)"
    by (simp add: zdiv_int)
  ultimately show ?thesis
    using False
    by (auto simp: iv_tq_own_def BATADV_TQ_LOCAL_BIDRECT_SEND_MINIMUM_def Let_def
        BATADV_TQ_LOCAL_BIDRECT_RECV_MINIMUM_def word_less_nat_alt unat_eq_0 unat_of_nat_u8)
qed

lemma asym_penalty_unat:
  assumes "unat r \<le> 64"
  shows "unat (iv_asym_penalty r) = 255 - 255 * (64 - unat r) ^ 3 div 262144"
    and "unat (iv_asym_penalty r) \<le> 255"
proof -
  define i where "i = 64 - unat r"
  have i: "i \<le> 64" by (simp add: i_def)
  have inv: "unat (64 - r :: u8) = i"
    using assms by (simp add: i_def unat_sub word_le_nat_alt)
  have "i * i * i \<le> 64 * 64 * 64" by (intro mult_mono) (use i in auto)
  then have c: "i * i * i \<le> 262144" by simp
  have c2: "i * i \<le> 4096" using mult_mono [OF i i] by simp
  define X :: u32 where "X = ucast (64 - r :: u8) * ucast (64 - r :: u8) * ucast (64 - r :: u8)"
  have u: "unat X = i * i * i"
    using c c2 by (simp add: X_def unat_word_ariths unat_ucast_u8_u32 inv)
  have q: "unat (BATADV_TQ_MAX_VALUE * X div (64 * 64 * 64)) = 255 * (i * i * i) div 262144"
    using c by (simp add: unat_div u BATADV_TQ_MAX_VALUE_def unat_word_ariths(2))
  have le: "255 * (i * i * i) div 262144 \<le> 255" using c div_le_mono [of "255 * (i * i * i)" "255 * 262144" 262144] by simp
  have "unat (iv_asym_penalty r) = 255 - 255 * (i * i * i) div 262144"
    using q le by (simp add: iv_asym_penalty_def Let_def X_def [symmetric] unat_sub word_le_nat_alt BATADV_TQ_MAX_VALUE_def)
  then show "unat (iv_asym_penalty r) = 255 - 255 * (64 - unat r) ^ 3 div 262144"
    by (simp add: i_def power3_eq_cube)
  then show "unat (iv_asym_penalty r) \<le> 255" by simp
qed

lemma sdiv_of_nat: "int n sdiv 255 = int (n div 255)"
  by (cases n) (simp_all add: signed_divide_int_def zdiv_int)

lemma hop_penalty_unat:
  assumes "unat p \<le> 255"
  shows "unat (batadv_hop_penalty t p) = unat t * (255 - unat p) div 255"
proof -
  have "int (unat p) \<le> int 255" using assms by (simp only: of_nat_le_iff)
  then have "uint p \<le> 255" by simp
  then have "s32 p = int (unat p)"
    using signed_take_bit_int_eq_self [of 31 "uint p"] uint_nonnegative [of p] by (simp add: sint_uint)
  have e: "int (unat t) * (255 - s32 p) = int (unat t * (255 - unat p))"
    using assms \<open>s32 p = int (unat p)\<close> by (simp add: of_nat_diff)
  have "unat t * (255 - unat p) div 255 \<le> unat t * 255 div 255" by (intro div_le_mono mult_le_mono2) simp
  then have le: "unat t * (255 - unat p) div 255 \<le> 255" using unat_le_255 [of t] by simp
  have "int (unat t * (255 - unat p)) sdiv 255 = int (unat t * (255 - unat p) div 255)"
    by (rule sdiv_of_nat)
  then show ?thesis
    using le by (simp only: batadv_hop_penalty_def e of_int_of_nat_eq unat_of_nat_u8)
qed

lemma hop_penalty_le: "unat p \<le> 255 \<Longrightarrow> batadv_hop_penalty t p \<le> t"
  using div_le_mono [of "unat t * (255 - unat p)" "unat t * 255" 255]
  by (simp add: word_le_nat_alt hop_penalty_unat)

text \<open>
  The quality of a path over a link is the received quality times the share of own messages
  that came back, times the punishment of asymmetry, times the penalty of the interface, each in
  255th parts: the product of the four factors, which is computed in 32 bits and truncated to 8,
  never wraps.
\<close>

theorem iv_tq_no_overflow:
  assumes "unat received \<le> 64" and "unat penalty \<le> 255"
  shows "unat (iv_combined_tq tq (iv_tq_own echoed received) (iv_asym_penalty received) penalty) =
     unat tq * (if received = 0 then 0 else 255 * min (unat echoed) (unat received) div unat received)
       * (255 - 255 * (64 - unat received) ^ 3 div 64 ^ 3) * unat penalty div 255 ^ 3"
  by (simp add: combined_tq_unat [OF asym_penalty_unat(2) [OF assms(1)] assms(2)] tq_own_unat asym_penalty_unat(1) [OF assms(1)])

theorem iv_tq_no_overflow_witness:
  "unat (iv_combined_tq 255 (iv_tq_own 60 62) (iv_asym_penalty 62) 240) = 231"
  using iv_tq_no_overflow [of 62 240 255 60] by simp

section \<open>Windows, sums and averages\<close>

text \<open>
  The counters of an originator: the number of OGMs that came back is the weight of the window,
  as is the number of OGMs received, the average belongs to the values it was taken from, and
  the ring buffer keeps its length. The penalties fit a byte, as user space can only set a byte.
\<close>

definition iv_neigh_ifinfo_ok :: "batadv_neigh_ifinfo \<Rightarrow> bool" where
  "iv_neigh_ifinfo_ok i =
     (let iv = ni_bat_iv i in
      real_packet_count iv = bitmap_weight (real_bits iv)
      \<and> length (tq_recv iv) = BATADV_TQ_GLOBAL_WINDOW_SIZE \<and> unat (tq_index iv) < BATADV_TQ_GLOBAL_WINDOW_SIZE
      \<and> tq_avg iv = batadv_ring_buffer_avg (tq_recv iv))"

definition iv_orig_ifinfo_ok :: "batadv_orig_ifinfo \<Rightarrow> bool" where
  "iv_orig_ifinfo_ok i = (bcast_own_sum (oi_bat_iv i) = bitmap_weight (bcast_own (oi_bat_iv i)))"

definition iv_neigh_ok :: "batadv_neigh_node \<Rightarrow> bool" where
  "iv_neigh_ok n = list_all iv_neigh_ifinfo_ok (nn_ifinfo_list n)"

definition iv_orig_ok :: "batadv_orig_node \<Rightarrow> bool" where
  "iv_orig_ok orig_node =
     (list_all iv_orig_ifinfo_ok (on_ifinfo_list orig_node)
      \<and> list_all iv_neigh_ok (on_neigh_list orig_node) \<and> list_all iv_neigh_ok (on_neigh_unlinked orig_node))"

definition iv_table_ok :: "batadv_orig_node batadv_hashtable \<Rightarrow> bool" where
  "iv_table_ok hash =
     (list_all (list_all iv_orig_ok) (table hash) \<and> 0 < hash_size hash \<and> length (table hash) = unat (hash_size hash))"

definition iv_ok :: "batadv_priv \<Rightarrow> bool" where
  "iv_ok bp =
     ((case bp_orig_hash bp of None \<Rightarrow> True | Some hash \<Rightarrow> iv_table_ok hash)
      \<and> unat (bp_hop_penalty bp) \<le> 255 \<and> list_all (\<lambda>h. unat (hi_hop_penalty h) \<le> 255) (bp_hard_ifaces bp))"

lemmas iv_ok_defs = iv_ok_def iv_orig_ok_def iv_neigh_ok_def

lemma bitmap_weight_le: "unat (bitmap_weight w) \<le> 64"
proof -
  have "length (filter (bit w) [0..<64]) \<le> length [0..<64]" by (rule length_filter_le)
  then show ?thesis by (simp add: bitmap_weight_def unat_of_nat)
qed

lemma bitmap_weight_zero [simp]: "bitmap_weight 0 = 0"
  by (simp add: bitmap_weight_def)

lemma ring_avg_zero [simp]: "batadv_ring_buffer_avg [0, 0, 0, 0, 0] = 0"
  by (simp add: batadv_ring_buffer_avg_def BATADV_TQ_GLOBAL_WINDOW_SIZE_def)

lemma neigh_ifinfo_zero_ok [simp]: "iv_neigh_ifinfo_ok (neigh_ifinfo_zero i)"
  by (simp add: iv_neigh_ifinfo_ok_def neigh_ifinfo_zero_def BATADV_TQ_GLOBAL_WINDOW_SIZE_def)

lemma neigh_ifinfo_new_ok:
  "iv_neigh_ok n \<Longrightarrow> iv_neigh_ok (snd (batadv_neigh_ifinfo_new k n i))"
  by (auto simp: batadv_neigh_ifinfo_new_def iv_neigh_ok_def Let_def split: option.splits)

lemma neigh_ifinfo_new_result:
  "batadv_neigh_ifinfo_new k n i = (Some x, n') \<Longrightarrow> iv_neigh_ok n \<Longrightarrow> iv_neigh_ifinfo_ok x"
  by (auto simp: batadv_neigh_ifinfo_new_def batadv_neigh_ifinfo_get_def iv_neigh_ok_def Let_def list_all_iff
      dest!: find_key_SomeD split: option.splits if_splits)

lemma neigh_ifinfo_upd_ok:
  "iv_neigh_ok n \<Longrightarrow> (\<And>x. iv_neigh_ifinfo_ok x \<Longrightarrow> iv_neigh_ifinfo_ok (f x)) \<Longrightarrow> iv_neigh_ok (neigh_ifinfo_upd i f n)"
  by (auto simp: iv_neigh_ok_def neigh_ifinfo_upd_def intro!: list_all_hlist_upd_first)

lemma tq_record_ok: "iv_neigh_ifinfo_ok i \<Longrightarrow> iv_neigh_ifinfo_ok (tq_record v i)"
proof -
  assume "iv_neigh_ifinfo_ok i"
  moreover have "unat ((x + 1) mod (5 :: u8)) < 5" for x
    by (simp add: unat_mod)
  ultimately show ?thesis
    by (simp add: iv_neigh_ifinfo_ok_def tq_record_def batadv_ring_buffer_set_def Let_def
        BATADV_TQ_GLOBAL_WINDOW_SIZE_def)
qed

lemma orig_ifinfo_new_ok:
  "iv_orig_ok orig_node \<Longrightarrow> iv_orig_ok (snd (batadv_orig_ifinfo_new k orig_node i))"
  by (auto simp: batadv_orig_ifinfo_new_def iv_orig_ok_def iv_orig_ifinfo_ok_def Let_def split: option.splits)

lemma orig_ifinfo_upd_ok:
  "iv_orig_ok orig_node \<Longrightarrow> (\<And>x. iv_orig_ifinfo_ok x \<Longrightarrow> iv_orig_ifinfo_ok (f x))
    \<Longrightarrow> iv_orig_ok (orig_ifinfo_upd i f orig_node)"
  by (auto simp: iv_orig_ok_def orig_ifinfo_upd_def intro!: list_all_hlist_upd_first)

lemma neigh_upd_ok:
  "iv_orig_ok orig_node \<Longrightarrow> (\<And>x. iv_neigh_ok x \<Longrightarrow> iv_neigh_ok (f x)) \<Longrightarrow> iv_orig_ok (neigh_upd p f orig_node)"
  by (auto simp: iv_orig_ok_def neigh_upd_def intro!: list_all_hlist_upd_first)

lemma update_route_ok: "iv_orig_ok orig_node \<Longrightarrow> iv_orig_ok (fst (batadv_update_route orig_node i p))"
  by (auto simp: batadv_update_route_def set_route_def Let_def iv_orig_ifinfo_ok_def
      split: option.splits intro!: orig_ifinfo_upd_ok)

lemma neigh_deref_ok: "iv_orig_ok orig_node \<Longrightarrow> neigh_deref orig_node p = Some n \<Longrightarrow> iv_neigh_ok n"
  by (auto simp: iv_orig_ok_def neigh_deref_def list_all_iff dest!: find_key_SomeD)


lemma choose_orig_less: "0 < n \<Longrightarrow> unat (batadv_choose_orig jh a n) < unat n"
  by (simp add: batadv_choose_orig_def unat_mod word_less_nat_alt)

lemma table_bucket_ok: "iv_table_ok h \<Longrightarrow> list_all iv_orig_ok (hash_bucket h (batadv_choose_orig jh a (hash_size h)))"
  using choose_orig_less [of "hash_size h" jh a]
  by (auto simp: iv_table_ok_def hash_bucket_def list_all_length)

lemma table_put_ok: "iv_table_ok h \<Longrightarrow> list_all iv_orig_ok b \<Longrightarrow> iv_table_ok (set_hash_bucket h i b)"
  by (auto simp: iv_table_ok_def set_hash_bucket_def list_all_iff dest!: set_update_subset_insert [THEN subsetD])

lemma iv_find_ok: "iv_ok bp \<Longrightarrow> batadv_orig_hash_find k bp a = Some orig_node \<Longrightarrow> iv_orig_ok orig_node"
  using table_bucket_ok
  by (fastforce simp: iv_ok_def batadv_orig_hash_find_def Let_def list_all_iff dest!: find_key_SomeD
      split: option.splits)

lemma iv_orig_upd_ok:
  "iv_ok bp \<Longrightarrow> (\<And>x. iv_orig_ok x \<Longrightarrow> iv_orig_ok (f x)) \<Longrightarrow> iv_ok (orig_upd k a f bp)"
  by (auto simp: iv_ok_def orig_upd_def Let_def
      intro!: table_put_ok list_all_hlist_upd_first table_bucket_ok split: option.splits)

lemma iv_hard_iface_upd_ok:
  "iv_ok bp \<Longrightarrow> (\<And>h. unat (hi_hop_penalty h) \<le> 255 \<Longrightarrow> unat (hi_hop_penalty (f h)) \<le> 255)
    \<Longrightarrow> iv_ok (hard_iface_upd i f bp)"
  by (auto simp: iv_ok_def hard_iface_upd_def intro!: list_all_hlist_upd_first)

lemma iv_hard_iface_get_ok: "iv_ok bp \<Longrightarrow> hard_iface_get bp i = Some h \<Longrightarrow> unat (hi_hop_penalty h) \<le> 255"
  by (auto simp: iv_ok_def hard_iface_get_def list_all_iff dest!: find_key_SomeD)

section \<open>Each operation keeps them\<close>

lemma orig_node_new_ok: "batadv_orig_node_new k a = Some orig_node \<Longrightarrow> iv_orig_ok orig_node"
  by (auto simp: batadv_orig_node_new_def batadv_orig_node_vlan_new_def Let_def iv_orig_ok_def
      split: if_splits option.splits)

lemma iv_hash_add_ok:
  "batadv_hash_add (Some h) cmp (batadv_choose_orig jh) a n = (r, Some h') \<Longrightarrow> iv_table_ok h \<Longrightarrow> iv_orig_ok n
    \<Longrightarrow> iv_table_ok h'"
  using table_put_ok [of h "n # hash_bucket h (batadv_choose_orig jh a (hash_size h))"]
  by (auto simp: batadv_hash_add_def Let_def iv_table_ok_def table_bucket_ok [unfolded iv_table_ok_def] split: if_splits)

lemma hash_add_None: "batadv_hash_add (Some h) cmp ch a n \<noteq> (r, None)"
  by (simp add: batadv_hash_add_def Let_def)

lemma iv_orig_get_ok:
  assumes "iv_ok bp"
  shows "iv_ok (snd (batadv_iv_ogm_orig_get k bp a))"
proof (cases "batadv_orig_hash_find k bp a = None \<and> bp_orig_hash bp \<noteq> None \<and> batadv_orig_node_new k a \<noteq> None")
  case True
  then obtain h n where *: "bp_orig_hash bp = Some h" "batadv_orig_node_new k a = Some n" by auto
  obtain r h' where add: "batadv_hash_add (Some h) batadv_compare_orig (batadv_choose_orig (jhash k)) a n = (r, Some h')"
    by (metis hash_add_None not_None_eq surj_pair)
  have "iv_table_ok h'"
    using iv_hash_add_ok [OF add] assms * orig_node_new_ok by (auto simp: iv_ok_def)
  then show ?thesis
    using True assms * add by (auto simp: batadv_iv_ogm_orig_get_def batadv_v_ogm_orig_get_def iv_ok_def)
qed (use assms in \<open>auto simp: batadv_iv_ogm_orig_get_def batadv_v_ogm_orig_get_def batadv_hash_add_def
       split: option.splits\<close>)

lemma iv_orig_get_result:
  "iv_ok bp \<Longrightarrow> batadv_iv_ogm_orig_get k bp a = (Some orig_node, bp') \<Longrightarrow> iv_orig_ok orig_node"
  by (auto simp: batadv_iv_ogm_orig_get_def batadv_v_ogm_orig_get_def dest: orig_node_new_ok iv_find_ok
      split: option.splits prod.splits if_splits)

lemma neigh_get_or_create_ok:
  assumes "batadv_neigh_node_get_or_create k f orig_node hi a = (p, orig_node', hi')"
  shows "iv_orig_ok orig_node \<Longrightarrow> iv_orig_ok orig_node'" "hi_hop_penalty hi' = hi_hop_penalty hi"
  using assms
  by (auto simp: batadv_neigh_node_get_or_create_def batadv_neigh_node_create_def Let_def iv_ok_defs
      batadv_hardif_neigh_get_or_create_def batadv_hardif_neigh_create_def
      split: option.splits prod.splits if_splits)

lemma iv_neigh_new_ok: "iv_ok bp \<Longrightarrow> iv_ok (snd (batadv_iv_ogm_neigh_new k i a orig bp))"
  by (auto simp: batadv_iv_ogm_neigh_new_def neigh_get_or_create_ok(2) intro!: iv_hard_iface_upd_ok iv_orig_upd_ok
      dest: iv_find_ok neigh_get_or_create_ok(1) iv_hard_iface_get_ok split: option.splits prod.splits)

lemma slide_ok: "iv_orig_ifinfo_ok i \<Longrightarrow> iv_orig_ifinfo_ok (slide_own_ifinfo h i)"
  by (simp add: slide_own_ifinfo_def iv_orig_ifinfo_ok_def Let_def)

lemma iv_slide_window_ok: "iv_ok bp \<Longrightarrow> iv_ok (batadv_iv_ogm_slide_own_bcast_window h bp)"
  by (auto simp: batadv_iv_ogm_slide_own_bcast_window_def iv_ok_def iv_table_ok_def list_all_iff
      iv_orig_ok_def slide_ok split: option.splits)

lemma iv_process_reply_ok: "iv_ok bp \<Longrightarrow> iv_ok (batadv_iv_ogm_process_reply k ogm i a n bp)"
  by (auto simp: batadv_iv_ogm_process_reply_def Let_def iv_orig_ifinfo_ok_def
      intro!: iv_orig_upd_ok orig_ifinfo_upd_ok)

lemma neigh_ifinfo_new_keeps:
  "batadv_neigh_ifinfo_new k n i = (r, n') \<Longrightarrow> iv_neigh_ok n \<Longrightarrow> iv_neigh_ok n'"
  using neigh_ifinfo_new_ok [of n k i] by simp

lemma update_seqnos_loop_ok:
  "update_seqnos_loop k a i out lst seqno ns ret up = (ns', ret', up') \<Longrightarrow> list_all iv_neigh_ok ns
    \<Longrightarrow> list_all iv_neigh_ok ns'"
proof (induction k a i out lst seqno ns ret up arbitrary: ns' ret' up' rule: update_seqnos_loop.induct)
  case (2 k h_src i out lst seqno n rest ret up)
  show ?case
  proof (cases "batadv_neigh_ifinfo_new k n out")
    case (Pair r n')
    have n': "iv_neigh_ok n'" using neigh_ifinfo_new_keeps [OF Pair] 2(4) by simp
    show ?thesis
    proof (cases r)
      case None
      then show ?thesis using 2(1) [OF Pair [symmetric] None] 2(3,4) Pair by (auto split: prod.splits)
    next
      case (Some x)
      define w where "w = batadv_bit_get_packet (real_bits (ni_bat_iv x)) (s32 (seqno - lst))
        (batadv_compare_eth (nn_addr n') h_src \<and> nn_if_incoming n' = i)"
      obtain bm mv where bm: "w = (bm, mv)" by (cases w)
      have "iv_neigh_ok (neigh_ifinfo_upd out (\<lambda>i. i\<lparr>ni_bat_iv := (ni_bat_iv i)
           \<lparr>real_bits := bm, real_packet_count := bitmap_weight bm\<rparr>\<rparr>) n')"
        by (intro neigh_ifinfo_upd_ok n') (simp add: iv_neigh_ifinfo_ok_def Let_def)
      then show ?thesis
        using 2(2) [OF Pair [symmetric] Some refl refl refl _ refl] 2(3,4) Pair Some bm
        by (auto simp: w_def Let_def split: prod.splits)
    qed
  qed
qed simp

lemma orig_ifinfo_new_keeps:
  "batadv_orig_ifinfo_new k orig_node i = (r, orig_node') \<Longrightarrow> iv_orig_ok orig_node \<Longrightarrow> iv_orig_ok orig_node'"
  using orig_ifinfo_new_ok [of orig_node k i] by simp

lemma neigh_list_put_ok:
  "iv_orig_ok orig_node \<Longrightarrow> list_all iv_neigh_ok ns \<Longrightarrow> iv_orig_ok (orig_node\<lparr>on_neigh_list := ns\<rparr>)"
  by (simp add: iv_orig_ok_def)

lemma orig_ifinfo_put_ok:
  "iv_orig_ok orig_node \<Longrightarrow> (\<And>x. oi_bat_iv (f x) = oi_bat_iv x) \<Longrightarrow> iv_orig_ok (orig_ifinfo_upd i f orig_node)"
  by (rule orig_ifinfo_upd_ok) (auto simp: iv_orig_ifinfo_ok_def)

lemma iv_update_seqnos_ok:
  assumes u: "iv_update_seqnos k a seqno i out orig_node = (r, orig_node')" and ok: "iv_orig_ok orig_node"
  shows "iv_orig_ok orig_node'"
proof -
  obtain info o1 where new: "batadv_orig_ifinfo_new k orig_node out = (info, o1)" by fastforce
  have o1: "iv_orig_ok o1" by (rule orig_ifinfo_new_keeps [OF new ok])
  show ?thesis
  proof (cases info)
    case None
    then show ?thesis using u new o1 by (simp add: iv_update_seqnos_def)
  next
    case (Some inf)
    obtain p reset x where w: "(if on_neigh_list o1 = [] then (False, oi_batman_seqno_reset inf, False)
        else batadv_window_protected k (s32 (seqno - oi_last_real_seqno inf)) BATADV_TQ_LOCAL_WINDOW_SIZE
               (oi_batman_seqno_reset inf)) = (p, reset, x)"
      by (metis prod_cases3)
    define o2 where "o2 = orig_ifinfo_upd out (\<lambda>i. i\<lparr>oi_batman_seqno_reset := reset\<rparr>) o1"
    have o2: "iv_orig_ok o2" using o1 by (simp add: o2_def orig_ifinfo_put_ok)
    obtain ns st up where l: "update_seqnos_loop k a i out (oi_last_real_seqno inf) seqno (on_neigh_list o2)
        BATADV_NO_DUP False = (ns, st, up)" by (metis prod_cases3)
    have "list_all iv_neigh_ok ns"
      using update_seqnos_loop_ok [OF l] o2 by (simp add: iv_orig_ok_def)
    then have "iv_orig_ok (o2\<lparr>on_neigh_list := ns\<rparr>)" by (rule neigh_list_put_ok [OF o2])
    then show ?thesis
      using u new Some w l o2
      by (auto simp: iv_update_seqnos_def o2_def [symmetric] orig_ifinfo_put_ok Let_def split: if_splits)
  qed
qed

lemma iv_ogm_update_seqnos_ok:
  "iv_ok bp \<Longrightarrow> iv_ok (snd (batadv_iv_ogm_update_seqnos k a ogm i out bp))"
  using iv_orig_get_ok [of bp k "ogm_orig ogm"]
  by (auto simp: batadv_iv_ogm_update_seqnos_def intro!: iv_orig_upd_ok
      dest: iv_update_seqnos_ok iv_orig_get_result split: option.splits prod.splits)

lemma neigh_record_ok: "iv_neigh_ok n \<Longrightarrow> iv_neigh_ok (neigh_ifinfo_upd i (tq_record v) n)"
  by (rule neigh_ifinfo_upd_ok [OF _ tq_record_ok])

lemma decay_loop_ok:
  "decay_loop a i out nd ns found = (ns', found') \<Longrightarrow> list_all iv_neigh_ok ns \<Longrightarrow> list_all iv_neigh_ok ns'"
  by (induction a i out nd ns found arbitrary: ns' found' rule: decay_loop.induct)
    (auto split: if_splits prod.splits intro: neigh_record_ok)

lemma neigh_release_ok: "iv_orig_ok x \<Longrightarrow> iv_orig_ok (batadv_neigh_node_release x)"
  by (auto simp: iv_orig_ok_def batadv_neigh_node_release_def list_all_iff)

lemma iv_release_ok: "iv_ok bp \<Longrightarrow> iv_ok (release_neighs bp)"
  by (auto simp: iv_ok_def release_neighs_def Let_def iv_table_ok_def list_all_iff neigh_release_ok
      batadv_hardif_neigh_release_def split: option.splits)

lemma iv_neigh_of_ok: "iv_ok bp \<Longrightarrow> iv_neigh_of k bp orig p = Some n \<Longrightarrow> iv_neigh_ok n"
  by (auto simp: iv_neigh_of_def dest: iv_find_ok neigh_deref_ok split: option.splits)

lemma iv_neigh_put_ok:
  "iv_ok bp \<Longrightarrow> iv_neigh_ok n \<Longrightarrow> iv_ok (orig_neigh_upd k orig p (\<lambda>_. n) bp)"
  by (simp add: orig_neigh_upd_def iv_orig_upd_ok neigh_upd_ok)

lemma seen_ok: "iv_neigh_ok n \<Longrightarrow> iv_neigh_ok (n\<lparr>nn_last_seen := t\<rparr>)"
  by (simp add: iv_neigh_ok_def)

section \<open>The quality of a path\<close>

lemma iface_hop_penalty_le:
  assumes "iv_ok bp"
  shows "unat (iv_iface_hop_penalty bp i out) \<le> 255"
proof -
  define p where "p = (case hard_iface_get bp i of None \<Rightarrow> 0 | Some hi \<Rightarrow> hi_hop_penalty hi)"
  have "unat p \<le> 255" using iv_hard_iface_get_ok [OF assms] by (auto simp: p_def split: option.splits)
  then have le: "unat (BATADV_TQ_MAX_VALUE - p) \<le> 255"
    by (simp add: unat_sub word_le_nat_alt BATADV_TQ_MAX_VALUE_def)
  moreover have "unat (ucast (x :: u8) :: u32) \<le> 255" for x
    using unat_le_255 [of x] by (simp add: unat_ucast_u8_u32)
  ultimately show ?thesis
    by (simp add: iv_iface_hop_penalty_def p_def [symmetric] Let_def)
qed

lemma calc_tq_ok:
  assumes c: "batadv_iv_ogm_calc_tq k orig orig_neigh tq i out bp = ((b, tq'), bp')" and ok: "iv_ok bp"
  shows "iv_ok bp' \<and> tq' \<le> tq \<and> (b \<longrightarrow> 1 \<le> tq')"
proof -
  define get where "get = (case (case batadv_orig_hash_find k bp orig_neigh of
                    None \<Rightarrow> None
                  | Some orig_neigh_node \<Rightarrow> batadv_neigh_node_get orig_neigh_node i orig_neigh) of
              Some neigh_node \<Rightarrow> (Some (nn_ptr neigh_node), bp)
            | None \<Rightarrow> batadv_iv_ogm_neigh_new k i orig_neigh orig_neigh bp)"
  obtain r b1 where get: "get = (r, b1)" by fastforce
  have b1: "iv_ok b1"
    using get ok iv_neigh_new_ok [OF ok, of k i orig_neigh orig_neigh] by (auto simp: get_def split: option.splits)
  show ?thesis
  proof (cases r)
    case None
    then show ?thesis using c get b1 by (auto simp: batadv_iv_ogm_calc_tq_def get_def [symmetric])
  next
    case (Some p)
    define b2 where "b2 = (if orig = orig_neigh
      then orig_neigh_upd k orig_neigh p (\<lambda>n. n\<lparr>nn_last_seen := jiffies k\<rparr>) b1 else b1)"
    have b2: "iv_ok b2"
      using b1 by (auto simp: b2_def orig_neigh_upd_def intro!: iv_orig_upd_ok neigh_upd_ok seen_ok)
    define b3 where "b3 = orig_upd k orig (\<lambda>orig_node. orig_node\<lparr>on_last_seen := jiffies k\<rparr>) b2"
    have b3: "iv_ok b3" by (unfold b3_def, rule iv_orig_upd_ok [OF b2]) (simp add: iv_orig_ok_def)
    define rq where "rq = (case iv_neigh_of k b3 orig_neigh p of
                   None \<Rightarrow> (0, b3)
                 | Some neigh_node \<Rightarrow>
                     (case batadv_neigh_ifinfo_new k neigh_node out of
                        (None, _) \<Rightarrow> (0, b3)
                      | (Some neigh_ifinfo, neigh_node) \<Rightarrow>
                          (real_packet_count (ni_bat_iv neigh_ifinfo),
                           orig_neigh_upd k orig_neigh p (\<lambda>_. neigh_node) b3)))"
    obtain c4 b4 where rq: "rq = (c4, b4)" by fastforce
    have b4: "iv_ok b4 \<and> unat c4 \<le> 64"
    proof (cases "iv_neigh_of k b3 orig_neigh p")
      case None
      then show ?thesis using rq b3 by (simp add: rq_def)
    next
      case (Some n)
      obtain inf n' where new: "batadv_neigh_ifinfo_new k n out = (inf, n')" by fastforce
      have "iv_neigh_ok n" by (rule iv_neigh_of_ok [OF b3 Some])
      then show ?thesis
        using rq b3 Some new iv_neigh_put_ok [OF b3 neigh_ifinfo_new_keeps [OF new]] neigh_ifinfo_new_result [of k n out _ n']
        by (cases inf) (auto simp: rq_def iv_neigh_ifinfo_ok_def Let_def bitmap_weight_le)
    qed
    define e where "e = (case batadv_orig_hash_find k b3 orig_neigh of
                                 None \<Rightarrow> 0
                               | Some orig_neigh_node \<Rightarrow> batadv_iv_orig_ifinfo_sum orig_neigh_node (Some i))"
    have "tq' = iv_combined_tq tq (iv_tq_own e c4) (iv_asym_penalty c4) (iv_iface_hop_penalty b4 i out)"
      "b = (1 \<le> tq')" "bp' = b4"
      using c Some get rq
      by (auto simp: batadv_iv_ogm_calc_tq_def get_def [symmetric]
          rq_def [symmetric, unfolded b3_def b2_def] e_def [symmetric, unfolded b3_def b2_def] Let_def BATADV_TQ_TOTAL_BIDRECT_LIMIT_def)
    then show ?thesis
      using combined_tq_le asym_penalty_unat(2) iface_hop_penalty_le b4 by blast
  qed
qed

lemma iv_orig_update_ok: "iv_ok bp \<Longrightarrow> iv_ok (batadv_iv_ogm_orig_update k orig a tq ttl i out st bp)"
proof (cases "batadv_orig_hash_find k bp orig")
  case (Some orig_node)
  assume ok: "iv_ok bp"
  have orig_node: "iv_orig_ok orig_node" by (rule iv_find_ok [OF ok Some])
  obtain ns found where d: "decay_loop a i out (st = BATADV_NO_DUP) (on_neigh_list orig_node) None = (ns, found)"
    by fastforce
  have "list_all iv_neigh_ok ns" using decay_loop_ok [OF d] orig_node by (simp add: iv_orig_ok_def)
  then have o1: "iv_orig_ok (orig_node\<lparr>on_neigh_list := ns\<rparr>)" by (rule neigh_list_put_ok [OF orig_node])
  define b1 where "b1 = orig_upd k orig (\<lambda>_. orig_node\<lparr>on_neigh_list := ns\<rparr>) bp"
  have b1: "iv_ok b1" using o1 by (auto simp: b1_def intro!: iv_orig_upd_ok ok)
  define get where "get = (case found of Some p \<Rightarrow> (Some p, b1) | None \<Rightarrow> batadv_iv_ogm_neigh_new k i a orig b1)"
  obtain r b2 where get: "get = (r, b2)" by fastforce
  have b2: "iv_ok b2"
    using get b1 iv_neigh_new_ok [OF b1, of k i a orig] by (auto simp: get_def split: option.splits)
  show ?thesis
  proof (cases "\<exists>p n inf n1. r = Some p \<and> iv_neigh_of k b2 orig p = Some n
      \<and> batadv_neigh_ifinfo_new k n out = (Some inf, n1)")
    case False
    then consider "r = None" | p where "r = Some p" "iv_neigh_of k b2 orig p = None"
      | p n n1 where "r = Some p" "iv_neigh_of k b2 orig p = Some n" "batadv_neigh_ifinfo_new k n out = (None, n1)"
      by (metis not_None_eq surj_pair)
    then show ?thesis
      using b2 by cases (simp_all add: batadv_iv_ogm_orig_update_def Some d get_def [symmetric, unfolded b1_def] get Let_def)
  next
    case True
    then obtain p n inf n1 where p: "r = Some p" "iv_neigh_of k b2 orig p = Some n"
      "batadv_neigh_ifinfo_new k n out = (Some inf, n1)" by blast
    define n2 where "n2 = neigh_ifinfo_upd out (tq_record tq) (n1\<lparr>nn_last_seen := jiffies k\<rparr>)"
    have n2: "iv_neigh_ok n2"
      using neigh_ifinfo_new_keeps [OF p(3) iv_neigh_of_ok [OF b2 p(2)]] by (simp add: n2_def neigh_record_ok seen_ok)
    define n3 where "n3 = (if st = BATADV_NO_DUP then neigh_ifinfo_upd out (\<lambda>i. i\<lparr>ni_last_ttl := ttl\<rparr>) n2 else n2)"
    have n3: "iv_neigh_ok n3"
      using n2 by (auto simp: n3_def iv_neigh_ifinfo_ok_def intro!: neigh_ifinfo_upd_ok)
    define b3 where "b3 = orig_neigh_upd k orig p (\<lambda>_. n3) b2"
    define b4 where "b4 = (if st = BATADV_NO_DUP
      then orig_upd k orig (orig_ifinfo_upd out (\<lambda>i. i\<lparr>oi_last_ttl := ttl\<rparr>)) b3 else b3)"
    have b4: "iv_ok b4"
      using iv_neigh_put_ok [OF b2 n3] by (auto simp: b4_def b3_def intro!: iv_orig_upd_ok orig_ifinfo_put_ok)
    have "batadv_iv_ogm_orig_update k orig a tq ttl i out st bp =
        (case batadv_orig_hash_find k b4 orig of
           None \<Rightarrow> b4
         | Some orig_node \<Rightarrow>
             if iv_better_route k b4 orig_node out p
             then release_neighs (orig_upd k orig (\<lambda>_. fst (batadv_update_route orig_node out (Some p))) b4)
             else b4)"
      unfolding b4_def b3_def n3_def n2_def
      by (simp add: batadv_iv_ogm_orig_update_def iv_record_and_route_def Some d get_def [symmetric, unfolded b1_def] get p Let_def)
    then show ?thesis
      using b4 by (auto intro!: iv_release_ok iv_orig_upd_ok update_route_ok dest: iv_find_ok split: option.splits)
  qed
qed (simp add: batadv_iv_ogm_orig_update_def)

end
