(* ===== verification/Iv_Receive.thy ===== *)
theory Iv_Receive
  imports Iv_Metric Forw_Queue
begin

text \<open>
  The processing of a received OGM as a whole: the counters of \<open>Iv_Metric\<close> survive it whatever
  the packet holds, and what is queued for the other nodes is never better than what arrived.
\<close>

section \<open>The queue\<close>

lemma priv_of_emit [simp]: "nd_priv (nd_emit e nd) = nd_priv nd"
  by (simp add: nd_emit_def)

lemma priv_of_upd [simp]: "nd_priv (nd_priv_upd f nd) = f (nd_priv nd)"
  by (simp add: nd_priv_upd_def nd_mesh_upd_def)

lemma queue_of_upd [simp]: "nd_forw_bat_list (nd_priv_upd f nd) = nd_forw_bat_list nd"
  by (simp add: nd_priv_upd_def nd_mesh_upd_def)

lemma forw_alloc_frame:
  "batadv_forw_packet_alloc k i out q skb nd = (r, nd') \<Longrightarrow>
     nd_priv nd' = nd_priv nd \<and> nd_forw_bat_list nd' = nd_forw_bat_list nd"
  by (auto simp: batadv_forw_packet_alloc_def batadv_atomic_dec_not_zero_def queue_left_add_def
      split: option.splits prod.splits if_splits forw_queue.splits)

lemma ogmv1_queue_frame:
  "nd_priv (batadv_forw_packet_ogmv1_queue k f t nd) = nd_priv nd"
  "set (nd_forw_bat_list (batadv_forw_packet_ogmv1_queue k f t nd)) \<subseteq> insert f (set (nd_forw_bat_list nd))"
  using set_hlist_del_first [of "\<lambda>g. fw_ptr g = fw_ptr f" "nd_forw_bat_list nd"]
  by (auto simp: batadv_forw_packet_ogmv1_queue_def batadv_forw_packet_queue_def Let_def forw_list_put_def forw_list_def
      nd_emit_def split: forw_queue.splits)

text \<open>Every packet of the queue was there, is new, or grew by the OGM.\<close>

definition iv_queued :: "bytes \<Rightarrow> node \<Rightarrow> node \<Rightarrow> bool" where
  "iv_queued b nd nd' =
     (nd_priv nd' = nd_priv nd
      \<and> (\<forall>f \<in> set (nd_forw_bat_list nd'). f \<in> set (nd_forw_bat_list nd) \<or> skb_data (fw_skb f) = b
           \<or> (\<exists>g \<in> set (nd_forw_bat_list nd). skb_data (fw_skb f) = skb_data (fw_skb g) @ b)))"

lemma aggregate_new_queued: "iv_queued b nd (batadv_iv_ogm_aggregate_new k b t d i out own nd)"
proof (cases "nk_skb_ok k (nd_pos nd)")
  case True
  define skb where "skb = \<lparr>h_dest = Mac 0 0 0 0 0 0, h_source = Mac 0 0 0 0 0 0, skb_data = [], skb_priority = 0\<rparr>"
  obtain r nd1 where a: "batadv_forw_packet_alloc (node_kenv.truncate k) (Some i) (Some out)
      (if own then None else Some Batman_queue) skb nd = (r, nd1)" by fastforce
  show ?thesis
  proof (cases r)
    case None
    then show ?thesis
      using True a forw_alloc_frame [OF a]
      by (simp add: batadv_iv_ogm_aggregate_new_def skb_def [symmetric] iv_queued_def nd_emit_def)
  next
    case (Some f)
    define f' where "f' = f\<lparr>fw_skb := skb\<lparr>skb_priority := TC_PRIO_CONTROL, skb_data := b\<rparr>,
                  fw_packet_len := of_nat (length b), fw_own := own,
                  fw_direct_link_flags := (if d then set_bit 0 0 else 0), fw_send_time := t\<rparr>"
    have "batadv_iv_ogm_aggregate_new k b t d i out own nd = batadv_forw_packet_ogmv1_queue (node_kenv.truncate k) f' t nd1"
      using True a Some by (simp add: batadv_iv_ogm_aggregate_new_def skb_def [symmetric] f'_def)
    moreover have "skb_data (fw_skb f') = b" by (simp add: f'_def)
    ultimately show ?thesis
      using forw_alloc_frame [OF a] ogmv1_queue_frame [of "node_kenv.truncate k" f' t nd1]
      by (auto simp: iv_queued_def)
  qed
qed (simp add: batadv_iv_ogm_aggregate_new_def iv_queued_def)

lemma queue_add_queued: "iv_queued b nd (batadv_iv_ogm_queue_add k b i out own t nd)"
proof -
  have "iv_queued b nd (nd\<lparr>nd_forw_bat_list := hlist_upd_first (\<lambda>f. fw_ptr f = fw_ptr g)
               (batadv_iv_ogm_aggregate b d) (nd_forw_bat_list nd)\<rparr>)" for g d
    by (auto simp: iv_queued_def batadv_iv_ogm_aggregate_def dest!: set_hlist_upd_first)
  then show ?thesis
    using aggregate_new_queued by (auto simp: batadv_iv_ogm_queue_add_def Let_def split: option.split)
qed

section \<open>One OGM\<close>

text \<open>An OGM that a node passes on: one hop shorter, never of better quality, otherwise the same.\<close>

definition iv_passed_on :: "mac \<Rightarrow> batadv_ogm_packet \<Rightarrow> batadv_ogm_packet \<Rightarrow> bool" where
  "iv_passed_on h_src ogm ogm' =
     (ogm_tq ogm' \<le> ogm_tq ogm \<and> 1 < ogm_ttl ogm \<and> ogm_ttl ogm' = ogm_ttl ogm - 1
      \<and> ogm_orig ogm' = ogm_orig ogm \<and> ogm_pkt_seqno ogm' = ogm_pkt_seqno ogm
      \<and> ogm_prev_sender ogm' = h_src \<and> ogm_tvlv_len ogm' = ogm_tvlv_len ogm)"

definition iv_outcome :: "mac \<Rightarrow> batadv_ogm_packet \<Rightarrow> bytes \<Rightarrow> node \<Rightarrow> node \<Rightarrow> bool" where
  "iv_outcome h_src ogm tvlv nd nd' =
     (iv_ok (nd_priv nd')
      \<and> (nd_forw_bat_list nd' = nd_forw_bat_list nd
         \<or> (\<exists>ogm' nd1. iv_passed_on h_src ogm ogm' \<and> nd_forw_bat_list nd1 = nd_forw_bat_list nd
              \<and> iv_queued (ogm_packet_bytes ogm' @ take (unat (ogm_tvlv_len ogm)) tvlv) nd1 nd')))"

lemma forward_outcome:
  assumes "iv_ok (nd_priv nd1)" "nd_forw_bat_list nd1 = nd_forw_bat_list nd" "tq \<le> ogm_tq ogm"
  shows "iv_outcome h_src ogm tvlv nd
           (batadv_iv_ogm_forward k h_src (ogm\<lparr>ogm_tq := tq\<rparr>) tvlv single best i out nd1)"
proof (cases "ogm_ttl ogm \<le> 1 \<or> \<not> best \<and> \<not> single")
  case True
  then show ?thesis using assms by (auto simp: batadv_iv_ogm_forward_def iv_outcome_def)
next
  case False
  define fl where "fl = (let flags = (if best then ogm_flags ogm else set_bit BATADV_NOT_BEST_NEXT_HOP (ogm_flags ogm))
    in if single then set_bit BATADV_DIRECTLINK flags else unset_bit BATADV_DIRECTLINK flags)"
  define ogm' where "ogm' = ogm\<lparr>ogm_flags := fl, ogm_ttl := ogm_ttl ogm - 1, ogm_prev_sender := h_src,
                      ogm_tq := batadv_hop_penalty tq (bp_hop_penalty (nd_priv nd1))\<rparr>"
  define b where "b = ogm_packet_bytes ogm' @ take (unat (ogm_tvlv_len ogm)) tvlv"
  have "unat (bp_hop_penalty (nd_priv nd1)) \<le> 255" using assms(1) by (simp add: iv_ok_def)
  then have "iv_passed_on h_src ogm ogm'"
    using False assms(3) hop_penalty_le [of "bp_hop_penalty (nd_priv nd1)" tq]
    by (auto simp: iv_passed_on_def ogm'_def)
  moreover have "batadv_iv_ogm_forward k h_src (ogm\<lparr>ogm_tq := tq\<rparr>) tvlv single best i out nd1 =
      batadv_iv_ogm_queue_add k b i out False (batadv_iv_ogm_fwd_send_time k nd1) nd1"
    using False by (auto simp: batadv_iv_ogm_forward_def b_def ogm'_def fl_def Let_def)
  moreover have q: "iv_queued b nd1 (batadv_iv_ogm_queue_add k b i out False (batadv_iv_ogm_fwd_send_time k nd1) nd1)"
    by (rule queue_add_queued)
  moreover have "iv_ok (nd_priv (batadv_iv_ogm_queue_add k b i out False (batadv_iv_ogm_fwd_send_time k nd1) nd1))"
    using q assms(1) by (simp add: iv_queued_def)
  ultimately show ?thesis
    using assms(2) unfolding iv_outcome_def b_def by auto
qed

lemma nd_prv_frame:
  "nd_prv f nd = (r, nd') \<Longrightarrow> nd_priv nd' = snd (f (nd_priv nd)) \<and> r = fst (f (nd_priv nd))
     \<and> nd_forw_bat_list nd' = nd_forw_bat_list nd"
  by (auto simp: nd_prv_def split: prod.splits)

lemma ifinfo_of_ok:
  assumes "iv_orig_ifinfo_of k orig out nd = (info, nd')" "iv_ok (nd_priv nd)"
  shows "iv_ok (nd_priv nd')" "nd_forw_bat_list nd' = nd_forw_bat_list nd"
  using assms by (auto simp: iv_orig_ifinfo_of_def intro!: iv_orig_upd_ok
      dest: iv_find_ok orig_ifinfo_new_keeps split: option.splits prod.splits)

lemma update_and_forward_outcome:
  assumes ok: "iv_ok (nd_priv nd1)" "nd_forw_bat_list nd1 = nd_forw_bat_list nd" and tq: "tq \<le> ogm_tq ogm"
  shows "iv_outcome h_src ogm tvlv nd
           (iv_update_and_forward k h_src (ogm\<lparr>ogm_tq := tq\<rparr>) tvlv dup single best b i out nd1)"
proof -
  obtain info nd2 where inf: "iv_orig_ifinfo_of k (ogm_orig ogm) out nd1 = (info, nd2)" by fastforce
  have nd2: "iv_ok (nd_priv nd2)" "nd_forw_bat_list nd2 = nd_forw_bat_list nd"
    using ifinfo_of_ok [OF inf] ok by simp_all
  show ?thesis
  proof (cases info)
    case None
    then show ?thesis using nd2 inf by (simp add: iv_update_and_forward_def iv_outcome_def)
  next
    case (Some oi)
    define nd3 where "nd3 = (if b \<and> (dup = BATADV_NO_DUP \<or> oi_last_real_seqno oi = ogm_pkt_seqno ogm
              \<and> int (unat (oi_last_ttl oi)) - 3 \<le> int (unat (ogm_ttl ogm)))
        then nd_priv_upd (batadv_iv_ogm_orig_update k (ogm_orig ogm) h_src tq (ogm_ttl ogm) i out dup) nd2 else nd2)"
    have nd3: "iv_ok (nd_priv nd3)" "nd_forw_bat_list nd3 = nd_forw_bat_list nd"
      using nd2 by (auto simp: nd3_def iv_orig_update_ok)
    have "iv_update_and_forward k h_src (ogm\<lparr>ogm_tq := tq\<rparr>) tvlv dup single best b i out nd1 =
       (case out of
          None \<Rightarrow> nd3
        | Some oif \<Rightarrow>
            if single then
              if ogm_ttl ogm \<le> 2 \<and> i \<noteq> oif then nd3
              else batadv_iv_ogm_forward k h_src (ogm\<lparr>ogm_tq := tq\<rparr>) tvlv True best i oif nd3
            else if \<not> b then nd3
            else if dup = BATADV_NEIGH_DUP then nd3
            else batadv_iv_ogm_forward k h_src (ogm\<lparr>ogm_tq := tq\<rparr>) tvlv False best i oif nd3)"
      unfolding nd3_def using inf Some by (cases out) (auto simp: iv_update_and_forward_def Let_def)
    then show ?thesis
      using nd3 forward_outcome [OF nd3 tq] by (simp add: iv_outcome_def split: option.split)
  qed
qed

lemma rank_and_forward_outcome:
  assumes ok: "iv_ok (nd_priv nd)"
  shows "iv_outcome h_src ogm tvlv nd (iv_rank_and_forward k h_src ogm tvlv dup best i out nd)"
proof -
  define single where "single = batadv_compare_eth h_src (ogm_orig ogm)"
  obtain r nd1 where g: "(if single then (batadv_orig_hash_find k (nd_priv nd) (ogm_orig ogm), nd)
            else nd_prv (\<lambda>bp. batadv_iv_ogm_orig_get k bp h_src) nd) = (r, nd1)" by fastforce
  have nd1: "iv_ok (nd_priv nd1)" "nd_forw_bat_list nd1 = nd_forw_bat_list nd"
    using g ok by (auto simp: iv_orig_get_ok dest: nd_prv_frame split: if_splits)
  have form: "iv_rank_and_forward k h_src ogm tvlv dup best i out nd =
      (case r of None \<Rightarrow> nd1
       | Some o1 \<Rightarrow>
           if \<not> single \<and> batadv_orig_router_get o1 out = None then nd1
           else (case nd_prv (batadv_iv_ogm_calc_tq k (ogm_orig ogm) h_src (ogm_tq ogm) i out) nd1 of
               ((b, tq), nd) \<Rightarrow> iv_update_and_forward k h_src (ogm\<lparr>ogm_tq := tq\<rparr>) tvlv dup single best b i out nd))"
    using g unfolding iv_rank_and_forward_def Let_def single_def [symmetric] by simp
  obtain b tq nd2 where c: "nd_prv (batadv_iv_ogm_calc_tq k (ogm_orig ogm) h_src (ogm_tq ogm) i out) nd1 = ((b, tq), nd2)"
    by (metis prod.exhaust)
  have "iv_ok (nd_priv nd2)" "nd_forw_bat_list nd2 = nd_forw_bat_list nd" and tq: "tq \<le> ogm_tq ogm"
    using nd_prv_frame [OF c] nd1 calc_tq_ok [of k "ogm_orig ogm" h_src "ogm_tq ogm" i out "nd_priv nd1" b tq]
    by (metis prod.collapse)+
  then show ?thesis
    unfolding form using nd1 c update_and_forward_outcome [of nd2 nd tq ogm]
    by (simp add: iv_outcome_def split: option.split)
qed

section \<open>A packet of OGMs\<close>

text \<open>The handlers of the containers in an OGM are registered by other components.\<close>

definition iv_handlers_keep :: "node_handlers \<Rightarrow> bool" where
  "iv_handlers_keep hs =
     (\<forall>h \<in> set hs. \<forall>f. ogm_handler h = Some f \<longrightarrow>
        (\<forall>o1 fl v nd nd'. iv_ok (nd_priv nd) \<longrightarrow> f o1 fl v (Kret nd) = Kret nd' \<longrightarrow> iv_ok (nd_priv nd'))
        \<and> (\<forall>o1 fl v. f o1 fl v Kernel_bug = Kernel_bug))"

definition kpriv_ok :: "node kresult \<Rightarrow> bool" where
  "kpriv_ok st = (case st of Kernel_bug \<Rightarrow> True | Kret nd \<Rightarrow> iv_ok (nd_priv nd))"

lemma handler_keeps:
  assumes "iv_handlers_keep hs" "h \<in> set hs" "ogm_handler h = Some f" "kpriv_ok st"
  shows "kpriv_ok (f o1 fl v st)"
  using assms by (fastforce simp: iv_handlers_keep_def kpriv_ok_def split: kresult.splits)

lemma mark_called_keeps: "iv_handlers_keep hs \<Longrightarrow> iv_handlers_keep (tvlv_mark_called h hs)"
  by (auto simp: iv_handlers_keep_def tvlv_mark_called_def dest!: set_hlist_upd_first)

lemma call_handler_keeps:
  assumes "batadv_tvlv_call_handler (batadv_tvlv_handler_get hs t v) BATADV_IV_OGM o1 skb off val hs st = (r, hs', st')"
    and "iv_handlers_keep hs" "kpriv_ok st"
  shows "iv_handlers_keep hs' \<and> kpriv_ok st'"
  using assms handler_keeps [OF assms(2) _ _ assms(3)] mark_called_keeps [OF assms(2)]
  by (auto simp: batadv_tvlv_call_handler_def batadv_tvlv_handler_get_def dest!: find_key_SomeD
      split: option.splits if_splits)

lemma process_loop_keeps:
  "tvlv_process_loop pt o1 skb off buf len ret hs st = (r, hs', st') \<Longrightarrow> pt = BATADV_IV_OGM
    \<Longrightarrow> iv_handlers_keep hs \<Longrightarrow> kpriv_ok st \<Longrightarrow> iv_handlers_keep hs' \<and> kpriv_ok st'"
proof (induction pt o1 skb off buf len ret hs st arbitrary: r hs' st' rule: tvlv_process_loop.induct)
  case (1 pt o1 skb off buf len ret hs st)
  show ?case
  proof (cases "4 \<le> unat len \<and> \<not> len - 4 < tvlv_len (get_tvlv_hdr buf)")
    case True
    obtain r1 hs1 st1 where c: "batadv_tvlv_call_handler
                (batadv_tvlv_handler_get hs (tvlv_type (get_tvlv_hdr buf)) (tvlv_version (get_tvlv_hdr buf)))
                pt o1 skb (off + 4) (take (unat (tvlv_len (get_tvlv_hdr buf))) (drop 4 buf)) hs st = (r1, hs1, st1)"
      by (metis prod_cases3)
    show ?thesis
      using "1.IH" [OF conjunct1 [OF True] refl refl refl refl conjunct2 [OF True] c [symmetric] refl] "1.prems" True c
        call_handler_keeps [OF c [unfolded "1.prems"(2)]]
      by (subst (asm) (1) tvlv_process_loop.simps) (simp add: Let_def)
  next
    case False
    then show ?thesis using "1.prems" by (subst (asm) tvlv_process_loop.simps) (auto simp: Let_def split: if_splits)
  qed
qed

lemma notfound_loop_keeps:
  "tvlv_notfound_loop o1 hs st = (hs', st') \<Longrightarrow> iv_handlers_keep hs \<Longrightarrow> kpriv_ok st
    \<Longrightarrow> iv_handlers_keep hs' \<and> kpriv_ok st'"
proof (induction o1 hs st arbitrary: hs' st' rule: tvlv_notfound_loop.induct)
  case (2 o1 h hs st)
  define hd' where "hd' = (case ogm_handler h of
           None \<Rightarrow> (h, st)
         | Some ogm_h \<Rightarrow>
             (h\<lparr>th_flags := th_flags h AND NOT BATADV_TVLV_HANDLER_OGM_CALLED\<rparr>,
              if th_flags h AND BATADV_TVLV_HANDLER_OGM_CIFNOTFND \<noteq> 0
                \<and> th_flags h AND BATADV_TVLV_HANDLER_OGM_CALLED = 0
              then ogm_h o1 BATADV_TVLV_HANDLER_OGM_CIFNOTFND [] st else st))"
  obtain h1 st1 where h: "hd' = (h1, st1)" by fastforce
  obtain hs2 st2 where t: "tvlv_notfound_loop o1 hs st1 = (hs2, st2)" by fastforce
  have "iv_handlers_keep hs" using "2.prems" by (simp add: iv_handlers_keep_def)
  moreover have "kpriv_ok st1"
    using h "2.prems" handler_keeps [of "h # hs" h] by (auto simp: hd'_def split: option.splits if_splits)
  ultimately have "iv_handlers_keep hs2 \<and> kpriv_ok st2"
    using "2.IH" [OF h [symmetric, unfolded hd'_def] refl t] by simp
  moreover have "ogm_handler h1 = ogm_handler h" using h by (auto simp: hd'_def split: option.splits)
  moreover have "hs' = h1 # hs2" "st' = st2" using "2.prems"(1) h t by (simp_all add: hd'_def [symmetric])
  ultimately show ?case using "2.prems" by (auto simp: iv_handlers_keep_def)
qed simp

lemma tvlv_receive_keeps:
  assumes "batadv_tvlv_ogm_receive p o1 hs st = (hs', st')" "iv_handlers_keep hs" "kpriv_ok st"
  shows "iv_handlers_keep hs' \<and> kpriv_ok st'"
proof (cases p)
  case None
  then show ?thesis using assms by (simp add: batadv_tvlv_ogm_receive_def)
next
  case (Some q)
  obtain len buf where q: "q = (len, buf)" by fastforce
  obtain r1 hs1 st1 where l: "tvlv_process_loop BATADV_IV_OGM o1 None 0 buf len NET_RX_SUCCESS hs st = (r1, hs1, st1)"
    by (metis prod_cases3)
  have k1: "iv_handlers_keep hs1 \<and> kpriv_ok st1" by (rule process_loop_keeps [OF l refl assms(2,3)])
  obtain hs2 st2 where n: "tvlv_notfound_loop o1 hs1 st1 = (hs2, st2)" by fastforce
  show ?thesis
    using assms Some q l n notfound_loop_keeps [OF n] k1
    by (auto simp: batadv_tvlv_ogm_receive_def batadv_tvlv_containers_process_def split: if_splits)
qed

lemma seen_iface_ok: "iv_ok bp \<Longrightarrow> iv_ok (hard_iface_upd i (hardif_neigh_seen t a) bp)"
  by (rule iv_hard_iface_upd_ok) (simp_all add: hardif_neigh_seen_def)

lemma precheck_ok:
  assumes p: "iv_precheck k h_src ogm i out nd = (r, nd')" and ok: "iv_ok (nd_priv nd)"
  shows "iv_ok (nd_priv nd')"
proof -
  obtain st nd1 where u: "nd_prv (batadv_iv_ogm_update_seqnos k h_src ogm i out) nd = (st, nd1)" by fastforce
  have "iv_ok (nd_priv nd1)" using nd_prv_frame [OF u] iv_ogm_update_seqnos_ok [OF ok] by simp
  then show ?thesis
    using p u seen_iface_ok by (auto simp: iv_precheck_def Let_def split: if_splits)
qed

lemma per_outif_keeps:
  assumes p: "batadv_iv_ogm_process_per_outif k h_src data i out (hs, nd) = Kret (hs', nd')"
    and keep: "iv_handlers_keep hs" and ok: "iv_ok (nd_priv nd)"
  shows "iv_handlers_keep hs' \<and> iv_ok (nd_priv nd')"
proof (cases "ik_copy_ok k out")
  case True
  obtain r nd1 where pc: "iv_precheck k h_src (get_ogm_packet data) i out nd = (r, nd1)" by fastforce
  have nd1: "iv_ok (nd_priv nd1)" by (rule precheck_ok [OF pc ok])
  show ?thesis
  proof (cases r)
    case None
    then show ?thesis using p True pc keep nd1 by (simp add: batadv_iv_ogm_process_per_outif_def Let_def)
  next
    case (Some x)
    obtain dup best where x: "x = (dup, best)" by fastforce
    obtain hs1 st1 where t: "(if out = BATADV_IF_DEFAULT
        then batadv_tvlv_ogm_receive (Some (ogm_tvlv_len (get_ogm_packet data), drop BATADV_OGM_HLEN data))
               (Some (ogm_orig (get_ogm_packet data))) hs (Kret nd1)
        else (hs, Kret nd1)) = (hs1, st1)" by fastforce
    have k1: "iv_handlers_keep hs1 \<and> kpriv_ok st1"
      using t tvlv_receive_keeps [of _ _ hs "Kret nd1" hs1 st1] keep nd1 by (auto simp: kpriv_ok_def split: if_splits)
    show ?thesis
    proof (cases st1)
      case (Kret nd2)
      then show ?thesis
        using p True pc Some x t k1 rank_and_forward_outcome [of nd2 h_src "get_ogm_packet data"]
        by (simp add: batadv_iv_ogm_process_per_outif_def Let_def kpriv_ok_def iv_outcome_def) blast
    qed (use p True pc Some x t in \<open>simp add: batadv_iv_ogm_process_per_outif_def Let_def\<close>)
  qed
qed (use assms in \<open>simp add: batadv_iv_ogm_process_per_outif_def\<close>)

lemma kbind_Kret_iff: "kbind m f = Kret r \<longleftrightarrow> (\<exists>x. m = Kret x \<and> f x = Kret r)"
  by (cases m) auto

lemma outifs_loop_keeps:
  "iv_outifs_loop k h_src data i is (hs, nd) = Kret (hs', nd') \<Longrightarrow> iv_handlers_keep hs \<Longrightarrow> iv_ok (nd_priv nd)
    \<Longrightarrow> iv_handlers_keep hs' \<and> iv_ok (nd_priv nd')"
proof (induction "is" arbitrary: hs nd)
  case (Cons j js)
  show ?case
    using Cons.prems Cons.IH
    by (auto simp: kbind_Kret_iff split: option.splits if_splits) (blast dest: per_outif_keeps)+
qed simp

lemma ogm_process_keeps:
  assumes p: "batadv_iv_ogm_process k q h_src data i (hs, nd) = Kret (hs', nd')"
    and keep: "iv_handlers_keep hs" and ok: "iv_ok (nd_priv nd)"
  shows "iv_handlers_keep hs' \<and> iv_ok (nd_priv nd')"
proof -
  have get: "iv_ok (nd_priv nd1)" if "nd_prv (\<lambda>bp. batadv_iv_ogm_orig_get k bp a) nd = (r, nd1)" for a r nd1
    using nd_prv_frame [OF that] iv_orig_get_ok [OF ok] by simp
  show ?thesis
    using p keep ok
    by (auto simp: batadv_iv_ogm_process_def Let_def kbind_Kret_iff iv_process_reply_ok split: if_splits prod.splits option.splits
        dest!: get) (blast dest: per_outif_keeps outifs_loop_keeps)+
qed

lemma recv_loop_keeps:
  "iv_recv_loop env q h_src data i off (hs, nd) = Kret (hs', nd') \<Longrightarrow> iv_handlers_keep hs \<Longrightarrow> iv_ok (nd_priv nd)
    \<Longrightarrow> iv_handlers_keep hs' \<and> iv_ok (nd_priv nd')"
proof (induction env q h_src data i off "(hs, nd)" arbitrary: hs nd rule: iv_recv_loop.induct)
  case (1 env q h_src data i off hs nd)
  show ?case
  proof (cases "batadv_iv_ogm_aggr_packet off (length data) (drop off data)")
    case True
    then obtain hs1 nd1 where p: "batadv_iv_ogm_process (env off) q h_src (drop off data) i (hs, nd) = Kret (hs1, nd1)"
      using "1.prems"(1) by (subst (asm) iv_recv_loop.simps) (auto split: kresult.splits)
    show ?thesis
      using "1.hyps" [OF True p] "1.prems" True p ogm_process_keeps [OF p "1.prems"(2,3)]
      by (simp add: iv_recv_loop.simps [of env q h_src data i off])
  next
    case False
    then show ?thesis using "1.prems" by (subst (asm) iv_recv_loop.simps) simp
  qed
qed

section \<open>The own OGMs\<close>

lemma queue_add_priv [simp]: "nd_priv (batadv_iv_ogm_queue_add k b i out own t nd) = nd_priv nd"
  using queue_add_queued [of b nd k i out own t] by (simp add: iv_queued_def)

lemma fold_queue_add_priv [simp]:
  "nd_priv (foldl (\<lambda>nd out. batadv_iv_ogm_queue_add k b i out own t nd) nd outs) = nd_priv nd"
  by (induction outs arbitrary: nd) simp_all

section \<open>Properties\<close>

text \<open>
  C12: An OGM that a node queues for its neighbours while it ranks and forwards a received one
  (\<open>iv_rank_and_forward\<close>: link metric, route choice, forwarding), in a packet of its own or
  behind others, is never better than the OGM it received: one hop shorter, only if more than one
  hop was left, of a quality at most that of the received one, and otherwise the same OGM with the
  neighbour it came from.
\<close>

theorem iv_forwarded_no_better:
  assumes "iv_ok (nd_priv nd)"
    and "f \<in> set (nd_forw_bat_list (iv_rank_and_forward k h_src ogm tvlv dup best i out nd))"
    and "f \<notin> set (nd_forw_bat_list nd)"
  shows "\<exists>ogm' b. b = ogm_packet_bytes ogm' @ take (unat (ogm_tvlv_len ogm)) tvlv
     \<and> (skb_data (fw_skb f) = b \<or> (\<exists>g. g \<in> set (nd_forw_bat_list nd) \<and> skb_data (fw_skb f) = skb_data (fw_skb g) @ b))
     \<and> ogm_tq ogm' \<le> ogm_tq ogm \<and> 1 < ogm_ttl ogm \<and> ogm_ttl ogm' = ogm_ttl ogm - 1
     \<and> ogm_orig ogm' = ogm_orig ogm \<and> ogm_pkt_seqno ogm' = ogm_pkt_seqno ogm
     \<and> ogm_prev_sender ogm' = h_src \<and> ogm_tvlv_len ogm' = ogm_tvlv_len ogm"
proof -
  obtain ogm' nd1 where o1: "iv_passed_on h_src ogm ogm'" "nd_forw_bat_list nd1 = nd_forw_bat_list nd"
    and q: "iv_queued (ogm_packet_bytes ogm' @ take (unat (ogm_tvlv_len ogm)) tvlv) nd1
              (iv_rank_and_forward k h_src ogm tvlv dup best i out nd)"
    using rank_and_forward_outcome [OF assms(1), of h_src ogm tvlv k dup best i out] assms(2,3)
    unfolding iv_outcome_def by auto
  show ?thesis
    using o1(1) q assms(2,3) unfolding iv_queued_def o1(2)
    by (intro exI [of _ ogm'] exI [of _ "ogm_packet_bytes ogm' @ take (unat (ogm_tvlv_len ogm)) tvlv"])
      (auto simp: iv_passed_on_def)
qed

text \<open>
  C33: Receiving a packet of originator messages keeps the counters of all originators consistent,
  whatever its bytes are: the number of messages received through a neighbour is the number of
  ones in its 64 bit window, the number of own messages echoed is that of the echo window, the
  average quality is the average of the last five values, and the ring index stays in the buffer.
  The handlers of the containers are only supposed not to break this.
\<close>

theorem iv_counters_consistent:
  assumes "iv_ok (nd_priv (iv_node s))" and "iv_handlers_keep hs"
    and "batadv_iv_ogm_receive env e skb i (hs, s) = Kret (ret, hs', s')"
  shows "iv_ok (nd_priv (iv_node s'))"
proof -
  have c: "iv_ok (nd_priv (node_counter x n nd))" if "iv_ok (nd_priv nd)" for x n nd
    using that by (simp add: node_counter_def iv_ok_def batadv_add_counter_def)
  show ?thesis
    using assms recv_loop_keeps [OF _ assms(2)] c
    by (auto simp: batadv_iv_ogm_receive_def Let_def kbind_Kret_iff split: if_splits)
qed

section \<open>An example\<close>

definition ex_iv_kenv :: iv_kenv where
  "ex_iv_kenv = node_kenv.extend ex_node_kenv
     (iv_kenv.fields (\<lambda>n m. 0) (\<lambda>i. True) (\<lambda>skb. 512 - length (skb_data skb)) (\<lambda>n. Some (replicate n 0)))"

definition ex_iv_iface :: batadv_hard_iface where
  "ex_iv_iface = ex_tt_iface\<lparr>hi_hop_penalty := 15\<rparr>"

definition ex_iv_priv :: batadv_priv where
  "ex_iv_priv = ex_priv\<lparr>bp_algo_name := ''BATMAN_IV'', bp_hard_ifaces := [ex_iv_iface], bp_primary_if := Some 1,
     bp_orig_hash := Some \<lparr>table = [[ex_tt_orig]], hash_size = 1, generation = 0\<rparr>\<rparr>"

definition ex_iv_node :: node where
  "ex_iv_node = nd_priv_upd (\<lambda>bp. ex_iv_priv) ex_node"

definition ex_iv_ogm :: batadv_ogm_packet where
  "ex_iv_ogm = \<lparr>ogm_packet_type = BATADV_IV_OGM, ogm_version = BATADV_COMPAT_VERSION, ogm_ttl = 50, ogm_flags = 0,
     ogm_pkt_seqno = 7, ogm_orig = Mac 2 0 0 0 0 5, ogm_prev_sender = Mac 2 0 0 0 0 5, ogm_reserved = 0,
     ogm_tq = 255, ogm_tvlv_len = 0\<rparr>"

lemma ex_tt_orig_ok: "iv_orig_ok ex_tt_orig"
  using orig_node_new_ok [of ex_kenv "Mac 2 0 0 0 0 5"] ex_orig_node_new by (auto simp: ex_tt_orig_def)

lemma ex_iv_priv_ok: "iv_ok ex_iv_priv"
  by (simp add: iv_ok_def iv_table_ok_def ex_iv_priv_def ex_priv_def ex_tt_orig_ok ex_iv_iface_def ex_tt_iface_def)

lemma ex_iv_kenv_simps [simp]:
  "jiffies ex_iv_kenv = 1000" "jhash ex_iv_kenv = (\<lambda>bs iv. 0)" "kalloc_ok ex_iv_kenv = (\<lambda>s. True)"
  "new_neigh_ptr ex_iv_kenv = Some 1" "nk_skb_ok ex_iv_kenv = (\<lambda>n. True)" "nk_forw_ptr ex_iv_kenv = Some"
  "nk_forw_ptr (node_kenv.truncate ex_iv_kenv) = Some" "ik_random_below ex_iv_kenv = (\<lambda>n m. 0)"
  by (simp_all add: ex_iv_kenv_def iv_kenv.defs node_kenv.defs ex_node_kenv_def bla_kenv.defs ex_bla_kenv_def
      tt_kenv.defs ex_tt_kenv_def)

definition ex_iv_orig :: batadv_orig_node where
  "ex_iv_orig = ex_tt_orig\<lparr>on_last_seen := 1000, on_neigh_list :=
     [\<lparr>nn_ptr = 1, nn_orig_node = Mac 2 0 0 0 0 5, nn_addr = Mac 2 0 0 0 0 5, nn_ifinfo_list = [neigh_ifinfo_zero (Some 1)],
       nn_if_incoming = 1, nn_last_seen = 1000\<rparr>]\<rparr>"

lemma ex_tt_orig_simps [simp]: "on_orig ex_tt_orig = Mac 2 0 0 0 0 5" "on_neigh_list ex_tt_orig = []"
  "on_neigh_unlinked ex_tt_orig = []" "on_ifinfo_list ex_tt_orig = []"
  by (simp_all add: ex_tt_orig_def batadv_orig_node_new_def ex_kenv_def batadv_orig_node_vlan_new_def
      batadv_orig_node_vlan_get_def batadv_vlan_id_valid_def Let_def)

definition ex_iv_hi :: batadv_hard_iface where
  "ex_iv_hi = snd (batadv_hardif_neigh_create ex_iv_kenv None ex_iv_iface (Mac 2 0 0 0 0 5) (Mac 2 0 0 0 0 5))"

definition ex_iv_priv2 :: batadv_priv where
  "ex_iv_priv2 = ex_iv_priv\<lparr>bp_hard_ifaces := [ex_iv_hi],
     bp_orig_hash := Some \<lparr>table = [[ex_iv_orig]], hash_size = 1, generation = 0\<rparr>\<rparr>"

lemma ex_iv_hi_simps [simp]: "hi_ifindex ex_iv_hi = 1" "hi_if_status ex_iv_hi = BATADV_IF_ACTIVE" "hi_mtu ex_iv_hi = 1500"
  by (simp_all add: ex_iv_hi_def batadv_hardif_neigh_create_def batadv_hardif_neigh_get_def ex_iv_iface_def
      ex_tt_iface_def Let_def)

lemma ex_iv_calc:
  "batadv_iv_ogm_calc_tq ex_iv_kenv (Mac 2 0 0 0 0 5) (Mac 2 0 0 0 0 5) 255 1 (Some 1) ex_iv_priv =
     ((False, 0), ex_iv_priv2)"
  by (simp add: batadv_iv_ogm_calc_tq_def batadv_orig_hash_find_def ex_iv_priv_def hash_bucket_def batadv_choose_orig_def
    Let_def batadv_neigh_node_get_def batadv_iv_ogm_neigh_new_def hard_iface_get_def ex_iv_iface_def ex_tt_iface_def
    batadv_neigh_node_get_or_create_def batadv_neigh_node_create_def batadv_hardif_neigh_get_or_create_def
    batadv_hardif_neigh_get_def batadv_hardif_neigh_create_def hard_iface_upd_def orig_upd_def set_hash_bucket_def
    orig_neigh_upd_def neigh_upd_def iv_neigh_of_def neigh_deref_def batadv_neigh_ifinfo_new_def batadv_neigh_ifinfo_get_def
    batadv_iv_orig_ifinfo_sum_def batadv_orig_ifinfo_get_def iv_tq_own_def neigh_ifinfo_zero_def iv_combined_tq_def
    BATADV_TQ_LOCAL_BIDRECT_SEND_MINIMUM_def BATADV_TQ_TOTAL_BIDRECT_LIMIT_def ex_iv_orig_def ex_iv_priv2_def ex_iv_hi_def)

definition ex_iv_forwarded :: batadv_ogm_packet where
  "ex_iv_forwarded = ex_iv_ogm\<lparr>ogm_flags := 4, ogm_ttl := 49, ogm_prev_sender := Mac 2 0 0 0 0 5, ogm_tq := 0\<rparr>"

lemma ex_iv_ogm_simps [simp]:
  "ogm_orig ex_iv_ogm = Mac 2 0 0 0 0 5" "ogm_tq ex_iv_ogm = 255" "ogm_ttl ex_iv_ogm = 50" "ogm_flags ex_iv_ogm = 0"
  "ogm_tvlv_len ex_iv_ogm = 0" "ogm_pkt_seqno ex_iv_ogm = 7"
  by (simp_all add: ex_iv_ogm_def)

lemma ex_iv_find:
  "batadv_orig_hash_find ex_iv_kenv ex_iv_priv (Mac 2 0 0 0 0 5) = Some ex_tt_orig"
  "batadv_orig_hash_find ex_iv_kenv ex_iv_priv2 (Mac 2 0 0 0 0 5) = Some ex_iv_orig"
  by (simp_all add: batadv_orig_hash_find_def ex_iv_priv_def ex_iv_priv2_def ex_iv_orig_def hash_bucket_def
      batadv_choose_orig_def)

lemma priv_of_ex [simp]: "nd_priv ex_iv_node = ex_iv_priv"
  by (simp add: ex_iv_node_def)

definition ex_iv_node2 :: node where
  "ex_iv_node2 = nd_priv_upd (orig_upd ex_iv_kenv (Mac 2 0 0 0 0 5)
      (\<lambda>_. snd (batadv_orig_ifinfo_new ex_iv_kenv ex_iv_orig (Some 1)))) (nd_priv_upd (\<lambda>_. ex_iv_priv2) ex_iv_node)"

lemma ex_iv_node2_simps [simp]: "nd_forw_bat_list ex_iv_node2 = []" "nd_batman_queue_left ex_iv_node2 = 256"
  "nd_forw_stolen ex_iv_node2 = []" "bp_hop_penalty (nd_priv ex_iv_node2) = 30"
  "bp_aggregated_ogms (nd_priv ex_iv_node2) = 1"
  by (simp_all add: ex_iv_node2_def ex_iv_node_def nd_priv_upd_def nd_mesh_upd_def ex_node_def ex_iv_priv2_def ex_iv_priv_def
      ex_priv_def orig_upd_def Let_def)

lemma ex_iv_rank:
  "iv_rank_and_forward ex_iv_kenv (Mac 2 0 0 0 0 5) ex_iv_ogm [] BATADV_NO_DUP True 1 (Some 1) ex_iv_node =
     batadv_iv_ogm_forward ex_iv_kenv (Mac 2 0 0 0 0 5) (ex_iv_ogm\<lparr>ogm_tq := 0\<rparr>) [] True True 1 1 ex_iv_node2"
proof -
  obtain oi o1 where "batadv_orig_ifinfo_new ex_iv_kenv ex_iv_orig (Some 1) = (Some oi, o1)"
    by (simp add: batadv_orig_ifinfo_new_def batadv_orig_ifinfo_get_def ex_iv_orig_def Let_def)
  then have "iv_orig_ifinfo_of ex_iv_kenv (Mac 2 0 0 0 0 5) (Some 1) (nd_priv_upd (\<lambda>_. ex_iv_priv2) ex_iv_node) =
      (Some oi, ex_iv_node2)"
    by (simp add: iv_orig_ifinfo_of_def ex_iv_find ex_iv_node2_def)
  moreover have "nd_prv (batadv_iv_ogm_calc_tq ex_iv_kenv (Mac 2 0 0 0 0 5) (Mac 2 0 0 0 0 5) 255 1 (Some 1)) ex_iv_node =
      ((False, 0), nd_priv_upd (\<lambda>_. ex_iv_priv2) ex_iv_node)"
    using ex_iv_calc by (simp add: nd_prv_def)
  ultimately show ?thesis
    by (simp add: iv_rank_and_forward_def ex_iv_find iv_update_and_forward_def)
qed

lemma ex_iv_forward:
  "\<exists>f. nd_forw_bat_list (iv_rank_and_forward ex_iv_kenv (Mac 2 0 0 0 0 5) ex_iv_ogm [] BATADV_NO_DUP True 1 (Some 1) ex_iv_node) = [f]
     \<and> skb_data (fw_skb f) = ogm_packet_bytes ex_iv_forwarded"
  unfolding ex_iv_rank
  by (simp add: batadv_iv_ogm_forward_def BATADV_DIRECTLINK_def BATADV_NOT_BEST_NEXT_HOP_def batadv_iv_ogm_queue_add_def
      batadv_hop_penalty_def ex_iv_forwarded_def batadv_iv_ogm_aggregate_new_def batadv_forw_packet_alloc_def
      batadv_atomic_dec_not_zero_def queue_left_def queue_left_add_def batadv_forw_packet_ogmv1_queue_def
      word_le_nat_alt batadv_forw_packet_queue_def batadv_forw_packet_was_stolen_def forw_list_def forw_list_put_def nd_emit_def Let_def)

theorem iv_forwarded_no_better_witness:
  "\<exists>f ogm'. nd_forw_bat_list (iv_rank_and_forward ex_iv_kenv (Mac 2 0 0 0 0 5) ex_iv_ogm [] BATADV_NO_DUP True 1 (Some 1)
        ex_iv_node) = [f]
     \<and> skb_data (fw_skb f) = ogm_packet_bytes ogm' \<and> ogm_ttl ogm' = 49 \<and> ogm_tq ogm' \<le> 255"
proof -
  have e: "nd_forw_bat_list ex_iv_node = []" by (simp add: ex_iv_node_def ex_node_def nd_priv_upd_def nd_mesh_upd_def)
  obtain f where f: "nd_forw_bat_list (iv_rank_and_forward ex_iv_kenv (Mac 2 0 0 0 0 5) ex_iv_ogm [] BATADV_NO_DUP True 1
      (Some 1) ex_iv_node) = [f]" using ex_iv_forward by blast
  show ?thesis
    using iv_forwarded_no_better [of ex_iv_node f ex_iv_kenv "Mac 2 0 0 0 0 5" ex_iv_ogm "[]" BATADV_NO_DUP True 1 "Some 1"]
      f e ex_iv_priv_ok by auto
qed

lemma ogm_process_total:
  assumes "ogm_tvlv_len (get_ogm_packet data) = 0"
  shows "\<exists>nd'. batadv_iv_ogm_process k q h_src data i (hs, nd) = Kret (hs, nd')"
proof -
  have one: "\<exists>nd'. batadv_iv_ogm_process_per_outif k h_src data i out (hs, nd) = Kret (hs, nd')" for out nd
    using assms by (auto simp: batadv_iv_ogm_process_per_outif_def batadv_tvlv_ogm_receive_def Let_def split: prod.split option.split)
  have all: "\<exists>nd'. iv_outifs_loop k h_src data i js (hs, nd) = Kret (hs, nd')" for js nd
  proof (induction js arbitrary: nd)
    case (Cons j js)
    obtain nd1 where "batadv_iv_ogm_process_per_outif k h_src data i (Some j) (hs, nd) = Kret (hs, nd1)" using one by blast
    then show ?case using Cons by (auto split: option.split)
  qed simp
  have "\<exists>nd'. kbind (batadv_iv_ogm_process_per_outif k h_src data i BATADV_IF_DEFAULT (hs, nd))
                 (\<lambda>st. iv_outifs_loop k h_src data i (map hi_ifindex (bp_hard_ifaces (nd_priv (snd st)))) st) = Kret (hs, nd')" for nd
    using one [of BATADV_IF_DEFAULT nd] all by fastforce
  then show ?thesis
    by (auto simp: batadv_iv_ogm_process_def Let_def split: prod.split option.split)
qed

text \<open>The handler of \<open>Dat\<close>, for states in which nothing failed yet.\<close>

definition ex_iv_handlers :: node_handlers where
  "ex_iv_handlers = [\<lparr>
     ogm_handler = Some (\<lambda>orig flags v st. case st of Kernel_bug \<Rightarrow> Kernel_bug | Kret nd \<Rightarrow> Kret (case orig of None \<Rightarrow> nd
        | Some o1 \<Rightarrow> nd_priv_upd (orig_upd ex_iv_kenv o1 (batadv_dat_tvlv_ogm_handler_v1 flags)) nd)),
     unicast_handler = None, mcast_handler = None,
     th_type = BATADV_TVLV_DAT, th_version = 1, th_flags = BATADV_TVLV_HANDLER_OGM_CIFNOTFND\<rparr>]"

lemma ex_iv_handlers_keep: "iv_handlers_keep ex_iv_handlers"
  by (auto simp: iv_handlers_keep_def ex_iv_handlers_def batadv_dat_tvlv_ogm_handler_v1_def iv_orig_ok_def
      intro!: iv_orig_upd_ok split: option.splits)

definition ex_iv_state :: iv_state where
  "ex_iv_state = \<lparr>iv_node = ex_iv_node, iv_if = (\<lambda>i. \<lparr>iv_ogm_buff = None, iv_ogm_buff_len = 0, iv_ogm_seqno = 9\<rparr>)\<rparr>"

definition ex_iv_skb :: sk_buff where
  "ex_iv_skb = \<lparr>h_dest = broadcast_addr, h_source = Mac 2 0 0 0 0 5, skb_data = ogm_packet_bytes ex_iv_ogm, skb_priority = 0\<rparr>"

theorem iv_counters_consistent_witness:
  "\<exists>hs' s'. batadv_iv_ogm_receive (\<lambda>off. ex_iv_kenv) \<lparr>pull_ok = True, cow_ok = True, linearize_ok = True\<rparr> ex_iv_skb 1
       (ex_iv_handlers, ex_iv_state) = Kret (NET_RX_SUCCESS, hs', s') \<and> iv_ok (nd_priv (iv_node s'))"
proof -
  have d: "length (skb_data ex_iv_skb) = 24" "get_ogm_packet (skb_data ex_iv_skb) = ex_iv_ogm"
    using ogm_layout(2) [of ex_iv_ogm "[]"] by (simp_all add: ex_iv_skb_def ogm_layout)
  have l: "\<exists>nd'. iv_recv_loop (\<lambda>off. ex_iv_kenv) q h_src (skb_data ex_iv_skb) 1 0 (ex_iv_handlers, nd) = Kret (ex_iv_handlers, nd')" for q h_src nd
    using ogm_process_total [of "skb_data ex_iv_skb" ex_iv_kenv q h_src 1 ex_iv_handlers nd] d
    by (auto simp: iv_recv_loop.simps [of _ _ _ _ _ 0] iv_recv_loop.simps [of _ _ _ _ _ 24] batadv_iv_ogm_aggr_packet_def
        BATADV_OGM_HLEN_def)
  have c: "batadv_check_management_packet \<lparr>pull_ok = True, cow_ok = True, linearize_ok = True\<rparr> ex_iv_skb BATADV_OGM_HLEN"
    by (simp add: batadv_check_management_packet_def pskb_may_pull_def ex_iv_skb_def ogm_layout BATADV_OGM_HLEN_def
        is_valid_ether_addr_def is_zero_ether_addr_def is_broadcast_ether_addr_def broadcast_addr_def)
  define nd1 where "nd1 = node_counter BATADV_CNT_MGMT_RX_BYTES (ucast (skb_len ex_iv_skb) + of_nat ETH_HLEN)
                     (node_counter BATADV_CNT_MGMT_RX 1 ex_iv_node)"
  obtain nd2 where l2: "iv_recv_loop (\<lambda>off. ex_iv_kenv) (iv_ogm_seqno (iv_if ex_iv_state 1)) (h_source ex_iv_skb) (skb_data ex_iv_skb)
      1 0 (ex_iv_handlers, nd1) = Kret (ex_iv_handlers, nd2)" using l by blast
  have n: "iv_node ex_iv_state = ex_iv_node" "bp_algo_name (nd_priv ex_iv_node) = ''BATMAN_IV''"
    by (simp_all add: ex_iv_state_def ex_iv_priv_def)
  obtain s' where r: "batadv_iv_ogm_receive (\<lambda>off. ex_iv_kenv) \<lparr>pull_ok = True, cow_ok = True, linearize_ok = True\<rparr> ex_iv_skb 1
       (ex_iv_handlers, ex_iv_state) = Kret (NET_RX_SUCCESS, ex_iv_handlers, s')"
    using l2 c n unfolding nd1_def by (simp add: batadv_iv_ogm_receive_def Let_def)
  then show ?thesis
    using iv_counters_consistent [OF _ ex_iv_handlers_keep r] ex_iv_priv_ok by (auto simp: ex_iv_state_def)
qed

end
