(* ===== verification/Iv_Echo.thy ===== *)
theory Iv_Echo
  imports Iv_Receive
begin

text \<open>
  The window of own OGMs that came back through a neighbour, which gives the quality of the link
  towards it: what it is to the two operations that change it, the periodic OGM and the echo.
\<close>

section \<open>The window as a set\<close>

lemma window_set_alt: "window_set w l = (\<lambda>j. l - of_nat j) ` {j. j < 64 \<and> bit w j}"
proof -
  have "s \<in> window_set w l \<longleftrightarrow> (\<exists>j. j < 64 \<and> bit w j \<and> s = l - of_nat j)" for s
  proof
    assume s: "s \<in> window_set w l"
    then have r: "0 \<le> s32 (l - s)" "s32 (l - s) < 64" and b: "bit w (nat (s32 (l - s)))"
      using test_bit_range [of w l s] test_bit_in_range [of l s w] by (simp_all add: window_set_def)
    have "of_nat (nat (s32 (l - s))) = l - s"
      using r(1) by (simp add: of_nat_nat)
    then have "s = l - of_nat (nat (s32 (l - s)))" by simp
    then show "\<exists>j. j < 64 \<and> bit w j \<and> s = l - of_nat j" using r b by (intro exI [of _ "nat (s32 (l - s))"]) auto
  next
    assume "\<exists>j. j < 64 \<and> bit w j \<and> s = l - of_nat j"
    then obtain j where j: "j < 64" "bit w j" "s = l - of_nat j" by blast
    have "uint (of_nat j :: u32) = int j" using j(1) by (simp add: unsigned_of_nat take_bit_nat_eq_self)
    then have "s32 (l - s) = int j"
      using j(1) by (simp add: j(3) sint_uint signed_take_bit_int_eq_self)
    then show "s \<in> window_set w l" using j test_bit_in_range [of l s w] by (simp add: window_set_def)
  qed
  then show ?thesis by blast
qed

lemma card_window_set: "of_nat (card (window_set w l)) = bitmap_weight w"
proof -
  have "inj_on (\<lambda>j. l - of_nat j :: u32) {j. j < 64 \<and> bit w j}"
    by (auto simp: inj_on_def of_nat_inverse dest!: arg_cong [of _ _ unat] simp: unat_of_nat)
  then have "card (window_set w l) = card {j. j < 64 \<and> bit w j}"
    by (simp add: window_set_alt card_image)
  also have "\<dots> = card (set (filter (bit w) [0..<64]))"
    by (intro arg_cong [of _ _ card]) auto
  also have "\<dots> = length (filter (bit w) [0..<64])"
    by (rule distinct_card) simp
  finally show ?thesis by (simp add: bitmap_weight_def)
qed

lemma window_slide:
  "window_set (fst (batadv_bit_get_packet w 1 False)) (q + 1 - 2) = {s \<in> window_set w (q - 2). s32 (q + 1 - 2 - s) < 64}"
proof -
  have one: "s32 ((q + 1 - 2) - (q - 2)) = 1" by simp
  have "batadv_bit_get_packet w 1 False = (batadv_bitmap_shift_left w 1, True)"
    by (simp add: batadv_bit_get_packet_def BATADV_TQ_LOCAL_WINDOW_SIZE_def)
  then show ?thesis
    using test_bit_shift [of "q + 1 - 2" "q - 2" w] one by (simp add: window_set_def)
qed

lemma window_echo:
  "window_set (batadv_set_bit w (s32 (l - s))) l =
     (if 0 \<le> s32 (l - s) \<and> s32 (l - s) < 64 then insert s (window_set w l) else window_set w l)"
proof (cases "0 \<le> s32 (l - s) \<and> s32 (l - s) < 64")
  case True
  have "s32 (l - t) = s32 (l - s) \<longleftrightarrow> t = s" for t
    using signed_word_eqI [of "l - t" "l - s"] by auto
  then show ?thesis using True by (auto simp: window_set_def test_bit_set_bit)
next
  case False
  then show ?thesis by (auto simp: batadv_set_bit_def BATADV_TQ_LOCAL_WINDOW_SIZE_def)
qed

section \<open>The two operations\<close>

datatype echo_event = Own_ogm | Heard batadv_ogm_packet

text \<open>
  On interface \<open>i\<close> and for the neighbour \<open>a\<close>: \<open>q\<close> is the sequence number of the next OGM. The
  abstract state is the set of own OGMs known to have come back.
\<close>

definition echo_step :: "'k kenv_scheme \<Rightarrow> ifindex \<Rightarrow> mac \<Rightarrow> echo_event \<Rightarrow> u32 \<times> batadv_priv \<Rightarrow> u32 \<times> batadv_priv" where
  "echo_step k i a ev st =
     (case st of (q, bp) \<Rightarrow>
        (case ev of
           Own_ogm \<Rightarrow> (q + 1, batadv_iv_ogm_slide_own_bcast_window i bp)
         | Heard ogm \<Rightarrow> (q, batadv_iv_ogm_process_reply k ogm i a q bp)))"

definition echo_spec :: "mac \<Rightarrow> echo_event \<Rightarrow> u32 \<times> u32 set \<Rightarrow> u32 \<times> u32 set" where
  "echo_spec dev ev st =
     (case st of (q, E) \<Rightarrow>
        (case ev of
           Own_ogm \<Rightarrow> (q + 1, {s \<in> E. s32 (q - 1 - s) < 64})
         | Heard ogm \<Rightarrow>
             let s = ogm_pkt_seqno ogm in
             (q, if bit (ogm_flags ogm) BATADV_DIRECTLINK \<and> ogm_orig ogm = dev
                    \<and> 0 \<le> s32 (q - 2 - s) \<and> s32 (q - 2 - s) < 64
                 then insert s E else E)))"

definition echo_rel :: "'k kenv_scheme \<Rightarrow> ifindex \<Rightarrow> mac \<Rightarrow> mac \<Rightarrow> u32 \<times> batadv_priv \<Rightarrow> u32 \<times> u32 set \<Rightarrow> bool" where
  "echo_rel k i a dev st spec =
     (case (st, spec) of ((q, bp), (q', E)) \<Rightarrow>
        q' = q \<and> iv_ok bp \<and> map_option hi_dev_addr (hard_iface_get bp i) = Some dev
        \<and> (case batadv_orig_hash_find k bp a of
             None \<Rightarrow> False
           | Some orig_node \<Rightarrow>
               (case batadv_orig_ifinfo_get orig_node (Some i) of
                  None \<Rightarrow> False | Some x \<Rightarrow> window_set (bcast_own (oi_bat_iv x)) (q - 2) = E)))"

lemma slide_find:
  assumes "iv_ok bp"
  shows "batadv_orig_hash_find k (batadv_iv_ogm_slide_own_bcast_window i bp) a =
    map_option (\<lambda>orig_node. orig_node\<lparr>on_ifinfo_list := map (slide_own_ifinfo i) (on_ifinfo_list orig_node)\<rparr>)
      (batadv_orig_hash_find k bp a)"
proof (cases "bp_orig_hash bp")
  case None
  then show ?thesis by (simp add: batadv_orig_hash_find_def batadv_iv_ogm_slide_own_bcast_window_def)
next
  case (Some h)
  have "unat (batadv_choose_orig (jhash k) a (hash_size h)) < length (table h)"
    using assms Some choose_orig_less by (simp add: iv_ok_def iv_table_ok_def)
  then show ?thesis
    using Some find_map_key [of on_orig "\<lambda>orig_node. orig_node\<lparr>on_ifinfo_list := map (slide_own_ifinfo i) (on_ifinfo_list orig_node)\<rparr>" a]
    by (simp add: batadv_orig_hash_find_def batadv_iv_ogm_slide_own_bcast_window_def hash_bucket_def Let_def)
qed

lemma upd_find_self:
  assumes "iv_ok bp" "batadv_orig_hash_find k bp a = Some orig_node" "on_orig (f orig_node) = a"
  shows "batadv_orig_hash_find k (orig_upd k a f bp) a = Some (f orig_node)"
proof -
  obtain h where h: "bp_orig_hash bp = Some h" using assms(2) by (auto simp: batadv_orig_hash_find_def split: option.splits)
  have "unat (batadv_choose_orig (jhash k) a (hash_size h)) < length (table h)"
    using assms(1) h choose_orig_less by (simp add: iv_ok_def iv_table_ok_def)
  moreover have "find (\<lambda>orig_node. on_orig orig_node = a) (hlist_upd_first (\<lambda>orig_node. on_orig orig_node = a) f xs) = Some (f orig_node)"
    if "find (\<lambda>orig_node. on_orig orig_node = a) xs = Some orig_node" for xs
    using that assms(3) by (induction xs) (auto split: if_splits)
  ultimately show ?thesis
    using assms(2) h by (simp add: batadv_orig_hash_find_def orig_upd_def hash_bucket_def Let_def)
qed

lemma echo_rel_step:
  assumes rel: "echo_rel k i a dev st spec"
  shows "echo_rel k i a dev (echo_step k i a ev st) (echo_spec dev ev spec)"
proof -
  obtain q bp E where st: "st = (q, bp)" "spec = (q, E)" and ok: "iv_ok bp"
    using rel by (cases st; cases spec) (auto simp: echo_rel_def)
  obtain h where h: "hard_iface_get bp i = Some h" "hi_dev_addr h = dev" using rel by (auto simp: echo_rel_def st)
  obtain orig_node x where o1: "batadv_orig_hash_find k bp a = Some orig_node"
      "batadv_orig_ifinfo_get orig_node (Some i) = Some x" "window_set (bcast_own (oi_bat_iv x)) (q - 2) = E"
    using rel by (auto simp: echo_rel_def st split: option.splits)
  have oa: "on_orig orig_node = a" by (rule orig_hash_find_SomeD [OF o1(1)])
  have xi: "oi_if_outgoing x = Some i" using o1(2) by (auto simp: batadv_orig_ifinfo_get_def dest: find_key_SomeD)
  show ?thesis
  proof (cases ev)
    case Own_ogm
    have f: "batadv_orig_ifinfo_get (orig_node\<lparr>on_ifinfo_list := map (slide_own_ifinfo i) (on_ifinfo_list orig_node)\<rparr>) (Some i)
        = Some (slide_own_ifinfo i x)"
      using o1(2) find_map_key [of oi_if_outgoing "slide_own_ifinfo i" "Some i" "on_ifinfo_list orig_node"]
      by (simp add: batadv_orig_ifinfo_get_def slide_own_ifinfo_def Let_def)
    have "bcast_own (oi_bat_iv (slide_own_ifinfo i x)) = fst (batadv_bit_get_packet (bcast_own (oi_bat_iv x)) 1 False)"
      by (simp add: slide_own_ifinfo_def xi Let_def)
    moreover have "hard_iface_get (batadv_iv_ogm_slide_own_bcast_window i bp) i = Some h"
      using h(1) by (simp add: batadv_iv_ogm_slide_own_bcast_window_def hard_iface_get_def split: option.split)
    ultimately show ?thesis
      using o1 f h(2) ok iv_slide_window_ok [OF ok] window_slide [of "bcast_own (oi_bat_iv x)" q]
      by (simp add: echo_rel_def st Own_ogm echo_step_def echo_spec_def slide_find)
  next
    case (Heard ogm)
    define s where "s = ogm_pkt_seqno ogm"
    define own where "own = batadv_set_bit (bcast_own (oi_bat_iv x)) (s32 (q - 2 - s))"
    define x' where "x' = x\<lparr>oi_bat_iv := \<lparr>bcast_own = own, bcast_own_sum = bitmap_weight own\<rparr>\<rparr>"
    define g where "g = orig_ifinfo_upd (Some i) (\<lambda>i.
          let own = batadv_set_bit (bcast_own (oi_bat_iv i)) (s32 (q - 2 - s)) in
          i\<lparr>oi_bat_iv := \<lparr>bcast_own = own, bcast_own_sum = bitmap_weight own\<rparr>\<rparr>)"
    have "find (\<lambda>y. oi_if_outgoing y = Some i) (hlist_upd_first (\<lambda>y. oi_if_outgoing y = Some i) f xs) = Some (f x)"
      if "find (\<lambda>y. oi_if_outgoing y = Some i) xs = Some x" "oi_if_outgoing (f x) = Some i" for f xs
      using that by (induction xs) (auto split: if_splits)
    then have gx: "batadv_orig_ifinfo_get (g orig_node) (Some i) = Some x'"
      using o1(2) xi by (simp add: g_def batadv_orig_ifinfo_get_def orig_ifinfo_upd_def x'_def own_def Let_def)
    have "on_orig (g orig_node) = a" by (simp add: g_def orig_ifinfo_upd_def oa)
    then have fg: "batadv_orig_hash_find k (orig_upd k a g bp) a = Some (g orig_node)"
      by (rule upd_find_self [OF ok o1(1)])
    have hg: "hard_iface_get (orig_upd k a g bp) i = Some h"
      using h(1) by (simp add: orig_upd_def hard_iface_get_def Let_def split: option.split)
    have pr: "batadv_iv_ogm_process_reply k ogm i a q bp =
        (if bit (ogm_flags ogm) BATADV_DIRECTLINK \<and> ogm_orig ogm = dev then orig_upd k a g bp else bp)"
      using h by (auto simp: batadv_iv_ogm_process_reply_def g_def s_def Let_def)
    show ?thesis
    proof (cases "bit (ogm_flags ogm) BATADV_DIRECTLINK \<and> ogm_orig ogm = dev")
      case True
      then show ?thesis
        using iv_process_reply_ok [OF ok, of k ogm i a q] fg gx hg h(2) window_echo [of "bcast_own (oi_bat_iv x)" "q - 2" s] o1(3)
        by (auto simp: echo_rel_def st Heard echo_step_def echo_spec_def pr x'_def own_def s_def [symmetric] Let_def)
    next
      case False
      then show ?thesis
        using rel by (auto simp: echo_rel_def st Heard echo_step_def echo_spec_def pr Let_def)
    qed
  qed
qed

text \<open>
  The echo window of a neighbour refines the set of own OGMs that came back from it: after any
  sequence of own OGMs and of heard ones, starting with an empty window, the sum that the link
  quality uses is the number of own OGMs among the last 64 that the neighbour rebroadcast with the
  direct link flag; OGMs heard twice, from elsewhere or too late are not counted.
\<close>

theorem iv_echo_window_refines:
  assumes "iv_ok bp" and "map_option hi_dev_addr (hard_iface_get bp i) = Some dev"
    and "batadv_orig_hash_find k bp a = Some orig_node" and "batadv_orig_ifinfo_get orig_node (Some i) = Some x"
    and "bcast_own (oi_bat_iv x) = 0"
    and "fold (echo_step k i a) evs (q, bp) = (q', bp')" and "fold (echo_spec dev) evs (q, {}) = (q'', E)"
  shows "q'' = q' \<and> (\<exists>orig_node'. batadv_orig_hash_find k bp' a = Some orig_node'
    \<and> batadv_iv_orig_ifinfo_sum orig_node' (Some i) = of_nat (card E) \<and> card E \<le> 64)"
proof -
  have "echo_rel k i a dev (fold (echo_step k i a) evs st) (fold (echo_spec dev) evs spec)"
    if "echo_rel k i a dev st spec" for st spec
    using that
  proof (induction evs arbitrary: st spec)
    case (Cons e es)
    then show ?case using Cons.IH [OF echo_rel_step [OF Cons.prems]] by simp
  qed simp
  moreover have "echo_rel k i a dev (q, bp) (q, {})"
    using assms(1-5) by (simp add: echo_rel_def window_set_def)
  ultimately have r: "echo_rel k i a dev (q', bp') (q'', E)" using assms(6,7) by metis
  then obtain o1 y where o1: "batadv_orig_hash_find k bp' a = Some o1" "batadv_orig_ifinfo_get o1 (Some i) = Some y"
      "window_set (bcast_own (oi_bat_iv y)) (q' - 2) = E" "q'' = q'" "iv_ok bp'"
    by (auto simp: echo_rel_def split: option.splits)
  have "iv_orig_ifinfo_ok y"
    using iv_find_ok [OF o1(5,1)] o1(2)
    by (auto simp: iv_orig_ok_def batadv_orig_ifinfo_get_def list_all_iff dest: find_key_SomeD)
  moreover have "card E \<le> card {j :: nat. j < 64 \<and> bit (bcast_own (oi_bat_iv y)) j}"
    unfolding o1(3) [symmetric] window_set_alt by (rule card_image_le) simp
  moreover have "card {j :: nat. j < 64 \<and> bit (bcast_own (oi_bat_iv y)) j} \<le> card {..<64 :: nat}"
    by (rule card_mono) auto
  ultimately show ?thesis
    using o1 card_window_set [of "bcast_own (oi_bat_iv y)" "q' - 2"]
    by (simp add: batadv_iv_orig_ifinfo_sum_def iv_orig_ifinfo_ok_def)
qed

text \<open>
  In the example the OGMs 5, 6 and 7 were sent; 6 comes back twice, 5 once, 7 from somebody else,
  and 7 before it was due.
\<close>

definition ex_echo :: "u32 \<Rightarrow> mac \<Rightarrow> u8 \<Rightarrow> batadv_ogm_packet" where
  "ex_echo s a fl = ex_iv_ogm\<lparr>ogm_pkt_seqno := s, ogm_orig := a, ogm_flags := fl\<rparr>"

definition ex_echo_orig :: batadv_orig_node where
  "ex_echo_orig = snd (batadv_orig_ifinfo_new ex_iv_kenv ex_tt_orig (Some 1))"

definition ex_echo_priv :: batadv_priv where
  "ex_echo_priv = ex_iv_priv\<lparr>bp_orig_hash := Some \<lparr>table = [[ex_echo_orig]], hash_size = 1, generation = 0\<rparr>\<rparr>"

definition ex_echo_events :: "echo_event list" where
  "ex_echo_events = [Own_ogm, Own_ogm, Heard (ex_echo 5 (Mac 2 0 0 0 0 1) 4), Heard (ex_echo 6 (Mac 2 0 0 0 0 1) 4),
     Own_ogm, Heard (ex_echo 6 (Mac 2 0 0 0 0 1) 4), Heard (ex_echo 6 (Mac 2 0 0 0 0 1) 4),
     Heard (ex_echo 6 (Mac 2 0 0 0 0 9) 4), Heard (ex_echo 4 (Mac 2 0 0 0 0 1) 0), Own_ogm]"

theorem iv_echo_window_refines_witness:
  "\<exists>orig_node'. batadv_orig_hash_find ex_iv_kenv (snd (fold (echo_step ex_iv_kenv 1 (Mac 2 0 0 0 0 5)) ex_echo_events (5, ex_echo_priv)))
       (Mac 2 0 0 0 0 5) = Some orig_node'
     \<and> batadv_iv_orig_ifinfo_sum orig_node' (Some 1) = 2"
proof -
  have ok: "iv_orig_ok ex_echo_orig"
    unfolding ex_echo_orig_def by (rule orig_ifinfo_new_ok) (rule ex_tt_orig_ok)
  then have okp: "iv_ok ex_echo_priv"
    using ex_iv_priv_ok by (simp add: iv_ok_def iv_table_ok_def ex_echo_priv_def ex_iv_priv_def)
  have o1: "batadv_orig_ifinfo_get ex_echo_orig (Some 1) \<noteq> None" "on_orig ex_echo_orig = Mac 2 0 0 0 0 5"
    "bcast_own (oi_bat_iv (the (batadv_orig_ifinfo_get ex_echo_orig (Some 1)))) = 0"
    by (simp_all add: ex_echo_orig_def batadv_orig_ifinfo_new_def batadv_orig_ifinfo_get_def Let_def)
  then obtain x where x: "batadv_orig_ifinfo_get ex_echo_orig (Some 1) = Some x" "bcast_own (oi_bat_iv x) = 0" by auto
  have find: "batadv_orig_hash_find ex_iv_kenv ex_echo_priv (Mac 2 0 0 0 0 5) = Some ex_echo_orig"
    by (simp add: batadv_orig_hash_find_def ex_echo_priv_def hash_bucket_def batadv_choose_orig_def o1)
  have dev: "map_option hi_dev_addr (hard_iface_get ex_echo_priv 1) = Some (Mac 2 0 0 0 0 1)"
    by (simp add: ex_echo_priv_def ex_iv_priv_def hard_iface_get_def ex_iv_iface_def ex_tt_iface_def)
  have spec: "fold (echo_spec (Mac 2 0 0 0 0 1)) ex_echo_events (5, {}) = (9, {5, 6})"
    by (auto simp: ex_echo_events_def echo_spec_def ex_echo_def BATADV_DIRECTLINK_def)
  obtain q' bp' where run: "fold (echo_step ex_iv_kenv 1 (Mac 2 0 0 0 0 5)) ex_echo_events (5, ex_echo_priv) = (q', bp')"
    by fastforce
  show ?thesis
    using iv_echo_window_refines [OF okp dev find x run spec] run by simp
qed

end
