(* ===== verification/Iv_Routes.thy ===== *)
theory Iv_Routes
  imports Iv_Echo
begin

text \<open>
  The choice of a router and of a gateway: neither is ever worse than a candidate that was just
  looked at.
\<close>

section \<open>Routers\<close>

lemma find_put_key:
  "find (\<lambda>x. key x = k') (hlist_upd_first (\<lambda>x. key x = k) (\<lambda>_. n) xs) =
     (if k' = k then (if \<exists>x \<in> set xs. key x = k then Some n else None) else find (\<lambda>x. key x = k') xs)"
  if "key n = k"
  using that by (induction xs) auto

lemma neigh_deref_put:
  assumes "\<exists>x \<in> set (on_neigh_list orig_node). nn_ptr x = p" and "nn_ptr n = p"
  shows "neigh_deref (neigh_upd p (\<lambda>_. n) orig_node) r = (if r = p then Some n else neigh_deref orig_node r)"
proof -
  have a: "find P (xs @ ys) = (case find P xs of None \<Rightarrow> find P ys | Some y \<Rightarrow> Some y)" for P and xs ys :: "batadv_neigh_node list"
    by (induction xs) auto
  show ?thesis
    using assms by (simp add: neigh_deref_def neigh_upd_def a find_put_key [of nn_ptr n p])
qed

lemma iv_release_find:
  assumes "iv_ok bp"
  shows "batadv_orig_hash_find k (release_neighs bp) a = map_option batadv_neigh_node_release (batadv_orig_hash_find k bp a)"
proof (cases "bp_orig_hash bp")
  case None
  then show ?thesis by (simp add: batadv_orig_hash_find_def release_neighs_def)
next
  case (Some h)
  have "unat (batadv_choose_orig (jhash k) a (hash_size h)) < length (table h)"
    using assms Some choose_orig_less by (simp add: iv_ok_def iv_table_ok_def)
  then show ?thesis
    using Some find_map_key [of on_orig batadv_neigh_node_release a]
    by (simp add: batadv_orig_hash_find_def release_neighs_def hash_bucket_def Let_def)
qed

lemma release_deref:
  "\<exists>x \<in> set (on_neigh_list orig_node). nn_ptr x = p
     \<Longrightarrow> neigh_deref (batadv_neigh_node_release orig_node) p = neigh_deref orig_node p"
proof -
  have "find (\<lambda>n. nn_ptr n = p) (xs @ ys) = find (\<lambda>n. nn_ptr n = p) (xs @ zs)"
    if "\<exists>x \<in> set xs. nn_ptr x = p" for xs ys zs :: "batadv_neigh_node list"
    using that by (induction xs) auto
  then show "\<exists>x \<in> set (on_neigh_list orig_node). nn_ptr x = p \<Longrightarrow> ?thesis"
    unfolding neigh_deref_def batadv_neigh_node_release_def by simp
qed

lemma iv_neigh_ifinfo_get_upd:
  assumes "\<And>x. ni_if_outgoing (f x) = ni_if_outgoing x"
  shows "batadv_neigh_ifinfo_get (neigh_ifinfo_upd i f n) i = map_option f (batadv_neigh_ifinfo_get n i)"
proof -
  have "find (\<lambda>x. ni_if_outgoing x = i) (hlist_upd_first (\<lambda>x. ni_if_outgoing x = i) f xs) =
      map_option f (find (\<lambda>x. ni_if_outgoing x = i) xs)" for xs
    using assms by (induction xs) auto
  then show ?thesis by (simp add: batadv_neigh_ifinfo_get_def neigh_ifinfo_upd_def)
qed

lemma tq_record_keeps [simp]:
  "ni_if_outgoing (tq_record v i) = ni_if_outgoing i"
  by (simp add: tq_record_def batadv_ring_buffer_set_def Let_def)

lemma neigh_upd_keeps [simp]:
  "nn_ptr (neigh_ifinfo_upd i f n) = nn_ptr n"
  by (simp add: neigh_ifinfo_upd_def)

text \<open>The qualities of the router and of the neighbour at \<open>p\<close>.\<close>

definition router_at_least :: "batadv_orig_node \<Rightarrow> ifref \<Rightarrow> nat \<Rightarrow> bool" where
  "router_at_least orig_node out p =
     (\<exists>r rn ri pn pi. batadv_orig_router_get orig_node out = Some r
        \<and> neigh_deref orig_node r = Some rn \<and> batadv_neigh_ifinfo_get rn out = Some ri
        \<and> neigh_deref orig_node p = Some pn \<and> batadv_neigh_ifinfo_get pn out = Some pi
        \<and> tq_avg (ni_bat_iv pi) \<le> tq_avg (ni_bat_iv ri))"

lemma better_route_cases:
  assumes n: "neigh_deref o1 p = Some n" "batadv_neigh_ifinfo_get n out = Some ni"
    and r: "\<And>r. batadv_orig_router_get o1 out = Some r \<Longrightarrow>
         \<exists>rn ri. neigh_deref o1 r = Some rn \<and> batadv_neigh_ifinfo_get rn out = Some ri"
    and nb: "\<not> iv_better_route k bp o1 out p"
  shows "router_at_least o1 out p"
proof -
  obtain r where r1: "batadv_orig_router_get o1 out = Some r"
    using nb by (auto simp: iv_better_route_def split: option.splits)
  obtain rn ri where r2: "neigh_deref o1 r = Some rn" "batadv_neigh_ifinfo_get rn out = Some ri"
    using r [OF r1] by blast
  show ?thesis
  proof (cases "r = p")
    case True
    then show ?thesis using r1 n by (auto simp: router_at_least_def)
  next
    case False
    then have "tq_avg (ni_bat_iv ni) \<le> tq_avg (ni_bat_iv ri)"
      using nb r1 r2 n by (auto simp: iv_better_route_def Let_def split: if_splits)
    then show ?thesis using r1 r2 n by (auto simp: router_at_least_def)
  qed
qed

lemma router_get_upd [simp]:
  "(\<And>x. oi_if_outgoing (f x) = oi_if_outgoing x) \<Longrightarrow> (\<And>x. oi_router (f x) = oi_router x)
    \<Longrightarrow> batadv_orig_router_get (orig_ifinfo_upd i f orig_node) j = batadv_orig_router_get orig_node j"
proof -
  assume k: "\<And>x. oi_if_outgoing (f x) = oi_if_outgoing x" "\<And>x. oi_router (f x) = oi_router x"
  have "find (\<lambda>x. oi_if_outgoing x = j) (hlist_upd_first (\<lambda>x. oi_if_outgoing x = i) f xs) =
      (if j = i then map_option f (find (\<lambda>x. oi_if_outgoing x = i) xs) else find (\<lambda>x. oi_if_outgoing x = j) xs)" for xs
    using k(1) by (rule find_key_upd_first)
  then show ?thesis
    by (auto simp: batadv_orig_router_get_def orig_ifinfo_upd_def k(2) split: option.split)
qed

lemma orig_upd_keeps [simp]:
  "on_neigh_list (orig_ifinfo_upd i f orig_node) = on_neigh_list orig_node"
  "on_orig (orig_ifinfo_upd i f orig_node) = on_orig orig_node"
  "neigh_deref (orig_ifinfo_upd i f orig_node) p = neigh_deref orig_node p"
  "on_orig (neigh_upd p g orig_node) = on_orig orig_node"
  "on_ifinfo_list (neigh_upd p g orig_node) = on_ifinfo_list orig_node"
  by (simp_all add: orig_ifinfo_upd_def neigh_upd_def neigh_deref_def)

lemma router_get_list: "on_ifinfo_list x = on_ifinfo_list y \<Longrightarrow> batadv_orig_router_get x i = batadv_orig_router_get y i"
  by (simp add: batadv_orig_router_get_def)

lemma update_route_get:
  assumes "batadv_orig_ifinfo_get o1 out \<noteq> None"
  shows "batadv_orig_router_get (fst (batadv_update_route o1 out (Some p))) out = Some p"
    and "neigh_deref (fst (batadv_update_route o1 out (Some p))) q = neigh_deref o1 q"
    and "on_orig (fst (batadv_update_route o1 out (Some p))) = on_orig o1"
proof -
  show "batadv_orig_router_get (fst (batadv_update_route o1 out (Some p))) out = Some p"
    using assms by (simp add: router_get_update_route)
qed (use assms in \<open>auto simp: batadv_update_route_def set_route_def Let_def split: option.split\<close>)

lemma iv_ifinfo_get_upd:
  assumes "\<And>x. oi_if_outgoing (f x) = oi_if_outgoing x"
  shows "batadv_orig_ifinfo_get (orig_ifinfo_upd i f orig_node) j = None \<longleftrightarrow> batadv_orig_ifinfo_get orig_node j = None"
  using find_key_upd_first [of oi_if_outgoing f j i "on_ifinfo_list orig_node"] assms
  by (simp add: batadv_orig_ifinfo_get_def orig_ifinfo_upd_def)

text \<open>
  After the quality of an OGM was recorded for the neighbour it came through, the router
  towards its originator on that interface exists and has an average quality at least that of the
  neighbour; a neighbour that is strictly better takes over at once.
\<close>

theorem iv_router_at_least:
  assumes "iv_ok bp" and "batadv_orig_hash_find k bp orig = Some o0" and "orig_wf o0"
    and "n0 \<in> set (on_neigh_list o0)" and "batadv_neigh_ifinfo_new k n0 out = (Some info, n)"
    and "batadv_orig_ifinfo_get o0 out \<noteq> None"
    and "\<And>r rn. batadv_orig_router_get o0 out = Some r \<Longrightarrow> neigh_deref o0 r = Some rn \<Longrightarrow> batadv_neigh_ifinfo_get rn out \<noteq> None"
  shows "\<exists>o1. batadv_orig_hash_find k (iv_record_and_route k orig tq ttl out dup (nn_ptr n0) n bp) orig = Some o1
    \<and> router_at_least o1 out (nn_ptr n0)"
proof -
  let ?p = "nn_ptr n0"
  have oa: "on_orig o0 = orig" by (rule orig_hash_find_SomeD [OF assms(2)])
  have np: "nn_ptr n = ?p" and ng: "batadv_neigh_ifinfo_get n out \<noteq> None"
    using assms(5) by (auto simp: batadv_neigh_ifinfo_new_def batadv_neigh_ifinfo_get_def neigh_ifinfo_zero_def Let_def
        split: option.splits if_splits)
  have n0ok: "iv_neigh_ok n0"
    using iv_find_ok [OF assms(1,2)] assms(4) by (simp add: iv_orig_ok_def list_all_iff)
  define n3 where "n3 = (let n2 = neigh_ifinfo_upd out (tq_record tq) (n\<lparr>nn_last_seen := jiffies k\<rparr>) in
      if dup = BATADV_NO_DUP then neigh_ifinfo_upd out (\<lambda>i. i\<lparr>ni_last_ttl := ttl\<rparr>) n2 else n2)"
  have "batadv_neigh_ifinfo_get (n\<lparr>nn_last_seen := jiffies k\<rparr>) out \<noteq> None"
    using ng by (simp add: batadv_neigh_ifinfo_get_def)
  then have "batadv_neigh_ifinfo_get n3 out \<noteq> None" by (simp add: n3_def Let_def iv_neigh_ifinfo_get_upd)
  then obtain ni where n3: "nn_ptr n3 = ?p" "batadv_neigh_ifinfo_get n3 out = Some ni"
    using np by (auto simp: n3_def Let_def)
  have n3ok: "iv_neigh_ok n3"
  proof -
    have "iv_neigh_ok (neigh_ifinfo_upd out (tq_record tq) (n\<lparr>nn_last_seen := jiffies k\<rparr>))"
      by (intro neigh_record_ok seen_ok neigh_ifinfo_new_keeps [OF assms(5) n0ok])
    moreover from this have "iv_neigh_ok (neigh_ifinfo_upd out (\<lambda>i. i\<lparr>ni_last_ttl := ttl\<rparr>)
        (neigh_ifinfo_upd out (tq_record tq) (n\<lparr>nn_last_seen := jiffies k\<rparr>)))"
      by (rule neigh_ifinfo_upd_ok) (simp add: iv_neigh_ifinfo_ok_def)
    ultimately show ?thesis by (simp add: n3_def Let_def)
  qed
  define o1 where "o1 = neigh_upd ?p (\<lambda>_. n3) o0"
  define o2 where "o2 = (if dup = BATADV_NO_DUP then orig_ifinfo_upd out (\<lambda>i. i\<lparr>oi_last_ttl := ttl\<rparr>) o1 else o1)"
  have listed: "\<exists>x \<in> set (on_neigh_list o0). nn_ptr x = ?p" using assms(4) by blast
  have o2: "on_orig o2 = orig" "batadv_orig_ifinfo_get o2 out \<noteq> None"
    "batadv_orig_router_get o2 out = batadv_orig_router_get o0 out"
    "\<And>r. neigh_deref o2 r = (if r = ?p then Some n3 else neigh_deref o0 r)"
  proof -
    have "batadv_orig_ifinfo_get o1 out \<noteq> None" using assms(6) by (simp add: o1_def batadv_orig_ifinfo_get_def)
    moreover have "batadv_orig_router_get o1 out = batadv_orig_router_get o0 out" by (rule router_get_list) (simp add: o1_def)
    ultimately show "on_orig o2 = orig" "batadv_orig_ifinfo_get o2 out \<noteq> None"
      "batadv_orig_router_get o2 out = batadv_orig_router_get o0 out"
      using oa iv_ifinfo_get_upd [of "\<lambda>i. i\<lparr>oi_last_ttl := ttl\<rparr>" out o1 out] by (auto simp: o2_def o1_def)
    show "neigh_deref o2 r = (if r = ?p then Some n3 else neigh_deref o0 r)" for r
      using neigh_deref_put [OF listed n3(1)] by (simp add: o2_def o1_def)
  qed
  have listed2: "\<exists>x \<in> set (on_neigh_list o2). nn_ptr x = ?p"
  proof -
    have "\<exists>x \<in> set (hlist_upd_first (\<lambda>n. nn_ptr n = ?p) (\<lambda>_. n3) xs). nn_ptr x = ?p"
      if "\<exists>x \<in> set xs. nn_ptr x = ?p" for xs using that n3(1) by (induction xs) auto
    then show ?thesis using listed by (simp add: o2_def o1_def neigh_upd_def)
  qed
  define b1 where "b1 = orig_neigh_upd k orig ?p (\<lambda>_. n3) bp"
  define b2 where "b2 = (if dup = BATADV_NO_DUP then orig_upd k orig (orig_ifinfo_upd out (\<lambda>i. i\<lparr>oi_last_ttl := ttl\<rparr>)) b1 else b1)"
  have b1: "iv_ok b1" "batadv_orig_hash_find k b1 orig = Some o1"
    using iv_neigh_put_ok [OF assms(1) n3ok] upd_find_self [OF assms(1,2), of "neigh_upd ?p (\<lambda>_. n3)"] oa
    by (simp_all add: b1_def orig_neigh_upd_def o1_def)
  have b2: "iv_ok b2" "batadv_orig_hash_find k b2 orig = Some o2"
    using b1 upd_find_self [OF b1, of "orig_ifinfo_upd out (\<lambda>i. i\<lparr>oi_last_ttl := ttl\<rparr>)"] oa
    by (auto simp: b2_def o2_def o1_def intro!: iv_orig_upd_ok orig_ifinfo_put_ok)
  have "iv_record_and_route k orig tq ttl out dup ?p n bp =
      (case batadv_orig_hash_find k b2 orig of None \<Rightarrow> b2
       | Some o2 \<Rightarrow>
           if iv_better_route k b2 o2 out ?p
           then release_neighs (orig_upd k orig (\<lambda>_. fst (batadv_update_route o2 out (Some ?p))) b2) else b2)"
    unfolding b2_def b1_def n3_def iv_record_and_route_def Let_def by (rule refl)
  then have form: "iv_record_and_route k orig tq ttl out dup ?p n bp =
      (if iv_better_route k b2 o2 out ?p
       then release_neighs (orig_upd k orig (\<lambda>_. fst (batadv_update_route o2 out (Some ?p))) b2) else b2)"
    using b2(2) by simp
  show ?thesis
  proof (cases "iv_better_route k b2 o2 out ?p")
    case False
    have "router_at_least o2 out ?p"
    proof (rule better_route_cases [OF _ n3(2) _ False])
      fix r assume "batadv_orig_router_get o2 out = Some r"
      then show "\<exists>rn ri. neigh_deref o2 r = Some rn \<and> batadv_neigh_ifinfo_get rn out = Some ri"
        using assms(7) [of r] orig_wf_router_deref [OF assms(3), of out r] n3(2) o2(3,4) by auto
    qed (simp add: o2(4))
    then show ?thesis using form False b2(2) by simp
  next
    case True
    define o3 where "o3 = fst (batadv_update_route o2 out (Some ?p))"
    have b3: "iv_ok (orig_upd k orig (\<lambda>_. o3) b2)" "batadv_orig_hash_find k (orig_upd k orig (\<lambda>_. o3) b2) orig = Some o3"
      using upd_find_self [OF b2, of "\<lambda>_. o3"] update_route_get(3) [OF o2(2)] o2(1) iv_find_ok [OF b2]
      by (auto simp: o3_def intro!: iv_orig_upd_ok b2(1) update_route_ok)
    have "router_at_least (batadv_neigh_node_release o3) out ?p"
      using update_route_get [OF o2(2)] release_deref [of o3 ?p] listed2 n3(2) o2(4)
      by (auto simp: router_at_least_def o3_def router_get_list [of "batadv_neigh_node_release _"])
    moreover have "batadv_orig_hash_find k (iv_record_and_route k orig tq ttl out dup ?p n bp) orig =
        Some (batadv_neigh_node_release o3)"
      using form True b3(2) iv_release_find [OF b3(1), of k orig] by (simp add: o3_def)
    ultimately show ?thesis by blast
  qed
qed

definition ex_route_priv :: batadv_priv where
  "ex_route_priv = ex_iv_priv2\<lparr>bp_orig_hash := Some \<lparr>table =
     [[snd (batadv_orig_ifinfo_new ex_iv_kenv ex_iv_orig (Some 1))]], hash_size = 1, generation = 0\<rparr>\<rparr>"

text \<open>The first neighbour of an originator becomes its router.\<close>

theorem iv_router_at_least_witness:
  "\<exists>o1. batadv_orig_hash_find ex_iv_kenv (iv_record_and_route ex_iv_kenv (Mac 2 0 0 0 0 5) 200 49 (Some 1) BATADV_NO_DUP 1
       (hd (on_neigh_list ex_iv_orig)) ex_route_priv) (Mac 2 0 0 0 0 5) = Some o1 \<and> router_at_least o1 (Some 1) 1"
proof -
  define o0 where "o0 = snd (batadv_orig_ifinfo_new ex_iv_kenv ex_iv_orig (Some 1))"
  let ?n = "hd (on_neigh_list ex_iv_orig)"
  have o0: "on_neigh_list o0 = [?n]" "on_orig o0 = Mac 2 0 0 0 0 5" "batadv_orig_ifinfo_get o0 (Some 1) \<noteq> None"
    "batadv_orig_router_get o0 (Some 1) = None"
    by (simp_all add: o0_def batadv_orig_ifinfo_new_def batadv_orig_ifinfo_get_def batadv_orig_router_get_def ex_iv_orig_def Let_def)
  have n: "nn_ptr ?n = 1" "batadv_neigh_ifinfo_new ex_iv_kenv ?n (Some 1) = (Some (neigh_ifinfo_zero (Some 1)), ?n)"
    by (simp_all add: ex_iv_orig_def batadv_neigh_ifinfo_new_def batadv_neigh_ifinfo_get_def neigh_ifinfo_zero_def)
  have wf0: "orig_wf ex_tt_orig"
    using wf_orig_node_new [of ex_kenv "Mac 2 0 0 0 0 5" ex_tt_orig] ex_orig_node_new by (auto simp: ex_tt_orig_def)
  then have "orig_wf ex_iv_orig" by (simp add: orig_wf_defs ex_iv_orig_def)
  then have wf: "orig_wf o0" unfolding o0_def by (rule wf_orig_ifinfo_new)
  have "iv_orig_ok ex_iv_orig"
    using ex_tt_orig_ok by (simp add: iv_orig_ok_def ex_iv_orig_def iv_neigh_ok_def)
  then have "iv_orig_ok o0" unfolding o0_def by (rule orig_ifinfo_new_ok)
  moreover have "unat (hi_hop_penalty ex_iv_hi) \<le> 255"
    by (simp add: ex_iv_hi_def batadv_hardif_neigh_create_def batadv_hardif_neigh_get_def ex_iv_iface_def ex_tt_iface_def Let_def)
  ultimately have ok: "iv_ok ex_route_priv"
    by (simp add: iv_ok_def iv_table_ok_def ex_route_priv_def o0_def ex_iv_priv2_def ex_iv_priv_def ex_priv_def)
  have find: "batadv_orig_hash_find ex_iv_kenv ex_route_priv (Mac 2 0 0 0 0 5) = Some o0"
    using o0(2) by (simp add: batadv_orig_hash_find_def ex_route_priv_def o0_def hash_bucket_def batadv_choose_orig_def)
  show ?thesis
    using iv_router_at_least [OF ok find wf _ n(2) o0(3), of 200 49 BATADV_NO_DUP] o0(1,4) n(1) by simp
qed

section \<open>Gateways\<close>

text \<open>What gateways are compared by: the download bandwidth weighted by the quality, or the quality.\<close>

definition iv_gw_rank :: "(mac \<Rightarrow> batadv_orig_node) \<Rightarrow> u32 \<Rightarrow> batadv_gw_node \<Rightarrow> u64 option" where
  "iv_gw_rank objs sel_class g =
     map_option (\<lambda>tq. if sel_class = 1
        then drop_bit 18 (ucast tq * ucast tq * ucast (gn_bandwidth_down g) * 10000)
        else ucast tq) (iv_gw_tq objs (gn_orig_node g))"

definition gw_loop_inv ::
    "(mac \<Rightarrow> batadv_orig_node) \<Rightarrow> u32 \<Rightarrow> batadv_gw_node set \<Rightarrow> batadv_gw_node option \<Rightarrow> u64 \<Rightarrow> u8 \<Rightarrow> u64 \<Rightarrow> bool" where
  "gw_loop_inv objs sel seen cur mf mt tmp =
     ((if sel = 1 then tmp \<le> mf else tmp = 0 \<and> mf = 0)
      \<and> (\<forall>g \<in> seen. \<forall>tq. iv_gw_tq objs (gn_orig_node g) = Some tq \<longrightarrow> tq \<le> mt)
      \<and> (\<forall>g \<in> seen. \<forall>r. iv_gw_rank objs sel g = Some r \<longrightarrow> r \<le> (if sel = 1 then mf else ucast mt))
      \<and> (case cur of
           None \<Rightarrow> mt = 0 \<and> mf = 0
         | Some b \<Rightarrow> b \<in> seen \<and> iv_gw_rank objs sel b = Some (if sel = 1 then mf else ucast mt)))"

lemma ucast_u64_le: "(ucast (x :: u8) :: u64) \<le> ucast y \<longleftrightarrow> x \<le> y"
proof -
  have "unat (ucast (z :: u8) :: u64) = unat z" for z
    using unsigned_less [of z, where ?'a = nat] by (simp add: unsigned_ucast_eq take_bit_nat_eq_self)
  then show ?thesis by (simp add: word_le_nat_alt)
qed

lemma gw_loop_result:
  assumes "gw_loop_inv objs sel seen cur mf mt tmp"
  shows "case iv_best_gw_loop objs sel gws cur mf mt tmp of
      None \<Rightarrow> (\<forall>g \<in> seen \<union> set gws. \<forall>tq. iv_gw_tq objs (gn_orig_node g) = Some tq \<longrightarrow> tq = 0)
    | Some b \<Rightarrow> b \<in> seen \<union> set gws \<and> (\<exists>r. iv_gw_rank objs sel b = Some r
        \<and> (\<forall>g \<in> seen \<union> set gws. \<forall>r'. iv_gw_rank objs sel g = Some r' \<longrightarrow> r' \<le> r))"
  using assms
proof (induction gws arbitrary: seen cur mf mt tmp)
  case Nil
  then show ?case by (auto simp: gw_loop_inv_def split: option.splits)
next
  case (Cons g gws)
  have set: "seen \<union> set (g # gws) = insert g seen \<union> set gws" by auto
  show ?case
  proof (cases "iv_gw_tq objs (gn_orig_node g)")
    case None
    then have "gw_loop_inv objs sel (insert g seen) cur mf mt tmp"
      using Cons.prems by (auto simp: gw_loop_inv_def iv_gw_rank_def split: option.splits)
    then show ?thesis using Cons.IH None unfolding set by simp
  next
    case (Some tq)
    define f :: u64 where "f = drop_bit 18 (ucast tq * ucast tq * ucast (gn_bandwidth_down g) * 10000)"
    show ?thesis
    proof (cases "sel = 1")
      case True
      have inv: "gw_loop_inv objs sel (insert g seen) (if f > mf \<or> f = mf \<and> tq > mt then Some g else cur)
          (if f > mf then f else mf) (if tq > mt then tq else mt) f"
        using Cons.prems Some True
        by (auto simp: gw_loop_inv_def iv_gw_rank_def f_def [symmetric] not_less split: option.splits if_splits)
      have eq: "iv_best_gw_loop objs sel (g # gws) cur mf mt tmp = iv_best_gw_loop objs sel gws
          (if f > mf \<or> f = mf \<and> tq > mt then Some g else cur) (if f > mf then f else mf) (if tq > mt then tq else mt) f"
        using Some True by (simp add: f_def Let_def)
      show ?thesis unfolding set eq by (rule Cons.IH [OF inv])
    next
      case False
      have inv: "gw_loop_inv objs sel (insert g seen) (if tq > mt then Some g else cur) mf (if tq > mt then tq else mt) tmp"
        using Cons.prems Some False
        by (auto simp: gw_loop_inv_def iv_gw_rank_def ucast_u64_le not_less split: option.splits if_splits)
      moreover have "\<not> mf < tmp" using Cons.prems False by (simp add: gw_loop_inv_def)
      ultimately have eq: "iv_best_gw_loop objs sel (g # gws) cur mf mt tmp = iv_best_gw_loop objs sel gws
          (if tq > mt then Some g else cur) mf (if tq > mt then tq else mt) tmp"
        using Some False by (simp add: Let_def)
      show ?thesis unfolding set eq by (rule Cons.IH [OF inv])
    qed
  qed
qed

text \<open>
  The gateway a client selects is maximal among all gateways it has a route to, by the
  bandwidth weighted with the quality in the fast connection class and by the quality otherwise;
  none is selected only if all of them have quality 0.
\<close>

theorem iv_best_gateway_maximal:
  "case batadv_iv_gw_get_best_gw_node objs gw of
     None \<Rightarrow> (\<forall>g \<in> set (gw_gateway_list gw). \<forall>tq. iv_gw_tq objs (gn_orig_node g) = Some tq \<longrightarrow> tq = 0)
   | Some b \<Rightarrow> b \<in> set (gw_gateway_list gw) \<and> (\<exists>r. iv_gw_rank objs (gw_sel_class gw) b = Some r
       \<and> (\<forall>g \<in> set (gw_gateway_list gw). \<forall>r'. iv_gw_rank objs (gw_sel_class gw) g = Some r' \<longrightarrow> r' \<le> r))"
proof -
  have "gw_loop_inv objs (gw_sel_class gw) {} None 0 0 0" by (simp add: gw_loop_inv_def)
  from gw_loop_result [OF this, of "gw_gateway_list gw"] show ?thesis
    by (simp only: batadv_iv_gw_get_best_gw_node_def Un_empty_left)
qed

definition ex_gw :: "u8 \<Rightarrow> u32 \<Rightarrow> batadv_gw_node" where
  "ex_gw n bw = \<lparr>gn_ptr = unat n, gn_orig_node = Mac 2 0 0 0 0 n, gn_bandwidth_down = bw, gn_bandwidth_up = 1\<rparr>"

text \<open>Two gateways, the first with the better path and the second with more bandwidth.\<close>

definition ex_gw_objs :: "mac \<Rightarrow> batadv_orig_node" where
  "ex_gw_objs a = ex_tt_orig\<lparr>
     on_ifinfo_list := [\<lparr>oi_if_outgoing = None, oi_router = Some 1, oi_last_real_seqno = 0, oi_last_ttl = 0,
       oi_last_seqno_forwarded = 0, oi_batman_seqno_reset = 0, oi_bat_iv = \<lparr>bcast_own = 0, bcast_own_sum = 0\<rparr>\<rparr>],
     on_neigh_list := [\<lparr>nn_ptr = 1, nn_orig_node = a, nn_addr = a,
       nn_ifinfo_list = [(neigh_ifinfo_zero None)\<lparr>ni_bat_iv := (ni_bat_iv (neigh_ifinfo_zero None))
          \<lparr>tq_avg := if a = Mac 2 0 0 0 0 1 then 200 else 150\<rparr>\<rparr>],
       nn_if_incoming = 1, nn_last_seen = 0\<rparr>]\<rparr>"

definition ex_gws :: "u32 \<Rightarrow> batadv_priv_gw" where
  "ex_gws sel = (bp_gw ex_priv)\<lparr>gw_sel_class := sel, gw_gateway_list := [ex_gw 1 100, ex_gw 2 1000]\<rparr>"

lemma ex_gw_tq: "iv_gw_tq ex_gw_objs a = Some (if a = Mac 2 0 0 0 0 1 then 200 else 150)"
  by (simp add: iv_gw_tq_def ex_gw_objs_def batadv_orig_router_get_def neigh_deref_def batadv_iv_ogm_neigh_get_tq_avg_def
      batadv_neigh_ifinfo_get_def neigh_ifinfo_zero_def)

theorem iv_best_gateway_maximal_witness:
  "batadv_iv_gw_get_best_gw_node ex_gw_objs (ex_gws 1) = Some (ex_gw 2 1000)
   \<and> batadv_iv_gw_get_best_gw_node ex_gw_objs (ex_gws 20) = Some (ex_gw 1 100)
   \<and> iv_gw_rank ex_gw_objs 1 (ex_gw 1 100) = Some 152587 \<and> iv_gw_rank ex_gw_objs 1 (ex_gw 2 1000) = Some 858306"
proof -
  have r: "iv_gw_rank ex_gw_objs 1 (ex_gw 1 100) = Some 152587" "iv_gw_rank ex_gw_objs 1 (ex_gw 2 1000) = Some 858306"
    "iv_gw_rank ex_gw_objs 20 (ex_gw 1 100) = Some 200" "iv_gw_rank ex_gw_objs 20 (ex_gw 2 1000) = Some 150"
    by (simp_all add: iv_gw_rank_def ex_gw_tq ex_gw_def)
  have l: "set (gw_gateway_list (ex_gws sel)) = {ex_gw 1 100, ex_gw 2 1000}" "gw_sel_class (ex_gws sel) = sel" for sel
    by (simp_all add: ex_gws_def)
  have t: "iv_gw_tq ex_gw_objs (gn_orig_node (ex_gw 1 100)) = Some 200" by (simp add: ex_gw_tq ex_gw_def)
  show ?thesis
    using iv_best_gateway_maximal [where objs = ex_gw_objs and gw = "ex_gws 1"] iv_best_gateway_maximal [where objs = ex_gw_objs and gw = "ex_gws 20"] r l t
    by (auto split: option.splits)
qed

end
