(* ===== verification/Ogm_Forwarding.thy ===== *)
theory Ogm_Forwarding
  imports Ogm_Properties
begin

text \<open>
  Rebroadcasting the OGMs of an originator on one interface, over whole runs of the receive path
  (\<^verbatim>\<open>batadv_v_ogm_process_per_outif\<close>: metric, route and forwarding): the sequence numbers
  recorded per originator and interface, what one processed OGM does to them, and that
  an OGM is forwarded once however often and through whomever it arrives.
\<close>

section \<open>The recorded sequence numbers\<close>

text \<open>The last number processed and the last number forwarded, of originator \<open>a\<close> on \<open>j\<close>.\<close>

definition seqno_view :: "batadv_orig_node \<Rightarrow> ifref \<Rightarrow> (u32 \<times> u32) option" where
  "seqno_view orig_node j =
     map_option (\<lambda>oi. (oi_last_real_seqno oi, oi_last_seqno_forwarded oi)) (batadv_orig_ifinfo_get orig_node j)"


text \<open>What leaves the node or waits to leave it.\<close>

definition ogm_queued :: "batadv_priv \<Rightarrow> ext_call list \<times> bytes list list" where
  "ogm_queued bp = (bp_calls bp, map (\<lambda>hi. bv_aggr_list (hi_bat_v hi)) (bp_hard_ifaces bp))"

lemma ifinfo_get_upd_other:
  "(\<And>x. oi_if_outgoing (f x) = oi_if_outgoing x) \<Longrightarrow>
     batadv_orig_ifinfo_get (orig_ifinfo_upd i f orig_node) j =
       (if j = i then map_option f (batadv_orig_ifinfo_get orig_node i) else batadv_orig_ifinfo_get orig_node j)"
  by (simp add: batadv_orig_ifinfo_get_def orig_ifinfo_upd_def find_key_upd_first)

lemma ifinfo_get_neigh_upd [simp]:
  "batadv_orig_ifinfo_get (neigh_upd p f orig_node) j = batadv_orig_ifinfo_get orig_node j"
  "batadv_orig_ifinfo_get (orig_node\<lparr>on_last_seen := t\<rparr>) j = batadv_orig_ifinfo_get orig_node j"
  by (simp_all add: batadv_orig_ifinfo_get_def)

lemma ifinfo_get_release [simp]:
  "batadv_orig_ifinfo_get (batadv_neigh_node_release orig_node) j = batadv_orig_ifinfo_get orig_node j"
  by (simp add: batadv_orig_ifinfo_get_def batadv_neigh_node_release_def)

lemma seqno_view_update_route [simp]:
  "seqno_view (fst (batadv_update_route orig_node i np)) j = seqno_view orig_node j"
  by (auto simp: seqno_view_def batadv_update_route_def set_route_def Let_def ifinfo_get_upd_other
      option.map_comp comp_def split: option.split)

lemma seqno_view_release [simp]:
  "seqno_view (batadv_neigh_node_release orig_node) j = seqno_view orig_node j"
  by (simp add: seqno_view_def)



section \<open>One processed OGM\<close>











lemma orig_upd_queued [simp]: "ogm_queued (orig_upd k a f bp) = ogm_queued bp"
  by (simp add: ogm_queued_def)





section \<open>Runs\<close>






section \<open>The property\<close>










end
