(* ===== verification/Own_Ogm.thy ===== *)
theory Own_Ogm
  imports Ogm_Properties Tt_Accounting
begin

text \<open>
  The worker of the own OGM (\<^verbatim>\<open>bat_v_ogm.c\<close>) together with the code it calls to
  commit the translation table (\<^verbatim>\<open>translation-table.c\<close>): the model of
  \<^verbatim>\<open>batadv_tt_local_commit_changes\<close> does what the worker asks of it.
\<close>

text \<open>The commit, as the worker calls it: on the mesh interface's private data.\<close>

definition mesh_commit :: "tt_kenv \<Rightarrow> mesh \<Rightarrow> batadv_priv \<Rightarrow> batadv_priv" where
  "mesh_commit k ms bp =
     (case batadv_tt_local_commit_changes k (ms\<lparr>ms_priv := bp\<rparr>) of
        Kernel_bug \<Rightarrow> bp
      | Kret ms' \<Rightarrow> ms_priv ms')"

lemma register_prefix_inv:
  assumes "containers_inv cl" and "unat len \<le> length v"
  shows "containers_inv (batadv_tvlv_container_register alloc type version (Some v) len cl)"
proof -
  have "batadv_tvlv_container_register alloc type version (Some v) len cl =
      batadv_tvlv_container_register alloc type version (Some (take (unat len) v)) len cl"
    by (simp add: batadv_tvlv_container_register_def)
  then show ?thesis using register_inv [OF assms(1), of "take (unat len) v" len] assms(2) by simp
qed

lemma mem_write_length: "mem_write buf off bs = Kret buf' \<Longrightarrow> length buf' = length buf \<and> off + length bs \<le> length buf"
  by (auto simp: mem_write_def split: if_splits)

lemma tt_write_vlans_length:
  "tt_write_vlans vs off buf = Kret buf' \<Longrightarrow>
     length buf' = length buf \<and> (off \<le> length buf \<longrightarrow> off + 8 * length vs \<le> length buf)"
proof (induction vs arbitrary: off buf)
  case (Cons v vs)
  obtain b where b: "mem_write buf off (tt_vlan_data_bytes v) = Kret b" "tt_write_vlans vs (off + 8) b = Kret buf'"
    using Cons.prems by (auto elim: kbind_KretE)
  show ?case using Cons.IH [OF b(2)] mem_write_length [OF b(1)] by (auto simp: ttv_fmt.length_enc)
qed simp

lemma tt_write_changes_length:
  "tt_write_changes cs off buf = Kret buf' \<Longrightarrow>
     length buf' = length buf \<and> (off \<le> length buf \<longrightarrow> off + 12 * length cs \<le> length buf)"
proof (induction cs arbitrary: off buf)
  case (Cons c cs)
  obtain b where b: "mem_write buf off (tt_change_bytes c) = Kret b" "tt_write_changes cs (off + 12) b = Kret buf'"
    using Cons.prems by (auto elim: kbind_KretE)
  show ?case using Cons.IH [OF b(2)] mem_write_length [OF b(1)] by (auto simp: ttc_fmt.length_enc)
qed simp

text \<open>
  The length registered for the container is never more than the buffer holds: where the 16 bit
  arithmetic would wrap, writing the VLAN records or the changes runs over the buffer first.
\<close>

lemma local_data_length:
  assumes "batadv_tt_prepare_tvlv_local_data k ms (12 * int n) = Kret (tlen, Some buf, off, dlen)"
    and "kmalloc_ok (tt_kmalloc k)"
  shows "length buf = unat tlen \<and> tlen = of_nat (off + 12 * n) \<and> dlen = 12 * int n \<and> off \<le> length buf"
proof -
  define vs where "vs = tt_announced_vlans ms"
  define nv where "nv = (of_nat (length vs) :: u16)"
  obtain b0 b1 where w: "off = 4 + 8 * unat nv" "dlen = 12 * int n"
      "tlen = of_int (12 * int n) + of_nat off" "tt_kmalloc k (unat tlen) = Some b0"
      "mem_write b0 0 (tt_data_bytes \<lparr>td_flags = BATADV_NO_FLAGS, td_ttvn = ucast (tt_vn ms), td_num_vlan = nv\<rparr>) = Kret b1"
      "tt_write_vlans (map (\<lambda>vlan. \<lparr>vd_crc = mv_crc vlan, vd_vid = mv_vid vlan\<rparr>) vs) 4 b1 = Kret buf"
    using assms(1)
    by (auto simp: batadv_tt_prepare_tvlv_local_data_def Let_def vs_def nv_def elim!: kbind_KretE
        split: option.splits)
  have len: "length buf = unat tlen" "4 + 8 * length vs \<le> length buf"
    using mem_write_length [OF w(5)] tt_write_vlans_length [OF w(6)] assms(2) w(4)
    by (auto simp: kmalloc_ok_def ttd_fmt.length_enc)
  then have "length vs < 2 ^ 16" using unat_less_u16 [of tlen] by simp
  then have "unat nv = length vs" unfolding nv_def by (rule unat_of_nat_u16)
  moreover have "tlen = of_nat (off + 12 * n)" by (simp add: w(3))
  ultimately show ?thesis using len w(1,2) by simp
qed

lemma container_update_cases:
  assumes "batadv_tt_tvlv_container_update k ms = Kret ms'"
  obtains n tlen data off dlen where
    "batadv_tt_prepare_tvlv_local_data k ms (batadv_tt_len (int n)) = Kret (tlen, data, off, dlen)"
    "ms' = ms \<or> (\<exists>buf b1 b2 len ms1. data = Some buf \<and> mem_write buf 0 [BATADV_TT_OGM_DIFF] = Kret b1
       \<and> ms' = ms_container_register k b2 len ms1 \<and> ms_priv ms1 = ms_priv ms
       \<and> (b2 = b1 \<and> len = tlen
         \<or> (\<exists>sent. length sent \<le> n \<and> tt_write_changes sent off b1 = Kret b2
              \<and> len = tlen - of_int (batadv_tt_len (int n - int (length sent))))))"
proof -
  define d where "d \<longleftrightarrow> batadv_tt_len (int (tt_local_changes ms)) > ms_mtu ms"
  define n where "n = (if d then 0 else tt_local_changes ms)"
  define sent where "sent = take n (tt_changes_list ms)"
  have sent: "length sent \<le> n" by (simp add: sent_def)
  note e = assms [unfolded batadv_tt_tvlv_container_update_def Let_def, folded d_def, folded n_def, folded sent_def]
  obtain tlen data off dlen where p: "batadv_tt_prepare_tvlv_local_data k ms (batadv_tt_len (int n)) = Kret (tlen, data, off, dlen)"
    using e by (auto elim!: kbind_KretE)
  consider "ms' = ms" | buf b1 where "data = Some buf" "mem_write buf 0 [BATADV_TT_OGM_DIFF] = Kret b1"
      "ms' = ms_container_register k b1 tlen ms"
    | buf b1 b2 ms1 where "data = Some buf" "mem_write buf 0 [BATADV_TT_OGM_DIFF] = Kret b1"
      "tt_write_changes sent off b1 = Kret b2" "ms_priv ms1 = ms_priv ms"
      "ms' = ms_container_register k b2 (tlen - of_int (batadv_tt_len (int n - int (length sent)))) ms1"
  proof (cases data)
    case None
    then show ?thesis using e p that(1) by simp
  next
    case (Some buf)
    show ?thesis
    proof (cases "tlen = 0")
      case True
      then show ?thesis using e p Some that(1) by simp
    next
      case tlen: False
      obtain b1 where b1: "mem_write buf 0 [BATADV_TT_OGM_DIFF] = Kret b1"
        using e p Some tlen by (auto elim!: kbind_KretE)
      show ?thesis
      proof (cases "\<not> d \<and> dlen = 0")
        case True
        then show ?thesis using e p Some tlen b1 that(2) [OF Some b1] by simp
      next
        case False
        then obtain b2 where b2: "tt_write_changes sent off b1 = Kret b2"
          using e p Some tlen b1 by (auto elim!: kbind_KretE)
        obtain c cl where "ms' = ms_container_register k b2 (tlen - of_int (batadv_tt_len (int n - int (length sent))))
            (ms\<lparr>tt_local_changes := 0, tt_changes_list := [], tt_last_changeset := c, tt_last_changeset_len := cl\<rparr>)"
          using e p Some tlen b1 b2 False by simp blast
        then show ?thesis by (rule that(3) [OF Some b1 b2, rotated]) simp
      qed
    qed
  qed
  then show ?thesis
  proof cases
    case 1
    then show ?thesis using that [OF p] by blast
  next
    case 2
    then show ?thesis using that [OF p] by blast
  next
    case 3
    then show ?thesis using that [OF p] sent by blast
  qed
qed

lemma container_update_priv:
  assumes "batadv_tt_tvlv_container_update k ms = Kret ms'" and "kmalloc_ok (tt_kmalloc k)"
  shows "bp_bat_v (ms_priv ms') = bp_bat_v (ms_priv ms) \<and> bp_hard_ifaces (ms_priv ms') = bp_hard_ifaces (ms_priv ms)
    \<and> (containers_inv (bp_tvlv_container_list (ms_priv ms)) \<longrightarrow>
         containers_inv (bp_tvlv_container_list (ms_priv ms')))"
proof (rule container_update_cases [OF assms(1)])
  fix n tlen data off dlen
  assume p: "batadv_tt_prepare_tvlv_local_data k ms (batadv_tt_len (int n)) = Kret (tlen, data, off, dlen)"
    and c: "ms' = ms \<or> (\<exists>buf b1 b2 len ms1. data = Some buf \<and> mem_write buf 0 [BATADV_TT_OGM_DIFF] = Kret b1
       \<and> ms' = ms_container_register k b2 len ms1 \<and> ms_priv ms1 = ms_priv ms
       \<and> (b2 = b1 \<and> len = tlen
         \<or> (\<exists>sent. length sent \<le> n \<and> tt_write_changes sent off b1 = Kret b2
              \<and> len = tlen - of_int (batadv_tt_len (int n - int (length sent))))))"
  have "unat len \<le> length b2"
    if "data = Some buf" "mem_write buf 0 [BATADV_TT_OGM_DIFF] = Kret b1"
      "b2 = b1 \<and> len = tlen \<or> (\<exists>sent. length sent \<le> n \<and> tt_write_changes sent off b1 = Kret b2
              \<and> len = tlen - of_int (batadv_tt_len (int n - int (length sent))))" for buf b1 b2 len
  proof -
    have l: "length buf = unat tlen" "tlen = of_nat (off + 12 * n)" "off \<le> length buf" "length b1 = length buf"
      using local_data_length [of k ms n tlen buf off dlen] p that(1) assms(2) mem_write_length [OF that(2)]
      by (auto simp: batadv_tt_len_def mult.commute)
    show ?thesis using that(3)
    proof (elim disjE exE conjE)
      fix sent assume w: "length sent \<le> n" "tt_write_changes sent off b1 = Kret b2"
        "len = tlen - of_int (batadv_tt_len (int n - int (length sent)))"
      have b2: "length b2 = length buf" "off + 12 * length sent \<le> length buf"
        using tt_write_changes_length [OF w(2)] l(3,4) by auto
      have "len = of_nat (off + 12 * length sent)"
        using w(1,3) l(2) by (simp add: batadv_tt_len_def of_nat_diff algebra_simps)
      moreover have "unat (of_nat (off + 12 * length sent) :: u16) = off + 12 * length sent"
        using b2(2) l(1) unat_less_u16 [of tlen] by (intro unat_of_nat_u16) simp
      ultimately show ?thesis using b2 by simp
    qed (use l in simp)
  qed
  then have "ms' = ms \<or> (\<exists>v len ms1. ms' = ms_container_register k v len ms1 \<and> ms_priv ms1 = ms_priv ms
      \<and> unat len \<le> length v)"
    using c by blast
  then show ?thesis by (auto simp: ms_container_register_def register_prefix_inv)
qed

lemma commit_priv [simp]:
  "ms_priv (batadv_tt_local_set_flags fl e c ms) = ms_priv ms"
  "ms_priv (batadv_tt_local_purge_pending_clients ms) = ms_priv ms"
  "ms_priv (batadv_tt_local_update_crc k ms) = ms_priv ms"
proof -
  have m: "ms_priv (batadv_tt_local_size_mod vid v ms) = ms_priv ms" for vid v ms
    by (auto simp: batadv_tt_local_size_mod_def Let_def split: option.split)
  have f: "ms_priv (foldl (\<lambda>ms e. batadv_tt_local_size_mod (tc_vid e) v ms) ms es) = ms_priv ms" for v es ms
    by (induction es arbitrary: ms) (simp_all add: m)
  show "ms_priv (batadv_tt_local_set_flags fl e c ms) = ms_priv ms"
    "ms_priv (batadv_tt_local_purge_pending_clients ms) = ms_priv ms"
    "ms_priv (batadv_tt_local_update_crc k ms) = ms_priv ms"
    by (auto simp: batadv_tt_local_set_flags_def batadv_tt_local_purge_pending_clients_def
        batadv_tt_local_update_crc_def batadv_tt_local_size_inc_def batadv_tt_local_size_dec_def Let_def f
        split: option.split)
qed

lemma mesh_commit_ok:
  assumes "kmalloc_ok (tt_kmalloc k)"
  shows "tt_commit_ok (mesh_commit k ms)"
proof -
  have "bp_bat_v (ms_priv ms') = bp_bat_v b \<and> bp_hard_ifaces (ms_priv ms') = bp_hard_ifaces b
      \<and> (containers_inv (bp_tvlv_container_list b) \<longrightarrow> containers_inv (bp_tvlv_container_list (ms_priv ms')))"
    if "batadv_tt_local_commit_changes k (ms\<lparr>ms_priv := b\<rparr>) = Kret ms'" for b ms'
    using that container_update_priv [OF _ assms]
    by (fastforce simp: batadv_tt_local_commit_changes_def tt_local_commit_changes_nolock_def Let_def
        split: if_splits)
  then show ?thesis by (auto simp: tt_commit_ok_def mesh_commit_def split: kresult.split)
qed

text \<open>
  C24: The own OGM keeps going. On a node in order whose mesh is not being taken down, whenever
  the buffer for the containers can be allocated, the periodic worker returns, leaves its timer
  armed and the node in order, and (unless the frame itself cannot be allocated) uses the next
  sequence number. Of the commit of the translation table it asks \<open>tt_commit_ok\<close>: the containers
  stay well formed, interfaces and OGM buffer are left alone, which \<open>mesh_commit_ok\<close>
  proves of the modelled \<^verbatim>\<open>batadv_tt_local_commit_changes\<close>; and the containers of this
  round must leave 7 of the 65535 bytes of the length field to the node's weight.
\<close>

theorem own_ogm_keeps_going:
  assumes "bp_mesh_state bp \<noteq> BATADV_MESH_DEACTIVATING" and "ogm_node_inv bp"
    and "ogm_buff (bp_bat_v bp) \<noteq> None" and "tt_commit_ok tt_commit"
    and "length (containers_bytes (bp_tvlv_container_list
           (tt_commit (bp\<lparr>bp_bat_v := (bp_bat_v bp)\<lparr>ogm_wq_pending := False\<rparr>\<rparr>)))) + 7 < 2 ^ 16"
    and "kmalloc_ok kmalloc" and "\<forall>n. kmalloc n \<noteq> None"
  shows "\<exists>bp'. batadv_v_ogm_send k kmalloc random_below tt_commit bp = Kret bp'
    \<and> ogm_wq_pending (bp_bat_v bp') \<and> ogm_node_inv bp'
    \<and> ogm_seqno (bp_bat_v bp') = ogm_seqno (bp_bat_v bp) + (if kalloc_ok k (Alloc_skb None) then 1 else 0)"
  using own_send_keeps [OF assms] by blast

text \<open>The witness commits an empty translation table by the code's own commit.\<close>

lemma ex_commit_bytes:
  "length (containers_bytes (bp_tvlv_container_list (mesh_commit ex_tt_kenv ex_tt_mesh
     (ex_own\<lparr>bp_bat_v := (bp_bat_v ex_own)\<lparr>ogm_wq_pending := False\<rparr>\<rparr>)))) = 8"
  by (simp add: mesh_commit_def batadv_tt_local_commit_changes_def tt_local_commit_changes_nolock_def
      batadv_tt_tvlv_container_update_def batadv_tt_prepare_tvlv_local_data_def tt_announced_vlans_def
      ex_tt_mesh_def batadv_tt_len_def ex_tt_kenv_def Let_def mem_write_def ttd_fmt.length_enc
      ms_container_register_def ex_own_def ex_mesh_def ex_priv_def container_register_unfold
      container_bytes_def tvlv_fmt.length_enc)

theorem own_ogm_keeps_going_witness:
  "\<exists>bp'. batadv_v_ogm_send ex_kenv (\<lambda>n. Some (replicate n 0)) (\<lambda>n. 0) (mesh_commit ex_tt_kenv ex_tt_mesh) ex_own = Kret bp'
    \<and> ogm_wq_pending (bp_bat_v bp') \<and> ogm_node_inv bp' \<and> ogm_seqno (bp_bat_v bp') = 10"
proof -
  have "kmalloc_ok (tt_kmalloc ex_tt_kenv)" by (simp add: kmalloc_ok_def ex_tt_kenv_def)
  then show ?thesis
    using own_ogm_keeps_going [OF ex_own_state(1) ex_own_inv ex_own_state(2) mesh_commit_ok _ ex_own_env(1,2),
        of ex_tt_kenv ex_tt_mesh ex_kenv "\<lambda>n. 0"] ex_own_state(3,4)
    by (simp add: ex_commit_bytes)
qed

end
