(* ===== verification/Spec2Isabelle.thy ===== *)
theory Spec2Isabelle
  imports Bat_V Ogm_Properties Tp_Properties Tt_Accounting Bla_Properties Forw_Queue Rx_Properties Dat_Properties Iv_Routes Ogm_Forwarding Own_Ogm
begin

text \<open>
  A verification library for batman-adv, the kernel module for layer 2 mesh routing under
  \<^verbatim>\<open>src/net/batman-adv/\<close>, in the variant whose B.A.T.M.A.N. V routes by airtime cost and node
  weights.

  \<^bold>\<open>The program and its model.\<close> A mesh interface (\<^verbatim>\<open>struct batadv_priv\<close>) runs a routing
  algorithm over hard interfaces. Nodes measure their links (ELP), flood originator messages
  (OGM) that carry a path cost and TVLV containers, keep for every originator the neighbours
  that lead to it and choose a router per outgoing interface; payload is sent to the router,
  in fragments when it does not fit. Each part is a theory, in the order the code calls them:

  \<^item> \<open>Batadv_Prelude\<close>: machine words, addresses, byte order, checked memory accesses, lists
    of kernel objects, time, sequence number comparison; the locale \<open>registry\<close> (a keyed
    collection that behaves as a map), interpreted by every registry of the module.
  \<^item> \<open>Packets\<close> (\<^verbatim>\<open>batadv_packet.h\<close>): headers as records with their byte layout, each an
    interpretation of the locale \<open>wire_format\<close>; socket buffers.
  \<^item> \<open>Bitarray\<close> (\<^verbatim>\<open>bitarray.c\<close>): the sliding window of sequence numbers refines a set.
  \<^item> \<open>Hashtable\<close> (\<^verbatim>\<open>hash.c\<close>, \<^verbatim>\<open>hash.h\<close>): the bucket table; the locale \<open>hash_client\<close> states
    what a client's callbacks owe it, a \<open>sublocale\<close> makes every client a \<open>registry\<close>.
  \<^item> \<open>Fragmentation\<close> (\<^verbatim>\<open>fragmentation.c\<close>): splitting, buffering and merging; round trip in
    any order of arrival, memory safety, MTU bound.
  \<^item> \<open>Tvlv\<close> (\<^verbatim>\<open>tvlv.c\<close>): container and handler registries, appending and parsing; what one
    node appends another node's handlers receive, and parsing stays inside the buffer.
  \<^item> \<open>Mesh_State\<close> (\<^verbatim>\<open>types.h\<close>): the records of interfaces, neighbours, originators, gateways
    and of the mesh interface.
  \<^item> \<open>Originator\<close> (\<^verbatim>\<open>originator.c\<close>): lookup, creation, routers, purge; a step relation of
    everything that happens to an originator and its invariant.
  \<^item> \<open>Routing\<close> (\<^verbatim>\<open>routing.c\<close>): restart protection, router selection with bonding, the
    duplicate filter of broadcasts (locale \<open>dup_filter\<close>).
  \<^item> \<open>Bat_V_Elp\<close> (\<^verbatim>\<open>bat_v_elp.c\<close>): the airtime metric of a link, exactly, and where it wraps.
  \<^item> \<open>Bat_V_Ogm\<close>, \<open>Ogm_Properties\<close> (\<^verbatim>\<open>bat_v_ogm.c\<close>): aggregation, metric, routes and
    forwarding of OGMs; memory safety of all paths (every header read and copy is checked in the
    model), routes, exactness of costs and weights, the roundtrip of weights between nodes.
  \<^item> \<open>Ogm_Forwarding\<close>: the sequence numbers recorded per originator and interface over
    runs of the receive path; an OGM is forwarded once.
  \<^item> \<open>Own_Ogm\<close>: the worker of the own OGM together with the commit of the translation table,
    whose model is proved to do what the worker asks of it.
  \<^item> \<open>Gateway\<close> (\<^verbatim>\<open>gateway_client.c\<close>, \<^verbatim>\<open>gateway_common.c\<close>): the gateway list refines a map,
    DHCP inspection stays in bounds.
  \<^item> \<open>Bat_V\<close> (\<^verbatim>\<open>bat_v.c\<close>): the algorithm's callbacks; the best gateway and the best
    neighbour (interpretation of the locale \<open>neigh_order\<close> of \<open>Originator\<close>).
  \<^item> \<open>Tp_Meter\<close>, \<open>Tp_Properties\<close> (\<^verbatim>\<open>tp_meter.c\<close>): the throughput meter's sessions, timers,
    threads, window and timeout arithmetic; only received bytes are acknowledged, sessions and
    references are accounted exactly, when stopping all sessions returns and when its caller
    waits for a thread that keeps sending.
  \<^item> \<open>Translation_Table\<close>, \<open>Tt_Properties\<close> (\<^verbatim>\<open>translation-table.c\<close>): the tables of the
    clients of this node and of the others, changes, requests, responses and roaming, down to
    the bytes of the messages; where a response is read past its end, what a request repeats,
    how roaming is limited.
  \<^item> \<open>Tt_Accounting\<close>: the counters of clients that originators carry agree with the
    global table, over all its operations and the purge of originators.
  \<^item> \<open>Bridge_Loop_Avoidance\<close>, \<open>Bla_Accounting\<close>, \<open>Bla_Properties\<close>
    (\<^verbatim>\<open>bridge_loop_avoidance.c\<close>): gateways, claims and their frames on the LAN; checksums and
    request counts agree with the tables in every reachable state, frames are read back by
    peers, a request and its answer synchronise two nodes, the ring of broadcasts is a queue.
  \<^item> \<open>Sending\<close> (\<^verbatim>\<open>send.c\<close>): the \<open>node\<close> record, which joins the parts above into one
    state; sending to an originator, to the translation table's choice and to the gateway,
    broadcasts, forward packets with their queues and the purge.
  \<^item> \<open>Dat\<close> (\<^verbatim>\<open>distributed-arp-table.c\<close>): the table of addresses, the candidates of the
    distributed hash table, snooping of ARP and DHCP; the worker of a forward packet.
  \<^item> \<open>Receiving\<close> (\<^verbatim>\<open>main.c\<close>, \<^verbatim>\<open>routing.c\<close>): the handler of every packet type, the delivery to
    the mesh interface, and the entry point of received packets.
  \<^item> \<open>Forw_Queue\<close>: a step relation of broadcasts, timers, workers and purges; no forward
    packet is lost, used after it was freed or counted twice, and the queue drains.
  \<^item> \<open>Rx_Properties\<close>: the receive path returns, how deep it recurses, and that fragments
    keep the tables of originators well formed.
  \<^item> \<open>Dat_Properties\<close>: the candidates of an address are the closest originators, and a built
    ARP reply is learnt by the node that receives it.
  \<^item> \<open>Bat_Iv\<close>, \<open>Bat_Iv_Ogm\<close> (\<^verbatim>\<open>bat_iv_ogm.c\<close>, \<^verbatim>\<open>bat_algo.c\<close>): the older algorithm:
    windows and ring buffers, link quality, route choice, gateways; queue and aggregation, own
    OGMs, reception and processing; the registry of algorithms.
  \<^item> \<open>Iv_Metric\<close>, \<open>Iv_Receive\<close>, \<open>Iv_Echo\<close>, \<open>Iv_Routes\<close>: its link quality never wraps;
    reception keeps the counters consistent and forwards no OGM better than it came; the echo
    window refines a set of own OGMs; routers and gateways are maximal.

  \<^bold>\<open>Conventions.\<close> Operations are functions from the state they touch to the new state and
  their result. Integers keep the width of the C type. A \<open>kresult\<close> is \<open>Kernel_bug\<close> where the
  code would access memory outside an object or divide by zero, so a theorem that a result
  is \<open>Kret\<close> is a safety theorem. Allocation results, the clock, random numbers, the hash
  function and driver queries are parameters; what is needed of them is a hypothesis. Calls
  into parts outside the model are recorded in order in \<open>bp_calls\<close>. Signed overflow wraps,
  as the kernel is compiled with \<^verbatim>\<open>-fno-strict-overflow\<close>. Objects that code compares by
  pointer carry an address; an object that is no longer linked but still referenced is kept in
  a list of its own. All functions terminate: loops are structural recursions over the list
  or buffer they walk, the TVLV parser by the remaining length. Fuel is used in two places: the
  depth of the recursion of \<open>batadv_batman_skb_recv\<close> (\<open>recv_returns\<close> gives a depth that is
  enough) and the number of runs in \<open>bcast_drain\<close> (\<open>bcast_queue_drains\<close> gives it). A caller that waits for a thread is
  given the thread's iterations (\<open>tp_wait_finished\<close>) and its result is \<open>None\<close> while it waits. Outcomes of
  calls into the network stack are indexed by the position in \<open>nd_out\<close>, the sequence of what the
  node hands out, so that two calls may end differently.

  \<^bold>\<open>Not modelled.\<close> Locks and RCU have no counterpart (operations are atomic steps; the step
  relations interleave them in any order). Reference counts are those of the throughput
  sessions only; elsewhere an object is released at the end of the operation that leaves no
  pointer to it, so nothing is claimed of the counting itself. Netlink, logging, the
  network device glue and the tool \<^verbatim>\<open>batctl\<close> are input and output.
\<close>

end
